(* ===== verification/Prelude.thy ===== *)
theory Prelude
  imports Main "HOL-Library.Word"
begin

text \<open>
  Shared vocabulary of the development: the machine types of
  \<^verbatim>\<open>platform/inc/ezos_def.h\<close>, the C library operations on byte buffers and
  strings the sources use, the allocator, and the list and word lemmas that the
  component theories share. The named collections declared here are filled by
  the components and used as \<^verbatim>\<open>simp add:\<close> sets by the proofs above them.
\<close>

section \<open>Collections\<close>

named_theorems kernel_defs \<open>definitions of operations, unfolded in component proofs\<close>
named_theorems frame_simps \<open>fields an operation leaves unchanged\<close>
named_theorems inv_intros \<open>operations preserve the component invariants\<close>

section \<open>Machine types\<close>

type_synonym byte = "8 word"
type_synonym uint8 = "8 word"
type_synonym uint16 = "16 word"
type_synonym uint32 = "32 word"

section \<open>Bytes and C strings\<close>

text \<open>
  A C string held in a buffer is the bytes before its first NUL. Text fields
  are modelled by that content (type \<^typ>\<open>string\<close>); key material and payloads,
  which may hold NUL bytes, are byte lists of the buffer's length.
\<close>

definition c_str :: "byte list \<Rightarrow> byte list" where
  "c_str buf = takeWhile (\<lambda>b. b \<noteq> 0) buf"

text \<open>\<^verbatim>\<open>strcmp("", buf) == 0\<close>: the test the sources use for an unset key.\<close>

definition c_empty :: "byte list \<Rightarrow> bool" where
  "c_empty buf \<longleftrightarrow> c_str buf = []"

text \<open>\<^verbatim>\<open>memset(buf, 0, n)\<close> over a whole buffer of \<^verbatim>\<open>n\<close> bytes.\<close>

definition zeros :: "nat \<Rightarrow> byte list" where
  "zeros n = replicate n 0"

text \<open>
  \<^verbatim>\<open>strncpy(dst, src, n)\<close> into a zeroed destination with room for more than
  \<^verbatim>\<open>n\<close> bytes: at most \<^verbatim>\<open>n\<close> characters of the source.
\<close>

definition strncpy :: "string \<Rightarrow> nat \<Rightarrow> string" where
  "strncpy src n = take n src"

text \<open>
  \<^verbatim>\<open>strncpy\<close> of a C string into a byte buffer of exactly \<^verbatim>\<open>n\<close> bytes: the
  string's bytes, the rest filled with NUL; no terminator when the string is
  \<^verbatim>\<open>n\<close> bytes or longer.
\<close>

definition strncpy_buf :: "byte list \<Rightarrow> nat \<Rightarrow> byte list" where
  "strncpy_buf src n = take n (c_str src @ zeros n)"

lemma length_zeros [simp]: "length (zeros n) = n"
  by (simp add: zeros_def)

lemma c_empty_zeros [simp]: "c_empty (zeros n)"
  by (cases n) (simp_all add: c_empty_def c_str_def zeros_def)

lemma c_empty_Cons [simp]: "c_empty (b # bs) \<longleftrightarrow> b = 0"
  by (auto simp: c_empty_def c_str_def)

lemma length_strncpy_buf [simp]: "length (strncpy_buf src n) = n"
  by (simp add: strncpy_buf_def)

lemma length_strncpy [simp]: "length (strncpy s n) \<le> n"
  by (simp add: strncpy_def)

lemma strncpy_id: "length s \<le> n \<Longrightarrow> strncpy s n = s"
  by (simp add: strncpy_def)

text \<open>Decimal output of \<^verbatim>\<open>printf\<close>'s \<^verbatim>\<open>%d\<close>, and \<^verbatim>\<open>atoi\<close>.\<close>

definition digit :: "nat \<Rightarrow> char" where
  "digit d = char_of (48 + d)"

fun dec_nat :: "nat \<Rightarrow> string" where
  "dec_nat n = (if n < 10 then [digit n] else dec_nat (n div 10) @ [digit (n mod 10)])"

declare dec_nat.simps [simp del]

definition dec_int :: "int \<Rightarrow> string" where
  "dec_int i = (if i < 0 then CHR ''-'' # dec_nat (nat (- i)) else dec_nat (nat i))"

definition is_digit :: "char \<Rightarrow> bool" where
  "is_digit c \<longleftrightarrow> 48 \<le> (of_char c :: nat) \<and> (of_char c :: nat) \<le> 57"

fun atoi_digits :: "nat \<Rightarrow> string \<Rightarrow> nat" where
  "atoi_digits acc [] = acc"
| "atoi_digits acc (c # cs) =
     (if is_digit c then atoi_digits (acc * 10 + (of_char c - 48)) cs else acc)"

definition is_space :: "char \<Rightarrow> bool" where
  "is_space c \<longleftrightarrow> of_char c = (32 :: nat) \<or> (9 \<le> (of_char c :: nat) \<and> (of_char c :: nat) \<le> 13)"

definition atoi :: "string \<Rightarrow> int" where
  "atoi s = (case dropWhile is_space s of
      [] \<Rightarrow> 0
    | c # cs \<Rightarrow> if c = CHR ''-'' then - int (atoi_digits 0 cs)
        else if c = CHR ''+'' then int (atoi_digits 0 cs)
        else int (atoi_digits 0 (c # cs)))"

lemma of_char_digit [simp]: "d < 10 \<Longrightarrow> (of_char (digit d) :: nat) = 48 + d"
  by (simp add: digit_def)

lemma is_digit_digit [simp]: "d < 10 \<Longrightarrow> is_digit (digit d)"
  by (simp add: is_digit_def)

lemma atoi_digits_append:
  "list_all is_digit xs \<Longrightarrow> atoi_digits acc (xs @ ys) = atoi_digits (atoi_digits acc xs) ys"
  by (induction xs arbitrary: acc) simp_all

lemma dec_nat_digits: "list_all is_digit (dec_nat n) \<and> dec_nat n \<noteq> []"
proof (induction n rule: dec_nat.induct)
  case (1 n)
  then show ?case by (simp add: dec_nat.simps [of n])
qed

lemma atoi_digits_dec_nat: "atoi_digits 0 (dec_nat n) = n"
proof (induction n rule: dec_nat.induct)
  case (1 n)
  then show ?case
    by (simp add: dec_nat.simps [of n] atoi_digits_append dec_nat_digits)
qed

lemma is_digit_not_sign: "is_digit c \<Longrightarrow> \<not> is_space c \<and> c \<noteq> CHR ''-'' \<and> c \<noteq> CHR ''+''"
  by (auto simp: is_digit_def is_space_def)

text \<open>Reading back a printed number gives the number.\<close>

lemma atoi_dec_nat: "atoi (dec_nat n) = int n"
proof -
  obtain c cs where c: "dec_nat n = c # cs" "is_digit c"
    using dec_nat_digits [of n] by (cases "dec_nat n") auto
  with is_digit_not_sign [OF c(2)] atoi_digits_dec_nat [of n] show ?thesis
    by (simp add: atoi_def)
qed

section \<open>The allocator\<close>

text \<open>
  \<^verbatim>\<open>ezos_malloc\<close> may fail. Its answers are inputs of the model: a list of
  booleans, one per coming call, and success once the list is used up. The
  ghost counter \<^verbatim>\<open>live\<close> holds the number of blocks allocated and not yet
  freed, so that statements about leaks can be made.
\<close>

record mem =
  answers :: "bool list"
  live :: int

definition ezos_malloc :: "mem \<Rightarrow> bool \<times> mem" where
  "ezos_malloc m =
     (case answers m of
        [] \<Rightarrow> (True, m\<lparr>live := live m + 1\<rparr>)
      | ok # rest \<Rightarrow> (ok, m\<lparr>answers := rest, live := (if ok then live m + 1 else live m)\<rparr>))"

definition ezos_free :: "mem \<Rightarrow> mem" where
  "ezos_free m = m\<lparr>live := live m - 1\<rparr>"

definition ezos_frees :: "nat \<Rightarrow> mem \<Rightarrow> mem" where
  "ezos_frees n m = m\<lparr>live := live m - int n\<rparr>"

lemma malloc_live: "ezos_malloc m = (ok, m') \<Longrightarrow> live m' = live m + of_bool ok"
  by (auto simp: ezos_malloc_def split: list.splits)

lemma live_free [simp]: "live (ezos_free m) = live m - 1"
  by (simp add: ezos_free_def)

lemma live_frees [simp]: "live (ezos_frees n m) = live m - int n"
  by (simp add: ezos_frees_def)

lemma live_snd_malloc [simp]:
  "live (snd (ezos_malloc m)) = live m + of_bool (fst (ezos_malloc m))"
  by (simp add: malloc_live [of m "fst (ezos_malloc m)"])

section \<open>Lists\<close>

text \<open>Index of the first element with a property, the shape of the table searches.\<close>

fun first_index :: "('a \<Rightarrow> bool) \<Rightarrow> 'a list \<Rightarrow> nat option" where
  "first_index P [] = None"
| "first_index P (x # xs) = (if P x then Some 0 else map_option Suc (first_index P xs))"

lemma first_index_None: "first_index P xs = None \<longleftrightarrow> (\<forall>x \<in> set xs. \<not> P x)"
  by (induction xs) auto

lemma first_index_SomeD:
  "first_index P xs = Some i \<Longrightarrow> i < length xs \<and> P (xs ! i) \<and> (\<forall>j < i. \<not> P (xs ! j))"
proof (induction xs arbitrary: i)
  case Nil
  then show ?case by simp
next
  case (Cons x xs)
  show ?case
  proof (cases "P x")
    case True
    with Cons.prems show ?thesis by simp
  next
    case False
    with Cons.prems obtain k where k: "first_index P xs = Some k" and i: "i = Suc k"
      by auto
    from Cons.IH [OF k] i False show ?thesis
      by (auto simp: less_Suc_eq_0_disj)
  qed
qed

lemma first_index_iff:
  "first_index P xs = Some i \<longleftrightarrow> i < length xs \<and> P (xs ! i) \<and> (\<forall>j < i. \<not> P (xs ! j))"
proof
  assume "first_index P xs = Some i"
  then show "i < length xs \<and> P (xs ! i) \<and> (\<forall>j < i. \<not> P (xs ! j))"
    by (rule first_index_SomeD)
next
  assume R: "i < length xs \<and> P (xs ! i) \<and> (\<forall>j < i. \<not> P (xs ! j))"
  then obtain k where k: "first_index P xs = Some k"
    using nth_mem first_index_None by (metis not_Some_eq)
  from first_index_SomeD [OF k] R have "k = i"
    by (metis nat_neq_iff)
  with k show "first_index P xs = Some i" by simp
qed

lemma first_index_cong_set:
  "(\<And>x. x \<in> set xs \<Longrightarrow> P x = Q x) \<Longrightarrow> first_index P xs = first_index Q xs"
  by (induction xs) auto

text \<open>What every step of a loop keeps, the loop keeps.\<close>

lemma fold_keeps: "(\<And>x s. g (f x s) = g s) \<Longrightarrow> g (fold f xs s) = g s"
  by (induction xs arbitrary: s) simp_all

section \<open>Words\<close>

lemma unat_suc_below:
  "unat (a :: 'a::len word) < unat (b :: 'a word) \<Longrightarrow> unat (a + 1) = Suc (unat a)"
  by unat_arith

lemma unat_pred: "unat (a :: 'a::len word) = Suc n \<Longrightarrow> unat (a - 1) = n"
  by unat_arith

lemma unat_of_nat_small: "n < 2 ^ LENGTH('a) \<Longrightarrow> unat (of_nat n :: 'a::len word) = n"
  by (simp add: unat_of_nat)

lemma unat_bound: "unat (a :: 'a::len word) < 2 ^ LENGTH('a)"
  by (rule unsigned_less)

end
