(* ===== verification/Kernel_Errors.thy ===== *)
theory Kernel_Errors
  imports Prelude
begin

text \<open>
  The two error vocabularies of \<^verbatim>\<open>eziot/ez_iot_core\<close> and the translation between
  them. The internal codes of \<^verbatim>\<open>inc_private/mkernel_internal_error.h\<close> are C
  enumerators, that is integers, and the code computes with them
  (\<^verbatim>\<open>mkernel_internal_mqtt_error_begin + mqtt_result_code\<close>), so they are integer
  constants here as well. \<^verbatim>\<open>mkiE2ezE\<close> maps them to the public codes of
  \<^verbatim>\<open>inc/ez_iot_core_def.h\<close>.
\<close>

section \<open>Internal error codes\<close>

type_synonym mkernel_internal_error = int

abbreviation mkernel_internal_succ :: mkernel_internal_error where
  "mkernel_internal_succ \<equiv> 0"

abbreviation mkernel_internal_no_start :: mkernel_internal_error where
  "mkernel_internal_no_start \<equiv> 1"

abbreviation mkernel_internal_haven_stop :: mkernel_internal_error where
  "mkernel_internal_haven_stop \<equiv> 2"

abbreviation mkernel_internal_invald_call :: mkernel_internal_error where
  "mkernel_internal_invald_call \<equiv> 3"

abbreviation mkernel_internal_das_need_reconnect :: mkernel_internal_error where
  "mkernel_internal_das_need_reconnect \<equiv> 4"

abbreviation mkernel_internal_input_param_invalid :: mkernel_internal_error where
  "mkernel_internal_input_param_invalid \<equiv> 5"

abbreviation mkernel_internal_lbs_connect_error :: mkernel_internal_error where
  "mkernel_internal_lbs_connect_error \<equiv> 6"

abbreviation mkernel_internal_mem_lack :: mkernel_internal_error where
  "mkernel_internal_mem_lack \<equiv> 7"

abbreviation mkernel_internal_net_gethostbyname_error :: mkernel_internal_error where
  "mkernel_internal_net_gethostbyname_error \<equiv> 8"

abbreviation mkernel_internal_create_sock_error :: mkernel_internal_error where
  "mkernel_internal_create_sock_error \<equiv> 9"

abbreviation mkernel_internal_net_connect_error :: mkernel_internal_error where
  "mkernel_internal_net_connect_error \<equiv> 10"

abbreviation mkernel_internal_net_connect_timeout :: mkernel_internal_error where
  "mkernel_internal_net_connect_timeout \<equiv> 11"

abbreviation mkernel_internal_net_send_error :: mkernel_internal_error where
  "mkernel_internal_net_send_error \<equiv> 12"

abbreviation mkernel_internal_net_read_error :: mkernel_internal_error where
  "mkernel_internal_net_read_error \<equiv> 13"

abbreviation mkernel_internal_net_read_error_request :: mkernel_internal_error where
  "mkernel_internal_net_read_error_request \<equiv> 14"

abbreviation mkernel_internal_net_socket_error :: mkernel_internal_error where
  "mkernel_internal_net_socket_error \<equiv> 15"

abbreviation mkernel_internal_net_socket_timeout :: mkernel_internal_error where
  "mkernel_internal_net_socket_timeout \<equiv> 16"

abbreviation mkernel_internal_net_socket_closed :: mkernel_internal_error where
  "mkernel_internal_net_socket_closed \<equiv> 17"

abbreviation mkernel_internal_net_send_buf_full :: mkernel_internal_error where
  "mkernel_internal_net_send_buf_full \<equiv> 18"

abbreviation mkernel_internal_malloc_error :: mkernel_internal_error where
  "mkernel_internal_malloc_error \<equiv> 19"

abbreviation mkernel_internal_json_parse_error :: mkernel_internal_error where
  "mkernel_internal_json_parse_error \<equiv> 20"

abbreviation mkernel_internal_get_error_json :: mkernel_internal_error where
  "mkernel_internal_get_error_json \<equiv> 21"

abbreviation mkernel_internal_json_format_error :: mkernel_internal_error where
  "mkernel_internal_json_format_error \<equiv> 22"

abbreviation mkernel_internal_xml_parse_error :: mkernel_internal_error where
  "mkernel_internal_xml_parse_error \<equiv> 23"

abbreviation mkernel_internal_get_error_xml :: mkernel_internal_error where
  "mkernel_internal_get_error_xml \<equiv> 24"

abbreviation mkernel_internal_rev_invalid_packet :: mkernel_internal_error where
  "mkernel_internal_rev_invalid_packet \<equiv> 25"

abbreviation mkernel_internal_force_offline :: mkernel_internal_error where
  "mkernel_internal_force_offline \<equiv> 26"

abbreviation mkernel_internal_force_domain_risk :: mkernel_internal_error where
  "mkernel_internal_force_domain_risk \<equiv> 27"

abbreviation mkernel_internal_force_cmd_risk :: mkernel_internal_error where
  "mkernel_internal_force_cmd_risk \<equiv> 28"

abbreviation mkernel_internal_net_poll_err :: mkernel_internal_error where
  "mkernel_internal_net_poll_err \<equiv> 29"

abbreviation mkernel_internal_net_getsockopt_error :: mkernel_internal_error where
  "mkernel_internal_net_getsockopt_error \<equiv> 30"

abbreviation mkernel_internal_net_socket_err :: mkernel_internal_error where
  "mkernel_internal_net_socket_err \<equiv> 31"

abbreviation mkernel_internal_net_poll_event_err :: mkernel_internal_error where
  "mkernel_internal_net_poll_event_err \<equiv> 32"

abbreviation mkernel_internal_value_load_err :: mkernel_internal_error where
  "mkernel_internal_value_load_err \<equiv> 33"

abbreviation mkernel_internal_value_save_err :: mkernel_internal_error where
  "mkernel_internal_value_save_err \<equiv> 34"

abbreviation mkernel_internal_internal_err :: mkernel_internal_error where
  "mkernel_internal_internal_err \<equiv> 35"

abbreviation mkernel_internal_msg_len_overrange :: mkernel_internal_error where
  "mkernel_internal_msg_len_overrange \<equiv> 36"

abbreviation mkernel_internal_das_need_rebuild_session :: mkernel_internal_error where
  "mkernel_internal_das_need_rebuild_session \<equiv> 37"

abbreviation mkernel_internal_call_mqtt_connect :: mkernel_internal_error where
  "mkernel_internal_call_mqtt_connect \<equiv> 100"

abbreviation mkernel_internal_call_mqtt_sub_error :: mkernel_internal_error where
  "mkernel_internal_call_mqtt_sub_error \<equiv> 101"

abbreviation mkernel_internal_call_mqtt_pub_error :: mkernel_internal_error where
  "mkernel_internal_call_mqtt_pub_error \<equiv> 102"

abbreviation mkernel_internal_call_mqtt_yield_error :: mkernel_internal_error where
  "mkernel_internal_call_mqtt_yield_error \<equiv> 103"

abbreviation mkernel_internal_call_mqtt_disconnect :: mkernel_internal_error where
  "mkernel_internal_call_mqtt_disconnect \<equiv> 104"

abbreviation mkernel_internal_call_mqtt_buffer_too_short :: mkernel_internal_error where
  "mkernel_internal_call_mqtt_buffer_too_short \<equiv> 105"

abbreviation mkernel_internal_call_coap_connect :: mkernel_internal_error where
  "mkernel_internal_call_coap_connect \<equiv> 150"

abbreviation mkernel_internal_call_coap_pub_error :: mkernel_internal_error where
  "mkernel_internal_call_coap_pub_error \<equiv> 151"

abbreviation mkernel_internal_call_coap_parse_error :: mkernel_internal_error where
  "mkernel_internal_call_coap_parse_error \<equiv> 152"

abbreviation mkernel_internal_call_coap_yield_error :: mkernel_internal_error where
  "mkernel_internal_call_coap_yield_error \<equiv> 153"

abbreviation mkernel_internal_call_coap_update_sessionkey_error :: mkernel_internal_error where
  "mkernel_internal_call_coap_update_sessionkey_error \<equiv> 154"

abbreviation mkernel_internal_call_coap_udp_port_time_low_error :: mkernel_internal_error where
  "mkernel_internal_call_coap_udp_port_time_low_error \<equiv> 155"

abbreviation mkernel_internal_extend_id_error :: mkernel_internal_error where
  "mkernel_internal_extend_id_error \<equiv> 200"

abbreviation mkernel_internal_extend_unreg :: mkernel_internal_error where
  "mkernel_internal_extend_unreg \<equiv> 201"

abbreviation mkernel_internal_extend_full :: mkernel_internal_error where
  "mkernel_internal_extend_full \<equiv> 202"

abbreviation mkernel_internal_extend_ready :: mkernel_internal_error where
  "mkernel_internal_extend_ready \<equiv> 203"

abbreviation mkernel_internal_extend_no_find :: mkernel_internal_error where
  "mkernel_internal_extend_no_find \<equiv> 204"

abbreviation mkernel_internal_common_ready :: mkernel_internal_error where
  "mkernel_internal_common_ready \<equiv> 205"

abbreviation mkernel_internal_aes_input_len :: mkernel_internal_error where
  "mkernel_internal_aes_input_len \<equiv> 300"

abbreviation mkernel_internal_casll_mbedtls_setdeckey_error :: mkernel_internal_error where
  "mkernel_internal_casll_mbedtls_setdeckey_error \<equiv> 301"

abbreviation mkernel_internal_casll_mbedtls_crypt_error :: mkernel_internal_error where
  "mkernel_internal_casll_mbedtls_crypt_error \<equiv> 302"

abbreviation mkernel_internal_aes_padding_unmatched :: mkernel_internal_error where
  "mkernel_internal_aes_padding_unmatched \<equiv> 303"

abbreviation mkernel_internal_mbedtls_ecp_group_load_err :: mkernel_internal_error where
  "mkernel_internal_mbedtls_ecp_group_load_err \<equiv> 304"

abbreviation mkernel_internal_mbedtls_ecdh_read_public_err :: mkernel_internal_error where
  "mkernel_internal_mbedtls_ecdh_read_public_err \<equiv> 305"

abbreviation mkernel_internal_mbedtls_ecdh_calc_secret_err :: mkernel_internal_error where
  "mkernel_internal_mbedtls_ecdh_calc_secret_err \<equiv> 306"

abbreviation mkernel_internal_queue_empty :: mkernel_internal_error where
  "mkernel_internal_queue_empty \<equiv> 500"

abbreviation mkernel_internal_queue_uninit :: mkernel_internal_error where
  "mkernel_internal_queue_uninit \<equiv> 501"

abbreviation mkernel_internal_queue_error :: mkernel_internal_error where
  "mkernel_internal_queue_error \<equiv> 502"

abbreviation mkernel_internal_queue_full :: mkernel_internal_error where
  "mkernel_internal_queue_full \<equiv> 503"

abbreviation mkernel_internal_platform_appoint_error :: mkernel_internal_error where
  "mkernel_internal_platform_appoint_error \<equiv> 600"

abbreviation mkernel_internal_sign_check_error :: mkernel_internal_error where
  "mkernel_internal_sign_check_error \<equiv> 601"

abbreviation mkernel_internal_hmac_error :: mkernel_internal_error where
  "mkernel_internal_hmac_error \<equiv> 602"

abbreviation mkernel_internal_dec_error :: mkernel_internal_error where
  "mkernel_internal_dec_error \<equiv> 603"

abbreviation mkernel_internal_enc_error :: mkernel_internal_error where
  "mkernel_internal_enc_error \<equiv> 604"

abbreviation mkernel_internal_random1_check_error :: mkernel_internal_error where
  "mkernel_internal_random1_check_error \<equiv> 605"

abbreviation mkernel_internal_hmac_compare_error :: mkernel_internal_error where
  "mkernel_internal_hmac_compare_error \<equiv> 606"

abbreviation mkernel_internal_platform_error :: mkernel_internal_error where
  "mkernel_internal_platform_error \<equiv> 10000"

abbreviation mkernel_internal_platform_lbs_signcheck_error :: mkernel_internal_error where
  "mkernel_internal_platform_lbs_signcheck_error \<equiv> 10001"

abbreviation mkernel_internal_platform_lbs_order_error :: mkernel_internal_error where
  "mkernel_internal_platform_lbs_order_error \<equiv> 10002"

abbreviation mkernel_internal_platform_invalid_data :: mkernel_internal_error where
  "mkernel_internal_platform_invalid_data \<equiv> 10003"

abbreviation mkernel_internal_platform_devid_inconformity :: mkernel_internal_error where
  "mkernel_internal_platform_devid_inconformity \<equiv> 10004"

abbreviation mkernel_internal_platform_query_authcode_error :: mkernel_internal_error where
  "mkernel_internal_platform_query_authcode_error \<equiv> 10005"

abbreviation mkernel_internal_platform_query_authcode_redis :: mkernel_internal_error where
  "mkernel_internal_platform_query_authcode_redis \<equiv> 10006"

abbreviation mkernel_internal_platform_dec_error :: mkernel_internal_error where
  "mkernel_internal_platform_dec_error \<equiv> 10007"

abbreviation mkernel_internal_platform_enc_error :: mkernel_internal_error where
  "mkernel_internal_platform_enc_error \<equiv> 10008"

abbreviation mkernel_internal_platform_getstun_error :: mkernel_internal_error where
  "mkernel_internal_platform_getstun_error \<equiv> 10009"

abbreviation mkernel_internal_platform_masterkey_invalid :: mkernel_internal_error where
  "mkernel_internal_platform_masterkey_invalid \<equiv> 10010"

abbreviation mkernel_internal_platform_stun_sessionkey_inconformity :: mkernel_internal_error where
  "mkernel_internal_platform_stun_sessionkey_inconformity \<equiv> 10011"

abbreviation mkernel_internal_platform_stun_process_invalid :: mkernel_internal_error where
  "mkernel_internal_platform_stun_process_invalid \<equiv> 10012"

abbreviation mkernel_internal_platform_das_process_invalid :: mkernel_internal_error where
  "mkernel_internal_platform_das_process_invalid \<equiv> 10013"

abbreviation mkernel_internal_platform_lbs_sign_decrypt_err :: mkernel_internal_error where
  "mkernel_internal_platform_lbs_sign_decrypt_err \<equiv> 10014"

abbreviation mkernel_internal_platform_lbs_gen_keys_err :: mkernel_internal_error where
  "mkernel_internal_platform_lbs_gen_keys_err \<equiv> 10015"

abbreviation mkernel_internal_platform_lbs_ecdh_check_err :: mkernel_internal_error where
  "mkernel_internal_platform_lbs_ecdh_check_err \<equiv> 10016"

abbreviation mkernel_internal_platform_lbs_check_ecdh_sign_fail :: mkernel_internal_error where
  "mkernel_internal_platform_lbs_check_ecdh_sign_fail \<equiv> 10017"

abbreviation mkernel_internal_platform_lbs_check_sessionkey_fail :: mkernel_internal_error where
  "mkernel_internal_platform_lbs_check_sessionkey_fail \<equiv> 10018"

abbreviation mkernel_internal_platform_lbs_sign_check_fail :: mkernel_internal_error where
  "mkernel_internal_platform_lbs_sign_check_fail \<equiv> 10019"

abbreviation mkernel_internal_platform_lbs_auth_type_need_rematch :: mkernel_internal_error where
  "mkernel_internal_platform_lbs_auth_type_need_rematch \<equiv> 10020"

abbreviation mkernel_internal_platform_lbs_auth_type_match_fail :: mkernel_internal_error where
  "mkernel_internal_platform_lbs_auth_type_match_fail \<equiv> 10021"

abbreviation mkernel_internal_platform_secretkey_decrypt_fail :: mkernel_internal_error where
  "mkernel_internal_platform_secretkey_decrypt_fail \<equiv> 10100"

abbreviation mkernel_internal_platform_secretkey_overflow_windows :: mkernel_internal_error where
  "mkernel_internal_platform_secretkey_overflow_windows \<equiv> 10101"

abbreviation mkernel_internal_platform_secretkey_no_user :: mkernel_internal_error where
  "mkernel_internal_platform_secretkey_no_user \<equiv> 10102"

abbreviation mkernel_internal_platform_secretkey_serial_not_exist :: mkernel_internal_error where
  "mkernel_internal_platform_secretkey_serial_not_exist \<equiv> 10103"

abbreviation mkernel_internal_platform_secretkey_again :: mkernel_internal_error where
  "mkernel_internal_platform_secretkey_again \<equiv> 10104"

abbreviation mkernel_internal_platform_error_end :: mkernel_internal_error where
  "mkernel_internal_platform_error_end \<equiv> 11000"

abbreviation mkernel_internal_mqtt_error_begin :: mkernel_internal_error where
  "mkernel_internal_mqtt_error_begin \<equiv> 11000"

abbreviation mkernel_internal_mqtt_nosupport_protocol_version :: mkernel_internal_error where
  "mkernel_internal_mqtt_nosupport_protocol_version \<equiv> 11001"

abbreviation mkernel_internal_mqtt_unqualified_client_id :: mkernel_internal_error where
  "mkernel_internal_mqtt_unqualified_client_id \<equiv> 11002"

abbreviation mkernel_internal_mqtt_server_unusable :: mkernel_internal_error where
  "mkernel_internal_mqtt_server_unusable \<equiv> 11003"

abbreviation mkernel_internal_mqtt_invalid_username :: mkernel_internal_error where
  "mkernel_internal_mqtt_invalid_username \<equiv> 11004"

abbreviation mkernel_internal_mqtt_unauthorized :: mkernel_internal_error where
  "mkernel_internal_mqtt_unauthorized \<equiv> 11005"

abbreviation mkernel_internal_mqtt_blacklist :: mkernel_internal_error where
  "mkernel_internal_mqtt_blacklist \<equiv> 11010"

abbreviation mkernel_internal_mqtt_redirect :: mkernel_internal_error where
  "mkernel_internal_mqtt_redirect \<equiv> 11011"

abbreviation mkernel_internal_mqtt_session_exist :: mkernel_internal_error where
  "mkernel_internal_mqtt_session_exist \<equiv> 11012"

abbreviation mkernel_internal_mqtt_error_end :: mkernel_internal_error where
  "mkernel_internal_mqtt_error_end \<equiv> 12000"

section \<open>Public error codes\<close>

type_synonym ez_err = int

abbreviation EZ_CORE_ERR_SUCC :: ez_err where
  "EZ_CORE_ERR_SUCC \<equiv> 0"

abbreviation EZ_CORE_ERR_NOT_INIT :: ez_err where
  "EZ_CORE_ERR_NOT_INIT \<equiv> 1"

abbreviation EZ_CORE_ERR_NOT_READY :: ez_err where
  "EZ_CORE_ERR_NOT_READY \<equiv> 2"

abbreviation EZ_CORE_ERR_PARAM_INVALID :: ez_err where
  "EZ_CORE_ERR_PARAM_INVALID \<equiv> 3"

abbreviation EZ_CORE_ERR_GENERAL :: ez_err where
  "EZ_CORE_ERR_GENERAL \<equiv> 4"

abbreviation EZ_CORE_ERR_MEMORY :: ez_err where
  "EZ_CORE_ERR_MEMORY \<equiv> 5"

abbreviation EZ_CORE_ERR_STORAGE :: ez_err where
  "EZ_CORE_ERR_STORAGE \<equiv> 6"

abbreviation EZ_CORE_ERR_DEVID :: ez_err where
  "EZ_CORE_ERR_DEVID \<equiv> 7"

abbreviation EZ_CORE_ERR_OUT_RANGE :: ez_err where
  "EZ_CORE_ERR_OUT_RANGE \<equiv> 8"

abbreviation EZ_CORE_ERR_NO_EXTEND :: ez_err where
  "EZ_CORE_ERR_NO_EXTEND \<equiv> 9"

abbreviation EZ_CORE_ERR_RISK_CRTL :: ez_err where
  "EZ_CORE_ERR_RISK_CRTL \<equiv> 10"

abbreviation EZ_CORE_ERR_NET :: ez_err where
  "EZ_CORE_ERR_NET \<equiv> 11"

abbreviation EZ_CORE_ERR_AUTH :: ez_err where
  "EZ_CORE_ERR_AUTH \<equiv> 12"

section \<open>Translation\<close>

definition mkiE2ezE :: "mkernel_internal_error \<Rightarrow> ez_err" where
  "mkiE2ezE mkernel_err =
     (if mkernel_err \<in> {mkernel_internal_succ} then EZ_CORE_ERR_SUCC
      else if mkernel_err \<in> {mkernel_internal_no_start,
          mkernel_internal_haven_stop,
          mkernel_internal_invald_call} then EZ_CORE_ERR_NOT_READY
      else if mkernel_err \<in> {mkernel_internal_input_param_invalid} then EZ_CORE_ERR_PARAM_INVALID
      else if mkernel_err \<in> {mkernel_internal_call_mqtt_buffer_too_short} then EZ_CORE_ERR_OUT_RANGE
      else if mkernel_err \<in> {mkernel_internal_mem_lack,
          mkernel_internal_malloc_error,
          mkernel_internal_queue_full,
          mkernel_internal_extend_full} then EZ_CORE_ERR_MEMORY
      else if mkernel_err \<in> {mkernel_internal_extend_no_find} then EZ_CORE_ERR_NO_EXTEND
      else if mkernel_err \<in> {mkernel_internal_value_load_err,
          mkernel_internal_value_save_err} then EZ_CORE_ERR_STORAGE
      else if mkernel_err \<in> {mkernel_internal_create_sock_error,
          mkernel_internal_net_poll_err,
          mkernel_internal_net_getsockopt_error,
          mkernel_internal_net_poll_event_err,
          mkernel_internal_net_gethostbyname_error,
          mkernel_internal_net_connect_error,
          mkernel_internal_net_connect_timeout,
          mkernel_internal_lbs_connect_error,
          mkernel_internal_call_mqtt_connect,
          mkernel_internal_das_need_reconnect,
          mkernel_internal_net_socket_closed,
          mkernel_internal_net_socket_err,
          mkernel_internal_net_send_error,
          mkernel_internal_net_read_error,
          mkernel_internal_net_read_error_request,
          mkernel_internal_net_socket_error,
          mkernel_internal_net_socket_timeout,
          mkernel_internal_rev_invalid_packet,
          mkernel_internal_call_mqtt_sub_error,
          mkernel_internal_call_mqtt_pub_error} then EZ_CORE_ERR_NET
      else if mkernel_err \<in> {mkernel_internal_platform_lbs_signcheck_error,
          mkernel_internal_platform_lbs_order_error,
          mkernel_internal_platform_stun_process_invalid,
          mkernel_internal_platform_das_process_invalid,
          mkernel_internal_platform_invalid_data,
          mkernel_internal_platform_devid_inconformity,
          mkernel_internal_platform_masterkey_invalid,
          mkernel_internal_platform_query_authcode_error,
          mkernel_internal_platform_stun_sessionkey_inconformity,
          mkernel_internal_platform_lbs_check_sessionkey_fail,
          mkernel_internal_platform_lbs_sign_check_fail,
          mkernel_internal_platform_query_authcode_redis,
          mkernel_internal_platform_dec_error,
          mkernel_internal_platform_enc_error,
          mkernel_internal_platform_getstun_error,
          mkernel_internal_platform_secretkey_decrypt_fail,
          mkernel_internal_platform_secretkey_overflow_windows,
          mkernel_internal_platform_secretkey_no_user,
          mkernel_internal_platform_secretkey_serial_not_exist,
          mkernel_internal_platform_secretkey_again} then EZ_CORE_ERR_AUTH
      else if mkernel_err \<in> {mkernel_internal_mqtt_blacklist} then EZ_CORE_ERR_RISK_CRTL
      else EZ_CORE_ERR_GENERAL)"

lemma mkiE2ezE_succ_iff: "mkiE2ezE e = EZ_CORE_ERR_SUCC \<longleftrightarrow> e = mkernel_internal_succ"
  by (simp add: mkiE2ezE_def)

lemma mkiE2ezE_risk_iff: "mkiE2ezE e = EZ_CORE_ERR_RISK_CRTL \<longleftrightarrow> e = mkernel_internal_mqtt_blacklist"
  by (auto simp: mkiE2ezE_def)

lemma mkiE2ezE_not_ready_iff:
  "mkiE2ezE e = EZ_CORE_ERR_NOT_READY \<longleftrightarrow>
     e \<in> {mkernel_internal_no_start, mkernel_internal_haven_stop, mkernel_internal_invald_call}"
  by (simp add: mkiE2ezE_def)

text \<open>
  The code a blacklisted or forced-offline kernel returns from every yield has
  no row of its own in the table and leaves as the general error.
\<close>

lemma mkiE2ezE_force_offline: "mkiE2ezE mkernel_internal_force_offline = EZ_CORE_ERR_GENERAL"
  by (simp add: mkiE2ezE_def)

end
