(* ===== verification/Queue_Interface.thy ===== *)
theory Queue_Interface
  imports Kernel_Errors
begin

text \<open>
  The contract of the kernel's message queues, as the dispatcher and the
  transports rely on it: a bounded first-in first-out buffer whose operations
  report full, empty and out-of-memory by error code. The clients' lemmas about
  bursts of pushes and drains are proved once from the contract. Two models
  provide it: the list-level queue of \<^verbatim>\<open>Kernel_Queue\<close> and the linked list of
  \<^verbatim>\<open>Queue_Heap\<close>.
\<close>

text \<open>A burst of pushes (the error codes in order), and a number of pops.\<close>

fun push_all :: "('a \<Rightarrow> 's \<Rightarrow> mkernel_internal_error \<times> 's) \<Rightarrow> 'a list \<Rightarrow> 's
    \<Rightarrow> mkernel_internal_error list \<times> 's" where
  "push_all push [] s = ([], s)"
| "push_all push (x # xs) s =
     (let (e, s1) = push x s; (es, s2) = push_all push xs s1 in (e # es, s2))"

fun pop_n :: "('s \<Rightarrow> (mkernel_internal_error \<times> 'a option) \<times> 's) \<Rightarrow> nat \<Rightarrow> 's
    \<Rightarrow> (mkernel_internal_error \<times> 'a option) list \<times> 's" where
  "pop_n pop 0 s = ([], s)"
| "pop_n pop (Suc n) s =
     (let (r, s1) = pop s; (rs, s2) = pop_n pop n s1 in (r # rs, s2))"

locale bounded_queue =
  fixes push :: "'a \<Rightarrow> 's \<Rightarrow> mkernel_internal_error \<times> 's"
    and push_head :: "'a \<Rightarrow> 's \<Rightarrow> mkernel_internal_error \<times> 's"
    and pop :: "'s \<Rightarrow> (mkernel_internal_error \<times> 'a option) \<times> 's"
    and get :: "'s \<Rightarrow> (mkernel_internal_error \<times> 'a option) \<times> 's"
    and items :: "'s \<Rightarrow> 'a list"
    and capacity :: "'s \<Rightarrow> nat"
    and memory :: "'s \<Rightarrow> mem"
    and invar :: "'s \<Rightarrow> bool"
  assumes items_bound: "invar s \<Longrightarrow> length (items s) \<le> capacity s"
    and push_full: "invar s \<Longrightarrow> length (items s) = capacity s \<Longrightarrow>
      push x s = (mkernel_internal_queue_full, s)"
    and push_nomem: "invar s \<Longrightarrow> length (items s) < capacity s \<Longrightarrow>
      \<not> fst (ezos_malloc (memory s)) \<Longrightarrow>
      \<exists>s'. push x s = (mkernel_internal_malloc_error, s') \<and> items s' = items s \<and>
        capacity s' = capacity s \<and> memory s' = snd (ezos_malloc (memory s)) \<and> invar s'"
    and push_succ: "invar s \<Longrightarrow> length (items s) < capacity s \<Longrightarrow>
      fst (ezos_malloc (memory s)) \<Longrightarrow>
      \<exists>s'. push x s = (mkernel_internal_succ, s') \<and> items s' = items s @ [x] \<and>
        capacity s' = capacity s \<and> memory s' = snd (ezos_malloc (memory s)) \<and> invar s'"
    and push_head_full: "invar s \<Longrightarrow> length (items s) = capacity s \<Longrightarrow>
      push_head x s = (mkernel_internal_queue_full, s)"
    and push_head_succ: "invar s \<Longrightarrow> length (items s) < capacity s \<Longrightarrow>
      fst (ezos_malloc (memory s)) \<Longrightarrow>
      \<exists>s'. push_head x s = (mkernel_internal_succ, s') \<and> items s' = x # items s \<and>
        capacity s' = capacity s \<and> memory s' = snd (ezos_malloc (memory s)) \<and> invar s'"
    and pop_empty: "invar s \<Longrightarrow> items s = [] \<Longrightarrow>
      \<exists>s'. pop s = ((mkernel_internal_queue_empty, None), s') \<and> items s' = [] \<and>
        capacity s' = capacity s \<and> memory s' = memory s \<and> invar s'"
    and pop_Cons: "invar s \<Longrightarrow> items s = x # xs \<Longrightarrow>
      \<exists>s'. pop s = ((mkernel_internal_succ, Some x), s') \<and> items s' = xs \<and>
        capacity s' = capacity s \<and> memory s' = ezos_free (memory s) \<and> invar s'"
    and get_empty: "invar s \<Longrightarrow> items s = [] \<Longrightarrow>
      \<exists>s'. get s = ((mkernel_internal_queue_empty, None), s') \<and> items s' = [] \<and>
        capacity s' = capacity s \<and> memory s' = memory s \<and> invar s'"
    and get_Cons: "invar s \<Longrightarrow> items s = x # xs \<Longrightarrow>
      get s = ((mkernel_internal_succ, Some x), s)"
begin

text \<open>With room and memory for all of them, a burst is stored in order.\<close>

lemma push_all_succ:
  assumes "invar s" and "length (items s) + length xs \<le> capacity s" and "answers (memory s) = []"
  shows "\<exists>s'. push_all push xs s = (replicate (length xs) mkernel_internal_succ, s') \<and>
    items s' = items s @ xs \<and> capacity s' = capacity s \<and> invar s' \<and>
    answers (memory s') = [] \<and> live (memory s') = live (memory s) + int (length xs)"
  using assms
proof (induction xs arbitrary: s)
  case Nil
  then show ?case by simp
next
  case (Cons x xs)
  from Cons.prems have m: "fst (ezos_malloc (memory s))"
    and a: "answers (snd (ezos_malloc (memory s))) = []"
    by (simp_all add: ezos_malloc_def)
  from push_succ [OF Cons.prems(1) _ m, of x] Cons.prems(2)
  obtain s1 where s1: "push x s = (mkernel_internal_succ, s1)" "items s1 = items s @ [x]"
    "capacity s1 = capacity s" "memory s1 = snd (ezos_malloc (memory s))" "invar s1"
    by auto
  with Cons.IH [of s1] Cons.prems(2) a m show ?case by auto
qed

text \<open>Popping as many times as there are items yields them first to last.\<close>

lemma pop_n_items:
  assumes "invar s" and "items s = xs @ ys"
  shows "\<exists>s'. pop_n pop (length xs) s = (map (\<lambda>x. (mkernel_internal_succ, Some x)) xs, s') \<and>
    items s' = ys \<and> capacity s' = capacity s \<and> invar s' \<and>
    live (memory s') = live (memory s) - int (length xs)"
  using assms
proof (induction xs arbitrary: s)
  case Nil
  then show ?case by simp
next
  case (Cons x xs)
  from pop_Cons [OF Cons.prems(1), of x "xs @ ys"] Cons.prems(2)
  obtain s1 where s1: "pop s = ((mkernel_internal_succ, Some x), s1)" "items s1 = xs @ ys"
    "capacity s1 = capacity s" "memory s1 = ezos_free (memory s)" "invar s1"
    by auto
  with Cons.IH [of s1] show ?case by auto
qed

text \<open>First in, first out: what was queued leaves before the burst, both in order.\<close>

lemma fifo:
  assumes "invar s" and "length (items s) + length xs \<le> capacity s" and "answers (memory s) = []"
  shows "\<exists>s' s''. push_all push xs s = (replicate (length xs) mkernel_internal_succ, s') \<and>
    pop_n pop (length (items s) + length xs) s' =
      (map (\<lambda>x. (mkernel_internal_succ, Some x)) (items s @ xs), s'') \<and>
    items s'' = [] \<and> live (memory s'') = live (memory s) - int (length (items s))"
proof -
  from push_all_succ [OF assms] obtain s' where
    s': "push_all push xs s = (replicate (length xs) mkernel_internal_succ, s')"
      "items s' = items s @ xs" "invar s'"
      "live (memory s') = live (memory s) + int (length xs)"
    by blast
  from pop_n_items [OF s'(3), of "items s @ xs" "[]"] s' show ?thesis
    by fastforce
qed

text \<open>A message put back at the head is the next one out.\<close>

lemma push_head_pop:
  assumes "invar s" and "length (items s) < capacity s" and "fst (ezos_malloc (memory s))"
  shows "\<exists>s' s''. push_head x s = (mkernel_internal_succ, s') \<and>
    pop s' = ((mkernel_internal_succ, Some x), s'') \<and> items s'' = items s \<and>
    live (memory s'') = live (memory s)"
proof -
  from push_head_succ [OF assms, of x] obtain s' where
    s': "push_head x s = (mkernel_internal_succ, s')" "items s' = x # items s"
      "memory s' = snd (ezos_malloc (memory s))" "invar s'"
    by blast
  from pop_Cons [OF s'(4,2)] s' assms(3) show ?thesis by auto
qed

text \<open>A burst beyond the capacity: exactly the excess is refused, nothing stored is lost.\<close>

lemma push_all_overflow:
  assumes "invar s" and "length (items s) = capacity s"
  shows "push_all push xs s = (replicate (length xs) mkernel_internal_queue_full, s)"
  using assms by (induction xs) (simp_all add: push_full)

end

end
