(* ===== verification/Kernel_Queue.thy ===== *)
theory Kernel_Queue
  imports Queue_Interface
begin

text \<open>
  The queue macros of \<^verbatim>\<open>dispatcher/ezdev_sdk_kernel_queue.h\<close>, instantiated there for
  five message types, as polymorphic operations on the sequence of queued
  messages. The 16-bit counters are kept: \<^verbatim>\<open>size\<close> is what the full test reads.
  Every operation runs under the queue's mutex in the source and is one step
  here. A successful push allocates one list element and a pop frees it.
\<close>

section \<open>Data and operations\<close>

record 'a queue =
  q_maxsize :: uint16
  q_size :: uint16
  q_elems :: "'a list"
  q_lock :: bool

type_synonym 'a qstate = "mem \<times> 'a queue"

definition init_queue_of :: "bool \<Rightarrow> uint16 \<Rightarrow> mkernel_internal_error \<times> 'a queue" where
  "init_queue_of mutex_ok max_size =
     (let q = \<lparr>q_maxsize = max_size, q_size = 0, q_elems = [], q_lock = mutex_ok\<rparr>
      in if \<not> mutex_ok then (mkernel_internal_malloc_error, q) else (mkernel_internal_succ, q))"

definition push_queue :: "'a \<Rightarrow> 'a qstate \<Rightarrow> mkernel_internal_error \<times> 'a qstate" where
  "push_queue submsg s =
     (case s of (m, q) \<Rightarrow>
       if q_size q \<ge> q_maxsize q then (mkernel_internal_queue_full, (m, q))
       else (case ezos_malloc m of (ok, m') \<Rightarrow>
         if \<not> ok then (mkernel_internal_malloc_error, (m', q))
         else (mkernel_internal_succ,
               (m', q\<lparr>q_elems := q_elems q @ [submsg], q_size := q_size q + 1\<rparr>))))"

definition push_queue_head :: "'a \<Rightarrow> 'a qstate \<Rightarrow> mkernel_internal_error \<times> 'a qstate" where
  "push_queue_head submsg s =
     (case s of (m, q) \<Rightarrow>
       if q_size q \<ge> q_maxsize q then (mkernel_internal_queue_full, (m, q))
       else (case ezos_malloc m of (ok, m') \<Rightarrow>
         if \<not> ok then (mkernel_internal_malloc_error, (m', q))
         else (mkernel_internal_succ,
               (m', q\<lparr>q_elems := submsg # q_elems q, q_size := q_size q + 1\<rparr>))))"

definition pop_queue :: "'a qstate \<Rightarrow> (mkernel_internal_error \<times> 'a option) \<times> 'a qstate" where
  "pop_queue s =
     (case s of (m, q) \<Rightarrow>
       (case q_elems q of
          [] \<Rightarrow> ((mkernel_internal_queue_empty, None), (m, q\<lparr>q_size := 0\<rparr>))
        | x # rest \<Rightarrow>
            ((mkernel_internal_succ, Some x),
             (ezos_free m,
              q\<lparr>q_elems := rest, q_size := (if rest = [] then 0 else q_size q - 1)\<rparr>))))"

definition get_queue :: "'a qstate \<Rightarrow> (mkernel_internal_error \<times> 'a option) \<times> 'a qstate" where
  "get_queue s =
     (case s of (m, q) \<Rightarrow>
       (case q_elems q of
          [] \<Rightarrow> ((mkernel_internal_queue_empty, None), (m, q\<lparr>q_size := 0\<rparr>))
        | x # rest \<Rightarrow> ((mkernel_internal_succ, Some x), (m, q))))"

text \<open>
  The loops of \<^verbatim>\<open>clear_queue_*\<close>: pop until the queue reports a failure, freeing the
  popped message, which owns \<^verbatim>\<open>blocks x\<close> allocated blocks.
\<close>

function clear_queue :: "('a \<Rightarrow> nat) \<Rightarrow> 'a qstate \<Rightarrow> 'a qstate" where
  "clear_queue blocks s =
     (case pop_queue s of
        ((e, Some x), (m, q)) \<Rightarrow>
          if e \<noteq> mkernel_internal_succ then (m, q)
          else clear_queue blocks (ezos_frees (blocks x) m, q)
      | ((e, None), s') \<Rightarrow> s')"
  by pat_completeness auto
termination
  by (relation "measure (\<lambda>(b, m, q). length (q_elems q))")
    (auto simp: pop_queue_def split: list.splits prod.splits)

declare clear_queue.simps [simp del]

text \<open>
  \<^verbatim>\<open>fini_queue_*\<close>: free what is still queued (each element and the message struct),
  destroy the mutex, zero the control block.
\<close>

definition fini_queue_of :: "'a qstate \<Rightarrow> 'a qstate" where
  "fini_queue_of s =
     (case s of (m, q) \<Rightarrow>
       (ezos_frees (2 * length (q_elems q)) m,
        \<lparr>q_maxsize = 0, q_size = 0, q_elems = [], q_lock = False\<rparr>))"

section \<open>Invariant\<close>

definition q_wf :: "'a queue \<Rightarrow> bool" where
  "q_wf q \<longleftrightarrow> unat (q_size q) = length (q_elems q) \<and> q_size q \<le> q_maxsize q"

definition qs_items :: "'a qstate \<Rightarrow> 'a list" where
  "qs_items s = q_elems (snd s)"

definition qs_capacity :: "'a qstate \<Rightarrow> nat" where
  "qs_capacity s = unat (q_maxsize (snd s))"

definition qs_wf :: "'a qstate \<Rightarrow> bool" where
  "qs_wf s \<longleftrightarrow> q_wf (snd s)"

lemmas qs_defs = qs_items_def qs_capacity_def qs_wf_def q_wf_def

lemma q_wf_full_iff: "q_wf q \<Longrightarrow> q_size q \<ge> q_maxsize q \<longleftrightarrow> length (q_elems q) = unat (q_maxsize q)"
  by (auto simp: q_wf_def word_le_nat_alt)

lemma q_wf_init: "q_wf (snd (init_queue_of ok n))"
  by (simp add: init_queue_of_def q_wf_def Let_def)

lemma q_wf_grow:
  assumes "q_wf q" and "\<not> q_size q \<ge> q_maxsize q" and "length xs = Suc (length (q_elems q))"
  shows "q_wf (q\<lparr>q_elems := xs, q_size := q_size q + 1\<rparr>)"
proof -
  from assms(2) have "unat (q_size q) < unat (q_maxsize q)" by (simp add: word_less_nat_alt not_le)
  from unat_suc_below [OF this] assms show ?thesis
    by (simp add: q_wf_def word_le_nat_alt not_le)
qed

lemma q_wf_push: "q_wf q \<Longrightarrow> q_wf (snd (snd (push_queue x (m, q))))"
  by (auto simp: push_queue_def split: prod.splits intro: q_wf_grow)

lemma q_wf_push_head: "q_wf q \<Longrightarrow> q_wf (snd (snd (push_queue_head x (m, q))))"
  by (auto simp: push_queue_head_def split: prod.splits intro: q_wf_grow)

lemma q_wf_pop: "q_wf q \<Longrightarrow> q_wf (snd (snd (pop_queue (m, q))))"
  by (auto simp: pop_queue_def q_wf_def word_le_nat_alt unat_pred split: list.splits)

lemmas q_wf_ops [inv_intros] = q_wf_init q_wf_push q_wf_push_head q_wf_pop

lemma push_queue_cases:
  assumes "push_queue x (m, q) = (e, (m', q'))"
  obtains (stored) "e = mkernel_internal_succ" "q_elems q' = q_elems q @ [x]"
      "q_maxsize q' = q_maxsize q" "live m' = live m + 1"
    | (refused) "e \<noteq> mkernel_internal_succ" "q' = q" "live m' = live m"
  using assms by (auto simp: push_queue_def split: if_splits prod.splits dest: malloc_live)

lemma push_queue_head_cases:
  assumes "push_queue_head x (m, q) = (e, (m', q'))"
  obtains (stored) "e = mkernel_internal_succ" "q_elems q' = x # q_elems q"
      "q_maxsize q' = q_maxsize q" "live m' = live m + 1"
    | (refused) "e \<noteq> mkernel_internal_succ" "q' = q" "live m' = live m"
  using assms by (auto simp: push_queue_head_def split: if_splits prod.splits dest: malloc_live)

section \<open>The contract\<close>

interpretation lq: bounded_queue push_queue push_queue_head pop_queue get_queue
  qs_items qs_capacity fst qs_wf
proof unfold_locales
  fix s :: "'a qstate" and x :: 'a and xs
  assume inv: "qs_wf s"
  obtain m q where s: "s = (m, q)" by fastforce
  from inv s have wf: "q_wf q" by (simp add: qs_wf_def)
  show "length (qs_items s) \<le> qs_capacity s"
    using wf by (simp add: s qs_defs word_le_nat_alt)
  show "push_queue x s = (mkernel_internal_queue_full, s)"
    if "length (qs_items s) = qs_capacity s"
    using that q_wf_full_iff [OF wf] by (simp add: s qs_defs push_queue_def)
  show "push_queue_head x s = (mkernel_internal_queue_full, s)"
    if "length (qs_items s) = qs_capacity s"
    using that q_wf_full_iff [OF wf] by (simp add: s qs_defs push_queue_head_def)
  show "\<exists>s'. push_queue x s = (mkernel_internal_malloc_error, s') \<and> qs_items s' = qs_items s \<and>
      qs_capacity s' = qs_capacity s \<and> fst s' = snd (ezos_malloc (fst s)) \<and> qs_wf s'"
    if "length (qs_items s) < qs_capacity s" and "\<not> fst (ezos_malloc (fst s))"
    using that wf q_wf_full_iff [OF wf]
    by (auto simp: s qs_defs push_queue_def split: prod.splits)
  show "\<exists>s'. push_queue x s = (mkernel_internal_succ, s') \<and> qs_items s' = qs_items s @ [x] \<and>
      qs_capacity s' = qs_capacity s \<and> fst s' = snd (ezos_malloc (fst s)) \<and> qs_wf s'"
    if "length (qs_items s) < qs_capacity s" and "fst (ezos_malloc (fst s))"
    using that wf q_wf_full_iff [OF wf] q_wf_push [OF wf, of x m]
    by (auto simp: s qs_items_def qs_capacity_def qs_wf_def push_queue_def split: prod.splits)
  show "\<exists>s'. push_queue_head x s = (mkernel_internal_succ, s') \<and> qs_items s' = x # qs_items s \<and>
      qs_capacity s' = qs_capacity s \<and> fst s' = snd (ezos_malloc (fst s)) \<and> qs_wf s'"
    if "length (qs_items s) < qs_capacity s" and "fst (ezos_malloc (fst s))"
    using that wf q_wf_full_iff [OF wf] q_wf_push_head [OF wf, of x m]
    by (auto simp: s qs_items_def qs_capacity_def qs_wf_def push_queue_head_def
        split: prod.splits)
  show "\<exists>s'. pop_queue s = ((mkernel_internal_queue_empty, None), s') \<and> qs_items s' = [] \<and>
      qs_capacity s' = qs_capacity s \<and> fst s' = fst s \<and> qs_wf s'"
    if "qs_items s = []"
    using that by (simp add: s qs_defs pop_queue_def)
  show "\<exists>s'. pop_queue s = ((mkernel_internal_succ, Some x), s') \<and> qs_items s' = xs \<and>
      qs_capacity s' = qs_capacity s \<and> fst s' = ezos_free (fst s) \<and> qs_wf s'"
    if "qs_items s = x # xs"
    using that q_wf_pop [OF wf, of m]
    by (simp add: s qs_items_def qs_capacity_def qs_wf_def pop_queue_def)
  show "\<exists>s'. get_queue s = ((mkernel_internal_queue_empty, None), s') \<and> qs_items s' = [] \<and>
      qs_capacity s' = qs_capacity s \<and> fst s' = fst s \<and> qs_wf s'"
    if "qs_items s = []"
    using that by (simp add: s qs_defs get_queue_def)
  show "get_queue s = ((mkernel_internal_succ, Some x), s)"
    if "qs_items s = x # xs"
    using that by (simp add: s qs_items_def get_queue_def)
qed

section \<open>Clearing\<close>

lemma clear_queue_Nil: "q_elems q = [] \<Longrightarrow> clear_queue b (m, q) = (m, q\<lparr>q_size := 0\<rparr>)"
  by (subst clear_queue.simps) (simp add: pop_queue_def)

lemma clear_queue_Cons:
  "q_elems q = x # xs \<Longrightarrow> clear_queue b (m, q) =
     clear_queue b (ezos_frees (b x) (ezos_free m),
       q\<lparr>q_elems := xs, q_size := (if xs = [] then 0 else q_size q - 1)\<rparr>)"
  by (subst clear_queue.simps) (simp add: pop_queue_def)

text \<open>
  Clearing empties the queue and frees every element and everything the queued
  messages own: the ghost count drops by one element and \<^verbatim>\<open>blocks x\<close> per message.
\<close>

lemma clear_queue_spec:
  "\<exists>m'. clear_queue b (m, q) = (m', q\<lparr>q_elems := [], q_size := 0\<rparr>) \<and>
     live m' = live m - (\<Sum>x\<leftarrow>q_elems q. 1 + int (b x)) \<and> answers m' = answers m"
proof (induction "q_elems q" arbitrary: m q)
  case Nil
  then have "q\<lparr>q_elems := []\<rparr> = q" by simp
  with Nil show ?case by (simp add: clear_queue_Nil [OF Nil [symmetric]])
next
  case (Cons x xs)
  from Cons.hyps(2) have e: "q_elems q = x # xs" by simp
  let ?q = "q\<lparr>q_elems := xs, q_size := (if xs = [] then 0 else q_size q - 1)\<rparr>"
  let ?m = "ezos_frees (b x) (ezos_free m)"
  have eq: "clear_queue b (m, q) = clear_queue b (?m, ?q)"
    by (rule clear_queue_Cons [OF e])
  have "xs = q_elems ?q" by simp
  from Cons.hyps(1) [OF this, of ?m] show ?case
    unfolding eq e by (auto simp: ezos_frees_def ezos_free_def)
qed

end
