(* ===== verification/Kernel_Time.thy ===== *)
theory Kernel_Time
  imports Kernel_Errors
begin

text \<open>
  The timers and text helpers of \<^verbatim>\<open>support/utils.c\<close>. A time stamp is a pair of
  seconds and nanoseconds (\<^verbatim>\<open>ezos_timespec_t\<close>, fields of type \<^verbatim>\<open>long\<close>, 64 bits on
  the Linux port); a monotonic clock stays far below the overflow of either
  field, so they are integers. The current time is an argument: it stands for
  what \<^verbatim>\<open>ezos_get_clock\<close> returns at the call.
\<close>

record ezos_timespec =
  tv_sec :: int
  tv_nsec :: int

definition ezcore_time_isexpired_bydiff :: "ezos_timespec \<Rightarrow> ezos_timespec option \<Rightarrow> int \<Rightarrow> bool" where
  "ezcore_time_isexpired_bydiff now assign_timer time_ms =
     (case assign_timer of
        None \<Rightarrow> True
      | Some t \<Rightarrow>
          let s = tv_sec now - tv_sec t;
              n = tv_nsec now - tv_nsec t;
              (s', n') = (if n < 0 then (s - 1, n + 1000000000) else (s, n))
          in s' * 1000 + n' div 1000000 > time_ms)"

definition ezcore_time_countdown :: "ezos_timespec \<Rightarrow> int \<Rightarrow> ezos_timespec" where
  "ezcore_time_countdown now time_count =
     (let s = time_count div 1000 + tv_sec now;
          n = (time_count mod 1000) * 1000000 + tv_nsec now
      in if n \<ge> 1000000000 then \<lparr>tv_sec = s + 1, tv_nsec = n - 1000000000\<rparr>
         else \<lparr>tv_sec = s, tv_nsec = n\<rparr>)"

text \<open>\<^verbatim>\<open>sprintf("%02x")\<close> or \<^verbatim>\<open>sprintf("%02X")\<close> of each byte, one after the other.\<close>

definition hex_digit :: "bool \<Rightarrow> nat \<Rightarrow> char" where
  "hex_digit upper d =
     (if d < 10 then char_of (48 + d) else char_of ((if upper then 65 else 97) + d - 10))"

fun md5_hexdump :: "byte list \<Rightarrow> bool \<Rightarrow> string" where
  "md5_hexdump [] upper = []"
| "md5_hexdump (b # bs) upper =
     hex_digit upper (unat b div 16) # hex_digit upper (unat b mod 16) # md5_hexdump bs upper"

section \<open>What the timers measure\<close>

definition ts_wf :: "ezos_timespec \<Rightarrow> bool" where
  "ts_wf t \<longleftrightarrow> 0 \<le> tv_nsec t \<and> tv_nsec t < 1000000000"

definition nanos :: "ezos_timespec \<Rightarrow> int" where
  "nanos t = tv_sec t * 1000000000 + tv_nsec t"

lemma isexpired_elapsed:
  "ezcore_time_isexpired_bydiff now (Some t) ms \<longleftrightarrow> (nanos now - nanos t) div 1000000 > ms"
proof -
  have "(s * 1000000000 + n) div 1000000 = s * 1000 + n div 1000000" for s n :: int
    using div_mult_self1 [of 1000000 n "s * 1000"] by (simp add: algebra_simps)
  moreover have "nanos now - nanos t =
      (tv_sec now - tv_sec t) * 1000000000 + (tv_nsec now - tv_nsec t)"
    by (simp add: nanos_def algebra_simps)
  ultimately have "(nanos now - nanos t) div 1000000 =
      (tv_sec now - tv_sec t) * 1000 + (tv_nsec now - tv_nsec t) div 1000000"
    by simp
  then show ?thesis by (simp add: ezcore_time_isexpired_bydiff_def Let_def) linarith
qed

lemma countdown_wf: "ts_wf now \<Longrightarrow> ts_wf (ezcore_time_countdown now ms)"
  using pos_mod_bound [of 1000 ms] pos_mod_sign [of 1000 ms]
  by (auto simp: ts_wf_def ezcore_time_countdown_def Let_def)

lemma countdown_nanos: "nanos (ezcore_time_countdown now ms) = nanos now + ms * 1000000"
proof -
  have "(ms div 1000) * 1000000000 + (ms mod 1000) * 1000000 = ms * 1000000"
    using div_mult_mod_eq [of ms 1000] by linarith
  then show ?thesis by (simp add: ezcore_time_countdown_def nanos_def Let_def)
qed

text \<open>A timer restarted at \<^verbatim>\<open>now\<close> fires once more than \<^verbatim>\<open>ms\<close> whole milliseconds passed.\<close>

lemma restart_isexpired:
  "ezcore_time_isexpired_bydiff later (Some (ezcore_time_countdown now 0)) ms \<longleftrightarrow>
     (nanos later - nanos now) div 1000000 > ms"
  by (simp add: isexpired_elapsed countdown_nanos)

lemma restart_not_expired_at_once:
  "0 \<le> ms \<Longrightarrow> \<not> ezcore_time_isexpired_bydiff now (Some (ezcore_time_countdown now 0)) ms"
  by (simp add: restart_isexpired)

lemma length_md5_hexdump [simp]: "length (md5_hexdump bs upper) = 2 * length bs"
  by (induction bs) simp_all

lemma hex_digit_inj: "d < 16 \<Longrightarrow> d' < 16 \<Longrightarrow> hex_digit u d = hex_digit u d' \<Longrightarrow> d = d'"
  by (auto simp: hex_digit_def char_of_eq_iff take_bit_eq_mod split: if_splits)

end
