(* ===== verification/Kernel_State.thy ===== *)
theory Kernel_State
  imports Kernel_Queue Kernel_Time
begin

text \<open>
  The data of \<^verbatim>\<open>eziot/ez_iot_core\<close>: the structures of \<^verbatim>\<open>inc_private/sdk_kernel_def.h\<close>
  and \<^verbatim>\<open>inc/ez_iot_core_def.h\<close>, the globals of the core (\<^verbatim>\<open>g_ezdev_sdk_kernel\<close>, the
  five message queues, the extension tables, the DAS client) gathered in the
  record \<^verbatim>\<open>world\<close>, and the instances of the queue operations on them. Function
  pointers are identifiers, \<^verbatim>\<open>None\<close> being NULL; calls through them are recorded in
  the trace \<^verbatim>\<open>calls\<close>. The answers of the allocator, the clock and the network are
  inputs held in the world: \<^verbatim>\<open>net_answers\<close> are the results of the coming calls to the
  MQTT client and the socket layer (0 once used up), \<^verbatim>\<open>inbox\<close> the messages each coming
  \<^verbatim>\<open>MQTTYield\<close> delivers. \<^verbatim>\<open>w_fault\<close> is set when the code writes or copies outside an
  object or leaves a string field without terminator.
\<close>

section \<open>Configuration\<close>

definition CONFIG_EZIOT_CORE_MULTI_TASK :: bool where
  "CONFIG_EZIOT_CORE_MULTI_TASK = True"

definition CONFIG_EZIOT_CORE_MESSAGE_SIZE_MAX :: nat where
  "CONFIG_EZIOT_CORE_MESSAGE_SIZE_MAX = 16384"

definition CONFIG_EZIOT_CORE_MESSAGE_NUMBER_MAX :: nat where
  "CONFIG_EZIOT_CORE_MESSAGE_NUMBER_MAX = 64"

definition CONFIG_EZIOT_CORE_EXTEND_COUNT :: nat where
  "CONFIG_EZIOT_CORE_EXTEND_COUNT = 8"

definition CONFIG_EZIOT_CORE_EXTEND_COUNT_V3 :: nat where
  "CONFIG_EZIOT_CORE_EXTEND_COUNT_V3 = 8"

definition CONFIG_EZIOT_CORE_RISK_CONTROL_CMD_MAX :: nat where
  "CONFIG_EZIOT_CORE_RISK_CONTROL_CMD_MAX = 16"

definition CONFIG_EZIOT_CORE_DEFAULT_PUBLISH_RETRY :: uint16 where
  "CONFIG_EZIOT_CORE_DEFAULT_PUBLISH_RETRY = 2"

abbreviation version_max_len :: nat where "version_max_len \<equiv> 32"
abbreviation ezdev_sdk_ip_max_len :: nat where "ezdev_sdk_ip_max_len \<equiv> 64"
abbreviation ezdev_sdk_sessionkey_len :: nat where "ezdev_sdk_sessionkey_len \<equiv> 16"
abbreviation ezdev_sdk_devid_len :: nat where "ezdev_sdk_devid_len \<equiv> 32"
abbreviation ezdev_sdk_masterkey_len :: nat where "ezdev_sdk_masterkey_len \<equiv> 16"
abbreviation ezdev_sdk_name_len :: nat where "ezdev_sdk_name_len \<equiv> 64"
abbreviation ezdev_sdk_devserial_maxlen :: nat where "ezdev_sdk_devserial_maxlen \<equiv> 72"
abbreviation ezdev_sdk_verify_code_maxlen :: nat where "ezdev_sdk_verify_code_maxlen \<equiv> 48"
abbreviation ezdev_sdk_module_name_len :: nat where "ezdev_sdk_module_name_len \<equiv> 16"
abbreviation ezdev_sdk_resource_id_len :: nat where "ezdev_sdk_resource_id_len \<equiv> 64"
abbreviation ezdev_sdk_resource_type_len :: nat where "ezdev_sdk_resource_type_len \<equiv> 64"
abbreviation ezdev_sdk_msg_type_len :: nat where "ezdev_sdk_msg_type_len \<equiv> 64"
abbreviation ezdev_sdk_method_len :: nat where "ezdev_sdk_method_len \<equiv> 128"
abbreviation ezdev_sdk_max_serial_len :: nat where "ezdev_sdk_max_serial_len \<equiv> 72"
abbreviation ezdev_sdk_ext_msg_len :: nat where "ezdev_sdk_ext_msg_len \<equiv> 128"
abbreviation ezdev_sdk_recv_topic_len :: nat where "ezdev_sdk_recv_topic_len \<equiv> 128"

abbreviation DAS_CMD_DOMAIN :: uint32 where "DAS_CMD_DOMAIN \<equiv> 1000"
abbreviation DAS_CMD_COMMON_FUN :: uint32 where "DAS_CMD_COMMON_FUN \<equiv> 1001"
abbreviation DAS_CMD_CENPLT2PUDOMAINCONFIG :: uint32 where "DAS_CMD_CENPLT2PUDOMAINCONFIG \<equiv> 0x0001"
abbreviation DAS_CMD_CENPLT2PURISKCONFIG :: uint32 where "DAS_CMD_CENPLT2PURISKCONFIG \<equiv> 0x0002"
abbreviation DAS_CMD_CENPLT2PUOFFLINE :: uint32 where "DAS_CMD_CENPLT2PUOFFLINE \<equiv> 0x0003"
abbreviation DAS_CMD_CENPLT2PUSETKEEPALIVETIMEREQ :: uint32 where
  "DAS_CMD_CENPLT2PUSETKEEPALIVETIMEREQ \<equiv> 0x3450"
abbreviation DAS_CMD_CENPLT2PUSETLBSDOMAINNAMEBYDASREQ :: uint32 where
  "DAS_CMD_CENPLT2PUSETLBSDOMAINNAMEBYDASREQ \<equiv> 0x3479"
abbreviation DAS_CMD_CENPLT2PUSETLBSDOMAINNAMEREQ :: uint32 where
  "DAS_CMD_CENPLT2PUSETLBSDOMAINNAMEREQ \<equiv> 0x491F"
abbreviation DAS_CMD_PU2CENPLTUPGRADERSP :: uint32 where "DAS_CMD_PU2CENPLTUPGRADERSP \<equiv> 0x2864"

section \<open>Enumerations\<close>

datatype sdk_risk_control_flag = Sdk_no_risk_control | Sdk_risk_control
datatype sdk_entrance_state = Sdk_entrance_normal | Sdk_entrance_switchover
datatype sdk_state = Sdk_idle0 | Sdk_idle | Sdk_start | Sdk_stop
datatype sdk_cloud_cnt_state = Sdk_cnt_unredirect | Sdk_cnt_redirected | Sdk_cnt_das_reged | Sdk_cnt_das_break
datatype sdk_v3_reg_status = Sdk_v3_unreg | Sdk_v3_reged
datatype sdk_dev_auth_mode = Sdk_dev_auth_sap | Sdk_dev_auth_license
datatype ez_kernel_qos = QOS_T0 | QOS_T1 | QOS_T2
datatype extend_cb_type = Extend_cb_start | Extend_cb_stop | Extend_cb_event
datatype ez_kernel_event_type =
    SDK_KERNEL_EVENT_ONLINE | SDK_KERNEL_EVENT_BREAK | SDK_KERNEL_EVENT_SWITCHOVER
  | SDK_KERNEL_EVENT_RECONNECT | SDK_KERNEL_EVENT_PUBLISH_ACK

section \<open>Events\<close>

record ez_kernel_switchover_context =
  sw_das_udp_port :: uint16
  sw_das_ip :: string
  sw_lbs_ip :: string
  sw_session_key :: "byte list"
  sw_lbs_domain :: string

record ez_kernel_sessionkey_context =
  on_das_port :: uint16
  on_das_udp_port :: uint16
  on_das_ip :: string
  on_lbs_ip :: string
  on_session_key :: "byte list"
  on_das_socket :: int
  on_das_domain :: string
  on_das_serverid :: string

record ez_kernel_offline_context =
  off_last_error :: int
  off_das_ip :: string
  off_lbs_ip :: string

record ez_kernel_publish_ack =
  ack_last_error :: int
  ack_msg_seq :: uint32
  ack_module_name :: string
  ack_msg_type :: string

datatype event_context =
    Switchover_context ez_kernel_switchover_context
  | Sessionkey_context ez_kernel_sessionkey_context
  | Offline_context ez_kernel_offline_context
  | Publish_ack ez_kernel_publish_ack

record ez_kernel_event =
  event_type :: ez_kernel_event_type
  event_context :: "event_context option"

record ezdev_sdk_kernel_inner_cb_notic =
  cb_type :: extend_cb_type
  cb_event :: ez_kernel_event

section \<open>Messages\<close>

text \<open>A message buffer pointer is an optional byte list, \<^verbatim>\<open>None\<close> being NULL.\<close>

record ez_kernel_submsg =
  sub_msg_seq :: uint32
  sub_buf :: "byte list option"
  sub_buf_len :: uint32
  sub_msg_domain_id :: uint32
  sub_msg_command_id :: uint32
  sub_command_ver :: string

record ez_kernel_submsg_v3 =
  sub3_buf :: "byte list option"
  sub3_msg_seq :: uint32
  sub3_buf_len :: uint32
  sub3_resource_id :: string
  sub3_resource_type :: string
  sub3_module :: string
  sub3_method :: string
  sub3_msg_type :: string
  sub3_sub_serial :: string
  sub3_ext_msg :: string

record ez_kernel_pubmsg =
  pub_msg_response :: uint8
  pub_msg_qos :: ez_kernel_qos
  pub_msg_seq :: uint32
  pub_msg_body :: "byte list option"
  pub_msg_body_len :: uint32
  pub_msg_domain_id :: uint32
  pub_msg_command_id :: uint32
  pub_externel_ctx :: "byte list option"
  pub_externel_ctx_len :: uint32
  pub_command_ver :: string

record ez_kernel_pubmsg_v3 =
  pub3_msg_response :: uint8
  pub3_msg_qos :: ez_kernel_qos
  pub3_msg_seq :: uint32
  pub3_msg_body_len :: uint32
  pub3_msg_body :: "byte list option"
  pub3_resource_id :: string
  pub3_resource_type :: string
  pub3_module :: string
  pub3_method :: string
  pub3_msg_type :: string
  pub3_sub_serial :: string
  pub3_ext_msg :: string

record ezdev_sdk_kernel_pubmsg_exchange =
  max_send_count :: uint16
  msg_conntext :: ez_kernel_pubmsg

record ezdev_sdk_kernel_pubmsg_exchange_v3 =
  max_send_count_v3 :: uint16
  msg_conntext_v3 :: ez_kernel_pubmsg_v3

section \<open>Extensions\<close>

type_synonym func_ptr = "nat option"

record ez_kernel_extend =
  domain_id :: uint16
  extend_start :: func_ptr
  extend_stop :: func_ptr
  extend_data_route :: func_ptr
  extend_event :: func_ptr
  pUser :: nat
  extend_module_name :: string
  extend_module_version :: string

record ez_kernel_extend_v3 =
  ext3_module :: string
  ext3_data_route :: func_ptr
  ext3_event_route :: func_ptr

record ezdev_sdk_kernel_domain_info =
  domain_risk :: sdk_risk_control_flag
  cmd_risk_array :: "uint32 list"
  kernel_extend :: ez_kernel_extend

definition zero_extend :: ez_kernel_extend where
  "zero_extend = \<lparr>domain_id = 0, extend_start = None, extend_stop = None, extend_data_route = None,
     extend_event = None, pUser = 0, extend_module_name = '''', extend_module_version = ''''\<rparr>"

definition zero_domain :: ezdev_sdk_kernel_domain_info where
  "zero_domain = \<lparr>domain_risk = Sdk_no_risk_control,
     cmd_risk_array = replicate CONFIG_EZIOT_CORE_RISK_CONTROL_CMD_MAX 0,
     kernel_extend = zero_extend\<rparr>"

definition zero_extend_v3 :: ez_kernel_extend_v3 where
  "zero_extend_v3 = \<lparr>ext3_module = '''', ext3_data_route = None, ext3_event_route = None\<rparr>"

section \<open>The kernel context\<close>

record ezdev_server_info =
  server_name :: string
  server_ip :: string
  server_port :: uint16

record das_info =
  das_port :: uint16
  das_udp_port :: uint16
  das_address :: string
  das_domain :: string
  das_serverid :: string

record dev_basic_info =
  dev_access_mode :: uint16
  dev_auth_mode :: sdk_dev_auth_mode
  dev_status :: uint16
  dev_subserial :: string
  dev_verification_code :: string
  dev_serial :: string
  dev_firmwareversion :: string
  dev_type :: string
  dev_typedisplay :: string
  dev_mac :: string
  dev_firmwareidentificationcode :: string

record ezdev_sdk_kernel =
  lbs_redirect_times :: uint8
  das_retry_times :: uint8
  v3_reg_status :: sdk_v3_reg_status
  entr_state :: sdk_entrance_state
  my_state :: sdk_state
  cnt_state :: sdk_cloud_cnt_state
  cnt_state_timer :: ezos_timespec
  master_key :: "byte list"
  dev_id :: "byte list"
  session_key :: "byte list"
  das_keepalive_interval :: uint32
  dev_info :: dev_basic_info
  server_info :: ezdev_server_info
  redirect_das_info :: das_info
  szMainVersion :: string
  reg_mode :: uint8
  access_risk :: sdk_risk_control_flag
  dev_cur_auth_type :: uint8
  dev_def_auth_type :: uint8
  dev_auth_type_count :: uint8
  dev_last_auth_type :: uint8
  dev_auth_type_group :: "uint8 list"

definition zero_dev_info :: dev_basic_info where
  "zero_dev_info = \<lparr>dev_access_mode = 0, dev_auth_mode = Sdk_dev_auth_sap, dev_status = 0,
     dev_subserial = '''', dev_verification_code = '''', dev_serial = '''', dev_firmwareversion = '''',
     dev_type = '''', dev_typedisplay = '''', dev_mac = '''', dev_firmwareidentificationcode = ''''\<rparr>"

definition zero_kernel :: ezdev_sdk_kernel where
  "zero_kernel = \<lparr>lbs_redirect_times = 0, das_retry_times = 0, v3_reg_status = Sdk_v3_unreg,
     entr_state = Sdk_entrance_normal, my_state = Sdk_idle0, cnt_state = Sdk_cnt_unredirect,
     cnt_state_timer = \<lparr>tv_sec = 0, tv_nsec = 0\<rparr>, master_key = zeros ezdev_sdk_masterkey_len,
     dev_id = zeros ezdev_sdk_devid_len, session_key = zeros ezdev_sdk_sessionkey_len,
     das_keepalive_interval = 0, dev_info = zero_dev_info,
     server_info = \<lparr>server_name = '''', server_ip = '''', server_port = 0\<rparr>,
     redirect_das_info = \<lparr>das_port = 0, das_udp_port = 0, das_address = '''', das_domain = '''',
       das_serverid = ''''\<rparr>,
     szMainVersion = '''', reg_mode = 0, access_risk = Sdk_no_risk_control, dev_cur_auth_type = 0,
     dev_def_auth_type = 0, dev_auth_type_count = 0, dev_last_auth_type = 0,
     dev_auth_type_group = replicate 64 0\<rparr>"

section \<open>The world\<close>

text \<open>
  Calls the kernel makes into registered functions, oldest first. \<^verbatim>\<open>Null_call\<close>
  records a call through a NULL function pointer, which ends the program.
\<close>

datatype callback =
    Cb_start nat nat
  | Cb_stop nat nat
  | Cb_event nat ez_kernel_event nat
  | Cb_data nat ez_kernel_submsg nat
  | Cb_data_v3 nat ez_kernel_submsg_v3
  | Cb_event_v3 nat ez_kernel_event
  | Cb_notice nat ez_kernel_event
  | Null_call

text \<open>
  What the kernel asks of the network and the MQTT client, oldest first. The \<^verbatim>\<open>Sock\<close>
  entries are those of the socket calls of \<^verbatim>\<open>support/net_module.c\<close> for the load
  balancer, with the descriptor and what was sent.
\<close>

datatype net_op =
    Net_create
  | Net_connect string uint16
  | Net_disconnect
  | Mqtt_connect bool string "byte list" uint32
  | Mqtt_disconnect
  | Mqtt_subscribe string
  | Mqtt_unsubscribe string
  | Mqtt_publish string ez_kernel_qos "byte list"
  | Mqtt_yield
  | Sock_open int
  | Sock_connect int string uint16
  | Sock_send int "byte list"
  | Sock_close int

record das_client =
  keepAliveInterval :: uint32
  connect_timer :: ezos_timespec
  socket_fd :: int
  is_first_session :: bool
  isconnected :: bool

text \<open>
  A message the MQTT client hands to a subscription handler: to
  \<^verbatim>\<open>das_message_receive\<close> or to \<^verbatim>\<open>das_message_receive_v3\<close>, with topic and payload. \<^verbatim>\<open>In_ack\<close>
  is any other packet from the server (an acknowledgement or a ping response).
\<close>

datatype inbound = In_v2 string "byte list" | In_v3 string "byte list" | In_ack

text \<open>
  The answer of a platform call that is modelled call by call (sockets of the load
  balancer, random numbers): a result and the bytes it delivers.
\<close>

type_synonym plat_answer = "int \<times> byte list"

text \<open>The values the kernel has saved through \<^verbatim>\<open>key_value_save\<close>.\<close>

datatype sdk_keyvalue_type = Sdk_keyvalue_devid | Sdk_keyvalue_masterkey | Sdk_keyvalue_other

record world =
  kernel :: ezdev_sdk_kernel
  q_submsg :: "ez_kernel_submsg queue"
  q_pubmsg :: "ezdev_sdk_kernel_pubmsg_exchange queue"
  q_inner :: "ezdev_sdk_kernel_inner_cb_notic queue"
  q_submsg_v3 :: "ez_kernel_submsg_v3 queue"
  q_pubmsg_v3 :: "ezdev_sdk_kernel_pubmsg_exchange_v3 queue"
  domains_count :: nat
  extend_count :: nat
  domains :: "ezdev_sdk_kernel_domain_info list"
  extends :: "ez_kernel_extend_v3 list"
  event_notice_cb :: func_ptr
  das_transport_seq :: uint32
  das :: das_client
  w_mem :: mem
  now :: ezos_timespec
  net_answers :: "int list"
  calls :: "callback list"
  net_ops :: "net_op list"
  inbox :: "inbound list list"
  w_fault :: bool
  plat :: "plat_answer list"
  saved_values :: "(sdk_keyvalue_type \<times> byte list) list"

section \<open>Queue instances\<close>

definition push_queue_submsg :: "ez_kernel_submsg \<Rightarrow> world \<Rightarrow> mkernel_internal_error \<times> world" where
  "push_queue_submsg x w = (case push_queue x (w_mem w, q_submsg w) of (e, (m, q)) \<Rightarrow>
     (e, w\<lparr>w_mem := m, q_submsg := q\<rparr>))"

definition pop_queue_submsg :: "world \<Rightarrow> (mkernel_internal_error \<times> ez_kernel_submsg option) \<times> world" where
  "pop_queue_submsg w = (case pop_queue (w_mem w, q_submsg w) of (r, (m, q)) \<Rightarrow>
     (r, w\<lparr>w_mem := m, q_submsg := q\<rparr>))"

definition push_queue_submsg_v3 :: "ez_kernel_submsg_v3 \<Rightarrow> world \<Rightarrow> mkernel_internal_error \<times> world" where
  "push_queue_submsg_v3 x w = (case push_queue x (w_mem w, q_submsg_v3 w) of (e, (m, q)) \<Rightarrow>
     (e, w\<lparr>w_mem := m, q_submsg_v3 := q\<rparr>))"

definition pop_queue_submsg_v3 ::
    "world \<Rightarrow> (mkernel_internal_error \<times> ez_kernel_submsg_v3 option) \<times> world" where
  "pop_queue_submsg_v3 w = (case pop_queue (w_mem w, q_submsg_v3 w) of (r, (m, q)) \<Rightarrow>
     (r, w\<lparr>w_mem := m, q_submsg_v3 := q\<rparr>))"

definition push_queue_inner_cb_notic ::
    "ezdev_sdk_kernel_inner_cb_notic \<Rightarrow> world \<Rightarrow> mkernel_internal_error \<times> world" where
  "push_queue_inner_cb_notic x w = (case push_queue x (w_mem w, q_inner w) of (e, (m, q)) \<Rightarrow>
     (e, w\<lparr>w_mem := m, q_inner := q\<rparr>))"

definition pop_queue_inner_cb_notic ::
    "world \<Rightarrow> (mkernel_internal_error \<times> ezdev_sdk_kernel_inner_cb_notic option) \<times> world" where
  "pop_queue_inner_cb_notic w = (case pop_queue (w_mem w, q_inner w) of (r, (m, q)) \<Rightarrow>
     (r, w\<lparr>w_mem := m, q_inner := q\<rparr>))"

definition push_queue_pubmsg_exchange ::
    "ezdev_sdk_kernel_pubmsg_exchange \<Rightarrow> world \<Rightarrow> mkernel_internal_error \<times> world" where
  "push_queue_pubmsg_exchange x w = (case push_queue x (w_mem w, q_pubmsg w) of (e, (m, q)) \<Rightarrow>
     (e, w\<lparr>w_mem := m, q_pubmsg := q\<rparr>))"

definition push_queue_head_pubmsg_exchange ::
    "ezdev_sdk_kernel_pubmsg_exchange \<Rightarrow> world \<Rightarrow> mkernel_internal_error \<times> world" where
  "push_queue_head_pubmsg_exchange x w = (case push_queue_head x (w_mem w, q_pubmsg w) of (e, (m, q)) \<Rightarrow>
     (e, w\<lparr>w_mem := m, q_pubmsg := q\<rparr>))"

definition pop_queue_pubmsg_exchange ::
    "world \<Rightarrow> (mkernel_internal_error \<times> ezdev_sdk_kernel_pubmsg_exchange option) \<times> world" where
  "pop_queue_pubmsg_exchange w = (case pop_queue (w_mem w, q_pubmsg w) of (r, (m, q)) \<Rightarrow>
     (r, w\<lparr>w_mem := m, q_pubmsg := q\<rparr>))"

definition push_queue_pubmsg_exchange_v3 ::
    "ezdev_sdk_kernel_pubmsg_exchange_v3 \<Rightarrow> world \<Rightarrow> mkernel_internal_error \<times> world" where
  "push_queue_pubmsg_exchange_v3 x w = (case push_queue x (w_mem w, q_pubmsg_v3 w) of (e, (m, q)) \<Rightarrow>
     (e, w\<lparr>w_mem := m, q_pubmsg_v3 := q\<rparr>))"

definition push_queue_head_pubmsg_exchange_v3 ::
    "ezdev_sdk_kernel_pubmsg_exchange_v3 \<Rightarrow> world \<Rightarrow> mkernel_internal_error \<times> world" where
  "push_queue_head_pubmsg_exchange_v3 x w =
     (case push_queue_head x (w_mem w, q_pubmsg_v3 w) of (e, (m, q)) \<Rightarrow>
       (e, w\<lparr>w_mem := m, q_pubmsg_v3 := q\<rparr>))"

definition pop_queue_pubmsg_exchange_v3 ::
    "world \<Rightarrow> (mkernel_internal_error \<times> ezdev_sdk_kernel_pubmsg_exchange_v3 option) \<times> world" where
  "pop_queue_pubmsg_exchange_v3 w = (case pop_queue (w_mem w, q_pubmsg_v3 w) of (r, (m, q)) \<Rightarrow>
     (r, w\<lparr>w_mem := m, q_pubmsg_v3 := q\<rparr>))"

lemmas queue_instance_defs =
  push_queue_submsg_def pop_queue_submsg_def push_queue_submsg_v3_def pop_queue_submsg_v3_def
  push_queue_inner_cb_notic_def pop_queue_inner_cb_notic_def
  push_queue_pubmsg_exchange_def push_queue_head_pubmsg_exchange_def pop_queue_pubmsg_exchange_def
  push_queue_pubmsg_exchange_v3_def push_queue_head_pubmsg_exchange_v3_def
  pop_queue_pubmsg_exchange_v3_def

text \<open>\<^verbatim>\<open>ezos_malloc\<close> and \<^verbatim>\<open>ezos_free\<close> on the world.\<close>

definition w_malloc :: "world \<Rightarrow> bool \<times> world" where
  "w_malloc w = (case ezos_malloc (w_mem w) of (ok, m) \<Rightarrow> (ok, w\<lparr>w_mem := m\<rparr>))"

definition w_free :: "world \<Rightarrow> world" where
  "w_free w = w\<lparr>w_mem := ezos_free (w_mem w)\<rparr>"

definition w_frees :: "nat \<Rightarrow> world \<Rightarrow> world" where
  "w_frees n w = w\<lparr>w_mem := ezos_frees n (w_mem w)\<rparr>"

definition w_live :: "world \<Rightarrow> int" where
  "w_live w = live (w_mem w)"

text \<open>A call to the MQTT client or the socket layer: recorded, with the next answer.\<close>

definition net_call :: "net_op \<Rightarrow> world \<Rightarrow> int \<times> world" where
  "net_call p w =
     (case net_answers w of
        [] \<Rightarrow> (0, w\<lparr>net_ops := net_ops w @ [p]\<rparr>)
      | a # rest \<Rightarrow> (a, w\<lparr>net_answers := rest, net_ops := net_ops w @ [p]\<rparr>))"

text \<open>The client refuses to publish, subscribe or unsubscribe while not connected.\<close>

definition mqtt_call :: "net_op \<Rightarrow> world \<Rightarrow> int \<times> world" where
  "mqtt_call p w = (if isconnected (das w) then net_call p w else (- 1, w))"

definition faulty :: "bool \<Rightarrow> world \<Rightarrow> world" where
  "faulty b w = w\<lparr>w_fault := w_fault w \<or> b\<rparr>"

text \<open>A call through a function pointer.\<close>

definition call_ptr :: "func_ptr \<Rightarrow> (nat \<Rightarrow> callback) \<Rightarrow> world \<Rightarrow> world" where
  "call_ptr f c w = w\<lparr>calls := calls w @ [case f of None \<Rightarrow> Null_call | Some g \<Rightarrow> c g]\<rparr>"

text \<open>The blocks a queued message owns: its struct and the buffers it points to.\<close>

definition submsg_blocks :: "ez_kernel_submsg \<Rightarrow> nat" where
  "submsg_blocks x = 1 + of_bool (sub_buf x \<noteq> None)"

definition submsg_v3_blocks :: "ez_kernel_submsg_v3 \<Rightarrow> nat" where
  "submsg_v3_blocks x = 1 + of_bool (sub3_buf x \<noteq> None)"

definition pubmsg_blocks :: "ezdev_sdk_kernel_pubmsg_exchange \<Rightarrow> nat" where
  "pubmsg_blocks x = 1 + of_bool (pub_msg_body (msg_conntext x) \<noteq> None)
     + of_bool (pub_externel_ctx (msg_conntext x) \<noteq> None)"

definition pubmsg_v3_blocks :: "ezdev_sdk_kernel_pubmsg_exchange_v3 \<Rightarrow> nat" where
  "pubmsg_v3_blocks x = 1 + of_bool (pub3_msg_body (msg_conntext_v3 x) \<noteq> None)"

definition inner_blocks :: "ezdev_sdk_kernel_inner_cb_notic \<Rightarrow> nat" where
  "inner_blocks x = 1 + of_bool (event_context (cb_event x) \<noteq> None)"

text \<open>The blocks reachable from the five queues: each message and its list element.\<close>

definition queued_blocks :: "world \<Rightarrow> int" where
  "queued_blocks w =
     (\<Sum>x\<leftarrow>q_elems (q_submsg w). 1 + int (submsg_blocks x)) +
     (\<Sum>x\<leftarrow>q_elems (q_submsg_v3 w). 1 + int (submsg_v3_blocks x)) +
     (\<Sum>x\<leftarrow>q_elems (q_pubmsg w). 1 + int (pubmsg_blocks x)) +
     (\<Sum>x\<leftarrow>q_elems (q_pubmsg_v3 w). 1 + int (pubmsg_v3_blocks x)) +
     (\<Sum>x\<leftarrow>q_elems (q_inner w). 1 + int (inner_blocks x))"

text \<open>Blocks allocated by the core and not reachable from its queues.\<close>

definition lost_blocks :: "world \<Rightarrow> int" where
  "lost_blocks w = w_live w - queued_blocks w"

section \<open>Invariant of the queues\<close>

definition queues_wf :: "world \<Rightarrow> bool" where
  "queues_wf w \<longleftrightarrow> q_wf (q_submsg w) \<and> q_wf (q_pubmsg w) \<and> q_wf (q_inner w) \<and>
     q_wf (q_submsg_v3 w) \<and> q_wf (q_pubmsg_v3 w)"

lemma w_live_simps [simp]:
  "w_live (w_free w) = w_live w - 1" "w_live (w_frees n w) = w_live w - int n"
  by (simp_all add: w_live_def w_free_def w_frees_def)

lemma w_malloc_live: "w_malloc w = (ok, w') \<Longrightarrow> w_live w' = w_live w + of_bool ok"
  by (auto simp: w_malloc_def w_live_def split: prod.splits dest: malloc_live)

lemma queues_wf_mem [simp]: "queues_wf (w\<lparr>w_mem := m\<rparr>) = queues_wf w"
  by (simp add: queues_wf_def)

lemma queued_blocks_mem [simp]: "queued_blocks (w\<lparr>w_mem := m\<rparr>) = queued_blocks w"
  by (simp add: queued_blocks_def)

end
