(* ===== verification/Kernel_Event.thy ===== *)
theory Kernel_Event
  imports Kernel_State
begin

text \<open>
  The local event broadcaster, \<^verbatim>\<open>dispatcher/ezdev_sdk_kernel_event.c\<close>: each function
  allocates a notice, fills it and pushes it to \<^verbatim>\<open>g_queue_inner_cb_notic\<close>, from where
  the user task delivers it (\<^verbatim>\<open>Kernel_Extend\<close>). The lemmas give the queue and the
  allocation count after each function on every branch.
\<close>

section \<open>Operations\<close>

text \<open>The retry loop: at most \<^verbatim>\<open>n\<close> further pushes, until one succeeds.\<close>

fun push_event_retry :: "nat \<Rightarrow> ezdev_sdk_kernel_inner_cb_notic \<Rightarrow> mkernel_internal_error \<Rightarrow> world
    \<Rightarrow> mkernel_internal_error \<times> world" where
  "push_event_retry 0 x e w = (e, w)"
| "push_event_retry (Suc n) x e w =
     (case push_queue_inner_cb_notic x w of (e', w') \<Rightarrow>
       if e' = mkernel_internal_succ then (e', w') else push_event_retry n x e' w')"

definition push_event_to_queue :: "ezdev_sdk_kernel_inner_cb_notic option \<Rightarrow> world
    \<Rightarrow> mkernel_internal_error \<times> world" where
  "push_event_to_queue p w =
     (case p of
        None \<Rightarrow> (mkernel_internal_input_param_invalid, w)
      | Some x \<Rightarrow>
          (case push_queue_inner_cb_notic x w of (e, w') \<Rightarrow>
            if e \<noteq> mkernel_internal_succ then
              (if CONFIG_EZIOT_CORE_MULTI_TASK then push_event_retry 50 x e w' else (e, w'))
            else (e, w')))"

definition broadcast_user_start :: "world \<Rightarrow> mkernel_internal_error \<times> world" where
  "broadcast_user_start w =
     (case w_malloc w of (ok, w1) \<Rightarrow>
       if \<not> ok then (mkernel_internal_malloc_error, w1)
       else push_event_to_queue (Some \<lparr>cb_type = Extend_cb_start,
         cb_event = \<lparr>event_type = SDK_KERNEL_EVENT_ONLINE, event_context = None\<rparr>\<rparr>) w1)"

definition broadcast_user_stop :: "world \<Rightarrow> mkernel_internal_error \<times> world" where
  "broadcast_user_stop w =
     (case w_malloc w of (ok, w1) \<Rightarrow>
       if \<not> ok then (mkernel_internal_malloc_error, w1)
       else push_event_to_queue (Some \<lparr>cb_type = Extend_cb_stop,
         cb_event = \<lparr>event_type = SDK_KERNEL_EVENT_ONLINE, event_context = None\<rparr>\<rparr>) w1)"

definition broadcast_user_event :: "ez_kernel_event_type \<Rightarrow> event_context option \<Rightarrow> world
    \<Rightarrow> mkernel_internal_error \<times> world" where
  "broadcast_user_event ty ctx w =
     (case w_malloc w of (ok, w1) \<Rightarrow>
       if \<not> ok then (mkernel_internal_malloc_error, w1)
       else
         (case (if ctx \<noteq> None then w_malloc w1 else (True, w1)) of (ok', w2) \<Rightarrow>
           if \<not> ok' then (mkernel_internal_malloc_error, w_free w2)
           else
             (case push_event_to_queue (Some \<lparr>cb_type = Extend_cb_event,
                     cb_event = \<lparr>event_type = ty, event_context = ctx\<rparr>\<rparr>) w2 of (rv, w3) \<Rightarrow>
               if rv \<noteq> mkernel_internal_succ then
                 (rv, if ctx \<noteq> None then w_free (w_free w3) else w_free w3)
               else (rv, w3))))"

definition broadcast_user_event_reconnect_success :: "world \<Rightarrow> mkernel_internal_error \<times> world" where
  "broadcast_user_event_reconnect_success w =
     (case w_malloc w of (ok, w1) \<Rightarrow>
       if \<not> ok then (mkernel_internal_malloc_error, w1)
       else push_event_to_queue (Some \<lparr>cb_type = Extend_cb_event,
         cb_event = \<lparr>event_type = SDK_KERNEL_EVENT_RECONNECT, event_context = None\<rparr>\<rparr>) w1)"

section \<open>Frame and effect\<close>

text \<open>
  What a broadcast may touch: the notice queue and the allocator. The predicate
  relates the world before and after an operation that stored the notices \<^verbatim>\<open>xs\<close>
  and changed the number of live blocks by \<^verbatim>\<open>d\<close>.
\<close>

definition notices_added :: "ezdev_sdk_kernel_inner_cb_notic list \<Rightarrow> int \<Rightarrow> world \<Rightarrow> world \<Rightarrow> bool" where
  "notices_added xs d w w' \<longleftrightarrow>
     w' = w\<lparr>q_inner := q_inner w', w_mem := w_mem w'\<rparr> \<and>
     q_elems (q_inner w') = q_elems (q_inner w) @ xs \<and>
     q_maxsize (q_inner w') = q_maxsize (q_inner w) \<and>
     (q_wf (q_inner w) \<longrightarrow> q_wf (q_inner w')) \<and>
     w_live w' = w_live w + d"

lemma notices_added_frame:
  assumes "notices_added xs d w w'"
  shows "q_submsg w' = q_submsg w" "q_pubmsg w' = q_pubmsg w" "q_submsg_v3 w' = q_submsg_v3 w"
    "q_pubmsg_v3 w' = q_pubmsg_v3 w" "kernel w' = kernel w" "calls w' = calls w" "das w' = das w"
    "net_ops w' = net_ops w" "net_answers w' = net_answers w" "now w' = now w" "domains w' = domains w"
    "domains_count w' = domains_count w" "event_notice_cb w' = event_notice_cb w" "extends w' = extends w"
    "w_fault w' = w_fault w" "inbox w' = inbox w"
proof -
  have w': "w' = w\<lparr>q_inner := q_inner w', w_mem := w_mem w'\<rparr>"
    using assms by (simp add: notices_added_def)
  show "q_submsg w' = q_submsg w" "q_pubmsg w' = q_pubmsg w" "q_submsg_v3 w' = q_submsg_v3 w"
    "q_pubmsg_v3 w' = q_pubmsg_v3 w" "kernel w' = kernel w" "calls w' = calls w" "das w' = das w"
    "net_ops w' = net_ops w" "net_answers w' = net_answers w" "now w' = now w" "domains w' = domains w"
    "domains_count w' = domains_count w" "event_notice_cb w' = event_notice_cb w" "extends w' = extends w"
    "w_fault w' = w_fault w" "inbox w' = inbox w"
    by (subst w', simp)+
qed

lemma notices_added_queued:
  assumes "notices_added xs d w w'"
  shows "queued_blocks w' = queued_blocks w + (\<Sum>x\<leftarrow>xs. 1 + int (inner_blocks x))"
    "lost_blocks w' = lost_blocks w + d - (\<Sum>x\<leftarrow>xs. 1 + int (inner_blocks x))"
  using assms notices_added_frame [OF assms]
  by (simp_all add: lost_blocks_def queued_blocks_def notices_added_def)

lemma notices_added_refl: "notices_added [] 0 w w"
  by (simp add: notices_added_def)

lemma notices_added_trans:
  assumes "notices_added xs d w w1" and "notices_added ys e w1 w2"
  shows "notices_added (xs @ ys) (d + e) w w2"
proof -
  from assms(1) have 1: "w1 = w\<lparr>q_inner := q_inner w1, w_mem := w_mem w1\<rparr>"
    by (simp add: notices_added_def)
  from assms(2) have 2: "w2 = w1\<lparr>q_inner := q_inner w2, w_mem := w_mem w2\<rparr>"
    by (simp add: notices_added_def)
  have "w2 = w\<lparr>q_inner := q_inner w2, w_mem := w_mem w2\<rparr>"
    by (subst 2, subst 1) simp
  with assms show ?thesis by (simp add: notices_added_def)
qed

lemma notices_added_malloc:
  "w_malloc w = (ok, w') \<Longrightarrow> notices_added [] (of_bool ok) w w'"
  using w_malloc_live [of w ok w']
  by (auto simp: notices_added_def w_malloc_def split: prod.splits)

lemma notices_added_free: "notices_added [] (- 1) w (w_free w)"
  by (simp add: notices_added_def) (simp add: w_free_def)

lemma push_inner_effect:
  assumes "push_queue_inner_cb_notic x w = (e, w')"
  shows "notices_added (if e = mkernel_internal_succ then [x] else [])
    (of_bool (e = mkernel_internal_succ)) w w'"
proof -
  from assms obtain m q where p: "push_queue x (w_mem w, q_inner w) = (e, (m, q))"
    and w': "w' = w\<lparr>w_mem := m, q_inner := q\<rparr>"
    by (auto simp: push_queue_inner_cb_notic_def split: prod.splits)
  from p have wf: "q_wf (q_inner w) \<Longrightarrow> q_wf q"
    using q_wf_push [of "q_inner w" x "w_mem w"] by simp
  from p show ?thesis
    by (cases rule: push_queue_cases) (simp_all add: w' notices_added_def w_live_def wf)
qed

lemma push_event_retry_effect:
  assumes "push_event_retry n x e w = (e', w')" and "e \<noteq> mkernel_internal_succ"
  shows "notices_added (if e' = mkernel_internal_succ then [x] else [])
    (of_bool (e' = mkernel_internal_succ)) w w'"
  using assms
proof (induction n arbitrary: e w)
  case 0
  then show ?case by (simp add: notices_added_refl)
next
  case (Suc n)
  obtain e1 w1 where p: "push_queue_inner_cb_notic x w = (e1, w1)" by fastforce
  note eff = push_inner_effect [OF p]
  show ?case
  proof (cases "e1 = mkernel_internal_succ")
    case True
    with Suc.prems p eff show ?thesis by simp
  next
    case False
    with Suc.prems p Suc.IH [of e1 w1] notices_added_trans [OF eff] show ?thesis by simp
  qed
qed

lemma push_event_effect:
  assumes "push_event_to_queue (Some x) w = (e, w')"
  shows "notices_added (if e = mkernel_internal_succ then [x] else [])
    (of_bool (e = mkernel_internal_succ)) w w'"
proof -
  obtain e1 w1 where p: "push_queue_inner_cb_notic x w = (e1, w1)" by fastforce
  note eff = push_inner_effect [OF p]
  show ?thesis
  proof (cases "e1 = mkernel_internal_succ")
    case True
    with assms p eff show ?thesis by (simp add: push_event_to_queue_def)
  next
    case False
    with assms p have "push_event_retry 50 x e1 w1 = (e, w')"
      by (simp add: push_event_to_queue_def CONFIG_EZIOT_CORE_MULTI_TASK_def)
    from push_event_retry_effect [OF this False] notices_added_trans [OF eff] False
    show ?thesis by simp
  qed
qed

text \<open>Retrying does not help while the queue is full: nothing else runs in between.\<close>

lemma push_event_full:
  assumes "q_wf (q_inner w)" and "length (q_elems (q_inner w)) = unat (q_maxsize (q_inner w))"
  shows "push_event_to_queue (Some x) w = (mkernel_internal_queue_full, w)"
proof -
  have "push_queue x (w_mem w, q_inner w) = (mkernel_internal_queue_full, (w_mem w, q_inner w))"
    using assms by (intro lq.push_full) (simp_all add: qs_defs)
  then have p: "push_queue_inner_cb_notic x w = (mkernel_internal_queue_full, w)"
    by (simp add: push_queue_inner_cb_notic_def)
  then have "push_event_retry n x mkernel_internal_queue_full w = (mkernel_internal_queue_full, w)" for n
    by (induction n) simp_all
  with p show ?thesis by (simp add: push_event_to_queue_def)
qed

text \<open>
  A user event is either queued with its context, adding the notice, its context
  copy and a list element to the live blocks, or refused with nothing leaked.
\<close>

lemma broadcast_user_event_effect:
  assumes "broadcast_user_event ty ctx w = (e, w')"
  shows "if e = mkernel_internal_succ
    then notices_added [\<lparr>cb_type = Extend_cb_event,
        cb_event = \<lparr>event_type = ty, event_context = ctx\<rparr>\<rparr>] (2 + of_bool (ctx \<noteq> None)) w w'
    else notices_added [] 0 w w'"
proof -
  let ?x = "\<lparr>cb_type = Extend_cb_event, cb_event = \<lparr>event_type = ty, event_context = ctx\<rparr>\<rparr>"
  obtain ok w1 where m: "w_malloc w = (ok, w1)" by fastforce
  note e1 = notices_added_malloc [OF m]
  obtain ok' w2 where m': "(if ctx \<noteq> None then w_malloc w1 else (True, w1)) = (ok', w2)" by fastforce
  have e2: "notices_added [] (of_bool (ok' \<and> ctx \<noteq> None)) w1 w2"
    using m' notices_added_malloc [of w1 ok' w2] notices_added_refl [of w1] by (auto split: if_splits)
  obtain rv w3 where p: "push_event_to_queue (Some ?x) w2 = (rv, w3)" by fastforce
  note e3 = push_event_effect [OF p]
  note unf = assms [unfolded broadcast_user_event_def m prod.case m' p]
  note e12 = notices_added_trans [OF e1 e2]
  note e123 = notices_added_trans [OF e12 e3]
  note f1 = notices_added_free [of w3] and f2 = notices_added_free [of "w_free w3"]
  consider "\<not> ok" | "ok" "\<not> ok'" | "ok" "ok'" "rv \<noteq> mkernel_internal_succ"
    | "ok" "ok'" "rv = mkernel_internal_succ" by blast
  then show ?thesis
  proof cases
    case 1
    with unf e1 show ?thesis by simp
  next
    case 2
    with unf notices_added_trans [OF e12 notices_added_free] show ?thesis by simp
  next
    case 3
    with unf notices_added_trans [OF e123 f1]
      notices_added_trans [OF notices_added_trans [OF e123 f1] f2]
    show ?thesis by (auto split: if_splits)
  next
    case 4
    with unf e123 show ?thesis by (auto split: if_splits)
  qed
qed

text \<open>The three notices without context keep their block when the push is refused.\<close>

lemma broadcast_plain_effect:
  assumes "(case w_malloc w of (ok, w1) \<Rightarrow>
      if \<not> ok then (mkernel_internal_malloc_error, w1) else push_event_to_queue (Some x) w1) = (e, w')"
  shows "notices_added (if e = mkernel_internal_succ then [x] else [])
    (if e = mkernel_internal_succ then 2 else of_bool (fst (w_malloc w))) w w'"
proof -
  obtain ok w1 where m: "w_malloc w = (ok, w1)" by fastforce
  note e1 = notices_added_malloc [OF m]
  show ?thesis
  proof (cases ok)
    case True
    with assms m have p: "push_event_to_queue (Some x) w1 = (e, w')" by simp
    from notices_added_trans [OF e1 push_event_effect [OF p]] True m show ?thesis
      by (auto split: if_splits)
  next
    case False
    with assms m e1 show ?thesis by auto
  qed
qed

abbreviation notice_start :: ezdev_sdk_kernel_inner_cb_notic where
  "notice_start \<equiv> \<lparr>cb_type = Extend_cb_start,
     cb_event = \<lparr>event_type = SDK_KERNEL_EVENT_ONLINE, event_context = None\<rparr>\<rparr>"

abbreviation notice_stop :: ezdev_sdk_kernel_inner_cb_notic where
  "notice_stop \<equiv> \<lparr>cb_type = Extend_cb_stop,
     cb_event = \<lparr>event_type = SDK_KERNEL_EVENT_ONLINE, event_context = None\<rparr>\<rparr>"

abbreviation notice_reconnect :: ezdev_sdk_kernel_inner_cb_notic where
  "notice_reconnect \<equiv> \<lparr>cb_type = Extend_cb_event,
     cb_event = \<lparr>event_type = SDK_KERNEL_EVENT_RECONNECT, event_context = None\<rparr>\<rparr>"

lemma broadcast_user_start_effect:
  "broadcast_user_start w = (e, w') \<Longrightarrow>
   notices_added (if e = mkernel_internal_succ then [notice_start] else [])
     (if e = mkernel_internal_succ then 2 else of_bool (fst (w_malloc w))) w w'"
  unfolding broadcast_user_start_def by (rule broadcast_plain_effect)

lemma broadcast_user_stop_effect:
  "broadcast_user_stop w = (e, w') \<Longrightarrow>
   notices_added (if e = mkernel_internal_succ then [notice_stop] else [])
     (if e = mkernel_internal_succ then 2 else of_bool (fst (w_malloc w))) w w'"
  unfolding broadcast_user_stop_def by (rule broadcast_plain_effect)

lemma broadcast_user_event_reconnect_success_effect:
  "broadcast_user_event_reconnect_success w = (e, w') \<Longrightarrow>
   notices_added (if e = mkernel_internal_succ then [notice_reconnect] else [])
     (if e = mkernel_internal_succ then 2 else of_bool (fst (w_malloc w))) w w'"
  unfolding broadcast_user_event_reconnect_success_def by (rule broadcast_plain_effect)

text \<open>Broadcasting leaves the kernel context and the session alone.\<close>

lemma broadcast_user_event_keeps [simp, frame_simps]:
  "kernel (snd (broadcast_user_event ty c w)) = kernel w"
  "das (snd (broadcast_user_event ty c w)) = das w"
  using broadcast_user_event_effect [of ty c w] notices_added_frame(5,7)
  by (cases "broadcast_user_event ty c w"; fastforce split: if_splits)+

lemma broadcast_reconnect_keeps [simp, frame_simps]:
  "kernel (snd (broadcast_user_event_reconnect_success w)) = kernel w"
  "das (snd (broadcast_user_event_reconnect_success w)) = das w"
  using broadcast_user_event_reconnect_success_effect [of w] notices_added_frame(5,7)
  by (cases "broadcast_user_event_reconnect_success w"; fastforce)+

end
