(* ===== verification/Registry.thy ===== *)
theory Registry
  imports Kernel_Errors
begin

text \<open>
  The kernel keeps two fixed-size tables of registered modules, one per protocol
  version, filled from the front and searched linearly. Here: the scan both
  \<^verbatim>\<open>extend_load\<close> functions make, the shape of such a table, and the contract of a
  registry, from which the behaviour of a series of registrations follows. The
  two tables provide the contract in \<^verbatim>\<open>Kernel_Extend\<close>.
\<close>

section \<open>The scan\<close>

text \<open>
  The loop of \<^verbatim>\<open>extend_load\<close> and \<^verbatim>\<open>extend_load_v3\<close> from index \<^verbatim>\<open>i\<close>: it ends at the
  first free slot, at an entry with the same key, or past the last entry.
\<close>

datatype slot = Slot_ready | Slot_free nat | Slot_full

fun load_slot :: "('a \<Rightarrow> bool) \<Rightarrow> ('a \<Rightarrow> bool) \<Rightarrow> nat \<Rightarrow> 'a list \<Rightarrow> slot" where
  "load_slot free same i [] = Slot_full"
| "load_slot free same i (x # xs) =
     (if free x then Slot_free i
      else if same x then Slot_ready
      else load_slot free same (Suc i) xs)"

section \<open>Tables filled from the front\<close>

definition used :: "('a \<Rightarrow> 'k) \<Rightarrow> 'k \<Rightarrow> 'a list \<Rightarrow> 'a list" where
  "used key z xs = takeWhile (\<lambda>x. key x \<noteq> z) xs"

definition tbl_wf :: "('a \<Rightarrow> 'k) \<Rightarrow> 'k \<Rightarrow> 'a list \<Rightarrow> bool" where
  "tbl_wf key z xs \<longleftrightarrow> distinct (map key (used key z xs)) \<and>
     list_all (\<lambda>x. key x = z) (dropWhile (\<lambda>x. key x \<noteq> z) xs)"

lemma tbl_split:
  obtains rest where "xs = used key z xs @ rest" "\<forall>x \<in> set (used key z xs). key x \<noteq> z"
    "tbl_wf key z xs \<longleftrightarrow> distinct (map key (used key z xs)) \<and> (\<forall>x \<in> set rest. key x = z)"
proof
  show "xs = used key z xs @ dropWhile (\<lambda>x. key x \<noteq> z) xs"
    unfolding used_def by simp
  show "\<forall>x \<in> set (used key z xs). key x \<noteq> z"
    unfolding used_def by (auto dest: set_takeWhileD)
  show "tbl_wf key z xs \<longleftrightarrow> distinct (map key (used key z xs)) \<and>
      (\<forall>x \<in> set (dropWhile (\<lambda>x. key x \<noteq> z) xs). key x = z)"
    by (simp add: tbl_wf_def list_all_iff)
qed

lemma tbl_parts:
  assumes "\<forall>x \<in> set us. key x \<noteq> z" and "\<forall>x \<in> set fs. key x = z"
  shows "used key z (us @ fs) = us" "tbl_wf key z (us @ fs) \<longleftrightarrow> distinct (map key us)"
proof -
  have "takeWhile (\<lambda>x. key x \<noteq> z) fs = []" "dropWhile (\<lambda>x. key x \<noteq> z) fs = fs"
    using assms(2) by (cases fs; simp)+
  then show u: "used key z (us @ fs) = us"
    using assms(1) by (simp add: used_def takeWhile_append2)
  have "dropWhile (\<lambda>x. key x \<noteq> z) (us @ fs) = dropWhile (\<lambda>x. key x \<noteq> z) fs"
    using assms(1) by (induction us) simp_all
  with \<open>dropWhile (\<lambda>x. key x \<noteq> z) fs = fs\<close> assms(2) u
  show "tbl_wf key z (us @ fs) \<longleftrightarrow> distinct (map key us)"
    by (simp add: tbl_wf_def list_all_iff)
qed

lemma length_used: "length (used key z xs) \<le> length xs"
  unfolding used_def by (rule length_takeWhile_le)

lemma load_slot_cases:
  "load_slot (\<lambda>x. key x = z) (\<lambda>x. key x = k) i xs =
     (if k \<noteq> z \<and> k \<in> key ` set (used key z xs) then Slot_ready
      else if length (used key z xs) < length xs then Slot_free (i + length (used key z xs))
      else Slot_full)"
  by (induction xs arbitrary: i) (auto simp: used_def)

lemma tbl_update:
  assumes "length (used key z xs) < length xs" and "key y \<noteq> z" and "tbl_wf key z xs"
  shows "used key z (xs[length (used key z xs) := y]) = used key z xs @ [y]"
    "tbl_wf key z (xs[length (used key z xs) := y]) \<longleftrightarrow> key y \<notin> key ` set (used key z xs)"
proof -
  obtain rest where r: "xs = used key z xs @ rest" "\<forall>x \<in> set (used key z xs). key x \<noteq> z"
    "tbl_wf key z xs \<longleftrightarrow> distinct (map key (used key z xs)) \<and> (\<forall>x \<in> set rest. key x = z)"
    by (rule tbl_split)
  from assms(1) r(1) obtain x fs where f: "rest = x # fs"
    by (metis append_Nil2 less_irrefl neq_Nil_conv)
  let ?u = "used key z xs"
  have e: "xs[length ?u := y] = (?u @ [y]) @ fs"
    by (subst r(1)) (simp add: f)
  have "\<forall>x \<in> set (?u @ [y]). key x \<noteq> z" "\<forall>x \<in> set fs. key x = z"
    using r assms(2,3) f by auto
  note p = tbl_parts [OF this]
  from p(1) e show "used key z (xs[length ?u := y]) = ?u @ [y]" by simp
  from p(2) e r(3) assms(3) show "tbl_wf key z (xs[length ?u := y]) \<longleftrightarrow> key y \<notin> key ` set ?u"
    by (simp add: image_iff)
qed

text \<open>In a well-formed table a key that is not the free mark is found in the used part.\<close>

lemma first_index_append_None:
  "\<forall>x \<in> set zs. \<not> P x \<Longrightarrow> first_index P (ys @ zs) = first_index P ys"
  by (induction ys) (simp_all add: first_index_None)

lemma lookup_used:
  assumes "k \<noteq> z" and "tbl_wf key z xs"
  shows "first_index (\<lambda>x. key x = k) xs = first_index (\<lambda>x. key x = k) (used key z xs)"
proof -
  obtain rest where r: "xs = used key z xs @ rest" "\<forall>x \<in> set (used key z xs). key x \<noteq> z"
    "tbl_wf key z xs \<longleftrightarrow> distinct (map key (used key z xs)) \<and> (\<forall>x \<in> set rest. key x = z)"
    by (rule tbl_split)
  then have "\<forall>x \<in> set rest. \<not> key x = k" using assms by auto
  from first_index_append_None [OF this] r(1) show ?thesis by metis
qed

lemma lookup_used_iff:
  assumes "k \<noteq> z" and "tbl_wf key z xs"
  shows "map_option (\<lambda>i. xs ! i) (first_index (\<lambda>x. key x = k) xs) = Some e \<longleftrightarrow>
    e \<in> set (used key z xs) \<and> key e = k"
proof -
  obtain rest where r: "xs = used key z xs @ rest" "\<forall>x \<in> set (used key z xs). key x \<noteq> z"
    "tbl_wf key z xs \<longleftrightarrow> distinct (map key (used key z xs)) \<and> (\<forall>x \<in> set rest. key x = z)"
    by (rule tbl_split)
  let ?u = "used key z xs"
  have nth: "xs ! i = ?u ! i" if "i < length ?u" for i
    by (subst r(1)) (simp add: that nth_append)
  have d: "distinct (map key ?u)" using r(3) assms(2) by simp
  show ?thesis
  proof
    assume "map_option (\<lambda>i. xs ! i) (first_index (\<lambda>x. key x = k) xs) = Some e"
    then show "e \<in> set ?u \<and> key e = k"
      using nth by (auto simp: lookup_used [OF assms] first_index_iff)
  next
    assume e: "e \<in> set ?u \<and> key e = k"
    then obtain i where i: "i < length ?u" "?u ! i = e" by (auto simp: in_set_conv_nth)
    have "first_index (\<lambda>x. key x = k) ?u = Some i"
      using i e d by (auto simp: first_index_iff distinct_conv_nth)
    with i nth show "map_option (\<lambda>i. xs ! i) (first_index (\<lambda>x. key x = k) xs) = Some e"
      by (simp add: lookup_used [OF assms])
  qed
qed

text \<open>The shape of a table depends on its keys only.\<close>

lemma tbl_keys:
  "map key (used key z xs) = takeWhile (\<lambda>k. k \<noteq> z) (map key xs)"
  "tbl_wf key z xs \<longleftrightarrow> distinct (takeWhile (\<lambda>k. k \<noteq> z) (map key xs)) \<and>
     list_all (\<lambda>k. k = z) (dropWhile (\<lambda>k. k \<noteq> z) (map key xs))"
  by (simp_all add: tbl_wf_def used_def takeWhile_map dropWhile_map comp_def list_all_iff)

section \<open>The contract\<close>

fun load_all :: "('e \<Rightarrow> 's \<Rightarrow> mkernel_internal_error \<times> 's) \<Rightarrow> 'e list \<Rightarrow> 's
    \<Rightarrow> mkernel_internal_error list \<times> 's" where
  "load_all load [] s = ([], s)"
| "load_all load (e # es) s =
     (let (r, s1) = load e s; (rs, s2) = load_all load es s1 in (r # rs, s2))"

locale registry =
  fixes load :: "'e \<Rightarrow> 's \<Rightarrow> mkernel_internal_error \<times> 's"
    and lookup :: "'k \<Rightarrow> 's \<Rightarrow> 'e option"
    and key :: "'e \<Rightarrow> 'k"
    and valid :: "'k \<Rightarrow> bool"
    and entries :: "'s \<Rightarrow> 'e list"
    and capacity :: "'s \<Rightarrow> nat"
    and invar :: "'s \<Rightarrow> bool"
  assumes bound: "invar s \<Longrightarrow> length (entries s) \<le> capacity s"
    and distinct_keys: "invar s \<Longrightarrow> distinct (map key (entries s))"
    and load_ready: "invar s \<Longrightarrow> valid (key e) \<Longrightarrow> key e \<in> key ` set (entries s) \<Longrightarrow>
      load e s = (mkernel_internal_extend_ready, s)"
    and load_full: "invar s \<Longrightarrow> valid (key e) \<Longrightarrow> key e \<notin> key ` set (entries s) \<Longrightarrow>
      length (entries s) = capacity s \<Longrightarrow> load e s = (mkernel_internal_extend_full, s)"
    and load_succ: "invar s \<Longrightarrow> valid (key e) \<Longrightarrow> key e \<notin> key ` set (entries s) \<Longrightarrow>
      length (entries s) < capacity s \<Longrightarrow>
      \<exists>s'. load e s = (mkernel_internal_succ, s') \<and> entries s' = entries s @ [e] \<and>
        capacity s' = capacity s \<and> invar s'"
    and lookup_iff: "invar s \<Longrightarrow> valid k \<Longrightarrow>
      lookup k s = Some e \<longleftrightarrow> e \<in> set (entries s) \<and> key e = k"
begin

text \<open>Modules with new, distinct keys that fit are all registered, in order.\<close>

lemma load_all_succ:
  assumes "invar s" and "length (entries s) + length es \<le> capacity s"
    and "\<forall>e \<in> set es. valid (key e)" and "distinct (map key (entries s @ es))"
  shows "\<exists>s'. load_all load es s = (replicate (length es) mkernel_internal_succ, s') \<and>
    entries s' = entries s @ es \<and> capacity s' = capacity s \<and> invar s'"
  using assms
proof (induction es arbitrary: s)
  case Nil
  then show ?case by simp
next
  case (Cons e es)
  from load_succ [OF Cons.prems(1), of e] Cons.prems(2-4)
  obtain s1 where s1: "load e s = (mkernel_internal_succ, s1)" "entries s1 = entries s @ [e]"
    "capacity s1 = capacity s" "invar s1"
    by auto
  from Cons.IH [OF s1(4)] Cons.prems(2-4) s1(1-3) show ?case by auto
qed

text \<open>Each of them is then the module the lookup returns.\<close>

lemma load_all_lookup:
  assumes "invar s" and "length (entries s) + length es \<le> capacity s"
    and "\<forall>e \<in> set es. valid (key e)" and "distinct (map key (entries s @ es))" and "e \<in> set es"
  shows "lookup (key e) (snd (load_all load es s)) = Some e"
proof -
  from load_all_succ [OF assms(1-4)] obtain s' where
    s': "load_all load es s = (replicate (length es) mkernel_internal_succ, s')"
      "entries s' = entries s @ es" "invar s'"
    by blast
  with lookup_iff [OF s'(3)] assms(3,5) show ?thesis by simp
qed

text \<open>A failed registration leaves the registry as it was.\<close>

lemma load_failed:
  assumes "invar s" and "valid (key e)" and "load e s = (r, s')" and "r \<noteq> mkernel_internal_succ"
  shows "s' = s \<and> (r = mkernel_internal_extend_ready \<or> r = mkernel_internal_extend_full)"
proof (cases "key e \<in> key ` set (entries s)")
  case True
  with load_ready [OF assms(1,2)] assms(3) show ?thesis by simp
next
  case False
  with assms load_full [OF assms(1,2) False] load_succ [OF assms(1,2) False] bound [OF assms(1)]
  show ?thesis by (cases "length (entries s) = capacity s") auto
qed

end

end
