(* ===== verification/Cjson_Tree.thy ===== *)
theory Cjson_Tree
  imports Kernel_Errors
begin

text \<open>
  The part of \<^verbatim>\<open>components/cJSON/src/cJSON.c\<close> the core builds and reads messages with:
  the item tree, its constructors (each allocation may fail), insertion into an
  object, deletion and replacement, and the lookups by position and by case-insensitive name.
  The number \<^verbatim>\<open>valuedouble\<close> is a decimal fraction, which is what the text of a number denotes; the rounding of doubles is not modelled.
  \<^verbatim>\<open>valueint\<close> is its integer part saturated to the \<^verbatim>\<open>int\<close> range. An item's \<^verbatim>\<open>child\<close> list with its \<^verbatim>\<open>next\<close> links is the list of children.
\<close>

section \<open>Items\<close>

datatype cJSON_type = cJSON_Invalid | cJSON_False | cJSON_True | cJSON_NULL | cJSON_Number
  | cJSON_String | cJSON_Array | cJSON_Object | cJSON_Raw

text \<open>The number \<^verbatim>\<open>m / 10 ^ k\<close>. In the values that occur \<^verbatim>\<open>k\<close> is as small as possible.\<close>

datatype number = Decimal (mantissa: int) (scale: nat)

instantiation number :: zero
begin

definition zero_number :: number where
  "zero_number = Decimal 0 0"

instance ..

end

abbreviation whole :: "int \<Rightarrow> number" where
  "whole i \<equiv> Decimal i 0"

fun decimal :: "int \<Rightarrow> nat \<Rightarrow> number" where
  "decimal m 0 = whole m"
| "decimal m (Suc k) = (if m mod 10 = 0 then decimal (m div 10) k else Decimal m (Suc k))"

definition truncated :: "number \<Rightarrow> int" where
  "truncated d = sgn (mantissa d) * (\<bar>mantissa d\<bar> div 10 ^ scale d)"

text \<open>The conversion to \<^verbatim>\<open>valueint\<close>.\<close>

definition saturated :: "number \<Rightarrow> int" where
  "saturated d = (if mantissa d \<ge> 2147483647 * 10 ^ scale d then 2147483647
     else if mantissa d \<le> - 2147483648 * 10 ^ scale d then - 2147483648 else truncated d)"

lemma truncated_whole [simp]: "truncated (whole i) = i"
  by (simp add: truncated_def sgn_mult_abs)

lemma saturated_whole [simp]: "saturated (whole i) = (if i \<ge> 2147483647 then 2147483647 else if i \<le> - 2147483648 then - 2147483648 else i)"
  by (simp add: saturated_def)

datatype cJSON = CJSON (js_type: cJSON_type) (js_valueint: int) (js_valuedouble: number)
  (js_valuestring: "string option") (js_string: "string option") (js_child: "cJSON list")

definition tolower :: "char \<Rightarrow> char" where
  "tolower c = (if 65 \<le> (of_char c :: nat) \<and> (of_char c :: nat) \<le> 90
     then char_of ((of_char c :: nat) + 32) else c)"

fun case_insensitive_loop :: "string \<Rightarrow> string \<Rightarrow> int" where
  "case_insensitive_loop [] [] = 0"
| "case_insensitive_loop [] (d # ds) = - of_char (tolower d)"
| "case_insensitive_loop (c # cs) [] = of_char (tolower c)"
| "case_insensitive_loop (c # cs) (d # ds) =
     (if tolower c = tolower d then case_insensitive_loop cs ds
      else of_char (tolower c) - of_char (tolower d))"

definition case_insensitive_strcmp :: "string option \<Rightarrow> string option \<Rightarrow> int" where
  "case_insensitive_strcmp s1 s2 =
     (case (s1, s2) of (Some a, Some b) \<Rightarrow> case_insensitive_loop a b | _ \<Rightarrow> 1)"

section \<open>Reading\<close>

definition cJSON_GetArraySize :: "cJSON option \<Rightarrow> nat" where
  "cJSON_GetArraySize array = (case array of None \<Rightarrow> 0 | Some a \<Rightarrow> length (js_child a))"

fun get_array_item :: "cJSON list \<Rightarrow> nat \<Rightarrow> cJSON option" where
  "get_array_item [] i = None"
| "get_array_item (c # cs) 0 = Some c"
| "get_array_item (c # cs) (Suc i) = get_array_item cs i"

definition cJSON_GetArrayItem :: "cJSON option \<Rightarrow> int \<Rightarrow> cJSON option" where
  "cJSON_GetArrayItem array index =
     (if index < 0 then None
      else case array of None \<Rightarrow> None | Some a \<Rightarrow> get_array_item (js_child a) (nat index))"

fun get_object_item :: "cJSON list \<Rightarrow> string \<Rightarrow> cJSON option" where
  "get_object_item [] name = None"
| "get_object_item (c # cs) name =
     (if case_insensitive_strcmp (Some name) (js_string c) \<noteq> 0 then get_object_item cs name
      else Some c)"

definition cJSON_GetObjectItem :: "cJSON option \<Rightarrow> string \<Rightarrow> cJSON option" where
  "cJSON_GetObjectItem object name =
     (case object of None \<Rightarrow> None | Some ob \<Rightarrow> get_object_item (js_child ob) name)"

section \<open>Building\<close>

text \<open>The blocks of an item: its node, its value and name strings, its children.\<close>

fun json_blocks :: "cJSON \<Rightarrow> nat" where
  "json_blocks (CJSON t i d v s cs) =
     1 + of_bool (v \<noteq> None) + of_bool (s \<noteq> None) + sum_list (map json_blocks cs)"

definition cJSON_Delete :: "cJSON option \<Rightarrow> mem \<Rightarrow> mem" where
  "cJSON_Delete item m = (case item of None \<Rightarrow> m | Some j \<Rightarrow> ezos_frees (json_blocks j) m)"

definition cJSON_New_Item :: "cJSON_type \<Rightarrow> mem \<Rightarrow> cJSON option \<times> mem" where
  "cJSON_New_Item t m = (case ezos_malloc m of (ok, m') \<Rightarrow>
     (if ok then Some (CJSON t 0 0 None None []) else None, m'))"

definition cJSON_CreateObject :: "mem \<Rightarrow> cJSON option \<times> mem" where
  "cJSON_CreateObject = cJSON_New_Item cJSON_Object"

definition cJSON_CreateString :: "string \<Rightarrow> mem \<Rightarrow> cJSON option \<times> mem" where
  "cJSON_CreateString s m =
     (case cJSON_New_Item cJSON_String m of
        (None, m1) \<Rightarrow> (None, m1)
      | (Some item, m1) \<Rightarrow>
          (case ezos_malloc m1 of (ok, m2) \<Rightarrow>
            if \<not> ok then (None, cJSON_Delete (Some item) m2)
            else (Some (CJSON cJSON_String 0 0 (Some s) None []), m2)))"

definition cJSON_CreateNumber :: "number \<Rightarrow> mem \<Rightarrow> cJSON option \<times> mem" where
  "cJSON_CreateNumber num m =
     (case cJSON_New_Item cJSON_Number m of
        (None, m1) \<Rightarrow> (None, m1)
      | (Some item, m1) \<Rightarrow>
          (Some (CJSON cJSON_Number (saturated num) num None None []), m1))"

definition add_item_to_array :: "cJSON \<Rightarrow> cJSON \<Rightarrow> cJSON" where
  "add_item_to_array array item =
     CJSON (js_type array) (js_valueint array) (js_valuedouble array) (js_valuestring array) (js_string array)
       (js_child array @ [item])"

definition add_item_to_object :: "cJSON option \<Rightarrow> string \<Rightarrow> cJSON option \<Rightarrow> mem
    \<Rightarrow> (bool \<times> cJSON option) \<times> mem" where
  "add_item_to_object object name item m =
     (case (object, item) of
        (Some ob, Some it) \<Rightarrow>
          (case ezos_malloc m of (ok, m1) \<Rightarrow>
            if \<not> ok then ((False, object), m1)
            else
              ((True, Some (add_item_to_array ob
                 (CJSON (js_type it) (js_valueint it) (js_valuedouble it) (js_valuestring it) (Some name) (js_child it)))),
               if js_string it \<noteq> None then ezos_free m1 else m1))
      | _ \<Rightarrow> ((False, object), m))"

definition cJSON_AddItemToObject :: "cJSON option \<Rightarrow> string \<Rightarrow> cJSON option \<Rightarrow> mem
    \<Rightarrow> cJSON option \<times> mem" where
  "cJSON_AddItemToObject object name item m =
     (case add_item_to_object object name item m of ((_, ob), m') \<Rightarrow> (ob, m'))"

definition cJSON_AddStringToObject :: "cJSON option \<Rightarrow> string \<Rightarrow> string \<Rightarrow> mem
    \<Rightarrow> cJSON option \<times> mem" where
  "cJSON_AddStringToObject object name s m =
     (case cJSON_CreateString s m of (item, m1) \<Rightarrow>
       (case add_item_to_object object name item m1 of ((ok, ob), m2) \<Rightarrow>
         if ok then (ob, m2) else (ob, cJSON_Delete item m2)))"

text \<open>The sources add integers only.\<close>

definition cJSON_AddNumberToObject :: "cJSON option \<Rightarrow> string \<Rightarrow> int \<Rightarrow> mem
    \<Rightarrow> cJSON option \<times> mem" where
  "cJSON_AddNumberToObject object name num m =
     (case cJSON_CreateNumber (whole num) m of (item, m1) \<Rightarrow>
       (case add_item_to_object object name item m1 of ((ok, ob), m2) \<Rightarrow>
         if ok then (ob, m2) else (ob, cJSON_Delete item m2)))"

section \<open>Changes of a tree\<close>

definition with_child :: "cJSON list \<Rightarrow> cJSON \<Rightarrow> cJSON" where
  "with_child cs j = CJSON (js_type j) (js_valueint j) (js_valuedouble j) (js_valuestring j) (js_string j) cs"

definition cJSON_CreateArray :: "mem \<Rightarrow> cJSON option \<times> mem" where
  "cJSON_CreateArray = cJSON_New_Item cJSON_Array"

definition cJSON_CreateBool :: "bool \<Rightarrow> mem \<Rightarrow> cJSON option \<times> mem" where
  "cJSON_CreateBool b = cJSON_New_Item (if b then cJSON_True else cJSON_False)"

definition cJSON_AddItemToArray :: "cJSON option \<Rightarrow> cJSON option \<Rightarrow> cJSON option" where
  "cJSON_AddItemToArray array item =
     (case (array, item) of (Some a, Some i) \<Rightarrow> Some (add_item_to_array a i) | _ \<Rightarrow> array)"

definition cJSON_DeleteItemFromArray :: "cJSON \<Rightarrow> nat \<Rightarrow> mem \<Rightarrow> cJSON \<times> mem" where
  "cJSON_DeleteItemFromArray array which m =
     (with_child (take which (js_child array) @ drop (Suc which) (js_child array)) array,
      cJSON_Delete (get_array_item (js_child array) which) m)"

text \<open>The position of the member a name selects.\<close>

fun object_index :: "cJSON list \<Rightarrow> string \<Rightarrow> nat option" where
  "object_index [] name = None"
| "object_index (c # cs) name =
     (if case_insensitive_strcmp (Some name) (js_string c) \<noteq> 0 then map_option Suc (object_index cs name) else Some 0)"

text \<open>A replacement without a member of its name is lost, and so is the name's copy.\<close>

definition cJSON_ReplaceItemInObject :: "cJSON \<Rightarrow> string \<Rightarrow> cJSON option \<Rightarrow> mem \<Rightarrow> cJSON \<times> mem" where
  "cJSON_ReplaceItemInObject object name newitem m =
     (case newitem of
        None \<Rightarrow> (object, m)
      | Some it \<Rightarrow>
          let m1 = (if js_string it \<noteq> None then ezos_free m else m) in
          case ezos_malloc m1 of (ok, m2) \<Rightarrow>
            let r = CJSON (js_type it) (js_valueint it) (js_valuedouble it) (js_valuestring it)
                      (if ok then Some name else None) (js_child it)
            in case object_index (js_child object) name of
                 None \<Rightarrow> (object, m2)
               | Some i \<Rightarrow> (with_child ((js_child object)[i := r]) object, cJSON_Delete (Some (js_child object ! i)) m2))"

section \<open>Lookup\<close>

lemma of_char_inj: "(of_char c :: int) = of_char d \<longleftrightarrow> c = d"
  by (metis char_of_char)

lemma of_char_tolower:
  "(of_char (tolower c) :: nat) =
     (if 65 \<le> (of_char c :: nat) \<and> (of_char c :: nat) \<le> 90 then of_char c + 32 else of_char c)"
  unfolding tolower_def by (simp del: of_nat_of_char)

lemma of_char_tolower_pos:
  assumes "c \<noteq> CHR 0x00"
  shows "(of_char (tolower c) :: int) \<noteq> 0"
proof -
  have "(of_char c :: nat) \<noteq> 0"
  proof
    assume "(of_char c :: nat) = 0"
    then have "c = char_of (0 :: nat)" by (metis char_of_char)
    with assms show False by (simp add: char_of_def)
  qed
  then have "(of_char (tolower c) :: nat) \<noteq> 0" by (simp only: of_char_tolower) simp
  then show ?thesis by (metis of_nat_eq_0_iff of_nat_of_char)
qed

text \<open>
  The comparison loop accepts exactly the strings equal up to letter case, for
  strings without NUL (a C string has none).
\<close>

lemma case_insensitive_loop_iff:
  "CHR 0x00 \<notin> set a \<Longrightarrow> CHR 0x00 \<notin> set b \<Longrightarrow>
   case_insensitive_loop a b = 0 \<longleftrightarrow> map tolower a = map tolower b"
  by (induction a b rule: case_insensitive_loop.induct)
    (auto simp: of_char_inj of_char_tolower_pos)

lemma case_insensitive_loop_refl [simp]: "case_insensitive_loop a a = 0"
  by (induction a) simp_all

lemma get_array_item_nth: "get_array_item cs i = (if i < length cs then Some (cs ! i) else None)"
  by (induction cs i rule: get_array_item.induct) simp_all

lemma GetArrayItem_iff:
  "cJSON_GetArrayItem (Some a) (int i) = (if i < cJSON_GetArraySize (Some a) then Some (js_child a ! i) else None)"
  by (simp add: cJSON_GetArrayItem_def cJSON_GetArraySize_def get_array_item_nth)

lemma get_object_item_append:
  "get_object_item (cs @ ds) name =
     (case get_object_item cs name of None \<Rightarrow> get_object_item ds name | Some c \<Rightarrow> Some c)"
  by (induction cs) auto

text \<open>A string added under a name the object lacks is found again under it.\<close>

lemma AddString_GetObjectItem:
  assumes "answers m = []" and "cJSON_GetObjectItem (Some ob) name = None"
  shows "\<exists>m' ob'. cJSON_AddStringToObject (Some ob) name s m = (Some ob', m') \<and>
    answers m' = [] \<and> live m' = live m + 3 \<and>
    cJSON_GetObjectItem (Some ob') name = Some (CJSON cJSON_String 0 0 (Some s) (Some name) [])"
  using assms
  by (simp add: cJSON_AddStringToObject_def cJSON_CreateString_def cJSON_New_Item_def
      ezos_malloc_def add_item_to_object_def add_item_to_array_def cJSON_GetObjectItem_def
      get_object_item_append case_insensitive_strcmp_def)

text \<open>Whatever allocation fails, adding keeps the ghost count equal to the blocks of the tree.\<close>

lemma json_blocks_add:
  "json_blocks (add_item_to_array ob it) = json_blocks ob + json_blocks it"
  by (cases ob) (simp add: add_item_to_array_def)

lemma AddString_balance:
  assumes "cJSON_AddStringToObject (Some ob) name s m = (ob', m')"
  shows "\<exists>t. ob' = Some t \<and> live m' - int (json_blocks t) = live m - int (json_blocks ob)"
  using assms
  by (auto simp: cJSON_AddStringToObject_def cJSON_CreateString_def cJSON_New_Item_def
      add_item_to_object_def json_blocks_add cJSON_Delete_def
      split: prod.splits option.splits if_splits dest!: malloc_live)

lemma AddNumber_balance:
  assumes "cJSON_AddNumberToObject (Some ob) name n m = (ob', m')"
  shows "\<exists>t. ob' = Some t \<and> live m' - int (json_blocks t) = live m - int (json_blocks ob)"
  using assms
  by (auto simp: cJSON_AddNumberToObject_def cJSON_CreateNumber_def cJSON_New_Item_def
      add_item_to_object_def json_blocks_add cJSON_Delete_def
      split: prod.splits option.splits if_splits dest!: malloc_live)

end
