(* ===== verification/Kernel_Extend.thy ===== *)
theory Kernel_Extend
  imports Kernel_Event Registry Cjson_Tree
begin

text \<open>
  The dispatcher, \<^verbatim>\<open>dispatcher/ezdev_sdk_kernel_extend.c\<close>, with the queue set-up and
  tear-down of \<^verbatim>\<open>dispatcher/ezdev_sdk_kernel_queue.c\<close>: registration of protocol 2.0
  domains and 3.0 modules, delivery of server messages and local events to them,
  and the clearing of the queues. Both module tables provide the \<^verbatim>\<open>registry\<close>
  contract; the delivery loops are characterised by the calls they make, in
  order, and by the blocks they free.
\<close>

section \<open>Set-up and tear-down\<close>

definition extend_init :: "func_ptr \<Rightarrow> world \<Rightarrow> world" where
  "extend_init kernel_event_notice_cb w =
     w\<lparr>domains_count := CONFIG_EZIOT_CORE_EXTEND_COUNT,
       extend_count := CONFIG_EZIOT_CORE_EXTEND_COUNT_V3,
       domains := replicate CONFIG_EZIOT_CORE_EXTEND_COUNT zero_domain,
       extends := replicate CONFIG_EZIOT_CORE_EXTEND_COUNT_V3 zero_extend_v3,
       event_notice_cb := kernel_event_notice_cb\<rparr>"

text \<open>The first \<^verbatim>\<open>n\<close> entries of a table zeroed, as \<^verbatim>\<open>memset\<close> of that many does.\<close>

definition zero_prefix :: "'a \<Rightarrow> nat \<Rightarrow> 'a list \<Rightarrow> 'a list" where
  "zero_prefix z n xs = replicate (min n (length xs)) z @ drop n xs"

definition extend_fini :: "world \<Rightarrow> world" where
  "extend_fini w =
     w\<lparr>event_notice_cb := None,
       domains := zero_prefix zero_domain (domains_count w) (domains w),
       extends := zero_prefix zero_extend_v3 (extend_count w) (extends w),
       domains_count := 0, extend_count := 0\<rparr>"

definition init_queue :: "bool \<times> bool \<times> bool \<times> bool \<times> bool \<Rightarrow> uint16 \<Rightarrow> uint16 \<Rightarrow> uint16 \<Rightarrow> world
    \<Rightarrow> mkernel_internal_error \<times> world" where
  "init_queue mutexes sub_max_size pub_max_size inner_max_size w =
     (case mutexes of (k1, k2, k3, k4, k5) \<Rightarrow>
       (mkernel_internal_succ,
        w\<lparr>q_submsg := snd (init_queue_of k1 sub_max_size),
          q_pubmsg := snd (init_queue_of k2 pub_max_size),
          q_inner := snd (init_queue_of k3 inner_max_size),
          q_submsg_v3 := snd (init_queue_of k4 sub_max_size),
          q_pubmsg_v3 := snd (init_queue_of k5 pub_max_size)\<rparr>))"

section \<open>Lookup\<close>

text \<open>A pointer into a table is the index of the entry.\<close>

definition extend_get :: "uint32 \<Rightarrow> world \<Rightarrow> nat option" where
  "extend_get did w =
     first_index (\<lambda>d. ucast (domain_id (kernel_extend d)) = did) (take (domains_count w) (domains w))"

definition extend_get_by_extend_id :: "string option \<Rightarrow> world \<Rightarrow> nat option" where
  "extend_get_by_extend_id module w =
     (case module of
        None \<Rightarrow> None
      | Some md \<Rightarrow> first_index (\<lambda>e. ext3_module e = md) (take (extend_count w) (extends w)))"

section \<open>Registration\<close>

definition extend_load :: "ez_kernel_extend \<Rightarrow> world \<Rightarrow> mkernel_internal_error \<times> world" where
  "extend_load external_extend w =
     (case load_slot (\<lambda>d. domain_id (kernel_extend d) = 0)
             (\<lambda>d. domain_id (kernel_extend d) = domain_id external_extend) 0
             (take (domains_count w) (domains w)) of
        Slot_ready \<Rightarrow> (mkernel_internal_extend_ready, w)
      | Slot_full \<Rightarrow> (mkernel_internal_extend_full, w)
      | Slot_free i \<Rightarrow>
          (mkernel_internal_succ,
           w\<lparr>domains := (domains w)[i := (domains w ! i)\<lparr>kernel_extend := external_extend,
                          domain_risk := Sdk_no_risk_control\<rparr>]\<rparr>))"

definition extend_load_v3 :: "ez_kernel_extend_v3 \<Rightarrow> world \<Rightarrow> mkernel_internal_error \<times> world" where
  "extend_load_v3 external_extend_v3 w =
     (case load_slot (\<lambda>e. ext3_module e = []) (\<lambda>e. ext3_module e = ext3_module external_extend_v3) 0
             (take (extend_count w) (extends w)) of
        Slot_ready \<Rightarrow> (mkernel_internal_extend_ready, w)
      | Slot_full \<Rightarrow> (mkernel_internal_extend_full, w)
      | Slot_free i \<Rightarrow>
          (mkernel_internal_succ, w\<lparr>extends := (extends w)[i := external_extend_v3]\<rparr>))"

definition extend_load_event_notice :: "func_ptr \<Rightarrow> world \<Rightarrow> world" where
  "extend_load_event_notice kernel_event_notice_cb w = w\<lparr>event_notice_cb := kernel_event_notice_cb\<rparr>"

section \<open>Delivery of server messages\<close>

function consume_extend_data_v3 :: "world \<Rightarrow> mkernel_internal_error \<times> world" where
  "consume_extend_data_v3 w =
     (case pop_queue_submsg_v3 w of
        ((e, None), w1) \<Rightarrow> (e, w1)
      | ((e, Some msg), w1) \<Rightarrow>
          if e \<noteq> mkernel_internal_succ then (e, w1)
          else
            let w2 = (if length (sub3_module msg) > 0
                      then (case extend_get_by_extend_id (Some (sub3_module msg)) w1 of
                              None \<Rightarrow> w1
                            | Some i \<Rightarrow>
                                (if ext3_data_route (extends w1 ! i) \<noteq> None
                                 then call_ptr (ext3_data_route (extends w1 ! i)) (\<lambda>f. Cb_data_v3 f msg) w1
                                 else w1))
                      else w1);
                w3 = (if sub3_buf msg \<noteq> None then w_free w2 else w2)
            in consume_extend_data_v3 (w_free w3))"
  by pat_completeness auto
termination
  by (relation "measure (\<lambda>w. length (q_elems (q_submsg_v3 w)))")
    (auto simp: pop_queue_submsg_v3_def pop_queue_def w_free_def call_ptr_def Let_def
      split: list.splits prod.splits option.splits if_splits)

function consume_extend_data :: "world \<Rightarrow> mkernel_internal_error \<times> world" where
  "consume_extend_data w =
     (case pop_queue_submsg w of
        ((e, None), w1) \<Rightarrow> (e, w1)
      | ((e, Some msg), w1) \<Rightarrow>
          if e \<noteq> mkernel_internal_succ then (e, w1)
          else
            let w2 = (case extend_get (sub_msg_domain_id msg) w1 of
                        None \<Rightarrow> w1
                      | Some i \<Rightarrow>
                          call_ptr (extend_data_route (kernel_extend (domains w1 ! i)))
                            (\<lambda>f. Cb_data f msg (pUser (kernel_extend (domains w1 ! i)))) w1);
                w3 = (if sub_buf msg \<noteq> None then w_free w2 else w2)
            in consume_extend_data (w_free w3))"
  by pat_completeness auto
termination
  by (relation "measure (\<lambda>w. length (q_elems (q_submsg w)))")
    (auto simp: pop_queue_submsg_def pop_queue_def w_free_def call_ptr_def Let_def
      split: list.splits prod.splits option.splits if_splits)

declare consume_extend_data.simps [simp del] consume_extend_data_v3.simps [simp del]

section \<open>Delivery of local events\<close>

definition destroy_inner_cb_notic :: "ezdev_sdk_kernel_inner_cb_notic \<Rightarrow> world \<Rightarrow> world" where
  "destroy_inner_cb_notic x w =
     w_free (if event_context (cb_event x) \<noteq> None then w_free w else w)"

text \<open>A table loop that breaks at the first entry for which \<^verbatim>\<open>stop\<close> holds.\<close>

fun for_until :: "('a \<Rightarrow> bool) \<Rightarrow> ('a \<Rightarrow> world \<Rightarrow> world) \<Rightarrow> 'a list \<Rightarrow> world \<Rightarrow> world" where
  "for_until stop body [] w = w"
| "for_until stop body (x # xs) w = (if stop x then w else for_until stop body xs (body x w))"

definition route_event_v3 :: "ez_kernel_event \<Rightarrow> ez_kernel_extend_v3 \<Rightarrow> world \<Rightarrow> world" where
  "route_event_v3 ev e w =
     (if event_type ev = SDK_KERNEL_EVENT_PUBLISH_ACK
      then (case event_context ev of
              Some (Publish_ack ack) \<Rightarrow>
                if ext3_module e = ack_module_name ack
                then call_ptr (ext3_event_route e) (\<lambda>f. Cb_event_v3 f ev) w
                else call_ptr (ext3_event_route e) (\<lambda>f. Cb_event_v3 f ev) w
            | _ \<Rightarrow> call_ptr (ext3_event_route e) (\<lambda>f. Cb_event_v3 f ev) w)
      else call_ptr (ext3_event_route e) (\<lambda>f. Cb_event_v3 f ev) w)"

definition deliver_notice :: "ezdev_sdk_kernel_inner_cb_notic \<Rightarrow> world \<Rightarrow> world" where
  "deliver_notice x w =
     (let doms = map kernel_extend (take CONFIG_EZIOT_CORE_EXTEND_COUNT (domains w));
          mods = take CONFIG_EZIOT_CORE_EXTEND_COUNT_V3 (extends w)
      in case cb_type x of
        Extend_cb_start \<Rightarrow>
          for_until (\<lambda>k. domain_id k = 0 \<or> extend_start k = None)
            (\<lambda>k. call_ptr (extend_start k) (\<lambda>f. Cb_start f (pUser k))) doms w
      | Extend_cb_stop \<Rightarrow>
          for_until (\<lambda>k. domain_id k = 0 \<or> extend_stop k = None)
            (\<lambda>k. call_ptr (extend_stop k) (\<lambda>f. Cb_stop f (pUser k))) doms w
      | Extend_cb_event \<Rightarrow>
          call_ptr (event_notice_cb w) (\<lambda>f. Cb_notice f (cb_event x))
            (for_until (\<lambda>e. length (ext3_module e) = 0 \<or> ext3_event_route e = None)
              (route_event_v3 (cb_event x)) mods
              (for_until (\<lambda>k. domain_id k = 0 \<or> extend_event k = None)
                (\<lambda>k. call_ptr (extend_event k) (\<lambda>f. Cb_event f (cb_event x) (pUser k))) doms w)))"

definition consume_extend_event :: "world \<Rightarrow> mkernel_internal_error \<times> world" where
  "consume_extend_event w =
     (case pop_queue_inner_cb_notic w of
        ((e, None), w1) \<Rightarrow> (e, w1)
      | ((e, Some x), w1) \<Rightarrow>
          if e \<noteq> mkernel_internal_succ then (e, w1)
          else (e, destroy_inner_cb_notic x (deliver_notice x w1)))"

section \<open>Clearing\<close>

definition clear_queue_pubmsg_exchange :: "world \<Rightarrow> mkernel_internal_error \<times> world" where
  "clear_queue_pubmsg_exchange w =
     (case clear_queue pubmsg_blocks (w_mem w, q_pubmsg w) of (m, q) \<Rightarrow>
       (mkernel_internal_succ, w\<lparr>w_mem := m, q_pubmsg := q\<rparr>))"

definition clear_queue_pubmsg_exchange_v3 :: "world \<Rightarrow> mkernel_internal_error \<times> world" where
  "clear_queue_pubmsg_exchange_v3 w =
     (case clear_queue pubmsg_v3_blocks (w_mem w, q_pubmsg_v3 w) of (m, q) \<Rightarrow>
       (mkernel_internal_succ, w\<lparr>w_mem := m, q_pubmsg_v3 := q\<rparr>))"

definition clear_queue_submsg :: "world \<Rightarrow> mkernel_internal_error \<times> world" where
  "clear_queue_submsg w =
     (case clear_queue submsg_blocks (w_mem w, q_submsg w) of (m, q) \<Rightarrow>
       (mkernel_internal_succ, w\<lparr>w_mem := m, q_submsg := q\<rparr>))"

definition clear_queue_submsg_v3 :: "world \<Rightarrow> mkernel_internal_error \<times> world" where
  "clear_queue_submsg_v3 w =
     (case clear_queue submsg_v3_blocks (w_mem w, q_submsg_v3 w) of (m, q) \<Rightarrow>
       (mkernel_internal_succ, w\<lparr>w_mem := m, q_submsg_v3 := q\<rparr>))"

text \<open>The loop of \<^verbatim>\<open>fini_queue\<close> over the notices, and \<^verbatim>\<open>fini_queue\<close>.\<close>

definition drain_notices :: "world \<Rightarrow> world" where
  "drain_notices w = (case clear_queue inner_blocks (w_mem w, q_inner w) of (m, q) \<Rightarrow>
     w\<lparr>w_mem := m, q_inner := q\<rparr>)"

definition fini_queue :: "world \<Rightarrow> world" where
  "fini_queue w =
     (let w5 = drain_notices (snd (clear_queue_pubmsg_exchange_v3 (snd (clear_queue_pubmsg_exchange
                 (snd (clear_queue_submsg_v3 (snd (clear_queue_submsg w))))))));
          (m1, q1) = fini_queue_of (w_mem w5, q_submsg w5);
          (m2, q2) = fini_queue_of (m1, q_pubmsg w5);
          (m3, q3) = fini_queue_of (m2, q_inner w5);
          (m4, q4) = fini_queue_of (m3, q_submsg_v3 w5);
          (m5, q5) = fini_queue_of (m4, q_pubmsg_v3 w5)
      in w5\<lparr>w_mem := m5, q_submsg := q1, q_pubmsg := q2, q_inner := q3, q_submsg_v3 := q4,
            q_pubmsg_v3 := q5\<rparr>)"

section \<open>The calls an event makes\<close>

definition ptr_call :: "func_ptr \<Rightarrow> (nat \<Rightarrow> callback) \<Rightarrow> callback" where
  "ptr_call f c = (case f of None \<Rightarrow> Null_call | Some g \<Rightarrow> c g)"

lemma call_ptr_calls: "call_ptr f c w = w\<lparr>calls := calls w @ [ptr_call f c]\<rparr>"
  by (simp add: call_ptr_def ptr_call_def)

lemma for_until_calls:
  assumes "\<And>x w. body x w = w\<lparr>calls := calls w @ [c x]\<rparr>"
  shows "for_until stop body xs w = w\<lparr>calls := calls w @ map c (takeWhile (\<lambda>x. \<not> stop x) xs)\<rparr>"
  by (induction xs arbitrary: w) (simp_all add: assms)

lemma route_event_v3_calls:
  "route_event_v3 ev e w = w\<lparr>calls := calls w @ [ptr_call (ext3_event_route e) (\<lambda>f. Cb_event_v3 f ev)]\<rparr>"
  by (simp add: route_event_v3_def call_ptr_calls split: option.split event_context.split)

text \<open>
  The specification of \<^verbatim>\<open>consume_extend_event\<close>: the calls one notice makes, given the
  two tables and the application's callback.
\<close>

definition notice_calls :: "ezdev_sdk_kernel_inner_cb_notic \<Rightarrow> world \<Rightarrow> callback list" where
  "notice_calls x w =
     (let doms = map kernel_extend (take CONFIG_EZIOT_CORE_EXTEND_COUNT (domains w));
          mods = take CONFIG_EZIOT_CORE_EXTEND_COUNT_V3 (extends w)
      in case cb_type x of
        Extend_cb_start \<Rightarrow> map (\<lambda>k. ptr_call (extend_start k) (\<lambda>f. Cb_start f (pUser k)))
          (takeWhile (\<lambda>k. \<not> (domain_id k = 0 \<or> extend_start k = None)) doms)
      | Extend_cb_stop \<Rightarrow> map (\<lambda>k. ptr_call (extend_stop k) (\<lambda>f. Cb_stop f (pUser k)))
          (takeWhile (\<lambda>k. \<not> (domain_id k = 0 \<or> extend_stop k = None)) doms)
      | Extend_cb_event \<Rightarrow>
          map (\<lambda>k. ptr_call (extend_event k) (\<lambda>f. Cb_event f (cb_event x) (pUser k)))
            (takeWhile (\<lambda>k. \<not> (domain_id k = 0 \<or> extend_event k = None)) doms) @
          map (\<lambda>e. ptr_call (ext3_event_route e) (\<lambda>f. Cb_event_v3 f (cb_event x)))
            (takeWhile (\<lambda>e. \<not> (length (ext3_module e) = 0 \<or> ext3_event_route e = None)) mods) @
          [ptr_call (event_notice_cb w) (\<lambda>f. Cb_notice f (cb_event x))])"

lemma deliver_notice_calls: "deliver_notice x w = w\<lparr>calls := calls w @ notice_calls x w\<rparr>"
  unfolding deliver_notice_def notice_calls_def Let_def
  by (cases "cb_type x")
    (simp_all add: for_until_calls [OF call_ptr_calls] for_until_calls [OF route_event_v3_calls]
      call_ptr_calls del: takeWhile.simps)

lemma consume_extend_event_Nil:
  "q_elems (q_inner w) = [] \<Longrightarrow>
   consume_extend_event w = (mkernel_internal_queue_empty, w\<lparr>q_inner := (q_inner w)\<lparr>q_size := 0\<rparr>\<rparr>)"
  by (simp add: consume_extend_event_def pop_queue_inner_cb_notic_def pop_queue_def)

lemma consume_extend_event_Cons:
  assumes "q_elems (q_inner w) = x # xs"
  shows "consume_extend_event w = (mkernel_internal_succ,
    w\<lparr>q_inner := (q_inner w)\<lparr>q_elems := xs, q_size := (if xs = [] then 0 else q_size (q_inner w) - 1)\<rparr>,
      calls := calls w @ notice_calls x w,
      w_mem := ezos_frees (1 + inner_blocks x) (w_mem w)\<rparr>)"
  using assms
  by (simp add: consume_extend_event_def pop_queue_inner_cb_notic_def pop_queue_def
      deliver_notice_calls destroy_inner_cb_notic_def w_free_def ezos_free_def ezos_frees_def
      inner_blocks_def notice_calls_def Let_def cong: extend_cb_type.case_cong)

section \<open>The user task's step\<close>

text \<open>\<^verbatim>\<open>while (mkernel_internal_queue_empty != consume_extend_event());\<close>\<close>

function drain_events :: "world \<Rightarrow> world" where
  "drain_events w =
     (case consume_extend_event w of (e, w') \<Rightarrow>
       if e \<noteq> mkernel_internal_queue_empty then drain_events w' else w')"
  by pat_completeness auto
termination
proof (relation "measure (\<lambda>w. length (q_elems (q_inner w)))", goal_cases)
  case 1
  then show ?case by simp
next
  case (2 w e w')
  then show ?case
    by (cases "q_elems (q_inner w)") (auto simp: consume_extend_event_Nil consume_extend_event_Cons)
qed

declare drain_events.simps [simp del]

definition extend_yield :: "world \<Rightarrow> mkernel_internal_error \<times> world" where
  "extend_yield w =
     (if my_state (kernel w) = Sdk_stop then (mkernel_internal_haven_stop, drain_events w)
      else if my_state (kernel w) = Sdk_start then
        (case consume_extend_data w of (e1, w1) \<Rightarrow>
          case consume_extend_event w1 of (e2, w2) \<Rightarrow>
            case consume_extend_data_v3 w2 of (e3, w3) \<Rightarrow>
              (if e3 = mkernel_internal_queue_empty then mkernel_internal_succ else e3, w3))
      else (mkernel_internal_succ, w))"

section \<open>The version report\<close>

abbreviation DEV_ACCESS_DOMAIN_VERSION :: string where "DEV_ACCESS_DOMAIN_VERSION \<equiv> ''V3.0.0''"

definition add_versions :: "ezdev_sdk_kernel_domain_info list \<Rightarrow> cJSON option \<Rightarrow> mem
    \<Rightarrow> cJSON option \<times> mem" where
  "add_versions ds j m = fold (\<lambda>d (j, m).
     cJSON_AddStringToObject j (take 15 (dec_nat (unat (domain_id (kernel_extend d)))))
       (extend_module_version (kernel_extend d)) m) ds (j, m)"

definition extend_serialize_sdk_version :: "cJSON option \<Rightarrow> world
    \<Rightarrow> (mkernel_internal_error \<times> cJSON option) \<times> world" where
  "extend_serialize_sdk_version pJson w =
     (case cJSON_CreateObject (w_mem w) of (sv, m1) \<Rightarrow>
       if sv = None then ((mkernel_internal_malloc_error, pJson), w\<lparr>w_mem := m1\<rparr>)
       else
         (case cJSON_AddStringToObject sv (take 15 (dec_nat (unat DAS_CMD_DOMAIN)))
                 DEV_ACCESS_DOMAIN_VERSION m1 of (sv1, m2) \<Rightarrow>
           case add_versions (take CONFIG_EZIOT_CORE_EXTEND_COUNT (domains w)) sv1 m2 of (sv2, m3) \<Rightarrow>
             case cJSON_AddItemToObject pJson ''SDKVersion'' sv2 m3 of (root, m4) \<Rightarrow>
               ((mkernel_internal_succ, root), w\<lparr>w_mem := m4\<rparr>)))"

section \<open>What the delivery loops do\<close>

lemma ezos_frees_frees [simp]: "ezos_frees a (ezos_frees b m) = ezos_frees (b + a) m"
  by (simp add: ezos_frees_def)

lemma ezos_frees_0 [simp]: "ezos_frees 0 m = m"
  by (simp add: ezos_frees_def)

lemma ezos_free_frees: "ezos_free m = ezos_frees 1 m"
  by (simp add: ezos_free_def ezos_frees_def)

definition data_calls :: "world \<Rightarrow> ez_kernel_submsg \<Rightarrow> callback list" where
  "data_calls w msg =
     (case extend_get (sub_msg_domain_id msg) w of
        None \<Rightarrow> []
      | Some i \<Rightarrow> [ptr_call (extend_data_route (kernel_extend (domains w ! i)))
                    (\<lambda>f. Cb_data f msg (pUser (kernel_extend (domains w ! i))))])"

definition data_calls_v3 :: "world \<Rightarrow> ez_kernel_submsg_v3 \<Rightarrow> callback list" where
  "data_calls_v3 w msg =
     (if sub3_module msg = [] then []
      else case extend_get_by_extend_id (Some (sub3_module msg)) w of
        None \<Rightarrow> []
      | Some i \<Rightarrow> (case ext3_data_route (extends w ! i) of None \<Rightarrow> [] | Some f \<Rightarrow> [Cb_data_v3 f msg]))"

lemma tables_cong:
  assumes "domains w' = domains w" "domains_count w' = domains_count w"
    "extends w' = extends w" "extend_count w' = extend_count w"
  shows "extend_get d w' = extend_get d w"
    "extend_get_by_extend_id md w' = extend_get_by_extend_id md w"
    "data_calls w' = data_calls w" "data_calls_v3 w' = data_calls_v3 w"
  using assms
  by (simp_all add: extend_get_def extend_get_by_extend_id_def data_calls_def data_calls_v3_def fun_eq_iff
      cong: option.case_cong)

lemma lookup_frame [simp, frame_simps]:
  "extend_get d (w\<lparr>w_mem := m\<rparr>) = extend_get d w"
  "extend_get d (w\<lparr>q_submsg := q\<rparr>) = extend_get d w"
  "extend_get_by_extend_id md (w\<lparr>w_mem := m\<rparr>) = extend_get_by_extend_id md w"
  "extend_get_by_extend_id md (w\<lparr>q_submsg_v3 := q3\<rparr>) = extend_get_by_extend_id md w"
  by (simp_all add: extend_get_def extend_get_by_extend_id_def cong: option.case_cong)

lemma consume_extend_data_Nil:
  "q_elems (q_submsg w) = [] \<Longrightarrow>
   consume_extend_data w = (mkernel_internal_queue_empty, w\<lparr>q_submsg := (q_submsg w)\<lparr>q_size := 0\<rparr>\<rparr>)"
  by (subst consume_extend_data.simps) (simp add: pop_queue_submsg_def pop_queue_def)

lemma consume_extend_data_Cons:
  assumes "q_elems (q_submsg w) = x # xs"
  shows "consume_extend_data w = consume_extend_data
    (w\<lparr>q_submsg := (q_submsg w)\<lparr>q_elems := xs, q_size := (if xs = [] then 0 else q_size (q_submsg w) - 1)\<rparr>,
       calls := calls w @ data_calls w x, w_mem := ezos_frees (1 + submsg_blocks x) (w_mem w)\<rparr>)"
  by (subst consume_extend_data.simps)
    (simp add: pop_queue_submsg_def pop_queue_def assms data_calls_def call_ptr_calls
      w_free_def ezos_free_frees submsg_blocks_def Let_def split: option.split)

lemma consume_extend_data_eq:
  "consume_extend_data w = (mkernel_internal_queue_empty,
    w\<lparr>q_submsg := (q_submsg w)\<lparr>q_elems := [], q_size := 0\<rparr>,
      calls := calls w @ concat (map (data_calls w) (q_elems (q_submsg w))),
      w_mem := ezos_frees (\<Sum>x\<leftarrow>q_elems (q_submsg w). 1 + submsg_blocks x) (w_mem w)\<rparr>)"
proof (induction "q_elems (q_submsg w)" arbitrary: w)
  case Nil
  have "q_submsg w = (q_submsg w)\<lparr>q_elems := []\<rparr>" using Nil by simp
  with Nil show ?case by (simp add: consume_extend_data_Nil)
next
  case (Cons x xs)
  let ?w = "w\<lparr>q_submsg := (q_submsg w)\<lparr>q_elems := xs, q_size := (if xs = [] then 0 else q_size (q_submsg w) - 1)\<rparr>,
       calls := calls w @ data_calls w x, w_mem := ezos_frees (1 + submsg_blocks x) (w_mem w)\<rparr>"
  have e: "consume_extend_data w = consume_extend_data ?w"
    by (rule consume_extend_data_Cons) (simp add: Cons.hyps(2) [symmetric])
  have d: "data_calls ?w = data_calls w" by (rule tables_cong) simp_all
  have "xs = q_elems (q_submsg ?w)" by simp
  from Cons.hyps(1) [OF this] show ?case
    unfolding e d by (simp add: Cons.hyps(2) [symmetric])
qed

lemma consume_extend_data_v3_Nil:
  "q_elems (q_submsg_v3 w) = [] \<Longrightarrow>
   consume_extend_data_v3 w = (mkernel_internal_queue_empty, w\<lparr>q_submsg_v3 := (q_submsg_v3 w)\<lparr>q_size := 0\<rparr>\<rparr>)"
  by (subst consume_extend_data_v3.simps) (simp add: pop_queue_submsg_v3_def pop_queue_def)

lemma consume_extend_data_v3_Cons:
  assumes "q_elems (q_submsg_v3 w) = x # xs"
  shows "consume_extend_data_v3 w = consume_extend_data_v3
    (w\<lparr>q_submsg_v3 := (q_submsg_v3 w)\<lparr>q_elems := xs, q_size := (if xs = [] then 0 else q_size (q_submsg_v3 w) - 1)\<rparr>,
       calls := calls w @ data_calls_v3 w x, w_mem := ezos_frees (1 + submsg_v3_blocks x) (w_mem w)\<rparr>)"
  by (subst consume_extend_data_v3.simps)
    (simp add: pop_queue_submsg_v3_def pop_queue_def assms data_calls_v3_def call_ptr_calls ptr_call_def
      w_free_def ezos_free_frees submsg_v3_blocks_def Let_def split: option.split)

lemma consume_extend_data_v3_eq:
  "consume_extend_data_v3 w = (mkernel_internal_queue_empty,
    w\<lparr>q_submsg_v3 := (q_submsg_v3 w)\<lparr>q_elems := [], q_size := 0\<rparr>,
      calls := calls w @ concat (map (data_calls_v3 w) (q_elems (q_submsg_v3 w))),
      w_mem := ezos_frees (\<Sum>x\<leftarrow>q_elems (q_submsg_v3 w). 1 + submsg_v3_blocks x) (w_mem w)\<rparr>)"
proof (induction "q_elems (q_submsg_v3 w)" arbitrary: w)
  case Nil
  have "q_submsg_v3 w = (q_submsg_v3 w)\<lparr>q_elems := []\<rparr>" using Nil by simp
  with Nil show ?case by (simp add: consume_extend_data_v3_Nil)
next
  case (Cons x xs)
  let ?w = "w\<lparr>q_submsg_v3 := (q_submsg_v3 w)\<lparr>q_elems := xs, q_size := (if xs = [] then 0 else q_size (q_submsg_v3 w) - 1)\<rparr>,
       calls := calls w @ data_calls_v3 w x, w_mem := ezos_frees (1 + submsg_v3_blocks x) (w_mem w)\<rparr>"
  have e: "consume_extend_data_v3 w = consume_extend_data_v3 ?w"
    by (rule consume_extend_data_v3_Cons) (simp add: Cons.hyps(2) [symmetric])
  have d: "data_calls_v3 ?w = data_calls_v3 w" by (rule tables_cong) simp_all
  have "xs = q_elems (q_submsg_v3 ?w)" by simp
  from Cons.hyps(1) [OF this] show ?case
    unfolding e d by (simp add: Cons.hyps(2) [symmetric])
qed

lemma notice_calls_cong:
  "domains w' = domains w \<Longrightarrow> extends w' = extends w \<Longrightarrow> event_notice_cb w' = event_notice_cb w \<Longrightarrow>
   notice_calls x w' = notice_calls x w"
  by (simp add: notice_calls_def Let_def cong: extend_cb_type.case_cong)

lemma drain_events_eq:
  "drain_events w = w\<lparr>q_inner := (q_inner w)\<lparr>q_elems := [], q_size := 0\<rparr>,
     calls := calls w @ concat (map (\<lambda>x. notice_calls x w) (q_elems (q_inner w))),
     w_mem := ezos_frees (\<Sum>x\<leftarrow>q_elems (q_inner w). 1 + inner_blocks x) (w_mem w)\<rparr>"
proof (induction "q_elems (q_inner w)" arbitrary: w)
  case Nil
  have "q_inner w = (q_inner w)\<lparr>q_elems := []\<rparr>" using Nil by simp
  with Nil show ?case by (subst drain_events.simps) (simp add: consume_extend_event_Nil)
next
  case (Cons x xs)
  let ?w = "w\<lparr>q_inner := (q_inner w)\<lparr>q_elems := xs, q_size := (if xs = [] then 0 else q_size (q_inner w) - 1)\<rparr>,
      calls := calls w @ notice_calls x w, w_mem := ezos_frees (1 + inner_blocks x) (w_mem w)\<rparr>"
  have e: "drain_events w = drain_events ?w"
    by (subst drain_events.simps) (simp add: consume_extend_event_Cons [OF Cons.hyps(2) [symmetric]])
  have n: "notice_calls y ?w = notice_calls y w" for y by (rule notice_calls_cong) simp_all
  have "xs = q_elems (q_inner ?w)" by simp
  from Cons.hyps(1) [OF this] show ?case
    unfolding e n by (simp add: Cons.hyps(2) [symmetric])
qed

section \<open>The two registries\<close>

abbreviation dom_key :: "ezdev_sdk_kernel_domain_info \<Rightarrow> uint16" where
  "dom_key d \<equiv> domain_id (kernel_extend d)"

definition dom_wf :: "world \<Rightarrow> bool" where
  "dom_wf w \<longleftrightarrow> domains_count w = length (domains w) \<and> tbl_wf dom_key 0 (domains w)"

definition mod_wf :: "world \<Rightarrow> bool" where
  "mod_wf w \<longleftrightarrow> extend_count w = length (extends w) \<and> tbl_wf ext3_module [] (extends w)"

definition dom_entries :: "world \<Rightarrow> ez_kernel_extend list" where
  "dom_entries w = map kernel_extend (used dom_key 0 (domains w))"

definition mod_entries :: "world \<Rightarrow> ez_kernel_extend_v3 list" where
  "mod_entries w = used ext3_module [] (extends w)"

definition dom_lookup :: "uint16 \<Rightarrow> world \<Rightarrow> ez_kernel_extend option" where
  "dom_lookup k w = map_option (\<lambda>i. kernel_extend (domains w ! i)) (extend_get (ucast k) w)"

definition mod_lookup :: "string \<Rightarrow> world \<Rightarrow> ez_kernel_extend_v3 option" where
  "mod_lookup md w = map_option (\<lambda>i. extends w ! i) (extend_get_by_extend_id (Some md) w)"

lemmas registry_defs = dom_wf_def mod_wf_def dom_entries_def mod_entries_def dom_lookup_def mod_lookup_def

lemma ucast16_32_inj [simp]: "(ucast (a :: uint16) :: uint32) = ucast b \<longleftrightarrow> a = b"
proof
  assume "(ucast a :: uint32) = ucast b"
  then have "unat (ucast a :: uint32) = unat (ucast b :: uint32)" by simp
  then have "unat a = unat b"
    by (simp add: unsigned_ucast_eq take_bit_nat_eq_self unsigned_less [THEN less_trans])
  then show "a = b" by (rule unsigned_word_eqI)
qed simp

lemma extend_get_ucast:
  "extend_get (ucast k) w = first_index (\<lambda>d. dom_key d = k) (take (domains_count w) (domains w))"
  by (simp add: extend_get_def)

lemma dom_wf_init: "dom_wf (extend_init cb w)"
  by (simp add: dom_wf_def extend_init_def tbl_wf_def used_def zero_domain_def zero_extend_def list_all_iff
      CONFIG_EZIOT_CORE_EXTEND_COUNT_def)

lemma mod_wf_init: "mod_wf (extend_init cb w)"
  by (simp add: mod_wf_def extend_init_def tbl_wf_def used_def zero_extend_v3_def list_all_iff
      CONFIG_EZIOT_CORE_EXTEND_COUNT_V3_def)

interpretation dreg: registry extend_load dom_lookup domain_id "\<lambda>k. k \<noteq> 0" dom_entries domains_count dom_wf
proof unfold_locales
  fix w :: world and e :: ez_kernel_extend and k :: uint16
  assume wf: "dom_wf w"
  then have c: "domains_count w = length (domains w)" and t: "tbl_wf dom_key 0 (domains w)"
    by (simp_all add: dom_wf_def)
  have keys: "domain_id ` set (dom_entries w) = dom_key ` set (used dom_key 0 (domains w))"
    by (simp add: dom_entries_def image_image)
  note ld = load_slot_cases [of dom_key 0 "domain_id e" 0 "domains w"]
  show "length (dom_entries w) \<le> domains_count w"
    by (simp add: dom_entries_def c length_used)
  show "distinct (map domain_id (dom_entries w))"
    using t by (simp add: dom_entries_def tbl_wf_def comp_def)
  show "extend_load e w = (mkernel_internal_extend_ready, w)"
    if "domain_id e \<noteq> 0" "domain_id e \<in> domain_id ` set (dom_entries w)"
    using that unfolding keys by (simp add: extend_load_def c ld)
  show "extend_load e w = (mkernel_internal_extend_full, w)"
    if "domain_id e \<noteq> 0" "domain_id e \<notin> domain_id ` set (dom_entries w)"
      "length (dom_entries w) = domains_count w"
    using that unfolding keys by (simp add: extend_load_def c ld dom_entries_def)
  show "\<exists>w'. extend_load e w = (mkernel_internal_succ, w') \<and> dom_entries w' = dom_entries w @ [e] \<and>
      domains_count w' = domains_count w \<and> dom_wf w'"
    if "domain_id e \<noteq> 0" "domain_id e \<notin> domain_id ` set (dom_entries w)"
      "length (dom_entries w) < domains_count w"
  proof -
    let ?n = "length (used dom_key 0 (domains w))"
    let ?y = "(domains w ! ?n)\<lparr>kernel_extend := e, domain_risk := Sdk_no_risk_control\<rparr>"
    have n: "?n < length (domains w)" using that(3) by (simp add: dom_entries_def c)
    have k: "dom_key ?y \<noteq> 0" using that(1) by simp
    from tbl_update [OF n k t] that c n show ?thesis
      unfolding keys by (simp add: extend_load_def ld dom_entries_def dom_wf_def)
  qed
  show "dom_lookup k w = Some e \<longleftrightarrow> e \<in> set (dom_entries w) \<and> domain_id e = k" if "k \<noteq> 0"
  proof -
    have "dom_lookup k w = map_option kernel_extend (map_option (\<lambda>i. domains w ! i)
        (first_index (\<lambda>d. dom_key d = k) (domains w)))"
      by (simp add: dom_lookup_def extend_get_ucast c option.map_comp comp_def)
    then show ?thesis
      using lookup_used_iff [OF that t] by (auto simp: dom_entries_def map_option_eq_Some)
  qed
qed

interpretation mreg: registry extend_load_v3 mod_lookup ext3_module "\<lambda>k. k \<noteq> []" mod_entries extend_count mod_wf
proof unfold_locales
  fix w :: world and e :: ez_kernel_extend_v3 and k :: string
  assume wf: "mod_wf w"
  then have c: "extend_count w = length (extends w)" and t: "tbl_wf ext3_module [] (extends w)"
    by (simp_all add: mod_wf_def)
  note ld = load_slot_cases [of ext3_module "[]" "ext3_module e" 0 "extends w"]
  show "length (mod_entries w) \<le> extend_count w"
    by (simp add: mod_entries_def c length_used)
  show "distinct (map ext3_module (mod_entries w))"
    using t by (simp add: mod_entries_def tbl_wf_def)
  show "extend_load_v3 e w = (mkernel_internal_extend_ready, w)"
    if "ext3_module e \<noteq> []" "ext3_module e \<in> ext3_module ` set (mod_entries w)"
    using that by (simp add: extend_load_v3_def c ld mod_entries_def)
  show "extend_load_v3 e w = (mkernel_internal_extend_full, w)"
    if "ext3_module e \<noteq> []" "ext3_module e \<notin> ext3_module ` set (mod_entries w)"
      "length (mod_entries w) = extend_count w"
    using that by (simp add: extend_load_v3_def c ld mod_entries_def)
  show "\<exists>w'. extend_load_v3 e w = (mkernel_internal_succ, w') \<and> mod_entries w' = mod_entries w @ [e] \<and>
      extend_count w' = extend_count w \<and> mod_wf w'"
    if "ext3_module e \<noteq> []" "ext3_module e \<notin> ext3_module ` set (mod_entries w)"
      "length (mod_entries w) < extend_count w"
    using that c t tbl_update [of ext3_module "[]" "extends w" e]
    by (simp add: extend_load_v3_def ld mod_entries_def mod_wf_def)
  show "mod_lookup k w = Some e \<longleftrightarrow> e \<in> set (mod_entries w) \<and> ext3_module e = k" if "k \<noteq> []"
    using lookup_used_iff [OF that t] by (simp add: mod_lookup_def mod_entries_def extend_get_by_extend_id_def c)
qed

section \<open>Calls through NULL\<close>

text \<open>
  Every registered domain has a data function. Then messages for a non-zero
  domain never make the dispatcher call through NULL, while a message for domain
  0 finds the first free slot, whose functions are all NULL.
\<close>

definition routes_set :: "world \<Rightarrow> bool" where
  "routes_set w \<longleftrightarrow> list_all (\<lambda>k. extend_data_route k \<noteq> None) (dom_entries w)"

lemma extend_get_used:
  assumes "dom_wf w" and "extend_get d w = Some i" and "d \<noteq> 0"
  shows "kernel_extend (domains w ! i) \<in> set (dom_entries w)"
proof -
  let ?k = "dom_key (domains w ! i)"
  from assms(1,2) have "i < length (domains w)" "ucast ?k = d"
    by (auto simp: extend_get_def dom_wf_def first_index_iff)
  then have "?k \<noteq> 0" using assms(3) by auto
  moreover have "dom_lookup ?k w = Some (kernel_extend (domains w ! i))"
    using assms(2) \<open>ucast ?k = d\<close> by (simp add: dom_lookup_def)
  ultimately show ?thesis using dreg.lookup_iff [OF assms(1)] by blast
qed

lemma data_calls_no_null:
  assumes "dom_wf w" and "routes_set w" and "sub_msg_domain_id x \<noteq> 0"
  shows "Null_call \<notin> set (data_calls w x)"
proof (cases "extend_get (sub_msg_domain_id x) w")
  case (Some i)
  from extend_get_used [OF assms(1) this assms(3)] assms(2) Some show ?thesis
    by (auto simp: data_calls_def ptr_call_def routes_set_def list_all_iff split: option.splits)
qed (simp add: data_calls_def)

lemma data_calls_domain_0:
  assumes "dom_wf w" and "length (dom_entries w) < domains_count w"
    and "drop (length (dom_entries w)) (domains w) = replicate n zero_domain"
    and "sub_msg_domain_id x = 0"
  shows "data_calls w x = [Null_call]"
proof -
  let ?n = "length (dom_entries w)"
  have u: "?n = length (used dom_key 0 (domains w))" by (simp add: dom_entries_def)
  from assms(1) have c: "domains_count w = length (domains w)" by (simp add: dom_wf_def)
  obtain rest where r: "domains w = used dom_key 0 (domains w) @ rest"
    "\<forall>d \<in> set (used dom_key 0 (domains w)). dom_key d \<noteq> 0" by (rule tbl_split)
  have rest: "rest = replicate n zero_domain" using r(1) assms(3) u by (metis append_eq_conv_conj)
  have nth: "domains w ! ?n = zero_domain"
    using assms(2,3) c by (metis Cons_nth_drop_Suc in_set_replicate list.set_intros(1))
  have "first_index (\<lambda>d. dom_key d = 0) (domains w) = Some ?n"
    using nth assms(2) c r u
    by (auto simp: first_index_iff zero_domain_def zero_extend_def) (metis nth_append nth_mem)
  then have "extend_get 0 w = Some ?n"
    using extend_get_ucast [of 0 w] c by simp
  with nth assms(4) show ?thesis
    by (simp add: data_calls_def zero_domain_def zero_extend_def ptr_call_def)
qed

section \<open>Tear-down frees what is queued\<close>

lemma fini_queue_of_empty:
  "q_elems q = [] \<Longrightarrow> fini_queue_of (m, q) = (m, \<lparr>q_maxsize = 0, q_size = 0, q_elems = [], q_lock = False\<rparr>)"
  by (simp add: fini_queue_of_def ezos_frees_def)

lemma clear_queue_eq:
  obtains m' where "clear_queue b (m, q) = (m', q\<lparr>q_elems := [], q_size := 0\<rparr>)"
    "live m' = live m - (\<Sum>x\<leftarrow>q_elems q. 1 + int (b x))"
  using clear_queue_spec [of b m q] by blast

lemma fini_queue_balance:
  "w_live (fini_queue w) = lost_blocks w \<and> queued_blocks (fini_queue w) = 0 \<and> queues_wf (fini_queue w)"
proof -
  obtain m1 where 1: "clear_queue submsg_blocks (w_mem w, q_submsg w) = (m1, (q_submsg w)\<lparr>q_elems := [], q_size := 0\<rparr>)"
    "live m1 = live (w_mem w) - (\<Sum>x\<leftarrow>q_elems (q_submsg w). 1 + int (submsg_blocks x))"
    by (rule clear_queue_eq)
  obtain m2 where 2: "clear_queue submsg_v3_blocks (m1, q_submsg_v3 w) = (m2, (q_submsg_v3 w)\<lparr>q_elems := [], q_size := 0\<rparr>)"
    "live m2 = live m1 - (\<Sum>x\<leftarrow>q_elems (q_submsg_v3 w). 1 + int (submsg_v3_blocks x))"
    by (rule clear_queue_eq)
  obtain m3 where 3: "clear_queue pubmsg_blocks (m2, q_pubmsg w) = (m3, (q_pubmsg w)\<lparr>q_elems := [], q_size := 0\<rparr>)"
    "live m3 = live m2 - (\<Sum>x\<leftarrow>q_elems (q_pubmsg w). 1 + int (pubmsg_blocks x))"
    by (rule clear_queue_eq)
  obtain m4 where 4: "clear_queue pubmsg_v3_blocks (m3, q_pubmsg_v3 w) = (m4, (q_pubmsg_v3 w)\<lparr>q_elems := [], q_size := 0\<rparr>)"
    "live m4 = live m3 - (\<Sum>x\<leftarrow>q_elems (q_pubmsg_v3 w). 1 + int (pubmsg_v3_blocks x))"
    by (rule clear_queue_eq)
  obtain m5 where 5: "clear_queue inner_blocks (m4, q_inner w) = (m5, (q_inner w)\<lparr>q_elems := [], q_size := 0\<rparr>)"
    "live m5 = live m4 - (\<Sum>x\<leftarrow>q_elems (q_inner w). 1 + int (inner_blocks x))"
    by (rule clear_queue_eq)
  have "fini_queue w =
    w\<lparr>w_mem := m5, q_submsg := \<lparr>q_maxsize = 0, q_size = 0, q_elems = [], q_lock = False\<rparr>,
       q_pubmsg := \<lparr>q_maxsize = 0, q_size = 0, q_elems = [], q_lock = False\<rparr>,
       q_inner := \<lparr>q_maxsize = 0, q_size = 0, q_elems = [], q_lock = False\<rparr>,
       q_submsg_v3 := \<lparr>q_maxsize = 0, q_size = 0, q_elems = [], q_lock = False\<rparr>,
       q_pubmsg_v3 := \<lparr>q_maxsize = 0, q_size = 0, q_elems = [], q_lock = False\<rparr>\<rparr>"
    by (simp add: fini_queue_def drain_notices_def clear_queue_pubmsg_exchange_v3_def
        clear_queue_pubmsg_exchange_def clear_queue_submsg_v3_def clear_queue_submsg_def 1 2 3 4 5
        fini_queue_of_empty Let_def)
  then show ?thesis
    by (simp add: w_live_def lost_blocks_def queued_blocks_def queues_wf_def q_wf_def 1 2 3 4 5)
qed

end
