(* ===== verification/Risk_Control.thy ===== *)
theory Risk_Control
  imports Kernel_Extend
begin

text \<open>
  Risk control, \<^verbatim>\<open>access/ezdev_sdk_kernel_risk_control.c\<close>: the platform may bar the
  device, a domain, or single commands of a domain. The lemmas say what a check
  answers after each addition and what stays unaffected.
\<close>

section \<open>Operations\<close>

definition add_access_risk_control :: "world \<Rightarrow> world" where
  "add_access_risk_control w = w\<lparr>kernel := (kernel w)\<lparr>access_risk := Sdk_risk_control\<rparr>\<rparr>"

definition add_domain_risk_control :: "uint32 \<Rightarrow> world \<Rightarrow> world" where
  "add_domain_risk_control did w =
     (case extend_get did w of
        None \<Rightarrow> w
      | Some i \<Rightarrow> w\<lparr>domains := (domains w)[i := (domains w ! i)\<lparr>domain_risk := Sdk_risk_control\<rparr>]\<rparr>)"

definition add_cmd :: "uint32 \<Rightarrow> uint32 list \<Rightarrow> uint32 list" where
  "add_cmd cmd arr =
     (case first_index (\<lambda>c. c = 0) (take CONFIG_EZIOT_CORE_RISK_CONTROL_CMD_MAX arr) of
        None \<Rightarrow> arr
      | Some j \<Rightarrow> arr[j := cmd])"

definition add_cmd_risk_control :: "uint32 \<Rightarrow> uint32 \<Rightarrow> world \<Rightarrow> world" where
  "add_cmd_risk_control did cmd w =
     (case extend_get did w of
        None \<Rightarrow> w
      | Some i \<Rightarrow> w\<lparr>domains := (domains w)[i :=
          (domains w ! i)\<lparr>cmd_risk_array := add_cmd cmd (cmd_risk_array (domains w ! i))\<rparr>]\<rparr>)"

definition check_access_risk_control :: "world \<Rightarrow> int" where
  "check_access_risk_control w = (if access_risk (kernel w) = Sdk_no_risk_control then 0 else 1)"

fun scan_cmds :: "uint32 \<Rightarrow> uint32 list \<Rightarrow> int" where
  "scan_cmds cmd [] = 0"
| "scan_cmds cmd (c # cs) = (if c = 0 then 0 else if cmd = c then 3 else scan_cmds cmd cs)"

definition check_cmd_risk_control :: "uint32 \<Rightarrow> uint32 \<Rightarrow> world \<Rightarrow> int" where
  "check_cmd_risk_control did cmd w =
     (if did = DAS_CMD_COMMON_FUN \<or> did = DAS_CMD_DOMAIN then 0
      else case extend_get did w of
        None \<Rightarrow> 1
      | Some i \<Rightarrow>
          if domain_risk (domains w ! i) = Sdk_risk_control then 2
          else scan_cmds cmd (take CONFIG_EZIOT_CORE_RISK_CONTROL_CMD_MAX (cmd_risk_array (domains w ! i))))"

section \<open>Commands of a domain\<close>

text \<open>The commands an array bars: its entries before the first zero.\<close>

definition barred :: "uint32 list \<Rightarrow> uint32 list" where
  "barred arr = takeWhile (\<lambda>c. c \<noteq> 0) (take CONFIG_EZIOT_CORE_RISK_CONTROL_CMD_MAX arr)"

lemma scan_cmds_iff: "scan_cmds cmd arr = (if cmd \<in> set (takeWhile (\<lambda>c. c \<noteq> 0) arr) then 3 else 0)"
  by (induction arr) auto

lemma set_add_first_zero:
  "cmd \<noteq> 0 \<Longrightarrow> first_index (\<lambda>c. c = 0) xs = Some j \<Longrightarrow>
   set (takeWhile (\<lambda>c. c \<noteq> 0) xs) \<union> {cmd} \<subseteq> set (takeWhile (\<lambda>c. c \<noteq> 0) (xs[j := cmd]))"
proof (induction xs arbitrary: j)
  case (Cons x xs)
  then show ?case by (cases "x = 0") auto
qed simp

lemma barred_add_cmd:
  assumes "cmd \<noteq> 0" and "0 \<in> set (take CONFIG_EZIOT_CORE_RISK_CONTROL_CMD_MAX arr)"
  shows "insert cmd (set (barred arr)) \<subseteq> set (barred (add_cmd cmd arr))"
proof -
  let ?t = "take CONFIG_EZIOT_CORE_RISK_CONTROL_CMD_MAX arr"
  from assms(2) obtain j where j: "first_index (\<lambda>c. c = 0) ?t = Some j"
    using first_index_None [of "\<lambda>c. c = 0" ?t] by (cases "first_index (\<lambda>c. c = 0) ?t") auto
  with set_add_first_zero [OF assms(1) j] show ?thesis
    by (simp add: barred_def add_cmd_def take_update_swap)
qed

lemma add_cmd_full:
  "0 \<notin> set (take CONFIG_EZIOT_CORE_RISK_CONTROL_CMD_MAX arr) \<Longrightarrow> add_cmd cmd arr = arr"
  using first_index_None [of "\<lambda>c. c = 0" "take CONFIG_EZIOT_CORE_RISK_CONTROL_CMD_MAX arr"]
  by (auto simp: add_cmd_def)

lemma length_add_cmd [simp]: "length (add_cmd cmd arr) = length arr"
  by (simp add: add_cmd_def split: option.split)

section \<open>Checks after additions\<close>

lemma extend_get_update:
  assumes "kernel_extend d = kernel_extend (domains w ! i)"
  shows "extend_get did (w\<lparr>domains := (domains w)[i := d]\<rparr>) = extend_get did w"
proof -
  have *: "first_index P (xs[i := y]) = first_index P xs"
    if "i < length xs \<Longrightarrow> P y = P (xs ! i)" for P i y and xs :: "ezdev_sdk_kernel_domain_info list"
    using that by (induction xs arbitrary: i) (auto split: nat.splits)
  show ?thesis
    using assms by (simp add: extend_get_def take_update_swap) (rule *, simp)
qed

lemma extend_get_bound: "extend_get did w = Some i \<Longrightarrow> i < length (domains w)"
  by (auto simp: extend_get_def first_index_iff)

lemma check_after_add_domain:
  assumes "extend_get did w = Some i" and "did \<noteq> DAS_CMD_COMMON_FUN" and "did \<noteq> DAS_CMD_DOMAIN"
  shows "check_cmd_risk_control did cmd (add_domain_risk_control did w) = 2"
  using assms extend_get_bound [OF assms(1)]
  by (simp add: add_domain_risk_control_def check_cmd_risk_control_def extend_get_update)

lemma check_after_add_cmd:
  assumes "extend_get did w = Some i" and "did \<noteq> DAS_CMD_COMMON_FUN" and "did \<noteq> DAS_CMD_DOMAIN"
    and "cmd \<noteq> 0"
    and "0 \<in> set (take CONFIG_EZIOT_CORE_RISK_CONTROL_CMD_MAX (cmd_risk_array (domains w ! i)))"
  shows "check_cmd_risk_control did cmd (add_cmd_risk_control did cmd w) \<in> {2, 3}"
  using assms extend_get_bound [OF assms(1)] barred_add_cmd [OF assms(4,5)]
  by (auto simp: add_cmd_risk_control_def check_cmd_risk_control_def extend_get_update scan_cmds_iff
      barred_def)

text \<open>No addition lifts a bar: a command that was refused stays refused.\<close>

lemma extend_get_unique:
  assumes "extend_get d1 w = Some i" and "extend_get d2 w = Some i"
  shows "d1 = d2"
  using assms by (auto simp: extend_get_def first_index_iff)

lemma barred_add_cmd_mono:
  assumes "cmd \<noteq> 0"
  shows "set (barred arr) \<subseteq> set (barred (add_cmd cmd arr))"
proof (cases "0 \<in> set (take CONFIG_EZIOT_CORE_RISK_CONTROL_CMD_MAX arr)")
  case True
  with barred_add_cmd [OF assms] show ?thesis by blast
next
  case False
  then show ?thesis by (simp add: add_cmd_full)
qed

lemma add_cmd_keeps_bars:
  assumes "cmd \<noteq> 0" and "check_cmd_risk_control d c w \<noteq> 0"
  shows "check_cmd_risk_control d c (add_cmd_risk_control did cmd w) = check_cmd_risk_control d c w"
proof (cases "extend_get did w")
  case None
  then show ?thesis by (simp add: add_cmd_risk_control_def)
next
  case (Some i)
  note g = extend_get_update [of "(domains w ! i)\<lparr>cmd_risk_array := a\<rparr>" w i for a, simplified]
  show ?thesis
  proof (cases "extend_get d w")
    case None
    with Some assms(2) g show ?thesis
      by (simp add: add_cmd_risk_control_def check_cmd_risk_control_def)
  next
    case (Some k)
    with \<open>extend_get did w = Some i\<close> assms(2) g extend_get_bound [OF Some]
      barred_add_cmd_mono [OF assms(1), of "cmd_risk_array (domains w ! i)"]
    show ?thesis
      by (cases "k = i") (auto simp: add_cmd_risk_control_def check_cmd_risk_control_def scan_cmds_iff
          barred_def split: if_splits)
  qed
qed

text \<open>The tables keep their shape: risk control never changes who is registered.\<close>

lemma same_extends:
  assumes "map kernel_extend (domains w') = map kernel_extend (domains w)"
    and "domains_count w' = domains_count w"
  shows "dom_wf w' = dom_wf w" "dom_entries w' = dom_entries w"
proof -
  have k: "map dom_key (domains w') = map dom_key (domains w)"
    using arg_cong [OF assms(1), of "map domain_id"] by (simp add: comp_def)
  have "length (domains w') = length (domains w)" using assms(1) map_eq_imp_length_eq by blast
  with k assms(2) show "dom_wf w' = dom_wf w" by (simp add: dom_wf_def tbl_keys)
  have e: "dom_entries w = takeWhile (\<lambda>k. domain_id k \<noteq> 0) (map kernel_extend (domains w))" for w
    by (simp add: dom_entries_def used_def takeWhile_map comp_def)
  from assms(1) show "dom_entries w' = dom_entries w" by (simp add: e)
qed

lemma map_kernel_extend_update [simp]:
  "kernel_extend d = kernel_extend (xs ! i) \<Longrightarrow> map kernel_extend (xs[i := d]) = map kernel_extend xs"
  by (cases "i < length xs") (simp_all add: map_update list_update_same_conv list_update_beyond)

lemma add_domain_risk_wf [inv_intros]:
  "dom_wf (add_domain_risk_control did w) = dom_wf w"
  "dom_entries (add_domain_risk_control did w) = dom_entries w"
  by (rule same_extends; simp add: add_domain_risk_control_def split: option.split)+

lemma add_cmd_risk_wf [inv_intros]:
  "dom_wf (add_cmd_risk_control did cmd w) = dom_wf w"
  "dom_entries (add_cmd_risk_control did cmd w) = dom_entries w"
  by (rule same_extends; simp add: add_cmd_risk_control_def split: option.split)+

section \<open>What the transports leave alone\<close>

text \<open>
  The tables, the notice callback and the trace of calls as they were, and
  well-formed queues stay well formed.
\<close>

definition parts_kept :: "world \<Rightarrow> world \<Rightarrow> bool" where
  "parts_kept w w' \<longleftrightarrow> map kernel_extend (domains w') = map kernel_extend (domains w) \<and>
     domains_count w' = domains_count w \<and> extends w' = extends w \<and> extend_count w' = extend_count w \<and>
     event_notice_cb w' = event_notice_cb w \<and> calls w' = calls w \<and> (queues_wf w \<longrightarrow> queues_wf w')"

lemma parts_kept_refl: "parts_kept w w"
  by (simp add: parts_kept_def)

lemma parts_kept_trans: "parts_kept w w1 \<Longrightarrow> parts_kept w1 w2 \<Longrightarrow> parts_kept w w2"
  by (simp add: parts_kept_def)

lemma parts_kept_tables:
  assumes "parts_kept w w'"
  shows "dom_wf w' = dom_wf w" "dom_entries w' = dom_entries w" "mod_wf w' = mod_wf w"
    "mod_entries w' = mod_entries w" "routes_set w' = routes_set w"
proof -
  have d: "map kernel_extend (domains w') = map kernel_extend (domains w)" "domains_count w' = domains_count w"
    using assms by (simp_all add: parts_kept_def)
  show "dom_wf w' = dom_wf w" "dom_entries w' = dom_entries w" "routes_set w' = routes_set w"
    using same_extends [OF d] by (simp_all add: routes_set_def)
  show "mod_wf w' = mod_wf w" "mod_entries w' = mod_entries w"
    using assms by (simp_all add: parts_kept_def mod_wf_def mod_entries_def)
qed

lemma q_wf_case:
  "q_wf q \<Longrightarrow> push_queue x (m, q) = (e, m', q') \<Longrightarrow> q_wf q'"
  "q_wf q \<Longrightarrow> push_queue_head x (m, q) = (e, m', q') \<Longrightarrow> q_wf q'"
  "q_wf q \<Longrightarrow> pop_queue (m, q) = (r, m', q') \<Longrightarrow> q_wf q'"
  using q_wf_push [of q x m] q_wf_push_head [of q x m] q_wf_pop [of q m] by simp_all

lemma parts_kept_steps:
  "parts_kept w (w_free w)" "parts_kept w (faulty b w)" "w_malloc w = (ok, w') \<Longrightarrow> parts_kept w w'"
  "push_queue_submsg x w = (e, w') \<Longrightarrow> parts_kept w w'"
  "push_queue_submsg_v3 x3 w = (e, w') \<Longrightarrow> parts_kept w w'"
  "push_queue_pubmsg_exchange p w = (e, w') \<Longrightarrow> parts_kept w w'"
  "push_queue_head_pubmsg_exchange p w = (e, w') \<Longrightarrow> parts_kept w w'"
  "pop_queue_pubmsg_exchange w = (r, w') \<Longrightarrow> parts_kept w w'"
  "push_queue_pubmsg_exchange_v3 p3 w = (e, w') \<Longrightarrow> parts_kept w w'"
  "push_queue_head_pubmsg_exchange_v3 p3 w = (e, w') \<Longrightarrow> parts_kept w w'"
  "pop_queue_pubmsg_exchange_v3 w = (r3, w') \<Longrightarrow> parts_kept w w'"
  by (auto simp: parts_kept_def w_free_def faulty_def w_malloc_def queue_instance_defs queues_wf_def
      split: prod.splits dest: q_wf_case)

end
