(* ===== verification/Domain_Bus.thy ===== *)
theory Domain_Bus
  imports Risk_Control
begin

text \<open>
  The commands of the access domain itself, \<^verbatim>\<open>dispatcher/access_domain_bus.c\<close>, with
  the XML reader \<^verbatim>\<open>support/ezdev_sdk_kernel_xml_parser.c\<close>: configuration of the
  keep-alive interval, risk control, forced offline and change of the LBS domain.
  The text parsers (\<^verbatim>\<open>cJSON_Parse\<close>, \<^verbatim>\<open>ezxml_parse_str\<close>) are parameters, functions
  from the received bytes to a tree or NULL, and so is the text \<^verbatim>\<open>cJSON_text\<close> that
  \<^verbatim>\<open>cJSON_PrintUnformatted\<close> prints for a tree.
\<close>

section \<open>XML\<close>

datatype ezxml = Ezxml (ez_name: string) (ez_txt: string) (ez_children: "ezxml list")

record text_parsers =
  cJSON_Parse :: "byte list \<Rightarrow> cJSON option"
  cJSON_text :: "cJSON \<Rightarrow> byte list"
  ezxml_parse_str :: "byte list option \<Rightarrow> uint32 \<Rightarrow> ezxml option"

fun ezxml_find :: "string \<Rightarrow> ezxml list \<Rightarrow> ezxml option" where
  "ezxml_find name [] = None"
| "ezxml_find name (x # xs) = (if name \<noteq> ez_name x then ezxml_find name xs else Some x)"

definition ezxml_child :: "ezxml option \<Rightarrow> string \<Rightarrow> ezxml option" where
  "ezxml_child xml name = (case xml of None \<Rightarrow> None | Some x \<Rightarrow> ezxml_find name (ez_children x))"

definition cenplt2pusetlbsdomainnamebydasreq_xml_parser :: "text_parsers \<Rightarrow> byte list option \<Rightarrow> uint32
    \<Rightarrow> mkernel_internal_error \<times> string" where
  "cenplt2pusetlbsdomainnamebydasreq_xml_parser tp xml_buf len =
     (case ezxml_parse_str tp xml_buf len of
        None \<Rightarrow> (mkernel_internal_xml_parse_error, [])
      | Some root \<Rightarrow>
          (case ezxml_child (Some root) ''DomainName'' of
             None \<Rightarrow> (mkernel_internal_get_error_xml, [])
           | Some node \<Rightarrow>
               if length (ez_txt node) \<ge> ezdev_sdk_name_len then (mkernel_internal_get_error_xml, [])
               else (mkernel_internal_succ, strncpy (ez_txt node) (length (ez_txt node)))))"

section \<open>Commands\<close>

definition bus_handle_domainconfig_keepalive :: "cJSON option \<Rightarrow> world \<Rightarrow> mkernel_internal_error \<times> world" where
  "bus_handle_domainconfig_keepalive json_item w =
     (case json_item of
        None \<Rightarrow> (mkernel_internal_json_parse_error, w)
      | Some item \<Rightarrow>
          (case cJSON_GetObjectItem (Some item) ''Interval'' of
             None \<Rightarrow> (mkernel_internal_get_error_json, w)
           | Some iv \<Rightarrow>
               if js_type iv \<noteq> cJSON_Number then (mkernel_internal_get_error_json, w)
               else (mkernel_internal_succ,
                     w\<lparr>kernel := (kernel w)\<lparr>das_keepalive_interval := of_int (js_valueint iv)\<rparr>\<rparr>)))"

definition bus_handle_domainconfig_ntp :: "cJSON option \<Rightarrow> world \<Rightarrow> mkernel_internal_error \<times> world" where
  "bus_handle_domainconfig_ntp json_item w = (mkernel_internal_succ, w)"

definition bus_handle_domainconfig :: "text_parsers \<Rightarrow> ez_kernel_submsg \<Rightarrow> world
    \<Rightarrow> mkernel_internal_error \<times> world" where
  "bus_handle_domainconfig tp msg w =
     (case sub_buf msg of
        None \<Rightarrow> (mkernel_internal_rev_invalid_packet, w)
      | Some buf \<Rightarrow>
          (case cJSON_Parse tp buf of
             None \<Rightarrow> (mkernel_internal_json_parse_error, w)
           | Some root \<Rightarrow>
               let json_keepalive = cJSON_GetObjectItem (Some root) ''KeepAlive'';
                   json_ntp = cJSON_GetObjectItem (Some root) ''NTP'';
                   w1 = (if json_keepalive \<noteq> None
                         then snd (bus_handle_domainconfig_keepalive json_keepalive w) else w);
                   w2 = (if json_ntp \<noteq> None
                         then snd (bus_handle_domainconfig_ntp json_keepalive w1) else w1)
               in (mkernel_internal_succ, w2)))"

definition bus_handle_dev_redirect :: "text_parsers \<Rightarrow> ez_kernel_submsg \<Rightarrow> world
    \<Rightarrow> mkernel_internal_error \<times> world" where
  "bus_handle_dev_redirect tp msg w =
     (case cenplt2pusetlbsdomainnamebydasreq_xml_parser tp (sub_buf msg) (sub_buf_len msg) of
        (sdk_error, domain_name) \<Rightarrow>
          if sdk_error \<noteq> mkernel_internal_succ then (sdk_error, w)
          else if server_name (server_info (kernel w)) = domain_name then (sdk_error, w)
          else
            (sdk_error,
             w\<lparr>kernel := (kernel w)\<lparr>
                 server_info := (server_info (kernel w))\<lparr>server_name := strncpy domain_name ezdev_sdk_name_len,
                                                         server_ip := []\<rparr>,
                 master_key := zeros ezdev_sdk_masterkey_len,
                 entr_state := Sdk_entrance_switchover, cnt_state := Sdk_cnt_unredirect\<rparr>\<rparr>))"

definition risk_cmds :: "uint32 \<Rightarrow> cJSON \<Rightarrow> nat \<Rightarrow> world \<Rightarrow> world" where
  "risk_cmds did json_domain n w =
     fold (\<lambda>indexb w. case cJSON_GetArrayItem (Some json_domain) (int indexb) of
             None \<Rightarrow> w
           | Some cmd \<Rightarrow> add_cmd_risk_control did (of_int (js_valueint cmd)) w) [0..<n] w"

definition risk_domain :: "nat \<Rightarrow> cJSON option \<Rightarrow> uint32 \<times> world \<Rightarrow> uint32 \<times> world" where
  "risk_domain domain_size json_domain s =
     (case s of (did, w) \<Rightarrow>
       (case json_domain of
          None \<Rightarrow> (did, w)
        | Some d \<Rightarrow>
            let did' = (case js_string d of None \<Rightarrow> did | Some nm \<Rightarrow> of_int (atoi nm))
            in if cJSON_GetArraySize (Some d) = 0 then (did', add_domain_risk_control did' w)
               else (did', risk_cmds did' d domain_size w)))"

definition bus_handle_dev_risk :: "text_parsers \<Rightarrow> ez_kernel_submsg \<Rightarrow> world
    \<Rightarrow> mkernel_internal_error \<times> world" where
  "bus_handle_dev_risk tp msg w =
     (case sub_buf msg of
        None \<Rightarrow> (mkernel_internal_rev_invalid_packet, w)
      | Some buf \<Rightarrow>
          (case cJSON_Parse tp buf of
             None \<Rightarrow> (mkernel_internal_json_parse_error, w)
           | Some root \<Rightarrow>
               let risk = cJSON_GetObjectItem (Some root) ''risk'';
                   domain_size = cJSON_GetArraySize risk
               in (mkernel_internal_succ,
                   snd (fold (\<lambda>indexa. risk_domain domain_size (cJSON_GetArrayItem risk (int indexa)))
                          [0..<domain_size] (0, w)))))"

definition bus_handle_force_offline :: "world \<Rightarrow> mkernel_internal_error \<times> world" where
  "bus_handle_force_offline w = (mkernel_internal_succ, add_access_risk_control w)"

definition access_domain_bus_handle :: "text_parsers \<Rightarrow> ez_kernel_submsg \<Rightarrow> world
    \<Rightarrow> mkernel_internal_error \<times> world" where
  "access_domain_bus_handle tp msg w =
     (let c = sub_msg_command_id msg in
      if c = DAS_CMD_CENPLT2PUDOMAINCONFIG then bus_handle_domainconfig tp msg w
      else if c = DAS_CMD_CENPLT2PURISKCONFIG then bus_handle_dev_risk tp msg w
      else if c = DAS_CMD_CENPLT2PUOFFLINE then bus_handle_force_offline w
      else if c = DAS_CMD_CENPLT2PUSETKEEPALIVETIMEREQ then (mkernel_internal_succ, w)
      else if c = DAS_CMD_CENPLT2PUSETLBSDOMAINNAMEBYDASREQ \<or> c = DAS_CMD_CENPLT2PUSETLBSDOMAINNAMEREQ
        then bus_handle_dev_redirect tp msg w
      else (mkernel_internal_succ, w))"

section \<open>Frame\<close>

text \<open>
  The access domain's commands touch the kernel context and the risk fields of
  the domain table, nothing else: who is registered, the queues, the allocator and
  the callbacks stay as they are.
\<close>

definition bus_frame :: "world \<Rightarrow> world \<Rightarrow> bool" where
  "bus_frame w w' \<longleftrightarrow> w' = w\<lparr>kernel := kernel w', domains := domains w'\<rparr> \<and>
     map kernel_extend (domains w') = map kernel_extend (domains w)"

lemma parts_kept_bus:
  assumes "bus_frame w w'"
  shows "parts_kept w w'"
proof -
  have "map kernel_extend (domains w') = map kernel_extend (domains w)" using assms by (simp add: bus_frame_def)
  then have "parts_kept w (w\<lparr>kernel := kernel w', domains := domains w'\<rparr>)"
    by (simp add: parts_kept_def queues_wf_def)
  moreover have "w\<lparr>kernel := kernel w', domains := domains w'\<rparr> = w'" using assms by (simp add: bus_frame_def)
  ultimately show ?thesis by simp
qed

lemma bus_frame_refl: "bus_frame w w"
  by (simp add: bus_frame_def)

lemma bus_frame_trans:
  assumes "bus_frame w w1" and "bus_frame w1 w2"
  shows "bus_frame w w2"
proof -
  from assms(1) have 1: "w1 = w\<lparr>kernel := kernel w1, domains := domains w1\<rparr>" by (simp add: bus_frame_def)
  from assms(2) have 2: "w2 = w1\<lparr>kernel := kernel w2, domains := domains w2\<rparr>" by (simp add: bus_frame_def)
  have "w2 = w\<lparr>kernel := kernel w2, domains := domains w2\<rparr>" by (subst 2, subst 1) simp
  with assms show ?thesis by (simp add: bus_frame_def)
qed

lemma bus_frame_risk:
  "bus_frame w (add_domain_risk_control d w)" "bus_frame w (add_cmd_risk_control d c w)"
  "bus_frame w (add_access_risk_control w)" "bus_frame w (w\<lparr>kernel := k\<rparr>)"
  by (simp_all add: bus_frame_def add_domain_risk_control_def add_cmd_risk_control_def
      add_access_risk_control_def split: option.split)

lemma bus_frame_fold:
  assumes "\<And>x w. bus_frame w (f x w)"
  shows "bus_frame w (fold f xs w)"
  by (induction xs arbitrary: w) (auto intro: bus_frame_refl bus_frame_trans assms)

lemma bus_frame_risk_domain: "bus_frame w (snd (risk_domain n j (did, w)))"
proof -
  have "bus_frame w (risk_cmds d jd n w)" for d jd w
    unfolding risk_cmds_def by (rule bus_frame_fold) (auto intro: bus_frame_refl bus_frame_risk split: option.split)
  then show ?thesis
    by (auto simp: risk_domain_def Let_def intro: bus_frame_refl bus_frame_risk split: option.split)
qed

lemma bus_frame_dev_risk: "bus_frame w (snd (bus_handle_dev_risk tp msg w))"
proof -
  have *: "bus_frame w (snd (fold (\<lambda>i. risk_domain n (g i)) is (d, w)))" for n and g :: "nat \<Rightarrow> _" and "is" d
  proof (induction "is" arbitrary: d w)
    case (Cons i "is")
    obtain d' w' where r: "risk_domain n (g i) (d, w) = (d', w')" by fastforce
    from bus_frame_risk_domain [of w n "g i" d] r bus_frame_trans Cons.IH show ?case by fastforce
  qed (simp add: bus_frame_refl)
  show ?thesis
    by (auto simp: bus_handle_dev_risk_def Let_def intro: bus_frame_refl * split: option.split)
qed

lemma bus_handle_frame: "bus_frame w (snd (access_domain_bus_handle tp msg w))"
proof -
  have "bus_frame w (snd (bus_handle_domainconfig tp msg w))"
    by (auto simp: bus_handle_domainconfig_def bus_handle_domainconfig_keepalive_def
        bus_handle_domainconfig_ntp_def Let_def bus_frame_refl bus_frame_risk split: option.split)
  moreover have "bus_frame w (snd (bus_handle_dev_redirect tp msg w))"
    by (auto simp: bus_handle_dev_redirect_def bus_frame_refl bus_frame_risk split: prod.split)
  ultimately show ?thesis
    using bus_frame_dev_risk [of w tp msg]
    by (simp add: access_domain_bus_handle_def bus_handle_force_offline_def Let_def bus_frame_refl
        bus_frame_risk)
qed

lemma bus_handle_wf:
  assumes "access_domain_bus_handle tp msg w = (e, w')"
  shows "dom_wf w' = dom_wf w" "dom_entries w' = dom_entries w"
proof -
  from bus_handle_frame [of w tp msg] assms have f: "bus_frame w w'" by simp
  then have m: "map kernel_extend (domains w') = map kernel_extend (domains w)"
    by (simp add: bus_frame_def)
  from f have "w' = w\<lparr>kernel := kernel w', domains := domains w'\<rparr>" by (simp add: bus_frame_def)
  from arg_cong [OF this, of domains_count] have c: "domains_count w' = domains_count w" by simp
  show "dom_wf w' = dom_wf w" by (rule same_extends [OF m c])
  show "dom_entries w' = dom_entries w" by (rule same_extends [OF m c])
qed

section \<open>Risk configuration\<close>

lemma fold_nth: "fold (\<lambda>i. f (xs ! i)) [0..<length xs] s = fold f xs s"
proof -
  have "fold f xs s = fold f (map ((!) xs) [0..<length xs]) s" by (simp only: map_nth)
  also have "\<dots> = fold (\<lambda>i. f (xs ! i)) [0..<length xs] s" by (simp only: fold_map comp_def)
  finally show ?thesis by simp
qed

lemma fold_nth_bounded:
  "fold (\<lambda>i s. if i < length xs then f (xs ! i) s else s) [0..<n] s = fold f (take n xs) s"
proof (induction n arbitrary: s)
  case (Suc n)
  then show ?case by (cases "n < length xs") (simp_all add: take_Suc_conv_app_nth)
qed simp

text \<open>
  Exactly the first \<^verbatim>\<open>domain_size\<close> commands of an entry are barred: the inner loop
  runs to the number of domains instead of the number of commands.
\<close>

lemma risk_cmds_take:
  "risk_cmds did d n w = fold (\<lambda>c. add_cmd_risk_control did (of_int (js_valueint c))) (take n (js_child d)) w"
proof -
  let ?f = "\<lambda>c. add_cmd_risk_control did (of_int (js_valueint c))"
  have "(\<lambda>i w. case cJSON_GetArrayItem (Some d) (int i) of None \<Rightarrow> w | Some cmd \<Rightarrow> ?f cmd w) =
      (\<lambda>i w. if i < length (js_child d) then ?f (js_child d ! i) w else w)"
    by (simp add: GetArrayItem_iff cJSON_GetArraySize_def fun_eq_iff)
  then show ?thesis unfolding risk_cmds_def by (simp only: fold_nth_bounded [where f = ?f])
qed

lemma dev_risk_fold:
  assumes "sub_buf msg = Some buf" and "cJSON_Parse tp buf = Some root"
    and "cJSON_GetObjectItem (Some root) ''risk'' = Some risk"
  shows "bus_handle_dev_risk tp msg w = (mkernel_internal_succ,
    snd (fold (\<lambda>d. risk_domain (length (js_child risk)) (Some d)) (js_child risk) (0, w)))"
proof -
  let ?n = "length (js_child risk)"
  have "fold (\<lambda>i. risk_domain ?n (cJSON_GetArrayItem (Some risk) (int i))) [0..<?n] s =
      fold (\<lambda>i. risk_domain ?n (Some (js_child risk ! i))) [0..<?n] s" for s
    by (rule fold_cong) (auto simp: GetArrayItem_iff cJSON_GetArraySize_def)
  also have "\<dots> s = fold (\<lambda>d. risk_domain ?n (Some d)) (js_child risk) s" for s
    by (rule fold_nth)
  finally show ?thesis
    using assms by (simp add: bus_handle_dev_risk_def cJSON_GetArraySize_def)
qed

end
