(* ===== verification/Aes_Support.thy ===== *)
theory Aes_Support
  imports Kernel_Errors
begin

text \<open>
  \<^verbatim>\<open>support/aes_support.c\<close>: the padding and framing the kernel puts around the AES
  of mbedtls. The cipher itself is the vendored library; it enters as the
  record \<^verbatim>\<open>mbedtls\<close> of its result codes and block functions, an argument of every
  operation. Buffer lengths are natural numbers here; all of them stay below
  \<^verbatim>\<open>CONFIG_EZIOT_CORE_MESSAGE_SIZE_MAX\<close> plus one block.
\<close>

unbundle bit_operations_syntax

section \<open>Operations\<close>

record mbedtls =
  aes_setkey_enc :: "byte list \<Rightarrow> int"
  aes_setkey_dec :: "byte list \<Rightarrow> int"
  aes_cbc_encrypt :: "byte list \<Rightarrow> byte list \<Rightarrow> byte list \<Rightarrow> int \<times> byte list"
  aes_cbc_decrypt :: "byte list \<Rightarrow> byte list \<Rightarrow> byte list \<Rightarrow> int \<times> byte list"
  gcm_setkey :: "byte list \<Rightarrow> int"
  gcm_crypt_and_tag :: "byte list \<Rightarrow> byte list \<Rightarrow> byte list \<Rightarrow> nat \<Rightarrow> int \<times> byte list \<times> byte list"
  gcm_auth_decrypt :: "byte list \<Rightarrow> byte list \<Rightarrow> byte list \<Rightarrow> byte list \<Rightarrow> int \<times> byte list"

definition calculate_padding_len :: "uint32 \<Rightarrow> uint32" where
  "calculate_padding_len len = (0x10 - (len AND 0x0F)) + len"

definition cbc_iv :: "byte list" where
  "cbc_iv = map (\<lambda>i. of_nat i + 0x30) [0..<8] @ replicate 8 0"

definition gcm_iv :: "byte list" where
  "gcm_iv = map (\<lambda>i. of_nat i + 0x30) [0..<6] @ replicate 6 0"

text \<open>The loop that compares the padding bytes: it leaves the last byte it looked at.\<close>

function pad_scan :: "byte list \<Rightarrow> byte \<Rightarrow> nat \<Rightarrow> byte \<Rightarrow> byte" where
  "pad_scan output_buf padding_char index other_char =
     (if index \<le> unat padding_char then
        let other = output_buf ! (length output_buf - index)
        in if other \<noteq> padding_char then other
           else pad_scan output_buf padding_char (Suc index) other
      else other_char)"
  by pat_completeness auto
termination
  by (relation "measure (\<lambda>(_, pc, i, _). Suc (unat pc) - i)") auto

declare pad_scan.simps [simp del]

text \<open>The result is the error code, the output buffer and the output length when it is set.\<close>

definition aes_cbc_128_dec_padding ::
    "mbedtls \<Rightarrow> byte list \<Rightarrow> byte list \<Rightarrow> mkernel_internal_error \<times> byte list \<times> nat option" where
  "aes_cbc_128_dec_padding tls aes_key input_buf =
     (let input_length = length input_buf in
      if input_length = 0 \<or> input_length mod 16 \<noteq> 0 then (mkernel_internal_aes_input_len, [], None)
      else if aes_setkey_dec tls aes_key \<noteq> 0 then
        (mkernel_internal_casll_mbedtls_setdeckey_error, [], None)
      else (case aes_cbc_decrypt tls aes_key cbc_iv input_buf of (rc, output_buf) \<Rightarrow>
        if rc \<noteq> 0 then (mkernel_internal_casll_mbedtls_crypt_error, output_buf, None)
        else
          let padding_char = output_buf ! (input_length - 1) in
          if unat padding_char > 16 \<or> unat padding_char \<le> 0 then
            (mkernel_internal_aes_padding_unmatched, output_buf, None)
          else if pad_scan output_buf padding_char 1 0 \<noteq> padding_char then
            (mkernel_internal_aes_padding_unmatched, output_buf, None)
          else (mkernel_internal_succ, output_buf, Some (input_length - unat padding_char))))"

text \<open>The loop that writes the padding behind the input.\<close>

definition fill_padding :: "byte list \<Rightarrow> nat \<Rightarrow> nat \<Rightarrow> byte list" where
  "fill_padding input_buf input_length input_length_padding =
     fold (\<lambda>i buf. buf[i := of_nat (input_length_padding - input_length)])
       [input_length..<input_length_padding] input_buf"

definition aes_cbc_128_enc_padding ::
    "mbedtls \<Rightarrow> byte list \<Rightarrow> byte list \<Rightarrow> nat \<Rightarrow> nat
      \<Rightarrow> mkernel_internal_error \<times> byte list \<times> nat option" where
  "aes_cbc_128_enc_padding tls aes_key input_buf input_length input_length_padding =
     (let buf = fill_padding input_buf input_length input_length_padding in
      if aes_setkey_enc tls aes_key \<noteq> 0 then
        (mkernel_internal_casll_mbedtls_setdeckey_error, [], None)
      else (case aes_cbc_encrypt tls aes_key cbc_iv (take input_length_padding buf) of (rc, output_buf) \<Rightarrow>
        if rc \<noteq> 0 then (mkernel_internal_casll_mbedtls_crypt_error, output_buf, None)
        else (mkernel_internal_succ, output_buf, Some input_length_padding)))"

definition aes_gcm_128_enc_padding ::
    "mbedtls \<Rightarrow> byte list \<Rightarrow> byte list \<Rightarrow> nat
      \<Rightarrow> mkernel_internal_error \<times> byte list \<times> byte list \<times> nat option" where
  "aes_gcm_128_enc_padding tls gcm_key input_buf tag_buf_len =
     (if gcm_setkey tls gcm_key \<noteq> 0 then
        (mkernel_internal_casll_mbedtls_setdeckey_error, [], [], None)
      else (case gcm_crypt_and_tag tls gcm_key gcm_iv input_buf tag_buf_len of (rc, out, tag) \<Rightarrow>
        if rc \<noteq> 0 then (mkernel_internal_casll_mbedtls_crypt_error, out, tag, None)
        else (mkernel_internal_succ, out, tag, Some (length input_buf))))"

definition aes_gcm_128_dec_padding ::
    "mbedtls \<Rightarrow> byte list \<Rightarrow> byte list \<Rightarrow> byte list
      \<Rightarrow> mkernel_internal_error \<times> byte list \<times> nat option" where
  "aes_gcm_128_dec_padding tls gcm_key input_buf input_tag_buf =
     (if length input_buf = 0 then (mkernel_internal_aes_input_len, [], None)
      else if gcm_setkey tls gcm_key \<noteq> 0 then
        (mkernel_internal_casll_mbedtls_setdeckey_error, [], None)
      else (case gcm_auth_decrypt tls gcm_key gcm_iv input_tag_buf input_buf of (rc, out) \<Rightarrow>
        if rc \<noteq> 0 then (mkernel_internal_casll_mbedtls_crypt_error, out, None)
        else (mkernel_internal_succ, out, Some (length input_buf))))"

section \<open>Padding arithmetic\<close>

lemma and_15_mod: "unat (len AND 0x0F :: uint32) = unat len mod 16"
proof -
  have "len AND 0x0F = take_bit 4 len"
    by (simp add: take_bit_eq_mask mask_eq_exp_minus_1)
  then show ?thesis by (simp add: take_bit_eq_mod unat_mod_distrib)
qed

text \<open>
  The padded length is the next multiple of sixteen strictly above the length,
  unless the addition leaves the 32-bit range.
\<close>

lemma calculate_padding_len_unat:
  assumes "unat len < 2 ^ 32 - 16"
  shows "unat (calculate_padding_len len) = 16 * (unat len div 16 + 1)"
proof -
  let ?r = "unat len mod 16"
  have r: "?r < 16" by simp
  have "unat (0x10 - (len AND 0x0F)) = 16 - ?r"
    using r by (subst unat_sub_if') (simp add: and_15_mod word_le_nat_alt)
  then have "unat (calculate_padding_len len) = 16 - ?r + unat len"
    using assms by (simp add: calculate_padding_len_def unat_word_ariths)
  also have "\<dots> = 16 * (unat len div 16 + 1)"
    using r by (simp add: algebra_simps) presburger
  finally show ?thesis .
qed

section \<open>Scanning the padding\<close>

lemma pad_scan_iff:
  assumes "i \<le> Suc (unat pc)" and "i \<noteq> Suc (unat pc) \<or> c = pc"
  shows "pad_scan buf pc i c = pc \<longleftrightarrow> (\<forall>j. i \<le> j \<and> j \<le> unat pc \<longrightarrow> buf ! (length buf - j) = pc)"
  using assms
proof (induction buf pc i c rule: pad_scan.induct)
  case (1 buf pc i c)
  show ?case
  proof (cases "i \<le> unat pc \<and> buf ! (length buf - i) = pc")
    case True
    with "1.IH" have IH: "pad_scan buf pc (Suc i) pc = pc \<longleftrightarrow>
        (\<forall>j. Suc i \<le> j \<and> j \<le> unat pc \<longrightarrow> buf ! (length buf - j) = pc)"
      by simp
    have "(\<forall>j. i \<le> j \<and> j \<le> unat pc \<longrightarrow> buf ! (length buf - j) = pc) \<longleftrightarrow>
        (\<forall>j. Suc i \<le> j \<and> j \<le> unat pc \<longrightarrow> buf ! (length buf - j) = pc)"
      using True by (metis Suc_leD le_antisym not_less_eq_eq)
    with True IH show ?thesis by (subst pad_scan.simps) (simp add: Let_def)
  next
    case False
    with "1.prems" show ?thesis by (subst pad_scan.simps) (auto simp: Let_def)
  qed
qed

lemma last_bytes_eq:
  assumes "k \<le> length buf"
  shows "(\<forall>j. 1 \<le> j \<and> j \<le> k \<longrightarrow> buf ! (length buf - j) = pc) \<longleftrightarrow>
    drop (length buf - k) buf = replicate k pc"
proof -
  have "drop (length buf - k) buf = replicate k pc \<longleftrightarrow>
      (\<forall>i < k. buf ! (length buf - k + i) = pc)"
    using assms by (auto simp: list_eq_iff_nth_eq)
  also have "\<dots> \<longleftrightarrow> (\<forall>j. 1 \<le> j \<and> j \<le> k \<longrightarrow> buf ! (length buf - j) = pc)"
  proof
    assume R: "\<forall>i < k. buf ! (length buf - k + i) = pc"
    show "\<forall>j. 1 \<le> j \<and> j \<le> k \<longrightarrow> buf ! (length buf - j) = pc"
    proof (intro allI impI)
      fix j assume j: "1 \<le> j \<and> j \<le> k"
      then have "k - j < k" by auto
      with R have "buf ! (length buf - k + (k - j)) = pc" by blast
      with j assms show "buf ! (length buf - j) = pc" by simp
    qed
  next
    assume L: "\<forall>j. 1 \<le> j \<and> j \<le> k \<longrightarrow> buf ! (length buf - j) = pc"
    show "\<forall>i < k. buf ! (length buf - k + i) = pc"
    proof (intro allI impI)
      fix i assume "i < k"
      with L [rule_format, of "k - i"] assms show "buf ! (length buf - k + i) = pc" by simp
    qed
  qed
  finally show ?thesis by simp
qed

text \<open>
  Decryption succeeds exactly when the decrypted buffer ends in \<^verbatim>\<open>k\<close> bytes of value
  \<^verbatim>\<open>k\<close>, one to sixteen of them, and then reports the length before them.
\<close>

lemma dec_padding_succ_iff:
  assumes "aes_setkey_dec tls key = 0" and "aes_cbc_decrypt tls key cbc_iv buf = (0, out)"
    and "length buf = length out" and "length buf mod 16 = 0" and "buf \<noteq> []"
  shows "aes_cbc_128_dec_padding tls key buf = (mkernel_internal_succ, out, Some n) \<longleftrightarrow>
    (\<exists>k. 1 \<le> k \<and> k \<le> 16 \<and> length out = n + k \<and> drop n out = replicate k (of_nat k))"
proof -
  let ?pc = "out ! (length out - 1)"
  have len: "16 \<le> length out" using assms(3-5) by (cases "length out < 16") auto
  have scan: "pad_scan out ?pc 1 0 = ?pc \<longleftrightarrow>
      drop (length out - unat ?pc) out = replicate (unat ?pc) ?pc"
    if "0 < unat ?pc" "unat ?pc \<le> 16"
    using that len pad_scan_iff [of 1 ?pc 0 out] last_bytes_eq [of "unat ?pc" out ?pc] by simp
  have succ: "aes_cbc_128_dec_padding tls key buf = (mkernel_internal_succ, out, Some n) \<longleftrightarrow>
      0 < unat ?pc \<and> unat ?pc \<le> 16 \<and> n = length out - unat ?pc \<and>
      drop (length out - unat ?pc) out = replicate (unat ?pc) ?pc"
    using assms scan by (auto simp: aes_cbc_128_dec_padding_def Let_def)
  have last: "?pc = of_nat k" if "1 \<le> k" "k \<le> 16" "length out = n + k"
    "drop n out = replicate k (of_nat k)" for k
  proof -
    from that(1,3) have "drop n out ! (k - 1) = ?pc" by simp
    with that(1,4) show ?thesis by (metis diff_less less_le_trans nth_replicate zero_less_one)
  qed
  show ?thesis
  proof
    assume "aes_cbc_128_dec_padding tls key buf = (mkernel_internal_succ, out, Some n)"
    with succ len show "\<exists>k. 1 \<le> k \<and> k \<le> 16 \<and> length out = n + k \<and> drop n out = replicate k (of_nat k)"
      by (intro exI [of _ "unat ?pc"]) auto
  next
    assume "\<exists>k. 1 \<le> k \<and> k \<le> 16 \<and> length out = n + k \<and> drop n out = replicate k (of_nat k)"
    then obtain k where k: "1 \<le> k" "k \<le> 16" "length out = n + k" "drop n out = replicate k (of_nat k)"
      by blast
    moreover from k(2) have "unat (of_nat k :: byte) = k" by (simp add: unat_of_nat_small)
    ultimately show "aes_cbc_128_dec_padding tls key buf = (mkernel_internal_succ, out, Some n)"
      using succ last [OF k] by auto
  qed
qed

section \<open>Writing the padding\<close>

lemma fold_update:
  "fold (\<lambda>i buf. buf[i := c]) [a..<a + n] buf =
     take a buf @ replicate (min n (length buf - a)) c @ drop (a + n) buf"
proof (induction n)
  case 0
  then show ?case by simp
next
  case (Suc n)
  show ?case
  proof (cases "a + n < length buf")
    case True
    then have "length (take a buf @ replicate n c) = a + n" by simp
    moreover from True have "min n (length buf - a) = n" "min (Suc n) (length buf - a) = Suc n"
      by auto
    ultimately show ?thesis using True Suc
      by (simp add: list_update_append Cons_nth_drop_Suc [symmetric] replicate_append_same)
  next
    case False
    then have "min n (length buf - a) = length buf - a" "min (Suc n) (length buf - a) = length buf - a"
      by auto
    with False Suc show ?thesis by (simp add: list_update_beyond not_less)
  qed
qed

lemma fill_padding_eq:
  assumes "length buf = l + k"
  shows "fill_padding buf l (l + k) = take l buf @ replicate k (of_nat k)"
  using assms by (simp add: fill_padding_def fold_update)

text \<open>
  Encrypting a message in a buffer padded to the next block and decrypting the
  result gives the message back, for any cipher whose decryption inverts its
  encryption.
\<close>

definition cbc_ok :: "mbedtls \<Rightarrow> byte list \<Rightarrow> bool" where
  "cbc_ok tls key \<longleftrightarrow> aes_setkey_enc tls key = 0 \<and> aes_setkey_dec tls key = 0 \<and>
     (\<forall>buf. length buf mod 16 = 0 \<longrightarrow> (\<exists>c. aes_cbc_encrypt tls key cbc_iv buf = (0, c) \<and>
        length c = length buf \<and> aes_cbc_decrypt tls key cbc_iv c = (0, buf)))"

lemma enc_dec_roundtrip:
  assumes "length msg < 2 ^ 31" and ok: "cbc_ok tls key"
  defines "plen \<equiv> unat (calculate_padding_len (of_nat (length msg)))"
  shows "\<exists>c out. aes_cbc_128_enc_padding tls key (msg @ zeros (plen - length msg)) (length msg) plen =
      (mkernel_internal_succ, c, Some plen) \<and> length c = plen \<and> length out = plen \<and>
    aes_cbc_128_dec_padding tls key c = (mkernel_internal_succ, out, Some (length msg)) \<and>
    take (length msg) out = msg"
proof -
  from ok have keys: "aes_setkey_enc tls key = 0" "aes_setkey_dec tls key = 0"
    by (simp_all add: cbc_ok_def)
  let ?l = "length msg"
  have "unat (of_nat ?l :: uint32) = ?l" using assms(1) by (simp add: unat_of_nat_small)
  then have plen: "plen = 16 * (?l div 16 + 1)"
    using assms(1) calculate_padding_len_unat [of "of_nat ?l"] by (simp add: plen_def)
  define k where "k = plen - ?l"
  have k: "1 \<le> k" "k \<le> 16" "plen = ?l + k"
    using plen by (auto simp: k_def)
  let ?buf = "msg @ replicate k (of_nat k)"
  have fill: "fill_padding (msg @ zeros (plen - ?l)) ?l plen = ?buf"
    using k fill_padding_eq [of "msg @ zeros k" ?l k] by simp
  have "length ?buf = 16 * (?l div 16 + 1)" using k(3) plen by simp
  then have m16: "length ?buf mod 16 = 0" by simp
  from ok have inv: "\<And>buf. length buf mod 16 = 0 \<Longrightarrow> \<exists>c. aes_cbc_encrypt tls key cbc_iv buf = (0, c) \<and>
      length c = length buf \<and> aes_cbc_decrypt tls key cbc_iv c = (0, buf)"
    by (simp add: cbc_ok_def)
  from inv [OF m16] obtain c where c: "aes_cbc_encrypt tls key cbc_iv ?buf = (0, c)"
    "length c = length ?buf" "aes_cbc_decrypt tls key cbc_iv c = (0, ?buf)"
    by blast
  have "aes_cbc_128_enc_padding tls key (msg @ zeros (plen - ?l)) ?l plen =
      (mkernel_internal_succ, c, Some plen)"
    using keys(1) fill c k by (simp add: aes_cbc_128_enc_padding_def Let_def)
  moreover have "aes_cbc_128_dec_padding tls key c = (mkernel_internal_succ, ?buf, Some ?l)"
  proof (subst dec_padding_succ_iff [OF keys(2) c(3)])
    show "length c = length ?buf" by (rule c(2))
    have "length c = 16 * (?l div 16 + 1)" using c(2) k(3) plen by simp
    then show "length c mod 16 = 0" by simp
    show "c \<noteq> []" using c(2) k by auto
    show "\<exists>j. 1 \<le> j \<and> j \<le> 16 \<and> length ?buf = ?l + j \<and> drop ?l ?buf = replicate j (of_nat j)"
      using k by (intro exI [of _ k]) simp
  qed
  ultimately show ?thesis using c(2) k by auto
qed

end
