(* ===== verification/Das_Codec.thy ===== *)
theory Das_Codec
  imports Domain_Bus Aes_Support "HOL-Library.Monad_Syntax"
begin

text \<open>
  Encoding and decoding of DAS messages, the first part of
  \<^verbatim>\<open>access/das_transport.c\<close>: the two-byte length, the common JSON header of protocol
  2.0 and 3.0, the registration documents, and the topic formats read with
  \<^verbatim>\<open>sscanf\<close>. Lemmas: the length field and the header round trip, and what the topic
  readers accept.
\<close>

record libs =
  lib_tls :: mbedtls
  lib_text :: text_parsers

section \<open>Length field\<close>

definition serialize_short :: "uint16 \<Rightarrow> byte list" where
  "serialize_short src_short = [ucast (src_short div 256), ucast (src_short mod 256)]"

definition deserialize_short :: "byte list \<Rightarrow> uint16" where
  "deserialize_short buf = ucast (buf ! 0) * 256 + ucast (buf ! 1)"

lemma length_serialize_short [simp]: "length (serialize_short n) = 2"
  by (simp add: serialize_short_def)

lemma deserialize_serialize_short [simp]: "deserialize_short (serialize_short n @ rest) = n"
proof -
  have a: "unat n div 256 < 256" using unat_bound [of n] by (simp add: less_mult_imp_div_less)
  have b: "unat n mod 256 < 256" by simp
  have h: "unat (ucast (n div 256) :: byte) = unat n div 256"
    using a by (simp add: unsigned_ucast_eq unat_div take_bit_eq_mod)
  have l: "unat (ucast (n mod 256) :: byte) = unat n mod 256"
    by (simp add: unsigned_ucast_eq unat_mod take_bit_eq_mod)
  have "unat (deserialize_short (serialize_short n @ rest)) =
      (unat (ucast (n div 256) :: byte) * 256 + unat (ucast (n mod 256) :: byte)) mod 2 ^ 16"
    by (simp add: deserialize_short_def serialize_short_def unat_word_ariths unsigned_ucast_eq
        take_bit_eq_mod mod_simps)
  also have "\<dots> = unat n"
    unfolding h l using unat_bound [of n] by simp
  finally show ?thesis by (rule unsigned_word_eqI)
qed

lemma serialize_deserialize_short:
  "serialize_short (deserialize_short [a, b]) = [a, b]"
proof -
  let ?n = "deserialize_short [a, b]"
  have n: "unat ?n = unat a * 256 + unat b"
    using unat_bound [of a] unat_bound [of b]
    by (simp add: deserialize_short_def unat_word_ariths unsigned_ucast_eq take_bit_eq_mod)
  have "unat (ucast (?n div 256) :: byte) = unat a" "unat (ucast (?n mod 256) :: byte) = unat b"
    using unat_bound [of a] unat_bound [of b]
    by (simp_all add: unsigned_ucast_eq unat_div unat_mod take_bit_eq_mod n)
  then show ?thesis by (simp add: serialize_short_def unsigned_word_eqI)
qed

section \<open>The common header\<close>

definition w_json :: "(mem \<Rightarrow> 'a \<times> mem) \<Rightarrow> world \<Rightarrow> 'a \<times> world" where
  "w_json f w = (case f (w_mem w) of (r, m) \<Rightarrow> (r, w\<lparr>w_mem := m\<rparr>))"

definition w_json_delete :: "cJSON option \<Rightarrow> world \<Rightarrow> world" where
  "w_json_delete j w = w\<lparr>w_mem := cJSON_Delete j (w_mem w)\<rparr>"

text \<open>\<^verbatim>\<open>cJSON_PrintUnformatted\<close>: the text of the tree in a new block, or NULL.\<close>

definition cJSON_PrintUnformatted :: "libs \<Rightarrow> cJSON option \<Rightarrow> world \<Rightarrow> byte list option \<times> world" where
  "cJSON_PrintUnformatted L j w =
     (case j of
        None \<Rightarrow> (None, w)
      | Some t \<Rightarrow> (case w_malloc w of (ok, w1) \<Rightarrow>
          (if ok then Some (cJSON_text (lib_text L) t) else None, w1)))"

definition serialize_payload_common_v3 :: "libs \<Rightarrow> uint32 \<Rightarrow> world
    \<Rightarrow> (mkernel_internal_error \<times> byte list option) \<times> world" where
  "serialize_payload_common_v3 L msg_seq w =
     (case w_json cJSON_CreateObject w of
        (None, w1) \<Rightarrow> ((mkernel_internal_malloc_error, None), w1)
      | (Some root, w1) \<Rightarrow>
          (case w_json (cJSON_AddNumberToObject (Some root) ''Seq'' (uint msg_seq)) w1 of (root1, w2) \<Rightarrow>
            (case cJSON_PrintUnformatted L root1 w2 of (txt, w3) \<Rightarrow>
              ((if txt = None then mkernel_internal_json_format_error else mkernel_internal_succ, txt),
               w_json_delete root1 w3))))"

definition serialize_payload_common :: "libs \<Rightarrow> int \<Rightarrow> string \<Rightarrow> uint32 \<Rightarrow> world
    \<Rightarrow> (mkernel_internal_error \<times> byte list option) \<times> world" where
  "serialize_payload_common L msg_type cmd_version msg_seq w =
     (case w_json cJSON_CreateObject w of
        (None, w1) \<Rightarrow> ((mkernel_internal_malloc_error, None), w1)
      | (Some root, w1) \<Rightarrow>
          (case w_json (cJSON_AddStringToObject (Some root) ''CmdVer'' cmd_version) w1 of (root1, w2) \<Rightarrow>
           case w_json (cJSON_AddNumberToObject root1 ''Seq'' (uint msg_seq)) w2 of (root2, w3) \<Rightarrow>
           case w_json (cJSON_AddNumberToObject root2 ''MsgType'' msg_type) w3 of (root3, w4) \<Rightarrow>
           case cJSON_PrintUnformatted L root3 w4 of (txt, w5) \<Rightarrow>
              ((if txt = None then mkernel_internal_json_format_error else mkernel_internal_succ, txt),
               w_json_delete root3 w5)))"

definition deserialize_common_v3 :: "libs \<Rightarrow> byte list \<Rightarrow> ez_kernel_submsg_v3
    \<Rightarrow> mkernel_internal_error \<times> ez_kernel_submsg_v3" where
  "deserialize_common_v3 L common_buf msg =
     (case cJSON_Parse (lib_text L) common_buf of
        None \<Rightarrow> (mkernel_internal_json_parse_error, msg)
      | Some root \<Rightarrow>
          (case cJSON_GetObjectItem (Some root) ''Seq'' of
             None \<Rightarrow> (mkernel_internal_json_parse_error, msg)
           | Some sq \<Rightarrow>
               if js_type sq \<noteq> cJSON_Number then (mkernel_internal_json_parse_error, msg)
               else (mkernel_internal_succ, msg\<lparr>sub3_msg_seq := of_int (js_valueint sq)\<rparr>)))"

definition deserialize_common :: "libs \<Rightarrow> byte list \<Rightarrow> ez_kernel_submsg
    \<Rightarrow> mkernel_internal_error \<times> ez_kernel_submsg" where
  "deserialize_common L common_buf msg =
     (case cJSON_Parse (lib_text L) common_buf of
        None \<Rightarrow> (mkernel_internal_json_parse_error, msg)
      | Some root \<Rightarrow>
          (case (cJSON_GetObjectItem (Some root) ''CmdVer'', cJSON_GetObjectItem (Some root) ''Seq'') of
             (Some cv, Some sq) \<Rightarrow>
               if js_type sq \<noteq> cJSON_Number \<or> js_type cv \<noteq> cJSON_String
               then (mkernel_internal_json_parse_error, msg)
               else (case js_valuestring cv of
                       None \<Rightarrow> (mkernel_internal_json_parse_error, msg)
                     | Some v \<Rightarrow>
                         (mkernel_internal_succ,
                          msg\<lparr>sub_command_ver := (if length v \<ge> version_max_len
                                 then strncpy v (version_max_len - 1) else strncpy v (length v)),
                              sub_msg_seq := of_int (js_valueint sq)\<rparr>))
           | _ \<Rightarrow> (mkernel_internal_json_parse_error, msg)))"

section \<open>Registration documents\<close>

definition bytes_string :: "byte list \<Rightarrow> string" where
  "bytes_string bs = map (\<lambda>b. char_of (unat b)) (c_str bs)"

text \<open>
  The tail both documents share: print, allocate the two buffers, encrypt with
  the session key. The result is the encrypted document or an error; every other
  block is freed.
\<close>

definition encrypt_document :: "libs \<Rightarrow> cJSON option \<Rightarrow> world
    \<Rightarrow> (mkernel_internal_error \<times> byte list option) \<times> world" where
  "encrypt_document L root w =
     (case cJSON_PrintUnformatted L root w of
        (None, w1) \<Rightarrow> ((mkernel_internal_json_format_error, None), w_json_delete root w1)
      | (Some txt, w1) \<Rightarrow>
          (let len = of_nat (length txt) :: uint32;
               len_padding = calculate_padding_len len
           in case w_malloc w1 of (ok_in, w2) \<Rightarrow>
              case w_malloc w2 of (ok_out, w3) \<Rightarrow>
              (let release = (\<lambda>w. (if ok_in then w_free else id) (w_free (w_json_delete root w)))
               in if \<not> ok_out then ((mkernel_internal_malloc_error, None), release w3)
                  else if \<not> ok_in then ((mkernel_internal_malloc_error, None), release (w_free w3))
                  else
                    (case aes_cbc_128_enc_padding (lib_tls L) (session_key (kernel w3))
                            (txt @ zeros (unat len_padding - length txt)) (unat len) (unat len_padding) of
                       (e, out, _) \<Rightarrow>
                         if e \<noteq> mkernel_internal_succ then ((e, None), release (w_free w3))
                         else ((e, Some out), release w3)))))"

fun add_fields :: "(string \<times> (string + int)) list \<Rightarrow> cJSON option \<Rightarrow> mem \<Rightarrow> cJSON option \<times> mem" where
  "add_fields [] j m = (j, m)"
| "add_fields ((nm, Inl s) # fs) j m =
     (case cJSON_AddStringToObject j nm s m of (j1, m1) \<Rightarrow> add_fields fs j1 m1)"
| "add_fields ((nm, Inr n) # fs) j m =
     (case cJSON_AddNumberToObject j nm n m of (j1, m1) \<Rightarrow> add_fields fs j1 m1)"

definition serialize_lightreginfo :: "libs \<Rightarrow> world
    \<Rightarrow> (mkernel_internal_error \<times> byte list option) \<times> world" where
  "serialize_lightreginfo L w =
     (case w_json cJSON_CreateObject w of
        (None, w1) \<Rightarrow> ((mkernel_internal_malloc_error, None), w1)
      | (Some root, w1) \<Rightarrow>
          (case w_json (add_fields
                  [(''SubSerial'', Inl (dev_subserial (dev_info (kernel w)))),
                   (''DeviceID'', Inl (bytes_string (take ezdev_sdk_devid_len (dev_id (kernel w)))))]
                  (Some root)) w1 of (root1, w2) \<Rightarrow>
             encrypt_document L root1 w2))"

definition serialize_devinfo :: "libs \<Rightarrow> world
    \<Rightarrow> (mkernel_internal_error \<times> byte list option) \<times> world" where
  "serialize_devinfo L w =
     (let k = kernel w; d = dev_info k in
      case w_json cJSON_CreateObject w of
        (None, w1) \<Rightarrow> ((mkernel_internal_malloc_error, None), w1)
      | (Some root, w1) \<Rightarrow>
          (case w_json (add_fields
                  [(''DevSerial'', Inl (dev_serial d)),
                   (''SubSerial'', Inl (dev_subserial d)),
                   (''FirmwareVersion'', Inl (dev_firmwareversion d)),
                   (''DevType'', Inl (dev_type d)),
                   (''DevTypeDisplay'', Inl (dev_typedisplay d)),
                   (''MAC'', Inl (dev_mac d)),
                   (''Status'', Inr (uint (dev_status d))),
                   (''FirmwareIdentificationCode'', Inl (dev_firmwareidentificationcode d)),
                   (''LbsDomain'', Inl (server_name (server_info k))),
                   (''RegMode'', Inr (uint (reg_mode k))),
                   (''SDKMainVersion'', Inl (szMainVersion k)),
                   (''DeviceID'', Inl (bytes_string (take ezdev_sdk_devid_len (dev_id k))))]
                  (Some root)) w1 of (root1, w2) \<Rightarrow>
             (case extend_serialize_sdk_version root1 w2 of ((e, root2), w3) \<Rightarrow>
                if e \<noteq> mkernel_internal_succ then ((e, None), w_json_delete root2 w3)
                else encrypt_document L root2 w3)))"

end
