(* ===== verification/Das_Topic.thy ===== *)
theory Das_Topic
  imports Kernel_State "HOL-Library.Monad_Syntax" "HOL-Library.Sublist"
begin

text \<open>
  The MQTT topics of \<^verbatim>\<open>access/das_transport.c\<close>: the \<^verbatim>\<open>sscanf\<close> patterns the receivers use,
  \<^verbatim>\<open>ezdev_parse_topic\<close>, and the topics the senders print. The lemmas show that the
  readers recover the fields of a printed topic.
\<close>

section \<open>The conversions of sscanf\<close>

definition scan_lit :: "string \<Rightarrow> string \<Rightarrow> string option" where
  "scan_lit p s = (if take (length p) s = p then Some (drop (length p) s) else None)"

text \<open>\<^verbatim>\<open>%n[^c]\<close>: one to \<^verbatim>\<open>n\<close> characters other than \<^verbatim>\<open>c\<close>.\<close>

definition scan_set :: "nat \<Rightarrow> char \<Rightarrow> string \<Rightarrow> (string \<times> string) option" where
  "scan_set n c s = (let t = takeWhile (\<lambda>x. x \<noteq> c) (take n s)
     in if t = [] then None else Some (t, drop (length t) s))"

definition scan_word :: "string \<Rightarrow> (string \<times> string) option" where
  "scan_word s = (let s1 = dropWhile is_space s; t = takeWhile (\<lambda>x. \<not> is_space x) s1
     in if t = [] then None else Some (t, drop (length t) s1))"

definition scan_d :: "string \<Rightarrow> (int \<times> string) option" where
  "scan_d s =
     (let s1 = dropWhile is_space s;
          neg = (s1 \<noteq> [] \<and> hd s1 = CHR ''-'');
          s2 = (if s1 \<noteq> [] \<and> (hd s1 = CHR ''-'' \<or> hd s1 = CHR ''+'') then tl s1 else s1);
          t = takeWhile is_digit s2
      in if t = [] then None
         else Some ((if neg then - int (atoi_digits 0 t) else int (atoi_digits 0 t)), drop (length t) s2))"

lemma scan_lit_append [simp]: "scan_lit p (p @ r) = Some r"
  by (simp add: scan_lit_def)

lemma scan_lit_Cons [simp]: "scan_lit [c] (c # r) = Some r"
  by (simp add: scan_lit_def)

lemma scan_set_ok:
  assumes "c \<notin> set t" and "t \<noteq> []" and "length t \<le> n"
  shows "scan_set n c (t @ c # r) = Some (t, c # r)"
proof -
  have "takeWhile (\<lambda>x. x \<noteq> c) (take n (t @ c # r)) = t"
  proof (cases "length t = n")
    case True
    have "takeWhile (\<lambda>x. x \<noteq> c) t = t" using assms(1) by (auto intro: takeWhile_eq_all_conv [THEN iffD2])
    with True show ?thesis by simp
  next
    case False
    then obtain k where "n - length t = Suc k" using assms(3) by (cases "n - length t") auto
    then have "take n (t @ c # r) = t @ c # take k r" using assms(3) by simp
    moreover have "takeWhile (\<lambda>x. x \<noteq> c) (t @ c # s) = t" for s
      using assms(1) by (induction t) auto
    ultimately show ?thesis by simp
  qed
  with assms show ?thesis by (simp add: scan_set_def)
qed

lemma scan_set_bound: "scan_set n c s = Some (t, r) \<Longrightarrow> length t \<le> n \<and> t \<noteq> [] \<and> c \<notin> set t"
  unfolding scan_set_def Let_def
  by (auto split: if_splits dest: set_takeWhileD intro: le_trans [OF length_takeWhile_le])

lemma scan_word_ok: "t \<noteq> [] \<Longrightarrow> \<forall>x \<in> set t. \<not> is_space x \<Longrightarrow> scan_word t = Some (t, [])"
proof -
  assume t: "t \<noteq> []" "\<forall>x \<in> set t. \<not> is_space x"
  then have d: "dropWhile is_space t = t" by (cases t) auto
  from t have tw: "takeWhile (\<lambda>x. \<not> is_space x) t = t" by (simp only: takeWhile_eq_all_conv)
  show ?thesis unfolding scan_word_def Let_def d tw using t(1) by simp
qed

lemma scan_d_dec:
  assumes "r = [] \<or> \<not> is_digit (hd r)"
  shows "scan_d (dec_nat n @ r) = Some (int n, r)"
proof -
  obtain c cs where c: "dec_nat n = c # cs" "is_digit c"
    using dec_nat_digits [of n] by (cases "dec_nat n") auto
  have tw: "takeWhile is_digit (dec_nat n @ r) = dec_nat n"
    using dec_nat_digits [of n] assms
    by (subst takeWhile_append2) (auto simp: list_all_iff, cases r, auto)
  from is_digit_not_sign [OF c(2)] have "dropWhile is_space (dec_nat n @ r) = dec_nat n @ r"
    "hd (dec_nat n @ r) \<noteq> CHR ''-''" "hd (dec_nat n @ r) \<noteq> CHR ''+''" "dec_nat n @ r \<noteq> []"
    using c(1) by simp_all
  then show ?thesis
    unfolding scan_d_def Let_def using tw dec_nat_digits [of n] by (simp add: atoi_digits_dec_nat)
qed

section \<open>Topic readers\<close>

text \<open>\<^verbatim>\<open>"/%72[^/]/%d/%d"\<close> (\<^verbatim>\<open>%16\<close> in \<^verbatim>\<open>das_message_receive_ex\<close>): serial, domain, command.\<close>

definition read_topic_v2 :: "nat \<Rightarrow> string \<Rightarrow> (string \<times> int \<times> int) option" where
  "read_topic_v2 n s0 = do {
     s1 \<leftarrow> scan_lit ''/'' s0;
     (serial, s2) \<leftarrow> scan_set n (CHR ''/'') s1;
     s3 \<leftarrow> scan_lit ''/'' s2;
     (did, s4) \<leftarrow> scan_d s3;
     s5 \<leftarrow> scan_lit ''/'' s4;
     (cmd, s6) \<leftarrow> scan_d s5;
     Some (serial, did, cmd)}"

text \<open>The part both 3.0 patterns share: serial, sub-serial, resource id and type.\<close>

definition read_topic_iot :: "string \<Rightarrow> ((string \<times> string \<times> string \<times> string) \<times> string) option" where
  "read_topic_iot s0 = do {
     s1 \<leftarrow> scan_lit ''/iot/'' s0;
     (serial, s2) \<leftarrow> scan_set 72 (CHR ''/'') s1;
     s3 \<leftarrow> scan_lit ''/'' s2;
     (sub, s4) \<leftarrow> scan_set 72 (CHR ''/'') s3;
     s5 \<leftarrow> scan_lit ''/'' s4;
     (rid, s6) \<leftarrow> scan_set 64 (CHR ''-'') s5;
     s7 \<leftarrow> scan_lit ''-'' s6;
     (rtype, s8) \<leftarrow> scan_set 64 (CHR ''/'') s7;
     Some ((serial, sub, rid, rtype), s8)}"

definition scan_topic_v3 :: "string \<Rightarrow> ((string \<times> string \<times> string \<times> string) \<times> string) option" where
  "scan_topic_v3 s0 = do {
     (f, s8) \<leftarrow> read_topic_iot s0;
     s9 \<leftarrow> scan_lit ''/'' s8;
     (md, s10) \<leftarrow> scan_set 16 (CHR ''/'') s9;
     Some (f, md)}"

definition read_topic_model :: "string
    \<Rightarrow> ((string \<times> string \<times> string \<times> string) \<times> string \<times> string \<times> string) option" where
  "read_topic_model s0 = do {
     (f, s8) \<leftarrow> read_topic_iot s0;
     s9 \<leftarrow> scan_lit ''/model/'' s8;
     (mt, s10) \<leftarrow> scan_set 64 (CHR ''/'') s9;
     s11 \<leftarrow> scan_lit ''/'' s10;
     (ty, s12) \<leftarrow> scan_set 32 (CHR ''/'') s11;
     s13 \<leftarrow> scan_lit ''/'' s12;
     (ext, s14) \<leftarrow> scan_word s13;
     Some (f, mt, ty, ext)}"

section \<open>ezdev\_parse\_topic\<close>

fun strstr :: "string \<Rightarrow> string \<Rightarrow> string option" where
  "strstr [] p = (if p = [] then Some [] else None)"
| "strstr (c # cs) p = (if take (length p) (c # cs) = p then Some (c # cs) else strstr cs p)"

text \<open>\<^verbatim>\<open>strrchr\<close>: the index of the last occurrence.\<close>

definition strrchr :: "string \<Rightarrow> char \<Rightarrow> nat option" where
  "strrchr s c = map_option (\<lambda>i. length s - 1 - i) (first_index (\<lambda>x. x = c) (rev s))"

text \<open>
  The method is what stands between the search string and the last slash, the
  message type what follows. \<^verbatim>\<open>Inl\<close> is the error.
\<close>

definition ezdev_parse_topic :: "string \<Rightarrow> string \<Rightarrow> mkernel_internal_error + (string \<times> string)" where
  "ezdev_parse_topic topic find_str =
     (case strstr topic find_str of
        None \<Rightarrow> Inl mkernel_internal_platform_appoint_error
      | Some p1 \<Rightarrow>
          (case strrchr p1 (CHR ''/'') of
             None \<Rightarrow> Inl mkernel_internal_platform_appoint_error
           | Some i2 \<Rightarrow>
               let temp_len = int i2 - int (length find_str) in
               if temp_len \<le> 0 \<or> temp_len > int ezdev_sdk_method_len
               then Inl mkernel_internal_platform_appoint_error
               else Inr (strncpy (drop (length find_str) p1) (nat temp_len),
                         strncpy (drop (Suc i2) p1) (ezdev_sdk_msg_type_len - 1))))"

section \<open>The message a topic fills in\<close>

text \<open>Method, message type and extension: by pattern for module \<^verbatim>\<open>model\<close>, else by search.\<close>

definition topic_rest_v3 :: "string \<Rightarrow> string \<Rightarrow> mkernel_internal_error + (string \<times> string \<times> string)" where
  "topic_rest_v3 topic md =
     (if md = ''model''
      then (case read_topic_model topic of
              None \<Rightarrow> Inl mkernel_internal_platform_appoint_error
            | Some (_, mt, ty, ext) \<Rightarrow> Inr (mt, ty, ext))
      else (case ezdev_parse_topic topic (take 31 (md @ ''/'')) of
              Inl e \<Rightarrow> Inl e
            | Inr (mt, ty) \<Rightarrow> Inr (mt, ty, [])))"

text \<open>
  The widths in the patterns equal the sizes of the fields, so a value of full width
  puts its NUL behind the field.
\<close>

definition topic_fault_v3 :: "string \<times> string \<times> string \<times> string \<Rightarrow> string \<Rightarrow> bool" where
  "topic_fault_v3 f md =
     (case f of (serial, sub, rid, rtype) \<Rightarrow>
        length serial \<ge> ezdev_sdk_devserial_maxlen \<or> length sub \<ge> ezdev_sdk_max_serial_len \<or>
        length rid \<ge> ezdev_sdk_resource_id_len \<or> length rtype \<ge> ezdev_sdk_resource_type_len \<or>
        length md \<ge> ezdev_sdk_module_name_len)"

text \<open>
  A field of \<^verbatim>\<open>n\<close> characters read as a string: one that is full has lost its NUL to the
  field behind it, and the string runs on into that field.
\<close>

definition run_on :: "nat \<Rightarrow> string \<Rightarrow> string \<Rightarrow> string" where
  "run_on n s follow = (if length s < n then s else s @ follow)"

text \<open>
  The strings of the message, in the order of the fields of \<^verbatim>\<open>ez_kernel_submsg_v3_t\<close>:
  resource id, resource type, module, method, message type; sub-serial, extension. For
  module \<^verbatim>\<open>model\<close> the second \<^verbatim>\<open>sscanf\<close> writes the resource type again and not the module,
  so the NUL of a full resource type ends the module before its first character.
\<close>

definition topic_msg_v3 :: "string \<times> string \<times> string \<times> string \<Rightarrow> string \<Rightarrow> string \<times> string \<times> string
    \<Rightarrow> ez_kernel_submsg_v3" where
  "topic_msg_v3 f md r =
     (case (f, r) of ((serial, sub, rid, rtype), (mt, ty, ext)) \<Rightarrow>
        let method = run_on ezdev_sdk_method_len mt ty;
            module = (if md = ''model'' \<and> length rtype \<ge> ezdev_sdk_resource_type_len then []
                      else run_on ezdev_sdk_module_name_len md method);
            resource_type = run_on ezdev_sdk_resource_type_len rtype module
        in \<lparr>sub3_buf = None, sub3_msg_seq = 0, sub3_buf_len = 0,
            sub3_resource_id = run_on ezdev_sdk_resource_id_len rid resource_type,
            sub3_resource_type = resource_type, sub3_module = module, sub3_method = method,
            sub3_msg_type = ty, sub3_sub_serial = run_on ezdev_sdk_max_serial_len sub ext,
            sub3_ext_msg = ext\<rparr>)"

text \<open>The topic into the message, and whether memory behind a field was written.\<close>

definition read_topic_v3 :: "string \<Rightarrow> bool \<times> ez_kernel_submsg_v3 option" where
  "read_topic_v3 topic =
     (case scan_topic_v3 topic of
        None \<Rightarrow> (False, None)
      | Some (f, md) \<Rightarrow>
          (case topic_rest_v3 topic md of
             Inl e \<Rightarrow> (topic_fault_v3 f md, None)
           | Inr (mt, ty, ext) \<Rightarrow>
               (topic_fault_v3 f md \<or> length mt \<ge> ezdev_sdk_method_len \<or> length ext \<ge> ezdev_sdk_ext_msg_len,
                Some (topic_msg_v3 f md (mt, ty, ext)))))"

section \<open>Printed topics\<close>

definition publish_topic_v2 :: "uint32 \<Rightarrow> uint32 \<Rightarrow> string" where
  "publish_topic_v2 did cmd =
     take 127 (''/'' @ dec_int (sint did) @ ''/'' @ dec_int (sint cmd))"

definition publish_topic_v3 :: "string \<Rightarrow> ez_kernel_pubmsg_v3 \<Rightarrow> string" where
  "publish_topic_v3 subserial p =
     (let dev_serial = strncpy subserial (ezdev_sdk_devserial_maxlen - 1);
          dev_subserial = (if length (pub3_sub_serial p) > 0
            then strncpy (pub3_sub_serial p) (ezdev_sdk_devserial_maxlen - 1) else ''global'')
      in take 511
        (if pub3_module p = ''model''
         then ''/iot/'' @ dev_serial @ ''/'' @ dev_subserial @ ''/'' @ pub3_resource_id p @ ''-'' @
              pub3_resource_type p @ ''/model/'' @ pub3_method p @ ''/'' @ pub3_msg_type p @ ''/'' @
              pub3_ext_msg p
         else ''/iot/'' @ dev_serial @ ''/'' @ dev_subserial @ ''/'' @ pub3_resource_id p @ ''-'' @
              pub3_resource_type p @ ''/'' @ pub3_module p @ ''/'' @ pub3_method p @ ''/'' @
              pub3_msg_type p))"

section \<open>Reading what was printed\<close>

text \<open>A topic segment: not empty, at most \<^verbatim>\<open>n\<close> long, without the separator.\<close>

definition seg :: "nat \<Rightarrow> char \<Rightarrow> string \<Rightarrow> bool" where
  "seg n c s \<longleftrightarrow> s \<noteq> [] \<and> length s \<le> n \<and> c \<notin> set s"

lemma scan_seg: "seg n c t \<Longrightarrow> scan_set n c (t @ c # r) = Some (t, c # r)"
  by (simp add: seg_def scan_set_ok)

lemma read_topic_v2_ok:
  assumes "seg n (CHR ''/'') serial"
  shows "read_topic_v2 n (''/'' @ serial @ ''/'' @ dec_nat d @ ''/'' @ dec_nat c) =
    Some (serial, int d, int c)"
proof -
  have "scan_d (dec_nat d @ CHR ''/'' # dec_nat c) = Some (int d, CHR ''/'' # dec_nat c)"
    by (rule scan_d_dec) (simp add: is_digit_def)
  moreover have "scan_d (dec_nat c) = Some (int c, [])"
    using scan_d_dec [of "[]" c] by simp
  ultimately show ?thesis
    using scan_seg [OF assms] by (simp add: read_topic_v2_def)
qed

lemma read_topic_iot_ok:
  assumes "seg 72 (CHR ''/'') serial" "seg 72 (CHR ''/'') sub" "seg 64 (CHR ''-'') rid"
    "seg 64 (CHR ''/'') rtype"
  shows "read_topic_iot (''/iot/'' @ serial @ ''/'' @ sub @ ''/'' @ rid @ ''-'' @ rtype @ CHR ''/'' # r) =
    Some ((serial, sub, rid, rtype), CHR ''/'' # r)"
proof -
  have "scan_lit ''/iot/'' (''/iot/'' @ x) = Some x" for x by (rule scan_lit_append)
  then show ?thesis
    using assms [THEN scan_seg] by (simp add: read_topic_iot_def)
qed

lemma read_topic_model_ok:
  assumes "seg 72 (CHR ''/'') serial" "seg 72 (CHR ''/'') sub" "seg 64 (CHR ''-'') rid"
    "seg 64 (CHR ''/'') rtype" "seg 64 (CHR ''/'') mt" "seg 32 (CHR ''/'') ty"
    "ext \<noteq> []" "\<forall>x \<in> set ext. \<not> is_space x"
  shows "read_topic_model (''/iot/'' @ serial @ ''/'' @ sub @ ''/'' @ rid @ ''-'' @ rtype @ ''/model/'' @
      mt @ ''/'' @ ty @ ''/'' @ ext) = Some ((serial, sub, rid, rtype), mt, ty, ext)"
proof -
  have i: "read_topic_iot (''/iot/'' @ serial @ ''/'' @ sub @ ''/'' @ rid @ ''-'' @ rtype @ ''/model/'' @
      mt @ ''/'' @ ty @ ''/'' @ ext) =
    Some ((serial, sub, rid, rtype), ''/model/'' @ mt @ ''/'' @ ty @ ''/'' @ ext)"
    using read_topic_iot_ok [OF assms(1-4), of "''model/'' @ mt @ ''/'' @ ty @ ''/'' @ ext"] by simp
  have m: "scan_lit ''/model/'' (''/model/'' @ x) = Some x" for x by (rule scan_lit_append)
  show ?thesis
    unfolding read_topic_model_def i
    using m [of "mt @ ''/'' @ ty @ ''/'' @ ext"] assms(5,6) [THEN scan_seg] scan_word_ok [OF assms(7,8)]
    by simp
qed

lemma scan_topic_v3_ok:
  assumes "seg 72 (CHR ''/'') serial" "seg 72 (CHR ''/'') sub" "seg 64 (CHR ''-'') rid"
    "seg 64 (CHR ''/'') rtype" "seg 16 (CHR ''/'') md"
  shows "scan_topic_v3 (''/iot/'' @ serial @ ''/'' @ sub @ ''/'' @ rid @ ''-'' @ rtype @ ''/'' @ md @ CHR ''/'' # r) =
    Some ((serial, sub, rid, rtype), md)"
  using read_topic_iot_ok [OF assms(1-4), of "md @ CHR ''/'' # r"] scan_seg [OF assms(5)]
  by (simp add: scan_topic_v3_def)

text \<open>The reader of the method and message type, on the part of the topic it looks at.\<close>

lemma strrchr_last:
  "c \<notin> set t \<Longrightarrow> strrchr (s @ c # t) c = Some (length s)"
proof -
  assume c: "c \<notin> set t"
  have "first_index (\<lambda>x. x = c) (rev t @ c # rev s) = Some (length (rev t))"
    using c by (intro first_index_iff [THEN iffD2]) (auto simp: nth_append, metis nth_mem set_rev length_rev)
  then show ?thesis by (simp add: strrchr_def)
qed

lemma ezdev_parse_topic_ok:
  assumes "strstr topic (md @ ''/'') = Some (md @ ''/'' @ mt @ ''/'' @ ty)"
    and "mt \<noteq> []" and "length mt \<le> ezdev_sdk_method_len" and "CHR ''/'' \<notin> set ty"
    and "length ty < ezdev_sdk_msg_type_len"
  shows "ezdev_parse_topic topic (md @ ''/'') = Inr (mt, ty)"
proof -
  have "strrchr (md @ ''/'' @ mt @ ''/'' @ ty) (CHR ''/'') = Some (length (md @ ''/'' @ mt))"
    using strrchr_last [OF assms(4), of "md @ ''/'' @ mt"] by simp
  then show ?thesis
    using assms by (simp add: ezdev_parse_topic_def Let_def strncpy_def)
qed

text \<open>
  The search string is the module and a slash. It is found where the topic has the module,
  unless an earlier segment ends with the module's name.
\<close>

lemma strstr_segment:
  assumes "c \<notin> set x" and "c \<notin> set md" and "\<not> suffix md x"
  shows "strstr (x @ c # r) (md @ [c]) = strstr r (md @ [c])"
  using assms(1,3)
proof (induction x)
  case Nil
  then have "md \<noteq> []" by auto
  with assms(2) have "take (length (md @ [c])) (c # r) \<noteq> md @ [c]" by (cases md) auto
  then show ?case by simp
next
  case (Cons d x)
  have "\<not> prefix (md @ [c]) (d # x @ c # r)"
  proof
    assume "prefix (md @ [c]) (d # x @ c # r)"
    then obtain t where "md @ c # t = (d # x) @ c # r" by (auto simp: prefix_def)
    then have "takeWhile (\<lambda>y. y \<noteq> c) (md @ c # t) = takeWhile (\<lambda>y. y \<noteq> c) ((d # x) @ c # r)" by simp
    moreover have "takeWhile (\<lambda>y. y \<noteq> c) (z @ c # q) = z" if "c \<notin> set z" for z q
      using that by (induction z) auto
    ultimately have "md = d # x" using assms(2) Cons.prems(1) by metis
    with Cons.prems(2) show False by simp
  qed
  moreover have "take (length p) z = p \<longleftrightarrow> prefix p z" for p z :: string
    by (metis append_eq_conv_conj prefix_def take_is_prefix)
  moreover have "\<not> suffix md x" using Cons.prems(2) by (auto simp: suffix_def)
  ultimately have "take (length (md @ [c])) (d # x @ c # r) \<noteq> md @ [c]"
    and "strstr (x @ c # r) (md @ [c]) = strstr r (md @ [c])"
    using Cons.IH Cons.prems(1) by (simp_all only: list.set insert_iff de_Morgan_disj not_False_eq_True)
  then show ?case unfolding append_Cons strstr.simps by (simp only: if_False)
qed

lemma strstr_here: "strstr (p @ r) p = Some (p @ r)"
proof -
  have "take (length p) (p @ r) = p" by simp
  then show ?thesis by (cases "p @ r") (simp_all del: append_is_Nil_conv append_eq_Cons_conv)
qed

lemma strstr_module:
  assumes "CHR ''/'' \<notin> set serial" "CHR ''/'' \<notin> set sub" "CHR ''/'' \<notin> set res" "CHR ''/'' \<notin> set md"
    and "list_all (\<lambda>x. \<not> suffix md x) ['''', ''iot'', serial, sub, res]"
  shows "strstr (''/iot/'' @ serial @ ''/'' @ sub @ ''/'' @ res @ ''/'' @ md @ ''/'' @ r) (md @ ''/'') =
    Some (md @ ''/'' @ r)"
proof -
  let ?f = "md @ ''/''"
  have "strstr ('''' @ CHR ''/'' # ''iot'' @ CHR ''/'' # x) ?f = strstr x ?f" for x
    using strstr_segment [of "CHR ''/''" "''''" md] strstr_segment [of "CHR ''/''" "''iot''" md] assms(4,5) by simp
  then show ?thesis
    using strstr_segment [OF assms(1,4)] strstr_segment [OF assms(2,4)] strstr_segment [OF assms(3,4)] assms(5)
      strstr_here [of ?f r] by simp
qed

text \<open>
  The messages whose topic is read back: every field shorter than the receiver's field,
  without the separator behind it, and a topic that is not cut.
\<close>

definition printed_sub :: "ez_kernel_pubmsg_v3 \<Rightarrow> string" where
  "printed_sub p = (if pub3_sub_serial p = [] then ''global'' else pub3_sub_serial p)"

definition topic_ok :: "string \<Rightarrow> ez_kernel_pubmsg_v3 \<Rightarrow> bool" where
  "topic_ok serial p \<longleftrightarrow>
     seg 71 (CHR ''/'') serial \<and> seg 71 (CHR ''/'') (printed_sub p) \<and> seg 63 (CHR ''-'') (pub3_resource_id p) \<and>
     seg 63 (CHR ''/'') (pub3_resource_type p) \<and> seg 15 (CHR ''/'') (pub3_module p) \<and>
     length (publish_topic_v3 serial p) < 511 \<and>
     (if pub3_module p = ''model''
      then seg 64 (CHR ''/'') (pub3_method p) \<and> seg 32 (CHR ''/'') (pub3_msg_type p) \<and> pub3_ext_msg p \<noteq> [] \<and>
        list_all (\<lambda>x. \<not> is_space x) (pub3_ext_msg p) \<and> length (pub3_ext_msg p) < ezdev_sdk_ext_msg_len
      else pub3_method p \<noteq> [] \<and> length (pub3_method p) < ezdev_sdk_method_len \<and>
        CHR ''/'' \<notin> set (pub3_msg_type p) \<and> length (pub3_msg_type p) < ezdev_sdk_msg_type_len \<and>
        CHR ''/'' \<notin> set (pub3_resource_id p) \<and>
        list_all (\<lambda>x. \<not> suffix (pub3_module p) x)
          ['''', ''iot'', serial, printed_sub p, pub3_resource_id p @ ''-'' @ pub3_resource_type p])"

definition topic_message :: "ez_kernel_pubmsg_v3 \<Rightarrow> ez_kernel_submsg_v3" where
  "topic_message p =
     \<lparr>sub3_buf = None, sub3_msg_seq = 0, sub3_buf_len = 0, sub3_resource_id = pub3_resource_id p,
      sub3_resource_type = pub3_resource_type p, sub3_module = pub3_module p, sub3_method = pub3_method p,
      sub3_msg_type = pub3_msg_type p, sub3_sub_serial = printed_sub p,
      sub3_ext_msg = (if pub3_module p = ''model'' then pub3_ext_msg p else [])\<rparr>"

lemma publish_topic_v3_eq:
  assumes "topic_ok serial p"
  shows "publish_topic_v3 serial p = ''/iot/'' @ serial @ ''/'' @ printed_sub p @ ''/'' @ pub3_resource_id p @ ''-'' @
    pub3_resource_type p @ ''/'' @ pub3_module p @ ''/'' @ pub3_method p @ ''/'' @ pub3_msg_type p @
    (if pub3_module p = ''model'' then ''/'' @ pub3_ext_msg p else '''')"
proof -
  have "strncpy serial 71 = serial" "strncpy (pub3_sub_serial p) 71 = pub3_sub_serial p"
    using assms by (auto simp: topic_ok_def seg_def printed_sub_def strncpy_def split: if_splits)
  moreover have "length (publish_topic_v3 serial p) < 511" using assms by (simp add: topic_ok_def)
  ultimately show ?thesis by (simp add: publish_topic_v3_def printed_sub_def Let_def)
qed

lemma topic_msg_v3_short:
  assumes "length sub < 72" "length rid < 64" "length rtype < 64" "length md < 16" "length mt < 128"
  shows "topic_msg_v3 (serial, sub, rid, rtype) md (mt, ty, ext) =
    \<lparr>sub3_buf = None, sub3_msg_seq = 0, sub3_buf_len = 0, sub3_resource_id = rid, sub3_resource_type = rtype,
     sub3_module = md, sub3_method = mt, sub3_msg_type = ty, sub3_sub_serial = sub, sub3_ext_msg = ext\<rparr>"
  using assms by (simp add: topic_msg_v3_def run_on_def)

lemma topic_rest_printed:
  assumes "topic_ok serial p"
  shows "topic_rest_v3 (publish_topic_v3 serial p) (pub3_module p) =
    Inr (pub3_method p, pub3_msg_type p, if pub3_module p = ''model'' then pub3_ext_msg p else [])"
proof (cases "pub3_module p = ''model''")
  case True
  then have "read_topic_model (publish_topic_v3 serial p) =
      Some ((serial, printed_sub p, pub3_resource_id p, pub3_resource_type p), pub3_method p, pub3_msg_type p, pub3_ext_msg p)"
    using read_topic_model_ok [of serial "printed_sub p" "pub3_resource_id p" "pub3_resource_type p" "pub3_method p"
        "pub3_msg_type p" "pub3_ext_msg p"] assms publish_topic_v3_eq [OF assms]
    by (simp add: topic_ok_def seg_def list_all_iff)
  with True show ?thesis by (simp add: topic_rest_v3_def)
next
  case False
  let ?res = "pub3_resource_id p @ ''-'' @ pub3_resource_type p"
  have "strstr (publish_topic_v3 serial p) (pub3_module p @ ''/'') =
      Some (pub3_module p @ ''/'' @ pub3_method p @ ''/'' @ pub3_msg_type p)"
    using strstr_module [of serial "printed_sub p" ?res "pub3_module p" "pub3_method p @ ''/'' @ pub3_msg_type p"]
      assms False publish_topic_v3_eq [OF assms] by (auto simp: topic_ok_def seg_def)
  from ezdev_parse_topic_ok [OF this] have "ezdev_parse_topic (publish_topic_v3 serial p) (pub3_module p @ ''/'') =
      Inr (pub3_method p, pub3_msg_type p)" using assms False by (simp add: topic_ok_def)
  moreover have "length (pub3_module p) \<le> 15" using assms by (simp add: topic_ok_def seg_def)
  ultimately show ?thesis using False by (simp add: topic_rest_v3_def)
qed

lemma read_topic_printed:
  assumes "topic_ok serial p"
  shows "read_topic_v3 (publish_topic_v3 serial p) = (False, Some (topic_message p))"
proof -
  let ?f = "(serial, printed_sub p, pub3_resource_id p, pub3_resource_type p)"
  have k: "seg 72 (CHR ''/'') serial" "seg 72 (CHR ''/'') (printed_sub p)" "seg 64 (CHR ''-'') (pub3_resource_id p)"
    "seg 64 (CHR ''/'') (pub3_resource_type p)" "seg 16 (CHR ''/'') (pub3_module p)"
    using assms by (simp_all add: topic_ok_def seg_def)
  have "scan_topic_v3 (publish_topic_v3 serial p) = Some (?f, pub3_module p)"
    using scan_topic_v3_ok [OF k] publish_topic_v3_eq [OF assms] by simp
  moreover have "\<not> topic_fault_v3 ?f (pub3_module p)"
    using assms by (simp add: topic_ok_def seg_def topic_fault_v3_def)
  moreover have "length (pub3_method p) < ezdev_sdk_method_len"
    "(if pub3_module p = ''model'' then length (pub3_ext_msg p) else 0) < ezdev_sdk_ext_msg_len"
    using assms by (simp_all add: topic_ok_def seg_def split: if_splits)
  ultimately show ?thesis
    using assms topic_rest_printed [OF assms]
    by (simp add: read_topic_v3_def topic_message_def topic_ok_def seg_def topic_msg_v3_short split: if_splits)
qed

end
