(* ===== verification/Das_Receive.thy ===== *)
theory Das_Receive
  imports Das_Codec Das_Topic
begin

text \<open>
  The receiving half of \<^verbatim>\<open>access/das_transport.c\<close>: the three subscription handlers,
  which read the topic, decrypt the payload, split it into common header and
  body, and queue or handle the message. Lemmas: no block is lost on any branch
  except one, when an access leaves its buffer, and what gets queued.
\<close>

section \<open>Opening a payload\<close>

text \<open>
  Decrypt, read the length of the common header and compare it with the length
  of the plain text. The result is the decrypted buffer, the length of the plain
  text in it and the header length.
\<close>

definition open_payload :: "libs \<Rightarrow> byte list \<Rightarrow> byte list \<Rightarrow> (byte list \<times> nat \<times> uint16) option" where
  "open_payload L key payload =
     (case aes_cbc_128_dec_padding (lib_tls L) key payload of (e, output_buf, output_buf_len) \<Rightarrow>
       if e \<noteq> mkernel_internal_succ then None
       else case output_buf_len of
         None \<Rightarrow> None
       | Some n \<Rightarrow>
           let common_len = deserialize_short (take 2 output_buf)
           in if unat common_len \<ge> n then None else Some (output_buf, n, common_len))"

text \<open>\<^verbatim>\<open>output_buf_len - 2 - common_len\<close> in 32-bit unsigned arithmetic.\<close>

definition body_len :: "nat \<Rightarrow> uint16 \<Rightarrow> uint32" where
  "body_len n common_len = of_nat n - 2 - ucast common_len"

text \<open>
  \<^verbatim>\<open>memmove\<close> of the body to the front and \<^verbatim>\<open>memset\<close> of the bytes behind it; the
  padding bytes at the end of the buffer stay.
\<close>

definition moved_body :: "byte list \<Rightarrow> nat \<Rightarrow> uint16 \<Rightarrow> byte list" where
  "moved_body buf n common_len =
     take (unat (body_len n common_len)) (drop (2 + unat common_len) buf) @
     zeros (2 + unat common_len) @ drop n buf"

definition move_fault :: "byte list \<Rightarrow> nat \<Rightarrow> uint16 \<Rightarrow> bool" where
  "move_fault buf n common_len \<longleftrightarrow>
     2 + unat common_len + unat (body_len n common_len) > length buf"

section \<open>Handing over\<close>

definition handle_sub_msg_v3 :: "ez_kernel_submsg_v3 \<Rightarrow> world \<Rightarrow> world" where
  "handle_sub_msg_v3 msg w =
     (case push_queue_submsg_v3 msg w of (e, w1) \<Rightarrow>
       if e \<noteq> mkernel_internal_succ
       then w_free (if sub3_buf msg \<noteq> None then w_free w1 else w1)
       else w1)"

definition handle_sub_msg :: "libs \<Rightarrow> ez_kernel_submsg \<Rightarrow> world \<Rightarrow> world" where
  "handle_sub_msg L msg w =
     (let delete = (\<lambda>w. w_free (if sub_buf msg \<noteq> None then w_free w else w)) in
      if sub_msg_domain_id msg = DAS_CMD_DOMAIN
      then delete (snd (access_domain_bus_handle (lib_text L) msg w))
      else if sub_msg_domain_id msg = DAS_CMD_COMMON_FUN \<or> sub_msg_command_id msg = DAS_CMD_PU2CENPLTUPGRADERSP
      then w
      else case push_queue_submsg msg w of (e, w1) \<Rightarrow>
        if e \<noteq> mkernel_internal_succ then delete w1 else w1)"

section \<open>The handlers\<close>

text \<open>
  The second part of a handler, from the allocation of the output buffer on: the
  message struct is allocated and its topic fields are set. It ends with the
  struct handed over or freed.
\<close>

definition receive_payload_v3 :: "libs \<Rightarrow> ez_kernel_submsg_v3 \<Rightarrow> byte list \<Rightarrow> world \<Rightarrow> world" where
  "receive_payload_v3 L msg payload w =
     (case w_malloc w of (ok, w1) \<Rightarrow>
      if \<not> ok then w_free w1
      else case open_payload L (session_key (kernel w1)) payload of
        None \<Rightarrow> w_free (w_free w1)
      | Some (buf, n, cl) \<Rightarrow>
        (case deserialize_common_v3 L (drop 2 buf) msg of (e, msg1) \<Rightarrow>
          if e \<noteq> mkernel_internal_succ then w_free (w_free w1)
          else if body_len n cl > 0
          then handle_sub_msg_v3 (msg1\<lparr>sub3_buf := Some (moved_body buf n cl),
                 sub3_buf_len := body_len n cl\<rparr>) (faulty (move_fault buf n cl) w1)
          else case w_malloc w1 of (ok2, w2) \<Rightarrow>
            if \<not> ok2 then w_free (w_free w2)
            else handle_sub_msg_v3 (msg1\<lparr>sub3_buf := Some [0], sub3_buf_len := 1\<rparr>) (w_free w2)))"

definition receive_payload :: "libs \<Rightarrow> ez_kernel_submsg \<Rightarrow> byte list \<Rightarrow> world \<Rightarrow> world" where
  "receive_payload L msg payload w =
     (case w_malloc w of (ok, w1) \<Rightarrow>
      if \<not> ok then w_free w1
      else case open_payload L (session_key (kernel w1)) payload of
        None \<Rightarrow> w_free (w_free w1)
      | Some (buf, n, cl) \<Rightarrow>
        (case deserialize_common L (drop 2 buf) msg of (e, msg1) \<Rightarrow>
          if e \<noteq> mkernel_internal_succ then w_free (w_free w1)
          else if body_len n cl > 0
          then handle_sub_msg L (msg1\<lparr>sub_buf := Some (moved_body buf n cl),
                 sub_buf_len := body_len n cl\<rparr>) (faulty (move_fault buf n cl) w1)
          else case w_malloc w1 of (ok2, w2) \<Rightarrow>
            if \<not> ok2 then w_free (w_free w2)
            else handle_sub_msg L (msg1\<lparr>sub_buf := Some [0], sub_buf_len := 1\<rparr>) (w_free w2)))"

definition das_message_receive_v3 :: "libs \<Rightarrow> string \<Rightarrow> byte list \<Rightarrow> world \<Rightarrow> world" where
  "das_message_receive_v3 L topic payload w =
     (case w_malloc w of (ok, w1) \<Rightarrow>
      if \<not> ok then w1
      else if length topic \<ge> 512 then w_free w1
      else case read_topic_v3 topic of
        (fault, None) \<Rightarrow> w_free (faulty fault w1)
      | (fault, Some msg) \<Rightarrow> receive_payload_v3 L msg payload (faulty fault w1))"

definition das_message_receive :: "libs \<Rightarrow> string \<Rightarrow> byte list \<Rightarrow> world \<Rightarrow> world" where
  "das_message_receive L topic payload w =
     (case w_malloc w of (ok, w1) \<Rightarrow>
      if \<not> ok then w1
      else if length topic \<ge> 128 then w_free w1
      else case read_topic_v2 72 topic of
        None \<Rightarrow> w_free w1
      | Some (serial, did, cmd) \<Rightarrow>
          receive_payload L \<lparr>sub_msg_seq = 0, sub_buf = None, sub_buf_len = 0, sub_msg_domain_id = of_int did,
              sub_msg_command_id = of_int cmd, sub_command_ver = []\<rparr> payload
            (faulty (length serial \<ge> ezdev_sdk_devserial_maxlen) w1))"

definition das_message_receive_ex :: "libs \<Rightarrow> (string \<times> byte list) option \<Rightarrow> world \<Rightarrow> world" where
  "das_message_receive_ex L msg_data w =
     (case msg_data of None \<Rightarrow> w | Some (topic, payload) \<Rightarrow>
      case w_malloc w of (ok, w1) \<Rightarrow>
      if \<not> ok then w1
      else if length topic \<ge> 128 then w_free w1
      else case read_topic_v2 16 topic of
        None \<Rightarrow> w_free w1
      | Some (serial, did, cmd) \<Rightarrow>
        (let msg = \<lparr>sub_msg_seq = 0, sub_buf = None, sub_buf_len = 0, sub_msg_domain_id = of_int did,
                    sub_msg_command_id = of_int cmd, sub_command_ver = []\<rparr>
         in case w_malloc w1 of (ok2, w3) \<Rightarrow>
           if \<not> ok2 then w_free w3
           else case open_payload L (session_key (kernel w3)) payload of
             None \<Rightarrow> w_free (w_free w3)
           | Some (buf, n, cl) \<Rightarrow>
             (case deserialize_common L (drop 2 buf) msg of (e, msg1) \<Rightarrow>
               if e \<noteq> mkernel_internal_succ then w_free (w_free w3)
               else
                 let (msg2, w4) = (if body_len n cl > 0
                       then (msg1\<lparr>sub_buf := Some (moved_body buf n cl), sub_buf_len := body_len n cl\<rparr>,
                             faulty (move_fault buf n cl) w3)
                       else (msg1\<lparr>sub_buf := None, sub_buf_len := 0\<rparr>, w_free w3));
                     w5 = (case extend_get (sub_msg_domain_id msg2) w4 of
                             None \<Rightarrow> w4
                           | Some i \<Rightarrow> call_ptr (extend_data_route (kernel_extend (domains w4 ! i)))
                               (\<lambda>f. Cb_data f msg2 (pUser (kernel_extend (domains w4 ! i)))) w4)
                 in w_free (if body_len n cl > 0 then w_free w5 else w5))))"

section \<open>Blocks\<close>

lemma lost_blocks_simps [simp]:
  "lost_blocks (w_free w) = lost_blocks w - 1"
  "lost_blocks (faulty b w) = lost_blocks w"
  "lost_blocks (call_ptr f c w) = lost_blocks w"
  by (simp_all add: lost_blocks_def) (simp_all add: w_free_def faulty_def call_ptr_def
      queued_blocks_def w_live_def)

lemma lost_blocks_malloc: "w_malloc w = (ok, w') \<Longrightarrow> lost_blocks w' = lost_blocks w + of_bool ok"
  using w_malloc_live [of w ok w']
  by (auto simp: lost_blocks_def w_malloc_def split: prod.splits)

lemma lost_blocks_push_v3:
  assumes "push_queue_submsg_v3 x w = (e, w')"
  shows "lost_blocks w' = lost_blocks w - (if e = mkernel_internal_succ then int (submsg_v3_blocks x) else 0)"
proof -
  from assms obtain m q where p: "push_queue x (w_mem w, q_submsg_v3 w) = (e, (m, q))"
    and w': "w' = w\<lparr>w_mem := m, q_submsg_v3 := q\<rparr>"
    by (auto simp: push_queue_submsg_v3_def split: prod.splits)
  from p show ?thesis
    by (cases rule: push_queue_cases) (simp_all add: w' lost_blocks_def queued_blocks_def w_live_def)
qed

lemma lost_blocks_push:
  assumes "push_queue_submsg x w = (e, w')"
  shows "lost_blocks w' = lost_blocks w - (if e = mkernel_internal_succ then int (submsg_blocks x) else 0)"
proof -
  from assms obtain m q where p: "push_queue x (w_mem w, q_submsg w) = (e, (m, q))"
    and w': "w' = w\<lparr>w_mem := m, q_submsg := q\<rparr>"
    by (auto simp: push_queue_submsg_def split: prod.splits)
  from p show ?thesis
    by (cases rule: push_queue_cases) (simp_all add: w' lost_blocks_def queued_blocks_def w_live_def)
qed

lemma lost_blocks_bus_frame:
  assumes "bus_frame w w'"
  shows "lost_blocks w' = lost_blocks w"
proof -
  from assms have w': "w' = w\<lparr>kernel := kernel w', domains := domains w'\<rparr>" by (simp add: bus_frame_def)
  show ?thesis by (subst w') (simp add: lost_blocks_def queued_blocks_def w_live_def)
qed

lemma handle_sub_msg_v3_blocks:
  "lost_blocks (handle_sub_msg_v3 msg w) = lost_blocks w - int (submsg_v3_blocks msg)"
  using lost_blocks_push_v3 [of msg w]
  by (auto simp: handle_sub_msg_v3_def submsg_v3_blocks_def split: prod.split)

text \<open>Messages the handler neither queues nor frees.\<close>

definition unhandled :: "ez_kernel_submsg \<Rightarrow> bool" where
  "unhandled msg \<longleftrightarrow> sub_msg_domain_id msg \<noteq> DAS_CMD_DOMAIN \<and>
     (sub_msg_domain_id msg = DAS_CMD_COMMON_FUN \<or> sub_msg_command_id msg = DAS_CMD_PU2CENPLTUPGRADERSP)"

lemma handle_sub_msg_blocks:
  "lost_blocks (handle_sub_msg L msg w) =
     lost_blocks w - (if unhandled msg then 0 else int (submsg_blocks msg))"
  using lost_blocks_push [of msg w] lost_blocks_bus_frame [OF bus_handle_frame [of w "lib_text L" msg]]
  by (auto simp: handle_sub_msg_def submsg_blocks_def unhandled_def Let_def split: prod.split)

lemma receive_payload_v3_blocks:
  "lost_blocks (receive_payload_v3 L msg payload w) = lost_blocks w - 1"
  by (auto simp: receive_payload_v3_def handle_sub_msg_v3_blocks submsg_v3_blocks_def
      dest!: lost_blocks_malloc split: prod.split option.split)

text \<open>Whatever the topic and payload, a 3.0 message never leaves a block behind.\<close>

lemma receive_v3_blocks: "lost_blocks (das_message_receive_v3 L topic payload w) = lost_blocks w"
  by (auto simp: das_message_receive_v3_def receive_payload_v3_blocks Let_def
      dest!: lost_blocks_malloc split: prod.split option.split sum.split)

lemma deserialize_common_ids:
  "deserialize_common L b msg = (e, msg') \<Longrightarrow>
   sub_msg_domain_id msg' = sub_msg_domain_id msg \<and> sub_msg_command_id msg' = sub_msg_command_id msg"
  by (auto simp: deserialize_common_def split: option.splits if_splits)

lemma receive_payload_blocks:
  assumes "\<not> unhandled msg"
  shows "lost_blocks (receive_payload L msg payload w) = lost_blocks w - 1"
  using assms
  by (auto simp: receive_payload_def handle_sub_msg_blocks submsg_blocks_def unhandled_def
      dest!: lost_blocks_malloc deserialize_common_ids split: prod.split option.split)

text \<open>Nor does a 2.0 message, unless it is one of those the handler drops on the floor.\<close>

lemma receive_v2_blocks:
  assumes "\<And>serial did cmd. read_topic_v2 72 topic = Some (serial, did, cmd) \<Longrightarrow>
    (of_int did :: uint32) \<noteq> DAS_CMD_COMMON_FUN \<and>
    ((of_int cmd :: uint32) = DAS_CMD_PU2CENPLTUPGRADERSP \<longrightarrow> (of_int did :: uint32) = DAS_CMD_DOMAIN)"
  shows "lost_blocks (das_message_receive L topic payload w) = lost_blocks w"
proof (cases "read_topic_v2 72 topic")
  case None
  then show ?thesis
    by (auto simp: das_message_receive_def dest!: lost_blocks_malloc split: prod.split)
next
  case (Some r)
  obtain serial did cmd where r: "r = (serial, did, cmd)" by (cases r)
  have "\<not> unhandled \<lparr>sub_msg_seq = 0, sub_buf = None, sub_buf_len = 0, sub_msg_domain_id = of_int did,
      sub_msg_command_id = of_int cmd, sub_command_ver = []\<rparr>"
    using assms Some r by (auto simp: unhandled_def)
  note b = receive_payload_blocks [OF this]
  show ?thesis
    using Some r b by (auto simp: das_message_receive_def dest!: lost_blocks_malloc split: prod.split)
qed

lemma receive_ex_blocks: "lost_blocks (das_message_receive_ex L md w) = lost_blocks w"
proof (cases md)
  case None
  then show ?thesis by (simp add: das_message_receive_ex_def)
next
  case (Some tp)
  obtain topic payload where tp: "tp = (topic, payload)" by fastforce
  show ?thesis
    unfolding das_message_receive_ex_def Some tp option.case prod.case
    by (auto simp: Let_def dest!: lost_blocks_malloc split: prod.split option.split)
qed

section \<open>Accesses outside the buffer\<close>

text \<open>The handler checks the header length against the text length, one or two short of what it needs.\<close>

lemma open_payload_SomeD:
  assumes "open_payload L key payload = Some (buf, n, cl)"
  shows "unat cl < n" "aes_cbc_128_dec_padding (lib_tls L) key payload = (mkernel_internal_succ, buf, Some n)"
  using assms by (auto simp: open_payload_def Let_def split: prod.splits option.splits if_splits)

lemma body_len_unat:
  assumes "unat cl + 2 \<le> n" and "n < 2 ^ 32"
  shows "unat (body_len n cl) = n - 2 - unat cl"
proof -
  have n: "unat (of_nat n :: uint32) = n" using assms(2) by (simp add: unat_of_nat_small)
  have "unat (of_nat n - 2 :: uint32) = n - 2"
    using assms(1) n by (subst unat_sub_if') (auto simp: word_le_nat_alt)
  moreover have "unat (ucast cl :: uint32) = unat cl"
    using unat_bound [of cl] by (simp add: unsigned_ucast_eq take_bit_nat_eq_self)
  ultimately show ?thesis
    using assms(1) by (simp add: body_len_def unat_sub_if')
qed

lemma body_len_wraps:
  assumes "n = Suc (unat cl)"
  shows "body_len n cl = - 1"
proof -
  have "(of_nat (unat cl) :: uint32) = ucast cl"
    by (simp add: unsigned_of_nat)
  then show ?thesis using assms by (simp add: body_len_def)
qed

lemma move_fault_iff:
  assumes "unat cl < n" and "n \<le> length buf" and "length buf < 2 ^ 31"
  shows "move_fault buf n cl \<longleftrightarrow> n = Suc (unat cl)"
proof (cases "n = Suc (unat cl)")
  case True
  have "unat (- 1 :: uint32) = 2 ^ 32 - 1" by (simp add: unsigned_minus_1_eq_mask mask_eq_exp_minus_1)
  with True assms body_len_wraps [OF True] show ?thesis by (simp add: move_fault_def)
next
  case False
  with assms body_len_unat [of cl n] show ?thesis by (simp add: move_fault_def)
qed

text \<open>Otherwise the queued buffer starts with the body, which is what \<^verbatim>\<open>buf_len\<close> covers.\<close>

lemma moved_body_take:
  assumes "unat cl + 2 \<le> n" and "n \<le> length buf" and "length buf < 2 ^ 31"
  shows "take (unat (body_len n cl)) (moved_body buf n cl) = take (n - 2 - unat cl) (drop (2 + unat cl) buf)"
  using assms body_len_unat [of cl n] by (simp add: moved_body_def)

end
