(* ===== verification/Das_Send.thy ===== *)
theory Das_Send
  imports Das_Receive
begin

text \<open>
  The sending half of \<^verbatim>\<open>access/das_transport.c\<close>: building and encrypting a payload,
  publishing it, the retry of failed messages at the head of the queue and the
  acknowledgement event of protocol 3.0. Lemmas: blocks, the retry discipline,
  and that the receiver opens what the sender sealed.
\<close>

abbreviation (input) MQTTPACKET_BUFFER_TOO_SHORT :: int where "MQTTPACKET_BUFFER_TOO_SHORT \<equiv> - 2"
abbreviation (input) MSG_TYPE_REQ :: int where "MSG_TYPE_REQ \<equiv> 1"
abbreviation (input) MSG_TYPE_RSP :: int where "MSG_TYPE_RSP \<equiv> 2"

section \<open>Publishing one message\<close>

definition msg_body_bytes :: "byte list option \<Rightarrow> uint32 \<Rightarrow> byte list" where
  "msg_body_bytes body len = (case body of None \<Rightarrow> [] | Some b \<Rightarrow> take (unat len) b)"

text \<open>The plain text: header length, header, body.\<close>

definition plain_payload :: "byte list \<Rightarrow> byte list \<Rightarrow> byte list" where
  "plain_payload common body =
     serialize_short (of_nat (length common)) @ take (unat (of_nat (length common) :: uint16)) common @ body"

text \<open>
  From the computation of the padded length to the answer of \<^verbatim>\<open>MQTTPublish\<close>; the
  common text is freed at the end, as are the two buffers.
\<close>

definition publish_payload :: "libs \<Rightarrow> string \<Rightarrow> ez_kernel_qos \<Rightarrow> byte list \<Rightarrow> byte list option \<Rightarrow> uint32
    \<Rightarrow> world \<Rightarrow> mkernel_internal_error \<times> world" where
  "publish_payload L topic qos common body blen w =
     (let clen = of_nat (length common) :: uint16;
          plen = ucast clen + 2 + blen :: uint32;
          payload_buf_len = calculate_padding_len plen
      in case w_malloc w of (ok1, w1) \<Rightarrow>
         case w_malloc w1 of (ok2, w2) \<Rightarrow>
         (let release = (\<lambda>w. w_free ((if ok1 then w_free else id) ((if ok2 then w_free else id) w)))
          in if \<not> ok1 \<or> \<not> ok2 then (mkernel_internal_malloc_error, release w2)
             else
               let w3 = faulty (length (msg_body_bytes body blen) < unat blen) w2;
                   plain = plain_payload common (msg_body_bytes body blen)
               in case aes_cbc_128_enc_padding (lib_tls L) (session_key (kernel w3))
                         (plain @ zeros (unat payload_buf_len - length plain)) (unat plen) (unat payload_buf_len) of
                    (e, enc, _) \<Rightarrow>
                      if e \<noteq> mkernel_internal_succ then (e, release w3)
                      else (case mqtt_call (Mqtt_publish topic qos enc) w3 of (rc, w4) \<Rightarrow>
                        (if rc = MQTTPACKET_BUFFER_TOO_SHORT then mkernel_internal_call_mqtt_buffer_too_short
                         else if rc \<noteq> 0 then mkernel_internal_call_mqtt_pub_error
                         else mkernel_internal_succ,
                         release w4))))"

definition das_send_pubmsg_v3 :: "libs \<Rightarrow> ez_kernel_pubmsg_v3 \<Rightarrow> world \<Rightarrow> mkernel_internal_error \<times> world" where
  "das_send_pubmsg_v3 L p w =
     (let publish_topic = publish_topic_v3 (dev_subserial (dev_info (kernel w))) p
      in case serialize_payload_common_v3 L (pub3_msg_seq p) w of ((e, common), w1) \<Rightarrow>
        (case common of
           None \<Rightarrow> (e, w1)
         | Some c \<Rightarrow> publish_payload L publish_topic (pub3_msg_qos p) c (pub3_msg_body p) (pub3_msg_body_len p) w1))"

definition das_send_pubmsg :: "libs \<Rightarrow> ez_kernel_pubmsg \<Rightarrow> world \<Rightarrow> mkernel_internal_error \<times> world" where
  "das_send_pubmsg L p w =
     (let publish_topic = publish_topic_v2 (pub_msg_domain_id p) (pub_msg_command_id p);
          msg_type = (if pub_msg_response p = 0 then MSG_TYPE_REQ else MSG_TYPE_RSP)
      in case serialize_payload_common L msg_type (pub_command_ver p) (pub_msg_seq p) w of ((e, common), w1) \<Rightarrow>
        (case common of
           None \<Rightarrow> (e, w1)
         | Some c \<Rightarrow> publish_payload L publish_topic (pub_msg_qos p) c (pub_msg_body p) (pub_msg_body_len p) w1))"

section \<open>Sending from the queues\<close>

definition send_message_to_das_v3 :: "libs \<Rightarrow> world \<Rightarrow> mkernel_internal_error \<times> world" where
  "send_message_to_das_v3 L w =
     (case pop_queue_pubmsg_exchange_v3 w of
        ((e, None), w1) \<Rightarrow> (e, w1)
      | ((e, Some x), w1) \<Rightarrow>
          if e \<noteq> mkernel_internal_succ then (e, w1)
          else (case das_send_pubmsg_v3 L (msg_conntext_v3 x) w1 of (e1, w2) \<Rightarrow>
            let x1 = (if e1 = mkernel_internal_call_mqtt_pub_error
                      then x\<lparr>max_send_count_v3 := max_send_count_v3 x - 1\<rparr> else x)
            in if e1 = mkernel_internal_call_mqtt_pub_error \<and> max_send_count_v3 x > 1
               then (mkernel_internal_das_need_reconnect, snd (push_queue_head_pubmsg_exchange_v3 x1 w2))
               else
                 let c = msg_conntext_v3 x1;
                     ack = \<lparr>ack_last_error = mkiE2ezE e1, ack_msg_seq = pub3_msg_seq c,
                            ack_module_name = strncpy (pub3_module c) (ezdev_sdk_module_name_len - 1),
                            ack_msg_type = strncpy (pub3_msg_type c) (ezdev_sdk_msg_type_len - 1)\<rparr>;
                     w3 = snd (broadcast_user_event SDK_KERNEL_EVENT_PUBLISH_ACK (Some (Publish_ack ack)) w2);
                     w4 = (if pub3_msg_body c \<noteq> None then w_free w3 else w3)
                 in (e1, w_free w4)))"

definition send_message_to_das_v2 :: "libs \<Rightarrow> world \<Rightarrow> mkernel_internal_error \<times> world" where
  "send_message_to_das_v2 L w =
     (case pop_queue_pubmsg_exchange w of
        ((e, None), w1) \<Rightarrow> (e, w1)
      | ((e, Some x), w1) \<Rightarrow>
          if e \<noteq> mkernel_internal_succ then (e, w1)
          else
            let c = msg_conntext x;
                cRiskResult = check_cmd_risk_control (pub_msg_domain_id c) (pub_msg_command_id c) w1
            in case (if cRiskResult = 0 then das_send_pubmsg L c w1 else (e, w1)) of (e1, w2) \<Rightarrow>
              (let e2 = (if cRiskResult = 1 then mkernel_internal_extend_no_find
                         else if cRiskResult = 2 then mkernel_internal_force_domain_risk
                         else if cRiskResult = 3 then mkernel_internal_force_cmd_risk else e1);
                   x1 = (if e2 = mkernel_internal_call_mqtt_pub_error
                         then x\<lparr>max_send_count := max_send_count x - 1\<rparr> else x)
               in if e2 = mkernel_internal_call_mqtt_pub_error \<and> max_send_count x > 1
                  then (mkernel_internal_das_need_reconnect, snd (push_queue_head_pubmsg_exchange x1 w2))
                  else
                    let w3 = (if pub_msg_body c \<noteq> None then w_free w2 else w2)
                    in (e2, w_free w3)))"

definition das_message_send :: "libs \<Rightarrow> world \<Rightarrow> mkernel_internal_error \<times> world" where
  "das_message_send L w =
     (case send_message_to_das_v2 L w of (e, w1) \<Rightarrow>
       if e \<noteq> mkernel_internal_succ \<and> e \<noteq> mkernel_internal_queue_empty then (e, w1)
       else send_message_to_das_v3 L w1)"

definition das_send_pubmsg_async :: "ezdev_sdk_kernel_pubmsg_exchange \<Rightarrow> world
    \<Rightarrow> mkernel_internal_error \<times> world" where
  "das_send_pubmsg_async msg_exchange w = push_queue_pubmsg_exchange msg_exchange w"

definition das_send_pubmsg_async_v3 :: "ezdev_sdk_kernel_pubmsg_exchange_v3 \<Rightarrow> world
    \<Rightarrow> mkernel_internal_error \<times> world" where
  "das_send_pubmsg_async_v3 msg_exchange w = push_queue_pubmsg_exchange_v3 msg_exchange w"

section \<open>Frame of publishing\<close>

text \<open>
  Publishing touches the allocator, the network trace and the fault flag; the
  queues, tables, callbacks and the kernel context stay.
\<close>

definition pub_frame :: "world \<Rightarrow> world \<Rightarrow> bool" where
  "pub_frame w w' \<longleftrightarrow> w' = w\<lparr>w_mem := w_mem w', net_answers := net_answers w', net_ops := net_ops w',
     w_fault := w_fault w'\<rparr>"

lemma pub_frame_refl: "pub_frame w w"
  by (simp add: pub_frame_def)

lemma pub_frame_trans:
  assumes "pub_frame w w1" and "pub_frame w1 w2"
  shows "pub_frame w w2"
proof -
  have 1: "w1 = w\<lparr>w_mem := w_mem w1, net_answers := net_answers w1, net_ops := net_ops w1, w_fault := w_fault w1\<rparr>"
    using assms(1) by (simp add: pub_frame_def)
  have 2: "w2 = w1\<lparr>w_mem := w_mem w2, net_answers := net_answers w2, net_ops := net_ops w2, w_fault := w_fault w2\<rparr>"
    using assms(2) by (simp add: pub_frame_def)
  show ?thesis unfolding pub_frame_def by (subst 2, subst 1) simp
qed

lemma pub_frame_steps:
  "pub_frame w (w_free w)" "pub_frame w (faulty b w)" "pub_frame w (w\<lparr>w_mem := m\<rparr>)"
  "pub_frame w (snd (w_malloc w))" "pub_frame w (snd (net_call p w))" "pub_frame w (w_json_delete j w)"
  by (simp_all add: pub_frame_def w_free_def faulty_def w_malloc_def net_call_def w_json_delete_def
      split: prod.split list.split)

lemma pub_frame_w_json: "w_json f w = (r, w') \<Longrightarrow> pub_frame w w'"
  by (auto simp: w_json_def pub_frame_def split: prod.splits)

lemma pub_frame_malloc: "w_malloc w = (ok, w') \<Longrightarrow> pub_frame w w'"
  using pub_frame_steps(4) [of w] by simp

lemma pub_frame_print: "cJSON_PrintUnformatted L j w = (r, w') \<Longrightarrow> pub_frame w w'"
  by (auto simp: cJSON_PrintUnformatted_def pub_frame_refl split: option.splits prod.splits
      dest: pub_frame_malloc)

lemma lost_blocks_pub_frame:
  assumes "pub_frame w w'"
  shows "lost_blocks w' - w_live w' = lost_blocks w - w_live w"
proof -
  have 1: "w' = w\<lparr>w_mem := w_mem w', net_answers := net_answers w', net_ops := net_ops w', w_fault := w_fault w'\<rparr>"
    using assms by (simp add: pub_frame_def)
  show ?thesis by (simp add: lost_blocks_def) (subst 1, simp add: queued_blocks_def)
qed

section \<open>Blocks\<close>

lemma w_json_number:
  assumes "w_json (cJSON_AddNumberToObject (Some ob) nm n) w = (r, w')"
  obtains t where "r = Some t" "w_live w' - int (json_blocks t) = w_live w - int (json_blocks ob)"
  using assms AddNumber_balance [of ob nm n "w_mem w"]
  by (fastforce simp: w_json_def w_live_def split: prod.splits)

lemma w_json_string:
  assumes "w_json (cJSON_AddStringToObject (Some ob) nm s) w = (r, w')"
  obtains t where "r = Some t" "w_live w' - int (json_blocks t) = w_live w - int (json_blocks ob)"
  using assms AddString_balance [of ob nm s "w_mem w"]
  by (fastforce simp: w_json_def w_live_def split: prod.splits)

lemma w_json_object:
  assumes "w_json cJSON_CreateObject w = (Some ob, w')"
  shows "w_live w' = w_live w + int (json_blocks ob)"
  using assms
  by (auto simp: w_json_def w_live_def cJSON_CreateObject_def cJSON_New_Item_def
      split: prod.splits if_splits dest: malloc_live)

lemma w_json_object_None:
  assumes "w_json cJSON_CreateObject w = (None, w')"
  shows "w_live w' = w_live w"
  using assms
  by (auto simp: w_json_def w_live_def cJSON_CreateObject_def cJSON_New_Item_def
      split: prod.splits if_splits dest: malloc_live)

lemma print_live:
  assumes "cJSON_PrintUnformatted L (Some t) w = (r, w')"
  shows "w_live w' = w_live w + of_bool (r \<noteq> None)"
  using assms by (auto simp: cJSON_PrintUnformatted_def split: prod.splits if_splits dest: w_malloc_live)

lemma json_delete_live: "w_live (w_json_delete (Some t) w) = w_live w - int (json_blocks t)"
  by (simp add: w_json_delete_def cJSON_Delete_def w_live_def)

text \<open>The common header: exactly the printed text stays allocated, and only on success.\<close>

lemma serialize_v3_live:
  assumes "serialize_payload_common_v3 L sq w = ((e, c), w')"
  shows "w_live w' = w_live w + of_bool (c \<noteq> None)" "pub_frame w w'" "e = mkernel_internal_succ \<longleftrightarrow> c \<noteq> None"
proof -
  obtain r w1 where 1: "w_json cJSON_CreateObject w = (r, w1)" by fastforce
  note f1 = pub_frame_w_json [OF 1]
  have "w_live w' = w_live w + of_bool (c \<noteq> None) \<and> pub_frame w w' \<and> (e = mkernel_internal_succ \<longleftrightarrow> c \<noteq> None)"
  proof (cases r)
    case None
    with 1 assms f1 show ?thesis by (auto simp: serialize_payload_common_v3_def dest: w_json_object_None)
  next
    case (Some ob)
    obtain r2 w2 where 2: "w_json (cJSON_AddNumberToObject (Some ob) ''Seq'' (uint sq)) w1 = (r2, w2)" by fastforce
    from w_json_number [OF 2] obtain t where t: "r2 = Some t"
      "w_live w2 - int (json_blocks t) = w_live w1 - int (json_blocks ob)" by blast
    obtain tx w3 where 3: "cJSON_PrintUnformatted L (Some t) w2 = (tx, w3)" by fastforce
    from 1 2 3 t(1) Some assms have r: "c = tx" "w' = w_json_delete (Some t) w3"
      "e = (if tx = None then mkernel_internal_json_format_error else mkernel_internal_succ)"
      by (auto simp: serialize_payload_common_v3_def)
    have "pub_frame w w'"
      unfolding r(2) by (rule pub_frame_trans [OF f1 pub_frame_trans [OF pub_frame_w_json [OF 2]
          pub_frame_trans [OF pub_frame_print [OF 3] pub_frame_steps(6)]]])
    with r t(2) print_live [OF 3] w_json_object [OF 1 [unfolded Some]] show ?thesis
      by (simp add: json_delete_live)
  qed
  then show "w_live w' = w_live w + of_bool (c \<noteq> None)" "pub_frame w w'" "e = mkernel_internal_succ \<longleftrightarrow> c \<noteq> None"
    by blast+
qed

lemma serialize_v2_live:
  assumes "serialize_payload_common L ty cv sq w = ((e, c), w')"
  shows "w_live w' = w_live w + of_bool (c \<noteq> None)" "pub_frame w w'" "e = mkernel_internal_succ \<longleftrightarrow> c \<noteq> None"
proof -
  obtain r w1 where 1: "w_json cJSON_CreateObject w = (r, w1)" by fastforce
  note f1 = pub_frame_w_json [OF 1]
  have "w_live w' = w_live w + of_bool (c \<noteq> None) \<and> pub_frame w w' \<and> (e = mkernel_internal_succ \<longleftrightarrow> c \<noteq> None)"
  proof (cases r)
    case None
    with 1 assms f1 show ?thesis by (auto simp: serialize_payload_common_def dest: w_json_object_None)
  next
    case (Some ob)
    obtain r2 w2 where 2: "w_json (cJSON_AddStringToObject (Some ob) ''CmdVer'' cv) w1 = (r2, w2)" by fastforce
    from w_json_string [OF 2] obtain t2 where t2: "r2 = Some t2"
      "w_live w2 - int (json_blocks t2) = w_live w1 - int (json_blocks ob)" by blast
    obtain r3 w3 where 3: "w_json (cJSON_AddNumberToObject (Some t2) ''Seq'' (uint sq)) w2 = (r3, w3)" by fastforce
    from w_json_number [OF 3] obtain t3 where t3: "r3 = Some t3"
      "w_live w3 - int (json_blocks t3) = w_live w2 - int (json_blocks t2)" by blast
    obtain r4 w4 where 4: "w_json (cJSON_AddNumberToObject (Some t3) ''MsgType'' ty) w3 = (r4, w4)" by fastforce
    from w_json_number [OF 4] obtain t4 where t4: "r4 = Some t4"
      "w_live w4 - int (json_blocks t4) = w_live w3 - int (json_blocks t3)" by blast
    obtain tx w5 where 5: "cJSON_PrintUnformatted L (Some t4) w4 = (tx, w5)" by fastforce
    from 1 2 3 4 5 t2(1) t3(1) t4(1) Some assms have r: "c = tx" "w' = w_json_delete (Some t4) w5"
      "e = (if tx = None then mkernel_internal_json_format_error else mkernel_internal_succ)"
      by (auto simp: serialize_payload_common_def)
    have "pub_frame w w'"
      unfolding r(2) by (rule pub_frame_trans [OF f1 pub_frame_trans [OF pub_frame_w_json [OF 2]
          pub_frame_trans [OF pub_frame_w_json [OF 3] pub_frame_trans [OF pub_frame_w_json [OF 4]
          pub_frame_trans [OF pub_frame_print [OF 5] pub_frame_steps(6)]]]]])
    with r t2(2) t3(2) t4(2) print_live [OF 5] w_json_object [OF 1 [unfolded Some]] show ?thesis
      by (simp add: json_delete_live)
  qed
  then show "w_live w' = w_live w + of_bool (c \<noteq> None)" "pub_frame w w'" "e = mkernel_internal_succ \<longleftrightarrow> c \<noteq> None"
    by blast+
qed

lemma net_call_live [simp]: "net_call p w = (rc, w') \<Longrightarrow> w_live w' = w_live w"
  by (auto simp: net_call_def w_live_def split: list.splits)

lemma mqtt_call_live: "mqtt_call p w = (rc, w') \<Longrightarrow> w_live w' = w_live w"
  by (auto simp: mqtt_call_def split: if_splits)

lemma faulty_live [simp]: "w_live (faulty b w) = w_live w"
  by (simp add: faulty_def w_live_def)

lemma publish_payload_live:
  assumes "publish_payload L topic qos common body blen w = (e, w')"
  shows "w_live w' = w_live w - 1"
  using assms
  by (auto simp: publish_payload_def Let_def split: prod.splits if_splits
      dest!: w_malloc_live mqtt_call_live)

lemma publish_payload_frame:
  assumes "publish_payload L topic qos common body blen w = (e, w')"
  shows "pub_frame w w'"
proof -
  obtain ok1 w1 where 1: "w_malloc w = (ok1, w1)" by fastforce
  obtain ok2 w2 where 2: "w_malloc w1 = (ok2, w2)" by fastforce
  have f2: "pub_frame w w2" by (rule pub_frame_trans [OF pub_frame_malloc [OF 1] pub_frame_malloc [OF 2]])
  have f: "pub_frame w (w_free v)" "pub_frame w (faulty b v)" "pub_frame w (snd (net_call p v))"
    if "pub_frame w v" for v b p
    using that pub_frame_trans pub_frame_steps by blast+
  have n: "pub_frame w v'" if "mqtt_call p v = (rc, v')" "pub_frame w v" for p v rc v'
    using f(3) [OF that(2), of p] that by (auto simp: mqtt_call_def split: if_splits)
  show ?thesis
    using assms by (auto simp: publish_payload_def Let_def 1 2 split: prod.splits if_splits
        intro!: f(1) f(2) f2 elim!: n)
qed

lemma das_send_pubmsg_v3_frame:
  assumes "das_send_pubmsg_v3 L p w = (e, w')"
  shows "pub_frame w w' \<and> w_live w' = w_live w"
proof -
  obtain e1 c w1 where 1: "serialize_payload_common_v3 L (pub3_msg_seq p) w = ((e1, c), w1)" by (metis surj_pair)
  from assms 1 serialize_v3_live [OF 1] show ?thesis
    by (cases c) (auto simp: das_send_pubmsg_v3_def Let_def dest: publish_payload_live
        intro: pub_frame_trans publish_payload_frame)
qed

lemma das_send_pubmsg_frame:
  assumes "das_send_pubmsg L p w = (e, w')"
  shows "pub_frame w w' \<and> w_live w' = w_live w"
proof -
  obtain e1 c w1 where 1: "serialize_payload_common L (if pub_msg_response p = 0 then MSG_TYPE_REQ else MSG_TYPE_RSP)
      (pub_command_ver p) (pub_msg_seq p) w = ((e1, c), w1)" by (metis surj_pair)
  from assms 1 serialize_v2_live [OF 1] show ?thesis
    by (cases c) (auto simp: das_send_pubmsg_def Let_def dest: publish_payload_live
        intro: pub_frame_trans publish_payload_frame)
qed

section \<open>One step of sending\<close>

text \<open>The world after the head of a publish queue was taken out.\<close>

definition popped_v3 :: "ezdev_sdk_kernel_pubmsg_exchange_v3 list \<Rightarrow> world \<Rightarrow> world" where
  "popped_v3 xs w = w\<lparr>w_mem := ezos_free (w_mem w), q_pubmsg_v3 := (q_pubmsg_v3 w)\<lparr>q_elems := xs,
     q_size := (if xs = [] then 0 else q_size (q_pubmsg_v3 w) - 1)\<rparr>\<rparr>"

definition popped_v2 :: "ezdev_sdk_kernel_pubmsg_exchange list \<Rightarrow> world \<Rightarrow> world" where
  "popped_v2 xs w = w\<lparr>w_mem := ezos_free (w_mem w), q_pubmsg := (q_pubmsg w)\<lparr>q_elems := xs,
     q_size := (if xs = [] then 0 else q_size (q_pubmsg w) - 1)\<rparr>\<rparr>"

lemma pop_v3_Cons:
  "q_elems (q_pubmsg_v3 w) = x # xs \<Longrightarrow>
   pop_queue_pubmsg_exchange_v3 w = ((mkernel_internal_succ, Some x), popped_v3 xs w)"
  by (simp add: pop_queue_pubmsg_exchange_v3_def pop_queue_def popped_v3_def)

lemma pop_v2_Cons:
  "q_elems (q_pubmsg w) = x # xs \<Longrightarrow>
   pop_queue_pubmsg_exchange w = ((mkernel_internal_succ, Some x), popped_v2 xs w)"
  by (simp add: pop_queue_pubmsg_exchange_def pop_queue_def popped_v2_def)

lemma popped_v3_blocks:
  "q_elems (q_pubmsg_v3 w) = x # xs \<Longrightarrow> lost_blocks (popped_v3 xs w) = lost_blocks w + int (pubmsg_v3_blocks x)"
  by (simp add: popped_v3_def lost_blocks_def queued_blocks_def w_live_def)

lemma popped_v2_blocks:
  "q_elems (q_pubmsg w) = x # xs \<Longrightarrow> lost_blocks (popped_v2 xs w) = lost_blocks w + int (pubmsg_blocks x)"
  by (simp add: popped_v2_def lost_blocks_def queued_blocks_def w_live_def)

lemma popped_v3_wf:
  "q_wf (q_pubmsg_v3 w) \<Longrightarrow> q_elems (q_pubmsg_v3 w) = x # xs \<Longrightarrow>
   q_wf (q_pubmsg_v3 (popped_v3 xs w)) \<and>
   length (q_elems (q_pubmsg_v3 (popped_v3 xs w))) < unat (q_maxsize (q_pubmsg_v3 (popped_v3 xs w)))"
  using q_wf_pop [of "q_pubmsg_v3 w" "w_mem w"]
  by (auto simp: popped_v3_def pop_queue_def q_wf_def word_le_nat_alt)

lemma popped_v2_wf:
  "q_wf (q_pubmsg w) \<Longrightarrow> q_elems (q_pubmsg w) = x # xs \<Longrightarrow>
   q_wf (q_pubmsg (popped_v2 xs w)) \<and>
   length (q_elems (q_pubmsg (popped_v2 xs w))) < unat (q_maxsize (q_pubmsg (popped_v2 xs w)))"
  using q_wf_pop [of "q_pubmsg w" "w_mem w"]
  by (auto simp: popped_v2_def pop_queue_def q_wf_def word_le_nat_alt)

lemma pub_frame_queues:
  assumes "pub_frame w w'"
  shows "q_pubmsg_v3 w' = q_pubmsg_v3 w" "q_pubmsg w' = q_pubmsg w" "q_inner w' = q_inner w"
    "kernel w' = kernel w" "calls w' = calls w" "domains w' = domains w" "domains_count w' = domains_count w"
proof -
  have 1: "w' = w\<lparr>w_mem := w_mem w', net_answers := net_answers w', net_ops := net_ops w', w_fault := w_fault w'\<rparr>"
    using assms by (simp add: pub_frame_def)
  show "q_pubmsg_v3 w' = q_pubmsg_v3 w" "q_pubmsg w' = q_pubmsg w" "q_inner w' = q_inner w"
    "kernel w' = kernel w" "calls w' = calls w" "domains w' = domains w" "domains_count w' = domains_count w"
    by (subst 1, simp)+
qed

lemma broadcast_event_blocks:
  "lost_blocks (snd (broadcast_user_event ty ctx w)) = lost_blocks w"
proof -
  obtain e w' where b: "broadcast_user_event ty ctx w = (e, w')" by fastforce
  have "lost_blocks w' = lost_blocks w"
    using broadcast_user_event_effect [OF b]
    by (auto split: if_splits simp: inner_blocks_def dest!: notices_added_queued(2))
  with b show ?thesis by simp
qed

lemma broadcast_event_queue_v3:
  "q_pubmsg_v3 (snd (broadcast_user_event ty ctx w)) = q_pubmsg_v3 w"
proof -
  obtain e w' where b: "broadcast_user_event ty ctx w = (e, w')" by fastforce
  from broadcast_user_event_effect [OF b] have "q_pubmsg_v3 w' = q_pubmsg_v3 w"
    by (auto split: if_splits dest: notices_added_frame(4))
  with b show ?thesis by simp
qed

text \<open>
  A 3.0 message that was published, or failed for good: it leaves the queue, its
  blocks are freed, the application is told, and nothing is lost.
\<close>

lemma send_v3_final:
  assumes "q_elems (q_pubmsg_v3 w) = x # xs"
    and "das_send_pubmsg_v3 L (msg_conntext_v3 x) (popped_v3 xs w) = (e1, w2)"
    and "e1 \<noteq> mkernel_internal_call_mqtt_pub_error \<or> \<not> max_send_count_v3 x > 1"
  shows "fst (send_message_to_das_v3 L w) = e1"
    "lost_blocks (snd (send_message_to_das_v3 L w)) = lost_blocks w"
    "q_elems (q_pubmsg_v3 (snd (send_message_to_das_v3 L w))) = xs"
proof -
  let ?c = "msg_conntext_v3 x"
  let ?ack = "\<lparr>ack_last_error = mkiE2ezE e1, ack_msg_seq = pub3_msg_seq ?c,
    ack_module_name = strncpy (pub3_module ?c) (ezdev_sdk_module_name_len - 1),
    ack_msg_type = strncpy (pub3_msg_type ?c) (ezdev_sdk_msg_type_len - 1)\<rparr>"
  let ?w3 = "snd (broadcast_user_event SDK_KERNEL_EVENT_PUBLISH_ACK (Some (Publish_ack ?ack)) w2)"
  have s: "send_message_to_das_v3 L w =
      (e1, w_free (if pub3_msg_body ?c \<noteq> None then w_free ?w3 else ?w3))"
    using assms by (auto simp: send_message_to_das_v3_def pop_v3_Cons [OF assms(1)] Let_def)
  from das_send_pubmsg_v3_frame [OF assms(2)] have f: "pub_frame (popped_v3 xs w) w2"
    and l: "w_live w2 = w_live (popped_v3 xs w)" by simp_all
  from lost_blocks_pub_frame [OF f] l popped_v3_blocks [OF assms(1)]
  have lost: "lost_blocks w2 = lost_blocks w + int (pubmsg_v3_blocks x)" by simp
  show "fst (send_message_to_das_v3 L w) = e1" by (simp add: s)
  show "lost_blocks (snd (send_message_to_das_v3 L w)) = lost_blocks w"
    by (simp add: s broadcast_event_blocks lost pubmsg_v3_blocks_def)
  show "q_elems (q_pubmsg_v3 (snd (send_message_to_das_v3 L w))) = xs"
    using pub_frame_queues(1) [OF f]
    by (simp add: s w_free_def broadcast_event_queue_v3 popped_v3_def)
qed

text \<open>
  A failed publication with attempts left: the message goes back to the head with
  one attempt less and the connection is to be re-established.
\<close>

lemma send_v3_retry:
  assumes "q_wf (q_pubmsg_v3 w)" and "q_elems (q_pubmsg_v3 w) = x # xs"
    and "das_send_pubmsg_v3 L (msg_conntext_v3 x) (popped_v3 xs w) = (mkernel_internal_call_mqtt_pub_error, w2)"
    and "max_send_count_v3 x > 1" and "fst (ezos_malloc (w_mem w2))"
  shows "fst (send_message_to_das_v3 L w) = mkernel_internal_das_need_reconnect"
    "q_elems (q_pubmsg_v3 (snd (send_message_to_das_v3 L w))) =
      x\<lparr>max_send_count_v3 := max_send_count_v3 x - 1\<rparr> # xs"
    "lost_blocks (snd (send_message_to_das_v3 L w)) = lost_blocks w"
proof -
  let ?x = "x\<lparr>max_send_count_v3 := max_send_count_v3 x - 1\<rparr>"
  have s: "send_message_to_das_v3 L w =
      (mkernel_internal_das_need_reconnect, snd (push_queue_head_pubmsg_exchange_v3 ?x w2))"
    using assms by (simp add: send_message_to_das_v3_def pop_v3_Cons [OF assms(2)] Let_def)
  from das_send_pubmsg_v3_frame [OF assms(3)] have f: "pub_frame (popped_v3 xs w) w2"
    and l: "w_live w2 = w_live (popped_v3 xs w)" by simp_all
  note q = pub_frame_queues(1) [OF f]
  note wf = popped_v3_wf [OF assms(1,2)]
  have "length (qs_items (w_mem w2, q_pubmsg_v3 w2)) < qs_capacity (w_mem w2, q_pubmsg_v3 w2)"
    using wf q by (simp add: qs_items_def qs_capacity_def)
  from lq.push_head_succ [OF _ this, of ?x] wf q assms(5)
  obtain m' q' where p: "push_queue_head ?x (w_mem w2, q_pubmsg_v3 w2) = (mkernel_internal_succ, (m', q'))"
    "q_elems q' = ?x # xs" "live m' = live (w_mem w2) + 1"
    by (fastforce simp: qs_items_def qs_wf_def popped_v3_def)
  have w': "snd (send_message_to_das_v3 L w) = w2\<lparr>w_mem := m', q_pubmsg_v3 := q'\<rparr>"
    by (simp add: s push_queue_head_pubmsg_exchange_v3_def p)
  show "fst (send_message_to_das_v3 L w) = mkernel_internal_das_need_reconnect" by (simp add: s)
  show "q_elems (q_pubmsg_v3 (snd (send_message_to_das_v3 L w))) = ?x # xs" by (simp add: w' p)
  from lost_blocks_pub_frame [OF f] l popped_v3_blocks [OF assms(2)]
  have lost: "lost_blocks w2 = lost_blocks w + int (pubmsg_v3_blocks x)" by simp
  have "lost_blocks (w2\<lparr>w_mem := m', q_pubmsg_v3 := q'\<rparr>) = lost_blocks w2 - int (pubmsg_v3_blocks x)"
    using p(2,3) q by (simp add: lost_blocks_def queued_blocks_def w_live_def pubmsg_v3_blocks_def popped_v3_def)
  with lost show "lost_blocks (snd (send_message_to_das_v3 L w)) = lost_blocks w" by (simp add: w')
qed

section \<open>Risk control and the 2.0 queue\<close>

text \<open>A barred 2.0 command is never published: it is dropped with the error of its bar.\<close>

lemma send_v2_barred:
  assumes "q_elems (q_pubmsg w) = x # xs"
    and "check_cmd_risk_control (pub_msg_domain_id (msg_conntext x)) (pub_msg_command_id (msg_conntext x)) w = r"
    and "r \<noteq> 0"
  shows "net_ops (snd (send_message_to_das_v2 L w)) = net_ops w"
    "q_elems (q_pubmsg (snd (send_message_to_das_v2 L w))) = xs"
    "fst (send_message_to_das_v2 L w) = (if r = 1 then mkernel_internal_extend_no_find
       else if r = 2 then mkernel_internal_force_domain_risk else mkernel_internal_force_cmd_risk)"
    "lost_blocks (snd (send_message_to_das_v2 L w)) =
       lost_blocks w + of_bool (pub_externel_ctx (msg_conntext x) \<noteq> None)"
proof -
  let ?c = "msg_conntext x"
  have g: "extend_get d (popped_v2 xs w) = extend_get d w" for d
    by (rule tables_cong) (simp_all add: popped_v2_def)
  have d: "domains (popped_v2 xs w) = domains w" by (simp add: popped_v2_def)
  have r: "check_cmd_risk_control (pub_msg_domain_id ?c) (pub_msg_command_id ?c) (popped_v2 xs w) = r"
    using assms(2) unfolding check_cmd_risk_control_def g d .
  have r3: "r = 1 \<or> r = 2 \<or> r = 3"
    using assms(2,3) by (auto simp: check_cmd_risk_control_def scan_cmds_iff split: if_splits option.splits)
  have s: "send_message_to_das_v2 L w = (if r = 1 then mkernel_internal_extend_no_find
       else if r = 2 then mkernel_internal_force_domain_risk else mkernel_internal_force_cmd_risk,
       w_free (if pub_msg_body ?c \<noteq> None then w_free (popped_v2 xs w) else popped_v2 xs w))"
    using r3 assms(3) by (auto simp: send_message_to_das_v2_def pop_v2_Cons [OF assms(1)] Let_def r)
  show "net_ops (snd (send_message_to_das_v2 L w)) = net_ops w"
    by (simp add: s w_free_def popped_v2_def)
  show "q_elems (q_pubmsg (snd (send_message_to_das_v2 L w))) = xs"
    by (simp add: s w_free_def popped_v2_def)
  show "fst (send_message_to_das_v2 L w) = (if r = 1 then mkernel_internal_extend_no_find
       else if r = 2 then mkernel_internal_force_domain_risk else mkernel_internal_force_cmd_risk)"
    by (simp add: s)
  show "lost_blocks (snd (send_message_to_das_v2 L w)) =
       lost_blocks w + of_bool (pub_externel_ctx (msg_conntext x) \<noteq> None)"
    using popped_v2_blocks [OF assms(1)] by (simp add: s pubmsg_blocks_def)
qed

section \<open>The receiver opens what the sender sealed\<close>

lemma plain_payload_length:
  "length common < 2 ^ 16 \<Longrightarrow> length (plain_payload common body) = 2 + length common + length body"
  by (simp add: plain_payload_def unat_of_nat_small)

lemma seal_open:
  assumes "cbc_ok (lib_tls L) key" and "length common < 2 ^ 16" and "length body < 2 ^ 30"
  defines "plain \<equiv> plain_payload common body"
  defines "plen \<equiv> unat (calculate_padding_len (of_nat (length plain)))"
  shows "\<exists>enc buf. aes_cbc_128_enc_padding (lib_tls L) key (plain @ zeros (plen - length plain)) (length plain) plen =
      (mkernel_internal_succ, enc, Some plen) \<and>
    open_payload L key enc = Some (buf, length plain, of_nat (length common)) \<and>
    take (length common) (drop 2 buf) = common \<and>
    take (unat (body_len (length plain) (of_nat (length common))))
      (moved_body buf (length plain) (of_nat (length common))) = body"
proof -
  have pl: "length plain = 2 + length common + length body"
    unfolding plain_def by (rule plain_payload_length [OF assms(2)])
  have p: "plain = serialize_short (of_nat (length common)) @ common @ body"
    using assms(2) by (simp add: plain_def plain_payload_def unat_of_nat_small)
  have "length plain < 2 ^ 31" using pl assms(2,3) by simp
  from enc_dec_roundtrip [OF this assms(1)] obtain c out where
    c: "aes_cbc_128_enc_padding (lib_tls L) key (plain @ zeros (plen - length plain)) (length plain) plen =
        (mkernel_internal_succ, c, Some plen)" "length out = plen"
       "aes_cbc_128_dec_padding (lib_tls L) key c = (mkernel_internal_succ, out, Some (length plain))"
       "take (length plain) out = plain"
    unfolding plen_def by blast
  let ?cl = "of_nat (length common) :: uint16"
  have cl: "unat ?cl = length common" using assms(2) by (simp add: unat_of_nat_small)
  have out: "out = plain @ drop (length plain) out" using c(4) by (metis append_take_drop_id)
  have t2: "take 2 out = serialize_short ?cl"
    by (subst out) (simp add: p)
  have cd: "deserialize_short (take 2 out) = ?cl"
    using deserialize_serialize_short [of ?cl "[]"] by (simp add: t2)
  have op: "open_payload L key c = Some (out, length plain, ?cl)"
    using c(3) by (simp add: open_payload_def Let_def cd cl pl)
  have h: "take (length common) (drop 2 out) = common"
    by (subst out) (simp add: p)
  have lp: "length plain \<le> length out" using out by (metis length_append le_add1)
  have bl: "unat (body_len (length plain) ?cl) = length body"
    using body_len_unat [of ?cl "length plain"] pl cl assms(2,3) by simp
  have "drop (2 + length common) out = body @ drop (length plain) out"
    by (subst out) (simp add: p)
  then have "take (unat (body_len (length plain) ?cl)) (moved_body out (length plain) ?cl) = body"
    by (simp add: moved_body_def bl cl)
  with c(1) op h show ?thesis by blast
qed

end
