(* ===== verification/Das_Session.thy ===== *)
theory Das_Session
  imports Das_Send
begin

text \<open>
  The DAS session, the last part of \<^verbatim>\<open>access/das_transport.c\<close>: connecting and logging
  in over MQTT, subscribing, logging out, and the periodic \<^verbatim>\<open>das_yield\<close>. The MQTT
  client (\<^verbatim>\<open>components/mqtt\<close>, Eclipse Paho) and the socket layer are outside the
  model: their results are the world's \<^verbatim>\<open>net_answers\<close>, and of the client's own state
  only the connected flag, the keep-alive interval and the time of the last
  packet are kept. Messages are delivered in \<^verbatim>\<open>MQTTYield\<close> only.
\<close>

section \<open>The MQTT client\<close>

text \<open>\<^verbatim>\<open>MQTTConnect\<close> returns \<^verbatim>\<open>FAILURE\<close> or the return code byte of the server's CONNACK.\<close>

definition MQTTConnect :: "bool \<Rightarrow> string \<Rightarrow> byte list \<Rightarrow> uint32 \<Rightarrow> world \<Rightarrow> int \<times> world" where
  "MQTTConnect cleansession will_topic will_message interval w =
     (if isconnected (das w) then (- 1, w)
      else
        let w1 = w\<lparr>das := (das w)\<lparr>keepAliveInterval := ucast (ucast interval :: uint16),
                                 connect_timer := ezcore_time_countdown (now w) 0\<rparr>\<rparr>
        in case net_call (Mqtt_connect cleansession will_topic will_message interval) w1 of (a, w2) \<Rightarrow>
          let rc = (if a < 0 then - 1 else a mod 256) in
          (rc, w2\<lparr>das := (das w2)\<lparr>isconnected := (rc = 0)\<rparr>\<rparr>))"

definition MQTTDisconnect :: "world \<Rightarrow> int \<times> world" where
  "MQTTDisconnect w =
     (if \<not> isconnected (das w) then (0, w)
      else case net_call Mqtt_disconnect w of (rc, w1) \<Rightarrow>
        (rc, w1\<lparr>das := (das w1)\<lparr>isconnected := False\<rparr>\<rparr>))"

fun deliver :: "libs \<Rightarrow> inbound \<Rightarrow> world \<Rightarrow> world" where
  "deliver L (In_v2 topic payload) w = das_message_receive L topic payload w"
| "deliver L (In_v3 topic payload) w = das_message_receive_v3 L topic payload w"
| "deliver L In_ack w = w"

definition MQTTYield :: "libs \<Rightarrow> world \<Rightarrow> int \<times> world" where
  "MQTTYield L w =
     (case net_call Mqtt_yield w of (rc, w1) \<Rightarrow>
       (case inbox w1 of
          [] \<Rightarrow> (rc, w1)
        | batch # later \<Rightarrow>
            let w2 = (if batch = [] then w1
                      else w1\<lparr>das := (das w1)\<lparr>connect_timer := ezcore_time_countdown (now w1) 0\<rparr>\<rparr>)
            in (rc, fold (deliver L) batch (w2\<lparr>inbox := later\<rparr>))))"

section \<open>The socket\<close>

definition set_socket :: "int \<Rightarrow> world \<Rightarrow> world" where
  "set_socket fd w = w\<lparr>das := (das w)\<lparr>socket_fd := fd\<rparr>\<rparr>"

definition MQTTNetInit :: "world \<Rightarrow> world" where
  "MQTTNetInit w = set_socket (- 1) w"

definition MQTTNetConnect :: "string \<Rightarrow> uint16 \<Rightarrow> world \<Rightarrow> mkernel_internal_error \<times> world" where
  "MQTTNetConnect ip port w =
     (case net_call (Net_create) w of (fd, w1) \<Rightarrow>
       let w2 = set_socket fd w1;
           (error_code, w3) = (if fd < 0 then (mkernel_internal_create_sock_error, w2)
             else case net_call (Net_connect ip port) w2 of (e, w3) \<Rightarrow>
               (if e \<noteq> mkernel_internal_succ \<and> e \<noteq> mkernel_internal_net_gethostbyname_error
                then mkernel_internal_net_connect_error else e, w3))
       in if error_code = mkernel_internal_succ then (error_code, w3)
          else if socket_fd (das w3) \<ge> 0
          then (error_code, set_socket (- 1) (snd (net_call Net_disconnect w3)))
          else (error_code, w3))"

definition MQTTNetDisconnect :: "world \<Rightarrow> world" where
  "MQTTNetDisconnect w =
     (if socket_fd (das w) \<noteq> - 1 then set_socket (- 1) (snd (net_call Net_disconnect w)) else w)"

definition MQTTNetFini :: "world \<Rightarrow> world" where
  "MQTTNetFini w = (if socket_fd (das w) = - 1 then w else set_socket (- 1) w)"

definition ezdev_sdk_kernel_get_das_socket :: "world \<Rightarrow> int" where
  "ezdev_sdk_kernel_get_das_socket w = socket_fd (das w)"

section \<open>Login and subscription\<close>

text \<open>The body of the function up to the clean-up of a failed attempt.\<close>

definition das_login_try :: "libs \<Rightarrow> bool \<Rightarrow> world \<Rightarrow> mkernel_internal_error \<times> world" where
  "das_login_try L light_reg w =
     (let k = kernel w in
      case MQTTNetConnect (das_address (redirect_das_info k)) (das_port (redirect_das_info k)) w of (e, w1) \<Rightarrow>
        if e \<noteq> mkernel_internal_succ then (e, w1)
        else if c_empty (dev_id k) then (mkernel_internal_input_param_invalid, w1)
        else
          let sub_topic = take 127 (if is_first_session (das w1)
                then ''/Basic/pu2cenplt/'' @ dev_subserial (dev_info k) @ ''/firstconnect''
                else ''/Basic/pu2cenplt/'' @ dev_subserial (dev_info k) @ ''/breakconnect'')
          in case (if \<not> light_reg then serialize_devinfo L w1 else serialize_lightreginfo L w1) of
            ((e2, will_message), w2) \<Rightarrow>
              (case will_message of
                 None \<Rightarrow> (e2, w2)
               | Some will \<Rightarrow>
                   (case MQTTConnect (\<not> light_reg) sub_topic will (das_keepalive_interval k) w2 of (rc, w3) \<Rightarrow>
                     (if rc \<noteq> 0
                      then (if rc = - 1 then mkernel_internal_call_mqtt_connect
                            else mkernel_internal_mqtt_error_begin + rc, w_free w3)
                      else (mkernel_internal_succ,
                            w_free (w3\<lparr>das := (das w3)\<lparr>is_first_session := False\<rparr>\<rparr>))))))"

definition das_mqttlogin2das :: "libs \<Rightarrow> bool \<Rightarrow> world \<Rightarrow> mkernel_internal_error \<times> world" where
  "das_mqttlogin2das L light_reg w =
     (case das_login_try L light_reg w of (sdk_error, w1) \<Rightarrow>
       if sdk_error \<noteq> mkernel_internal_succ then (sdk_error, MQTTNetFini (MQTTNetDisconnect w1))
       else (sdk_error, w1))"

definition das_mqtt_logout2das :: "world \<Rightarrow> mkernel_internal_error \<times> world" where
  "das_mqtt_logout2das w =
     (case MQTTDisconnect w of (mqtt_code, w1) \<Rightarrow>
       (mkernel_internal_succ, MQTTNetFini (MQTTNetDisconnect w1)))"

definition das_subscribe_revc_topic :: "bool \<Rightarrow> world \<Rightarrow> mkernel_internal_error \<times> world" where
  "das_subscribe_revc_topic open w =
     (let topic_v3 = take 127 (''/iot/'' @ dev_subserial (dev_info (kernel w)) @ ''/#'');
          topic_v2 = take 127 (''/'' @ dev_subserial (dev_info (kernel w)) @ ''/#'')
      in if open then
           (case (if v3_reg_status (kernel w) = Sdk_v3_reged then mqtt_call (Mqtt_subscribe topic_v3) w
                  else (0, w)) of (rc, w1) \<Rightarrow>
             if rc \<noteq> 0 then (mkernel_internal_call_mqtt_sub_error, w1)
             else (case mqtt_call (Mqtt_subscribe topic_v2) w1 of (rc2, w2) \<Rightarrow>
               if rc2 \<noteq> 0 then (mkernel_internal_call_mqtt_sub_error, w2)
               else (mkernel_internal_succ, w2)))
         else
           (let w1 = (if v3_reg_status (kernel w) = Sdk_v3_reged
                      then snd (mqtt_call (Mqtt_unsubscribe topic_v3) w) else w)
            in (mkernel_internal_succ, snd (mqtt_call (Mqtt_unsubscribe topic_v2) w1))))"

definition das_reg :: "libs \<Rightarrow> world \<Rightarrow> mkernel_internal_error \<times> world" where
  "das_reg L w =
     (case das_mqttlogin2das L False w of (e, w1) \<Rightarrow>
       if e \<noteq> mkernel_internal_succ then (e, w1)
       else (case das_subscribe_revc_topic True w1 of (e2, w2) \<Rightarrow>
         if e2 \<noteq> mkernel_internal_succ then (e2, snd (das_mqtt_logout2das w2)) else (e2, w2)))"

definition das_light_reg :: "libs \<Rightarrow> world \<Rightarrow> mkernel_internal_error \<times> world" where
  "das_light_reg L w = das_mqttlogin2das L True (snd (das_mqtt_logout2das w))"

definition das_light_reg_v2 :: "libs \<Rightarrow> world \<Rightarrow> mkernel_internal_error \<times> world" where
  "das_light_reg_v2 L w =
     (case das_mqttlogin2das L True w of (e, w1) \<Rightarrow>
       if e \<noteq> mkernel_internal_succ then (e, w1)
       else (case das_subscribe_revc_topic True w1 of (e2, w2) \<Rightarrow>
         if e2 \<noteq> mkernel_internal_succ then (e2, snd (das_mqtt_logout2das w2)) else (e2, w2)))"

definition das_unreg :: "world \<Rightarrow> mkernel_internal_error \<times> world" where
  "das_unreg w = (mkernel_internal_succ, snd (das_mqtt_logout2das (snd (das_subscribe_revc_topic False w))))"

definition das_change_keep_alive_interval :: "uint16 \<Rightarrow> world \<Rightarrow> mkernel_internal_error \<times> world" where
  "das_change_keep_alive_interval interval w =
     (mkernel_internal_succ,
      w\<lparr>kernel := (kernel w)\<lparr>das_keepalive_interval := ucast interval\<rparr>,
        das := (das w)\<lparr>keepAliveInterval := ucast interval\<rparr>\<rparr>)"

definition das_object_init :: "bool \<times> bool \<times> bool \<times> bool \<times> bool \<Rightarrow> world \<Rightarrow> world" where
  "das_object_init mutexes w =
     (let w1 = MQTTNetInit w;
          w2 = w1\<lparr>das := (das w1)\<lparr>isconnected := False\<rparr>\<rparr>
      in snd (init_queue mutexes (of_nat CONFIG_EZIOT_CORE_MESSAGE_NUMBER_MAX)
           (of_nat CONFIG_EZIOT_CORE_MESSAGE_NUMBER_MAX) (of_nat (CONFIG_EZIOT_CORE_MESSAGE_NUMBER_MAX * 4)) w2))"

definition das_object_fini :: "world \<Rightarrow> world" where
  "das_object_fini w = (fini_queue (MQTTNetFini w))\<lparr>das_transport_seq := 0\<rparr>"

section \<open>The periodic step\<close>

definition das_yield :: "libs \<Rightarrow> world \<Rightarrow> mkernel_internal_error \<times> world" where
  "das_yield L w =
     (case MQTTYield L w of (mqtt_result, w1) \<Rightarrow>
       if mqtt_result < 0 then (mkernel_internal_das_need_reconnect, w1)
       else
         let w2 = (if keepAliveInterval (das w1) \<noteq> das_keepalive_interval (kernel w1)
                   then w1\<lparr>das := (das w1)\<lparr>keepAliveInterval := das_keepalive_interval (kernel w1)\<rparr>\<rparr> else w1)
         in if \<not> ezcore_time_isexpired_bydiff (now w2) (Some (connect_timer (das w2)))
                  (uint (keepAliveInterval (das w2) * 2000))
            then (case das_message_send L w2 of (e, w3) \<Rightarrow>
              (if e \<noteq> mkernel_internal_das_need_reconnect then mkernel_internal_succ else e, w3))
            else (mkernel_internal_das_need_reconnect, w2))"

section \<open>What a session operation may touch\<close>

text \<open>
  Login, logout and subscription leave the kernel context, the queues, the tables
  and the callbacks alone.
\<close>

definition sess_frame :: "world \<Rightarrow> world \<Rightarrow> bool" where
  "sess_frame w w' \<longleftrightarrow> w' = w\<lparr>w_mem := w_mem w', net_answers := net_answers w', net_ops := net_ops w',
     w_fault := w_fault w', das := das w'\<rparr>"

lemma sess_frame_refl: "sess_frame w w"
  by (simp add: sess_frame_def)

lemma sess_frame_trans [trans]:
  assumes "sess_frame w w1" and "sess_frame w1 w2"
  shows "sess_frame w w2"
proof -
  have 1: "w1 = w\<lparr>w_mem := w_mem w1, net_answers := net_answers w1, net_ops := net_ops w1,
      w_fault := w_fault w1, das := das w1\<rparr>"
    using assms(1) by (simp add: sess_frame_def)
  have 2: "w2 = w1\<lparr>w_mem := w_mem w2, net_answers := net_answers w2, net_ops := net_ops w2,
      w_fault := w_fault w2, das := das w2\<rparr>"
    using assms(2) by (simp add: sess_frame_def)
  show ?thesis unfolding sess_frame_def by (subst 2, subst 1) simp
qed

lemma sess_frame_pub: "pub_frame w w' \<Longrightarrow> sess_frame w w'"
proof -
  assume "pub_frame w w'"
  then have 1: "w' = w\<lparr>w_mem := w_mem w', net_answers := net_answers w', net_ops := net_ops w', w_fault := w_fault w'\<rparr>"
    by (simp add: pub_frame_def)
  have "das w' = das w" by (subst 1) simp
  with 1 show ?thesis by (simp add: sess_frame_def)
qed

lemma sess_frame_das: "sess_frame w (w\<lparr>das := d\<rparr>)"
  by (simp add: sess_frame_def)

lemma sess_frame_net: "net_call p w = (r, w') \<Longrightarrow> sess_frame w w'" "mqtt_call p w = (r, w') \<Longrightarrow> sess_frame w w'"
  by (auto simp: net_call_def mqtt_call_def sess_frame_def split: list.splits if_splits)

lemma sess_frame_fields:
  assumes "sess_frame w w'"
  shows "kernel w' = kernel w" "now w' = now w" "q_inner w' = q_inner w" "q_pubmsg w' = q_pubmsg w"
    "q_pubmsg_v3 w' = q_pubmsg_v3 w" "q_submsg w' = q_submsg w" "q_submsg_v3 w' = q_submsg_v3 w"
    "calls w' = calls w" "domains w' = domains w" "inbox w' = inbox w"
proof -
  have 1: "w' = w\<lparr>w_mem := w_mem w', net_answers := net_answers w', net_ops := net_ops w',
      w_fault := w_fault w', das := das w'\<rparr>"
    using assms by (simp add: sess_frame_def)
  show "kernel w' = kernel w" "now w' = now w" "q_inner w' = q_inner w" "q_pubmsg w' = q_pubmsg w"
    "q_pubmsg_v3 w' = q_pubmsg_v3 w" "q_submsg w' = q_submsg w" "q_submsg_v3 w' = q_submsg_v3 w"
    "calls w' = calls w" "domains w' = domains w" "inbox w' = inbox w"
    by (subst 1, simp)+
qed

lemma sess_frame_parts:
  assumes "sess_frame w w'"
  shows "parts_kept w w'"
proof -
  have "parts_kept w (w\<lparr>w_mem := w_mem w', net_answers := net_answers w', net_ops := net_ops w',
      w_fault := w_fault w', das := das w'\<rparr>)" by (simp add: parts_kept_def queues_wf_def)
  moreover have "w\<lparr>w_mem := w_mem w', net_answers := net_answers w', net_ops := net_ops w',
      w_fault := w_fault w', das := das w'\<rparr> = w'" using assms by (simp add: sess_frame_def)
  ultimately show ?thesis by simp
qed

lemma sess_frame_set_socket: "sess_frame w (set_socket fd w)"
  by (simp add: set_socket_def sess_frame_das)

lemma sess_frame_snd: "(\<And>r w'. f w = (r, w') \<Longrightarrow> sess_frame w w') \<Longrightarrow> sess_frame w (snd (f w))"
  by (cases "f w") auto

lemma pub_frame_encrypt: "encrypt_document L root w = (r, w') \<Longrightarrow> pub_frame w w'"
proof -
  assume e: "encrypt_document L root w = (r, w')"
  obtain tx w1 where 1: "cJSON_PrintUnformatted L root w = (tx, w1)" by fastforce
  note f1 = pub_frame_print [OF 1]
  have fr: "pub_frame w (w_free v)" "pub_frame w (w_json_delete j v)" if "pub_frame w v" for v j
    using that pub_frame_trans pub_frame_steps by blast+
  have ml: "pub_frame w v'" if "w_malloc v = (ok, v')" "pub_frame w v" for v ok v'
    using that pub_frame_trans pub_frame_malloc by blast
  show ?thesis
    using e 1 f1 by (auto simp: encrypt_document_def Let_def split: option.splits prod.splits if_splits
        intro!: fr dest: ml)
qed

lemma pub_frame_lightreg: "serialize_lightreginfo L w = (r, w') \<Longrightarrow> pub_frame w w'"
  by (auto simp: serialize_lightreginfo_def split: prod.splits option.splits
      dest!: pub_frame_w_json pub_frame_encrypt intro: pub_frame_trans)

lemma pub_frame_version: "extend_serialize_sdk_version j w = (r, w') \<Longrightarrow> pub_frame w w'"
  by (auto simp: extend_serialize_sdk_version_def pub_frame_def split: prod.splits if_splits)

lemma pub_frame_devinfo: "serialize_devinfo L w = (r, w') \<Longrightarrow> pub_frame w w'"
proof -
  assume e: "serialize_devinfo L w = (r, w')"
  have jd: "pub_frame w (w_json_delete j v)" if "pub_frame w v" for v j
    using that pub_frame_trans pub_frame_steps by blast
  show ?thesis
    using e by (auto simp: serialize_devinfo_def Let_def split: prod.splits option.splits if_splits
        dest!: pub_frame_w_json pub_frame_version pub_frame_encrypt intro!: jd intro: pub_frame_trans)
qed

lemma net_call_das: "net_call p w = (r, w') \<Longrightarrow> das w' = das w" "mqtt_call p w = (r, w') \<Longrightarrow> das w' = das w"
  by (auto simp: net_call_def mqtt_call_def split: list.splits if_splits)

lemma set_socket_simps [simp]:
  "socket_fd (das (set_socket fd w)) = fd" "isconnected (das (set_socket fd w)) = isconnected (das w)"
  "is_first_session (das (set_socket fd w)) = is_first_session (das w)"
  by (simp_all add: set_socket_def)

lemma MQTTNetConnect_effect:
  assumes "MQTTNetConnect ip port w = (e, w')"
  shows "sess_frame w w'" "isconnected (das w') = isconnected (das w)"
    "e = mkernel_internal_succ \<Longrightarrow> socket_fd (das w') \<ge> 0"
proof -
  obtain fd w1 where 1: "net_call Net_create w = (fd, w1)" by fastforce
  obtain e3 w3 where 3: "net_call (Net_connect ip port) (set_socket fd w1) = (e3, w3)" by fastforce
  obtain r4 w4 where 4: "net_call Net_disconnect w3 = (r4, w4)" by fastforce
  note d = net_call_das(1) [OF 1] net_call_das(1) [OF 3] net_call_das(1) [OF 4]
  note f2 = sess_frame_trans [OF sess_frame_net(1) [OF 1] sess_frame_set_socket [of _ fd]]
  note f3 = sess_frame_trans [OF f2 sess_frame_net(1) [OF 3]]
  note f5 = sess_frame_trans [OF sess_frame_trans [OF f3 sess_frame_net(1) [OF 4]] sess_frame_set_socket [of _ "- 1"]]
  show "sess_frame w w'" "isconnected (das w') = isconnected (das w)"
    "e = mkernel_internal_succ \<Longrightarrow> socket_fd (das w') \<ge> 0"
    using assms d f2 f3 f5
    by (auto simp: MQTTNetConnect_def 1 3 4 Let_def split: if_splits)
qed

lemma MQTTNet_close:
  "sess_frame w (MQTTNetFini (MQTTNetDisconnect w))"
  "isconnected (das (MQTTNetFini (MQTTNetDisconnect w))) = isconnected (das w)"
  "socket_fd (das (MQTTNetFini (MQTTNetDisconnect w))) = - 1"
proof -
  obtain r w1 where 1: "net_call Net_disconnect w = (r, w1)" by fastforce
  note d = net_call_das(1) [OF 1]
  show "sess_frame w (MQTTNetFini (MQTTNetDisconnect w))"
    by (auto simp: MQTTNetFini_def MQTTNetDisconnect_def 1 sess_frame_refl
        intro: sess_frame_trans [OF sess_frame_net(1) [OF 1] sess_frame_set_socket])
  show "isconnected (das (MQTTNetFini (MQTTNetDisconnect w))) = isconnected (das w)"
    "socket_fd (das (MQTTNetFini (MQTTNetDisconnect w))) = - 1"
    by (simp_all add: MQTTNetFini_def MQTTNetDisconnect_def 1 d)
qed

lemma MQTTConnect_effect:
  assumes "MQTTConnect c topic will iv w = (rc, w')"
  shows "sess_frame w w'" "socket_fd (das w') = socket_fd (das w)"
    "\<not> isconnected (das w) \<Longrightarrow> isconnected (das w') \<longleftrightarrow> rc = 0"
    "isconnected (das w) \<Longrightarrow> w' = w \<and> rc = - 1"
proof -
  let ?w1 = "w\<lparr>das := (das w)\<lparr>keepAliveInterval := ucast (ucast iv :: uint16),
    connect_timer := ezcore_time_countdown (now w) 0\<rparr>\<rparr>"
  obtain r w2 where 2: "net_call (Mqtt_connect c topic will iv) ?w1 = (r, w2)" by fastforce
  note f = sess_frame_trans [OF sess_frame_trans [OF sess_frame_das sess_frame_net(1) [OF 2]] sess_frame_das]
  show "sess_frame w w'" "socket_fd (das w') = socket_fd (das w)"
    "\<not> isconnected (das w) \<Longrightarrow> isconnected (das w') \<longleftrightarrow> rc = 0"
    "isconnected (das w) \<Longrightarrow> w' = w \<and> rc = - 1"
    using assms f net_call_das(1) [OF 2]
    by (auto simp: MQTTConnect_def 2 Let_def sess_frame_refl split: if_splits)
qed

lemma MQTTConnect_code: "MQTTConnect c topic will iv w = (rc, w') \<Longrightarrow> rc = - 1 \<or> 0 \<le> rc"
  by (auto simp: MQTTConnect_def Let_def split: prod.splits if_splits)

lemma encrypt_None: "encrypt_document L root w = ((e, None), w') \<Longrightarrow> e \<noteq> mkernel_internal_succ"
  by (auto simp: encrypt_document_def Let_def split: option.splits prod.splits if_splits)

lemma document_None:
  "serialize_devinfo L w = ((e, None), w') \<Longrightarrow> e \<noteq> mkernel_internal_succ"
  "serialize_lightreginfo L w = ((e, None), w') \<Longrightarrow> e \<noteq> mkernel_internal_succ"
  by (auto simp: serialize_devinfo_def serialize_lightreginfo_def Let_def
      split: option.splits prod.splits if_splits dest: encrypt_None)

lemma pub_frame_das: "pub_frame w w' \<Longrightarrow> das w' = das w"
proof -
  assume "pub_frame w w'"
  then have 1: "w' = w\<lparr>w_mem := w_mem w', net_answers := net_answers w', net_ops := net_ops w', w_fault := w_fault w'\<rparr>"
    by (simp add: pub_frame_def)
  show ?thesis by (subst 1) simp
qed

lemma w_free_das [simp]: "das (w_free w) = das w"
  by (simp add: w_free_def)

lemma das_login_try_effect:
  assumes "das_login_try L light w = (e, w')" and "\<not> isconnected (das w)"
  shows "sess_frame w w' \<and> (isconnected (das w') \<longleftrightarrow> e = mkernel_internal_succ) \<and>
    (e = mkernel_internal_succ \<longrightarrow> socket_fd (das w') \<ge> 0 \<and> \<not> is_first_session (das w'))"
proof -
  let ?k = "kernel w"
  obtain e1 w1 where 1: "MQTTNetConnect (das_address (redirect_das_info ?k)) (das_port (redirect_das_info ?k)) w = (e1, w1)"
    by fastforce
  note n = MQTTNetConnect_effect [OF 1]
  let ?ser = "if \<not> light then serialize_devinfo L w1 else serialize_lightreginfo L w1"
  obtain e2 will w2 where 2: "?ser = ((e2, will), w2)" by (metis surj_pair)
  have f2: "pub_frame w1 w2" using 2 by (auto split: if_splits dest: pub_frame_devinfo pub_frame_lightreg)
  have none: "will = None \<Longrightarrow> e2 \<noteq> mkernel_internal_succ"
    using 2 by (auto split: if_splits dest: document_None)
  note s2 = sess_frame_trans [OF n(1) sess_frame_pub [OF f2]]
  have d2: "das w2 = das w1" by (rule pub_frame_das [OF f2])
  show ?thesis
  proof (cases "e1 = mkernel_internal_succ \<and> \<not> c_empty (dev_id ?k) \<and> will \<noteq> None")
    case False
    with assms n s2 d2 none show ?thesis
      by (auto simp: das_login_try_def Let_def 1 2 split: if_splits option.splits)
  next
    case True
    then obtain wl where wl: "will = Some wl" by blast
    define topic where "topic = take 127 (if is_first_session (das w1)
      then ''/Basic/pu2cenplt/'' @ dev_subserial (dev_info ?k) @ ''/firstconnect''
      else ''/Basic/pu2cenplt/'' @ dev_subserial (dev_info ?k) @ ''/breakconnect'')"
    obtain rc w3 where 3: "MQTTConnect (\<not> light) topic wl (das_keepalive_interval ?k) w2 = (rc, w3)" by fastforce
    note c = MQTTConnect_effect [OF 3] and code = MQTTConnect_code [OF 3]
    have s3: "sess_frame w w3" by (rule sess_frame_trans [OF s2 c(1)])
    have fr: "sess_frame w (w_free v)" if "sess_frame w v" for v
      using that sess_frame_trans sess_frame_pub pub_frame_steps(1) by blast
    have res: "das_login_try L light w = (if rc \<noteq> 0
        then (if rc = - 1 then mkernel_internal_call_mqtt_connect else mkernel_internal_mqtt_error_begin + rc, w_free w3)
        else (mkernel_internal_succ, w_free (w3\<lparr>das := (das w3)\<lparr>is_first_session := False\<rparr>\<rparr>)))"
      using True by (simp add: das_login_try_def Let_def 1 2 wl topic_def [symmetric] 3)
    have nc: "\<not> isconnected (das w2)" using assms(2) n(2) d2 by simp
    show ?thesis
      using assms(1) res c(2) c(3) [OF nc] code n(3) True d2 fr [OF s3] fr [OF sess_frame_trans [OF s3 sess_frame_das]]
      by (auto split: if_splits)
  qed
qed

text \<open>
  Logging in from a logged-out state: on success the client is connected over an
  open socket, otherwise the socket is closed again and the client not connected.
\<close>

lemma das_mqttlogin2das_effect:
  assumes "das_mqttlogin2das L light w = (e, w')" and "\<not> isconnected (das w)"
  shows "sess_frame w w'"
    "e = mkernel_internal_succ \<Longrightarrow> isconnected (das w') \<and> socket_fd (das w') \<ge> 0 \<and> \<not> is_first_session (das w')"
    "e \<noteq> mkernel_internal_succ \<Longrightarrow> \<not> isconnected (das w') \<and> socket_fd (das w') = - 1"
proof -
  obtain e1 w1 where 1: "das_login_try L light w = (e1, w1)" by fastforce
  from assms 1 das_login_try_effect [OF 1 assms(2)] MQTTNet_close [of w1] show
    "sess_frame w w'"
    "e = mkernel_internal_succ \<Longrightarrow> isconnected (das w') \<and> socket_fd (das w') \<ge> 0 \<and> \<not> is_first_session (das w')"
    "e \<noteq> mkernel_internal_succ \<Longrightarrow> \<not> isconnected (das w') \<and> socket_fd (das w') = - 1"
    by (auto simp: das_mqttlogin2das_def split: if_splits intro: sess_frame_trans)
qed

lemma das_mqtt_logout2das_effect:
  assumes "das_mqtt_logout2das w = (e, w')"
  shows "sess_frame w w'" "\<not> isconnected (das w')" "socket_fd (das w') = - 1" "e = mkernel_internal_succ"
proof -
  obtain rc w1 where 1: "MQTTDisconnect w = (rc, w1)" by fastforce
  have "sess_frame w w1 \<and> \<not> isconnected (das w1)"
    using 1 by (auto simp: MQTTDisconnect_def sess_frame_refl split: if_splits prod.splits
        intro: sess_frame_trans [OF sess_frame_net(1) sess_frame_das])
  with assms 1 MQTTNet_close [of w1] show "sess_frame w w'" "\<not> isconnected (das w')"
    "socket_fd (das w') = - 1" "e = mkernel_internal_succ"
    by (auto simp: das_mqtt_logout2das_def intro: sess_frame_trans)
qed

lemma mqtt_call_snd [simp]: "sess_frame w (snd (mqtt_call p w))" "das (snd (mqtt_call p w)) = das w"
  by (cases "mqtt_call p w", simp add: sess_frame_net(2) net_call_das(2))+

lemma das_subscribe_effect:
  assumes "das_subscribe_revc_topic open w = (e, w')"
  shows "sess_frame w w'" "das w' = das w"
proof -
  have t: "sess_frame w (snd (mqtt_call q (snd (mqtt_call p w))))" for p q
    by (rule sess_frame_trans [OF mqtt_call_snd(1) mqtt_call_snd(1)])
  have e: "sess_frame v v' \<and> das v' = das v" if "mqtt_call p v = (r, v')" for p v r v'
    using that sess_frame_net(2) net_call_das(2) by blast
  have "sess_frame w w' \<and> das w' = das w"
    using assms unfolding das_subscribe_revc_topic_def Let_def
    by (auto simp: sess_frame_refl t simp del: take_append split: if_splits prod.splits
        dest!: e intro: sess_frame_trans)
  then show "sess_frame w w'" "das w' = das w" by simp_all
qed

text \<open>Registration from a logged-out state ends connected and subscribed, or logged out.\<close>

definition logged_out :: "world \<Rightarrow> bool" where
  "logged_out w \<longleftrightarrow> \<not> isconnected (das w) \<and> socket_fd (das w) = - 1"

definition logged_in :: "world \<Rightarrow> bool" where
  "logged_in w \<longleftrightarrow> isconnected (das w) \<and> socket_fd (das w) \<ge> 0"

lemma das_unreg_effect:
  assumes "das_unreg w = (e, w')"
  shows "sess_frame w w'" "logged_out w'" "e = mkernel_internal_succ"
proof -
  obtain e1 w1 where 1: "das_subscribe_revc_topic False w = (e1, w1)" by fastforce
  obtain e2 w2 where 2: "das_mqtt_logout2das w1 = (e2, w2)" by fastforce
  from assms 1 2 das_subscribe_effect [OF 1] das_mqtt_logout2das_effect [OF 2]
  show "sess_frame w w'" "logged_out w'" "e = mkernel_internal_succ"
    by (auto simp: das_unreg_def logged_out_def intro: sess_frame_trans)
qed

lemma login_then_subscribe:
  assumes "(case das_mqttlogin2das L light w of (e, w1) \<Rightarrow>
       if e \<noteq> mkernel_internal_succ then (e, w1)
       else (case das_subscribe_revc_topic True w1 of (e2, w2) \<Rightarrow>
         if e2 \<noteq> mkernel_internal_succ then (e2, snd (das_mqtt_logout2das w2)) else (e2, w2))) = (e, w')"
    and "\<not> isconnected (das w)"
  shows "sess_frame w w' \<and> (if e = mkernel_internal_succ then logged_in w' else logged_out w')"
proof -
  obtain e1 w1 where 1: "das_mqttlogin2das L light w = (e1, w1)" by fastforce
  obtain e2 w2 where 2: "das_subscribe_revc_topic True w1 = (e2, w2)" by fastforce
  obtain e3 w3 where 3: "das_mqtt_logout2das w2 = (e3, w3)" by fastforce
  note l = das_mqttlogin2das_effect [OF 1 assms(2)] and s = das_subscribe_effect [OF 2]
    and o = das_mqtt_logout2das_effect [OF 3]
  note f = sess_frame_trans [OF l(1) s(1)]
  show ?thesis
    using assms(1) l s(2) o f sess_frame_trans [OF f o(1)]
    by (auto simp: 1 2 3 logged_in_def logged_out_def split: if_splits)
qed

lemma das_reg_effect:
  assumes "das_reg L w = (e, w')" and "\<not> isconnected (das w)"
  shows "sess_frame w w'" "if e = mkernel_internal_succ then logged_in w' else logged_out w'"
  using login_then_subscribe [of L False w e w'] assms by (simp_all add: das_reg_def)

lemma das_light_reg_v2_effect:
  assumes "das_light_reg_v2 L w = (e, w')" and "\<not> isconnected (das w)"
  shows "sess_frame w w'" "if e = mkernel_internal_succ then logged_in w' else logged_out w'"
  using login_then_subscribe [of L True w e w'] assms by (simp_all add: das_light_reg_v2_def)

lemma das_light_reg_effect:
  assumes "das_light_reg L w = (e, w')"
  shows "sess_frame w w'" "if e = mkernel_internal_succ then logged_in w' else logged_out w'"
proof -
  obtain e1 w1 where 1: "das_mqtt_logout2das w = (e1, w1)" by fastforce
  note o = das_mqtt_logout2das_effect [OF 1]
  from assms 1 have "das_mqttlogin2das L True w1 = (e, w')" by (simp add: das_light_reg_def)
  note l = das_mqttlogin2das_effect [OF this o(2)]
  show "sess_frame w w'" by (rule sess_frame_trans [OF o(1) l(1)])
  show "if e = mkernel_internal_succ then logged_in w' else logged_out w'"
    using l(2,3) by (simp add: logged_in_def logged_out_def)
qed

section \<open>What a yield may do to the kernel context\<close>

text \<open>
  Server messages reach the kernel context through the access domain's commands
  only. Those keep the counters, the state of the SDK and the session, and either
  keep the connection state or send the device back to the LBS.
\<close>

definition kernel_step :: "ezdev_sdk_kernel \<Rightarrow> ezdev_sdk_kernel \<Rightarrow> bool" where
  "kernel_step k k' \<longleftrightarrow>
     k' = k\<lparr>das_keepalive_interval := das_keepalive_interval k', server_info := server_info k',
            master_key := master_key k', entr_state := entr_state k', cnt_state := cnt_state k',
            access_risk := access_risk k'\<rparr> \<and>
     (cnt_state k' = cnt_state k \<and> entr_state k' = entr_state k \<and> master_key k' = master_key k \<or>
      cnt_state k' = Sdk_cnt_unredirect \<and> entr_state k' = Sdk_entrance_switchover \<and>
      master_key k' = zeros ezdev_sdk_masterkey_len)"

lemma kernel_step_refl: "kernel_step k k"
  by (simp add: kernel_step_def)

lemma kernel_step_trans:
  assumes "kernel_step k k1" and "kernel_step k1 k2"
  shows "kernel_step k k2"
proof -
  have 1: "k1 = k\<lparr>das_keepalive_interval := das_keepalive_interval k1, server_info := server_info k1,
      master_key := master_key k1, entr_state := entr_state k1, cnt_state := cnt_state k1, access_risk := access_risk k1\<rparr>"
    using assms(1) by (simp add: kernel_step_def)
  have 2: "k2 = k1\<lparr>das_keepalive_interval := das_keepalive_interval k2, server_info := server_info k2,
      master_key := master_key k2, entr_state := entr_state k2, cnt_state := cnt_state k2, access_risk := access_risk k2\<rparr>"
    using assms(2) by (simp add: kernel_step_def)
  have "k2 = k\<lparr>das_keepalive_interval := das_keepalive_interval k2, server_info := server_info k2,
      master_key := master_key k2, entr_state := entr_state k2, cnt_state := cnt_state k2, access_risk := access_risk k2\<rparr>"
    by (subst 2, subst 1) simp
  with assms show ?thesis unfolding kernel_step_def by auto
qed

lemma kernel_step_fields:
  assumes "kernel_step k k'"
  shows "lbs_redirect_times k' = lbs_redirect_times k" "das_retry_times k' = das_retry_times k"
    "my_state k' = my_state k" "session_key k' = session_key k" "dev_id k' = dev_id k"
    "redirect_das_info k' = redirect_das_info k" "cnt_state_timer k' = cnt_state_timer k"
    "cnt_state k' = cnt_state k \<or> cnt_state k' = Sdk_cnt_unredirect"
proof -
  have 1: "k' = k\<lparr>das_keepalive_interval := das_keepalive_interval k', server_info := server_info k',
      master_key := master_key k', entr_state := entr_state k', cnt_state := cnt_state k', access_risk := access_risk k'\<rparr>"
    using assms by (simp add: kernel_step_def)
  show "lbs_redirect_times k' = lbs_redirect_times k" "das_retry_times k' = das_retry_times k"
    "my_state k' = my_state k" "session_key k' = session_key k" "dev_id k' = dev_id k"
    "redirect_das_info k' = redirect_das_info k" "cnt_state_timer k' = cnt_state_timer k"
    by (subst 1, simp)+
  show "cnt_state k' = cnt_state k \<or> cnt_state k' = Sdk_cnt_unredirect"
    using assms by (auto simp: kernel_step_def)
qed

lemma kernel_risk_simps [simp]:
  "kernel (add_domain_risk_control d w) = kernel w" "kernel (add_cmd_risk_control d c w) = kernel w"
  by (simp_all add: add_domain_risk_control_def add_cmd_risk_control_def split: option.split)

lemma kernel_dev_risk: "kernel (snd (bus_handle_dev_risk tp msg w)) = kernel w"
proof -
  have c: "kernel (risk_cmds d jd n w) = kernel w" for d jd n w
    unfolding risk_cmds_def by (rule fold_keeps) (simp split: option.split)
  have d: "(kernel \<circ> snd) (risk_domain n j s) = (kernel \<circ> snd) s" for n j s
    by (cases s) (simp add: risk_domain_def c Let_def split: option.split)
  have "(kernel \<circ> snd) (fold (\<lambda>i. risk_domain n (g i)) xs s) = (kernel \<circ> snd) s"
    for n and g :: "nat \<Rightarrow> _" and xs s
    by (rule fold_keeps) (rule d)
  then show ?thesis by (simp add: bus_handle_dev_risk_def Let_def split: option.split)
qed

lemma bus_handle_kernel_step: "kernel_step (kernel w) (kernel (snd (access_domain_bus_handle tp msg w)))"
proof -
  have 1: "kernel_step (kernel w) (kernel (snd (bus_handle_domainconfig tp msg w)))"
    by (auto simp: bus_handle_domainconfig_def bus_handle_domainconfig_keepalive_def
        bus_handle_domainconfig_ntp_def kernel_step_def Let_def split: option.split)
  have 2: "kernel_step (kernel w) (kernel (snd (bus_handle_dev_redirect tp msg w)))"
    by (auto simp: bus_handle_dev_redirect_def kernel_step_def split: prod.split)
  have 3: "kernel_step (kernel w) (kernel (snd (bus_handle_force_offline w)))"
    by (simp add: bus_handle_force_offline_def add_access_risk_control_def kernel_step_def)
  show ?thesis
    using 1 2 3 by (simp add: access_domain_bus_handle_def Let_def kernel_dev_risk kernel_step_refl)
qed

text \<open>
  A delivered message changes the kernel context by such a step; the MQTT session
  and the clock stay as they are.
\<close>

definition deliver_frame :: "world \<Rightarrow> world \<Rightarrow> bool" where
  "deliver_frame w w' \<longleftrightarrow> kernel_step (kernel w) (kernel w') \<and> das w' = das w \<and> now w' = now w \<and>
     q_pubmsg w' = q_pubmsg w \<and> q_pubmsg_v3 w' = q_pubmsg_v3 w \<and> q_inner w' = q_inner w \<and> parts_kept w w'"

lemma deliver_frame_refl: "deliver_frame w w"
  by (simp add: deliver_frame_def kernel_step_refl parts_kept_refl)

lemma deliver_frame_trans: "deliver_frame w w1 \<Longrightarrow> deliver_frame w1 w2 \<Longrightarrow> deliver_frame w w2"
  by (auto simp: deliver_frame_def intro: kernel_step_trans parts_kept_trans)

lemma deliver_frame_steps:
  "deliver_frame w (w_free w)" "deliver_frame w (faulty b w)"
  "w_malloc w = (ok, w') \<Longrightarrow> deliver_frame w w'"
  "push_queue_submsg x w = (e, w') \<Longrightarrow> deliver_frame w w'"
  "push_queue_submsg_v3 y w = (e, w') \<Longrightarrow> deliver_frame w w'"
proof -
  show "deliver_frame w (w_free w)" "deliver_frame w (faulty b w)"
    using parts_kept_steps(1,2) [of w]
    by (simp_all add: deliver_frame_def kernel_step_refl w_free_def faulty_def)
  show "w_malloc w = (ok, w') \<Longrightarrow> deliver_frame w w'"
    using parts_kept_steps(3) [of w ok w']
    by (auto simp: deliver_frame_def kernel_step_refl w_malloc_def split: prod.splits)
  show "push_queue_submsg x w = (e, w') \<Longrightarrow> deliver_frame w w'"
    using parts_kept_steps(4) [of x w e w']
    by (auto simp: deliver_frame_def kernel_step_refl push_queue_submsg_def split: prod.splits)
  show "push_queue_submsg_v3 y w = (e, w') \<Longrightarrow> deliver_frame w w'"
    using parts_kept_steps(5) [of y w e w']
    by (auto simp: deliver_frame_def kernel_step_refl push_queue_submsg_v3_def split: prod.splits)
qed

lemma deliver_frame_free: "deliver_frame w v \<Longrightarrow> deliver_frame w (w_free v)"
  and deliver_frame_faulty: "deliver_frame w v \<Longrightarrow> deliver_frame w (faulty b v)"
  and deliver_frame_malloc: "w_malloc v = (ok, v') \<Longrightarrow> deliver_frame w v \<Longrightarrow> deliver_frame w v'"
  by (rule deliver_frame_trans, assumption, erule deliver_frame_steps
      | rule deliver_frame_trans, assumption, rule deliver_frame_steps)+

lemma deliver_frame_bus: "deliver_frame w (snd (access_domain_bus_handle tp msg w))"
proof -
  from bus_handle_frame [of w tp msg] have b: "snd (access_domain_bus_handle tp msg w) =
      w\<lparr>kernel := kernel (snd (access_domain_bus_handle tp msg w)),
        domains := domains (snd (access_domain_bus_handle tp msg w))\<rparr>"
    by (simp add: bus_frame_def)
  let ?w = "snd (access_domain_bus_handle tp msg w)"
  have "parts_kept w ?w"
    by (rule parts_kept_bus [OF bus_handle_frame])
  moreover have "das ?w = das w" "now ?w = now w" "q_pubmsg ?w = q_pubmsg w" "q_pubmsg_v3 ?w = q_pubmsg_v3 w"
    "q_inner ?w = q_inner w"
    by (subst b, simp)+
  ultimately show ?thesis using bus_handle_kernel_step by (simp add: deliver_frame_def)
qed

lemma deliver_frame_handle: "deliver_frame w (handle_sub_msg L msg w)"
  by (auto simp: handle_sub_msg_def Let_def split: prod.split
      dest: deliver_frame_steps(4) intro: deliver_frame_free deliver_frame_bus deliver_frame_refl)

lemma deliver_frame_handle_v3: "deliver_frame w (handle_sub_msg_v3 msg w)"
  by (auto simp: handle_sub_msg_v3_def split: prod.split
      dest: deliver_frame_steps(5) intro: deliver_frame_free)

lemma deliver_frame_payload: "deliver_frame w (receive_payload L msg payload w)"
proof -
  have h: "deliver_frame w (handle_sub_msg L m v)" if "deliver_frame w v" for m v
    using that deliver_frame_trans deliver_frame_handle by blast
  show ?thesis
    by (auto simp: receive_payload_def split: prod.split option.split
        intro!: h deliver_frame_free deliver_frame_faulty
        elim!: deliver_frame_malloc intro: deliver_frame_refl)
qed

lemma deliver_frame_payload_v3: "deliver_frame w (receive_payload_v3 L msg payload w)"
proof -
  have h: "deliver_frame w (handle_sub_msg_v3 m v)" if "deliver_frame w v" for m v
    using that deliver_frame_trans deliver_frame_handle_v3 by blast
  show ?thesis
    by (auto simp: receive_payload_v3_def split: prod.split option.split
        intro!: h deliver_frame_free deliver_frame_faulty
        elim!: deliver_frame_malloc intro: deliver_frame_refl)
qed

lemma deliver_frame_deliver: "deliver_frame w (deliver L x w)"
proof (cases x)
  case (In_v2 topic payload)
  have h: "deliver_frame w (receive_payload L m payload v)" if "deliver_frame w v" for m v
    using that deliver_frame_trans deliver_frame_payload by blast
  show ?thesis
    by (auto simp: In_v2 das_message_receive_def split: prod.split option.split
        intro!: h deliver_frame_free deliver_frame_faulty
        elim!: deliver_frame_malloc intro: deliver_frame_refl)
next
  case (In_v3 topic payload)
  have h: "deliver_frame w (receive_payload_v3 L m payload v)" if "deliver_frame w v" for m v
    using that deliver_frame_trans deliver_frame_payload_v3 by blast
  show ?thesis
    by (auto simp: In_v3 das_message_receive_v3_def Let_def split: prod.split option.split sum.split
        intro!: h deliver_frame_free deliver_frame_faulty
        elim!: deliver_frame_malloc intro: deliver_frame_refl)
qed (simp add: deliver_frame_refl)

lemma deliver_frame_fold: "deliver_frame w (fold (deliver L) xs w)"
  by (induction xs arbitrary: w) (auto intro: deliver_frame_refl deliver_frame_trans deliver_frame_deliver)

lemma MQTTYield_effect:
  assumes "MQTTYield L w = (r, w')"
  shows "kernel_step (kernel w) (kernel w')" "isconnected (das w') = isconnected (das w)"
    "socket_fd (das w') = socket_fd (das w)" "now w' = now w" "parts_kept w w'"
proof -
  obtain rc w1 where 1: "net_call Mqtt_yield w = (rc, w1)" by fastforce
  note n = sess_frame_fields [OF sess_frame_net(1) [OF 1]] net_call_das(1) [OF 1]
  note p = sess_frame_parts [OF sess_frame_net(1) [OF 1]]
  have "kernel_step (kernel w) (kernel w') \<and> isconnected (das w') = isconnected (das w) \<and>
    socket_fd (das w') = socket_fd (das w) \<and> now w' = now w \<and> parts_kept w w'"
  proof (cases "inbox w1")
    case Nil
    with assms 1 n p show ?thesis by (simp add: MQTTYield_def kernel_step_refl)
  next
    case (Cons batch later)
    let ?w2 = "(if batch = [] then w1
      else w1\<lparr>das := (das w1)\<lparr>connect_timer := ezcore_time_countdown (now w1) 0\<rparr>\<rparr>)\<lparr>inbox := later\<rparr>"
    from assms 1 Cons have w': "w' = fold (deliver L) batch ?w2" by (simp add: MQTTYield_def Let_def)
    have d: "deliver_frame ?w2 w'" unfolding w' by (rule deliver_frame_fold)
    have "parts_kept w1 ?w2" by (simp add: parts_kept_def queues_wf_def)
    with p d have "parts_kept w w'" by (auto simp: deliver_frame_def intro: parts_kept_trans)
    with n d show ?thesis by (auto simp: deliver_frame_def split: if_splits)
  qed
  then show "kernel_step (kernel w) (kernel w')" "isconnected (das w') = isconnected (das w)"
    "socket_fd (das w') = socket_fd (das w)" "now w' = now w" "parts_kept w w'" by simp_all
qed

lemma send_kernel:
  "kernel (snd (send_message_to_das_v3 L w)) = kernel w \<and> das (snd (send_message_to_das_v3 L w)) = das w"
proof (cases "q_elems (q_pubmsg_v3 w)")
  case Nil
  then show ?thesis
    by (simp add: send_message_to_das_v3_def pop_queue_pubmsg_exchange_v3_def pop_queue_def)
next
  case (Cons x xs)
  obtain e1 w2 where s: "das_send_pubmsg_v3 L (msg_conntext_v3 x) (popped_v3 xs w) = (e1, w2)" by fastforce
  from das_send_pubmsg_v3_frame [OF s] have f: "pub_frame (popped_v3 xs w) w2" by simp
  have k: "kernel w2 = kernel w" "das w2 = das w"
    using pub_frame_queues(4) [OF f] pub_frame_das [OF f] by (simp_all add: popped_v3_def)
  have p: "kernel (snd (push_queue_head_pubmsg_exchange_v3 y w2)) = kernel w2 \<and>
      das (snd (push_queue_head_pubmsg_exchange_v3 y w2)) = das w2" for y
    by (simp add: push_queue_head_pubmsg_exchange_v3_def split: prod.split)
  show ?thesis
    by (simp add: send_message_to_das_v3_def pop_v3_Cons [OF Cons] s Let_def p k w_free_def)
qed

lemma send_kernel_v2:
  "kernel (snd (send_message_to_das_v2 L w)) = kernel w \<and> das (snd (send_message_to_das_v2 L w)) = das w"
proof (cases "q_elems (q_pubmsg w)")
  case Nil
  then show ?thesis
    by (simp add: send_message_to_das_v2_def pop_queue_pubmsg_exchange_def pop_queue_def)
next
  case (Cons x xs)
  obtain e1 w2 where s: "das_send_pubmsg L (msg_conntext x) (popped_v2 xs w) = (e1, w2)" by fastforce
  from das_send_pubmsg_frame [OF s] have f: "pub_frame (popped_v2 xs w) w2" by simp
  have k: "kernel w2 = kernel w" "das w2 = das w" "kernel (popped_v2 xs w) = kernel w" "das (popped_v2 xs w) = das w"
    using pub_frame_queues(4) [OF f] pub_frame_das [OF f] by (simp_all add: popped_v2_def)
  have p: "kernel (snd (push_queue_head_pubmsg_exchange y v)) = kernel v \<and>
      das (snd (push_queue_head_pubmsg_exchange y v)) = das v" for y v
    by (simp add: push_queue_head_pubmsg_exchange_def split: prod.split)
  show ?thesis
    by (simp add: send_message_to_das_v2_def pop_v2_Cons [OF Cons] s Let_def p k w_free_def)
qed

lemma das_message_send_kernel:
  "das_message_send L w = (e, w') \<Longrightarrow> kernel w' = kernel w \<and> das w' = das w"
  using send_kernel_v2 [of L w] send_kernel [of L]
  by (auto simp: das_message_send_def split: prod.splits if_splits) (metis snd_conv)+

lemma parts_kept_notices:
  assumes "notices_added xs d w w'"
  shows "parts_kept w w'"
proof -
  have "w\<lparr>q_inner := q_inner w', w_mem := w_mem w'\<rparr> = w'" using assms by (simp add: notices_added_def)
  moreover have "q_wf (q_inner w) \<longrightarrow> q_wf (q_inner w')" using assms by (simp add: notices_added_def)
  then have "parts_kept w (w\<lparr>q_inner := q_inner w', w_mem := w_mem w'\<rparr>)"
    by (simp add: parts_kept_def queues_wf_def)
  ultimately show ?thesis by simp
qed

lemma parts_kept_broadcast:
  "parts_kept w (snd (broadcast_user_event ty c w))"
  "parts_kept w (snd (broadcast_user_event_reconnect_success w))"
  "parts_kept w (snd (broadcast_user_start w))"
  using broadcast_user_event_effect [of ty c w] broadcast_user_event_reconnect_success_effect [of w]
    broadcast_user_start_effect [of w]
  by (metis parts_kept_notices prod.collapse)+

lemma parts_kept_then:
  "parts_kept w v \<Longrightarrow> parts_kept w (w_free v)"
  "parts_kept w v \<Longrightarrow> parts_kept w (snd (broadcast_user_event ty c v))"
  "parts_kept w v \<Longrightarrow> parts_kept w (snd (push_queue_head_pubmsg_exchange p v))"
  "parts_kept w v \<Longrightarrow> parts_kept w (snd (push_queue_head_pubmsg_exchange_v3 p3 v))"
  using parts_kept_steps(1,7,10) parts_kept_broadcast(1) parts_kept_trans by (metis prod.collapse)+

lemma parts_kept_send:
  "parts_kept w (snd (send_message_to_das_v3 L w))" "parts_kept w (snd (send_message_to_das_v2 L w))"
proof -
  have 3: "parts_kept v v'" if "das_send_pubmsg_v3 L p v = (e, v')" for p v e v'
    using sess_frame_parts [OF sess_frame_pub] das_send_pubmsg_v3_frame [OF that] by blast
  have 2: "parts_kept v v'" if "das_send_pubmsg L p v = (e, v')" for p v e v'
    using sess_frame_parts [OF sess_frame_pub] das_send_pubmsg_frame [OF that] by blast
  show "parts_kept w (snd (send_message_to_das_v3 L w))"
    by (auto simp: send_message_to_das_v3_def Let_def split: prod.split option.split
        intro!: parts_kept_then dest!: parts_kept_steps(11) 3 intro: parts_kept_trans)
  show "parts_kept w (snd (send_message_to_das_v2 L w))"
    by (auto simp: send_message_to_das_v2_def Let_def split: prod.split option.split if_splits
        intro!: parts_kept_then dest!: parts_kept_steps(8) 2 intro: parts_kept_trans)
qed

lemma parts_kept_message_send: "das_message_send L w = (e, w') \<Longrightarrow> parts_kept w w'"
  using parts_kept_send(2) [of w L] parts_kept_send(1) [of _ L]
  by (auto simp: das_message_send_def split: prod.splits if_splits) (metis parts_kept_trans snd_conv)+

text \<open>A yield reports success or the need to reconnect, nothing else.\<close>

lemma das_yield_effect:
  assumes "das_yield L w = (e, w')"
  shows "kernel_step (kernel w) (kernel w')" "isconnected (das w') = isconnected (das w)"
    "socket_fd (das w') = socket_fd (das w)"
    "e = mkernel_internal_succ \<or> e = mkernel_internal_das_need_reconnect" "parts_kept w w'"
proof -
  obtain rc w1 where 1: "MQTTYield L w = (rc, w1)" by fastforce
  note y = MQTTYield_effect [OF 1]
  show "kernel_step (kernel w) (kernel w')" "isconnected (das w') = isconnected (das w)"
    "socket_fd (das w') = socket_fd (das w)"
    "e = mkernel_internal_succ \<or> e = mkernel_internal_das_need_reconnect"
    using assms y unfolding das_yield_def 1
    by (auto simp: Let_def split: if_splits prod.splits dest!: das_message_send_kernel)
  have "parts_kept w1 (w1\<lparr>das := d\<rparr>)" for d by (simp add: parts_kept_def queues_wf_def)
  then have "parts_kept w (w1\<lparr>das := d\<rparr>)" for d using y(5) parts_kept_trans by blast
  then show "parts_kept w w'"
    using assms y(5) unfolding das_yield_def 1
    by (auto simp: Let_def split: if_splits prod.splits dest!: parts_kept_message_send intro: parts_kept_trans)
qed

end
