(* ===== verification/Kernel_Access.thy ===== *)
theory Kernel_Access
  imports Das_Session
begin

text \<open>
  The access state machine, \<^verbatim>\<open>ezdev_sdk_kernel_access.c\<close>: redirect at the LBS, register
  with the DAS, work, reconnect, with its retry counters and timers, and the
  kernel's own sending of messages. The LBS protocol (\<^verbatim>\<open>access/lbs_transport.c\<close>)
  enters through its three entry points, a parameter of the definitions. Lemmas:
  the transitions one yield can make, bounds of the counters, and the session
  invariant, along every run.
\<close>

section \<open>The LBS entry points\<close>

record lbs_ops =
  createdevid_op :: "bool \<Rightarrow> world \<Rightarrow> mkernel_internal_error \<times> world"
  auth_op :: "bool \<Rightarrow> world \<Rightarrow> mkernel_internal_error \<times> world"
  refresh_op :: "world \<Rightarrow> mkernel_internal_error \<times> world"

section \<open>Operations\<close>

definition upd_kernel :: "(ezdev_sdk_kernel \<Rightarrow> ezdev_sdk_kernel) \<Rightarrow> world \<Rightarrow> world" where
  "upd_kernel f w = w\<lparr>kernel := f (kernel w)\<rparr>"

function cnt_state_lbs_redirect :: "lbs_ops \<Rightarrow> bool \<Rightarrow> world \<Rightarrow> mkernel_internal_error \<times> world" where
  "cnt_state_lbs_redirect B nUpper w =
     (case (if c_empty (dev_id (kernel w)) then createdevid_op B nUpper w
            else if c_empty (master_key (kernel w)) then auth_op B nUpper w
            else refresh_op B w) of (e, w1) \<Rightarrow>
       let w2 = (if e = mkernel_internal_platform_devid_inconformity
                 then upd_kernel (\<lambda>k. k\<lparr>dev_id := zeros ezdev_sdk_devid_len\<rparr>) w1 else w1);
           w3 = (if e = mkernel_internal_platform_masterkey_invalid
                 then upd_kernel (\<lambda>k. k\<lparr>master_key := zeros ezdev_sdk_masterkey_len\<rparr>) w2 else w2)
       in if e = mkernel_internal_platform_lbs_signcheck_error \<and> nUpper
          then cnt_state_lbs_redirect B False w3 else (e, w3))"
  by pat_completeness auto
termination
  by (relation "measure (\<lambda>(B, u, w). if u then 1 else 0)") simp_all

declare cnt_state_lbs_redirect.simps [simp del]

definition cnt_state_das_reged :: "libs \<Rightarrow> world \<Rightarrow> mkernel_internal_error \<times> world" where
  "cnt_state_das_reged L w = das_reg L (snd (das_unreg w))"

definition cnt_state_das_fast_reg :: "libs \<Rightarrow> world \<Rightarrow> mkernel_internal_error \<times> world" where
  "cnt_state_das_fast_reg L w = das_light_reg_v2 L w"

definition cnt_state_das_work :: "libs \<Rightarrow> world \<Rightarrow> mkernel_internal_error \<times> world" where
  "cnt_state_das_work L w = das_yield L w"

definition cnt_state_das_retry :: "libs \<Rightarrow> world \<Rightarrow> mkernel_internal_error \<times> world" where
  "cnt_state_das_retry L w = das_light_reg L w"

text \<open>\<^verbatim>\<open>times && !ezcore_time_isexpired_bydiff(&cnt_state_timer, times * unit)\<close>.\<close>

definition backing_off :: "uint8 \<Rightarrow> int \<Rightarrow> world \<Rightarrow> bool" where
  "backing_off n ms w \<longleftrightarrow> n \<noteq> 0 \<and>
     \<not> ezcore_time_isexpired_bydiff (now w) (Some (cnt_state_timer (kernel w))) (uint n * ms)"

definition restart_timer :: "world \<Rightarrow> world" where
  "restart_timer w = upd_kernel (\<lambda>k. k\<lparr>cnt_state_timer := ezcore_time_countdown (now w) 0\<rparr>) w"

definition cnt_lbs_redirect_do :: "lbs_ops \<Rightarrow> world \<Rightarrow> mkernel_internal_error \<times> world" where
  "cnt_lbs_redirect_do B w =
     (if backing_off (lbs_redirect_times (kernel w)) 2000 w then (mkernel_internal_succ, w)
      else case cnt_state_lbs_redirect B True (restart_timer w) of (e, w1) \<Rightarrow>
        if e = mkernel_internal_succ
        then (e, upd_kernel (\<lambda>k. k\<lparr>cnt_state := Sdk_cnt_redirected, lbs_redirect_times := 0,
                                  das_retry_times := 0\<rparr>) w1)
        else if e = mkernel_internal_net_connect_error \<or> e = mkernel_internal_net_gethostbyname_error \<or>
                e = mkernel_internal_platform_lbs_auth_type_need_rematch
        then (e, upd_kernel (\<lambda>k. k\<lparr>lbs_redirect_times := 1\<rparr>) w1)
        else (e, upd_kernel (\<lambda>k. k\<lparr>lbs_redirect_times :=
                let t = lbs_redirect_times k + 1 in if t \<ge> 60 then 60 else t\<rparr>) w1))"

definition switchover_context :: "ezdev_sdk_kernel \<Rightarrow> event_context" where
  "switchover_context k = Switchover_context
     \<lparr>sw_das_udp_port = das_udp_port (redirect_das_info k), sw_das_ip = das_address (redirect_das_info k),
      sw_lbs_ip = server_ip (server_info k), sw_session_key = session_key k,
      sw_lbs_domain = server_name (server_info k)\<rparr>"

definition online_context :: "world \<Rightarrow> event_context" where
  "online_context w = (let k = kernel w in Sessionkey_context
     \<lparr>on_das_port = das_port (redirect_das_info k), on_das_udp_port = das_udp_port (redirect_das_info k),
      on_das_ip = das_address (redirect_das_info k), on_lbs_ip = server_ip (server_info k),
      on_session_key = session_key k, on_das_socket = ezdev_sdk_kernel_get_das_socket w,
      on_das_domain = das_domain (redirect_das_info k), on_das_serverid = das_serverid (redirect_das_info k)\<rparr>)"

definition offline_context :: "mkernel_internal_error \<Rightarrow> ezdev_sdk_kernel \<Rightarrow> event_context" where
  "offline_context e k = Offline_context
     \<lparr>off_last_error = e, off_das_ip = das_address (redirect_das_info k), off_lbs_ip = server_ip (server_info k)\<rparr>"

definition cnt_das_reg_do :: "libs \<Rightarrow> world \<Rightarrow> mkernel_internal_error \<times> world" where
  "cnt_das_reg_do L w =
     (if backing_off (das_retry_times (kernel w)) 2000 w then (mkernel_internal_succ, w)
      else case cnt_state_das_reged L (restart_timer w) of (e0, w0) \<Rightarrow>
        case (if e0 = mkernel_internal_mqtt_session_exist then cnt_state_das_fast_reg L w0 else (e0, w0)) of (e, w1) \<Rightarrow>
          if e = mkernel_internal_succ then
            (let w2 = upd_kernel (\<lambda>k. k\<lparr>cnt_state := Sdk_cnt_das_reged, lbs_redirect_times := 0,
                                       das_retry_times := 0\<rparr>) w1
             in if entr_state (kernel w2) = Sdk_entrance_switchover
                then (e, upd_kernel (\<lambda>k. k\<lparr>entr_state := Sdk_entrance_normal\<rparr>)
                       (snd (broadcast_user_event SDK_KERNEL_EVENT_SWITCHOVER
                              (Some (switchover_context (kernel w2))) w2)))
                else (e, snd (broadcast_user_event SDK_KERNEL_EVENT_ONLINE (Some (online_context w2)) w2)))
          else if das_retry_times (kernel w1) \<ge> 5
          then (e, upd_kernel (\<lambda>k. k\<lparr>cnt_state := Sdk_cnt_unredirect, lbs_redirect_times := 0,
                                     das_retry_times := 0\<rparr>) w1)
          else (e, upd_kernel (\<lambda>k. k\<lparr>das_retry_times := das_retry_times k + 1\<rparr>) w1))"

definition cnt_das_work_do :: "libs \<Rightarrow> world \<Rightarrow> mkernel_internal_error \<times> world" where
  "cnt_das_work_do L w =
     (case cnt_state_das_work L w of (e, w1) \<Rightarrow>
       if e \<noteq> mkernel_internal_succ \<and> e \<noteq> mkernel_internal_queue_empty \<and>
          e = mkernel_internal_das_need_reconnect
       then (e, upd_kernel (\<lambda>k. k\<lparr>cnt_state := Sdk_cnt_das_break\<rparr>) w1)
       else (e, w1))"

definition cnt_das_retry_do :: "libs \<Rightarrow> world \<Rightarrow> mkernel_internal_error \<times> world" where
  "cnt_das_retry_do L w =
     (if backing_off (das_retry_times (kernel w)) 1000 w then (mkernel_internal_succ, w)
      else case cnt_state_das_retry L (restart_timer w) of (e, w1) \<Rightarrow>
        if e = mkernel_internal_succ
        then (e, snd (broadcast_user_event_reconnect_success
               (upd_kernel (\<lambda>k. k\<lparr>cnt_state := Sdk_cnt_das_reged, lbs_redirect_times := 0,
                                  das_retry_times := 0\<rparr>) w1)))
        else if das_retry_times (kernel w1) \<ge> 3
        then (e, upd_kernel (\<lambda>k. k\<lparr>cnt_state := Sdk_cnt_unredirect, lbs_redirect_times := 0,
                                   das_retry_times := 0\<rparr>)
               (snd (broadcast_user_event SDK_KERNEL_EVENT_BREAK (Some (offline_context e (kernel w1)))
                 (upd_kernel (\<lambda>k. k\<lparr>das_retry_times := das_retry_times k + 1\<rparr>) w1))))
        else (e, upd_kernel (\<lambda>k. k\<lparr>das_retry_times := das_retry_times k + 1\<rparr>) w1))"

definition access_stop_yield :: "world \<Rightarrow> mkernel_internal_error \<times> world" where
  "access_stop_yield w =
     (case das_unreg w of (e, w1) \<Rightarrow> (e, upd_kernel (\<lambda>k. k\<lparr>cnt_state := Sdk_cnt_unredirect\<rparr>) w1))"

definition access_server_yield :: "libs \<Rightarrow> lbs_ops \<Rightarrow> world \<Rightarrow> mkernel_internal_error \<times> world" where
  "access_server_yield L B w =
     (if check_access_risk_control w \<noteq> 0 then (mkernel_internal_force_offline, w)
      else case (case cnt_state (kernel w) of
                   Sdk_cnt_unredirect \<Rightarrow> cnt_lbs_redirect_do B w
                 | Sdk_cnt_redirected \<Rightarrow> cnt_das_reg_do L w
                 | Sdk_cnt_das_reged \<Rightarrow> cnt_das_work_do L w
                 | Sdk_cnt_das_break \<Rightarrow> cnt_das_retry_do L w) of (e, w1) \<Rightarrow>
        if e = mkernel_internal_mqtt_blacklist then (e, add_access_risk_control w1)
        else if e = mkernel_internal_mqtt_redirect
        then (e, upd_kernel (\<lambda>k. k\<lparr>cnt_state := Sdk_cnt_unredirect, lbs_redirect_times := 0,
                                   das_retry_times := 0\<rparr>)
               (snd (broadcast_user_event SDK_KERNEL_EVENT_BREAK (Some (offline_context e (kernel w1))) w1)))
        else (e, w1))"

definition ezdev_sdk_kernel_inner_send :: "ez_kernel_pubmsg \<Rightarrow> world \<Rightarrow> mkernel_internal_error \<times> world" where
  "ezdev_sdk_kernel_inner_send p w =
     (if pub_msg_body p = None \<or> pub_msg_body_len p = 0 then (mkernel_internal_input_param_invalid, w)
      else if unat (pub_msg_body_len p) > CONFIG_EZIOT_CORE_MESSAGE_SIZE_MAX
      then (mkernel_internal_msg_len_overrange, w)
      else case w_malloc w of (ok, w1) \<Rightarrow>
        if \<not> ok then (mkernel_internal_malloc_error, w1)
        else case w_malloc w1 of (ok2, w2) \<Rightarrow>
          if \<not> ok2 then (mkernel_internal_malloc_error, w_free w2)
          else
            let x = \<lparr>max_send_count = CONFIG_EZIOT_CORE_DEFAULT_PUBLISH_RETRY,
                     msg_conntext = \<lparr>pub_msg_response = pub_msg_response p, pub_msg_qos = pub_msg_qos p,
                       pub_msg_seq = pub_msg_seq p,
                       pub_msg_body = map_option (take (unat (pub_msg_body_len p))) (pub_msg_body p),
                       pub_msg_body_len = pub_msg_body_len p, pub_msg_domain_id = pub_msg_domain_id p,
                       pub_msg_command_id = pub_msg_command_id p, pub_externel_ctx = None,
                       pub_externel_ctx_len = 0,
                       pub_command_ver = strncpy (pub_command_ver p) (version_max_len - 1)\<rparr>\<rparr>
            in case das_send_pubmsg_async x w2 of (e, w3) \<Rightarrow>
              if e \<noteq> mkernel_internal_succ then (e, w_free (w_free w3)) else (e, w3))"

section \<open>The invariant\<close>

text \<open>
  The counters stay within their bounds, a registered device has no pending
  retries and a live session, and while reconnecting at most three retries are
  counted.
\<close>

definition access_inv :: "world \<Rightarrow> bool" where
  "access_inv w \<longleftrightarrow>
     (let k = kernel w in
      lbs_redirect_times k \<le> 60 \<and> das_retry_times k \<le> 5 \<and>
      (cnt_state k = Sdk_cnt_das_reged \<longrightarrow> lbs_redirect_times k = 0 \<and> das_retry_times k = 0 \<and> logged_in w) \<and>
      (cnt_state k = Sdk_cnt_das_break \<longrightarrow> das_retry_times k \<le> 3))"

text \<open>What the kernel relies on from the LBS protocol: it leaves these fields alone.\<close>

definition lbs_keeps :: "world \<Rightarrow> world \<Rightarrow> bool" where
  "lbs_keeps w w' \<longleftrightarrow> lbs_redirect_times (kernel w') = lbs_redirect_times (kernel w) \<and>
     das_retry_times (kernel w') = das_retry_times (kernel w) \<and> cnt_state (kernel w') = cnt_state (kernel w) \<and>
     access_risk (kernel w') = access_risk (kernel w) \<and> my_state (kernel w') = my_state (kernel w) \<and>
     das w' = das w \<and> q_inner w' = q_inner w \<and> parts_kept w w'"

definition lbs_ok :: "lbs_ops \<Rightarrow> bool" where
  "lbs_ok B \<longleftrightarrow> (\<forall>u w. lbs_keeps w (snd (createdevid_op B u w)) \<and>
     lbs_keeps w (snd (auth_op B u w)) \<and> lbs_keeps w (snd (refresh_op B w)))"

lemma lbs_keeps_trans: "lbs_keeps w w1 \<Longrightarrow> lbs_keeps w1 w2 \<Longrightarrow> lbs_keeps w w2"
  by (auto simp: lbs_keeps_def intro: parts_kept_trans)

lemma parts_kept_upd [simp]: "parts_kept w (upd_kernel f v) = parts_kept w v" "parts_kept (upd_kernel f v) w = parts_kept v w"
  by (simp_all add: upd_kernel_def parts_kept_def queues_wf_def)

lemma lbs_redirect_keeps:
  assumes "lbs_ok B" and "cnt_state_lbs_redirect B u w = (e, w')"
  shows "lbs_keeps w w'"
  using assms
proof (induction B u w arbitrary: e w' rule: cnt_state_lbs_redirect.induct)
  case (1 B u w)
  let ?call = "if c_empty (dev_id (kernel w)) then createdevid_op B u w
    else if c_empty (master_key (kernel w)) then auth_op B u w else refresh_op B w"
  obtain e1 w1 where c: "?call = (e1, w1)" by fastforce
  have "lbs_keeps w (snd ?call)" using "1.prems"(1) by (simp add: lbs_ok_def)
  then have k1: "lbs_keeps w w1" by (simp only: c snd_conv)
  let ?w2 = "if e1 = mkernel_internal_platform_devid_inconformity
    then upd_kernel (\<lambda>k. k\<lparr>dev_id := zeros ezdev_sdk_devid_len\<rparr>) w1 else w1"
  let ?w3 = "if e1 = mkernel_internal_platform_masterkey_invalid
    then upd_kernel (\<lambda>k. k\<lparr>master_key := zeros ezdev_sdk_masterkey_len\<rparr>) ?w2 else ?w2"
  have k3: "lbs_keeps w ?w3" using k1 by (simp add: lbs_keeps_def) (simp add: upd_kernel_def)
  have res: "cnt_state_lbs_redirect B u w =
      (if e1 = mkernel_internal_platform_lbs_signcheck_error \<and> u then cnt_state_lbs_redirect B False ?w3 else (e1, ?w3))"
    by (subst cnt_state_lbs_redirect.simps) (simp only: c prod.case Let_def)
  show ?case
  proof (cases "e1 = mkernel_internal_platform_lbs_signcheck_error \<and> u")
    case True
    with res "1.prems"(2) have "cnt_state_lbs_redirect B False ?w3 = (e, w')" by simp
    from "1.IH" [OF c [symmetric] refl refl True "1.prems"(1) this] k3 lbs_keeps_trans
    show ?thesis by blast
  next
    case False
    with res "1.prems"(2) k3 show ?thesis by auto
  qed
qed

lemma upd_kernel_simps [simp]:
  "kernel (upd_kernel f w) = f (kernel w)" "das (upd_kernel f w) = das w"
  "logged_in (upd_kernel f w) = logged_in w" "now (upd_kernel f w) = now w"
  by (simp_all add: upd_kernel_def logged_in_def)

lemma restart_timer_simps [simp]:
  "das (restart_timer w) = das w" "now (restart_timer w) = now w"
  "kernel (restart_timer w) = (kernel w)\<lparr>cnt_state_timer := ezcore_time_countdown (now w) 0\<rparr>"
  by (simp_all add: restart_timer_def)

lemma logged_in_broadcast [simp]:
  "logged_in (snd (broadcast_user_event ty c w)) = logged_in w"
  "logged_in (snd (broadcast_user_event_reconnect_success w)) = logged_in w"
  by (simp_all add: logged_in_def)

lemma uint8_count: "(x :: uint8) \<le> b \<Longrightarrow> \<not> b \<le> x \<Longrightarrow> x + 1 \<le> b"
  by (rule inc_le) simp

section \<open>One yield\<close>

text \<open>
  Each handler keeps the invariant; the state it leaves is one of the successors
  in the diagram, and risk control is never lifted.
\<close>

lemma lbs_redirect_do_step:
  assumes "lbs_ok B" and "access_inv w" and "cnt_state (kernel w) = Sdk_cnt_unredirect"
    and "cnt_lbs_redirect_do B w = (e, w')"
  shows "access_inv w' \<and> cnt_state (kernel w') \<in> {Sdk_cnt_unredirect, Sdk_cnt_redirected} \<and>
    access_risk (kernel w') = access_risk (kernel w)"
proof (cases "backing_off (lbs_redirect_times (kernel w)) 2000 w")
  case True
  with assms show ?thesis by (auto simp: cnt_lbs_redirect_do_def)
next
  case False
  obtain e1 w1 where r: "cnt_state_lbs_redirect B True (restart_timer w) = (e1, w1)" by fastforce
  from lbs_redirect_keeps [OF assms(1) r] have k: "lbs_redirect_times (kernel w1) = lbs_redirect_times (kernel w)"
    "das_retry_times (kernel w1) = das_retry_times (kernel w)" "cnt_state (kernel w1) = Sdk_cnt_unredirect"
    "access_risk (kernel w1) = access_risk (kernel w)"
    using assms(3) by (simp_all add: lbs_keeps_def)
  show ?thesis
    using assms False r k
    by (auto simp: cnt_lbs_redirect_do_def access_inv_def Let_def not_le split: if_splits)
qed

lemma das_reged_session:
  assumes "(case cnt_state_das_reged L v of (e0, w0) \<Rightarrow>
      if e0 = mkernel_internal_mqtt_session_exist then cnt_state_das_fast_reg L w0 else (e0, w0)) = (e, w1)"
  shows "sess_frame v w1" "if e = mkernel_internal_succ then logged_in w1 else logged_out w1"
proof -
  obtain u wu where u: "das_unreg v = (u, wu)" by fastforce
  note du = das_unreg_effect [OF u]
  then have nc: "\<not> isconnected (das wu)" by (simp add: logged_out_def)
  obtain e0 w0 where r: "das_reg L wu = (e0, w0)" by fastforce
  note dr = das_reg_effect [OF r nc]
  obtain e2 w2 where l: "das_light_reg_v2 L w0 = (e2, w2)" by fastforce
  have f0: "sess_frame v w0" by (rule sess_frame_trans [OF du(1) dr(1)])
  have "sess_frame v w1 \<and> (if e = mkernel_internal_succ then logged_in w1 else logged_out w1)"
  proof (cases "e0 = mkernel_internal_mqtt_session_exist")
    case True
    with dr(2) have "\<not> isconnected (das w0)" by (simp add: logged_out_def)
    from das_light_reg_v2_effect [OF l this] sess_frame_trans [OF f0] assms True u r l show ?thesis
      by (auto simp: cnt_state_das_reged_def cnt_state_das_fast_reg_def)
  next
    case False
    with assms u r dr(2) f0 show ?thesis by (auto simp: cnt_state_das_reged_def)
  qed
  then show "sess_frame v w1" "if e = mkernel_internal_succ then logged_in w1 else logged_out w1" by simp_all
qed

lemma das_reg_do_step:
  assumes "access_inv w" and "cnt_state (kernel w) = Sdk_cnt_redirected"
    and "cnt_das_reg_do L w = (e, w')"
  shows "access_inv w' \<and> cnt_state (kernel w') \<in> {Sdk_cnt_redirected, Sdk_cnt_das_reged, Sdk_cnt_unredirect} \<and>
    access_risk (kernel w') = access_risk (kernel w)"
proof (cases "backing_off (das_retry_times (kernel w)) 2000 w")
  case True
  with assms show ?thesis by (auto simp: cnt_das_reg_do_def)
next
  case False
  obtain e0 w0 where r: "cnt_state_das_reged L (restart_timer w) = (e0, w0)" by fastforce
  obtain e1 w1 where s: "(if e0 = mkernel_internal_mqtt_session_exist then cnt_state_das_fast_reg L w0 else (e0, w0)) = (e1, w1)"
    by fastforce
  have "(case cnt_state_das_reged L (restart_timer w) of (e0, w0) \<Rightarrow>
      if e0 = mkernel_internal_mqtt_session_exist then cnt_state_das_fast_reg L w0 else (e0, w0)) = (e1, w1)"
    using r s by simp
  note g = das_reged_session [OF this]
  from sess_frame_fields(1) [OF g(1)]
  have k: "kernel w1 = (kernel w)\<lparr>cnt_state_timer := ezcore_time_countdown (now w) 0\<rparr>" by simp
  have res: "cnt_das_reg_do L w =
    (if e1 = mkernel_internal_succ then
       (let w2 = upd_kernel (\<lambda>k. k\<lparr>cnt_state := Sdk_cnt_das_reged, lbs_redirect_times := 0, das_retry_times := 0\<rparr>) w1
        in if entr_state (kernel w2) = Sdk_entrance_switchover
           then (e1, upd_kernel (\<lambda>k. k\<lparr>entr_state := Sdk_entrance_normal\<rparr>)
                  (snd (broadcast_user_event SDK_KERNEL_EVENT_SWITCHOVER (Some (switchover_context (kernel w2))) w2)))
           else (e1, snd (broadcast_user_event SDK_KERNEL_EVENT_ONLINE (Some (online_context w2)) w2)))
     else if das_retry_times (kernel w1) \<ge> 5
     then (e1, upd_kernel (\<lambda>k. k\<lparr>cnt_state := Sdk_cnt_unredirect, lbs_redirect_times := 0, das_retry_times := 0\<rparr>) w1)
     else (e1, upd_kernel (\<lambda>k. k\<lparr>das_retry_times := das_retry_times k + 1\<rparr>) w1))"
    using False by (simp only: cnt_das_reg_do_def if_False r prod.case s)
  show ?thesis
    using assms res k g(2)
    by (auto simp: access_inv_def Let_def uint8_count split: if_splits)
qed

lemma das_work_do_step:
  assumes "access_inv w" and "cnt_state (kernel w) = Sdk_cnt_das_reged"
    and "cnt_das_work_do L w = (e, w')"
  shows "access_inv w' \<and> cnt_state (kernel w') \<in> {Sdk_cnt_das_reged, Sdk_cnt_das_break, Sdk_cnt_unredirect}"
proof -
  obtain e1 w1 where y: "das_yield L w = (e1, w1)" by fastforce
  note d = das_yield_effect [OF y] and s = kernel_step_fields [OF das_yield_effect(1) [OF y]]
  show ?thesis
    using assms y d(2-4) s
    by (auto simp: cnt_das_work_do_def cnt_state_das_work_def access_inv_def Let_def logged_in_def)
qed

lemma das_retry_do_step:
  assumes "access_inv w" and "cnt_state (kernel w) = Sdk_cnt_das_break"
    and "cnt_das_retry_do L w = (e, w')"
  shows "access_inv w' \<and> cnt_state (kernel w') \<in> {Sdk_cnt_das_break, Sdk_cnt_das_reged, Sdk_cnt_unredirect} \<and>
    access_risk (kernel w') = access_risk (kernel w)"
proof (cases "backing_off (das_retry_times (kernel w)) 1000 w")
  case True
  with assms show ?thesis by (auto simp: cnt_das_retry_do_def)
next
  case False
  obtain e1 w1 where r: "das_light_reg L (restart_timer w) = (e1, w1)" by fastforce
  note g = das_light_reg_effect [OF r]
  from sess_frame_fields(1) [OF g(1)]
  have k: "kernel w1 = (kernel w)\<lparr>cnt_state_timer := ezcore_time_countdown (now w) 0\<rparr>" by simp
  have i: "das_retry_times (kernel w) \<le> 3" using assms(1,2) by (simp add: access_inv_def Let_def)
  then have i1: "das_retry_times (kernel w) + 1 \<le> 3 \<and> das_retry_times (kernel w) + 1 \<le> 5"
    if "\<not> das_retry_times (kernel w) \<ge> 3"
    using uint8_count [OF i that] by (auto intro: order_trans)
  show ?thesis
    using assms False r k g(2) i1
    by (auto simp: cnt_das_retry_do_def cnt_state_das_retry_def access_inv_def Let_def split: if_splits)
qed

text \<open>The successors of a state under one yield.\<close>

definition successors :: "sdk_cloud_cnt_state \<Rightarrow> sdk_cloud_cnt_state set" where
  "successors s = (case s of
     Sdk_cnt_unredirect \<Rightarrow> {Sdk_cnt_unredirect, Sdk_cnt_redirected}
   | Sdk_cnt_redirected \<Rightarrow> {Sdk_cnt_redirected, Sdk_cnt_das_reged, Sdk_cnt_unredirect}
   | Sdk_cnt_das_reged \<Rightarrow> {Sdk_cnt_das_reged, Sdk_cnt_das_break, Sdk_cnt_unredirect}
   | Sdk_cnt_das_break \<Rightarrow> {Sdk_cnt_das_break, Sdk_cnt_das_reged, Sdk_cnt_unredirect})"

lemma access_yield_step:
  assumes "lbs_ok B" and "access_inv w" and "access_server_yield L B w = (e, w')"
  shows "access_inv w'" "cnt_state (kernel w') \<in> successors (cnt_state (kernel w))"
proof -
  let ?h = "case cnt_state (kernel w) of Sdk_cnt_unredirect \<Rightarrow> cnt_lbs_redirect_do B w
    | Sdk_cnt_redirected \<Rightarrow> cnt_das_reg_do L w | Sdk_cnt_das_reged \<Rightarrow> cnt_das_work_do L w
    | Sdk_cnt_das_break \<Rightarrow> cnt_das_retry_do L w"
  obtain e1 w1 where h: "?h = (e1, w1)" by fastforce
  have "access_inv w1 \<and> cnt_state (kernel w1) \<in> successors (cnt_state (kernel w))"
    using h lbs_redirect_do_step [OF assms(1,2)] das_reg_do_step [OF assms(2)]
      das_work_do_step [OF assms(2)] das_retry_do_step [OF assms(2)]
    by (cases "cnt_state (kernel w)") (auto simp: successors_def)
  moreover have "Sdk_cnt_unredirect \<in> successors (cnt_state (kernel w))"
    and "cnt_state (kernel w) \<in> successors (cnt_state (kernel w))"
    by (simp_all add: successors_def split: sdk_cloud_cnt_state.split)
  moreover have "access_inv (add_access_risk_control w1) = access_inv w1"
    "cnt_state (kernel (add_access_risk_control w1)) = cnt_state (kernel w1)"
    by (simp_all add: add_access_risk_control_def access_inv_def logged_in_def Let_def)
  ultimately have "access_inv w' \<and> cnt_state (kernel w') \<in> successors (cnt_state (kernel w))"
    using assms(2,3) h
    by (auto simp: access_server_yield_def access_inv_def [of "upd_kernel f v" for f v] Let_def split: if_splits)
  then show "access_inv w'" "cnt_state (kernel w') \<in> successors (cnt_state (kernel w))" by simp_all
qed

text \<open>A yield keeps the tables, the queues' invariant and the state of the SDK.\<close>

definition yield_keeps :: "world \<Rightarrow> world \<Rightarrow> bool" where
  "yield_keeps w w' \<longleftrightarrow> parts_kept w w' \<and> my_state (kernel w') = my_state (kernel w)"

lemma yield_keeps_trans: "yield_keeps w w1 \<Longrightarrow> yield_keeps w1 w2 \<Longrightarrow> yield_keeps w w2"
  by (auto simp: yield_keeps_def intro: parts_kept_trans)

lemma yield_keeps_refl: "yield_keeps w w"
  by (simp add: yield_keeps_def parts_kept_refl)

lemma yield_keeps_sess: "sess_frame w w' \<Longrightarrow> yield_keeps w w'"
  by (simp add: yield_keeps_def sess_frame_parts sess_frame_fields)

lemma yield_keeps_upd:
  "(\<And>k. my_state (f k) = my_state k) \<Longrightarrow> yield_keeps w v \<Longrightarrow> yield_keeps w (upd_kernel f v)"
  "yield_keeps w v \<Longrightarrow> yield_keeps w (snd (broadcast_user_event ty c v))"
  "yield_keeps w v \<Longrightarrow> yield_keeps w (snd (broadcast_user_event_reconnect_success v))"
  using parts_kept_broadcast(1,2) [of v] by (auto simp: yield_keeps_def intro: parts_kept_trans)

lemma yield_keeps_restart: "yield_keeps w (restart_timer w)"
  by (simp add: restart_timer_def yield_keeps_upd yield_keeps_refl)

lemma access_yield_keeps:
  assumes "lbs_ok B" and "access_server_yield L B w = (e, w')"
  shows "yield_keeps w w'"
proof -
  have redirect: "yield_keeps w w1" if "cnt_state_lbs_redirect B True (restart_timer w) = (e1, w1)" for e1 w1
    using lbs_redirect_keeps [OF assms(1) that] yield_keeps_restart [of w]
    by (auto simp: lbs_keeps_def yield_keeps_def intro: parts_kept_trans)
  have reg: "yield_keeps w w1 \<and> (e1 \<noteq> mkernel_internal_succ \<longrightarrow> logged_out w1)"
    if "cnt_state_das_reged L (restart_timer w) = (e1, w1)" for e1 w1
  proof -
    obtain e2 w2 where u: "das_unreg (restart_timer w) = (e2, w2)" by fastforce
    note n = das_unreg_effect [OF u]
    from that u have r: "das_reg L w2 = (e1, w1)" by (simp add: cnt_state_das_reged_def)
    have "\<not> isconnected (das w2)" using n(2) by (simp add: logged_out_def)
    note g = das_reg_effect [OF r this]
    show ?thesis
      using yield_keeps_trans [OF yield_keeps_restart yield_keeps_sess [OF sess_frame_trans [OF n(1) g(1)]]] g(2)
      by simp
  qed
  have fast: "yield_keeps w v" if "cnt_state_das_fast_reg L w1 = (e1, v)" "yield_keeps w w1" "logged_out w1" for e1 w1 v
    using das_light_reg_v2_effect(1) [of L w1 e1 v] that yield_keeps_trans [OF that(2) yield_keeps_sess]
    by (simp add: cnt_state_das_fast_reg_def logged_out_def)
  have retry: "yield_keeps w w1" if "cnt_state_das_retry L (restart_timer w) = (e1, w1)" for e1 w1
    using yield_keeps_trans [OF yield_keeps_restart yield_keeps_sess] das_light_reg_effect(1) that
    unfolding cnt_state_das_retry_def by blast
  have work: "yield_keeps w w1" if "das_yield L w = (e1, w1)" for e1 w1
    using das_yield_effect(5) [OF that] kernel_step_fields(3) [OF das_yield_effect(1) [OF that]]
    by (simp add: yield_keeps_def)
  note steps = yield_keeps_upd yield_keeps_refl
  have 1: "yield_keeps w (snd (cnt_lbs_redirect_do B w))"
    by (auto simp: cnt_lbs_redirect_do_def split: prod.split intro!: steps dest: redirect)
  have 2: "yield_keeps w (snd (cnt_das_reg_do L w))"
    by (auto simp: cnt_das_reg_do_def Let_def split: prod.split if_splits intro!: steps dest: reg intro: fast)
  have 3: "yield_keeps w (snd (cnt_das_work_do L w))"
    by (auto simp: cnt_das_work_do_def cnt_state_das_work_def split: prod.split intro!: steps dest: work)
  have 4: "yield_keeps w (snd (cnt_das_retry_do L w))"
    by (auto simp: cnt_das_retry_do_def split: prod.split intro!: steps dest: retry)
  have risk: "yield_keeps w (add_access_risk_control v)" if "yield_keeps w v" for v
    using that by (simp add: add_access_risk_control_def yield_keeps_def parts_kept_def queues_wf_def)
  show ?thesis
    using assms(2) 1 2 3 4
    by (cases "cnt_state (kernel w)")
      (auto simp: access_server_yield_def split: prod.splits if_splits intro!: risk yield_keeps_upd yield_keeps_refl)
qed

text \<open>Once barred, the device stays as it is: the yield only reports it.\<close>

lemma access_yield_barred:
  "access_risk (kernel w) = Sdk_risk_control \<Longrightarrow>
   access_server_yield L B w = (mkernel_internal_force_offline, w)"
  by (simp add: access_server_yield_def check_access_risk_control_def)

lemma access_stop_inv: "access_inv w \<Longrightarrow> access_inv (snd (access_stop_yield w))"
proof -
  assume i: "access_inv w"
  obtain e w1 where u: "das_unreg w = (e, w1)" by fastforce
  from i sess_frame_fields(1) [OF das_unreg_effect(1) [OF u]] u show ?thesis
    by (simp add: access_stop_yield_def access_inv_def Let_def)
qed

section \<open>Runs\<close>

text \<open>
  A run of the access task: yields, stops, and between them whatever the rest of
  the system does to the world without touching the access fields (the clock,
  arriving messages, other tasks' queue operations).
\<close>

definition elsewhere :: "world \<Rightarrow> world \<Rightarrow> bool" where
  "elsewhere w w' \<longleftrightarrow> kernel w' = kernel w \<and> das w' = das w"

inductive access_step :: "libs \<Rightarrow> lbs_ops \<Rightarrow> world \<Rightarrow> world \<Rightarrow> bool" for L B where
  yield: "access_server_yield L B w = (e, w') \<Longrightarrow> access_step L B w w'"
| stop: "access_stop_yield w = (e, w') \<Longrightarrow> access_step L B w w'"
| other: "elsewhere w w' \<Longrightarrow> access_step L B w w'"

inductive_cases access_stepE: "access_step L B w w'"

lemma access_inv_elsewhere: "elsewhere w w' \<Longrightarrow> access_inv w' = access_inv w"
  by (simp add: elsewhere_def access_inv_def logged_in_def)

lemma access_step_inv:
  "lbs_ok B \<Longrightarrow> access_step L B w w' \<Longrightarrow> access_inv w \<Longrightarrow> access_inv w'"
  by (erule access_stepE)
    (auto simp: access_inv_elsewhere dest: access_yield_step(1) access_stop_inv)

lemma access_run_inv:
  assumes "lbs_ok B" and "(access_step L B)\<^sup>*\<^sup>* w w'" and "access_inv w"
  shows "access_inv w'"
  using assms(2,3) by (induction rule: rtranclp_induct) (auto intro: access_step_inv [OF assms(1)])

lemma access_inv_init:
  "kernel w = zero_kernel \<Longrightarrow> access_inv w"
  by (simp add: access_inv_def zero_kernel_def Let_def)

end
