(* ===== verification/Kernel_Api.thy ===== *)
theory Kernel_Api
  imports Kernel_Access
begin

text \<open>
  The programming interface of the core: \<^verbatim>\<open>ez_iot_core_lowlvl.c\<close> (the life cycle of
  the kernel, registration of extensions, sending) and above it \<^verbatim>\<open>ez_iot_core.c\<close> and
  \<^verbatim>\<open>ez_iot_core_ctx.c\<close> (the two tasks, the application's event callback, the device
  id). The key-value store is the application's and enters as a record of
  functions. The macros \<^verbatim>\<open>CHECK_COND_DONE\<close> and \<^verbatim>\<open>CHECK_RV_DONE\<close> evaluate their argument
  again when they log it; where the argument is a call that changes state, the
  definitions make that second call too. Lemmas: the life cycle as a state machine,
  what each sending call does to the queues and to memory, and an invariant of the
  kernel along every sequence of calls.
\<close>

section \<open>Inputs of the interface\<close>

record ez_server_info =
  host :: string
  port :: uint16

record ez_dev_info =
  auth_mode :: sdk_dev_auth_mode
  di_type :: string
  di_subserial :: string
  di_verification_code :: string
  di_firmwareversion :: string
  di_typedisplay :: string
  di_mac :: string

text \<open>
  The application's store: the result of opening it, and for a key and a buffer
  size the result code and the bytes written to the buffer.
\<close>

record kv_ops =
  kv_init :: int
  kv_raw_get :: "string \<Rightarrow> nat \<Rightarrow> int \<times> byte list"
  kv_raw_set :: "string \<Rightarrow> byte list \<Rightarrow> int"

abbreviation EZ_KV_DEFALUT_KEY_DEVID :: string where "EZ_KV_DEFALUT_KEY_DEVID \<equiv> ''devid''"
abbreviation EZ_KV_DEFALUT_KEY_MASTERKEY :: string where "EZ_KV_DEFALUT_KEY_MASTERKEY \<equiv> ''masterkey''"
abbreviation sdk_dev_auth_protocol_ecdh :: uint8 where "sdk_dev_auth_protocol_ecdh \<equiv> 1"
abbreviation ACCESS_DEFAULT_KEEPALIVEINTERVAL :: uint32 where "ACCESS_DEFAULT_KEEPALIVEINTERVAL \<equiv> 30"

text \<open>A zeroed buffer of \<^verbatim>\<open>n\<close> bytes after \<^verbatim>\<open>bs\<close> has been written to its start.\<close>

definition fill :: "nat \<Rightarrow> byte list \<Rightarrow> byte list" where
  "fill n bs = take n (bs @ zeros n)"

section \<open>Life cycle of the kernel\<close>

definition genaral_seq :: "world \<Rightarrow> uint32 \<times> world" where
  "genaral_seq w = (das_transport_seq w + 1, w\<lparr>das_transport_seq := das_transport_seq w + 1\<rparr>)"

text \<open>The kernel context \<^verbatim>\<open>ez_kernel_init\<close> builds before it reads the master key.\<close>

definition configured_kernel :: "ez_server_info \<Rightarrow> ez_dev_info \<Rightarrow> byte list \<Rightarrow> ezdev_sdk_kernel" where
  "configured_kernel srv dev devid = zero_kernel\<lparr>
     dev_def_auth_type := sdk_dev_auth_protocol_ecdh, dev_cur_auth_type := sdk_dev_auth_protocol_ecdh,
     dev_last_auth_type := sdk_dev_auth_protocol_ecdh, dev_auth_type_count := 1,
     dev_auth_type_group := (replicate 64 0)[0 := sdk_dev_auth_protocol_ecdh],
     das_keepalive_interval := ACCESS_DEFAULT_KEEPALIVEINTERVAL,
     server_info := \<lparr>server_name = strncpy (host srv) (ezdev_sdk_name_len - 1), server_ip = '''',
       server_port = port srv\<rparr>,
     dev_info := zero_dev_info\<lparr>dev_auth_mode := auth_mode dev, dev_status := 1,
       dev_subserial := strncpy (di_subserial dev) (ezdev_sdk_devserial_maxlen - 1),
       dev_verification_code := strncpy (di_verification_code dev) (ezdev_sdk_verify_code_maxlen - 1),
       dev_firmwareversion := strncpy (di_firmwareversion dev) (ezdev_sdk_name_len - 1),
       dev_type := strncpy (di_type dev) (ezdev_sdk_name_len - 1),
       dev_typedisplay := strncpy (di_typedisplay dev) (ezdev_sdk_name_len - 1),
       dev_mac := strncpy (di_mac dev) (ezdev_sdk_name_len - 1)\<rparr>,
     dev_id := strncpy_buf devid ezdev_sdk_devid_len\<rparr>"

definition ez_kernel_init :: "kv_ops \<Rightarrow> bool \<times> bool \<times> bool \<times> bool \<times> bool \<Rightarrow> ez_server_info \<Rightarrow> ez_dev_info
    \<Rightarrow> byte list \<Rightarrow> func_ptr \<Rightarrow> world \<Rightarrow> ez_err \<times> world" where
  "ez_kernel_init kv mutexes psrv_info pdev_info devid kernel_event_notice_cb w =
     (if my_state (kernel w) \<noteq> Sdk_idle0 then (EZ_CORE_ERR_SUCC, w)
      else case kv_raw_get kv EZ_KV_DEFALUT_KEY_MASTERKEY ezdev_sdk_masterkey_len of (e, bs) \<Rightarrow>
        let k = (configured_kernel psrv_info pdev_info devid)\<lparr>master_key := fill ezdev_sdk_masterkey_len bs\<rparr>
        in if e \<noteq> 0 then (EZ_CORE_ERR_STORAGE, w\<lparr>kernel := k\<rparr>)
           else
             let w1 = w\<lparr>kernel := k\<lparr>reg_mode := 1\<rparr>\<rparr>;
                 w2 = das_object_init mutexes (extend_init kernel_event_notice_cb w1)
             in (EZ_CORE_ERR_SUCC, upd_kernel (\<lambda>k. k\<lparr>my_state := Sdk_idle\<rparr>) (w2\<lparr>das_transport_seq := 0\<rparr>)))"

definition ez_kernel_start :: "world \<Rightarrow> ez_err \<times> world" where
  "ez_kernel_start w =
     (if my_state (kernel w) = Sdk_idle0 then (EZ_CORE_ERR_NOT_INIT, w)
      else if my_state (kernel w) = Sdk_start then (EZ_CORE_ERR_GENERAL, w)
      else (EZ_CORE_ERR_SUCC, snd (broadcast_user_start (upd_kernel (\<lambda>k. k\<lparr>my_state := Sdk_start\<rparr>) w))))"

definition ez_kernel_stop :: "world \<Rightarrow> ez_err \<times> world" where
  "ez_kernel_stop w =
     (if my_state (kernel w) = Sdk_idle0 then (EZ_CORE_ERR_NOT_INIT, w)
      else if my_state (kernel w) = Sdk_idle then (EZ_CORE_ERR_NOT_READY, w)
      else if my_state (kernel w) = Sdk_stop then (EZ_CORE_ERR_GENERAL, w)
      else (EZ_CORE_ERR_SUCC, snd (access_stop_yield (upd_kernel (\<lambda>k. k\<lparr>my_state := Sdk_stop\<rparr>) w))))"

definition ez_kernel_fini :: "world \<Rightarrow> ez_err \<times> world" where
  "ez_kernel_fini w =
     (if my_state (kernel w) = Sdk_idle0 then (EZ_CORE_ERR_NOT_INIT, w)
      else if my_state (kernel w) = Sdk_start then (EZ_CORE_ERR_GENERAL, w)
      else (EZ_CORE_ERR_SUCC, (extend_fini (das_object_fini w))\<lparr>kernel := zero_kernel\<rparr>))"

definition ez_kernel_yield :: "libs \<Rightarrow> lbs_ops \<Rightarrow> world \<Rightarrow> ez_err \<times> world" where
  "ez_kernel_yield L B w =
     (if my_state (kernel w) = Sdk_start
      then (case access_server_yield L B w of (e, w1) \<Rightarrow> (mkiE2ezE e, w1))
      else (EZ_CORE_ERR_NOT_READY, w))"

definition ez_kernel_yield_user :: "world \<Rightarrow> ez_err \<times> world" where
  "ez_kernel_yield_user w =
     (if my_state (kernel w) = Sdk_start
      then (case extend_yield w of (e, w1) \<Rightarrow> (mkiE2ezE e, w1))
      else (EZ_CORE_ERR_NOT_READY, w))"

section \<open>Registration\<close>

definition ez_kernel_extend_load :: "ez_kernel_extend option \<Rightarrow> world \<Rightarrow> ez_err \<times> world" where
  "ez_kernel_extend_load external_extend w =
     (if my_state (kernel w) \<noteq> Sdk_idle \<and> my_state (kernel w) \<noteq> Sdk_start then (EZ_CORE_ERR_NOT_INIT, w)
      else case external_extend of
        None \<Rightarrow> (EZ_CORE_ERR_PARAM_INVALID, w)
      | Some x \<Rightarrow>
          if extend_data_route x = None \<or> extend_start x = None \<or> extend_stop x = None
          then (EZ_CORE_ERR_PARAM_INVALID, w)
          else (case extend_load x w of (e, w1) \<Rightarrow>
            if e \<noteq> mkernel_internal_succ then (EZ_CORE_ERR_GENERAL, snd (extend_load x w1))
            else (EZ_CORE_ERR_SUCC, w1)))"

definition ez_kernel_extend_load_v3 :: "ez_kernel_extend_v3 option \<Rightarrow> world \<Rightarrow> ez_err \<times> world" where
  "ez_kernel_extend_load_v3 external_extend w =
     (if my_state (kernel w) \<noteq> Sdk_idle \<and> my_state (kernel w) \<noteq> Sdk_start then (EZ_CORE_ERR_NOT_INIT, w)
      else case external_extend of
        None \<Rightarrow> (EZ_CORE_ERR_PARAM_INVALID, w)
      | Some x \<Rightarrow>
          if ext3_data_route x = None \<or> ext3_event_route x = None \<or> ext3_module x = []
          then (EZ_CORE_ERR_PARAM_INVALID, w)
          else (case extend_load_v3 x w of (e, w1) \<Rightarrow>
            if e = mkernel_internal_extend_full then (EZ_CORE_ERR_MEMORY, w1)
            else if e \<noteq> mkernel_internal_succ then (EZ_CORE_ERR_GENERAL, w1)
            else (e, upd_kernel (\<lambda>k. k\<lparr>v3_reg_status := Sdk_v3_reged\<rparr>) w1)))"

section \<open>Sending\<close>

text \<open>
  The last check of a send: the message is pushed; when that fails the macro
  pushes it once more for its log line, and the clean-up frees the message's
  blocks whatever the second push did.
\<close>

definition queue_or_free :: "('a \<Rightarrow> world \<Rightarrow> mkernel_internal_error \<times> world) \<Rightarrow> ('a \<Rightarrow> nat) \<Rightarrow> 'a \<Rightarrow> world
    \<Rightarrow> ez_err \<times> world" where
  "queue_or_free push blocks x w =
     (case push x w of (e, w1) \<Rightarrow>
       if e \<noteq> mkernel_internal_succ then (EZ_CORE_ERR_MEMORY, w_frees (blocks x) (snd (push x w1)))
       else (EZ_CORE_ERR_SUCC, w1))"

text \<open>The message struct with its copied body, before the external context is added.\<close>

definition pubmsg_copy :: "ez_kernel_pubmsg \<Rightarrow> ezdev_sdk_kernel_pubmsg_exchange" where
  "pubmsg_copy p = \<lparr>max_send_count = CONFIG_EZIOT_CORE_DEFAULT_PUBLISH_RETRY,
     msg_conntext = \<lparr>pub_msg_response = pub_msg_response p, pub_msg_qos = pub_msg_qos p,
       pub_msg_seq = pub_msg_seq p,
       pub_msg_body = map_option (take (unat (pub_msg_body_len p))) (pub_msg_body p),
       pub_msg_body_len = pub_msg_body_len p, pub_msg_domain_id = pub_msg_domain_id p,
       pub_msg_command_id = pub_msg_command_id p, pub_externel_ctx = None, pub_externel_ctx_len = 0,
       pub_command_ver = strncpy (pub_command_ver p) (version_max_len - 1)\<rparr>\<rparr>"

definition with_ctx :: "ez_kernel_pubmsg \<Rightarrow> ezdev_sdk_kernel_pubmsg_exchange \<Rightarrow> ezdev_sdk_kernel_pubmsg_exchange" where
  "with_ctx p x = x\<lparr>msg_conntext := (msg_conntext x)\<lparr>
     pub_externel_ctx := map_option (take (unat (pub_externel_ctx_len p))) (pub_externel_ctx p),
     pub_externel_ctx_len := pub_externel_ctx_len p\<rparr>\<rparr>"

text \<open>The result holds the caller's message as well: its sequence number is set.\<close>

definition ez_kernel_send :: "ez_kernel_pubmsg option \<Rightarrow> world \<Rightarrow> ez_err \<times> ez_kernel_pubmsg option \<times> world" where
  "ez_kernel_send pubmsg w =
     (if my_state (kernel w) \<noteq> Sdk_start then (EZ_CORE_ERR_NOT_INIT, pubmsg, w)
      else case pubmsg of
        None \<Rightarrow> (EZ_CORE_ERR_PARAM_INVALID, pubmsg, w)
      | Some p \<Rightarrow>
        if pub_msg_body p = None \<or> pub_msg_body_len p = 0 then (EZ_CORE_ERR_PARAM_INVALID, pubmsg, w)
        else if unat (pub_msg_body_len p) > CONFIG_EZIOT_CORE_MESSAGE_SIZE_MAX
        then (EZ_CORE_ERR_OUT_RANGE, pubmsg, w)
        else
          let cRiskResult = check_cmd_risk_control (pub_msg_domain_id p) (pub_msg_command_id p) w
          in if cRiskResult = 1 then (EZ_CORE_ERR_NO_EXTEND, pubmsg, w)
          else if cRiskResult = 2 \<or> cRiskResult = 3 then (EZ_CORE_ERR_RISK_CRTL, pubmsg, w)
          else case w_malloc w of (ok1, w1) \<Rightarrow>
            if \<not> ok1 then (EZ_CORE_ERR_MEMORY, pubmsg, w1)
            else case w_malloc w1 of (ok2, w2) \<Rightarrow>
              if \<not> ok2 then (EZ_CORE_ERR_MEMORY, pubmsg, w_free w2)
              else case (if pub_msg_response p = 0
                         then (case genaral_seq w2 of (s, w3) \<Rightarrow> (p\<lparr>pub_msg_seq := s\<rparr>, w3)) else (p, w2)) of
                (p1, w3) \<Rightarrow>
                  if pub_externel_ctx p1 \<noteq> None \<and> pub_externel_ctx_len p1 \<noteq> 0 then
                    (case w_malloc w3 of (ok3, w4) \<Rightarrow>
                      if \<not> ok3 then (EZ_CORE_ERR_MEMORY, Some p1, w_free (w_free w4))
                      else (case queue_or_free das_send_pubmsg_async pubmsg_blocks (with_ctx p1 (pubmsg_copy p1)) w4 of
                        (rv, w5) \<Rightarrow> (rv, Some p1, w5)))
                  else (case queue_or_free das_send_pubmsg_async pubmsg_blocks (pubmsg_copy p1) w3 of
                    (rv, w5) \<Rightarrow> (rv, Some p1, w5)))"

definition pubmsg_copy_v3 :: "ez_kernel_pubmsg_v3 \<Rightarrow> ezdev_sdk_kernel_pubmsg_exchange_v3" where
  "pubmsg_copy_v3 p = \<lparr>max_send_count_v3 = CONFIG_EZIOT_CORE_DEFAULT_PUBLISH_RETRY,
     msg_conntext_v3 = \<lparr>pub3_msg_response = 0, pub3_msg_qos = pub3_msg_qos p, pub3_msg_seq = pub3_msg_seq p,
       pub3_msg_body_len = pub3_msg_body_len p,
       pub3_msg_body = map_option (take (unat (pub3_msg_body_len p))) (pub3_msg_body p),
       pub3_resource_id = strncpy (pub3_resource_id p) (ezdev_sdk_resource_id_len - 1),
       pub3_resource_type = strncpy (pub3_resource_type p) (ezdev_sdk_resource_type_len - 1),
       pub3_module = strncpy (pub3_module p) (ezdev_sdk_module_name_len - 1),
       pub3_method = strncpy (pub3_method p) (ezdev_sdk_method_len - 1),
       pub3_msg_type = strncpy (pub3_msg_type p) (ezdev_sdk_msg_type_len - 1),
       pub3_sub_serial = strncpy (pub3_sub_serial p) (ezdev_sdk_max_serial_len - 1),
       pub3_ext_msg = strncpy (pub3_ext_msg p) (ezdev_sdk_ext_msg_len - 1)\<rparr>\<rparr>"

definition ez_kernel_send_v3 :: "ez_kernel_pubmsg_v3 option \<Rightarrow> world
    \<Rightarrow> ez_err \<times> ez_kernel_pubmsg_v3 option \<times> world" where
  "ez_kernel_send_v3 pubmsg w =
     (if my_state (kernel w) \<noteq> Sdk_start then (EZ_CORE_ERR_NOT_INIT, pubmsg, w)
      else case pubmsg of
        None \<Rightarrow> (EZ_CORE_ERR_PARAM_INVALID, pubmsg, w)
      | Some p \<Rightarrow>
        if pub3_msg_body p = None \<or> pub3_msg_body_len p = 0 then (EZ_CORE_ERR_PARAM_INVALID, pubmsg, w)
        else if unat (pub3_msg_body_len p) > CONFIG_EZIOT_CORE_MESSAGE_SIZE_MAX
        then (EZ_CORE_ERR_OUT_RANGE, pubmsg, w)
        else case w_malloc w of (ok1, w1) \<Rightarrow>
          if \<not> ok1 then (EZ_CORE_ERR_MEMORY, pubmsg, w1)
          else case (if pub3_msg_response p = 0
                     then (case genaral_seq w1 of (s, w2) \<Rightarrow> (p\<lparr>pub3_msg_seq := s\<rparr>, w2)) else (p, w1)) of
            (p1, w2) \<Rightarrow>
              (case w_malloc w2 of (ok2, w3) \<Rightarrow>
                if \<not> ok2 then (EZ_CORE_ERR_MEMORY, Some p1, w_free w3)
                else (case queue_or_free das_send_pubmsg_async_v3 pubmsg_v3_blocks (pubmsg_copy_v3 p1) w3 of
                  (rv, w4) \<Rightarrow> (rv, Some p1, w4))))"

definition ez_kernel_getdevinfo_bykey :: "string \<Rightarrow> world \<Rightarrow> string" where
  "ez_kernel_getdevinfo_bykey key w =
     (let d = dev_info (kernel w) in
      if key = ''dev_subserial'' then dev_subserial d
      else if key = ''dev_serial'' then dev_serial d
      else if key = ''dev_firmwareversion'' then dev_firmwareversion d
      else if key = ''dev_type'' then dev_type d
      else if key = ''dev_typedisplay'' then dev_typedisplay d
      else if key = ''dev_mac'' then dev_mac d
      else if key = ''dev_firmwareidentificationcode'' then dev_firmwareidentificationcode d
      else if key = ''dev_verification_code'' then dev_verification_code d
      else ''invalidkey'')"


section \<open>Sending: what happens to the queue and to memory\<close>

lemma w_frees_fields [simp]:
  "q_pubmsg (w_frees n w) = q_pubmsg w" "q_pubmsg_v3 (w_frees n w) = q_pubmsg_v3 w"
  "queued_blocks (w_frees n w) = queued_blocks w" "kernel (w_frees n w) = kernel w"
  "das_transport_seq (w_frees n w) = das_transport_seq w"
  by (simp_all add: w_frees_def)

lemma lost_blocks_frees [simp]: "lost_blocks (w_frees n w) = lost_blocks w - int n"
  by (simp add: lost_blocks_def)

lemma push_pubmsg_effect:
  assumes "das_send_pubmsg_async x w = (e, w')"
  shows "if e = mkernel_internal_succ
    then q_elems (q_pubmsg w') = q_elems (q_pubmsg w) @ [x] \<and> lost_blocks w' = lost_blocks w - int (pubmsg_blocks x)
    else q_pubmsg w' = q_pubmsg w \<and> lost_blocks w' = lost_blocks w"
  using assms
  by (auto simp: das_send_pubmsg_async_def push_queue_pubmsg_exchange_def push_queue_def lost_blocks_def
      queued_blocks_def w_live_def split: prod.splits if_splits dest: malloc_live)

lemma push_pubmsg_v3_effect:
  assumes "das_send_pubmsg_async_v3 x w = (e, w')"
  shows "if e = mkernel_internal_succ
    then q_elems (q_pubmsg_v3 w') = q_elems (q_pubmsg_v3 w) @ [x] \<and>
      lost_blocks w' = lost_blocks w - int (pubmsg_v3_blocks x)
    else q_pubmsg_v3 w' = q_pubmsg_v3 w \<and> lost_blocks w' = lost_blocks w"
  using assms
  by (auto simp: das_send_pubmsg_async_v3_def push_queue_pubmsg_exchange_v3_def push_queue_def lost_blocks_def
      queued_blocks_def w_live_def split: prod.splits if_splits dest: malloc_live)

text \<open>
  The three ways the last step of a send can end, from a state in which the
  message's blocks are allocated and not yet queued: queued; refused and freed;
  or refused, queued by the log line and freed, so that the queue holds a message
  whose blocks are gone.
\<close>

definition send_end :: "ez_err \<Rightarrow> nat \<Rightarrow> 'a \<Rightarrow> 'a list \<Rightarrow> 'a list \<Rightarrow> int \<Rightarrow> bool" where
  "send_end rv n x xs xs' d \<longleftrightarrow>
     rv = EZ_CORE_ERR_SUCC \<and> xs' = xs @ [x] \<and> d = 0 \<or>
     rv = EZ_CORE_ERR_MEMORY \<and> xs' = xs \<and> d = 0 \<or>
     rv = EZ_CORE_ERR_MEMORY \<and> xs' = xs @ [x] \<and> d = - int n"

lemma queue_or_free_v2:
  assumes "queue_or_free das_send_pubmsg_async pubmsg_blocks x w = (rv, w')"
  shows "send_end rv (pubmsg_blocks x) x (q_elems (q_pubmsg w)) (q_elems (q_pubmsg w'))
    (lost_blocks w' - lost_blocks w + int (pubmsg_blocks x))"
proof -
  obtain e1 w1 where 1: "das_send_pubmsg_async x w = (e1, w1)" by fastforce
  obtain e2 w2 where 2: "das_send_pubmsg_async x w1 = (e2, w2)" by fastforce
  show ?thesis
    using assms 1 2 push_pubmsg_effect [OF 1] push_pubmsg_effect [OF 2]
    by (auto simp: queue_or_free_def send_end_def split: if_splits)
qed

lemma queue_or_free_v3:
  assumes "queue_or_free das_send_pubmsg_async_v3 pubmsg_v3_blocks x w = (rv, w')"
  shows "send_end rv (pubmsg_v3_blocks x) x (q_elems (q_pubmsg_v3 w)) (q_elems (q_pubmsg_v3 w'))
    (lost_blocks w' - lost_blocks w + int (pubmsg_v3_blocks x))"
proof -
  obtain e1 w1 where 1: "das_send_pubmsg_async_v3 x w = (e1, w1)" by fastforce
  obtain e2 w2 where 2: "das_send_pubmsg_async_v3 x w1 = (e2, w2)" by fastforce
  show ?thesis
    using assms 1 2 push_pubmsg_v3_effect [OF 1] push_pubmsg_v3_effect [OF 2]
    by (auto simp: queue_or_free_def send_end_def split: if_splits)
qed

lemma genaral_seq_fields [simp]:
  "q_pubmsg (snd (genaral_seq w)) = q_pubmsg w" "q_pubmsg_v3 (snd (genaral_seq w)) = q_pubmsg_v3 w"
  "lost_blocks (snd (genaral_seq w)) = lost_blocks w" "kernel (snd (genaral_seq w)) = kernel w"
  "fst (genaral_seq w) = das_transport_seq w + 1"
  "das_transport_seq (snd (genaral_seq w)) = das_transport_seq w + 1"
  by (simp_all add: genaral_seq_def lost_blocks_def queued_blocks_def w_live_def)

lemma w_malloc_fields:
  "w_malloc w = (ok, w') \<Longrightarrow> q_pubmsg w' = q_pubmsg w \<and> q_pubmsg_v3 w' = q_pubmsg_v3 w \<and>
     kernel w' = kernel w \<and> das_transport_seq w' = das_transport_seq w \<and>
     lost_blocks w' = lost_blocks w + of_bool ok"
  using w_malloc_live [of w ok w']
  by (auto simp: w_malloc_def lost_blocks_def split: prod.splits)

lemma w_free_fields [simp]:
  "q_pubmsg (w_free w) = q_pubmsg w" "q_pubmsg_v3 (w_free w) = q_pubmsg_v3 w"
  "lost_blocks (w_free w) = lost_blocks w - 1" "kernel (w_free w) = kernel w"
  "das_transport_seq (w_free w) = das_transport_seq w"
  by (simp_all add: w_free_def lost_blocks_def w_live_def)

text \<open>The message a send queues: the caller's, with a fresh number unless it is a response.\<close>

definition numbered :: "ez_kernel_pubmsg \<Rightarrow> world \<Rightarrow> ez_kernel_pubmsg" where
  "numbered p w = (if pub_msg_response p = 0 then p\<lparr>pub_msg_seq := das_transport_seq w + 1\<rparr> else p)"

definition sent_copy :: "ez_kernel_pubmsg \<Rightarrow> ezdev_sdk_kernel_pubmsg_exchange" where
  "sent_copy p = (if pub_externel_ctx p \<noteq> None \<and> pub_externel_ctx_len p \<noteq> 0
     then with_ctx p (pubmsg_copy p) else pubmsg_copy p)"

definition numbered_v3 :: "ez_kernel_pubmsg_v3 \<Rightarrow> world \<Rightarrow> ez_kernel_pubmsg_v3" where
  "numbered_v3 p w = (if pub3_msg_response p = 0 then p\<lparr>pub3_msg_seq := das_transport_seq w + 1\<rparr> else p)"

lemma sent_copy_blocks:
  "pub_msg_body p \<noteq> None \<Longrightarrow>
   pubmsg_blocks (sent_copy p) = (if pub_externel_ctx p \<noteq> None \<and> pub_externel_ctx_len p \<noteq> 0 then 3 else 2)"
  by (auto simp: sent_copy_def with_ctx_def pubmsg_copy_def pubmsg_blocks_def)

text \<open>The checks before anything is allocated, in the order of the code.\<close>

definition send_refused :: "ez_kernel_pubmsg option \<Rightarrow> world \<Rightarrow> ez_err option" where
  "send_refused pubmsg w =
     (if my_state (kernel w) \<noteq> Sdk_start then Some EZ_CORE_ERR_NOT_INIT
      else case pubmsg of None \<Rightarrow> Some EZ_CORE_ERR_PARAM_INVALID
      | Some p \<Rightarrow>
          if pub_msg_body p = None \<or> pub_msg_body_len p = 0 then Some EZ_CORE_ERR_PARAM_INVALID
          else if unat (pub_msg_body_len p) > CONFIG_EZIOT_CORE_MESSAGE_SIZE_MAX then Some EZ_CORE_ERR_OUT_RANGE
          else let r = check_cmd_risk_control (pub_msg_domain_id p) (pub_msg_command_id p) w in
            if r = 1 then Some EZ_CORE_ERR_NO_EXTEND
            else if r = 2 \<or> r = 3 then Some EZ_CORE_ERR_RISK_CRTL else None)"

lemma send_refused_eq: "send_refused m w = Some e \<Longrightarrow> ez_kernel_send m w = (e, m, w)"
  by (auto simp: send_refused_def ez_kernel_send_def Let_def split: if_splits option.splits)

lemma ez_kernel_send_effect:
  assumes "send_refused (Some p) w = None" and "ez_kernel_send (Some p) w = (rv, p', w')"
  shows "send_end rv (pubmsg_blocks (sent_copy (numbered p w))) (sent_copy (numbered p w))
    (q_elems (q_pubmsg w)) (q_elems (q_pubmsg w')) (lost_blocks w' - lost_blocks w)"
proof -
  have b: "pub_msg_body p \<noteq> None" using assms(1) by (auto simp: send_refused_def split: if_splits)
  define p1 where "p1 = numbered p w"
  have b1: "pub_msg_body p1 \<noteq> None" using b by (simp add: p1_def numbered_def)
  obtain ok1 w1 where 1: "w_malloc w = (ok1, w1)" by fastforce
  obtain ok2 w2 where 2: "w_malloc w1 = (ok2, w2)" by fastforce
  define w3 where "w3 = (if pub_msg_response p = 0 then snd (genaral_seq w2) else w2)"
  obtain ok3 w4 where 4: "w_malloc w3 = (ok3, w4)" by fastforce
  note m = w_malloc_fields [OF 1] w_malloc_fields [OF 2] w_malloc_fields [OF 4]
  have seq: "(if pub_msg_response p = 0 then (case genaral_seq w2 of (s, w3) \<Rightarrow> (p\<lparr>pub_msg_seq := s\<rparr>, w3)) else (p, w2))
      = (p1, w3)"
    using m by (simp add: p1_def numbered_def w3_def split_beta)
  let ?tail = "\<lambda>x v. case queue_or_free das_send_pubmsg_async pubmsg_blocks x v of (rv, w5) \<Rightarrow> (rv, Some p1, w5)"
  have s: "ez_kernel_send (Some p) w =
    (if \<not> ok1 then (EZ_CORE_ERR_MEMORY, Some p, w1)
     else if \<not> ok2 then (EZ_CORE_ERR_MEMORY, Some p, w_free w2)
     else if pub_externel_ctx p1 \<noteq> None \<and> pub_externel_ctx_len p1 \<noteq> 0 then
       (if \<not> ok3 then (EZ_CORE_ERR_MEMORY, Some p1, w_free (w_free w4)) else ?tail (sent_copy p1) w4)
     else ?tail (sent_copy p1) w3)"
    using assms(1) by (auto simp: ez_kernel_send_def send_refused_def Let_def 1 2 4 seq sent_copy_def split: if_splits)
  have w3: "q_pubmsg w3 = q_pubmsg w2" "lost_blocks w3 = lost_blocks w2" by (simp_all add: w3_def)
  let ?n = "pubmsg_blocks (sent_copy p1)"
  have tail: "send_end rv ?n (sent_copy p1) (q_elems (q_pubmsg w)) (q_elems (q_pubmsg w')) (lost_blocks w' - lost_blocks w)"
    if "?tail (sent_copy p1) v = (rv, p', w')" "q_pubmsg v = q_pubmsg w" "lost_blocks v = lost_blocks w + int ?n" for v
  proof -
    from that(1) have "queue_or_free das_send_pubmsg_async pubmsg_blocks (sent_copy p1) v = (rv, w')"
      by (simp split: prod.splits)
    from queue_or_free_v2 [OF this] that(2,3) show ?thesis by simp
  qed
  note n = sent_copy_blocks [OF b1]
  have fail: "send_end EZ_CORE_ERR_MEMORY k x xs xs 0" for k and x :: 'b and xs by (simp add: send_end_def)
  show ?thesis
    unfolding p1_def [symmetric]
  proof (cases "ok1 \<and> ok2")
    case False
    then have "rv = EZ_CORE_ERR_MEMORY \<and> q_pubmsg w' = q_pubmsg w \<and> lost_blocks w' = lost_blocks w"
      using assms(2) m unfolding s by (cases ok1) auto
    then show "send_end rv ?n (sent_copy p1) (q_elems (q_pubmsg w)) (q_elems (q_pubmsg w')) (lost_blocks w' - lost_blocks w)"
      by (simp add: fail)
  next
    case ok: True
    show "send_end rv ?n (sent_copy p1) (q_elems (q_pubmsg w)) (q_elems (q_pubmsg w')) (lost_blocks w' - lost_blocks w)"
    proof (cases "pub_externel_ctx p1 \<noteq> None \<and> pub_externel_ctx_len p1 \<noteq> 0")
      case False
      with assms(2) ok have "?tail (sent_copy p1) w3 = (rv, p', w')" unfolding s by (simp only: if_True if_False simp_thms)
      with tail n False m w3 ok show ?thesis by simp
    next
      case True
      show ?thesis
      proof (cases ok3)
        case ok3: False
        with assms(2) ok True have "rv = EZ_CORE_ERR_MEMORY" "w' = w_free (w_free w4)" unfolding s by auto
        with m w3 ok ok3 fail show ?thesis by simp
      next
        case ok3: True
        with assms(2) ok True have "?tail (sent_copy p1) w4 = (rv, p', w')" unfolding s
          by (simp only: if_True if_False simp_thms)
        with tail n True m w3 ok ok3 show ?thesis by simp
      qed
    qed
  qed
qed

lemma ez_kernel_send_v3_effect:
  assumes "my_state (kernel w) = Sdk_start" and "pub3_msg_body p \<noteq> None" and "pub3_msg_body_len p \<noteq> 0"
    and "unat (pub3_msg_body_len p) \<le> CONFIG_EZIOT_CORE_MESSAGE_SIZE_MAX"
    and "ez_kernel_send_v3 (Some p) w = (rv, p', w')"
  shows "send_end rv 2 (pubmsg_copy_v3 (numbered_v3 p w))
    (q_elems (q_pubmsg_v3 w)) (q_elems (q_pubmsg_v3 w')) (lost_blocks w' - lost_blocks w)"
proof -
  define p1 where "p1 = numbered_v3 p w"
  have n: "pubmsg_v3_blocks (pubmsg_copy_v3 p1) = 2"
    using assms(2) by (simp add: p1_def numbered_v3_def pubmsg_copy_v3_def pubmsg_v3_blocks_def)
  obtain ok1 w1 where 1: "w_malloc w = (ok1, w1)" by fastforce
  define w2 where "w2 = (if pub3_msg_response p = 0 then snd (genaral_seq w1) else w1)"
  obtain ok3 w3 where 3: "w_malloc w2 = (ok3, w3)" by fastforce
  note m = w_malloc_fields [OF 1] w_malloc_fields [OF 3]
  have seq: "(if pub3_msg_response p = 0 then (case genaral_seq w1 of (s, w2) \<Rightarrow> (p\<lparr>pub3_msg_seq := s\<rparr>, w2)) else (p, w1))
      = (p1, w2)"
    using m by (simp add: p1_def numbered_v3_def w2_def split_beta)
  have s: "ez_kernel_send_v3 (Some p) w =
    (if \<not> ok1 then (EZ_CORE_ERR_MEMORY, Some p, w1)
     else if \<not> ok3 then (EZ_CORE_ERR_MEMORY, Some p1, w_free w3)
     else case queue_or_free das_send_pubmsg_async_v3 pubmsg_v3_blocks (pubmsg_copy_v3 p1) w3 of
       (rv, w4) \<Rightarrow> (rv, Some p1, w4))"
    using assms(1-4) by (auto simp: ez_kernel_send_v3_def 1 3 seq)
  have w2: "q_pubmsg_v3 w2 = q_pubmsg_v3 w1" "lost_blocks w2 = lost_blocks w1" by (simp_all add: w2_def)
  show ?thesis
    using assms(5) queue_or_free_v3 [of "pubmsg_copy_v3 p1" w3] m w2
    unfolding s p1_def [symmetric] by (auto simp: n send_end_def split: if_splits prod.splits)
qed

text \<open>A full queue refuses twice, so the send only frees.\<close>

lemma queue_full_no_dangling:
  assumes "q_wf (q_pubmsg w)" and "length (q_elems (q_pubmsg w)) = unat (q_maxsize (q_pubmsg w))"
  shows "queue_or_free das_send_pubmsg_async pubmsg_blocks x w = (EZ_CORE_ERR_MEMORY, w_frees (pubmsg_blocks x) w)"
  using q_wf_full_iff [OF assms(1)] assms(2)
  by (simp add: queue_or_free_def das_send_pubmsg_async_def push_queue_pubmsg_exchange_def push_queue_def)

end
