(* ===== verification/Kernel_Runs.thy ===== *)
theory Kernel_Runs
  imports Kernel_Api
begin

text \<open>
  The kernel under arbitrary sequences of interface calls: its life cycle refines a
  four-state machine, tear-down returns every queued block, and the access state,
  the queues and the tables keep their invariants whatever the caller does.
\<close>

section \<open>The life cycle\<close>

datatype life_op = Life_start | Life_stop | Life_fini

fun life_run :: "life_op \<Rightarrow> world \<Rightarrow> ez_err \<times> world" where
  "life_run Life_start w = ez_kernel_start w"
| "life_run Life_stop w = ez_kernel_stop w"
| "life_run Life_fini w = ez_kernel_fini w"

text \<open>The machine the documentation of the interface describes.\<close>

fun life_spec :: "life_op \<Rightarrow> sdk_state \<Rightarrow> ez_err \<times> sdk_state" where
  "life_spec Life_start Sdk_idle = (EZ_CORE_ERR_SUCC, Sdk_start)"
| "life_spec Life_start Sdk_stop = (EZ_CORE_ERR_SUCC, Sdk_start)"
| "life_spec Life_start Sdk_start = (EZ_CORE_ERR_GENERAL, Sdk_start)"
| "life_spec Life_stop Sdk_start = (EZ_CORE_ERR_SUCC, Sdk_stop)"
| "life_spec Life_stop Sdk_idle = (EZ_CORE_ERR_NOT_READY, Sdk_idle)"
| "life_spec Life_stop Sdk_stop = (EZ_CORE_ERR_GENERAL, Sdk_stop)"
| "life_spec Life_fini Sdk_idle = (EZ_CORE_ERR_SUCC, Sdk_idle0)"
| "life_spec Life_fini Sdk_stop = (EZ_CORE_ERR_SUCC, Sdk_idle0)"
| "life_spec Life_fini Sdk_start = (EZ_CORE_ERR_GENERAL, Sdk_start)"
| "life_spec op Sdk_idle0 = (EZ_CORE_ERR_NOT_INIT, Sdk_idle0)"

lemma start_kernel [simp]: "kernel (snd (broadcast_user_start w)) = kernel w" "das (snd (broadcast_user_start w)) = das w"
  using broadcast_user_start_effect [of w] notices_added_frame(5,7)
  by (cases "broadcast_user_start w"; fastforce)+

lemma stop_kernel: "my_state (kernel (snd (access_stop_yield w))) = my_state (kernel w)"
proof -
  obtain e w1 where u: "das_unreg w = (e, w1)" by fastforce
  from sess_frame_fields(1) [OF das_unreg_effect(1) [OF u]] u show ?thesis
    by (simp add: access_stop_yield_def)
qed

lemma life_run_refines:
  "life_run op w = (rv, w') \<Longrightarrow> (rv, my_state (kernel w')) = life_spec op (my_state (kernel w))"
  by (cases op; cases "my_state (kernel w)")
    (auto simp: ez_kernel_start_def ez_kernel_stop_def ez_kernel_fini_def stop_kernel zero_kernel_def)

text \<open>Refused calls change nothing.\<close>

lemma life_run_refused: "life_run op w = (rv, w') \<Longrightarrow> rv \<noteq> EZ_CORE_ERR_SUCC \<Longrightarrow> w' = w"
  by (cases op) (auto simp: ez_kernel_start_def ez_kernel_stop_def ez_kernel_fini_def split: if_splits)

section \<open>Tear-down\<close>

lemma extend_fini_blocks:
  "w_live (extend_fini w) = w_live w" "queued_blocks (extend_fini w) = queued_blocks w"
  "queues_wf (extend_fini w) = queues_wf w"
  by (simp_all add: extend_fini_def w_live_def queued_blocks_def queues_wf_def)

lemma MQTTNetFini_blocks: "lost_blocks (MQTTNetFini w) = lost_blocks w"
  by (simp add: MQTTNetFini_def set_socket_def lost_blocks_def queued_blocks_def w_live_def)

lemma ez_kernel_fini_balance:
  assumes "ez_kernel_fini w = (EZ_CORE_ERR_SUCC, w')"
  shows "w_live w' = lost_blocks w" "queued_blocks w' = 0" "queues_wf w'" "kernel w' = zero_kernel"
proof -
  have w': "w' = (extend_fini (das_object_fini w))\<lparr>kernel := zero_kernel\<rparr>"
    using assms by (auto simp: ez_kernel_fini_def split: if_splits)
  note f = fini_queue_balance [of "MQTTNetFini w"]
  show "w_live w' = lost_blocks w" "queued_blocks w' = 0" "queues_wf w'"
    using f extend_fini_blocks [of "das_object_fini w"] MQTTNetFini_blocks [of w]
    by (simp_all add: w' das_object_fini_def w_live_def queued_blocks_def queues_wf_def)
  show "kernel w' = zero_kernel" by (simp add: w')
qed

section \<open>Registration through the interface\<close>

lemma extend_load_zero:
  assumes "dom_wf w" and "domain_id x = 0"
  shows "dom_wf (snd (extend_load x w)) \<and> dom_entries (snd (extend_load x w)) = dom_entries w"
proof -
  let ?u = "used dom_key 0 (domains w)"
  have c: "domains_count w = length (domains w)" using assms(1) by (simp add: dom_wf_def)
  show ?thesis
  proof (cases "length ?u < length (domains w)")
    case False
    with c assms show ?thesis by (simp add: extend_load_def load_slot_cases)
  next
    case True
    obtain rest where r: "domains w = ?u @ rest" "\<forall>d \<in> set ?u. dom_key d \<noteq> 0"
      "tbl_wf dom_key 0 (domains w) \<longleftrightarrow> distinct (map dom_key ?u) \<and> (\<forall>d \<in> set rest. dom_key d = 0)"
      by (rule tbl_split)
    from True r(1) obtain d fs where f: "rest = d # fs" by (metis append_Nil2 less_irrefl neq_Nil_conv)
    let ?d = "(domains w ! length ?u)\<lparr>kernel_extend := x, domain_risk := Sdk_no_risk_control\<rparr>"
    have e: "(domains w)[length ?u := ?d] = ?u @ ?d # fs" by (subst r(1)) (simp add: f)
    have z: "\<forall>d \<in> set (?d # fs). dom_key d = 0" using r(3) assms f by (auto simp: dom_wf_def)
    note p = tbl_parts [OF r(2) z]
    have w': "snd (extend_load x w) = w\<lparr>domains := ?u @ ?d # fs\<rparr>"
      using True c assms(2) e by (simp add: extend_load_def load_slot_cases)
    have "length (?u @ ?d # fs) = length (domains w)" using e by (metis length_list_update)
    with p r(3) assms(1) c show ?thesis unfolding w' by (simp add: dom_wf_def dom_entries_def)
  qed
qed

lemma extend_load_effect:
  assumes "dom_wf w" and "extend_load x w = (e, w')"
  shows "dom_wf w'" "set (dom_entries w') \<subseteq> insert x (set (dom_entries w))"
    "e \<noteq> mkernel_internal_succ \<Longrightarrow> w' = w"
proof -
  have "dom_wf w' \<and> set (dom_entries w') \<subseteq> insert x (set (dom_entries w))"
  proof (cases "domain_id x = 0")
    case True
    with extend_load_zero [OF assms(1) True] assms(2) show ?thesis by auto
  next
    case False
    consider "domain_id x \<in> domain_id ` set (dom_entries w)"
      | "domain_id x \<notin> domain_id ` set (dom_entries w)" "length (dom_entries w) = domains_count w"
      | "domain_id x \<notin> domain_id ` set (dom_entries w)" "length (dom_entries w) < domains_count w"
      using dreg.bound [OF assms(1)] by linarith
    then show ?thesis
      using dreg.load_ready [OF assms(1) False] dreg.load_full [OF assms(1) False]
        dreg.load_succ [OF assms(1) False] assms by cases auto
  qed
  then show "dom_wf w'" "set (dom_entries w') \<subseteq> insert x (set (dom_entries w))" by simp_all
  show "e \<noteq> mkernel_internal_succ \<Longrightarrow> w' = w"
    using assms(2) by (auto simp: extend_load_def split: slot.splits)
qed

text \<open>Fields neither registration changes.\<close>

lemma extend_load_frame:
  "extend_load x w = (e, w') \<Longrightarrow> kernel w' = kernel w \<and> das w' = das w \<and> extends w' = extends w \<and>
     extend_count w' = extend_count w \<and> event_notice_cb w' = event_notice_cb w \<and> queues_wf w' = queues_wf w"
  "extend_load_v3 y w = (e, w') \<Longrightarrow> kernel w' = kernel w \<and> das w' = das w \<and> domains w' = domains w \<and>
     domains_count w' = domains_count w \<and> event_notice_cb w' = event_notice_cb w \<and> queues_wf w' = queues_wf w"
  by (auto simp: extend_load_def extend_load_v3_def queues_wf_def split: slot.splits)

section \<open>The invariant of the kernel\<close>

definition api_inv :: "world \<Rightarrow> bool" where
  "api_inv w \<longleftrightarrow> access_inv w \<and> queues_wf w \<and>
     (my_state (kernel w) \<noteq> Sdk_idle0 \<longrightarrow>
        dom_wf w \<and> mod_wf w \<and> routes_set w)"

lemma api_inv_kept:
  assumes "api_inv w" and "access_inv w'" and "parts_kept w w'"
    and "my_state (kernel w) \<noteq> Sdk_idle0 \<or> my_state (kernel w') = Sdk_idle0"
  shows "api_inv w'"
  using assms parts_kept_tables [OF assms(3)] by (auto simp: api_inv_def parts_kept_def)

lemma access_inv_cong: "kernel w' = kernel w \<Longrightarrow> das w' = das w \<Longrightarrow> access_inv w' = access_inv w"
  by (simp add: access_inv_def logged_in_def)

lemma access_inv_my_state [simp]:
  "access_inv (upd_kernel (\<lambda>k. k\<lparr>my_state := s\<rparr>) w) = access_inv w"
  "access_inv (upd_kernel (\<lambda>k. k\<lparr>v3_reg_status := r\<rparr>) w) = access_inv w"
  by (simp_all add: access_inv_def logged_in_def Let_def)

lemma api_inv_init:
  assumes "api_inv w" and "ez_kernel_init kv mx srv dev devid cb w = (rv, w')"
  shows "api_inv w'"
proof (cases "my_state (kernel w) = Sdk_idle0")
  case False
  with assms show ?thesis by (simp add: ez_kernel_init_def)
next
  case True
  obtain e bs where kv: "kv_raw_get kv EZ_KV_DEFALUT_KEY_MASTERKEY ezdev_sdk_masterkey_len = (e, bs)" by fastforce
  have q: "queues_wf w" using assms(1) by (simp add: api_inv_def)
  obtain k1 k2 k3 k4 k5 where mx: "mx = (k1, k2, k3, k4, k5)" by (rule prod_cases5)
  let ?k = "(configured_kernel srv dev devid)\<lparr>master_key := fill ezdev_sdk_masterkey_len bs\<rparr>"
  show ?thesis
  proof (cases "e = 0")
    case False
    with True assms(2) kv have "w' = w\<lparr>kernel := ?k\<rparr>" by (simp add: ez_kernel_init_def)
    with q show ?thesis
      by (simp add: api_inv_def access_inv_def queues_wf_def configured_kernel_def zero_kernel_def Let_def)
  next
    case e: True
    let ?w1 = "extend_init cb (w\<lparr>kernel := ?k\<lparr>reg_mode := 1\<rparr>\<rparr>)"
    from True assms(2) kv e have w': "w' = upd_kernel (\<lambda>k. k\<lparr>my_state := Sdk_idle\<rparr>)
        ((das_object_init mx ?w1)\<lparr>das_transport_seq := 0\<rparr>)" by (simp add: ez_kernel_init_def Let_def)
    have t: "domains w' = domains ?w1" "domains_count w' = domains_count ?w1" "extends w' = extends ?w1"
      "extend_count w' = extend_count ?w1"
      by (simp_all add: w' mx upd_kernel_def das_object_init_def MQTTNetInit_def set_socket_def init_queue_def Let_def extend_init_def)
    have "dom_wf w'" "mod_wf w'"
      using dom_wf_init [of cb "w\<lparr>kernel := ?k\<lparr>reg_mode := 1\<rparr>\<rparr>"]
        mod_wf_init [of cb "w\<lparr>kernel := ?k\<lparr>reg_mode := 1\<rparr>\<rparr>"] t
      by (simp_all add: dom_wf_def mod_wf_def)
    moreover have "routes_set w'"
      using t by (simp add: routes_set_def dom_entries_def used_def extend_init_def zero_domain_def zero_extend_def
          CONFIG_EZIOT_CORE_EXTEND_COUNT_def)
    moreover have "access_inv w'"
      by (simp add: w' mx das_object_init_def MQTTNetInit_def set_socket_def init_queue_def Let_def extend_init_def
          access_inv_def configured_kernel_def zero_kernel_def)
    moreover have "queues_wf w'"
      by (simp add: w' mx upd_kernel_def das_object_init_def MQTTNetInit_def set_socket_def init_queue_def Let_def
          queues_wf_def q_wf_init)
    ultimately show ?thesis using t by (simp add: api_inv_def)
  qed
qed

lemma api_inv_life:
  assumes "api_inv w" and "life_run op w = (rv, w')"
  shows "api_inv w'"
proof (cases "rv = EZ_CORE_ERR_SUCC")
  case False
  with life_run_refused [OF assms(2)] assms(1) show ?thesis by simp
next
  case ok: True
  note s = life_run_refines [OF assms(2)]
  have a: "access_inv w" using assms(1) by (simp add: api_inv_def)
  show ?thesis
  proof (cases op)
    case Life_start
    let ?w = "upd_kernel (\<lambda>k. k\<lparr>my_state := Sdk_start\<rparr>) w"
    from Life_start assms(2) ok have w': "w' = snd (broadcast_user_start ?w)" and n: "my_state (kernel w) \<noteq> Sdk_idle0"
      by (auto simp: ez_kernel_start_def split: if_splits)
    have "parts_kept w w'" using parts_kept_broadcast(3) [of ?w] w' by simp
    moreover have "access_inv w'" using a access_inv_cong [of w' ?w] w' by simp
    ultimately show ?thesis using api_inv_kept [OF assms(1)] n by blast
  next
    case Life_stop
    let ?w = "upd_kernel (\<lambda>k. k\<lparr>my_state := Sdk_stop\<rparr>) w"
    from Life_stop assms(2) ok have w': "w' = snd (access_stop_yield ?w)" and n: "my_state (kernel w) \<noteq> Sdk_idle0"
      by (auto simp: ez_kernel_stop_def split: if_splits)
    obtain e w1 where u: "das_unreg ?w = (e, w1)" by fastforce
    have "parts_kept w w'"
      using sess_frame_parts [OF das_unreg_effect(1) [OF u]] u w' by (simp add: access_stop_yield_def)
    with access_stop_inv [of ?w] a w' n show ?thesis using api_inv_kept [OF assms(1)] by simp
  next
    case Life_fini
    with assms(2) ok have f: "ez_kernel_fini w = (EZ_CORE_ERR_SUCC, w')" by simp
    from ez_kernel_fini_balance(3,4) [OF f] show ?thesis
      by (simp add: api_inv_def access_inv_init) (simp add: zero_kernel_def)
  qed
qed

lemma api_inv_yield:
  assumes "lbs_ok B" and "api_inv w" and "ez_kernel_yield L B w = (rv, w')"
  shows "api_inv w'"
proof (cases "my_state (kernel w) = Sdk_start")
  case False
  with assms show ?thesis by (simp add: ez_kernel_yield_def)
next
  case True
  with assms(3) obtain e where y: "access_server_yield L B w = (e, w')"
    by (auto simp: ez_kernel_yield_def split: prod.splits)
  have "access_inv w" using assms(2) by (simp add: api_inv_def)
  from access_yield_step(1) [OF assms(1) this y] access_yield_keeps [OF assms(1) y] True show ?thesis
    using api_inv_kept [OF assms(2)] by (simp add: yield_keeps_def)
qed

section \<open>The user task\<close>

text \<open>
  One step of the user task on a started kernel: all queued messages of the v2
  protocol, one notice, all queued messages of the v3 protocol, in this order.
\<close>

definition user_calls :: "world \<Rightarrow> callback list" where
  "user_calls w = concat (map (data_calls w) (q_elems (q_submsg w))) @
     (case q_elems (q_inner w) of [] \<Rightarrow> [] | x # xs \<Rightarrow> notice_calls x w) @
     concat (map (data_calls_v3 w) (q_elems (q_submsg_v3 w)))"

definition user_freed :: "world \<Rightarrow> nat" where
  "user_freed w = (\<Sum>x\<leftarrow>q_elems (q_submsg w). 1 + submsg_blocks x) +
     (case q_elems (q_inner w) of [] \<Rightarrow> 0 | x # xs \<Rightarrow> 1 + inner_blocks x) +
     (\<Sum>x\<leftarrow>q_elems (q_submsg_v3 w). 1 + submsg_v3_blocks x)"

lemma extend_yield_eq:
  assumes "my_state (kernel w) = Sdk_start"
  shows "extend_yield w = (mkernel_internal_succ,
    w\<lparr>q_submsg := (q_submsg w)\<lparr>q_elems := [], q_size := 0\<rparr>,
      q_submsg_v3 := (q_submsg_v3 w)\<lparr>q_elems := [], q_size := 0\<rparr>,
      q_inner := snd (snd (pop_queue (w_mem w, q_inner w))),
      calls := calls w @ user_calls w, w_mem := ezos_frees (user_freed w) (w_mem w)\<rparr>)"
proof -
  let ?w1 = "w\<lparr>q_submsg := (q_submsg w)\<lparr>q_elems := [], q_size := 0\<rparr>,
      calls := calls w @ concat (map (data_calls w) (q_elems (q_submsg w))),
      w_mem := ezos_frees (\<Sum>x\<leftarrow>q_elems (q_submsg w). 1 + submsg_blocks x) (w_mem w)\<rparr>"
  have n: "notice_calls x ?w1 = notice_calls x w" for x by (rule notice_calls_cong) simp_all
  show ?thesis
  proof (cases "q_elems (q_inner w)")
    case Nil
    let ?w2 = "?w1\<lparr>q_inner := (q_inner w)\<lparr>q_size := 0\<rparr>\<rparr>"
    have e: "consume_extend_event ?w1 = (mkernel_internal_queue_empty, ?w2)"
      using Nil by (simp add: consume_extend_event_Nil)
    have d: "data_calls_v3 ?w2 = data_calls_v3 w" by (rule tables_cong) simp_all
    show ?thesis
      using assms Nil unfolding extend_yield_def consume_extend_data_eq [of w] prod.case e consume_extend_data_v3_eq [of ?w2] d
      by (simp add: user_calls_def user_freed_def pop_queue_def)
  next
    case (Cons x xs)
    let ?w2 = "?w1\<lparr>q_inner := (q_inner w)\<lparr>q_elems := xs, q_size := (if xs = [] then 0 else q_size (q_inner w) - 1)\<rparr>,
      calls := calls ?w1 @ notice_calls x w, w_mem := ezos_frees (1 + inner_blocks x) (w_mem ?w1)\<rparr>"
    have "q_elems (q_inner ?w1) = x # xs" using Cons by simp
    from consume_extend_event_Cons [OF this, unfolded n]
    have e: "consume_extend_event ?w1 = (mkernel_internal_succ, ?w2)" by simp
    have d: "data_calls_v3 ?w2 = data_calls_v3 w" by (rule tables_cong) simp_all
    show ?thesis
      using assms Cons unfolding extend_yield_def consume_extend_data_eq [of w] prod.case e consume_extend_data_v3_eq [of ?w2] d
      by (simp add: user_calls_def user_freed_def pop_queue_def)
  qed
qed

lemma api_inv_yield_user:
  assumes "api_inv w" and "ez_kernel_yield_user w = (rv, w')"
  shows "api_inv w'"
proof (cases "my_state (kernel w) = Sdk_start")
  case False
  with assms show ?thesis by (simp add: ez_kernel_yield_user_def)
next
  case True
  with assms(2) have w': "w' = snd (extend_yield w)"
    by (auto simp: ez_kernel_yield_user_def split: prod.splits)
  have "queues_wf w'"
    using assms(1) q_wf_pop [of "q_inner w" "w_mem w"]
    by (simp add: w' extend_yield_eq [OF True] api_inv_def queues_wf_def) (simp add: q_wf_def)
  moreover have "access_inv w' = access_inv w" by (rule access_inv_cong) (simp_all add: w' extend_yield_eq [OF True])
  ultimately show ?thesis
    using assms(1)
    by (simp add: api_inv_def w' extend_yield_eq [OF True] dom_wf_def mod_wf_def routes_set_def dom_entries_def)
qed

text \<open>
  The one call of the user task that may go through a NULL pointer, messages to domain 0
  apart: the event notice of an application that gave no callback, which
  \<^verbatim>\<open>consume_extend_event\<close> calls without a check.
\<close>

definition unheard_event :: "world \<Rightarrow> bool" where
  "unheard_event w \<longleftrightarrow> event_notice_cb w = None \<and>
     (case q_elems (q_inner w) of [] \<Rightarrow> False | x # xs \<Rightarrow> cb_type x = Extend_cb_event)"

lemma notice_calls_null:
  "Null_call \<in> set (notice_calls x w) \<longleftrightarrow> event_notice_cb w = None \<and> cb_type x = Extend_cb_event"
  by (cases "cb_type x")
    (auto simp: notice_calls_def Let_def ptr_call_def split: option.splits dest!: set_takeWhileD)

lemma user_calls_null:
  assumes "api_inv w" and "my_state (kernel w) \<noteq> Sdk_idle0"
    and "\<forall>x \<in> set (q_elems (q_submsg w)). sub_msg_domain_id x \<noteq> 0"
  shows "Null_call \<in> set (user_calls w) \<longleftrightarrow> unheard_event w"
proof -
  have i: "dom_wf w" "routes_set w" using assms(1,2) by (simp_all add: api_inv_def)
  have "Null_call \<notin> set (data_calls_v3 w y)" for y
    by (simp add: data_calls_v3_def split: option.splits)
  moreover have "Null_call \<notin> set (data_calls w y)" if "y \<in> set (q_elems (q_submsg w))" for y
    using data_calls_no_null [OF i] assms(3) that by blast
  ultimately show ?thesis
    by (auto simp: user_calls_def unheard_event_def notice_calls_null split: list.splits)
qed

section \<open>Sequences of calls\<close>

lemma api_inv_load:
  assumes "api_inv w" and "ez_kernel_extend_load x w = (rv, w')"
  shows "api_inv w'"
proof -
  have "w' = w \<or> (\<exists>y. x = Some y \<and> extend_data_route y \<noteq> None \<and> my_state (kernel w) \<noteq> Sdk_idle0 \<and> w' = snd (extend_load y w))"
  proof -
    have "snd (extend_load y w1) = w1" if "extend_load y w = (e, w1)" "e \<noteq> mkernel_internal_succ" for y e w1
      using that by (auto simp: extend_load_def split: slot.splits)
    with assms(2) show ?thesis
      by (auto simp: ez_kernel_extend_load_def split: if_splits option.splits prod.splits)
  qed
  then show ?thesis
  proof (elim disjE exE conjE)
    fix y assume y: "extend_data_route y \<noteq> None" "my_state (kernel w) \<noteq> Sdk_idle0" "w' = snd (extend_load y w)"
    obtain e w1 where l: "extend_load y w = (e, w1)" by fastforce
    have i: "dom_wf w" "mod_wf w" "routes_set w" "access_inv w" "queues_wf w"
      using assms(1) y(2) by (simp_all add: api_inv_def)
    note e = extend_load_effect [OF i(1) l] and f = extend_load_frame(1) [OF l]
    have "routes_set w1" using e(2) i(3) y(1) by (auto simp: routes_set_def list_all_iff)
    with i e f y l show ?thesis
      using access_inv_cong [of w1 w] by (simp add: api_inv_def mod_wf_def)
  qed (use assms(1) in simp)
qed

lemma extend_load_v3_wf:
  assumes "mod_wf w" and "ext3_module x \<noteq> []" and "extend_load_v3 x w = (e, w')"
  shows "mod_wf w'"
proof -
  consider "ext3_module x \<in> ext3_module ` set (mod_entries w)"
    | "ext3_module x \<notin> ext3_module ` set (mod_entries w)" "length (mod_entries w) = extend_count w"
    | "ext3_module x \<notin> ext3_module ` set (mod_entries w)" "length (mod_entries w) < extend_count w"
    using mreg.bound [OF assms(1)] by linarith
  then show ?thesis
    using mreg.load_ready [OF assms(1,2)] mreg.load_full [OF assms(1,2)] mreg.load_succ [OF assms(1,2)] assms
    by cases auto
qed

lemma api_inv_load_v3:
  assumes "api_inv w" and "ez_kernel_extend_load_v3 x w = (rv, w')"
  shows "api_inv w'"
proof -
  have "w' = w \<or> (\<exists>y. x = Some y \<and> ext3_module y \<noteq> [] \<and> my_state (kernel w) \<noteq> Sdk_idle0 \<and>
      (w' = snd (extend_load_v3 y w) \<or>
       w' = upd_kernel (\<lambda>k. k\<lparr>v3_reg_status := Sdk_v3_reged\<rparr>) (snd (extend_load_v3 y w))))"
    using assms(2) by (auto simp: ez_kernel_extend_load_v3_def split: if_splits option.splits prod.splits)
  then show ?thesis
  proof (elim disjE exE conjE)
    fix y :: ez_kernel_extend_v3
    assume y: "ext3_module y \<noteq> []" "my_state (kernel w) \<noteq> Sdk_idle0"
    obtain e w1 where l: "extend_load_v3 y w = (e, w1)" by fastforce
    have i: "dom_wf w" "mod_wf w" "routes_set w" "access_inv w" "queues_wf w"
      using assms(1) y(2) by (simp_all add: api_inv_def)
    note f = extend_load_frame(2) [OF l] and m = extend_load_v3_wf [OF i(2) y(1) l]
    have 1: "api_inv w1"
      using i f m access_inv_cong [of w1 w] by (simp add: api_inv_def dom_wf_def routes_set_def dom_entries_def)
    show "w' = snd (extend_load_v3 y w) \<Longrightarrow> api_inv w'" using 1 l by simp
    show "w' = upd_kernel (\<lambda>k. k\<lparr>v3_reg_status := Sdk_v3_reged\<rparr>) (snd (extend_load_v3 y w)) \<Longrightarrow> api_inv w'"
      using 1 l f y(2) by (intro api_inv_kept [OF 1]) (simp_all add: parts_kept_refl api_inv_def)
  qed (use assms(1) in simp_all)
qed

definition send_keeps :: "world \<Rightarrow> world \<Rightarrow> bool" where
  "send_keeps w w' \<longleftrightarrow> parts_kept w w' \<and> kernel w' = kernel w \<and> das w' = das w"

lemma send_keeps_then:
  "send_keeps w w" "send_keeps w v \<Longrightarrow> send_keeps w (w_free v)" "send_keeps w v \<Longrightarrow> send_keeps w (w_frees n v)"
  "send_keeps w v \<Longrightarrow> send_keeps w (snd (genaral_seq v))" "w_malloc v = (ok, v') \<Longrightarrow> send_keeps w v \<Longrightarrow> send_keeps w v'"
  "das_send_pubmsg_async x v = (e, v') \<Longrightarrow> send_keeps w v \<Longrightarrow> send_keeps w v'"
  "das_send_pubmsg_async_v3 y v = (e, v') \<Longrightarrow> send_keeps w v \<Longrightarrow> send_keeps w v'"
  using parts_kept_steps(6) [of x v e v'] parts_kept_steps(9) [of y v e v']
  by (auto simp: send_keeps_def parts_kept_refl das_send_pubmsg_async_def das_send_pubmsg_async_v3_def
      push_queue_pubmsg_exchange_def push_queue_pubmsg_exchange_v3_def w_malloc_def w_free_def w_frees_def
      genaral_seq_def parts_kept_def queues_wf_def split: prod.splits)

lemma send_keeps_queue:
  "queue_or_free das_send_pubmsg_async pubmsg_blocks x v = (rv, v') \<Longrightarrow> send_keeps w v \<Longrightarrow> send_keeps w v'"
  "queue_or_free das_send_pubmsg_async_v3 pubmsg_v3_blocks y v = (rv, v') \<Longrightarrow> send_keeps w v \<Longrightarrow> send_keeps w v'"
  by (auto simp: queue_or_free_def split: prod.splits if_splits intro!: send_keeps_then(3)
      elim!: send_keeps_then(6,7)) (metis prod.collapse send_keeps_then(6,7))+

lemma send_keeps_seq: "genaral_seq v = (n, v') \<Longrightarrow> send_keeps w v \<Longrightarrow> send_keeps w v'"
  using send_keeps_then(4) [of w v] by simp

lemma ez_kernel_send_keeps: "ez_kernel_send p w = (rv, p', w') \<Longrightarrow> send_keeps w w'"
  by (auto simp: ez_kernel_send_def Let_def split: if_splits option.splits prod.splits
      intro!: send_keeps_then(1,2) elim!: send_keeps_then(5) send_keeps_queue send_keeps_seq)

lemma ez_kernel_send_v3_keeps: "ez_kernel_send_v3 p w = (rv, p', w') \<Longrightarrow> send_keeps w w'"
  by (auto simp: ez_kernel_send_v3_def Let_def split: if_splits option.splits prod.splits
      intro!: send_keeps_then(1,2) elim!: send_keeps_then(5) send_keeps_queue send_keeps_seq)

lemma api_inv_send:
  assumes "api_inv w" and "send_keeps w w'"
  shows "api_inv w'"
proof (rule api_inv_kept [OF assms(1)])
  show "access_inv w'"
    using assms access_inv_cong [of w' w] by (simp add: send_keeps_def api_inv_def)
  show "parts_kept w w'" "my_state (kernel w) \<noteq> Sdk_idle0 \<or> my_state (kernel w') = Sdk_idle0"
    using assms(2) by (simp_all add: send_keeps_def)
qed

text \<open>
  One call of the interface, with any arguments (for \<^verbatim>\<open>ez_kernel_init\<close> any server and
  device information and any notice callback, NULL included), or a change of the outside
  world.
\<close>

inductive api_step :: "libs \<Rightarrow> lbs_ops \<Rightarrow> world \<Rightarrow> world \<Rightarrow> bool" for L B where
  init: "ez_kernel_init kv mx srv dev devid cb w = (rv, w') \<Longrightarrow> api_step L B w w'"
| life: "life_run op w = (rv, w') \<Longrightarrow> api_step L B w w'"
| yield: "ez_kernel_yield L B w = (rv, w') \<Longrightarrow> api_step L B w w'"
| yield_user: "ez_kernel_yield_user w = (rv, w') \<Longrightarrow> api_step L B w w'"
| load: "ez_kernel_extend_load x w = (rv, w') \<Longrightarrow> api_step L B w w'"
| load_v3: "ez_kernel_extend_load_v3 y w = (rv, w') \<Longrightarrow> api_step L B w w'"
| send: "ez_kernel_send p w = (rv, p', w') \<Longrightarrow> api_step L B w w'"
| send_v3: "ez_kernel_send_v3 q w = (rv, q', w') \<Longrightarrow> api_step L B w w'"
| outside: "api_step L B w (w\<lparr>now := t, net_answers := as, plat := ps, inbox := ms, w_mem := (w_mem w)\<lparr>answers := bs\<rparr>\<rparr>)"

inductive_cases api_stepE: "api_step L B w w'"

lemma api_inv_step:
  assumes "lbs_ok B" and "api_inv w" and "api_step L B w w'"
  shows "api_inv w'"
  using assms(3)
proof cases
  case (outside t as ps ms bs)
  have "parts_kept w w'" by (simp add: outside parts_kept_def queues_wf_def)
  moreover have "access_inv w' = access_inv w" by (rule access_inv_cong) (simp_all add: outside)
  ultimately show ?thesis
    using assms(2) by (intro api_inv_kept [OF assms(2)]) (auto simp: api_inv_def outside)
qed (fact api_inv_init [OF assms(2)] api_inv_life [OF assms(2)] api_inv_yield [OF assms(1,2)]
      api_inv_yield_user [OF assms(2)] api_inv_load [OF assms(2)] api_inv_load_v3 [OF assms(2)]
      api_inv_send [OF assms(2) ez_kernel_send_keeps] api_inv_send [OF assms(2) ez_kernel_send_v3_keeps])+

lemma api_run_inv:
  assumes "lbs_ok B" and "(api_step L B)\<^sup>*\<^sup>* w w'" and "api_inv w"
  shows "api_inv w'"
  using assms(2,3) by (induction rule: rtranclp_induct) (auto intro: api_inv_step [OF assms(1)])

text \<open>The state before the first call: the zeroed globals of the program.\<close>

definition boot :: "world \<Rightarrow> bool" where
  "boot w \<longleftrightarrow> kernel w = zero_kernel \<and> queues_wf w"

lemma api_inv_boot: "boot w \<Longrightarrow> api_inv w"
  using access_inv_init [of w] by (auto simp: boot_def api_inv_def zero_kernel_def)

end
