(* ===== verification/Iot_Core.thy ===== *)
theory Iot_Core
  imports Kernel_Runs
begin

text \<open>
  The outermost layer, \<^verbatim>\<open>ez_iot_core.c\<close> and \<^verbatim>\<open>ez_iot_core_ctx.c\<close>: initialisation from the
  key-value store, the two tasks that drive the kernel, and the translation of
  kernel events to the application's events. A task function is modelled by what
  it does in one round and by the loop over a number of rounds, with whatever
  happens elsewhere between two rounds as a parameter. Creating a task is a
  platform call whose result is an input.
\<close>

section \<open>State\<close>

datatype ez_event =
    EZ_EVENT_ONLINE | EZ_EVENT_OFFLINE | EZ_EVENT_DISCONNECT | EZ_EVENT_RECONNECT
  | EZ_EVENT_DEVID_UPDATE | EZ_EVENT_SERVER_UPDATE

record core =
  core_world :: world
  g_running :: bool
  g_is_inited :: bool
  g_main_thread :: bool
  g_user_thread :: bool
  g_event_notice_func :: func_ptr
  g_devid :: "string option"
  app_events :: "(ez_event \<times> string option \<times> nat) list"
  kv_open :: bool

definition upd_world :: "world \<Rightarrow> core \<Rightarrow> core" where
  "upd_world w c = c\<lparr>core_world := w\<rparr>"

section \<open>The event callback and the device id\<close>

definition ez_iot_event_adapt :: "ez_kernel_event option \<Rightarrow> core \<Rightarrow> core" where
  "ez_iot_event_adapt ptr_event c =
     (case ptr_event of None \<Rightarrow> c
      | Some ev \<Rightarrow>
          if g_event_notice_func c = None then c
          else case event_type ev of
            SDK_KERNEL_EVENT_ONLINE \<Rightarrow> c\<lparr>app_events := app_events c @ [(EZ_EVENT_ONLINE, None, 0)]\<rparr>
          | SDK_KERNEL_EVENT_BREAK \<Rightarrow> c\<lparr>app_events := app_events c @ [(EZ_EVENT_OFFLINE, None, 0)]\<rparr>
          | SDK_KERNEL_EVENT_SWITCHOVER \<Rightarrow>
              (let c1 = c\<lparr>app_events := app_events c @ [(EZ_EVENT_ONLINE, None, 0)]\<rparr>
               in case event_context ev of
                    Some (Switchover_context ctx) \<Rightarrow>
                      c1\<lparr>app_events := app_events c1 @
                        [(EZ_EVENT_SERVER_UPDATE, Some (sw_lbs_domain ctx), length (sw_lbs_domain ctx))]\<rparr>
                  | _ \<Rightarrow> c1)
          | SDK_KERNEL_EVENT_RECONNECT \<Rightarrow> c\<lparr>app_events := app_events c @ [(EZ_EVENT_RECONNECT, None, 0)]\<rparr>
          | SDK_KERNEL_EVENT_PUBLISH_ACK \<Rightarrow> c)"

definition ez_iot_value_save :: "kv_ops \<Rightarrow> sdk_keyvalue_type \<Rightarrow> byte list \<Rightarrow> int" where
  "ez_iot_value_save kv valuetype keyvalue =
     (case valuetype of
        Sdk_keyvalue_devid \<Rightarrow> kv_raw_set kv EZ_KV_DEFALUT_KEY_DEVID keyvalue
      | Sdk_keyvalue_masterkey \<Rightarrow> kv_raw_set kv EZ_KV_DEFALUT_KEY_MASTERKEY keyvalue
      | Sdk_keyvalue_other \<Rightarrow> - 1)"

definition ez_iot_event_notice_set :: "func_ptr \<Rightarrow> core \<Rightarrow> core" where
  "ez_iot_event_notice_set pfunc c = c\<lparr>g_event_notice_func := pfunc\<rparr>"

definition ez_iot_event_notice_get :: "core \<Rightarrow> func_ptr" where
  "ez_iot_event_notice_get c = g_event_notice_func c"

definition ez_iot_devid_set :: "string \<Rightarrow> core \<Rightarrow> core" where
  "ez_iot_devid_set devid c = c\<lparr>g_devid := Some (strncpy devid 32)\<rparr>"

definition ez_iot_devid_get :: "core \<Rightarrow> string option" where
  "ez_iot_devid_get c = g_devid c"

section \<open>Life cycle\<close>

text \<open>\<^verbatim>\<open>adapt\<close> stands for the address of \<^verbatim>\<open>ez_iot_event_adapt\<close>.\<close>

definition ez_iot_core_init :: "kv_ops \<Rightarrow> bool \<times> bool \<times> bool \<times> bool \<times> bool \<Rightarrow> nat \<Rightarrow> ez_server_info option
    \<Rightarrow> ez_dev_info option \<Rightarrow> func_ptr \<Rightarrow> core \<Rightarrow> ez_err \<times> core" where
  "ez_iot_core_init kv mutexes adapt psrv_info pdev_info pfunc c =
     (if g_is_inited c then (EZ_CORE_ERR_SUCC, c)
      else case psrv_info of None \<Rightarrow> (EZ_CORE_ERR_PARAM_INVALID, c)
      | Some srv \<Rightarrow>
        (case pdev_info of None \<Rightarrow> (EZ_CORE_ERR_PARAM_INVALID, c)
         | Some dev \<Rightarrow>
           if pfunc = None \<or> host srv = [] then (EZ_CORE_ERR_PARAM_INVALID, c)
           else
             let c1 = ez_iot_event_notice_set pfunc c
             in if kv_init kv \<noteq> 0 then (EZ_CORE_ERR_STORAGE, c1)
             else let c2 = c1\<lparr>kv_open := True\<rparr>
             in case kv_raw_get kv EZ_KV_DEFALUT_KEY_DEVID 32 of (e, bs) \<Rightarrow>
               if e \<noteq> 0 then (EZ_CORE_ERR_STORAGE, c2)
               else (case ez_kernel_init kv mutexes srv dev (fill 32 bs) (Some adapt) (core_world c2) of (ez_rv, w) \<Rightarrow>
                 if ez_rv \<noteq> 0 then (EZ_CORE_ERR_GENERAL, upd_world w c2)
                 else (EZ_CORE_ERR_SUCC, (upd_world w c2)\<lparr>g_is_inited := True\<rparr>))))"

definition ez_iot_core_start :: "int \<Rightarrow> int \<Rightarrow> core \<Rightarrow> ez_err \<times> core" where
  "ez_iot_core_start create_main create_user c =
     (case ez_kernel_start (core_world c) of (e, w) \<Rightarrow>
       let (rv, c1) =
         (if e \<noteq> 0 then (e, c)
          else
            let c1 = (upd_world w c)\<lparr>g_running := True\<rparr>
            in if create_main \<noteq> 0 then (EZ_CORE_ERR_MEMORY, c1)
               else
                 let c2 = c1\<lparr>g_main_thread := True\<rparr>
                 in if create_user \<noteq> 0 then (EZ_CORE_ERR_MEMORY, c2)
                    else (EZ_CORE_ERR_SUCC, c2\<lparr>g_user_thread := True\<rparr>))
       in if rv \<noteq> EZ_CORE_ERR_SUCC
          then (rv, (upd_world (snd (ez_kernel_stop (core_world c1))) c1)
                      \<lparr>g_running := False, g_main_thread := False, g_user_thread := False\<rparr>)
          else (rv, c1))"

definition ez_iot_core_stop :: "core \<Rightarrow> ez_err \<times> core" where
  "ez_iot_core_stop c =
     (case ez_kernel_stop (core_world c) of (e, w) \<Rightarrow>
       if e \<noteq> 0 then (e, upd_world w c)
       else (EZ_CORE_ERR_SUCC,
             (upd_world w c)\<lparr>g_running := False, g_main_thread := False, g_user_thread := False\<rparr>))"

definition ez_iot_core_deinit :: "core \<Rightarrow> core" where
  "ez_iot_core_deinit c =
     (if \<not> g_is_inited c then c
      else (upd_world (snd (ez_kernel_fini (core_world c))) (c\<lparr>kv_open := False\<rparr>))\<lparr>g_is_inited := False\<rparr>)"

section \<open>The tasks\<close>

text \<open>One round of a task, and whether the task function returns after it.\<close>

definition task_exit :: "ez_err \<Rightarrow> bool" where
  "task_exit rv \<longleftrightarrow> rv = EZ_CORE_ERR_NOT_READY \<or> rv = EZ_CORE_ERR_RISK_CRTL"

definition main_round :: "libs \<Rightarrow> lbs_ops \<Rightarrow> core \<Rightarrow> bool \<times> core" where
  "main_round L B c =
     (case ez_kernel_yield L B (core_world c) of (rv, w) \<Rightarrow> (task_exit rv, upd_world w c))"

definition user_round :: "core \<Rightarrow> bool \<times> core" where
  "user_round c =
     (case ez_kernel_yield_user (core_world c) of (rv, w) \<Rightarrow> (task_exit rv, upd_world w c))"

text \<open>
  The loop, for at most \<^verbatim>\<open>n\<close> rounds: the state in which the task function returns, or
  \<^verbatim>\<open>None\<close> when it is still running. \<^verbatim>\<open>env i\<close> is what happens during the delay after round
  \<^verbatim>\<open>i\<close>, before \<^verbatim>\<open>g_running\<close> is read.
\<close>

fun task_loop :: "(core \<Rightarrow> bool \<times> core) \<Rightarrow> (nat \<Rightarrow> core \<Rightarrow> core) \<Rightarrow> nat \<Rightarrow> nat \<Rightarrow> core \<Rightarrow> core option" where
  "task_loop round env i 0 c = None"
| "task_loop round env i (Suc n) c =
     (case round c of (exits, c1) \<Rightarrow>
       if exits then Some c1
       else let c2 = env i c1 in if g_running c2 then task_loop round env (Suc i) n c2 else Some c2)"

definition main_thread_func :: "libs \<Rightarrow> lbs_ops \<Rightarrow> (nat \<Rightarrow> core \<Rightarrow> core) \<Rightarrow> nat \<Rightarrow> core \<Rightarrow> core option" where
  "main_thread_func L B env n c = task_loop (main_round L B) env 0 n c"

definition user_thread_func :: "(nat \<Rightarrow> core \<Rightarrow> core) \<Rightarrow> nat \<Rightarrow> core \<Rightarrow> core option" where
  "user_thread_func env n c = task_loop user_round env 0 n c"

section \<open>Control commands\<close>

datatype ez_cmd = EZ_CMD_DEVID_SET string | EZ_CMD_KVIMPL_SET | Cmd_other

text \<open>Installing store functions (\<^verbatim>\<open>ezos_kv_callback_set\<close>) concerns the platform only.\<close>

definition ez_iot_core_ctrl :: "ez_cmd \<Rightarrow> core \<Rightarrow> ez_err \<times> core" where
  "ez_iot_core_ctrl cmd c =
     (case cmd of
        EZ_CMD_DEVID_SET devid \<Rightarrow> (EZ_CORE_ERR_SUCC, ez_iot_devid_set devid c)
      | EZ_CMD_KVIMPL_SET \<Rightarrow> (EZ_CORE_ERR_SUCC, c)
      | Cmd_other \<Rightarrow> (EZ_CORE_ERR_PARAM_INVALID, c))"

section \<open>When tasks end\<close>

lemma upd_world_simps [simp]:
  "core_world (upd_world w c) = w" "g_running (upd_world w c) = g_running c"
  "g_is_inited (upd_world w c) = g_is_inited c"
  by (simp_all add: upd_world_def)

lemma upd_world_same: "upd_world (core_world c) c = c"
  by (simp add: upd_world_def)

text \<open>Both tasks return in the first round that finds the kernel not started.\<close>

lemma tasks_end_when_stopped:
  assumes "my_state (kernel (core_world c)) \<noteq> Sdk_start"
  shows "task_loop (main_round L B) env i (Suc n) c = Some c" "task_loop user_round env i (Suc n) c = Some c"
  using assms
  by (simp_all add: main_round_def user_round_def ez_kernel_yield_def ez_kernel_yield_user_def task_exit_def upd_world_same)

text \<open>
  A state predicate under which rounds do not end the task, kept by the rounds and by
  the environment, keeps the task function from returning.
\<close>

lemma task_loop_runs:
  assumes "\<And>c. P c \<Longrightarrow> \<not> fst (round c) \<and> (\<forall>i. P (env i (snd (round c))) \<and> g_running (env i (snd (round c))))"
    and "P c"
  shows "task_loop round env i n c = None"
  using assms(2)
proof (induction n arbitrary: i c)
  case (Suc n)
  obtain e c1 where r: "round c = (e, c1)" by fastforce
  with assms(1) [OF Suc.prems] Suc.IH show ?case by (simp add: Let_def)
qed simp

text \<open>A device forced offline: every round reports the general error and changes nothing.\<close>

definition offline_forced :: "core \<Rightarrow> bool" where
  "offline_forced c \<longleftrightarrow> my_state (kernel (core_world c)) = Sdk_start \<and>
     access_risk (kernel (core_world c)) = Sdk_risk_control \<and> g_running c"

lemma main_round_forced:
  "offline_forced c \<Longrightarrow> main_round L B c = (False, c)"
  by (simp add: offline_forced_def main_round_def ez_kernel_yield_def access_yield_barred mkiE2ezE_force_offline
      task_exit_def upd_world_same)

lemma main_thread_forced:
  assumes "\<And>i c. offline_forced c \<Longrightarrow> offline_forced (env i c)" and "offline_forced c"
  shows "main_thread_func L B env n c = None"
  unfolding main_thread_func_def
  by (rule task_loop_runs [where P = offline_forced])
    (use assms main_round_forced in \<open>auto simp: offline_forced_def\<close>)

section \<open>Start and stop\<close>

text \<open>Calling start on a running core stops it: the error path tears the tasks down.\<close>

lemma start_twice:
  assumes "my_state (kernel (core_world c)) = Sdk_start"
  shows "fst (ez_iot_core_start m u c) = EZ_CORE_ERR_GENERAL"
    "my_state (kernel (core_world (snd (ez_iot_core_start m u c)))) = Sdk_stop"
    "\<not> g_running (snd (ez_iot_core_start m u c)) \<and> \<not> g_main_thread (snd (ez_iot_core_start m u c)) \<and>
     \<not> g_user_thread (snd (ez_iot_core_start m u c))"
  using assms stop_kernel [of "upd_kernel (\<lambda>k. k\<lparr>my_state := Sdk_stop\<rparr>) (core_world c)"]
  by (simp_all add: ez_iot_core_start_def ez_kernel_start_def ez_kernel_stop_def Let_def)

text \<open>What start promises: either the kernel and both tasks run, or nothing does.\<close>

lemma start_all_or_nothing:
  assumes "ez_iot_core_start m u c = (rv, c')"
  shows "if rv = EZ_CORE_ERR_SUCC
    then my_state (kernel (core_world c')) = Sdk_start \<and> g_running c' \<and> g_main_thread c' \<and> g_user_thread c'
    else my_state (kernel (core_world c')) \<noteq> Sdk_start \<and> \<not> g_running c' \<and> \<not> g_main_thread c' \<and> \<not> g_user_thread c'"
proof -
  have stop: "my_state (kernel (snd (ez_kernel_stop w))) \<noteq> Sdk_start" for w
    using life_run_refines [of Life_stop w "fst (ez_kernel_stop w)" "snd (ez_kernel_stop w)"]
    by (cases "my_state (kernel w)") auto
  have start: "my_state (kernel w') = Sdk_start" if "ez_kernel_start w = (0, w')" for w w'
    using life_run_refines [of Life_start w 0 w'] that by (cases "my_state (kernel w)") auto
  show ?thesis
    using assms stop start
    by (auto simp: ez_iot_core_start_def Let_def split: prod.splits if_splits)
qed

end
