(* ===== verification/Queue_Heap.thy ===== *)
theory Queue_Heap
  imports Kernel_Queue
begin

text \<open>
  The queue macros at the level of the C data structure: a control block with
  head and tail pointers into a store of singly linked elements
  (\<^verbatim>\<open>queque_element_*\<close>, \<^verbatim>\<open>queque_*\<close>). Reading or writing through a pointer to a
  freed or never allocated element raises the ghost flag \<^verbatim>\<open>h_fault\<close>. The
  refinement lemmas show that from a well-formed queue no operation faults,
  leaks an element or loses the tail, and that each operation acts on the queued
  sequence as the operation of \<^verbatim>\<open>Kernel_Queue\<close> does.
\<close>

section \<open>Data\<close>

record 'a element =
  el_msg :: 'a
  el_next :: "nat option"

record 'a hqueue =
  h_maxsize :: uint16
  h_size :: uint16
  h_head :: "nat option"
  h_tail :: "nat option"
  h_lock :: bool
  h_cells :: "nat \<Rightarrow> 'a element option"
  h_brk :: nat
  h_fault :: bool

type_synonym 'a hstate = "mem \<times> 'a hqueue"

section \<open>Operations\<close>

text \<open>\<^verbatim>\<open>t->next = v\<close>.\<close>

definition set_next :: "nat \<Rightarrow> nat option \<Rightarrow> 'a hqueue \<Rightarrow> 'a hqueue" where
  "set_next t v q =
     (case h_cells q t of
        None \<Rightarrow> q\<lparr>h_fault := True\<rparr>
      | Some e \<Rightarrow> q\<lparr>h_cells := (h_cells q)(t \<mapsto> e\<lparr>el_next := v\<rparr>)\<rparr>)"

text \<open>A fresh element at the next unused address.\<close>

definition new_element :: "'a \<Rightarrow> 'a hqueue \<Rightarrow> 'a hqueue" where
  "new_element x q =
     q\<lparr>h_cells := (h_cells q)(h_brk q \<mapsto> \<lparr>el_msg = x, el_next = None\<rparr>),
       h_brk := Suc (h_brk q)\<rparr>"

definition h_init :: "bool \<Rightarrow> uint16 \<Rightarrow> mkernel_internal_error \<times> 'a hqueue" where
  "h_init mutex_ok max_size =
     (let q = \<lparr>h_maxsize = max_size, h_size = 0, h_head = None, h_tail = None,
               h_lock = mutex_ok, h_cells = Map.empty, h_brk = 0, h_fault = False\<rparr>
      in if \<not> mutex_ok then (mkernel_internal_malloc_error, q) else (mkernel_internal_succ, q))"

text \<open>The pointer updates of a push, of a push at the head and of a pop.\<close>

definition link_tail :: "'a \<Rightarrow> 'a hqueue \<Rightarrow> 'a hqueue" where
  "link_tail submsg q =
     (let element = h_brk q;
          q1 = new_element submsg q;
          q2 = (if h_tail q = None \<or> h_head q = None
                then q1\<lparr>h_head := Some element, h_tail := Some element\<rparr>
                else (set_next (the (h_tail q)) (Some element) q1)\<lparr>h_tail := Some element\<rparr>)
      in q2\<lparr>h_size := h_size q2 + 1\<rparr>)"

definition link_head :: "'a \<Rightarrow> 'a hqueue \<Rightarrow> 'a hqueue" where
  "link_head submsg q =
     (let element = h_brk q;
          q1 = new_element submsg q;
          q2 = (if h_tail q = None \<or> h_head q = None
                then q1\<lparr>h_head := Some element, h_tail := Some element\<rparr>
                else (set_next element (h_head q) q1)\<lparr>h_head := Some element\<rparr>)
      in q2\<lparr>h_size := h_size q2 + 1\<rparr>)"

definition unlink_head :: "nat \<Rightarrow> 'a element \<Rightarrow> 'a hqueue \<Rightarrow> 'a hqueue" where
  "unlink_head element e q =
     (let q1 = q\<lparr>h_head := el_next e\<rparr>;
          q2 = (if h_head q1 = None then q1\<lparr>h_tail := None, h_size := 0\<rparr>
                else q1\<lparr>h_size := h_size q1 - 1\<rparr>)
      in q2\<lparr>h_cells := (h_cells q2)(element := None)\<rparr>)"

definition h_push :: "'a \<Rightarrow> 'a hstate \<Rightarrow> mkernel_internal_error \<times> 'a hstate" where
  "h_push submsg s =
     (case s of (m, q) \<Rightarrow>
       if h_size q \<ge> h_maxsize q then (mkernel_internal_queue_full, (m, q))
       else (case ezos_malloc m of (ok, m') \<Rightarrow>
         if \<not> ok then (mkernel_internal_malloc_error, (m', q))
         else (mkernel_internal_succ, (m', link_tail submsg q))))"

definition h_push_head :: "'a \<Rightarrow> 'a hstate \<Rightarrow> mkernel_internal_error \<times> 'a hstate" where
  "h_push_head submsg s =
     (case s of (m, q) \<Rightarrow>
       if h_size q \<ge> h_maxsize q then (mkernel_internal_queue_full, (m, q))
       else (case ezos_malloc m of (ok, m') \<Rightarrow>
         if \<not> ok then (mkernel_internal_malloc_error, (m', q))
         else (mkernel_internal_succ, (m', link_head submsg q))))"

definition h_pop :: "'a hstate \<Rightarrow> (mkernel_internal_error \<times> 'a option) \<times> 'a hstate" where
  "h_pop s =
     (case s of (m, q) \<Rightarrow>
       (case h_head q of
          None \<Rightarrow> ((mkernel_internal_queue_empty, None), (m, q\<lparr>h_tail := None, h_size := 0\<rparr>))
        | Some element \<Rightarrow>
            (case h_cells q element of
               None \<Rightarrow> ((mkernel_internal_succ, None), (m, q\<lparr>h_fault := True\<rparr>))
             | Some e \<Rightarrow>
                 ((mkernel_internal_succ, Some (el_msg e)),
                  (ezos_free m, unlink_head element e q)))))"

definition h_get :: "'a hstate \<Rightarrow> (mkernel_internal_error \<times> 'a option) \<times> 'a hstate" where
  "h_get s =
     (case s of (m, q) \<Rightarrow>
       (case h_head q of
          None \<Rightarrow> ((mkernel_internal_queue_empty, None), (m, q\<lparr>h_tail := None, h_size := 0\<rparr>))
        | Some element \<Rightarrow>
            (case h_cells q element of
               None \<Rightarrow> ((mkernel_internal_succ, None), (m, q\<lparr>h_fault := True\<rparr>))
             | Some e \<Rightarrow> ((mkernel_internal_succ, Some (el_msg e)), (m, q)))))"

text \<open>The loop of \<^verbatim>\<open>fini_queue_*\<close>; a corrupted list could make it run forever.\<close>

partial_function (option) h_fini_loop :: "'a hstate \<Rightarrow> 'a hstate option" where
  "h_fini_loop s =
     (case h_head (snd s) of
        None \<Rightarrow> Some s
      | Some element \<Rightarrow>
          (case h_cells (snd s) element of
             None \<Rightarrow> Some (fst s, (snd s)\<lparr>h_fault := True\<rparr>)
           | Some e \<Rightarrow>
               h_fini_loop (ezos_free (ezos_free (fst s)),
                 (snd s)\<lparr>h_head := el_next e, h_cells := (h_cells (snd s))(element := None)\<rparr>)))"

definition h_fini :: "'a hstate \<Rightarrow> 'a hstate option" where
  "h_fini s =
     (case h_fini_loop s of
        None \<Rightarrow> None
      | Some (m, q) \<Rightarrow>
          Some (m, q\<lparr>h_maxsize := 0, h_size := 0, h_head := None, h_tail := None, h_lock := False\<rparr>))"

section \<open>Well-formed lists in the store\<close>

fun chain :: "(nat \<Rightarrow> 'a element option) \<Rightarrow> nat option \<Rightarrow> nat list \<Rightarrow> bool" where
  "chain c p [] \<longleftrightarrow> p = None"
| "chain c p (a # as) \<longleftrightarrow> p = Some a \<and> (case c a of None \<Rightarrow> False | Some e \<Rightarrow> chain c (el_next e) as)"

fun walk :: "nat \<Rightarrow> (nat \<Rightarrow> 'a element option) \<Rightarrow> nat option \<Rightarrow> 'a list" where
  "walk 0 c p = []"
| "walk (Suc n) c None = []"
| "walk (Suc n) c (Some a) = (case c a of None \<Rightarrow> [] | Some e \<Rightarrow> el_msg e # walk n c (el_next e))"

definition h_items :: "'a hqueue \<Rightarrow> 'a list" where
  "h_items q = walk (unat (h_size q)) (h_cells q) (h_head q)"

definition h_abs :: "'a hstate \<Rightarrow> 'a qstate" where
  "h_abs s = (fst s, \<lparr>q_maxsize = h_maxsize (snd s), q_size = h_size (snd s),
                      q_elems = h_items (snd s), q_lock = h_lock (snd s)\<rparr>)"

text \<open>
  \<^verbatim>\<open>h_rep q as\<close>: the addresses \<^verbatim>\<open>as\<close> are the elements of the queue in order; the
  store holds no other element, the tail is the last one and the counter counts
  them.
\<close>

definition h_rep :: "'a hqueue \<Rightarrow> nat list \<Rightarrow> bool" where
  "h_rep q as \<longleftrightarrow> chain (h_cells q) (h_head q) as \<and> distinct as \<and>
     dom (h_cells q) = set as \<and> (\<forall>a \<in> set as. a < h_brk q) \<and>
     h_tail q = (if as = [] then None else Some (last as)) \<and>
     unat (h_size q) = length as \<and> h_size q \<le> h_maxsize q \<and> \<not> h_fault q"

definition h_wf :: "'a hstate \<Rightarrow> bool" where
  "h_wf s \<longleftrightarrow> (\<exists>as. h_rep (snd s) as)"

lemma chain_upd [simp]: "a \<notin> set as \<Longrightarrow> chain (c(a := v)) p as = chain c p as"
  by (induction as arbitrary: p) (auto split: option.splits)

lemma chain_head: "chain c p as \<Longrightarrow> p = None \<longleftrightarrow> as = []"
  by (cases as) auto

lemma chain_walk:
  "chain c p as \<Longrightarrow> walk (length as) c p = map (\<lambda>a. el_msg (the (c a))) as"
  by (induction as arbitrary: p) (auto split: option.splits)

lemma chain_link:
  assumes "chain c p (as @ [t])" and "distinct (as @ [t])" and "a \<notin> set (as @ [t])"
    and "c t = Some e"
  shows "chain (c(a \<mapsto> \<lparr>el_msg = x, el_next = None\<rparr>, t \<mapsto> e\<lparr>el_next := Some a\<rparr>)) p (as @ [t, a])"
  using assms
proof (induction as arbitrary: p)
  case Nil
  then show ?case by (auto split: option.splits)
next
  case (Cons b as)
  from Cons.prems obtain f where f: "c b = Some f" and p: "p = Some b"
    and ch: "chain c (el_next f) (as @ [t])"
    by (auto split: option.splits)
  have "chain (c(a \<mapsto> \<lparr>el_msg = x, el_next = None\<rparr>, t \<mapsto> e\<lparr>el_next := Some a\<rparr>)) (el_next f) (as @ [t, a])"
    by (rule Cons.IH) (use Cons.prems ch in auto)
  moreover have "b \<noteq> t" "b \<noteq> a" using Cons.prems by auto
  ultimately show ?case using f p by (simp add: fun_upd_def)
qed

lemma h_rep_items: "h_rep q as \<Longrightarrow> h_items q = map (\<lambda>a. el_msg (the (h_cells q a))) as"
  by (auto simp: h_rep_def h_items_def dest: chain_walk)

lemma h_rep_fresh: "h_rep q as \<Longrightarrow> h_brk q \<notin> set as"
  by (auto simp: h_rep_def)

lemma h_rep_head: "h_rep q as \<Longrightarrow> h_head q = None \<longleftrightarrow> as = []"
  by (auto simp: h_rep_def dest: chain_head)

section \<open>Refinement\<close>

lemma h_rep_size_suc:
  "h_rep q as \<Longrightarrow> \<not> h_size q \<ge> h_maxsize q \<Longrightarrow>
     unat (h_size q + 1) = Suc (length as) \<and> h_size q + 1 \<le> h_maxsize q"
  using unat_suc_below [of "h_size q" "h_maxsize q"]
  by (auto simp: h_rep_def word_le_nat_alt not_le)

lemma link_fields [simp]:
  "h_maxsize (link_tail x q) = h_maxsize q" "h_size (link_tail x q) = h_size q + 1"
  "h_lock (link_tail x q) = h_lock q"
  "h_maxsize (link_head x q) = h_maxsize q" "h_size (link_head x q) = h_size q + 1"
  "h_lock (link_head x q) = h_lock q"
  "h_maxsize (unlink_head a f q) = h_maxsize q" "h_lock (unlink_head a f q) = h_lock q"
  by (simp_all add: link_tail_def link_head_def unlink_head_def new_element_def set_next_def Let_def
      split: option.splits)

lemma link_empty:
  assumes "h_rep q []" and "\<not> h_size q \<ge> h_maxsize q"
  shows "link_head x q = link_tail x q" and "h_rep (link_tail x q) [h_brk q]"
  using assms h_rep_size_suc [OF assms]
  by (simp_all add: h_rep_def link_tail_def link_head_def new_element_def Let_def)

text \<open>An element linked behind the tail, or alone into an empty queue.\<close>

lemma h_rep_link_tail:
  assumes r: "h_rep q as" and room: "\<not> h_size q \<ge> h_maxsize q"
  shows "h_rep (link_tail x q) (as @ [h_brk q])" and "h_items (link_tail x q) = h_items q @ [x]"
proof -
  have "h_rep (link_tail x q) (as @ [h_brk q]) \<and> h_items (link_tail x q) = h_items q @ [x]"
  proof (cases as rule: rev_cases)
    case Nil
    with link_empty [of q x] r room h_rep_items [of "link_tail x q" "[h_brk q]"] h_rep_items [OF r]
    show ?thesis by (simp add: h_rep_def link_tail_def new_element_def Let_def)
  next
    case (snoc bs t)
    with r have tl: "h_tail q = Some t" and dt: "t \<in> dom (h_cells q)" and hd: "h_head q \<noteq> None"
      by (auto simp: h_rep_def dest: chain_head)
    then obtain f where f: "h_cells q t = Some f" by blast
    from h_rep_fresh [OF r] snoc have fr: "h_brk q \<notin> set as" "t \<noteq> h_brk q" by auto
    let ?c = "(h_cells q)(h_brk q \<mapsto> \<lparr>el_msg = x, el_next = None\<rparr>,
                          t \<mapsto> f\<lparr>el_next := Some (h_brk q)\<rparr>)"
    have q'': "link_tail x q = q\<lparr>h_cells := ?c, h_brk := Suc (h_brk q),
        h_tail := Some (h_brk q), h_size := h_size q + 1\<rparr>"
      using tl hd f fr by (auto simp: link_tail_def new_element_def set_next_def Let_def)
    have ch: "chain ?c (h_head q) (bs @ [t, h_brk q])"
      using r snoc fr f by (intro chain_link) (auto simp: h_rep_def)
    have rep: "h_rep (link_tail x q) (as @ [h_brk q])"
      using r snoc ch fr h_rep_size_suc [OF r room] by (auto simp: h_rep_def q'' less_Suc_eq)
    show ?thesis
      using rep h_rep_items [OF rep] h_rep_items [OF r] fr f by (auto simp: q'')
  qed
  then show "h_rep (link_tail x q) (as @ [h_brk q])" "h_items (link_tail x q) = h_items q @ [x]"
    by blast+
qed

text \<open>An element linked before the head.\<close>

lemma h_rep_link_head:
  assumes r: "h_rep q as" and room: "\<not> h_size q \<ge> h_maxsize q"
  shows "h_rep (link_head x q) (h_brk q # as)" and "h_items (link_head x q) = x # h_items q"
proof -
  have "h_rep (link_head x q) (h_brk q # as) \<and> h_items (link_head x q) = x # h_items q"
  proof (cases "as = []")
    case True
    with link_empty [of q x] r room h_rep_link_tail [OF r room, of x] h_rep_items [OF r]
    show ?thesis by simp
  next
    case False
    let ?c = "(h_cells q)(h_brk q \<mapsto> \<lparr>el_msg = x, el_next = h_head q\<rparr>)"
    from r False have tl: "h_tail q \<noteq> None" by (auto simp: h_rep_def)
    have q'': "link_head x q = q\<lparr>h_cells := ?c, h_brk := Suc (h_brk q),
        h_head := Some (h_brk q), h_size := h_size q + 1\<rparr>"
      using tl h_rep_head [OF r] False
      by (auto simp: link_head_def new_element_def set_next_def Let_def)
    have rep: "h_rep (link_head x q) (h_brk q # as)"
      using r False h_rep_fresh [OF r] h_rep_size_suc [OF r room]
      by (auto simp: h_rep_def q'' less_Suc_eq)
    show ?thesis
      using rep h_rep_items [OF rep] h_rep_items [OF r] h_rep_fresh [OF r] by (auto simp: q'')
  qed
  then show "h_rep (link_head x q) (h_brk q # as)" "h_items (link_head x q) = x # h_items q"
    by blast+
qed

text \<open>The first element unlinked.\<close>

lemma h_rep_unlink_head:
  assumes r: "h_rep q (a # as)" and f: "h_cells q a = Some f"
  shows "h_rep (unlink_head a f q) as" and "h_items q = el_msg f # h_items (unlink_head a f q)"
    and "h_size (unlink_head a f q) = (if as = [] then 0 else h_size q - 1)"
proof -
  from r f have nx: "el_next f = None \<longleftrightarrow> as = []"
    by (auto simp: h_rep_def dest: chain_head)
  show rep: "h_rep (unlink_head a f q) as"
    using r f nx unat_pred [of "h_size q" "length as"]
    by (auto simp: h_rep_def unlink_head_def Let_def word_le_nat_alt)
  from r have "a \<notin> set as" by (simp add: h_rep_def)
  then show "h_items q = el_msg f # h_items (unlink_head a f q)"
    using h_rep_items [OF r] h_rep_items [OF rep] f nx by (auto simp: unlink_head_def Let_def)
  show "h_size (unlink_head a f q) = (if as = [] then 0 else h_size q - 1)"
    using nx by (simp add: unlink_head_def Let_def)
qed

lemma h_wfE:
  assumes "h_wf s"
  obtains m q as where "s = (m, q)" and "h_rep q as"
  using assms by (cases s) (auto simp: h_wf_def)

lemma h_push_refines:
  assumes "h_wf s"
  shows "push_queue x (h_abs s) = map_prod id h_abs (h_push x s)" and "h_wf (snd (h_push x s))"
proof -
  from assms obtain m q as where s: "s = (m, q)" and r: "h_rep q as" by (rule h_wfE)
  show "push_queue x (h_abs s) = map_prod id h_abs (h_push x s)"
    using h_rep_link_tail(2) [OF r, of x]
    by (simp add: s h_abs_def push_queue_def h_push_def split: prod.split)
  show "h_wf (snd (h_push x s))"
    using h_rep_link_tail(1) [OF r, of x] r
    by (auto simp: s h_wf_def h_push_def split: prod.split)
qed

lemma h_push_head_refines:
  assumes "h_wf s"
  shows "push_queue_head x (h_abs s) = map_prod id h_abs (h_push_head x s)"
    and "h_wf (snd (h_push_head x s))"
proof -
  from assms obtain m q as where s: "s = (m, q)" and r: "h_rep q as" by (rule h_wfE)
  show "push_queue_head x (h_abs s) = map_prod id h_abs (h_push_head x s)"
    using h_rep_link_head(2) [OF r, of x]
    by (simp add: s h_abs_def push_queue_head_def h_push_head_def split: prod.split)
  show "h_wf (snd (h_push_head x s))"
    using h_rep_link_head(1) [OF r, of x] r
    by (auto simp: s h_wf_def h_push_head_def split: prod.split)
qed

lemma h_rep_cases:
  assumes "h_rep q as"
  obtains (empty) "as = []" and "h_head q = None" and "h_items q = []"
  | (cons) a bs f where "as = a # bs" and "h_head q = Some a" and "h_cells q a = Some f"
    and "h_items q = el_msg f # h_items (unlink_head a f q)"
proof (cases as)
  case Nil
  with assms h_rep_items [OF assms] show ?thesis by (intro empty) (auto simp: h_rep_def)
next
  case (Cons a bs)
  with assms obtain f where f: "h_cells q a = Some f" and hd: "h_head q = Some a"
    by (auto simp: h_rep_def split: option.splits)
  with Cons h_rep_unlink_head(2) [OF assms [unfolded Cons] f] show ?thesis by (intro cons)
qed

lemma h_pop_refines:
  assumes "h_wf s"
  shows "pop_queue (h_abs s) = map_prod id h_abs (h_pop s)" and "h_wf (snd (h_pop s))"
proof -
  from assms obtain m q as where s: "s = (m, q)" and r: "h_rep q as" by (rule h_wfE)
  have "pop_queue (h_abs s) = map_prod id h_abs (h_pop s) \<and> h_wf (snd (h_pop s))"
    using r
  proof (cases rule: h_rep_cases)
    case empty
    then have "h_rep (q\<lparr>h_tail := None, h_size := 0\<rparr>) []" using r by (simp add: h_rep_def)
    with empty show ?thesis
      by (auto simp: s h_wf_def h_abs_def h_pop_def pop_queue_def h_items_def)
  next
    case (cons a bs f)
    note u = h_rep_unlink_head [OF r [unfolded cons(1)] cons(3)]
    from u h_rep_items [OF u(1)] cons show ?thesis
      by (auto simp: s h_wf_def h_abs_def h_pop_def pop_queue_def)
  qed
  then show "pop_queue (h_abs s) = map_prod id h_abs (h_pop s)" "h_wf (snd (h_pop s))"
    by blast+
qed

lemma h_get_refines:
  assumes "h_wf s"
  shows "get_queue (h_abs s) = map_prod id h_abs (h_get s)" and "h_wf (snd (h_get s))"
proof -
  from assms obtain m q as where s: "s = (m, q)" and r: "h_rep q as" by (rule h_wfE)
  have "get_queue (h_abs s) = map_prod id h_abs (h_get s) \<and> h_wf (snd (h_get s))"
    using r
  proof (cases rule: h_rep_cases)
    case empty
    then have "h_rep (q\<lparr>h_tail := None, h_size := 0\<rparr>) []" using r by (simp add: h_rep_def)
    with empty show ?thesis
      by (auto simp: s h_wf_def h_abs_def h_get_def get_queue_def h_items_def)
  next
    case (cons a bs f)
    with r show ?thesis by (auto simp: s h_wf_def h_abs_def h_get_def get_queue_def)
  qed
  then show "get_queue (h_abs s) = map_prod id h_abs (h_get s)" "h_wf (snd (h_get s))"
    by blast+
qed

section \<open>The contract, by transport along the refinement\<close>

lemma h_wf_abs: "h_wf s \<Longrightarrow> qs_wf (h_abs s)"
  by (auto elim!: h_wfE simp: qs_defs h_abs_def h_rep_items) (simp_all add: h_rep_def)

lemma h_abs_memory [simp]: "fst (h_abs s) = fst s"
  by (simp add: h_abs_def)

text \<open>A result of the list-level operation is a result of the refining one.\<close>

lemma refined_step:
  assumes "f (h_abs s) = map_prod id h_abs (g s)" and "h_wf (snd (g s))"
    and "\<exists>t. f (h_abs s) = (r, t) \<and> qs_items t = xs \<and> qs_capacity t = n \<and> fst t = m \<and> qs_wf t"
  shows "\<exists>s'. g s = (r, s') \<and> (qs_items \<circ> h_abs) s' = xs \<and> (qs_capacity \<circ> h_abs) s' = n \<and>
    fst s' = m \<and> h_wf s'"
  using assms by (cases "g s") (auto simp: h_abs_def)

lemma h_push_full:
  "h_wf s \<Longrightarrow> length (qs_items (h_abs s)) = qs_capacity (h_abs s) \<Longrightarrow>
     h_push x s = (mkernel_internal_queue_full, s) \<and>
     h_push_head x s = (mkernel_internal_queue_full, s)"
  using q_wf_full_iff [of "snd (h_abs s)"] h_wf_abs [of s]
  by (auto simp: qs_items_def qs_capacity_def qs_wf_def h_abs_def h_push_def h_push_head_def
      split: prod.split)

interpretation hq: bounded_queue h_push h_push_head h_pop h_get
  "qs_items \<circ> h_abs" "qs_capacity \<circ> h_abs" fst h_wf
proof unfold_locales
  fix s :: "'a hstate" and x :: 'a and xs
  assume wf: "h_wf s"
  note abs = h_wf_abs [OF wf]
  show "length ((qs_items \<circ> h_abs) s) \<le> (qs_capacity \<circ> h_abs) s"
    using lq.items_bound [OF abs] by simp
  show "h_push x s = (mkernel_internal_queue_full, s)"
    if "length ((qs_items \<circ> h_abs) s) = (qs_capacity \<circ> h_abs) s"
    using that h_push_full [OF wf] by simp
  show "h_push_head x s = (mkernel_internal_queue_full, s)"
    if "length ((qs_items \<circ> h_abs) s) = (qs_capacity \<circ> h_abs) s"
    using that h_push_full [OF wf] by simp
  show "\<exists>s'. h_push x s = (mkernel_internal_malloc_error, s') \<and>
      (qs_items \<circ> h_abs) s' = (qs_items \<circ> h_abs) s \<and>
      (qs_capacity \<circ> h_abs) s' = (qs_capacity \<circ> h_abs) s \<and>
      fst s' = snd (ezos_malloc (fst s)) \<and> h_wf s'"
    if "length ((qs_items \<circ> h_abs) s) < (qs_capacity \<circ> h_abs) s" and "\<not> fst (ezos_malloc (fst s))"
    using that lq.push_nomem [OF abs, of x]
    by (intro refined_step [of "push_queue x"] h_push_refines wf) simp
  show "\<exists>s'. h_push x s = (mkernel_internal_succ, s') \<and>
      (qs_items \<circ> h_abs) s' = (qs_items \<circ> h_abs) s @ [x] \<and>
      (qs_capacity \<circ> h_abs) s' = (qs_capacity \<circ> h_abs) s \<and>
      fst s' = snd (ezos_malloc (fst s)) \<and> h_wf s'"
    if "length ((qs_items \<circ> h_abs) s) < (qs_capacity \<circ> h_abs) s" and "fst (ezos_malloc (fst s))"
    using that lq.push_succ [OF abs, of x]
    by (intro refined_step [of "push_queue x"] h_push_refines wf) simp
  show "\<exists>s'. h_push_head x s = (mkernel_internal_succ, s') \<and>
      (qs_items \<circ> h_abs) s' = x # (qs_items \<circ> h_abs) s \<and>
      (qs_capacity \<circ> h_abs) s' = (qs_capacity \<circ> h_abs) s \<and>
      fst s' = snd (ezos_malloc (fst s)) \<and> h_wf s'"
    if "length ((qs_items \<circ> h_abs) s) < (qs_capacity \<circ> h_abs) s" and "fst (ezos_malloc (fst s))"
    using that lq.push_head_succ [OF abs, of x]
    by (intro refined_step [of "push_queue_head x"] h_push_head_refines wf) simp
  show "\<exists>s'. h_pop s = ((mkernel_internal_queue_empty, None), s') \<and>
      (qs_items \<circ> h_abs) s' = [] \<and> (qs_capacity \<circ> h_abs) s' = (qs_capacity \<circ> h_abs) s \<and>
      fst s' = fst s \<and> h_wf s'"
    if "(qs_items \<circ> h_abs) s = []"
    using that lq.pop_empty [OF abs]
    by (intro refined_step [of pop_queue] h_pop_refines wf) simp
  show "\<exists>s'. h_pop s = ((mkernel_internal_succ, Some x), s') \<and>
      (qs_items \<circ> h_abs) s' = xs \<and> (qs_capacity \<circ> h_abs) s' = (qs_capacity \<circ> h_abs) s \<and>
      fst s' = ezos_free (fst s) \<and> h_wf s'"
    if "(qs_items \<circ> h_abs) s = x # xs"
    using that lq.pop_Cons [OF abs, of x xs]
    by (intro refined_step [of pop_queue] h_pop_refines wf) simp
  show "\<exists>s'. h_get s = ((mkernel_internal_queue_empty, None), s') \<and>
      (qs_items \<circ> h_abs) s' = [] \<and> (qs_capacity \<circ> h_abs) s' = (qs_capacity \<circ> h_abs) s \<and>
      fst s' = fst s \<and> h_wf s'"
    if "(qs_items \<circ> h_abs) s = []"
    using that lq.get_empty [OF abs]
    by (intro refined_step [of get_queue] h_get_refines wf) simp
  show "h_get s = ((mkernel_internal_succ, Some x), s)"
    if it: "(qs_items \<circ> h_abs) s = x # xs"
  proof -
    from wf obtain m q as where s: "s = (m, q)" and r: "h_rep q as" by (rule h_wfE)
    from r it show ?thesis
      by (cases rule: h_rep_cases) (auto simp: s h_get_def h_abs_def qs_items_def)
  qed
qed

section \<open>Tear-down\<close>

text \<open>The loop of \<^verbatim>\<open>fini_queue_*\<close> ends, frees every element and faults nowhere.\<close>

lemma h_fini_loop_returns:
  assumes "chain (h_cells q) (h_head q) as" and "distinct as" and "dom (h_cells q) = set as"
  shows "h_fini_loop (m, q) =
    Some (ezos_frees (2 * length as) m, q\<lparr>h_head := None, h_cells := Map.empty\<rparr>)"
  using assms
proof (induction as arbitrary: m q)
  case Nil
  then have "q\<lparr>h_head := None, h_cells := Map.empty\<rparr> = q" by simp
  with Nil show ?case by (subst h_fini_loop.simps) (simp add: ezos_frees_def)
next
  case (Cons a as)
  from Cons.prems obtain f where f: "h_cells q a = Some f" and hd: "h_head q = Some a"
    and ch: "chain (h_cells q) (el_next f) as"
    by (auto split: option.splits)
  let ?q = "q\<lparr>h_head := el_next f, h_cells := (h_cells q)(a := None)\<rparr>"
  have "h_fini_loop (ezos_free (ezos_free m), ?q) =
      Some (ezos_frees (2 * length as) (ezos_free (ezos_free m)),
        ?q\<lparr>h_head := None, h_cells := Map.empty\<rparr>)"
  proof (rule Cons.IH)
    from Cons.prems have a: "a \<notin> set as" by simp
    from ch a show "chain (h_cells ?q) (h_head ?q) as" by (simp del: fun_upd_apply)
    from Cons.prems(3) a show "dom (h_cells ?q) = set as" by (simp del: fun_upd_apply)
    from Cons.prems show "distinct as" by simp
  qed
  with hd f show ?case
    by (subst h_fini_loop.simps) (simp add: ezos_frees_def ezos_free_def)
qed

lemma h_fini_refines:
  assumes "h_wf s"
  shows "\<exists>s'. h_fini s = Some s' \<and> h_abs s' = fini_queue_of (h_abs s) \<and>
    dom (h_cells (snd s')) = {} \<and> \<not> h_fault (snd s')"
proof -
  from assms obtain m q as where s: "s = (m, q)" and r: "h_rep q as" by (rule h_wfE)
  from r have "h_fini_loop (m, q) =
      Some (ezos_frees (2 * length as) m, q\<lparr>h_head := None, h_cells := Map.empty\<rparr>)"
    by (intro h_fini_loop_returns) (auto simp: h_rep_def)
  with r h_rep_items [OF r] show ?thesis
    by (simp add: s h_fini_def h_abs_def fini_queue_of_def h_items_def h_rep_def)
qed

lemma h_wf_init: "h_wf (m, snd (h_init ok n))"
  by (auto simp: h_wf_def h_init_def Let_def h_rep_def intro!: exI [of _ "[]"])

lemma h_init_refines: "h_abs (m, snd (h_init ok n)) = (m, snd (init_queue_of ok n))"
  by (simp add: h_abs_def h_init_def init_queue_of_def Let_def h_items_def)

end
