(* ===== verification/Net_Module.thy ===== *)
theory Net_Module
  imports Kernel_State
begin

text \<open>
  The socket layer, \<^verbatim>\<open>support/net_module.c\<close>, as the load balancer protocol uses it. The
  platform's socket calls (\<^verbatim>\<open>ezos_socket\<close>, \<^verbatim>\<open>ezos_poll\<close>, \<^verbatim>\<open>ezos_recv\<close>, ...) take their results
  from the answers held in the world, one per call, in order; once these are used up a
  call answers 0, which ends a transfer as a timeout. Lemmas: a read that succeeds
  delivers exactly the bytes asked for, however the network splits them, and a write
  that succeeds may have sent only a part.
\<close>

section \<open>Platform calls\<close>

definition plat_call :: "world \<Rightarrow> plat_answer \<times> world" where
  "plat_call w = (case plat w of [] \<Rightarrow> ((0, []), w) | a # rest \<Rightarrow> (a, w\<lparr>plat := rest\<rparr>))"

definition net_log :: "net_op \<Rightarrow> world \<Rightarrow> world" where
  "net_log p w = w\<lparr>net_ops := net_ops w @ [p]\<rparr>"

abbreviation (input) EZ_EINPROGRESS :: int where "EZ_EINPROGRESS \<equiv> 115"

text \<open>The dotted text of an IPv4 address.\<close>

definition inet_ntop :: "byte list \<Rightarrow> string" where
  "inet_ntop a = (let d = (\<lambda>i. dec_nat (if i < length a then unat (a ! i) else 0))
     in d 0 @ ''.'' @ d 1 @ ''.'' @ d 2 @ ''.'' @ d 3)"

section \<open>Operations\<close>

definition net_create :: "world \<Rightarrow> int \<times> world" where
  "net_create w =
     (case plat_call w of ((fd, _), w1) \<Rightarrow>
       if fd = - 1 then (- 1, w1)
       else (fd, net_log (Sock_open fd) (snd (plat_call w1))))"

text \<open>The result is the error and \<^verbatim>\<open>szRealIp\<close>, the numeric address.\<close>

definition net_connect :: "int \<Rightarrow> string \<Rightarrow> uint16 \<Rightarrow> world \<Rightarrow> (mkernel_internal_error \<times> string) \<times> world" where
  "net_connect fd host_name port w =
     (case plat_call w of ((host, h_addr), w1) \<Rightarrow>
       if host < 0 then ((mkernel_internal_net_gethostbyname_error, []), w1)
       else
         let szRealIp = inet_ntop h_addr in
         case plat_call (net_log (Sock_connect fd host_name port) w1) of ((r, _), w2) \<Rightarrow>
         case (if r = - 1 then plat_call w2 else ((0, []), w2)) of ((lasterror, _), w3) \<Rightarrow>
           if lasterror \<noteq> EZ_EINPROGRESS \<and> lasterror \<noteq> 0 then ((mkernel_internal_net_connect_error, szRealIp), w3)
           else (case plat_call w3 of ((return_value, _), w4) \<Rightarrow>
             if return_value < 0 then ((mkernel_internal_net_connect_error, szRealIp), w4)
             else if return_value = 0 then ((mkernel_internal_net_socket_timeout, szRealIp), w4)
             else (case plat_call w4 of ((ret, _), w5) \<Rightarrow>
               if ret = - 1 then ((mkernel_internal_net_connect_error, szRealIp), w5)
               else (case plat_call w5 of ((socket_err, _), w6) \<Rightarrow>
                 if socket_err \<noteq> 0 then ((mkernel_internal_net_connect_error, szRealIp), w6)
                 else ((mkernel_internal_succ, szRealIp), w6)))))"

text \<open>The loop of \<^verbatim>\<open>net_read\<close>, with the bytes received so far.\<close>

function net_read_loop :: "nat \<Rightarrow> byte list \<Rightarrow> world \<Rightarrow> (mkernel_internal_error \<times> byte list) \<times> world" where
  "net_read_loop maxsize received w =
     (case plat_call w of ((return_value, _), w1) \<Rightarrow>
       if return_value < 0 then ((mkernel_internal_net_socket_error, received), w1)
       else if return_value = 0 then ((mkernel_internal_net_socket_timeout, received), w1)
       else (case plat_call w1 of ((rev_size, bytes), w2) \<Rightarrow>
         if rev_size < 0 then ((mkernel_internal_net_socket_error, received), w2)
         else
           let data = take (maxsize - length received) bytes in
           if data = [] then ((mkernel_internal_net_socket_closed, received), w2)
           else if length (received @ data) < maxsize then net_read_loop maxsize (received @ data) w2
           else ((mkernel_internal_succ, received @ data), w2)))"
  by pat_completeness auto
termination
  by (relation "measure (\<lambda>(n, bs, w). n - length bs)") (auto simp: Let_def neq_Nil_conv)

declare net_read_loop.simps [simp del]

definition net_read :: "int \<Rightarrow> nat \<Rightarrow> world \<Rightarrow> (mkernel_internal_error \<times> byte list) \<times> world" where
  "net_read fd read_buf_maxsize w = net_read_loop read_buf_maxsize [] w"

text \<open>One \<^verbatim>\<open>ezos_send\<close>: the result is the error and the number of bytes the platform took.\<close>

definition net_write :: "int \<Rightarrow> byte list \<Rightarrow> world \<Rightarrow> (mkernel_internal_error \<times> int) \<times> world" where
  "net_write fd write_buf w =
     (case plat_call w of ((return_value, _), w1) \<Rightarrow>
       if return_value < 0 then ((mkernel_internal_net_socket_error, 0), w1)
       else if return_value = 0 then ((mkernel_internal_net_socket_timeout, 0), w1)
       else (case plat_call w1 of ((send_size, _), w2) \<Rightarrow>
         if send_size = - 1 then ((mkernel_internal_net_socket_error, 0), w2)
         else ((mkernel_internal_succ, send_size),
               net_log (Sock_send fd (take (nat send_size) write_buf)) w2)))"

definition net_disconnect :: "int \<Rightarrow> world \<Rightarrow> world" where
  "net_disconnect fd w = net_log (Sock_close fd) w"

section \<open>What the calls leave alone\<close>

text \<open>Only the trace grows and only answers are consumed; the trace entries are given.\<close>

definition net_step :: "net_op list \<Rightarrow> world \<Rightarrow> world \<Rightarrow> bool" where
  "net_step ps w w' \<longleftrightarrow> (\<exists>n. w' = w\<lparr>plat := drop n (plat w), net_ops := net_ops w @ ps\<rparr>)"

named_theorems net_intros \<open>network effects of the socket operations\<close>

lemma net_step_refl: "net_step [] w w"
  unfolding net_step_def by (rule exI [of _ 0]) simp

lemma net_step_trans:
  assumes "net_step ps w w1" and "net_step qs w1 w2"
  shows "net_step (ps @ qs) w w2"
proof -
  from assms obtain n m where "w1 = w\<lparr>plat := drop n (plat w), net_ops := net_ops w @ ps\<rparr>"
    "w2 = w1\<lparr>plat := drop m (plat w1), net_ops := net_ops w1 @ qs\<rparr>" unfolding net_step_def by blast
  then show ?thesis unfolding net_step_def by (intro exI [of _ "m + n"]) simp
qed

lemma plat_call_step: "plat_call w = (a, w') \<Longrightarrow> net_step [] w w'"
  unfolding net_step_def
  by (intro exI [of _ 1]) (auto simp: plat_call_def split: list.splits)

lemma net_log_step: "net_step [p] w (net_log p w)"
  unfolding net_step_def net_log_def by (intro exI [of _ 0]) simp

lemma plat_call_trans: "net_step ps w w1 \<Longrightarrow> plat_call w1 = (a, w2) \<Longrightarrow> net_step ps w w2"
  using net_step_trans plat_call_step by fastforce

lemma plat_call_snd_trans: "net_step ps w w1 \<Longrightarrow> net_step ps w (snd (plat_call w1))"
  by (metis plat_call_trans prod.collapse)

lemma net_log_trans: "net_step ps w w1 \<Longrightarrow> net_step (ps @ [p]) w (net_log p w1)"
  using net_step_trans net_log_step by blast

lemma net_create_step [net_intros]:
  assumes "net_create w = (fd, w')"
  shows "net_step (if fd = - 1 then [] else [Sock_open fd]) w w'"
  using assms unfolding net_create_def
  by (auto split: prod.splits if_splits dest: plat_call_step
      intro!: net_log_trans [where ps = "[]", simplified] plat_call_snd_trans)

lemma net_read_loop_step: "net_read_loop n bs w = ((e, out), w') \<Longrightarrow> net_step [] w w'"
proof (induction n bs w rule: net_read_loop.induct)
  case (1 n bs w)
  show ?case
    using "1.prems" "1.IH"
    by (subst (asm) net_read_loop.simps)
      (auto simp: Let_def split: prod.splits if_splits dest!: plat_call_step
        intro: net_step_trans [where ps = "[]" and qs = "[]", simplified])
qed

lemma net_read_step [net_intros]: "net_read fd n w = ((e, out), w') \<Longrightarrow> net_step [] w w'"
  unfolding net_read_def by (rule net_read_loop_step)

lemma net_write_step [net_intros]:
  assumes "net_write fd buf w = ((e, n), w')"
  shows "net_step (if e = mkernel_internal_succ then [Sock_send fd (take (nat n) buf)] else []) w w'"
  using assms unfolding net_write_def
  by (auto split: prod.splits if_splits dest: plat_call_step
      intro: net_log_trans [where ps = "[]", simplified] plat_call_trans)

lemma net_connect_step [net_intros]:
  assumes "net_connect fd host port w = ((e, ip), w')"
  shows "\<exists>ps. set ps \<subseteq> {Sock_connect fd host port} \<and> net_step ps w w'"
proof (cases "plat_call w")
  case (Pair a w1)
  show ?thesis
  proof (cases "fst a < 0")
    case True
    with assms Pair show ?thesis
      by (intro exI [of _ "[]"]) (auto simp: net_connect_def dest: plat_call_step split: prod.splits)
  next
    case False
    let ?w = "net_log (Sock_connect fd host port) w1"
    have s: "net_step [Sock_connect fd host port] w ?w"
      using plat_call_step [OF Pair] net_log_trans by fastforce
    from assms Pair False have "net_step [Sock_connect fd host port] w w'"
      unfolding net_connect_def
      by (auto simp: Let_def split: prod.splits if_splits) (meson s plat_call_trans)+
    then show ?thesis by (intro exI [of _ "[Sock_connect fd host port]"]) simp
  qed
qed

lemma net_disconnect_step [net_intros]: "net_step [Sock_close fd] w (net_disconnect fd w)"
  unfolding net_disconnect_def by (rule net_log_step)

section \<open>Transfers\<close>

lemma plat_call_shrinks: "plat_call w = (a, w') \<Longrightarrow> length (plat w') \<le> length (plat w)"
  by (auto simp: plat_call_def split: list.splits)

text \<open>A successful read has used up answers: the platform never delivers bytes by itself.\<close>

lemma net_read_loop_succ:
  "net_read_loop n bs w = ((mkernel_internal_succ, out), w') \<Longrightarrow>
     length out = n \<and> length (plat w') < length (plat w)"
proof (induction n bs w rule: net_read_loop.induct)
  case (1 n bs w)
  obtain r b w1 where c1: "plat_call w = ((r, b), w1)" by (metis prod.collapse)
  obtain s data w2 where c2: "plat_call w1 = ((s, data), w2)" by (metis prod.collapse)
  have n1: "r > 0 \<Longrightarrow> length (plat w1) < length (plat w)"
    using c1 by (auto simp: plat_call_def split: list.splits)
  show ?case
    using "1.prems" "1.IH" [OF c1 [symmetric] refl _ _ c2 [symmetric] refl] c1 c2 n1 plat_call_shrinks [OF c2]
    by (subst (asm) net_read_loop.simps) (auto simp: Let_def min_def split: if_splits)
qed

lemma net_read_succ:
  assumes "net_read fd n w = ((mkernel_internal_succ, out), w')"
  shows "length out = n" "length (plat w') < length (plat w)"
  using assms net_read_loop_succ unfolding net_read_def by blast+

text \<open>
  The bytes a read delivers do not depend on how the network splits them: any
  sequence of non-empty chunks that make up the requested number of bytes gives
  their concatenation.
\<close>

fun chunks :: "byte list list \<Rightarrow> plat_answer list" where
  "chunks [] = []"
| "chunks (c # cs) = (1, []) # (int (length c), c) # chunks cs"

lemma net_read_loop_chunks:
  assumes "plat w = chunks cs @ rest" and "[] \<notin> set cs" and "cs \<noteq> []" and "length bs + length (concat cs) = n"
  shows "net_read_loop n bs w = ((mkernel_internal_succ, bs @ concat cs), w\<lparr>plat := rest\<rparr>)"
  using assms
proof (induction cs arbitrary: bs w)
  case (Cons c cs)
  have "c \<noteq> []" using Cons.prems by auto
  show ?case
  proof (cases "cs = []")
    case True
    with Cons.prems \<open>c \<noteq> []\<close> show ?thesis
      by (subst net_read_loop.simps) (auto simp: plat_call_def Let_def)
  next
    case False
    then have "concat cs \<noteq> []" using Cons.prems(2) by (cases cs) auto
    then have "length (concat cs) > 0" by (rule length_greater_0_conv [THEN iffD2])
    with Cons.prems(4) have l: "length bs + length c < n" unfolding concat.simps length_append by linarith
    have "net_read_loop n bs w = net_read_loop n (bs @ c) (w\<lparr>plat := chunks cs @ rest\<rparr>)"
      using Cons.prems(1) l \<open>c \<noteq> []\<close> by (subst net_read_loop.simps) (simp add: plat_call_def Let_def)
    also have "\<dots> = ((mkernel_internal_succ, (bs @ c) @ concat cs), w\<lparr>plat := rest\<rparr>)"
      using Cons.IH [of "w\<lparr>plat := chunks cs @ rest\<rparr>" "bs @ c"] Cons.prems False by simp
    finally show ?thesis by simp
  qed
qed simp

lemma net_read_chunks:
  assumes "plat w = chunks cs @ rest" and "[] \<notin> set cs" and "cs \<noteq> []" and "n = length (concat cs)"
  shows "net_read fd n w = ((mkernel_internal_succ, concat cs), w\<lparr>plat := rest\<rparr>)"
  using net_read_loop_chunks [of w cs rest "[]" n] assms unfolding net_read_def by simp

end
