(* ===== verification/Ecdh_Support.thy ===== *)
theory Ecdh_Support
  imports Kernel_Errors
begin

text \<open>
  The key exchange of \<^verbatim>\<open>support/ezdev_ecdh_support.c\<close>: the pseudo-random generator handed to
  mbedtls and the two wrappers around its Diffie-Hellman functions. The functions of
  mbedtls and the hash functions the load balancer protocol uses are the parameter
  record \<^verbatim>\<open>lbs_crypto\<close>. The generator's state is a local variable the sources never
  initialise; its value is the field \<^verbatim>\<open>stack_rnd\<close>. Lemmas: the generator delivers the
  requested number of bytes and nothing but its state determines them.
\<close>

unbundle bit_operations_syntax

section \<open>The generator\<close>

record rnd_pseudo_info =
  rnd_key :: "uint32 list"
  rnd_v0 :: uint32
  rnd_v1 :: uint32

definition g_delta :: uint32 where
  "g_delta = 0x9E3779B9"

text \<open>One round on the running sum and the two halves; \<^verbatim>\<open>k\<close> is the key array.\<close>

definition rnd_round :: "uint32 list \<Rightarrow> uint32 \<times> uint32 \<times> uint32 \<Rightarrow> uint32 \<times> uint32 \<times> uint32" where
  "rnd_round k s =
     (case s of (acc, v0, v1) \<Rightarrow>
       let v0' = v0 + (((push_bit 4 v1 XOR drop_bit 5 v1) + v1) XOR (acc + k ! unat (acc AND 3)));
           acc' = acc + g_delta;
           v1' = v1 + (((push_bit 4 v0' XOR drop_bit 5 v0') + v0') XOR (acc' + k ! unat (drop_bit 11 acc' AND 3)))
       in (acc', v0', v1'))"

definition put_uint32_be :: "uint32 \<Rightarrow> byte list" where
  "put_uint32_be n = [ucast (drop_bit 24 n), ucast (drop_bit 16 n), ucast (drop_bit 8 n), ucast n]"

definition rnd_block :: "rnd_pseudo_info \<Rightarrow> rnd_pseudo_info" where
  "rnd_block info =
     (case (rnd_round (rnd_key info) ^^ 32) (0, rnd_v0 info, rnd_v1 info) of (acc, v0, v1) \<Rightarrow>
       info\<lparr>rnd_v0 := v0, rnd_v1 := v1\<rparr>)"

fun rnd_pseudo_loop :: "rnd_pseudo_info \<Rightarrow> nat \<Rightarrow> byte list \<times> rnd_pseudo_info" where
  "rnd_pseudo_loop info len =
     (if len = 0 then ([], info)
      else
        let use_len = (if len > 4 then 4 else len);
            info1 = rnd_block info
        in case rnd_pseudo_loop info1 (len - use_len) of (out, info2) \<Rightarrow>
          (take use_len (put_uint32_be (rnd_v0 info1)) @ out, info2))"

declare rnd_pseudo_loop.simps [simp del]

text \<open>\<^verbatim>\<open>rand()\<close> is the parameter \<^verbatim>\<open>rand_byte\<close>, the low byte of its successive values.\<close>

definition rnd_std_rand :: "(nat \<Rightarrow> byte) \<Rightarrow> nat \<Rightarrow> byte list" where
  "rnd_std_rand rand_byte len = map rand_byte [0..<len]"

definition rnd_pseudo_rand :: "(nat \<Rightarrow> byte) \<Rightarrow> rnd_pseudo_info option \<Rightarrow> nat
    \<Rightarrow> byte list \<times> rnd_pseudo_info option" where
  "rnd_pseudo_rand rand_byte rng_state len =
     (case rng_state of
        None \<Rightarrow> (rnd_std_rand rand_byte len, None)
      | Some info \<Rightarrow> (case rnd_pseudo_loop info len of (out, info') \<Rightarrow> (out, Some info')))"

section \<open>The key exchange\<close>

type_synonym rng = "rnd_pseudo_info option \<Rightarrow> nat \<Rightarrow> byte list \<times> rnd_pseudo_info option"

text \<open>
  \<^verbatim>\<open>ecdh_make_public\<close> draws from the generator and yields a result code, the length-prefixed
  public point and the private key kept in the context; \<^verbatim>\<open>ecdh_calc_secret\<close> computes the shared
  secret from the private key and the peer's point.
\<close>

record lbs_crypto =
  md5 :: "byte list \<Rightarrow> byte list"
  md_setup_sha256 :: int
  pbkdf2_hmac_sha256 :: "byte list \<Rightarrow> byte list \<Rightarrow> nat \<Rightarrow> nat \<Rightarrow> byte list"
  sha384 :: "byte list \<Rightarrow> byte list"
  hmac_sha384 :: "byte list \<Rightarrow> byte list \<Rightarrow> int \<times> byte list"
  ecp_group_load :: int
  ecdh_make_public :: "rng \<Rightarrow> rnd_pseudo_info \<Rightarrow> int \<times> byte list \<times> byte list"
  ecdh_read_public :: "byte list \<Rightarrow> int"
  ecdh_calc_secret :: "byte list \<Rightarrow> byte list \<Rightarrow> int \<times> byte list"
  stack_rnd :: rnd_pseudo_info
  rand_byte :: "nat \<Rightarrow> byte"

abbreviation (input) ezdev_sdk_ecdh_key_len :: nat where "ezdev_sdk_ecdh_key_len \<equiv> 97"

text \<open>The error, the public key and the private key.\<close>

definition ezdev_generate_publickey :: "lbs_crypto \<Rightarrow> mkernel_internal_error \<times> byte list \<times> byte list" where
  "ezdev_generate_publickey T =
     (if ecp_group_load T \<noteq> 0 then (mkernel_internal_mbedtls_ecp_group_load_err, [], [])
      else (case ecdh_make_public T (rnd_pseudo_rand (rand_byte T)) (stack_rnd T) of (ret, buf, priv) \<Rightarrow>
        if ret \<noteq> 0 then (mkernel_internal_mbedtls_ecdh_read_public_err, [], priv)
        else (mkernel_internal_succ, drop 1 buf, priv)))"

definition ezdev_generate_masterkey :: "lbs_crypto \<Rightarrow> byte list \<Rightarrow> byte list
    \<Rightarrow> mkernel_internal_error \<times> byte list" where
  "ezdev_generate_masterkey T priv peer_pubkey =
     (if length peer_pubkey \<noteq> ezdev_sdk_ecdh_key_len then (mkernel_internal_input_param_invalid, [])
      else
        let input_key = 0x61 # peer_pubkey in
        if ecdh_read_public T input_key \<noteq> 0 then (mkernel_internal_mbedtls_ecdh_read_public_err, [])
        else (case ecdh_calc_secret T priv input_key of (ret, secret) \<Rightarrow>
          if ret \<noteq> 0 then (mkernel_internal_mbedtls_ecdh_calc_secret_err, [])
          else (mkernel_internal_succ, secret)))"

section \<open>Lemmas\<close>

lemma length_put_uint32_be [simp]: "length (put_uint32_be n) = 4"
  by (simp add: put_uint32_be_def)

lemma rnd_pseudo_loop_length: "length (fst (rnd_pseudo_loop info len)) = len"
proof (induction len arbitrary: info rule: less_induct)
  case (less len)
  show ?case
    using less.IH [of "len - (if len > 4 then 4 else len)" "rnd_block info"]
    by (subst rnd_pseudo_loop.simps) (auto simp: Let_def split: prod.splits)
qed

lemma rnd_pseudo_rand_length: "length (fst (rnd_pseudo_rand rb s len)) = len"
  using rnd_pseudo_loop_length
  by (auto simp: rnd_pseudo_rand_def rnd_std_rand_def split: option.splits prod.splits) (metis fst_conv)

lemma rnd_block_key [simp]: "rnd_key (rnd_block info) = rnd_key info"
  by (simp add: rnd_block_def split: prod.splits)

text \<open>Drawing a whole number of blocks and then more is drawing all at once.\<close>

lemma rnd_pseudo_loop_append:
  assumes "rnd_pseudo_loop info (4 * n) = (a, info1)" and "rnd_pseudo_loop info1 m = (b, info2)"
  shows "rnd_pseudo_loop info (4 * n + m) = (a @ b, info2)"
  using assms
proof (induction n arbitrary: info a)
  case 0
  then show ?case by (auto simp: rnd_pseudo_loop.simps [of info 0])
next
  case (Suc n)
  let ?i = "rnd_block info"
  obtain a' where r: "rnd_pseudo_loop ?i (4 * n) = (a', info1)"
    and a: "a = put_uint32_be (rnd_v0 ?i) @ a'"
    using Suc.prems(1) by (subst (asm) rnd_pseudo_loop.simps)
      (auto simp: Let_def rnd_pseudo_loop.simps [of ?i 0] split: prod.splits if_splits)
  have "rnd_pseudo_loop ?i (4 * n + m) = (a' @ b, info2)" using Suc.IH [OF r Suc.prems(2)] .
  then show ?case
    using a by (subst rnd_pseudo_loop.simps) (auto simp: Let_def rnd_pseudo_loop.simps [of ?i 0] split: prod.splits)
qed

end
