(* ===== verification/Lbs_Packet.thy ===== *)
theory Lbs_Packet
  imports Net_Module Ecdh_Support Kernel_Access
begin

text \<open>
  Packets of the load balancer protocol, the first part of \<^verbatim>\<open>access/lbs_transport.c\<close>: the
  transaction record, header and length encoding, the version bytes, the signature, and
  sending and receiving a packet over the socket. A C buffer is given by its bytes up to
  the last one written; the buffers are zeroed before use, so a position behind reads as 0.
  Lemmas: the length encoding round trips, what a packet looks like on the wire, how
  much is read of a reply, and that none of these steps touches the rest of the kernel.
\<close>

section \<open>Buffers\<close>

definition buf_write :: "byte list \<Rightarrow> nat \<Rightarrow> byte list \<Rightarrow> byte list" where
  "buf_write buf off bs = take off (buf @ zeros (off - length buf)) @ bs @ drop (off + length bs) buf"

definition buf_read :: "byte list \<Rightarrow> nat \<Rightarrow> nat \<Rightarrow> byte list" where
  "buf_read buf off n = take n (drop off buf @ zeros n)"

definition buf_get :: "byte list \<Rightarrow> nat \<Rightarrow> byte" where
  "buf_get buf i = (if i < length buf then buf ! i else 0)"

lemma length_buf_read [simp]: "length (buf_read buf off n) = n"
  by (simp add: buf_read_def)

lemma buf_write_end [simp]: "buf_write buf (length buf) bs = buf @ bs"
  by (simp add: buf_write_def)

lemma buf_write_start [simp]: "buf_write [] 0 bs = bs"
  by (simp add: buf_write_def)

lemma buf_read_all: "n \<le> length buf \<Longrightarrow> buf_read buf 0 n = take n buf"
  by (simp add: buf_read_def)

lemma buf_read_inside: "off + n \<le> length buf \<Longrightarrow> buf_read buf off n = take n (drop off buf)"
  by (simp add: buf_read_def)

section \<open>Data\<close>

record lbs_packet =
  head_buf :: "byte list option"
  head_buf_Len :: uint8
  head_buf_off :: uint8
  var_head_buf :: "byte list option"
  var_head_buf_Len :: uint8
  var_head_buf_off :: uint8
  payload_buf :: "byte list"
  payload_buf_Len :: uint32
  payload_buf_off :: uint32

record lbs_affair =
  random_1 :: uint8
  random_2 :: uint8
  random_3 :: uint8
  random_4 :: uint8
  a_access_mode :: uint16
  a_auth_mode :: sdk_dev_auth_mode
  a_subserial :: string
  a_master_key :: "byte list"
  a_dev_id :: "byte list"
  a_session_key :: "byte list"
  share_key :: "byte list"
  share_key_len :: uint16
  global_out_packet :: lbs_packet
  global_in_packet :: lbs_packet
  a_socket_fd :: int

type_synonym lbs_state = "lbs_affair \<times> world"

definition zero_packet :: lbs_packet where
  "zero_packet = \<lparr>head_buf = None, head_buf_Len = 0, head_buf_off = 0, var_head_buf = None, var_head_buf_Len = 0,
     var_head_buf_off = 0, payload_buf = [], payload_buf_Len = 0, payload_buf_off = 0\<rparr>"

definition zero_affair :: lbs_affair where
  "zero_affair = \<lparr>random_1 = 0, random_2 = 0, random_3 = 0, random_4 = 0, a_access_mode = 0,
     a_auth_mode = Sdk_dev_auth_sap, a_subserial = '''', a_master_key = zeros ezdev_sdk_masterkey_len,
     a_dev_id = zeros ezdev_sdk_devid_len, a_session_key = zeros ezdev_sdk_sessionkey_len, share_key = zeros 32,
     share_key_len = 0, global_out_packet = zero_packet, global_in_packet = zero_packet, a_socket_fd = 0\<rparr>"

text \<open>The commands and versions of \<^verbatim>\<open>inc_private/dev_protocol_def.h\<close>.\<close>

abbreviation (input) DEV_PROTOCOL_AUTHENTICATION_I :: uint32 where "DEV_PROTOCOL_AUTHENTICATION_I \<equiv> 1"
abbreviation (input) DEV_PROTOCOL_AUTHENTICATION_II :: uint32 where "DEV_PROTOCOL_AUTHENTICATION_II \<equiv> 2"
abbreviation (input) DEV_PROTOCOL_REFRESHSESSIONKEY_REQ :: uint32 where "DEV_PROTOCOL_REFRESHSESSIONKEY_REQ \<equiv> 4"
abbreviation (input) DEV_PROTOCOL_REFRESHSESSIONKEY_RSP :: uint32 where "DEV_PROTOCOL_REFRESHSESSIONKEY_RSP \<equiv> 6"
abbreviation (input) DEV_PROTOCOL_REQUEST_DEVID :: uint32 where "DEV_PROTOCOL_REQUEST_DEVID \<equiv> 7"
abbreviation (input) DEV_PROTOCOL_RESPONSE_DEVID :: uint32 where "DEV_PROTOCOL_RESPONSE_DEVID \<equiv> 8"
abbreviation (input) DEV_PROTOCOL_APPLY_DEVID_CFM :: uint32 where "DEV_PROTOCOL_APPLY_DEVID_CFM \<equiv> 9"
abbreviation (input) DEV_PROTOCOL_CRYPTO_DATA_REQ :: uint32 where "DEV_PROTOCOL_CRYPTO_DATA_REQ \<equiv> 10"
abbreviation (input) DEV_PROTOCOL_CRYPTO_DATA_RSP :: uint32 where "DEV_PROTOCOL_CRYPTO_DATA_RSP \<equiv> 11"
abbreviation (input) DEV_PROTOCOL_STUN_REFRESHSESSIONKEY_III :: uint32 where
  "DEV_PROTOCOL_STUN_REFRESHSESSIONKEY_III \<equiv> 14"
abbreviation (input) LBS_AUTH_TAG_LEN :: nat where "LBS_AUTH_TAG_LEN \<equiv> 16"
abbreviation (input) LBS_AUTH_INFO_LEN :: nat where "LBS_AUTH_INFO_LEN \<equiv> 128"
abbreviation (input) LBS_AUTH_JSON_DEFAULT_LEN :: nat where "LBS_AUTH_JSON_DEFAULT_LEN \<equiv> 1024"

section \<open>Sequences with early return\<close>

text \<open>\<^verbatim>\<open>sdk_error = f(...); if (sdk_error != mkernel_internal_succ) break;\<close> and what follows.\<close>

definition then_ok :: "mkernel_internal_error \<times> 's \<Rightarrow> ('s \<Rightarrow> mkernel_internal_error \<times> 's)
    \<Rightarrow> mkernel_internal_error \<times> 's" where
  "then_ok r f = (case r of (e, s) \<Rightarrow> if e \<noteq> mkernel_internal_succ then (e, s) else f s)"

lemma then_ok_simps [simp]:
  "then_ok (mkernel_internal_succ, s) f = f s"
  "e \<noteq> mkernel_internal_succ \<Longrightarrow> then_ok (e, s) f = (e, s)"
  by (simp_all add: then_ok_def)

text \<open>An update of the outgoing packet.\<close>

definition upd_out :: "(lbs_packet \<Rightarrow> lbs_packet) \<Rightarrow> lbs_affair \<Rightarrow> lbs_affair" where
  "upd_out f a = a\<lparr>global_out_packet := f (global_out_packet a)\<rparr>"

definition upd_in :: "(lbs_packet \<Rightarrow> lbs_packet) \<Rightarrow> lbs_affair \<Rightarrow> lbs_affair" where
  "upd_in f a = a\<lparr>global_in_packet := f (global_in_packet a)\<rparr>"

text \<open>
  \<^verbatim>\<open>memcpy(payload_buf + payload_buf_off, bs, n); payload_buf_off += n\<close> on the outgoing
  packet: a write past the end of the buffer is a fault.
\<close>

definition put_payload :: "byte list \<Rightarrow> lbs_state \<Rightarrow> lbs_state" where
  "put_payload bs s = (case s of (a, w) \<Rightarrow>
     let p = global_out_packet a; off = unat (payload_buf_off p) in
     (upd_out (\<lambda>p. p\<lparr>payload_buf := buf_write (payload_buf p) off bs,
                     payload_buf_off := payload_buf_off p + of_nat (length bs)\<rparr>) a,
      faulty (off + length bs > CONFIG_EZIOT_CORE_MESSAGE_SIZE_MAX) w))"

section \<open>Headers\<close>

definition head_put :: "byte \<Rightarrow> lbs_packet \<Rightarrow> lbs_packet" where
  "head_put b p = p\<lparr>head_buf := map_option (\<lambda>h. buf_write h (unat (head_buf_off p)) [b]) (head_buf p),
                    head_buf_off := head_buf_off p + 1\<rparr>"

definition var_head_put :: "byte \<Rightarrow> lbs_packet \<Rightarrow> lbs_packet" where
  "var_head_put b p = p\<lparr>var_head_buf := map_option (\<lambda>h. buf_write h (unat (var_head_buf_off p)) [b]) (var_head_buf p),
                        var_head_buf_off := var_head_buf_off p + 1\<rparr>"

text \<open>The \<^verbatim>\<open>do ... while\<close> loop that writes the remaining length, with the passes left.\<close>

fun remain_bytes :: "nat \<Rightarrow> uint32 \<Rightarrow> byte list" where
  "remain_bytes 0 n = []"
| "remain_bytes (Suc k) n =
     (let byte_2 = ucast (n mod 128);
          n' = n div 128
      in (if n' > 0 then byte_2 OR 0x80 else byte_2) # (if n' > 0 \<and> k > 0 then remain_bytes k n' else []))"

text \<open>
  The type list of the first packet has one entry, set by \<^verbatim>\<open>ez_kernel_init\<close>; the 16 bytes of the
  variable header would take up to 14.
\<close>

definition header_serialize :: "ezdev_sdk_kernel \<Rightarrow> uint32 \<Rightarrow> uint32 \<Rightarrow> lbs_packet
    \<Rightarrow> mkernel_internal_error \<times> lbs_packet" where
  "header_serialize k cmd remain_len p =
     (let p1 = (if cmd = DEV_PROTOCOL_AUTHENTICATION_I
                then fold var_head_put (take (unat (dev_auth_type_count k)) (dev_auth_type_group k))
                       (var_head_put (dev_auth_type_count k) (var_head_put (dev_cur_auth_type k) p))
                else p)
      in if head_buf_Len p1 < 5 then (mkernel_internal_mem_lack, p1)
         else
           let byte_1 = (push_bit 4 (ucast (cmd AND 0x0F)) OR 0x2) OR (if cmd = DEV_PROTOCOL_AUTHENTICATION_I then 0x8 else 0);
               total_remain_len = (if cmd = DEV_PROTOCOL_AUTHENTICATION_I then remain_len + ucast (var_head_buf_off p1)
                                   else remain_len)
           in (mkernel_internal_succ, fold head_put (byte_1 # remain_bytes 4 total_remain_len) p1))"

definition header_serialize_old :: "uint32 \<Rightarrow> uint32 \<Rightarrow> lbs_packet \<Rightarrow> mkernel_internal_error \<times> lbs_packet" where
  "header_serialize_old cmd remain_len p =
     (if head_buf_Len p < 5 then (mkernel_internal_mem_lack, p)
      else (mkernel_internal_succ, fold head_put (push_bit 4 (ucast (cmd AND 0x0F)) # remain_bytes 4 remain_len) p))"

definition common_serialize :: "byte \<Rightarrow> byte \<Rightarrow> byte \<Rightarrow> lbs_state \<Rightarrow> mkernel_internal_error \<times> lbs_state" where
  "common_serialize pro_form_version pro_type_low_version pro_type_high_version s =
     (let p = global_out_packet (fst s) in
      if payload_buf_off p + 3 > payload_buf_Len p then (mkernel_internal_mem_lack, s)
      else (mkernel_internal_succ, put_payload [pro_form_version, pro_type_low_version, pro_type_high_version] s))"

section \<open>Signatures\<close>

text \<open>Hash, then key the hash with the master key; both functions of the source do this.\<close>

definition digital_sign :: "lbs_crypto \<Rightarrow> byte list \<Rightarrow> byte list \<Rightarrow> int \<times> byte list" where
  "digital_sign T sign_src master =
     (case hmac_sha384 T master (take 48 (sha384 T sign_src)) of (rc, sign) \<Rightarrow> (rc, take 48 sign))"

definition digital_sign_serialize_sha384 :: "lbs_crypto \<Rightarrow> byte list \<Rightarrow> byte list \<Rightarrow> lbs_state
    \<Rightarrow> mkernel_internal_error \<times> lbs_state" where
  "digital_sign_serialize_sha384 T sign_src master s =
     (let p = global_out_packet (fst s) in
      if payload_buf_off p + 64 > payload_buf_Len p then (mkernel_internal_mem_lack, s)
      else if length sign_src > LBS_AUTH_INFO_LEN then (mkernel_internal_input_param_invalid, s)
      else (case digital_sign T sign_src master of (rc, sign) \<Rightarrow>
        if rc \<noteq> 0 then (mkernel_internal_hmac_error, s)
        else (mkernel_internal_succ, put_payload sign s)))"

definition digital_sign_serialize_and_check_sha384 :: "lbs_crypto \<Rightarrow> byte list \<Rightarrow> uint16 \<Rightarrow> byte list \<Rightarrow> byte list
    \<Rightarrow> mkernel_internal_error" where
  "digital_sign_serialize_and_check_sha384 T target_sign target_sign_len sign_src master =
     (if length sign_src > 128 then mkernel_internal_input_param_invalid
      else if target_sign_len \<noteq> 48 then mkernel_internal_sign_check_error
      else (case digital_sign T sign_src master of (rc, sign) \<Rightarrow>
        if rc \<noteq> 0 then mkernel_internal_hmac_error
        else if take 48 target_sign \<noteq> sign then mkernel_internal_hmac_compare_error
        else mkernel_internal_succ))"

section \<open>Sending and receiving\<close>

definition written :: "byte list option \<Rightarrow> uint8 \<Rightarrow> byte list" where
  "written buf off = buf_read (case buf of None \<Rightarrow> [] | Some b \<Rightarrow> b) 0 (unat off)"

definition send_lbs_msg :: "lbs_state \<Rightarrow> mkernel_internal_error \<times> lbs_state" where
  "send_lbs_msg s =
     (case s of (a, w) \<Rightarrow>
       let p = global_out_packet a;
           byte_1 = buf_get (written (head_buf p) 1) 0;
           cmd = drop_bit 4 byte_1;
           flag = drop_bit 3 (byte_1 AND 0x08)
       in case net_write (a_socket_fd a) (written (head_buf p) (head_buf_off p)) w of ((e1, _), w1) \<Rightarrow>
         if e1 \<noteq> mkernel_internal_succ then (e1, (a, w1))
         else (case (if cmd = 1 \<and> flag = 1
                     then net_write (a_socket_fd a) (written (var_head_buf p) (var_head_buf_off p)) w1
                     else ((mkernel_internal_succ, 0), w1)) of ((e2, _), w2) \<Rightarrow>
           if e2 \<noteq> mkernel_internal_succ then (e2, (a, w2))
           else (case net_write (a_socket_fd a) (buf_read (payload_buf p) 0 (unat (payload_buf_off p))) w2 of
             ((e3, _), w3) \<Rightarrow> (e3, (a, w3)))))"

text \<open>
  The loop that reads the remaining length. It ends at a byte without the top bit or when
  a read fails; \<^verbatim>\<open>remain_count\<close> is counted in the source but bounds nothing.
\<close>

function remain_loop :: "int \<Rightarrow> uint32 \<Rightarrow> uint32 \<Rightarrow> world
    \<Rightarrow> (mkernel_internal_error \<times> uint32 \<times> byte) \<times> world" where
  "remain_loop fd remain_mult remain_len w =
     (case net_read fd 1 w of ((e, bs), w1) \<Rightarrow>
       if e \<noteq> mkernel_internal_succ then ((e, remain_len, 0), w1)
       else
         let byte_2 = hd bs;
             remain_len' = remain_len + ucast (byte_2 AND 0x7F) * remain_mult
         in if byte_2 AND 0x80 \<noteq> 0 then remain_loop fd (remain_mult * 128) remain_len' w1
            else ((mkernel_internal_succ, remain_len', byte_2), w1))"
  by pat_completeness auto
termination
proof (relation "measure (\<lambda>(fd, m, n, w). length (plat w))", goal_cases)
  case (2 fd remain_mult remain_len w x w1 e bs b2 l2)
  then show ?case using net_read_succ(2) [of fd 1 w bs w1] by auto
qed simp

declare remain_loop.simps [simp del]

text \<open>
  The part between the length and the payload: the variable header of an authentication
  reply, and the check that the payload fits. The result is the number of payload bytes.
\<close>

definition take_var_head :: "uint32 \<Rightarrow> byte \<Rightarrow> uint32 \<Rightarrow> lbs_state \<Rightarrow> (mkernel_internal_error \<times> uint32) \<times> lbs_state" where
  "take_var_head rev_cmd byte_1 remain_len s =
     (case s of (a, w) \<Rightarrow>
       let q = global_in_packet a in
       if drop_bit 3 (byte_1 AND 0x08) = 1 \<and> rev_cmd = DEV_PROTOCOL_AUTHENTICATION_II
       then (if remain_len > payload_buf_Len q + ucast (var_head_buf_Len q)
             then ((mkernel_internal_mem_lack, remain_len), s)
             else (case net_read (a_socket_fd a) 1 w of ((e, bs), w1) \<Rightarrow>
               let a1 = upd_in (\<lambda>p. p\<lparr>var_head_buf := map_option (\<lambda>h. buf_write h 0 bs) (var_head_buf p)\<rparr>) a in
               if e \<noteq> 0 then ((e, remain_len), (a1, w1))
               else
                 let a2 = upd_in (\<lambda>p. p\<lparr>var_head_buf_off := var_head_buf_off p + 1\<rparr>) a1;
                     left = remain_len - ucast (var_head_buf_off (global_in_packet a2))
                 in (if left > payload_buf_Len q then (mkernel_internal_mem_lack, left)
                     else (mkernel_internal_succ, left), (a2, w1))))
       else (if remain_len > payload_buf_Len q then (mkernel_internal_mem_lack, remain_len)
             else (mkernel_internal_succ, remain_len), s))"

definition wait_assign_response :: "lbs_state \<Rightarrow> (mkernel_internal_error \<times> uint32 \<times> uint32) \<times> lbs_state" where
  "wait_assign_response s =
     (case s of (a, w) \<Rightarrow>
       case net_read (a_socket_fd a) 1 w of ((e1, b1), w1) \<Rightarrow>
       if e1 \<noteq> mkernel_internal_succ then ((e1, 0, 0), (a, w1))
       else
         let byte_1 = hd b1; rev_cmd = ucast (drop_bit 4 byte_1) in
         case remain_loop (a_socket_fd a) 1 0 w1 of ((e2, remain_len, byte_2), w2) \<Rightarrow>
         if e2 \<noteq> mkernel_internal_succ then ((e2, rev_cmd, remain_len), (a, w2))
         else
           let a1 = upd_in (\<lambda>p. p\<lparr>head_buf := map_option (\<lambda>h. buf_write h 0 [byte_1, byte_2]) (head_buf p)\<rparr>) a in
           case take_var_head rev_cmd byte_1 remain_len (a1, w2) of ((e4, left), (a4, w4)) \<Rightarrow>
             if e4 \<noteq> mkernel_internal_succ then ((e4, rev_cmd, left), (a4, w4))
             else (case net_read (a_socket_fd a4) (unat left) w4 of ((e5, bs), w5) \<Rightarrow>
               ((e5, rev_cmd, left), (upd_in (\<lambda>p. p\<lparr>payload_buf := buf_write (payload_buf p) 0 bs\<rparr>) a4, w5))))"

section \<open>The remaining length\<close>

text \<open>What the reading loop makes of a sequence of length bytes.\<close>

fun decode_remain :: "uint32 \<Rightarrow> byte list \<Rightarrow> uint32" where
  "decode_remain m [] = 0"
| "decode_remain m (b # bs) = ucast (b AND 0x7F) * m + decode_remain (m * 128) bs"

text \<open>A byte sequence the loop takes as one length: the top bit is set on all but the last.\<close>

definition length_bytes :: "byte list \<Rightarrow> bool" where
  "length_bytes bs \<longleftrightarrow> bs \<noteq> [] \<and> (\<forall>b \<in> set (butlast bs). b AND 0x80 \<noteq> 0) \<and> last bs AND 0x80 = 0"

lemma remain_loop_decode:
  assumes "length_bytes bs" and "plat w = chunks (map (\<lambda>b. [b]) bs) @ rest"
  shows "remain_loop fd m n w = ((mkernel_internal_succ, n + decode_remain m bs, last bs), w\<lparr>plat := rest\<rparr>)"
  using assms
proof (induction bs arbitrary: m n w)
  case Nil
  then show ?case by (simp add: length_bytes_def)
next
  case (Cons b bs)
  have r: "net_read fd 1 w = ((mkernel_internal_succ, [b]), w\<lparr>plat := chunks (map (\<lambda>b. [b]) bs) @ rest\<rparr>)"
    by (rule net_read_chunks [where cs = "[[b]]", simplified]) (use Cons.prems in simp_all)
  show ?case
  proof (cases bs)
    case Nil
    with Cons.prems r show ?thesis
      by (subst remain_loop.simps) (simp add: length_bytes_def Let_def)
  next
    case (Cons c cs)
    then have "length_bytes bs" and "b AND 0x80 \<noteq> 0" using Cons.prems(1) by (simp_all add: length_bytes_def)
    with Cons.IH [of "w\<lparr>plat := chunks (map (\<lambda>b. [b]) bs) @ rest\<rparr>"] r Cons show ?thesis
      by (subst remain_loop.simps) (simp add: Let_def add.assoc)
  qed
qed

lemma low_bits:
  fixes x :: byte
  assumes "x < 128"
  shows "x AND 0x7F = x" "x AND 0x80 = 0" "(x OR 0x80) AND 0x7F = x" "(x OR 0x80) AND 0x80 \<noteq> 0"
proof -
  have m: "x AND 0x7F = take_bit 7 x" by (simp add: take_bit_eq_mask mask_eq_exp_minus_1)
  have "unat (take_bit 7 x) = unat x" using assms
    by (simp add: take_bit_eq_mod word_less_nat_alt unat_mod)
  then have "take_bit 7 x = x" by (rule unsigned_word_eqI)
  with m show 1: "x AND 0x7F = x" by simp
  then have "x AND 0x80 = (x AND 0x7F) AND 0x80" by simp
  then show "x AND 0x80 = 0" by (simp add: and.assoc)
  with 1 show "(x OR 0x80) AND 0x7F = x" "(x OR 0x80) AND 0x80 \<noteq> 0" by (simp_all add: bit.conj_disj_distrib2)
qed

lemma mod_128_byte:
  fixes n :: uint32
  shows "(ucast (n mod 128) :: byte) < 128" "ucast (ucast (n mod 128) :: byte) = n mod 128"
proof -
  have l: "unat (n mod 128) < 128" by (simp add: unat_mod)
  then have u: "unat (ucast (n mod 128) :: byte) = unat (n mod 128)"
    by (simp add: unsigned_ucast_eq take_bit_eq_mod unat_mod)
  show "(ucast (n mod 128) :: byte) < 128" using l u by (simp add: word_less_nat_alt)
  have "unat (ucast (ucast (n mod 128) :: byte) :: uint32) = unat (n mod 128)"
    using u l by (simp add: unsigned_ucast_eq take_bit_eq_mod unat_mod)
  then show "ucast (ucast (n mod 128) :: byte) = n mod 128" by (rule unsigned_word_eqI)
qed

lemma div_mod_128: "n mod 128 * m + n div 128 * (m * 128) = n * (m :: uint32)"
proof -
  have "n mod 128 * m + n div 128 * (m * 128) = (n div 128 * 128 + n mod 128) * m" by (simp add: algebra_simps)
  then show ?thesis by (simp only: div_mult_mod_eq)
qed

text \<open>
  Decoding gives back every encoded length below $128^k$, where $k$ is the number of
  length bytes the encoder may use.
\<close>

lemma decode_remain_bytes:
  assumes "unat n < 128 ^ Suc k"
  shows "length_bytes (remain_bytes (Suc k) n) \<and> decode_remain m (remain_bytes (Suc k) n) = n * m"
  using assms
proof (induction k arbitrary: n m)
  case 0
  then have "unat (n div 128) = 0" by (simp add: unat_div)
  then have "n div 128 = 0" by (simp only: unat_eq_zero)
  with div_mod_128 [of n m] show ?case
    by (simp add: Let_def length_bytes_def low_bits mod_128_byte)
next
  case (Suc k)
  show ?case
  proof (cases "n div 128 > 0")
    case True
    have "unat (n div 128) < 128 ^ Suc k"
      using Suc.prems by (simp add: unat_div less_mult_imp_div_less mult.commute)
    from Suc.IH [OF this, of "m * 128"]
    have ih: "length_bytes (remain_bytes (Suc k) (n div 128))"
      "decode_remain (m * 128) (remain_bytes (Suc k) (n div 128)) = n div 128 * (m * 128)" by simp_all
    let ?b = "ucast (n mod 128) OR 0x80 :: byte"
    have r: "remain_bytes (Suc (Suc k)) n = ?b # remain_bytes (Suc k) (n div 128)"
      using True by (subst remain_bytes.simps(2)) (simp only: Let_def if_True zero_less_Suc simp_thms)
    show ?thesis
      unfolding r using ih div_mod_128 [of n m]
      by (auto simp: length_bytes_def low_bits mod_128_byte simp del: remain_bytes.simps(2))
  next
    case False
    then have "n div 128 = 0" by (simp add: word_gt_0)
    with div_mod_128 [of n m] show ?thesis
      by (simp add: Let_def length_bytes_def low_bits mod_128_byte)
  qed
qed

end
