(* ===== verification/Lbs_Auth.thy ===== *)
theory Lbs_Auth
  imports Lbs_Packet
begin

text \<open>
  The messages of the load balancer protocol, the middle part of \<^verbatim>\<open>access/lbs_transport.c\<close>: the
  shared key, the transaction's life, authentication by key exchange, the request for a
  device id or a new session key, and the request for the address of the access server.
  The private key of the exchange lives in the mbedtls context; it is the third component
  of what \<^verbatim>\<open>ezdev_generate_publickey\<close> yields. A result code of the platform is a \<^verbatim>\<open>char\<close>, signed
  as on the Linux port.
\<close>

definition string_bytes :: "string \<Rightarrow> byte list" where
  "string_bytes s = map (\<lambda>c. of_nat (of_char c)) s"

lemma length_string_bytes [simp]: "length (string_bytes s) = length s"
  by (simp add: string_bytes_def)

section \<open>The transaction\<close>

definition LBS_AUTH_SHAREKEY_SALT :: string where
  "LBS_AUTH_SHAREKEY_SALT = ''www.88075998.com''"

definition generate_sharekey :: "lbs_crypto \<Rightarrow> ezdev_sdk_kernel \<Rightarrow> bool \<Rightarrow> lbs_affair \<Rightarrow> lbs_affair" where
  "generate_sharekey T k nUpper a =
     (let salt = string_bytes LBS_AUTH_SHAREKEY_SALT;
          src1 = string_bytes (dev_verification_code (dev_info k)) @ string_bytes (dev_subserial (dev_info k));
          hex1 = string_bytes (md5_hexdump (md5 T src1) nUpper);
          hex2 = string_bytes (md5_hexdump (md5 T (hex1 @ salt)) True);
          hex3 = string_bytes (md5_hexdump (md5 T hex2) True)
      in if md_setup_sha256 T \<noteq> 0 then a
         else
           let dst = string_bytes (md5_hexdump (pbkdf2_hmac_sha256 T hex3 salt 3 32) True)
           in a\<lparr>share_key := take 32 (drop 10 dst), share_key_len := 32\<rparr>)"

text \<open>A zeroed packet buffer with its two heads, as \<^verbatim>\<open>init_lbs_affair\<close> fills it.\<close>

definition ready_packet :: lbs_packet where
  "ready_packet = \<lparr>head_buf = Some [], head_buf_Len = 16, head_buf_off = 0, var_head_buf = Some [],
     var_head_buf_Len = 16, var_head_buf_off = 0, payload_buf = [],
     payload_buf_Len = of_nat CONFIG_EZIOT_CORE_MESSAGE_SIZE_MAX, payload_buf_off = 0\<rparr>"

definition head_packet :: lbs_packet where
  "head_packet = zero_packet\<lparr>head_buf := Some [], head_buf_Len := 16\<rparr>"

definition init_lbs_affair :: "lbs_crypto \<Rightarrow> bool \<Rightarrow> lbs_state \<Rightarrow> mkernel_internal_error \<times> lbs_state" where
  "init_lbs_affair T nUpper s =
     (case s of (a0, w0) \<Rightarrow>
       case plat_call w0 of ((r1, _), w1) \<Rightarrow> case plat_call w1 of ((r2, _), w2) \<Rightarrow>
       case plat_call w2 of ((r3, _), w3) \<Rightarrow> case plat_call w3 of ((r4, _), w4) \<Rightarrow>
       let a = a0\<lparr>random_1 := of_int r1, random_2 := of_int r2, random_3 := of_int r3, random_4 := of_int r4\<rparr> in
       case w_malloc w4 of (ok1, w5) \<Rightarrow>
       if \<not> ok1 then (mkernel_internal_mem_lack, (a, w5))
       else
         let a1 = a\<lparr>global_out_packet := head_packet\<rparr> in
         case w_malloc w5 of (ok2, w6) \<Rightarrow>
         if \<not> ok2 then (mkernel_internal_mem_lack, (a1, w6))
         else
           let a2 = a\<lparr>global_out_packet := ready_packet\<rparr> in
           case w_malloc w6 of (ok3, w7) \<Rightarrow>
           if \<not> ok3 then (mkernel_internal_mem_lack, (a2, w7))
           else
             let a3 = a2\<lparr>global_in_packet := head_packet\<rparr> in
             case w_malloc w7 of (ok4, w8) \<Rightarrow>
             if \<not> ok4 then (mkernel_internal_mem_lack, (a3, w8))
             else
               let k = kernel w8;
                   a4 = a2\<lparr>global_in_packet := ready_packet, a_auth_mode := dev_auth_mode (dev_info k),
                           a_subserial := dev_subserial (dev_info k), a_dev_id := dev_id k,
                           a_master_key := master_key k, a_access_mode := dev_access_mode (dev_info k)\<rparr>
               in (mkernel_internal_succ, ((generate_sharekey T k nUpper a4)\<lparr>a_socket_fd := - 1\<rparr>, w8)))"

text \<open>The number of blocks a transaction owns: the heads of its two packets.\<close>

definition packet_blocks :: "lbs_packet \<Rightarrow> nat" where
  "packet_blocks p = of_bool (head_buf p \<noteq> None) + of_bool (var_head_buf p \<noteq> None)"

definition fini_lbs_affair :: "lbs_state \<Rightarrow> lbs_state" where
  "fini_lbs_affair s = (case s of (a, w) \<Rightarrow>
     (zero_affair, w_frees (packet_blocks (global_out_packet a) + packet_blocks (global_in_packet a)) w))"

definition clear_packet :: "lbs_packet \<Rightarrow> lbs_packet" where
  "clear_packet p = p\<lparr>head_buf := map_option (\<lambda>_. []) (head_buf p), head_buf_off := 0, payload_buf := [],
                      payload_buf_off := 0\<rparr>"

definition clear_lbs_affair_buf :: "lbs_state \<Rightarrow> lbs_state" where
  "clear_lbs_affair_buf s = (case s of (a, w) \<Rightarrow> (upd_in clear_packet (upd_out clear_packet a), w))"

definition save_key_value :: "lbs_state \<Rightarrow> world" where
  "save_key_value s = (case s of (a, w) \<Rightarrow>
     (upd_kernel (\<lambda>k. k\<lparr>dev_id := a_dev_id a, master_key := a_master_key a, session_key := a_session_key a\<rparr>) w)
       \<lparr>saved_values := saved_values w @
          [(Sdk_keyvalue_devid, a_dev_id a), (Sdk_keyvalue_masterkey, a_master_key a)]\<rparr>)"

definition save_das_info :: "das_info \<Rightarrow> world \<Rightarrow> world" where
  "save_das_info recv_das_info w = upd_kernel (\<lambda>k. k\<lparr>redirect_das_info := recv_das_info\<rparr>) w"

section \<open>Steps shared by the messages\<close>

text \<open>The versions, the body, the header and the transmission of a packet.\<close>

definition with_header :: "(lbs_packet \<Rightarrow> mkernel_internal_error \<times> lbs_packet) \<Rightarrow> lbs_state
    \<Rightarrow> mkernel_internal_error \<times> lbs_state" where
  "with_header f s = (case s of (a, w) \<Rightarrow>
     case f (global_out_packet a) of (e, p) \<Rightarrow> (e, (a\<lparr>global_out_packet := p\<rparr>, w)))"

definition new_header :: "uint32 \<Rightarrow> lbs_state \<Rightarrow> mkernel_internal_error \<times> lbs_state" where
  "new_header cmd s = with_header
     (\<lambda>p. header_serialize (kernel (snd s)) cmd (payload_buf_off p) p) s"

definition old_header :: "uint32 \<Rightarrow> lbs_state \<Rightarrow> mkernel_internal_error \<times> lbs_state" where
  "old_header cmd s = with_header (\<lambda>p. header_serialize_old cmd (payload_buf_off p) p) s"

text \<open>\<^verbatim>\<open>sdk_error = send_lbs_msg(...); return mkernel_internal_succ;\<close>: the result is dropped.\<close>

definition send_unchecked :: "lbs_state \<Rightarrow> mkernel_internal_error \<times> lbs_state" where
  "send_unchecked s = (mkernel_internal_succ, snd (send_lbs_msg s))"

text \<open>The prefix of every reply: three version bytes and the result code of the platform.\<close>

definition in_skip :: "nat \<Rightarrow> lbs_affair \<Rightarrow> lbs_affair" where
  "in_skip n a = upd_in (\<lambda>p. p\<lparr>payload_buf_off := payload_buf_off p + of_nat n\<rparr>) a"

definition in_off :: "lbs_affair \<Rightarrow> nat" where
  "in_off a = unat (payload_buf_off (global_in_packet a))"

definition in_read :: "nat \<Rightarrow> lbs_affair \<Rightarrow> byte list" where
  "in_read n a = buf_read (payload_buf (global_in_packet a)) (in_off a) n"

definition result_code :: "lbs_affair \<Rightarrow> int" where
  "result_code a = sint (buf_get (payload_buf (global_in_packet a)) (in_off a))"

section \<open>Authentication\<close>

definition auth_mode_byte :: "sdk_dev_auth_mode \<Rightarrow> byte" where
  "auth_mode_byte m = (case m of Sdk_dev_auth_sap \<Rightarrow> 0 | Sdk_dev_auth_license \<Rightarrow> 1)"

definition authentication_i_serialize :: "lbs_state \<Rightarrow> mkernel_internal_error \<times> lbs_state" where
  "authentication_i_serialize s =
     (let a = fst s;
          dev_serial_len = of_nat (length (a_subserial a)) :: uint8
      in (mkernel_internal_succ,
          put_payload (take (unat dev_serial_len) (string_bytes (a_subserial a)))
            (put_payload [dev_serial_len] (put_payload [auth_mode_byte (a_auth_mode a)] s))))"

text \<open>
  The check decryption in the source goes to a scratch buffer and its result is dropped.
  The result is the error, the encrypted key and the tag.
\<close>

definition aes_128_encrypt_pubkey :: "libs \<Rightarrow> byte list \<Rightarrow> lbs_state
    \<Rightarrow> (mkernel_internal_error \<times> byte list \<times> byte list) \<times> lbs_state" where
  "aes_128_encrypt_pubkey L input_buf s =
     (case s of (a, w) \<Rightarrow>
       if input_buf = [] then ((mkernel_internal_input_param_invalid, [], []), s)
       else (case w_malloc w of (ok, w1) \<Rightarrow>
         if \<not> ok then ((mkernel_internal_malloc_error, [], []), (a, w1))
         else (case aes_gcm_128_enc_padding (lib_tls L) (take 16 (share_key a)) input_buf LBS_AUTH_TAG_LEN of
           (e, out, tag, _) \<Rightarrow> ((e, out, tag), (a, w_free w1)))))"

definition append_encrypt_data :: "byte list \<Rightarrow> byte list \<Rightarrow> lbs_state \<Rightarrow> lbs_state" where
  "append_encrypt_data encrypt_data tag s = put_payload encrypt_data (put_payload tag s)"

text \<open>
  The \<^verbatim>\<open>break\<close> after an error inside the \<^verbatim>\<open>switch\<close> leaves only the \<^verbatim>\<open>switch\<close>: the packet is
  completed and sent without the key.
\<close>

definition append_pubkey :: "libs \<Rightarrow> lbs_crypto \<Rightarrow> lbs_state \<Rightarrow> lbs_state" where
  "append_pubkey L T s =
     (case ezdev_generate_publickey T of (e, pubkey, _) \<Rightarrow>
       if e \<noteq> mkernel_internal_succ then s
       else (case aes_128_encrypt_pubkey L pubkey s of ((e1, data, tag), s1) \<Rightarrow>
         if e1 \<noteq> mkernel_internal_succ then s1 else append_encrypt_data data tag s1))"

definition send_authentication_i :: "libs \<Rightarrow> lbs_crypto \<Rightarrow> lbs_state \<Rightarrow> mkernel_internal_error \<times> lbs_state" where
  "send_authentication_i L T s =
     then_ok (common_serialize 0x01 0x02 0x00 s) (\<lambda>s1.
     then_ok (authentication_i_serialize s1) (\<lambda>s2.
       if dev_cur_auth_type (kernel (snd s2)) \<noteq> 1 then (mkernel_internal_internal_err, s2)
       else then_ok (new_header DEV_PROTOCOL_AUTHENTICATION_I (append_pubkey L T s2)) send_lbs_msg))"

text \<open>
  The encrypted key of the platform has \<^verbatim>\<open>remain_len - payload_buf_off\<close> bytes, cut to eight
  bits; the plain text goes to a buffer of 128 bytes, before the tag is checked.
\<close>

definition recv_plat_key_len :: "uint32 \<Rightarrow> lbs_affair \<Rightarrow> uint8" where
  "recv_plat_key_len remain_len a = ucast (remain_len - payload_buf_off (global_in_packet a))"

definition aes_128_decrypt_peer_pubkey :: "libs \<Rightarrow> uint32 \<Rightarrow> byte list \<Rightarrow> lbs_state
    \<Rightarrow> (mkernel_internal_error \<times> byte list) \<times> lbs_state" where
  "aes_128_decrypt_peer_pubkey L remain_len tag s =
     (case s of (a, w) \<Rightarrow>
       if remain_len = 0 then ((mkernel_internal_input_param_invalid, []), s)
       else
         let n = unat (recv_plat_key_len remain_len a);
             key = take 16 (share_key a)
         in case aes_gcm_128_dec_padding (lib_tls L) key (in_read n a) tag of (e, out, _) \<Rightarrow>
           ((e, if e = mkernel_internal_succ then take n out else []),
            (a, faulty (n > LBS_AUTH_INFO_LEN \<and> gcm_setkey (lib_tls L) key = 0) w)))"

text \<open>The search for the platform's type among the types the device offered.\<close>

definition offered :: "lbs_affair \<Rightarrow> byte \<Rightarrow> bool" where
  "offered a ty \<longleftrightarrow>
     list_ex (\<lambda>i. buf_get (written (var_head_buf (global_out_packet a)) 16) i = ty)
       [2..<unat (var_head_buf_Len (global_out_packet a)) - 1]"

definition head_flag :: "lbs_packet \<Rightarrow> byte" where
  "head_flag p = drop_bit 3 (buf_get (written (head_buf p) 1) 0 AND 0x08)"

definition first_var :: "lbs_packet \<Rightarrow> byte" where
  "first_var p = buf_get (written (var_head_buf p) 1) 0"

definition ecdh_priv :: "lbs_crypto \<Rightarrow> byte list" where
  "ecdh_priv T = snd (snd (ezdev_generate_publickey T))"

text \<open>The first eight bytes of the hash of the shared secret, in hexadecimal.\<close>

definition master_key_of :: "lbs_crypto \<Rightarrow> byte list \<Rightarrow> byte list" where
  "master_key_of T secret = string_bytes (md5_hexdump (take 8 (md5 T secret)) True)"

definition parse_authentication_ii :: "libs \<Rightarrow> lbs_crypto \<Rightarrow> uint32 \<Rightarrow> lbs_state
    \<Rightarrow> mkernel_internal_error \<times> lbs_state" where
  "parse_authentication_ii L T remain_len s =
     (case s of (a0, w) \<Rightarrow>
       let a = in_skip 3 a0; p_in = global_in_packet a; p_out = global_out_packet a in
       if head_flag p_out \<noteq> 1 then (mkernel_internal_internal_err, (a, w))
       else if head_flag p_in \<noteq> 1 then (mkernel_internal_platform_invalid_data, (a, w))
       else if first_var p_in \<noteq> first_var p_out
       then (if offered a (first_var p_in) then mkernel_internal_platform_lbs_auth_type_need_rematch
             else mkernel_internal_platform_lbs_auth_type_match_fail, (a, w))
       else
         let a1 = in_skip 1 a in
         if result_code a \<noteq> 0 then (mkernel_internal_platform_error + result_code a, (a1, w))
         else if dev_cur_auth_type (kernel w) \<noteq> 1 then (mkernel_internal_internal_err, (a1, w))
         else
           let tag = in_read LBS_AUTH_TAG_LEN a1; a2 = in_skip LBS_AUTH_TAG_LEN a1 in
           case aes_128_decrypt_peer_pubkey L remain_len tag (a2, w) of ((e, peer_pubkey), (a3, w1)) \<Rightarrow>
           if e \<noteq> mkernel_internal_succ then (e, (a3, w1))
           else (case ezdev_generate_masterkey T (ecdh_priv T) peer_pubkey of (e1, secret) \<Rightarrow>
             if e1 \<noteq> mkernel_internal_succ then (e1, (a3, w1))
             else (mkernel_internal_succ,
                   (a3\<lparr>a_master_key := master_key_of T secret\<rparr>, faulty (length secret > 48) w1))))"

definition wait_authentication_ii :: "libs \<Rightarrow> lbs_crypto \<Rightarrow> lbs_state \<Rightarrow> mkernel_internal_error \<times> lbs_state" where
  "wait_authentication_ii L T s =
     (case wait_assign_response s of ((e, rev_cmd, remain_len), s1) \<Rightarrow>
       if e \<noteq> mkernel_internal_succ then (e, s1)
       else if rev_cmd \<noteq> DEV_PROTOCOL_AUTHENTICATION_II then (mkernel_internal_net_read_error_request, s1)
       else (case parse_authentication_ii L T remain_len s1 of (e1, (a, w)) \<Rightarrow>
         (e1, (a, if e1 = mkernel_internal_platform_lbs_auth_type_need_rematch
                  then upd_kernel (\<lambda>k. k\<lparr>dev_cur_auth_type := first_var (global_in_packet a)\<rparr>) w else w))))"

section \<open>Device id and session key\<close>

definition authentication_iii_serialize_serial_sha384 :: "lbs_crypto \<Rightarrow> lbs_state
    \<Rightarrow> mkernel_internal_error \<times> lbs_state" where
  "authentication_iii_serialize_serial_sha384 T s =
     digital_sign_serialize_sha384 T (string_bytes (a_subserial (fst s))) (a_master_key (fst s)) s"

definition send_sessionkey_req_serialize :: "lbs_crypto \<Rightarrow> lbs_state \<Rightarrow> mkernel_internal_error \<times> lbs_state" where
  "send_sessionkey_req_serialize T s =
     authentication_iii_serialize_serial_sha384 T
       (put_payload (take ezdev_sdk_devid_len (a_dev_id (fst s))) (put_payload [of_nat ezdev_sdk_devid_len] s))"

definition send_update_sessionkey_req :: "lbs_crypto \<Rightarrow> lbs_state \<Rightarrow> mkernel_internal_error \<times> lbs_state" where
  "send_update_sessionkey_req T s =
     then_ok (common_serialize 0x01 0x01 0x00 s) (\<lambda>s1.
     then_ok (send_sessionkey_req_serialize T s1) (\<lambda>s2.
     then_ok (new_header DEV_PROTOCOL_REFRESHSESSIONKEY_REQ s2) send_unchecked))"

definition send_authentication_creat_dev_id :: "lbs_crypto \<Rightarrow> lbs_state \<Rightarrow> mkernel_internal_error \<times> lbs_state" where
  "send_authentication_creat_dev_id T s =
     then_ok (common_serialize 0x01 0x01 0x00 s) (\<lambda>s1.
     then_ok (authentication_iii_serialize_serial_sha384 T s1) (\<lambda>s2.
     then_ok (new_header DEV_PROTOCOL_REQUEST_DEVID s2) send_unchecked))"

text \<open>
  A field of the reply: tag, length byte, cipher text. The length must be \<^verbatim>\<open>n\<close>; the plain text
  is the result, with the transaction behind the field.
\<close>

definition open_field :: "libs \<Rightarrow> nat \<Rightarrow> lbs_affair \<Rightarrow> (mkernel_internal_error \<times> byte list) \<times> lbs_affair" where
  "open_field L n a =
     (let tag = in_read LBS_AUTH_TAG_LEN a; a1 = in_skip LBS_AUTH_TAG_LEN a;
          en_len = in_read 1 a1 ! 0; a2 = in_skip 1 a1
      in if unat en_len \<noteq> n then ((mkernel_internal_platform_appoint_error, []), a2)
         else (case aes_gcm_128_dec_padding (lib_tls L) (a_master_key a2) (in_read n a2) tag of (e, out, len) \<Rightarrow>
           if e \<noteq> mkernel_internal_succ then ((e, []), a2)
           else if len \<noteq> Some n then ((mkernel_internal_platform_appoint_error, []), a2)
           else ((mkernel_internal_succ, take n out), in_skip n a2)))"

definition parse_authentication_create_dev_id :: "libs \<Rightarrow> lbs_crypto \<Rightarrow> uint32 \<Rightarrow> lbs_affair
    \<Rightarrow> mkernel_internal_error \<times> lbs_affair" where
  "parse_authentication_create_dev_id L T remain_len a0 =
     (let a = in_skip 3 a0; a1 = in_skip 1 a in
      if result_code a \<noteq> 0 then (mkernel_internal_platform_error + result_code a, a1)
      else (case open_field L 32 a1 of ((e, devid), a2) \<Rightarrow>
        if e \<noteq> mkernel_internal_succ then (e, a2)
        else (case open_field L 16 (a2\<lparr>a_dev_id := devid\<rparr>) of ((e1, sessionkey), a3) \<Rightarrow>
          if e1 \<noteq> mkernel_internal_succ then (e1, a3)
          else
            let a4 = a3\<lparr>a_session_key := sessionkey\<rparr>
            in (digital_sign_serialize_and_check_sha384 T (in_read 48 a4)
                  (ucast (remain_len - payload_buf_off (global_in_packet a4)))
                  (string_bytes (a_subserial a4)) (a_master_key a4), a4))))"

text \<open>Wait for a reply with the given command and hand it to its parser.\<close>

definition wait_reply :: "uint32 \<Rightarrow> (uint32 \<Rightarrow> lbs_state \<Rightarrow> mkernel_internal_error \<times> lbs_state) \<Rightarrow> lbs_state
    \<Rightarrow> mkernel_internal_error \<times> lbs_state" where
  "wait_reply cmd parse s =
     (case wait_assign_response s of ((e, rev_cmd, remain_len), s1) \<Rightarrow>
       if e \<noteq> mkernel_internal_succ then (e, s1)
       else if rev_cmd \<noteq> cmd then (mkernel_internal_net_read_error_request, s1)
       else parse remain_len s1)"

definition on_affair :: "(lbs_affair \<Rightarrow> mkernel_internal_error \<times> lbs_affair) \<Rightarrow> lbs_state
    \<Rightarrow> mkernel_internal_error \<times> lbs_state" where
  "on_affair f s = (case f (fst s) of (e, a) \<Rightarrow> (e, (a, snd s)))"

definition wait_update_sessionkey_rsp :: "libs \<Rightarrow> lbs_crypto \<Rightarrow> lbs_state \<Rightarrow> mkernel_internal_error \<times> lbs_state" where
  "wait_update_sessionkey_rsp L T =
     wait_reply DEV_PROTOCOL_REFRESHSESSIONKEY_RSP (\<lambda>n. on_affair (parse_authentication_create_dev_id L T n))"

definition wait_authentication_creat_dev_id :: "libs \<Rightarrow> lbs_crypto \<Rightarrow> lbs_state
    \<Rightarrow> mkernel_internal_error \<times> lbs_state" where
  "wait_authentication_creat_dev_id L T =
     wait_reply DEV_PROTOCOL_RESPONSE_DEVID (\<lambda>n. on_affair (parse_authentication_create_dev_id L T n))"

end
