(* ===== verification/Lbs_Transport.thy ===== *)
theory Lbs_Transport
  imports Lbs_Auth
begin

text \<open>
  The last part of \<^verbatim>\<open>access/lbs_transport.c\<close>: refreshing the session key with a known master
  key, the request for the access server, connecting, and the three entry points of the
  load balancer protocol, gathered in \<^verbatim>\<open>lbs_transport\<close>. Lemmas: the entry points keep what the
  access state machine relies on, they change keys and addresses only as a whole and only
  on success, they return every block and close every socket they opened, and what
  defects of the code do.
\<close>

section \<open>Refreshing the session key\<close>

text \<open>One byte, padded to a block and encrypted with the master key.\<close>

definition encrypt_random :: "libs \<Rightarrow> byte \<Rightarrow> lbs_state \<Rightarrow> mkernel_internal_error \<times> lbs_state" where
  "encrypt_random L r s =
     (case aes_cbc_128_enc_padding (lib_tls L) (a_master_key (fst s)) (r # zeros 15) 1 16 of (e, en_dst, _) \<Rightarrow>
       if e \<noteq> mkernel_internal_succ then (e, s) else (mkernel_internal_succ, put_payload en_dst s))"

definition refreshsessionkey_i_serialize :: "libs \<Rightarrow> lbs_state \<Rightarrow> mkernel_internal_error \<times> lbs_state" where
  "refreshsessionkey_i_serialize L s =
     (let a = fst s;
          dev_serial_len = of_nat (length (a_subserial a)) :: uint8
      in encrypt_random L (random_1 a)
           (put_payload (take ezdev_sdk_devid_len (a_dev_id a))
             (put_payload [of_nat ezdev_sdk_devid_len]
               (put_payload (take (unat dev_serial_len) (string_bytes (a_subserial a)))
                 (put_payload [dev_serial_len] s)))))"

definition send_refreshsessionkey_i :: "libs \<Rightarrow> lbs_state \<Rightarrow> mkernel_internal_error \<times> lbs_state" where
  "send_refreshsessionkey_i L s =
     then_ok (common_serialize 0x01 0x01 0x00 s) (\<lambda>s1.
     then_ok (refreshsessionkey_i_serialize L s1) (\<lambda>s2.
     then_ok (old_header DEV_PROTOCOL_REQUEST_DEVID s2) send_unchecked))"

definition parse_refreshsessionkey_ii :: "libs \<Rightarrow> uint32 \<Rightarrow> lbs_affair \<Rightarrow> mkernel_internal_error \<times> lbs_affair" where
  "parse_refreshsessionkey_ii L remain_len a0 =
     (let a = in_skip 3 a0; a1 = in_skip 1 a in
      if result_code a \<noteq> 0 then (mkernel_internal_platform_error + result_code a, a1)
      else
        let en_sessionkey_len = ucast (remain_len - payload_buf_off (global_in_packet a1)) :: uint8 in
        if en_sessionkey_len \<noteq> 32 then (mkernel_internal_platform_appoint_error, a1)
        else (case aes_cbc_128_dec_padding (lib_tls L) (a_master_key a1) (in_read 32 a1) of (e, ase_dst, _) \<Rightarrow>
          if e \<noteq> mkernel_internal_succ then (e, a1)
          else
            let a2 = in_skip 32 a1 in
            if ase_dst ! 0 \<noteq> random_1 a2 then (mkernel_internal_random1_check_error, a2)
            else (mkernel_internal_succ,
                  a2\<lparr>random_2 := ase_dst ! 1, a_session_key := take ezdev_sdk_sessionkey_len (drop 2 ase_dst)\<rparr>)))"

definition wait_refreshsessionkey_ii :: "libs \<Rightarrow> lbs_state \<Rightarrow> mkernel_internal_error \<times> lbs_state" where
  "wait_refreshsessionkey_ii L =
     wait_reply DEV_PROTOCOL_RESPONSE_DEVID (\<lambda>n. on_affair (parse_refreshsessionkey_ii L n))"

definition refreshsessionkey_iii_serialize :: "libs \<Rightarrow> lbs_state \<Rightarrow> mkernel_internal_error \<times> lbs_state" where
  "refreshsessionkey_iii_serialize L s = encrypt_random L (random_2 (fst s)) s"

definition send_refreshsessionkey_iii :: "libs \<Rightarrow> lbs_state \<Rightarrow> mkernel_internal_error \<times> lbs_state" where
  "send_refreshsessionkey_iii L s =
     then_ok (common_serialize 0x01 0x01 0x00 s) (\<lambda>s1.
     then_ok (refreshsessionkey_iii_serialize L s1) (\<lambda>s2.
     then_ok (old_header DEV_PROTOCOL_APPLY_DEVID_CFM s2) send_unchecked))"

definition send_stun_refreshsessionkey_iii :: "libs \<Rightarrow> lbs_state \<Rightarrow> mkernel_internal_error \<times> lbs_state" where
  "send_stun_refreshsessionkey_iii L s =
     then_ok (common_serialize 0x01 0x01 0x00 s) (\<lambda>s1.
     then_ok (refreshsessionkey_iii_serialize L s1) (\<lambda>s2.
     then_ok (old_header DEV_PROTOCOL_STUN_REFRESHSESSIONKEY_III s2) send_unchecked))"

section \<open>The address of the access server\<close>

text \<open>
  \<^verbatim>\<open>cJSON_PrintBuffered(root, 1024, 0)\<close>: the unformatted text in one block. Both request
  documents share everything but their fields. When the padded text does not fit the
  prebuffer and the larger block is refused, the printed text is not freed.
\<close>

definition crypto_data_serialize :: "libs \<Rightarrow> (string \<times> (string + int)) list \<Rightarrow> lbs_state
    \<Rightarrow> mkernel_internal_error \<times> lbs_state" where
  "crypto_data_serialize L items s =
     (case s of (a, w) \<Rightarrow>
       case w_json cJSON_CreateObject w of
         (None, w1) \<Rightarrow> (mkernel_internal_malloc_error, (a, w1))
       | (Some root0, w1) \<Rightarrow>
           (case w_json (add_fields items (Some root0)) w1 of (root, w2) \<Rightarrow>
            case cJSON_PrintUnformatted L root w2 of
              (None, w3) \<Rightarrow> (mkernel_internal_json_format_error, (a, w_json_delete root w3))
            | (Some json_buf, w3) \<Rightarrow>
                (let json_len = of_nat (length json_buf) :: uint32;
                     json_len_padding = calculate_padding_len json_len
                 in case (if LBS_AUTH_JSON_DEFAULT_LEN > unat json_len_padding then (True, w3)
                          else (case w_malloc w3 of (ok, w4) \<Rightarrow> (ok, if ok then w_free w4 else w4))) of (ok, w4) \<Rightarrow>
                   if \<not> ok then (mkernel_internal_malloc_error, (a, w_json_delete root w4))
                   else (case w_malloc w4 of (ok', w5) \<Rightarrow>
                     if \<not> ok' then (mkernel_internal_malloc_error, (a, w_free (w_json_delete root w5)))
                     else (case aes_cbc_128_enc_padding (lib_tls L) (a_session_key a)
                              (json_buf @ zeros (unat json_len_padding - length json_buf))
                              (length json_buf) (unat json_len_padding) of (e, out_buf, _) \<Rightarrow>
                       let release = (\<lambda>s. (fst s, w_free (w_free (w_json_delete root (snd s)))))
                       in if e \<noteq> mkernel_internal_succ then (e, release (a, w5))
                          else (mkernel_internal_succ, release (put_payload out_buf (a, w5))))))))"

definition crypto_data_req_das_serialize :: "libs \<Rightarrow> lbs_state \<Rightarrow> mkernel_internal_error \<times> lbs_state" where
  "crypto_data_req_das_serialize L s =
     crypto_data_serialize L [(''DevSerial'', Inl (a_subserial (fst s))), (''Type'', Inl ''DAS''),
       (''Mode'', Inr (uint (a_access_mode (fst s))))] s"

definition crypto_data_req_stun_serialize :: "libs \<Rightarrow> lbs_state \<Rightarrow> mkernel_internal_error \<times> lbs_state" where
  "crypto_data_req_stun_serialize L s =
     crypto_data_serialize L [(''DevSerial'', Inl (a_subserial (fst s))), (''Type'', Inl ''STUN'')] s"

definition send_crypto_data_req :: "libs \<Rightarrow> uint8 \<Rightarrow> lbs_state \<Rightarrow> mkernel_internal_error \<times> lbs_state" where
  "send_crypto_data_req L server_type s =
     then_ok (common_serialize 0x01 0x01 0x00 s) (\<lambda>s1.
     then_ok (if server_type = 0 then crypto_data_req_stun_serialize L s1 else crypto_data_req_das_serialize L s1) (\<lambda>s2.
     then_ok (old_header DEV_PROTOCOL_CRYPTO_DATA_REQ s2) send_unchecked))"

definition zero_das_info :: das_info where
  "zero_das_info = \<lparr>das_port = 0, das_udp_port = 0, das_address = '''', das_domain = '''', das_serverid = ''''\<rparr>"

text \<open>
  The third component says that the code reads through the NULL pointer of a missing
  \<^verbatim>\<open>Address\<close>: the test before names \<^verbatim>\<open>ServerID\<close> twice instead.
\<close>

definition is_text :: "cJSON \<Rightarrow> bool" where
  "is_text j \<longleftrightarrow> js_type j = cJSON_String \<and> js_valuestring j \<noteq> None"

definition json_parse_das_server_info :: "libs \<Rightarrow> byte list \<Rightarrow> das_info
    \<Rightarrow> mkernel_internal_error \<times> das_info \<times> bool" where
  "json_parse_das_server_info L jsonstring info =
     (case cJSON_Parse (lib_text L) jsonstring of
        None \<Rightarrow> (mkernel_internal_json_parse_error, info, False)
      | Some root \<Rightarrow>
          (case cJSON_GetObjectItem (Some root) ''Type'' of
             None \<Rightarrow> (mkernel_internal_json_parse_error, info, False)
           | Some ty \<Rightarrow>
               if \<not> is_text ty then (mkernel_internal_json_parse_error, info, False)
               else if js_valuestring ty \<noteq> Some ''DAS'' then (mkernel_internal_get_error_json, info, False)
               else (case cJSON_GetObjectItem (Some root) ''DasInfo'' of
                  None \<Rightarrow> (mkernel_internal_get_error_json, info, False)
                | Some d \<Rightarrow>
                    (case (cJSON_GetObjectItem (Some d) ''Port'', cJSON_GetObjectItem (Some d) ''UdpPort'',
                           cJSON_GetObjectItem (Some d) ''Domain'', cJSON_GetObjectItem (Some d) ''ServerID'') of
                       (Some port, Some udpport, Some dn, Some sid) \<Rightarrow>
                         if js_type port \<noteq> cJSON_Number \<or> js_type udpport \<noteq> cJSON_Number \<or> \<not> is_text sid \<or> \<not> is_text dn
                         then (mkernel_internal_get_error_json, info, False)
                         else (case cJSON_GetObjectItem (Some d) ''Address'' of
                            None \<Rightarrow> (mkernel_internal_get_error_json, info, True)
                          | Some addr \<Rightarrow>
                              if \<not> is_text addr then (mkernel_internal_get_error_json, info, False)
                              else
                                let av = the (js_valuestring addr); dv = the (js_valuestring dn); sv = the (js_valuestring sid) in
                                if length av \<ge> ezdev_sdk_ip_max_len
                                then (mkernel_internal_platform_appoint_error, info, False)
                                else
                                  let i1 = info\<lparr>das_address := strncpy av (length av)\<rparr> in
                                  if length dv \<ge> ezdev_sdk_ip_max_len
                                  then (mkernel_internal_platform_appoint_error, i1, False)
                                  else
                                    let i2 = i1\<lparr>das_domain := strncpy dv (length dv)\<rparr> in
                                    if length sv \<ge> ezdev_sdk_name_len
                                    then (mkernel_internal_platform_appoint_error, i2, False)
                                    else (mkernel_internal_succ,
                                          i2\<lparr>das_serverid := strncpy sv (length sv), das_port := of_int (js_valueint port),
                                             das_udp_port := of_int (js_valueint udpport)\<rparr>, False))
                     | _ \<Rightarrow> (mkernel_internal_get_error_json, info, False)))))"

definition parse_crypto_data_rsp_das :: "libs \<Rightarrow> uint32 \<Rightarrow> das_info \<Rightarrow> lbs_state
    \<Rightarrow> (mkernel_internal_error \<times> das_info) \<times> lbs_state" where
  "parse_crypto_data_rsp_das L remain_len info s =
     (case s of (a0, w) \<Rightarrow>
       let a = in_skip 3 a0; a1 = in_skip 1 a in
       if result_code a \<noteq> 0 then ((mkernel_internal_platform_error + result_code a, info), (a1, w))
       else
         let en_src_len = remain_len - payload_buf_off (global_in_packet a1) in
         case w_malloc w of (ok, w1) \<Rightarrow>
         if \<not> ok then ((mkernel_internal_malloc_error, info), (a1, w1))
         else (case aes_cbc_128_dec_padding (lib_tls L) (a_session_key a1) (in_read (unat en_src_len) a1) of
           (e, de_dst, _) \<Rightarrow>
             if e \<noteq> mkernel_internal_succ then ((e, info), (a1, w_free w1))
             else (case json_parse_das_server_info L de_dst info of (e1, info1, null_read) \<Rightarrow>
               ((e1, info1), (a1, w_free (faulty null_read w1))))))"

definition wait_crypto_data_rsp_das :: "libs \<Rightarrow> lbs_state \<Rightarrow> (mkernel_internal_error \<times> das_info) \<times> lbs_state" where
  "wait_crypto_data_rsp_das L s =
     (case wait_assign_response s of ((e, rev_cmd, remain_len), s1) \<Rightarrow>
       if e \<noteq> mkernel_internal_succ then ((e, zero_das_info), s1)
       else if rev_cmd \<noteq> DEV_PROTOCOL_CRYPTO_DATA_RSP then ((mkernel_internal_net_read_error_request, zero_das_info), s1)
       else parse_crypto_data_rsp_das L remain_len zero_das_info s1)"

section \<open>Connecting\<close>

definition lbs_connect :: "lbs_state \<Rightarrow> mkernel_internal_error \<times> lbs_state" where
  "lbs_connect s =
     (case s of (a, w) \<Rightarrow>
       let finish = (\<lambda>a ip w. (mkernel_internal_succ, (a, upd_kernel (\<lambda>k. k\<lparr>server_info :=
              (server_info k)\<lparr>server_ip := strncpy ip (ezdev_sdk_ip_max_len - 1)\<rparr>\<rparr>) w)))
       in case net_create w of (fd, w1) \<Rightarrow>
         if fd = - 1 then (mkernel_internal_net_connect_error, (a\<lparr>a_socket_fd := - 1\<rparr>, w1))
         else (case net_connect fd (server_name (server_info (kernel w1))) (server_port (server_info (kernel w1))) w1 of
           ((e, ip), w2) \<Rightarrow>
             if e = mkernel_internal_succ then finish (a\<lparr>a_socket_fd := fd\<rparr>) ip w2
             else (case net_create (net_disconnect fd w2) of (fd2, w3) \<Rightarrow>
               let a2 = a\<lparr>a_socket_fd := fd2\<rparr> in
               if fd2 = - 1 then (mkernel_internal_net_connect_error, (a2, w3))
               else if server_ip (server_info (kernel w3)) = [] then (e, (a2, w3))
               else (case net_connect fd2 (server_ip (server_info (kernel w3))) (server_port (server_info (kernel w3))) w3 of
                 ((e2, ip2), w4) \<Rightarrow>
                   if e2 \<noteq> mkernel_internal_succ
                   then (if e2 \<noteq> mkernel_internal_net_gethostbyname_error then mkernel_internal_net_connect_error else e2,
                         (a2, w4))
                   else finish a2 ip2 w4))))"

definition lbs_close :: "lbs_state \<Rightarrow> lbs_state" where
  "lbs_close s = (case s of (a, w) \<Rightarrow>
     if a_socket_fd a \<noteq> - 1 then (a\<lparr>a_socket_fd := - 1\<rparr>, net_disconnect (a_socket_fd a) w) else s)"

section \<open>Entry points\<close>

text \<open>The last exchange, common to the three: ask for the access server and store the results.\<close>

definition finish_redirect :: "libs \<Rightarrow> lbs_state \<Rightarrow> mkernel_internal_error \<times> lbs_state" where
  "finish_redirect L s =
     then_ok (send_crypto_data_req L 1 (clear_lbs_affair_buf s)) (\<lambda>s1.
       case wait_crypto_data_rsp_das L s1 of ((e, info), s2) \<Rightarrow>
         if e \<noteq> mkernel_internal_succ then (e, s2)
         else (mkernel_internal_succ, (fst s2, save_das_info info (save_key_value s2))))"

text \<open>\<^verbatim>\<open>lbs_close\<close> and \<^verbatim>\<open>fini_lbs_affair\<close> at the end of each.\<close>

definition end_affair :: "mkernel_internal_error \<times> lbs_state \<Rightarrow> mkernel_internal_error \<times> world" where
  "end_affair r = (case r of (e, s) \<Rightarrow> (e, snd (fini_lbs_affair (lbs_close s))))"

text \<open>The frame of the two entry points that authenticate: the context is allocated and freed around the exchange.\<close>

definition with_ecdh_ctx :: "(world \<Rightarrow> mkernel_internal_error \<times> world) \<Rightarrow> world \<Rightarrow> mkernel_internal_error \<times> world" where
  "with_ecdh_ctx body w =
     (if dev_cur_auth_type (kernel w) \<noteq> 1 then (mkernel_internal_internal_err, w)
      else (case w_malloc w of (ok, w1) \<Rightarrow>
        if \<not> ok then (mkernel_internal_mem_lack, w1)
        else (case body (upd_kernel (\<lambda>k. k\<lparr>dev_last_auth_type := dev_cur_auth_type k\<rparr>) w1) of (e, w2) \<Rightarrow>
          if dev_last_auth_type (kernel w2) \<noteq> 1 then (mkernel_internal_internal_err, w2)
          else (e, w_free w2))))"

definition lbs_redirect_with_auth :: "libs \<Rightarrow> lbs_crypto \<Rightarrow> bool \<Rightarrow> world \<Rightarrow> mkernel_internal_error \<times> world" where
  "lbs_redirect_with_auth L T nUpper =
     with_ecdh_ctx (\<lambda>w. end_affair (
       then_ok (init_lbs_affair T nUpper (zero_affair, w)) (\<lambda>s1.
       then_ok (lbs_connect s1) (\<lambda>s2.
       then_ok (send_authentication_i L T s2) (\<lambda>s3.
       then_ok (wait_authentication_ii L T s3) (\<lambda>s4.
       then_ok (send_update_sessionkey_req T (clear_lbs_affair_buf s4)) (\<lambda>s5.
       then_ok (wait_update_sessionkey_rsp L T s5) (finish_redirect L))))))))"

definition lbs_redirect_createdevid_with_auth :: "libs \<Rightarrow> lbs_crypto \<Rightarrow> bool \<Rightarrow> world
    \<Rightarrow> mkernel_internal_error \<times> world" where
  "lbs_redirect_createdevid_with_auth L T nUpper =
     with_ecdh_ctx (\<lambda>w. end_affair (
       then_ok (init_lbs_affair T nUpper (zero_affair, w)) (\<lambda>s1.
       then_ok (lbs_connect s1) (\<lambda>s2.
       then_ok (send_authentication_i L T s2) (\<lambda>s3.
       then_ok (wait_authentication_ii L T s3) (\<lambda>s4.
       then_ok (send_authentication_creat_dev_id T (clear_lbs_affair_buf s4)) (\<lambda>s5.
       then_ok (wait_authentication_creat_dev_id L T s5) (finish_redirect L))))))))"

definition lbs_redirect :: "libs \<Rightarrow> lbs_crypto \<Rightarrow> world \<Rightarrow> mkernel_internal_error \<times> world" where
  "lbs_redirect L T w =
     end_affair (
       then_ok (init_lbs_affair T True (zero_affair, w)) (\<lambda>s1.
       then_ok (lbs_connect s1) (\<lambda>s2.
       then_ok (send_refreshsessionkey_i L s2) (\<lambda>s3.
       then_ok (wait_refreshsessionkey_ii L s3) (\<lambda>s4.
       then_ok (send_refreshsessionkey_iii L (clear_lbs_affair_buf s4)) (finish_redirect L))))))"

text \<open>The protocol as the access state machine sees it.\<close>

definition lbs_transport :: "libs \<Rightarrow> lbs_crypto \<Rightarrow> lbs_ops" where
  "lbs_transport L T = \<lparr>createdevid_op = lbs_redirect_createdevid_with_auth L T,
     auth_op = lbs_redirect_with_auth L T, refresh_op = lbs_redirect L T\<rparr>"

end
