(* ===== verification/Lbs_Effects.thy ===== *)
theory Lbs_Effects
  imports Lbs_Transport
begin

text \<open>
  What a run of the load balancer protocol leaves behind. Two functions of the state are
  followed through all steps: everything in the world that the protocol does not own, and
  the balance of sockets opened and closed. A step that keeps both is a rewrite rule, so
  that a whole exchange is handled by simplification. The memory balance is treated the
  same way.
\<close>

section \<open>The parts the protocol does not own\<close>

definition lbs_rest :: "world \<Rightarrow> world" where
  "lbs_rest w = w\<lparr>plat := [], net_ops := [], w_mem := \<lparr>answers = [], live = 0\<rparr>, w_fault := False,
     kernel := (kernel w)\<lparr>server_info := (server_info (kernel w))\<lparr>server_ip := []\<rparr>, dev_cur_auth_type := 0\<rparr>\<rparr>"

fun sock_count :: "int \<Rightarrow> net_op \<Rightarrow> int" where
  "sock_count fd (Sock_open g) = of_bool (g = fd)"
| "sock_count fd (Sock_close g) = - of_bool (g = fd)"
| "sock_count fd _ = 0"

text \<open>Opened minus closed, for a descriptor, over a trace.\<close>

definition sock_open :: "net_op list \<Rightarrow> int \<Rightarrow> int" where
  "sock_open ps fd = (\<Sum>p\<leftarrow>ps. sock_count fd p)"

text \<open>The same without the socket the transaction holds.\<close>

definition sock_bal :: "lbs_state \<Rightarrow> int \<Rightarrow> int" where
  "sock_bal s fd = sock_open (net_ops (snd s)) fd - of_bool (a_socket_fd (fst s) = fd \<and> fd \<noteq> - 1)"

definition env_sig :: "lbs_state \<Rightarrow> world \<times> (int \<Rightarrow> int)" where
  "env_sig s = (lbs_rest (snd s), sock_bal s)"

lemma sock_open_append [simp]: "sock_open (ps @ qs) fd = sock_open ps fd + sock_open qs fd"
  by (simp add: sock_open_def)

lemma sock_open_Nil [simp]: "sock_open [] fd = 0"
  by (simp add: sock_open_def)

lemma lbs_rest_simps [simp]:
  "lbs_rest (w\<lparr>w_mem := m\<rparr>) = lbs_rest w" "lbs_rest (w\<lparr>w_fault := f\<rparr>) = lbs_rest w"
  "lbs_rest (w\<lparr>plat := p\<rparr>) = lbs_rest w" "lbs_rest (w\<lparr>net_ops := n\<rparr>) = lbs_rest w"
  by (simp_all add: lbs_rest_def)

lemma lbs_rest_upd [simp]:
  "lbs_rest (upd_kernel (\<lambda>k. k\<lparr>dev_cur_auth_type := c k\<rparr>) w) = lbs_rest w"
  "lbs_rest (upd_kernel (\<lambda>k. k\<lparr>server_info := (server_info k)\<lparr>server_ip := i k\<rparr>\<rparr>) w) = lbs_rest w"
  "net_ops (upd_kernel f w) = net_ops w"
  by (simp_all add: lbs_rest_def upd_kernel_def)

lemma lbs_rest_mem_ops [simp]:
  "lbs_rest (w_free w) = lbs_rest w" "lbs_rest (w_frees n w) = lbs_rest w" "lbs_rest (faulty b w) = lbs_rest w"
  "lbs_rest (w_json_delete j w) = lbs_rest w" "net_ops (w_free w) = net_ops w" "net_ops (w_frees n w) = net_ops w"
  "net_ops (faulty b w) = net_ops w" "net_ops (w_json_delete j w) = net_ops w"
  by (simp_all add: w_free_def w_frees_def faulty_def w_json_delete_def)

lemma env_sig_malloc: "w_malloc w = (ok, w') \<Longrightarrow> lbs_rest w' = lbs_rest w \<and> net_ops w' = net_ops w"
  by (auto simp: w_malloc_def split: prod.splits)

lemma env_sig_json: "w_json f w = (r, w') \<Longrightarrow> lbs_rest w' = lbs_rest w \<and> net_ops w' = net_ops w"
  by (auto simp: w_json_def split: prod.splits)

lemma env_sig_plat: "plat_call w = (r, w') \<Longrightarrow> lbs_rest w' = lbs_rest w \<and> net_ops w' = net_ops w"
  by (auto simp: plat_call_def split: list.splits)

lemma net_step_rest:
  assumes "net_step ps w w'"
  shows "lbs_rest w' = lbs_rest w" "net_ops w' = net_ops w @ ps" "kernel w' = kernel w" "w_mem w' = w_mem w"
  using assms by (auto simp: net_step_def)

lemma env_sigI:
  assumes "lbs_rest (snd s') = lbs_rest (snd s)" and "net_ops (snd s') = net_ops (snd s)"
    and "a_socket_fd (fst s') = a_socket_fd (fst s)"
  shows "env_sig s' = env_sig s"
  using assms by (auto simp: env_sig_def sock_bal_def fun_eq_iff)

lemma pair_pair: obtains a b c d where "x = ((a, b), (c, d))"
  by (metis prod.collapse)

text \<open>Changes of the transaction other than of its socket.\<close>

lemma socket_fd_simps [simp]:
  "a_socket_fd (upd_out f a) = a_socket_fd a" "a_socket_fd (upd_in f a) = a_socket_fd a"
  "a_socket_fd (in_skip n a) = a_socket_fd a" "a_socket_fd (generate_sharekey T k u a) = a_socket_fd a"
  by (simp_all add: upd_out_def upd_in_def in_skip_def generate_sharekey_def Let_def)

lemma then_ok_sig:
  assumes "\<And>s. F (snd (f s)) = F s"
  shows "F (snd (then_ok r f)) = F (snd r)"
  using assms by (simp add: then_ok_def split: prod.splits)

section \<open>Every step keeps them\<close>

lemma sig_put_payload [simp]: "env_sig (put_payload bs s) = env_sig s"
  by (rule env_sigI) (simp_all add: put_payload_def Let_def split: prod.splits)

lemma sig_common [simp]: "env_sig (snd (common_serialize x y z s)) = env_sig s"
  by (simp add: common_serialize_def Let_def)

lemma sig_sign [simp]: "env_sig (snd (digital_sign_serialize_sha384 T b m s)) = env_sig s"
  by (simp add: digital_sign_serialize_sha384_def Let_def split: prod.splits)

lemma sig_header [simp]:
  "env_sig (snd (new_header c s)) = env_sig s" "env_sig (snd (old_header c s)) = env_sig s"
  by (auto simp: new_header_def old_header_def with_header_def intro!: env_sigI split: prod.splits)

lemma sig_net_step:
  assumes "net_step ps w w'" and "\<And>fd. sock_open ps fd = 0"
  shows "env_sig (a, w') = env_sig (a, w)"
  using net_step_rest [OF assms(1)] assms(2) by (simp add: env_sig_def sock_bal_def fun_eq_iff)

lemma sig_net_write: "net_write fd b w = ((e, n), w') \<Longrightarrow> env_sig (a, w') = env_sig (a, w)"
  by (rule sig_net_step [OF net_write_step]) (auto simp: sock_open_def)

lemma sig_net_read: "net_read fd k w = ((e, bs), w') \<Longrightarrow> env_sig (a, w') = env_sig (a, w)"
  by (rule sig_net_step [OF net_read_step]) simp_all

lemma sig_send [simp]: "env_sig (snd (send_lbs_msg s)) = env_sig s"
proof (cases s)
  case (Pair a w)
  let ?p = "global_out_packet a" and ?fd = "a_socket_fd a"
  let ?b = "buf_get (written (head_buf ?p) 1) 0"
  obtain e1 n1 w1 where 1: "net_write ?fd (written (head_buf ?p) (head_buf_off ?p)) w = ((e1, n1), w1)"
    by (metis prod.collapse)
  obtain e2 n2 w2 where 2: "(if drop_bit 4 ?b = 1 \<and> drop_bit 3 (?b AND 0x08) = 1
      then net_write ?fd (written (var_head_buf ?p) (var_head_buf_off ?p)) w1 else ((mkernel_internal_succ, 0), w1)) =
      ((e2, n2), w2)" by (metis prod.collapse)
  obtain e3 n3 w3 where 3: "net_write ?fd (buf_read (payload_buf ?p) 0 (unat (payload_buf_off ?p))) w2 = ((e3, n3), w3)"
    by (metis prod.collapse)
  have s1: "env_sig (a, w1) = env_sig (a, w)" using 1 by (rule sig_net_write)
  have s2: "env_sig (a, w2) = env_sig (a, w1)" using 2 sig_net_write by (auto split: if_splits)
  have s3: "env_sig (a, w3) = env_sig (a, w2)" using 3 by (rule sig_net_write)
  have "send_lbs_msg s = (if e1 \<noteq> mkernel_internal_succ then (e1, (a, w1))
      else if e2 \<noteq> mkernel_internal_succ then (e2, (a, w2)) else (e3, (a, w3)))"
    by (simp only: send_lbs_msg_def Pair Let_def prod.case 1 2 3)
  with s1 s2 s3 Pair show ?thesis by simp
qed

lemma sig_send_unchecked [simp]: "env_sig (snd (send_unchecked s)) = env_sig s"
  by (simp add: send_unchecked_def)

lemma sig_remain_loop: "remain_loop fd m n w = ((e, l, b), w') \<Longrightarrow> env_sig (a, w') = env_sig (a, w)"
proof (induction fd m n w rule: remain_loop.induct)
  case (1 fd m n w)
  obtain e1 bs w1 where r: "net_read fd 1 w = ((e1, bs), w1)" by (metis prod.collapse)
  from "1.prems" have p: "(if e1 \<noteq> mkernel_internal_succ then ((e1, n, 0), w1)
      else if hd bs AND 0x80 \<noteq> 0 then remain_loop fd (m * 128) (n + ucast (hd bs AND 0x7F) * m) w1
      else ((mkernel_internal_succ, n + ucast (hd bs AND 0x7F) * m, hd bs), w1)) = ((e, l, b), w')"
    by (subst (asm) remain_loop.simps) (simp only: r prod.case Let_def)
  with "1.IH" [OF r [symmetric] refl _ refl refl] sig_net_read [OF r] show ?case by (auto split: if_splits)
qed

lemma sig_affair: "a_socket_fd a' = a_socket_fd a \<Longrightarrow> env_sig (a', w) = env_sig (a, w)"
  by (rule env_sigI) simp_all

lemma sig_var_head: "take_var_head c b l s = (r, s') \<Longrightarrow> env_sig s' = env_sig s"
proof (cases s)
  case (Pair a w)
  obtain e bs w1 where r: "net_read (a_socket_fd a) 1 w = ((e, bs), w1)" by (metis prod.collapse)
  assume "take_var_head c b l s = (r, s')"
  then show ?thesis
    using trans [OF sig_affair sig_net_read [OF r]]
    by (auto simp: Pair take_var_head_def r Let_def simp del: One_nat_def split: if_splits)
qed

lemma sig_wait [simp]: "env_sig (snd (wait_assign_response s)) = env_sig s"
proof (cases s)
  case (Pair a w)
  let ?fd = "a_socket_fd a"
  obtain e1 b1 w1 where 1: "net_read ?fd 1 w = ((e1, b1), w1)" by (metis prod.collapse)
  obtain e2 l b2 w2 where 2: "remain_loop ?fd 1 0 w1 = ((e2, l, b2), w2)" by (metis prod.collapse)
  let ?a1 = "upd_in (\<lambda>p. p\<lparr>head_buf := map_option (\<lambda>h. buf_write h 0 [hd b1, b2]) (head_buf p)\<rparr>) a"
  obtain e4 l4 a4 w4 where 3: "take_var_head (ucast (drop_bit 4 (hd b1))) (hd b1) l (?a1, w2) = ((e4, l4), (a4, w4))"
    by (rule pair_pair)
  obtain e5 bs w5 where 4: "net_read (a_socket_fd a4) (unat l4) w4 = ((e5, bs), w5)" by (metis prod.collapse)
  let ?a5 = "upd_in (\<lambda>p. p\<lparr>payload_buf := buf_write (payload_buf p) 0 bs\<rparr>) a4"
  have s1: "env_sig (a, w1) = env_sig (a, w)" using 1 by (rule sig_net_read)
  have s2: "env_sig (a, w2) = env_sig (a, w1)" using 2 by (rule sig_remain_loop)
  have s3: "env_sig (a4, w4) = env_sig (a, w2)" using sig_var_head [OF 3] sig_affair [of ?a1 a] by simp
  have s4: "env_sig (?a5, w5) = env_sig (a4, w4)" using sig_net_read [OF 4, of a4] sig_affair [of ?a5 a4] by simp
  have "snd (wait_assign_response s) = (if e1 \<noteq> mkernel_internal_succ then (a, w1)
      else if e2 \<noteq> mkernel_internal_succ then (a, w2) else if e4 \<noteq> mkernel_internal_succ then (a4, w4) else (?a5, w5))"
    by (simp only: wait_assign_response_def Pair Let_def prod.case 1 2 3 4 snd_conv if_distrib [of snd])
  with s1 s2 s3 s4 Pair show ?thesis by simp
qed

section \<open>The messages\<close>

lemma sig_clear [simp]: "env_sig (clear_lbs_affair_buf s) = env_sig s"
  by (rule env_sigI) (simp_all add: clear_lbs_affair_buf_def split: prod.splits)

lemma sig_auth_i [simp]: "env_sig (snd (authentication_i_serialize s)) = env_sig s"
  by (simp add: authentication_i_serialize_def Let_def)

lemma sig_append_pubkey [simp]: "env_sig (append_pubkey L T s) = env_sig s"
proof -
  have "env_sig s' = env_sig s" if "aes_128_encrypt_pubkey L k s = (r, s')" for k r s'
    using that by (auto simp: aes_128_encrypt_pubkey_def intro!: env_sigI split: prod.splits if_splits
        dest: env_sig_malloc)
  then show ?thesis
    by (auto simp: append_pubkey_def append_encrypt_data_def split: prod.splits)
qed

lemma sig_send_auth_i [simp]: "env_sig (snd (send_authentication_i L T s)) = env_sig s"
  unfolding send_authentication_i_def by (simp add: then_ok_sig [of env_sig])

lemma sig_decrypt_peer: "aes_128_decrypt_peer_pubkey L n tag s = (r, s') \<Longrightarrow> env_sig s' = env_sig s"
  by (auto simp: aes_128_decrypt_peer_pubkey_def Let_def intro!: env_sigI split: prod.splits if_splits)

lemma sig_parse_ii [simp]: "env_sig (snd (parse_authentication_ii L T n s)) = env_sig s"
proof (cases s)
  case (Pair a w)
  let ?a = "in_skip 3 a" and ?a1 = "in_skip 1 (in_skip 3 a)"
  obtain e pk a3 w1 where 1: "aes_128_decrypt_peer_pubkey L n (in_read 16 ?a1) (in_skip 16 ?a1, w) = ((e, pk), (a3, w1))"
    by (rule pair_pair)
  obtain e1 secret where 2: "ezdev_generate_masterkey T (ecdh_priv T) pk = (e1, secret)" by fastforce
  have s: "env_sig (b, w) = env_sig (a, w)" if "b \<in> {?a, ?a1, in_skip 16 ?a1}" for b
    using that by (auto intro: sig_affair)
  have s3: "env_sig (a3, w1) = env_sig (a, w)" using sig_decrypt_peer [OF 1] s by simp
  moreover have "env_sig (a3\<lparr>a_master_key := k\<rparr>, faulty f w1) = env_sig (a3, w1)" for k f
    by (rule env_sigI) simp_all
  ultimately show ?thesis
    unfolding Pair parse_authentication_ii_def Let_def prod.case 1 2
    by (simp only: s insertI1 insertI2 if_distrib [of env_sig] if_distrib [of snd] snd_conv if_cancel)
qed

lemma sig_wait_ii [simp]: "env_sig (snd (wait_authentication_ii L T s)) = env_sig s"
proof -
  obtain e c n s1 where 1: "wait_assign_response s = ((e, c, n), s1)" by (metis prod.collapse)
  obtain e1 a w where 2: "parse_authentication_ii L T n s1 = (e1, (a, w))" by (metis prod.collapse)
  have "env_sig s1 = env_sig s" "env_sig (a, w) = env_sig s1"
    using sig_wait [of s] sig_parse_ii [of L T n s1] 1 2 by simp_all
  moreover have "env_sig (a, upd_kernel (\<lambda>k. k\<lparr>dev_cur_auth_type := t\<rparr>) w) = env_sig (a, w)" for t
    by (rule env_sigI) simp_all
  ultimately show ?thesis by (simp add: wait_authentication_ii_def 1 2)
qed

lemma sig_session_req [simp]:
  "env_sig (snd (send_update_sessionkey_req T s)) = env_sig s"
  "env_sig (snd (send_authentication_creat_dev_id T s)) = env_sig s"
  by (simp_all add: send_update_sessionkey_req_def send_authentication_creat_dev_id_def send_sessionkey_req_serialize_def
      authentication_iii_serialize_serial_sha384_def then_ok_sig [of env_sig])

lemma open_field_socket: "open_field L n a = (r, a') \<Longrightarrow> a_socket_fd a' = a_socket_fd a"
  by (auto simp: open_field_def Let_def split: prod.splits if_splits)

lemma create_dev_id_socket:
  "parse_authentication_create_dev_id L T n a = (e, a') \<Longrightarrow> a_socket_fd a' = a_socket_fd a"
  by (auto simp: parse_authentication_create_dev_id_def Let_def split: prod.splits if_splits dest!: open_field_socket)

lemma refresh_ii_socket: "parse_refreshsessionkey_ii L n a = (e, a') \<Longrightarrow> a_socket_fd a' = a_socket_fd a"
  by (auto simp: parse_refreshsessionkey_ii_def Let_def split: prod.splits if_splits)

lemma sig_on_affair:
  "(\<And>a e a'. f a = (e, a') \<Longrightarrow> a_socket_fd a' = a_socket_fd a) \<Longrightarrow> env_sig (snd (on_affair f s)) = env_sig s"
  by (auto simp: on_affair_def intro!: env_sigI split: prod.splits)

lemma sig_wait_reply:
  assumes "\<And>n s. env_sig (snd (parse n s)) = env_sig s"
  shows "env_sig (snd (wait_reply c parse s)) = env_sig s"
proof -
  obtain e c' n s1 where 1: "wait_assign_response s = ((e, c', n), s1)" by (metis prod.collapse)
  with sig_wait [of s] assms show ?thesis by (simp add: wait_reply_def)
qed

lemma sig_wait_replies [simp]:
  "env_sig (snd (wait_update_sessionkey_rsp L T s)) = env_sig s"
  "env_sig (snd (wait_authentication_creat_dev_id L T s)) = env_sig s"
  "env_sig (snd (wait_refreshsessionkey_ii L s)) = env_sig s"
  unfolding wait_update_sessionkey_rsp_def wait_authentication_creat_dev_id_def wait_refreshsessionkey_ii_def
  by (rule sig_wait_reply, rule sig_on_affair, erule create_dev_id_socket refresh_ii_socket)+

lemma sig_encrypt_random [simp]: "env_sig (snd (encrypt_random L r s)) = env_sig s"
  by (simp add: encrypt_random_def split: prod.splits)

lemma sig_refresh [simp]:
  "env_sig (snd (send_refreshsessionkey_i L s)) = env_sig s"
  "env_sig (snd (send_refreshsessionkey_iii L s)) = env_sig s"
  "env_sig (snd (send_stun_refreshsessionkey_iii L s)) = env_sig s"
  by (simp_all add: send_refreshsessionkey_i_def send_refreshsessionkey_iii_def send_stun_refreshsessionkey_iii_def
      refreshsessionkey_i_serialize_def refreshsessionkey_iii_serialize_def Let_def then_ok_sig [of env_sig])

lemma sig_crypto [simp]: "env_sig (snd (crypto_data_serialize L items s)) = env_sig s"
proof (cases s)
  case (Pair a w)
  show ?thesis
    unfolding Pair crypto_data_serialize_def cJSON_PrintUnformatted_def
    by (auto simp: Let_def intro!: env_sigI split: prod.splits option.splits if_splits
        dest!: env_sig_malloc env_sig_json)
       (auto simp: put_payload_def Let_def)
qed

lemma sig_send_crypto [simp]: "env_sig (snd (send_crypto_data_req L ty s)) = env_sig s"
  by (simp add: send_crypto_data_req_def crypto_data_req_stun_serialize_def crypto_data_req_das_serialize_def
      then_ok_sig [of env_sig])

lemma sig_parse_crypto [simp]: "env_sig (snd (parse_crypto_data_rsp_das L n info s)) = env_sig s"
proof (cases s)
  case (Pair a w)
  show ?thesis
    unfolding Pair parse_crypto_data_rsp_das_def
    by (auto simp: Let_def intro!: env_sigI split: prod.splits if_splits dest!: env_sig_malloc)
qed

lemma sig_wait_crypto [simp]: "env_sig (snd (wait_crypto_data_rsp_das L s)) = env_sig s"
proof -
  obtain e c n s1 where 1: "wait_assign_response s = ((e, c, n), s1)" by (metis prod.collapse)
  with sig_wait [of s] show ?thesis by (simp add: wait_crypto_data_rsp_das_def)
qed

lemma sig_connect:
  assumes "a_socket_fd (fst s) = - 1"
  shows "env_sig (snd (lbs_connect s)) = env_sig s"
proof (cases s)
  case (Pair a w)
  have a: "a_socket_fd a = - 1" using assms Pair by simp
  obtain fd w1 where 1: "net_create w = (fd, w1)" by fastforce
  obtain e ip w2 where 2: "net_connect fd (server_name (server_info (kernel w1))) (server_port (server_info (kernel w1))) w1 =
      ((e, ip), w2)" by (metis prod.collapse)
  obtain fd2 w3 where 3: "net_create (net_disconnect fd w2) = (fd2, w3)" by fastforce
  obtain e2 ip2 w4 where 4: "net_connect fd2 (server_ip (server_info (kernel w3))) (server_port (server_info (kernel w3))) w3 =
      ((e2, ip2), w4)" by (metis prod.collapse)
  have c: "net_create v = (f, v') \<Longrightarrow> env_sig (a\<lparr>a_socket_fd := f\<rparr>, v') = env_sig (a, v)" for v f v'
    using net_step_rest [OF net_create_step, of v f v'] a
    by (auto simp: env_sig_def sock_bal_def sock_open_def fun_eq_iff split: if_splits)
  have k: "net_connect f h p v = ((x, i), v') \<Longrightarrow> env_sig (b, v') = env_sig (b, v)" for f h p v x i v' b
  proof -
    assume "net_connect f h p v = ((x, i), v')"
    from net_connect_step [OF this] obtain ps where ps: "set ps \<subseteq> {Sock_connect f h p}" "net_step ps v v'" by blast
    have "sock_count fd p = 0" if "p \<in> set ps" for fd p using ps(1) that by auto
    then have "sock_open ps fd = 0" for fd by (simp add: sock_open_def cong: map_cong)
    then show ?thesis using ps(2) by (rule sig_net_step [rotated])
  qed
  have d: "env_sig (a, net_disconnect f v) = env_sig (a\<lparr>a_socket_fd := f\<rparr>, v)" if "f \<noteq> - 1" for f v
    using net_step_rest [OF net_disconnect_step, of f v] a that
    by (auto simp: env_sig_def sock_bal_def sock_open_def fun_eq_iff)
  have u: "env_sig (b, upd_kernel (\<lambda>k. k\<lparr>server_info := (server_info k)\<lparr>server_ip := i\<rparr>\<rparr>) v) = env_sig (b, v)" for b i v
    by (rule env_sigI) simp_all
  show ?thesis
    using c [OF 1] k [OF 2] c [OF 3] k [OF 4] d [of fd w2] u
    unfolding Pair lbs_connect_def by (auto simp: 1 2 3 4 Let_def)
qed

section \<open>Entry points\<close>

text \<open>What a successful exchange stores.\<close>

definition stored :: "lbs_affair \<Rightarrow> das_info \<Rightarrow> world \<Rightarrow> world" where
  "stored a info w = save_das_info info (save_key_value (a, w))"

lemma lbs_rest_stored: "lbs_rest (stored a info w) = stored a info (lbs_rest w)"
  by (simp add: lbs_rest_def stored_def save_das_info_def save_key_value_def upd_kernel_def)

lemma net_ops_stored [simp]: "net_ops (stored a info w) = net_ops w" "w_mem (stored a info w) = w_mem w"
  by (simp_all add: stored_def save_das_info_def save_key_value_def upd_kernel_def)

text \<open>
  The effect of a sequence on the parts it does not own: nothing, or on success the keys
  and the address as a whole.
\<close>

definition lbs_effect :: "mkernel_internal_error \<Rightarrow> world \<Rightarrow> world \<Rightarrow> bool" where
  "lbs_effect e w w' \<longleftrightarrow>
     (if e = mkernel_internal_succ then \<exists>a info. lbs_rest w' = stored a info (lbs_rest w)
      else lbs_rest w' = lbs_rest w)"

definition run_effect :: "lbs_state \<Rightarrow> mkernel_internal_error \<times> lbs_state \<Rightarrow> bool" where
  "run_effect s r \<longleftrightarrow> lbs_effect (fst r) (snd s) (snd (snd r)) \<and> sock_bal (snd r) = sock_bal s"

lemma run_effect_finish: "run_effect s (finish_redirect L s)"
proof -
  obtain e1 s1 where 1: "send_crypto_data_req L 1 (clear_lbs_affair_buf s) = (e1, s1)" by (rule prod.exhaust)
  obtain e info a w where 2: "wait_crypto_data_rsp_das L s1 = ((e, info), (a, w))" by (rule pair_pair)
  have s1: "env_sig s1 = env_sig s" using sig_send_crypto [of L 1 "clear_lbs_affair_buf s"] 1 by simp
  have s2: "env_sig (a, w) = env_sig s" using sig_wait_crypto [of L s1] 2 s1 by simp
  have b: "sock_bal (a, stored a info w) = sock_bal (a, w)" by (simp add: sock_bal_def fun_eq_iff)
  have "finish_redirect L s = (if e1 \<noteq> mkernel_internal_succ then (e1, s1)
      else if e \<noteq> mkernel_internal_succ then (e, (a, w)) else (mkernel_internal_succ, (a, stored a info w)))"
    unfolding finish_redirect_def by (simp add: 1 2 then_ok_def stored_def)
  with s1 s2 b show ?thesis
    by (auto simp: run_effect_def lbs_effect_def env_sig_def lbs_rest_stored)
qed

lemma run_effect_then:
  assumes "env_sig (snd r) = env_sig s" and "\<And>s'. env_sig s' = env_sig s \<Longrightarrow> run_effect s' (f s')"
    and "fst r \<noteq> mkernel_internal_succ \<or> env_sig (snd r) = env_sig s"
  shows "run_effect s (then_ok r f)"
  using assms(1) assms(2) [of "snd r"]
  by (auto simp: then_ok_def run_effect_def lbs_effect_def env_sig_def split: prod.splits)

text \<open>The exchanges from an open transaction on.\<close>

lemma run_effect_auth:
  assumes "\<And>s. env_sig (snd (req s)) = env_sig s" and "\<And>s. env_sig (snd (rsp s)) = env_sig s"
    and "a_socket_fd (fst s) = - 1"
  shows "run_effect s (then_ok (lbs_connect s) (\<lambda>s2. then_ok (send_authentication_i L T s2) (\<lambda>s3.
    then_ok (wait_authentication_ii L T s3) (\<lambda>s4. then_ok (req (clear_lbs_affair_buf s4)) (\<lambda>s5.
    then_ok (rsp s5) (finish_redirect L))))))"
  by (intro run_effect_then run_effect_finish disjI2) (simp_all add: assms sig_connect)

lemma run_effect_refresh:
  assumes "a_socket_fd (fst s) = - 1"
  shows "run_effect s (then_ok (lbs_connect s) (\<lambda>s2. then_ok (send_refreshsessionkey_i L s2) (\<lambda>s3.
    then_ok (wait_refreshsessionkey_ii L s3) (\<lambda>s4.
    then_ok (send_refreshsessionkey_iii L (clear_lbs_affair_buf s4)) (finish_redirect L)))))"
  by (intro run_effect_then run_effect_finish disjI2) (simp_all add: assms sig_connect)

text \<open>
  A transaction that cannot be set up leaves its socket field zero, so that closing it
  closes descriptor 0.
\<close>

lemma init_effect:
  assumes "init_lbs_affair T u (zero_affair, w) = (e, (a, w'))"
  shows "lbs_rest w' = lbs_rest w \<and> net_ops w' = net_ops w \<and>
    (e = mkernel_internal_succ \<and> a_socket_fd a = - 1 \<or> e = mkernel_internal_mem_lack \<and> a_socket_fd a = 0)"
  using assms unfolding init_lbs_affair_def
  by (auto simp: Let_def zero_affair_def split: prod.splits if_splits dest!: env_sig_plat env_sig_malloc)

lemma end_affair_eq:
  "end_affair (e, (a, w)) = (e, w') \<Longrightarrow> lbs_rest w' = lbs_rest w \<and>
     net_ops w' = net_ops w @ (if a_socket_fd a = - 1 then [] else [Sock_close (a_socket_fd a)])"
  by (auto simp: end_affair_def lbs_close_def fini_lbs_affair_def net_disconnect_def net_log_def split: if_splits)

lemma affair_effect:
  assumes "\<And>s. a_socket_fd (fst s) = - 1 \<Longrightarrow> run_effect s (body s)"
    and "end_affair (then_ok (init_lbs_affair T u (zero_affair, w)) body) = (e, w')"
  shows "lbs_effect e w w' \<and> (e = mkernel_internal_mem_lack \<and> net_ops w' = net_ops w @ [Sock_close 0] \<or>
    (\<forall>fd. fd \<noteq> - 1 \<longrightarrow> sock_open (net_ops w') fd = sock_open (net_ops w) fd))"
proof -
  obtain e0 a0 w0 where 0: "init_lbs_affair T u (zero_affair, w) = (e0, (a0, w0))" by (metis prod.collapse)
  note i = init_effect [OF 0]
  show ?thesis
  proof (cases "e0 = mkernel_internal_succ")
    case False
    with i 0 assms(2) have "end_affair (e0, (a0, w0)) = (e, w')" "e0 = mkernel_internal_mem_lack" "a_socket_fd a0 = 0"
      by (auto simp: then_ok_def)
    with end_affair_eq [of e0 a0 w0 w'] i show ?thesis by (auto simp: lbs_effect_def end_affair_def split: prod.splits)
  next
    case True
    with i have s: "a_socket_fd a0 = - 1" by simp
    obtain e1 a1 w1 where 1: "body (a0, w0) = (e1, (a1, w1))" by (metis prod.collapse)
    with True 0 assms(2) have f: "end_affair (e1, (a1, w1)) = (e, w')" "e1 = e"
      by (auto simp: then_ok_def end_affair_def)
    from assms(1) [of "(a0, w0)"] s 1 have r: "lbs_effect e1 w0 w1" "sock_bal (a1, w1) = sock_bal (a0, w0)"
      by (simp_all add: run_effect_def)
    note c = end_affair_eq [of e1 a1 w1 w'] f
    have "lbs_effect e w w'" using r(1) c i by (auto simp: lbs_effect_def)
    moreover have "sock_open (net_ops w') fd = sock_open (net_ops w) fd" if "fd \<noteq> - 1" for fd
      using fun_cong [OF r(2), of fd] c i s that by (auto simp: sock_bal_def sock_open_def split: if_splits)
    ultimately show ?thesis by simp
  qed
qed

text \<open>The two authenticating entry points also note the type of authentication they use.\<close>

definition forget :: "world \<Rightarrow> world" where
  "forget w = upd_kernel (\<lambda>k. k\<lparr>dev_last_auth_type := 0\<rparr>) w"

lemma forget_simps [simp]:
  "forget (w\<lparr>w_mem := m\<rparr>) = (forget w)\<lparr>w_mem := m\<rparr>" "lbs_rest (forget w) = forget (lbs_rest w)"
  "forget (upd_kernel (\<lambda>k. k\<lparr>dev_last_auth_type := c k\<rparr>) w) = forget w"
  "forget (stored a info w) = stored a info (forget w)" "net_ops (forget w) = net_ops w" "forget (forget w) = forget w"
  by (simp_all add: forget_def upd_kernel_def lbs_rest_def stored_def save_das_info_def save_key_value_def)

lemma lbs_effect_forget: "lbs_effect e w w' \<Longrightarrow> lbs_effect e (forget w) (forget w')"
  by (auto simp: lbs_effect_def split: if_splits) blast

lemma dev_last_rest: "lbs_effect e w w' \<Longrightarrow> dev_last_auth_type (kernel w') = dev_last_auth_type (kernel w)"
proof -
  have "dev_last_auth_type (kernel (lbs_rest v)) = dev_last_auth_type (kernel v)" for v by (simp add: lbs_rest_def)
  moreover have "dev_last_auth_type (kernel (stored a info v)) = dev_last_auth_type (kernel v)" for a info v
    by (simp add: stored_def save_das_info_def save_key_value_def)
  ultimately show "lbs_effect e w w' \<Longrightarrow> ?thesis" by (metis lbs_effect_def)
qed

lemma with_ctx_effect:
  assumes "\<And>v e v'. body v = (e, v') \<Longrightarrow> lbs_effect e v v' \<and> P e (net_ops v) (net_ops v')"
    and "with_ecdh_ctx body w = (e, w')" and "\<And>e ps. P e ps ps"
  shows "lbs_effect e (forget w) (forget w') \<and> P e (net_ops w) (net_ops w')"
proof (cases "dev_cur_auth_type (kernel w) = 1 \<and> fst (w_malloc w)")
  case False
  obtain ok w1 where 1: "w_malloc w = (ok, w1)" by fastforce
  from False assms(2) 1 have "(e, w') = (mkernel_internal_internal_err, w) \<or> (e, w') = (mkernel_internal_mem_lack, w1)"
    by (auto simp: with_ecdh_ctx_def split: if_splits)
  with env_sig_malloc [OF 1] assms(3) show ?thesis by (auto simp: lbs_effect_def)
next
  case True
  obtain w1 where 1: "w_malloc w = (True, w1)" using True by (metis prod.collapse)
  let ?w1 = "upd_kernel (\<lambda>k. k\<lparr>dev_last_auth_type := dev_cur_auth_type k\<rparr>) w1"
  obtain e2 w2 where 2: "body ?w1 = (e2, w2)" by fastforce
  have k: "kernel w1 = kernel w" using 1 by (auto simp: w_malloc_def split: prod.splits)
  from assms(1) [OF 2] have b: "lbs_effect e2 ?w1 w2" "P e2 (net_ops w1) (net_ops w2)" by simp_all
  have "dev_last_auth_type (kernel w2) = 1" using dev_last_rest [OF b(1)] True k by simp
  with assms(2) True 1 2 have r: "e = e2" "w' = w_free w2" by (simp_all add: with_ecdh_ctx_def)
  have "lbs_effect e2 (forget w1) (forget w2)" using lbs_effect_forget [OF b(1)] by simp
  with r b(2) env_sig_malloc [OF 1] show ?thesis by (cases "e2 = 0") (simp_all add: lbs_effect_def w_free_def)
qed

lemma redirect_effect:
  assumes "r \<in> {lbs_redirect_with_auth L T u, lbs_redirect_createdevid_with_auth L T u, lbs_redirect L T}"
    and "r w = (e, w')"
  shows "lbs_effect e (forget w) (forget w')" and
    "e = mkernel_internal_mem_lack \<and> net_ops w' = net_ops w @ [Sock_close 0] \<or>
     (\<forall>fd. fd \<noteq> - 1 \<longrightarrow> sock_open (net_ops w') fd = sock_open (net_ops w) fd)"
proof -
  let ?P = "\<lambda>e ps qs. e = mkernel_internal_mem_lack \<and> qs = ps @ [Sock_close 0] \<or>
     (\<forall>fd. fd \<noteq> - 1 \<longrightarrow> sock_open qs fd = sock_open ps fd)"
  have "lbs_effect e (forget w) (forget w') \<and> ?P e (net_ops w) (net_ops w')"
  proof (cases "r = lbs_redirect L T")
    case True
    with assms(2) affair_effect [OF run_effect_refresh, where e = e and w' = w'] show ?thesis
      unfolding lbs_redirect_def by (auto intro: lbs_effect_forget)
  next
    case False
    with assms(1) consider "r = lbs_redirect_with_auth L T u" | "r = lbs_redirect_createdevid_with_auth L T u" by blast
    then show ?thesis
    proof cases
      case 1
      show ?thesis
        by (rule with_ctx_effect [where P = ?P, OF _ assms(2) [unfolded 1 lbs_redirect_with_auth_def]]) (erule affair_effect [rotated], rule run_effect_auth, simp_all)
    next
      case 2
      show ?thesis
        by (rule with_ctx_effect [where P = ?P, OF _ assms(2) [unfolded 2 lbs_redirect_createdevid_with_auth_def]])
          (erule affair_effect [rotated], rule run_effect_auth, simp_all)
    qed
  qed
  then show "lbs_effect e (forget w) (forget w')" "?P e (net_ops w) (net_ops w')" by simp_all
qed

end
