(* ===== verification/Access_Liveness.thy ===== *)
theory Access_Liveness
  imports Kernel_Access
begin

text \<open>
  Progress of the access task: when allocations and network calls succeed and the
  LBS answers, a device registers in two yields and reconnects in one. The lemmas
  follow the login through document construction, encryption, connection and
  subscription and show that no step of it can fail then.
\<close>

section \<open>Documents\<close>

text \<open>All coming allocations and network calls succeed.\<close>

definition friendly :: "world \<Rightarrow> bool" where
  "friendly w \<longleftrightarrow> answers (w_mem w) = [] \<and> net_answers w = []"

text \<open>What registration needs of the libraries: a working cipher and printed documents of sane size.\<close>

definition libs_ok :: "libs \<Rightarrow> byte list \<Rightarrow> bool" where
  "libs_ok L key \<longleftrightarrow> cbc_ok (lib_tls L) key \<and> (\<forall>j. length (cJSON_text (lib_text L) j) < 2 ^ 31)"

lemma friendly_malloc: "friendly w \<Longrightarrow> \<exists>w'. w_malloc w = (True, w') \<and> friendly w' \<and> kernel w' = kernel w \<and> das w' = das w"
  by (simp add: friendly_def w_malloc_def ezos_malloc_def)

lemma friendly_free [simp]: "friendly (w_free w) = friendly w" "friendly (w_json_delete j w) = friendly w"
  by (auto simp: friendly_def w_free_def w_json_delete_def ezos_free_def cJSON_Delete_def ezos_frees_def split: option.splits)

lemma friendly_das [simp]: "friendly (w\<lparr>das := d\<rparr>) = friendly w" "friendly (w\<lparr>kernel := k\<rparr>) = friendly w"
  by (simp_all add: friendly_def)

lemma malloc_Nil: "answers m = [] \<Longrightarrow> ezos_malloc m = (True, m\<lparr>live := live m + 1\<rparr>)"
  by (simp add: ezos_malloc_def)

lemma add_string_ok:
  "answers m = [] \<Longrightarrow> \<exists>t m'. cJSON_AddStringToObject (Some ob) nm s m = (Some t, m') \<and> answers m' = []"
  by (simp add: cJSON_AddStringToObject_def cJSON_CreateString_def cJSON_New_Item_def malloc_Nil add_item_to_object_def)

lemma add_number_ok:
  "answers m = [] \<Longrightarrow> \<exists>t m'. cJSON_AddNumberToObject (Some ob) nm n m = (Some t, m') \<and> answers m' = []"
  by (simp add: cJSON_AddNumberToObject_def cJSON_CreateNumber_def cJSON_New_Item_def malloc_Nil add_item_to_object_def)

lemma add_fields_ok:
  "answers m = [] \<Longrightarrow> \<exists>t m'. add_fields fs (Some ob) m = (Some t, m') \<and> answers m' = []"
proof (induction fs arbitrary: ob m)
  case (Cons f fs)
  obtain nm v where f: "f = (nm, v)" by fastforce
  show ?case
  proof (cases v)
    case (Inl s)
    from add_string_ok [OF Cons.prems, of ob nm s] Cons.IH f Inl show ?thesis by fastforce
  next
    case (Inr n)
    from add_number_ok [OF Cons.prems, of ob nm n] Cons.IH f Inr show ?thesis by fastforce
  qed
qed simp

lemma add_item_ok:
  "answers m = [] \<Longrightarrow> \<exists>t m'. cJSON_AddItemToObject (Some ob) nm (Some it) m = (Some t, m') \<and> answers m' = []"
  by (simp add: cJSON_AddItemToObject_def add_item_to_object_def malloc_Nil ezos_free_def)

lemma encrypt_document_ok:
  assumes "friendly w" and "libs_ok L (session_key (kernel w))"
  shows "\<exists>out w'. encrypt_document L (Some root) w = ((mkernel_internal_succ, Some out), w') \<and> friendly w' \<and>
    kernel w' = kernel w \<and> das w' = das w"
proof -
  let ?tx = "cJSON_text (lib_text L) root"
  have l: "length ?tx < 2 ^ 31" and c: "cbc_ok (lib_tls L) (session_key (kernel w))"
    using assms(2) by (simp_all add: libs_ok_def)
  let ?plen = "unat (calculate_padding_len (of_nat (length ?tx)))"
  from enc_dec_roundtrip [OF l c] obtain out where
    e: "aes_cbc_128_enc_padding (lib_tls L) (session_key (kernel w)) (?tx @ zeros (?plen - length ?tx)) (length ?tx) ?plen =
      (mkernel_internal_succ, out, Some ?plen)" by blast
  have u: "unat (of_nat (length ?tx) :: uint32) = length ?tx" using l by (intro unat_of_nat_small) simp
  from assms(1) show ?thesis
    by (simp add: encrypt_document_def cJSON_PrintUnformatted_def w_malloc_def ezos_malloc_def friendly_def Let_def e u
        w_free_def w_json_delete_def ezos_free_def cJSON_Delete_def ezos_frees_def)
qed

lemma w_json_fields_ok:
  assumes "friendly w"
  shows "\<exists>t w'. w_json (add_fields fs (Some ob)) w = (Some t, w') \<and> friendly w' \<and> kernel w' = kernel w \<and> das w' = das w"
  using add_fields_ok [of "w_mem w" fs ob] assms by (auto simp: w_json_def friendly_def)

lemma create_object_ok:
  "friendly w \<Longrightarrow> \<exists>root w'. w_json cJSON_CreateObject w = (Some root, w') \<and> friendly w' \<and> kernel w' = kernel w \<and> das w' = das w"
  by (simp add: w_json_def friendly_def cJSON_CreateObject_def cJSON_New_Item_def malloc_Nil)

lemma serialize_lightreginfo_ok:
  assumes "friendly w" and "libs_ok L (session_key (kernel w))"
  shows "\<exists>out w'. serialize_lightreginfo L w = ((mkernel_internal_succ, Some out), w') \<and> friendly w' \<and>
    kernel w' = kernel w \<and> das w' = das w"
proof -
  from create_object_ok [OF assms(1)] obtain root w1 where
    1: "w_json cJSON_CreateObject w = (Some root, w1)" "friendly w1" "kernel w1 = kernel w" "das w1 = das w" by blast
  let ?fs = "[(''SubSerial'', Inl (dev_subserial (dev_info (kernel w)))),
    (''DeviceID'', Inl (bytes_string (take ezdev_sdk_devid_len (dev_id (kernel w)))))] :: (string \<times> (string + int)) list"
  from w_json_fields_ok [OF 1(2), of ?fs root] obtain t w2 where
    2: "w_json (add_fields ?fs (Some root)) w1 = (Some t, w2)" "friendly w2" "kernel w2 = kernel w" "das w2 = das w"
    using 1 by auto
  have "serialize_lightreginfo L w = encrypt_document L (Some t) w2"
    unfolding serialize_lightreginfo_def 1(1) prod.case option.case 2(1) by simp
  with encrypt_document_ok [OF 2(2), of L t] assms(2) 2 show ?thesis by simp
qed

lemma add_versions_ok:
  "answers m = [] \<Longrightarrow> \<exists>t m'. add_versions ds (Some ob) m = (Some t, m') \<and> answers m' = []"
proof (induction ds arbitrary: ob m)
  case Nil
  then show ?case by (simp add: add_versions_def)
next
  case (Cons d ds)
  from add_string_ok [OF Cons.prems, of ob "take 15 (dec_nat (unat (domain_id (kernel_extend d))))"
      "extend_module_version (kernel_extend d)"]
  obtain t m1 where t: "cJSON_AddStringToObject (Some ob) (take 15 (dec_nat (unat (domain_id (kernel_extend d)))))
      (extend_module_version (kernel_extend d)) m = (Some t, m1)" "answers m1 = []" by blast
  from Cons.IH [OF t(2), of t] t(1) show ?case by (simp add: add_versions_def)
qed

lemma sdk_version_ok:
  assumes "friendly w"
  shows "\<exists>t w'. extend_serialize_sdk_version (Some root) w = ((mkernel_internal_succ, Some t), w') \<and> friendly w' \<and>
    kernel w' = kernel w \<and> das w' = das w"
proof -
  have a: "answers (w_mem w) = []" using assms by (simp add: friendly_def)
  let ?sv = "CJSON cJSON_Object 0 0 None None []"
  let ?m1 = "(w_mem w)\<lparr>live := live (w_mem w) + 1\<rparr>"
  have 1: "cJSON_CreateObject (w_mem w) = (Some ?sv, ?m1)"
    using a by (simp add: cJSON_CreateObject_def cJSON_New_Item_def malloc_Nil)
  have "answers ?m1 = []" using a by simp
  from add_string_ok [OF this, of ?sv "take 15 (dec_nat (unat DAS_CMD_DOMAIN))" DEV_ACCESS_DOMAIN_VERSION]
  obtain sv1 m2 where 2: "cJSON_AddStringToObject (Some ?sv) (take 15 (dec_nat (unat DAS_CMD_DOMAIN)))
      DEV_ACCESS_DOMAIN_VERSION ?m1 = (Some sv1, m2)" "answers m2 = []" by blast
  from add_versions_ok [OF 2(2), of "take CONFIG_EZIOT_CORE_EXTEND_COUNT (domains w)" sv1] obtain sv2 m3 where
    3: "add_versions (take CONFIG_EZIOT_CORE_EXTEND_COUNT (domains w)) (Some sv1) m2 = (Some sv2, m3)" "answers m3 = []" by blast
  from add_item_ok [OF 3(2), of root "''SDKVersion''" sv2] obtain t m4 where
    4: "cJSON_AddItemToObject (Some root) ''SDKVersion'' (Some sv2) m3 = (Some t, m4)" "answers m4 = []" by blast
  have "extend_serialize_sdk_version (Some root) w = ((mkernel_internal_succ, Some t), w\<lparr>w_mem := m4\<rparr>)"
    unfolding extend_serialize_sdk_version_def 1 prod.case 2(1) 3(1) 4(1) by simp
  with 4(2) assms show ?thesis by (simp add: friendly_def)
qed

lemma serialize_devinfo_ok:
  assumes "friendly w" and "libs_ok L (session_key (kernel w))"
  shows "\<exists>out w'. serialize_devinfo L w = ((mkernel_internal_succ, Some out), w') \<and> friendly w' \<and>
    kernel w' = kernel w \<and> das w' = das w"
proof -
  from create_object_ok [OF assms(1)] obtain root w1 where
    1: "w_json cJSON_CreateObject w = (Some root, w1)" "friendly w1" "kernel w1 = kernel w" "das w1 = das w" by blast
  obtain fs where fs: "serialize_devinfo L w = (case w_json (add_fields fs (Some root)) w1 of (root1, w2) \<Rightarrow>
      (case extend_serialize_sdk_version root1 w2 of ((e, root2), w3) \<Rightarrow>
         if e \<noteq> mkernel_internal_succ then ((e, None), w_json_delete root2 w3) else encrypt_document L root2 w3))"
    unfolding serialize_devinfo_def Let_def 1(1) prod.case option.case by blast
  from w_json_fields_ok [OF 1(2), of fs root] obtain t w2 where
    2: "w_json (add_fields fs (Some root)) w1 = (Some t, w2)" "friendly w2" "kernel w2 = kernel w" "das w2 = das w"
    using 1 by auto
  from sdk_version_ok [OF 2(2), of t] obtain t3 w3 where
    3: "extend_serialize_sdk_version (Some t) w2 = ((mkernel_internal_succ, Some t3), w3)" "friendly w3"
      "kernel w3 = kernel w" "das w3 = das w" using 2 by auto
  have "serialize_devinfo L w = encrypt_document L (Some t3) w3"
    unfolding fs 2(1) prod.case 3(1) by simp
  with encrypt_document_ok [OF 3(2), of L t3] assms(2) 3 show ?thesis by simp
qed

section \<open>Logging in\<close>

lemma friendly_net: "friendly w \<Longrightarrow> net_call p w = (0, w\<lparr>net_ops := net_ops w @ [p]\<rparr>)"
  by (simp add: friendly_def net_call_def)

lemma friendly_ops [simp]: "friendly (w\<lparr>net_ops := x\<rparr>) = friendly w"
  by (simp add: friendly_def)

lemma das_login_ok:
  assumes "friendly w" and "libs_ok L (session_key (kernel w))" and "\<not> c_empty (dev_id (kernel w))"
    and "\<not> isconnected (das w)"
  shows "\<exists>w'. das_mqttlogin2das L light w = (mkernel_internal_succ, w') \<and> friendly w' \<and> kernel w' = kernel w"
proof -
  let ?w1 = "(set_socket 0 (w\<lparr>net_ops := net_ops w @ [Net_create]\<rparr>))\<lparr>net_ops := net_ops w @ [Net_create,
      Net_connect (das_address (redirect_das_info (kernel w))) (das_port (redirect_das_info (kernel w)))]\<rparr>"
  have 1: "MQTTNetConnect (das_address (redirect_das_info (kernel w))) (das_port (redirect_das_info (kernel w))) w =
      (mkernel_internal_succ, ?w1)"
    using assms(1) by (simp add: MQTTNetConnect_def friendly_net set_socket_def)
  have f1: "friendly ?w1" "kernel ?w1 = kernel w" "isconnected (das ?w1) = isconnected (das w)"
    using assms(1) by (simp_all add: set_socket_def)
  have "\<exists>out w2. (if \<not> light then serialize_devinfo L ?w1 else serialize_lightreginfo L ?w1) =
      ((mkernel_internal_succ, Some out), w2) \<and> friendly w2 \<and> kernel w2 = kernel w \<and> das w2 = das ?w1"
    using serialize_devinfo_ok [OF f1(1), of L] serialize_lightreginfo_ok [OF f1(1), of L] assms(2) f1(2) by simp
  then obtain out w2 where 2: "(if \<not> light then serialize_devinfo L ?w1 else serialize_lightreginfo L ?w1) =
      ((mkernel_internal_succ, Some out), w2)" "friendly w2" "kernel w2 = kernel w" "das w2 = das ?w1" by blast
  have c: "\<exists>w3. MQTTConnect (\<not> light) tp out (das_keepalive_interval (kernel w)) w2 = (0, w3) \<and> friendly w3 \<and> kernel w3 = kernel w" for tp
    using 2(2-4) f1(3) assms(4) by (simp add: MQTTConnect_def friendly_net Let_def)
  obtain w3 where 3: "das_login_try L light w = (mkernel_internal_succ, w3)" "friendly w3" "kernel w3 = kernel w"
  proof -
    let ?tp = "take 127 (if is_first_session (das ?w1)
                then ''/Basic/pu2cenplt/'' @ dev_subserial (dev_info (kernel w)) @ ''/firstconnect''
                else ''/Basic/pu2cenplt/'' @ dev_subserial (dev_info (kernel w)) @ ''/breakconnect'')"
    from c [of ?tp] obtain w3 where w3: "MQTTConnect (\<not> light) ?tp out (das_keepalive_interval (kernel w)) w2 = (0, w3)"
      "friendly w3" "kernel w3 = kernel w" by blast
    have "das_login_try L light w = (mkernel_internal_succ, w_free (w3\<lparr>das := (das w3)\<lparr>is_first_session := False\<rparr>\<rparr>))"
      unfolding das_login_try_def Let_def 1 prod.case 2(1) option.case w3(1) using assms(3) by simp
    with that w3(2,3) show ?thesis by (simp add: w_free_def friendly_def ezos_free_def)
  qed
  then show ?thesis by (simp add: das_mqttlogin2das_def)
qed

lemma das_logout_friendly:
  assumes "friendly w"
  shows "friendly (snd (das_mqtt_logout2das w))" "kernel (snd (das_mqtt_logout2das w)) = kernel w"
    "\<not> isconnected (das (snd (das_mqtt_logout2das w)))"
  using assms
  by (auto simp: das_mqtt_logout2das_def MQTTDisconnect_def friendly_net MQTTNetDisconnect_def MQTTNetFini_def set_socket_def)

lemma das_light_reg_ok:
  assumes "friendly w" and "libs_ok L (session_key (kernel w))" and "\<not> c_empty (dev_id (kernel w))"
  shows "\<exists>w'. das_light_reg L w = (mkernel_internal_succ, w') \<and> friendly w' \<and> kernel w' = kernel w"
  using das_login_ok [of "snd (das_mqtt_logout2das w)" L True] das_logout_friendly [OF assms(1)] assms(2,3)
  by (simp add: das_light_reg_def)

lemma friendly_mqtt_call:
  "friendly w \<Longrightarrow> friendly (snd (mqtt_call p w)) \<and> kernel (snd (mqtt_call p w)) = kernel w \<and>
   (isconnected (das w) \<longrightarrow> fst (mqtt_call p w) = 0) \<and> das (snd (mqtt_call p w)) = das w"
  by (simp add: mqtt_call_def friendly_net)

lemma subscribe_ok:
  assumes "friendly w" and "isconnected (das w)"
  shows "\<exists>w'. das_subscribe_revc_topic True w = (mkernel_internal_succ, w') \<and> friendly w' \<and> kernel w' = kernel w"
  using assms by (simp add: das_subscribe_revc_topic_def mqtt_call_def friendly_net Let_def)

lemma unreg_friendly:
  assumes "friendly w"
  shows "friendly (snd (das_unreg w)) \<and> kernel (snd (das_unreg w)) = kernel w \<and> \<not> isconnected (das (snd (das_unreg w)))"
proof -
  have "friendly (snd (das_subscribe_revc_topic False w)) \<and> kernel (snd (das_subscribe_revc_topic False w)) = kernel w"
    using friendly_mqtt_call [OF assms] friendly_mqtt_call [OF conjunct1 [OF friendly_mqtt_call [OF assms]]] assms
    by (simp add: das_subscribe_revc_topic_def Let_def)
  with das_logout_friendly [of "snd (das_subscribe_revc_topic False w)"] show ?thesis
    by (cases "das_subscribe_revc_topic False w") (simp add: das_unreg_def)
qed

lemma das_reged_ok:
  assumes "friendly w" and "libs_ok L (session_key (kernel w))" and "\<not> c_empty (dev_id (kernel w))"
  shows "\<exists>w'. cnt_state_das_reged L w = (mkernel_internal_succ, w') \<and> friendly w' \<and> kernel w' = kernel w"
proof -
  note u = unreg_friendly [OF assms(1)]
  from das_login_ok [of "snd (das_unreg w)" L False] u assms(2,3) obtain w1 where
    1: "das_mqttlogin2das L False (snd (das_unreg w)) = (mkernel_internal_succ, w1)" "friendly w1" "kernel w1 = kernel w"
    by auto
  from das_mqttlogin2das_effect(2) [OF 1(1)] u have "isconnected (das w1)" by simp
  from subscribe_ok [OF 1(2) this] 1 show ?thesis
    by (auto simp: cnt_state_das_reged_def das_reg_def)
qed

section \<open>Progress of the access task\<close>

lemma retry_progress:
  assumes "friendly w" and "libs_ok L (session_key (kernel w))" and "\<not> c_empty (dev_id (kernel w))"
    and "cnt_state (kernel w) = Sdk_cnt_das_break" and "\<not> backing_off (das_retry_times (kernel w)) 1000 w"
    and "access_risk (kernel w) = Sdk_no_risk_control"
  shows "\<exists>w'. access_server_yield L B w = (mkernel_internal_succ, w') \<and> cnt_state (kernel w') = Sdk_cnt_das_reged \<and> logged_in w'"
proof -
  have f: "friendly (restart_timer w)" "libs_ok L (session_key (kernel (restart_timer w)))"
    "\<not> c_empty (dev_id (kernel (restart_timer w)))"
    using assms(1-3) by (simp_all add: restart_timer_def upd_kernel_def)
  from das_light_reg_ok [OF f] obtain w1 where
    1: "das_light_reg L (restart_timer w) = (mkernel_internal_succ, w1)" by blast
  from das_light_reg_effect(2) [OF 1] have "logged_in w1" by simp
  with assms(4-6) 1 show ?thesis
    by (simp add: access_server_yield_def check_access_risk_control_def cnt_das_retry_do_def cnt_state_das_retry_def logged_in_def)
qed

lemma reg_progress:
  assumes "friendly w" and "libs_ok L (session_key (kernel w))" and "\<not> c_empty (dev_id (kernel w))"
    and "cnt_state (kernel w) = Sdk_cnt_redirected" and "\<not> backing_off (das_retry_times (kernel w)) 2000 w"
    and "access_risk (kernel w) = Sdk_no_risk_control"
  shows "\<exists>w'. access_server_yield L B w = (mkernel_internal_succ, w') \<and> cnt_state (kernel w') = Sdk_cnt_das_reged \<and> logged_in w'"
proof -
  have f: "friendly (restart_timer w)" "libs_ok L (session_key (kernel (restart_timer w)))"
    "\<not> c_empty (dev_id (kernel (restart_timer w)))"
    using assms(1-3) by (simp_all add: restart_timer_def upd_kernel_def)
  from das_reged_ok [OF f] obtain w1 where
    1: "cnt_state_das_reged L (restart_timer w) = (mkernel_internal_succ, w1)" by blast
  have "logged_in w1"
  proof -
    obtain e w0 where u: "das_unreg (restart_timer w) = (e, w0)" by fastforce
    note n = das_unreg_effect(2) [OF u]
    from 1 u have "das_reg L w0 = (mkernel_internal_succ, w1)" by (simp add: cnt_state_das_reged_def)
    from das_reg_effect(2) [OF this] n show ?thesis by (simp add: logged_out_def)
  qed
  with assms(4-6) 1 show ?thesis
    by (simp add: access_server_yield_def check_access_risk_control_def cnt_das_reg_do_def logged_in_def Let_def)
qed

lemma two_yields_register:
  assumes "cnt_state (kernel w) = Sdk_cnt_unredirect" and "lbs_redirect_times (kernel w) = 0"
    and "access_risk (kernel w) = Sdk_no_risk_control" and "lbs_ok B"
    and "cnt_state_lbs_redirect B True (restart_timer w) = (mkernel_internal_succ, w1)"
    and "friendly w1" and "libs_ok L (session_key (kernel w1))" and "\<not> c_empty (dev_id (kernel w1))"
  shows "\<exists>w2 w3. access_server_yield L B w = (mkernel_internal_succ, w2) \<and>
    cnt_state (kernel w2) = Sdk_cnt_redirected \<and>
    access_server_yield L B w2 = (mkernel_internal_succ, w3) \<and>
    cnt_state (kernel w3) = Sdk_cnt_das_reged \<and> logged_in w3"
proof -
  let ?w2 = "upd_kernel (\<lambda>k. k\<lparr>cnt_state := Sdk_cnt_redirected, lbs_redirect_times := 0, das_retry_times := 0\<rparr>) w1"
  have r: "access_risk (kernel w1) = Sdk_no_risk_control"
    using lbs_redirect_keeps [OF assms(4,5)] assms(3) by (simp add: lbs_keeps_def restart_timer_def)
  have 1: "access_server_yield L B w = (mkernel_internal_succ, ?w2)"
    using assms(1-3,5) by (simp add: access_server_yield_def check_access_risk_control_def cnt_lbs_redirect_do_def backing_off_def)
  have "\<exists>w3. access_server_yield L B ?w2 = (mkernel_internal_succ, w3) \<and> cnt_state (kernel w3) = Sdk_cnt_das_reged \<and> logged_in w3"
    using assms(6-8) r by (intro reg_progress) (simp_all add: backing_off_def upd_kernel_def)
  with 1 show ?thesis by simp
qed

end
