(* ===== verification/Lbs_Memory.thy ===== *)
theory Lbs_Memory
  imports Lbs_Effects Access_Liveness
begin

text \<open>
  The blocks of the load balancer protocol. Every step keeps the difference between the
  allocated blocks and those the transaction owns, with one exception: the request for
  the access server loses the printed document when a second, larger block is refused.
  So a run loses at most one block, and none when no allocation fails.
\<close>

section \<open>Balance\<close>

definition lbs_bal :: "lbs_state \<Rightarrow> int" where
  "lbs_bal s = w_live (snd s) - int (packet_blocks (global_out_packet (fst s)) + packet_blocks (global_in_packet (fst s)))"

definition plenty :: "world \<Rightarrow> bool" where
  "plenty w \<longleftrightarrow> answers (w_mem w) = []"

text \<open>At most \<^verbatim>\<open>n\<close> blocks are lost, none while allocations succeed.\<close>

definition leak :: "nat \<Rightarrow> lbs_state \<Rightarrow> lbs_state \<Rightarrow> bool" where
  "leak n s s' \<longleftrightarrow> lbs_bal s \<le> lbs_bal s' \<and> lbs_bal s' \<le> lbs_bal s + int n \<and>
     (plenty (snd s) \<longrightarrow> plenty (snd s') \<and> lbs_bal s' = lbs_bal s)"

named_theorems leak_intros \<open>blocks lost by the steps of the protocol\<close>

lemma leak_trans: "leak m s s1 \<Longrightarrow> leak n s1 s2 \<Longrightarrow> leak (m + n) s s2"
  by (auto simp: leak_def)

lemma leak_0_trans: "leak 0 s s1 \<Longrightarrow> leak n s1 s2 \<Longrightarrow> leak n s s2"
  using leak_trans [of 0] by simp

lemma leak_refl [leak_intros]: "leak n s s"
  by (simp add: leak_def)

lemma leak_then:
  assumes "leak m s (snd r)" and "\<And>s'. leak n s' (snd (f s'))"
  shows "leak (m + n) s (snd (then_ok r f))"
proof -
  obtain e s1 where "r = (e, s1)" by (rule prod.exhaust)
  with assms(1) leak_refl [of n s1] assms(2) [of s1] leak_trans [of m s s1 n] show ?thesis
    by (cases "e = mkernel_internal_succ") simp_all
qed

lemma leak_0_then [leak_intros]:
  "leak 0 s (snd r) \<Longrightarrow> (\<And>s'. leak n s' (snd (f s'))) \<Longrightarrow> leak n s (snd (then_ok r f))"
  using leak_then [of 0 s r n f] by simp

lemma leak_then_0:
  "leak n s (snd r) \<Longrightarrow> (\<And>s'. leak 0 s' (snd (f s'))) \<Longrightarrow> leak n s (snd (then_ok r f))"
  using leak_then [of n s r 0 f] by simp

lemma leakI:
  assumes "lbs_bal s' = lbs_bal s" and "plenty (snd s) \<Longrightarrow> plenty (snd s')"
  shows "leak n s s'"
  using assms by (simp add: leak_def)

lemma leak_mem_eq:
  assumes "w_mem (snd s') = w_mem (snd s)"
    and "packet_blocks (global_out_packet (fst s')) = packet_blocks (global_out_packet (fst s))"
    and "packet_blocks (global_in_packet (fst s')) = packet_blocks (global_in_packet (fst s))"
  shows "leak n s s'"
  using assms by (intro leakI) (simp_all add: lbs_bal_def plenty_def w_live_def)

lemma packet_blocks_puts [simp]:
  "packet_blocks (head_put b p) = packet_blocks p" "packet_blocks (var_head_put b p) = packet_blocks p"
  "packet_blocks (clear_packet p) = packet_blocks p"
  by (simp_all add: packet_blocks_def head_put_def var_head_put_def clear_packet_def)

lemma packet_blocks_fold [simp]:
  "packet_blocks (fold head_put bs p) = packet_blocks p" "packet_blocks (fold var_head_put bs p) = packet_blocks p"
  by (induction bs arbitrary: p) simp_all

lemma packet_blocks_upd [simp]:
  "packet_blocks (p\<lparr>payload_buf := b, payload_buf_off := n\<rparr>) = packet_blocks p"
  "packet_blocks (p\<lparr>payload_buf_off := n\<rparr>) = packet_blocks p" "packet_blocks (p\<lparr>payload_buf := b\<rparr>) = packet_blocks p"
  "packet_blocks (p\<lparr>var_head_buf_off := k\<rparr>) = packet_blocks p"
  "packet_blocks (p\<lparr>head_buf := map_option f (head_buf p)\<rparr>) = packet_blocks p"
  "packet_blocks (p\<lparr>var_head_buf := map_option f (var_head_buf p)\<rparr>) = packet_blocks p"
  by (simp_all add: packet_blocks_def)

lemma packets_simps [simp]:
  "global_in_packet (upd_in f a) = f (global_in_packet a)" "global_out_packet (upd_in f a) = global_out_packet a"
  "global_out_packet (upd_out f a) = f (global_out_packet a)" "global_in_packet (upd_out f a) = global_in_packet a"
  "global_out_packet (in_skip n a) = global_out_packet a"
  "packet_blocks (global_in_packet (in_skip n a)) = packet_blocks (global_in_packet a)"
  "global_out_packet (generate_sharekey T k u a) = global_out_packet a"
  "global_in_packet (generate_sharekey T k u a) = global_in_packet a"
  by (simp_all add: upd_in_def upd_out_def in_skip_def generate_sharekey_def Let_def)

lemma w_mem_simps [simp]:
  "w_mem (faulty b w) = w_mem w" "w_mem (upd_kernel f w) = w_mem w" "w_mem (net_disconnect fd w) = w_mem w"
  by (simp_all add: faulty_def upd_kernel_def net_disconnect_def net_log_def)

section \<open>Steps without allocations\<close>

lemma leak_put_payload [leak_intros]: "leak n s (put_payload bs s)"
  by (rule leak_mem_eq) (simp_all add: put_payload_def Let_def split: prod.splits)

lemma leak_trans_0: "leak n s s1 \<Longrightarrow> leak 0 s1 s2 \<Longrightarrow> leak n s s2"
  using leak_trans [of n s s1 0] by simp

lemma leak_put: "leak n s s' \<Longrightarrow> leak n s (put_payload bs s')"
  by (erule leak_trans_0) (rule leak_put_payload)

lemma leak_common [leak_intros]: "leak n s (snd (common_serialize x y z s))"
  by (simp add: common_serialize_def Let_def leak_intros)

lemma leak_sign [leak_intros]: "leak n s (snd (digital_sign_serialize_sha384 T b m s))"
  by (simp add: digital_sign_serialize_sha384_def Let_def leak_intros split: prod.splits)

lemma leak_header [leak_intros]: "leak n s (snd (new_header c s))" "leak n s (snd (old_header c s))"
  by (auto simp: new_header_def old_header_def with_header_def header_serialize_def header_serialize_old_def Let_def
      intro!: leak_mem_eq split: prod.splits if_splits)

lemma net_mem:
  "net_write fd b w = (r, w') \<Longrightarrow> w_mem w' = w_mem w" "net_read fd k w = (x, w') \<Longrightarrow> w_mem w' = w_mem w"
  "net_create w = (f, w') \<Longrightarrow> w_mem w' = w_mem w" "net_connect fd h p w = (y, w') \<Longrightarrow> w_mem w' = w_mem w"
  using net_step_rest(4) net_write_step net_read_step net_create_step net_connect_step by (metis prod.collapse)+

lemma leak_send [leak_intros]: "leak n s (snd (send_lbs_msg s))" "leak n s (snd (send_unchecked s))"
proof -
  have "snd (send_lbs_msg s) = (fst s, snd (snd (send_lbs_msg s))) \<and> w_mem (snd (snd (send_lbs_msg s))) = w_mem (snd s)"
  proof (cases s)
    case (Pair a w)
    let ?p = "global_out_packet a" and ?fd = "a_socket_fd a"
    let ?b = "buf_get (written (head_buf ?p) 1) 0"
    obtain e1 n1 w1 where 1: "net_write ?fd (written (head_buf ?p) (head_buf_off ?p)) w = ((e1, n1), w1)"
      by (metis prod.collapse)
    obtain e2 n2 w2 where 2: "(if drop_bit 4 ?b = 1 \<and> drop_bit 3 (?b AND 0x08) = 1
        then net_write ?fd (written (var_head_buf ?p) (var_head_buf_off ?p)) w1 else ((mkernel_internal_succ, 0), w1)) =
        ((e2, n2), w2)" by (metis prod.collapse)
    obtain e3 n3 w3 where 3: "net_write ?fd (buf_read (payload_buf ?p) 0 (unat (payload_buf_off ?p))) w2 = ((e3, n3), w3)"
      by (metis prod.collapse)
    have m: "w_mem w1 = w_mem w" "w_mem w2 = w_mem w1" "w_mem w3 = w_mem w2"
      using 1 2 3 net_mem(1) by (auto split: if_splits)
    have "send_lbs_msg s = (if e1 \<noteq> mkernel_internal_succ then (e1, (a, w1))
        else if e2 \<noteq> mkernel_internal_succ then (e2, (a, w2)) else (e3, (a, w3)))"
      by (simp only: send_lbs_msg_def Pair Let_def prod.case 1 2 3)
    with m Pair show ?thesis by simp
  qed
  then have "leak n s (snd (send_lbs_msg s))" for n by (metis leak_mem_eq fst_conv)
  then show "leak n s (snd (send_lbs_msg s))" "leak n s (snd (send_unchecked s))" by (simp_all add: send_unchecked_def)
qed

lemma remain_loop_mem: "remain_loop fd m n w = (r, w') \<Longrightarrow> w_mem w' = w_mem w"
proof (induction fd m n w rule: remain_loop.induct)
  case (1 fd m n w)
  obtain e1 bs w1 where r: "net_read fd 1 w = ((e1, bs), w1)" by (metis prod.collapse)
  from "1.prems" have p: "(if e1 \<noteq> mkernel_internal_succ then ((e1, n, 0), w1)
      else if hd bs AND 0x80 \<noteq> 0 then remain_loop fd (m * 128) (n + ucast (hd bs AND 0x7F) * m) w1
      else ((mkernel_internal_succ, n + ucast (hd bs AND 0x7F) * m, hd bs), w1)) = (r, w')"
    by (subst (asm) remain_loop.simps) (simp only: r prod.case Let_def)
  with "1.IH" [OF r [symmetric] refl _ refl refl] net_mem(2) [OF r] show ?case by (auto split: if_splits)
qed

text \<open>Memory and number of owned blocks unchanged.\<close>

definition same_mem :: "lbs_state \<Rightarrow> lbs_state \<Rightarrow> bool" where
  "same_mem s s' \<longleftrightarrow> w_mem (snd s') = w_mem (snd s) \<and>
     packet_blocks (global_out_packet (fst s')) = packet_blocks (global_out_packet (fst s)) \<and>
     packet_blocks (global_in_packet (fst s')) = packet_blocks (global_in_packet (fst s))"

lemma same_mem_trans: "same_mem s s1 \<Longrightarrow> same_mem s1 s2 \<Longrightarrow> same_mem s s2"
  by (simp add: same_mem_def)

lemma same_mem_refl [simp]: "same_mem s s"
  by (simp add: same_mem_def)

lemma same_mem_leak: "same_mem s s' \<Longrightarrow> leak n s s'"
  by (rule leak_mem_eq) (simp_all add: same_mem_def)

lemma same_var_head: "take_var_head c b l s = (r, s') \<Longrightarrow> same_mem s s'"
proof (cases s)
  case (Pair a w)
  obtain e bs w1 where r: "net_read (a_socket_fd a) 1 w = ((e, bs), w1)" by (metis prod.collapse)
  assume "take_var_head c b l s = (r, s')"
  then show ?thesis
    using net_mem(2) [OF r]
    by (auto simp: Pair take_var_head_def r Let_def same_mem_def simp del: One_nat_def split: if_splits)
qed

lemma same_wait: "same_mem s (snd (wait_assign_response s))"
proof (cases s)
  case (Pair a w)
  let ?fd = "a_socket_fd a"
  obtain e1 b1 w1 where 1: "net_read ?fd 1 w = ((e1, b1), w1)" by (metis prod.collapse)
  obtain e2 l b2 w2 where 2: "remain_loop ?fd 1 0 w1 = ((e2, l, b2), w2)" by (metis prod.collapse)
  let ?a1 = "upd_in (\<lambda>p. p\<lparr>head_buf := map_option (\<lambda>h. buf_write h 0 [hd b1, b2]) (head_buf p)\<rparr>) a"
  obtain e4 l4 a4 w4 where 3: "take_var_head (ucast (drop_bit 4 (hd b1))) (hd b1) l (?a1, w2) = ((e4, l4), (a4, w4))"
    by (rule pair_pair)
  obtain e5 bs w5 where 4: "net_read (a_socket_fd a4) (unat l4) w4 = ((e5, bs), w5)" by (metis prod.collapse)
  let ?a5 = "upd_in (\<lambda>p. p\<lparr>payload_buf := buf_write (payload_buf p) 0 bs\<rparr>) a4"
  have m: "w_mem w1 = w_mem w" "w_mem w2 = w_mem w1" "w_mem w5 = w_mem w4"
    using net_mem(2) 1 4 remain_loop_mem [OF 2] by blast+
  from same_var_head [OF 3] m have "same_mem s (a4, w4)" "same_mem s (?a5, w5)"
    by (simp_all add: same_mem_def Pair)
  moreover have "snd (wait_assign_response s) = (if e1 \<noteq> mkernel_internal_succ then (a, w1)
      else if e2 \<noteq> mkernel_internal_succ then (a, w2) else if e4 \<noteq> mkernel_internal_succ then (a4, w4) else (?a5, w5))"
    by (simp only: wait_assign_response_def Pair Let_def prod.case 1 2 3 4 snd_conv if_distrib [of snd])
  ultimately show ?thesis using m by (simp add: same_mem_def Pair)
qed

lemma leak_wait [leak_intros]: "leak n s (snd (wait_assign_response s))"
  by (rule same_mem_leak [OF same_wait])

lemma leak_wait_trans:
  assumes "wait_assign_response s = (r, s1)" and "leak n s1 s2"
  shows "leak n s s2"
  using leak_0_trans [OF leak_wait [of 0 s]] assms by simp

section \<open>Messages\<close>

lemma leak_clear [leak_intros]: "leak n s (clear_lbs_affair_buf s)"
  by (rule same_mem_leak) (simp add: same_mem_def clear_lbs_affair_buf_def split: prod.splits)

lemma leak_clear_trans: "leak n (clear_lbs_affair_buf s) s' \<Longrightarrow> leak n s s'"
  using leak_0_trans [OF leak_clear] .

lemma leak_auth_i [leak_intros]: "leak n s (snd (authentication_i_serialize s))"
  by (simp add: authentication_i_serialize_def Let_def) (intro leak_put leak_refl)

lemma plenty_malloc: "plenty w \<Longrightarrow> w_malloc w = (ok, w') \<Longrightarrow> ok \<and> plenty w'"
  by (auto simp: plenty_def w_malloc_def malloc_Nil split: prod.splits)

lemma plenty_simps [simp]:
  "plenty (w_free w) = plenty w" "plenty (w_frees n w) = plenty w" "plenty (faulty b w) = plenty w"
  "plenty (w_json_delete j w) = plenty w" "plenty (upd_kernel f w) = plenty w"
  by (simp_all add: plenty_def w_free_def w_frees_def faulty_def w_json_delete_def cJSON_Delete_def upd_kernel_def
      ezos_free_def ezos_frees_def split: option.splits)

text \<open>A block that is allocated and freed again.\<close>

lemma leak_malloc_fail: "w_malloc w = (False, w1) \<Longrightarrow> leak n (a, w) (a, w1)"
  by (rule leakI) (auto simp: lbs_bal_def dest: w_malloc_live plenty_malloc)

lemma leak_malloc_free: "w_malloc w = (True, w1) \<Longrightarrow> leak n (a, w) (a, w_free w1)"
  by (rule leakI) (auto simp: lbs_bal_def dest: w_malloc_live plenty_malloc)

lemma leak_append_pubkey [leak_intros]: "leak n s (append_pubkey L T s)"
proof -
  have "leak n s s'" if "aes_128_encrypt_pubkey L k s = (r, s')" for k r s'
    using that by (auto simp: aes_128_encrypt_pubkey_def leak_refl leak_malloc_fail leak_malloc_free
        split: prod.splits if_splits)
  then show ?thesis
    by (auto simp: append_pubkey_def append_encrypt_data_def leak_refl leak_put split: prod.splits)
qed

lemma leak_pubkey_then:
  assumes "\<And>s'. leak n s' (snd (f s'))"
  shows "leak n s (snd (f (append_pubkey L T s)))"
  by (rule leak_0_trans [OF leak_append_pubkey assms])

lemma leak_send_auth_i [leak_intros]: "leak n s (snd (send_authentication_i L T s))"
proof -
  have "leak n s' (snd (then_ok (new_header c s') send_lbs_msg))" for c s'
    by (intro leak_intros)
  then show ?thesis
    unfolding send_authentication_i_def
    by (intro leak_0_then leak_common leak_auth_i) (auto simp: leak_refl intro: leak_pubkey_then)
qed

lemma leak_decrypt_peer: "aes_128_decrypt_peer_pubkey L k tag s = (r, s') \<Longrightarrow> same_mem s s'"
  by (auto simp: aes_128_decrypt_peer_pubkey_def Let_def same_mem_def split: prod.splits if_splits)

lemma leak_parse_ii [leak_intros]: "leak n s (snd (parse_authentication_ii L T k s))"
proof (cases s)
  case (Pair a w)
  let ?a1 = "in_skip 1 (in_skip 3 a)"
  obtain e pk a3 w1 where 1: "aes_128_decrypt_peer_pubkey L k (in_read 16 ?a1) (in_skip 16 ?a1, w) = ((e, pk), (a3, w1))"
    by (rule pair_pair)
  obtain e1 secret where 2: "ezdev_generate_masterkey T (ecdh_priv T) pk = (e1, secret)" by fastforce
  from leak_decrypt_peer [OF 1] have "same_mem s (a3, w1)" by (simp add: same_mem_def Pair)
  then have "same_mem s (snd (parse_authentication_ii L T k s))"
    unfolding Pair parse_authentication_ii_def Let_def prod.case 1 2 by (auto simp: same_mem_def)
  then show ?thesis by (rule same_mem_leak)
qed

lemma leak_wait_ii [leak_intros]: "leak n s (snd (wait_authentication_ii L T s))"
proof -
  obtain e c k s1 where 1: "wait_assign_response s = ((e, c, k), s1)" by (metis prod.collapse)
  obtain e1 a w where 2: "parse_authentication_ii L T k s1 = (e1, (a, w))" by (metis prod.collapse)
  have "leak 0 s1 (a, w)" using leak_parse_ii [of 0 s1 L T k] 2 by simp
  moreover have "leak n (a, w) (a, upd_kernel f w)" for f by (rule leak_mem_eq) simp_all
  ultimately have "leak n s1 (a, upd_kernel f w)" "leak n s1 (a, w)" for f
    using leak_0_trans leak_refl by blast+
  then show ?thesis
    by (intro leak_wait_trans [OF 1]) (simp add: wait_authentication_ii_def 1 2 leak_refl)
qed

lemma leak_sign_serial [leak_intros]: "leak n s (snd (authentication_iii_serialize_serial_sha384 T s))"
  unfolding authentication_iii_serialize_serial_sha384_def by (rule leak_sign)

lemma leak_sessionkey_req [leak_intros]: "leak n s (snd (send_sessionkey_req_serialize T s))"
  unfolding send_sessionkey_req_serialize_def
  by (rule leak_0_trans [OF leak_put [OF leak_put_payload] leak_sign_serial])

lemma leak_session_req [leak_intros]:
  "leak n s (snd (send_update_sessionkey_req T s))" "leak n s (snd (send_authentication_creat_dev_id T s))"
  unfolding send_update_sessionkey_req_def send_authentication_creat_dev_id_def by (intro leak_intros)+

text \<open>Parsing moves the read position only.\<close>

definition same_blocks :: "lbs_affair \<Rightarrow> lbs_affair \<Rightarrow> bool" where
  "same_blocks a a' \<longleftrightarrow> global_out_packet a' = global_out_packet a \<and>
     packet_blocks (global_in_packet a') = packet_blocks (global_in_packet a)"

lemma open_field_blocks: "open_field L k a = (r, a') \<Longrightarrow> same_blocks a a'"
  by (auto simp: open_field_def Let_def same_blocks_def split: prod.splits if_splits)

lemma create_dev_id_blocks: "parse_authentication_create_dev_id L T k a = (e, a') \<Longrightarrow> same_blocks a a'"
  by (auto simp: parse_authentication_create_dev_id_def Let_def same_blocks_def split: prod.splits if_splits
      dest!: open_field_blocks)

lemma refresh_ii_blocks: "parse_refreshsessionkey_ii L k a = (e, a') \<Longrightarrow> same_blocks a a'"
  by (auto simp: parse_refreshsessionkey_ii_def Let_def same_blocks_def split: prod.splits if_splits)

lemma leak_on_affair:
  "(\<And>a e a'. f a = (e, a') \<Longrightarrow> same_blocks a a') \<Longrightarrow> leak n s (snd (on_affair f s))"
  by (rule leak_mem_eq) (auto simp: on_affair_def same_blocks_def split: prod.splits)

lemma leak_wait_reply:
  assumes "\<And>k s. leak n s (snd (parse k s))"
  shows "leak n s (snd (wait_reply c parse s))"
proof -
  obtain e c' k s1 where 1: "wait_assign_response s = ((e, c', k), s1)" by (metis prod.collapse)
  show ?thesis by (intro leak_wait_trans [OF 1]) (simp add: wait_reply_def 1 leak_refl assms)
qed

lemma leak_wait_replies [leak_intros]:
  "leak n s (snd (wait_update_sessionkey_rsp L T s))" "leak n s (snd (wait_authentication_creat_dev_id L T s))"
  "leak n s (snd (wait_refreshsessionkey_ii L s))"
  unfolding wait_update_sessionkey_rsp_def wait_authentication_creat_dev_id_def wait_refreshsessionkey_ii_def
  by (rule leak_wait_reply, rule leak_on_affair, erule create_dev_id_blocks refresh_ii_blocks)+

lemma leak_encrypt_random [leak_intros]: "leak n s (snd (encrypt_random L r s))"
  by (simp add: encrypt_random_def leak_refl leak_put_payload split: prod.splits)

lemma leak_refresh_i [leak_intros]: "leak n s (snd (refreshsessionkey_i_serialize L s))"
  unfolding refreshsessionkey_i_serialize_def Let_def
  by (rule leak_0_trans [OF _ leak_encrypt_random]) (intro leak_put leak_refl)

lemma leak_refresh_iii [leak_intros]: "leak n s (snd (refreshsessionkey_iii_serialize L s))"
  unfolding refreshsessionkey_iii_serialize_def by (rule leak_encrypt_random)

lemma leak_refresh [leak_intros]:
  "leak n s (snd (send_refreshsessionkey_i L s))" "leak n s (snd (send_refreshsessionkey_iii L s))"
  unfolding send_refreshsessionkey_i_def send_refreshsessionkey_iii_def by (intro leak_intros)+

section \<open>The request for the access server\<close>

lemma add_fields_live:
  "add_fields fs (Some ob) m = (r, m') \<Longrightarrow>
     \<exists>t. r = Some t \<and> live m' - int (json_blocks t) = live m - int (json_blocks ob)"
proof (induction fs arbitrary: ob m)
  case (Cons f fs)
  obtain nm v where f: "f = (nm, v)" by fastforce
  show ?case
  proof (cases v)
    case (Inl x)
    obtain r1 m1 where 1: "cJSON_AddStringToObject (Some ob) nm x m = (r1, m1)" by fastforce
    from AddString_balance [OF 1] Cons.IH Cons.prems 1 f Inl show ?thesis by fastforce
  next
    case (Inr x)
    obtain r1 m1 where 1: "cJSON_AddNumberToObject (Some ob) nm x m = (r1, m1)" by fastforce
    from AddNumber_balance [OF 1] Cons.IH Cons.prems 1 f Inr show ?thesis by fastforce
  qed
qed auto

lemma json_add_fields:
  assumes "w_json (add_fields fs (Some ob)) w = (r, w')"
  obtains t where "r = Some t" "w_live w' - int (json_blocks t) = w_live w - int (json_blocks ob)"
    "plenty w \<Longrightarrow> plenty w'"
proof -
  obtain m' where m: "add_fields fs (Some ob) (w_mem w) = (r, m')" "w' = w\<lparr>w_mem := m'\<rparr>"
    using assms by (auto simp: w_json_def split: prod.splits)
  from add_fields_live [OF m(1)] add_fields_ok [of "w_mem w" fs ob] m that show ?thesis
    by (auto simp: w_live_def plenty_def)
qed

lemma plenty_object: "plenty w \<Longrightarrow> w_json cJSON_CreateObject w = (r, w') \<Longrightarrow> plenty w'"
  by (auto simp: w_json_def plenty_def cJSON_CreateObject_def cJSON_New_Item_def malloc_Nil split: prod.splits)

lemma plenty_print: "plenty w \<Longrightarrow> cJSON_PrintUnformatted L j w = (r, w') \<Longrightarrow> plenty w'"
  by (auto simp: cJSON_PrintUnformatted_def split: prod.splits option.splits if_splits dest: plenty_malloc)

text \<open>The larger block replaces the printed one, which is freed.\<close>

lemma larger_block:
  assumes "(if b then (True, w) else (case w_malloc w of (ok, w1) \<Rightarrow> (ok, if ok then w_free w1 else w1))) = (ok, w')"
  shows "w_live w' = w_live w" "plenty w \<Longrightarrow> ok \<and> plenty w'"
  using assms by (auto split: if_splits prod.splits dest: w_malloc_live plenty_malloc)

lemma put_payload_live: "w_live (snd (put_payload bs s)) = w_live (snd s)" "plenty (snd (put_payload bs s)) = plenty (snd s)"
  by (simp_all add: put_payload_def Let_def split: prod.splits)

lemma leak_crypto [leak_intros]: "leak 1 s (snd (crypto_data_serialize L items s))"
proof (cases s)
  case (Pair a w)
  obtain r w1 where 1: "w_json cJSON_CreateObject w = (r, w1)" by fastforce
  show ?thesis
  proof (cases r)
    case None
    with 1 have "snd (crypto_data_serialize L items s) = (a, w1)" by (simp add: crypto_data_serialize_def Pair)
    then show ?thesis unfolding Pair using plenty_object [OF _ 1] w_json_object_None [OF 1 [unfolded None]]
      by (intro leakI) (simp_all add: lbs_bal_def)
  next
    case (Some ob)
    obtain r2 w2 where 2: "w_json (add_fields items (Some ob)) w1 = (r2, w2)" by fastforce
    from json_add_fields [OF 2] obtain t where t: "r2 = Some t"
      "w_live w2 - int (json_blocks t) = w_live w1 - int (json_blocks ob)" "plenty w1 \<Longrightarrow> plenty w2" by blast
    obtain tx w3 where 3: "cJSON_PrintUnformatted L (Some t) w2 = (tx, w3)" by fastforce
    let ?n = "calculate_padding_len (of_nat (length (the tx)))"
    obtain ok w4 where 4: "(if LBS_AUTH_JSON_DEFAULT_LEN > unat ?n then (True, w3)
        else (case w_malloc w3 of (ok, w4) \<Rightarrow> (ok, if ok then w_free w4 else w4))) = (ok, w4)" by fastforce
    obtain ok' w5 where 5: "w_malloc w4 = (ok', w5)" by fastforce
    obtain e bs x where 6: "aes_cbc_128_enc_padding (lib_tls L) (a_session_key a) (the tx @ zeros (unat ?n - length (the tx)))
        (length (the tx)) (unat ?n) = (e, bs, x)" by (metis prod.collapse)
    have "snd (crypto_data_serialize L items s) = (if tx = None then (a, w_json_delete (Some t) w3)
        else if \<not> ok then (a, w_json_delete (Some t) w4) else if \<not> ok' then (a, w_free (w_json_delete (Some t) w5))
        else if e \<noteq> mkernel_internal_succ then (a, w_free (w_free (w_json_delete (Some t) w5)))
        else (fst (put_payload bs (a, w5)), w_free (w_free (w_json_delete (Some t) (snd (put_payload bs (a, w5)))))))"
      using 1 2 3 4 5 6 t(1) unfolding Pair Some crypto_data_serialize_def by (cases tx) (simp_all add: Let_def)
    moreover have "packet_blocks (global_out_packet (fst (put_payload bs (a, w5)))) = packet_blocks (global_out_packet a)"
      "global_in_packet (fst (put_payload bs (a, w5))) = global_in_packet a" by (simp_all add: put_payload_def Let_def)
    moreover note w_json_object [OF 1 [unfolded Some]] t(2,3) print_live [OF 3] larger_block [OF 4] w_malloc_live [OF 5]
      plenty_object [OF _ 1] plenty_print [OF _ 3] plenty_malloc [OF _ 5]
    ultimately show ?thesis unfolding Pair leak_def lbs_bal_def
      by (simp add: json_delete_live put_payload_live)
  qed
qed

lemma leak_send_crypto [leak_intros]: "leak 1 s (snd (send_crypto_data_req L ty s))"
  unfolding send_crypto_data_req_def crypto_data_req_stun_serialize_def crypto_data_req_das_serialize_def
proof (rule leak_0_then, rule leak_common)
  fix s'
  show "leak 1 s' (snd (then_ok (if ty = 0 then crypto_data_serialize L i s' else crypto_data_serialize L j s')
      (\<lambda>s2. then_ok (old_header c s2) send_unchecked)))" for i j c
    by (rule leak_then_0) (simp add: leak_crypto del: One_nat_def, intro leak_intros)
qed

lemma leak_parse_crypto [leak_intros]: "leak n s (snd (parse_crypto_data_rsp_das L k info s))"
proof (cases s)
  case (Pair a w)
  obtain ok w1 where 1: "w_malloc w = (ok, w1)" by fastforce
  have b: "leak 0 (a, w) (in_skip 1 (in_skip 3 a), w)" by (rule leak_mem_eq) simp_all
  have "leak n (b, w) (b, w_free (faulty f w1))" if ok for f b
    using 1 that by (intro leakI) (auto simp: lbs_bal_def dest: w_malloc_live plenty_malloc)
  then show ?thesis
    unfolding Pair parse_crypto_data_rsp_das_def
    by (intro leak_0_trans [OF b])
      (use leak_malloc_fail leak_malloc_free 1 in \<open>auto simp: Let_def leak_refl split: prod.splits\<close>)
qed

lemma leak_wait_crypto [leak_intros]: "leak n s (snd (wait_crypto_data_rsp_das L s))"
proof -
  obtain e c k s1 where 1: "wait_assign_response s = ((e, c, k), s1)" by (metis prod.collapse)
  show ?thesis by (intro leak_wait_trans [OF 1]) (simp add: wait_crypto_data_rsp_das_def 1 leak_refl leak_parse_crypto)
qed

lemma leak_connect [leak_intros]: "leak n s (snd (lbs_connect s))"
proof (cases s)
  case (Pair a w)
  obtain fd w1 where 1: "net_create w = (fd, w1)" by fastforce
  obtain e ip w2 where 2: "net_connect fd (server_name (server_info (kernel w1))) (server_port (server_info (kernel w1))) w1 =
      ((e, ip), w2)" by (metis prod.collapse)
  obtain fd2 w3 where 3: "net_create (net_disconnect fd w2) = (fd2, w3)" by fastforce
  obtain e2 ip2 w4 where 4: "net_connect fd2 (server_ip (server_info (kernel w3))) (server_port (server_info (kernel w3))) w3 =
      ((e2, ip2), w4)" by (metis prod.collapse)
  have "w_mem w1 = w_mem w" "w_mem w2 = w_mem w1" "w_mem w3 = w_mem w2" "w_mem w4 = w_mem w3"
    using net_mem(3) [OF 1] net_mem(4) [OF 2] net_mem(3) [OF 3] net_mem(4) [OF 4] by simp_all
  then have "same_mem s (snd (lbs_connect s))"
    unfolding Pair lbs_connect_def by (simp add: 1 2 3 4 Let_def same_mem_def)
  then show ?thesis by (rule same_mem_leak)
qed

lemma leak_finish [leak_intros]: "leak 1 s (snd (finish_redirect L s))"
  unfolding finish_redirect_def
proof (rule leak_then_0)
  show "leak 1 s (snd (send_crypto_data_req L 1 (clear_lbs_affair_buf s)))"
    by (rule leak_0_trans [OF leak_clear leak_send_crypto])
next
  fix s'
  obtain e info a w where 2: "wait_crypto_data_rsp_das L s' = ((e, info), (a, w))" by (rule pair_pair)
  have "leak 0 s' (a, w)" using leak_wait_crypto [of 0 s' L] 2 by simp
  moreover have "leak 0 (a, w) (a, stored a info w)" by (rule leak_mem_eq) simp_all
  ultimately have "leak 0 s' (a, stored a info w)" by (rule leak_0_trans)
  with \<open>leak 0 s' (a, w)\<close> show "leak 0 s' (snd (case wait_crypto_data_rsp_das L s' of ((e, info), s2) \<Rightarrow>
      if e \<noteq> mkernel_internal_succ then (e, s2)
      else (mkernel_internal_succ, fst s2, save_das_info info (save_key_value s2))))"
    by (simp add: 2 stored_def)
qed

section \<open>Whole exchanges\<close>

lemma leak_init: "leak 0 (zero_affair, w) (snd (init_lbs_affair T u (zero_affair, w)))"
proof -
  obtain x1 y1 w1 where 1: "plat_call w = ((x1, y1), w1)" by (metis prod.collapse)
  obtain x2 y2 w2 where 2: "plat_call w1 = ((x2, y2), w2)" by (metis prod.collapse)
  obtain x3 y3 w3 where 3: "plat_call w2 = ((x3, y3), w3)" by (metis prod.collapse)
  obtain x4 y4 w4 where 4: "plat_call w3 = ((x4, y4), w4)" by (metis prod.collapse)
  obtain ok1 w5 where 5: "w_malloc w4 = (ok1, w5)" by fastforce
  obtain ok2 w6 where 6: "w_malloc w5 = (ok2, w6)" by fastforce
  obtain ok3 w7 where 7: "w_malloc w6 = (ok3, w7)" by fastforce
  obtain ok4 w8 where 8: "w_malloc w7 = (ok4, w8)" by fastforce
  let ?a = "zero_affair\<lparr>random_1 := of_int x1, random_2 := of_int x2, random_3 := of_int x3, random_4 := of_int x4\<rparr>"
  have "w_mem w4 = w_mem w"
    using plat_call_step [OF 1] plat_call_step [OF 2] plat_call_step [OF 3] plat_call_step [OF 4] net_step_rest(4) by metis
  then have "w_live w4 = w_live w" "plenty w4 = plenty w" by (simp_all add: w_live_def plenty_def)
  note m = this 5 [THEN w_malloc_live] 6 [THEN w_malloc_live] 7 [THEN w_malloc_live] 8 [THEN w_malloc_live]
    plenty_malloc [OF _ 5] plenty_malloc [OF _ 6] plenty_malloc [OF _ 7] plenty_malloc [OF _ 8]
  have b: "packet_blocks zero_packet = 0" "packet_blocks head_packet = 1" "packet_blocks ready_packet = 2"
    "global_out_packet zero_affair = zero_packet" "global_in_packet zero_affair = zero_packet"
    by (simp_all add: packet_blocks_def zero_packet_def head_packet_def ready_packet_def zero_affair_def)
  let ?d = "dev_info (kernel w8)" and ?a2 = "?a\<lparr>global_out_packet := ready_packet\<rparr>"
  let ?b = "(generate_sharekey T (kernel w8) u (?a2\<lparr>global_in_packet := ready_packet, a_auth_mode := dev_auth_mode ?d,
      a_subserial := dev_subserial ?d, a_dev_id := dev_id (kernel w8), a_master_key := master_key (kernel w8),
      a_access_mode := dev_access_mode ?d\<rparr>))\<lparr>a_socket_fd := - 1\<rparr>"
  have "snd (init_lbs_affair T u (zero_affair, w)) = (if \<not> ok1 then (?a, w5)
      else if \<not> ok2 then (?a\<lparr>global_out_packet := head_packet\<rparr>, w6)
      else if \<not> ok3 then (?a2, w7) else if \<not> ok4 then (?a2\<lparr>global_in_packet := head_packet\<rparr>, w8) else (?b, w8))"
    by (simp only: init_lbs_affair_def 1 2 3 4 5 6 7 8 prod.case Let_def if_distrib [of snd] snd_conv)
  moreover have "global_out_packet ?b = ready_packet" "global_in_packet ?b = ready_packet" by simp_all
  ultimately show ?thesis using m by (auto simp: leak_def lbs_bal_def b split: if_splits)
qed

lemma end_affair_live:
  assumes "end_affair (e, s) = (e', w')"
  shows "w_live w' = lbs_bal s" "plenty w' = plenty (snd s)"
  using assms
  by (auto simp: end_affair_def lbs_close_def fini_lbs_affair_def lbs_bal_def plenty_def w_live_def
      w_frees_def ezos_frees_def split: prod.splits if_splits)

text \<open>At most one block lost by an entry point, none when no allocation fails.\<close>

definition loses_one :: "world \<Rightarrow> world \<Rightarrow> bool" where
  "loses_one w w' \<longleftrightarrow> w_live w \<le> w_live w' \<and> w_live w' \<le> w_live w + 1 \<and>
     (plenty w \<longrightarrow> plenty w' \<and> w_live w' = w_live w)"

lemma affair_loses:
  assumes "\<And>s. leak 1 s (snd (body s))"
    and "end_affair (then_ok (init_lbs_affair T u (zero_affair, w)) body) = (e, w')"
  shows "loses_one w w'"
proof -
  obtain e1 s1 where r: "then_ok (init_lbs_affair T u (zero_affair, w)) body = (e1, s1)" by (rule prod.exhaust)
  have "leak 1 (zero_affair, w) s1"
    using leak_0_then [OF leak_init [of w T u] assms(1)] r by simp
  moreover have "lbs_bal (zero_affair, w) = w_live w"
    by (simp add: lbs_bal_def zero_affair_def packet_blocks_def zero_packet_def)
  moreover note end_affair_live [OF assms(2) [unfolded r]]
  ultimately show ?thesis by (simp add: leak_def loses_one_def)
qed

lemma with_ctx_loses:
  assumes "\<And>v e v'. body v = (e, v') \<Longrightarrow> lbs_effect e v v' \<and> loses_one v v'" and "with_ecdh_ctx body w = (e, w')"
  shows "loses_one w w'"
proof (cases "dev_cur_auth_type (kernel w) = 1")
  case True
  obtain ok w1 where 1: "w_malloc w = (ok, w1)" by fastforce
  let ?w1 = "upd_kernel (\<lambda>k. k\<lparr>dev_last_auth_type := dev_cur_auth_type k\<rparr>) w1"
  obtain e2 w2 where 2: "body ?w1 = (e2, w2)" by fastforce
  have k: "kernel w1 = kernel w" using 1 by (auto simp: w_malloc_def split: prod.splits)
  have "dev_last_auth_type (kernel w2) = 1"
    using dev_last_rest [OF assms(1) [OF 2, THEN conjunct1]] True k by simp
  with assms(2) True 1 2 have "w' = (if ok then w_free w2 else w1)" by (auto simp: with_ecdh_ctx_def)
  moreover have "w_live ?w1 = w_live w1" by (simp add: w_live_def)
  ultimately show ?thesis
    using w_malloc_live [OF 1] plenty_malloc [OF _ 1] assms(1) [OF 2] by (auto simp: loses_one_def)
qed (use assms(2) in \<open>auto simp: with_ecdh_ctx_def loses_one_def\<close>)

lemma redirect_loses:
  assumes "r \<in> {lbs_redirect_with_auth L T u, lbs_redirect_createdevid_with_auth L T u, lbs_redirect L T}"
    and "r w = (e, w')"
  shows "loses_one w w'"
proof -
  consider "r = lbs_redirect L T" | "r = lbs_redirect_with_auth L T u" | "r = lbs_redirect_createdevid_with_auth L T u"
    using assms(1) by blast
  then show ?thesis
  proof cases
    case 1
    show ?thesis
      by (rule affair_loses [OF _ assms(2) [unfolded 1 lbs_redirect_def]])
        (intro leak_intros leak_0_trans [OF leak_clear])
  next
    case 2
    show ?thesis
      by (rule with_ctx_loses [OF _ assms(2) [unfolded 2 lbs_redirect_with_auth_def]], rule conjI,
          erule affair_effect [rotated, THEN conjunct1], rule run_effect_auth, simp_all,
          erule affair_loses [rotated], intro leak_intros leak_0_trans [OF leak_clear])
  next
    case 3
    show ?thesis
      by (rule with_ctx_loses [OF _ assms(2) [unfolded 3 lbs_redirect_createdevid_with_auth_def]], rule conjI,
          erule affair_effect [rotated, THEN conjunct1], rule run_effect_auth, simp_all,
          erule affair_loses [rotated], intro leak_intros leak_0_trans [OF leak_clear])
  qed
qed

end
