(* ===== verification/Lbs_Contract.thy ===== *)
theory Lbs_Contract
  imports Lbs_Memory Kernel_Runs
begin

text \<open>
  The access state machine as a client of the load balancer protocol. The contract is a
  locale: what the machine relies on, and what then holds of the kernel. It is interpreted
  on \<^verbatim>\<open>lbs_transport\<close>, the three entry points of \<^verbatim>\<open>access/lbs_transport.c\<close>, so the facts about whole
  runs need no assumption about the protocol.
\<close>

section \<open>The contract\<close>

locale lbs_provider =
  fixes B :: lbs_ops
  assumes create_keeps: "lbs_keeps w (snd (createdevid_op B u w))"
    and auth_keeps: "lbs_keeps w (snd (auth_op B u w))"
    and refresh_keeps: "lbs_keeps w (snd (refresh_op B w))"
begin

lemma ok: "lbs_ok B"
  unfolding lbs_ok_def using create_keeps auth_keeps refresh_keeps by blast

lemma redirect_keeps: "cnt_state_lbs_redirect B u w = (e, w') \<Longrightarrow> lbs_keeps w w'"
  using lbs_redirect_keeps [OF ok] .

lemma yield_transitions:
  "access_inv w \<Longrightarrow> access_server_yield L B w = (e, w') \<Longrightarrow>
     access_inv w' \<and> cnt_state (kernel w') \<in> successors (cnt_state (kernel w))"
  using access_yield_step [OF ok] by blast

lemma run_inv: "boot w \<Longrightarrow> (api_step L B)\<^sup>*\<^sup>* w w' \<Longrightarrow> api_inv w'"
  using api_run_inv [OF ok] api_inv_boot by blast

end

section \<open>The protocol meets it\<close>

text \<open>The fields of the contract, all outside of what the protocol owns or stores.\<close>

definition kept_part :: "world \<Rightarrow> _" where
  "kept_part w = (lbs_redirect_times (kernel w), das_retry_times (kernel w), cnt_state (kernel w), access_risk (kernel w),
     my_state (kernel w), das w, q_inner w, map kernel_extend (domains w), domains_count w, extends w, extend_count w,
     event_notice_cb w, calls w, queues_wf w)"

lemma kept_part_simps:
  "kept_part (lbs_rest w) = kept_part w" "kept_part (stored a info w) = kept_part w" "kept_part (forget w) = kept_part w"
  by (simp_all add: kept_part_def lbs_rest_def stored_def forget_def save_das_info_def save_key_value_def upd_kernel_def
      queues_wf_def)

lemma kept_part_keeps: "kept_part w' = kept_part w \<Longrightarrow> lbs_keeps w w'"
  by (simp add: kept_part_def lbs_keeps_def parts_kept_def)

lemma effect_keeps:
  assumes "lbs_effect e (forget w) (forget w')"
  shows "lbs_keeps w w'"
proof (rule kept_part_keeps)
  from assms have "kept_part (lbs_rest (forget w')) = kept_part (lbs_rest (forget w))"
    by (auto simp: lbs_effect_def kept_part_simps(2) split: if_splits)
  then show "kept_part w' = kept_part w" by (simp only: kept_part_simps)
qed

text \<open>The keys and the stored values, which change as a whole.\<close>

definition key_part :: "world \<Rightarrow> _" where
  "key_part w = (saved_values w, dev_id (kernel w), master_key (kernel w), session_key (kernel w),
     redirect_das_info (kernel w))"

lemma key_part_simps:
  "key_part (lbs_rest w) = key_part w" "key_part (forget w) = key_part w"
  "key_part (stored a info w) = (saved_values w @ [(Sdk_keyvalue_devid, a_dev_id a), (Sdk_keyvalue_masterkey, a_master_key a)],
     a_dev_id a, a_master_key a, a_session_key a, info)"
  by (simp_all add: key_part_def lbs_rest_def stored_def forget_def save_das_info_def save_key_value_def upd_kernel_def)

lemma effect_keys:
  assumes "lbs_effect e (forget w) (forget w')"
  shows "if e = mkernel_internal_succ
     then saved_values w' = saved_values w @
       [(Sdk_keyvalue_devid, dev_id (kernel w')), (Sdk_keyvalue_masterkey, master_key (kernel w'))]
     else saved_values w' = saved_values w \<and> dev_id (kernel w') = dev_id (kernel w) \<and>
       master_key (kernel w') = master_key (kernel w) \<and> session_key (kernel w') = session_key (kernel w) \<and>
       redirect_das_info (kernel w') = redirect_das_info (kernel w)"
proof -
  have r: "saved_values (lbs_rest (forget w)) = saved_values w" by (simp add: lbs_rest_def forget_def upd_kernel_def)
  have k: "key_part (lbs_rest (forget v)) = key_part v" for v by (simp only: key_part_simps)
  show ?thesis
  proof (cases "e = mkernel_internal_succ")
    case True
    with assms obtain a info where "lbs_rest (forget w') = stored a info (lbs_rest (forget w))"
      by (auto simp: lbs_effect_def)
    then have "key_part w' = key_part (stored a info (lbs_rest (forget w)))" using k [of w'] by simp
    with True show ?thesis unfolding key_part_simps(3) r by (simp add: key_part_def)
  next
    case False
    with assms have "key_part w' = key_part w" using k [of w] k [of w'] by (simp add: lbs_effect_def)
    with False show ?thesis by (simp add: key_part_def)
  qed
qed

lemma redirect_keeps_parts:
  "lbs_keeps w (snd (lbs_redirect_with_auth L T u w))" "lbs_keeps w (snd (lbs_redirect_createdevid_with_auth L T u w))"
  "lbs_keeps w (snd (lbs_redirect L T w))"
  using effect_keeps redirect_effect(1) [where L = L and T = T and u = u] by (metis insertCI prod.collapse)+

interpretation lbs: lbs_provider "lbs_transport L T" for L T
  by unfold_locales (simp_all add: lbs_transport_def redirect_keeps_parts)

end
