(* ===== verification/Lbs_Replies.thy ===== *)
theory Lbs_Replies
  imports Lbs_Contract
begin

text \<open>
  Packets and replies of the load balancer protocol, end to end: what one side encodes the
  other reads back, what an accepted reply is known to contain, and what two kinds of reply
  do that the code does not guard against.
\<close>

section \<open>A packet over the wire\<close>

lemma head_put_fold:
  assumes "head_buf p = Some h" and "unat (head_buf_off p) = length h" and "length h + length bs < 256"
  shows "head_buf (fold head_put bs p) = Some (h @ bs) \<and> unat (head_buf_off (fold head_put bs p)) = length h + length bs"
  using assms
proof (induction bs arbitrary: p h)
  case (Cons b bs)
  have "unat (head_buf_off p + 1) = length h + 1"
    using Cons.prems(2,3) by (simp add: unat_word_ariths(1))
  moreover have "buf_write h (unat (head_buf_off p)) [b] = h @ [b]" unfolding Cons.prems(2) by (rule buf_write_end)
  ultimately have "head_buf (head_put b p) = Some (h @ [b])" "unat (head_buf_off (head_put b p)) = length (h @ [b])"
    using Cons.prems(1) by (simp_all add: head_put_def)
  from Cons.IH [OF this] Cons.prems(3) show ?case by simp
qed simp

lemma length_remain_bytes: "length (remain_bytes k n) \<le> k"
  by (induction k arbitrary: n) (auto simp: Let_def)

lemma old_header_written:
  assumes "header_serialize_old cmd n p = (mkernel_internal_succ, p')" and "head_buf p = Some []" and "head_buf_off p = 0"
  shows "written (head_buf p') (head_buf_off p') = push_bit 4 (ucast (cmd AND 0x0F)) # remain_bytes 4 n"
proof -
  let ?bs = "push_bit 4 (ucast (cmd AND 0x0F)) # remain_bytes 4 n :: byte list"
  have p': "p' = fold head_put ?bs p" using assms(1) by (auto simp: header_serialize_old_def split: if_splits)
  have "length ?bs < 256" using length_remain_bytes [of 4 n] by simp
  with head_put_fold [of p "[]" ?bs] assms(2,3)
  have "head_buf p' = Some ?bs" "unat (head_buf_off p') = length ?bs" unfolding p' by simp_all
  then show ?thesis by (simp add: written_def buf_read_all)
qed

lemma command_byte:
  fixes cmd :: uint32
  defines "b \<equiv> push_bit 4 (ucast (cmd AND 0x0F)) :: byte"
  shows "ucast (drop_bit 4 b) = cmd AND 0x0F" "b AND 0x08 = 0"
proof -
  have c: "cmd AND 0x0F = take_bit 4 cmd" by (simp add: take_bit_eq_mask mask_eq_exp_minus_1)
  show "ucast (drop_bit 4 b) = cmd AND 0x0F"
    unfolding b_def c by (intro bit_word_eqI) (auto simp: bit_simps)
  have "\<not> bit b 3" unfolding b_def by (simp add: bit_simps)
  then show "b AND 0x08 = 0" using and_exp_eq_0_iff_not_bit [of b 3] by simp
qed

lemma buf_write_read: "n = length bs \<Longrightarrow> buf_read (buf_write buf 0 bs) 0 n = bs"
  by (simp add: buf_write_def buf_read_def)

text \<open>
  A packet without variable header that comes back byte for byte is understood: the reader
  finds the command, the length and the payload, however the payload is split.
\<close>

lemma chunks_append: "chunks (xs @ ys) = chunks xs @ chunks ys"
  by (induction xs) simp_all

lemma wait_reads_packet:
  assumes "header_serialize_old cmd (of_nat (length bs)) p = (mkernel_internal_succ, p')"
    and "head_buf p = Some []" and "head_buf_off p = 0"
    and "plat w = chunks (map (\<lambda>b. [b]) (written (head_buf p') (head_buf_off p')) @ cs) @ rest"
    and "[] \<notin> set cs" and "concat cs = bs" and "bs \<noteq> []" and "length bs \<le> CONFIG_EZIOT_CORE_MESSAGE_SIZE_MAX"
    and "payload_buf_Len (global_in_packet a) = of_nat CONFIG_EZIOT_CORE_MESSAGE_SIZE_MAX"
  shows "\<exists>a'. wait_assign_response (a, w) =
      ((mkernel_internal_succ, cmd AND 0x0F, of_nat (length bs)), (a', w\<lparr>plat := rest\<rparr>)) \<and>
    buf_read (payload_buf (global_in_packet a')) 0 (length bs) = bs"
proof -
  let ?b = "push_bit 4 (ucast (cmd AND 0x0F)) :: byte" and ?n = "of_nat (length bs) :: uint32" and ?fd = "a_socket_fd a"
  let ?ls = "remain_bytes 4 ?n"
  note c = command_byte [of cmd]
  have n: "unat ?n = length bs"
    using assms(8) by (simp add: unat_of_nat CONFIG_EZIOT_CORE_MESSAGE_SIZE_MAX_def)
  have p: "plat w = chunks [[?b]] @ chunks (map (\<lambda>b. [b]) ?ls) @ chunks cs @ rest"
    using assms(4) unfolding old_header_written [OF assms(1-3)] by (simp add: chunks_append)
  let ?w1 = "w\<lparr>plat := chunks (map (\<lambda>b. [b]) ?ls) @ chunks cs @ rest\<rparr>" and ?w2 = "w\<lparr>plat := chunks cs @ rest\<rparr>"
  have 1: "net_read ?fd 1 w = ((mkernel_internal_succ, [?b]), ?w1)"
    using net_read_chunks [of w "[[?b]]" _ 1 ?fd, OF p] by simp
  have d: "length_bytes ?ls \<and> decode_remain 1 ?ls = ?n"
  proof -
    have "unat ?n < 128 ^ Suc 3" using n assms(8) by (simp add: CONFIG_EZIOT_CORE_MESSAGE_SIZE_MAX_def)
    moreover have "4 = Suc 3" by simp
    ultimately show ?thesis using decode_remain_bytes [of ?n 3 1] by (simp only: mult_1_right)
  qed
  have 2: "remain_loop ?fd 1 0 ?w1 = ((mkernel_internal_succ, ?n, last ?ls), ?w2)"
    using remain_loop_decode [of ?ls ?w1 "chunks cs @ rest" ?fd 1 0] d by simp
  let ?a1 = "upd_in (\<lambda>p. p\<lparr>head_buf := map_option (\<lambda>h. buf_write h 0 [?b, last ?ls]) (head_buf p)\<rparr>) a"
  have 3: "take_var_head (cmd AND 0x0F) ?b ?n (?a1, ?w2) = ((mkernel_internal_succ, ?n), (?a1, ?w2))"
    using assms(8,9) n c(2) by (simp add: take_var_head_def word_less_nat_alt upd_in_def CONFIG_EZIOT_CORE_MESSAGE_SIZE_MAX_def)
  have 4: "net_read (a_socket_fd ?a1) (unat ?n) ?w2 = ((mkernel_internal_succ, bs), w\<lparr>plat := rest\<rparr>)"
  proof -
    have "cs \<noteq> []" using assms(6,7) by auto
    then show ?thesis using net_read_chunks [of ?w2 cs rest "unat ?n"] assms(5,6) n by simp
  qed
  let ?a5 = "upd_in (\<lambda>p. p\<lparr>payload_buf := buf_write (payload_buf p) 0 bs\<rparr>) ?a1"
  have "wait_assign_response (a, w) = ((mkernel_internal_succ, cmd AND 0x0F, ?n), (?a5, w\<lparr>plat := rest\<rparr>))"
    unfolding wait_assign_response_def prod.case 1 Let_def list.sel c(1) 2 3 4 by simp
  moreover have "buf_read (payload_buf (global_in_packet ?a5)) 0 (length bs) = bs"
    by (simp add: upd_in_def buf_write_read)
  ultimately show ?thesis by blast
qed

section \<open>Accepted replies\<close>

lemma payload_off_skip [simp]:
  "payload_buf_off (global_in_packet (in_skip n a)) = payload_buf_off (global_in_packet a) + of_nat n"
  "payload_buf (global_in_packet (in_skip n a)) = payload_buf (global_in_packet a)"
  "a_subserial (in_skip n a) = a_subserial a" "a_master_key (in_skip n a) = a_master_key a"
  "a_dev_id (in_skip n a) = a_dev_id a" "a_session_key (in_skip n a) = a_session_key a"
  by (simp_all add: in_skip_def upd_in_def)

lemma open_field_succ:
  assumes "open_field L n a = ((mkernel_internal_succ, out), a')"
  shows "a' = in_skip n (in_skip 1 (in_skip 16 a))"
    and "\<exists>raw. aes_gcm_128_dec_padding (lib_tls L) (a_master_key a) (in_read n (in_skip 1 (in_skip 16 a))) (in_read 16 a) =
      (mkernel_internal_succ, raw, Some n) \<and> out = take n raw"
  using assms by (auto simp: open_field_def Let_def split: prod.splits if_splits)

lemma platform_error_not_succ: "mkernel_internal_platform_error + result_code a \<noteq> mkernel_internal_succ"
proof -
  have "- (2 ^ (LENGTH(8) - 1)) \<le> sint (x :: byte)" for x by (rule sint_ge)
  from this [of "buf_get (payload_buf (global_in_packet a)) (in_off a)"] show ?thesis by (simp add: result_code_def)
qed

text \<open>
  The reply with device id and session key is taken over only when both fields pass the
  authenticated decryption with the master key and the last 48 bytes are the keyed hash of
  the serial number.
\<close>

lemma create_dev_id_succ:
  assumes "parse_authentication_create_dev_id L T n a = (mkernel_internal_succ, a')"
  shows "payload_buf_off (global_in_packet a') = payload_buf_off (global_in_packet a) + 86"
    and "ucast (n - (payload_buf_off (global_in_packet a) + 86)) = (48 :: uint16)"
    and "digital_sign T (string_bytes (a_subserial a)) (a_master_key a) = (0, in_read 48 a')"
    and "\<exists>raw. aes_gcm_128_dec_padding (lib_tls L) (a_master_key a) (in_read 32 (in_skip 21 a)) (in_read 16 (in_skip 4 a)) =
      (mkernel_internal_succ, raw, Some 32) \<and> a_dev_id a' = take 32 raw"
    and "\<exists>raw. aes_gcm_128_dec_padding (lib_tls L) (a_master_key a) (in_read 16 (in_skip 70 a)) (in_read 16 (in_skip 53 a)) =
      (mkernel_internal_succ, raw, Some 16) \<and> a_session_key a' = take 16 raw"
proof -
  have s: "in_skip m (in_skip k b) = in_skip (m + k) b" for m k b
    by (simp add: in_skip_def upd_in_def add.assoc add.commute [of "of_nat m"])
  have r: "in_read m (in_skip k (b\<lparr>a_dev_id := d\<rparr>)) = in_read m (in_skip k b)"
    "in_read m (b\<lparr>a_dev_id := d\<rparr>) = in_read m b" "in_read m (b\<lparr>a_session_key := d\<rparr>) = in_read m b" for m k b d
    by (simp_all add: in_read_def in_off_def in_skip_def upd_in_def)
  note pe = platform_error_not_succ [of "in_skip 3 a"]
  obtain d a2 where 1: "open_field L 32 (in_skip 1 (in_skip 3 a)) = ((mkernel_internal_succ, d), a2)"
    using assms pe by (auto simp: parse_authentication_create_dev_id_def Let_def split: prod.splits if_splits)
  obtain k a3 where 2: "open_field L 16 (a2\<lparr>a_dev_id := d\<rparr>) = ((mkernel_internal_succ, k), a3)"
    using assms 1 pe by (auto simp: parse_authentication_create_dev_id_def Let_def split: prod.splits if_splits)
  have a: "a' = a3\<lparr>a_session_key := k\<rparr>"
    and sg: "digital_sign_serialize_and_check_sha384 T (in_read 48 a') (ucast (n - payload_buf_off (global_in_packet a')))
      (string_bytes (a_subserial a')) (a_master_key a') = mkernel_internal_succ"
    using assms 1 2 pe by (auto simp: parse_authentication_create_dev_id_def Let_def split: prod.splits if_splits)
  note f1 = open_field_succ [OF 1] and f2 = open_field_succ [OF 2]
  have a2: "a2 = in_skip 53 a" using f1(1) by (simp add: s)
  have a3: "a3 = in_skip 33 (a2\<lparr>a_dev_id := d\<rparr>)" using f2(1) by (simp add: s)
  show o: "payload_buf_off (global_in_packet a') = payload_buf_off (global_in_packet a) + 86"
    by (simp add: a a3 a2)
  have m: "a_master_key a' = a_master_key a" "a_subserial a' = a_subserial a" by (simp_all add: a a3 a2)
  show "ucast (n - (payload_buf_off (global_in_packet a) + 86)) = (48 :: uint16)"
    using sg by (simp add: digital_sign_serialize_and_check_sha384_def o m split: if_splits prod.splits)
  have "length (in_read 48 a') = 48" by (simp add: in_read_def)
  then show "digital_sign T (string_bytes (a_subserial a)) (a_master_key a) = (0, in_read 48 a')"
    using sg by (simp add: digital_sign_serialize_and_check_sha384_def m split: if_splits prod.splits)
  show "\<exists>raw. aes_gcm_128_dec_padding (lib_tls L) (a_master_key a) (in_read 32 (in_skip 21 a)) (in_read 16 (in_skip 4 a)) =
      (mkernel_internal_succ, raw, Some 32) \<and> a_dev_id a' = take 32 raw"
    using f1(2) by (simp add: s a a3)
  show "\<exists>raw. aes_gcm_128_dec_padding (lib_tls L) (a_master_key a) (in_read 16 (in_skip 70 a)) (in_read 16 (in_skip 53 a)) =
      (mkernel_internal_succ, raw, Some 16) \<and> a_session_key a' = take 16 raw"
    using f2(2) by (simp add: s a a2 r)
qed

section \<open>Replies the code does not guard against\<close>

text \<open>
  The platform's key is decrypted into a buffer of 128 bytes; its length is what is left of the
  reply, cut to eight bits.
\<close>

lemma plat_key_len:
  assumes "unat n = in_off a + k"
  shows "unat (recv_plat_key_len n a) = k mod 256"
proof -
  have "in_off a + k < 2 ^ 32" using unsigned_less [of n, where 'a = nat] assms(1) by simp
  then have "n = payload_buf_off (global_in_packet a) + of_nat k"
    using assms by (simp add: word_unat_eq_iff in_off_def unat_word_ariths(1) unat_of_nat)
  then show ?thesis
    by (simp add: recv_plat_key_len_def unsigned_ucast_eq take_bit_eq_mod unat_of_nat mod_mod_cancel)
qed

lemma parse_ii_fault:
  assumes "head_flag (global_out_packet a) = 1" and "head_flag (global_in_packet a) = 1"
    and "first_var (global_in_packet a) = first_var (global_out_packet a)" and "result_code (in_skip 3 a) = 0"
    and "dev_cur_auth_type (kernel w) = 1" and "gcm_setkey (lib_tls L) (take 16 (share_key a)) = 0"
    and "unat n = in_off a + 20 + k" and "\<not> w_fault w"
    and "\<And>d q x. ecdh_calc_secret T d q = (0, x) \<Longrightarrow> length x \<le> 48"
  shows "w_fault (snd (snd (parse_authentication_ii L T n (a, w)))) \<longleftrightarrow> 128 < k mod 256"
proof -
  let ?a2 = "in_skip 16 (in_skip 1 (in_skip 3 a))" and ?t = "in_read 16 (in_skip 1 (in_skip 3 a))" and ?k = "k mod 256"
  have h: "head_flag (global_in_packet (in_skip 3 a)) = head_flag (global_in_packet a)"
    "first_var (global_in_packet (in_skip 3 a)) = first_var (global_in_packet a)"
    "share_key ?a2 = share_key a"
    by (simp_all add: head_flag_def first_var_def in_skip_def upd_in_def)
  have "in_off a + 20 < 2 ^ 32" using unsigned_less [of n, where 'a = nat] assms(7) by simp
  then have "in_off ?a2 = in_off a + 20"
    by (simp add: in_off_def unat_word_ariths(1) add.assoc)
  with assms(7) have l: "unat (recv_plat_key_len n ?a2) = ?k" by (intro plat_key_len) simp_all
  have n0: "n \<noteq> 0" using assms(7) by auto
  obtain e out m where g: "aes_gcm_128_dec_padding (lib_tls L) (take 16 (share_key a)) (in_read ?k ?a2) ?t = (e, out, m)"
    by (metis prod.collapse)
  have 1: "aes_128_decrypt_peer_pubkey L n ?t (?a2, w) =
      ((e, if e = mkernel_internal_succ then take ?k out else []), (?a2, faulty (128 < ?k) w))"
    using n0 assms(6) by (simp add: aes_128_decrypt_peer_pubkey_def Let_def l h(3) g del: One_nat_def)
  obtain e1 secret where 2: "ezdev_generate_masterkey T (ecdh_priv T) (if e = mkernel_internal_succ then take ?k out else []) =
      (e1, secret)" by fastforce
  have "length secret \<le> 48"
    using 2 assms(9) by (auto simp: ezdev_generate_masterkey_def Let_def split: if_splits prod.splits)
  then have "\<not> 48 < length secret" by simp
  then show ?thesis
    using assms(1-5,8) 2
    by (cases "e = mkernel_internal_succ") (simp_all add: parse_authentication_ii_def Let_def h 1 faulty_def del: One_nat_def)
qed

text \<open>
  A reply that names authentication type 0 is taken as an offered type, since the search
  also covers the unused zero bytes of the variable header. From then on both
  authenticating entry points refuse to run.
\<close>

lemma rematch_to_zero:
  assumes "wait_assign_response s = ((mkernel_internal_succ, DEV_PROTOCOL_AUTHENTICATION_II, n), (a, w))"
    and "head_flag (global_out_packet a) = 1" and "head_flag (global_in_packet a) = 1"
    and "var_head_buf (global_out_packet a) = Some [1, 1, 1]" and "var_head_buf_Len (global_out_packet a) = 16"
    and "first_var (global_in_packet a) = 0"
  shows "wait_authentication_ii L T s = (mkernel_internal_platform_lbs_auth_type_need_rematch,
      (in_skip 3 a, upd_kernel (\<lambda>k. k\<lparr>dev_cur_auth_type := 0\<rparr>) w))"
proof -
  have "offered (in_skip 3 a) 0"
    using assms(4,5) by (simp add: offered_def in_skip_def upd_in_def written_def buf_read_def buf_get_def zeros_def)
  moreover have "first_var (global_out_packet a) = 1"
    using assms(4) by (simp add: first_var_def written_def buf_read_def buf_get_def)
  ultimately have "parse_authentication_ii L T n (a, w) = (mkernel_internal_platform_lbs_auth_type_need_rematch, (in_skip 3 a, w))"
    using assms(2,3,6)
    by (simp add: parse_authentication_ii_def Let_def head_flag_def first_var_def in_skip_def upd_in_def)
  then show ?thesis
    using assms(1,6) by (simp add: wait_authentication_ii_def first_var_def in_skip_def upd_in_def)
qed

lemma no_auth_without_type_1:
  assumes "dev_cur_auth_type (kernel w) \<noteq> 1"
  shows "lbs_redirect_with_auth L T u w = (mkernel_internal_internal_err, w)"
    and "lbs_redirect_createdevid_with_auth L T u w = (mkernel_internal_internal_err, w)"
  using assms by (simp_all add: lbs_redirect_with_auth_def lbs_redirect_createdevid_with_auth_def with_ecdh_ctx_def)

text \<open>When the first block of a transaction is refused, descriptor 0 is closed.\<close>

lemma setup_failure_closes_0:
  assumes "answers (w_mem w) = False # as"
  shows "fst (lbs_redirect L T w) = mkernel_internal_mem_lack"
    and "net_ops (snd (lbs_redirect L T w)) = net_ops w @ [Sock_close 0]"
proof -
  obtain e a w1 where 1: "init_lbs_affair T True (zero_affair, w) = (e, (a, w1))" by (metis prod.collapse)
  have p: "w_mem w' = w_mem w" if "plat_call w = (r, w')" for r w w'
    using net_step_rest(4) [OF plat_call_step [OF that]] .
  have m: "w_malloc v = (False, v\<lparr>w_mem := (w_mem v)\<lparr>answers := as\<rparr>\<rparr>)" if "w_mem v = w_mem w" for v
    using that assms by (simp add: w_malloc_def ezos_malloc_def)
  have "e = mkernel_internal_mem_lack"
    using 1 unfolding init_lbs_affair_def by (auto simp: Let_def m p split: prod.splits)
  with init_effect [OF 1] have i: "a_socket_fd a = 0" "net_ops w1 = net_ops w" by auto
  have "lbs_redirect L T w = end_affair (mkernel_internal_mem_lack, (a, w1))"
    using 1 \<open>e = mkernel_internal_mem_lack\<close> by (simp add: lbs_redirect_def then_ok_def)
  moreover obtain w' where "end_affair (mkernel_internal_mem_lack, (a, w1)) = (mkernel_internal_mem_lack, w')"
    by (simp add: end_affair_def)
  ultimately show "fst (lbs_redirect L T w) = mkernel_internal_mem_lack"
    "net_ops (snd (lbs_redirect L T w)) = net_ops w @ [Sock_close 0]"
    using end_affair_eq [of mkernel_internal_mem_lack a w1 w'] i by simp_all
qed

end
