(* ===== verification/Ez_List.thy ===== *)
theory Ez_List
  imports Prelude
begin

text \<open>
  The intrusive doubly linked list of \<^verbatim>\<open>components/ezlist\<close>. A node is an address; the store
  maps the address of every allocated node to its two links. Reading or writing a link of a node
  that is not allocated raises the ghost flag \<^verbatim>\<open>ls_fault\<close>. The list of the addresses in
  order is the abstract value; \<^verbatim>\<open>dl_rep\<close> relates a list block to it. The locale \<^verbatim>\<open>ordered_list\<close> is
  what the timer and the other users of the list rely on; it is interpreted on the operations here.
\<close>

section \<open>Data\<close>

record ez_node_t =
  nd_next :: "nat option"
  nd_prev :: "nat option"

type_synonym node_store = "nat \<Rightarrow> ez_node_t option"

text \<open>The header's \<^verbatim>\<open>next\<close> is the first node and its \<^verbatim>\<open>prev\<close> the last one.\<close>

record ez_list_t =
  ls_next :: "nat option"
  ls_prev :: "nat option"
  ls_size :: uint32
  ls_nodes :: node_store
  ls_fault :: bool

section \<open>Operations\<close>

text \<open>\<^verbatim>\<open>p->...\<close>, read through a pointer that may be NULL or stale.\<close>

definition node_at :: "nat option \<Rightarrow> ez_list_t \<Rightarrow> ez_node_t option" where
  "node_at p l = (case p of None \<Rightarrow> None | Some a \<Rightarrow> ls_nodes l a)"

definition upd_node :: "nat \<Rightarrow> (ez_node_t \<Rightarrow> ez_node_t) \<Rightarrow> ez_list_t \<Rightarrow> ez_list_t" where
  "upd_node a f l =
     (case ls_nodes l a of
        None \<Rightarrow> l\<lparr>ls_fault := True\<rparr>
      | Some nd \<Rightarrow> l\<lparr>ls_nodes := (ls_nodes l)(a \<mapsto> f nd)\<rparr>)"

definition ezlist_init :: "ez_list_t \<Rightarrow> ez_list_t" where
  "ezlist_init l = l\<lparr>ls_prev := None, ls_next := None, ls_size := 0\<rparr>"

definition ezlist_get_first :: "ez_list_t \<Rightarrow> nat option" where
  "ezlist_get_first l = ls_next l"

definition ezlist_get_last :: "ez_list_t \<Rightarrow> nat option" where
  "ezlist_get_last l = ls_prev l"

definition ezlist_get_size :: "ez_list_t \<Rightarrow> uint32" where
  "ezlist_get_size l = ls_size l"

text \<open>The loops of the positional access: \<^verbatim>\<open>k\<close> steps along a link; None after a step from a NULL pointer.\<close>

fun node_steps :: "(ez_node_t \<Rightarrow> nat option) \<Rightarrow> nat \<Rightarrow> nat option \<Rightarrow> ez_list_t \<Rightarrow> nat option option" where
  "node_steps link 0 p l = Some p"
| "node_steps link (Suc k) p l = (case node_at p l of None \<Rightarrow> None | Some nd \<Rightarrow> node_steps link k (link nd) l)"

text \<open>
  \<^verbatim>\<open>ezlist_get_at\<close>: \<^verbatim>\<open>while (--index > 0)\<close> runs \<^verbatim>\<open>index - 1\<close> times and
  \<^verbatim>\<open>while (index-- > 0)\<close> runs \<^verbatim>\<open>index\<close> times. The result None is a crash, \<^verbatim>\<open>Some None\<close> the NULL pointer.
\<close>

definition ezlist_get_at :: "ez_list_t \<Rightarrow> uint32 \<Rightarrow> nat option option" where
  "ezlist_get_at l index =
     (if index < 1 \<or> index > ls_size l then Some None
      else if index < signed_drop_bit 1 (ls_size l) then node_steps nd_next (unat (index - 1)) (ls_next l) l
      else let index' = index - (ls_size l - index) in node_steps nd_prev (unat index') (ls_prev l) l)"

definition ezlist_add_at :: "nat option \<Rightarrow> nat \<Rightarrow> ez_list_t \<Rightarrow> ez_list_t" where
  "ezlist_add_at pprev pnode l =
     (let (pnode_next, l1) =
            (case pprev of
               None \<Rightarrow> (ls_next l, l\<lparr>ls_next := Some pnode\<rparr>)
             | Some p \<Rightarrow> (case ls_nodes l p of
                   None \<Rightarrow> (None, l\<lparr>ls_fault := True\<rparr>)
                 | Some nd \<Rightarrow> (nd_next nd, upd_node p (\<lambda>n. n\<lparr>nd_next := Some pnode\<rparr>) l)));
          l2 = (case pnode_next of
                  None \<Rightarrow> l1\<lparr>ls_prev := Some pnode\<rparr>
                | Some q \<Rightarrow> upd_node q (\<lambda>n. n\<lparr>nd_prev := Some pnode\<rparr>) l1);
          l3 = upd_node pnode (\<lambda>n. n\<lparr>nd_next := pnode_next, nd_prev := pprev\<rparr>) l2
      in l3\<lparr>ls_size := ls_size l3 + 1\<rparr>)"

definition ezlist_add_last :: "nat \<Rightarrow> ez_list_t \<Rightarrow> ez_list_t" where
  "ezlist_add_last pnode l = ezlist_add_at (ls_prev l) pnode l"

text \<open>
  The consistency tests of \<^verbatim>\<open>ezlist_delete\<close>: the node before (or the header) must point to the
  node, and so must the node after. None is a read through a stale link.
\<close>

definition before_ok :: "nat \<Rightarrow> ez_node_t \<Rightarrow> ez_list_t \<Rightarrow> bool option" where
  "before_ok pnode nd l =
     (case nd_prev nd of
        None \<Rightarrow> Some (ls_next l = Some pnode)
      | Some p \<Rightarrow> map_option (\<lambda>n. nd_next n = Some pnode) (ls_nodes l p))"

definition after_ok :: "nat \<Rightarrow> ez_node_t \<Rightarrow> ez_list_t \<Rightarrow> bool option" where
  "after_ok pnode nd l =
     (case nd_next nd of
        None \<Rightarrow> Some (ls_prev l = Some pnode)
      | Some q \<Rightarrow> map_option (\<lambda>n. nd_prev n = Some pnode) (ls_nodes l q))"

definition unlink :: "ez_node_t \<Rightarrow> ez_list_t \<Rightarrow> ez_list_t" where
  "unlink nd l =
     (let l1 = (case nd_prev nd of
                  None \<Rightarrow> l\<lparr>ls_next := nd_next nd\<rparr>
                | Some p \<Rightarrow> upd_node p (\<lambda>n. n\<lparr>nd_next := nd_next nd\<rparr>) l);
          l2 = (case nd_next nd of
                  None \<Rightarrow> l1\<lparr>ls_prev := nd_prev nd\<rparr>
                | Some q \<Rightarrow> upd_node q (\<lambda>n. n\<lparr>nd_prev := nd_prev nd\<rparr>) l1)
      in l2\<lparr>ls_size := ls_size l2 - 1\<rparr>)"

definition ezlist_delete :: "nat \<Rightarrow> ez_list_t \<Rightarrow> ez_list_t" where
  "ezlist_delete pnode l =
     (case ls_nodes l pnode of
        None \<Rightarrow> l\<lparr>ls_fault := True\<rparr>
      | Some nd \<Rightarrow>
          (case before_ok pnode nd l of
             None \<Rightarrow> l\<lparr>ls_fault := True\<rparr>
           | Some False \<Rightarrow> l
           | Some True \<Rightarrow>
               (case after_ok pnode nd l of
                  None \<Rightarrow> l\<lparr>ls_fault := True\<rparr>
                | Some False \<Rightarrow> l
                | Some True \<Rightarrow> unlink nd l)))"

text \<open>The loop of \<^verbatim>\<open>ezlist_clear\<close>; on a cyclic list it would read freed nodes.\<close>

partial_function (option) clear_loop :: "nat option \<Rightarrow> mem \<times> ez_list_t \<Rightarrow> (mem \<times> ez_list_t) option" where
  "clear_loop p1 s =
     (case p1 of
        None \<Rightarrow> Some s
      | Some a \<Rightarrow>
          (case ls_nodes (snd s) a of
             None \<Rightarrow> Some (fst s, (snd s)\<lparr>ls_fault := True\<rparr>)
           | Some nd \<Rightarrow> clear_loop (nd_next nd)
               (ezos_free (fst s), (snd s)\<lparr>ls_nodes := (ls_nodes (snd s))(a := None)\<rparr>)))"

definition ezlist_clear :: "mem \<times> ez_list_t \<Rightarrow> (mem \<times> ez_list_t) option" where
  "ezlist_clear s =
     (if sint (ls_size (snd s)) > 0
      then map_option (\<lambda>(m, l). (m, l\<lparr>ls_size := 0, ls_next := None, ls_prev := None\<rparr>)) (clear_loop (ls_next (snd s)) s)
      else Some s)"

section \<open>The represented sequence\<close>

fun first_or :: "nat option \<Rightarrow> nat list \<Rightarrow> nat option" where
  "first_or n [] = n"
| "first_or n (x # xs) = Some x"

definition last_or :: "nat option \<Rightarrow> nat list \<Rightarrow> nat option" where
  "last_or p xs = (if xs = [] then p else Some (last xs))"

text \<open>A segment of linked nodes between the pointers \<^verbatim>\<open>p\<close> and \<^verbatim>\<open>n\<close>.\<close>

fun dseg :: "node_store \<Rightarrow> nat option \<Rightarrow> nat list \<Rightarrow> nat option \<Rightarrow> bool" where
  "dseg m p [] n \<longleftrightarrow> True"
| "dseg m p (x # xs) n \<longleftrightarrow> m x = Some \<lparr>nd_next = first_or n xs, nd_prev = p\<rparr> \<and> dseg m (Some x) xs n"

definition dl_rep :: "ez_list_t \<Rightarrow> nat list \<Rightarrow> bool" where
  "dl_rep l xs \<longleftrightarrow> dseg (ls_nodes l) None xs None \<and> distinct xs \<and> ls_next l = first_or None xs
     \<and> ls_prev l = last_or None xs \<and> unat (ls_size l) = length xs \<and> length xs < 2 ^ 31
     \<and> \<not> ls_fault l"

lemma last_or_simps [simp]:
  "last_or p [] = p" "last_or p (xs @ [x]) = Some x" "last_or p (x # xs) = last_or (Some x) xs"
  by (simp_all add: last_or_def)

lemma last_or_append [simp]: "last_or p (xs @ ys) = last_or (last_or p xs) ys"
  by (simp add: last_or_def)

lemma first_or_append [simp]: "first_or n (xs @ ys) = first_or (first_or n ys) xs"
  by (cases xs) simp_all

lemma dseg_append [simp]:
  "dseg m p (xs @ ys) n \<longleftrightarrow> dseg m p xs (first_or n ys) \<and> dseg m (last_or p xs) ys n"
  by (induction xs arbitrary: p) simp_all

lemma dseg_upd [simp]: "a \<notin> set xs \<Longrightarrow> dseg (m(a := v)) p xs n = dseg m p xs n"
  by (induction xs arbitrary: p) auto

text \<open>A change of the pointer after a segment is a change of its last node, one of the pointer before it a
  change of its first node.\<close>

lemma dseg_set_next:
  "dseg m p (xs @ [x]) n \<Longrightarrow> x \<notin> set xs \<Longrightarrow>
     dseg (m(x \<mapsto> (the (m x))\<lparr>nd_next := n'\<rparr>)) p (xs @ [x]) n'"
  by simp

lemma dseg_set_prev:
  "dseg m p (x # xs) n \<Longrightarrow> x \<notin> set xs \<Longrightarrow>
     dseg (m(x \<mapsto> (the (m x))\<lparr>nd_prev := p'\<rparr>)) p' (x # xs) n"
  by simp

lemma dseg_node:
  "dseg m p (xs @ x # ys) n \<Longrightarrow> m x = Some \<lparr>nd_next = first_or n ys, nd_prev = last_or p xs\<rparr>"
  by simp

section \<open>Insertion and deletion\<close>

lemma dl_rep_size:
  "dl_rep l xs \<Longrightarrow> Suc (length xs) < 2 ^ 31 \<Longrightarrow> unat (ls_size l + 1) = Suc (length xs)"
  by (simp add: dl_rep_def unat_word_ariths)

theorem add_at_rep:
  assumes l: "dl_rep l (as @ bs)" and new: "x \<notin> set (as @ bs)" "ls_nodes l x \<noteq> None"
    and room: "Suc (length (as @ bs)) < 2 ^ 31"
  shows "dl_rep (ezlist_add_at (last_or None as) x l) (as @ x # bs)"
proof -
  have sz: "unat (ls_size l + 1) = Suc (length (as @ bs))"
    using dl_rep_size [OF l room] .
  obtain nd where nd: "ls_nodes l x = Some nd"
    using new(2) by blast
  show ?thesis
  proof (cases as rule: rev_cases)
    case Nil
    show ?thesis
      using l new(1) nd room sz
      by (cases bs) (auto simp: Nil dl_rep_def ezlist_add_at_def upd_node_def Let_def)
  next
    case (snoc as' a)
    show ?thesis
      using l new(1) nd room sz
      by (cases bs) (auto simp: snoc dl_rep_def ezlist_add_at_def upd_node_def Let_def)
  qed
qed

theorem delete_rep:
  assumes l: "dl_rep l (as @ x # bs)"
  shows "dl_rep (ezlist_delete x l) (as @ bs)"
proof -
  have sz: "unat (ls_size l - 1) = length (as @ bs)"
    using l by (simp add: dl_rep_def unat_pred)
  show ?thesis
  proof (cases as rule: rev_cases)
    case Nil
    show ?thesis
      using l sz by (cases bs)
        (auto simp: Nil dl_rep_def ezlist_delete_def before_ok_def after_ok_def unlink_def upd_node_def)
  next
    case (snoc as' a)
    show ?thesis
      using l sz by (cases bs)
        (auto simp: snoc dl_rep_def ezlist_delete_def before_ok_def after_ok_def unlink_def upd_node_def)
  qed
qed

text \<open>Neither operation touches a link of a node outside the list.\<close>

lemma add_at_frame:
  assumes "dl_rep l (as @ bs)" "x \<notin> set (as @ bs)" "ls_nodes l x \<noteq> None" "y \<notin> set (x # as @ bs)"
  shows "ls_nodes (ezlist_add_at (last_or None as) x l) y = ls_nodes l y"
  using assms by (cases as rule: rev_cases; cases bs)
    (auto simp: dl_rep_def ezlist_add_at_def upd_node_def Let_def)

lemma delete_frame:
  assumes "dl_rep l (as @ x # bs)" "y \<notin> set (as @ bs)"
  shows "ls_nodes (ezlist_delete x l) y = ls_nodes l y"
  using assms by (cases as rule: rev_cases; cases bs)
    (auto simp: dl_rep_def ezlist_delete_def before_ok_def after_ok_def unlink_def upd_node_def)

text \<open>Links of listed nodes point to listed nodes.\<close>

lemma dl_rep_member:
  assumes "dl_rep l xs" "a \<in> set xs"
  obtains ys zs where "xs = ys @ a # zs"
    "ls_nodes l a = Some \<lparr>nd_next = first_or None zs, nd_prev = last_or None ys\<rparr>"
proof -
  obtain ys zs where s: "xs = ys @ a # zs"
    using assms(2) by (meson split_list)
  with assms(1) show thesis
    by (intro that [OF s]) (simp add: dl_rep_def)
qed

lemma first_or_mem: "first_or None zs = Some y \<Longrightarrow> y \<in> set zs"
  by (cases zs) simp_all

lemma last_or_mem: "last_or None ys = Some y \<Longrightarrow> y \<in> set ys"
  by (cases ys rule: rev_cases) simp_all

text \<open>A node that is not in the list, and whose previous node is none or a listed one, is left alone: a second
  deletion of a node does nothing.\<close>

lemma delete_other:
  assumes l: "dl_rep l xs" and x: "x \<notin> set xs" "ls_nodes l x = Some nd"
    and prev: "nd_prev nd = None \<or> (\<exists>p \<in> set xs. nd_prev nd = Some p)"
  shows "ezlist_delete x l = l"
proof (cases "nd_prev nd")
  case None
  have "ls_next l \<noteq> Some x"
    using l x(1) first_or_mem by (auto simp: dl_rep_def)
  with None x(2) show ?thesis
    by (simp add: ezlist_delete_def before_ok_def)
next
  case (Some p)
  with prev have "p \<in> set xs" by simp
  then obtain ys zs where s: "xs = ys @ p # zs"
      and p: "ls_nodes l p = Some \<lparr>nd_next = first_or None zs, nd_prev = last_or None ys\<rparr>"
    using dl_rep_member [OF l] by metis
  have "first_or None zs \<noteq> Some x"
    using first_or_mem x(1) s by auto
  with Some p x(2) show ?thesis
    by (simp add: ezlist_delete_def before_ok_def)
qed

section \<open>Clearing\<close>

lemma clear_loop_frees:
  "dseg (ls_nodes l) p xs None \<Longrightarrow> distinct xs \<Longrightarrow>
     clear_loop (first_or None xs) (m, l)
       = Some (ezos_frees (length xs) m, l\<lparr>ls_nodes := (\<lambda>a. if a \<in> set xs then None else ls_nodes l a)\<rparr>)"
proof (induction xs arbitrary: p m l)
  case Nil
  then show ?case by (simp add: clear_loop.simps ezos_frees_def)
next
  case (Cons x xs)
  let ?l = "l\<lparr>ls_nodes := (ls_nodes l)(x := None)\<rparr>"
  have "clear_loop (first_or None (x # xs)) (m, l) = clear_loop (first_or None xs) (ezos_free m, ?l)"
    using Cons.prems by (simp add: clear_loop.simps [of "Some x"])
  also have "\<dots> = Some (ezos_frees (length xs) (ezos_free m),
      ?l\<lparr>ls_nodes := (\<lambda>a. if a \<in> set xs then None else ls_nodes ?l a)\<rparr>)"
    using Cons.prems by (intro Cons.IH [where p = "Some x" and l = ?l]) (simp_all del: fun_upd_apply)
  finally show ?case
    by (auto simp: ezos_frees_def ezos_free_def fun_eq_iff algebra_simps)
qed

lemma sint_small: "unat (a :: uint32) < 2 ^ 31 \<Longrightarrow> sint a = int (unat a)"
proof -
  assume "unat a < 2 ^ 31"
  then have "uint a < 2 ^ 31"
    by (metis of_nat_less_iff of_nat_numeral of_nat_power of_nat_unat)
  then show ?thesis
    by (simp add: sint_uint signed_take_bit_int_eq_self order_trans [of _ 0])
qed

theorem clear_rep:
  assumes l: "dl_rep l xs"
  shows "\<exists>l'. ezlist_clear (m, l) = Some (ezos_frees (length xs) m, l') \<and> dl_rep l' []
    \<and> ls_nodes l' = (\<lambda>a. if a \<in> set xs then None else ls_nodes l a)"
proof (cases "xs = []")
  case True
  with l have "ls_size l = 0"
    by (simp add: dl_rep_def unat_eq_zero)
  with True l show ?thesis
    by (simp add: ezlist_clear_def ezos_frees_def)
next
  case False
  have "sint (ls_size l) = int (length xs)"
    using l sint_small [of "ls_size l"] by (simp add: dl_rep_def)
  with False l show ?thesis
    by (simp add: ezlist_clear_def dl_rep_def clear_loop_frees [of l None])
qed

section \<open>Positional access\<close>

lemma walk_forward:
  "dseg (ls_nodes l) p xs None \<Longrightarrow>
     node_steps nd_next k (first_or None xs) l
       = (if k < length xs then Some (Some (xs ! k)) else if k = length xs then Some None else None)"
proof (induction k arbitrary: p xs)
  case 0
  then show ?case by (cases xs) simp_all
next
  case (Suc k)
  show ?case
  proof (cases xs)
    case Nil
    then show ?thesis by (simp add: node_at_def)
  next
    case (Cons y ys)
    with Suc.prems Suc.IH [of "Some y" ys] show ?thesis by (simp add: node_at_def)
  qed
qed

lemma walk_backward:
  "dseg (ls_nodes l) None xs n \<Longrightarrow>
     node_steps nd_prev k (last_or None xs) l
       = (if k < length xs then Some (Some (xs ! (length xs - Suc k))) else if k = length xs then Some None else None)"
proof (induction k arbitrary: xs n)
  case 0
  then show ?case by (cases xs rule: rev_cases) (simp_all add: nth_append)
next
  case (Suc k)
  show ?case
  proof (cases xs rule: rev_cases)
    case Nil
    then show ?thesis by (simp add: node_at_def)
  next
    case (snoc ys y)
    with Suc.prems Suc.IH [of ys "Some y"] show ?thesis
      by (cases "k < length ys") (auto simp: node_at_def nth_append)
  qed
qed

lemma unat_half: "unat (a :: uint32) < 2 ^ 31 \<Longrightarrow> unat (signed_drop_bit (Suc 0) a) = unat a div 2"
proof -
  assume a: "unat a < 2 ^ 31"
  have "sint (signed_drop_bit (Suc 0) a) = int (unat a div 2)"
    by (simp add: sint_signed_drop_bit_eq sint_small [OF a] drop_bit_Suc zdiv_int del: of_nat_unat)
  then have "uint (signed_drop_bit (Suc 0) a) = int (unat a div 2)"
    using a by (simp add: uint_sint take_bit_int_eq_self del: of_nat_unat)
  then show ?thesis
    by (metis of_nat_eq_iff of_nat_unat)
qed

lemma unat_back:
  fixes i n :: uint32
  assumes "unat n < 2 ^ 31" "unat i \<le> unat n"
  shows "unat (i - (n - i)) = (if unat n \<le> 2 * unat i then 2 * unat i - unat n else 2 ^ 32 - (unat n - 2 * unat i))"
proof -
  have e: "uint (i - (n - i)) = (2 * int (unat i) - int (unat n)) mod 2 ^ 32"
    by (simp add: uint_word_ariths mod_simps)
  show ?thesis
  proof (cases "unat n \<le> 2 * unat i")
    case True
    with e assms have "uint (i - (n - i)) = int (2 * unat i - unat n)"
      by (simp add: of_nat_diff del: of_nat_unat)
    with True show ?thesis by (metis of_nat_eq_iff of_nat_unat)
  next
    case False
    define k where "k = 2 * int (unat i) - int (unat n)"
    have k: "- (2 ^ 32) < k" "k < 0"
      using False assms by (simp_all add: k_def del: of_nat_unat)
    then have "(k + 2 ^ 32) mod 2 ^ 32 = k + 2 ^ 32"
      by (intro mod_pos_pos_trivial) simp_all
    then have "k mod 2 ^ 32 = k + 2 ^ 32"
      by simp
    with e k False assms have "uint (i - (n - i)) = int (2 ^ 32 - (unat n - 2 * unat i))"
      by (simp add: of_nat_diff k_def del: of_nat_unat)
    with False show ?thesis by (metis of_nat_eq_iff of_nat_unat)
  qed
qed

text \<open>The result for every position of a list.\<close>

lemma get_at_value:
  assumes l: "dl_rep l xs" and i: "0 < unat index" "unat index \<le> length xs"
  shows "ezlist_get_at l index =
    (if unat index < length xs div 2 then Some (Some (xs ! (unat index - 1)))
     else if 2 * unat index < length xs then None
     else if unat index = length xs then Some None
     else Some (Some (xs ! (2 * length xs - 2 * unat index - 1))))"
proof -
  let ?i = "unat index"
  let ?n = "length xs"
  have n: "unat (ls_size l) = ?n" "?n < 2 ^ 31"
    using l by (simp_all add: dl_rep_def)
  have inside: "\<not> index < 1" "\<not> index > ls_size l"
    using i n by (simp_all add: word_less_nat_alt)
  have half: "(index < signed_drop_bit 1 (ls_size l)) = (?i < ?n div 2)"
    using n by (simp add: word_less_nat_alt unat_half)
  have steps: "unat (index - (ls_size l - index)) = (if ?n \<le> 2 * ?i then 2 * ?i - ?n else 2 ^ 32 - (?n - 2 * ?i))"
    using unat_back [of "ls_size l" index] i n by simp
  have fwd: "unat (index - 1) = ?i - 1"
    using i(1) by (metis Suc_diff_1 unat_pred)
  have segs: "dseg (ls_nodes l) None xs None" "ls_next l = first_or None xs" "ls_prev l = last_or None xs"
    using l by (simp_all add: dl_rep_def)
  show ?thesis
  proof (cases "?i < ?n div 2")
    case True
    with i n inside half show ?thesis
      by (auto simp: ezlist_get_at_def segs(2) walk_forward [OF segs(1)] fwd)
  next
    case False
    then have "ezlist_get_at l index = node_steps nd_prev (unat (index - (ls_size l - index))) (last_or None xs) l"
      using inside half by (simp add: ezlist_get_at_def segs(3) Let_def)
    also have "\<dots> = (if 2 * ?i < ?n then None else if ?i = ?n then Some None
        else Some (Some (xs ! (2 * ?n - 2 * ?i - 1))))"
    proof (cases "2 * ?i < ?n")
      case True
      with n(2) have "?n < 2 ^ 32 - (?n - 2 * ?i)" by simp
      with True show ?thesis
        unfolding steps walk_backward [OF segs(1)] by simp
    next
      case False
      with i have "2 * ?i - ?n < ?n \<longleftrightarrow> ?i \<noteq> ?n" "2 * ?i - ?n = ?n \<longleftrightarrow> ?i = ?n"
        "?n - Suc (2 * ?i - ?n) = 2 * ?n - 2 * ?i - 1"
        by linarith+
      with False show ?thesis
        unfolding steps walk_backward [OF segs(1)] by simp
    qed
    finally show ?thesis using False by simp
  qed
qed

text \<open>The positions at which the access returns the element of that position.\<close>

lemma get_at_right_iff:
  assumes l: "dl_rep l xs" and i: "0 < unat index" "unat index \<le> length xs"
  shows "ezlist_get_at l index = Some (Some (xs ! (unat index - 1)))
    \<longleftrightarrow> unat index < length xs div 2 \<or> 3 * unat index = 2 * length xs"
proof (cases "unat index < length xs div 2 \<or> unat index = length xs \<or> 2 * unat index < length xs")
  case True
  with i show ?thesis
    by (auto simp: get_at_value [OF l i])
next
  case False
  with i have b: "2 * length xs - 2 * unat index - 1 < length xs" "unat index - 1 < length xs"
    by linarith+
  have "distinct xs"
    using l by (simp add: dl_rep_def)
  then have "xs ! (2 * length xs - 2 * unat index - 1) = xs ! (unat index - 1)
      \<longleftrightarrow> 2 * length xs - 2 * unat index - 1 = unat index - 1"
    using b by (rule nth_eq_iff_index_eq)
  moreover have "2 * length xs - 2 * unat index - 1 = unat index - 1 \<longleftrightarrow> 3 * unat index = 2 * length xs"
    using False i by linarith
  ultimately show ?thesis
    using False by (auto simp: get_at_value [OF l i])
qed

section \<open>Interface\<close>

text \<open>
  What the users of the list rely on: an ordered sequence of distinct nodes, where adding appends
  and deleting removes the node and keeps the order of the others. \<^verbatim>\<open>alive\<close> says that a node's memory may be
  linked.
\<close>

locale ordered_list =
  fixes rep :: "'l \<Rightarrow> 'n list \<Rightarrow> bool"
    and alive :: "'l \<Rightarrow> 'n \<Rightarrow> bool"
    and add_last :: "'n \<Rightarrow> 'l \<Rightarrow> 'l"
    and del :: "'n \<Rightarrow> 'l \<Rightarrow> 'l"
    and bound :: nat
  assumes add_last_rep: "rep l xs \<Longrightarrow> x \<notin> set xs \<Longrightarrow> alive l x \<Longrightarrow> Suc (length xs) < bound \<Longrightarrow>
      rep (add_last x l) (xs @ [x])"
    and add_last_alive: "rep l xs \<Longrightarrow> x \<notin> set xs \<Longrightarrow> alive l x \<Longrightarrow> alive l y \<Longrightarrow> alive (add_last x l) y"
    and del_rep: "rep l (xs @ x # ys) \<Longrightarrow> rep (del x l) (xs @ ys)"
    and del_alive: "rep l (xs @ x # ys) \<Longrightarrow> alive l y \<Longrightarrow> alive (del x l) y"
begin

text \<open>Registering the nodes \<^verbatim>\<open>ys\<close> one after the other.\<close>

lemma add_all:
  "rep l xs \<Longrightarrow> distinct (xs @ ys) \<Longrightarrow> \<forall>y \<in> set ys. alive l y \<Longrightarrow> length (xs @ ys) < bound \<Longrightarrow>
     rep (fold add_last ys l) (xs @ ys)"
proof (induction ys arbitrary: l xs)
  case Nil
  then show ?case by simp
next
  case (Cons y ys)
  have "rep (add_last y l) (xs @ [y])"
    using Cons.prems by (intro add_last_rep) auto
  moreover have "\<forall>z \<in> set ys. alive (add_last y l) z"
    using Cons.prems add_last_alive [of l xs y] by auto
  ultimately show ?case
    using Cons.IH [of "add_last y l" "xs @ [y]"] Cons.prems by simp
qed

text \<open>Deleting a set of nodes in any order leaves the others in their order.\<close>

lemma del_all:
  "rep l xs \<Longrightarrow> distinct xs \<Longrightarrow> distinct ys \<Longrightarrow> set ys \<subseteq> set xs \<Longrightarrow>
     rep (fold del ys l) (filter (\<lambda>x. x \<notin> set ys) xs)"
proof (induction ys arbitrary: l xs)
  case Nil
  then show ?case by simp
next
  case (Cons y ys)
  then obtain as bs where s: "xs = as @ y # bs"
    by (meson list.set_intros(1) split_list subset_iff)
  have "filter (\<lambda>x. x \<notin> set (y # ys)) xs = filter (\<lambda>x. x \<notin> set ys) (as @ bs)"
    using Cons.prems(2) s by (auto intro!: arg_cong2 [where f = append] filter_cong)
  moreover have "rep (del y l) (as @ bs)"
    using Cons.prems(1) s by (simp add: del_rep)
  ultimately show ?case
    using Cons.IH [of "del y l" "as @ bs"] Cons.prems s by auto
qed

end

interpretation dl: ordered_list dl_rep "\<lambda>l a. ls_nodes l a \<noteq> None" ezlist_add_last ezlist_delete "2 ^ 31"
proof
  fix l xs x
  assume a: "dl_rep l xs" "x \<notin> set xs" "ls_nodes l x \<noteq> None"
  then have p: "ezlist_add_last x l = ezlist_add_at (last_or None xs) x l"
    by (simp add: ezlist_add_last_def dl_rep_def)
  show "Suc (length xs) < 2 ^ 31 \<Longrightarrow> dl_rep (ezlist_add_last x l) (xs @ [x])"
    using add_at_rep [of l xs "[]" x] a p by simp
  fix y
  assume y: "ls_nodes l y \<noteq> None"
  show "ls_nodes (ezlist_add_last x l) y \<noteq> None"
    using a p y by (cases xs rule: rev_cases)
      (auto simp: dl_rep_def ezlist_add_at_def upd_node_def Let_def split: option.splits)
next
  fix l xs x ys y
  assume r: "dl_rep l (xs @ x # ys)"
  then show "dl_rep (ezlist_delete x l) (xs @ ys)"
    by (rule delete_rep)
  assume "ls_nodes l y \<noteq> None"
  then show "ls_nodes (ezlist_delete x l) y \<noteq> None"
    using r by (cases xs rule: rev_cases; cases ys)
      (auto simp: dl_rep_def ezlist_delete_def before_ok_def after_ok_def unlink_def upd_node_def)
qed

end
