(* ===== verification/Ez_Timer.thy ===== *)
theory Ez_Timer
  imports Ez_List "HOL-Library.Signed_Division"
begin

text \<open>
  The software timers of \<^verbatim>\<open>components/eztimer\<close>: one thread that walks over a list of timers every
  100 ms. The list is the sequence of its timers, in the order of registration (\<^verbatim>\<open>ordered_list\<close> of
  \<^verbatim>\<open>Ez_List\<close>). The answers of the platform to the creation of a mutex and of a thread are inputs. The new thread
  tests \<^verbatim>\<open>g_list.invalid\<close> before it takes the lock, so it may do so before its creator sets the flag: then it ends at
  once (\<^verbatim>\<open>Runs_early\<close>). Using a mutex that does not exist and dividing by zero raise \<^verbatim>\<open>t_fault\<close>. A callback is
  recorded in \<^verbatim>\<open>t_calls\<close>.
\<close>

section \<open>State\<close>

datatype ez_mutex = Mutex_null | Mutex_live | Mutex_destroyed

datatype thread_start = Create_failed | Runs_late | Runs_early

record eztimer_struct =
  tm_name :: string
  tm_id :: int
  tm_reload :: bool
  tm_time_out :: int
  tm_count_down :: int
  tm_fun :: "nat option"

record timers =
  t_mutex :: ez_mutex
  t_list :: "eztimer_struct list"
  t_msec :: int
  t_invalid :: bool
  t_thread :: bool
  g_instance_count :: int
  t_last_id :: int
  t_mem :: mem
  t_mutexes :: "bool list"
  t_starts :: "thread_start list"
  t_calls :: "nat list"
  t_fault :: bool

section \<open>Operations\<close>

definition t_lock :: "timers \<Rightarrow> timers" where
  "t_lock s = (if t_mutex s = Mutex_live then s else s\<lparr>t_fault := True\<rparr>)"

definition t_mutex_create :: "timers \<Rightarrow> bool \<times> timers" where
  "t_mutex_create s =
     (case t_mutexes s of
        [] \<Rightarrow> (True, s\<lparr>t_mutex := Mutex_live\<rparr>)
      | ok # rest \<Rightarrow> (ok, s\<lparr>t_mutex := (if ok then Mutex_live else Mutex_null), t_mutexes := rest\<rparr>))"

definition t_thread_create :: "timers \<Rightarrow> thread_start \<times> timers" where
  "t_thread_create s = (case t_starts s of [] \<Rightarrow> (Runs_late, s) | r # rest \<Rightarrow> (r, s\<lparr>t_starts := rest\<rparr>))"

definition eztimer_init :: "timers \<Rightarrow> int \<times> timers" where
  "eztimer_init s =
     (case t_mutex_create s of (ok, s1) \<Rightarrow>
       if \<not> ok then (- 1, s1)
       else let count = g_instance_count s1; s2 = s1\<lparr>g_instance_count := count + 1\<rparr> in
         if count > 0 then (0, s2)
         else (case t_thread_create (s2\<lparr>t_list := [], t_msec := 0, t_invalid := False, t_thread := False\<rparr>) of
             (Create_failed, s3) \<Rightarrow> (- 1, s3)
           | (start, s3) \<Rightarrow> (0, s3\<lparr>t_thread := (start = Runs_late), t_invalid := True, t_msec := 100, t_list := []\<rparr>)))"

definition eztimer_fini :: "timers \<Rightarrow> int \<times> timers" where
  "eztimer_fini s =
     (let s1 = t_lock s; s2 = s1\<lparr>g_instance_count := g_instance_count s1 - 1\<rparr> in
      if g_instance_count s2 > 0 then (0, s2)
      else let s3 = (if t_invalid s2 \<and> t_list s2 = [] then s2\<lparr>t_invalid := False, t_thread := False\<rparr> else s2)
        in (0, s3\<lparr>t_mutex := Mutex_destroyed\<rparr>))"

definition eztimer_create :: "string \<Rightarrow> int \<Rightarrow> bool \<Rightarrow> nat option \<Rightarrow> timers \<Rightarrow> int \<times> timers" where
  "eztimer_create name time_out reload fn s =
     (case (if \<not> t_invalid s then eztimer_init s else (0, s)) of (rc, s1) \<Rightarrow>
       if rc \<noteq> 0 then (- 1, s1)
       else (case ezos_malloc (t_mem s1) of (ok, m) \<Rightarrow>
         if \<not> ok then (- 1, s1\<lparr>t_mem := m\<rparr>)
         else let id' = t_last_id s1 + 1;
                  timer = \<lparr>tm_name = strncpy name 31, tm_id = id', tm_reload = reload, tm_time_out = time_out,
                           tm_count_down = time_out sdiv t_msec s1, tm_fun = fn\<rparr>;
                  s2 = t_lock (s1\<lparr>t_mem := m, t_last_id := id', t_fault := (t_fault s1 \<or> t_msec s1 = 0)\<rparr>)
              in (id', s2\<lparr>t_list := t_list s2 @ [timer]\<rparr>)))"

fun remove_id :: "int \<Rightarrow> eztimer_struct list \<Rightarrow> (eztimer_struct list \<times> bool)" where
  "remove_id i [] = ([], False)"
| "remove_id i (t # ts) = (if i = tm_id t then (ts, True) else (case remove_id i ts of (r, found) \<Rightarrow> (t # r, found)))"

definition eztimer_delete :: "int \<Rightarrow> timers \<Rightarrow> int \<times> timers" where
  "eztimer_delete i s =
     (if \<not> t_invalid s then (- 1, s)
      else let s1 = t_lock s; list_size = length (t_list s1) in
        case remove_id i (t_list s1) of (ts, found) \<Rightarrow>
          let s2 = s1\<lparr>t_list := ts, t_mem := (if found then ezos_free (t_mem s1) else t_mem s1)\<rparr>
          in (0, if list_size = 1 then snd (eztimer_fini s2) else s2))"

text \<open>The first timer with the number is changed.\<close>

fun update_id :: "int \<Rightarrow> (eztimer_struct \<Rightarrow> eztimer_struct) \<Rightarrow> eztimer_struct list \<Rightarrow> eztimer_struct list" where
  "update_id i f [] = []"
| "update_id i f (t # ts) = (if i = tm_id t then f t # ts else t # update_id i f ts)"

definition eztimer_reset :: "int \<Rightarrow> timers \<Rightarrow> int \<times> timers" where
  "eztimer_reset i s =
     (if \<not> t_invalid s then (- 1, s)
      else let s1 = t_lock s in
        (0, s1\<lparr>t_list := update_id i (\<lambda>t. t\<lparr>tm_count_down := tm_time_out t sdiv t_msec s1\<rparr>) (t_list s1)\<rparr>))"

text \<open>The difference of the periods is taken after the new one is stored.\<close>

definition change_period :: "int \<Rightarrow> int \<Rightarrow> eztimer_struct \<Rightarrow> eztimer_struct" where
  "change_period new_time_out msec timer =
     (let t1 = timer\<lparr>tm_time_out := new_time_out\<rparr> in
      if tm_count_down t1 \<ge> new_time_out sdiv msec then t1\<lparr>tm_count_down := new_time_out sdiv msec\<rparr>
      else t1\<lparr>tm_count_down := tm_count_down t1 + (new_time_out - tm_time_out t1) sdiv msec\<rparr>)"

definition eztimer_change_period :: "int \<Rightarrow> int \<Rightarrow> timers \<Rightarrow> int \<times> timers" where
  "eztimer_change_period i new_time_out s =
     (if \<not> t_invalid s then (- 1, s)
      else let s1 = t_lock s in (0, s1\<lparr>t_list := update_id i (change_period new_time_out (t_msec s1)) (t_list s1)\<rparr>))"

section \<open>The thread\<close>

definition count_one :: "eztimer_struct \<Rightarrow> eztimer_struct" where
  "count_one t = (if 0 \<le> tm_count_down t then t\<lparr>tm_count_down := tm_count_down t - 1\<rparr> else t)"

text \<open>
  One walk over the list: the timers left, the callbacks made, and whether a timer was freed. A timer that does not
  reload is freed when it fires, and the walk ends there.
\<close>

fun tick_list :: "eztimer_struct list \<Rightarrow> eztimer_struct list \<times> nat list \<times> bool" where
  "tick_list [] = ([], [], False)"
| "tick_list (t # ts) =
     (if tm_count_down t = 0 then
        let c = (case tm_fun t of None \<Rightarrow> [] | Some f \<Rightarrow> [f]) in
        if \<not> tm_reload t then (ts, c, True)
        else (case tick_list ts of (ts', cs, freed) \<Rightarrow>
          (count_one (t\<lparr>tm_count_down := tm_time_out t sdiv 100\<rparr>) # ts', c @ cs, freed))
      else (case tick_list ts of (ts', cs, freed) \<Rightarrow> (count_one t # ts', cs, freed)))"

text \<open>One round of \<^verbatim>\<open>timer_routine\<close>; a thread that has ended does nothing.\<close>

definition timer_tick :: "timers \<Rightarrow> timers" where
  "timer_tick s =
     (if \<not> t_thread s then s
      else if \<not> t_invalid s then s\<lparr>t_thread := False\<rparr>
      else let s1 = t_lock s in
        case tick_list (t_list s1) of (ts, cs, freed) \<Rightarrow>
          s1\<lparr>t_list := ts, t_calls := t_calls s1 @ cs, t_mem := (if freed then ezos_free (t_mem s1) else t_mem s1)\<rparr>)"

section \<open>Firing\<close>

lemma sdiv_nonneg: "0 \<le> (k :: int) \<Longrightarrow> k sdiv 100 = k div 100"
  by (simp add: signed_divide_int_def sgn_if)

definition running :: "timers \<Rightarrow> bool" where
  "running s \<longleftrightarrow> t_thread s \<and> t_invalid s \<and> t_mutex s = Mutex_live"

text \<open>A timer that is passed and stays, and the callback made for it.\<close>

definition pass :: "eztimer_struct \<Rightarrow> eztimer_struct" where
  "pass t = count_one (if tm_count_down t = 0 then t\<lparr>tm_count_down := tm_time_out t sdiv 100\<rparr> else t)"

definition fires :: "eztimer_struct \<Rightarrow> nat list" where
  "fires t = (if tm_count_down t = 0 then (case tm_fun t of None \<Rightarrow> [] | Some f \<Rightarrow> [f]) else [])"

fun fire_count :: "nat \<Rightarrow> eztimer_struct \<Rightarrow> nat" where
  "fire_count 0 t = 0"
| "fire_count (Suc k) t = of_bool (tm_count_down t = 0) + fire_count k (pass t)"

lemma pass_fields [simp]:
  "tm_reload (pass t) = tm_reload t" "tm_fun (pass t) = tm_fun t" "tm_time_out (pass t) = tm_time_out t"
  "tm_id (pass t) = tm_id t"
  by (simp_all add: pass_def count_one_def)

text \<open>Timers before one that is freed, or all of them when none is.\<close>

lemma tick_append:
  "\<forall>t \<in> set as. tm_reload t \<or> tm_count_down t \<noteq> 0 \<Longrightarrow>
     tick_list (as @ bs) = (case tick_list bs of (bs', cs, freed) \<Rightarrow> (map pass as @ bs', concat (map fires as) @ cs, freed))"
proof (induction as)
  case Nil
  then show ?case by (simp split: prod.split)
next
  case (Cons a as)
  then show ?case
    by (cases "tick_list bs") (auto simp: pass_def fires_def Let_def)
qed

lemma tick_reloading:
  "\<forall>t \<in> set ts. tm_reload t \<Longrightarrow> tick_list ts = (map pass ts, concat (map fires ts), False)"
  using tick_append [of ts "[]"] by simp

lemma running_tick:
  assumes "running s" "\<forall>t \<in> set (t_list s). tm_reload t"
  shows "timer_tick s = s\<lparr>t_list := map pass (t_list s), t_calls := t_calls s @ concat (map fires (t_list s))\<rparr>"
  using assms by (simp add: running_def timer_tick_def t_lock_def tick_reloading)

lemma count_fires:
  "count_list (concat (map fires ts)) f = (\<Sum>t\<leftarrow>ts. if tm_fun t = Some f then of_bool (tm_count_down t = 0) else 0)"
proof (induction ts)
  case Nil
  then show ?case by simp
next
  case (Cons t ts)
  have "count_list (fires t) f = (if tm_fun t = Some f then of_bool (tm_count_down t = 0) else 0)"
  proof (cases "tm_count_down t = 0")
    case True
    then show ?thesis by (cases "tm_fun t") (simp_all only: fires_def if_True option.case count_list.simps option.distinct
      option.inject if_False of_bool_eq add_0 simp_thms)
  next
    case False
    then show ?thesis by (simp add: fires_def)
  qed
  with Cons show ?case by simp
qed

text \<open>After \<^verbatim>\<open>k\<close> rounds the callbacks are counted timer by timer.\<close>

lemma calls_after:
  "running s \<Longrightarrow> \<forall>t \<in> set (t_list s). tm_reload t \<Longrightarrow>
     count_list (t_calls ((timer_tick ^^ k) s)) f
       = count_list (t_calls s) f + (\<Sum>t\<leftarrow>t_list s. if tm_fun t = Some f then fire_count k t else 0)"
proof (induction k arbitrary: s)
  case 0
  show ?case by auto
next
  case (Suc k)
  let ?s = "timer_tick s"
  have eq: "?s = s\<lparr>t_list := map pass (t_list s), t_calls := t_calls s @ concat (map fires (t_list s))\<rparr>"
    by (rule running_tick [OF Suc.prems])
  have "running ?s" "\<forall>t \<in> set (t_list ?s). tm_reload t"
    using Suc.prems by (simp_all add: eq running_def)
  note Suc.IH [OF this]
  moreover have "(timer_tick ^^ Suc k) s = (timer_tick ^^ k) ?s"
    by (simp add: funpow_Suc_right del: funpow.simps)
  moreover have "(\<Sum>t\<leftarrow>ts. if tm_fun t = Some f then of_bool (tm_count_down t = 0) else 0)
      + (\<Sum>t\<leftarrow>map pass ts. if tm_fun t = Some f then fire_count k t else 0)
      = (\<Sum>t\<leftarrow>ts. if tm_fun t = Some f then fire_count (Suc k) t else (0 :: nat))" for ts
    by (induction ts) simp_all
  ultimately show ?case
    by (simp add: eq count_fires del: funpow.simps map_map fire_count.simps)
qed

lemma fire_count_periodic:
  assumes N: "N = nat (tm_time_out t div 100)" "0 < N" and c: "0 \<le> tm_count_down t" "nat (tm_count_down t) < N"
  shows "fire_count k t = (k + (N - 1 - nat (tm_count_down t))) div N"
  using N(1) c
proof (induction k arbitrary: t)
  case 0
  with N(2) show ?case by simp
next
  case (Suc k)
  have T: "0 \<le> tm_time_out t"
    using Suc.prems(1) N(2) by (metis div_neg_pos_less0 less_asym not_le zero_less_nat_eq zero_less_numeral)
  show ?case
  proof (cases "tm_count_down t = 0")
    case True
    then have p: "tm_count_down (pass t) = int N - 1"
      using Suc.prems(1) N(2) T by (simp add: pass_def count_one_def sdiv_nonneg)
    then have "fire_count k (pass t) = k div N"
      using Suc.IH [of "pass t"] Suc.prems(1) N(2) by simp
    moreover have "Suc k + (N - 1 - nat (tm_count_down t)) = k + N"
      using True N(2) by simp
    ultimately show ?thesis
      using True N(2) by (simp only: fire_count.simps div_add_self2) simp
  next
    case False
    then have p: "tm_count_down (pass t) = tm_count_down t - 1"
      using Suc.prems(2) by (simp add: pass_def count_one_def)
    have "fire_count k (pass t) = (k + (N - 1 - nat (tm_count_down t - 1))) div N"
      using Suc.IH [of "pass t"] Suc.prems False p by (simp only: pass_fields)
    moreover have "k + (N - 1 - nat (tm_count_down t - 1)) = Suc k + (N - 1 - nat (tm_count_down t))"
      using False Suc.prems(2,3) by linarith
    ultimately show ?thesis
      using False by (simp only: fire_count.simps of_bool_eq add_0)
  qed
qed

lemma fire_count_stuck: "tm_count_down t < 0 \<Longrightarrow> fire_count k t = 0"
  by (induction k arbitrary: t) (simp_all add: pass_def count_one_def)

text \<open>A timer as \<^verbatim>\<open>eztimer_create\<close> and \<^verbatim>\<open>eztimer_reset\<close> leave it.\<close>

lemma fire_count_fresh:
  assumes T: "0 \<le> tm_time_out t" and c: "tm_count_down t = tm_time_out t div 100"
  shows "fire_count k t = (if tm_time_out t < 100 then of_bool (0 < k) else (k - 1) div nat (tm_time_out t div 100))"
proof (cases k)
  case 0
  then show ?thesis by simp
next
  case (Suc j)
  show ?thesis
  proof (cases "tm_time_out t < 100")
    case True
    with T c have "tm_count_down t = 0" "tm_count_down (pass t) = - 1"
      by (simp_all add: pass_def count_one_def sdiv_nonneg)
    with True Suc show ?thesis by (simp add: fire_count_stuck)
  next
    case False
    then have N: "0 < nat (tm_time_out t div 100)" by simp
    then have p: "tm_count_down (pass t) = tm_time_out t div 100 - 1" "tm_count_down t \<noteq> 0"
      using c by (simp_all add: pass_def count_one_def)
    have "fire_count j (pass t) = j div nat (tm_time_out t div 100)"
      using fire_count_periodic [of "nat (tm_time_out t div 100)" "pass t" j] N p
      by (simp add: nat_diff_distrib)
    with False Suc p show ?thesis by simp
  qed
qed

text \<open>A timer that fires once and is freed; the timers behind it are not reached in this round.\<close>

lemma one_shot_tick:
  assumes "running s" "t_list s = as @ t # bs" "\<forall>a \<in> set as. tm_reload a \<or> tm_count_down a \<noteq> 0"
    "\<not> tm_reload t" "tm_count_down t = 0"
  shows "timer_tick s = s\<lparr>t_list := map pass as @ bs, t_calls := t_calls s @ concat (map fires as) @ fires t,
      t_mem := ezos_free (t_mem s)\<rparr>"
  using assms by (simp add: running_def timer_tick_def t_lock_def tick_append fires_def Let_def)

section \<open>Correct use\<close>

text \<open>
  The state between two calls. The steps exclude what breaks it: a thread that cannot be created, and the deletion of a
  timer that is not registered.
\<close>

definition timers_wf :: "timers \<Rightarrow> bool" where
  "timers_wf s \<longleftrightarrow> \<not> t_fault s
     \<and> (if t_invalid s then t_mutex s = Mutex_live \<and> t_msec s = 100 \<and> g_instance_count s = 1
        else t_list s = [] \<and> g_instance_count s = 0)"

inductive timer_step :: "timers \<Rightarrow> timers \<Rightarrow> bool" where
  create: "\<forall>r \<in> set (t_starts s). r \<noteq> Create_failed \<Longrightarrow> timer_step s (snd (eztimer_create name time_out reload fn s))"
| delete: "i \<in> tm_id ` set (t_list s) \<Longrightarrow> timer_step s (snd (eztimer_delete i s))"
| reset: "timer_step s (snd (eztimer_reset i s))"
| period: "timer_step s (snd (eztimer_change_period i new_time_out s))"
| tick: "timer_step s (timer_tick s)"

definition zero_timers :: timers where
  "zero_timers = \<lparr>t_mutex = Mutex_null, t_list = [], t_msec = 0, t_invalid = False, t_thread = False, g_instance_count = 0,
     t_last_id = 0, t_mem = \<lparr>answers = [], live = 0\<rparr>, t_mutexes = [], t_starts = [], t_calls = [], t_fault = False\<rparr>"

lemma init_wf:
  assumes s: "timers_wf s" "\<not> t_invalid s" and st: "\<forall>r \<in> set (t_starts s). r \<noteq> Create_failed"
  shows "timers_wf (snd (eztimer_init s)) \<and> (fst (eztimer_init s) = 0 \<longleftrightarrow> t_invalid (snd (eztimer_init s)))"
proof (cases "t_mutexes s")
  case Nil
  with s st show ?thesis
    by (cases "t_starts s") (auto simp: timers_wf_def eztimer_init_def t_mutex_create_def t_thread_create_def Let_def
        split: thread_start.split)
next
  case (Cons ok rest)
  with s st show ?thesis
    by (cases ok; cases "t_starts s") (auto simp: timers_wf_def eztimer_init_def t_mutex_create_def t_thread_create_def
        Let_def split: thread_start.split)
qed

lemma create_wf:
  assumes s: "timers_wf s" and st: "\<forall>r \<in> set (t_starts s). r \<noteq> Create_failed"
  shows "timers_wf (snd (eztimer_create name time_out reload fn s))"
proof -
  obtain rc s1 where r: "(if \<not> t_invalid s then eztimer_init s else (0, s)) = (rc, s1)"
    by (rule prod.exhaust)
  then have s1: "timers_wf s1" "rc = 0 \<Longrightarrow> t_invalid s1"
    using init_wf [OF s _ st] s by (auto split: if_splits)
  then show ?thesis
    using s1 r by (cases "ezos_malloc (t_mem s1)")
      (auto simp: eztimer_create_def timers_wf_def t_lock_def Let_def split: if_splits)
qed

lemma remove_id_found: "snd (remove_id i ts) \<longleftrightarrow> i \<in> tm_id ` set ts"
  by (induction ts) (auto split: prod.splits)

lemma remove_id_length: "length (fst (remove_id i ts)) = length ts - of_bool (i \<in> tm_id ` set ts)"
proof (induction ts)
  case Nil
  then show ?case by simp
next
  case (Cons t ts)
  then show ?case
    by (cases "remove_id i ts"; cases "i \<in> tm_id ` set ts") (auto simp: Suc_diff_le dest: length_pos_if_in_set)
qed

lemma delete_wf:
  assumes s: "timers_wf s" and i: "i \<in> tm_id ` set (t_list s)"
  shows "timers_wf (snd (eztimer_delete i s))"
proof -
  have "t_list s \<noteq> []" using i by auto
  with s have inv: "t_invalid s" "t_mutex s = Mutex_live" "t_msec s = 100" "g_instance_count s = 1" "\<not> t_fault s"
    by (auto simp: timers_wf_def split: if_splits)
  obtain ts found where r: "remove_id i (t_list s) = (ts, found)"
    by (rule prod.exhaust)
  have "length (t_list s) = 1 \<Longrightarrow> ts = []"
    using remove_id_length [of i "t_list s"] i r by simp
  with inv r show ?thesis
    by (auto simp: eztimer_delete_def eztimer_fini_def timers_wf_def t_lock_def Let_def)
qed

theorem timer_step_wf: "timer_step s s' \<Longrightarrow> timers_wf s \<Longrightarrow> timers_wf s'"
proof (induction rule: timer_step.induct)
  case (create s name time_out reload fn)
  then show ?case by (intro create_wf)
next
  case (delete i s)
  then show ?case by (intro delete_wf)
next
  case (reset s i)
  then show ?case
    by (auto simp: eztimer_reset_def timers_wf_def t_lock_def Let_def split: if_splits)
next
  case (period s i new_time_out)
  then show ?case
    by (auto simp: eztimer_change_period_def timers_wf_def t_lock_def Let_def split: if_splits)
next
  case (tick s)
  then show ?case
    by (auto simp: timer_tick_def timers_wf_def t_lock_def Let_def split: if_splits prod.splits)
qed

lemma timer_run_wf: "timer_step\<^sup>*\<^sup>* s s' \<Longrightarrow> timers_wf s \<Longrightarrow> timers_wf s'"
  by (induction rule: rtranclp_induct) (auto intro: timer_step_wf)

section \<open>Incorrect use and failing creations\<close>

text \<open>Deleting a timer that is not registered, while one other timer is.\<close>

lemma delete_unknown:
  assumes "timers_wf s" "t_thread s" "t_invalid s" "t_list s = [t]" "tm_id t \<noteq> i"
  shows "t_list (snd (eztimer_delete i s)) = [t] \<and> t_mutex (snd (eztimer_delete i s)) = Mutex_destroyed
    \<and> t_fault (timer_tick (snd (eztimer_delete i s)))"
proof -
  have "eztimer_delete i s = (0, s\<lparr>g_instance_count := 0, t_mutex := Mutex_destroyed\<rparr>)"
    using assms by (auto simp: eztimer_delete_def eztimer_fini_def timers_wf_def t_lock_def Let_def)
  with assms show ?thesis
    by (simp add: timer_tick_def t_lock_def Let_def split: prod.split)
qed

text \<open>A creation that fails for want of a thread, and the next one.\<close>

lemma failed_start:
  assumes s: "timers_wf s" "\<not> t_invalid s" "t_starts s = Create_failed # rest" "\<forall>ok \<in> set (t_mutexes s). ok"
    and s': "eztimer_create name time_out reload fn s = (rc, s')"
    and again: "fst (ezos_malloc (t_mem s'))"
  shows "rc = - 1 \<and> t_fault (snd (eztimer_create name' time_out' reload' fn' s'))"
proof -
  define s1 where "s1 = snd (eztimer_init s)"
  have z: "g_instance_count s = 0" "t_msec s1 = 0" "\<not> t_invalid s1"
    using s by (cases "t_mutexes s"; simp add: timers_wf_def s1_def eztimer_init_def t_mutex_create_def
        t_thread_create_def Let_def)+
  have i1: "eztimer_init s = (- 1, s1)" "g_instance_count s1 = 1" "\<forall>ok \<in> set (t_mutexes s1). ok"
    using s(3,4) z(1) by (cases "t_mutexes s"; simp add: s1_def eztimer_init_def t_mutex_create_def
        t_thread_create_def Let_def)+
  have f: "rc = - 1" "s' = s1"
    using s(2) s' i1(1) by (simp_all add: eztimer_create_def)
  define s2 where "s2 = snd (eztimer_init s')"
  have i: "eztimer_init s' = (0, s2)" "t_msec s2 = 0" "t_mem s2 = t_mem s'"
    using i1(2,3) z(2) by (cases "t_mutexes s1"; simp add: f(2) s2_def eztimer_init_def t_mutex_create_def Let_def)+
  obtain m where m: "ezos_malloc (t_mem s2) = (True, m)"
    using again i(3) by (metis prod.collapse)
  show ?thesis
    using f z(3) i(1,2) m by (simp add: eztimer_create_def t_lock_def Let_def)
qed

text \<open>A longer period does not postpone the next expiry.\<close>

lemma change_period_count:
  "tm_count_down (change_period new_time_out msec t) = min (tm_count_down t) (new_time_out sdiv msec)"
  by (simp add: change_period_def Let_def signed_divide_int_def)

end
