(* ===== verification/Hub_Store.thy ===== *)
theory Hub_Store
  imports Kernel_Runs Lbs_Auth Ez_Timer
begin

text \<open>
  The sub-device list of a gateway, first part (\<^verbatim>\<open>ez_iot_bm/hub\<close>): the device record, its JSON form,
  the search in the list, and reading and writing the list in the key-value store. The
  list is kept as JSON text under one key; every operation reads, changes and writes it as a
  whole. The results of the store's calls are inputs held in the state; the store keeps the last
  value it accepted. The checking macro of the sources evaluates its condition a second
  time for the log message, so a failing call is made twice; \<^verbatim>\<open>retried\<close> models this.
\<close>

section \<open>State\<close>

text \<open>The internal structure begins with the public one; copying \<^verbatim>\<open>sizeof(ez_subdev_info_t)\<close> bytes copies that part.\<close>

record ez_subdev_info_t =
  sd_authm :: int
  sd_type :: string
  sd_sn :: string
  sd_vcode :: string
  sd_ver :: string
  sd_uuid :: string
  sd_sta :: int

record hub_subdev_info_internal_t = ez_subdev_info_t +
  sd_access :: int

definition zero_subdev :: hub_subdev_info_internal_t where
  "zero_subdev = \<lparr>sd_authm = 0, sd_type = '''', sd_sn = '''', sd_vcode = '''', sd_ver = '''', sd_uuid = '''',
     sd_sta = 0, sd_access = 0\<rparr>"

datatype hub_event = Subdev_add_succ string | Subdev_add_fail ez_subdev_info_t

text \<open>
  The module's globals, the core below it, the timers, the stored list and the answers of the store and of the platform.
  \<^verbatim>\<open>hub_locked\<close> says that the mutex is held; nobody but the module's own functions releases it.
\<close>

record hub =
  hub_world :: world
  hub_timers :: timers
  hublist :: "byte list"
  kv_codes :: "int list"
  hub_mutexes :: "bool list"
  g_hlock :: ez_mutex
  hub_locked :: bool
  g_phub_cbs :: bool
  g_auth_timer :: int
  g_unauth_count :: int
  g_hub_inited :: bool
  hub_events :: "hub_event list"

abbreviation (input) EZ_HUB_ERR_SUCC :: ez_err where "EZ_HUB_ERR_SUCC \<equiv> 0"
abbreviation (input) EZ_HUB_ERR_NOT_INIT :: ez_err where "EZ_HUB_ERR_NOT_INIT \<equiv> 0x30001"
abbreviation (input) EZ_HUB_ERR_PARAM_INVALID :: ez_err where "EZ_HUB_ERR_PARAM_INVALID \<equiv> 0x30002"
abbreviation (input) EZ_HUB_ERR_INTERNAL :: ez_err where "EZ_HUB_ERR_INTERNAL \<equiv> 0x30003"
abbreviation (input) EZ_HUB_ERR_STORAGE :: ez_err where "EZ_HUB_ERR_STORAGE \<equiv> 0x30004"
abbreviation (input) EZ_HUB_ERR_SUBDEV_NOT_FOUND :: ez_err where "EZ_HUB_ERR_SUBDEV_NOT_FOUND \<equiv> 0x30005"
abbreviation (input) EZ_HUB_ERR_ENUM_END :: ez_err where "EZ_HUB_ERR_ENUM_END \<equiv> 0x30006"
abbreviation (input) EZ_HUB_ERR_MEMORY :: ez_err where "EZ_HUB_ERR_MEMORY \<equiv> 0x30007"
abbreviation (input) EZ_HUB_ERR_OUT_OF_RANGE :: ez_err where "EZ_HUB_ERR_OUT_OF_RANGE \<equiv> 0x30008"
abbreviation (input) EZ_HUB_ERR_SUBDEV_EXISTED :: ez_err where "EZ_HUB_ERR_SUBDEV_EXISTED \<equiv> 0x30009"

definition COMPONENT_HUB_SUBLIST_MAX :: nat where
  "COMPONENT_HUB_SUBLIST_MAX = 64"

text \<open>The core's record of the module's entry points; the numbers identify the functions of \<^verbatim>\<open>hub_extern.c\<close>.\<close>

definition hub_extension :: ez_kernel_extend where
  "hub_extension = \<lparr>domain_id = 7002, extend_start = Some 70021, extend_stop = Some 70022, extend_data_route = Some 70023,
     extend_event = Some 70024, pUser = 0, extend_module_name = ''hub'', extend_module_version = ''V2.0.0''\<rparr>"

definition upd_hw :: "(world \<Rightarrow> world) \<Rightarrow> hub \<Rightarrow> hub" where
  "upd_hw f h = h\<lparr>hub_world := f (hub_world h)\<rparr>"

text \<open>An operation of the core on the state of the hub.\<close>

definition on_world :: "(world \<Rightarrow> 'r \<times> world) \<Rightarrow> hub \<Rightarrow> 'r \<times> hub" where
  "on_world f h = (case f (hub_world h) of (r, w) \<Rightarrow> (r, h\<lparr>hub_world := w\<rparr>))"

definition retried :: "('s \<Rightarrow> 'r \<times> 's) \<Rightarrow> ('r \<Rightarrow> bool) \<Rightarrow> 's \<Rightarrow> (bool \<times> 'r) \<times> 's" where
  "retried f ok s =
     (case f s of (r, s1) \<Rightarrow> if ok r then ((True, r), s1) else (case f s1 of (r2, s2) \<Rightarrow> ((False, r2), s2)))"

section \<open>The key-value store\<close>

definition kv_call :: "hub \<Rightarrow> int \<times> hub" where
  "kv_call h = (case kv_codes h of [] \<Rightarrow> (0, h) | c # cs \<Rightarrow> (c, h\<lparr>kv_codes := cs\<rparr>))"

definition kv_list_set :: "byte list \<Rightarrow> hub \<Rightarrow> int \<times> hub" where
  "kv_list_set v h = (case kv_call h of (rc, h1) \<Rightarrow> (rc, if rc = 0 then h1\<lparr>hublist := v\<rparr> else h1))"

section \<open>Devices and their JSON form\<close>

text \<open>Assignment of an \<^verbatim>\<open>int\<close> to an \<^verbatim>\<open>ez_int8_t\<close>.\<close>

definition to_int8 :: "int \<Rightarrow> int" where
  "to_int8 i = sint (of_int i :: 8 word)"

definition subdev_fields :: "hub_subdev_info_internal_t \<Rightarrow> (string \<times> (string + int)) list" where
  "subdev_fields d = [(''sta'', Inr (sd_sta d)), (''authm'', Inr (sd_authm d)), (''type'', Inl (sd_type d)),
     (''sn'', Inl (sd_sn d)), (''vcode'', Inl (sd_vcode d)), (''ver'', Inl (sd_ver d)), (''uuid'', Inl (sd_uuid d)),
     (''access'', Inr (sd_access d))]"

text \<open>
  The test after the allocation names the argument instead of the new object; without an object the
  additions do nothing and the result is NULL all the same.
\<close>

definition subdev_to_json :: "hub_subdev_info_internal_t \<Rightarrow> mem \<Rightarrow> cJSON option \<times> mem" where
  "subdev_to_json d m = (case cJSON_CreateObject m of (ob, m1) \<Rightarrow> add_fields (subdev_fields d) ob m1)"

definition json_int :: "cJSON \<Rightarrow> string \<Rightarrow> int" where
  "json_int j key = (case cJSON_GetObjectItem (Some j) key of None \<Rightarrow> 0 | Some v \<Rightarrow> to_int8 (js_valueint v))"

text \<open>The text of a field of \<^verbatim>\<open>n + 1\<close> bytes; a member without text is read through NULL.\<close>

definition json_text :: "cJSON \<Rightarrow> string \<Rightarrow> nat \<Rightarrow> string" where
  "json_text j key n = (case cJSON_GetObjectItem (Some j) key of None \<Rightarrow> ''''
     | Some v \<Rightarrow> (case js_valuestring v of None \<Rightarrow> '''' | Some t \<Rightarrow> strncpy t n))"

definition json_null_text :: "cJSON \<Rightarrow> string \<Rightarrow> bool" where
  "json_null_text j key \<longleftrightarrow> (case cJSON_GetObjectItem (Some j) key of None \<Rightarrow> False
     | Some v \<Rightarrow> js_valuestring v = None)"

definition json_to_subdev :: "cJSON \<Rightarrow> hub_subdev_info_internal_t \<times> bool" where
  "json_to_subdev j =
     (\<lparr>sd_authm = json_int j ''authm'', sd_type = json_text j ''type'' 32, sd_sn = json_text j ''sn'' 16,
       sd_vcode = json_text j ''vcode'' 32, sd_ver = json_text j ''ver'' 32, sd_uuid = json_text j ''uuid'' 16,
       sd_sta = json_int j ''sta'', sd_access = json_int j ''access''\<rparr>,
      list_ex (json_null_text j) [''type'', ''sn'', ''vcode'', ''ver'', ''uuid''])"

text \<open>
  The search compares with \<^verbatim>\<open>strcmp\<close>; the second component of the result says that it was called with a
  NULL text. Without a number to look for the first member with an \<^verbatim>\<open>sn\<close> is found.
\<close>

fun find_loop :: "cJSON list \<Rightarrow> string option \<Rightarrow> nat \<Rightarrow> nat option \<times> bool" where
  "find_loop [] sn i = (None, False)"
| "find_loop (c # cs) sn i =
     (case cJSON_GetObjectItem (Some c) ''sn'' of
        None \<Rightarrow> find_loop cs sn (Suc i)
      | Some js_sn \<Rightarrow>
          (case sn of
             None \<Rightarrow> (Some i, False)
           | Some n \<Rightarrow>
               (case js_valuestring js_sn of
                  None \<Rightarrow> (None, True)
                | Some v \<Rightarrow> if v = n then (Some i, False) else find_loop cs sn (Suc i))))"

definition find_dev_by_sn :: "cJSON \<Rightarrow> string option \<Rightarrow> nat option \<times> bool" where
  "find_dev_by_sn root sn = find_loop (js_child root) sn 0"

end
