(* ===== verification/Hub_Func.thy ===== *)
theory Hub_Func
  imports Hub_Store
begin

text \<open>
  The operations on the sub-device list, \<^verbatim>\<open>hub/src/hub_func.c\<close>, and the interface above them,
  \<^verbatim>\<open>hub/src/ez_iot_hub.c\<close> and \<^verbatim>\<open>hub/src/hub_extern.c\<close>. Every operation takes the one lock of the module; an
  operation that waits for a lock nobody releases has the result \<^verbatim>\<open>None\<close>. The local variables that the
  common exit frees are the record \<^verbatim>\<open>hub_locals\<close>. The parser's memory is one answer of the allocator.
\<close>

section \<open>Frame of the operations\<close>

record hub_locals =
  l_pbuf :: bool
  l_save :: bool
  l_root :: "cJSON option"

type_synonym hub_run = "hub_locals \<times> hub"

definition no_locals :: hub_locals where
  "no_locals = \<lparr>l_pbuf = False, l_save = False, l_root = None\<rparr>"

text \<open>
  Taking the lock: None when it is held, since its holder never comes back; using a mutex that does not exist is a fault.
\<close>

definition hub_lock :: "(hub \<Rightarrow> 'r) \<Rightarrow> hub \<Rightarrow> 'r option" where
  "hub_lock body h =
     (if hub_locked h then None
      else Some (body (upd_hw (faulty (g_hlock h \<noteq> Mutex_live)) (h\<lparr>hub_locked := True\<rparr>))))"

text \<open>The label \<^verbatim>\<open>done\<close>: unlock and release the local variables.\<close>

definition hub_done :: "'r \<times> hub_run \<Rightarrow> 'r \<times> hub" where
  "hub_done x = (case x of (rv, (l, h)) \<Rightarrow>
     (rv, upd_hw (\<lambda>w. w_json_delete (l_root l) ((if l_save l then w_free else id) ((if l_pbuf l then w_free else id) w)))
            (h\<lparr>hub_locked := False\<rparr>)))"

definition hub_fault :: "bool \<Rightarrow> hub_run \<Rightarrow> hub_run" where
  "hub_fault b s = (fst s, upd_hw (faulty b) (snd s))"

section \<open>Reading and writing the list\<close>

definition kv_list_length :: "hub_run \<Rightarrow> ez_err \<times> hub_run" where
  "kv_list_length s = (case retried kv_call (\<lambda>rc. rc = 0) (snd s) of ((ok, _), h) \<Rightarrow>
     (if ok then EZ_HUB_ERR_SUCC else EZ_HUB_ERR_STORAGE, (fst s, h)))"

definition alloc_pbuf :: "bool \<Rightarrow> hub_run \<Rightarrow> ez_err \<times> hub_run" where
  "alloc_pbuf again s =
     (case (if again then retried (on_world w_malloc) id (snd s)
            else (case on_world w_malloc (snd s) of (ok, h) \<Rightarrow> ((ok, ok), h))) of ((ok, got), h) \<Rightarrow>
       (if ok then EZ_HUB_ERR_SUCC else EZ_HUB_ERR_MEMORY, ((fst s)\<lparr>l_pbuf := got\<rparr>, h)))"

definition hub_parse :: "libs \<Rightarrow> byte list \<Rightarrow> world \<Rightarrow> cJSON option \<times> world" where
  "hub_parse L text w =
     (case cJSON_Parse (lib_text L) text of
        None \<Rightarrow> (None, w)
      | Some t \<Rightarrow> (case w_malloc w of (ok, w1) \<Rightarrow>
          if ok then (Some t, w1\<lparr>w_mem := (w_mem w1)\<lparr>live := live (w_mem w1) + int (json_blocks t) - 1\<rparr>\<rparr>)
          else (None, w1)))"

text \<open>
  The buffer's size the reads start from. The store copies at most as many bytes as it is asked for, so
  a longer text arrives cut.
\<close>

definition EZIOT_HUB_LIST_SIZE :: nat where
  "EZIOT_HUB_LIST_SIZE = 1024 * 8"

definition kv_list_get :: "hub \<Rightarrow> byte list" where
  "kv_list_get h = take EZIOT_HUB_LIST_SIZE (hublist h)"

definition parse_list :: "libs \<Rightarrow> hub_run \<Rightarrow> ez_err \<times> hub_run" where
  "parse_list L s = (case retried (on_world (hub_parse L (kv_list_get (snd s)))) (\<lambda>j. j \<noteq> None) (snd s) of
     ((ok, j), h) \<Rightarrow> (if ok then EZ_HUB_ERR_SUCC else EZ_HUB_ERR_MEMORY, ((fst s)\<lparr>l_root := j\<rparr>, h)))"

text \<open>The buffer, its contents and the parsed document.\<close>

definition read_list :: "libs \<Rightarrow> bool \<Rightarrow> hub_run \<Rightarrow> ez_err \<times> hub_run" where
  "read_list L again s =
     then_ok (alloc_pbuf again s) (\<lambda>s1. then_ok (kv_list_length s1) (parse_list L))"

text \<open>The length, the code for an empty list, and the document.\<close>

definition open_list :: "libs \<Rightarrow> ez_err \<Rightarrow> hub_run \<Rightarrow> ez_err \<times> hub_run" where
  "open_list L none_yet s =
     then_ok (kv_list_length s) (\<lambda>s1. if hublist (snd s1) = [] then (none_yet, s1) else read_list L True s1)"

definition save_list :: "libs \<Rightarrow> hub_run \<Rightarrow> ez_err \<times> hub_run" where
  "save_list L s =
     (case retried (on_world (cJSON_PrintUnformatted L (l_root (fst s)))) (\<lambda>t. t \<noteq> None) (snd s) of ((ok, t), h) \<Rightarrow>
       let l = (fst s)\<lparr>l_save := (t \<noteq> None)\<rparr> in
       if \<not> ok then (EZ_HUB_ERR_MEMORY, (l, h))
       else (case retried (kv_list_set (the t)) (\<lambda>rc. rc = 0) h of ((ok', _), h1) \<Rightarrow>
         (if ok' then EZ_HUB_ERR_SUCC else EZ_HUB_ERR_STORAGE, (l, h1))))"

section \<open>Messages to the platform\<close>

abbreviation (input) hub_module_id :: uint32 where "hub_module_id \<equiv> 7002"
abbreviation (input) kPu2CenPltHubReportRelationShipReq :: uint32 where "kPu2CenPltHubReportRelationShipReq \<equiv> 1"
abbreviation (input) kPu2CenPltHubReportOnlineStatusReq :: uint32 where "kPu2CenPltHubReportOnlineStatusReq \<equiv> 3"
abbreviation (input) kPu2CenPltHubAuthChildDeviceReq :: uint32 where "kPu2CenPltHubAuthChildDeviceReq \<equiv> 0x10"
abbreviation (input) kPu2CenPltHubAuthChildDeviceRsp :: uint32 where "kPu2CenPltHubAuthChildDeviceRsp \<equiv> 0x11"

definition hub_send_msg_to_platform :: "byte list \<Rightarrow> uint32 \<Rightarrow> uint8 \<Rightarrow> uint32 \<Rightarrow> hub \<Rightarrow> int \<times> hub" where
  "hub_send_msg_to_platform msg cmd_id msg_response msg_seq h =
     (case ez_kernel_send (Some \<lparr>pub_msg_response = msg_response, pub_msg_qos = QOS_T0, pub_msg_seq = msg_seq,
              pub_msg_body = Some msg, pub_msg_body_len = of_nat (length msg), pub_msg_domain_id = hub_module_id,
              pub_msg_command_id = cmd_id, pub_externel_ctx = None, pub_externel_ctx_len = 0,
              pub_command_ver = ''V2.0.0''\<rparr>) (hub_world h) of
       (sdk_error, _, w) \<Rightarrow> (if sdk_error \<noteq> EZ_HUB_ERR_SUCC then - 1 else 0, h\<lparr>hub_world := w\<rparr>))"

definition relation_fields :: "hub_subdev_info_internal_t \<Rightarrow> (string \<times> (string + int)) list" where
  "relation_fields d = [(''connected'', Inr (sd_sta d)), (''childdevid'', Inl (sd_sn d)), (''version'', Inl (sd_ver d)),
     (''type'', Inl (sd_type d)), (''FirmwareIdentificationCode'', Inl '''')]"

definition status_fields :: "hub_subdev_info_internal_t \<Rightarrow> (string \<times> (string + int)) list" where
  "status_fields d = [(''connected'', Inr (sd_sta d)), (''childdevid'', Inl (sd_sn d))]"

definition append_object :: "(string \<times> (string + int)) list \<Rightarrow> cJSON option \<Rightarrow> mem \<Rightarrow> cJSON option \<times> mem" where
  "append_object fs lst m =
     (case cJSON_CreateObject m of (ob, m1) \<Rightarrow>
      case add_fields fs ob m1 of (ob1, m2) \<Rightarrow> (cJSON_AddItemToArray lst ob1, m2))"

definition subdev_to_relation_lst :: "hub_subdev_info_internal_t \<Rightarrow> cJSON option \<Rightarrow> mem \<Rightarrow> cJSON option \<times> mem" where
  "subdev_to_relation_lst d = append_object (relation_fields d)"

definition subdev_to_status_lst :: "hub_subdev_info_internal_t \<Rightarrow> cJSON option \<Rightarrow> mem \<Rightarrow> cJSON option \<times> mem" where
  "subdev_to_status_lst d = append_object (status_fields d)"

text \<open>The loop of the two reports: \<^verbatim>\<open>add\<close> appends a device.\<close>

fun report_loop :: "(hub_subdev_info_internal_t \<Rightarrow> cJSON option \<Rightarrow> mem \<Rightarrow> cJSON option \<times> mem) \<Rightarrow> cJSON list
    \<Rightarrow> cJSON option \<Rightarrow> world \<Rightarrow> cJSON option \<times> world" where
  "report_loop add [] lst w = (lst, w)"
| "report_loop add (c # cs) lst w =
     (case json_to_subdev c of (d, null_text) \<Rightarrow>
      case w_json (add d lst) (faulty null_text w) of (lst1, w1) \<Rightarrow> report_loop add cs lst1 w1)"

definition send_list :: "libs \<Rightarrow> uint32 \<Rightarrow> cJSON option \<Rightarrow> hub_run \<Rightarrow> ez_err \<times> hub_run" where
  "send_list L cmd lst s =
     (case retried (on_world (cJSON_PrintUnformatted L lst)) (\<lambda>t. t \<noteq> None) (snd s) of ((ok, t), h) \<Rightarrow>
       let l = (fst s)\<lparr>l_save := (t \<noteq> None)\<rparr> in
       if \<not> ok then (EZ_HUB_ERR_MEMORY, (l, h))
       else (case retried (hub_send_msg_to_platform (the t) cmd 0 0) (\<lambda>rc. rc = 0) h of ((ok', _), h1) \<Rightarrow>
         (if ok' then EZ_HUB_ERR_SUCC else EZ_HUB_ERR_INTERNAL, (l, h1))))"

text \<open>The part common to both reports; \<^verbatim>\<open>when_empty\<close> is what an empty list does.\<close>

definition report :: "libs \<Rightarrow> uint32 \<Rightarrow> (hub_subdev_info_internal_t \<Rightarrow> cJSON option \<Rightarrow> mem \<Rightarrow> cJSON option \<times> mem)
    \<Rightarrow> (hub_run \<Rightarrow> ez_err \<times> hub_run) \<Rightarrow> hub \<Rightarrow> (ez_err \<times> hub) option" where
  "report L cmd add when_empty h =
     (case on_world (w_json cJSON_CreateArray) h of (subdev_lst, h0) \<Rightarrow>
       hub_lock (\<lambda>h1.
         let r = (if subdev_lst = None then ((EZ_HUB_ERR_MEMORY, (no_locals, h1)), subdev_lst)
                  else (case kv_list_length (no_locals, h1) of (e, s1) \<Rightarrow>
                    if e \<noteq> EZ_HUB_ERR_SUCC then ((e, s1), subdev_lst)
                    else if hublist (snd s1) = [] then (when_empty s1, subdev_lst)
                    else (case read_list L True s1 of (e1, (l, h2)) \<Rightarrow>
                      if e1 \<noteq> EZ_HUB_ERR_SUCC then ((e1, (l, h2)), subdev_lst)
                      else (case on_world (report_loop add (case l_root l of None \<Rightarrow> [] | Some j \<Rightarrow> js_child j) subdev_lst)
                              (upd_hw w_free h2) of (lst, h3) \<Rightarrow>
                        (send_list L cmd lst (l\<lparr>l_pbuf := False\<rparr>, h3), lst)))))
         in case r of (x, lst) \<Rightarrow> (case hub_done x of (rv, h4) \<Rightarrow> (rv, upd_hw (w_json_delete lst) h4))) h0)"

definition hub_subdev_list_report :: "libs \<Rightarrow> hub \<Rightarrow> (ez_err \<times> hub) option" where
  "hub_subdev_list_report L =
     report L kPu2CenPltHubReportRelationShipReq
       (\<lambda>d lst m. if sd_access d = 0 then (lst, m) else subdev_to_relation_lst d lst m)
       (\<lambda>s. case retried (hub_send_msg_to_platform (string_bytes ''{}'') kPu2CenPltHubReportRelationShipReq 0 0)
                 (\<lambda>rc. rc = 0) (snd s) of ((ok, _), h) \<Rightarrow> (if ok then EZ_HUB_ERR_SUCC else EZ_HUB_ERR_INTERNAL, (fst s, h)))"

definition hub_subdev_sta_report :: "libs \<Rightarrow> hub \<Rightarrow> (ez_err \<times> hub) option" where
  "hub_subdev_sta_report L =
     report L kPu2CenPltHubReportOnlineStatusReq subdev_to_status_lst (\<lambda>s. (EZ_HUB_ERR_SUBDEV_NOT_FOUND, s))"

text \<open>A report after an operation that succeeded; its own result is ignored.\<close>

definition then_report :: "(hub \<Rightarrow> (ez_err \<times> hub) option) \<Rightarrow> (ez_err \<times> hub) option \<Rightarrow> (ez_err \<times> hub) option" where
  "then_report rep r = (case r of
      None \<Rightarrow> None
    | Some (rv, h) \<Rightarrow> if rv = EZ_HUB_ERR_SUCC then map_option (\<lambda>x. (rv, snd x)) (rep h) else Some (rv, h))"

section \<open>Authentication requests\<close>

text \<open>
  The digest of the request: \<^verbatim>\<open>md5(md5(md5(vcode + sn) + salt))\<close> with upper-case hexadecimal text in between. The serial
  number of a licence device is preceded by its type.
\<close>

definition auth_sn :: "hub_subdev_info_internal_t \<Rightarrow> string" where
  "auth_sn d = (if sd_authm d = 0 then strncpy (sd_sn d) 63 else take 62 (sd_type d @ '':'' @ sd_sn d))"

definition auth_mac :: "lbs_crypto \<Rightarrow> hub_subdev_info_internal_t \<Rightarrow> string" where
  "auth_mac T d =
     (let mac1 = md5_hexdump (md5 T (string_bytes (sd_vcode d) @ string_bytes (auth_sn d))) True;
          mac2 = md5_hexdump (md5 T (string_bytes mac1 @ string_bytes ''www.88075998.com'')) True
      in md5_hexdump (md5 T (string_bytes mac2)) True)"

definition hub_subdev_auth_do :: "libs \<Rightarrow> lbs_crypto \<Rightarrow> hub_subdev_info_internal_t \<Rightarrow> hub \<Rightarrow> ez_err \<times> hub" where
  "hub_subdev_auth_do L T d h =
     (case on_world (w_json cJSON_CreateObject) h of (ob, h1) \<Rightarrow>
       if ob = None then (EZ_HUB_ERR_MEMORY, h1)
       else (case on_world (w_json (add_fields [(''childserial'', Inl (auth_sn d)), (''childverifycode'', Inl (auth_mac T d)),
                 (''devAccessMode'', Inr (sd_authm d))] ob)) h1 of (auth_info, h2) \<Rightarrow>
         case retried (on_world (cJSON_PrintUnformatted L auth_info)) (\<lambda>t. t \<noteq> None) h2 of ((ok, t), h3) \<Rightarrow>
         case (if ok then hub_send_msg_to_platform (the t) kPu2CenPltHubAuthChildDeviceReq 0 0 h3 else (EZ_HUB_ERR_MEMORY, h3)) of
           (rv, h4) \<Rightarrow> (rv, upd_hw (\<lambda>w. w_json_delete auth_info (if t \<noteq> None then w_free w else w)) h4)))"

section \<open>Changing the list\<close>

text \<open>A new device: an empty list is created; the check of the buffer does not allocate it again.\<close>

definition open_for_add :: "libs \<Rightarrow> string \<Rightarrow> hub_run \<Rightarrow> ez_err \<times> hub_run" where
  "open_for_add L sn s =
     then_ok (kv_list_length s) (\<lambda>s1.
       if hublist (snd s1) = [] then
         (case on_world (w_json cJSON_CreateArray) (snd s1) of (j, h) \<Rightarrow>
           (if j = None then EZ_HUB_ERR_MEMORY else EZ_HUB_ERR_SUCC, ((fst s1)\<lparr>l_root := j\<rparr>, h)))
       else then_ok (read_list L False s1) (\<lambda>s2.
         case find_dev_by_sn (the (l_root (fst s2))) (Some sn) of (i, null_text) \<Rightarrow>
           (if i \<noteq> None then EZ_HUB_ERR_SUBDEV_EXISTED else EZ_HUB_ERR_SUCC, hub_fault null_text s2)))"

text \<open>A device object that cannot be built is tried again; the second one is never freed.\<close>

definition append_subdev :: "hub_subdev_info_internal_t \<Rightarrow> hub_run \<Rightarrow> ez_err \<times> hub_run" where
  "append_subdev d s =
     (if cJSON_GetArraySize (l_root (fst s)) \<ge> COMPONENT_HUB_SUBLIST_MAX then (EZ_HUB_ERR_OUT_OF_RANGE, s)
      else (case retried (on_world (w_json (subdev_to_json d))) (\<lambda>j. j \<noteq> None) (snd s) of ((ok, j), h) \<Rightarrow>
        if ok then (EZ_HUB_ERR_SUCC, ((fst s)\<lparr>l_root := cJSON_AddItemToArray (l_root (fst s)) j\<rparr>, h))
        else (EZ_HUB_ERR_MEMORY, (fst s, h))))"

definition count_unauth :: "int \<Rightarrow> hub \<Rightarrow> hub" where
  "count_unauth n h = h\<lparr>g_unauth_count := g_unauth_count h + n\<rparr>"

definition hub_add_do :: "libs \<Rightarrow> lbs_crypto \<Rightarrow> hub_subdev_info_internal_t \<Rightarrow> hub \<Rightarrow> (ez_err \<times> hub) option" where
  "hub_add_do L T d =
     hub_lock (\<lambda>h. hub_done
       (then_ok (open_for_add L (sd_sn d) (no_locals, h)) (\<lambda>s1.
        then_ok (append_subdev d s1) (\<lambda>s2.
        then_ok (save_list L s2) (\<lambda>s3.
          (EZ_HUB_ERR_SUCC, (fst s3, snd (hub_subdev_auth_do L T d (count_unauth 1 (snd s3))))))))))"

text \<open>The device with a serial number, for the functions that look one up.\<close>

definition with_subdev :: "libs \<Rightarrow> string \<Rightarrow> (nat \<Rightarrow> cJSON \<Rightarrow> cJSON \<Rightarrow> hub_run \<Rightarrow> ez_err \<times> hub_run) \<Rightarrow> hub_run
    \<Rightarrow> ez_err \<times> hub_run" where
  "with_subdev L sn act s =
     then_ok (open_list L EZ_HUB_ERR_SUBDEV_NOT_FOUND s) (\<lambda>s1.
       let root = the (l_root (fst s1)) in
       case find_dev_by_sn root (Some sn) of (index, null_text) \<Rightarrow>
         let s2 = hub_fault null_text s1 in
         case index of
           None \<Rightarrow> (EZ_HUB_ERR_SUBDEV_NOT_FOUND, s2)
         | Some i \<Rightarrow>
             (case cJSON_GetArrayItem (Some root) (int i) of
                None \<Rightarrow> (EZ_HUB_ERR_SUBDEV_NOT_FOUND, s2)
              | Some item \<Rightarrow> act i root item s2))"

text \<open>A change of member \<^verbatim>\<open>key\<close> of the device at position \<^verbatim>\<open>i\<close>.\<close>

definition replace_member :: "string \<Rightarrow> (mem \<Rightarrow> cJSON option \<times> mem) \<Rightarrow> nat \<Rightarrow> cJSON \<Rightarrow> cJSON \<Rightarrow> hub_run \<Rightarrow> hub_run" where
  "replace_member key create i root item s =
     (case on_world (w_json (\<lambda>m. case create m of (new, m1) \<Rightarrow> cJSON_ReplaceItemInObject item key new m1)) (snd s) of
       (item', h) \<Rightarrow> ((fst s)\<lparr>l_root := Some (with_child ((js_child root)[i := item']) root)\<rparr>, h))"

definition hub_del_do :: "libs \<Rightarrow> string \<Rightarrow> hub \<Rightarrow> (ez_err \<times> hub) option" where
  "hub_del_do L sn h =
     then_report (hub_subdev_list_report L) (hub_lock (\<lambda>h1. hub_done
       (with_subdev L sn (\<lambda>i root item s.
          case json_to_subdev item of (d, null_text) \<Rightarrow>
          case on_world (w_json (\<lambda>m. cJSON_DeleteItemFromArray root i m)) (snd (hub_fault null_text s)) of (root', h2) \<Rightarrow>
            then_ok (save_list L ((fst s)\<lparr>l_root := Some root'\<rparr>, h2)) (\<lambda>s3.
              (EZ_HUB_ERR_SUCC, (fst s3, if sd_access d = 0 then count_unauth (- 1) (snd s3) else snd s3))))
        (no_locals, h1))) h)"

definition hub_ver_update_do :: "libs \<Rightarrow> string \<Rightarrow> string \<Rightarrow> hub \<Rightarrow> (ez_err \<times> hub) option" where
  "hub_ver_update_do L sn ver h =
     then_report (hub_subdev_list_report L) (hub_lock (\<lambda>h1. hub_done
       (with_subdev L sn (\<lambda>i root item s.
          then_ok (save_list L (replace_member ''ver'' (cJSON_CreateString ver) i root item
                (hub_fault (snd (json_to_subdev item)) s))) (\<lambda>s3.
            (EZ_HUB_ERR_SUCC, hub_fault (case cJSON_GetArrayItem (l_root (fst s3)) (int i) of
               None \<Rightarrow> False | Some item' \<Rightarrow> snd (json_to_subdev item')) s3)))
        (no_locals, h1))) h)"

definition hub_status_update_do :: "libs \<Rightarrow> string \<Rightarrow> bool \<Rightarrow> hub \<Rightarrow> (ez_err \<times> hub) option" where
  "hub_status_update_do L sn online h =
     then_report (hub_subdev_sta_report L) (hub_lock (\<lambda>h1. hub_done
       (with_subdev L sn (\<lambda>i root item s. save_list L (replace_member ''sta'' (cJSON_CreateBool online) i root item s))
        (no_locals, h1))) h)"

section \<open>Queries\<close>

text \<open>
  The common part of the two queries: open the list, choose a position, and read the device there; \<^verbatim>\<open>none_code\<close> is the
  result for an empty list and for no position.
\<close>

definition read_subdev :: "libs \<Rightarrow> ez_err \<Rightarrow> (cJSON \<Rightarrow> nat option \<times> bool) \<Rightarrow> hub_subdev_info_internal_t \<Rightarrow> hub_run
    \<Rightarrow> (ez_err \<times> hub_subdev_info_internal_t) \<times> hub_run" where
  "read_subdev L none_code pick d0 s =
     (case open_list L none_code s of (e, s1) \<Rightarrow>
       if e \<noteq> EZ_HUB_ERR_SUCC then ((e, d0), s1)
       else let root = the (l_root (fst s1)) in
         case pick root of (index, null_text) \<Rightarrow>
           let s2 = hub_fault null_text s1 in
           case index of
             None \<Rightarrow> ((none_code, d0), s2)
           | Some i \<Rightarrow> (case cJSON_GetArrayItem (Some root) (int i) of
               None \<Rightarrow> ((EZ_HUB_ERR_SUBDEV_NOT_FOUND, d0), s2)
             | Some item \<Rightarrow> (case json_to_subdev item of (d, nt) \<Rightarrow> ((EZ_HUB_ERR_SUCC, d), hub_fault nt s2))))"

definition hub_subdev_query :: "libs \<Rightarrow> string \<Rightarrow> hub_subdev_info_internal_t \<Rightarrow> hub
    \<Rightarrow> ((ez_err \<times> hub_subdev_info_internal_t) \<times> hub) option" where
  "hub_subdev_query L sn d0 =
     hub_lock (\<lambda>h. hub_done (read_subdev L EZ_HUB_ERR_SUBDEV_NOT_FOUND (\<lambda>root. find_dev_by_sn root (Some sn)) d0 (no_locals, h)))"

text \<open>The position \<^verbatim>\<open>hub_subdev_next\<close> continues at.\<close>

definition next_index :: "cJSON \<Rightarrow> string \<Rightarrow> nat option \<times> bool" where
  "next_index root sn =
     (if sn = '''' then find_dev_by_sn root None
      else (case find_dev_by_sn root (Some sn) of
          (None, nt) \<Rightarrow> (None, nt)
        | (Some i, nt) \<Rightarrow> (if cJSON_GetArraySize (Some root) \<le> i + 1 then None else Some (i + 1), nt)))"

definition hub_subdev_next :: "libs \<Rightarrow> hub_subdev_info_internal_t \<Rightarrow> hub
    \<Rightarrow> ((ez_err \<times> hub_subdev_info_internal_t) \<times> hub) option" where
  "hub_subdev_next L d0 =
     hub_lock (\<lambda>h. hub_done (read_subdev L EZ_HUB_ERR_ENUM_END (\<lambda>root. next_index root (sd_sn d0)) d0 (no_locals, h)))"

section \<open>Clearing\<close>

text \<open>The error path jumps past the unlock.\<close>

definition hub_clean_do :: "libs \<Rightarrow> hub \<Rightarrow> (ez_err \<times> hub) option" where
  "hub_clean_do L h =
     (case hub_lock (\<lambda>h1. retried (kv_list_set []) (\<lambda>rc. rc = 0) h1) h of
        None \<Rightarrow> None
      | Some ((ok, _), h1) \<Rightarrow>
          if \<not> ok then Some (EZ_HUB_ERR_STORAGE, h1)
          else map_option (\<lambda>x. (EZ_HUB_ERR_SUCC, snd x)) (hub_subdev_list_report L (h1\<lparr>hub_locked := False\<rparr>)))"

section \<open>Answers of the platform\<close>

text \<open>The callback of the application; without one, NULL is called.\<close>

definition recv_event :: "hub_event \<Rightarrow> hub \<Rightarrow> hub" where
  "recv_event e h = (if g_phub_cbs h then h\<lparr>hub_events := hub_events h @ [e]\<rparr> else upd_hw (faulty True) h)"

definition hub_subdev_auth_passed :: "libs \<Rightarrow> string \<Rightarrow> hub \<Rightarrow> (ez_err \<times> hub) option" where
  "hub_subdev_auth_passed L sn h =
     then_report (hub_subdev_list_report L) (hub_lock (\<lambda>h1. hub_done
       (with_subdev L sn (\<lambda>i root item s.
          case json_to_subdev item of (d, null_text) \<Rightarrow>
            then_ok (save_list L (replace_member ''access'' (cJSON_CreateNumber (whole 1)) i root item (hub_fault null_text s))) (\<lambda>s3.
              (EZ_HUB_ERR_SUCC, (fst s3, recv_event (Subdev_add_succ (sd_sn d)) (snd s3)))))
        (no_locals, h1))) h)"

definition hub_subdev_auth_failure :: "libs \<Rightarrow> string \<Rightarrow> hub \<Rightarrow> (ez_err \<times> hub) option" where
  "hub_subdev_auth_failure L sn h =
     (case hub_subdev_query L sn zero_subdev h of
        None \<Rightarrow> None
      | Some ((_, d), h1) \<Rightarrow> hub_del_do L sn (recv_event (Subdev_add_fail (ez_subdev_info_t.truncate d)) h1))"

text \<open>\<^verbatim>\<open>sscanf(s, "%*[^:]:%s", sn)\<close>: None when nothing is stored.\<close>

definition scan_licence :: "string \<Rightarrow> string option" where
  "scan_licence s =
     (let pre = takeWhile (\<lambda>c. c \<noteq> CHR '':'') s;
          name = takeWhile (\<lambda>c. \<not> is_space c) (dropWhile is_space (drop (length pre + 1) s))
      in if pre = [] \<or> length pre = length s \<or> name = [] then None else Some name)"

text \<open>
  The reply to an authentication request. \<^verbatim>\<open>junk\<close> is what the uninitialised buffer of 17 bytes holds; a name of more than
  16 characters is written past its end.
\<close>

definition hub_subdev_auth_done :: "libs \<Rightarrow> string \<Rightarrow> byte list option \<Rightarrow> int \<Rightarrow> hub \<Rightarrow> hub option" where
  "hub_subdev_auth_done L junk buf len h =
     (if buf = None \<or> len = 0 then Some h
      else (case on_world (hub_parse L (the buf)) h of (js_root, h1) \<Rightarrow>
        case (cJSON_GetObjectItem js_root ''childserial'', cJSON_GetObjectItem js_root ''result'') of
          (Some js_sn, Some js_result) \<Rightarrow>
            if js_type js_sn \<noteq> cJSON_String \<or> js_type js_result \<noteq> cJSON_Number then Some (upd_hw (w_json_delete js_root) h1)
            else let text = the (js_valuestring js_sn);
                     stored = (if length text = 9 then Some (strncpy text 16) else scan_licence text);
                     sn = (case stored of None \<Rightarrow> junk | Some n \<Rightarrow> n);
                     h2 = upd_hw (faulty (stored = None \<or> length sn > 16)) h1;
                     r = (if js_valueint js_result = 0 then hub_subdev_auth_passed L sn h2
                          else if js_valueint js_result = 1 then hub_subdev_auth_failure L sn h2
                          else Some (0, h2))
                 in map_option (\<lambda>x. upd_hw (w_json_delete js_root) (snd x)) r
        | _ \<Rightarrow> Some (upd_hw (w_json_delete js_root) h1)))"

text \<open>The timer's walk over all devices; it ends when \<^verbatim>\<open>hub_subdev_next\<close> reports the end or an error.\<close>

partial_function (option) retry_loop :: "libs \<Rightarrow> lbs_crypto \<Rightarrow> hub_subdev_info_internal_t \<Rightarrow> hub \<Rightarrow> hub option" where
  "retry_loop L T d h =
     (case hub_subdev_next L d h of
        None \<Rightarrow> None
      | Some ((rv, d'), h1) \<Rightarrow>
          if rv \<noteq> EZ_HUB_ERR_SUCC then Some h1
          else if sd_access d' = 1 then retry_loop L T d' h1
          else retry_loop L T d' (snd (hub_subdev_auth_do L T d' h1)))"

definition auth_retry_timer_cb :: "libs \<Rightarrow> lbs_crypto \<Rightarrow> hub \<Rightarrow> hub option" where
  "auth_retry_timer_cb L T h = (if \<not> 0 < g_unauth_count h then Some h else retry_loop L T zero_subdev h)"

section \<open>Start and end of the module\<close>

abbreviation (input) retry_callback :: nat where "retry_callback \<equiv> 70025"

definition hub_func_init :: "bool \<Rightarrow> hub \<Rightarrow> int \<times> hub" where
  "hub_func_init cbs h =
     (let (ok, ms) = (case hub_mutexes h of [] \<Rightarrow> (True, []) | b # bs \<Rightarrow> (b, bs));
          h1 = h\<lparr>g_phub_cbs := cbs, hub_mutexes := ms, g_hlock := (if ok then Mutex_live else Mutex_null), hub_locked := False\<rparr>
      in if \<not> ok then (EZ_HUB_ERR_INTERNAL, h1)
         else (case eztimer_create ''auth_retry_timer'' 120000 False (Some retry_callback) (hub_timers h1) of (i, ts) \<Rightarrow>
           (0, h1\<lparr>g_auth_timer := i, hub_timers := ts\<rparr>)))"

definition hub_func_deinit :: "hub \<Rightarrow> hub" where
  "hub_func_deinit h = h\<lparr>g_phub_cbs := False, hub_timers := snd (eztimer_delete (g_auth_timer h) (hub_timers h)),
     g_hlock := Mutex_destroyed\<rparr>"

definition hub_extern_init :: "hub \<Rightarrow> int \<times> hub" where
  "hub_extern_init = on_world (ez_kernel_extend_load (Some hub_extension))"

definition hub_extern_finit :: "hub \<Rightarrow> int \<times> hub" where
  "hub_extern_finit h = (0, h)"

end
