(* ===== verification/Hub_Api.thy ===== *)
theory Hub_Api
  imports Hub_Func
begin

text \<open>
  The interface of the hub module, \<^verbatim>\<open>hub/src/ez_iot_hub.c\<close>, its callbacks for the core, \<^verbatim>\<open>hub/src/hub_extern.c\<close>, and the
  step of the user task with the module loaded: the dispatcher's calls to the module's functions run their code.
\<close>

section \<open>Interface\<close>

text \<open>\<^verbatim>\<open>phub_cbs\<close> is NULL or a structure whose \<^verbatim>\<open>recv_event\<close> is set or not.\<close>

definition ez_iot_hub_init :: "bool option \<Rightarrow> hub \<Rightarrow> ez_err \<times> hub" where
  "ez_iot_hub_init phub_cbs h =
     (if g_hub_inited h then (EZ_HUB_ERR_SUCC, h)
      else if phub_cbs = None then (EZ_HUB_ERR_PARAM_INVALID, h)
      else if phub_cbs = Some False then (EZ_HUB_ERR_PARAM_INVALID, h)
      else (case retried hub_extern_init (\<lambda>rc. rc = 0) h of ((ok, _), h1) \<Rightarrow>
        if \<not> ok then (EZ_HUB_ERR_INTERNAL, h1)
        else (case retried (hub_func_init True) (\<lambda>rc. rc = 0) h1 of ((ok', _), h2) \<Rightarrow>
          if \<not> ok' then (EZ_HUB_ERR_INTERNAL, h2) else (0, h2\<lparr>g_hub_inited := True\<rparr>))))"

text \<open>The checks in front of every other call.\<close>

definition hub_checked :: "bool \<Rightarrow> 'r \<Rightarrow> (ez_err \<Rightarrow> 'r) \<Rightarrow> hub \<Rightarrow> 'r" where
  "hub_checked args_ok body err h =
     (if \<not> g_hub_inited h then err EZ_HUB_ERR_NOT_INIT else if \<not> args_ok then err EZ_HUB_ERR_PARAM_INVALID else body)"

definition ez_iot_hub_add :: "libs \<Rightarrow> lbs_crypto \<Rightarrow> ez_subdev_info_t option \<Rightarrow> hub \<Rightarrow> (ez_err \<times> hub) option" where
  "ez_iot_hub_add L T subdev_info h =
     hub_checked (subdev_info \<noteq> None)
       (hub_add_do L T (ez_subdev_info_t.extend (the subdev_info) (hub_subdev_info_internal_t.fields 0)) h) (\<lambda>e. Some (e, h)) h"

definition ez_iot_hub_del :: "libs \<Rightarrow> string option \<Rightarrow> hub \<Rightarrow> (ez_err \<times> hub) option" where
  "ez_iot_hub_del L sn h = hub_checked (sn \<noteq> None) (hub_del_do L (the sn) h) (\<lambda>e. Some (e, h)) h"

definition ez_iot_hub_ver_update :: "libs \<Rightarrow> string option \<Rightarrow> string option \<Rightarrow> hub \<Rightarrow> (ez_err \<times> hub) option" where
  "ez_iot_hub_ver_update L sn ver h =
     hub_checked (sn \<noteq> None \<and> ver \<noteq> None) (hub_ver_update_do L (the sn) (the ver) h) (\<lambda>e. Some (e, h)) h"

definition ez_iot_hub_status_update :: "libs \<Rightarrow> string option \<Rightarrow> bool \<Rightarrow> hub \<Rightarrow> (ez_err \<times> hub) option" where
  "ez_iot_hub_status_update L sn online h =
     hub_checked (sn \<noteq> None) (hub_status_update_do L (the sn) online h) (\<lambda>e. Some (e, h)) h"

text \<open>A successful query copies the public part of the result to the caller.\<close>

definition copy_out :: "ez_subdev_info_t \<Rightarrow> ((ez_err \<times> hub_subdev_info_internal_t) \<times> hub) option
    \<Rightarrow> ((ez_err \<times> ez_subdev_info_t) \<times> hub) option" where
  "copy_out info r = map_option (\<lambda>((rv, d), h). ((rv, if rv = EZ_HUB_ERR_SUCC then ez_subdev_info_t.truncate d else info), h)) r"

definition ez_iot_hub_subdev_query :: "libs \<Rightarrow> string option \<Rightarrow> ez_subdev_info_t option \<Rightarrow> hub
    \<Rightarrow> ((ez_err \<times> ez_subdev_info_t option) \<times> hub) option" where
  "ez_iot_hub_subdev_query L sn info h =
     hub_checked (sn \<noteq> None \<and> info \<noteq> None)
       (map_option (\<lambda>((rv, d), h'). ((rv, Some d), h')) (copy_out (the info)
          (hub_subdev_query L (the sn) (ez_subdev_info_t.extend (the info) (hub_subdev_info_internal_t.fields 0)) h)))
       (\<lambda>e. Some ((e, info), h)) h"

definition ez_iot_hub_subdev_next :: "libs \<Rightarrow> ez_subdev_info_t option \<Rightarrow> hub
    \<Rightarrow> ((ez_err \<times> ez_subdev_info_t option) \<times> hub) option" where
  "ez_iot_hub_subdev_next L info h =
     hub_checked (info \<noteq> None)
       (map_option (\<lambda>((rv, d), h'). ((rv, Some d), h')) (copy_out (the info)
          (hub_subdev_next L (ez_subdev_info_t.extend (the info) (hub_subdev_info_internal_t.fields 0)) h)))
       (\<lambda>e. Some ((e, info), h)) h"

definition ez_iot_hub_clean :: "libs \<Rightarrow> hub \<Rightarrow> (ez_err \<times> hub) option" where
  "ez_iot_hub_clean L h = hub_checked True (hub_clean_do L h) (\<lambda>e. Some (e, h)) h"

definition ez_iot_hub_deinit :: "hub \<Rightarrow> ez_err \<times> hub" where
  "ez_iot_hub_deinit h =
     hub_checked True
       (case retried hub_extern_finit (\<lambda>rc. rc = 0) h of ((ok, _), h1) \<Rightarrow>
         if \<not> ok then (EZ_HUB_ERR_INTERNAL, h1) else (EZ_HUB_ERR_SUCC, (hub_func_deinit h1)\<lparr>g_hub_inited := False\<rparr>))
       (\<lambda>e. (e, h)) h"

section \<open>Callbacks\<close>

definition hub_extend_start_cb :: "libs \<Rightarrow> hub \<Rightarrow> hub option" where
  "hub_extend_start_cb L h = map_option snd (hub_subdev_list_report L h)"

definition hub_extend_data_route_cb :: "libs \<Rightarrow> string \<Rightarrow> ez_kernel_submsg \<Rightarrow> hub \<Rightarrow> hub option" where
  "hub_extend_data_route_cb L junk msg h =
     (if sub_msg_command_id msg = kPu2CenPltHubAuthChildDeviceRsp
      then hub_subdev_auth_done L junk (sub_buf msg) (int (unat (sub_buf_len msg))) h else Some h)"

definition hub_extend_event_cb :: "libs \<Rightarrow> ez_kernel_event \<Rightarrow> hub \<Rightarrow> hub option" where
  "hub_extend_event_cb L ev h =
     (if event_type ev = SDK_KERNEL_EVENT_ONLINE \<or> event_type ev = SDK_KERNEL_EVENT_SWITCHOVER
      then map_option snd (hub_subdev_list_report L h) else Some h)"

text \<open>The code behind a call of the dispatcher; calls to other modules are none of the hub's.\<close>

definition hub_callback :: "libs \<Rightarrow> string \<Rightarrow> callback \<Rightarrow> hub \<Rightarrow> hub option" where
  "hub_callback L junk c h =
     (case c of
        Cb_start f u \<Rightarrow> if extend_start hub_extension = Some f then hub_extend_start_cb L h else Some h
      | Cb_data f msg u \<Rightarrow> if extend_data_route hub_extension = Some f then hub_extend_data_route_cb L junk msg h else Some h
      | Cb_event f ev u \<Rightarrow> if extend_event hub_extension = Some f then hub_extend_event_cb L ev h else Some h
      | _ \<Rightarrow> Some h)"

fun hub_callbacks :: "libs \<Rightarrow> string \<Rightarrow> callback list \<Rightarrow> hub \<Rightarrow> hub option" where
  "hub_callbacks L junk [] h = Some h"
| "hub_callbacks L junk (c # cs) h = Option.bind (hub_callback L junk c h) (hub_callbacks L junk cs)"

definition hub_user_step :: "libs \<Rightarrow> string \<Rightarrow> hub \<Rightarrow> hub option" where
  "hub_user_step L junk h =
     (case ez_kernel_yield_user (hub_world h) of (e, w) \<Rightarrow>
       hub_callbacks L junk (drop (length (calls (hub_world h))) (calls w)) (h\<lparr>hub_world := w\<rparr>))"

text \<open>A round of the timers with the module's timer: an expiry calls \<^verbatim>\<open>auth_retry_timer_cb\<close>.\<close>

definition hub_timer_step :: "libs \<Rightarrow> lbs_crypto \<Rightarrow> hub \<Rightarrow> hub option" where
  "hub_timer_step L T h =
     (let ts = timer_tick (hub_timers h) in
      if retry_callback \<in> set (drop (length (t_calls (hub_timers h))) (t_calls ts))
      then auth_retry_timer_cb L T (h\<lparr>hub_timers := ts\<rparr>) else Some (h\<lparr>hub_timers := ts\<rparr>))"

end
