(* ===== verification/Cjson_Text.thy ===== *)
theory Cjson_Text
  imports Cjson_Tree
begin

text \<open>
  The printer and the parser of \<^verbatim>\<open>components/cJSON/src/cJSON.c\<close>, unformatted output, as functions between trees and text.
  A printer that fails gives None; the growth of its buffer is not modelled, an allocation failure being part
  of \<^verbatim>\<open>cJSON_PrintUnformatted\<close>. The parser's buffer is the rest of the text, which always ends with the terminating NUL; the number of nested
  arrays and objects it may still open is its first argument. A number is read exactly; \<^verbatim>\<open>strtod\<close> rounds it to a double,
  which loses nothing of integers that fit into 32 bits. Numbers are printed as the code does when the C library prints no floating point numbers
  (\<^verbatim>\<open>CJSON_SPRINTF_FLOAT\<close> is 0, the default), again with exact arithmetic.
\<close>

section \<open>Printing\<close>

text \<open>The digits of the fraction \<^verbatim>\<open>a / b\<close>, at most \<^verbatim>\<open>precision\<close> of them. A digit that exceeds 9 gives the character the code writes.\<close>

primrec frac_digits :: "nat \<Rightarrow> nat \<Rightarrow> nat \<Rightarrow> string" where
  "frac_digits 0 a b = []"
| "frac_digits (Suc precision) a b =
     (if a > 0 then char_of (48 + a * 10 div b) # frac_digits precision (a * 10 mod b) b else [])"

text \<open>
  The integer part, and for other numbers the digits of the rest without trailing zeros. For a negative number 1 / 10 ^ 14 is added to the rest; the sign
  is lost when the integer part is 0. The assertion fails for an integer part of more than 32 bits.
\<close>

definition print_number :: "cJSON \<Rightarrow> string option" where
  "print_number item =
     (let d = js_valuedouble item; d32 = truncated d; b = 10 ^ scale d;
          a = nat \<bar>mantissa d - d32 * int b\<bar>
      in if d32 < - (2 ^ 31) \<or> 2 ^ 31 \<le> d32 then None
         else if scale d = 0 then Some (dec_int d32)
         else Some (dec_int d32 @ ''.'' @ rev (dropWhile (\<lambda>c. c = CHR ''0'') (rev
           (if mantissa d < 0 then frac_digits 14 (a * 10 ^ 14 + b) (b * 10 ^ 14) else frac_digits 14 a b)))))"

definition hex4 :: "nat \<Rightarrow> char" where
  "hex4 n = char_of (if n < 10 then 48 + n else 87 + n)"

definition print_char :: "char \<Rightarrow> string" where
  "print_char c =
     (let n = of_char c :: nat in
      if n > 31 \<and> c \<noteq> CHR 0x22 \<and> c \<noteq> CHR 0x5C then [c]
      else if c = CHR 0x5C then [CHR 0x5C, CHR 0x5C]
      else if c = CHR 0x22 then [CHR 0x5C, CHR 0x22]
      else if n = 8 then [CHR 0x5C, CHR ''b'']
      else if n = 12 then [CHR 0x5C, CHR ''f'']
      else if n = 10 then [CHR 0x5C, CHR ''n'']
      else if n = 13 then [CHR 0x5C, CHR ''r'']
      else if n = 9 then [CHR 0x5C, CHR ''t'']
      else [CHR 0x5C, CHR ''u'', CHR ''0'', CHR ''0'', hex4 (n div 16), hex4 (n mod 16)])"

definition print_string_ptr :: "string option \<Rightarrow> string" where
  "print_string_ptr input =
     (case input of None \<Rightarrow> [CHR 0x22, CHR 0x22] | Some s \<Rightarrow> CHR 0x22 # concat (map print_char s) @ [CHR 0x22])"

text \<open>The elements separated by commas, up to the closing bracket.\<close>

fun print_items :: "(cJSON \<Rightarrow> string option) \<Rightarrow> cJSON list \<Rightarrow> string option" where
  "print_items p [] = Some []"
| "print_items p [c] = p c"
| "print_items p (c # cs) =
     (case p c of None \<Rightarrow> None | Some s \<Rightarrow> (case print_items p cs of None \<Rightarrow> None | Some r \<Rightarrow> Some (s @ CHR '','' # r)))"

lemma print_items_cong [fundef_cong]:
  "cs = cs' \<Longrightarrow> (\<And>c. c \<in> set cs' \<Longrightarrow> p c = p' c) \<Longrightarrow> print_items p cs = print_items p' cs'"
proof (induction p cs arbitrary: cs' rule: print_items.induct)
  case (3 p c d ds)
  then show ?case by (auto split: option.split)
qed auto

fun print_value :: "cJSON \<Rightarrow> string option" where
  "print_value (CJSON t i d v s cs) =
     (case t of
        cJSON_NULL \<Rightarrow> Some ''null''
      | cJSON_False \<Rightarrow> Some ''false''
      | cJSON_True \<Rightarrow> Some ''true''
      | cJSON_Number \<Rightarrow> print_number (CJSON t i d v s cs)
      | cJSON_Raw \<Rightarrow> v
      | cJSON_String \<Rightarrow> Some (print_string_ptr v)
      | cJSON_Array \<Rightarrow> map_option (\<lambda>r. CHR ''['' # r @ '']'') (print_items print_value cs)
      | cJSON_Object \<Rightarrow> map_option (\<lambda>r. CHR ''{'' # r @ ''}'')
          (print_items (\<lambda>c. map_option (\<lambda>r. print_string_ptr (js_string c) @ CHR '':'' # r) (print_value c)) cs)
      | cJSON_Invalid \<Rightarrow> None)"

section \<open>Parsing\<close>

definition blank :: "char \<Rightarrow> bool" where
  "blank c \<longleftrightarrow> (of_char c :: nat) \<le> 32"

text \<open>At the end of the buffer the position steps back to the terminating NUL.\<close>

definition buffer_skip_whitespace :: "string \<Rightarrow> string" where
  "buffer_skip_whitespace s = (case dropWhile blank s of [] \<Rightarrow> [CHR 0x00] | r \<Rightarrow> r)"

definition skip_utf8_bom :: "string \<Rightarrow> string" where
  "skip_utf8_bom s = (if length s > 4 \<and> take 3 s = [CHR 0xEF, CHR 0xBB, CHR 0xBF] then drop 3 s else s)"

subsection \<open>Numbers\<close>

definition number_char :: "char \<Rightarrow> bool" where
  "number_char c \<longleftrightarrow> is_digit c \<or> c \<in> set ''+-eE.''"

definition read_sign :: "string \<Rightarrow> bool \<times> string" where
  "read_sign s = (case s of c # r \<Rightarrow> if c = CHR ''-'' then (True, r) else if c = CHR ''+'' then (False, r) else (False, s)
     | [] \<Rightarrow> (False, []))"

text \<open>The exponent, when one follows; otherwise nothing is read.\<close>

definition read_exponent :: "string \<Rightarrow> int \<times> string" where
  "read_exponent s =
     (case s of
        [] \<Rightarrow> (0, s)
      | c # r \<Rightarrow>
          if c = CHR ''e'' \<or> c = CHR ''E'' then
            (case read_sign r of (neg, r1) \<Rightarrow>
              let ds = takeWhile is_digit r1 in
              if ds = [] then (0, s)
              else (let e = int (atoi_digits 0 ds) in (if neg then - e else e, drop (length ds) r1)))
          else (0, s))"

text \<open>\<^verbatim>\<open>strtod\<close>: the number and the text behind it; None when there is no number.\<close>

definition strtod :: "string \<Rightarrow> (number \<times> string) option" where
  "strtod s =
     (case read_sign s of (neg, r) \<Rightarrow>
       let ds = takeWhile is_digit r; r1 = drop (length ds) r;
           fs = (case r1 of c # r2 \<Rightarrow> if c = CHR ''.'' then takeWhile is_digit r2 else [] | [] \<Rightarrow> []);
           r3 = (case r1 of c # r2 \<Rightarrow> if c = CHR ''.'' \<and> (ds \<noteq> [] \<or> fs \<noteq> []) then drop (length fs) r2 else r1 | [] \<Rightarrow> [])
       in if ds = [] \<and> fs = [] then None
          else (case read_exponent r3 of (e, r4) \<Rightarrow>
            let n = int (atoi_digits 0 (ds @ fs)); m = (if neg then - n else n); x = e - int (length fs)
            in Some (if x \<ge> 0 then whole (m * 10 ^ nat x) else decimal m (nat (- x)), r4)))"

definition parse_number :: "string \<Rightarrow> (cJSON \<times> string) option" where
  "parse_number s =
     (let number_c_string = take 63 (takeWhile number_char s) in
      case strtod number_c_string of
        None \<Rightarrow> None
      | Some (number, after_end) \<Rightarrow>
          Some (CJSON cJSON_Number (saturated number) number None None [],
                drop (length number_c_string - length after_end) s))"

subsection \<open>Strings\<close>

text \<open>The text up to the closing quote, and what follows it.\<close>

fun string_end :: "string \<Rightarrow> (string \<times> string) option" where
  "string_end [] = None"
| "string_end (c # s) =
     (if c = CHR 0x22 then Some ([], s)
      else if c = CHR 0x5C then
        (case s of [] \<Rightarrow> None | d # r \<Rightarrow> map_option (\<lambda>(a, b). (c # d # a, b)) (string_end r))
      else map_option (\<lambda>(a, b). (c # a, b)) (string_end s))"

definition hex_value :: "char \<Rightarrow> nat option" where
  "hex_value c =
     (let n = of_char c :: nat in
      if 48 \<le> n \<and> n \<le> 57 then Some (n - 48) else if 65 \<le> n \<and> n \<le> 70 then Some (n - 55)
      else if 97 \<le> n \<and> n \<le> 102 then Some (n - 87) else None)"

fun parse_hex :: "nat \<Rightarrow> string \<Rightarrow> nat" where
  "parse_hex h [] = h"
| "parse_hex h (c # s) = (case hex_value c of None \<Rightarrow> 0 | Some d \<Rightarrow> parse_hex (h * 16 + d) s)"

definition parse_hex4 :: "string \<Rightarrow> nat" where
  "parse_hex4 input = parse_hex 0 (take 4 input)"

definition utf8 :: "nat \<Rightarrow> string option" where
  "utf8 n =
     (if n < 0x80 then Some [char_of n]
      else if n < 0x800 then Some [char_of (0xC0 + n div 64), char_of (0x80 + n mod 64)]
      else if n < 0x10000 then Some [char_of (0xE0 + n div 4096), char_of (0x80 + n div 64 mod 64), char_of (0x80 + n mod 64)]
      else if n \<le> 0x10FFFF then Some [char_of (0xF0 + n div 262144), char_of (0x80 + n div 4096 mod 64),
        char_of (0x80 + n div 64 mod 64), char_of (0x80 + n mod 64)]
      else None)"

text \<open>The bytes of the literal at the start of the text and its length.\<close>

definition utf16_literal_to_utf8 :: "string \<Rightarrow> (string \<times> nat) option" where
  "utf16_literal_to_utf8 s =
     (if length s < 6 then None
      else let first_code = parse_hex4 (drop 2 s) in
        if 0xDC00 \<le> first_code \<and> first_code \<le> 0xDFFF then None
        else if 0xD800 \<le> first_code \<and> first_code \<le> 0xDBFF then
          (if length s < 12 \<or> s ! 6 \<noteq> CHR 0x5C \<or> s ! 7 \<noteq> CHR ''u'' then None
           else let second_code = parse_hex4 (drop 8 s) in
             if second_code < 0xDC00 \<or> second_code > 0xDFFF then None
             else map_option (\<lambda>b. (b, 12)) (utf8 (0x10000 + (first_code mod 1024 * 1024 + second_code mod 1024))))
        else map_option (\<lambda>b. (b, 6)) (utf8 first_code))"

definition simple_escape :: "char \<Rightarrow> char option" where
  "simple_escape c =
     (if c = CHR ''b'' then Some (CHR 0x08) else if c = CHR ''f'' then Some (CHR 0x0C)
      else if c = CHR ''n'' then Some (CHR 0x0A) else if c = CHR ''r'' then Some (CHR 0x0D)
      else if c = CHR ''t'' then Some (CHR 0x09)
      else if c = CHR 0x22 \<or> c = CHR 0x5C \<or> c = CHR ''/'' then Some c else None)"

text \<open>The second loop of \<^verbatim>\<open>parse_string\<close>; a backslash at the end would be followed by the closing quote.\<close>

function unescape :: "string \<Rightarrow> string option" where
  "unescape s =
     (case s of
        [] \<Rightarrow> Some []
      | c # r \<Rightarrow>
          if c \<noteq> CHR 0x5C then map_option (Cons c) (unescape r)
          else (case r of
              [] \<Rightarrow> Some [CHR 0x22]
            | d # r1 \<Rightarrow>
                if d = CHR ''u'' then
                  (case utf16_literal_to_utf8 s of None \<Rightarrow> None | Some (b, n) \<Rightarrow> map_option (append b) (unescape (drop (max 2 n) s)))
                else (case simple_escape d of None \<Rightarrow> None | Some e \<Rightarrow> map_option (Cons e) (unescape r1))))"
  by pat_completeness auto
termination by (relation "measure length") auto

declare unescape.simps [simp del]

text \<open>A string value ends at the first NUL of what was decoded.\<close>

definition parse_string :: "string \<Rightarrow> (string \<times> string) option" where
  "parse_string s =
     (case s of
        [] \<Rightarrow> None
      | c # r \<Rightarrow> if c \<noteq> CHR 0x22 then None
          else (case string_end r of
              None \<Rightarrow> None
            | Some (raw, rest) \<Rightarrow>
                (case unescape raw of None \<Rightarrow> None | Some t \<Rightarrow> Some (takeWhile (\<lambda>c. c \<noteq> CHR 0x00) t, rest))))"

subsection \<open>Arrays and objects\<close>

text \<open>
  The loops over the elements, with the parser \<^verbatim>\<open>pv\<close> of a value. Every pass consumes text, so the length of the text bounds the
  number of passes.
\<close>

fun array_loop :: "(string \<Rightarrow> (cJSON \<times> string) option) \<Rightarrow> nat \<Rightarrow> string \<Rightarrow> (cJSON list \<times> string) option" where
  "array_loop pv 0 s = None"
| "array_loop pv (Suc k) s =
     (case pv (buffer_skip_whitespace s) of
        None \<Rightarrow> None
      | Some (v, r) \<Rightarrow>
          (case buffer_skip_whitespace r of
             [] \<Rightarrow> None
           | c # r1 \<Rightarrow>
               if c = CHR '','' then map_option (\<lambda>(vs, r2). (v # vs, r2)) (array_loop pv k r1)
               else if c = CHR '']'' then Some ([v], r1) else None))"

definition set_name :: "string option \<Rightarrow> cJSON \<Rightarrow> cJSON" where
  "set_name nm j = CJSON (js_type j) (js_valueint j) (js_valuedouble j) (js_valuestring j) nm (js_child j)"

fun object_loop :: "(string \<Rightarrow> (cJSON \<times> string) option) \<Rightarrow> nat \<Rightarrow> string \<Rightarrow> (cJSON list \<times> string) option" where
  "object_loop pv 0 s = None"
| "object_loop pv (Suc k) s =
     (case parse_string (buffer_skip_whitespace s) of
        None \<Rightarrow> None
      | Some (nm, r) \<Rightarrow>
          (case buffer_skip_whitespace r of
             [] \<Rightarrow> None
           | c # r1 \<Rightarrow>
               if c \<noteq> CHR '':'' then None
               else (case pv (buffer_skip_whitespace r1) of
                   None \<Rightarrow> None
                 | Some (v, r2) \<Rightarrow>
                     (case buffer_skip_whitespace r2 of
                        [] \<Rightarrow> None
                      | c # r3 \<Rightarrow>
                          if c = CHR '','' then map_option (\<lambda>(vs, r4). (set_name (Some nm) v # vs, r4)) (object_loop pv k r3)
                          else if c = CHR ''}'' then Some ([set_name (Some nm) v], r3) else None))))"

definition parse_array :: "(string \<Rightarrow> (cJSON \<times> string) option) \<Rightarrow> string \<Rightarrow> (cJSON \<times> string) option" where
  "parse_array pv s =
     (case buffer_skip_whitespace (tl s) of
        [] \<Rightarrow> None
      | c # r \<Rightarrow>
          if c = CHR '']'' then Some (CJSON cJSON_Array 0 0 None None [], r)
          else map_option (\<lambda>(vs, r1). (CJSON cJSON_Array 0 0 None None vs, r1)) (array_loop pv (length s) (c # r)))"

definition parse_object :: "(string \<Rightarrow> (cJSON \<times> string) option) \<Rightarrow> string \<Rightarrow> (cJSON \<times> string) option" where
  "parse_object pv s =
     (case buffer_skip_whitespace (tl s) of
        [] \<Rightarrow> None
      | c # r \<Rightarrow>
          if c = CHR ''}'' then Some (CJSON cJSON_Object 0 0 None None [], r)
          else map_option (\<lambda>(vs, r1). (CJSON cJSON_Object 0 0 None None vs, r1)) (object_loop pv (length s) (c # r)))"

definition parse_scalar :: "string \<Rightarrow> (cJSON \<times> string) option option" where
  "parse_scalar s =
     (if take 4 s = ''null'' then Some (Some (CJSON cJSON_NULL 0 0 None None [], drop 4 s))
      else if take 5 s = ''false'' then Some (Some (CJSON cJSON_False 0 0 None None [], drop 5 s))
      else if take 4 s = ''true'' then Some (Some (CJSON cJSON_True 1 0 None None [], drop 4 s))
      else (case s of
          [] \<Rightarrow> Some None
        | c # r \<Rightarrow>
            if c = CHR 0x22 then Some (map_option (\<lambda>(t, r1). (CJSON cJSON_String 0 0 (Some t) None [], r1)) (parse_string s))
            else if c = CHR ''-'' \<or> is_digit c then Some (parse_number s)
            else None))"

text \<open>\<^verbatim>\<open>depth\<close> is what is left of the nesting limit.\<close>

primrec parse_value :: "nat \<Rightarrow> string \<Rightarrow> (cJSON \<times> string) option" where
  "parse_value 0 = (\<lambda>s. case parse_scalar s of Some r \<Rightarrow> r | None \<Rightarrow> None)"
| "parse_value (Suc depth) = (\<lambda>s.
     case parse_scalar s of
       Some r \<Rightarrow> r
     | None \<Rightarrow>
         if hd s = CHR ''['' then parse_array (parse_value depth) s
         else if hd s = CHR ''{'' then parse_object (parse_value depth) s
         else None)"

definition CJSON_NESTING_LIMIT :: nat where
  "CJSON_NESTING_LIMIT = 1000"

definition cjson_parse :: "byte list \<Rightarrow> cJSON option" where
  "cjson_parse value =
     map_option fst (parse_value CJSON_NESTING_LIMIT
       (buffer_skip_whitespace (skip_utf8_bom (map (\<lambda>b. char_of (unat b)) (c_str value) @ [CHR 0x00]))))"

definition cjson_print :: "cJSON \<Rightarrow> byte list" where
  "cjson_print item = (case print_value item of None \<Rightarrow> [] | Some s \<Rightarrow> map (\<lambda>c. of_nat (of_char c)) s)"

end
