(* ===== verification/Cjson_Roundtrip.thy ===== *)
theory Cjson_Roundtrip
  imports Cjson_Text
begin

text \<open>
  Printing and parsing of JSON text are inverse: for a tree whose strings are C strings, whose numbers are 32-bit integers and
  whose nesting is below the limit, the parser accepts the printed text and returns the tree in canonical form.
\<close>

section \<open>Trees that can be printed\<close>

definition c_text :: "string option \<Rightarrow> bool" where
  "c_text s = (case s of None \<Rightarrow> False | Some t \<Rightarrow> CHR 0x00 \<notin> set t)"

fun json_ok :: "cJSON \<Rightarrow> bool" where
  "json_ok (CJSON t i d v s cs) =
     (case t of
        cJSON_Number \<Rightarrow> cs = [] \<and> d = whole i \<and> - (2 ^ 31) \<le> i \<and> i < 2 ^ 31
      | cJSON_String \<Rightarrow> cs = [] \<and> c_text v
      | cJSON_Array \<Rightarrow> (\<forall>c \<in> set cs. js_string c = None \<and> json_ok c)
      | cJSON_Object \<Rightarrow> (\<forall>c \<in> set cs. c_text (js_string c) \<and> json_ok c)
      | cJSON_Raw \<Rightarrow> False
      | cJSON_Invalid \<Rightarrow> False
      | _ \<Rightarrow> cs = [])"

fun json_depth :: "cJSON \<Rightarrow> nat" where
  "json_depth (CJSON t i d v s cs) =
     (if t = cJSON_Array \<or> t = cJSON_Object then Suc (foldr max (map json_depth cs) 0) else 0)"

text \<open>The tree as the parser builds it, without the name of its root.\<close>

fun canon :: "cJSON \<Rightarrow> cJSON" where
  "canon (CJSON t i d v s cs) =
     CJSON t (if t = cJSON_True then 1 else if t = cJSON_Number then i else 0) (if t = cJSON_Number then d else 0)
       (if t = cJSON_String then v else None) None (map (\<lambda>c. set_name (js_string c) (canon c)) cs)"

text \<open>What may follow a value, and how a printed value begins.\<close>

definition stop :: "string \<Rightarrow> bool" where
  "stop rest \<longleftrightarrow> rest \<noteq> [] \<and> hd rest \<in> {CHR '','', CHR '']'', CHR ''}'', CHR 0x00}"

definition starts_value :: "string \<Rightarrow> bool" where
  "starts_value s \<longleftrightarrow> s \<noteq> [] \<and> \<not> blank (hd s) \<and> hd s \<notin> {CHR '']'', CHR ''}'', CHR 0xEF} \<and> CHR 0x00 \<notin> set s"

lemma skip_nonblank: "s \<noteq> [] \<Longrightarrow> \<not> blank (hd s) \<Longrightarrow> buffer_skip_whitespace s = s"
  by (cases s) (simp_all add: buffer_skip_whitespace_def)

lemma skip_value: "starts_value s \<Longrightarrow> buffer_skip_whitespace (s @ rest) = s @ rest"
  by (cases s) (auto simp: starts_value_def buffer_skip_whitespace_def)

lemma skip_char: "\<not> blank c \<Longrightarrow> buffer_skip_whitespace (c # s) = c # s"
  by (simp add: buffer_skip_whitespace_def)

lemma not_blank [simp]:
  "\<not> blank (CHR '','')" "\<not> blank (CHR '']'')" "\<not> blank (CHR ''}'')" "\<not> blank (CHR '':'')" "\<not> blank (CHR 0x22)"
  "\<not> blank (CHR ''['')" "\<not> blank (CHR ''{'')"
  by (simp_all add: blank_def)

section \<open>Progress of the parser\<close>

text \<open>A buffer with its terminating NUL. A parser keeps the NUL and consumes at least one character.\<close>

definition nul_ended :: "string \<Rightarrow> bool" where
  "nul_ended s \<longleftrightarrow> (\<exists>u. s = u @ [CHR 0x00] \<and> CHR 0x00 \<notin> set u)"

definition consumes :: "(string \<Rightarrow> ('a \<times> string) option) \<Rightarrow> bool" where
  "consumes pv \<longleftrightarrow> (\<forall>s v r. nul_ended s \<longrightarrow> pv s = Some (v, r) \<longrightarrow> nul_ended r \<and> length r < length s)"

lemma consumesD: "consumes pv \<Longrightarrow> pv s = Some (v, r) \<Longrightarrow> nul_ended s \<Longrightarrow> nul_ended r \<and> length r < length s"
  unfolding consumes_def by blast

lemma buf_drop: "nul_ended (p @ r) \<Longrightarrow> CHR 0x00 \<notin> set p \<Longrightarrow> nul_ended r"
proof -
  assume "nul_ended (p @ r)" and p: "CHR 0x00 \<notin> set p"
  then obtain u where u: "p @ r = u @ [CHR 0x00]" "CHR 0x00 \<notin> set u" by (auto simp: nul_ended_def)
  have "r \<noteq> []" using u p by (metis append_Nil2 in_set_conv_decomp)
  with u have "u = p @ butlast r" "r = butlast r @ [CHR 0x00]"
    by (metis butlast_append butlast_snoc, metis append_butlast_last_id last_appendR last_snoc)
  with u(2) show ?thesis unfolding nul_ended_def by (metis Un_iff set_append)
qed

lemma buf_tl: "nul_ended (c # r) \<Longrightarrow> c \<noteq> CHR 0x00 \<Longrightarrow> nul_ended r"
  using buf_drop [of "[c]" r] by simp

lemma skip_buf: "nul_ended s \<Longrightarrow> nul_ended (buffer_skip_whitespace s) \<and> length (buffer_skip_whitespace s) \<le> length s"
proof -
  assume "nul_ended s"
  then obtain u where s: "s = u @ [CHR 0x00]" "CHR 0x00 \<notin> set u" by (auto simp: nul_ended_def)
  show ?thesis
  proof (cases "\<forall>x \<in> set u. blank x")
    case True
    then have "dropWhile blank s = []" by (simp add: s blank_def)
    then show ?thesis by (simp add: s buffer_skip_whitespace_def nul_ended_def)
  next
    case False
    then obtain x where "x \<in> set u" "\<not> blank x" by blast
    then have d: "dropWhile blank s = dropWhile blank u @ [CHR 0x00]" by (simp add: s dropWhile_append1)
    moreover have "CHR 0x00 \<notin> set (dropWhile blank u)" using s(2) set_dropWhileD by metis
    ultimately have "nul_ended (dropWhile blank s)" by (auto simp: nul_ended_def)
    moreover have "buffer_skip_whitespace s = dropWhile blank s"
      using d by (simp add: buffer_skip_whitespace_def split: list.split)
    ultimately show ?thesis by (simp add: length_dropWhile_le)
  qed
qed

lemma string_end_split: "string_end s = Some (a, b) \<Longrightarrow> s = a @ CHR 0x22 # b"
  by (induction s arbitrary: a b rule: string_end.induct) (auto split: if_splits list.splits)

lemma buf_suffix: "nul_ended (p @ c # r) \<Longrightarrow> c \<noteq> CHR 0x00 \<Longrightarrow> nul_ended r"
proof -
  assume b: "nul_ended (p @ c # r)" "c \<noteq> CHR 0x00"
  then obtain u where u: "p @ c # r = u @ [CHR 0x00]" "CHR 0x00 \<notin> set u" by (auto simp: nul_ended_def)
  have "r \<noteq> []" using u(1) b(2) by auto
  then have "u = (p @ [c]) @ butlast r"
    using u(1) by (metis append_Cons append_Nil append_assoc butlast_append butlast_snoc list.distinct(1) butlast.simps(2))
  then have "CHR 0x00 \<notin> set (p @ [c])" using u(2) by simp
  with b(1) show ?thesis using buf_drop [of "p @ [c]" r] by simp
qed

lemma parse_string_consumes: "consumes parse_string"
  unfolding consumes_def
proof (intro allI impI)
  fix s v r
  assume s: "nul_ended s" "parse_string s = Some (v, r)"
  then obtain q raw where q: "s = CHR 0x22 # q" "string_end q = Some (raw, r)"
    by (auto simp: parse_string_def split: list.splits if_splits option.splits prod.splits)
  then have "s = (CHR 0x22 # raw) @ CHR 0x22 # r" by (simp add: string_end_split)
  with s(1) show "nul_ended r \<and> length r < length s" using buf_suffix [of "CHR 0x22 # raw" "CHR 0x22" r] by simp
qed

lemma read_sign_length: "read_sign s = (neg, r) \<Longrightarrow> length r \<le> length s"
  by (auto simp: read_sign_def split: list.splits if_splits)

lemma read_exponent_length: "read_exponent s = (e, r) \<Longrightarrow> length r \<le> length s"
  by (auto simp: read_exponent_def Let_def split: list.splits if_splits prod.splits dest!: read_sign_length)

lemma strtod_length: "strtod s = Some (n, r) \<Longrightarrow> length r < length s"
proof -
  assume st: "strtod s = Some (n, r)"
  obtain neg q where q: "read_sign s = (neg, q)" by fastforce
  define ds where "ds = takeWhile is_digit q"
  have q2: "q = ds @ drop (length ds) q" by (simp add: ds_def flip: dropWhile_eq_drop)
  show ?thesis
  proof (cases "drop (length ds) q")
    case Nil
    with st q ds_def have "ds \<noteq> []" "r = []"
      by (auto simp: strtod_def Let_def read_exponent_def split: if_splits)
    with q2 read_sign_length [OF q] show ?thesis by (cases s) auto
  next
    case (Cons c q3)
    then have len: "length s \<ge> length ds + Suc (length q3)"
      using q2 read_sign_length [OF q] by (metis length_Cons length_append)
    from st q ds_def Cons obtain e where "read_exponent (if c = CHR ''.'' then drop (length (takeWhile is_digit q3)) q3 else c # q3) = (e, r)"
        "ds \<noteq> [] \<or> c = CHR ''.''"
      by (auto simp: strtod_def Let_def split: if_splits prod.splits)
    from read_exponent_length [OF this(1)] this(2) len show ?thesis
      by (cases "c = CHR ''.''"; cases ds) auto
  qed
qed

lemma number_char_not_nul: "number_char c \<Longrightarrow> c \<noteq> CHR 0x00"
  by (auto simp: number_char_def is_digit_def)

lemma parse_number_consumes: "consumes parse_number"
  unfolding consumes_def
proof (intro allI impI)
  fix s v r
  assume s: "nul_ended s" "parse_number s = Some (v, r)"
  define p where "p = take 63 (takeWhile number_char s)"
  obtain n q where q: "strtod p = Some (n, q)" "r = drop (length p - length q) s"
    using s(2) by (auto simp: parse_number_def p_def Let_def split: option.splits)
  define k where "k = length p - length q"
  have k: "0 < k" "k \<le> length p" using strtod_length [OF q(1)] by (simp_all add: k_def)
  have "takeWhile number_char s = take (length (takeWhile number_char s)) s" by (rule takeWhile_eq_take)
  then have p: "p = take (length p) s" unfolding p_def by (metis length_take take_take min.commute)
  then have "take k s = take k p" using k(2) by (metis min.absorb1 take_take)
  then have "CHR 0x00 \<notin> set (take k s)"
    using number_char_not_nul by (auto simp: p_def dest!: in_set_takeD set_takeWhileD)
  moreover have "r = drop k s" "s = take k s @ drop k s" using q(2) by (simp_all add: k_def)
  moreover have "s \<noteq> []" using k p by auto
  ultimately show "nul_ended r \<and> length r < length s"
    using s(1) k(1) buf_drop [of "take k s" "drop k s"] by simp
qed

lemma scalar_consumes:
  assumes "nul_ended s" "parse_scalar s = Some (Some (v, r))"
  shows "nul_ended r \<and> length r < length s"
proof -
  have lit: "nul_ended (drop n s) \<and> length (drop n s) < length s" if "take n s = w" "CHR 0x00 \<notin> set w" "length w = n" "0 < n" for n w
    using that assms(1) buf_drop [of w "drop n s"] append_take_drop_id [of n s] by (cases s) auto
  note assms(2)
  then consider "take 4 s = ''null''" "r = drop 4 s" | "take 5 s = ''false''" "r = drop 5 s" | "take 4 s = ''true''" "r = drop 4 s"
    | t where "parse_string s = Some (t, r)" | "parse_number s = Some (v, r)"
    by (auto simp: parse_scalar_def split: if_splits list.splits)
  then show ?thesis
  proof cases
    case 1
    then show ?thesis using lit [of 4 "''null''"] by simp
  next
    case 2
    then show ?thesis using lit [of 5 "''false''"] by simp
  next
    case 3
    then show ?thesis using lit [of 4 "''true''"] by simp
  next
    case 4
    then show ?thesis using consumesD [OF parse_string_consumes _ assms(1)] by blast
  next
    case 5
    then show ?thesis using consumesD [OF parse_number_consumes _ assms(1)] by blast
  qed
qed

lemma skip_Cons_buf: "nul_ended s \<Longrightarrow> buffer_skip_whitespace s = c # r \<Longrightarrow> c \<noteq> CHR 0x00 \<Longrightarrow> nul_ended r \<and> length r < length s"
  using skip_buf [of s] buf_tl [of c r] by auto

text \<open>The loops consume text, so the number of passes they are given is enough: more would change nothing.\<close>

lemma array_loop_consumes:
  assumes pv: "consumes pv"
  shows "nul_ended s \<Longrightarrow> array_loop pv k s = Some (vs, r) \<Longrightarrow> nul_ended r \<and> length r < length s"
proof (induction k arbitrary: s vs)
  case (Suc k)
  then obtain v q c q1 where v: "pv (buffer_skip_whitespace s) = Some (v, q)" "buffer_skip_whitespace q = c # q1"
      "c = CHR '','' \<and> (\<exists>vs'. array_loop pv k q1 = Some (vs', r)) \<or> c = CHR '']'' \<and> r = q1"
    by (auto split: option.splits list.splits if_splits)
  have q: "nul_ended q \<and> length q < length s"
    using consumesD [OF pv v(1)] skip_buf [OF Suc.prems(1)] by auto
  then have "nul_ended q1 \<and> length q1 < length q"
    using skip_Cons_buf [OF _ v(2)] v(3) by auto
  with v(3) q Suc.IH show ?case by fastforce
qed simp

lemma array_loop_fuel:
  assumes pv: "consumes pv"
  shows "nul_ended s \<Longrightarrow> length s \<le> j \<Longrightarrow> length s \<le> k \<Longrightarrow> array_loop pv j s = array_loop pv k s"
proof (induction j arbitrary: s k)
  case (Suc j)
  obtain n where k: "k = Suc n" using Suc.prems by (cases k) (auto simp: nul_ended_def)
  show ?case
  proof (cases "pv (buffer_skip_whitespace s)")
    case None
    then show ?thesis by (simp add: k)
  next
    case (Some x)
    then obtain v q where v: "pv (buffer_skip_whitespace s) = Some (v, q)" by (cases x) auto
    have q: "nul_ended q \<and> length q < length s"
      using consumesD [OF pv v] skip_buf [OF Suc.prems(1)] by auto
    have "array_loop pv j q1 = array_loop pv n q1" if c: "buffer_skip_whitespace q = CHR '','' # q1" for q1
      using skip_Cons_buf [OF _ c] q Suc.prems k by (intro Suc.IH) auto
    then show ?thesis by (simp add: k v split: list.split)
  qed
qed (auto simp: nul_ended_def)

lemma object_loop_pass:
  assumes pv: "consumes pv" and s: "nul_ended s" and nm: "parse_string (buffer_skip_whitespace s) = Some (nm, q)"
    and col: "buffer_skip_whitespace q = CHR '':'' # q1" and v: "pv (buffer_skip_whitespace q1) = Some (v, q2)"
  shows "nul_ended q2 \<and> length q2 < length s"
proof -
  have q: "nul_ended q" "length q < length s"
    using consumesD [OF parse_string_consumes nm] skip_buf [OF s] by auto
  then have q1: "nul_ended q1" "length q1 < length q"
    using skip_Cons_buf [OF _ col] by auto
  from consumesD [OF pv v] skip_buf [OF q1(1)] q q1 show ?thesis by auto
qed

lemma object_loop_consumes:
  assumes pv: "consumes pv"
  shows "nul_ended s \<Longrightarrow> object_loop pv k s = Some (vs, r) \<Longrightarrow> nul_ended r \<and> length r < length s"
proof (induction k arbitrary: s vs)
  case (Suc k)
  then obtain nm q q1 v q2 c q3 where v: "parse_string (buffer_skip_whitespace s) = Some (nm, q)"
      "buffer_skip_whitespace q = CHR '':'' # q1" "pv (buffer_skip_whitespace q1) = Some (v, q2)"
      "buffer_skip_whitespace q2 = c # q3"
      "c = CHR '','' \<and> (\<exists>vs'. object_loop pv k q3 = Some (vs', r)) \<or> c = CHR ''}'' \<and> r = q3"
    by (auto split: option.splits list.splits if_splits)
  have q2: "nul_ended q2 \<and> length q2 < length s"
    by (rule object_loop_pass [OF pv Suc.prems(1) v(1-3)])
  then have "nul_ended q3 \<and> length q3 < length q2"
    using skip_Cons_buf [OF _ v(4)] v(5) by auto
  with v(5) q2 Suc.IH show ?case by fastforce
qed simp

lemma object_loop_fuel:
  assumes pv: "consumes pv"
  shows "nul_ended s \<Longrightarrow> length s \<le> j \<Longrightarrow> length s \<le> k \<Longrightarrow> object_loop pv j s = object_loop pv k s"
proof (induction j arbitrary: s k)
  case (Suc j)
  obtain n where k: "k = Suc n" using Suc.prems by (cases k) (auto simp: nul_ended_def)
  have "object_loop pv j q3 = object_loop pv n q3"
    if c: "parse_string (buffer_skip_whitespace s) = Some (nm, q)" "buffer_skip_whitespace q = CHR '':'' # q1"
      "pv (buffer_skip_whitespace q1) = Some (v, q2)" "buffer_skip_whitespace q2 = CHR '','' # q3" for nm q q1 v q2 q3
    using skip_Cons_buf [OF _ c(4)] object_loop_pass [OF pv Suc.prems(1) c(1-3)] Suc.prems k by (intro Suc.IH) auto
  then show ?case by (simp add: k split: list.split option.split)
qed (auto simp: nul_ended_def)

theorem parse_value_consumes: "consumes (parse_value depth)"
proof (induction depth)
  case 0
  then show ?case
    using scalar_consumes by (auto simp: consumes_def split: option.splits)
next
  case (Suc depth)
  show ?case
    unfolding consumes_def
  proof (intro allI impI)
    fix s v r
    assume s: "nul_ended s" "parse_value (Suc depth) s = Some (v, r)"
    show "nul_ended r \<and> length r < length s"
    proof (cases "parse_scalar s")
      case (Some x)
      with s scalar_consumes show ?thesis by auto
    next
      case None
      have "s \<noteq> []" using s(1) by (auto simp: nul_ended_def)
      with None obtain c q where c: "s = c # q" "c = CHR ''['' \<or> c = CHR ''{''"
          "parse_array (parse_value depth) s = Some (v, r) \<or> parse_object (parse_value depth) s = Some (v, r)"
        using s(2) by (cases s) (auto split: if_splits)
      then have q: "nul_ended q" "length q < length s"
        using buf_tl [of c q] s(1) by auto
      obtain e q1 where e: "buffer_skip_whitespace q = e # q1"
          "e = CHR '']'' \<and> r = q1 \<or> e = CHR ''}'' \<and> r = q1
           \<or> (\<exists>k vs. array_loop (parse_value depth) k (e # q1) = Some (vs, r))
           \<or> (\<exists>k vs. object_loop (parse_value depth) k (e # q1) = Some (vs, r))"
        using c(1,3) by (auto simp: parse_array_def parse_object_def simp del: array_loop.simps object_loop.simps
            split: list.splits if_splits)
      have b: "nul_ended (e # q1)" "length (e # q1) < length s"
        using skip_buf [OF q(1)] q(2) e(1) by auto
      from e(2) show ?thesis
        using array_loop_consumes [OF Suc.IH b(1)] object_loop_consumes [OF Suc.IH b(1)] buf_tl [of e q1] b
        by fastforce
    qed
  qed
qed

section \<open>Strings\<close>

lemma hex_value_hex4: "n < 16 \<Longrightarrow> hex_value (hex4 n) = Some n"
  by (simp add: hex_value_def hex4_def Let_def)

lemma hex_zero: "hex_value (CHR ''0'') = Some 0"
  by (simp add: hex_value_def)

lemma print_char_cases:
  obtains (plain) "print_char c = [c]" "c \<noteq> CHR 0x22" "c \<noteq> CHR 0x5C" "(of_char c :: nat) > 31"
  | (short) e where "print_char c = [CHR 0x5C, e]" "simple_escape e = Some c" "e \<noteq> CHR ''u''"
  | (long) n where "c = char_of n" "n < 32" "print_char c = [CHR 0x5C, CHR ''u'', CHR ''0'', CHR ''0'', hex4 (n div 16), hex4 (n mod 16)]"
proof -
  have c: "c = char_of (of_char c :: nat)" by simp
  consider "(of_char c :: nat) > 31 \<and> c \<noteq> CHR 0x22 \<and> c \<noteq> CHR 0x5C" | "c = CHR 0x5C" | "c = CHR 0x22"
    | "of_char c = (8 :: nat)" | "of_char c = (12 :: nat)" | "of_char c = (10 :: nat)" | "of_char c = (13 :: nat)"
    | "of_char c = (9 :: nat)" | "(of_char c :: nat) \<le> 31 \<and> (of_char c :: nat) \<notin> {8, 12, 10, 13, 9}"
    by force
  then show thesis
  proof cases
    case 1
    then show thesis by (intro plain) (simp_all add: print_char_def Let_def)
  next
    case 2
    then show thesis by (intro short [of "CHR 0x5C"]) (simp_all add: print_char_def simple_escape_def Let_def)
  next
    case 3
    then show thesis by (intro short [of "CHR 0x22"]) (simp_all add: print_char_def simple_escape_def Let_def)
  next
    case 4
    then have "c = CHR 0x08" by (intro of_char_eq_iff [where 'a = nat, THEN iffD1]) simp
    then show thesis by (intro short [of "CHR ''b''"]) (simp_all add: print_char_def simple_escape_def Let_def)
  next
    case 5
    then have "c = CHR 0x0C" by (intro of_char_eq_iff [where 'a = nat, THEN iffD1]) simp
    then show thesis by (intro short [of "CHR ''f''"]) (simp_all add: print_char_def simple_escape_def Let_def)
  next
    case 6
    then have "c = CHR 0x0A" by (intro of_char_eq_iff [where 'a = nat, THEN iffD1]) simp
    then show thesis by (intro short [of "CHR ''n''"]) (simp_all add: print_char_def simple_escape_def Let_def)
  next
    case 7
    then have "c = CHR 0x0D" by (intro of_char_eq_iff [where 'a = nat, THEN iffD1]) simp
    then show thesis by (intro short [of "CHR ''r''"]) (simp_all add: print_char_def simple_escape_def Let_def)
  next
    case 8
    then have "c = CHR 0x09" by (intro of_char_eq_iff [where 'a = nat, THEN iffD1]) simp
    then show thesis by (intro short [of "CHR ''t''"]) (simp_all add: print_char_def simple_escape_def Let_def)
  next
    case 9
    then have "c \<noteq> CHR 0x5C" "c \<noteq> CHR 0x22" by auto
    with 9 c show thesis by (intro long [of "of_char c"]) (auto simp: print_char_def Let_def)
  qed
qed

lemma hex4_plain: "n < 16 \<Longrightarrow> hex4 n \<noteq> CHR 0x22 \<and> hex4 n \<noteq> CHR 0x5C \<and> hex4 n \<noteq> CHR 0x00"
proof -
  assume "n < 16"
  then have "of_char (hex4 n) \<noteq> (34 :: nat)" "of_char (hex4 n) \<noteq> (92 :: nat)" "of_char (hex4 n) \<noteq> (0 :: nat)"
    by (simp_all add: hex4_def)
  then show ?thesis by auto
qed

lemma string_end_print: "string_end (concat (map print_char w) @ CHR 0x22 # rest) = Some (concat (map print_char w), rest)"
proof (induction w)
  case Nil
  then show ?case by simp
next
  case (Cons c w)
  show ?case
  proof (cases c rule: print_char_cases)
    case plain
    with Cons show ?thesis by simp
  next
    case (short e)
    with Cons show ?thesis by simp
  next
    case (long n)
    with Cons hex4_plain [of "n div 16"] hex4_plain [of "n mod 16"] show ?thesis by simp
  qed
qed

lemma unescape_print: "unescape (concat (map print_char w)) = Some w"
proof (induction w)
  case Nil
  then show ?case by (simp add: unescape.simps)
next
  case (Cons c w)
  show ?case
  proof (cases c rule: print_char_cases)
    case plain
    with Cons show ?thesis by (simp add: unescape.simps [of "c # _"])
  next
    case (short e)
    with Cons show ?thesis by (simp add: unescape.simps [of "CHR 0x5C # _"])
  next
    case (long n)
    let ?r = "concat (map print_char w)"
    have "parse_hex4 (CHR ''0'' # CHR ''0'' # hex4 (n div 16) # hex4 (n mod 16) # ?r) = n"
      using long(2) hex_value_hex4 [of "n div 16"] hex_value_hex4 [of "n mod 16"] by (simp add: parse_hex4_def hex_zero)
    then have "utf16_literal_to_utf8 (CHR 0x5C # CHR ''u'' # CHR ''0'' # CHR ''0'' # hex4 (n div 16) # hex4 (n mod 16) # ?r)
        = Some ([c], 6)"
      using long(1,2) by (simp add: utf16_literal_to_utf8_def utf8_def)
    with Cons long(3) show ?thesis
      by (simp add: unescape.simps [of "CHR 0x5C # _"])
  qed
qed

lemma parse_string_print:
  "CHR 0x00 \<notin> set w \<Longrightarrow> parse_string (print_string_ptr (Some w) @ rest) = Some (w, rest)"
  by (simp add: parse_string_def print_string_ptr_def string_end_print unescape_print takeWhile_eq_all_conv) auto

lemma print_char_no_nul: "CHR 0x00 \<notin> set (print_char c)"
proof (cases c rule: print_char_cases)
  case plain
  then show ?thesis by auto
next
  case (short e)
  then show ?thesis by (auto simp: simple_escape_def split: if_splits)
next
  case (long n)
  then have "n div 16 < 16" "n mod 16 < 16" by simp_all
  with long(3) hex4_plain [of "n div 16"] hex4_plain [of "n mod 16"] show ?thesis by auto
qed

lemma print_string_starts: "starts_value (print_string_ptr v)"
  using print_char_no_nul by (auto simp: starts_value_def print_string_ptr_def blank_def split: option.split)

section \<open>Numbers\<close>

lemma length_dec_nat: "0 < k \<Longrightarrow> n < 10 ^ k \<Longrightarrow> length (dec_nat n) \<le> k"
proof (induction n arbitrary: k rule: dec_nat.induct)
  case (1 n)
  show ?case
  proof (cases "n < 10")
    case True
    with "1.prems" show ?thesis by (simp add: dec_nat.simps [of n])
  next
    case False
    with "1.prems" obtain j where j: "k = Suc j" "0 < j"
      by (cases k; cases "k - 1") auto
    with "1.prems" have "n div 10 < 10 ^ j"
      by (simp add: less_mult_imp_div_less mult.commute)
    with "1.IH" [OF False j(2)] False j(1) show ?thesis
      by (simp add: dec_nat.simps [of n])
  qed
qed

lemma dec_nat_hd: "dec_nat n \<noteq> [] \<and> is_digit (hd (dec_nat n))"
  using dec_nat_digits [of n] by (cases "dec_nat n") auto

lemma digits_takeWhile: "takeWhile is_digit (dec_nat n) = dec_nat n"
  using dec_nat_digits [of n] by (simp add: takeWhile_eq_all_conv list_all_iff)

lemma strtod_dec_nat: "strtod (dec_nat n) = Some (whole (int n), []) \<and> strtod (CHR ''-'' # dec_nat n) = Some (whole (- int n), [])"
proof -
  obtain c cs where c: "dec_nat n = c # cs" "is_digit c"
    using dec_nat_hd [of n] by (cases "dec_nat n") auto
  have "read_sign (dec_nat n) = (False, dec_nat n)"
    using c is_digit_not_sign [OF c(2)] by (simp add: read_sign_def)
  moreover have "read_sign (CHR ''-'' # dec_nat n) = (True, dec_nat n)"
    by (simp add: read_sign_def)
  ultimately show ?thesis
    using dec_nat_hd [of n] by (simp add: strtod_def Let_def digits_takeWhile read_exponent_def atoi_digits_dec_nat)
qed

lemma strtod_dec_int: "strtod (dec_int d) = Some (whole d, [])"
  using strtod_dec_nat [of "nat d"] strtod_dec_nat [of "nat (- d)"] by (simp add: dec_int_def)

lemma dec_int_chars: "\<forall>c \<in> set (dec_int d). number_char c"
  using dec_nat_digits by (auto simp: dec_int_def number_char_def list_all_iff)

lemma dec_int_hd: "dec_int d \<noteq> [] \<and> (hd (dec_int d) = CHR ''-'' \<or> is_digit (hd (dec_int d)))"
  using dec_nat_hd by (simp add: dec_int_def)

lemma length_dec_int: "- (2 ^ 31) \<le> d \<Longrightarrow> d < 2 ^ 31 \<Longrightarrow> length (dec_int d) \<le> 11"
  using length_dec_nat [of 10 "nat d"] length_dec_nat [of 10 "nat (- d)"]
  by (cases "d < 0") (auto simp: dec_int_def nat_less_iff intro: le_SucI order_trans)

lemma stop_not_number: "stop rest \<Longrightarrow> \<not> number_char (hd rest)"
  by (auto simp: stop_def number_char_def is_digit_def)

lemma parse_number_print:
  assumes "- (2 ^ 31) \<le> d" "d < 2 ^ 31" "stop rest"
  shows "parse_number (dec_int d @ rest) = Some (CJSON cJSON_Number d (whole d) None None [], rest)"
proof -
  have "takeWhile number_char (dec_int d @ rest) = dec_int d"
    using dec_int_chars stop_not_number [OF assms(3)] assms(3)
    by (cases rest) (simp_all add: takeWhile_append2 stop_def)
  with length_dec_int [OF assms(1,2)] assms(1,2) show ?thesis
    by (simp add: parse_number_def strtod_dec_int Let_def)
qed

lemma digit_or_minus:
  "c = CHR ''-'' \<or> is_digit c \<Longrightarrow> \<not> blank c \<and> c \<notin> {CHR '']'', CHR ''}'', CHR 0xEF, CHR 0x22, CHR ''n'', CHR ''f'', CHR ''t'', CHR 0x00}"
  by (auto simp: is_digit_def blank_def)

lemma dec_int_starts: "starts_value (dec_int d)"
  using dec_int_hd [of d] digit_or_minus [of "hd (dec_int d)"] dec_int_chars [of d] number_char_not_nul
  by (auto simp: starts_value_def)

section \<open>Elements\<close>

text \<open>A printer \<^verbatim>\<open>p\<close> and a parser \<^verbatim>\<open>pv\<close> that agree on an item.\<close>

definition agree :: "(cJSON \<Rightarrow> string option) \<Rightarrow> (string \<Rightarrow> (cJSON \<times> string) option) \<Rightarrow> (cJSON \<Rightarrow> cJSON) \<Rightarrow> cJSON \<Rightarrow> bool" where
  "agree p pv f c \<longleftrightarrow> (\<exists>s. p c = Some s \<and> starts_value s \<and> (\<forall>rest. stop rest \<longrightarrow> pv (s @ rest) = Some (f c, rest)))"

lemma starts_append: "starts_value s \<Longrightarrow> CHR 0x00 \<notin> set r \<Longrightarrow> starts_value (s @ r)"
  by (auto simp: starts_value_def hd_append)

lemma array_loop_print:
  "cs \<noteq> [] \<Longrightarrow> \<forall>c \<in> set cs. agree p pv f c \<Longrightarrow> length cs \<le> k \<Longrightarrow>
     \<exists>r. print_items p cs = Some r \<and> starts_value r \<and> length cs \<le> length r
       \<and> array_loop pv k (r @ CHR '']'' # rest) = Some (map f cs, rest)"
proof (induction p cs arbitrary: k rule: print_items.induct)
  case (1 p)
  then show ?case by simp
next
  case (2 p c)
  then obtain s j where s: "p c = Some s" "starts_value s" "pv (s @ CHR '']'' # rest) = Some (f c, CHR '']'' # rest)"
      and k: "k = Suc j"
    by (cases k) (auto simp: agree_def stop_def)
  moreover from s(2) have "1 \<le> length s" by (cases s) (auto simp: starts_value_def)
  ultimately show ?case by (simp add: skip_value skip_char)
next
  case (3 p c c' cs)
  then obtain s j where s: "p c = Some s" "starts_value s"
      "\<And>r. pv (s @ CHR '','' # r) = Some (f c, CHR '','' # r)" and k: "k = Suc j" "length (c' # cs) \<le> j"
    by (cases k) (auto simp: agree_def stop_def)
  moreover obtain r where r: "print_items p (c' # cs) = Some r" "starts_value r" "length (c' # cs) \<le> length r"
      "array_loop pv j (r @ CHR '']'' # rest) = Some (map f (c' # cs), rest)"
    using "3.IH" [of s j] s(1) "3.prems" k by auto
  moreover have "starts_value (s @ CHR '','' # r)"
    using s(2) r(2) by (intro starts_append) (auto simp: starts_value_def)
  ultimately show ?case by (simp add: skip_value skip_char)
qed

text \<open>A member: its name and its value.\<close>

definition print_member :: "cJSON \<Rightarrow> string option" where
  "print_member c = map_option (\<lambda>r. print_string_ptr (js_string c) @ CHR '':'' # r) (print_value c)"

lemma print_items_Cons:
  "cs \<noteq> [] \<Longrightarrow> print_items p (c # cs) =
     (case p c of None \<Rightarrow> None | Some s \<Rightarrow> (case print_items p cs of None \<Rightarrow> None | Some r \<Rightarrow> Some (s @ CHR '','' # r)))"
  by (cases cs) (auto split: option.split)

lemma member_starts: "starts_value s \<Longrightarrow> starts_value (print_string_ptr v @ CHR '':'' # s)"
  by (intro starts_append print_string_starts) (auto simp: starts_value_def)

lemma object_step:
  assumes "agree print_value pv f c" "c_text (js_string c)"
  obtains s where "print_member c = Some s" "starts_value s"
    "\<And>k r. object_loop pv (Suc k) (s @ CHR ''}'' # r) = Some ([set_name (js_string c) (f c)], r)"
    "\<And>k r. object_loop pv (Suc k) (s @ CHR '','' # r)
      = map_option (\<lambda>(vs, r'). (set_name (js_string c) (f c) # vs, r')) (object_loop pv k r)"
proof -
  obtain nm where nm: "js_string c = Some nm" "CHR 0x00 \<notin> set nm"
    using assms(2) by (auto simp: c_text_def split: option.splits)
  obtain s where s: "print_value c = Some s" "starts_value s" "\<And>rest. stop rest \<Longrightarrow> pv (s @ rest) = Some (f c, rest)"
    using assms(1) by (auto simp: agree_def)
  let ?m = "print_string_ptr (Some nm) @ CHR '':'' # s"
  have m: "print_member c = Some ?m" "starts_value ?m"
    using nm s by (simp_all add: print_member_def member_starts)
  have ps: "parse_string (buffer_skip_whitespace (?m @ rest)) = Some (nm, CHR '':'' # s @ rest)" for rest
    using skip_value [OF m(2)] parse_string_print [OF nm(2)] by simp
  have "object_loop pv (Suc k) (?m @ CHR ''}'' # r) = Some ([set_name (js_string c) (f c)], r)" for k r
    unfolding object_loop.simps ps using s(2,3) by (simp add: skip_char skip_value stop_def nm(1))
  moreover have "object_loop pv (Suc k) (?m @ CHR '','' # r)
      = map_option (\<lambda>(vs, r'). (set_name (js_string c) (f c) # vs, r')) (object_loop pv k r)" for k r
    unfolding object_loop.simps ps using s(2,3) by (simp add: skip_char skip_value stop_def nm(1))
  ultimately show thesis
    using m that by blast
qed

declare object_loop.simps [simp del]

lemma object_loop_print:
  "cs \<noteq> [] \<Longrightarrow> \<forall>c \<in> set cs. agree print_value pv f c \<and> c_text (js_string c) \<Longrightarrow> length cs \<le> k \<Longrightarrow>
     \<exists>r. print_items print_member cs = Some r \<and> starts_value r \<and> length cs \<le> length r
       \<and> object_loop pv k (r @ CHR ''}'' # rest) = Some (map (\<lambda>c. set_name (js_string c) (f c)) cs, rest)"
proof (induction cs arbitrary: k rule: list_nonempty_induct)
  case (single c)
  then obtain j where "k = Suc j" by (cases k) auto
  moreover obtain s where s: "print_member c = Some s" "starts_value s"
      "\<And>k r. object_loop pv (Suc k) (s @ CHR ''}'' # r) = Some ([set_name (js_string c) (f c)], r)"
    using single.prems object_step [of pv f c] by (metis list.set_intros(1))
  moreover from s(2) have "1 \<le> length s" by (cases s) (auto simp: starts_value_def)
  ultimately show ?case by simp
next
  case (cons c cs)
  then obtain j where k: "k = Suc j" "length cs \<le> j" by (cases k) auto
  obtain s where s: "print_member c = Some s" "starts_value s"
      "\<And>k r. object_loop pv (Suc k) (s @ CHR '','' # r)
        = map_option (\<lambda>(vs, r'). (set_name (js_string c) (f c) # vs, r')) (object_loop pv k r)"
    using cons.prems object_step [of pv f c] by (metis list.set_intros(1))
  obtain r where r: "print_items print_member cs = Some r" "starts_value r" "length cs \<le> length r"
      "object_loop pv j (r @ CHR ''}'' # rest) = Some (map (\<lambda>c. set_name (js_string c) (f c)) cs, rest)"
    using cons.IH [OF _ k(2)] cons.prems by auto
  have "starts_value (s @ CHR '','' # r)"
    using s(2) r(2) by (intro starts_append) (auto simp: starts_value_def)
  with cons.hyps k(1) s r show ?case
    by (simp add: print_items_Cons)
qed

section \<open>The round trip\<close>

lemma scalar_none: "s \<noteq> [] \<Longrightarrow> hd s \<in> {CHR ''['', CHR ''{''} \<Longrightarrow> parse_scalar (s @ rest) = None"
proof -
  assume "s \<noteq> []" "hd s \<in> {CHR ''['', CHR ''{''}"
  then obtain r where "s = CHR ''['' # r \<or> s = CHR ''{'' # r"
    by (cases s) auto
  then show ?thesis
    by (elim disjE) (simp_all add: parse_scalar_def is_digit_def)
qed

lemma scalar_value: "parse_scalar s = Some r \<Longrightarrow> parse_value depth s = r"
  by (cases depth) simp_all

lemma starts_literal [simp]: "starts_value ''null''" "starts_value ''false''" "starts_value ''true''"
  by (simp_all add: starts_value_def blank_def)

lemma depth_child:
  "c \<in> set cs \<Longrightarrow> Suc (foldr max (map json_depth cs) 0) \<le> Suc d \<Longrightarrow> json_depth c \<le> d"
proof (induction cs)
  case (Cons a cs)
  then show ?case by auto
qed simp

lemma parse_number_scalar:
  assumes "c = CHR ''-'' \<or> is_digit c"
  shows "parse_scalar (c # s) = Some (parse_number (c # s))"
  using assms digit_or_minus [OF assms] by (auto simp: parse_scalar_def)

lemma brackets:
  "parse_scalar (CHR ''['' # s) = None" "parse_scalar (CHR ''{'' # s) = None"
  using scalar_none [of "CHR ''['' # s" "[]"] scalar_none [of "CHR ''{'' # s" "[]"] by simp_all

lemma empty_array: "parse_value (Suc d) (CHR ''['' # CHR '']'' # rest) = Some (CJSON cJSON_Array 0 0 None None [], rest)"
  by (simp add: brackets parse_array_def skip_char)

lemma empty_object: "parse_value (Suc d) (CHR ''{'' # CHR ''}'' # rest) = Some (CJSON cJSON_Object 0 0 None None [], rest)"
  by (simp add: brackets parse_object_def skip_char)

lemma nonempty_array:
  assumes "starts_value r"
    "array_loop (parse_value d) (length (CHR ''['' # r @ CHR '']'' # rest)) (r @ CHR '']'' # rest) = Some (vs, rest)"
  shows "parse_value (Suc d) (CHR ''['' # r @ CHR '']'' # rest) = Some (CJSON cJSON_Array 0 0 None None vs, rest)"
proof -
  obtain c r' where r: "r = c # r'" "c \<noteq> CHR '']''"
    using assms(1) by (cases r) (auto simp: starts_value_def)
  with assms skip_value [OF assms(1), of "CHR '']'' # rest"] show ?thesis
    by (simp add: brackets parse_array_def)
qed

lemma nonempty_object:
  assumes "starts_value r"
    "object_loop (parse_value d) (length (CHR ''{'' # r @ CHR ''}'' # rest)) (r @ CHR ''}'' # rest) = Some (vs, rest)"
  shows "parse_value (Suc d) (CHR ''{'' # r @ CHR ''}'' # rest) = Some (CJSON cJSON_Object 0 0 None None vs, rest)"
proof -
  obtain c r' where r: "r = c # r'" "c \<noteq> CHR ''}''"
    using assms(1) by (cases r) (auto simp: starts_value_def)
  with assms skip_value [OF assms(1), of "CHR ''}'' # rest"] show ?thesis
    by (simp add: brackets parse_object_def)
qed

lemma bracketed_starts: "starts_value r \<Longrightarrow> starts_value (CHR ''['' # r @ '']'') \<and> starts_value (CHR ''{'' # r @ ''}'')"
  by (auto simp: starts_value_def blank_def)

theorem parse_print: "json_ok t \<Longrightarrow> json_depth t \<le> d \<Longrightarrow> agree print_value (parse_value d) canon t"
proof (induction t arbitrary: d)
  case (CJSON t i x v s cs)
  show ?case
  proof (cases t)
    case cJSON_Number
    with CJSON.prems have x: "x = whole i" "cs = []" "- (2 ^ 31) \<le> i" "i < 2 ^ 31" by simp_all
    have "parse_value d (dec_int i @ rest) = Some (CJSON cJSON_Number i (whole i) None None [], rest)" if "stop rest" for rest
    proof -
      obtain c r where c: "dec_int i = c # r" "c = CHR ''-'' \<or> is_digit c"
        using dec_int_hd [of i] by (cases "dec_int i") auto
      then show ?thesis
        using parse_number_scalar [OF c(2), of "r @ rest"] parse_number_print [OF x(3,4) that] by (intro scalar_value) simp
    qed
    with x cJSON_Number show ?thesis
      by (auto simp: agree_def print_number_def dec_int_starts Let_def)
  next
    case cJSON_String
    with CJSON.prems obtain w where w: "v = Some w" "CHR 0x00 \<notin> set w" "cs = []"
      by (auto simp: c_text_def split: option.splits)
    have "parse_value d (print_string_ptr (Some w) @ rest) = Some (CJSON cJSON_String 0 0 (Some w) None [], rest)" for rest
    proof (rule scalar_value)
      show "parse_scalar (print_string_ptr (Some w) @ rest) = Some (Some (CJSON cJSON_String 0 0 (Some w) None [], rest))"
        using parse_string_print [OF w(2), of rest] by (simp add: parse_scalar_def print_string_ptr_def)
    qed
    with w cJSON_String show ?thesis
      by (simp add: agree_def print_string_starts)
  next
    case cJSON_Array
    then obtain d' where d: "d = Suc d'" using CJSON.prems(2) by (cases d) auto
    have ag: "\<forall>c \<in> set cs. agree print_value (parse_value d') (\<lambda>c. set_name (js_string c) (canon c)) c"
    proof
      fix c assume c: "c \<in> set cs"
      with CJSON.prems cJSON_Array d have ok: "json_ok c" "js_string c = None" "json_depth c \<le> d'"
        using depth_child [OF c, of d'] by auto
      have "set_name None (canon c) = canon c"
        by (cases c) (simp add: set_name_def)
      with CJSON.IH [OF c ok(1,3)] ok(2) show "agree print_value (parse_value d') (\<lambda>c. set_name (js_string c) (canon c)) c"
        by (simp add: agree_def)
    qed
    show ?thesis
    proof (cases "cs = []")
      case True
      with cJSON_Array d show ?thesis
        using empty_array [of d'] by (simp add: agree_def starts_value_def blank_def del: parse_value.simps)
    next
      case False
      define r where "r = the (print_items print_value cs)"
      have r: "print_items print_value cs = Some r" "starts_value r" "length cs \<le> length r"
        using array_loop_print [OF False ag order_refl, of "[]"] by (auto simp: r_def)
      have "parse_value (Suc d') (CHR ''['' # r @ CHR '']'' # rest)
          = Some (CJSON cJSON_Array 0 0 None None (map (\<lambda>c. set_name (js_string c) (canon c)) cs), rest)" for rest
        using array_loop_print [OF False ag, of "length (CHR ''['' # r @ CHR '']'' # rest)" rest] r
        by (intro nonempty_array) auto
      with cJSON_Array d r show ?thesis
        by (simp add: agree_def bracketed_starts del: parse_value.simps)
    qed
  next
    case cJSON_Object
    then obtain d' where d: "d = Suc d'" using CJSON.prems(2) by (cases d) auto
    have ag: "\<forall>c \<in> set cs. agree print_value (parse_value d') canon c \<and> c_text (js_string c)"
    proof
      fix c assume c: "c \<in> set cs"
      with CJSON.prems cJSON_Object d have "json_ok c" "c_text (js_string c)" "json_depth c \<le> d'"
        using depth_child [OF c, of d'] by auto
      with CJSON.IH [OF c] show "agree print_value (parse_value d') canon c \<and> c_text (js_string c)"
        by simp
    qed
    have p: "print_value (CJSON t i x v s cs) = map_option (\<lambda>r. CHR ''{'' # r @ ''}'') (print_items print_member cs)"
      using cJSON_Object by (simp add: print_member_def [abs_def])
    show ?thesis
    proof (cases "cs = []")
      case True
      with cJSON_Object d p show ?thesis
        using empty_object [of d'] by (simp add: agree_def starts_value_def blank_def del: parse_value.simps)
    next
      case False
      define r where "r = the (print_items print_member cs)"
      have r: "print_items print_member cs = Some r" "starts_value r" "length cs \<le> length r"
        using object_loop_print [OF False ag order_refl, of "[]"] by (auto simp: r_def)
      have "parse_value (Suc d') (CHR ''{'' # r @ CHR ''}'' # rest)
          = Some (CJSON cJSON_Object 0 0 None None (map (\<lambda>c. set_name (js_string c) (canon c)) cs), rest)" for rest
        using object_loop_print [OF False ag, of "length (CHR ''{'' # r @ CHR ''}'' # rest)" rest] r
        by (intro nonempty_object) auto
      with cJSON_Object d r p show ?thesis
        by (simp add: agree_def bracketed_starts del: parse_value.simps)
    qed
  qed (use CJSON.prems in \<open>auto simp: agree_def parse_scalar_def intro!: scalar_value\<close>)
qed

text \<open>On bytes: the text ends with a NUL, and has none before it.\<close>

lemma c_str_text: "CHR 0x00 \<notin> set s \<Longrightarrow> c_str (map (\<lambda>c. of_nat (of_char c)) s) = map (\<lambda>c. of_nat (of_char c)) s"
proof -
  assume s: "CHR 0x00 \<notin> set s"
  have "of_nat (of_char c) \<noteq> (0 :: byte)" if "c \<in> set s" for c
  proof
    assume "of_nat (of_char c) = (0 :: byte)"
    then have "unat (of_nat (of_char c) :: byte) = 0" by simp
    then have "of_char c = (of_char (CHR 0x00) :: nat)" by (simp add: unat_of_nat take_bit_nat_eq_self)
    then show False using that s by (metis of_char_eq_iff)
  qed
  then show ?thesis by (simp add: c_str_def takeWhile_eq_all_conv)
qed

lemma chars_of_bytes: "map (\<lambda>b. char_of (unat b)) (map (\<lambda>c. of_nat (of_char c) :: byte) s) = s"
  by (induction s) (simp_all add: unat_of_nat take_bit_nat_eq_self)

theorem cjson_roundtrip:
  assumes "json_ok t" "json_depth t \<le> CJSON_NESTING_LIMIT"
  shows "cjson_parse (cjson_print t) = Some (canon t) \<and> cjson_print t \<noteq> []"
proof -
  obtain s where s: "print_value t = Some s" "starts_value s"
      "parse_value CJSON_NESTING_LIMIT (s @ [CHR 0x00]) = Some (canon t, [CHR 0x00])"
    using parse_print [OF assms] by (auto simp: agree_def stop_def)
  have "c_str (cjson_print t) = cjson_print t"
    using c_str_text [of s] s by (simp add: cjson_print_def starts_value_def)
  moreover have "map (\<lambda>b. char_of (unat b)) (cjson_print t) = s"
    using s(1) by (simp only: cjson_print_def option.case chars_of_bytes)
  moreover have "skip_utf8_bom (s @ [CHR 0x00]) = s @ [CHR 0x00]"
    using s(2) by (cases s) (auto simp: skip_utf8_bom_def starts_value_def)
  ultimately show ?thesis
    using s skip_value [OF s(2), of "[CHR 0x00]"]
    by (auto simp: cjson_parse_def cjson_print_def starts_value_def)
qed

end
