(* ===== verification/Cjson_Types.thy ===== *)
theory Cjson_Types
  imports Cjson_Roundtrip
begin

text \<open>
  Every tree the parser returns is well formed: values sit in the fields their type says, exactly the members of objects have names,
  texts are C strings, and arrays and objects are nested no deeper than the limit. A parsed tree whose numbers are integers that fit into 32 bits can be
  printed and parsed again without loss.
\<close>

section \<open>Well-formed trees\<close>

fun json_wf :: "cJSON \<Rightarrow> bool" where
  "json_wf (CJSON t i d v s cs) =
     (case t of
        cJSON_Number \<Rightarrow> cs = [] \<and> v = None \<and> i = saturated d
      | cJSON_String \<Rightarrow> cs = [] \<and> c_text v \<and> i = 0 \<and> d = 0
      | cJSON_Array \<Rightarrow> v = None \<and> i = 0 \<and> d = 0 \<and> (\<forall>c \<in> set cs. js_string c = None \<and> json_wf c)
      | cJSON_Object \<Rightarrow> v = None \<and> i = 0 \<and> d = 0 \<and> (\<forall>c \<in> set cs. c_text (js_string c) \<and> json_wf c)
      | cJSON_True \<Rightarrow> cs = [] \<and> v = None \<and> i = 1 \<and> d = 0
      | cJSON_False \<Rightarrow> cs = [] \<and> v = None \<and> i = 0 \<and> d = 0
      | cJSON_NULL \<Rightarrow> cs = [] \<and> v = None \<and> i = 0 \<and> d = 0
      | cJSON_Raw \<Rightarrow> False
      | cJSON_Invalid \<Rightarrow> False)"

text \<open>What a parser of values promises.\<close>

definition typed :: "nat \<Rightarrow> (string \<Rightarrow> (cJSON \<times> string) option) \<Rightarrow> bool" where
  "typed n pv \<longleftrightarrow> (\<forall>s v r. pv s = Some (v, r) \<longrightarrow> json_wf v \<and> js_string v = None \<and> json_depth v \<le> n)"

lemma typedD: "typed n pv \<Longrightarrow> pv s = Some (v, r) \<Longrightarrow> json_wf v \<and> js_string v = None \<and> json_depth v \<le> n"
  unfolding typed_def by blast

lemma parse_string_c_text: "parse_string s = Some (t, r) \<Longrightarrow> c_text (Some t)"
  by (auto simp: parse_string_def c_text_def split: list.splits if_splits option.splits dest: set_takeWhileD)

lemma parse_number_typed: "parse_number s = Some (v, r) \<Longrightarrow> json_wf v \<and> js_string v = None \<and> json_depth v = 0"
  by (auto simp: parse_number_def Let_def split: option.splits)

lemma parse_scalar_typed:
  assumes "parse_scalar s = Some (Some (v, r))"
  shows "json_wf v \<and> js_string v = None \<and> json_depth v = 0"
proof -
  let ?e = "v \<in> {CJSON cJSON_NULL 0 0 None None [], CJSON cJSON_False 0 0 None None [], CJSON cJSON_True 1 0 None None []}"
  have "?e \<or> (\<exists>t. parse_string s = Some (t, r) \<and> v = CJSON cJSON_String 0 0 (Some t) None []) \<or> parse_number s = Some (v, r)"
  proof (cases "take 4 s = ''null'' \<or> take 5 s = ''false'' \<or> take 4 s = ''true''")
    case True
    then have ?e using assms unfolding parse_scalar_def by (auto split: if_split_asm)
    then show ?thesis by blast
  next
    case False
    then show ?thesis using assms unfolding parse_scalar_def by (cases s) (auto split: if_split_asm)
  qed
  then show ?thesis by (auto dest: parse_number_typed parse_string_c_text)
qed

lemma set_name_wf [simp]: "json_wf (set_name nm v) = json_wf v" "json_depth (set_name nm v) = json_depth v" "js_string (set_name nm v) = nm"
  by (cases v, simp add: set_name_def)+

lemma array_loop_typed:
  assumes pv: "typed n pv"
  shows "array_loop pv k s = Some (vs, r) \<Longrightarrow> \<forall>v \<in> set vs. json_wf v \<and> js_string v = None \<and> json_depth v \<le> n"
proof (induction k arbitrary: s vs)
  case (Suc k)
  then obtain v q c q1 where v: "pv (buffer_skip_whitespace s) = Some (v, q)" "buffer_skip_whitespace q = c # q1"
      "c = CHR '','' \<and> (\<exists>vs'. array_loop pv k q1 = Some (vs', r) \<and> vs = v # vs') \<or> c = CHR '']'' \<and> vs = [v]"
    by (auto split: option.splits list.splits if_splits)
  with typedD [OF pv v(1)] Suc.IH show ?case by auto
qed simp

lemma object_loop_typed:
  assumes pv: "typed n pv"
  shows "object_loop pv k s = Some (vs, r) \<Longrightarrow> \<forall>v \<in> set vs. json_wf v \<and> c_text (js_string v) \<and> json_depth v \<le> n"
proof (induction k arbitrary: s vs)
  case (Suc k)
  from Suc.prems obtain nm q q1 v q2 c q3 where v: "parse_string (buffer_skip_whitespace s) = Some (nm, q)"
      "buffer_skip_whitespace q = CHR '':'' # q1" "pv (buffer_skip_whitespace q1) = Some (v, q2)"
      "buffer_skip_whitespace q2 = c # q3"
      "c = CHR '','' \<and> (\<exists>vs'. object_loop pv k q3 = Some (vs', r) \<and> vs = set_name (Some nm) v # vs') \<or>
       c = CHR ''}'' \<and> vs = [set_name (Some nm) v]"
    unfolding object_loop.simps by (simp split: option.splits list.splits if_splits prod.splits) blast+
  with typedD [OF pv v(3)] parse_string_c_text [OF v(1)] Suc.IH show ?case by auto
qed (simp add: object_loop.simps)

lemma foldr_max_le: "\<forall>c \<in> set cs. f c \<le> n \<Longrightarrow> foldr max (map f cs) 0 \<le> (n :: nat)"
  by (induction cs) auto

lemma parse_array_typed: "typed n pv \<Longrightarrow> parse_array pv s = Some (v, r) \<Longrightarrow> json_wf v \<and> js_string v = None \<and> json_depth v \<le> Suc n"
  by (auto simp: parse_array_def split: list.splits if_splits dest!: array_loop_typed intro!: foldr_max_le)

lemma parse_object_typed: "typed n pv \<Longrightarrow> parse_object pv s = Some (v, r) \<Longrightarrow> json_wf v \<and> js_string v = None \<and> json_depth v \<le> Suc n"
  by (auto simp: parse_object_def split: list.splits if_splits dest!: object_loop_typed intro!: foldr_max_le)

lemma parse_value_typed: "typed n (parse_value n)"
proof (induction n)
  case 0
  then show ?case unfolding typed_def by (auto split: option.splits dest: parse_scalar_typed)
next
  case (Suc n)
  show ?case unfolding typed_def
  proof (intro allI impI)
    fix s v r
    assume p: "parse_value (Suc n) s = Some (v, r)"
    show "json_wf v \<and> js_string v = None \<and> json_depth v \<le> Suc n"
    proof (cases "parse_scalar s")
      case None
      then show ?thesis using p parse_array_typed [OF Suc.IH] parse_object_typed [OF Suc.IH] by (auto split: if_splits)
    next
      case (Some x)
      then show ?thesis using p parse_scalar_typed [of s v r] by auto
    qed
  qed
qed

theorem cjson_parse_typed: "cjson_parse b = Some t \<Longrightarrow> json_wf t \<and> js_string t = None \<and> json_depth t \<le> CJSON_NESTING_LIMIT"
  using typedD [OF parse_value_typed] by (auto simp: cjson_parse_def)

section \<open>Parsing again what was parsed\<close>

text \<open>The numbers of a tree are integers that fit into 32 bits.\<close>

fun small_numbers :: "cJSON \<Rightarrow> bool" where
  "small_numbers (CJSON t i d v s cs) = ((t = cJSON_Number \<longrightarrow> scale d = 0 \<and> - (2 ^ 31) \<le> mantissa d \<and> mantissa d < 2 ^ 31) \<and> (\<forall>c \<in> set cs. small_numbers c))"

lemma wf_ok: "json_wf t \<Longrightarrow> small_numbers t \<Longrightarrow> json_ok t"
proof (induction t rule: json_wf.induct)
  case (1 t i d v s cs)
  show ?case using 1 by (cases d) (auto split: cJSON_type.splits)
qed

lemma wf_canon: "json_wf t \<Longrightarrow> canon t = set_name None t"
proof (induction t)
  case (CJSON t i d v s cs)
  have "map (\<lambda>c. set_name (js_string c) (canon c)) cs = cs" if "\<forall>c \<in> set cs. json_wf c"
  proof (rule map_idI)
    fix c
    assume c: "c \<in> set cs"
    have "canon c = set_name None c" using CJSON.IH [OF c] that c by blast
    then show "set_name (js_string c) (canon c) = c" by (cases c) (simp add: set_name_def)
  qed
  then show ?case using CJSON.prems by (auto simp: set_name_def split: cJSON_type.splits)
qed

section \<open>The contract of the text functions\<close>

text \<open>What a client of the printer and the parser relies on.\<close>

locale json_codec =
  fixes parse :: "byte list \<Rightarrow> cJSON option" and print :: "cJSON \<Rightarrow> byte list"
  assumes print_parse: "json_ok t \<Longrightarrow> json_depth t \<le> CJSON_NESTING_LIMIT \<Longrightarrow> parse (print t) = Some (canon t) \<and> print t \<noteq> []"
    and parse_wf: "parse b = Some t \<Longrightarrow> json_wf t \<and> js_string t = None \<and> json_depth t \<le> CJSON_NESTING_LIMIT"
begin

text \<open>A document that was parsed is not changed by storing and reading it again.\<close>

lemma reparse: "parse b = Some t \<Longrightarrow> small_numbers t \<Longrightarrow> parse (print t) = Some t"
  using print_parse [of t] parse_wf [of b t] wf_ok [of t] wf_canon [of t] by (cases t) (auto simp: set_name_def)

text \<open>Different documents have different texts.\<close>

lemma print_inj:
  assumes "json_ok t" "json_ok u" "json_depth t \<le> CJSON_NESTING_LIMIT" "json_depth u \<le> CJSON_NESTING_LIMIT" "print t = print u"
  shows "canon t = canon u"
  using print_parse [OF assms(1,3)] print_parse [OF assms(2,4)] assms(5) by simp

text \<open>An array of flat objects.\<close>

lemma array_roundtrip:
  assumes "\<forall>c \<in> set cs. json_ok c \<and> json_depth c = 1 \<and> js_string c = None"
  shows "parse (print (CJSON cJSON_Array 0 0 None None cs)) = Some (CJSON cJSON_Array 0 0 None None (map canon cs)) \<and>
    print (CJSON cJSON_Array 0 0 None None cs) \<noteq> []"
proof -
  have d: "foldr max (map json_depth cs) 0 \<le> 1" using assms by (intro foldr_max_le) auto
  have "set_name None (canon c) = canon c" for c by (cases c) (simp add: set_name_def)
  then have "map (\<lambda>c. set_name (js_string c) (canon c)) cs = map canon cs" using assms by simp
  with print_parse [of "CJSON cJSON_Array 0 0 None None cs"] assms d show ?thesis by (simp add: CJSON_NESTING_LIMIT_def)
qed

end

interpretation cj: json_codec cjson_parse cjson_print
  by unfold_locales (simp_all add: cjson_roundtrip cjson_parse_typed)

end
