(* ===== verification/Hub_Frame.thy ===== *)
theory Hub_Frame
  imports Hub_Api Cjson_Types Access_Liveness
begin

text \<open>
  What the operations of the hub leave alone. Messages to the platform, reports and authentication requests change nothing of
  the module's own state: neither the stored list nor the counters nor the lock. The lemmas hold for a state in which allocations
  and calls of the store succeed; whether the core accepts a message does not matter.
\<close>

section \<open>Steps of the core\<close>

definition quiet_step :: "world \<Rightarrow> world \<Rightarrow> bool" where
  "quiet_step w w' \<longleftrightarrow> (answers (w_mem w) = [] \<longrightarrow> answers (w_mem w') = [] \<and> w_fault w' = w_fault w)"

lemma quiet_refl [simp]: "quiet_step w w"
  by (simp add: quiet_step_def)

lemma quiet_trans: "quiet_step w v \<Longrightarrow> quiet_step v u \<Longrightarrow> quiet_step w u"
  by (simp add: quiet_step_def)

lemma quiet_then:
  "quiet_step w v \<Longrightarrow> quiet_step w (w_free v)" "quiet_step w v \<Longrightarrow> quiet_step w (w_frees n v)"
  "quiet_step w v \<Longrightarrow> quiet_step w (w_json_delete j v)"
  "quiet_step w v \<Longrightarrow> w_malloc v = (ok, v') \<Longrightarrow> quiet_step w v'"
  "quiet_step w v \<Longrightarrow> genaral_seq v = (n', v') \<Longrightarrow> quiet_step w v'"
  "quiet_step w v \<Longrightarrow> das_send_pubmsg_async x v = (e, v') \<Longrightarrow> quiet_step w v'"
  by (auto simp: quiet_step_def w_free_def w_frees_def w_json_delete_def w_malloc_def ezos_malloc_def ezos_free_def ezos_frees_def
      cJSON_Delete_def genaral_seq_def das_send_pubmsg_async_def push_queue_pubmsg_exchange_def push_queue_def
      split: prod.splits option.splits list.splits if_splits)

lemma quiet_queue_or_free:
  "queue_or_free das_send_pubmsg_async pubmsg_blocks x v = (rv, v') \<Longrightarrow> quiet_step w v \<Longrightarrow> quiet_step w v'"
  by (auto simp: queue_or_free_def split: prod.splits if_splits intro: quiet_then(2,6))
    (metis prod.collapse quiet_then(2,6))

lemma quiet_send: "ez_kernel_send p w = (rv, p', w') \<Longrightarrow> quiet_step w w'"
  by (auto simp: ez_kernel_send_def Let_def split: if_splits option.splits prod.splits
      intro!: quiet_then(1) elim!: quiet_queue_or_free quiet_then(4) [rotated] quiet_then(5) [rotated])

section \<open>Steps of the hub\<close>

text \<open>Only the core changed.\<close>

definition hub_step :: "hub \<Rightarrow> hub \<Rightarrow> bool" where
  "hub_step h h' \<longleftrightarrow> (\<exists>w. h' = h\<lparr>hub_world := w\<rparr> \<and> quiet_step (hub_world h) w)"

lemma hub_stepI [intro!]: "quiet_step (hub_world h) w \<Longrightarrow> hub_step h (h\<lparr>hub_world := w\<rparr>)"
  by (auto simp: hub_step_def)

lemma hub_stepE:
  assumes "hub_step h h'" obtains w where "h' = h\<lparr>hub_world := w\<rparr>" "quiet_step (hub_world h) w"
  using assms by (auto simp: hub_step_def)

lemma hub_step_refl [simp]: "hub_step h h"
  using hub_stepI [of h "hub_world h"] by simp

lemma hub_step_trans: "hub_step h g \<Longrightarrow> hub_step g f \<Longrightarrow> hub_step h f"
  by (auto elim!: hub_stepE intro!: hub_stepI intro: quiet_trans)

lemma hub_step_on_world: "(\<And>r w. f (hub_world h) = (r, w) \<Longrightarrow> quiet_step (hub_world h) w) \<Longrightarrow> hub_step h (snd (on_world f h))"
  by (auto simp: on_world_def split: prod.split)

lemma hub_step_upd_hw: "quiet_step (hub_world h) (f (hub_world h)) \<Longrightarrow> hub_step h (upd_hw f h)"
  by (auto simp: upd_hw_def)

lemma hub_step_release: "hub_step h (upd_hw w_free h)" "hub_step h (upd_hw (w_json_delete j) h)"
  by (intro hub_step_upd_hw quiet_then(1,3) quiet_refl)+

lemma hub_step_retried:
  assumes "\<And>h. hub_step h (snd (f h))"
  shows "hub_step h (snd (retried f ok h))"
proof -
  obtain r g where 1: "f h = (r, g)" by (rule prod.exhaust)
  obtain r' g' where 2: "f g = (r', g')" by (rule prod.exhaust)
  from assms [of h] assms [of g] have "hub_step h g" "hub_step g g'" by (simp_all add: 1 2)
  then show ?thesis by (auto simp: retried_def 1 2 intro: hub_step_trans)
qed

lemma hub_step_message: "hub_step h (snd (hub_send_msg_to_platform msg cmd rsp sq h))"
  by (auto simp: hub_send_msg_to_platform_def intro: quiet_send split: prod.split)

lemma hub_step_print: "hub_step h (snd (on_world (cJSON_PrintUnformatted L j) h))"
  by (rule hub_step_on_world) (auto simp: cJSON_PrintUnformatted_def split: option.splits prod.splits intro: quiet_then(4) [OF quiet_refl])

text \<open>State in which the store and the allocator answer.\<close>

definition calm :: "hub \<Rightarrow> bool" where
  "calm h \<longleftrightarrow> answers (w_mem (hub_world h)) = [] \<and> kv_codes h = []"

lemma calm_step:
  assumes "hub_step h h'"
  shows "calm h \<Longrightarrow> calm h'" "hublist h' = hublist h" "g_hlock h' = g_hlock h" "hub_locked h' = hub_locked h"
    "g_phub_cbs h' = g_phub_cbs h" "g_unauth_count h' = g_unauth_count h" "g_hub_inited h' = g_hub_inited h"
    "hub_events h' = hub_events h" "hub_timers h' = hub_timers h" "kv_codes h' = kv_codes h"
    "calm h \<Longrightarrow> w_fault (hub_world h') = w_fault (hub_world h)"
  using assms by (auto simp: calm_def quiet_step_def elim!: hub_stepE)

lemma kv_calm [simp]: "calm h \<Longrightarrow> kv_call h = (0, h)"
  by (simp add: calm_def kv_call_def)

lemma kv_list_length_calm [simp]: "calm (snd s) \<Longrightarrow> kv_list_length s = (EZ_HUB_ERR_SUCC, s)"
  by (cases s) (simp add: kv_list_length_def retried_def)

text \<open>A world with \<^verbatim>\<open>n\<close> more blocks in use.\<close>

definition w_take :: "nat \<Rightarrow> world \<Rightarrow> world" where
  "w_take n w = w\<lparr>w_mem := (w_mem w)\<lparr>live := live (w_mem w) + int n\<rparr>\<rparr>"

lemma w_take_step: "hub_step h (upd_hw (w_take n) h)"
  by (auto simp: upd_hw_def w_take_def quiet_step_def)

lemma calm_malloc: "calm h \<Longrightarrow> \<exists>h'. on_world w_malloc h = (True, h') \<and> hub_step h h'"
  by (auto simp: on_world_def calm_def w_malloc_def ezos_malloc_def quiet_step_def)

lemma calm_print:
  "calm h \<Longrightarrow> \<exists>h'. on_world (cJSON_PrintUnformatted L (Some t)) h = (Some (cJSON_text (lib_text L) t), h') \<and> hub_step h h'"
  by (auto simp: on_world_def calm_def cJSON_PrintUnformatted_def w_malloc_def ezos_malloc_def quiet_step_def)

lemma calm_json:
  assumes "calm h" and "\<And>m. answers m = [] \<Longrightarrow> \<exists>m'. f m = (r, m') \<and> answers m' = []"
  shows "\<exists>h'. on_world (w_json f) h = (r, h') \<and> hub_step h h'"
  using assms(2) [of "w_mem (hub_world h)"] assms(1)
  by (auto simp: on_world_def w_json_def calm_def quiet_step_def)

lemma retried_ok: "f s = (r, s') \<Longrightarrow> ok r \<Longrightarrow> retried f ok s = ((True, r), s')"
  by (simp add: retried_def)

text \<open>A list that is read: the buffer and the document are in use, nothing else changed.\<close>

lemma read_list_calm:
  assumes "calm h" and "cJSON_Parse (lib_text L) (kv_list_get h) = Some t"
  shows "read_list L again (l, h) =
    (EZ_HUB_ERR_SUCC, (l\<lparr>l_pbuf := True, l_root := Some t\<rparr>, upd_hw (w_take (json_blocks t + 1)) h))"
proof -
  let ?g = "upd_hw (w_take 1) h"
  have g: "calm ?g" "kv_list_get ?g = kv_list_get h" using assms(1) by (simp_all add: calm_def kv_list_get_def upd_hw_def w_take_def)
  have 1: "on_world w_malloc h = (True, ?g)"
    using assms(1) by (simp add: on_world_def calm_def w_malloc_def ezos_malloc_def upd_hw_def w_take_def)
  have 2: "on_world (hub_parse L (kv_list_get ?g)) ?g = (Some t, upd_hw (w_take (json_blocks t)) ?g)"
    using assms(2) g by (simp add: on_world_def hub_parse_def calm_def w_malloc_def ezos_malloc_def upd_hw_def w_take_def)
  have 3: "upd_hw (w_take (json_blocks t)) ?g = upd_hw (w_take (json_blocks t + 1)) h" by (simp add: upd_hw_def w_take_def)
  have "alloc_pbuf again (l, h) = (EZ_HUB_ERR_SUCC, (l\<lparr>l_pbuf := True\<rparr>, ?g))"
    by (simp add: alloc_pbuf_def retried_def 1)
  moreover have "parse_list L (l\<lparr>l_pbuf := True\<rparr>, ?g) =
      (EZ_HUB_ERR_SUCC, (l\<lparr>l_pbuf := True, l_root := Some t\<rparr>, upd_hw (w_take (json_blocks t + 1)) h))"
    using retried_ok [of "on_world (hub_parse L (kv_list_get ?g))", OF 2, of "\<lambda>j. j \<noteq> None"] 3 by (simp add: parse_list_def)
  ultimately show ?thesis using g(1) by (simp add: read_list_def)
qed

text \<open>The common exit gives both back.\<close>

lemma hub_done_read:
  assumes "\<not> hub_locked h" and "l = no_locals\<lparr>l_pbuf := True, l_root := Some t\<rparr>"
  shows "hub_done (r, (l, upd_hw (w_take (json_blocks t + 1)) (h\<lparr>hub_locked := True\<rparr>))) = (r, h)"
  using assms by (cases h) (simp add: hub_done_def upd_hw_def w_take_def no_locals_def w_json_delete_def w_free_def cJSON_Delete_def
      ezos_free_def ezos_frees_def)

section \<open>Documents\<close>

lemma add_fields_quiet: "answers m = [] \<Longrightarrow> answers (snd (add_fields fs (Some ob) m)) = []"
  using add_fields_ok [of m fs ob] by auto

lemma append_object_quiet: "answers m = [] \<Longrightarrow> answers (snd (append_object fs lst m)) = []"
  by (auto simp: append_object_def cJSON_CreateObject_def cJSON_New_Item_def malloc_Nil split: prod.split)
    (metis add_fields_quiet mem.select_convs(1) mem.update_convs(2) snd_conv mem.cases)

lemma report_loop_quiet:
  assumes "\<And>d lst m. answers m = [] \<Longrightarrow> answers (snd (add d lst m)) = []"
    and "\<And>c. c \<in> set cs \<Longrightarrow> \<not> snd (json_to_subdev c)"
  shows "quiet_step w (snd (report_loop add cs lst w))"
  using assms(2)
proof (induction cs arbitrary: lst w)
  case (Cons c cs)
  obtain d nt where d: "json_to_subdev c = (d, nt)" by (rule prod.exhaust)
  then have nt: "\<not> nt" using Cons.prems [of c] by simp
  obtain l1 w1 where 1: "w_json (add d lst) (faulty nt w) = (l1, w1)" by (rule prod.exhaust)
  have "quiet_step w w1"
    using 1 nt assms(1) [of "w_mem w" d lst] by (auto simp: quiet_step_def w_json_def faulty_def split: prod.splits)
  then show ?case using Cons.IH [of w1 l1] Cons.prems by (auto simp: d 1 intro: quiet_trans)
qed simp

section \<open>Reports\<close>

lemma send_list_step: "hub_step (snd s) (snd (snd (send_list L cmd lst s)))"
proof -
  obtain ok t h where 1: "retried (on_world (cJSON_PrintUnformatted L lst)) (\<lambda>t. t \<noteq> None) (snd s) = ((ok, t), h)"
    by (metis prod.exhaust)
  obtain ok' e h1 where 2: "retried (hub_send_msg_to_platform (the t) cmd 0 0) (\<lambda>rc. rc = 0) h = ((ok', e), h1)"
    by (metis prod.exhaust)
  have "hub_step (snd s) h" "hub_step h h1"
    using hub_step_retried [of "on_world (cJSON_PrintUnformatted L lst)" "snd s" "\<lambda>t. t \<noteq> None", OF hub_step_print]
      hub_step_retried [of "hub_send_msg_to_platform (the t) cmd 0 0" h "\<lambda>rc. rc = 0", OF hub_step_message] by (simp_all only: 1 2 snd_conv)
  then show ?thesis
    by (cases ok) (simp_all only: send_list_def 1 2 Let_def prod.case snd_conv if_True if_False not_True_eq_False not_False_eq_True
        hub_step_trans [of "snd s" h h1])
qed

text \<open>A locked section.\<close>

lemma upd_hw_no_fault [simp]: "upd_hw (faulty False) h = h"
  by (simp add: upd_hw_def faulty_def)

lemma hub_lock_free: "g_hlock h = Mutex_live \<Longrightarrow> \<not> hub_locked h \<Longrightarrow> hub_lock body h = Some (body (h\<lparr>hub_locked := True\<rparr>))"
  by (simp add: hub_lock_def)

lemma hub_done_step: "\<exists>h'. hub_done (rv, (l, g)) = (rv, h') \<and> hub_step (g\<lparr>hub_locked := False\<rparr>) h'"
  by (cases "l_pbuf l"; cases "l_save l") (auto simp: hub_done_def intro!: hub_step_upd_hw quiet_then(1,3))

text \<open>A section that only talks to the core leaves the state of the module as it was.\<close>

lemma unlocked_step:
  assumes "hub_step (h\<lparr>hub_locked := True\<rparr>) g" and "\<not> hub_locked h"
  shows "hub_step h (g\<lparr>hub_locked := False\<rparr>)"
proof -
  obtain w where w: "g = h\<lparr>hub_locked := True, hub_world := w\<rparr>" "quiet_step (hub_world h) w"
    using assms(1) by (auto elim!: hub_stepE)
  moreover have "g\<lparr>hub_locked := False\<rparr> = h\<lparr>hub_world := w\<rparr>" using assms(2) w(1) by (cases h) simp
  ultimately show ?thesis by (simp add: hub_stepI)
qed

lemma create_array_calm:
  assumes "calm h"
  shows "\<exists>h'. on_world (w_json cJSON_CreateArray) h = (Some (CJSON cJSON_Array 0 0 None None []), h') \<and> hub_step h h'"
  by (rule calm_json [OF assms]) (simp add: cJSON_CreateArray_def cJSON_New_Item_def malloc_Nil)

lemma report_calm:
  assumes "calm h" "g_hlock h = Mutex_live" "\<not> hub_locked h"
    and "\<And>t. hublist h \<noteq> [] \<Longrightarrow> cJSON_Parse (lib_text L) (kv_list_get h) = Some t \<Longrightarrow> \<forall>c \<in> set (js_child t). \<not> snd (json_to_subdev c)"
    and "hublist h \<noteq> [] \<Longrightarrow> cJSON_Parse (lib_text L) (kv_list_get h) \<noteq> None"
    and "\<And>d lst m. answers m = [] \<Longrightarrow> answers (snd (add d lst m)) = []"
    and "\<And>s. hub_step (snd s) (snd (snd (when_empty s)))"
  shows "\<exists>rv h'. report L cmd add when_empty h = Some (rv, h') \<and> hub_step h h'"
proof -
  from create_array_calm [OF assms(1)] obtain g where
    1: "on_world (w_json cJSON_CreateArray) h = (Some (CJSON cJSON_Array 0 0 None None []), g)" "hub_step h g" by blast
  let ?arr = "Some (CJSON cJSON_Array 0 0 None None [])" and ?g = "g\<lparr>hub_locked := True\<rparr>"
  have g: "calm ?g" "hublist ?g = hublist h" "kv_list_get ?g = kv_list_get h" "g_hlock g = Mutex_live" "\<not> hub_locked g"
    using calm_step [OF 1(2)] assms(1-3) by (simp_all add: calm_def kv_list_get_def)
  let ?r = "if hublist h = [] then (when_empty (no_locals, ?g), ?arr)
    else (case read_list L True (no_locals, ?g) of (e1, (l, h2)) \<Rightarrow>
                      if e1 \<noteq> EZ_HUB_ERR_SUCC then ((e1, (l, h2)), ?arr)
                      else (case on_world (report_loop add (case l_root l of None \<Rightarrow> [] | Some j \<Rightarrow> js_child j) ?arr)
                              (upd_hw w_free h2) of (lst, h3) \<Rightarrow>
                        (send_list L cmd lst (l\<lparr>l_pbuf := False\<rparr>, h3), lst)))"
  have "\<exists>e l f lst. ?r = ((e, (l, f)), lst) \<and> hub_step ?g f"
  proof (cases "hublist h = []")
    case True
    moreover obtain e l f where e: "when_empty (no_locals, ?g) = (e, (l, f))" by (metis prod.exhaust)
    ultimately show ?thesis using assms(7) [of "(no_locals, ?g)"] by (simp add: e)
  next
    case False
    then obtain t where t: "cJSON_Parse (lib_text L) (kv_list_get ?g) = Some t" using assms(5) g(3) by auto
    let ?l = "no_locals\<lparr>l_pbuf := True, l_root := Some t\<rparr>"
    obtain h2 where 2: "read_list L True (no_locals, ?g) = (EZ_HUB_ERR_SUCC, (?l, h2))" "hub_step ?g h2"
      using read_list_calm [OF g(1) t, of True no_locals] w_take_step by blast
    obtain lst h3 where 3: "on_world (report_loop add (js_child t) ?arr) (upd_hw w_free h2) = (lst, h3)" by (rule prod.exhaust)
    have "hub_step (upd_hw w_free h2) (snd (on_world (report_loop add (js_child t) ?arr) (upd_hw w_free h2)))"
      using report_loop_quiet [of add "js_child t", OF assms(6)] assms(4) [OF False] t g(3)
      by (intro hub_step_on_world) (metis snd_conv)
    then have "hub_step h2 h3" using hub_step_trans [OF hub_step_release(1)] 3 by simp
    moreover obtain e l' f where 4: "send_list L cmd lst (?l\<lparr>l_pbuf := False\<rparr>, h3) = (e, (l', f))" by (metis prod.exhaust)
    moreover have "hub_step h3 f" using send_list_step [of "(?l\<lparr>l_pbuf := False\<rparr>, h3)" L cmd lst] 4 by simp
    ultimately show ?thesis
      using False 2 by (auto simp: 3 intro: hub_step_trans)
  qed
  then obtain e l f lst where r: "?r = ((e, (l, f)), lst)" "hub_step ?g f" by blast
  obtain h' where d: "hub_done (e, (l, f)) = (e, h')" "hub_step (f\<lparr>hub_locked := False\<rparr>) h'"
    using hub_done_step [of e l f] by blast
  have "hub_step g h'" using unlocked_step [OF r(2) g(5)] d(2) by (rule hub_step_trans)
  moreover have "report L cmd add when_empty h = Some (e, upd_hw (w_json_delete lst) h')"
    using r(1) by (simp add: report_def 1(1) hub_lock_free [OF g(4,5)] g(1,2) d(1))
  ultimately show ?thesis using 1(2) hub_step_release(2) [of h' lst] by (blast intro: hub_step_trans)
qed

text \<open>A stored list without text is empty, and one with text has devices with all their texts.\<close>

definition readable :: "libs \<Rightarrow> hub \<Rightarrow> bool" where
  "readable L h \<longleftrightarrow> hublist h = [] \<or>
     (\<exists>t. cJSON_Parse (lib_text L) (kv_list_get h) = Some t \<and> (\<forall>c \<in> set (js_child t). \<not> snd (json_to_subdev c)))"

definition unlocked :: "hub \<Rightarrow> bool" where
  "unlocked h \<longleftrightarrow> g_hlock h = Mutex_live \<and> \<not> hub_locked h"

lemma list_report_calm:
  assumes "calm h" "unlocked h" "readable L h"
  shows "\<exists>rv h'. hub_subdev_list_report L h = Some (rv, h') \<and> hub_step h h'"
proof -
  have "hub_step (snd s) (snd (snd (case retried (hub_send_msg_to_platform msg kPu2CenPltHubReportRelationShipReq 0 0) (\<lambda>rc. rc = 0)
      (snd s) of ((ok, x), h) \<Rightarrow> (if ok then EZ_HUB_ERR_SUCC else EZ_HUB_ERR_INTERNAL, (fst s, h)))))" for s :: hub_run and msg
    using hub_step_retried [of "hub_send_msg_to_platform msg kPu2CenPltHubReportRelationShipReq 0 0" "snd s" "\<lambda>rc. rc = 0",
        OF hub_step_message] by (auto split: prod.split)
  then show ?thesis
    unfolding hub_subdev_list_report_def
    using assms by (intro report_calm) (auto simp: unlocked_def readable_def subdev_to_relation_lst_def intro: append_object_quiet)
qed

lemma sta_report_calm:
  assumes "calm h" "unlocked h" "readable L h"
  shows "\<exists>rv h'. hub_subdev_sta_report L h = Some (rv, h') \<and> hub_step h h'"
  unfolding hub_subdev_sta_report_def
  using assms by (intro report_calm) (auto simp: unlocked_def readable_def subdev_to_status_lst_def intro: append_object_quiet)

lemma then_report_calm:
  assumes "\<exists>rv h'. rep h = Some (rv, h') \<and> hub_step h h'"
  shows "\<exists>h'. then_report rep (Some (e, h)) = Some (e, h') \<and> hub_step h h'"
  using assms by (auto simp: then_report_def)

text \<open>A request for authentication.\<close>

lemma auth_do_step:
  assumes "calm h"
  shows "hub_step h (snd (hub_subdev_auth_do L T d h))"
proof -
  have "\<exists>m'. cJSON_CreateObject m = (Some (CJSON cJSON_Object 0 0 None None []), m') \<and> answers m' = []" if "answers m = []" for m
    using that by (simp add: cJSON_CreateObject_def cJSON_New_Item_def malloc_Nil)
  then obtain h1 where 1: "on_world (w_json cJSON_CreateObject) h = (Some (CJSON cJSON_Object 0 0 None None []), h1)" "hub_step h h1"
    using calm_json [OF assms, of cJSON_CreateObject "Some (CJSON cJSON_Object 0 0 None None [])"] by blast
  let ?fs = "[(''childserial'', Inl (auth_sn d)), (''childverifycode'', Inl (auth_mac T d)), (''devAccessMode'', Inr (sd_authm d))]"
  obtain j h2 where 2: "on_world (w_json (add_fields ?fs (Some (CJSON cJSON_Object 0 0 None None [])))) h1 = (j, h2)"
    by (rule prod.exhaust)
  have "hub_step h1 (snd (on_world (w_json (add_fields ?fs (Some (CJSON cJSON_Object 0 0 None None [])))) h1))"
    using add_fields_quiet [of "w_mem (hub_world h1)" ?fs "CJSON cJSON_Object 0 0 None None []"]
    by (intro hub_step_on_world) (auto simp: w_json_def quiet_step_def split: prod.splits)
  then have s2: "hub_step h1 h2" by (simp only: 2 snd_conv)
  obtain ok t h3 where 3: "retried (on_world (cJSON_PrintUnformatted L j)) (\<lambda>t. t \<noteq> None) h2 = ((ok, t), h3)"
    by (metis prod.exhaust)
  have s3: "hub_step h2 h3"
    using hub_step_retried [of "on_world (cJSON_PrintUnformatted L j)" h2 "\<lambda>t. t \<noteq> None", OF hub_step_print]
    by (simp only: 3 snd_conv)
  obtain rv h4 where 4: "(if ok then hub_send_msg_to_platform (the t) kPu2CenPltHubAuthChildDeviceReq 0 0 h3
      else (EZ_HUB_ERR_MEMORY, h3)) = (rv, h4)" by (rule prod.exhaust)
  have "hub_step h3 h4" using hub_step_message [of h3 "the t" kPu2CenPltHubAuthChildDeviceReq 0 0] 4 by (auto split: if_splits)
  moreover have "hub_step h4 (upd_hw (\<lambda>w. w_json_delete j (if t \<noteq> None then w_free w else w)) h4)"
    by (cases "t = None") (auto intro!: hub_step_upd_hw quiet_then(1,3))
  ultimately have "hub_step h (upd_hw (\<lambda>w. w_json_delete j (if t \<noteq> None then w_free w else w)) h4)"
    using 1(2) s2 s3 by (blast intro: hub_step_trans)
  moreover have "hub_subdev_auth_do L T d h = (rv, upd_hw (\<lambda>w. w_json_delete j (if t \<noteq> None then w_free w else w)) h4)"
    by (simp only: hub_subdev_auth_do_def 1(1) prod.case option.distinct if_False 2 3 4)
  ultimately show ?thesis by simp
qed

end
