(* ===== verification/Hub_Docs.thy ===== *)
theory Hub_Docs
  imports Hub_Frame
begin

text \<open>
  The stored form of the sub-device list. A device is an object of eight members; its status is a number when the device was
  added and a boolean once it was updated. The lemmas say what the member functions of \<^verbatim>\<open>hub_func.c\<close> do with such an object, and that
  a list of them survives the round trip through the store.
\<close>

section \<open>Objects of devices\<close>

definition js_num :: "string \<Rightarrow> int \<Rightarrow> cJSON" where
  "js_num nm n = CJSON cJSON_Number n (whole n) None (Some nm) []"

definition js_str :: "string \<Rightarrow> string \<Rightarrow> cJSON" where
  "js_str nm s = CJSON cJSON_String 0 0 (Some s) (Some nm) []"

definition js_bool :: "string \<Rightarrow> bool \<Rightarrow> cJSON" where
  "js_bool nm b = CJSON (if b then cJSON_True else cJSON_False) (of_bool b) 0 None (Some nm) []"

definition js_sta :: "bool \<Rightarrow> int \<Rightarrow> cJSON" where
  "js_sta updated n = (if updated then js_bool ''sta'' (n \<noteq> 0) else js_num ''sta'' n)"

definition dev_json :: "bool \<times> hub_subdev_info_internal_t \<Rightarrow> cJSON" where
  "dev_json e = (case e of (updated, d) \<Rightarrow> CJSON cJSON_Object 0 0 None None
     [js_sta updated (sd_sta d), js_num ''authm'' (sd_authm d), js_str ''type'' (sd_type d), js_str ''sn'' (sd_sn d),
      js_str ''vcode'' (sd_vcode d), js_str ''ver'' (sd_ver d), js_str ''uuid'' (sd_uuid d), js_num ''access'' (sd_access d)])"

definition list_json :: "(bool \<times> hub_subdev_info_internal_t) list \<Rightarrow> cJSON" where
  "list_json es = CJSON cJSON_Array 0 0 None None (map dev_json es)"

definition int8 :: "int \<Rightarrow> bool" where
  "int8 n \<longleftrightarrow> - 128 \<le> n \<and> n < 128"

definition c_string :: "string \<Rightarrow> bool" where
  "c_string s \<longleftrightarrow> CHR 0x00 \<notin> set s"

text \<open>What a structure filled by a caller can hold; a version that was updated may be longer than the field.\<close>

definition dev_ok :: "hub_subdev_info_internal_t \<Rightarrow> bool" where
  "dev_ok d \<longleftrightarrow> int8 (sd_authm d) \<and> int8 (sd_sta d) \<and> int8 (sd_access d) \<and>
     c_string (sd_type d) \<and> c_string (sd_sn d) \<and> c_string (sd_vcode d) \<and> c_string (sd_ver d) \<and> c_string (sd_uuid d) \<and>
     length (sd_type d) \<le> 32 \<and> length (sd_sn d) \<le> 16 \<and> length (sd_vcode d) \<le> 32 \<and> length (sd_uuid d) \<le> 16"

definition entry_ok :: "bool \<times> hub_subdev_info_internal_t \<Rightarrow> bool" where
  "entry_ok e \<longleftrightarrow> dev_ok (snd e) \<and> (fst e \<longrightarrow> sd_sta (snd e) \<in> {0, 1})"

text \<open>A device as it is read: the version is cut to its field.\<close>

definition dev_read :: "hub_subdev_info_internal_t \<Rightarrow> hub_subdev_info_internal_t" where
  "dev_read d = d\<lparr>sd_ver := strncpy (sd_ver d) 32\<rparr>"

lemma dev_read_fields [simp]: "sd_sn (dev_read d) = sd_sn d" "sd_access (dev_read d) = sd_access d"
  by (simp_all add: dev_read_def)

lemmas dev_json_defs = dev_json_def js_sta_def js_num_def js_str_def js_bool_def

section \<open>Members\<close>

lemma to_int8_id: "int8 n \<Longrightarrow> to_int8 n = n"
  by (simp add: int8_def to_int8_def sint_sbintrunc' signed_take_bit_int_eq_self)

lemma subdev_to_json_dev:
  assumes "answers m = []" and "dev_ok d"
  shows "\<exists>m'. subdev_to_json d m = (Some (dev_json (False, d)), m') \<and> answers m' = []"
proof -
  have "int8 (sd_sta d)" "int8 (sd_authm d)" "int8 (sd_access d)" using assms(2) by (simp_all add: dev_ok_def)
  then show ?thesis
    using assms(1)
    by (simp add: subdev_to_json_def subdev_fields_def cJSON_CreateObject_def cJSON_AddStringToObject_def cJSON_AddNumberToObject_def
        cJSON_CreateString_def cJSON_CreateNumber_def cJSON_New_Item_def malloc_Nil add_item_to_object_def add_item_to_array_def
        dev_json_defs int8_def)
qed

lemma json_to_subdev_dev:
  assumes "entry_ok e"
  shows "json_to_subdev (dev_json e) = (dev_read (snd e), False)"
proof -
  obtain k d where e: "e = (k, d)" by (rule prod.exhaust)
  have i: "to_int8 (sd_sta d) = sd_sta d" "to_int8 (sd_authm d) = sd_authm d" "to_int8 (sd_access d) = sd_access d"
    using assms by (simp_all add: entry_ok_def dev_ok_def e to_int8_id)
  have t: "to_int8 0 = 0" "to_int8 1 = 1" by (simp_all add: to_int8_id int8_def)
  show ?thesis
    using assms i t
    by (cases k) (auto simp: e json_to_subdev_def dev_json_defs json_int_def json_text_def json_null_text_def cJSON_GetObjectItem_def
        case_insensitive_strcmp_def tolower_def dev_read_def strncpy_def entry_ok_def dev_ok_def)
qed

lemma get_sn_dev [simp]: "cJSON_GetObjectItem (Some (dev_json e)) ''sn'' = Some (js_str ''sn'' (sd_sn (snd e)))"
  by (cases e) (simp add: dev_json_defs cJSON_GetObjectItem_def case_insensitive_strcmp_def tolower_def)

text \<open>A replaced member; \<^verbatim>\<open>canon\<close> is the object as it is read again.\<close>

definition replaced :: "string \<Rightarrow> (mem \<Rightarrow> cJSON option \<times> mem) \<Rightarrow> cJSON \<Rightarrow> mem \<Rightarrow> cJSON \<times> mem" where
  "replaced key create item m = (case create m of (new, m1) \<Rightarrow> cJSON_ReplaceItemInObject item key new m1)"

lemmas replaced_defs = replaced_def cJSON_ReplaceItemInObject_def cJSON_CreateString_def cJSON_CreateBool_def cJSON_CreateNumber_def
  cJSON_New_Item_def malloc_Nil with_child_def dev_json_defs case_insensitive_strcmp_def tolower_def cJSON_Delete_def ezos_frees_def

lemma replace_ver:
  assumes "answers m = []"
  shows "\<exists>m'. replaced ''ver'' (cJSON_CreateString v) (dev_json (k, d)) m = (dev_json (k, d\<lparr>sd_ver := v\<rparr>), m') \<and> answers m' = []"
  using assms by (simp add: replaced_defs)

lemma replace_access:
  assumes "answers m = []"
  shows "\<exists>m'. replaced ''access'' (cJSON_CreateNumber (whole 1)) (dev_json (k, d)) m = (dev_json (k, d\<lparr>sd_access := 1\<rparr>), m') \<and>
    answers m' = []"
  using assms by (simp add: replaced_defs)

text \<open>A boolean is created without its number; reading it again supplies it.\<close>

definition fresh_bool :: "hub_subdev_info_internal_t \<Rightarrow> bool \<Rightarrow> cJSON" where
  "fresh_bool d b = (case dev_json (True, d\<lparr>sd_sta := of_bool b\<rparr>) of CJSON t i f v s cs \<Rightarrow>
     CJSON t i f v s (CJSON (if b then cJSON_True else cJSON_False) 0 0 None (Some ''sta'') [] # tl cs))"

lemma replace_sta:
  assumes "answers m = []"
  shows "\<exists>m'. replaced ''sta'' (cJSON_CreateBool b) (dev_json (k, d)) m = (fresh_bool d b, m') \<and> answers m' = []"
  using assms by (cases k) (simp_all add: replaced_defs fresh_bool_def)

section \<open>The stored list\<close>

lemma dev_json_print:
  assumes "entry_ok e"
  shows "json_ok (dev_json e)" "canon (dev_json e) = dev_json e" "json_depth (dev_json e) = 1" "js_string (dev_json e) = None"
proof -
  obtain k d where e: "e = (k, d)" by (rule prod.exhaust)
  show "json_ok (dev_json e)" using assms
    by (cases k) (auto simp: e dev_json_defs entry_ok_def dev_ok_def int8_def c_string_def c_text_def)
  show "canon (dev_json e) = dev_json e" by (cases k) (simp_all add: e dev_json_defs set_name_def)
  show "json_depth (dev_json e) = 1" by (cases k) (simp_all add: e dev_json_defs)
  show "js_string (dev_json e) = None" by (simp add: e dev_json_defs)
qed

lemma fresh_bool_print:
  assumes "dev_ok d"
  shows "json_ok (fresh_bool d b)" "canon (fresh_bool d b) = dev_json (True, d\<lparr>sd_sta := of_bool b\<rparr>)"
    "json_depth (fresh_bool d b) = 1" "js_string (fresh_bool d b) = None"
proof -
  show "json_ok (fresh_bool d b)"
    using assms by (auto simp: fresh_bool_def dev_json_defs dev_ok_def int8_def c_string_def c_text_def)
  show "canon (fresh_bool d b) = dev_json (True, d\<lparr>sd_sta := of_bool b\<rparr>)" "json_depth (fresh_bool d b) = 1"
    "js_string (fresh_bool d b) = None"
    by (simp_all add: fresh_bool_def dev_json_defs set_name_def)
qed

text \<open>What the list in the store stands for.\<close>

definition stores :: "byte list \<Rightarrow> (bool \<times> hub_subdev_info_internal_t) list \<Rightarrow> bool" where
  "stores text es \<longleftrightarrow> (\<forall>e \<in> set es. entry_ok e) \<and> length text \<le> EZIOT_HUB_LIST_SIZE \<and>
     (if text = [] then es = [] else cjson_parse text = Some (list_json es))"

text \<open>
  Whether the text of a list fits into the buffer it is read with. Each device is counted with the
  longest form of its status: a number takes one character or more, a boolean at most five.
\<close>

definition list_fits :: "hub_subdev_info_internal_t list \<Rightarrow> bool" where
  "list_fits ds \<longleftrightarrow> length (cjson_print (list_json (map (Pair False) ds))) + 4 * length ds \<le> EZIOT_HUB_LIST_SIZE"

definition print_len :: "cJSON \<Rightarrow> nat" where
  "print_len c = length (the (print_value c))"

lemma json_ok_prints: "json_ok c \<Longrightarrow> \<exists>s. print_value c = Some s"
  using parse_print [of c "json_depth c"] by (auto simp: agree_def)

lemma print_items_len:
  "\<forall>c \<in> set cs. p c \<noteq> None \<Longrightarrow>
   \<exists>r. print_items p cs = Some r \<and> length r = (\<Sum>c\<leftarrow>cs. Suc (length (the (p c)))) - 1"
proof (induction p cs rule: print_items.induct)
  case (3 p c d ds)
  then show ?case by fastforce
qed auto

lemma array_len:
  assumes "\<forall>c \<in> set cs. json_ok c"
  shows "length (cjson_print (CJSON cJSON_Array 0 0 None None cs)) = (\<Sum>c\<leftarrow>cs. Suc (print_len c)) - 1 + 2"
  using print_items_len [of cs print_value] json_ok_prints assms
  by (fastforce simp: cjson_print_def print_len_def)

text \<open>Two objects that differ in their first member.\<close>

lemma object_len:
  assumes "json_ok (CJSON cJSON_Object 0 0 None None (x # cs))" "json_ok (CJSON cJSON_Object 0 0 None None (y # cs))" "cs \<noteq> []"
    and "print_member x = Some r" "print_member y = Some q" "length r \<le> length q + 4"
  shows "print_len (CJSON cJSON_Object 0 0 None None (x # cs)) \<le> print_len (CJSON cJSON_Object 0 0 None None (y # cs)) + 4"
proof -
  have v: "print_value (CJSON cJSON_Object 0 0 None None ds) = map_option (\<lambda>r. CHR ''{'' # r @ ''}'') (print_items print_member ds)" for ds
    by (simp add: print_member_def [abs_def])
  obtain z where "print_items print_member cs = Some z"
    using json_ok_prints [OF assms(2)] assms(3,5) by (auto simp: v print_items_Cons simp del: print_value.simps split: option.splits)
  then show ?thesis using assms(3-6) by (simp add: print_len_def v print_items_Cons del: print_value.simps)
qed

lemma dev_json_len:
  assumes "entry_ok (k, d)"
  shows "print_len (dev_json (k, d)) \<le> print_len (dev_json (False, d)) + 4"
proof (cases k)
  case True
  have f: "entry_ok (False, d)" using assms by (simp add: entry_ok_def)
  have i: "int8 (sd_sta d)" using assms by (simp add: entry_ok_def dev_ok_def)
  then have "print_member (js_num ''sta'' (sd_sta d)) =
      Some (print_string_ptr (Some ''sta'') @ CHR '':'' # dec_int (sd_sta d))"
    by (simp add: print_member_def js_num_def print_number_def Let_def int8_def)
  moreover have "print_member (js_bool ''sta'' (sd_sta d \<noteq> 0)) =
      Some (print_string_ptr (Some ''sta'') @ CHR '':'' # (if sd_sta d \<noteq> 0 then ''true'' else ''false''))"
    by (simp add: print_member_def js_bool_def)
  moreover have "1 \<le> length (dec_int (sd_sta d))" by (simp add: Suc_le_eq dec_int_def dec_nat_digits)
  ultimately show ?thesis
    using dev_json_print(1) [OF assms] dev_json_print(1) [OF f] True
    unfolding dev_json_def js_sta_def prod.case if_True if_False
    by (intro object_len) auto
qed simp

text \<open>What is printed for a device that is kept, or for one whose status was just replaced.\<close>

definition prints_dev :: "cJSON \<Rightarrow> bool \<times> hub_subdev_info_internal_t \<Rightarrow> bool" where
  "prints_dev c e \<longleftrightarrow> json_ok c \<and> json_depth c = 1 \<and> js_string c = None \<and> canon c = dev_json e \<and>
     print_len c = print_len (dev_json e)"

lemma prints_dev_json: "entry_ok e \<Longrightarrow> prints_dev (dev_json e) e"
  by (simp add: prints_dev_def dev_json_print)

lemma prints_fresh_bool:
  assumes "dev_ok d"
  shows "prints_dev (fresh_bool d b) (True, d\<lparr>sd_sta := of_bool b\<rparr>)"
proof -
  have "print_value (fresh_bool d b) = print_value (dev_json (True, d\<lparr>sd_sta := of_bool b\<rparr>))"
    by (simp add: fresh_bool_def dev_json_def js_sta_def js_bool_def print_items_Cons)
  then show ?thesis using fresh_bool_print [OF assms] by (simp add: prints_dev_def print_len_def)
qed

lemma list_fits_text:
  assumes "\<forall>e \<in> set es. entry_ok e" "list_all2 prints_dev cs es" "list_fits (map snd es)"
  shows "length (cjson_print (CJSON cJSON_Array 0 0 None None cs)) \<le> EZIOT_HUB_LIST_SIZE"
proof -
  let ?ds = "map (\<lambda>e. dev_json (False, snd e)) es"
  have c: "\<forall>c \<in> set cs. json_ok c" using assms(2) by (auto simp: list_all2_conv_all_nth in_set_conv_nth prints_dev_def)
  have d: "\<forall>c \<in> set ?ds. json_ok c" using assms(1) by (auto intro!: dev_json_print(1) simp: entry_ok_def)
  have "(\<Sum>c\<leftarrow>cs. Suc (print_len c)) \<le> (\<Sum>c\<leftarrow>?ds. Suc (print_len c)) + 4 * length es"
    using assms(2,1)
  proof (induction rule: list_all2_induct)
    case (Cons c cs e es)
    then have "print_len c \<le> print_len (dev_json (False, snd e)) + 4"
      using dev_json_len [of "fst e" "snd e"] by (simp add: prints_dev_def)
    then show ?case using Cons by simp
  qed simp
  moreover have "list_json (map (Pair False) (map snd es)) = CJSON cJSON_Array 0 0 None None ?ds" by (simp add: list_json_def comp_def)
  ultimately show ?thesis using array_len [OF c] array_len [OF d] assms(3) by (simp add: list_fits_def)
qed

lemma stores_print:
  assumes "\<forall>e \<in> set es. entry_ok e" and "list_all2 prints_dev cs es" and "list_fits (map snd es)"
  shows "stores (cjson_print (CJSON cJSON_Array 0 0 None None cs)) es"
proof -
  have "\<forall>c \<in> set cs. json_ok c \<and> json_depth c = 1 \<and> js_string c = None"
    using assms(2) by (auto simp: list_all2_conv_all_nth in_set_conv_nth prints_dev_def)
  moreover have "map canon cs = map dev_json es" using assms(2) by (induction rule: list_all2_induct) (auto simp: prints_dev_def)
  ultimately show ?thesis using assms(1) cj.array_roundtrip [of cs] list_fits_text [OF assms] by (simp add: stores_def list_json_def)
qed

lemma entries_canonical: "\<forall>e \<in> set es. entry_ok e \<Longrightarrow> list_all2 prints_dev (map dev_json es) es"
  by (induction es) (auto simp: prints_dev_json)

section \<open>Search\<close>

definition sn_index :: "string \<Rightarrow> hub_subdev_info_internal_t list \<Rightarrow> nat" where
  "sn_index sn ds = length (takeWhile (\<lambda>d. sd_sn d \<noteq> sn) ds)"

lemma find_loop_dev:
  "find_loop (map dev_json es) (Some sn) i =
     (if sn \<in> sd_sn ` snd ` set es then Some (i + sn_index sn (map snd es)) else None, False)"
  by (induction es arbitrary: i) (auto simp: sn_index_def js_str_def)

lemma size_list_json [simp]: "cJSON_GetArraySize (Some (list_json es)) = length es"
  by (simp add: cJSON_GetArraySize_def list_json_def)

lemma find_dev_list:
  "find_dev_by_sn (list_json es) (Some sn) =
     (if sn \<in> sd_sn ` snd ` set es then Some (sn_index sn (map snd es)) else None, False)"
  by (simp add: find_dev_by_sn_def list_json_def find_loop_dev)

lemma find_dev_first: "find_dev_by_sn (list_json es) None = (if es = [] then None else Some 0, False)"
  by (cases es) (simp_all add: find_dev_by_sn_def list_json_def js_str_def)

lemma sn_index_nth:
  assumes "sn \<in> sd_sn ` set ds"
  shows "sn_index sn ds < length ds" "sd_sn (ds ! sn_index sn ds) = sn"
  using assms by (induction ds) (auto simp: sn_index_def)

end
