(* ===== verification/Hub_Refine.thy ===== *)
theory Hub_Refine
  imports Hub_Docs
begin

text \<open>
  The hub implements a list of devices. The specification is a list of device records with the number of pending
  authentications; the refinement says that each operation, on the JSON text in the store, has the result and the effect of the
  specification, and returns with the lock free and no fault.
\<close>

section \<open>Specification\<close>

datatype hub_op = Op_add ez_subdev_info_t | Op_del string | Op_ver string string | Op_status string bool | Op_passed string | Op_clean

type_synonym hub_spec = "hub_subdev_info_internal_t list \<times> int"

definition spec_update :: "string \<Rightarrow> (hub_subdev_info_internal_t \<Rightarrow> hub_subdev_info_internal_t) \<Rightarrow> hub_spec \<Rightarrow> ez_err \<times> hub_spec" where
  "spec_update sn f s = (case s of (ds, n) \<Rightarrow>
     if sn \<in> sd_sn ` set ds then (EZ_HUB_ERR_SUCC, (ds[sn_index sn ds := f (ds ! sn_index sn ds)], n))
     else (EZ_HUB_ERR_SUBDEV_NOT_FOUND, s))"

definition spec_add :: "ez_subdev_info_t \<Rightarrow> hub_spec \<Rightarrow> ez_err \<times> hub_spec" where
  "spec_add info s = (case s of (ds, n) \<Rightarrow>
     if sd_sn info \<in> sd_sn ` set ds then (EZ_HUB_ERR_SUBDEV_EXISTED, s)
     else if length ds \<ge> COMPONENT_HUB_SUBLIST_MAX then (EZ_HUB_ERR_OUT_OF_RANGE, s)
     else (EZ_HUB_ERR_SUCC, (ds @ [ez_subdev_info_t.extend info (hub_subdev_info_internal_t.fields 0)], n + 1)))"

definition spec_del :: "string \<Rightarrow> hub_spec \<Rightarrow> ez_err \<times> hub_spec" where
  "spec_del sn s = (case s of (ds, n) \<Rightarrow>
     if sn \<in> sd_sn ` set ds then
       (let i = sn_index sn ds in
        (EZ_HUB_ERR_SUCC, (take i ds @ drop (Suc i) ds, if sd_access (ds ! i) = 0 then n - 1 else n)))
     else (EZ_HUB_ERR_SUBDEV_NOT_FOUND, s))"

fun spec_exec :: "hub_op \<Rightarrow> hub_spec \<Rightarrow> ez_err \<times> hub_spec" where
  "spec_exec (Op_add info) s = spec_add info s"
| "spec_exec (Op_del sn) s = spec_del sn s"
| "spec_exec (Op_ver sn v) s = spec_update sn (sd_ver_update (\<lambda>_. v)) s"
| "spec_exec (Op_status sn b) s = spec_update sn (sd_sta_update (\<lambda>_. of_bool b)) s"
| "spec_exec (Op_passed sn) s = spec_update sn (sd_access_update (\<lambda>_. 1)) s"
| "spec_exec Op_clean s = (EZ_HUB_ERR_SUCC, ([], snd s))"

text \<open>The calls that stand for the operations.\<close>

fun hub_exec :: "libs \<Rightarrow> lbs_crypto \<Rightarrow> hub_op \<Rightarrow> hub \<Rightarrow> (ez_err \<times> hub) option" where
  "hub_exec L T (Op_add info) h = ez_iot_hub_add L T (Some info) h"
| "hub_exec L T (Op_del sn) h = ez_iot_hub_del L (Some sn) h"
| "hub_exec L T (Op_ver sn v) h = ez_iot_hub_ver_update L (Some sn) (Some v) h"
| "hub_exec L T (Op_status sn b) h = ez_iot_hub_status_update L (Some sn) b h"
| "hub_exec L T (Op_passed sn) h = hub_subdev_auth_passed L sn h"
| "hub_exec L T Op_clean h = ez_iot_hub_clean L h"

text \<open>Arguments as the interface's structures can hold them.\<close>

fun op_ok :: "hub_op \<Rightarrow> bool" where
  "op_ok (Op_add info) = (dev_ok (ez_subdev_info_t.extend info (hub_subdev_info_internal_t.fields 0)))"
| "op_ok (Op_ver sn v) = c_string v"
| "op_ok _ = True"

definition json_libs :: "libs \<Rightarrow> bool" where
  "json_libs L \<longleftrightarrow> cJSON_Parse (lib_text L) = cjson_parse \<and> cJSON_text (lib_text L) = cjson_print"

definition hub_ready :: "hub \<Rightarrow> bool" where
  "hub_ready h \<longleftrightarrow> calm h \<and> unlocked h \<and> g_phub_cbs h \<and> g_hub_inited h"

definition hub_rep :: "hub \<Rightarrow> hub_spec \<Rightarrow> bool" where
  "hub_rep h s \<longleftrightarrow> hub_ready h \<and> (\<exists>es. stores (hublist h) es \<and> fst s = map snd es) \<and> g_unauth_count h = snd s"

section \<open>Locked sections\<close>

text \<open>The module's state with a new list, count and trace of events.\<close>

definition hub_set :: "byte list \<Rightarrow> int \<Rightarrow> hub_event list \<Rightarrow> hub \<Rightarrow> hub" where
  "hub_set text n evs h = h\<lparr>hublist := text, g_unauth_count := n, hub_events := evs\<rparr>"

lemma hub_set_swap:
  "hub_set text n evs (h\<lparr>hub_world := w\<rparr>) = (hub_set text n evs h)\<lparr>hub_world := w\<rparr>"
  "hub_set text n evs (h\<lparr>hub_locked := b\<rparr>) = (hub_set text n evs h)\<lparr>hub_locked := b\<rparr>"
  by (cases h, simp add: hub_set_def)+

lemma hub_set_fields [simp]:
  "hub_world (hub_set text n evs h) = hub_world h" "hublist (hub_set text n evs h) = text"
  "g_unauth_count (hub_set text n evs h) = n" "hub_events (hub_set text n evs h) = evs"
  "hub_locked (hub_set text n evs h) = hub_locked h" "hub_set text n evs (hub_set text' n' evs' h) = hub_set text n evs h"
  "calm (hub_set text n evs h) = calm h"
  by (simp_all add: hub_set_def calm_def)

lemma hub_step_set:
  "hub_step h g \<Longrightarrow> hub_step (hub_set text n evs h) (hub_set text n evs g)"
  by (auto elim!: hub_stepE simp: hub_set_swap)

lemma hub_set_same [simp]: "hub_set (hublist h) (g_unauth_count h) (hub_events h) h = h"
  by (simp add: hub_set_def)

lemma hub_set_ready [simp]: "hub_ready (hub_set text n evs h) = hub_ready h"
  by (simp add: hub_set_def hub_ready_def calm_def unlocked_def)

lemma locked_change:
  assumes "hub_ready h" and "body (h\<lparr>hub_locked := True\<rparr>) = (e, (l, g))"
    and "hub_step (hub_set text n evs (h\<lparr>hub_locked := True\<rparr>)) g"
  shows "\<exists>h'. hub_lock (\<lambda>h1. hub_done (body h1)) h = Some (e, h') \<and> hub_step (hub_set text n evs h) h'"
proof -
  have u: "g_hlock h = Mutex_live" "\<not> hub_locked h" using assms(1) by (simp_all add: hub_ready_def unlocked_def)
  obtain h' where d: "hub_done (e, (l, g)) = (e, h')" "hub_step (g\<lparr>hub_locked := False\<rparr>) h'" using hub_done_step [of e l g] by blast
  have "hub_step (hub_set text n evs h) (g\<lparr>hub_locked := False\<rparr>)"
    using unlocked_step [of "hub_set text n evs h" g] assms(3) u(2) by (simp add: hub_set_swap)
  with d(2) have "hub_step (hub_set text n evs h) h'" by (rule hub_step_trans [rotated])
  then show ?thesis using assms(2) d(1) by (simp add: hub_lock_free [OF u])
qed

lemma save_list_calm:
  assumes "calm h" and "l_root l = Some t"
  shows "\<exists>g. save_list L (l, h) = (EZ_HUB_ERR_SUCC, (l\<lparr>l_save := True\<rparr>, g)) \<and>
    hub_step (hub_set (cJSON_text (lib_text L) t) (g_unauth_count h) (hub_events h) h) g"
proof -
  let ?t = "cJSON_text (lib_text L) t"
  obtain g where g: "on_world (cJSON_PrintUnformatted L (Some t)) h = (Some ?t, g)" "hub_step h g"
    using calm_print [OF assms(1)] by blast
  have "calm g" using calm_step(1) [OF g(2) assms(1)] .
  then have "kv_list_set ?t g = (0, g\<lparr>hublist := ?t\<rparr>)" by (simp add: kv_list_set_def)
  then have "save_list L (l, h) = (EZ_HUB_ERR_SUCC, (l\<lparr>l_save := True\<rparr>, g\<lparr>hublist := ?t\<rparr>))"
    using g retried_ok [of "on_world (cJSON_PrintUnformatted L (Some t))", OF g(1), of "\<lambda>t. t \<noteq> None"] assms(2)
    by (simp add: save_list_def Let_def retried_def)
  moreover have "g\<lparr>hublist := ?t\<rparr> = hub_set ?t (g_unauth_count h) (hub_events h) g"
    using calm_step(6,8) [OF g(2)] by (simp add: hub_set_def)
  ultimately show ?thesis using hub_step_set [OF g(2)] by simp
qed

lemma stores_get: "stores (hublist h) es \<Longrightarrow> kv_list_get h = hublist h"
  by (simp add: stores_def kv_list_get_def)

lemma stores_parse:
  assumes "json_libs L" "stores (hublist h) es" "hublist h \<noteq> []"
  shows "cJSON_Parse (lib_text L) (kv_list_get h) = Some (list_json es)"
  using assms by (simp add: stores_get json_libs_def) (simp add: stores_def)

lemma open_list_read:
  assumes "json_libs L" "calm h" "stores (hublist h) es"
  shows "open_list L e (no_locals, h) =
    (if hublist h = [] then (e, (no_locals, h))
     else (EZ_HUB_ERR_SUCC, (no_locals\<lparr>l_pbuf := True, l_root := Some (list_json es)\<rparr>,
       upd_hw (w_take (json_blocks (list_json es) + 1)) h)))"
  using read_list_calm [OF assms(2) stores_parse [OF assms(1,3)], of True no_locals] assms(2) by (simp add: open_list_def)

lemma open_list_calm:
  assumes "json_libs L" "calm h" "stores (hublist h) es"
  shows "(hublist h = [] \<and> open_list L e (no_locals, h) = (e, (no_locals, h))) \<or>
    (hublist h \<noteq> [] \<and> (\<exists>g. open_list L e (no_locals, h) =
       (EZ_HUB_ERR_SUCC, (no_locals\<lparr>l_pbuf := True, l_root := Some (list_json es)\<rparr>, g)) \<and> hub_step h g))"
  using open_list_read [OF assms, of e] w_take_step by (cases "hublist h = []") auto

text \<open>Looking up a device under the lock.\<close>

lemma with_subdev_calm:
  fixes act :: "nat \<Rightarrow> cJSON \<Rightarrow> cJSON \<Rightarrow> hub_run \<Rightarrow> ez_err \<times> hub_run"
  assumes "json_libs L" "calm h" "stores (hublist h) es"
  shows "sn \<notin> sd_sn ` set (map snd es) \<Longrightarrow>
      \<exists>l g. with_subdev L sn act (no_locals, h) = (EZ_HUB_ERR_SUBDEV_NOT_FOUND, (l, g)) \<and> hub_step h g"
    and "sn \<in> sd_sn ` set (map snd es) \<Longrightarrow>
      \<exists>l g. with_subdev L sn act (no_locals, h) =
          act (sn_index sn (map snd es)) (list_json es) (dev_json (es ! sn_index sn (map snd es))) (l, g) \<and>
        hub_step h g \<and> l_root l = Some (list_json es)"
proof -
  let ?l = "no_locals\<lparr>l_pbuf := True, l_root := Some (list_json es)\<rparr>"
  consider (none) "hublist h = []" "open_list L EZ_HUB_ERR_SUBDEV_NOT_FOUND (no_locals, h) = (EZ_HUB_ERR_SUBDEV_NOT_FOUND, (no_locals, h))"
    | (some) g where "hublist h \<noteq> []" "open_list L EZ_HUB_ERR_SUBDEV_NOT_FOUND (no_locals, h) = (EZ_HUB_ERR_SUCC, (?l, g))" "hub_step h g"
    using open_list_calm [OF assms, of EZ_HUB_ERR_SUBDEV_NOT_FOUND] by blast
  note cs = this
  show "\<exists>l g. with_subdev L sn act (no_locals, h) = (EZ_HUB_ERR_SUBDEV_NOT_FOUND, (l, g)) \<and> hub_step h g"
    if n: "sn \<notin> sd_sn ` set (map snd es)"
    using cs
  proof cases
    case none
    then show ?thesis by (auto simp: with_subdev_def intro!: exI [of _ no_locals] exI [of _ h])
  next
    case (some g)
    then show ?thesis using n by (auto simp: with_subdev_def find_dev_list Let_def hub_fault_def image_image)
  qed
  show "\<exists>l g. with_subdev L sn act (no_locals, h) =
          act (sn_index sn (map snd es)) (list_json es) (dev_json (es ! sn_index sn (map snd es))) (l, g) \<and>
        hub_step h g \<and> l_root l = Some (list_json es)" if y: "sn \<in> sd_sn ` set (map snd es)"
    using cs
  proof cases
    case none
    then show ?thesis using assms(3) y by (simp add: stores_def)
  next
    case (some g)
    have i: "sn_index sn (map snd es) < length es" using sn_index_nth(1) [OF y] by simp
    then have "cJSON_GetArrayItem (Some (list_json es)) (int (sn_index sn (map snd es))) = Some (dev_json (es ! sn_index sn (map snd es)))"
      by (simp only: GetArrayItem_iff) (simp add: list_json_def cJSON_GetArraySize_def)
    then show ?thesis using some y
      by (intro exI [of _ ?l] exI [of _ g]) (auto simp: with_subdev_def find_dev_list Let_def hub_fault_def image_image)
  qed
qed

section \<open>Operations\<close>

lemma stores_readable: "json_libs L \<Longrightarrow> stores (hublist h) es \<Longrightarrow> readable L h"
proof (cases "hublist h = []")
  case False
  assume "json_libs L" "stores (hublist h) es"
  then show ?thesis
    using stores_parse [of L h es] False by (auto simp: readable_def stores_def list_json_def json_to_subdev_dev split: if_splits)
qed (simp add: readable_def)

lemma rep_after:
  assumes "hub_ready h" "stores text es" "hub_step (hub_set text n evs h) h'"
  shows "hub_rep h' (map snd es, n)" "w_fault (hub_world h') = w_fault (hub_world h)" "hub_events h' = evs"
proof -
  have c: "calm (hub_set text n evs h)" using assms(1) by (simp add: hub_ready_def)
  note s = calm_step [OF assms(3)]
  from s(1) [OF c] s(2-8) assms(1) have "hub_ready h'" by (simp add: hub_ready_def unlocked_def hub_set_def)
  then show "hub_rep h' (map snd es, n)" using assms(2) s(2,6) by (auto simp: hub_rep_def)
  show "w_fault (hub_world h') = w_fault (hub_world h)" "hub_events h' = evs" using s(11) [OF c] s(8) by simp_all
qed

lemma reported:
  assumes "json_libs L" "hub_ready h" "stores text es" "hub_step (hub_set text n evs h) g"
    and "rep = hub_subdev_list_report L \<or> rep = hub_subdev_sta_report L"
  shows "\<exists>h'. then_report rep (Some (e, g)) = Some (e, h') \<and> hub_step (hub_set text n evs h) h'"
proof -
  have "hub_rep g (map snd es, n)" using rep_after(1) [OF assms(2-4)] .
  moreover have "readable L g" using stores_readable [OF assms(1)] assms(3) calm_step(2) [OF assms(4)] by simp
  ultimately have "\<exists>rv h'. rep g = Some (rv, h') \<and> hub_step g h'"
    using list_report_calm [of g L] sta_report_calm [of g L] assms(5) by (auto simp: hub_rep_def hub_ready_def)
  from then_report_calm [of rep g e] this show ?thesis using assms(4) hub_step_trans by blast
qed

lemma replace_save:
  assumes "calm h" and "\<And>m. answers m = [] \<Longrightarrow> \<exists>m'. replaced key create item m = (item', m') \<and> answers m' = []"
  shows "\<exists>l' g. save_list L (replace_member key create i (list_json es) item (l, h)) = (EZ_HUB_ERR_SUCC, (l', g)) \<and>
    l_root l' = Some (CJSON cJSON_Array 0 0 None None ((map dev_json es)[i := item'])) \<and>
    hub_step (hub_set (cJSON_text (lib_text L) (CJSON cJSON_Array 0 0 None None ((map dev_json es)[i := item'])))
      (g_unauth_count h) (hub_events h) h) g"
proof -
  let ?t = "CJSON cJSON_Array 0 0 None None ((map dev_json es)[i := item'])"
  obtain f where f: "on_world (w_json (replaced key create item)) h = (item', f)" "hub_step h f"
    using calm_json [OF assms(1), of "replaced key create item" item'] assms(2) by blast
  have r: "replace_member key create i (list_json es) item (l, h) = (l\<lparr>l_root := Some ?t\<rparr>, f)"
    using f(1) by (simp add: replace_member_def replaced_def [abs_def] with_child_def list_json_def)
  from save_list_calm [OF calm_step(1) [OF f(2) assms(1)], of "l\<lparr>l_root := Some ?t\<rparr>" ?t L] obtain g where
    g: "save_list L (l\<lparr>l_root := Some ?t\<rparr>, f) = (EZ_HUB_ERR_SUCC, (l\<lparr>l_root := Some ?t, l_save := True\<rparr>, g))"
      "hub_step (hub_set (cJSON_text (lib_text L) ?t) (g_unauth_count f) (hub_events f) f) g" by auto
  then show ?thesis
    using hub_step_trans [OF hub_step_set [OF f(2)] g(2)] calm_step(6,8) [OF f(2)] by (simp add: r)
qed

text \<open>The list after the device at position \<^verbatim>\<open>i\<close> was replaced.\<close>

lemma stores_update:
  assumes "stores text es" "entry_ok e'" "prints_dev c e'" "list_fits (map snd (es[i := e']))"
  shows "stores (cjson_print (CJSON cJSON_Array 0 0 None None ((map dev_json es)[i := c]))) (es[i := e'])"
proof (rule stores_print [OF _ _ assms(4)])
  have es: "\<forall>e \<in> set es. entry_ok e" using assms(1) by (simp add: stores_def)
  then show "\<forall>e \<in> set (es[i := e']). entry_ok e" using assms(2) set_update_subset_insert [of es i e'] by blast
  show "list_all2 prints_dev ((map dev_json es)[i := c]) (es[i := e'])"
    using entries_canonical [OF es] assms(3) by (intro list_all2_update_cong) auto
qed

text \<open>An operation that looks up a device, changes and saves the list and reports.\<close>

lemma lookup_op:
  fixes act :: "nat \<Rightarrow> cJSON \<Rightarrow> cJSON \<Rightarrow> hub_run \<Rightarrow> ez_err \<times> hub_run"
  assumes "json_libs L" "hub_ready h" "stores (hublist h) es"
    and "sn \<in> sd_sn ` set (map snd es) \<Longrightarrow> stores text es'"
    and "\<And>l g. sn \<in> sd_sn ` set (map snd es) \<Longrightarrow> calm g \<Longrightarrow> g_unauth_count g = g_unauth_count h \<Longrightarrow> hub_events g = hub_events h \<Longrightarrow>
      g_phub_cbs g \<Longrightarrow> l_root l = Some (list_json es) \<Longrightarrow>
      \<exists>l' f. act (sn_index sn (map snd es)) (list_json es) (dev_json (es ! sn_index sn (map snd es))) (l, g) = (EZ_HUB_ERR_SUCC, (l', f)) \<and>
        hub_step (hub_set text n evs g) f"
    and "rep = hub_subdev_list_report L \<or> rep = hub_subdev_sta_report L"
  shows "\<exists>h'. then_report rep (hub_lock (\<lambda>h1. hub_done (with_subdev L sn act (no_locals, h1))) h) =
      Some (if sn \<in> sd_sn ` set (map snd es) then EZ_HUB_ERR_SUCC else EZ_HUB_ERR_SUBDEV_NOT_FOUND, h') \<and>
    hub_step (if sn \<in> sd_sn ` set (map snd es) then hub_set text n evs h else h) h'"
proof -
  let ?h = "h\<lparr>hub_locked := True\<rparr>" and ?i = "sn_index sn (map snd es)" and ?body = "\<lambda>h1. with_subdev L sn act (no_locals, h1)"
  have c: "calm ?h" "stores (hublist ?h) es" using assms(2,3) by (simp_all add: hub_ready_def calm_def)
  note w = with_subdev_calm [OF assms(1) c, of sn act] and lock = locked_change [OF assms(2), of ?body]
  show ?thesis
  proof (cases "sn \<in> sd_sn ` set (map snd es)")
    case False
    then obtain l g where 1: "?body ?h = (EZ_HUB_ERR_SUBDEV_NOT_FOUND, (l, g))" "hub_step ?h g" using w(1) by blast
    then have "hub_step (hub_set (hublist h) (g_unauth_count h) (hub_events h) ?h) g" using hub_set_same [of ?h] by simp
    from lock [OF 1(1) this] False show ?thesis by (auto simp: then_report_def)
  next
    case True
    obtain l g where 1: "?body ?h = act ?i (list_json es) (dev_json (es ! ?i)) (l, g)" "hub_step ?h g" "l_root l = Some (list_json es)"
      using w(2) [OF True] by blast
    obtain l' f where 2: "?body ?h = (EZ_HUB_ERR_SUCC, (l', f))" "hub_step (hub_set text n evs g) f"
      using assms(5) [OF True calm_step(1) [OF 1(2) c(1)] _ _ _ 1(3)] calm_step(5,6,8) [OF 1(2)] assms(2) 1(1)
      by (auto simp: hub_ready_def)
    from lock [OF 2(1) hub_step_trans [OF hub_step_set [OF 1(2)] 2(2)]] obtain h1 where
      3: "hub_lock (\<lambda>h1. hub_done (?body h1)) h = Some (EZ_HUB_ERR_SUCC, h1)" "hub_step (hub_set text n evs h) h1" by blast
    from reported [OF assms(1,2) assms(4) [OF True] 3(2) assms(6)] True show ?thesis by (simp only: 3(1) if_True)
  qed
qed

lemma rep_update:
  assumes "hub_rep h s" and "fst s = map snd es" and "stores (hublist h) es"
    and "sn \<in> sd_sn ` set (map snd es) \<Longrightarrow> stores text es' \<and> map snd es' = ds'"
    and "r = (if sn \<in> sd_sn ` set (map snd es) then (EZ_HUB_ERR_SUCC, (ds', n)) else (EZ_HUB_ERR_SUBDEV_NOT_FOUND, s))"
    and "hub_step (if sn \<in> sd_sn ` set (map snd es) then hub_set text n evs h else h) h'"
  shows "hub_rep h' (snd r)" "w_fault (hub_world h') = w_fault (hub_world h)"
    "hub_events h' = (if fst r = EZ_HUB_ERR_SUCC then evs else hub_events h)"
proof -
  have h: "hub_ready h" "g_unauth_count h = snd s" using assms(1) by (simp_all add: hub_rep_def)
  note after = rep_after [OF h(1) assms(3), of "snd s" "hub_events h" h'] rep_after [OF h(1), of "text" es' n evs h']
  have u: "hub_set (hublist h) (snd s) (hub_events h) h = h" using hub_set_same [of h] h(2) by simp
  have s: "s = (map snd es, snd s)" using assms(2) by (metis prod.collapse)
  have "hub_rep h' (snd r) \<and> w_fault (hub_world h') = w_fault (hub_world h) \<and>
    hub_events h' = (if fst r = EZ_HUB_ERR_SUCC then evs else hub_events h)"
  proof (cases "sn \<in> sd_sn ` set (map snd es)")
    case True
    then show ?thesis using after(4-6) assms(4-6) by simp
  next
    case False
    then have "hub_step h h'" "r = (EZ_HUB_ERR_SUBDEV_NOT_FOUND, (map snd es, snd s))" using assms(5,6) s by simp_all
    then show ?thesis using after(1-3) u by simp
  qed
  then show "hub_rep h' (snd r)" "w_fault (hub_world h') = w_fault (hub_world h)"
    "hub_events h' = (if fst r = EZ_HUB_ERR_SUCC then evs else hub_events h)" by blast+
qed

text \<open>An operation that replaces a member of one device; \<^verbatim>\<open>cf\<close> is the changed object and \<^verbatim>\<open>ef\<close> what is read of it later.\<close>

lemma update_op:
  fixes act :: "nat \<Rightarrow> cJSON \<Rightarrow> cJSON \<Rightarrow> hub_run \<Rightarrow> ez_err \<times> hub_run"
  assumes "json_libs L" "hub_rep h s" "rep = hub_subdev_list_report L \<or> rep = hub_subdev_sta_report L"
    and create: "\<And>e m. answers m = [] \<Longrightarrow> \<exists>m'. replaced key create (dev_json e) m = (cf e, m') \<and> answers m' = []"
    and keep: "\<And>e. entry_ok e \<Longrightarrow> entry_ok (ef e) \<and> snd (ef e) = f (snd e)"
    and doc: "\<And>e. entry_ok e \<Longrightarrow> prints_dev (cf e) (ef e)"
    and fits: "list_fits (fst (snd (spec_update sn f s)))"
    and act: "\<And>i e es l g. entry_ok e \<Longrightarrow> sd_sn (snd e) = sn \<Longrightarrow> i < length es \<Longrightarrow>
      act i (list_json es) (dev_json e) (l, g) =
        then_ok (save_list L (replace_member key create i (list_json es) (dev_json e) (l, g))) (k i)"
    and after: "\<And>i e es l g. entry_ok e \<Longrightarrow> g_phub_cbs g \<Longrightarrow> i < length es \<Longrightarrow>
      l_root l = Some (CJSON cJSON_Array 0 0 None None ((map dev_json es)[i := cf e])) \<Longrightarrow>
      k i (l, g) = (EZ_HUB_ERR_SUCC, (l, hub_set (hublist g) (g_unauth_count g) (hub_events g @ evs) g))"
  shows "\<exists>h'. then_report rep (hub_lock (\<lambda>h1. hub_done (with_subdev L sn act (no_locals, h1))) h) = Some (fst (spec_update sn f s), h') \<and>
    hub_rep h' (snd (spec_update sn f s)) \<and> w_fault (hub_world h') = w_fault (hub_world h) \<and>
    hub_events h' = hub_events h @ (if sn \<in> sd_sn ` set (fst s) then evs else [])"
proof -
  obtain es where s: "fst s = map snd es" "stores (hublist h) es" and h: "hub_ready h" "g_unauth_count h = snd s"
    using assms(2) by (auto simp: hub_rep_def)
  let ?i = "sn_index sn (map snd es)" and ?P = "sn \<in> sd_sn ` set (map snd es)"
  let ?e = "es ! ?i" let ?t = "CJSON cJSON_Array 0 0 None None ((map dev_json es)[?i := cf ?e])"
  let ?x = "cJSON_text (lib_text L) ?t"
  have e: "entry_ok ?e" "?i < length es" "sd_sn (snd ?e) = sn" if ?P
    using sn_index_nth [OF that] s(2) nth_mem [of ?i es] by (auto simp: stores_def)
  have m: "map snd (es[?i := ef ?e]) = (map snd es)[?i := f (map snd es ! ?i)]" if ?P
    using keep [OF e(1) [OF that]] e(2) [OF that] by (simp add: map_update)
  have r: "spec_update sn f s = (if ?P then (EZ_HUB_ERR_SUCC, ((map snd es)[?i := f (map snd es ! ?i)], snd s))
      else (EZ_HUB_ERR_SUBDEV_NOT_FOUND, s))" using s(1) by (cases s) (simp add: spec_update_def)
  have st: "stores ?x (es[?i := ef ?e])" if ?P
  proof -
    have "list_fits (map snd (es[?i := ef ?e]))" using fits m [OF that] that by (simp only: r if_True snd_conv fst_conv)
    then show ?thesis using stores_update [OF s(2)] keep doc e(1) [OF that] assms(1) by (simp add: json_libs_def)
  qed
  have "\<exists>h'. then_report rep (hub_lock (\<lambda>h1. hub_done (with_subdev L sn act (no_locals, h1))) h) =
      Some (if ?P then EZ_HUB_ERR_SUCC else EZ_HUB_ERR_SUBDEV_NOT_FOUND, h') \<and>
    hub_step (if ?P then hub_set ?x (snd s) (hub_events h @ evs) h else h) h'"
  proof (rule lookup_op [OF assms(1) h(1) s(2) st _ assms(3)])
    fix l g
    assume P: ?P and g: "calm g" "g_unauth_count g = g_unauth_count h" "hub_events g = hub_events h" "g_phub_cbs g"
    from replace_save [OF g(1) create, of L ?i es ?e l] obtain l' f where
      1: "save_list L (replace_member key create ?i (list_json es) (dev_json ?e) (l, g)) = (EZ_HUB_ERR_SUCC, (l', f))"
        "l_root l' = Some ?t" "hub_step (hub_set ?x (g_unauth_count g) (hub_events g) g) f" by blast
    have f: "g_phub_cbs f" "g_unauth_count f = snd s" "hub_events f = hub_events h" "hublist f = ?x"
      using calm_step(2,5,6,8) [OF 1(3)] g(2-4) h(2) by (simp_all add: hub_set_def)
    have "act ?i (list_json es) (dev_json ?e) (l, g) = (EZ_HUB_ERR_SUCC, (l', hub_set ?x (snd s) (hub_events h @ evs) f))"
      using act [OF e(1) [OF P] e(3) [OF P] e(2) [OF P], of l g] after [OF e(1) [OF P] f(1) e(2) [OF P] 1(2)] f by (simp add: 1(1))
    moreover have "hub_step (hub_set ?x (snd s) (hub_events h @ evs) g) (hub_set ?x (snd s) (hub_events h @ evs) f)"
      using hub_step_set [OF 1(3), of ?x "snd s" "hub_events h @ evs"] by simp
    ultimately show "\<exists>l' f. act ?i (list_json es) (dev_json ?e) (l, g) = (EZ_HUB_ERR_SUCC, (l', f)) \<and>
      hub_step (hub_set ?x (snd s) (hub_events h @ evs) g) f" by blast
  qed
  then obtain h' where h': "then_report rep (hub_lock (\<lambda>h1. hub_done (with_subdev L sn act (no_locals, h1))) h) =
      Some (if ?P then EZ_HUB_ERR_SUCC else EZ_HUB_ERR_SUBDEV_NOT_FOUND, h')"
    "hub_step (if ?P then hub_set ?x (snd s) (hub_events h @ evs) h else h) h'" by blast
  have d: "?P \<Longrightarrow> stores ?x (es[?i := ef ?e]) \<and> map snd (es[?i := ef ?e]) = (map snd es)[?i := f (map snd es ! ?i)]" using st m by blast
  from rep_update [OF assms(2) s d r h'(2)] h'(1) r s(1) show ?thesis by auto
qed

definition op_events :: "hub_op \<Rightarrow> hub_spec \<Rightarrow> hub_event list" where
  "op_events op s = (case op of Op_passed sn \<Rightarrow> if sn \<in> sd_sn ` set (fst s) then [Subdev_add_succ sn] else [] | _ \<Rightarrow> [])"

text \<open>The list after the operation can be read again.\<close>

definition op_fits_list :: "hub_op \<Rightarrow> hub_spec \<Rightarrow> bool" where
  "op_fits_list op s \<longleftrightarrow> list_fits (fst (snd (spec_exec op s)))"

definition refines :: "libs \<Rightarrow> lbs_crypto \<Rightarrow> hub_op \<Rightarrow> hub \<Rightarrow> hub_spec \<Rightarrow> bool" where
  "refines L T op h s \<longleftrightarrow> (\<exists>h'. hub_exec L T op h = Some (fst (spec_exec op s), h') \<and> hub_rep h' (snd (spec_exec op s)) \<and>
     w_fault (hub_world h') = w_fault (hub_world h) \<and> hub_events h' = hub_events h @ op_events op s)"

lemma then_ok_same: "then_ok r (\<lambda>s. (EZ_HUB_ERR_SUCC, s)) = r"
  by (cases r) (simp add: then_ok_def)

lemma hub_fault_False [simp]: "hub_fault False s = s"
  by (cases s) (simp add: hub_fault_def)

lemma rep_inited: "hub_rep h s \<Longrightarrow> g_hub_inited h"
  by (simp add: hub_rep_def hub_ready_def)

lemma status_refines:
  assumes "json_libs L" "hub_rep h s" "op_fits_list (Op_status sn b) s"
  shows "refines L T (Op_status sn b) h s"
proof -
  have "\<exists>h'. then_report (hub_subdev_sta_report L) (hub_lock (\<lambda>h1. hub_done (with_subdev L sn (\<lambda>i root item s.
        save_list L (replace_member ''sta'' (cJSON_CreateBool b) i root item s)) (no_locals, h1))) h) =
      Some (fst (spec_update sn (sd_sta_update (\<lambda>_. of_bool b)) s), h') \<and>
    hub_rep h' (snd (spec_update sn (sd_sta_update (\<lambda>_. of_bool b)) s)) \<and> w_fault (hub_world h') = w_fault (hub_world h) \<and>
    hub_events h' = hub_events h @ (if sn \<in> sd_sn ` set (fst s) then [] else [])"
  proof (rule update_op [OF assms(1,2), where cf = "\<lambda>e. fresh_bool (snd e) b" and ef = "\<lambda>e. (True, sd_sta_update (\<lambda>_. of_bool b) (snd e))"
        and key = "''sta''" and create = "cJSON_CreateBool b" and k = "\<lambda>i s. (EZ_HUB_ERR_SUCC, s)"])
    show "\<exists>m'. replaced ''sta'' (cJSON_CreateBool b) (dev_json e) m = (fresh_bool (snd e) b, m') \<and> answers m' = []" if "answers m = []" for e m
      using replace_sta [OF that] by (cases e) simp
    show "prints_dev (fresh_bool (snd e) b) (True, sd_sta_update (\<lambda>_. of_bool b) (snd e))" if "entry_ok e" for e
      using prints_fresh_bool [of "snd e" b] that by (simp add: entry_ok_def)
  qed (use assms(3) in \<open>simp_all add: op_fits_list_def then_ok_same entry_ok_def dev_ok_def int8_def\<close>)
  then show ?thesis
    using rep_inited [OF assms(2)]
    by (simp add: refines_def op_events_def ez_iot_hub_status_update_def hub_checked_def hub_status_update_do_def)
qed

lemma item_after:
  assumes "i < length es"
  shows "cJSON_GetArrayItem (Some (CJSON cJSON_Array 0 0 None None ((map dev_json es)[i := c]))) (int i) = Some c"
  using assms by (simp add: cJSON_GetArrayItem_def get_array_item_nth)

lemma ver_refines:
  assumes "json_libs L" "hub_rep h s" "c_string v" "op_fits_list (Op_ver sn v) s"
  shows "refines L T (Op_ver sn v) h s"
proof -
  let ?f = "sd_ver_update (\<lambda>_. v)" and ?k = "\<lambda>i s3. (EZ_HUB_ERR_SUCC, hub_fault (case cJSON_GetArrayItem (l_root (fst s3)) (int i) of
               None \<Rightarrow> False | Some item' \<Rightarrow> snd (json_to_subdev item')) s3)"
  let ?ef = "\<lambda>e. (fst e, ?f (snd e))"
  have ok: "entry_ok (?ef e)" if "entry_ok e" for e using that assms(3) by (simp add: entry_ok_def dev_ok_def)
  have "\<exists>h'. then_report (hub_subdev_list_report L) (hub_lock (\<lambda>h1. hub_done (with_subdev L sn (\<lambda>i root item s.
        then_ok (save_list L (replace_member ''ver'' (cJSON_CreateString v) i root item (hub_fault (snd (json_to_subdev item)) s))) (?k i))
      (no_locals, h1))) h) = Some (fst (spec_update sn ?f s), h') \<and>
    hub_rep h' (snd (spec_update sn ?f s)) \<and> w_fault (hub_world h') = w_fault (hub_world h) \<and>
    hub_events h' = hub_events h @ (if sn \<in> sd_sn ` set (fst s) then [] else [])"
  proof (rule update_op [OF assms(1,2), where cf = "\<lambda>e. dev_json (?ef e)" and ef = ?ef and key = "''ver''"
        and create = "cJSON_CreateString v" and k = ?k])
    show "\<exists>m'. replaced ''ver'' (cJSON_CreateString v) (dev_json e) m = (dev_json (?ef e), m') \<and> answers m' = []" if "answers m = []" for e m
      using replace_ver [OF that] by (cases e) simp
    fix i e es and l :: hub_locals and g :: hub
    assume "entry_ok e" "i < length es" "l_root l = Some (CJSON cJSON_Array 0 0 None None ((map dev_json es)[i := dev_json (?ef e)]))"
    then show "?k i (l, g) = (EZ_HUB_ERR_SUCC, (l, hub_set (hublist g) (g_unauth_count g) (hub_events g @ []) g))"
      using json_to_subdev_dev [OF ok, of e] by (simp add: item_after)
  qed (use ok assms(4) in \<open>simp_all add: op_fits_list_def prints_dev_json json_to_subdev_dev\<close>)
  then show ?thesis
    using rep_inited [OF assms(2)]
    by (simp add: refines_def op_events_def ez_iot_hub_ver_update_def hub_checked_def hub_ver_update_do_def)
qed

lemma passed_refines:
  assumes "json_libs L" "hub_rep h s" "op_fits_list (Op_passed sn) s"
  shows "refines L T (Op_passed sn) h s"
proof -
  let ?f = "sd_access_update (\<lambda>_. 1)" and ?k = "\<lambda>i s3. (EZ_HUB_ERR_SUCC, (fst s3, recv_event (Subdev_add_succ sn) (snd s3)))"
  let ?ef = "\<lambda>e. (fst e, ?f (snd e))"
  have ok: "entry_ok (?ef e)" if "entry_ok e" for e using that by (simp add: entry_ok_def dev_ok_def int8_def)
  have "\<exists>h'. then_report (hub_subdev_list_report L) (hub_lock (\<lambda>h1. hub_done (with_subdev L sn (\<lambda>i root item s.
        case json_to_subdev item of (d, null_text) \<Rightarrow>
            then_ok (save_list L (replace_member ''access'' (cJSON_CreateNumber (whole 1)) i root item (hub_fault null_text s))) (\<lambda>s3.
              (EZ_HUB_ERR_SUCC, (fst s3, recv_event (Subdev_add_succ (sd_sn d)) (snd s3)))))
      (no_locals, h1))) h) = Some (fst (spec_update sn ?f s), h') \<and>
    hub_rep h' (snd (spec_update sn ?f s)) \<and> w_fault (hub_world h') = w_fault (hub_world h) \<and>
    hub_events h' = hub_events h @ (if sn \<in> sd_sn ` set (fst s) then [Subdev_add_succ sn] else [])"
  proof (rule update_op [OF assms(1,2), where cf = "\<lambda>e. dev_json (?ef e)" and ef = ?ef and key = "''access''"
        and create = "cJSON_CreateNumber (whole 1)" and k = ?k])
    show "\<exists>m'. replaced ''access'' (cJSON_CreateNumber (whole 1)) (dev_json e) m = (dev_json (?ef e), m') \<and> answers m' = []" if "answers m = []" for e m
      using replace_access [OF that] by (cases e) simp
    show "?k i (l, g) = (EZ_HUB_ERR_SUCC, (l, hub_set (hublist g) (g_unauth_count g) (hub_events g @ [Subdev_add_succ sn]) g))"
      if "g_phub_cbs g" for i and l :: hub_locals and g
      using that by (simp add: recv_event_def hub_set_def)
  qed (use ok assms(3) in \<open>simp_all add: op_fits_list_def prints_dev_json json_to_subdev_dev\<close>)
  then show ?thesis by (simp add: refines_def op_events_def hub_subdev_auth_passed_def)
qed

text \<open>Deletion.\<close>

lemma delete_calm:
  assumes "calm h"
  shows "\<exists>g. on_world (w_json (\<lambda>m. cJSON_DeleteItemFromArray (list_json es) i m)) h =
    (list_json (take i es @ drop (Suc i) es), g) \<and> hub_step h g"
  by (rule calm_json [OF assms]) (auto simp: cJSON_DeleteItemFromArray_def with_child_def list_json_def take_map drop_map cJSON_Delete_def
      ezos_frees_def split: option.split)

lemma del_refines:
  assumes "json_libs L" "hub_rep h s" "op_fits_list (Op_del sn) s"
  shows "refines L T (Op_del sn) h s"
proof -
  obtain es where s: "fst s = map snd es" "stores (hublist h) es" and h: "hub_ready h" "g_unauth_count h = snd s"
    using assms(2) by (auto simp: hub_rep_def)
  let ?i = "sn_index sn (map snd es)" and ?P = "sn \<in> sd_sn ` set (map snd es)"
  let ?es = "take ?i es @ drop (Suc ?i) es" and ?n = "if sd_access (map snd es ! ?i) = 0 then snd s - 1 else snd s"
  let ?x = "cJSON_text (lib_text L) (list_json ?es)"
  let ?act = "\<lambda>i root item s. case json_to_subdev item of (d, null_text) \<Rightarrow>
          case on_world (w_json (\<lambda>m. cJSON_DeleteItemFromArray root i m)) (snd (hub_fault null_text s)) of (root', h2) \<Rightarrow>
            then_ok (save_list L ((fst s)\<lparr>l_root := Some root'\<rparr>, h2)) (\<lambda>s3.
              (EZ_HUB_ERR_SUCC, (fst s3, if sd_access d = 0 then count_unauth (- 1) (snd s3) else snd s3)))"
  have es: "\<forall>e \<in> set ?es. entry_ok e" using s(2) by (auto simp: stores_def dest: in_set_takeD in_set_dropD)
  have r: "spec_del sn s = (if ?P then (EZ_HUB_ERR_SUCC, (map snd ?es, ?n)) else (EZ_HUB_ERR_SUBDEV_NOT_FOUND, s))"
    using s(1) by (cases s) (simp add: spec_del_def Let_def take_map drop_map)
  have st: "stores ?x ?es" if ?P
  proof -
    have "list_fits (map snd ?es)" using assms(3) that by (simp only: op_fits_list_def spec_exec.simps r if_True snd_conv fst_conv)
    from stores_print [OF es entries_canonical [OF es] this] show ?thesis using assms(1) by (simp add: json_libs_def list_json_def)
  qed
  have e: "entry_ok (es ! ?i)" "?i < length es" if ?P
    using sn_index_nth [OF that] s(2) nth_mem [of ?i es] by (auto simp: stores_def)
  have "\<exists>h'. then_report (hub_subdev_list_report L) (hub_lock (\<lambda>h1. hub_done (with_subdev L sn ?act (no_locals, h1))) h) =
      Some (if ?P then EZ_HUB_ERR_SUCC else EZ_HUB_ERR_SUBDEV_NOT_FOUND, h') \<and>
    hub_step (if ?P then hub_set ?x ?n (hub_events h) h else h) h'"
  proof (rule lookup_op [OF assms(1) h(1) s(2) st])
    fix l g
    assume P: ?P and g: "calm g" "g_unauth_count g = g_unauth_count h" "hub_events g = hub_events h"
    from delete_calm [OF g(1), of es ?i] obtain f where
      1: "on_world (w_json (\<lambda>m. cJSON_DeleteItemFromArray (list_json es) ?i m)) g = (list_json ?es, f)" "hub_step g f" by blast
    from save_list_calm [OF calm_step(1) [OF 1(2) g(1)], of "l\<lparr>l_root := Some (list_json ?es)\<rparr>" "list_json ?es" L] obtain f' where
      2: "save_list L (l\<lparr>l_root := Some (list_json ?es)\<rparr>, f) = (EZ_HUB_ERR_SUCC, (l\<lparr>l_root := Some (list_json ?es), l_save := True\<rparr>, f'))"
        "hub_step (hub_set ?x (g_unauth_count f) (hub_events f) f) f'" by auto
    note f = calm_step(6,8) [OF 1(2)] g(2,3) h(2) and f' = calm_step(2,6,8) [OF 2(2)]
    let ?g' = "if sd_access (map snd es ! ?i) = 0 then count_unauth (- 1) f' else f'"
    have "?g' = hub_set ?x ?n (hub_events h) f'" using f f' by (simp add: count_unauth_def hub_set_def)
    moreover have "hub_step (hub_set ?x ?n (hub_events h) g) (hub_set ?x ?n (hub_events h) f')"
      using hub_step_trans [OF hub_step_set [OF 1(2), of ?x ?n "hub_events h"]] hub_step_set [OF 2(2), of ?x ?n "hub_events h"]
      by (simp only: hub_set_fields)
    moreover have "?act ?i (list_json es) (dev_json (es ! ?i)) (l, g) =
        (EZ_HUB_ERR_SUCC, (l\<lparr>l_root := Some (list_json ?es), l_save := True\<rparr>, ?g'))"
      using e [OF P] by (simp add: json_to_subdev_dev 1(1) 2(1) dev_read_def)
    ultimately show "\<exists>l' f. ?act ?i (list_json es) (dev_json (es ! ?i)) (l, g) = (EZ_HUB_ERR_SUCC, (l', f)) \<and>
      hub_step (hub_set ?x ?n (hub_events h) g) f"
      by (intro exI [of _ "l\<lparr>l_root := Some (list_json ?es), l_save := True\<rparr>"] exI [of _ ?g'] conjI) (simp_all only:)
  qed simp_all
  then obtain h' where h': "hub_del_do L sn h = Some (if ?P then EZ_HUB_ERR_SUCC else EZ_HUB_ERR_SUBDEV_NOT_FOUND, h')"
    "hub_step (if ?P then hub_set ?x ?n (hub_events h) h else h) h'" unfolding hub_del_do_def by blast
  have d: "?P \<Longrightarrow> stores ?x ?es \<and> map snd ?es = map snd ?es" using st by blast
  from rep_update [OF assms(2) s d r h'(2)] h'(1) r rep_inited [OF assms(2)] show ?thesis
    by (auto simp: refines_def op_events_def ez_iot_hub_del_def hub_checked_def)
qed

text \<open>Addition.\<close>

lemma open_for_add_calm:
  assumes "json_libs L" "calm h" "stores (hublist h) es"
  shows "\<exists>l g. open_for_add L sn (no_locals, h) =
      (if sn \<in> sd_sn ` set (map snd es) then EZ_HUB_ERR_SUBDEV_EXISTED else EZ_HUB_ERR_SUCC, (l, g)) \<and>
    l_root l = Some (list_json es) \<and> hub_step h g"
proof (cases "hublist h = []")
  case True
  then have "es = []" using assms(3) by (simp add: stores_def)
  then show ?thesis using create_array_calm [OF assms(2)] True assms(2) by (auto simp: open_for_add_def list_json_def)
next
  case False
  from read_list_calm [OF assms(2) stores_parse [OF assms(1,3) False], of False no_locals] w_take_step obtain g where
    g: "read_list L False (no_locals, h) = (EZ_HUB_ERR_SUCC, (no_locals\<lparr>l_pbuf := True, l_root := Some (list_json es)\<rparr>, g))" "hub_step h g"
    by blast
  then show ?thesis using False assms(2)
    by (intro exI [of _ "no_locals\<lparr>l_pbuf := True, l_root := Some (list_json es)\<rparr>"] exI [of _ g])
      (auto simp: open_for_add_def find_dev_list image_image)
qed

lemma append_subdev_calm:
  assumes "calm h" "dev_ok d" "l_root l = Some (list_json es)"
  shows "\<exists>l' g. append_subdev d (l, h) =
      (if length es \<ge> COMPONENT_HUB_SUBLIST_MAX then EZ_HUB_ERR_OUT_OF_RANGE else EZ_HUB_ERR_SUCC, (l', g)) \<and> hub_step h g \<and>
    (length es < COMPONENT_HUB_SUBLIST_MAX \<longrightarrow> l_root l' = Some (list_json (es @ [(False, d)])))"
proof (cases "length es \<ge> COMPONENT_HUB_SUBLIST_MAX")
  case True
  then show ?thesis using assms(3) by (auto simp: append_subdev_def cJSON_GetArraySize_def list_json_def)
next
  case False
  obtain g where g: "on_world (w_json (subdev_to_json d)) h = (Some (dev_json (False, d)), g)" "hub_step h g"
    using calm_json [OF assms(1), of "subdev_to_json d" "Some (dev_json (False, d))"] subdev_to_json_dev [OF _ assms(2)] by blast
  have "append_subdev d (l, h) = (EZ_HUB_ERR_SUCC, (l\<lparr>l_root := Some (list_json (es @ [(False, d)]))\<rparr>, g))"
    using False assms(3) retried_ok [of "on_world (w_json (subdev_to_json d))", OF g(1), of "\<lambda>j. j \<noteq> None"]
    by (simp add: append_subdev_def cJSON_GetArraySize_def list_json_def cJSON_AddItemToArray_def add_item_to_array_def)
  then show ?thesis using False g(2) by auto
qed

lemma stores_append:
  assumes "stores text es" "dev_ok d" "list_fits (map snd (es @ [(False, d)]))"
  shows "stores (cjson_print (list_json (es @ [(False, d)]))) (es @ [(False, d)])"
proof -
  have "\<forall>e \<in> set (es @ [(False, d)]). entry_ok e" using assms by (auto simp: stores_def entry_ok_def)
  from stores_print [OF this entries_canonical [OF this] assms(3)] show ?thesis by (simp add: list_json_def)
qed

definition add_fits :: "hub_subdev_info_internal_t \<Rightarrow> (bool \<times> hub_subdev_info_internal_t) list \<Rightarrow> bool" where
  "add_fits d es \<longleftrightarrow> sd_sn d \<notin> sd_sn ` set (map snd es) \<and> length es < COMPONENT_HUB_SUBLIST_MAX"

lemma add_section:
  fixes T :: lbs_crypto
  assumes "json_libs L" "calm h" "stores (hublist h) es" "dev_ok d"
  defines "body \<equiv> then_ok (open_for_add L (sd_sn d) (no_locals, h)) (\<lambda>s1. then_ok (append_subdev d s1) (\<lambda>s2. then_ok (save_list L s2) (\<lambda>s3.
          (EZ_HUB_ERR_SUCC, (fst s3, snd (hub_subdev_auth_do L T d (count_unauth 1 (snd s3))))))))"
  shows "\<exists>l g. body = (if sd_sn d \<in> sd_sn ` set (map snd es) then EZ_HUB_ERR_SUBDEV_EXISTED
        else if length es \<ge> COMPONENT_HUB_SUBLIST_MAX then EZ_HUB_ERR_OUT_OF_RANGE else EZ_HUB_ERR_SUCC, (l, g)) \<and>
      hub_step (if add_fits d es then hub_set (cjson_print (list_json (es @ [(False, d)]))) (g_unauth_count h + 1) (hub_events h) h else h) g"
proof -
  obtain l1 h1 where 1: "open_for_add L (sd_sn d) (no_locals, h) =
      (if sd_sn d \<in> sd_sn ` set (map snd es) then EZ_HUB_ERR_SUBDEV_EXISTED else EZ_HUB_ERR_SUCC, (l1, h1))"
    "l_root l1 = Some (list_json es)" "hub_step h h1" using open_for_add_calm [OF assms(1-3)] by blast
  note c1 = calm_step(1) [OF 1(3) assms(2)]
  obtain l2 h2 where 2: "append_subdev d (l1, h1) =
      (if length es \<ge> COMPONENT_HUB_SUBLIST_MAX then EZ_HUB_ERR_OUT_OF_RANGE else EZ_HUB_ERR_SUCC, (l2, h2))" "hub_step h1 h2"
    "length es < COMPONENT_HUB_SUBLIST_MAX \<longrightarrow> l_root l2 = Some (list_json (es @ [(False, d)]))"
    using append_subdev_calm [OF c1 assms(4) 1(2)] by blast
  have s2: "hub_step h h2" using 1(3) 2(2) by (rule hub_step_trans)
  show ?thesis
  proof (cases "add_fits d es")
    case False
    then show ?thesis using 1 2(1) s2 by (auto simp: body_def add_fits_def)
  next
    case True
    let ?x = "cjson_print (list_json (es @ [(False, d)]))"
    have "l_root l2 = Some (list_json (es @ [(False, d)]))" using 2(3) True by (simp add: add_fits_def)
    from save_list_calm [OF calm_step(1) [OF s2 assms(2)] this, of L] assms(1) obtain h3 where
      3: "save_list L (l2, h2) = (EZ_HUB_ERR_SUCC, (l2\<lparr>l_save := True\<rparr>, h3))"
        "hub_step (hub_set ?x (g_unauth_count h2) (hub_events h2) h2) h3" by (auto simp: json_libs_def)
    let ?n = "g_unauth_count h + 1"
    have "count_unauth 1 h3 = hub_set ?x ?n (hub_events h) h3"
      using calm_step(2,6,8) [OF 3(2)] calm_step(6,8) [OF s2] by (simp add: count_unauth_def hub_set_def)
    moreover have "hub_step (hub_set ?x ?n (hub_events h) h) (hub_set ?x ?n (hub_events h) h3)"
      using hub_step_trans [OF hub_step_set [OF s2, of ?x ?n "hub_events h"]] hub_step_set [OF 3(2), of ?x ?n "hub_events h"]
      by (simp only: hub_set_fields)
    ultimately have s3: "hub_step (hub_set ?x ?n (hub_events h) h) (count_unauth 1 h3)" by simp
    with auth_do_step [of "count_unauth 1 h3" L T d] calm_step(1) [OF s3] assms(2)
    have "hub_step (hub_set ?x ?n (hub_events h) h) (snd (hub_subdev_auth_do L T d (count_unauth 1 h3)))"
      by (auto intro: hub_step_trans)
    moreover have "body = (EZ_HUB_ERR_SUCC, (l2\<lparr>l_save := True\<rparr>, snd (hub_subdev_auth_do L T d (count_unauth 1 h3))))"
      using True by (simp add: body_def 1(1) 2(1) 3(1) add_fits_def)
    ultimately show ?thesis using True by (auto simp: add_fits_def)
  qed
qed

lemma add_refines:
  assumes "json_libs L" "hub_rep h s" "op_ok (Op_add info)" "op_fits_list (Op_add info) s"
  shows "refines L T (Op_add info) h s"
proof -
  let ?d = "ez_subdev_info_t.extend info (hub_subdev_info_internal_t.fields 0)"
  obtain es where s: "fst s = map snd es" "stores (hublist h) es" and h: "hub_ready h" "g_unauth_count h = snd s"
    using assms(2) by (auto simp: hub_rep_def)
  let ?h = "h\<lparr>hub_locked := True\<rparr>" and ?x = "cjson_print (list_json (es @ [(False, ?d)]))"
  let ?text = "if add_fits ?d es then ?x else hublist h" and ?n = "if add_fits ?d es then snd s + 1 else snd s"
  let ?es = "if add_fits ?d es then es @ [(False, ?d)] else es"
  have c: "calm ?h" "stores (hublist ?h) es" "dev_ok ?d" using h s assms(3) by (simp_all add: hub_ready_def calm_def)
  have sn: "sd_sn ?d = sd_sn info" by (simp add: ez_subdev_info_t.extend_def)
  let ?e = "if sd_sn ?d \<in> sd_sn ` set (map snd es) then EZ_HUB_ERR_SUBDEV_EXISTED
        else if length es \<ge> COMPONENT_HUB_SUBLIST_MAX then EZ_HUB_ERR_OUT_OF_RANGE else EZ_HUB_ERR_SUCC"
  have r: "spec_add info s = (?e, (map snd ?es, ?n))"
    using s(1) sn by (cases s) (auto simp: spec_add_def add_fits_def)
  have st: "stores ?text ?es"
  proof (cases "add_fits ?d es")
    case True
    have "list_fits (map snd ?es)" using assms(4) by (simp only: op_fits_list_def spec_exec.simps r snd_conv fst_conv)
    then show ?thesis using stores_append [OF s(2) c(3)] True by simp
  qed (use s(2) in simp)
  let ?body = "\<lambda>h. then_ok (open_for_add L (sd_sn ?d) (no_locals, h)) (\<lambda>s1. then_ok (append_subdev ?d s1) (\<lambda>s2. then_ok (save_list L s2)
      (\<lambda>s3. (EZ_HUB_ERR_SUCC, (fst s3, snd (hub_subdev_auth_do L T ?d (count_unauth 1 (snd s3))))))))"
  obtain l g where b: "?body ?h = (?e, (l, g))"
      "hub_step (if add_fits ?d es then hub_set ?x (g_unauth_count ?h + 1) (hub_events ?h) ?h else ?h) g"
    using add_section [OF assms(1) c, of T] by blast
  have "hub_step (hub_set ?text ?n (hub_events h) ?h) g"
    using b(2) h(2) hub_set_same [of ?h] by (cases "add_fits ?d es") simp_all
  from locked_change [OF h(1), of ?body, OF b(1) this] obtain h' where
    h': "hub_add_do L T ?d h = Some (?e, h')" "hub_step (hub_set ?text ?n (hub_events h) h) h'" unfolding hub_add_do_def by blast
  show ?thesis using r rep_after [OF h(1) st h'(2)] h'(1) rep_inited [OF assms(2)]
    by (simp add: refines_def op_events_def ez_iot_hub_add_def hub_checked_def)
qed

lemma clean_refines:
  assumes "json_libs L" "hub_rep h s"
  shows "refines L T Op_clean h s"
proof -
  have h: "hub_ready h" "g_unauth_count h = snd s" using assms(2) by (auto simp: hub_rep_def)
  then have u: "g_hlock h = Mutex_live" "\<not> hub_locked h" "calm h" "calm (h\<lparr>hub_locked := True\<rparr>)"
    by (simp_all add: hub_ready_def unlocked_def calm_def)
  let ?g = "hub_set [] (snd s) (hub_events h) h"
  have "(h\<lparr>hub_locked := True, hublist := []\<rparr>)\<lparr>hub_locked := False\<rparr> = ?g"
    using u(2) h(2) by (cases h) (simp add: hub_set_def)
  then have c: "hub_clean_do L h = map_option (\<lambda>x. (EZ_HUB_ERR_SUCC, snd x)) (hub_subdev_list_report L ?g)"
    using u(4) by (simp add: hub_clean_do_def hub_lock_free [OF u(1,2)] retried_def kv_list_set_def)
  have st: "stores [] []" by (simp add: stores_def)
  have "hub_ready ?g" "readable L ?g" using h(1) by (simp_all add: readable_def)
  then obtain rv h' where "hub_subdev_list_report L ?g = Some (rv, h')" "hub_step ?g h'"
    using list_report_calm [of ?g L] by (auto simp: hub_ready_def)
  then show ?thesis using rep_after [OF h(1) st] c rep_inited [OF assms(2)]
    by (auto simp: refines_def op_events_def ez_iot_hub_clean_def hub_checked_def)
qed

theorem hub_refines:
  assumes "json_libs L" "hub_rep h s" "op_ok op" "op_fits_list op s"
  shows "refines L T op h s"
  using assms by (cases op) (simp_all add: add_refines del_refines ver_refines status_refines passed_refines clean_refines)

end
