(* ===== verification/Hub_Laws.thy ===== *)
theory Hub_Laws
  imports Hub_Refine
begin

text \<open>
  Consequences of the refinement. The interface \<^verbatim>\<open>device_list\<close> states the refinement law of one operation; inside it the law is
  lifted to histories, with the invariant of the list. Queries and the enumeration read the same list; the retry timer's walk over it
  ends exactly if no device has an empty serial number. A failed clearing of the list keeps the lock for ever.
\<close>

section \<open>Histories\<close>

definition spec_inv :: "hub_spec \<Rightarrow> bool" where
  "spec_inv s \<longleftrightarrow> distinct (map sd_sn (fst s)) \<and> length (fst s) \<le> COMPONENT_HUB_SUBLIST_MAX"

fun spec_run :: "hub_op list \<Rightarrow> hub_spec \<Rightarrow> ez_err list \<times> hub_spec" where
  "spec_run [] s = ([], s)"
| "spec_run (op # ops) s = (case spec_exec op s of (e, s1) \<Rightarrow> case spec_run ops s1 of (es, s2) \<Rightarrow> (e # es, s2))"

text \<open>Every list of the history can be read again.\<close>

fun run_fits :: "hub_op list \<Rightarrow> hub_spec \<Rightarrow> bool" where
  "run_fits [] s = True"
| "run_fits (op # ops) s = (op_fits_list op s \<and> run_fits ops (snd (spec_exec op s)))"

fun exec_run :: "(hub_op \<Rightarrow> 'h \<Rightarrow> (ez_err \<times> 'h) option) \<Rightarrow> hub_op list \<Rightarrow> 'h \<Rightarrow> (ez_err list \<times> 'h) option" where
  "exec_run f [] h = Some ([], h)"
| "exec_run f (op # ops) h =
     (case f op h of None \<Rightarrow> None | Some (e, h1) \<Rightarrow> map_option (\<lambda>(es, h2). (e # es, h2)) (exec_run f ops h1))"

lemma map_sn_update:
  "sd_sn (f (ds ! i)) = sd_sn (ds ! i) \<Longrightarrow> map sd_sn (ds[i := f (ds ! i)]) = map sd_sn ds"
  by (cases "i < length ds") (simp add: map_update list_update_same_conv, simp add: list_update_beyond)

lemma spec_inv_exec: "spec_inv s \<Longrightarrow> spec_inv (snd (spec_exec op s))"
proof -
  assume inv: "spec_inv s"
  obtain ds n where s: "s = (ds, n)" by (rule prod.exhaust)
  have d: "distinct (map sd_sn ds)" "length ds \<le> COMPONENT_HUB_SUBLIST_MAX" using inv by (simp_all add: spec_inv_def s)
  have upd: "spec_inv (snd (spec_update sn f s))" if "\<And>x. sd_sn (f x) = sd_sn x" for sn f
    using d map_sn_update [of f, OF that] by (auto simp: spec_update_def s spec_inv_def)
  show ?thesis
  proof (cases op)
    case (Op_add info)
    then show ?thesis using d by (auto simp: spec_add_def s spec_inv_def ez_subdev_info_t.extend_def)
  next
    case (Op_del sn)
    let ?i = "sn_index sn ds"
    have "map sd_sn (take ?i ds @ drop (Suc ?i) ds) = take ?i (map sd_sn ds) @ drop (Suc ?i) (map sd_sn ds)"
      by (simp add: take_map drop_map)
    moreover have "distinct (take ?i (map sd_sn ds) @ drop (Suc ?i) (map sd_sn ds))"
      using d(1) by (auto simp: distinct_take distinct_drop dest: set_take_disj_set_drop_if_distinct [of _ ?i "Suc ?i"])
    ultimately show ?thesis using Op_del d by (auto simp: spec_del_def s spec_inv_def Let_def)
  qed (use upd in \<open>simp_all add: spec_inv_def\<close>)
qed

lemma spec_inv_run: "spec_inv s \<Longrightarrow> spec_inv (snd (spec_run ops s))"
proof (induction ops arbitrary: s)
  case (Cons op ops)
  obtain e s1 where e: "spec_exec op s = (e, s1)" by (rule prod.exhaust)
  show ?case using Cons.IH [of s1] spec_inv_exec [OF Cons.prems, of op] by (cases "spec_run ops s1") (simp add: e)
qed simp

locale device_list =
  fixes exec :: "hub_op \<Rightarrow> 'h \<Rightarrow> (ez_err \<times> 'h) option" and rep :: "'h \<Rightarrow> hub_spec \<Rightarrow> bool"
  assumes step: "rep h s \<Longrightarrow> op_ok op \<Longrightarrow> op_fits_list op s \<Longrightarrow> \<exists>h'. exec op h = Some (fst (spec_exec op s), h') \<and> rep h' (snd (spec_exec op s))"
begin

lemma history:
  assumes "rep h s" "list_all op_ok ops" "run_fits ops s"
  shows "\<exists>h'. exec_run exec ops h = Some (fst (spec_run ops s), h') \<and> rep h' (snd (spec_run ops s))"
  using assms
proof (induction ops arbitrary: h s)
  case (Cons op ops)
  obtain e s1 where e: "spec_exec op s = (e, s1)" by (rule prod.exhaust)
  obtain es s2 where r: "spec_run ops s1 = (es, s2)" by (rule prod.exhaust)
  from step [OF Cons.prems(1), of op] Cons.prems(2,3) obtain h1 where h1: "exec op h = Some (e, h1)" "rep h1 s1" by (auto simp: e)
  from Cons.IH [OF h1(2)] Cons.prems(2,3) show ?case by (auto simp: e r h1(1))
qed simp

lemma history_inv:
  assumes "rep h s" "spec_inv s" "list_all op_ok ops" "run_fits ops s"
  shows "\<exists>es h' s'. exec_run exec ops h = Some (es, h') \<and> rep h' s' \<and> spec_inv s' \<and> (es, s') = spec_run ops s"
  using history [OF assms(1,3,4)] spec_inv_run [OF assms(2), of ops] by (metis prod.collapse)

end

text \<open>The libraries with the JSON code of this repository.\<close>

definition with_cjson :: "libs \<Rightarrow> libs" where
  "with_cjson L = L\<lparr>lib_text := (lib_text L)\<lparr>cJSON_Parse := cjson_parse, cJSON_text := cjson_print\<rparr>\<rparr>"

lemma json_libs_cjson [simp]: "json_libs (with_cjson L)"
  by (simp add: json_libs_def with_cjson_def)

interpretation hub: device_list "hub_exec (with_cjson L) T" hub_rep
proof unfold_locales
  fix h s op
  assume "hub_rep h s" "op_ok op" "op_fits_list op s"
  from hub_refines [OF json_libs_cjson this, of L T]
  show "\<exists>h'. hub_exec (with_cjson L) T op h = Some (fst (spec_exec op s), h') \<and> hub_rep h' (snd (spec_exec op s))"
    unfolding refines_def by blast
qed

section \<open>Queries\<close>

definition spec_next :: "hub_subdev_info_internal_t list \<Rightarrow> string \<Rightarrow> hub_subdev_info_internal_t option" where
  "spec_next ds sn =
     (if sn = '''' then (if ds = [] then None else Some (ds ! 0))
      else if sn \<in> sd_sn ` set ds \<and> sn_index sn ds + 1 < length ds then Some (ds ! (sn_index sn ds + 1)) else None)"

lemma rep_step: "hub_rep h s \<Longrightarrow> hub_step h h' \<Longrightarrow> hub_rep h' s"
  using calm_step [of h h'] by (auto simp: hub_rep_def hub_ready_def unlocked_def)

text \<open>A locked read of the list: the buffer and the document are given back, and the state is the one before.\<close>

lemma read_refines:
  assumes "json_libs L" "hub_rep h s" "none_code \<noteq> EZ_HUB_ERR_SUCC"
    and "\<And>es. fst s = map snd es \<Longrightarrow> pick (list_json es) = (index, False)"
    and "\<And>i. index = Some i \<Longrightarrow> i < length (fst s)"
  shows "hub_lock (\<lambda>h. hub_done (read_subdev L none_code pick d0 (no_locals, h))) h =
      Some (case index of None \<Rightarrow> (none_code, d0) | Some i \<Rightarrow> (EZ_HUB_ERR_SUCC, dev_read (fst s ! i)), h)"
proof -
  obtain es where s: "fst s = map snd es" "stores (hublist h) es" and h: "hub_ready h" using assms(2) by (auto simp: hub_rep_def)
  have u: "g_hlock h = Mutex_live" "\<not> hub_locked h" using h by (simp_all add: hub_ready_def unlocked_def)
  let ?h = "h\<lparr>hub_locked := True\<rparr>" and ?l = "no_locals\<lparr>l_pbuf := True, l_root := Some (list_json es)\<rparr>"
  let ?r = "case index of None \<Rightarrow> (none_code, d0) | Some i \<Rightarrow> (EZ_HUB_ERR_SUCC, dev_read (fst s ! i))"
  let ?g = "upd_hw (w_take (json_blocks (list_json es) + 1)) ?h"
  have c: "calm ?h" "stores (hublist ?h) es" using h s by (simp_all add: hub_ready_def calm_def)
  have it: "cJSON_GetArrayItem (Some (list_json es)) (int i) = Some (dev_json (es ! i))"
      "json_to_subdev (dev_json (es ! i)) = (dev_read (snd (es ! i)), False)" "i < length es" if "index = Some i" for i
    using assms(5) [OF that] s nth_mem [of i es]
    by (auto simp: stores_def json_to_subdev_dev cJSON_GetArrayItem_def list_json_def get_array_item_nth)
  note o = open_list_read [OF assms(1) c, of none_code]
  show ?thesis
  proof (cases "hublist h = []")
    case True
    then have "index = None" using s it(3) by (cases index) (auto simp: stores_def)
    then have "read_subdev L none_code pick d0 (no_locals, ?h) = (?r, (no_locals, ?h))"
      using o True assms(3) by (simp add: read_subdev_def)
    moreover have "hub_done (?r, (no_locals, ?h)) = (?r, h)"
      using u(2) by (cases h) (simp add: hub_done_def no_locals_def upd_hw_def w_json_delete_def cJSON_Delete_def)
    ultimately show ?thesis by (simp add: hub_lock_free [OF u])
  next
    case False
    then have "open_list L none_code (no_locals, ?h) = (EZ_HUB_ERR_SUCC, (?l, ?g))" using o by simp
    then have "read_subdev L none_code pick d0 (no_locals, ?h) = (?r, (?l, ?g))"
      using it assms(4) [OF s(1)] s(1) by (cases index) (simp_all add: read_subdev_def Let_def)
    then show ?thesis using hub_done_read [OF u(2) refl] by (simp add: hub_lock_free [OF u])
  qed
qed

lemma query_refines:
  assumes "json_libs L" "hub_rep h s"
  shows "hub_subdev_query L sn d0 h =
      Some (if sn \<in> sd_sn ` set (fst s) then (EZ_HUB_ERR_SUCC, dev_read (fst s ! sn_index sn (fst s)))
            else (EZ_HUB_ERR_SUBDEV_NOT_FOUND, d0), h)"
proof -
  let ?ix = "if sn \<in> sd_sn ` set (fst s) then Some (sn_index sn (fst s)) else None"
  have "hub_subdev_query L sn d0 h = Some (case ?ix of None \<Rightarrow> (EZ_HUB_ERR_SUBDEV_NOT_FOUND, d0)
      | Some i \<Rightarrow> (EZ_HUB_ERR_SUCC, dev_read (fst s ! i)), h)"
    unfolding hub_subdev_query_def
    by (rule read_refines [OF assms]) (auto simp: find_dev_list image_image sn_index_nth(1) split: if_splits)
  then show ?thesis by (cases "sn \<in> sd_sn ` set (fst s)") auto
qed

lemma next_refines:
  assumes "json_libs L" "hub_rep h s"
  shows "hub_subdev_next L d0 h =
      Some (case spec_next (fst s) (sd_sn d0) of None \<Rightarrow> (EZ_HUB_ERR_ENUM_END, d0) | Some d \<Rightarrow> (EZ_HUB_ERR_SUCC, dev_read d), h)"
proof -
  let ?sn = "sd_sn d0" and ?ds = "fst s"
  let ?ix = "if ?sn = '''' then (if ?ds = [] then None else Some 0)
    else if ?sn \<in> sd_sn ` set ?ds \<and> sn_index ?sn ?ds + 1 < length ?ds then Some (sn_index ?sn ?ds + 1) else None"
  have "hub_subdev_next L d0 h = Some (case ?ix of None \<Rightarrow> (EZ_HUB_ERR_ENUM_END, d0)
      | Some i \<Rightarrow> (EZ_HUB_ERR_SUCC, dev_read (?ds ! i)), h)"
    unfolding hub_subdev_next_def
    by (rule read_refines [OF assms])
      (auto simp: next_index_def find_dev_list find_dev_first image_image split: if_splits)
  then show ?thesis by (auto simp: spec_next_def split: if_splits)
qed

section \<open>The retry timer\<close>

text \<open>
  The requests for the devices of a list, in its order: one call of \<^verbatim>\<open>hub_subdev_auth_do\<close> for each
  device that is not authenticated, and no other change of the state.
\<close>

definition request_all :: "libs \<Rightarrow> lbs_crypto \<Rightarrow> hub_subdev_info_internal_t list \<Rightarrow> hub \<Rightarrow> hub" where
  "request_all L T ds h = fold (\<lambda>d g. snd (hub_subdev_auth_do L T (dev_read d) g)) (filter (\<lambda>d. sd_access d \<noteq> 1) ds) h"

lemma sn_index_distinct: "distinct (map sd_sn ds) \<Longrightarrow> i < length ds \<Longrightarrow> sn_index (sd_sn (ds ! i)) ds = i"
proof (induction ds arbitrary: i)
  case (Cons d ds)
  then show ?case by (cases i) (auto simp: sn_index_def dest: nth_mem)
qed simp

lemma spec_next_nth:
  assumes "distinct (map sd_sn ds)" "i < length ds" "sd_sn (ds ! i) \<noteq> ''''"
  shows "spec_next ds (sd_sn (ds ! i)) = (if Suc i < length ds then Some (ds ! Suc i) else None)"
  using assms sn_index_distinct [OF assms(1,2)] by (simp add: spec_next_def)

lemma calm_rep: "hub_rep h s \<Longrightarrow> calm h"
  by (simp add: hub_rep_def hub_ready_def)

lemma request_rep:
  assumes "hub_rep h s"
  shows "hub_rep (snd (hub_subdev_auth_do L T d h)) s"
  using rep_step [OF assms auth_do_step [OF calm_rep [OF assms]]] .

lemma retry_loop_requests:
  assumes "json_libs L" "distinct (map sd_sn ds)" "'''' \<notin> sd_sn ` set ds"
  shows "hub_rep h (ds, n) \<Longrightarrow> j \<le> length ds \<Longrightarrow> spec_next ds (sd_sn d) = (if j < length ds then Some (ds ! j) else None) \<Longrightarrow>
    retry_loop L T d h = Some (request_all L T (drop j ds) h)"
proof (induction "length ds - j" arbitrary: j d h)
  case 0
  then show ?case using next_refines [OF assms(1) 0(2), of d] by (simp add: retry_loop.simps request_all_def)
next
  case (Suc x)
  then have j: "j < length ds" by simp
  have g: "hub_subdev_next L d h = Some ((EZ_HUB_ERR_SUCC, dev_read (ds ! j)), h)"
    using next_refines [OF assms(1) Suc(3), of d] Suc(5) j by simp
  let ?g = "if sd_access (ds ! j) = 1 then h else snd (hub_subdev_auth_do L T (dev_read (ds ! j)) h)"
  have g': "hub_rep ?g (ds, n)" using request_rep [OF Suc(3)] Suc(3) by simp
  have sn: "spec_next ds (sd_sn (dev_read (ds ! j))) = (if Suc j < length ds then Some (ds ! Suc j) else None)"
    using spec_next_nth [OF assms(2) j] assms(3) j by (metis dev_read_fields(1) image_eqI nth_mem)
  have "x = length ds - Suc j" "Suc j \<le> length ds" using Suc(2) j by simp_all
  from Suc(1) [OF this(1) g' this(2) sn]
  have "retry_loop L T (dev_read (ds ! j)) ?g = Some (request_all L T (drop (Suc j) ds) ?g)" .
  moreover have "retry_loop L T d h = retry_loop L T (dev_read (ds ! j)) ?g"
    by (subst retry_loop.simps) (simp add: g)
  moreover have "request_all L T (drop j ds) h = request_all L T (drop (Suc j) ds) ?g"
    using Cons_nth_drop_Suc [OF j, symmetric] by (simp add: request_all_def)
  ultimately show ?case by simp
qed

text \<open>
  With an empty serial number in the list the walk starts again whenever it reaches that device. The states of the
  walk: it is at the beginning or at a device before the empty one.
\<close>

definition at_or_before :: "hub_subdev_info_internal_t list \<Rightarrow> string \<Rightarrow> bool" where
  "at_or_before ds sn \<longleftrightarrow> sn = '''' \<or> (\<exists>i < sn_index '''' ds. sn = sd_sn (ds ! i))"

lemma at_or_before_next:
  assumes "distinct (map sd_sn ds)" "'''' \<in> sd_sn ` set ds" "at_or_before ds sn"
  shows "\<exists>d. spec_next ds sn = Some d \<and> at_or_before ds (sd_sn d)"
proof -
  let ?k = "sn_index '''' ds"
  note k = sn_index_nth [OF assms(2)]
  have at: "at_or_before ds (sd_sn (ds ! i))" if "i \<le> ?k" for i
    using that k(2) unfolding at_or_before_def by (cases "i = ?k") (simp, metis le_neq_implies_less)
  show ?thesis
  proof (cases "sn = ''''")
    case True
    then show ?thesis using assms(2) at [of 0] by (auto simp: spec_next_def)
  next
    case False
    then obtain i where i: "i < ?k" "sn = sd_sn (ds ! i)" using assms(3) by (auto simp: at_or_before_def)
    then show ?thesis using spec_next_nth [OF assms(1), of i] False k(1) at [of "Suc i"] by auto
  qed
qed

lemma retry_loop_never:
  assumes "json_libs L" "distinct (map sd_sn ds)" "'''' \<in> sd_sn ` set ds"
    and "retry_loop L T d h = Some h'"
  shows "\<not> (hub_rep h (ds, n) \<and> at_or_before ds (sd_sn d))"
proof -
  let ?P = "\<lambda>L' T d h h'. L' = L \<longrightarrow> \<not> (hub_rep h (ds, n) \<and> at_or_before ds (sd_sn d))"
  have "?P L T d h h'"
  proof (rule retry_loop.raw_induct [where P = ?P, OF _ assms(4)])
    fix loop :: "libs \<Rightarrow> lbs_crypto \<Rightarrow> hub_subdev_info_internal_t \<Rightarrow> hub \<Rightarrow> hub option" and L' T d h r
    assume IH: "\<And>L' T d h r. loop L' T d h = Some r \<Longrightarrow> ?P L' T d h r"
      and body: "(case hub_subdev_next L' d h of None \<Rightarrow> None
        | Some ((rv, d'), h1) \<Rightarrow> if rv \<noteq> EZ_HUB_ERR_SUCC then Some h1
          else if sd_access d' = 1 then loop L' T d' h1 else loop L' T d' (snd (hub_subdev_auth_do L' T d' h1))) = Some r"
    show "?P L' T d h r"
    proof (rule impI, rule notI, elim conjE)
      assume L: "L' = L" and rep: "hub_rep h (ds, n)" and at: "at_or_before ds (sd_sn d)"
      obtain x where x: "spec_next ds (sd_sn d) = Some x" "at_or_before ds (sd_sn x)" using at_or_before_next [OF assms(2,3) at] by blast
      have g: "hub_subdev_next L d h = Some ((EZ_HUB_ERR_SUCC, dev_read x), h)"
        using next_refines [OF assms(1) rep, of d] x(1) by simp
      let ?g = "if sd_access x = 1 then h else snd (hub_subdev_auth_do L T (dev_read x) h)"
      have "hub_rep ?g (ds, n)" using request_rep [OF rep] rep by simp
      moreover have "loop L T (dev_read x) ?g = Some r" using body L by (simp add: g split: if_splits)
      ultimately show False using IH [of L T "dev_read x" ?g r] x(2) by simp
    qed
  qed
  then show ?thesis by simp
qed

lemma retry_timer_requests:
  assumes "json_libs L" "hub_rep h (ds, n)" "distinct (map sd_sn ds)" "0 < n"
  shows "auth_retry_timer_cb L T h = (if '''' \<in> sd_sn ` set ds then None else Some (request_all L T ds h))"
proof -
  have c: "auth_retry_timer_cb L T h = retry_loop L T zero_subdev h"
    using assms(2,4) by (simp add: auth_retry_timer_cb_def hub_rep_def)
  have z: "sd_sn zero_subdev = ''''" by (simp add: zero_subdev_def)
  show ?thesis
  proof (cases "'''' \<in> sd_sn ` set ds")
    case True
    then show ?thesis using retry_loop_never [OF assms(1,3) True, of T zero_subdev h _ n] assms(2)
      by (cases "retry_loop L T zero_subdev h") (auto simp: c z at_or_before_def)
  next
    case False
    have "spec_next ds (sd_sn zero_subdev) = (if 0 < length ds then Some (ds ! 0) else None)"
      by (cases "ds = []") (simp_all add: z spec_next_def)
    then show ?thesis using retry_loop_requests [OF assms(1,3) False assms(2), of 0 zero_subdev T] False by (simp add: c)
  qed
qed

section \<open>A failed clearing\<close>

lemma locked_blocks:
  assumes "hub_locked h" "g_hub_inited h"
  shows "hub_exec L T op h = None" "hub_subdev_query L sn d h = None" "hub_subdev_next L d h = None" "hub_subdev_list_report L h = None"
proof -
  have lock: "hub_lock body h = None" for body :: "hub \<Rightarrow> 'r" using assms(1) by (simp add: hub_lock_def)
  show "hub_exec L T op h = None"
    using assms(2) by (cases op) (simp_all add: ez_iot_hub_add_def ez_iot_hub_del_def ez_iot_hub_ver_update_def ez_iot_hub_status_update_def
        ez_iot_hub_clean_def hub_checked_def hub_add_do_def hub_del_do_def hub_ver_update_do_def hub_status_update_do_def
        hub_subdev_auth_passed_def hub_clean_do_def lock then_report_def)
  show "hub_subdev_query L sn d h = None" "hub_subdev_next L d h = None"
    by (simp_all add: hub_subdev_query_def hub_subdev_next_def lock)
  have "hub_locked (snd (on_world f h))" for f :: "world \<Rightarrow> 'b \<times> world" using assms(1) by (simp add: on_world_def split: prod.split)
  from this [of "w_json cJSON_CreateArray"] show "hub_subdev_list_report L h = None"
    by (auto simp: hub_subdev_list_report_def report_def hub_lock_def split: prod.split)
qed

lemma clean_failure_locks:
  assumes "unlocked h" "g_hub_inited h" "kv_codes h = c # cs" "c \<noteq> 0"
  shows "\<exists>h'. ez_iot_hub_clean L h = Some (EZ_HUB_ERR_STORAGE, h') \<and> hub_locked h' \<and> g_hub_inited h' \<and>
    hublist h' = (if cs = [] \<or> hd cs = 0 then [] else hublist h)"
  using assms
  by (cases cs) (auto simp: ez_iot_hub_clean_def hub_checked_def hub_clean_do_def hub_lock_def unlocked_def retried_def kv_list_set_def
      kv_call_def upd_hw_def faulty_def)

section \<open>Restart\<close>

lemma hub_func_init_world: "hub_func_init cbs h = (rv, h') \<Longrightarrow> hub_world h' = hub_world h"
  by (auto simp: hub_func_init_def Let_def split: list.splits prod.splits if_splits)

lemma load_succ_entries:
  assumes "dom_wf w" "ez_kernel_extend_load (Some x) w = (EZ_CORE_ERR_SUCC, w')" "domain_id x \<noteq> 0"
  shows "dom_wf w'" "x \<in> set (dom_entries w')" "my_state (kernel w') \<in> {Sdk_idle, Sdk_start}"
proof -
  obtain e w1 where e: "extend_load x w = (e, w1)" by (rule prod.exhaust)
  have s: "my_state (kernel w) \<in> {Sdk_idle, Sdk_start}" "e = mkernel_internal_succ" "w' = w1"
    using assms(2) by (auto simp: ez_kernel_extend_load_def e split: if_splits)
  have new: "domain_id x \<notin> domain_id ` set (dom_entries w)" using dreg.load_ready [OF assms(1,3)] e s(2) by auto
  then have "length (dom_entries w) < domains_count w"
    using dreg.load_full [OF assms(1,3) new] dreg.bound [OF assms(1)] e s(2) by (cases "length (dom_entries w) = domains_count w") auto
  from dreg.load_succ [OF assms(1,3) new this] e s(3) show "dom_wf w'" "x \<in> set (dom_entries w')" by auto
  have "kernel w1 = kernel w" using e by (auto simp: extend_load_def split: slot.splits)
  then show "my_state (kernel w') \<in> {Sdk_idle, Sdk_start}" using s by simp
qed

lemma init_loads:
  assumes "dom_wf (hub_world h)" "\<not> g_hub_inited h" "ez_iot_hub_init cbs h = (EZ_HUB_ERR_SUCC, h1)"
  shows "hub_extension \<in> set (dom_entries (hub_world h1))" "dom_wf (hub_world h1)" "g_hub_inited h1"
    "my_state (kernel (hub_world h1)) \<in> {Sdk_idle, Sdk_start}" "\<not> hub_locked h1"
proof -
  obtain rv w where w: "ez_kernel_extend_load (Some hub_extension) (hub_world h) = (rv, w)" by (rule prod.exhaust)
  let ?g = "h\<lparr>hub_world := w\<rparr>"
  obtain rv2 h2 where f: "hub_func_init True ?g = (rv2, h2)" by (rule prod.exhaust)
  have ok: "rv = 0" "rv2 = 0" "h1 = h2\<lparr>g_hub_inited := True\<rparr>"
    using assms(2,3) w f
    by (auto simp: ez_iot_hub_init_def retried_def hub_extern_init_def on_world_def split: if_splits prod.splits)
  have "hub_world h1 = w" using hub_func_init_world [OF f] ok(3) by simp
  moreover have "domain_id hub_extension \<noteq> 0" by (simp add: hub_extension_def)
  ultimately show "hub_extension \<in> set (dom_entries (hub_world h1))" "dom_wf (hub_world h1)"
    "my_state (kernel (hub_world h1)) \<in> {Sdk_idle, Sdk_start}"
    using load_succ_entries [OF assms(1)] w ok(1) by auto
  show "g_hub_inited h1" "\<not> hub_locked h1"
    using ok f by (auto simp: hub_func_init_def Let_def split: list.splits prod.splits if_splits)
qed

text \<open>The module cannot be started a second time, and its functions stay registered while their lock is destroyed.\<close>

lemma restart_refused:
  assumes "dom_wf (hub_world h)" "\<not> g_hub_inited h" "ez_iot_hub_init cbs h = (EZ_HUB_ERR_SUCC, h1)"
    and "ez_iot_hub_deinit h1 = (rv, h2)"
  shows "rv = EZ_HUB_ERR_SUCC" "fst (ez_iot_hub_init (Some True) h2) = EZ_HUB_ERR_INTERNAL"
    "dom_lookup (domain_id hub_extension) (hub_world h2) = Some hub_extension"
    "\<exists>h3. hub_lock body h2 = Some (body h3) \<and> w_fault (hub_world h3)"
proof -
  note i = init_loads [OF assms(1-3)]
  have h2: "rv = EZ_HUB_ERR_SUCC" "h2 = (hub_func_deinit h1)\<lparr>g_hub_inited := False\<rparr>"
    using assms(4) i(3) by (auto simp: ez_iot_hub_deinit_def hub_checked_def retried_def hub_extern_finit_def)
  then have w: "hub_world h2 = hub_world h1" "\<not> g_hub_inited h2" "g_hlock h2 = Mutex_destroyed" "hub_locked h2 = hub_locked h1"
    by (simp_all add: hub_func_deinit_def)
  show "rv = EZ_HUB_ERR_SUCC" by (rule h2(1))
  have d: "domain_id hub_extension \<noteq> 0" by (simp add: hub_extension_def)
  show "dom_lookup (domain_id hub_extension) (hub_world h2) = Some hub_extension"
    using dreg.lookup_iff [OF i(2) d] i(1) w(1) by simp
  have "extend_load hub_extension (hub_world h1) = (mkernel_internal_extend_ready, hub_world h1)"
    using dreg.load_ready [OF i(2) d] i(1) by simp
  then have "ez_kernel_extend_load (Some hub_extension) (hub_world h2) = (EZ_CORE_ERR_GENERAL, hub_world h1)"
    using i(4) w(1) by (auto simp: ez_kernel_extend_load_def hub_extension_def)
  then show "fst (ez_iot_hub_init (Some True) h2) = EZ_HUB_ERR_INTERNAL"
    using w(1,2) by (simp add: ez_iot_hub_init_def retried_def hub_extern_init_def on_world_def split: prod.split)
  show "\<exists>h3. hub_lock body h2 = Some (body h3) \<and> w_fault (hub_world h3)"
    using w(3,4) i(5) by (auto simp: hub_lock_def upd_hw_def faulty_def)
qed

text \<open>A device that was added is found by a query, as it was given.\<close>

lemma sn_index_append: "sd_sn d \<notin> sd_sn ` set ds \<Longrightarrow> sn_index (sd_sn d) (ds @ [d]) = length ds"
  by (induction ds) (auto simp: sn_index_def)

lemma add_then_query:
  assumes "json_libs L" "hub_rep h s" "op_ok (Op_add info)" "op_fits_list (Op_add info) s" "length (sd_ver info) \<le> 32"
    and "ez_iot_hub_add L T (Some info) h = Some (EZ_HUB_ERR_SUCC, h1)"
  shows "\<exists>h2. ez_iot_hub_subdev_query L (Some (sd_sn info)) (Some info0) h1 = Some ((EZ_HUB_ERR_SUCC, Some info), h2)"
proof -
  let ?d = "ez_subdev_info_t.extend info (hub_subdev_info_internal_t.fields 0)"
  obtain ds n where s: "s = (ds, n)" by (rule prod.exhaust)
  have sn: "sd_sn ?d = sd_sn info" "sd_ver ?d = sd_ver info" by (simp_all add: ez_subdev_info_t.extend_def)
  have "spec_add info s = (EZ_HUB_ERR_SUCC, (ds @ [?d], n + 1))" and r: "hub_rep h1 (snd (spec_add info s))"
    using hub_refines [OF assms(1-4), of T] assms(6) by (auto simp: refines_def spec_add_def s split: if_splits)
  then have new: "sd_sn info \<notin> sd_sn ` set ds" and rep: "hub_rep h1 (ds @ [?d], n + 1)"
    by (auto simp: spec_add_def s split: if_splits)
  then have "sn_index (sd_sn info) (ds @ [?d]) = length ds"
    using sn(1) sn_index_append by metis
  moreover have "dev_read ?d = ?d" using assms(5) sn(2) by (simp add: dev_read_def strncpy_def)
  moreover have "ez_subdev_info_t.truncate ?d = info" by (simp add: ez_subdev_info_t.extend_def ez_subdev_info_t.truncate_def)
  ultimately show ?thesis
    using query_refines [OF assms(1) rep, of "sd_sn info" "ez_subdev_info_t.extend info0 (hub_subdev_info_internal_t.fields 0)"]
      sn(1) rep_inited [OF rep]
    by (auto simp: ez_iot_hub_subdev_query_def hub_checked_def copy_out_def)
qed

end
