(* ===== verification/Samples.thy ===== *)
theory Samples
  imports Iot_Core Queue_Heap Lbs_Replies Ez_Timer Hub_Laws "HOL-Library.Code_Target_Nat"
begin

text \<open>
  Concrete inputs on which the properties are instantiated: an empty world before
  initialisation, a started kernel, a crypto library whose cipher is the identity,
  parsers that reject everything, an LBS that always succeeds, a small device
  description and messages, the answers of a platform on which a device with a known
  master key is redirected, and a hub with its sub-devices.
\<close>

section \<open>Parameters\<close>

definition id_tls :: mbedtls where
  "id_tls = \<lparr>aes_setkey_enc = (\<lambda>k. 0), aes_setkey_dec = (\<lambda>k. 0),
     aes_cbc_encrypt = (\<lambda>k iv b. (0, b)), aes_cbc_decrypt = (\<lambda>k iv b. (0, b)),
     gcm_setkey = (\<lambda>k. 0), gcm_crypt_and_tag = (\<lambda>k iv b n. (0, b, replicate n 0)),
     gcm_auth_decrypt = (\<lambda>k iv t b. (0, b))\<rparr>"

definition no_text :: text_parsers where
  "no_text = \<lparr>cJSON_Parse = (\<lambda>b. None), cJSON_text = (\<lambda>j. [123, 125]), ezxml_parse_str = (\<lambda>b n. None)\<rparr>"

definition sample_libs :: libs where
  "sample_libs = \<lparr>lib_tls = id_tls, lib_text = no_text\<rparr>"

definition sample_lbs :: lbs_ops where
  "sample_lbs = \<lparr>createdevid_op = (\<lambda>u w. (mkernel_internal_succ, w)),
     auth_op = (\<lambda>u w. (mkernel_internal_succ, w)),
     refresh_op = (\<lambda>w. (mkernel_internal_succ, w))\<rparr>"

definition sample_kv :: kv_ops where
  "sample_kv = \<lparr>kv_init = 0, kv_raw_get = (\<lambda>k n. (0, [])), kv_raw_set = (\<lambda>k b. 0)\<rparr>"

lemma cbc_ok_id: "cbc_ok id_tls key"
  by (simp add: cbc_ok_def id_tls_def)

lemma lbs_ok_sample: "lbs_ok sample_lbs"
  by (simp add: lbs_ok_def sample_lbs_def lbs_keeps_def parts_kept_refl)

section \<open>Worlds\<close>

definition no_queue :: "'a queue" where
  "no_queue = \<lparr>q_maxsize = 0, q_size = 0, q_elems = [], q_lock = False\<rparr>"

definition zero_world :: world where
  "zero_world = \<lparr>kernel = zero_kernel, q_submsg = no_queue, q_pubmsg = no_queue, q_inner = no_queue,
     q_submsg_v3 = no_queue, q_pubmsg_v3 = no_queue, domains_count = 0, extend_count = 0, domains = [],
     extends = [], event_notice_cb = None, das_transport_seq = 0,
     das = \<lparr>keepAliveInterval = 0, connect_timer = \<lparr>tv_sec = 0, tv_nsec = 0\<rparr>, socket_fd = - 1,
       is_first_session = True, isconnected = False\<rparr>,
     w_mem = \<lparr>answers = [], live = 0\<rparr>, now = \<lparr>tv_sec = 100, tv_nsec = 0\<rparr>, net_answers = [], calls = [],
     net_ops = [], inbox = [], w_fault = False, plat = [], saved_values = []\<rparr>"

definition sample_server :: ez_server_info where
  "sample_server = \<lparr>host = ''lbs'', port = 8666\<rparr>"

definition sample_dev :: ez_dev_info where
  "sample_dev = \<lparr>auth_mode = Sdk_dev_auth_sap, di_type = ''T'', di_subserial = ''S1'', di_verification_code = ''V'',
     di_firmwareversion = ''1'', di_typedisplay = ''T'', di_mac = ''m''\<rparr>"

definition init_world :: world where
  "init_world = snd (ez_kernel_init sample_kv (True, True, True, True, True) sample_server sample_dev (zeros 32)
     (Some 1) zero_world)"

definition sample_extend :: ez_kernel_extend where
  "sample_extend = \<lparr>domain_id = 5, extend_start = Some 10, extend_stop = Some 11, extend_data_route = Some 12,
     extend_event = Some 13, pUser = 0, extend_module_name = ''ota'', extend_module_version = ''1''\<rparr>"

definition sample_extend_v3 :: ez_kernel_extend_v3 where
  "sample_extend_v3 = \<lparr>ext3_module = ''ota'', ext3_data_route = Some 20, ext3_event_route = Some 21\<rparr>"

text \<open>A started kernel with one extension of each kind.\<close>

definition started_world :: world where
  "started_world = snd (ez_kernel_start (snd (ez_kernel_extend_load_v3 (Some sample_extend_v3)
     (snd (ez_kernel_extend_load (Some sample_extend) init_world)))))"

definition sample_pubmsg :: ez_kernel_pubmsg where
  "sample_pubmsg = \<lparr>pub_msg_response = 0, pub_msg_qos = QOS_T1, pub_msg_seq = 0, pub_msg_body = Some [1, 2],
     pub_msg_body_len = 2, pub_msg_domain_id = 5, pub_msg_command_id = 7, pub_externel_ctx = None,
     pub_externel_ctx_len = 0, pub_command_ver = ''v1.0''\<rparr>"

definition sample_pubmsg_v3 :: ez_kernel_pubmsg_v3 where
  "sample_pubmsg_v3 = \<lparr>pub3_msg_response = 0, pub3_msg_qos = QOS_T1, pub3_msg_seq = 0, pub3_msg_body_len = 2,
     pub3_msg_body = Some [1, 2], pub3_resource_id = ''0'', pub3_resource_type = ''Global'', pub3_module = ''ota'',
     pub3_method = ''up'', pub3_msg_type = ''report'', pub3_sub_serial = ''global'', pub3_ext_msg = ''''\<rparr>"

definition sample_submsg :: ez_kernel_submsg where
  "sample_submsg = \<lparr>sub_msg_seq = 1, sub_buf = Some [1], sub_buf_len = 1, sub_msg_domain_id = 5,
     sub_msg_command_id = 9, sub_command_ver = ''v1.0''\<rparr>"

definition zero_core :: core where
  "zero_core = \<lparr>core_world = zero_world, g_running = False, g_is_inited = False, g_main_thread = False,
     g_user_thread = False, g_event_notice_func = None, g_devid = None, app_events = [], kv_open = False\<rparr>"

lemma boot_zero_world: "boot zero_world"
  by (simp add: boot_def zero_world_def queues_wf_def no_queue_def q_wf_def)

lemmas sample_defs = id_tls_def no_text_def sample_libs_def sample_lbs_def sample_kv_def no_queue_def zero_world_def
  sample_server_def sample_dev_def sample_extend_def sample_extend_v3_def sample_pubmsg_def sample_pubmsg_v3_def
  sample_submsg_def zero_core_def

text \<open>The started kernel evaluated once, so that the witnesses need not run it again.\<close>

lemma init_world_fields:
  "my_state (kernel init_world) = Sdk_idle" "dom_entries init_world = []" "domains_count init_world = 8"
  "mod_entries init_world = []" "extend_count init_world = 8" "dom_wf init_world" "mod_wf init_world"
  "access_risk (kernel init_world) = Sdk_no_risk_control"
proof -
  show s: "my_state (kernel init_world) = Sdk_idle" by code_simp
  show "dom_entries init_world = []" by code_simp
  show "domains_count init_world = 8" by code_simp
  show "mod_entries init_world = []" by code_simp
  show "extend_count init_world = 8" by code_simp
  show "dom_wf init_world" by code_simp
  show "mod_wf init_world" by code_simp
  show "access_risk (kernel init_world) = Sdk_no_risk_control" by code_simp
qed

text \<open>It is reached from the zeroed globals by four calls.\<close>

lemma run_to_started: "(api_step L B)\<^sup>*\<^sup>* zero_world started_world"
proof -
  let ?w1 = "snd (ez_kernel_extend_load (Some sample_extend) init_world)"
  let ?w2 = "snd (ez_kernel_extend_load_v3 (Some sample_extend_v3) ?w1)"
  have 1: "api_step L B zero_world init_world"
    unfolding init_world_def
    by (rule api_step.init [where rv = "fst (ez_kernel_init sample_kv (True, True, True, True, True) sample_server
          sample_dev (zeros 32) (Some 1) zero_world)", OF prod.collapse [symmetric]])
  have 2: "api_step L B init_world ?w1" by (rule api_step.load [OF prod.collapse [symmetric]])
  have 3: "api_step L B ?w1 ?w2" by (rule api_step.load_v3 [OF prod.collapse [symmetric]])
  have 4: "api_step L B ?w2 started_world"
    unfolding started_world_def
    by (rule api_step.life [where op = Life_start, unfolded life_run.simps, OF prod.collapse [symmetric]])
  from 1 2 3 4 show ?thesis by (meson rtranclp.rtrancl_into_rtrancl rtranclp.rtrancl_refl)
qed

lemma api_inv_started: "api_inv started_world"
  by (rule api_run_inv [OF lbs_ok_sample run_to_started api_inv_boot [OF boot_zero_world]])

lemma started_world_fields:
  "my_state (kernel started_world) = Sdk_start" "dom_entries started_world = [sample_extend]"
  "mod_entries started_world = [sample_extend_v3]" "domains_count started_world = 8"
  "extend_count started_world = 8" "cnt_state (kernel started_world) = Sdk_cnt_unredirect"
  "q_elems (q_submsg started_world) = []" "q_elems (q_pubmsg started_world) = []"
  "q_elems (q_pubmsg_v3 started_world) = []" "q_elems (q_submsg_v3 started_world) = []"
  "answers (w_mem started_world) = []" "net_answers started_world = []"
proof -
  show "my_state (kernel started_world) = Sdk_start" by code_simp
  show "dom_entries started_world = [sample_extend]" by code_simp
  show "mod_entries started_world = [sample_extend_v3]" by code_simp
  show "domains_count started_world = 8" by code_simp
  show "extend_count started_world = 8" by code_simp
  show "cnt_state (kernel started_world) = Sdk_cnt_unredirect" by code_simp
  show "q_elems (q_submsg started_world) = []" by code_simp
  show "q_elems (q_pubmsg started_world) = []" by code_simp
  show "q_elems (q_pubmsg_v3 started_world) = []" by code_simp
  show "q_elems (q_submsg_v3 started_world) = []" by code_simp
  show "answers (w_mem started_world) = []" by code_simp
  show "net_answers started_world = []" by code_simp
qed

text \<open>The notice of the start is first in its queue.\<close>

lemma started_notice: "map cb_type (q_elems (q_inner started_world)) = [Extend_cb_start]"
  by code_simp

section \<open>Further states\<close>

definition named_world :: world where
  "named_world = upd_kernel (\<lambda>k. k\<lparr>dev_id := 65 # zeros 31, master_key := 66 # zeros 15\<rparr>) zero_world"

definition offline_queue :: "uint16 \<Rightarrow> world" where
  "offline_queue n = started_world\<lparr>q_pubmsg_v3 := \<lparr>q_maxsize = 8, q_size = 1,
     q_elems = [(pubmsg_copy_v3 sample_pubmsg_v3)\<lparr>max_send_count_v3 := n\<rparr>], q_lock = True\<rparr>\<rparr>"

lemma libs_ok_sample: "libs_ok sample_libs key"
  using cbc_ok_id by (simp add: libs_ok_def sample_libs_def no_text_def)

section \<open>A conversation with the load balancer\<close>

definition sample_crypto :: lbs_crypto where
  "sample_crypto = \<lparr>md5 = (\<lambda>b. zeros 16), md_setup_sha256 = 1, pbkdf2_hmac_sha256 = (\<lambda>p s i n. zeros n),
     sha384 = (\<lambda>b. zeros 48), hmac_sha384 = (\<lambda>k b. (0, zeros 48)), ecp_group_load = 0,
     ecdh_make_public = (\<lambda>r i. (0, zeros 98, [])), ecdh_read_public = (\<lambda>b. 0), ecdh_calc_secret = (\<lambda>d q. (0, zeros 48)),
     stack_rnd = \<lparr>rnd_key = [0, 0, 0, 0], rnd_v0 = 0, rnd_v1 = 0\<rparr>, rand_byte = (\<lambda>n. 0)\<rparr>"

definition text_item :: "string \<Rightarrow> string \<Rightarrow> cJSON" where
  "text_item nm v = CJSON cJSON_String 0 0 (Some v) (Some nm) []"

definition number_item :: "string \<Rightarrow> int \<Rightarrow> cJSON" where
  "number_item nm v = CJSON cJSON_Number v 0 None (Some nm) []"

definition das_document :: cJSON where
  "das_document = CJSON cJSON_Object 0 0 None None [text_item ''Type'' ''DAS'',
     CJSON cJSON_Object 0 0 None (Some ''DasInfo'') [number_item ''Port'' 31006, number_item ''UdpPort'' 31007,
       text_item ''Domain'' ''das'', text_item ''ServerID'' ''s1'', text_item ''Address'' ''10.0.0.2'']]"

definition das_libs :: libs where
  "das_libs = \<lparr>lib_tls = id_tls, lib_text = no_text\<lparr>cJSON_Parse := (\<lambda>b. Some das_document)\<rparr>\<rparr>"

text \<open>
  Four random numbers, a socket, the connection, the first request, its reply with the new
  session key, the confirmation, the second request and its reply.
\<close>

definition redirect_answers :: "plat_answer list" where
  "redirect_answers =
     [(1, []), (2, []), (3, []), (4, []), (7, []), (0, []), (0, [10, 0, 0, 1]), (0, []), (1, []), (0, []), (0, [])] @
     [(1, []), (100, []), (1, []), (100, [])] @
     chunks [[0x80], [36], [1, 1, 0, 0] @ [1, 9] @ replicate 16 77 @ replicate 14 14] @
     [(1, []), (100, []), (1, []), (100, [])] @ [(1, []), (100, []), (1, []), (100, [])] @
     chunks [[0xB0], [20], [1, 1, 0, 0] @ replicate 16 16]"

definition redirect_world :: world where
  "redirect_world = zero_world\<lparr>plat := redirect_answers\<rparr>"

text \<open>A transaction that has sent its first packet, and replies to it.\<close>

definition auth_sent :: lbs_affair where
  "auth_sent = zero_affair\<lparr>global_out_packet := ready_packet\<lparr>head_buf := Some [0x1A, 5], var_head_buf := Some [1, 1, 1]\<rparr>,
     global_in_packet := ready_packet\<rparr>"

definition auth_world :: world where
  "auth_world = upd_kernel (\<lambda>k. k\<lparr>dev_cur_auth_type := 1\<rparr>) zero_world"

definition auth_reply :: lbs_affair where
  "auth_reply = auth_sent\<lparr>global_in_packet := ready_packet\<lparr>head_buf := Some [0x2A, 5], var_head_buf := Some [1]\<rparr>\<rparr>"

lemma auth_reply_fields:
  "head_flag (global_out_packet auth_reply) = 1" "head_flag (global_in_packet auth_reply) = 1"
  "first_var (global_in_packet auth_reply) = first_var (global_out_packet auth_reply)"
  "result_code (in_skip 3 auth_reply) = 0" "in_off auth_reply = 0"
proof -
  show "head_flag (global_out_packet auth_reply) = 1" by code_simp
  show "head_flag (global_in_packet auth_reply) = 1" by code_simp
  show "first_var (global_in_packet auth_reply) = first_var (global_out_packet auth_reply)" by code_simp
  show "result_code (in_skip 3 auth_reply) = 0" by code_simp
  show "in_off auth_reply = 0" by code_simp
qed

definition rematch_state :: lbs_state where
  "rematch_state = (auth_sent, zero_world\<lparr>plat := chunks [[0x2A], [5], [0], [1, 2, 0, 0]]\<rparr>)"

definition dev_id_reply :: lbs_affair where
  "dev_id_reply = auth_sent\<lparr>global_in_packet := ready_packet\<lparr>payload_buf :=
     [1, 1, 0, 0] @ replicate 16 0 @ [32] @ replicate 32 65 @ replicate 16 0 @ [16] @ replicate 16 66 @ replicate 48 0\<rparr>\<rparr>"

section \<open>Lists and timers\<close>

text \<open>An empty list over a store in which every node is allocated, and two repeating timers.\<close>

definition sample_nodes :: ez_list_t where
  "sample_nodes = \<lparr>ls_next = None, ls_prev = None, ls_size = 0,
     ls_nodes = (\<lambda>a. Some \<lparr>nd_next = None, nd_prev = None\<rparr>), ls_fault = False\<rparr>"

definition sample_timers :: timers where
  "sample_timers = snd (eztimer_create ''b'' 50 True (Some 2) (snd (eztimer_create ''a'' 1000 True (Some 1) zero_timers)))"

lemma sample_timers_fields:
  "t_thread sample_timers" "t_invalid sample_timers" "t_mutex sample_timers = Mutex_live" "t_calls sample_timers = []"
  "t_list sample_timers = [\<lparr>tm_name = ''a'', tm_id = 1, tm_reload = True, tm_time_out = 1000, tm_count_down = 10, tm_fun = Some 1\<rparr>,
     \<lparr>tm_name = ''b'', tm_id = 2, tm_reload = True, tm_time_out = 50, tm_count_down = 0, tm_fun = Some 2\<rparr>]"
  by code_simp+

section \<open>A hub\<close>

text \<open>The hub module initialised over an idle kernel, a device to add, and the same hub with that device stored.\<close>

definition idle_hub :: hub where
  "idle_hub = \<lparr>hub_world = init_world, hub_timers = zero_timers, hublist = [], kv_codes = [], hub_mutexes = [],
     g_hlock = Mutex_null, hub_locked = False, g_phub_cbs = False, g_auth_timer = 0, g_unauth_count = 0, g_hub_inited = False,
     hub_events = []\<rparr>"

definition sample_hub :: hub where
  "sample_hub = snd (ez_iot_hub_init (Some True) idle_hub)"

definition sample_subdev :: ez_subdev_info_t where
  "sample_subdev = \<lparr>sd_authm = 1, sd_type = ''T1'', sd_sn = ''A1'', sd_vcode = ''v'', sd_ver = ''1.0'', sd_uuid = ''u'', sd_sta = 1\<rparr>"

definition stored_hub :: "string list \<Rightarrow> hub" where
  "stored_hub sns = hub_set (cjson_print (list_json (map (\<lambda>sn. (False,
     ez_subdev_info_t.extend (sample_subdev\<lparr>sd_sn := sn\<rparr>) (hub_subdev_info_internal_t.fields 0))) sns))) (int (length sns)) [] sample_hub"

lemma idle_hub_init: "ez_iot_hub_init (Some True) idle_hub = (EZ_HUB_ERR_SUCC, sample_hub)"
proof -
  have "fst (ez_iot_hub_init (Some True) idle_hub) = EZ_HUB_ERR_SUCC" by code_simp
  then show ?thesis by (simp add: sample_hub_def prod_eq_iff)
qed

lemma sample_hub_ready: "hub_ready sample_hub" "hublist sample_hub = []" "g_unauth_count sample_hub = 0"
  by code_simp+

lemma sample_hub_rep: "hub_rep sample_hub ([], 0)"
  using sample_hub_ready by (simp add: hub_rep_def stores_def)

lemma sample_subdev_fits: "op_fits_list (Op_add sample_subdev) ([], 0)"
  by code_simp

lemma sample_subdev_ok: "op_ok (Op_add sample_subdev)"
  by (simp add: sample_subdev_def dev_ok_def int8_def c_string_def ez_subdev_info_t.extend_def hub_subdev_info_internal_t.fields_def)

lemma stored_hub_rep:
  assumes "\<forall>sn \<in> set sns. length sn \<le> 16 \<and> c_string sn"
    and "list_fits (map (\<lambda>sn. ez_subdev_info_t.extend (sample_subdev\<lparr>sd_sn := sn\<rparr>) (hub_subdev_info_internal_t.fields 0)) sns)"
  shows "hub_rep (stored_hub sns) (map (\<lambda>sn. ez_subdev_info_t.extend (sample_subdev\<lparr>sd_sn := sn\<rparr>)
    (hub_subdev_info_internal_t.fields 0)) sns, int (length sns))"
proof -
  let ?d = "\<lambda>sn. ez_subdev_info_t.extend (sample_subdev\<lparr>sd_sn := sn\<rparr>) (hub_subdev_info_internal_t.fields 0)"
  let ?es = "map (\<lambda>sn. (False, ?d sn)) sns"
  have "\<forall>e \<in> set ?es. entry_ok e"
    using assms(1) by (auto simp: entry_ok_def sample_subdev_def dev_ok_def int8_def c_string_def ez_subdev_info_t.extend_def
        hub_subdev_info_internal_t.fields_def)
  from stores_print [OF this entries_canonical [OF this]] assms(2) have "stores (cjson_print (list_json ?es)) ?es"
    by (simp add: list_json_def comp_def)
  from rep_after(1) [OF sample_hub_ready(1) this, of "int (length sns)" "[]"] show ?thesis
    by (simp add: stored_hub_def comp_def)
qed

lemma stored_hub_samples:
  "hub_rep (stored_hub [''A1'', '''']) (map (\<lambda>sn. ez_subdev_info_t.extend (sample_subdev\<lparr>sd_sn := sn\<rparr>)
      (hub_subdev_info_internal_t.fields 0)) [''A1'', ''''], 2)"
  "hub_rep (stored_hub [''A1'', ''A2'']) (map (\<lambda>sn. ez_subdev_info_t.extend (sample_subdev\<lparr>sd_sn := sn\<rparr>)
      (hub_subdev_info_internal_t.fields 0)) [''A1'', ''A2''], 2)"
proof -
  let ?d = "\<lambda>sn. ez_subdev_info_t.extend (sample_subdev\<lparr>sd_sn := sn\<rparr>) (hub_subdev_info_internal_t.fields 0)"
  have "list_fits (map ?d [''A1'', ''''])" by code_simp
  from stored_hub_rep [OF _ this] show "hub_rep (stored_hub [''A1'', '''']) (map ?d [''A1'', ''''], 2)" by (simp add: c_string_def)
  have "list_fits (map ?d [''A1'', ''A2''])" by code_simp
  from stored_hub_rep [OF _ this] show "hub_rep (stored_hub [''A1'', ''A2'']) (map ?d [''A1'', ''A2''], 2)" by (simp add: c_string_def)
qed

end
