(* ===== verification/Shadow_Tree.thy ===== *)
theory Shadow_Tree
  imports Hub_Func
begin

text \<open>
  The device shadow, first part (\<^verbatim>\<open>ez_iot_bm/shadow\<close>): the state of \<^verbatim>\<open>ez_iot_shadow_core.c\<close>, the five-level
  register of devices, resource types, resource indexes, domains and keys with its searches and insertions,
  and the conversion between typed values and JSON. The lists of the register are those of \<^verbatim>\<open>components/ezlist\<close>; a pointer
  to a node is its position. The union of a typed value holds the member its type selects. A \<^verbatim>\<open>double\<close> is an integer, as
  in the JSON trees.
\<close>

section \<open>Clock\<close>

definition time_isexpired :: "ezos_timespec \<Rightarrow> ezos_timespec \<Rightarrow> bool" where
  "time_isexpired clock assign_timer =
     (let s = tv_sec assign_timer - tv_sec clock;
          n = tv_nsec assign_timer - tv_nsec clock;
          (s', n') = (if n < 0 then (s - 1, n + 1000000000) else (s, n))
      in s' < 0 \<or> (s' = 0 \<and> n' \<le> 0))"

definition time_countdown :: "ezos_timespec \<Rightarrow> int \<Rightarrow> ezos_timespec" where
  "time_countdown clock timeout_ms =
     (let s = timeout_ms div 1000 + tv_sec clock;
          n = (timeout_ms mod 1000) * 1000000 + tv_nsec clock
      in if n \<ge> 1000000000 then \<lparr>tv_sec = s + 1, tv_nsec = n - 1000000000\<rparr> else \<lparr>tv_sec = s, tv_nsec = n\<rparr>)"

definition zero_timer :: ezos_timespec where
  "zero_timer = \<lparr>tv_sec = 0, tv_nsec = 0\<rparr>"

section \<open>State\<close>

datatype ez_shadow_data = Shd_bool int | Shd_int int | Shd_double number | Shd_string "string option"
  | Shd_array "string option" | Shd_object "string option" | Shd_other

record ez_shadow_value =
  shd_length :: uint32
  shd_data :: ez_shadow_data

record ez_shadow_business =
  sb_key :: string
  business2dev :: func_ptr
  business2cloud :: func_ptr

record ez_shadow_res =
  res_dev_serial :: string
  res_res_type :: string
  res_local_index :: int

text \<open>The second argument of the two business callbacks.\<close>

record ez_shadow_param =
  sp_res :: ez_shadow_res
  sp_domain :: string
  sp_key :: string

record node_key =
  nk_key :: string
  nk_cloud2dev :: func_ptr
  nk_dev2cloud :: func_ptr
  nk_stat_ver :: uint32
  nk_need_report :: bool
  nk_msg_seq :: uint32
  nk_json_value :: "cJSON option"
  nk_report_timer :: ezos_timespec

text \<open>The field \<^verbatim>\<open>domain_int\<close> is never set nor read.\<close>

record node_domain =
  nd_prot_ver :: nat
  nd_domain_string :: string
  nd_key_lst :: "node_key list"

record node_index =
  ni_index :: int
  ni_need_sync :: bool
  ni_sync_timer :: ezos_timespec
  ni_retry_count :: uint16
  ni_domain_lst :: "node_domain list"

record node_index_set =
  ns_type :: string
  ns_index_lst :: "node_index list"

record node_dev =
  nv_dev_sn :: string
  nv_type_lst :: "node_index_set list"

type_synonym shadow_modules = "node_dev list"

datatype shadow_core_status = Shadow_status_report | Shadow_status_sync | Shadow_status_chg

datatype ez_sem = Sem_null | Sem_live nat | Sem_destroyed

datatype ez_buf = Buf_null | Buf_live | Buf_freed

datatype shadow_call =
    Sh_notice nat
  | Sh_dev2cloud nat ez_shadow_param
  | Sh_cloud2dev nat ez_shadow_value ez_shadow_param
  | Sh_null

text \<open>
  The globals of the module and the core below it. \<^verbatim>\<open>sh_dev_values\<close> and \<^verbatim>\<open>sh_dev_codes\<close> are what the coming calls of the
  application's callbacks return, \<^verbatim>\<open>sh_plat\<close> whether the coming creations of a semaphore, a mutex or a thread succeed,
  \<^verbatim>\<open>sh_threads\<close> the number of threads running, \<^verbatim>\<open>sh_time\<close> the time of day, \<^verbatim>\<open>sh_calls\<close> the calls made into the application. The
  thread's state is the result of its last pass, whether it waits for the semaphore's signal, and whether the signal came.
\<close>

record shadow =
  sh_world :: world
  g_shaodw_modules :: shadow_modules
  sh_running :: bool
  g_is_online :: bool
  g_sem :: ez_sem
  sh_hlock :: ez_mutex
  g_p2c_buf :: ez_buf
  g_notice_pfunc :: func_ptr
  g_shadow_status :: shadow_core_status
  g_need_reset :: bool
  g_need_report :: bool
  g_need_sync :: bool
  g_shd_is_inited :: bool
  sh_threads :: nat
  sh_proc_result :: int
  sh_waiting :: bool
  sh_signalled :: bool
  sh_time :: int
  sh_plat :: "bool list"
  sh_dev_values :: "(int \<times> ez_shadow_value) list"
  sh_dev_codes :: "int list"
  sh_calls :: "shadow_call list"

abbreviation (input) EZ_SHD_ERR_SUCC :: ez_err where "EZ_SHD_ERR_SUCC \<equiv> 0"
abbreviation (input) EZ_SHD_ERR_NOT_INIT :: ez_err where "EZ_SHD_ERR_NOT_INIT \<equiv> 0x60001"
abbreviation (input) EZ_SHD_ERR_NOT_READY :: ez_err where "EZ_SHD_ERR_NOT_READY \<equiv> 0x60002"
abbreviation (input) EZ_SHD_ERR_PARAM_INVALID :: ez_err where "EZ_SHD_ERR_PARAM_INVALID \<equiv> 0x60003"
abbreviation (input) EZ_SHD_ERR_GENERAL :: ez_err where "EZ_SHD_ERR_GENERAL \<equiv> 0x60004"
abbreviation (input) EZ_SHD_ERR_MEMORY :: ez_err where "EZ_SHD_ERR_MEMORY \<equiv> 0x60005"
abbreviation (input) EZ_SHD_ERR_DEV_NOT_FOUND :: ez_err where "EZ_SHD_ERR_DEV_NOT_FOUND \<equiv> 0x60006"
abbreviation (input) EZ_SHD_ERR_RSCTYPE_NOT_FOUND :: ez_err where "EZ_SHD_ERR_RSCTYPE_NOT_FOUND \<equiv> 0x60007"
abbreviation (input) EZ_SHD_ERR_INDEX_NOT_FOUND :: ez_err where "EZ_SHD_ERR_INDEX_NOT_FOUND \<equiv> 0x60008"
abbreviation (input) EZ_SHD_ERR_DOMAIN_NOT_FOUND :: ez_err where "EZ_SHD_ERR_DOMAIN_NOT_FOUND \<equiv> 0x60009"
abbreviation (input) EZ_SHD_ERR_KEY_NOT_FOUND :: ez_err where "EZ_SHD_ERR_KEY_NOT_FOUND \<equiv> 0x6000a"

abbreviation (input) SHADOW_DEFAULT_NAME :: string where "SHADOW_DEFAULT_NAME \<equiv> ''global''"
abbreviation (input) SHADOW_MODULE_NAME :: string where "SHADOW_MODULE_NAME \<equiv> ''basic''"
abbreviation (input) SHADOW_METHOD_NAME :: string where "SHADOW_METHOD_NAME \<equiv> ''shadow''"

definition CONFIG_EZIOT_SHADOW_FULL_SYNC_RETRY_MAX :: nat where
  "CONFIG_EZIOT_SHADOW_FULL_SYNC_RETRY_MAX = 3"

definition CONFIG_EZIOT_SHADOW_FULL_SYNC_RETRY_INTERVAL :: int where
  "CONFIG_EZIOT_SHADOW_FULL_SYNC_RETRY_INTERVAL = 30"

text \<open>The maximum \<^verbatim>\<open>shadow_core_start\<close> creates its semaphore with.\<close>

definition SEM_MAX :: nat where
  "SEM_MAX = 1"

definition SHADOW_PUSH_BUF_MAX :: nat where
  "SHADOW_PUSH_BUF_MAX = CONFIG_EZIOT_CORE_MESSAGE_SIZE_MAX - 128"

definition upd_sw :: "(world \<Rightarrow> world) \<Rightarrow> shadow \<Rightarrow> shadow" where
  "upd_sw f s = s\<lparr>sh_world := f (sh_world s)\<rparr>"

definition on_shw :: "(world \<Rightarrow> 'r \<times> world) \<Rightarrow> shadow \<Rightarrow> 'r \<times> shadow" where
  "on_shw f s = (case f (sh_world s) of (r, w) \<Rightarrow> (r, s\<lparr>sh_world := w\<rparr>))"

definition sh_call :: "func_ptr \<Rightarrow> (nat \<Rightarrow> shadow_call) \<Rightarrow> shadow \<Rightarrow> shadow" where
  "sh_call f c s = s\<lparr>sh_calls := sh_calls s @ [case f of None \<Rightarrow> Sh_null | Some g \<Rightarrow> c g]\<rparr>"

section \<open>Searches\<close>

text \<open>The loops end with the node that matches or with NULL; the list starts empty when a node is created.\<close>

definition shadow_module_find_dev :: "node_dev list \<Rightarrow> string \<Rightarrow> nat option" where
  "shadow_module_find_dev lst sn = first_index (\<lambda>n. nv_dev_sn n = sn) lst"

definition shadow_module_find_indexs :: "node_index_set list \<Rightarrow> string \<Rightarrow> nat option" where
  "shadow_module_find_indexs lst res_type = first_index (\<lambda>n. ns_type n = res_type) lst"

definition shadow_module_find_index :: "node_index list \<Rightarrow> int \<Rightarrow> nat option" where
  "shadow_module_find_index lst index = first_index (\<lambda>n. ni_index n = index) lst"

definition shadow_module_find_domain :: "node_domain list \<Rightarrow> string \<Rightarrow> nat option" where
  "shadow_module_find_domain lst dom_id = first_index (\<lambda>n. nd_domain_string n = dom_id) lst"

definition shadow_module_find_key :: "node_key list \<Rightarrow> string \<Rightarrow> nat option" where
  "shadow_module_find_key lst key = first_index (\<lambda>n. nk_key n = key) lst"

text \<open>A change through the pointer to the node at a position.\<close>

definition upd_at :: "nat \<Rightarrow> ('a \<Rightarrow> 'a) \<Rightarrow> 'a list \<Rightarrow> 'a list" where
  "upd_at i f xs = (if i < length xs then xs[i := f (xs ! i)] else xs)"

text \<open>
  The searches of \<^verbatim>\<open>shadow_core_propertie_changed\<close>, \<^verbatim>\<open>do_set\<close> and \<^verbatim>\<open>shadow_status_sync_disable\<close>, one after the
  other, with the code of the first function for the level at which the search ends.
\<close>

definition locate_index :: "shadow_modules \<Rightarrow> string \<Rightarrow> string \<Rightarrow> int \<Rightarrow> ez_err + nat \<times> nat \<times> nat" where
  "locate_index ms sn res_type index =
     (case shadow_module_find_dev ms sn of
        None \<Rightarrow> Inl EZ_SHD_ERR_DEV_NOT_FOUND
      | Some d \<Rightarrow>
          (case shadow_module_find_indexs (nv_type_lst (ms ! d)) res_type of
             None \<Rightarrow> Inl EZ_SHD_ERR_RSCTYPE_NOT_FOUND
           | Some t \<Rightarrow>
               (case shadow_module_find_index (ns_index_lst (nv_type_lst (ms ! d) ! t)) index of
                  None \<Rightarrow> Inl EZ_SHD_ERR_INDEX_NOT_FOUND
                | Some i \<Rightarrow> Inr (d, t, i))))"

definition index_at :: "shadow_modules \<Rightarrow> nat \<times> nat \<times> nat \<Rightarrow> node_index" where
  "index_at ms p = (case p of (d, t, i) \<Rightarrow> ns_index_lst (nv_type_lst (ms ! d) ! t) ! i)"

definition upd_index :: "nat \<times> nat \<times> nat \<Rightarrow> (node_index \<Rightarrow> node_index) \<Rightarrow> shadow_modules \<Rightarrow> shadow_modules" where
  "upd_index p f ms = (case p of (d, t, i) \<Rightarrow>
     upd_at d (\<lambda>n. n\<lparr>nv_type_lst := upd_at t (\<lambda>n. n\<lparr>ns_index_lst := upd_at i f (ns_index_lst n)\<rparr>) (nv_type_lst n)\<rparr>) ms)"

definition locate_key :: "shadow_modules \<Rightarrow> string \<Rightarrow> string \<Rightarrow> int \<Rightarrow> string \<Rightarrow> string
    \<Rightarrow> ez_err + (nat \<times> nat \<times> nat) \<times> nat \<times> nat" where
  "locate_key ms sn res_type index dom_id key =
     (case locate_index ms sn res_type index of
        Inl e \<Rightarrow> Inl e
      | Inr p \<Rightarrow>
          (case shadow_module_find_domain (ni_domain_lst (index_at ms p)) dom_id of
             None \<Rightarrow> Inl EZ_SHD_ERR_DOMAIN_NOT_FOUND
           | Some m \<Rightarrow>
               (case shadow_module_find_key (nd_key_lst (ni_domain_lst (index_at ms p) ! m)) key of
                  None \<Rightarrow> Inl EZ_SHD_ERR_KEY_NOT_FOUND
                | Some k \<Rightarrow> Inr (p, m, k))))"

definition key_at :: "shadow_modules \<Rightarrow> (nat \<times> nat \<times> nat) \<times> nat \<times> nat \<Rightarrow> node_key" where
  "key_at ms p = (case p of (q, m, k) \<Rightarrow> nd_key_lst (ni_domain_lst (index_at ms q) ! m) ! k)"

definition upd_domain_key :: "nat \<Rightarrow> nat \<Rightarrow> (node_key \<Rightarrow> node_key) \<Rightarrow> node_index \<Rightarrow> node_index" where
  "upd_domain_key m k f n =
     n\<lparr>ni_domain_lst := upd_at m (\<lambda>d. d\<lparr>nd_key_lst := upd_at k f (nd_key_lst d)\<rparr>) (ni_domain_lst n)\<rparr>"

section \<open>Insertions\<close>

text \<open>An insertion searches once more, then appends a zeroed node; NULL when there is no memory.\<close>

definition add_node :: "nat option \<Rightarrow> 'a \<Rightarrow> 'a list \<Rightarrow> mem \<Rightarrow> (nat option \<times> 'a list) \<times> mem" where
  "add_node found node lst m =
     (case found of
        Some i \<Rightarrow> ((Some i, lst), m)
      | None \<Rightarrow> (case ezos_malloc m of (ok, m1) \<Rightarrow>
          if ok then ((Some (length lst), lst @ [node]), m1) else ((None, lst), m1)))"

definition shadow_module_add_dev :: "node_dev list \<Rightarrow> string \<Rightarrow> mem \<Rightarrow> (nat option \<times> node_dev list) \<times> mem" where
  "shadow_module_add_dev lst sn =
     add_node (shadow_module_find_dev lst sn) \<lparr>nv_dev_sn = strncpy sn 47, nv_type_lst = []\<rparr> lst"

definition shadow_module_add_index_set :: "node_index_set list \<Rightarrow> string \<Rightarrow> mem
    \<Rightarrow> (nat option \<times> node_index_set list) \<times> mem" where
  "shadow_module_add_index_set lst res_type =
     add_node (shadow_module_find_indexs lst res_type)
       \<lparr>ns_type = (if length res_type = 0 then strncpy SHADOW_DEFAULT_NAME 31 else strncpy res_type 31),
        ns_index_lst = []\<rparr> lst"

definition shadow_module_add_index :: "node_index list \<Rightarrow> int \<Rightarrow> mem \<Rightarrow> (nat option \<times> node_index list) \<times> mem" where
  "shadow_module_add_index lst index =
     add_node (shadow_module_find_index lst index)
       \<lparr>ni_index = index, ni_need_sync = True, ni_sync_timer = zero_timer, ni_retry_count = 0, ni_domain_lst = []\<rparr> lst"

definition new_key :: "ez_shadow_business \<Rightarrow> node_key" where
  "new_key b = \<lparr>nk_key = strncpy (sb_key b) 31, nk_cloud2dev = business2dev b, nk_dev2cloud = business2cloud b,
     nk_stat_ver = 0, nk_need_report = True, nk_msg_seq = 0, nk_json_value = None, nk_report_timer = zero_timer\<rparr>"

text \<open>The loop over the properties; a key without memory is skipped.\<close>

fun add_keys :: "ez_shadow_business list \<Rightarrow> node_key list \<Rightarrow> mem \<Rightarrow> node_key list \<times> mem" where
  "add_keys [] ks m = (ks, m)"
| "add_keys (b # bs) ks m =
     (case shadow_module_find_key ks (sb_key b) of
        Some k \<Rightarrow> add_keys bs (upd_at k (\<lambda>n. n\<lparr>nk_cloud2dev := business2dev b, nk_dev2cloud := business2cloud b,
          nk_need_report := True\<rparr>) ks) m
      | None \<Rightarrow> (case ezos_malloc m of (ok, m1) \<Rightarrow> add_keys bs (if ok then ks @ [new_key b] else ks) m1))"

text \<open>
  The properties are an array of which \<^verbatim>\<open>props_num\<close> elements are read; the last component of the result says that it
  ran past the end of the array.
\<close>

definition shadow_module_add_domain :: "node_domain list \<Rightarrow> string option \<Rightarrow> uint16 \<Rightarrow> ez_shadow_business list option
    \<Rightarrow> mem \<Rightarrow> (bool \<times> node_domain list \<times> bool) \<times> mem" where
  "shadow_module_add_domain lst dom_id props_num props m =
     (case (dom_id, props) of
        (Some name, Some bs) \<Rightarrow>
          if props_num = 0 then ((False, lst, False), m)
          else (case add_node (shadow_module_find_domain lst name)
                  \<lparr>nd_prot_ver = 3, nd_domain_string = strncpy name 31, nd_key_lst = []\<rparr> lst m of
              ((None, lst1), m1) \<Rightarrow> ((False, lst1, False), m1)
            | ((Some i, lst1), m1) \<Rightarrow>
                (case add_keys (take (unat props_num) bs) (nd_key_lst (lst1 ! i)) m1 of (ks, m2) \<Rightarrow>
                  ((True, upd_at i (\<lambda>n. n\<lparr>nd_key_lst := ks\<rparr>) lst1, length bs < unat props_num), m2)))
      | _ \<Rightarrow> ((False, lst, False), m))"

section \<open>Values\<close>

definition cJSON_DetachItemFromObject :: "cJSON \<Rightarrow> string \<Rightarrow> cJSON option \<times> cJSON" where
  "cJSON_DetachItemFromObject object name =
     (case object_index (js_child object) name of
        None \<Rightarrow> (None, object)
      | Some i \<Rightarrow> (Some (js_child object ! i),
          with_child (take i (js_child object) @ drop (Suc i) (js_child object)) object))"

text \<open>The children are copied one by one; when one of them fails, what was copied is deleted.\<close>

definition strdup_opt :: "string option \<Rightarrow> mem \<Rightarrow> bool \<times> mem" where
  "strdup_opt s m = (case s of None \<Rightarrow> (True, m) | Some _ \<Rightarrow> ezos_malloc m)"

fun dup_children :: "(cJSON \<Rightarrow> mem \<Rightarrow> cJSON option \<times> mem) \<Rightarrow> cJSON list \<Rightarrow> cJSON list \<Rightarrow> mem
    \<Rightarrow> (bool \<times> cJSON list) \<times> mem" where
  "dup_children dup [] acc m = ((True, acc), m)"
| "dup_children dup (c # cs) acc m =
     (case dup c m of (None, m1) \<Rightarrow> ((False, acc), m1) | (Some c', m1) \<Rightarrow> dup_children dup cs (acc @ [c']) m1)"

lemma dup_children_cong [fundef_cong]:
  "\<lbrakk>cs = cs'; acc = acc'; m = m'; \<And>c m. c \<in> set cs' \<Longrightarrow> dup c m = dup' c m\<rbrakk>
    \<Longrightarrow> dup_children dup cs acc m = dup_children dup' cs' acc' m'"
proof (induction cs arbitrary: cs' acc acc' m m')
  case (Cons c cs)
  then show ?case by (auto split: option.split prod.split)
qed auto

fun cJSON_Duplicate :: "cJSON \<Rightarrow> mem \<Rightarrow> cJSON option \<times> mem" where
  "cJSON_Duplicate (CJSON t i d v s cs) m =
     (case ezos_malloc m of (ok, m1) \<Rightarrow>
       if \<not> ok then (None, m1)
       else (case strdup_opt v m1 of (okv, m2) \<Rightarrow>
         if \<not> okv then (None, cJSON_Delete (Some (CJSON t i d None None [])) m2)
         else (case strdup_opt s m2 of (oks, m3) \<Rightarrow>
           if \<not> oks then (None, cJSON_Delete (Some (CJSON t i d v None [])) m3)
           else (case dup_children cJSON_Duplicate cs [] m3 of ((okc, cs'), m4) \<Rightarrow>
             if okc then (Some (CJSON t i d v s cs'), m4)
             else (None, cJSON_Delete (Some (CJSON t i d v s cs')) m4)))))"

definition create_string :: "string option \<Rightarrow> mem \<Rightarrow> cJSON option \<times> mem" where
  "create_string s m =
     (case s of
        Some t \<Rightarrow> cJSON_CreateString t m
      | None \<Rightarrow> (case cJSON_New_Item cJSON_String m of (item, m1) \<Rightarrow> (None, cJSON_Delete item m1)))"

definition parse_text :: "libs \<Rightarrow> string option \<Rightarrow> world \<Rightarrow> cJSON option \<times> world" where
  "parse_text L s w = (case s of None \<Rightarrow> (None, w) | Some t \<Rightarrow> hub_parse L (string_bytes t) w)"

definition tlv2json :: "libs \<Rightarrow> ez_shadow_value option \<Rightarrow> world \<Rightarrow> cJSON option \<times> world" where
  "tlv2json L ptlv w =
     (case ptlv of
        None \<Rightarrow> (None, w)
      | Some v \<Rightarrow>
          if shd_length v = 0 then (None, w)
          else (case shd_data v of
             Shd_bool i \<Rightarrow> w_json (cJSON_CreateBool (i \<noteq> 0)) w
           | Shd_int i \<Rightarrow> w_json (cJSON_CreateNumber (whole i)) w
           | Shd_double d \<Rightarrow> w_json (cJSON_CreateNumber d) w
           | Shd_string s \<Rightarrow> w_json (create_string s) w
           | Shd_array s \<Rightarrow> parse_text L s w
           | Shd_object s \<Rightarrow> parse_text L s w
           | Shd_other \<Rightarrow> (None, w)))"

text \<open>The difference is compared with \<^verbatim>\<open>DBL_EPSILON\<close>, which is 1 / 2 ^ 52.\<close>

definition is_double :: "int \<Rightarrow> number \<Rightarrow> bool" where
  "is_double i d \<longleftrightarrow> \<not> (\<bar>i * 10 ^ scale d - mantissa d\<bar> * 2 ^ 52 \<le> 10 ^ scale d \<and>
     mantissa d \<le> 2147483647 * 10 ^ scale d \<and> mantissa d \<ge> - 2147483648 * 10 ^ scale d)"

text \<open>The bytes of a text as the string before its first NUL.\<close>

definition text_of :: "byte list \<Rightarrow> string" where
  "text_of bs = map (\<lambda>b. char_of (unat b)) (c_str bs)"

definition zero_value :: ez_shadow_value where
  "zero_value = \<lparr>shd_length = 0, shd_data = Shd_bool 0\<rparr>"

text \<open>The string of a string value is not copied; the printed text of an array or object is a new block.\<close>

definition json2tlv :: "libs \<Rightarrow> cJSON \<Rightarrow> world \<Rightarrow> (int \<times> ez_shadow_value) \<times> world" where
  "json2tlv L pvalue w =
     (case js_type pvalue of
        cJSON_False \<Rightarrow> ((0, \<lparr>shd_length = 4, shd_data = Shd_bool (js_valueint pvalue)\<rparr>), w)
      | cJSON_True \<Rightarrow> ((0, \<lparr>shd_length = 4, shd_data = Shd_bool (js_valueint pvalue)\<rparr>), w)
      | cJSON_Number \<Rightarrow>
          if \<not> is_double (js_valueint pvalue) (js_valuedouble pvalue)
          then ((0, \<lparr>shd_length = 4, shd_data = Shd_int (js_valueint pvalue)\<rparr>), w)
          else ((0, \<lparr>shd_length = 8, shd_data = Shd_double (js_valuedouble pvalue)\<rparr>), w)
      | cJSON_String \<Rightarrow>
          ((0, \<lparr>shd_length = of_nat (case js_valuestring pvalue of None \<Rightarrow> 0 | Some s \<Rightarrow> length s),
                shd_data = Shd_string (js_valuestring pvalue)\<rparr>), w)
      | cJSON_Array \<Rightarrow>
          (case cJSON_PrintUnformatted L (Some pvalue) w of
             (None, w1) \<Rightarrow> ((- 1, zero_value), w1)
           | (Some t, w1) \<Rightarrow>
               ((0, \<lparr>shd_length = of_nat (length (text_of t)), shd_data = Shd_array (Some (text_of t))\<rparr>), w1))
      | cJSON_Object \<Rightarrow>
          (case cJSON_PrintUnformatted L (Some pvalue) w of
             (None, w1) \<Rightarrow> ((- 1, zero_value), w1)
           | (Some t, w1) \<Rightarrow>
               ((0, \<lparr>shd_length = of_nat (length (text_of t)), shd_data = Shd_object (Some (text_of t))\<rparr>), w1))
      | _ \<Rightarrow> ((- 1, zero_value), w))"

definition tlv_destroy :: "ez_shadow_value \<Rightarrow> world \<Rightarrow> ez_shadow_value \<times> world" where
  "tlv_destroy v w =
     (zero_value,
      case shd_data v of
        Shd_array (Some _) \<Rightarrow> w_free w
      | Shd_object (Some _) \<Rightarrow> w_free w
      | _ \<Rightarrow> w)"

end
