(* ===== verification/Shadow_Core.thy ===== *)
theory Shadow_Core
  imports Shadow_Tree
begin

text \<open>
  The device shadow, second part: the messages of \<^verbatim>\<open>ez_iot_shadow_protocol.c\<close>, the passes of the module's thread and the
  handlers of \<^verbatim>\<open>ez_iot_shadow_core.c\<close>, the routes of \<^verbatim>\<open>ez_iot_shadow_extern.c\<close> and the interface \<^verbatim>\<open>ez_iot_shadow.c\<close>.
  Every operation takes the module's mutex at its start and releases it on each of its exits, so the operations are the
  atomic steps of the model; the thread's loop is cut at the points where it waits.
\<close>

section \<open>Messages\<close>

definition shadow_pubmsg :: "string \<Rightarrow> string \<Rightarrow> int \<Rightarrow> string \<Rightarrow> uint8 \<Rightarrow> ez_kernel_qos \<Rightarrow> uint32 \<Rightarrow> byte list
    \<Rightarrow> ez_kernel_pubmsg_v3" where
  "shadow_pubmsg devsn res_type index msg_type response qos seq body =
     \<lparr>pub3_msg_response = response, pub3_msg_qos = qos, pub3_msg_seq = seq, pub3_msg_body_len = of_nat (length body),
      pub3_msg_body = Some body, pub3_resource_id = dec_int index,
      pub3_resource_type = strncpy res_type (ezdev_sdk_resource_type_len - 1),
      pub3_module = strncpy SHADOW_MODULE_NAME (ezdev_sdk_module_name_len - 1),
      pub3_method = strncpy SHADOW_METHOD_NAME (ezdev_sdk_module_name_len - 1),
      pub3_msg_type = strncpy msg_type (ezdev_sdk_msg_type_len - 1),
      pub3_sub_serial = strncpy devsn (ezdev_sdk_max_serial_len - 1), pub3_ext_msg = ''''\<rparr>"

text \<open>The text of the query; the macro that checks the sending sends once more when it fails.\<close>

definition query_text :: string where
  "query_text = ''{'' @ [CHR 0x22] @ ''method'' @ [CHR 0x22, CHR '':'', CHR 0x22] @ ''query'' @ [CHR 0x22, CHR '','', CHR 0x22]
     @ ''windowsize'' @ [CHR 0x22, CHR '':''] @ dec_nat SHADOW_PUSH_BUF_MAX @ ''}''"

definition kernel_send3 :: "ez_kernel_pubmsg_v3 \<Rightarrow> world \<Rightarrow> (ez_err \<times> uint32) \<times> world" where
  "kernel_send3 p w = (case ez_kernel_send_v3 (Some p) w of (e, q, w1) \<Rightarrow>
     ((e, case q of None \<Rightarrow> 0 | Some x \<Rightarrow> pub3_msg_seq x), w1))"

definition shadow_protocol_query_desired :: "string \<Rightarrow> string \<Rightarrow> int \<Rightarrow> world \<Rightarrow> ez_err \<times> world" where
  "shadow_protocol_query_desired devsn res_type index w =
     (case retried (kernel_send3 (shadow_pubmsg devsn res_type index ''query'' 0 QOS_T1 0 (string_bytes query_text)))
             (\<lambda>r. fst r = 0) w of
        ((ok, _), w1) \<Rightarrow> (if ok then EZ_SHD_ERR_SUCC else EZ_SHD_ERR_GENERAL, w1))"

text \<open>
  The document of a report. The three objects are created before they are checked; when one is missing only the
  root and the value are deleted. An item that cannot be attached is not deleted.
\<close>

definition report_body :: "string \<Rightarrow> string \<Rightarrow> cJSON option \<Rightarrow> uint32 \<Rightarrow> cJSON option \<Rightarrow> cJSON option \<Rightarrow> cJSON option
    \<Rightarrow> mem \<Rightarrow> cJSON option \<times> mem" where
  "report_body dom_id key json_value ver root state reported m =
     (case cJSON_AddStringToObject reported ''domain'' dom_id m of (r1, m1) \<Rightarrow>
      case cJSON_AddStringToObject r1 ''identifier'' key m1 of (r2, m2) \<Rightarrow>
      case cJSON_AddItemToObject r2 ''value'' json_value m2 of (r3, m3) \<Rightarrow>
      case cJSON_AddItemToObject state ''reported'' r3 m3 of (s1, m4) \<Rightarrow>
      case cJSON_AddNumberToObject s1 ''version'' (uint ver) m4 of (s2, m5) \<Rightarrow>
      case cJSON_AddStringToObject root ''method'' ''report'' m5 of (t1, m6) \<Rightarrow>
      case cJSON_AddNumberToObject t1 ''spv'' 3 m6 of (t2, m7) \<Rightarrow>
      cJSON_AddItemToObject t2 ''state'' s2 m7)"

text \<open>The index is a 16-bit unsigned number here. The sequence number is None when it is not written.\<close>

definition shadow_protocol_report :: "libs \<Rightarrow> string \<Rightarrow> string \<Rightarrow> int \<Rightarrow> string \<Rightarrow> string \<Rightarrow> cJSON option \<Rightarrow> uint32
    \<Rightarrow> world \<Rightarrow> (ez_err \<times> uint32 option) \<times> world" where
  "shadow_protocol_report L devsn res_type index dom_id key json_value ver w =
     (case w_json cJSON_CreateObject w of (root, w1) \<Rightarrow>
      case w_json cJSON_CreateObject w1 of (state, w2) \<Rightarrow>
      case w_json cJSON_CreateObject w2 of (reported, w3) \<Rightarrow>
        if root = None \<or> state = None \<or> reported = None
        then ((EZ_SHD_ERR_MEMORY, None), w_json_delete root (w_json_delete json_value w3))
        else (case w_json (report_body dom_id key json_value ver root state reported) w3 of (doc, w4) \<Rightarrow>
          case cJSON_PrintUnformatted L doc w4 of
            (None, w5) \<Rightarrow> ((EZ_SHD_ERR_MEMORY, None), w_json_delete doc w5)
          | (Some body, w5) \<Rightarrow>
              (case kernel_send3 (shadow_pubmsg devsn res_type (uint (of_int index :: uint16)) ''report'' 0 QOS_T1 0 body) w5 of
                ((e, seq), w6) \<Rightarrow>
                  ((if e \<noteq> 0 then EZ_SHD_ERR_GENERAL else EZ_SHD_ERR_SUCC, if e \<noteq> 0 then None else Some seq),
                   w_free (w_json_delete doc w6)))))"

definition set_reply_text :: "int \<Rightarrow> int \<Rightarrow> string" where
  "set_reply_text code seconds =
     ''{'' @ [CHR 0x22] @ ''method'' @ [CHR 0x22, CHR '':'', CHR 0x22] @ ''set_reply'' @ [CHR 0x22, CHR '','', CHR 0x22]
     @ ''payload'' @ [CHR 0x22, CHR '':'', CHR ''{'', CHR 0x22] @ ''code'' @ [CHR 0x22, CHR '':''] @ dec_int code
     @ ''},'' @ [CHR 0x22] @ ''timestamp'' @ [CHR 0x22, CHR '':''] @ dec_int seconds @ ''}''"

definition shadow_protocol_set_reply :: "int \<Rightarrow> string \<Rightarrow> string \<Rightarrow> int \<Rightarrow> int \<Rightarrow> uint32 \<Rightarrow> world \<Rightarrow> ez_err \<times> world" where
  "shadow_protocol_set_reply seconds devsn res_type index code seq w =
     (case kernel_send3 (shadow_pubmsg devsn res_type index ''set_reply'' 1 QOS_T0 seq
             (string_bytes (set_reply_text code seconds))) w of
        ((e, _), w1) \<Rightarrow> (if e \<noteq> 0 then EZ_SHD_ERR_GENERAL else EZ_SHD_ERR_SUCC, w1))"

section \<open>Passes over the register\<close>

text \<open>
  The loops over a list: \<^verbatim>\<open>f\<close> gives the node as it leaves it and whether the loops end here.
\<close>

fun visit :: "('a \<Rightarrow> 's \<Rightarrow> (bool \<times> 'a) \<times> 's) \<Rightarrow> 'a list \<Rightarrow> 's \<Rightarrow> (bool \<times> 'a list) \<times> 's" where
  "visit f [] s = ((False, []), s)"
| "visit f (x # xs) s =
     (case f x s of ((stop, x'), s1) \<Rightarrow>
       if stop then ((True, x' # xs), s1)
       else (case visit f xs s1 of ((stop', xs'), s2) \<Rightarrow> ((stop', x' # xs'), s2)))"

text \<open>One level of the register, from the loop over its children.\<close>

definition in_domain :: "(node_key \<Rightarrow> 's \<Rightarrow> (bool \<times> node_key) \<times> 's) \<Rightarrow> node_domain \<Rightarrow> 's \<Rightarrow> (bool \<times> node_domain) \<times> 's" where
  "in_domain f n s = (case visit f (nd_key_lst n) s of ((stop, ks), s1) \<Rightarrow> ((stop, n\<lparr>nd_key_lst := ks\<rparr>), s1))"

definition in_index :: "(node_domain \<Rightarrow> 's \<Rightarrow> (bool \<times> node_domain) \<times> 's) \<Rightarrow> node_index \<Rightarrow> 's \<Rightarrow> (bool \<times> node_index) \<times> 's" where
  "in_index f n s = (case visit f (ni_domain_lst n) s of ((stop, ds), s1) \<Rightarrow> ((stop, n\<lparr>ni_domain_lst := ds\<rparr>), s1))"

definition in_set :: "(node_index \<Rightarrow> 's \<Rightarrow> (bool \<times> node_index) \<times> 's) \<Rightarrow> node_index_set \<Rightarrow> 's
    \<Rightarrow> (bool \<times> node_index_set) \<times> 's" where
  "in_set f n s = (case visit f (ns_index_lst n) s of ((stop, is), s1) \<Rightarrow> ((stop, n\<lparr>ns_index_lst := is\<rparr>), s1))"

definition in_dev :: "(node_index_set \<Rightarrow> 's \<Rightarrow> (bool \<times> node_index_set) \<times> 's) \<Rightarrow> node_dev \<Rightarrow> 's \<Rightarrow> (bool \<times> node_dev) \<times> 's" where
  "in_dev f n s = (case visit f (nv_type_lst n) s of ((stop, ts), s1) \<Rightarrow> ((stop, n\<lparr>nv_type_lst := ts\<rparr>), s1))"

text \<open>The five loops: \<^verbatim>\<open>f\<close> is what the innermost one does with a key.\<close>

definition walk_keys :: "(string \<Rightarrow> string \<Rightarrow> int \<Rightarrow> string \<Rightarrow> node_key \<Rightarrow> 's \<Rightarrow> (bool \<times> node_key) \<times> 's) \<Rightarrow> shadow_modules \<Rightarrow> 's
    \<Rightarrow> (bool \<times> shadow_modules) \<times> 's" where
  "walk_keys f =
     visit (\<lambda>v. in_dev (\<lambda>t. in_set (\<lambda>i. in_index (\<lambda>d. in_domain (f (nv_dev_sn v) (ns_type t) (ni_index i) (nd_domain_string d)) d) i) t) v)"

subsection \<open>Reporting\<close>

definition shadow_param :: "string \<Rightarrow> string \<Rightarrow> int \<Rightarrow> string \<Rightarrow> string \<Rightarrow> shadow \<Rightarrow> ez_shadow_param" where
  "shadow_param devsn res_type index dom_id key s =
     \<lparr>sp_res = \<lparr>res_dev_serial = (if SHADOW_DEFAULT_NAME = devsn
            then strncpy (ez_kernel_getdevinfo_bykey ''dev_subserial'' (sh_world s)) 47 else strncpy devsn 47),
         res_res_type = strncpy res_type 31, res_local_index = sint (of_int index :: 16 word)\<rparr>,
      sp_domain = dom_id, sp_key = key\<rparr>"

text \<open>A call of the application for the value of a key, which it writes to the module's buffer.\<close>

definition call_dev2cloud :: "nat \<Rightarrow> ez_shadow_param \<Rightarrow> shadow \<Rightarrow> (int \<times> ez_shadow_value) \<times> shadow" where
  "call_dev2cloud f p s =
     (let s1 = upd_sw (faulty (g_p2c_buf s \<noteq> Buf_live)) (s\<lparr>sh_calls := sh_calls s @ [Sh_dev2cloud f p]\<rparr>) in
      case sh_dev_values s of [] \<Rightarrow> ((- 1, zero_value), s1) | r # rs \<Rightarrow> (r, s1\<lparr>sh_dev_values := rs\<rparr>))"

text \<open>The end of \<^verbatim>\<open>do_report\<close>: the value goes out with the key's version.\<close>

definition report_value :: "libs \<Rightarrow> string \<Rightarrow> string \<Rightarrow> int \<Rightarrow> string \<Rightarrow> node_key \<Rightarrow> cJSON option \<Rightarrow> shadow
    \<Rightarrow> (int \<times> node_key) \<times> shadow" where
  "report_value L devsn res_type index dom_id n json_value s =
     (case on_shw (shadow_protocol_report L devsn res_type index dom_id (nk_key n) json_value (nk_stat_ver n)) s of
        ((e, None), s1) \<Rightarrow> ((- 1, n), s1)
      | ((e, Some seq), s1) \<Rightarrow>
          ((0, n\<lparr>nk_msg_seq := seq,
                 nk_report_timer := time_countdown (now (sh_world s1)) (CONFIG_EZIOT_SHADOW_FULL_SYNC_RETRY_INTERVAL * 1000)\<rparr>), s1))"

definition do_report :: "libs \<Rightarrow> string \<Rightarrow> string \<Rightarrow> int \<Rightarrow> string \<Rightarrow> node_key \<Rightarrow> shadow \<Rightarrow> (int \<times> node_key) \<times> shadow" where
  "do_report L devsn res_type index dom_id n s =
     (if \<not> nk_need_report n then ((0, n), s)
      else if tv_sec (nk_report_timer n) \<noteq> 0 \<and> \<not> time_isexpired (now (sh_world s)) (nk_report_timer n) then ((1, n), s)
      else case nk_json_value n of
        Some j \<Rightarrow>
          (case on_shw (w_json (cJSON_Duplicate j)) s of (json_value, s1) \<Rightarrow>
            report_value L devsn res_type index dom_id n json_value s1)
      | None \<Rightarrow>
          (case nk_dev2cloud n of
             None \<Rightarrow> ((0, n\<lparr>nk_need_report := False\<rparr>), s)
           | Some f \<Rightarrow>
               (case call_dev2cloud f (shadow_param devsn res_type index dom_id (nk_key n) s) s of ((rc, tlv), s1) \<Rightarrow>
                 if rc \<noteq> 0 then ((0, n\<lparr>nk_need_report := False\<rparr>), s1)
                 else (case on_shw (tlv2json L (Some tlv)) s1 of
                     (None, s2) \<Rightarrow> ((- 1, n), s2)
                   | (Some json_value, s2) \<Rightarrow> report_value L devsn res_type index dom_id n (Some json_value) s2))))"

text \<open>The body of the innermost loop; the first component of the state counts the keys still waiting.\<close>

definition report_key :: "libs \<Rightarrow> string \<Rightarrow> string \<Rightarrow> int \<Rightarrow> string \<Rightarrow> node_key \<Rightarrow> nat \<times> shadow \<Rightarrow> (bool \<times> node_key) \<times> nat \<times> shadow" where
  "report_key L devsn res_type index dom_id n c =
     (case do_report L devsn res_type index dom_id n (snd c) of ((result, n1), s1) \<Rightarrow>
       ((result = - 1, n1), (if result = 1 then fst c + 1 else fst c, s1)))"

definition shadow_proc_report :: "libs \<Rightarrow> shadow \<Rightarrow> int \<times> shadow" where
  "shadow_proc_report L s =
     (case walk_keys (report_key L) (g_shaodw_modules s) (0, s) of ((stop, ms), (total_remaining, s1)) \<Rightarrow>
       (if stop then - 1 else if total_remaining \<noteq> 0 then 1 else 0, s1\<lparr>g_shaodw_modules := ms\<rparr>))"

definition shadow_proc_chg :: "libs \<Rightarrow> shadow \<Rightarrow> int \<times> shadow" where
  "shadow_proc_chg L s = shadow_proc_report L s"

subsection \<open>Synchronisation\<close>

text \<open>
  One index: the state is the result code so far, the count of answers waited for, and the core. A query that fails
  ends the loop over the indexes of this set only.
\<close>

definition sync_index :: "string \<Rightarrow> string \<Rightarrow> node_index \<Rightarrow> int \<times> nat \<times> world \<Rightarrow> (bool \<times> node_index) \<times> int \<times> nat \<times> world" where
  "sync_index devsn res_type n c = (case c of (rv, remaining, w) \<Rightarrow>
     if \<not> ni_need_sync n then ((False, n), c)
     else if tv_sec (ni_sync_timer n) \<noteq> 0 \<and> \<not> time_isexpired (now w) (ni_sync_timer n)
     then ((False, n), (rv, remaining + 1, w))
     else
       let n1 = (if tv_sec (ni_sync_timer n) \<noteq> 0 then n\<lparr>ni_sync_timer := zero_timer\<rparr> else n);
           n2 = n1\<lparr>ni_retry_count := ni_retry_count n1 + 1\<rparr>
       in if unat (ni_retry_count n2) > CONFIG_EZIOT_SHADOW_FULL_SYNC_RETRY_MAX
          then ((False, n2\<lparr>ni_retry_count := 0, ni_need_sync := False\<rparr>), c)
          else (case shadow_protocol_query_desired devsn res_type (ni_index n2) w of (e, w1) \<Rightarrow>
            if e \<noteq> 0 then ((True, n2), (- 1, remaining, w1))
            else ((False, n2\<lparr>ni_sync_timer := time_countdown (now w1) (CONFIG_EZIOT_SHADOW_FULL_SYNC_RETRY_INTERVAL * 1000)\<rparr>),
                  (rv, remaining + 1, w1))))"

definition no_stop :: "(bool \<times> 'a) \<times> 's \<Rightarrow> (bool \<times> 'a) \<times> 's" where
  "no_stop r = (case r of ((_, x), s) \<Rightarrow> ((False, x), s))"

definition shadow_proc_sync :: "shadow \<Rightarrow> int \<times> shadow" where
  "shadow_proc_sync s =
     (case visit (\<lambda>v. in_dev (\<lambda>t c. no_stop (in_set (sync_index (nv_dev_sn v) (ns_type t)) t c)) v) (g_shaodw_modules s)
             (0, 0, sh_world s) of
        ((_, ms), (rv, total_remaining, w)) \<Rightarrow>
          (if total_remaining \<noteq> 0 then 1 else rv, s\<lparr>g_shaodw_modules := ms, sh_world := w\<rparr>))"

subsection \<open>Marking\<close>

definition map_indexes :: "(node_index \<Rightarrow> node_index) \<Rightarrow> shadow_modules \<Rightarrow> shadow_modules" where
  "map_indexes f = map (\<lambda>v. v\<lparr>nv_type_lst := map (\<lambda>t. t\<lparr>ns_index_lst := map f (ns_index_lst t)\<rparr>) (nv_type_lst v)\<rparr>)"

text \<open>Inside the loop over the keys the sync timer of the index is cleared again; the report timers stay.\<close>

definition reset_key :: "node_key \<Rightarrow> node_key" where
  "reset_key n = n\<lparr>nk_need_report := True\<rparr>"

definition reset_index :: "node_index \<Rightarrow> node_index" where
  "reset_index n = n\<lparr>ni_need_sync := True, ni_sync_timer := zero_timer,
     ni_domain_lst := map (\<lambda>d. d\<lparr>nd_key_lst := map reset_key (nd_key_lst d)\<rparr>) (ni_domain_lst n)\<rparr>"

definition shadow_status_reset :: "shadow \<Rightarrow> shadow" where
  "shadow_status_reset s = s\<lparr>g_shaodw_modules := map_indexes reset_index (g_shaodw_modules s)\<rparr>"

definition shadow_status2sync :: "shadow \<Rightarrow> shadow" where
  "shadow_status2sync s = s\<lparr>g_shaodw_modules :=
     map_indexes (\<lambda>n. n\<lparr>ni_need_sync := True, ni_sync_timer := zero_timer, ni_retry_count := 0\<rparr>) (g_shaodw_modules s)\<rparr>"

section \<open>The thread\<close>

definition check_status_update :: "shadow \<Rightarrow> shadow" where
  "check_status_update s =
     (if g_need_reset s \<or> g_need_sync s \<or> g_need_report s then
        (if g_need_reset s then shadow_status_reset (sh_call (g_notice_pfunc s) Sh_notice s)
         else if g_need_sync s then shadow_status2sync s
         else s)\<lparr>g_need_reset := False, g_need_sync := False, g_need_report := False, g_shadow_status := Shadow_status_report\<rparr>
      else s)"

definition next_status :: "shadow_core_status \<Rightarrow> shadow_core_status" where
  "next_status st = (case st of Shadow_status_report \<Rightarrow> Shadow_status_sync | _ \<Rightarrow> Shadow_status_chg)"

definition shadow_proc_do :: "libs \<Rightarrow> shadow \<Rightarrow> int \<times> shadow" where
  "shadow_proc_do L s =
     (let s1 = check_status_update s in
      case (case g_shadow_status s1 of
              Shadow_status_report \<Rightarrow> shadow_proc_report L s1
            | Shadow_status_sync \<Rightarrow> shadow_proc_sync s1
            | Shadow_status_chg \<Rightarrow> shadow_proc_chg L s1) of
        (ret, s2) \<Rightarrow>
          if ret = 0 \<and> g_shadow_status s2 \<noteq> Shadow_status_chg
          then (2, s2\<lparr>g_shadow_status := next_status (g_shadow_status s2)\<rparr>)
          else (ret, s2))"

text \<open>
  The semaphore of the Linux port: a counter up to a maximum and a condition variable. A wait takes a token when there is
  one and then waits for a signal all the same; a post signals only when it raises the counter.
\<close>

definition ezos_sem_post :: "shadow \<Rightarrow> shadow" where
  "ezos_sem_post s =
     (case g_sem s of
        Sem_live count \<Rightarrow>
          if count = SEM_MAX then s
          else s\<lparr>g_sem := Sem_live (count + 1), sh_signalled := (sh_waiting s \<or> sh_signalled s)\<rparr>
      | Sem_destroyed \<Rightarrow> upd_sw (faulty True) s
      | Sem_null \<Rightarrow> s)"

text \<open>The first half of \<^verbatim>\<open>ezos_sem_wait\<close>, up to the wait for the signal.\<close>

definition ezos_sem_enter_wait :: "shadow \<Rightarrow> shadow" where
  "ezos_sem_enter_wait s =
     (case g_sem s of
        Sem_live count \<Rightarrow> s\<lparr>g_sem := Sem_live (count - 1), sh_waiting := True, sh_signalled := False\<rparr>
      | Sem_destroyed \<Rightarrow> upd_sw (faulty True) (s\<lparr>sh_waiting := True, sh_signalled := False\<rparr>)
      | Sem_null \<Rightarrow> s)"

text \<open>
  A turn of the thread: from one point where it may wait to the next. \<^verbatim>\<open>elapsed\<close> says that the waiting time is over. The
  pass a thread makes after \<^verbatim>\<open>shadow_core_stop\<close> has woken it is not modelled.
\<close>

definition shadow_pass :: "libs \<Rightarrow> shadow \<Rightarrow> shadow" where
  "shadow_pass L s = (case shadow_proc_do L s of (ret, s1) \<Rightarrow> s1\<lparr>sh_proc_result := ret\<rparr>)"

definition shadow_core_yeild :: "libs \<Rightarrow> bool \<Rightarrow> shadow \<Rightarrow> shadow" where
  "shadow_core_yeild L elapsed s =
     (if \<not> sh_running s \<or> sh_threads s = 0 then s
      else if sh_waiting s then
        (if sh_signalled s then shadow_pass L (s\<lparr>sh_waiting := False, sh_signalled := False\<rparr>)
         else if elapsed then shadow_pass L (shadow_status_reset (s\<lparr>sh_waiting := False\<rparr>))
         else s)
      else if \<not> g_is_online s then s
      else if sh_proc_result s = 0 then ezos_sem_enter_wait s
      else shadow_pass L s)"

section \<open>Events\<close>

datatype shadow_event_type = SHADOW_EVENT_TYPE_RESET | SHADOW_EVENT_TYPE_ADD | SHADOW_EVENT_TYPE_ONLINE
  | SHADOW_EVENT_TYPE_OFFLINE | SHADOW_EVENT_TYPE_REPORT | SHADOW_EVENT_TYPE_RECV

definition shadow_core_event_occured :: "shadow_event_type \<Rightarrow> shadow \<Rightarrow> shadow" where
  "shadow_core_event_occured event s =
     (let s1 = (case event of
          SHADOW_EVENT_TYPE_RESET \<Rightarrow> s\<lparr>g_need_reset := True, g_is_online := True\<rparr>
        | SHADOW_EVENT_TYPE_ONLINE \<Rightarrow> s\<lparr>g_need_report := True, g_is_online := True\<rparr>
        | SHADOW_EVENT_TYPE_ADD \<Rightarrow> s\<lparr>g_need_report := True\<rparr>
        | SHADOW_EVENT_TYPE_OFFLINE \<Rightarrow> s\<lparr>g_need_sync := True, g_is_online := False\<rparr>
        | SHADOW_EVENT_TYPE_REPORT \<Rightarrow>
            if g_shadow_status s = Shadow_status_sync then s\<lparr>g_need_report := True\<rparr> else s
        | SHADOW_EVENT_TYPE_RECV \<Rightarrow> s)
      in if \<not> sh_running s1 \<or> g_sem s1 = Sem_null then s1
         else ezos_sem_post s1)"

section \<open>Operations on the register\<close>

text \<open>The device's own serial number is kept under the default name.\<close>

definition shadow_sn :: "string \<Rightarrow> shadow \<Rightarrow> string" where
  "shadow_sn sn s = (if ez_kernel_getdevinfo_bykey ''dev_subserial'' (sh_world s) = sn then SHADOW_DEFAULT_NAME else sn)"

definition add_to_index :: "string option \<Rightarrow> uint16 \<Rightarrow> ez_shadow_business list option \<Rightarrow> node_index \<Rightarrow> mem
    \<Rightarrow> (bool \<times> node_index \<times> bool) \<times> mem" where
  "add_to_index dom_id props_num props n m =
     (case shadow_module_add_domain (ni_domain_lst n) dom_id props_num props m of ((ok, ds, over), m1) \<Rightarrow>
       ((ok, n\<lparr>ni_domain_lst := ds\<rparr>, over), m1))"

definition add_to_set :: "int \<Rightarrow> string option \<Rightarrow> uint16 \<Rightarrow> ez_shadow_business list option \<Rightarrow> node_index_set \<Rightarrow> mem
    \<Rightarrow> (bool \<times> node_index_set \<times> bool) \<times> mem" where
  "add_to_set index dom_id props_num props n m =
     (case shadow_module_add_index (ns_index_lst n) index m of
        ((None, is), m1) \<Rightarrow> ((False, n\<lparr>ns_index_lst := is\<rparr>, False), m1)
      | ((Some i, is), m1) \<Rightarrow>
          (case add_to_index dom_id props_num props (is ! i) m1 of ((ok, x, over), m2) \<Rightarrow>
            ((ok, n\<lparr>ns_index_lst := is[i := x]\<rparr>, over), m2)))"

definition add_to_dev :: "string \<Rightarrow> int \<Rightarrow> string option \<Rightarrow> uint16 \<Rightarrow> ez_shadow_business list option \<Rightarrow> node_dev \<Rightarrow> mem
    \<Rightarrow> (bool \<times> node_dev \<times> bool) \<times> mem" where
  "add_to_dev res_type index dom_id props_num props n m =
     (case shadow_module_add_index_set (nv_type_lst n) res_type m of
        ((None, ts), m1) \<Rightarrow> ((False, n\<lparr>nv_type_lst := ts\<rparr>, False), m1)
      | ((Some t, ts), m1) \<Rightarrow>
          (case add_to_set index dom_id props_num props (ts ! t) m1 of ((ok, x, over), m2) \<Rightarrow>
            ((ok, n\<lparr>nv_type_lst := ts[t := x]\<rparr>, over), m2)))"

definition add_to_modules :: "string \<Rightarrow> string \<Rightarrow> int \<Rightarrow> string option \<Rightarrow> uint16 \<Rightarrow> ez_shadow_business list option
    \<Rightarrow> shadow_modules \<Rightarrow> mem \<Rightarrow> (bool \<times> shadow_modules \<times> bool) \<times> mem" where
  "add_to_modules dev_sn res_type index dom_id props_num props ms m =
     (case shadow_module_add_dev ms dev_sn m of
        ((None, ms1), m1) \<Rightarrow> ((False, ms1, False), m1)
      | ((Some d, ms1), m1) \<Rightarrow>
          (case add_to_dev res_type index dom_id props_num props (ms1 ! d) m1 of ((ok, x, over), m2) \<Rightarrow>
            ((ok, ms1[d := x], over), m2)))"

definition shadow_core_module_addv3 :: "string \<Rightarrow> string \<Rightarrow> int \<Rightarrow> string option \<Rightarrow> uint16 \<Rightarrow> ez_shadow_business list option
    \<Rightarrow> shadow \<Rightarrow> ez_err \<times> shadow" where
  "shadow_core_module_addv3 sn res_type index dom_id props_num props s =
     (case add_to_modules (shadow_sn sn s) res_type index dom_id props_num props (g_shaodw_modules s) (w_mem (sh_world s)) of
        ((ok, ms, over), m) \<Rightarrow>
          (if ok then EZ_SHD_ERR_SUCC else EZ_SHD_ERR_MEMORY,
           upd_sw (\<lambda>w. faulty over (w\<lparr>w_mem := m\<rparr>)) (s\<lparr>g_shaodw_modules := ms\<rparr>)))"

text \<open>The blocks a node owns, freed one by one when a device is removed.\<close>

definition free_key :: "node_key \<Rightarrow> mem \<Rightarrow> mem" where
  "free_key n m = ezos_free (cJSON_Delete (nk_json_value n) m)"

definition free_domain :: "node_domain \<Rightarrow> mem \<Rightarrow> mem" where
  "free_domain n m = ezos_free (fold free_key (nd_key_lst n) m)"

definition free_index :: "node_index \<Rightarrow> mem \<Rightarrow> mem" where
  "free_index n m = ezos_free (fold free_domain (ni_domain_lst n) m)"

definition free_index_set :: "node_index_set \<Rightarrow> mem \<Rightarrow> mem" where
  "free_index_set n m = ezos_free (fold free_index (ns_index_lst n) m)"

definition free_dev :: "node_dev \<Rightarrow> mem \<Rightarrow> mem" where
  "free_dev n m = ezos_free (fold free_index_set (nv_type_lst n) m)"

definition shadow_core_module_clear :: "string \<Rightarrow> shadow \<Rightarrow> ez_err \<times> shadow" where
  "shadow_core_module_clear sn s =
     (EZ_SHD_ERR_SUCC,
      case shadow_module_find_dev (g_shaodw_modules s) (shadow_sn sn s) of
        None \<Rightarrow> s
      | Some d \<Rightarrow>
          upd_sw (\<lambda>w. w\<lparr>w_mem := free_dev (g_shaodw_modules s ! d) (w_mem w)\<rparr>)
            (s\<lparr>g_shaodw_modules := take d (g_shaodw_modules s) @ drop (Suc d) (g_shaodw_modules s)\<rparr>))"

text \<open>The new value of a key. Its sync timer is cleared where the report timer would be meant.\<close>

definition shadow_core_propertie_changed :: "libs \<Rightarrow> string \<Rightarrow> string \<Rightarrow> int \<Rightarrow> string \<Rightarrow> string \<Rightarrow> ez_shadow_value option
    \<Rightarrow> shadow \<Rightarrow> ez_err \<times> shadow" where
  "shadow_core_propertie_changed L sn res_type index dom_id pkey value s =
     (case locate_key (g_shaodw_modules s) (shadow_sn sn s) res_type index dom_id pkey of
        Inl e \<Rightarrow> (e, s)
      | Inr (p, d, k) \<Rightarrow>
          (case tlv2json L value (w_json_delete (nk_json_value (key_at (g_shaodw_modules s) (p, d, k))) (sh_world s)) of
            (j, w1) \<Rightarrow>
              (EZ_SHD_ERR_SUCC,
               s\<lparr>sh_world := w1,
                 g_shaodw_modules := upd_index p (\<lambda>n. (upd_domain_key d k (\<lambda>x. x\<lparr>nk_stat_ver := nk_stat_ver x + 1,
                   nk_need_report := True, nk_msg_seq := 0, nk_json_value := j\<rparr>) n)\<lparr>ni_sync_timer := zero_timer\<rparr>)
                   (g_shaodw_modules s)\<rparr>)))"

section \<open>Data from the cloud\<close>

text \<open>The acknowledgement of a report: the first key that waits for this number.\<close>

definition ack_key :: "uint32 \<Rightarrow> int \<Rightarrow> node_key \<Rightarrow> mem \<Rightarrow> (bool \<times> node_key) \<times> mem" where
  "ack_key seq code n m =
     (if nk_msg_seq n = seq then
        (if code = 0
         then ((True, n\<lparr>nk_need_report := False, nk_json_value := None, nk_msg_seq := 0, nk_report_timer := zero_timer\<rparr>),
               cJSON_Delete (nk_json_value n) m)
         else ((True, n\<lparr>nk_msg_seq := 0, nk_report_timer := zero_timer\<rparr>), m))
      else ((False, n), m))"

definition shadow_reply2report :: "uint32 \<Rightarrow> int \<Rightarrow> shadow \<Rightarrow> shadow" where
  "shadow_reply2report seq code s =
     (case walk_keys (\<lambda>_ _ _ _. ack_key seq code) (g_shaodw_modules s) (w_mem (sh_world s)) of ((_, ms), m) \<Rightarrow>
       upd_sw (\<lambda>w. w\<lparr>w_mem := m\<rparr>) (s\<lparr>g_shaodw_modules := ms\<rparr>))"

definition shadow_status_sync_disable :: "string \<Rightarrow> string \<Rightarrow> int \<Rightarrow> shadow \<Rightarrow> shadow" where
  "shadow_status_sync_disable devsn res_type index s =
     (case locate_index (g_shaodw_modules s) devsn res_type index of
        Inl _ \<Rightarrow> s
      | Inr p \<Rightarrow> s\<lparr>g_shaodw_modules := upd_index p (\<lambda>n. n\<lparr>ni_need_sync := False, ni_sync_timer := zero_timer,
          ni_retry_count := 0\<rparr>) (g_shaodw_modules s)\<rparr>)"

definition call_cloud2dev :: "nat \<Rightarrow> ez_shadow_value \<Rightarrow> ez_shadow_param \<Rightarrow> shadow \<Rightarrow> int \<times> shadow" where
  "call_cloud2dev f v p s =
     (let s1 = s\<lparr>sh_calls := sh_calls s @ [Sh_cloud2dev f v p]\<rparr> in
      case sh_dev_codes s of [] \<Rightarrow> (0, s1) | r # rs \<Rightarrow> (r, s1\<lparr>sh_dev_codes := rs\<rparr>))"

text \<open>
  The value is deleted before the callback gets it: a string value then points to freed memory, which is a fault.
\<close>

definition is_string_value :: "ez_shadow_value \<Rightarrow> bool" where
  "is_string_value v \<longleftrightarrow> (case shd_data v of Shd_string _ \<Rightarrow> True | _ \<Rightarrow> False)"

definition do_set :: "libs \<Rightarrow> string \<Rightarrow> string \<Rightarrow> int \<Rightarrow> string \<Rightarrow> string \<Rightarrow> cJSON \<Rightarrow> shadow \<Rightarrow> int \<times> shadow" where
  "do_set L devsn res_type index dom_id key value s =
     (let dropped = upd_sw (w_json_delete (Some value)) in
      case locate_key (g_shaodw_modules s) devsn res_type index dom_id key of
        Inl _ \<Rightarrow> (- 1, dropped s)
      | Inr p \<Rightarrow>
          (case nk_cloud2dev (key_at (g_shaodw_modules s) p) of
             None \<Rightarrow> (- 1, dropped s)
           | Some f \<Rightarrow>
               (case on_shw (json2tlv L value) s of ((rv, tlv), s1) \<Rightarrow>
                 if rv \<noteq> 0 then (rv, upd_sw (\<lambda>w. snd (tlv_destroy tlv w)) (dropped s1))
                 else (case call_cloud2dev f tlv (shadow_param devsn res_type index dom_id key s)
                             (upd_sw (faulty (is_string_value tlv)) (dropped s1)) of
                   (rv2, s2) \<Rightarrow> (rv2, upd_sw (\<lambda>w. snd (tlv_destroy tlv w)) s2)))))"

text \<open>
  One assignment of a document: the members \<^verbatim>\<open>domain\<close>, \<^verbatim>\<open>identifier\<close> and \<^verbatim>\<open>value\<close>. A name without text is read through
  NULL. The third component of the result counts the blocks of the value, which is detached and deleted on its own.
\<close>

definition set_item :: "libs \<Rightarrow> string \<Rightarrow> string \<Rightarrow> int \<Rightarrow> cJSON \<Rightarrow> shadow \<Rightarrow> (int \<times> nat) \<times> shadow" where
  "set_item L devsn res_type index item s =
     (case cJSON_GetObjectItem (Some item) ''domain'' of
        None \<Rightarrow> ((- 1, 0), s)
      | Some json_domain \<Rightarrow>
          let s1 = upd_sw (faulty (js_valuestring json_domain = None)) s in
          (case cJSON_GetObjectItem (Some item) ''identifier'' of
             None \<Rightarrow> ((- 1, 0), s1)
           | Some json_identifier \<Rightarrow>
               let s2 = upd_sw (faulty (js_valuestring json_identifier = None)) s1 in
               (case cJSON_DetachItemFromObject item ''value'' of
                  (None, _) \<Rightarrow> ((- 1, 0), s2)
                | (Some json_value, _) \<Rightarrow>
                    (case do_set L devsn res_type index (case js_valuestring json_domain of None \<Rightarrow> '''' | Some t \<Rightarrow> t)
                            (case js_valuestring json_identifier of None \<Rightarrow> '''' | Some t \<Rightarrow> t) json_value s2 of
                      (rv, s3) \<Rightarrow> ((rv, json_blocks json_value), s3)))))"

definition parse_payload :: "libs \<Rightarrow> byte list option \<Rightarrow> shadow \<Rightarrow> cJSON option \<times> shadow" where
  "parse_payload L payload s =
     (case payload of None \<Rightarrow> (None, s) | Some text \<Rightarrow> on_shw (hub_parse L text) s)"

definition shadow_set2dev :: "libs \<Rightarrow> string \<Rightarrow> string \<Rightarrow> int \<Rightarrow> byte list option \<Rightarrow> shadow \<Rightarrow> int \<times> shadow" where
  "shadow_set2dev L devsn res_type index payload s =
     (case parse_payload L payload s of
        (None, s1) \<Rightarrow> (- 1, s1)
      | (Some json_root, s1) \<Rightarrow>
          (case (case cJSON_GetObjectItem (cJSON_GetObjectItem (Some json_root) ''state'') ''desired'' of
                   None \<Rightarrow> ((- 1, 0), s1)
                 | Some json_desired \<Rightarrow> set_item L devsn res_type index json_desired s1) of
             ((rv, gone), s2) \<Rightarrow> (rv, upd_sw (w_frees (json_blocks json_root - gone)) s2)))"

text \<open>The loop of the reply to a query; its result only goes to the log.\<close>

fun set_items :: "libs \<Rightarrow> string \<Rightarrow> string \<Rightarrow> int \<Rightarrow> cJSON list \<Rightarrow> shadow \<Rightarrow> nat \<times> shadow" where
  "set_items L devsn res_type index [] s = (0, s)"
| "set_items L devsn res_type index (c # cs) s =
     (case set_item L devsn res_type index c s of ((_, gone), s1) \<Rightarrow>
      case set_items L devsn res_type index cs s1 of (gone', s2) \<Rightarrow> (gone + gone', s2))"

definition reply_items :: "cJSON \<Rightarrow> cJSON list" where
  "reply_items json_root =
     (case cJSON_GetObjectItem (Some json_root) ''code'' of
        None \<Rightarrow> []
      | Some json_code \<Rightarrow>
          if js_type json_code \<noteq> cJSON_Number \<or> js_valueint json_code \<noteq> 0 then []
          else (case cJSON_GetObjectItem (cJSON_GetObjectItem (Some json_root) ''state'') ''desired'' of
             None \<Rightarrow> []
           | Some json_desired \<Rightarrow> if js_type json_desired \<noteq> cJSON_Array then [] else js_child json_desired))"

text \<open>Whatever the reply holds, the index is not queried again.\<close>

definition shadow_reply2query :: "libs \<Rightarrow> string \<Rightarrow> string \<Rightarrow> int \<Rightarrow> byte list option \<Rightarrow> shadow \<Rightarrow> shadow" where
  "shadow_reply2query L devsn res_type index payload s =
     (case parse_payload L payload s of
        (None, s1) \<Rightarrow> shadow_status_sync_disable devsn res_type index s1
      | (Some json_root, s1) \<Rightarrow>
          (case set_items L devsn res_type index (reply_items json_root) s1 of (gone, s2) \<Rightarrow>
            upd_sw (w_frees (json_blocks json_root - gone)) (shadow_status_sync_disable devsn res_type index s2)))"

text \<open>
  The payload is either the buffer of a message or, for an acknowledgement, the address of an error code. A buffer
  taken for a code gives its first four bytes.
\<close>

datatype shadow_payload = Payload_code int | Payload_buf "byte list option"

definition payload_text :: "shadow_payload \<Rightarrow> byte list option" where
  "payload_text p = (case p of Payload_buf b \<Rightarrow> b | Payload_code _ \<Rightarrow> None)"

definition payload_code :: "shadow_payload \<Rightarrow> int \<times> bool" where
  "payload_code p = (case p of
      Payload_code c \<Rightarrow> (c, False)
    | Payload_buf None \<Rightarrow> (0, True)
    | Payload_buf (Some bs) \<Rightarrow>
        (if length bs < 4 then (0, True)
         else (sint (word_rcat (rev (take 4 bs)) :: 32 word), False)))"

definition no_res :: ez_shadow_res where
  "no_res = \<lparr>res_dev_serial = '''', res_res_type = '''', res_local_index = 0\<rparr>"

text \<open>An acknowledgement comes without a resource; using it is a fault.\<close>

definition shadow_core_cloud_data_in :: "libs \<Rightarrow> ez_shadow_res option \<Rightarrow> uint32 \<Rightarrow> string \<Rightarrow> shadow_payload \<Rightarrow> shadow
    \<Rightarrow> int \<times> shadow" where
  "shadow_core_cloud_data_in L shadow_res seq business_type payload s =
     (let r = (case shadow_res of None \<Rightarrow> no_res | Some r \<Rightarrow> r);
          s0 = upd_sw (faulty (shadow_res = None)) s;
          (rv, s1) =
            (if business_type = ''set'' then
               (case shadow_set2dev L (res_dev_serial r) (res_res_type r) (res_local_index r) (payload_text payload) s0 of
                 (rv, s2) \<Rightarrow> (rv, snd (on_shw (shadow_protocol_set_reply (sh_time s2) (res_dev_serial r) (res_res_type r) (res_local_index r) rv seq) s2)))
             else if business_type = ''query_reply'' then
               (- 1, shadow_reply2query L (res_dev_serial r) (res_res_type r) (res_local_index r) (payload_text payload) s0)
             else if business_type = ''report'' then
               (case payload_code payload of (code, bad) \<Rightarrow> (- 1, shadow_reply2report seq code (upd_sw (faulty bad) s)))
             else (- 1, s))
      in (rv, shadow_core_event_occured SHADOW_EVENT_TYPE_RECV s1))"

section \<open>Start and stop\<close>

definition sh_create :: "shadow \<Rightarrow> bool \<times> shadow" where
  "sh_create s = (case sh_plat s of [] \<Rightarrow> (True, s) | a # as \<Rightarrow> (a, s\<lparr>sh_plat := as\<rparr>))"

text \<open>
  A semaphore that exists is kept, the mutex is always created anew, and the register starts empty whatever it held.
  When the thread cannot be created the semaphore is destroyed and its handle kept.
\<close>

definition shadow_core_start :: "func_ptr \<Rightarrow> shadow \<Rightarrow> bool \<times> shadow" where
  "shadow_core_start pfunc s =
     (case (if g_sem s = Sem_null then (case sh_create s of (ok, s1) \<Rightarrow> (ok, if ok then s1\<lparr>g_sem := Sem_live 0\<rparr> else s1))
            else (True, s)) of
        (False, s1) \<Rightarrow> (False, s1)
      | (True, s1) \<Rightarrow>
          (case sh_create s1 of
             (False, s2) \<Rightarrow> (False, s2\<lparr>sh_hlock := Mutex_null\<rparr>)
           | (True, s2) \<Rightarrow>
               let s3 = s2\<lparr>sh_hlock := Mutex_live, sh_running := True, g_notice_pfunc := pfunc, g_shaodw_modules := []\<rparr> in
               (case sh_create s3 of
                  (False, s4) \<Rightarrow> (False, s4\<lparr>g_sem := Sem_destroyed, sh_running := False\<rparr>)
                | (True, s4) \<Rightarrow>
                    (case on_shw w_malloc (s4\<lparr>sh_threads := sh_threads s4 + 1, sh_proc_result := - 1, sh_waiting := False,
                            sh_signalled := False\<rparr>) of
                       (False, s5) \<Rightarrow> (False, s5\<lparr>g_p2c_buf := Buf_null, sh_running := False\<rparr>)
                     | (True, s5) \<Rightarrow> (True, s5\<lparr>g_p2c_buf := Buf_live\<rparr>)))))"

definition shadow_core_stop :: "shadow \<Rightarrow> shadow" where
  "shadow_core_stop s =
     (if \<not> sh_running s then s
      else
        let s0 = ezos_sem_post (s\<lparr>sh_running := False\<rparr>);
            s1 = s0\<lparr>sh_threads := sh_threads s0 - 1, sh_waiting := False, sh_signalled := False, sh_hlock := Mutex_null\<rparr>;
            s2 = (if g_p2c_buf s1 \<noteq> Buf_null
                  then upd_sw (\<lambda>w. w_free (faulty (g_p2c_buf s1 = Buf_freed) w)) (s1\<lparr>g_p2c_buf := Buf_freed\<rparr>) else s1)
        in s2\<lparr>g_sem := Sem_null\<rparr>)"

section \<open>Connection to the core\<close>

definition shadow_extension :: ez_kernel_extend_v3 where
  "shadow_extension = \<lparr>ext3_module = strncpy SHADOW_MODULE_NAME (ezdev_sdk_module_name_len - 1),
     ext3_data_route = Some 60031, ext3_event_route = Some 60032\<rparr>"

definition shadow_extern_init :: "shadow \<Rightarrow> ez_err \<times> shadow" where
  "shadow_extern_init s =
     (case on_shw (ez_kernel_extend_load_v3 (Some shadow_extension)) s of (rv, s1) \<Rightarrow>
       (if rv = EZ_CORE_ERR_NOT_INIT then EZ_SHD_ERR_NOT_READY
        else if rv = EZ_CORE_ERR_MEMORY then EZ_SHD_ERR_MEMORY
        else if rv \<noteq> EZ_CORE_ERR_SUCC then EZ_SHD_ERR_GENERAL
        else rv, s1))"

definition shadow_extern_deini :: "shadow \<Rightarrow> shadow" where
  "shadow_extern_deini s = s"

text \<open>The event of an acknowledgement has a context; without one the program reads through NULL.\<close>

definition shadow_event_route :: "libs \<Rightarrow> ez_kernel_event option \<Rightarrow> shadow \<Rightarrow> shadow" where
  "shadow_event_route L ptr_event s =
     (case ptr_event of
        None \<Rightarrow> s
      | Some ev \<Rightarrow>
          (case event_type ev of
             SDK_KERNEL_EVENT_ONLINE \<Rightarrow> shadow_core_event_occured SHADOW_EVENT_TYPE_ONLINE s
           | SDK_KERNEL_EVENT_SWITCHOVER \<Rightarrow> shadow_core_event_occured SHADOW_EVENT_TYPE_RESET s
           | SDK_KERNEL_EVENT_BREAK \<Rightarrow> shadow_core_event_occured SHADOW_EVENT_TYPE_OFFLINE s
           | SDK_KERNEL_EVENT_RECONNECT \<Rightarrow> shadow_core_event_occured SHADOW_EVENT_TYPE_ONLINE s
           | SDK_KERNEL_EVENT_PUBLISH_ACK \<Rightarrow>
               (case event_context ev of
                  Some (Publish_ack a) \<Rightarrow>
                    if ack_module_name a \<noteq> SHADOW_MODULE_NAME then s
                    else snd (shadow_core_cloud_data_in L None (ack_msg_seq a) (ack_msg_type a) (Payload_code (ack_last_error a)) s)
                | _ \<Rightarrow> upd_sw (faulty True) s)))"

definition shadow_data_route_cb :: "libs \<Rightarrow> ez_kernel_submsg_v3 \<Rightarrow> shadow \<Rightarrow> shadow" where
  "shadow_data_route_cb L psub_msg s =
     (if sub3_method psub_msg \<noteq> SHADOW_METHOD_NAME then s
      else snd (shadow_core_cloud_data_in L
        (Some \<lparr>res_dev_serial = (if length (sub3_sub_serial psub_msg) = 0 then strncpy SHADOW_DEFAULT_NAME 47
                 else strncpy (sub3_sub_serial psub_msg) 47),
               res_res_type = strncpy (sub3_resource_type psub_msg) 31,
               res_local_index = sint (of_int (atoi (sub3_resource_id psub_msg)) :: 16 word)\<rparr>)
        (sub3_msg_seq psub_msg) (sub3_msg_type psub_msg) (Payload_buf (sub3_buf psub_msg)) s))"

section \<open>Interface\<close>

text \<open>The macro that checks the start calls it again when it fails.\<close>

definition ez_iot_shadow_init :: "func_ptr \<Rightarrow> shadow \<Rightarrow> ez_err \<times> shadow" where
  "ez_iot_shadow_init pfunc s =
     (case shadow_extern_init s of (rv, s1) \<Rightarrow>
       if rv \<noteq> 0 then (rv, s1)
       else (case retried (shadow_core_start pfunc) id s1 of ((ok, _), s2) \<Rightarrow>
         if ok then (rv, s2\<lparr>g_shd_is_inited := True\<rparr>) else (EZ_SHD_ERR_MEMORY, s2)))"

record ez_shadow_module =
  sm_num :: int
  sm_business :: "ez_shadow_business list option"

definition ez_iot_shadow_reg :: "ez_shadow_res option \<Rightarrow> string option \<Rightarrow> ez_shadow_module option \<Rightarrow> shadow \<Rightarrow> ez_err \<times> shadow" where
  "ez_iot_shadow_reg pres dom_id module s =
     (if \<not> g_shd_is_inited s then (EZ_SHD_ERR_NOT_INIT, s)
      else case (pres, dom_id, module) of
        (Some r, Some _, Some b) \<Rightarrow>
          (case shadow_core_module_addv3 (res_dev_serial r) (res_res_type r) (res_local_index r) dom_id
                  (of_int (sm_num b)) (sm_business b) s of
            (rv, s1) \<Rightarrow> if rv \<noteq> 0 then (rv, s1) else (rv, shadow_core_event_occured SHADOW_EVENT_TYPE_ADD s1))
      | _ \<Rightarrow> (EZ_SHD_ERR_PARAM_INVALID, s))"

definition ez_iot_shadow_push :: "libs \<Rightarrow> ez_shadow_res option \<Rightarrow> string option \<Rightarrow> string option \<Rightarrow> ez_shadow_value option
    \<Rightarrow> shadow \<Rightarrow> ez_err \<times> shadow" where
  "ez_iot_shadow_push L pres dom_name pkey pvalue s =
     (if \<not> g_shd_is_inited s then (EZ_SHD_ERR_NOT_INIT, s)
      else case (pres, dom_name, pkey) of
        (Some r, Some dom_id, Some key) \<Rightarrow>
          (case shadow_core_propertie_changed L (res_dev_serial r) (res_res_type r) (res_local_index r) dom_id key pvalue s of
            (rv, s1) \<Rightarrow> if rv \<noteq> 0 then (rv, s1) else (rv, shadow_core_event_occured SHADOW_EVENT_TYPE_REPORT s1))
      | _ \<Rightarrow> (EZ_SHD_ERR_PARAM_INVALID, s))"

definition ez_iot_shadow_unreg :: "string option \<Rightarrow> shadow \<Rightarrow> ez_err \<times> shadow" where
  "ez_iot_shadow_unreg dev_serial_no s =
     (if \<not> g_shd_is_inited s then (EZ_SHD_ERR_NOT_INIT, s)
      else case dev_serial_no of None \<Rightarrow> (EZ_SHD_ERR_PARAM_INVALID, s) | Some sn \<Rightarrow> shadow_core_module_clear sn s)"

definition ez_iot_shadow_deini :: "shadow \<Rightarrow> shadow" where
  "ez_iot_shadow_deini s =
     (if \<not> g_shd_is_inited s then s else (shadow_core_stop (shadow_extern_deini s))\<lparr>g_shd_is_inited := False\<rparr>)"

end
