(* ===== verification/Shadow_Register.thy ===== *)
theory Shadow_Register
  imports Shadow_Core
begin

text \<open>
  The register of the device shadow as a finite map from device, resource type, index, domain and key to the
  key's node. Every level of the register is a list of named nodes with a search and an insertion; the locale states
  what the two promise each other, and is interpreted on the four levels and on the keys. Above it: what registration, a new value and
  the removal of a device do to the map.
\<close>

section \<open>Lists of named nodes\<close>

lemma find_first_index: "find P xs = (case first_index P xs of None \<Rightarrow> None | Some i \<Rightarrow> Some (xs ! i))"
  by (induction xs) (auto split: option.split)

lemma first_index_append:
  "first_index P (xs @ ys) = (case first_index P xs of Some i \<Rightarrow> Some i | None \<Rightarrow> map_option (\<lambda>i. length xs + i) (first_index P ys))"
proof (induction xs)
  case Nil
  then show ?case by (cases "first_index P ys") simp_all
next
  case (Cons x xs)
  then show ?case by (cases "first_index P ys") (auto split: option.split)
qed

lemma find_append: "find P (xs @ ys) = (case find P xs of None \<Rightarrow> find P ys | Some x \<Rightarrow> Some x)"
  by (induction xs) auto

lemma find_None_first_index: "find P xs = None \<longleftrightarrow> first_index P xs = None"
  by (simp add: find_first_index split: option.split)

text \<open>An update through the pointer the search found.\<close>

lemma find_update_first:
  assumes "first_index (\<lambda>n. name n = x) xs = Some i" and "name n' = x"
  shows "find (\<lambda>n. name n = y) (xs[i := n']) = (if y = x then Some n' else find (\<lambda>n. name n = y) xs)"
  using assms by (induction xs arbitrary: i) (auto split: if_splits)

lemma names_update:
  assumes "i < length xs" and "name n' = name (xs ! i)"
  shows "map name (xs[i := n']) = map name xs"
  using assms by (simp add: map_update list_update_same_conv)

locale node_list =
  fixes name :: "'a \<Rightarrow> 'k" and fresh :: "'k \<Rightarrow> 'a" and short :: "'k \<Rightarrow> bool"
  assumes name_fresh: "short k \<Longrightarrow> name (fresh k) = k"
begin

lemma added_first:
  assumes "add_node (first_index (\<lambda>n. name n = k) lst) (fresh k) lst m = ((Some i, lst1), m1)" and "short k"
  shows "first_index (\<lambda>n. name n = k) lst1 = Some i"
  using assms
  by (auto simp: add_node_def first_index_append name_fresh split: option.splits prod.splits if_splits)

lemma added_node:
  assumes "add_node (first_index (\<lambda>n. name n = k) lst) (fresh k) lst m = ((Some i, lst1), m1)"
  shows "lst1 ! i = (case find (\<lambda>n. name n = k) lst of Some n \<Rightarrow> n | None \<Rightarrow> fresh k)"
  using assms by (auto simp: add_node_def find_first_index split: option.splits prod.splits if_splits)

lemma added_others:
  assumes "add_node (first_index (\<lambda>n. name n = k) lst) (fresh k) lst m = ((Some i, lst1), m1)" and "short k" and "y \<noteq> k"
  shows "find (\<lambda>n. name n = y) lst1 = find (\<lambda>n. name n = y) lst"
  using assms
  by (auto simp: add_node_def find_append name_fresh split: option.splits prod.splits if_splits)

text \<open>Search after an insertion followed by a change of the node.\<close>

lemma find_added:
  assumes a: "add_node (first_index (\<lambda>n. name n = k) lst) (fresh k) lst m = ((Some i, lst1), m1)" and s: "short k"
    and n: "name n' = k"
  shows "find (\<lambda>n. name n = y) (lst1[i := n']) = (if y = k then Some n' else find (\<lambda>n. name n = y) lst)"
  using find_update_first [OF added_first [OF a s] n] added_others [OF a s] by simp

text \<open>The same for a lookup below the node, which finds nothing in a fresh node.\<close>

lemma bind_added:
  assumes a: "add_node (first_index (\<lambda>n. name n = k) lst) (fresh k) lst m = ((Some i, lst1), m1)" and s: "short k"
    and n: "name n' = k" and f: "look (fresh k) = None"
    and l: "look n' = g (look (lst1 ! i))"
  shows "Option.bind (find (\<lambda>n. name n = y) (lst1[i := n'])) look =
    (let old = Option.bind (find (\<lambda>n. name n = y) lst) look in if y = k then g old else old)"
proof -
  have "look (lst1 ! i) = Option.bind (find (\<lambda>n. name n = k) lst) look"
    using added_node [OF a] f by (simp split: option.split)
  then show ?thesis using find_added [OF a s n, of y] l by simp
qed

lemma added_name:
  assumes "add_node (first_index (\<lambda>n. name n = k) lst) (fresh k) lst m = ((Some i, lst1), m1)" and "short k"
  shows "i < length lst1" and "name (lst1 ! i) = k"
  using first_index_SomeD [OF added_first [OF assms]] by simp_all

lemma distinct_added:
  assumes a: "add_node (first_index (\<lambda>n. name n = k) lst) (fresh k) lst m = ((r, lst1), m1)" and s: "short k"
    and d: "distinct (map name lst)"
  shows "distinct (map name lst1)"
  using assms
  by (auto simp: add_node_def name_fresh first_index_None split: option.splits prod.splits if_splits)

end

definition short_name :: "nat \<Rightarrow> string \<Rightarrow> bool" where
  "short_name n s \<longleftrightarrow> length s \<le> n"

definition short_type :: "string \<Rightarrow> bool" where
  "short_type s \<longleftrightarrow> s \<noteq> '''' \<and> length s \<le> 31"

interpretation devs: node_list nv_dev_sn "\<lambda>sn. \<lparr>nv_dev_sn = strncpy sn 47, nv_type_lst = []\<rparr>" "short_name 47"
  by unfold_locales (simp add: short_name_def strncpy_id)

interpretation sets: node_list ns_type
  "\<lambda>res_type. \<lparr>ns_type = (if length res_type = 0 then strncpy ''global'' 31 else strncpy res_type 31), ns_index_lst = []\<rparr>"
  short_type
  by unfold_locales (simp add: short_type_def strncpy_id)

interpretation indexes: node_list ni_index
  "\<lambda>index. \<lparr>ni_index = index, ni_need_sync = True, ni_sync_timer = zero_timer, ni_retry_count = 0, ni_domain_lst = []\<rparr>"
  "\<lambda>_. True"
  by unfold_locales simp

interpretation domains: node_list nd_domain_string
  "\<lambda>name. \<lparr>nd_prot_ver = 3, nd_domain_string = strncpy name 31, nd_key_lst = []\<rparr>" "short_name 31"
  by unfold_locales (simp add: short_name_def strncpy_id)

section \<open>The map\<close>

definition find_dev :: "shadow_modules \<Rightarrow> string \<Rightarrow> node_dev option" where
  "find_dev ms sn = find (\<lambda>n. nv_dev_sn n = sn) ms"

definition find_set :: "node_dev \<Rightarrow> string \<Rightarrow> node_index_set option" where
  "find_set v res_type = find (\<lambda>n. ns_type n = res_type) (nv_type_lst v)"

definition find_index :: "node_index_set \<Rightarrow> int \<Rightarrow> node_index option" where
  "find_index t index = find (\<lambda>n. ni_index n = index) (ns_index_lst t)"

definition find_domain :: "node_index \<Rightarrow> string \<Rightarrow> node_domain option" where
  "find_domain i name = find (\<lambda>n. nd_domain_string n = name) (ni_domain_lst i)"

definition find_key :: "node_domain \<Rightarrow> string \<Rightarrow> node_key option" where
  "find_key d key = find (\<lambda>n. nk_key n = key) (nd_key_lst d)"

type_synonym key_path = "string \<times> string \<times> int \<times> string \<times> string"

definition dev_key :: "node_dev \<Rightarrow> string \<Rightarrow> int \<Rightarrow> string \<Rightarrow> string \<Rightarrow> node_key option" where
  "dev_key v ty ix dm k =
     Option.bind (find_set v ty) (\<lambda>t. Option.bind (find_index t ix) (\<lambda>i. Option.bind (find_domain i dm) (\<lambda>d. find_key d k)))"

definition reg_key :: "shadow_modules \<Rightarrow> key_path \<Rightarrow> node_key option" where
  "reg_key ms q = (case q of (sn, ty, ix, dm, k) \<Rightarrow> Option.bind (find_dev ms sn) (\<lambda>v. dev_key v ty ix dm k))"

text \<open>The searches by pointer find the entry of the map.\<close>

lemma locate_key_reg_key:
  "reg_key ms (sn, ty, ix, dm, k) =
     (case locate_key ms sn ty ix dm k of Inl _ \<Rightarrow> None | Inr p \<Rightarrow> Some (key_at ms p))"
  by (auto simp: reg_key_def dev_key_def find_dev_def find_set_def find_index_def find_domain_def find_key_def locate_key_def
      locate_index_def find_first_index shadow_module_find_dev_def shadow_module_find_indexs_def shadow_module_find_index_def
      shadow_module_find_domain_def shadow_module_find_key_def key_at_def index_at_def split: option.splits)

section \<open>Registration\<close>

text \<open>What one property does to the entry of its key.\<close>

definition register :: "ez_shadow_business \<Rightarrow> node_key option \<Rightarrow> node_key option" where
  "register b old = Some (case old of
      None \<Rightarrow> new_key b
    | Some n \<Rightarrow> n\<lparr>nk_cloud2dev := business2dev b, nk_dev2cloud := business2cloud b, nk_need_report := True\<rparr>)"

definition register_all :: "ez_shadow_business list \<Rightarrow> string \<Rightarrow> node_key option \<Rightarrow> node_key option" where
  "register_all bs k = fold (\<lambda>b old. if sb_key b = k then register b old else old) bs"

definition mem_plenty :: "mem \<Rightarrow> bool" where
  "mem_plenty m \<longleftrightarrow> answers m = []"

lemma malloc_plenty:
  assumes "mem_plenty m" obtains m1 where "ezos_malloc m = (True, m1)" and "mem_plenty m1" and "live m1 = live m + 1"
proof -
  show thesis using assms by (intro that [of "snd (ezos_malloc m)"]) (simp_all add: ezos_malloc_def mem_plenty_def)
qed

lemma add_node_plenty:
  assumes "mem_plenty m"
  obtains i lst1 m1 where "add_node r n lst m = ((Some i, lst1), m1)" and "mem_plenty m1"
proof (cases r)
  case None
  obtain m1 where "ezos_malloc m = (True, m1)" "mem_plenty m1" using malloc_plenty [OF assms] by metis
  with None show ?thesis using that by (simp add: add_node_def)
next
  case (Some i)
  with assms show ?thesis using that by (simp add: add_node_def)
qed

lemma find_key_upd:
  assumes "first_index (\<lambda>n. nk_key n = x) ks = Some i" and "nk_key (f (ks ! i)) = x"
  shows "find (\<lambda>n. nk_key n = y) (upd_at i f ks) = (if y = x then Some (f (ks ! i)) else find (\<lambda>n. nk_key n = y) ks)"
  using find_update_first [OF assms] first_index_SomeD [OF assms(1)] by (simp add: upd_at_def)

lemma add_keys_find:
  assumes "mem_plenty m" and "list_all (\<lambda>b. length (sb_key b) \<le> 31) bs"
  shows "find (\<lambda>n. nk_key n = k) (fst (add_keys bs ks m)) = register_all bs k (find (\<lambda>n. nk_key n = k) ks) \<and>
    mem_plenty (snd (add_keys bs ks m))"
  using assms
proof (induction bs arbitrary: ks m)
  case Nil
  then show ?case by (simp add: register_all_def)
next
  case (Cons b bs)
  show ?case
  proof (cases "first_index (\<lambda>n. nk_key n = sb_key b) ks")
    case None
    obtain m1 where m: "ezos_malloc m = (True, m1)" and p: "mem_plenty m1" using malloc_plenty [OF Cons.prems(1)] by metis
    have f: "find (\<lambda>n. nk_key n = sb_key b) ks = None" using None by (simp add: find_first_index)
    have new: "nk_key (new_key b) = sb_key b" using Cons.prems(2) by (simp add: new_key_def strncpy_id)
    have "find (\<lambda>n. nk_key n = k) (ks @ [new_key b]) =
        (if sb_key b = k then register b (find (\<lambda>n. nk_key n = k) ks) else find (\<lambda>n. nk_key n = k) ks)"
      using f new by (auto simp: find_append register_def split: option.splits)
    then show ?thesis
      using Cons.IH [OF p] Cons.prems(2) None m
      by (simp add: shadow_module_find_key_def register_all_def)
  next
    case (Some i)
    let ?f = "\<lambda>n. n\<lparr>nk_cloud2dev := business2dev b, nk_dev2cloud := business2cloud b, nk_need_report := True\<rparr>"
    have n: "nk_key (ks ! i) = sb_key b" using first_index_SomeD [OF Some] by simp
    have "find (\<lambda>n. nk_key n = k) (upd_at i ?f ks) =
        (if sb_key b = k then register b (find (\<lambda>n. nk_key n = k) ks) else find (\<lambda>n. nk_key n = k) ks)"
      using find_key_upd [OF Some, of ?f k] Some n by (auto simp: register_def find_first_index)
    then show ?thesis
      using Cons.IH [OF Cons.prems(1)] Cons.prems(2) Some
      by (simp add: shadow_module_find_key_def register_all_def)
  qed
qed

text \<open>The five levels, from the inside out. \<^verbatim>\<open>fine\<close> collects what the caller has to respect.\<close>

definition fine :: "string \<Rightarrow> ez_shadow_business list \<Rightarrow> uint16 \<Rightarrow> bool" where
  "fine dm bs num \<longleftrightarrow> length dm \<le> 31 \<and> bs \<noteq> [] \<and> unat num = length bs \<and> list_all (\<lambda>b. length (sb_key b) \<le> 31) bs"

lemma register_all_None: "register_all [] k old = old"
  by (simp add: register_all_def)

lemma add_domain_find:
  assumes "mem_plenty m" and "fine dm bs num"
  obtains ds m1 where "shadow_module_add_domain lst (Some dm) num (Some bs) m = ((True, ds, False), m1)" and "mem_plenty m1"
    and "\<forall>y k. Option.bind (find (\<lambda>n. nd_domain_string n = y) ds) (\<lambda>d. find_key d k) =
      (let old = Option.bind (find (\<lambda>n. nd_domain_string n = y) lst) (\<lambda>d. find_key d k) in
       if y = dm then register_all bs k old else old)"
proof -
  let ?new = "\<lparr>nd_prot_ver = 3, nd_domain_string = strncpy dm 31, nd_key_lst = []\<rparr>"
  obtain i lst1 m1 where a: "add_node (first_index (\<lambda>n. nd_domain_string n = dm) lst) ?new lst m = ((Some i, lst1), m1)"
    and p: "mem_plenty m1" by (rule add_node_plenty [OF assms(1)])
  have s: "short_name 31 dm" using assms(2) by (simp add: fine_def short_name_def)
  let ?ks = "nd_key_lst (lst1 ! i)"
  obtain ks m2 where k: "add_keys bs ?ks m1 = (ks, m2)" by fastforce
  have f: "find (\<lambda>n. nk_key n = y) ks = register_all bs y (find (\<lambda>n. nk_key n = y) ?ks)" and q: "mem_plenty m2" for y
    using add_keys_find [OF p, of bs y ?ks] assms(2) k by (simp_all add: fine_def)
  note i = domains.added_name [OF a s]
  let ?n = "(lst1 ! i)\<lparr>nd_key_lst := ks\<rparr>"
  have num: "num \<noteq> 0" using assms(2) by (auto simp: fine_def)
  have r: "shadow_module_add_domain lst (Some dm) num (Some bs) m = ((True, lst1[i := ?n], False), m2)"
    using a k i num assms(2) by (simp add: shadow_module_add_domain_def shadow_module_find_domain_def upd_at_def fine_def)
  have n: "nd_domain_string ?n = dm" using i by simp
  have l: "find_key ?n y = register_all bs y (find_key (lst1 ! i) y)" for y using f [of y] by (simp add: find_key_def)
  show ?thesis
  proof (rule that [OF r q], intro allI)
    fix y k
    show "Option.bind (find (\<lambda>n. nd_domain_string n = y) (lst1[i := ?n])) (\<lambda>d. find_key d k) =
      (let old = Option.bind (find (\<lambda>n. nd_domain_string n = y) lst) (\<lambda>d. find_key d k) in
       if y = dm then register_all bs k old else old)"
      by (rule domains.bind_added [OF a s n, where look = "\<lambda>d. find_key d k" and g = "register_all bs k"])
        (simp_all add: l [of k], simp add: find_key_def)
  qed
qed

lemma add_to_index_find:
  assumes "mem_plenty m" and "fine dm bs num"
  obtains n1 m1 where "add_to_index (Some dm) num (Some bs) n m = ((True, n1, False), m1)" and "mem_plenty m1"
    and "ni_index n1 = ni_index n"
    and "\<forall>y k. Option.bind (find_domain n1 y) (\<lambda>d. find_key d k) =
      (let old = Option.bind (find_domain n y) (\<lambda>d. find_key d k) in if y = dm then register_all bs k old else old)"
proof -
  obtain ds m1 where a: "shadow_module_add_domain (ni_domain_lst n) (Some dm) num (Some bs) m = ((True, ds, False), m1)"
    and p: "mem_plenty m1"
    and f: "\<forall>y k. Option.bind (find (\<lambda>n. nd_domain_string n = y) ds) (\<lambda>d. find_key d k) =
      (let old = Option.bind (find (\<lambda>n. nd_domain_string n = y) (ni_domain_lst n)) (\<lambda>d. find_key d k) in
       if y = dm then register_all bs k old else old)"
    by (rule add_domain_find [OF assms, of "ni_domain_lst n"])
  show ?thesis
    by (rule that [of "n\<lparr>ni_domain_lst := ds\<rparr>" m1]) (simp_all add: add_to_index_def a p f find_domain_def)
qed

lemma add_to_set_find:
  assumes "mem_plenty m" and "fine dm bs num"
  obtains n1 m1 where "add_to_set ix (Some dm) num (Some bs) n m = ((True, n1, False), m1)" and "mem_plenty m1"
    and "ns_type n1 = ns_type n"
    and "\<forall>x y k. Option.bind (find_index n1 x) (\<lambda>i. Option.bind (find_domain i y) (\<lambda>d. find_key d k)) =
      (let old = Option.bind (find_index n x) (\<lambda>i. Option.bind (find_domain i y) (\<lambda>d. find_key d k)) in
       if x = ix then (if y = dm then register_all bs k old else old) else old)"
proof -
  let ?new = "\<lparr>ni_index = ix, ni_need_sync = True, ni_sync_timer = zero_timer, ni_retry_count = 0, ni_domain_lst = []\<rparr>"
  obtain i lst1 m1 where a: "add_node (first_index (\<lambda>n. ni_index n = ix) (ns_index_lst n)) ?new (ns_index_lst n) m =
      ((Some i, lst1), m1)" and p: "mem_plenty m1" by (rule add_node_plenty [OF assms(1)])
  note i = indexes.added_name [OF a TrueI]
  obtain n1 m2 where b: "add_to_index (Some dm) num (Some bs) (lst1 ! i) m1 = ((True, n1, False), m2)" and q: "mem_plenty m2"
    and nm: "ni_index n1 = ni_index (lst1 ! i)"
    and l: "\<forall>y k. Option.bind (find_domain n1 y) (\<lambda>d. find_key d k) =
      (let old = Option.bind (find_domain (lst1 ! i) y) (\<lambda>d. find_key d k) in if y = dm then register_all bs k old else old)"
    by (rule add_to_index_find [OF p assms(2), of "lst1 ! i"])
  have r: "add_to_set ix (Some dm) num (Some bs) n m = ((True, n\<lparr>ns_index_lst := lst1[i := n1]\<rparr>, False), m2)"
    using a b by (simp add: add_to_set_def shadow_module_add_index_def shadow_module_find_index_def)
  have n: "ni_index n1 = ix" using i nm by simp
  show ?thesis
  proof (rule that [OF r q], simp, intro allI)
    fix x y k
    show "Option.bind (find_index (n\<lparr>ns_index_lst := lst1[i := n1]\<rparr>) x) (\<lambda>i. Option.bind (find_domain i y) (\<lambda>d. find_key d k)) =
      (let old = Option.bind (find_index n x) (\<lambda>i. Option.bind (find_domain i y) (\<lambda>d. find_key d k)) in
       if x = ix then (if y = dm then register_all bs k old else old) else old)"
      using indexes.bind_added [OF a TrueI n, where look = "\<lambda>i. Option.bind (find_domain i y) (\<lambda>d. find_key d k)"
          and g = "\<lambda>old. if y = dm then register_all bs k old else old" and y = x] l
      by (simp add: find_index_def find_domain_def Let_def)
  qed
qed

lemma add_to_dev_find:
  assumes "mem_plenty m" and "fine dm bs num" and s: "short_type ty"
  obtains n1 m1 where "add_to_dev ty ix (Some dm) num (Some bs) n m = ((True, n1, False), m1)" and "mem_plenty m1"
    and "nv_dev_sn n1 = nv_dev_sn n"
    and "\<forall>z x y k. dev_key n1 z x y k =
      (let old = dev_key n z x y k in if (z, x, y) = (ty, ix, dm) then register_all bs k old else old)"
proof -
  let ?new = "\<lparr>ns_type = (if length ty = 0 then strncpy ''global'' 31 else strncpy ty 31), ns_index_lst = []\<rparr>"
  obtain i lst1 m1 where a: "add_node (first_index (\<lambda>n. ns_type n = ty) (nv_type_lst n)) ?new (nv_type_lst n) m =
      ((Some i, lst1), m1)" and p: "mem_plenty m1" by (rule add_node_plenty [OF assms(1)])
  note i = sets.added_name [OF a s]
  obtain n1 m2 where b: "add_to_set ix (Some dm) num (Some bs) (lst1 ! i) m1 = ((True, n1, False), m2)" and q: "mem_plenty m2"
    and nm: "ns_type n1 = ns_type (lst1 ! i)"
    and l: "\<forall>x y k. Option.bind (find_index n1 x) (\<lambda>i. Option.bind (find_domain i y) (\<lambda>d. find_key d k)) =
      (let old = Option.bind (find_index (lst1 ! i) x) (\<lambda>i. Option.bind (find_domain i y) (\<lambda>d. find_key d k)) in
       if x = ix then (if y = dm then register_all bs k old else old) else old)"
    by (rule add_to_set_find [OF p assms(2), of ix "lst1 ! i"])
  have r: "add_to_dev ty ix (Some dm) num (Some bs) n m = ((True, n\<lparr>nv_type_lst := lst1[i := n1]\<rparr>, False), m2)"
    using a b by (simp add: add_to_dev_def shadow_module_add_index_set_def shadow_module_find_indexs_def)
  have n: "ns_type n1 = ty" using i nm by simp
  show ?thesis
  proof (rule that [OF r q], simp, intro allI)
    fix z x y k
    show "dev_key (n\<lparr>nv_type_lst := lst1[i := n1]\<rparr>) z x y k =
      (let old = dev_key n z x y k in if (z, x, y) = (ty, ix, dm) then register_all bs k old else old)"
      using sets.bind_added [OF a s n, where
          look = "\<lambda>t. Option.bind (find_index t x) (\<lambda>i. Option.bind (find_domain i y) (\<lambda>d. find_key d k))"
          and g = "\<lambda>old. if x = ix then (if y = dm then register_all bs k old else old) else old" and y = z] l
      by (simp add: dev_key_def find_set_def find_index_def Let_def)
  qed
qed

lemma add_to_modules_find:
  assumes "mem_plenty m" and "fine dm bs num" and "short_type ty" and s: "short_name 47 sn"
  obtains ms1 m1 where "add_to_modules sn ty ix (Some dm) num (Some bs) ms m = ((True, ms1, False), m1)" and "mem_plenty m1"
    and "\<forall>v z x y k. reg_key ms1 (v, z, x, y, k) =
      (let old = reg_key ms (v, z, x, y, k) in if (v, z, x, y) = (sn, ty, ix, dm) then register_all bs k old else old)"
proof -
  let ?new = "\<lparr>nv_dev_sn = strncpy sn 47, nv_type_lst = []\<rparr>"
  obtain i lst1 m1 where a: "add_node (first_index (\<lambda>n. nv_dev_sn n = sn) ms) ?new ms m = ((Some i, lst1), m1)" and p: "mem_plenty m1"
    by (rule add_node_plenty [OF assms(1)])
  note i = devs.added_name [OF a s]
  obtain n1 m2 where b: "add_to_dev ty ix (Some dm) num (Some bs) (lst1 ! i) m1 = ((True, n1, False), m2)" and q: "mem_plenty m2"
    and nm: "nv_dev_sn n1 = nv_dev_sn (lst1 ! i)"
    and l: "\<forall>z x y k. dev_key n1 z x y k =
      (let old = dev_key (lst1 ! i) z x y k in if (z, x, y) = (ty, ix, dm) then register_all bs k old else old)"
    by (rule add_to_dev_find [OF p assms(2,3), of ix "lst1 ! i"])
  have r: "add_to_modules sn ty ix (Some dm) num (Some bs) ms m = ((True, lst1[i := n1], False), m2)"
    using a b by (simp add: add_to_modules_def shadow_module_add_dev_def shadow_module_find_dev_def)
  have n: "nv_dev_sn n1 = sn" using i nm by simp
  show ?thesis
  proof (rule that [OF r q], intro allI)
    fix v z x y k
    show "reg_key (lst1[i := n1]) (v, z, x, y, k) =
      (let old = reg_key ms (v, z, x, y, k) in if (v, z, x, y) = (sn, ty, ix, dm) then register_all bs k old else old)"
      using devs.bind_added [OF a s n, where look = "\<lambda>v. dev_key v z x y k"
          and g = "\<lambda>old. if (z, x, y) = (ty, ix, dm) then register_all bs k old else old" and y = v] l
      by (simp add: reg_key_def dev_key_def find_dev_def find_set_def Let_def)
  qed
qed

end
