(* ===== verification/Shadow_Wf.thy ===== *)
theory Shadow_Wf
  imports Shadow_Register
begin

text \<open>
  The shape of the register: no level holds two nodes of one name, and no index has more attempts on record than
  the limit. The shape is a function of the names, the skeleton; the passes, the acknowledgements and the data from the cloud keep the
  skeleton, registration extends it and the removal of a device cuts it. Together: the invariant along every history of calls, and what a new value and the removal of a device do to the map.
\<close>

section \<open>Skeleton\<close>

definition sk_domain :: "node_domain \<Rightarrow> string \<times> string list" where
  "sk_domain d = (nd_domain_string d, map nk_key (nd_key_lst d))"

definition sk_index :: "node_index \<Rightarrow> int \<times> (string \<times> string list) list" where
  "sk_index i = (ni_index i, map sk_domain (ni_domain_lst i))"

definition sk_set :: "node_index_set \<Rightarrow> string \<times> (int \<times> (string \<times> string list) list) list" where
  "sk_set t = (ns_type t, map sk_index (ns_index_lst t))"

definition sk_dev :: "node_dev \<Rightarrow> string \<times> (string \<times> (int \<times> (string \<times> string list) list) list) list" where
  "sk_dev v = (nv_dev_sn v, map sk_set (nv_type_lst v))"

lemmas sk_defs = sk_domain_def sk_index_def sk_set_def sk_dev_def

definition named :: "('c \<Rightarrow> bool) \<Rightarrow> ('k \<times> 'c) list \<Rightarrow> bool" where
  "named P xs \<longleftrightarrow> distinct (map fst xs) \<and> list_all (\<lambda>x. P (snd x)) xs"

definition modules_ok :: "shadow_modules \<Rightarrow> bool" where
  "modules_ok ms \<longleftrightarrow> named (named (named (named distinct))) (map sk_dev ms)"

text \<open>A node replaced by one with the same name and a good inside.\<close>

lemma named_map_update:
  assumes "named P (map sk xs)" and "i < length xs" and "fst (sk n) = fst (sk (xs ! i))" and "P (snd (sk n))"
  shows "named P (map sk (xs[i := n]))"
proof -
  have "map fst (map sk (xs[i := n])) = map fst (map sk xs)"
    using assms(2,3) by (simp add: map_update list_update_same_conv)
  moreover have "list_all (\<lambda>x. P (snd x)) (map sk (xs[i := n]))"
    using assms(1,4) set_update_subset_insert [of xs i n] by (auto simp: named_def list_all_iff)
  ultimately show ?thesis using assms(1) by (simp add: named_def)
qed

lemma named_append_one:
  "named P (map sk xs) \<Longrightarrow> (\<forall>x\<in>set xs. fst (sk x) \<noteq> fst (sk n)) \<Longrightarrow> P (snd (sk n)) \<Longrightarrow> named P (map sk (xs @ [n]))"
  by (auto simp: named_def)

lemma named_nth: "named P (map sk xs) \<Longrightarrow> i < length xs \<Longrightarrow> P (snd (sk (xs ! i)))"
  by (auto simp: named_def list_all_length)

lemma named_delete:
  assumes "named P (map sk xs)"
  shows "named P (map sk (take d xs @ drop (Suc d) xs))"
proof -
  have "distinct (map f (take d xs @ drop (Suc d) xs))" if "distinct (map f xs)" for f :: "_ \<Rightarrow> 'd"
  proof (cases "d < length xs")
    case True
    then have "map f xs = map f (take d xs) @ f (xs ! d) # map f (drop (Suc d) xs)"
      by (metis id_take_nth_drop list.simps(9) map_append)
    with that show ?thesis by (simp add: disjoint_iff)
  qed (use that in simp)
  from this [of "fst \<circ> sk"] assms show ?thesis
    by (auto simp: named_def list_all_iff dest: in_set_takeD in_set_dropD)
qed

section \<open>The passes keep the skeleton\<close>

lemma walk_map:
  "(\<And>x s. x \<in> set xs \<Longrightarrow> g (snd (fst (f x s))) = g x) \<Longrightarrow> map g (snd (fst (visit f xs s))) = map g xs"
proof (induction xs arbitrary: s)
  case (Cons x xs)
  obtain stop x' s1 where f: "f x s = ((stop, x'), s1)" by (metis surj_pair)
  have "g x' = g x" using Cons.prems [of x s] f by simp
  with Cons f show ?case by (simp split: prod.split) (metis fst_conv snd_conv)
qed simp

lemma in_domain_sk:
  assumes "\<And>n s. nk_key (snd (fst (f n s))) = nk_key n"
  shows "sk_domain (snd (fst (in_domain f d s))) = sk_domain d"
proof -
  obtain stop ks s1 where w: "visit f (nd_key_lst d) s = ((stop, ks), s1)" by (metis surj_pair)
  have "map nk_key (snd (fst (visit f (nd_key_lst d) s))) = map nk_key (nd_key_lst d)" by (rule walk_map) (rule assms)
  then show ?thesis using w by (simp add: in_domain_def sk_domain_def)
qed

lemma in_index_sk:
  assumes "\<And>n s. sk_domain (snd (fst (f n s))) = sk_domain n"
  shows "sk_index (snd (fst (in_index f d s))) = sk_index d"
proof -
  obtain stop ks s1 where w: "visit f (ni_domain_lst d) s = ((stop, ks), s1)" by (metis surj_pair)
  have "map sk_domain (snd (fst (visit f (ni_domain_lst d) s))) = map sk_domain (ni_domain_lst d)" by (rule walk_map) (rule assms)
  then show ?thesis using w by (simp add: in_index_def sk_index_def)
qed

lemma in_set_sk:
  assumes "\<And>n s. sk_index (snd (fst (f n s))) = sk_index n"
  shows "sk_set (snd (fst (in_set f d s))) = sk_set d"
proof -
  obtain stop ks s1 where w: "visit f (ns_index_lst d) s = ((stop, ks), s1)" by (metis surj_pair)
  have "map sk_index (snd (fst (visit f (ns_index_lst d) s))) = map sk_index (ns_index_lst d)" by (rule walk_map) (rule assms)
  then show ?thesis using w by (simp add: in_set_def sk_set_def)
qed

lemma in_dev_sk:
  assumes "\<And>n s. sk_set (snd (fst (f n s))) = sk_set n"
  shows "sk_dev (snd (fst (in_dev f d s))) = sk_dev d"
proof -
  obtain stop ks s1 where w: "visit f (nv_type_lst d) s = ((stop, ks), s1)" by (metis surj_pair)
  have "map sk_set (snd (fst (visit f (nv_type_lst d) s))) = map sk_set (nv_type_lst d)" by (rule walk_map) (rule assms)
  then show ?thesis using w by (simp add: in_dev_def sk_dev_def)
qed

lemma walk_keys_sk:
  assumes "\<And>a b c d n s. nk_key (snd (fst (f a b c d n s))) = nk_key n"
  shows "map sk_dev (snd (fst (walk_keys f ms s))) = map sk_dev ms"
  unfolding walk_keys_def by (intro walk_map in_dev_sk in_set_sk in_index_sk in_domain_sk assms)

lemma report_value_name: "nk_key (snd (fst (report_value L a b c d n j s))) = nk_key n"
  by (auto simp: report_value_def split: prod.split option.split)

lemma do_report_name: "nk_key (snd (fst (do_report L a b c d n s))) = nk_key n"
  by (auto simp: do_report_def report_value_name split: prod.split option.split)

lemma report_key_name: "nk_key (snd (fst (report_key L a b c d n s))) = nk_key n"
  using do_report_name [of L a b c d n "snd s"] by (auto simp: report_key_def split: prod.split)

lemma ack_key_name: "nk_key (snd (fst (ack_key q e n m))) = nk_key n"
  by (simp add: ack_key_def)

lemma sync_index_sk: "sk_index (snd (fst (sync_index a b n c))) = sk_index n"
  by (auto simp: sync_index_def sk_index_def Let_def split: prod.split)

lemma no_stop_fst [simp]: "snd (fst (no_stop r)) = snd (fst r)" "snd (no_stop r) = snd r"
  by (auto simp: no_stop_def split: prod.split)

lemma proc_report_sk [simp]: "map sk_dev (g_shaodw_modules (snd (shadow_proc_report L s))) = map sk_dev (g_shaodw_modules s)"
  using walk_keys_sk [of "report_key L", OF report_key_name, of "g_shaodw_modules s" "(0, s)"]
  by (auto simp: shadow_proc_report_def split: prod.split)

lemma proc_sync_sk [simp]: "map sk_dev (g_shaodw_modules (snd (shadow_proc_sync s))) = map sk_dev (g_shaodw_modules s)"
proof -
  let ?f = "\<lambda>v. in_dev (\<lambda>t c. no_stop (in_set (sync_index (nv_dev_sn v) (ns_type t)) t c)) v"
  have "map sk_dev (snd (fst (visit ?f (g_shaodw_modules s) (0, 0, sh_world s)))) = map sk_dev (g_shaodw_modules s)"
    by (intro walk_map in_dev_sk) (simp, intro in_set_sk sync_index_sk)
  then show ?thesis by (auto simp: shadow_proc_sync_def split: prod.split)
qed

lemma reset_key_name [simp]: "nk_key (reset_key n) = nk_key n"
  by (simp add: reset_key_def)

lemma map_indexes_sk: "(\<And>n. sk_index (f n) = sk_index n) \<Longrightarrow> map sk_dev (map_indexes f ms) = map sk_dev ms"
  by (simp add: map_indexes_def sk_dev_def sk_set_def comp_def)

lemma reset_sk [simp]: "map sk_dev (g_shaodw_modules (shadow_status_reset s)) = map sk_dev (g_shaodw_modules s)"
  by (simp add: shadow_status_reset_def map_indexes_sk reset_index_def sk_index_def sk_domain_def comp_def)

lemma status2sync_sk [simp]: "map sk_dev (g_shaodw_modules (shadow_status2sync s)) = map sk_dev (g_shaodw_modules s)"
  by (simp add: shadow_status2sync_def map_indexes_sk sk_index_def)

lemma reply2report_sk [simp]: "map sk_dev (g_shaodw_modules (shadow_reply2report q e s)) = map sk_dev (g_shaodw_modules s)"
  using walk_keys_sk [of "\<lambda>_ _ _ _. ack_key q e", OF ack_key_name, of "g_shaodw_modules s" "w_mem (sh_world s)"]
  by (auto simp: shadow_reply2report_def upd_sw_def split: prod.split)

lemma upd_at_map: "(\<And>x. g (f x) = g x) \<Longrightarrow> map g (upd_at i f xs) = map g xs"
  by (simp add: upd_at_def map_update list_update_same_conv)

lemma upd_index_sk: "(\<And>n. sk_index (f n) = sk_index n) \<Longrightarrow> map sk_dev (upd_index p f ms) = map sk_dev ms"
  by (auto simp: upd_index_def sk_dev_def sk_set_def upd_at_map split: prod.split)

lemma upd_domain_key_sk: "(\<And>n. nk_key (f n) = nk_key n) \<Longrightarrow> sk_index (upd_domain_key m k f n) = sk_index n"
  by (simp add: upd_domain_key_def sk_index_def sk_domain_def upd_at_map)

lemma sync_disable_sk [simp]:
  "map sk_dev (g_shaodw_modules (shadow_status_sync_disable a b c s)) = map sk_dev (g_shaodw_modules s)"
  by (auto simp: shadow_status_sync_disable_def upd_index_sk sk_index_def split: sum.split)

lemma propertie_changed_sk:
  "map sk_dev (g_shaodw_modules (snd (shadow_core_propertie_changed L a b c d k v s))) = map sk_dev (g_shaodw_modules s)"
proof -
  have "sk_index ((upd_domain_key m j f n)\<lparr>ni_sync_timer := t\<rparr>) = sk_index n" if "\<And>n. nk_key (f n) = nk_key n" for m j f n t
    using upd_domain_key_sk [OF that, of m j n] by (simp add: sk_index_def)
  then show ?thesis
    by (auto simp: shadow_core_propertie_changed_def upd_index_sk split: sum.split prod.split)
qed

text \<open>What the remaining operations do to the register: nothing.\<close>

lemma modules_on_world [simp]:
  "g_shaodw_modules (upd_sw f s) = g_shaodw_modules s" "g_shaodw_modules (snd (on_shw g s)) = g_shaodw_modules s"
  by (simp_all add: upd_sw_def on_shw_def split: prod.split)

lemma sem_post_modules [simp]: "g_shaodw_modules (ezos_sem_post s) = g_shaodw_modules s"
  by (simp add: ezos_sem_post_def split: ez_sem.split)

lemma sem_wait_modules [simp]: "g_shaodw_modules (ezos_sem_enter_wait s) = g_shaodw_modules s"
  by (simp add: ezos_sem_enter_wait_def split: ez_sem.split)

lemma event_modules [simp]: "g_shaodw_modules (shadow_core_event_occured e s) = g_shaodw_modules s"
  by (simp add: shadow_core_event_occured_def Let_def split: shadow_event_type.split)

lemma call_cloud2dev_modules [simp]: "g_shaodw_modules (snd (call_cloud2dev f v p s)) = g_shaodw_modules s"
  by (simp add: call_cloud2dev_def Let_def split: list.split)

lemma on_shw_modules: "on_shw g s = (r, s1) \<Longrightarrow> g_shaodw_modules s1 = g_shaodw_modules s"
  by (metis modules_on_world(2) snd_conv)

lemma call_cloud2dev_modulesD: "call_cloud2dev f v p s = (r, s1) \<Longrightarrow> g_shaodw_modules s1 = g_shaodw_modules s"
  by (metis call_cloud2dev_modules snd_conv)

lemma do_set_modules [simp]: "g_shaodw_modules (snd (do_set L a b c d k v s)) = g_shaodw_modules s"
  by (auto simp: do_set_def Let_def split: sum.split option.split prod.split dest!: on_shw_modules call_cloud2dev_modulesD)

lemma set_item_modules [simp]: "g_shaodw_modules (snd (set_item L a b c j s)) = g_shaodw_modules s"
  by (auto simp: set_item_def Let_def split: option.split prod.split dest!: arg_cong [where f = "\<lambda>x. g_shaodw_modules (snd x)"])

lemma set_items_modules [simp]: "g_shaodw_modules (snd (set_items L a b c js s)) = g_shaodw_modules s"
proof (induction js arbitrary: s)
  case (Cons j js)
  obtain g s1 where 1: "set_item L a b c j s = (g, s1)" by fastforce
  then have "g_shaodw_modules s1 = g_shaodw_modules s" by (metis set_item_modules snd_conv)
  then show ?case using 1 Cons.IH [of s1] by (auto split: prod.split)
qed simp

lemma set_item_modulesD: "set_item L a b c j s = (r, s1) \<Longrightarrow> g_shaodw_modules s1 = g_shaodw_modules s"
  by (metis set_item_modules snd_conv)

lemma set_items_modulesD: "set_items L a b c js s = (r, s1) \<Longrightarrow> g_shaodw_modules s1 = g_shaodw_modules s"
  by (metis set_items_modules snd_conv)

lemma parse_payload_modules: "parse_payload L p s = (j, s1) \<Longrightarrow> g_shaodw_modules s1 = g_shaodw_modules s"
  by (auto simp: parse_payload_def split: option.splits dest: on_shw_modules)

lemma set2dev_modules [simp]: "g_shaodw_modules (snd (shadow_set2dev L a b c p s)) = g_shaodw_modules s"
  by (auto simp: shadow_set2dev_def split: prod.split option.split dest!: parse_payload_modules set_item_modulesD)

lemma reply2query_sk [simp]:
  "map sk_dev (g_shaodw_modules (shadow_reply2query L a b c p s)) = map sk_dev (g_shaodw_modules s)"
  by (auto simp: shadow_reply2query_def split: prod.split option.split dest!: parse_payload_modules set_items_modulesD)

lemma set2dev_modulesD: "shadow_set2dev L a b c p s = (r, s1) \<Longrightarrow> g_shaodw_modules s1 = g_shaodw_modules s"
  by (metis set2dev_modules snd_conv)

lemma cloud_data_in_sk [simp]:
  "map sk_dev (g_shaodw_modules (snd (shadow_core_cloud_data_in L r q t p s))) = map sk_dev (g_shaodw_modules s)"
  by (auto simp: shadow_core_cloud_data_in_def Let_def split: prod.split dest!: set2dev_modulesD)

lemma event_route_sk [simp]:
  "map sk_dev (g_shaodw_modules (shadow_event_route L ev s)) = map sk_dev (g_shaodw_modules s)"
  by (auto simp: shadow_event_route_def split: option.split ez_kernel_event_type.split event_context.split)

lemma data_route_sk [simp]:
  "map sk_dev (g_shaodw_modules (shadow_data_route_cb L msg s)) = map sk_dev (g_shaodw_modules s)"
  by (simp add: shadow_data_route_cb_def)

lemma sh_call_modules [simp]: "g_shaodw_modules (sh_call f c s) = g_shaodw_modules s"
  by (simp add: sh_call_def)

lemma check_status_sk [simp]: "map sk_dev (g_shaodw_modules (check_status_update s)) = map sk_dev (g_shaodw_modules s)"
  by (simp add: check_status_update_def)

lemma proc_do_sk [simp]: "map sk_dev (g_shaodw_modules (snd (shadow_proc_do L s))) = map sk_dev (g_shaodw_modules s)"
proof -
  let ?s1 = "check_status_update s"
  obtain r s2 where 1: "(case g_shadow_status ?s1 of Shadow_status_report \<Rightarrow> shadow_proc_report L ?s1
      | Shadow_status_sync \<Rightarrow> shadow_proc_sync ?s1 | Shadow_status_chg \<Rightarrow> shadow_proc_chg L ?s1) = (r, s2)" by fastforce
  then have "map sk_dev (g_shaodw_modules s2) = map sk_dev (g_shaodw_modules ?s1)"
    using proc_report_sk [of L ?s1] proc_sync_sk [of ?s1]
    by (cases "g_shadow_status ?s1") (simp_all add: shadow_proc_chg_def)
  then show ?thesis by (simp add: shadow_proc_do_def Let_def 1)
qed

lemma pass_sk [simp]: "map sk_dev (g_shaodw_modules (shadow_pass L s)) = map sk_dev (g_shaodw_modules s)"
  using proc_do_sk [of L s] by (cases "shadow_proc_do L s") (simp add: shadow_pass_def)

lemma yeild_sk [simp]: "map sk_dev (g_shaodw_modules (shadow_core_yeild L e s)) = map sk_dev (g_shaodw_modules s)"
  by (simp add: shadow_core_yeild_def)

section \<open>Registration keeps the names distinct\<close>

lemma add_node_named:
  assumes n: "named P (map sk lst)" and a: "add_node (first_index (\<lambda>n. name n = k) lst) fresh lst m = ((r, lst1), m1)"
    and f: "\<And>n. fst (sk n) = name n" "name fresh = k" "P (snd (sk fresh))"
  shows "named P (map sk lst1)" and "r = Some i \<Longrightarrow> i < length lst1 \<and> P (snd (sk (lst1 ! i)))"
proof -
  show 1: "named P (map sk lst1)"
    using a n f named_append_one [of P sk lst fresh]
    by (auto simp: add_node_def first_index_None split: option.splits prod.splits if_splits)
  assume "r = Some i"
  then have "i < length lst1"
    using a by (auto simp: add_node_def first_index_iff split: option.splits prod.splits if_splits)
  with named_nth [OF 1] show "i < length lst1 \<and> P (snd (sk (lst1 ! i)))" by blast
qed

lemma add_keys_distinct:
  assumes "distinct (map nk_key ks)" and "list_all (\<lambda>b. length (sb_key b) \<le> 31) bs"
  shows "distinct (map nk_key (fst (add_keys bs ks m)))"
  using assms
proof (induction bs arbitrary: ks m)
  case (Cons b bs)
  have new: "nk_key (new_key b) = sb_key b" using Cons.prems(2) by (simp add: new_key_def strncpy_id)
  show ?case
  proof (cases "shadow_module_find_key ks (sb_key b)")
    case None
    then have "sb_key b \<notin> set (map nk_key ks)" by (auto simp: shadow_module_find_key_def first_index_None)
    with None Cons new show ?thesis by (auto split: prod.split)
  next
    case (Some i)
    with Cons show ?thesis by (simp add: upd_at_map)
  qed
qed simp

text \<open>The names an application may use: those that fit the fields they are copied to.\<close>

definition props_fit :: "string option \<Rightarrow> ez_shadow_business list option \<Rightarrow> bool" where
  "props_fit dm props \<longleftrightarrow> (case dm of None \<Rightarrow> True | Some n \<Rightarrow> length n \<le> 31) \<and>
     (case props of None \<Rightarrow> True | Some bs \<Rightarrow> list_all (\<lambda>b. length (sb_key b) \<le> 31) bs)"

lemma add_domain_named:
  assumes n: "named distinct (map sk_domain lst)" and p: "props_fit dm props"
    and r: "shadow_module_add_domain lst dm num props m = ((ok, ds, over), m1)"
  shows "named distinct (map sk_domain ds)"
proof (cases "dm = None \<or> props = None \<or> num = 0")
  case True
  then show ?thesis using r n by (auto simp: shadow_module_add_domain_def split: option.splits)
next
  case False
  then obtain name bs where d: "dm = Some name" "props = Some bs" by (cases dm; cases props) auto
  let ?new = "\<lparr>nd_prot_ver = 3, nd_domain_string = strncpy name 31, nd_key_lst = []\<rparr>"
  obtain q lst1 m0 where a: "add_node (first_index (\<lambda>n. nd_domain_string n = name) lst) ?new lst m = ((q, lst1), m0)"
    by (metis surj_pair)
  have f: "fst (sk_domain x) = nd_domain_string x" "nd_domain_string ?new = name" "distinct (snd (sk_domain ?new))" for x
    using p d by (simp_all add: sk_domain_def props_fit_def strncpy_id)
  note na = add_node_named [where sk = sk_domain and name = nd_domain_string and P = distinct, OF n a f]
  show ?thesis
  proof (cases q)
    case None
    then show ?thesis using r False d a na(1) by (simp add: shadow_module_add_domain_def shadow_module_find_domain_def)
  next
    case (Some i)
    note i = na(2) [OF Some]
    obtain ks m2 where k: "add_keys (take (unat num) bs) (nd_key_lst (lst1 ! i)) m0 = (ks, m2)" by fastforce
    have fit: "list_all (\<lambda>b. length (sb_key b) \<le> 31) (take (unat num) bs)"
      using p d by (auto simp: props_fit_def list_all_iff dest: in_set_takeD)
    have "distinct (map nk_key ks)" using i add_keys_distinct [OF _ fit, of "nd_key_lst (lst1 ! i)" m0] k by (simp add: sk_domain_def)
    then have "named distinct (map sk_domain (lst1[i := (lst1 ! i)\<lparr>nd_key_lst := ks\<rparr>]))"
      using i na(1) by (intro named_map_update) (simp_all add: sk_domain_def)
    then show ?thesis
      using r False d a Some k i by (simp add: shadow_module_add_domain_def shadow_module_find_domain_def upd_at_def)
  qed
qed

lemma add_to_index_named:
  assumes "named distinct (snd (sk_index n))" and "props_fit dm props"
    and "add_to_index dm num props n m = ((ok, n1, over), m1)"
  shows "fst (sk_index n1) = fst (sk_index n) \<and> named distinct (snd (sk_index n1))"
  using assms add_domain_named [OF _ assms(2), of "ni_domain_lst n" num m]
  by (auto simp: add_to_index_def sk_index_def split: prod.splits)

lemma add_to_set_named:
  assumes n: "named (named distinct) (snd (sk_set n))" and p: "props_fit dm props"
    and r: "add_to_set ix dm num props n m = ((ok, n1, over), m1)"
  shows "fst (sk_set n1) = fst (sk_set n) \<and> named (named distinct) (snd (sk_set n1))"
proof -
  let ?new = "\<lparr>ni_index = ix, ni_need_sync = True, ni_sync_timer = zero_timer, ni_retry_count = 0, ni_domain_lst = []\<rparr>"
  obtain q lst1 m0 where a: "add_node (first_index (\<lambda>n. ni_index n = ix) (ns_index_lst n)) ?new (ns_index_lst n) m = ((q, lst1), m0)"
    by (metis surj_pair)
  have f: "fst (sk_index x) = ni_index x" "ni_index ?new = ix" "named distinct (snd (sk_index ?new))" for x
    by (simp_all add: sk_index_def named_def)
  have n': "named (named distinct) (map sk_index (ns_index_lst n))" using n by (simp add: sk_set_def)
  note na = add_node_named [where sk = sk_index and name = ni_index and P = "named distinct", OF n' a f]
  have u: "add_to_set ix dm num props n m = (case q of None \<Rightarrow> ((False, n\<lparr>ns_index_lst := lst1\<rparr>, False), m0)
      | Some i \<Rightarrow> (case add_to_index dm num props (lst1 ! i) m0 of ((ok, x, over), m2) \<Rightarrow>
          ((ok, n\<lparr>ns_index_lst := lst1[i := x]\<rparr>, over), m2)))"
    using a by (simp add: add_to_set_def shadow_module_add_index_def shadow_module_find_index_def split: option.split)
  show ?thesis
  proof (cases q)
    case None
    then show ?thesis using r u na(1) by (auto simp: sk_set_def)
  next
    case (Some i)
    note i = na(2) [OF Some]
    obtain o1 x o2 m2 where x: "add_to_index dm num props (lst1 ! i) m0 = ((o1, x, o2), m2)" by (metis surj_pair)
    show ?thesis
      using r u Some x named_map_update [OF na(1)] i add_to_index_named [OF _ p x] by (auto simp: sk_set_def)
  qed
qed

lemma add_to_dev_named:
  assumes n: "named (named (named distinct)) (snd (sk_dev n))" and p: "props_fit dm props" and s: "short_type ty"
    and r: "add_to_dev ty ix dm num props n m = ((ok, n1, over), m1)"
  shows "fst (sk_dev n1) = fst (sk_dev n) \<and> named (named (named distinct)) (snd (sk_dev n1))"
proof -
  let ?new = "\<lparr>ns_type = (if length ty = 0 then strncpy ''global'' 31 else strncpy ty 31), ns_index_lst = []\<rparr>"
  obtain q lst1 m0 where a: "add_node (first_index (\<lambda>n. ns_type n = ty) (nv_type_lst n)) ?new (nv_type_lst n) m = ((q, lst1), m0)"
    by (metis surj_pair)
  have f: "fst (sk_set x) = ns_type x" "ns_type ?new = ty" "named (named distinct) (snd (sk_set ?new))" for x
    using s by (simp_all add: sk_set_def named_def short_type_def strncpy_id)
  have n': "named (named (named distinct)) (map sk_set (nv_type_lst n))" using n by (simp add: sk_dev_def)
  note na = add_node_named [where sk = sk_set and name = ns_type and P = "named (named distinct)", OF n' a f]
  have u: "add_to_dev ty ix dm num props n m = (case q of None \<Rightarrow> ((False, n\<lparr>nv_type_lst := lst1\<rparr>, False), m0)
      | Some i \<Rightarrow> (case add_to_set ix dm num props (lst1 ! i) m0 of ((ok, x, over), m2) \<Rightarrow>
          ((ok, n\<lparr>nv_type_lst := lst1[i := x]\<rparr>, over), m2)))"
    using a by (simp add: add_to_dev_def shadow_module_add_index_set_def shadow_module_find_indexs_def split: option.split)
  show ?thesis
  proof (cases q)
    case None
    then show ?thesis using r u na(1) by (auto simp: sk_dev_def)
  next
    case (Some i)
    note i = na(2) [OF Some]
    obtain o1 x o2 m2 where x: "add_to_set ix dm num props (lst1 ! i) m0 = ((o1, x, o2), m2)" by (metis surj_pair)
    show ?thesis
      using r u Some x named_map_update [OF na(1)] i add_to_set_named [OF _ p x] by (auto simp: sk_dev_def)
  qed
qed

lemma add_to_modules_ok:
  assumes n: "modules_ok ms" and p: "props_fit dm props" and s: "short_type ty" and sn: "short_name 47 sn"
    and r: "add_to_modules sn ty ix dm num props ms m = ((ok, ms1, over), m1)"
  shows "modules_ok ms1"
proof -
  let ?new = "\<lparr>nv_dev_sn = strncpy sn 47, nv_type_lst = []\<rparr>"
  obtain q lst1 m0 where a: "add_node (first_index (\<lambda>n. nv_dev_sn n = sn) ms) ?new ms m = ((q, lst1), m0)"
    by (metis surj_pair)
  have f: "fst (sk_dev x) = nv_dev_sn x" "nv_dev_sn ?new = sn" "named (named (named distinct)) (snd (sk_dev ?new))" for x
    using sn by (simp_all add: sk_dev_def named_def short_name_def strncpy_id)
  note na = add_node_named [where sk = sk_dev and name = nv_dev_sn and P = "named (named (named distinct))",
      OF n [unfolded modules_ok_def] a f]
  have u: "add_to_modules sn ty ix dm num props ms m = (case q of None \<Rightarrow> ((False, lst1, False), m0)
      | Some i \<Rightarrow> (case add_to_dev ty ix dm num props (lst1 ! i) m0 of ((ok, x, over), m2) \<Rightarrow> ((ok, lst1[i := x], over), m2)))"
    using a by (simp add: add_to_modules_def shadow_module_add_dev_def shadow_module_find_dev_def split: option.split)
  show ?thesis
  proof (cases q)
    case None
    then show ?thesis using r u na(1) by (auto simp: modules_ok_def)
  next
    case (Some i)
    note i = na(2) [OF Some]
    obtain o1 x o2 m2 where x: "add_to_dev ty ix dm num props (lst1 ! i) m0 = ((o1, x, o2), m2)" by (metis surj_pair)
    show ?thesis
      using r u Some x named_map_update [OF na(1)] i add_to_dev_named [OF _ p s x] by (auto simp: modules_ok_def)
  qed
qed

end
