(* ===== verification/Shadow_History.thy ===== *)
theory Shadow_History
  imports Shadow_Wf
begin

text \<open>
  The device shadow along every history of calls: the invariant, and the laws of the register as a map (a new value, the
  removal of a device, a complete registration).
\<close>

section \<open>Attempts\<close>

definition all_indexes :: "(node_index \<Rightarrow> bool) \<Rightarrow> shadow_modules \<Rightarrow> bool" where
  "all_indexes P = list_all (\<lambda>v. list_all (\<lambda>t. list_all P (ns_index_lst t)) (nv_type_lst v))"

definition attempts_ok :: "node_index \<Rightarrow> bool" where
  "attempts_ok n \<longleftrightarrow> unat (ni_retry_count n) \<le> CONFIG_EZIOT_SHADOW_FULL_SYNC_RETRY_MAX"

lemma walk_all:
  "(\<And>x s. P x \<Longrightarrow> P (snd (fst (f x s)))) \<Longrightarrow> list_all P xs \<Longrightarrow> list_all P (snd (fst (visit f xs s)))"
proof (induction xs arbitrary: s)
  case (Cons x xs)
  obtain stop x' s1 where f: "f x s = ((stop, x'), s1)" by (metis surj_pair)
  have "P x'" using Cons.prems(1) [of x s] Cons.prems(2) f by simp
  moreover have "list_all P (snd (fst (visit f xs s1)))" using Cons.IH Cons.prems by simp
  ultimately show ?case using f Cons.prems(2) by (cases "visit f xs s1") auto
qed simp

lemma in_set_all:
  assumes "\<And>n s. P n \<Longrightarrow> P (snd (fst (f n s)))" and "list_all P (ns_index_lst t)"
  shows "list_all P (ns_index_lst (snd (fst (in_set f t s))))"
  using walk_all [of P f, OF assms, of s] by (auto simp: in_set_def split: prod.split)

lemma in_dev_all:
  assumes "\<And>n s. P n \<Longrightarrow> P (snd (fst (f n s)))" and "list_all P (nv_type_lst t)"
  shows "list_all P (nv_type_lst (snd (fst (in_dev f t s))))"
  using walk_all [of P f, OF assms, of s] by (auto simp: in_dev_def split: prod.split)

lemma walk_indexes_all:
  assumes "\<And>v t n s. P n \<Longrightarrow> P (snd (fst (f v t n s)))" and "all_indexes P ms"
  shows "all_indexes P (snd (fst (visit (\<lambda>v. in_dev (\<lambda>t. in_set (f v t) t) v) ms s)))"
    and "all_indexes P (snd (fst (visit (\<lambda>v. in_dev (\<lambda>t c. no_stop (in_set (f v t) t c)) v) ms s)))"
proof -
  have p: "list_all P (ns_index_lst (snd (fst (in_set (f v t) t c))))" if "list_all P (ns_index_lst t)" for v t c
    by (rule in_set_all [OF _ that]) (rule assms(1))
  show "all_indexes P (snd (fst (visit (\<lambda>v. in_dev (\<lambda>t. in_set (f v t) t) v) ms s)))"
    using assms(2) unfolding all_indexes_def by (intro walk_all in_dev_all p)
  show "all_indexes P (snd (fst (visit (\<lambda>v. in_dev (\<lambda>t c. no_stop (in_set (f v t) t c)) v) ms s)))"
    using assms(2) unfolding all_indexes_def by (intro walk_all in_dev_all) (simp_all add: p)
qed

lemma in_index_attempts: "attempts_ok n \<Longrightarrow> attempts_ok (snd (fst (in_index f n s)))"
  by (auto simp: in_index_def attempts_ok_def split: prod.split)

lemma sync_index_attempts: "attempts_ok n \<Longrightarrow> attempts_ok (snd (fst (sync_index a b n c)))"
  by (auto simp: sync_index_def attempts_ok_def Let_def split: prod.split)

lemma walk_keys_attempts: "all_indexes attempts_ok ms \<Longrightarrow> all_indexes attempts_ok (snd (fst (walk_keys f ms s)))"
  unfolding walk_keys_def by (rule walk_indexes_all(1)) (rule in_index_attempts)

lemma map_indexes_all:
  "(\<And>n. P n \<Longrightarrow> P (f n)) \<Longrightarrow> all_indexes P ms \<Longrightarrow> all_indexes P (map_indexes f ms)"
  by (auto simp: all_indexes_def map_indexes_def list_all_iff)

lemma upd_at_all: "(\<And>x. P x \<Longrightarrow> P (f x)) \<Longrightarrow> list_all P xs \<Longrightarrow> list_all P (upd_at i f xs)"
  using set_update_subset_insert [of xs i "f (xs ! i)"] by (fastforce simp: upd_at_def list_all_iff)

lemma upd_index_all: "(\<And>n. P n \<Longrightarrow> P (f n)) \<Longrightarrow> all_indexes P ms \<Longrightarrow> all_indexes P (upd_index p f ms)"
  unfolding all_indexes_def upd_index_def by (cases p) (auto intro!: upd_at_all)

lemma list_update_all: "list_all P xs \<Longrightarrow> P x \<Longrightarrow> list_all P (xs[i := x])"
  using set_update_subset_insert [of xs i x] by (auto simp: list_all_iff)

lemma add_node_all:
  assumes "list_all P lst" and "P fresh" and "add_node r fresh lst m = ((q, lst1), m1)" and "\<And>i. r = Some i \<Longrightarrow> i < length lst"
  shows "list_all P lst1 \<and> (\<forall>i. q = Some i \<longrightarrow> P (lst1 ! i))"
  using assms by (auto simp: add_node_def list_all_length nth_append less_Suc_eq split: option.splits prod.splits if_splits)

lemma first_index_less: "first_index P xs = Some i \<Longrightarrow> i < length xs"
  by (simp add: first_index_iff)

lemma add_to_index_attempts: "attempts_ok n \<Longrightarrow> add_to_index dm num ps n m = ((ok, n1, ov), m1) \<Longrightarrow> attempts_ok n1"
  by (auto simp: add_to_index_def attempts_ok_def split: prod.splits)

lemma add_to_set_attempts:
  assumes "list_all attempts_ok (ns_index_lst n)" and r: "add_to_set ix dm num ps n m = ((ok, n1, ov), m1)"
  shows "list_all attempts_ok (ns_index_lst n1)"
proof -
  obtain q lst1 m0 where a: "shadow_module_add_index (ns_index_lst n) ix m = ((q, lst1), m0)" by (metis surj_pair)
  have "list_all attempts_ok lst1 \<and> (\<forall>i. q = Some i \<longrightarrow> attempts_ok (lst1 ! i))"
    by (rule add_node_all [OF assms(1) _ a [unfolded shadow_module_add_index_def]])
      (simp_all add: attempts_ok_def shadow_module_find_index_def first_index_less)
  then show ?thesis
    using r a by (auto simp: add_to_set_def intro!: list_update_all dest: add_to_index_attempts split: option.splits prod.splits)
qed

lemma add_to_dev_attempts:
  assumes "list_all (\<lambda>t. list_all attempts_ok (ns_index_lst t)) (nv_type_lst n)"
    and r: "add_to_dev ty ix dm num ps n m = ((ok, n1, ov), m1)"
  shows "list_all (\<lambda>t. list_all attempts_ok (ns_index_lst t)) (nv_type_lst n1)"
proof -
  obtain q lst1 m0 where a: "shadow_module_add_index_set (nv_type_lst n) ty m = ((q, lst1), m0)" by (metis surj_pair)
  have "list_all (\<lambda>t. list_all attempts_ok (ns_index_lst t)) lst1 \<and> (\<forall>i. q = Some i \<longrightarrow> list_all attempts_ok (ns_index_lst (lst1 ! i)))"
    by (rule add_node_all [OF assms(1) _ a [unfolded shadow_module_add_index_set_def]])
      (simp_all add: shadow_module_find_indexs_def first_index_less)
  then show ?thesis
    using r a by (auto simp: add_to_dev_def intro!: list_update_all dest: add_to_set_attempts split: option.splits prod.splits)
qed

lemma add_to_modules_attempts:
  assumes "all_indexes attempts_ok ms" and r: "add_to_modules sn ty ix dm num ps ms m = ((ok, ms1, ov), m1)"
  shows "all_indexes attempts_ok ms1"
proof -
  obtain q lst1 m0 where a: "shadow_module_add_dev ms sn m = ((q, lst1), m0)" by (metis surj_pair)
  have "all_indexes attempts_ok lst1 \<and> (\<forall>i. q = Some i \<longrightarrow> list_all (\<lambda>t. list_all attempts_ok (ns_index_lst t)) (nv_type_lst (lst1 ! i)))"
    unfolding all_indexes_def
    by (rule add_node_all [OF assms(1) [unfolded all_indexes_def] _ a [unfolded shadow_module_add_dev_def]])
      (simp_all add: shadow_module_find_dev_def first_index_less)
  then show ?thesis
    using r a unfolding all_indexes_def
    by (auto simp: add_to_modules_def intro!: list_update_all dest: add_to_dev_attempts split: option.splits prod.splits)
qed

section \<open>Histories\<close>

datatype shadow_op =
    Shop_init func_ptr
  | Shop_deini
  | Shop_reg "ez_shadow_res option" "string option" "ez_shadow_module option"
  | Shop_push "ez_shadow_res option" "string option" "string option" "ez_shadow_value option"
  | Shop_unreg "string option"
  | Shop_turn bool
  | Shop_event "ez_kernel_event option"
  | Shop_data ez_kernel_submsg_v3
  | Shop_clock ezos_timespec

definition shadow_step :: "libs \<Rightarrow> shadow_op \<Rightarrow> shadow \<Rightarrow> shadow" where
  "shadow_step L p s = (case p of
      Shop_init f \<Rightarrow> snd (ez_iot_shadow_init f s)
    | Shop_deini \<Rightarrow> ez_iot_shadow_deini s
    | Shop_reg r d m \<Rightarrow> snd (ez_iot_shadow_reg r d m s)
    | Shop_push r d k v \<Rightarrow> snd (ez_iot_shadow_push L r d k v s)
    | Shop_unreg sn \<Rightarrow> snd (ez_iot_shadow_unreg sn s)
    | Shop_turn elapsed \<Rightarrow> shadow_core_yeild L elapsed s
    | Shop_event ev \<Rightarrow> shadow_event_route L ev s
    | Shop_data msg \<Rightarrow> shadow_data_route_cb L msg s
    | Shop_clock t \<Rightarrow> upd_sw (\<lambda>w. w\<lparr>now := t\<rparr>) s)"

text \<open>A registration whose names fit the fields of the register.\<close>

definition op_fits :: "shadow_op \<Rightarrow> bool" where
  "op_fits p \<longleftrightarrow> (case p of
      Shop_reg (Some r) d (Some b) \<Rightarrow>
        length (res_dev_serial r) \<le> 47 \<and> short_type (res_res_type r) \<and> props_fit d (sm_business b)
    | _ \<Rightarrow> True)"

definition shadow_inv :: "shadow \<Rightarrow> bool" where
  "shadow_inv s \<longleftrightarrow> modules_ok (g_shaodw_modules s) \<and> all_indexes attempts_ok (g_shaodw_modules s)"

lemma modules_ok_cong: "map sk_dev ms' = map sk_dev ms \<Longrightarrow> modules_ok ms' = modules_ok ms"
  by (simp add: modules_ok_def)

lemma modules_ok_Nil [simp]: "modules_ok []" "all_indexes P []"
  by (simp_all add: modules_ok_def named_def all_indexes_def)

lemma shadow_start_modules:
  "shadow_core_start f s = (ok, s1) \<Longrightarrow> g_shaodw_modules s1 = [] \<or> g_shaodw_modules s1 = g_shaodw_modules s"
  by (auto simp: shadow_core_start_def sh_create_def Let_def on_shw_def split: prod.splits if_splits list.splits bool.splits)

lemma shadow_init_modules:
  "ez_iot_shadow_init f s = (rv, s1) \<Longrightarrow> g_shaodw_modules s1 = [] \<or> g_shaodw_modules s1 = g_shaodw_modules s"
  by (auto simp: ez_iot_shadow_init_def shadow_extern_init_def retried_def split: prod.splits if_splits
      dest!: on_shw_modules shadow_start_modules)

lemma shadow_deini_modules [simp]: "g_shaodw_modules (ez_iot_shadow_deini s) = g_shaodw_modules s"
  by (simp add: ez_iot_shadow_deini_def shadow_core_stop_def shadow_extern_deini_def Let_def)

lemma push_sk: "map sk_dev (g_shaodw_modules (snd (ez_iot_shadow_push L r d k v s))) = map sk_dev (g_shaodw_modules s)"
  using propertie_changed_sk [of L]
  by (auto simp: ez_iot_shadow_push_def split: option.split prod.split) (metis snd_conv)+

text \<open>Attempts under the operations that keep the skeleton.\<close>

abbreviation sh_tries :: "shadow \<Rightarrow> bool" where
  "sh_tries s \<equiv> all_indexes attempts_ok (g_shaodw_modules s)"

lemma propertie_changed_tries:
  "sh_tries s \<Longrightarrow> sh_tries (snd (shadow_core_propertie_changed L a b c d k v s))"
  by (auto simp: shadow_core_propertie_changed_def attempts_ok_def upd_domain_key_def intro!: upd_index_all
      split: sum.split prod.split)

lemma push_tries: "sh_tries s \<Longrightarrow> sh_tries (snd (ez_iot_shadow_push L r d k v s))"
  using propertie_changed_tries [of s L]
  by (auto simp: ez_iot_shadow_push_def split: option.split prod.split) (metis snd_conv)+

lemma reset_tries: "sh_tries s \<Longrightarrow> sh_tries (shadow_status_reset s)"
  by (auto simp: shadow_status_reset_def reset_index_def attempts_ok_def intro!: map_indexes_all)

lemma status2sync_tries: "sh_tries s \<Longrightarrow> sh_tries (shadow_status2sync s)"
  by (auto simp: shadow_status2sync_def attempts_ok_def intro!: map_indexes_all)

lemma reply2report_tries: "sh_tries s \<Longrightarrow> sh_tries (shadow_reply2report q e s)"
  using walk_keys_attempts [of "g_shaodw_modules s" "\<lambda>_ _ _ _. ack_key q e" "w_mem (sh_world s)"]
  by (auto simp: shadow_reply2report_def split: prod.split)

lemma sync_disable_tries: "sh_tries s \<Longrightarrow> sh_tries (shadow_status_sync_disable a b c s)"
  by (auto simp: shadow_status_sync_disable_def attempts_ok_def intro!: upd_index_all split: sum.split)

lemma reply2query_tries: "sh_tries s \<Longrightarrow> sh_tries (shadow_reply2query L a b c p s)"
  by (auto simp: shadow_reply2query_def intro!: sync_disable_tries split: prod.split option.split
      dest!: parse_payload_modules set_items_modulesD)

lemma cloud_data_in_tries: "sh_tries s \<Longrightarrow> sh_tries (snd (shadow_core_cloud_data_in L r q t p s))"
  by (auto simp: shadow_core_cloud_data_in_def Let_def intro!: reply2query_tries reply2report_tries split: prod.split
      dest!: set2dev_modulesD)

lemma event_route_tries: "sh_tries s \<Longrightarrow> sh_tries (shadow_event_route L ev s)"
  by (auto simp: shadow_event_route_def intro!: cloud_data_in_tries
      split: option.split ez_kernel_event_type.split event_context.split)

lemma data_route_tries: "sh_tries s \<Longrightarrow> sh_tries (shadow_data_route_cb L msg s)"
  by (simp add: shadow_data_route_cb_def cloud_data_in_tries)

lemma proc_report_tries: "sh_tries s \<Longrightarrow> sh_tries (snd (shadow_proc_report L s))"
  using walk_keys_attempts [of "g_shaodw_modules s" "report_key L" "(0, s)"]
  by (auto simp: shadow_proc_report_def split: prod.split)

lemma proc_sync_tries: "sh_tries s \<Longrightarrow> sh_tries (snd (shadow_proc_sync s))"
  using walk_indexes_all(2) [of attempts_ok "\<lambda>v t. sync_index (nv_dev_sn v) (ns_type t)", OF sync_index_attempts,
      of "g_shaodw_modules s" "(0, 0, sh_world s)"]
  by (auto simp: shadow_proc_sync_def split: prod.split)

lemma check_status_tries: "sh_tries s \<Longrightarrow> sh_tries (check_status_update s)"
  using reset_tries [of "sh_call (g_notice_pfunc s) Sh_notice s"] status2sync_tries [of s]
  by (simp add: check_status_update_def)

lemma pass_tries:
  assumes "sh_tries s"
  shows "sh_tries (shadow_pass L s)"
proof -
  let ?s1 = "check_status_update s"
  obtain r s2 where 1: "(case g_shadow_status ?s1 of Shadow_status_report \<Rightarrow> shadow_proc_report L ?s1
      | Shadow_status_sync \<Rightarrow> shadow_proc_sync ?s1 | Shadow_status_chg \<Rightarrow> shadow_proc_chg L ?s1) = (r, s2)" by fastforce
  then have "sh_tries s2"
    using proc_report_tries [OF check_status_tries [OF assms], of L] proc_sync_tries [OF check_status_tries [OF assms]]
    by (cases "g_shadow_status ?s1") (simp_all add: shadow_proc_chg_def)
  then show ?thesis by (simp add: shadow_pass_def shadow_proc_do_def Let_def 1)
qed

lemma yeild_tries: "sh_tries s \<Longrightarrow> sh_tries (shadow_core_yeild L e s)"
  using reset_tries [of "s\<lparr>sh_waiting := False\<rparr>"] by (simp add: shadow_core_yeild_def pass_tries)

lemma reg_inv:
  assumes "shadow_inv s" and "op_fits (Shop_reg r d b)"
  shows "shadow_inv (snd (ez_iot_shadow_reg r d b s))"
proof (cases "g_shd_is_inited s \<and> r \<noteq> None \<and> d \<noteq> None \<and> b \<noteq> None")
  case False
  then show ?thesis using assms(1) by (auto simp: ez_iot_shadow_reg_def split: option.split)
next
  case True
  then obtain r' d' b' where x: "r = Some r'" "d = Some d'" "b = Some b'" by blast
  let ?a = "add_to_modules (shadow_sn (res_dev_serial r') s) (res_res_type r') (res_local_index r') d (of_int (sm_num b')) (sm_business b')
    (g_shaodw_modules s) (w_mem (sh_world s))"
  obtain ok ms ov m where a: "?a = ((ok, ms, ov), m)" by (metis surj_pair)
  have sn: "short_name 47 (shadow_sn (res_dev_serial r') s)"
    using assms(2) x by (simp add: op_fits_def shadow_sn_def short_name_def)
  have "modules_ok ms" "all_indexes attempts_ok ms"
    using add_to_modules_ok [OF _ _ _ sn a] add_to_modules_attempts [OF _ a] assms x
    by (simp_all add: shadow_inv_def op_fits_def)
  then show ?thesis using True x a by (simp add: ez_iot_shadow_reg_def shadow_core_module_addv3_def shadow_inv_def)
qed

lemma unreg_inv:
  assumes "shadow_inv s"
  shows "shadow_inv (snd (ez_iot_shadow_unreg d s))"
proof -
  have "modules_ok (take i ms @ drop (Suc i) ms)" if "modules_ok ms" for i ms
    using named_delete that unfolding modules_ok_def by blast
  moreover have "all_indexes attempts_ok (take i ms @ drop (Suc i) ms)" if "all_indexes attempts_ok ms" for i ms
    using that unfolding all_indexes_def list_all_iff by (auto dest: in_set_takeD in_set_dropD)
  ultimately show ?thesis
    using assms by (auto simp: ez_iot_shadow_unreg_def shadow_core_module_clear_def shadow_inv_def split: option.split)
qed

lemma shadow_step_inv:
  assumes i: "shadow_inv s" and f: "op_fits p"
  shows "shadow_inv (shadow_step L p s)"
proof (cases p)
  case (Shop_init x)
  obtain rv s1 where 1: "ez_iot_shadow_init x s = (rv, s1)" by fastforce
  with shadow_init_modules [OF 1] i Shop_init show ?thesis by (auto simp: shadow_step_def shadow_inv_def)
next
  case (Shop_push r d k v)
  with i show ?thesis using push_sk [of L r d k v s] push_tries [of s L]
    by (simp add: shadow_step_def shadow_inv_def modules_ok_def)
qed (use i f reg_inv unreg_inv in \<open>simp_all add: shadow_step_def shadow_inv_def yeild_tries event_route_tries data_route_tries
    modules_ok_def\<close>)

lemma shadow_history_inv: "shadow_inv s \<Longrightarrow> list_all op_fits ps \<Longrightarrow> shadow_inv (fold (shadow_step L) ps s)"
  by (induction ps arbitrary: s) (simp_all add: shadow_step_inv)

section \<open>A new value\<close>

lemma bind_upd_first:
  assumes "first_index (\<lambda>n. name n = x) xs = Some i" and "name (f (xs ! i)) = x"
  shows "Option.bind (find (\<lambda>n. name n = y) (upd_at i f xs)) look =
    (if y = x then look (f (xs ! i)) else Option.bind (find (\<lambda>n. name n = y) xs) look)"
  using find_update_first [OF assms] first_index_less [OF assms(1)] by (simp add: upd_at_def)

lemma bind_first: "first_index (\<lambda>n. name n = x) xs = Some i \<Longrightarrow> Option.bind (find (\<lambda>n. name n = x) xs) look = look (xs ! i)"
  by (simp add: find_first_index)

lemmas shadow_find_defs = shadow_module_find_dev_def shadow_module_find_indexs_def shadow_module_find_index_def
  shadow_module_find_domain_def shadow_module_find_key_def

text \<open>A change through the pointers to a key and to its index.\<close>

lemma upd_key_look:
  assumes l: "locate_key ms sn ty ix dm k = Inr (p, d, j)"
    and f: "\<And>n. nk_key (f n) = nk_key n" and g: "\<And>n. ni_index (g n) = ni_index n" "\<And>n. ni_domain_lst (g n) = ni_domain_lst n"
  shows "reg_key (upd_index p (\<lambda>n. g (upd_domain_key d j f n)) ms) (sn', ty', ix', dm', k') =
    (if (sn', ty', ix', dm', k') = (sn, ty, ix, dm, k) then Some (f (key_at ms (p, d, j)))
     else reg_key ms (sn', ty', ix', dm', k'))"
proof -
  obtain a b c where p: "p = (a, b, c)" by (metis surj_pair)
  let ?v = "ms ! a" let ?t = "nv_type_lst ?v ! b" let ?i = "ns_index_lst ?t ! c" let ?d = "ni_domain_lst ?i ! d"
  have 1: "first_index (\<lambda>n. nv_dev_sn n = sn) ms = Some a" "first_index (\<lambda>n. ns_type n = ty) (nv_type_lst ?v) = Some b"
    "first_index (\<lambda>n. ni_index n = ix) (ns_index_lst ?t) = Some c"
    "first_index (\<lambda>n. nd_domain_string n = dm) (ni_domain_lst ?i) = Some d"
    "first_index (\<lambda>n. nk_key n = k) (nd_key_lst ?d) = Some j"
    using l p by (auto simp: locate_key_def locate_index_def shadow_find_defs index_at_def split: option.splits)
  have names: "nv_dev_sn ?v = sn" "ns_type ?t = ty" "ni_index ?i = ix" "nd_domain_string ?d = dm" "nk_key (nd_key_lst ?d ! j) = k"
    using 1 [THEN first_index_SomeD] by simp_all
  let ?fd = "\<lambda>n. n\<lparr>nd_key_lst := upd_at j f (nd_key_lst n)\<rparr>"
  let ?fi = "\<lambda>n. g (upd_domain_key d j f n)"
  let ?ft = "\<lambda>n. n\<lparr>ns_index_lst := upd_at c ?fi (ns_index_lst n)\<rparr>"
  let ?fv = "\<lambda>n. n\<lparr>nv_type_lst := upd_at b ?ft (nv_type_lst n)\<rparr>"
  have k: "find_key (?fd ?d) k' = (if k' = k then Some (f (nd_key_lst ?d ! j)) else find_key ?d k')"
    using find_key_upd [OF 1(5)] names(5) f by (simp add: find_key_def)
  have d: "Option.bind (find_domain (?fi ?i) dm') (\<lambda>x. find_key x k') =
      (if dm' = dm then find_key (?fd ?d) k' else Option.bind (find_domain ?i dm') (\<lambda>x. find_key x k'))"
    using bind_upd_first [OF 1(4), of ?fd dm' "\<lambda>x. find_key x k'"] names(4)
    by (simp add: find_domain_def g upd_domain_key_def)
  have i: "Option.bind (find_index (?ft ?t) ix') (\<lambda>i. Option.bind (find_domain i dm') (\<lambda>x. find_key x k')) =
      (if ix' = ix then Option.bind (find_domain (?fi ?i) dm') (\<lambda>x. find_key x k')
       else Option.bind (find_index ?t ix') (\<lambda>i. Option.bind (find_domain i dm') (\<lambda>x. find_key x k')))"
    using bind_upd_first [OF 1(3), of ?fi ix' "\<lambda>i. Option.bind (find_domain i dm') (\<lambda>x. find_key x k')"] names(3)
    by (simp add: find_index_def g upd_domain_key_def)
  have t: "dev_key (?fv ?v) ty' ix' dm' k' =
      (if ty' = ty then Option.bind (find_index (?ft ?t) ix') (\<lambda>i. Option.bind (find_domain i dm') (\<lambda>x. find_key x k'))
       else dev_key ?v ty' ix' dm' k')"
    using bind_upd_first [OF 1(2), of ?ft ty'
        "\<lambda>t. Option.bind (find_index t ix') (\<lambda>i. Option.bind (find_domain i dm') (\<lambda>x. find_key x k'))"] names(2)
    by (simp add: dev_key_def find_set_def)
  have v: "reg_key (upd_index p ?fi ms) (sn', ty', ix', dm', k') =
      (if sn' = sn then dev_key (?fv ?v) ty' ix' dm' k' else reg_key ms (sn', ty', ix', dm', k'))"
    using bind_upd_first [OF 1(1), of ?fv sn' "\<lambda>v. dev_key v ty' ix' dm' k'"] names(1)
    by (simp add: reg_key_def find_dev_def upd_index_def p)
  have here: "reg_key ms (sn, ty', ix', dm', k') = dev_key ?v ty' ix' dm' k'"
      "dev_key ?v ty ix' dm' k' = Option.bind (find_index ?t ix') (\<lambda>i. Option.bind (find_domain i dm') (\<lambda>x. find_key x k'))"
      "Option.bind (find_index ?t ix) (\<lambda>i. Option.bind (find_domain i dm') (\<lambda>x. find_key x k')) =
        Option.bind (find_domain ?i dm') (\<lambda>x. find_key x k')"
      "Option.bind (find_domain ?i dm) (\<lambda>x. find_key x k') = find_key ?d k'"
    using bind_first [OF 1(1)] bind_first [OF 1(2)] bind_first [OF 1(3)] bind_first [OF 1(4)]
    by (simp_all add: reg_key_def find_dev_def dev_key_def find_set_def find_index_def find_domain_def)
  show ?thesis
    unfolding v t i d k by (auto simp: here key_at_def index_at_def p)
qed

definition changed_key :: "cJSON option \<Rightarrow> node_key \<Rightarrow> node_key" where
  "changed_key j n = n\<lparr>nk_stat_ver := nk_stat_ver n + 1, nk_need_report := True, nk_msg_seq := 0, nk_json_value := j\<rparr>"

lemma propertie_changed_look:
  assumes "reg_key (g_shaodw_modules s) (shadow_sn sn s, ty, ix, dm, k) = Some n"
  obtains j s1 where "shadow_core_propertie_changed L sn ty ix dm k value s = (0, s1)"
    and "j = fst (tlv2json L value (w_json_delete (nk_json_value n) (sh_world s)))"
    and "\<forall>q. reg_key (g_shaodw_modules s1) q =
      (if q = (shadow_sn sn s, ty, ix, dm, k) then Some (changed_key j n) else reg_key (g_shaodw_modules s) q)"
proof -
  obtain p d i where l: "locate_key (g_shaodw_modules s) (shadow_sn sn s) ty ix dm k = Inr (p, d, i)"
    and n: "n = key_at (g_shaodw_modules s) (p, d, i)"
    using assms by (auto simp: locate_key_reg_key split: sum.splits)
  obtain j w1 where j: "tlv2json L value (w_json_delete (nk_json_value n) (sh_world s)) = (j, w1)" by fastforce
  let ?F = "\<lambda>n. (upd_domain_key d i (changed_key j) n)\<lparr>ni_sync_timer := zero_timer\<rparr>"
  let ?s1 = "s\<lparr>sh_world := w1, g_shaodw_modules := upd_index p ?F (g_shaodw_modules s)\<rparr>"
  have e: "(\<lambda>x. x\<lparr>nk_stat_ver := nk_stat_ver x + 1, nk_need_report := True, nk_msg_seq := 0, nk_json_value := j\<rparr>) = changed_key j"
    by (simp add: changed_key_def fun_eq_iff)
  have r: "shadow_core_propertie_changed L sn ty ix dm k value s = (0, ?s1)"
    using l j by (simp add: shadow_core_propertie_changed_def e flip: n)
  have "reg_key (g_shaodw_modules ?s1) q =
      (if q = (shadow_sn sn s, ty, ix, dm, k) then Some (changed_key j n) else reg_key (g_shaodw_modules s) q)" for q
    using upd_key_look [OF l, of "changed_key j" "\<lambda>n. n\<lparr>ni_sync_timer := zero_timer\<rparr>"] n
    by (cases q) (simp add: changed_key_def)
  with r j show ?thesis using that by simp
qed

lemma propertie_changed_error:
  assumes "reg_key (g_shaodw_modules s) (shadow_sn sn s, ty, ix, dm, k) = None"
  shows "\<exists>e. shadow_core_propertie_changed L sn ty ix dm k value s = (e, s) \<and> 0x60006 \<le> e \<and> e \<le> 0x6000a"
  using assms
  by (auto simp: locate_key_reg_key shadow_core_propertie_changed_def locate_key_def locate_index_def split: sum.splits option.splits)

section \<open>Removal of a device\<close>

lemma find_deleted:
  assumes "distinct (map name xs)" and "first_index (\<lambda>n. name n = x) xs = Some i"
  shows "find (\<lambda>n. name n = y) (take i xs @ drop (Suc i) xs) = (if y = x then None else find (\<lambda>n. name n = y) xs)"
  using assms
proof (induction xs arbitrary: i)
  case (Cons a xs)
  show ?case
  proof (cases "name a = x")
    case True
    then show ?thesis using Cons.prems by (auto simp: find_None_iff) (metis imageI)
  next
    case False
    with Cons.prems obtain i' where "first_index (\<lambda>n. name n = x) xs = Some i'" "i = Suc i'" by auto
    with Cons False show ?thesis by auto
  qed
qed simp

lemma clear_look:
  assumes "modules_ok (g_shaodw_modules s)"
  shows "reg_key (g_shaodw_modules (snd (shadow_core_module_clear sn s))) (sn', q) =
    (if sn' = shadow_sn sn s then None else reg_key (g_shaodw_modules s) (sn', q))"
proof -
  let ?ms = "g_shaodw_modules s"
  have d: "distinct (map nv_dev_sn ?ms)" using assms by (simp add: modules_ok_def named_def sk_dev_def comp_def)
  obtain a b c k where q: "q = (a, b, c, k)" by (metis surj_pair)
  show ?thesis
  proof (cases "first_index (\<lambda>n. nv_dev_sn n = shadow_sn sn s) ?ms")
    case None
    then show ?thesis
      by (auto simp: shadow_core_module_clear_def shadow_module_find_dev_def q reg_key_def find_dev_def find_first_index)
  next
    case (Some i)
    then show ?thesis using find_deleted [OF d Some, of sn']
      by (simp add: shadow_core_module_clear_def shadow_module_find_dev_def q reg_key_def find_dev_def)
  qed
qed

end
