(* ===== verification/Shadow_Map.thy ===== *)
theory Shadow_Map
  imports Shadow_History
begin

text \<open>
  The interface of the device shadow as a map: what registering, pushing a value and unregistering promise about the
  entry of every key, as a locale over an arbitrary state, the consequences drawn from it, and the interpretation on the model.
\<close>

lemma register_all_in:
  assumes "b \<in> set bs" and "sb_key b = k"
  shows "\<exists>n. register_all bs k old = Some n \<and> nk_need_report n"
proof -
  let ?f = "\<lambda>b x. if sb_key b = k then register b x else x"
  have keep: "\<exists>n. fold ?f cs x = Some n \<and> nk_need_report n" if "\<exists>n. x = Some n \<and> nk_need_report n" for cs x
    using that
  proof (induction cs arbitrary: x)
    case (Cons c cs)
    then have "\<exists>n. ?f c x = Some n \<and> nk_need_report n" by (auto simp: register_def)
    then have "\<exists>n. fold ?f cs (?f c x) = Some n \<and> nk_need_report n" by (rule Cons.IH)
    then show ?case by simp
  qed simp
  obtain as cs where s: "bs = as @ b # cs" using split_list [OF assms(1)] by blast
  have "fold ?f bs old = fold ?f cs (register b (fold ?f as old))" using assms(2) by (simp add: s)
  moreover have "\<exists>n. register b (fold ?f as old) = Some n \<and> nk_need_report n"
    by (auto simp: register_def new_key_def split: option.split)
  ultimately show ?thesis using keep [of "register b (fold ?f as old)" cs] by (simp add: register_all_def)
qed

section \<open>Contract\<close>

text \<open>
  \<^verbatim>\<open>canon\<close> is the name under which a serial number is kept, \<^verbatim>\<open>usable\<close> a state in which the calls do not fail for want of
  memory or initialisation, \<^verbatim>\<open>stored\<close> the document a value is kept as.
\<close>

locale property_register =
  fixes look :: "'s \<Rightarrow> key_path \<Rightarrow> node_key option"
    and usable :: "'s \<Rightarrow> bool"
    and canon :: "'s \<Rightarrow> string \<Rightarrow> string"
    and reg :: "string \<Rightarrow> string \<Rightarrow> int \<Rightarrow> string \<Rightarrow> ez_shadow_business list \<Rightarrow> 's \<Rightarrow> ez_err \<times> 's"
    and push :: "string \<Rightarrow> string \<Rightarrow> int \<Rightarrow> string \<Rightarrow> string \<Rightarrow> ez_shadow_value option \<Rightarrow> 's \<Rightarrow> ez_err \<times> 's"
    and unreg :: "string \<Rightarrow> 's \<Rightarrow> ez_err \<times> 's"
    and legal :: "string \<Rightarrow> string \<Rightarrow> string \<Rightarrow> ez_shadow_business list \<Rightarrow> bool"
    and stored :: "ez_shadow_value option \<Rightarrow> node_key \<Rightarrow> 's \<Rightarrow> cJSON option"
  assumes reg_look: "usable s \<Longrightarrow> legal sn ty dm bs \<Longrightarrow> \<exists>s'. reg sn ty ix dm bs s = (0, s') \<and> usable s' \<and> canon s' = canon s \<and>
      (\<forall>v z x y k. look s' (v, z, x, y, k) =
        (let old = look s (v, z, x, y, k) in if (v, z, x, y) = (canon s sn, ty, ix, dm) then register_all bs k old else old))"
    and push_hit: "usable s \<Longrightarrow> look s (canon s sn, ty, ix, dm, k) = Some n \<Longrightarrow>
      \<exists>s'. push sn ty ix dm k v s = (0, s') \<and> usable s' \<and> canon s' = canon s \<and>
        (\<forall>q. look s' q = (if q = (canon s sn, ty, ix, dm, k) then Some (changed_key (stored v n s) n) else look s q))"
    and push_miss: "usable s \<Longrightarrow> look s (canon s sn, ty, ix, dm, k) = None \<Longrightarrow> \<exists>e. push sn ty ix dm k v s = (e, s) \<and> e \<noteq> 0"
    and unreg_look: "usable s \<Longrightarrow> \<exists>s'. unreg sn s = (0, s') \<and> usable s' \<and> canon s' = canon s \<and>
      (\<forall>v q. look s' (v, q) = (if v = canon s sn then None else look s (v, q)))"
begin

text \<open>A registered key takes values, and is due for a report.\<close>

lemma reg_push:
  assumes "usable s" and "legal sn ty dm bs" and "b \<in> set bs"
  shows "\<exists>s1 s2 n. reg sn ty ix dm bs s = (0, s1) \<and> push sn ty ix dm (sb_key b) v s1 = (0, s2) \<and>
    look s2 (canon s sn, ty, ix, dm, sb_key b) = Some n \<and> nk_need_report n \<and> nk_msg_seq n = 0"
proof -
  obtain s1 where r: "reg sn ty ix dm bs s = (0, s1)" "usable s1" "canon s1 = canon s"
    and l: "\<forall>v z x y k. look s1 (v, z, x, y, k) =
        (let old = look s (v, z, x, y, k) in if (v, z, x, y) = (canon s sn, ty, ix, dm) then register_all bs k old else old)"
    using reg_look [OF assms(1,2), of ix] by blast
  obtain n where n: "look s1 (canon s1 sn, ty, ix, dm, sb_key b) = Some n"
    using l register_all_in [OF assms(3) refl, of "look s (canon s sn, ty, ix, dm, sb_key b)"] r(3) by (auto simp: Let_def)
  obtain s2 where "push sn ty ix dm (sb_key b) v s1 = (0, s2)"
      "look s2 (canon s1 sn, ty, ix, dm, sb_key b) = Some (changed_key (stored v n s1) n)"
    using push_hit [OF r(2) n, of v] by auto
  then show ?thesis using r by (auto simp: changed_key_def)
qed

text \<open>After the removal of its device no key takes a value.\<close>

lemma unreg_push:
  assumes "usable s"
  shows "\<exists>s1 e. unreg sn s = (0, s1) \<and> push sn ty ix dm k v s1 = (e, s1) \<and> e \<noteq> 0"
proof -
  obtain s1 where r: "unreg sn s = (0, s1)" "usable s1" "canon s1 = canon s"
    and l: "\<forall>v q. look s1 (v, q) = (if v = canon s sn then None else look s (v, q))"
    using unreg_look [OF assms, of sn] by blast
  have "look s1 (canon s1 sn, ty, ix, dm, k) = None" using l r(3) by simp
  from push_miss [OF r(2) this, of v] r(1) show ?thesis by blast
qed

end

section \<open>The model keeps the contract\<close>

definition shadow_reg :: "string \<Rightarrow> string \<Rightarrow> int \<Rightarrow> string \<Rightarrow> ez_shadow_business list \<Rightarrow> shadow \<Rightarrow> ez_err \<times> shadow" where
  "shadow_reg sn ty ix dm bs =
     ez_iot_shadow_reg (Some \<lparr>res_dev_serial = sn, res_res_type = ty, res_local_index = ix\<rparr>) (Some dm)
       (Some \<lparr>sm_num = int (length bs), sm_business = Some bs\<rparr>)"

definition shadow_push :: "libs \<Rightarrow> string \<Rightarrow> string \<Rightarrow> int \<Rightarrow> string \<Rightarrow> string \<Rightarrow> ez_shadow_value option \<Rightarrow> shadow
    \<Rightarrow> ez_err \<times> shadow" where
  "shadow_push L sn ty ix dm k v =
     ez_iot_shadow_push L (Some \<lparr>res_dev_serial = sn, res_res_type = ty, res_local_index = ix\<rparr>) (Some dm) (Some k) v"

definition shadow_unreg :: "string \<Rightarrow> shadow \<Rightarrow> ez_err \<times> shadow" where
  "shadow_unreg sn = ez_iot_shadow_unreg (Some sn)"

definition shadow_usable :: "shadow \<Rightarrow> bool" where
  "shadow_usable s \<longleftrightarrow> g_shd_is_inited s \<and> mem_plenty (w_mem (sh_world s)) \<and> shadow_inv s"

definition shadow_look :: "shadow \<Rightarrow> key_path \<Rightarrow> node_key option" where
  "shadow_look s = reg_key (g_shaodw_modules s)"

text \<open>The names fit their fields, and the array is as long as a 16-bit number can say.\<close>

definition shadow_legal :: "string \<Rightarrow> string \<Rightarrow> string \<Rightarrow> ez_shadow_business list \<Rightarrow> bool" where
  "shadow_legal sn ty dm bs \<longleftrightarrow> length sn \<le> 47 \<and> ty \<noteq> '''' \<and> length ty \<le> 31 \<and> length dm \<le> 31 \<and> bs \<noteq> [] \<and>
     length bs < 2 ^ 15 \<and> list_all (\<lambda>b. length (sb_key b) \<le> 31) bs"

lemma event_keeps:
  "w_mem (sh_world (shadow_core_event_occured e s)) = w_mem (sh_world s)"
  "g_shd_is_inited (shadow_core_event_occured e s) = g_shd_is_inited s"
  "kernel (sh_world (shadow_core_event_occured e s)) = kernel (sh_world s)"
  by (simp_all add: shadow_core_event_occured_def Let_def ezos_sem_post_def upd_sw_def faulty_def
      split: shadow_event_type.split ez_sem.split)

lemma shadow_sn_cong: "kernel (sh_world s') = kernel (sh_world s) \<Longrightarrow> shadow_sn sn s' = shadow_sn sn s"
  by (simp add: shadow_sn_def ez_kernel_getdevinfo_bykey_def Let_def)

lemma mem_plenty_malloc [simp]: "mem_plenty m \<Longrightarrow> mem_plenty (snd (ezos_malloc m))" "mem_plenty m \<Longrightarrow> fst (ezos_malloc m)"
  by (simp_all add: mem_plenty_def ezos_malloc_def)

lemma plenty_frees [simp]: "mem_plenty (ezos_free m) = mem_plenty m" "mem_plenty (ezos_frees n m) = mem_plenty m" "mem_plenty (cJSON_Delete j m) = mem_plenty m"
    "mem_plenty (m\<lparr>live := i\<rparr>) = mem_plenty m"
  by (simp_all add: mem_plenty_def ezos_free_def ezos_frees_def cJSON_Delete_def split: option.split)

text \<open>The conversion of a value touches the memory only.\<close>

lemma w_json_snd [simp]: "kernel (snd (w_json f w)) = kernel w" "w_mem (snd (w_json f w)) = snd (f (w_mem w))"
  by (simp_all add: w_json_def split: prod.split)

lemma hub_parse_snd [simp]:
  "kernel (snd (hub_parse L t w)) = kernel w" "mem_plenty (w_mem w) \<Longrightarrow> mem_plenty (w_mem (snd (hub_parse L t w)))"
  using mem_plenty_malloc(1) [of "w_mem w"]
  by (cases "ezos_malloc (w_mem w)", auto simp: hub_parse_def w_malloc_def split: option.split)+

lemma new_item_plenty [simp]: "mem_plenty m \<Longrightarrow> mem_plenty (snd (cJSON_New_Item t m))"
  using mem_plenty_malloc(1) [of m] by (cases "ezos_malloc m") (auto simp: cJSON_New_Item_def)

lemma create_plenty [simp]:
  assumes "mem_plenty m"
  shows "mem_plenty (snd (cJSON_CreateBool b m))" "mem_plenty (snd (cJSON_CreateNumber i m))" "mem_plenty (snd (create_string t m))"
proof -
  show "mem_plenty (snd (cJSON_CreateBool b m))" using assms by (simp add: cJSON_CreateBool_def)
  show "mem_plenty (snd (cJSON_CreateNumber i m))"
    using new_item_plenty [OF assms, of cJSON_Number]
    by (cases "cJSON_New_Item cJSON_Number m") (auto simp: cJSON_CreateNumber_def split: option.split)
  obtain j m1 where 1: "cJSON_New_Item cJSON_String m = (j, m1)" by fastforce
  obtain ok m2 where 2: "ezos_malloc m1 = (ok, m2)" by fastforce
  have "mem_plenty m1" using new_item_plenty [OF assms, of cJSON_String] 1 by simp
  then have "mem_plenty m2" using mem_plenty_malloc(1) [of m1] 2 by simp
  with \<open>mem_plenty m1\<close> show "mem_plenty (snd (create_string t m))"
    by (simp add: create_string_def cJSON_CreateString_def 1 2 split: option.split)
qed

lemma tlv2json_keeps:
  "kernel (snd (tlv2json L v w)) = kernel w" "mem_plenty (w_mem w) \<Longrightarrow> mem_plenty (w_mem (snd (tlv2json L v w)))"
  by (simp_all add: tlv2json_def parse_text_def split: option.split ez_shadow_data.split)

lemma shadow_sn_short: "length sn \<le> 47 \<Longrightarrow> short_name 47 (shadow_sn sn s)"
  by (simp add: shadow_sn_def short_name_def)

lemma unat_of_nat_uint16: "n < 2 ^ 15 \<Longrightarrow> unat (of_int (int n) :: uint16) = n"
  by (simp add: unat_of_nat_small)

lemma reg_ok:
  assumes u: "shadow_usable s" and l: "shadow_legal sn ty dm bs"
  shows "\<exists>s'. shadow_reg sn ty ix dm bs s = (0, s') \<and> shadow_usable s' \<and> (\<lambda>v. shadow_sn v s') = (\<lambda>v. shadow_sn v s) \<and>
    (\<forall>v z x y k. shadow_look s' (v, z, x, y, k) =
      (let old = shadow_look s (v, z, x, y, k) in
       if (v, z, x, y) = (shadow_sn sn s, ty, ix, dm) then register_all bs k old else old))"
proof -
  let ?r = "\<lparr>res_dev_serial = sn, res_res_type = ty, res_local_index = ix\<rparr>"
  let ?b = "\<lparr>sm_num = int (length bs), sm_business = Some bs\<rparr>"
  have f: "fine dm bs (of_int (int (length bs)))"
    using l unat_of_nat_uint16 [of "length bs"] by (simp add: fine_def shadow_legal_def)
  have ty: "short_type ty" using l by (simp add: short_type_def shadow_legal_def)
  have sn: "short_name 47 (shadow_sn sn s)" using l by (simp add: shadow_sn_short shadow_legal_def)
  obtain ms1 m1 where a: "add_to_modules (shadow_sn sn s) ty ix (Some dm) (of_int (int (length bs))) (Some bs) (g_shaodw_modules s)
      (w_mem (sh_world s)) = ((True, ms1, False), m1)" and p: "mem_plenty m1"
    and k: "\<forall>v z x y k. reg_key ms1 (v, z, x, y, k) = (let old = reg_key (g_shaodw_modules s) (v, z, x, y, k) in
      if (v, z, x, y) = (shadow_sn sn s, ty, ix, dm) then register_all bs k old else old)"
    using add_to_modules_find [OF _ f ty sn, of "w_mem (sh_world s)" ix "g_shaodw_modules s"] u
    by (auto simp: shadow_usable_def)
  let ?s1 = "upd_sw (\<lambda>w. faulty False (w\<lparr>w_mem := m1\<rparr>)) (s\<lparr>g_shaodw_modules := ms1\<rparr>)"
  have r: "shadow_reg sn ty ix dm bs s = (0, shadow_core_event_occured SHADOW_EVENT_TYPE_ADD ?s1)"
    using a u by (simp add: shadow_reg_def ez_iot_shadow_reg_def shadow_core_module_addv3_def shadow_usable_def)
  have "shadow_inv (snd (ez_iot_shadow_reg (Some ?r) (Some dm) (Some ?b) s))"
    by (rule reg_inv) (use u l in \<open>simp_all add: shadow_usable_def op_fits_def shadow_legal_def short_type_def props_fit_def\<close>)
  then have i: "shadow_inv (shadow_core_event_occured SHADOW_EVENT_TYPE_ADD ?s1)" using r by (simp add: shadow_reg_def)
  have c: "(\<lambda>v. shadow_sn v (shadow_core_event_occured SHADOW_EVENT_TYPE_ADD ?s1)) = (\<lambda>v. shadow_sn v s)"
    by (intro ext shadow_sn_cong) (simp add: event_keeps upd_sw_def faulty_def)
  have v: "shadow_usable (shadow_core_event_occured SHADOW_EVENT_TYPE_ADD ?s1)"
    using u i p by (simp add: shadow_usable_def event_keeps upd_sw_def faulty_def)
  show ?thesis unfolding r by (intro exI conjI, rule refl, rule v, rule c) (use k in \<open>simp add: shadow_look_def\<close>)
qed

text \<open>The document of a pushed value: it is made after the old one was given back.\<close>

definition stored_value :: "libs \<Rightarrow> ez_shadow_value option \<Rightarrow> node_key \<Rightarrow> shadow \<Rightarrow> cJSON option" where
  "stored_value L v n s = fst (tlv2json L v (w_json_delete (nk_json_value n) (sh_world s)))"

lemma push_ok:
  assumes u: "shadow_usable s" and l: "shadow_look s (shadow_sn sn s, ty, ix, dm, k) = Some n"
  shows "\<exists>s'. shadow_push L sn ty ix dm k v s = (0, s') \<and> shadow_usable s' \<and> (\<lambda>v. shadow_sn v s') = (\<lambda>v. shadow_sn v s) \<and>
    (\<forall>q. shadow_look s' q =
      (if q = (shadow_sn sn s, ty, ix, dm, k) then Some (changed_key (stored_value L v n s) n) else shadow_look s q))"
proof -
  let ?w0 = "w_json_delete (nk_json_value n) (sh_world s)"
  obtain s1 where c: "shadow_core_propertie_changed L sn ty ix dm k v s = (0, s1)"
    and q: "\<forall>q. reg_key (g_shaodw_modules s1) q =
      (if q = (shadow_sn sn s, ty, ix, dm, k) then Some (changed_key (stored_value L v n s) n) else reg_key (g_shaodw_modules s) q)"
    using propertie_changed_look [OF l [unfolded shadow_look_def], of L v] unfolding stored_value_def by blast
  obtain p d i where lk: "locate_key (g_shaodw_modules s) (shadow_sn sn s) ty ix dm k = Inr (p, d, i)"
    and n: "n = key_at (g_shaodw_modules s) (p, d, i)"
    using l by (auto simp: shadow_look_def locate_key_reg_key split: sum.splits)
  have w: "sh_world s1 = snd (tlv2json L v ?w0)" and g: "g_shd_is_inited s1 = g_shd_is_inited s"
    using c lk n by (auto simp: shadow_core_propertie_changed_def split: prod.splits)
  have r: "shadow_push L sn ty ix dm k v s = (0, shadow_core_event_occured SHADOW_EVENT_TYPE_REPORT s1)"
    using c u by (simp add: shadow_push_def ez_iot_shadow_push_def shadow_usable_def)
  have "shadow_inv s1"
    using u propertie_changed_sk [of L sn ty ix dm k v s] propertie_changed_tries [of s L sn ty ix dm k v] c
    by (simp add: shadow_usable_def shadow_inv_def modules_ok_def)
  moreover have "mem_plenty (w_mem (sh_world s1))" and kn: "kernel (sh_world s1) = kernel (sh_world s)"
    using u tlv2json_keeps [where L = L and v = v and w = ?w0] by (simp_all add: w shadow_usable_def w_json_delete_def)
  ultimately have v: "shadow_usable (shadow_core_event_occured SHADOW_EVENT_TYPE_REPORT s1)"
    using u g by (simp add: shadow_usable_def shadow_inv_def event_keeps)
  have c: "(\<lambda>v. shadow_sn v (shadow_core_event_occured SHADOW_EVENT_TYPE_REPORT s1)) = (\<lambda>v. shadow_sn v s)"
    by (intro ext shadow_sn_cong) (simp add: event_keeps kn)
  show ?thesis unfolding r by (intro exI conjI, rule refl, rule v, rule c) (use q in \<open>simp add: shadow_look_def\<close>)
qed

lemma push_refused:
  assumes u: "shadow_usable s" and l: "shadow_look s (shadow_sn sn s, ty, ix, dm, k) = None"
  shows "\<exists>e. shadow_push L sn ty ix dm k v s = (e, s) \<and> e \<noteq> 0"
  using propertie_changed_error [OF l [unfolded shadow_look_def], of L v] u
  by (auto simp: shadow_push_def ez_iot_shadow_push_def shadow_usable_def)

lemma free_key_plenty: "mem_plenty (free_key n m) = mem_plenty m" "kernel (w\<lparr>w_mem := m\<rparr>) = kernel w"
  by (simp_all add: free_key_def)

lemma fold_plenty: "(\<And>x m. mem_plenty (f x m) = mem_plenty m) \<Longrightarrow> mem_plenty (fold f xs m) = mem_plenty m"
  by (rule fold_keeps [of mem_plenty f])

lemma free_dev_plenty: "mem_plenty (free_dev n m) = mem_plenty m"
  by (simp add: free_dev_def free_index_set_def free_index_def free_domain_def free_key_plenty fold_plenty)

lemma unreg_ok:
  assumes u: "shadow_usable s"
  shows "\<exists>s'. shadow_unreg sn s = (0, s') \<and> shadow_usable s' \<and> (\<lambda>v. shadow_sn v s') = (\<lambda>v. shadow_sn v s) \<and>
    (\<forall>v q. shadow_look s' (v, q) = (if v = shadow_sn sn s then None else shadow_look s (v, q)))"
proof -
  obtain s1 where c: "shadow_core_module_clear sn s = (0, s1)" by (simp add: shadow_core_module_clear_def)
  have r: "shadow_unreg sn s = (0, s1)" using c u by (simp add: shadow_unreg_def ez_iot_shadow_unreg_def shadow_usable_def)
  have "shadow_inv s1" using unreg_inv [of s "Some sn"] r u by (simp add: shadow_unreg_def shadow_usable_def)
  moreover have "g_shd_is_inited s1 = g_shd_is_inited s" and kn: "kernel (sh_world s1) = kernel (sh_world s)"
      and "mem_plenty (w_mem (sh_world s1)) = mem_plenty (w_mem (sh_world s))"
    using c by (auto simp: shadow_core_module_clear_def upd_sw_def free_dev_plenty split: option.splits)
  moreover have "shadow_look s1 (v, q) = (if v = shadow_sn sn s then None else shadow_look s (v, q))" for v q
    using clear_look [of s sn v q] u c by (simp add: shadow_look_def shadow_usable_def shadow_inv_def)
  moreover have "(\<lambda>v. shadow_sn v s1) = (\<lambda>v. shadow_sn v s)" by (intro ext shadow_sn_cong) (rule kn)
  ultimately show ?thesis using u by (intro exI [of _ s1]) (simp add: r shadow_usable_def)
qed

interpretation shd: property_register shadow_look shadow_usable "\<lambda>s sn. shadow_sn sn s" shadow_reg "shadow_push L" shadow_unreg shadow_legal
    "stored_value L"
  for L
  by unfold_locales (fact reg_ok push_ok push_refused unreg_ok)+

end
