(* ===== verification/Shadow_Sync.thy ===== *)
theory Shadow_Sync
  imports Shadow_Map
begin

text \<open>
  The synchronisation of the device shadow comes to an end: every pass at a time at which the waiting times are over uses up an
  attempt, whether or not the query can be sent, and when no attempts are left the module turns to its last state. The
  measure is the number of attempts left over all indexes.
\<close>

section \<open>Time\<close>

lemma time_isexpired_nanos:
  assumes "ts_wf c" and "ts_wf t"
  shows "time_isexpired c t \<longleftrightarrow> nanos t \<le> nanos c"
  using assms by (auto simp: time_isexpired_def nanos_def ts_wf_def Let_def)

lemma time_countdown_nanos: "nanos (time_countdown c ms) = nanos c + ms * 1000000"
  using countdown_nanos [of c ms] by (simp add: time_countdown_def ezcore_time_countdown_def Let_def)

lemma time_countdown_wf: "ts_wf c \<Longrightarrow> ts_wf (time_countdown c ms)"
  using countdown_wf [of c ms] by (simp add: time_countdown_def ezcore_time_countdown_def Let_def)

section \<open>Attempts left\<close>

definition sync_left :: "node_index \<Rightarrow> nat" where
  "sync_left n = (if ni_need_sync n then CONFIG_EZIOT_SHADOW_FULL_SYNC_RETRY_MAX + 1 - unat (ni_retry_count n) else 0)"

definition set_left :: "node_index_set \<Rightarrow> nat" where
  "set_left t = sum_list (map sync_left (ns_index_lst t))"

definition dev_left :: "node_dev \<Rightarrow> nat" where
  "dev_left v = sum_list (map set_left (nv_type_lst v))"

definition sync_work :: "shadow_modules \<Rightarrow> nat" where
  "sync_work ms = sum_list (map dev_left ms)"

text \<open>A step from \<^verbatim>\<open>a\<close> attempts to \<^verbatim>\<open>b\<close>: never more, fewer when there were any, fewer when the loop stops.\<close>

definition lowers :: "nat \<Rightarrow> nat \<Rightarrow> bool \<Rightarrow> bool" where
  "lowers a b stop \<longleftrightarrow> b \<le> a \<and> (0 < a \<or> stop \<longrightarrow> b < a)"

lemma lowers_add: "lowers a b False \<Longrightarrow> lowers c d stop \<Longrightarrow> lowers (a + c) (b + d) stop" "lowers a b True \<Longrightarrow> lowers (a + c) (b + c) True"
  by (auto simp: lowers_def)

text \<open>The waiting times of the indexes that need it are over by the time \<^verbatim>\<open>T\<close> (in nanoseconds).\<close>

definition due_by :: "int \<Rightarrow> node_index \<Rightarrow> bool" where
  "due_by T n \<longleftrightarrow> (ni_need_sync n \<longrightarrow> tv_sec (ni_sync_timer n) = 0 \<or> ts_wf (ni_sync_timer n) \<and> nanos (ni_sync_timer n) \<le> T)"

abbreviation interval_ns :: int where
  "interval_ns \<equiv> CONFIG_EZIOT_SHADOW_FULL_SYNC_RETRY_INTERVAL * 1000 * 1000000"

section \<open>One index\<close>

lemma send3_keeps:
  assumes "kernel_send3 p w = (r, w1)"
  shows "now w1 = now w"
proof -
  have m: "w_malloc w = (ok, w1) \<Longrightarrow> now w1 = now w" for w ok w1 by (auto simp: w_malloc_def split: prod.splits)
  have g: "genaral_seq w = (sq, w1) \<Longrightarrow> now w1 = now w" for w sq w1 by (auto simp: genaral_seq_def)
  have q: "queue_or_free das_send_pubmsg_async_v3 pubmsg_v3_blocks x w = (rv, w1) \<Longrightarrow> now w1 = now w" for x w rv w1
    by (auto simp: queue_or_free_def das_send_pubmsg_async_v3_def push_queue_pubmsg_exchange_v3_def w_frees_def
        split: prod.splits if_splits)
  show ?thesis
    using assms
    by (auto simp: kernel_send3_def ez_kernel_send_v3_def w_free_def split: prod.splits if_splits dest!: m g q)
qed

lemma query_keeps: "shadow_protocol_query_desired a b i w = (e, w1) \<Longrightarrow> now w1 = now w"
  by (auto simp: shadow_protocol_query_desired_def retried_def split: prod.splits if_splits dest!: send3_keeps)

lemma attempts_left_pos: "attempts_ok n \<Longrightarrow> ni_need_sync n \<Longrightarrow> 0 < sync_left n"
  by (simp add: attempts_ok_def sync_left_def)

lemma retry_step:
  assumes "attempts_ok n"
  shows "unat (ni_retry_count n + 1) = unat (ni_retry_count n) + 1"
proof -
  have "unat (ni_retry_count n) < unat (4 :: uint16)"
    using assms by (simp add: attempts_ok_def CONFIG_EZIOT_SHADOW_FULL_SYNC_RETRY_MAX_def)
  then show ?thesis using unat_suc_below [of "ni_retry_count n" 4] by simp
qed

text \<open>What a pass does to an index whose waiting time is over.\<close>

lemma sync_index_step:
  assumes r: "sync_index a b n (rv, k, w) = ((stop, n1), (rv1, k1, w1))"
    and ok: "attempts_ok n" and d: "due_by T n" and t: "ts_wf (now w)" "T \<le> nanos (now w)"
  shows "lowers (sync_left n) (sync_left n1) stop \<and>
    now w1 = now w \<and> attempts_ok n1 \<and> due_by (nanos (now w) + interval_ns) n1"
proof (cases "ni_need_sync n")
  case False
  then show ?thesis using r ok by (auto simp: sync_index_def sync_left_def due_by_def lowers_def)
next
  case True
  have due: "\<not> (tv_sec (ni_sync_timer n) \<noteq> 0 \<and> \<not> time_isexpired (now w) (ni_sync_timer n))"
    using d True t by (auto simp: due_by_def time_isexpired_nanos)
  define n0 where "n0 = (if tv_sec (ni_sync_timer n) \<noteq> 0 then n\<lparr>ni_sync_timer := zero_timer\<rparr> else n)"
  have n0: "ni_need_sync n0" "ni_retry_count n0 = ni_retry_count n" "tv_sec (ni_sync_timer n0) = 0"
    using True by (simp_all add: n0_def zero_timer_def)
  let ?n2 = "n0\<lparr>ni_retry_count := ni_retry_count n + 1\<rparr>"
  have z: "tv_sec (ni_sync_timer ?n2) = 0" using n0 by simp
  show ?thesis
  proof (cases "unat (ni_retry_count n + 1) > CONFIG_EZIOT_SHADOW_FULL_SYNC_RETRY_MAX")
    case over: True
    have "sync_index a b n (rv, k, w) = ((False, ?n2\<lparr>ni_retry_count := 0, ni_need_sync := False\<rparr>), (rv, k, w))"
      unfolding sync_index_def prod.case if_not_P [OF due] using True n0 over by (simp add: n0_def [symmetric] Let_def)
    then show ?thesis
      using r attempts_left_pos [OF ok True] by (auto simp: sync_left_def due_by_def attempts_ok_def lowers_def)
  next
    case False
    obtain e w2 where q: "shadow_protocol_query_desired a b (ni_index n0) w = (e, w2)" by fastforce
    have ns: "ni_need_sync ?n2" "unat (ni_retry_count ?n2) = unat (ni_retry_count n) + 1" using n0 retry_step [OF ok] by simp_all
    have l: "sync_left (?n2\<lparr>ni_sync_timer := x\<rparr>) < sync_left n" "sync_left ?n2 < sync_left n" for x
      using ns True ok by (auto simp: sync_left_def attempts_ok_def)
    have a: "attempts_ok (?n2\<lparr>ni_sync_timer := x\<rparr>)" "attempts_ok ?n2" for x using False by (auto simp: attempts_ok_def)
    have eq: "sync_index a b n (rv, k, w) = (if e \<noteq> 0 then ((True, ?n2), (- 1, k, w2))
        else ((False, ?n2\<lparr>ni_sync_timer := time_countdown (now w2) (CONFIG_EZIOT_SHADOW_FULL_SYNC_RETRY_INTERVAL * 1000)\<rparr>),
              (rv, k + 1, w2)))"
      unfolding sync_index_def prod.case if_not_P [OF due] using True n0 False q by (simp add: n0_def [symmetric] Let_def)
    have nw: "now w2 = now w" by (rule query_keeps [OF q])
    have d1: "due_by (nanos (now w) + interval_ns) ?n2" using z by (simp add: due_by_def)
    have d2: "due_by (nanos (now w) + interval_ns)
        (?n2\<lparr>ni_sync_timer := time_countdown (now w2) (CONFIG_EZIOT_SHADOW_FULL_SYNC_RETRY_INTERVAL * 1000)\<rparr>)"
      using t(1) by (simp add: due_by_def nw time_countdown_wf time_countdown_nanos)
    have lo: "lowers (sync_left n) (sync_left ?n2) True"
        "lowers (sync_left n) (sync_left (?n2\<lparr>ni_sync_timer := x\<rparr>)) False" for x
      using l(1) [of x] l(2) by (simp_all only: lowers_def) auto
    show ?thesis
    proof (cases "e = 0")
      case False
      then show ?thesis using r eq lo(1) a(2) nw d1 by simp
    next
      case True
      let ?n3 = "?n2\<lparr>ni_sync_timer := time_countdown (now w2) (CONFIG_EZIOT_SHADOW_FULL_SYNC_RETRY_INTERVAL * 1000)\<rparr>"
      have "((False, ?n3), (rv, k + 1, w2)) = ((stop, n1), (rv1, k1, w1))"
        by (rule trans [OF trans [OF _ eq [symmetric]] r]) (use True in simp)
      then have e: "stop = False" "n1 = ?n3" "w1 = w2" unfolding prod.inject by blast+
      show ?thesis unfolding e using lo(2) a(1) nw d2 by blast
    qed
  qed
qed

section \<open>All indexes\<close>

text \<open>A loop whose steps lower a measure, stopping only after it was lowered.\<close>

lemma walk_lowers:
  assumes step: "\<And>x c stop x1 c1. x \<in> set xs \<Longrightarrow> I c \<Longrightarrow> f x c = ((stop, x1), c1) \<Longrightarrow> lowers (m x) (m x1) stop \<and> I c1 \<and> Q x1"
    and weak: "\<And>x. x \<in> set xs \<Longrightarrow> Q x"
    and r: "visit f xs c = ((stop, xs1), c1)" and "I c"
  shows "lowers (sum_list (map m xs)) (sum_list (map m xs1)) stop \<and> I c1 \<and> list_all Q xs1"
  using assms
proof (induction xs arbitrary: c stop xs1 c1)
  case Nil
  then show ?case by (simp add: lowers_def)
next
  case (Cons x xs)
  obtain st x1 c2 where f: "f x c = ((st, x1), c2)" by (metis surj_pair)
  note s = Cons.prems(1) [OF list.set_intros(1) Cons.prems(4) f]
  show ?case
  proof (cases st)
    case True
    then show ?thesis using Cons.prems(2,3) f s by (auto simp: list_all_iff intro: lowers_add)
  next
    case False
    obtain st2 xs2 c3 where w: "visit f xs c2 = ((st2, xs2), c3)" by (metis surj_pair)
    have "lowers (sum_list (map m xs)) (sum_list (map m xs2)) st2 \<and> I c3 \<and> list_all Q xs2"
    proof (rule Cons.IH [OF _ _ w])
      show "lowers (m y) (m x1) stop \<and> I c1 \<and> Q x1"
        if "y \<in> set xs" "I c" "f y c = ((stop, x1), c1)" for y c stop x1 c1
        using that by (intro Cons.prems(1)) auto
      show "Q y" if "y \<in> set xs" for y using that Cons.prems(2) by simp
      show "I c2" using s by simp
    qed
    then show ?thesis using Cons.prems(3) f w False s by (auto intro: lowers_add)
  qed
qed

definition clock_is :: "ezos_timespec \<Rightarrow> int \<times> nat \<times> world \<Rightarrow> bool" where
  "clock_is t c \<longleftrightarrow> now (snd (snd c)) = t"

definition index_fit :: "int \<Rightarrow> node_index \<Rightarrow> bool" where
  "index_fit T n \<longleftrightarrow> attempts_ok n \<and> due_by T n"

definition set_fit :: "int \<Rightarrow> node_index_set \<Rightarrow> bool" where
  "set_fit T t \<longleftrightarrow> list_all (index_fit T) (ns_index_lst t)"

definition dev_fit :: "int \<Rightarrow> node_dev \<Rightarrow> bool" where
  "dev_fit T v \<longleftrightarrow> list_all (set_fit T) (nv_type_lst v)"

lemma index_fit_mono: "index_fit T n \<Longrightarrow> T \<le> T' \<Longrightarrow> index_fit T' n"
  by (auto simp: index_fit_def due_by_def)

lemma later_fit: "ts_wf t \<Longrightarrow> T \<le> nanos t \<Longrightarrow> index_fit T n \<Longrightarrow> index_fit (nanos t + interval_ns) n"
  by (erule index_fit_mono) (simp add: CONFIG_EZIOT_SHADOW_FULL_SYNC_RETRY_INTERVAL_def)

lemma later_set_fit: "ts_wf t \<Longrightarrow> T \<le> nanos t \<Longrightarrow> set_fit T x \<Longrightarrow> set_fit (nanos t + interval_ns) x"
  unfolding set_fit_def list_all_iff using later_fit by blast

lemma later_dev_fit: "ts_wf t \<Longrightarrow> T \<le> nanos t \<Longrightarrow> dev_fit T x \<Longrightarrow> dev_fit (nanos t + interval_ns) x"
  unfolding dev_fit_def list_all_iff using later_set_fit by blast

lemma walk_indexes_lower:
  assumes t: "ts_wf t" "T \<le> nanos t" and x: "set_fit T x" and c: "clock_is t c"
    and r: "in_set (sync_index a b) x c = ((stop, x1), c1)"
  shows "lowers (set_left x) (set_left x1) False \<and> clock_is t c1 \<and> set_fit (nanos t + interval_ns) x1"
proof -
  obtain ns where w: "visit (sync_index a b) (ns_index_lst x) c = ((stop, ns), c1)" and x1: "x1 = x\<lparr>ns_index_lst := ns\<rparr>"
    using r by (auto simp: in_set_def split: prod.splits)
  have "lowers (sum_list (map sync_left (ns_index_lst x))) (sum_list (map sync_left ns)) stop \<and> clock_is t c1 \<and>
      list_all (index_fit (nanos t + interval_ns)) ns"
  proof (rule walk_lowers [where f = "sync_index a b" and I = "clock_is t", OF _ _ w c])
    fix n d st n1 d1 assume n: "n \<in> set (ns_index_lst x)" "clock_is t d" "sync_index a b n d = ((st, n1), d1)"
    obtain u v q where d: "d = (u, v, q)" by (metis surj_pair)
    obtain u1 v1 q1 where d1: "d1 = (u1, v1, q1)" by (metis surj_pair)
    have "index_fit T n" using x n(1) by (simp add: set_fit_def list_all_iff)
    with sync_index_step [OF n(3) [unfolded d d1], of T] n(2) t
    show "lowers (sync_left n) (sync_left n1) st \<and> clock_is t d1 \<and> index_fit (nanos t + interval_ns) n1"
      by (simp add: d d1 clock_is_def index_fit_def)
  next
    fix n assume "n \<in> set (ns_index_lst x)"
    then show "index_fit (nanos t + interval_ns) n" using x later_fit [OF t] by (simp add: set_fit_def list_all_iff)
  qed
  then show ?thesis by (auto simp: x1 set_left_def set_fit_def lowers_def)
qed

lemma walk_sets_lower:
  assumes t: "ts_wf t" "T \<le> nanos t" and v: "dev_fit T v" and c: "clock_is t c"
    and r: "in_dev (\<lambda>x c. no_stop (in_set (sync_index a (ns_type x)) x c)) v c = ((stop, v1), c1)"
  shows "lowers (dev_left v) (dev_left v1) stop \<and> clock_is t c1 \<and> dev_fit (nanos t + interval_ns) v1"
proof -
  let ?f = "\<lambda>x c. no_stop (in_set (sync_index a (ns_type x)) x c)"
  obtain ts where w: "visit ?f (nv_type_lst v) c = ((stop, ts), c1)" and v1: "v1 = v\<lparr>nv_type_lst := ts\<rparr>"
    using r by (auto simp: in_dev_def split: prod.splits)
  have "lowers (sum_list (map set_left (nv_type_lst v))) (sum_list (map set_left ts)) stop \<and> clock_is t c1 \<and>
      list_all (set_fit (nanos t + interval_ns)) ts"
  proof (rule walk_lowers [where f = ?f and I = "clock_is t", OF _ _ w c])
    fix x d st x1 d1 assume x: "x \<in> set (nv_type_lst v)" "clock_is t d" "?f x d = ((st, x1), d1)"
    obtain st0 where i: "in_set (sync_index a (ns_type x)) x d = ((st0, x1), d1)" and st: "st = False"
      using x(3) by (auto simp: no_stop_def split: prod.splits)
    have "set_fit T x" using v x(1) by (simp add: dev_fit_def list_all_iff)
    from walk_indexes_lower [OF t this x(2) i] st
    show "lowers (set_left x) (set_left x1) st \<and> clock_is t d1 \<and> set_fit (nanos t + interval_ns) x1" by simp
  next
    fix x assume "x \<in> set (nv_type_lst v)"
    then show "set_fit (nanos t + interval_ns) x" using v later_set_fit [OF t] by (simp add: dev_fit_def list_all_iff)
  qed
  then show ?thesis by (simp add: v1 dev_left_def dev_fit_def)
qed

text \<open>A pass at a time when no waiting time is running.\<close>

definition all_fit :: "int \<Rightarrow> shadow \<Rightarrow> bool" where
  "all_fit T s \<longleftrightarrow> list_all (dev_fit T) (g_shaodw_modules s)"

lemma proc_sync_lowers:
  assumes t: "ts_wf (now (sh_world s))" "T \<le> nanos (now (sh_world s))" and f: "all_fit T s"
    and r: "shadow_proc_sync s = (rv, s1)"
  shows "lowers (sync_work (g_shaodw_modules s)) (sync_work (g_shaodw_modules s1)) False"
    and "all_fit (nanos (now (sh_world s)) + interval_ns) s1"
proof -
  let ?t = "now (sh_world s)" and ?ms = "g_shaodw_modules s"
  let ?f = "\<lambda>v. in_dev (\<lambda>x c. no_stop (in_set (sync_index (nv_dev_sn v) (ns_type x)) x c)) v"
  obtain x c1 where xc: "visit ?f ?ms (0, 0, sh_world s) = (x, c1)" by (rule prod.exhaust)
  obtain stop ms where x: "x = (stop, ms)" by (rule prod.exhaust)
  obtain rv1 k w1 where c1: "c1 = (rv1, k, w1)" by (rule prod_cases3)
  note w = xc [unfolded x c1]
  have s1: "s1 = s\<lparr>g_shaodw_modules := ms, sh_world := w1\<rparr>" using r unfolding shadow_proc_sync_def w by simp
  have "lowers (sum_list (map dev_left ?ms)) (sum_list (map dev_left ms)) stop \<and> clock_is ?t (rv1, k, w1) \<and>
      list_all (dev_fit (nanos ?t + interval_ns)) ms"
  proof (rule walk_lowers [where f = ?f and I = "clock_is ?t", OF _ _ w])
    fix v d st v1 d1 assume v: "v \<in> set ?ms" "clock_is ?t d" "?f v d = ((st, v1), d1)"
    have "dev_fit T v" using f v(1) by (simp add: all_fit_def list_all_iff)
    from walk_sets_lower [OF t this v(2,3)]
    show "lowers (dev_left v) (dev_left v1) st \<and> clock_is ?t d1 \<and> dev_fit (nanos ?t + interval_ns) v1" .
  next
    fix v assume "v \<in> set ?ms"
    then show "dev_fit (nanos ?t + interval_ns) v" using f later_dev_fit [OF t] by (simp add: all_fit_def list_all_iff)
  next
    show "clock_is ?t (0, 0, sh_world s)" by (simp add: clock_is_def)
  qed
  then show "lowers (sync_work ?ms) (sync_work (g_shaodw_modules s1)) False" "all_fit (nanos ?t + interval_ns) s1"
    by (auto simp: sync_work_def s1 all_fit_def lowers_def)
qed

section \<open>No index left\<close>

lemma walk_skips:
  assumes "\<And>x. x \<in> set xs \<Longrightarrow> f x c = ((False, x), c)"
  shows "visit f xs c = ((False, xs), c)"
  using assms by (induction xs) simp_all

lemma sync_work_0:
  assumes "all_indexes attempts_ok ms" and "sync_work ms = 0"
  shows "all_indexes (\<lambda>n. \<not> ni_need_sync n) ms"
  using assms
  by (auto simp: sync_work_def dev_left_def set_left_def all_indexes_def list_all_iff)
    (metis attempts_left_pos less_numeral_extra(3))

lemma proc_sync_idle:
  assumes n: "all_indexes (\<lambda>n. \<not> ni_need_sync n) (g_shaodw_modules s)"
  shows "shadow_proc_sync s = (0, s)"
proof -
  let ?f = "\<lambda>v. in_dev (\<lambda>x c. no_stop (in_set (sync_index (nv_dev_sn v) (ns_type x)) x c)) v"
  let ?c = "(0, 0, sh_world s)"
  have i: "in_set (sync_index a b) x ?c = ((False, x), ?c)" if "list_all (\<lambda>n. \<not> ni_need_sync n) (ns_index_lst x)" for a b x
  proof -
    have "visit (sync_index a b) (ns_index_lst x) ?c = ((False, ns_index_lst x), ?c)"
      by (rule walk_skips) (use that in \<open>simp add: sync_index_def list_all_iff\<close>)
    then show ?thesis by (simp add: in_set_def)
  qed
  have d: "?f v ?c = ((False, v), ?c)" if "v \<in> set (g_shaodw_modules s)" for v
  proof -
    have "visit (\<lambda>x c. no_stop (in_set (sync_index (nv_dev_sn v) (ns_type x)) x c)) (nv_type_lst v) ?c = ((False, nv_type_lst v), ?c)"
      by (rule walk_skips) (use that n in \<open>simp add: all_indexes_def list_all_iff no_stop_def i\<close>)
    then show ?thesis by (simp add: in_dev_def)
  qed
  have "visit ?f (g_shaodw_modules s) ?c = ((False, g_shaodw_modules s), ?c)" by (rule walk_skips) (rule d)
  then show ?thesis by (simp add: shadow_proc_sync_def)
qed

section \<open>The thread\<close>

definition no_request :: "shadow \<Rightarrow> bool" where
  "no_request s \<longleftrightarrow> \<not> g_need_reset s \<and> \<not> g_need_sync s \<and> \<not> g_need_report s"

lemma check_status_idle: "no_request s \<Longrightarrow> check_status_update s = s"
  by (simp add: check_status_update_def no_request_def)

lemma proc_sync_frame:
  "shadow_proc_sync s = (rv, s1) \<Longrightarrow> no_request s1 = no_request s \<and> g_shadow_status s1 = g_shadow_status s"
  by (auto simp: shadow_proc_sync_def no_request_def split: prod.splits)

lemma walk_state: "(\<And>x c. g (snd (f x c)) = g c) \<Longrightarrow> g (snd (visit f xs c)) = g c"
proof (induction xs arbitrary: c)
  case (Cons x xs)
  obtain st x1 c1 where f: "f x c = ((st, x1), c1)" by (metis surj_pair)
  have "g c1 = g c" using Cons.prems [of x c] f by simp
  moreover have "g (snd (visit f xs c1)) = g c1" by (rule Cons.IH) (rule Cons.prems)
  ultimately show ?case using f by (auto split: prod.split)
qed simp

lemma walk_keys_state:
  assumes "\<And>a b c d n s. g (snd (f a b c d n s)) = g s"
  shows "g (snd (walk_keys f ms s)) = g s"
proof -
  have 1: "g (snd (in_domain (f a b c d) n s)) = g s" for a b c d n s
    using walk_state [of g "f a b c d" "nd_key_lst n" s, OF assms] by (simp add: in_domain_def split: prod.split) (metis snd_conv)
  have 2: "g (snd (in_index (\<lambda>x. in_domain (f a b c (nd_domain_string x)) x) n s)) = g s" for a b c n s
    using walk_state [of g "\<lambda>x. in_domain (f a b c (nd_domain_string x)) x" "ni_domain_lst n" s, OF 1]
    by (simp add: in_index_def split: prod.split) (metis snd_conv)
  have 3: "g (snd (in_set (\<lambda>i. in_index (\<lambda>x. in_domain (f a b (ni_index i) (nd_domain_string x)) x) i) n s)) = g s" for a b n s
    using walk_state [of g "\<lambda>i. in_index (\<lambda>x. in_domain (f a b (ni_index i) (nd_domain_string x)) x) i" "ns_index_lst n" s, OF 2]
    by (simp add: in_set_def split: prod.split) (metis snd_conv)
  have 4: "g (snd (in_dev (\<lambda>t. in_set (\<lambda>i. in_index (\<lambda>x. in_domain (f a (ns_type t) (ni_index i) (nd_domain_string x)) x) i) t) n s)) = g s"
    for a n s
    using walk_state [of g "\<lambda>t. in_set (\<lambda>i. in_index (\<lambda>x. in_domain (f a (ns_type t) (ni_index i) (nd_domain_string x)) x) i) t"
        "nv_type_lst n" s, OF 3]
    by (simp add: in_dev_def split: prod.split) (metis snd_conv)
  show ?thesis unfolding walk_keys_def by (rule walk_state) (rule 4)
qed

text \<open>The parts of the state that reporting does not touch.\<close>

definition sh_frame :: "shadow \<Rightarrow> bool \<times> bool \<times> bool \<times> shadow_core_status \<times> bool \<times> bool \<times> bool" where
  "sh_frame s = (g_need_reset s, g_need_sync s, g_need_report s, g_shadow_status s, sh_running s, g_is_online s, sh_waiting s)"

lemma on_shw_frame [simp]: "sh_frame (snd (on_shw f s)) = sh_frame s"
  by (simp add: on_shw_def sh_frame_def split: prod.split)

lemma on_shw_frameD: "on_shw f s = (r, s1) \<Longrightarrow> sh_frame s1 = sh_frame s"
  by (metis on_shw_frame snd_conv)

lemma report_value_frame: "sh_frame (snd (report_value L a b c d n j s)) = sh_frame s"
  by (auto simp: report_value_def split: prod.split option.split dest!: on_shw_frameD)

lemma call_dev2cloud_frame: "call_dev2cloud f p s = (r, s1) \<Longrightarrow> sh_frame s1 = sh_frame s"
  by (auto simp: call_dev2cloud_def sh_frame_def upd_sw_def Let_def split: list.splits)

lemma do_report_frame: "sh_frame (snd (do_report L a b c d n s)) = sh_frame s"
  by (auto simp: do_report_def report_value_frame split: prod.split option.split dest!: on_shw_frameD call_dev2cloud_frame)

lemma proc_report_frame: "sh_frame (snd (shadow_proc_report L s)) = sh_frame s"
proof -
  have "sh_frame (snd (snd (report_key L a b c d n x))) = sh_frame (snd x)" for a b c d n x
    using do_report_frame [of L a b c d n "snd x"] by (auto simp: report_key_def split: prod.split)
  from walk_keys_state [of "\<lambda>x. sh_frame (snd x)" "report_key L", OF this, of "g_shaodw_modules s" "(0, s)"]
  show ?thesis by (auto simp: shadow_proc_report_def sh_frame_def split: prod.split)
qed

text \<open>A pass at a given time.\<close>

definition pass_at :: "libs \<Rightarrow> ezos_timespec \<Rightarrow> shadow \<Rightarrow> shadow" where
  "pass_at L t s = shadow_pass L (upd_sw (\<lambda>w. w\<lparr>now := t\<rparr>) s)"

lemma pass_chg:
  assumes "no_request s" and "g_shadow_status s = Shadow_status_chg"
  shows "no_request (pass_at L t s) \<and> g_shadow_status (pass_at L t s) = Shadow_status_chg"
proof -
  let ?s = "upd_sw (\<lambda>w. w\<lparr>now := t\<rparr>) s"
  have n: "no_request ?s" "g_shadow_status ?s = Shadow_status_chg" using assms by (simp_all add: no_request_def upd_sw_def)
  obtain rv s1 where r: "shadow_proc_report L ?s = (rv, s1)" by fastforce
  have "sh_frame s1 = sh_frame ?s" using proc_report_frame [of L ?s] r by simp
  then have "no_request s1" "g_shadow_status s1 = Shadow_status_chg" using n by (simp_all add: sh_frame_def no_request_def)
  then show ?thesis
    by (simp add: pass_at_def shadow_pass_def shadow_proc_do_def check_status_idle [OF n(1)] n(2) shadow_proc_chg_def r no_request_def)
qed

lemma all_fit_attempts: "all_fit T s \<Longrightarrow> all_indexes attempts_ok (g_shaodw_modules s)"
  by (auto simp: all_fit_def dev_fit_def set_fit_def index_fit_def all_indexes_def list_all_iff)

text \<open>A pass while queries may be open: it uses up attempts, or there were none and the synchronisation is over.\<close>

lemma pass_sync:
  assumes "no_request s" and "g_shadow_status s = Shadow_status_sync" and "all_fit T s" and "ts_wf t" and "T \<le> nanos t"
  obtains "no_request (pass_at L t s)" and "g_shadow_status (pass_at L t s) = Shadow_status_chg"
  | "no_request (pass_at L t s)" and "g_shadow_status (pass_at L t s) = Shadow_status_sync"
    and "all_fit (nanos t + interval_ns) (pass_at L t s)"
    and "sync_work (g_shaodw_modules (pass_at L t s)) < sync_work (g_shaodw_modules s)"
proof -
  let ?s = "upd_sw (\<lambda>w. w\<lparr>now := t\<rparr>) s"
  have n: "no_request ?s" "g_shadow_status ?s = Shadow_status_sync" "now (sh_world ?s) = t" and f: "all_fit T ?s"
    using assms by (simp_all add: no_request_def upd_sw_def all_fit_def)
  obtain rv s1 where r: "shadow_proc_sync ?s = (rv, s1)" by fastforce
  have q: "no_request s1" "g_shadow_status s1 = Shadow_status_sync" using proc_sync_frame [OF r] n by simp_all
  have lo: "lowers (sync_work (g_shaodw_modules s)) (sync_work (g_shaodw_modules s1)) False"
    and f1: "all_fit (nanos t + interval_ns) s1"
    using proc_sync_lowers [OF _ _ f r] n assms(4,5) by simp_all
  have p: "pass_at L t s = (if rv = 0 then s1\<lparr>g_shadow_status := Shadow_status_chg, sh_proc_result := 2\<rparr>
      else s1\<lparr>sh_proc_result := rv\<rparr>)"
    by (simp add: pass_at_def shadow_pass_def shadow_proc_do_def check_status_idle [OF n(1)] n(2) r q next_status_def)
  show thesis
  proof (cases "rv = 0")
    case True
    then show ?thesis using p q that(1) by (simp add: no_request_def)
  next
    case False
    have "sync_work (g_shaodw_modules s) \<noteq> 0"
    proof
      assume "sync_work (g_shaodw_modules s) = 0"
      then have "all_indexes (\<lambda>n. \<not> ni_need_sync n) (g_shaodw_modules ?s)"
        using sync_work_0 [OF all_fit_attempts [OF f]] by simp
      from proc_sync_idle [OF this] r False show False by simp
    qed
    then show ?thesis using p q lo f1 False by (intro that(2)) (simp_all add: no_request_def all_fit_def lowers_def)
  qed
qed

section \<open>Messages from the cloud\<close>

text \<open>What a message leaves as it is: the requests to the thread and its state.\<close>

definition sync_frame :: "shadow \<Rightarrow> bool \<times> bool \<times> bool \<times> shadow_core_status" where
  "sync_frame s = (g_need_reset s, g_need_sync s, g_need_report s, g_shadow_status s)"

lemma sync_frame_simps [simp]:
  "sync_frame (upd_sw f s) = sync_frame s" "sync_frame (s\<lparr>g_shaodw_modules := ms\<rparr>) = sync_frame s"
  "sync_frame (snd (on_shw g s)) = sync_frame s"
  "sync_frame (shadow_core_event_occured SHADOW_EVENT_TYPE_RECV s) = sync_frame s"
  by (simp_all add: sync_frame_def upd_sw_def on_shw_def shadow_core_event_occured_def ezos_sem_post_def Let_def
      split: prod.split ez_sem.split)

lemma on_shw_sync_frame: "on_shw g s = (r, s1) \<Longrightarrow> sync_frame s1 = sync_frame s"
  by (metis snd_conv sync_frame_simps(3))

lemma call_cloud2dev_sync_frame: "call_cloud2dev f v p s = (r, s1) \<Longrightarrow> sync_frame s1 = sync_frame s"
  by (auto simp: call_cloud2dev_def sync_frame_def Let_def split: list.splits)

lemma do_set_sync_frame: "do_set L a b c d k v s = (r, s1) \<Longrightarrow> sync_frame s1 = sync_frame s"
  by (auto simp: do_set_def Let_def split: sum.splits option.splits prod.splits if_splits
      dest!: on_shw_sync_frame call_cloud2dev_sync_frame)

lemma set_item_sync_frame: "set_item L a b c i s = (r, s1) \<Longrightarrow> sync_frame s1 = sync_frame s"
  by (auto simp: set_item_def Let_def split: option.splits prod.splits dest!: do_set_sync_frame)

lemma set_items_sync_frame: "set_items L a b c cs s = (r, s1) \<Longrightarrow> sync_frame s1 = sync_frame s"
  by (induction cs arbitrary: s r s1) (fastforce split: prod.splits dest!: set_item_sync_frame)+

lemma parse_payload_sync_frame: "parse_payload L p s = (r, s1) \<Longrightarrow> sync_frame s1 = sync_frame s"
  by (auto simp: parse_payload_def split: option.splits dest!: on_shw_sync_frame)

lemma set2dev_sync_frame: "shadow_set2dev L a b c p s = (r, s1) \<Longrightarrow> sync_frame s1 = sync_frame s"
  by (auto simp: shadow_set2dev_def split: prod.splits option.splits dest!: parse_payload_sync_frame set_item_sync_frame)

lemma reply2query_sync_frame: "sync_frame (shadow_reply2query L a b c p s) = sync_frame s"
  by (auto simp: shadow_reply2query_def shadow_status_sync_disable_def split: prod.split option.split sum.split
      dest!: parse_payload_sync_frame set_items_sync_frame)

lemma reply2report_sync_frame: "sync_frame (shadow_reply2report q e s) = sync_frame s"
  by (simp add: shadow_reply2report_def split: prod.split)

lemma cloud_data_in_sync_frame: "sync_frame (snd (shadow_core_cloud_data_in L r q t p s)) = sync_frame s"
  by (auto simp: shadow_core_cloud_data_in_def Let_def reply2query_sync_frame reply2report_sync_frame split: prod.split
      dest!: set2dev_sync_frame)

text \<open>No message gives attempts back: a reply ends the queries of its index, the others leave the indexes alone.\<close>

lemma walk_le:
  fixes m :: "'a \<Rightarrow> nat"
  assumes "\<And>x s. m (snd (fst (f x s))) \<le> m x"
  shows "sum_list (map m (snd (fst (visit f xs s)))) \<le> sum_list (map m xs)"
proof (induction xs arbitrary: s)
  case (Cons x xs)
  obtain st x1 s1 where f: "f x s = ((st, x1), s1)" by (metis surj_pair)
  obtain st2 xs2 s2 where v: "visit f xs s1 = ((st2, xs2), s2)" by (metis surj_pair)
  show ?case using assms [of x s] Cons.IH [of s1] by (simp add: f v add_mono)
qed simp

lemma upd_at_le:
  fixes m :: "'a \<Rightarrow> nat"
  assumes "\<And>x. m (f x) \<le> m x"
  shows "sum_list (map m (upd_at i f xs)) \<le> sum_list (map m xs)"
proof (cases "i < length xs")
  case True
  have "sum_list (map m xs) = sum_list (map m (take i xs)) + (m (xs ! i) + sum_list (map m (drop (Suc i) xs)))"
    using id_take_nth_drop [OF True] by (metis list.simps(9) map_append sum_list.Cons sum_list.append)
  moreover have "upd_at i f xs = take i xs @ f (xs ! i) # drop (Suc i) xs"
    using True by (simp add: upd_at_def upd_conv_take_nth_drop)
  ultimately show ?thesis using assms [of "xs ! i"] by simp
qed (simp add: upd_at_def list_update_beyond)

lemma walk_keys_work: "sync_work (snd (fst (walk_keys f ms s))) \<le> sync_work ms"
proof -
  have "sync_left (snd (fst (in_index g n s))) \<le> sync_left n" for g :: "node_domain \<Rightarrow> 'a \<Rightarrow> (bool \<times> node_domain) \<times> 'a" and n s
    by (simp add: in_index_def sync_left_def split: prod.split)
  then have 1: "set_left (snd (fst (in_set (\<lambda>i. in_index (h i) i) t s))) \<le> set_left t"
    for h :: "node_index \<Rightarrow> node_domain \<Rightarrow> 'a \<Rightarrow> (bool \<times> node_domain) \<times> 'a" and t s
    using walk_le [of sync_left "\<lambda>i. in_index (h i) i" "ns_index_lst t" s] by (auto simp: in_set_def set_left_def split: prod.split)
  have 2: "dev_left (snd (fst (in_dev (\<lambda>t. in_set (\<lambda>i. in_index (h t i) i) t) v s))) \<le> dev_left v"
    for h :: "node_index_set \<Rightarrow> node_index \<Rightarrow> node_domain \<Rightarrow> 'a \<Rightarrow> (bool \<times> node_domain) \<times> 'a" and v s
    using walk_le [of set_left "\<lambda>t. in_set (\<lambda>i. in_index (h t i) i) t" "nv_type_lst v" s, OF 1]
    by (auto simp: in_dev_def dev_left_def split: prod.split)
  show ?thesis unfolding walk_keys_def sync_work_def by (rule walk_le) (rule 2)
qed

lemma upd_index_work:
  assumes "\<And>n. sync_left (f n) \<le> sync_left n"
  shows "sync_work (upd_index p f ms) \<le> sync_work ms"
proof -
  obtain d t i where p: "p = (d, t, i)" by (rule prod_cases3)
  have 1: "set_left (n\<lparr>ns_index_lst := upd_at i f (ns_index_lst n)\<rparr>) \<le> set_left n" for n
    using upd_at_le [of sync_left f, OF assms] by (simp add: set_left_def)
  have 2: "dev_left (n\<lparr>nv_type_lst := upd_at t (\<lambda>n. n\<lparr>ns_index_lst := upd_at i f (ns_index_lst n)\<rparr>) (nv_type_lst n)\<rparr>) \<le> dev_left n" for n
    using upd_at_le [of set_left, OF 1] by (simp add: dev_left_def)
  show ?thesis unfolding sync_work_def p upd_index_def prod.case by (rule upd_at_le) (rule 2)
qed

definition calmer :: "shadow_modules \<Rightarrow> shadow_modules \<Rightarrow> bool" where
  "calmer ms ms1 \<longleftrightarrow> sync_work ms1 \<le> sync_work ms \<and> (\<forall>T. all_indexes (index_fit T) ms \<longrightarrow> all_indexes (index_fit T) ms1)"

lemma calmer_refl [simp]: "calmer ms ms"
  by (simp add: calmer_def)

lemma sync_disable_calmer: "calmer (g_shaodw_modules s) (g_shaodw_modules (shadow_status_sync_disable a b c s))"
  by (auto simp: shadow_status_sync_disable_def calmer_def sync_left_def index_fit_def attempts_ok_def due_by_def
      intro!: upd_index_work upd_index_all split: sum.split)

lemma reply2report_calmer: "calmer (g_shaodw_modules s) (g_shaodw_modules (shadow_reply2report q e s))"
proof -
  have "index_fit T (snd (fst (in_index f n m)))" if "index_fit T n" for T f n and m :: mem
    using that by (simp add: in_index_def index_fit_def attempts_ok_def due_by_def split: prod.split)
  then have "all_indexes (index_fit T) (snd (fst (walk_keys f ms m)))" if "all_indexes (index_fit T) ms" for T f ms and m :: mem
    using that unfolding walk_keys_def by (intro walk_indexes_all(1))
  note fit = this
  obtain st ms m where w: "walk_keys (\<lambda>_ _ _ _. ack_key q e) (g_shaodw_modules s) (w_mem (sh_world s)) = ((st, ms), m)"
    by (metis surj_pair)
  then have "g_shaodw_modules (shadow_reply2report q e s) = ms" by (simp add: shadow_reply2report_def upd_sw_def)
  moreover have "sync_work ms \<le> sync_work (g_shaodw_modules s)"
    using walk_keys_work [of "\<lambda>_ _ _ _. ack_key q e" "g_shaodw_modules s" "w_mem (sh_world s)"] by (simp add: w)
  moreover have "all_indexes (index_fit T) ms" if "all_indexes (index_fit T) (g_shaodw_modules s)" for T
    using fit [OF that, of "\<lambda>_ _ _ _. ack_key q e" "w_mem (sh_world s)"] by (simp add: w)
  ultimately show ?thesis by (simp add: calmer_def)
qed

lemma cloud_data_in_calmer: "calmer (g_shaodw_modules s) (g_shaodw_modules (snd (shadow_core_cloud_data_in L r q t p s)))"
proof -
  have "calmer (g_shaodw_modules s) (g_shaodw_modules (shadow_reply2query L a b c x (upd_sw f s)))" for a b c x f
    using sync_disable_calmer
    by (auto simp: shadow_reply2query_def split: prod.split option.split dest!: parse_payload_modules set_items_modulesD)
      (metis sync_disable_calmer)+
  moreover have "calmer (g_shaodw_modules s) (g_shaodw_modules (shadow_reply2report q e (upd_sw f s)))" for e f
    using reply2report_calmer [of "upd_sw f s" q e] by simp
  ultimately show ?thesis
    by (auto simp: shadow_core_cloud_data_in_def Let_def split: prod.split dest!: set2dev_modulesD)
qed

lemma all_fit_indexes: "all_fit T s \<longleftrightarrow> all_indexes (index_fit T) (g_shaodw_modules s)"
  by (simp add: all_fit_def dev_fit_def [abs_def] set_fit_def [abs_def] all_indexes_def)

section \<open>Passes and messages\<close>

text \<open>What happens during the synchronisation: a pass of the thread at some time, or a message from the cloud.\<close>

datatype sync_event = Pass ezos_timespec | Message "ez_shadow_res option" uint32 string shadow_payload

fun sync_do :: "libs \<Rightarrow> sync_event \<Rightarrow> shadow \<Rightarrow> shadow" where
  "sync_do L (Pass t) s = pass_at L t s"
| "sync_do L (Message r q ty p) s = snd (shadow_core_cloud_data_in L r q ty p s)"

fun is_pass :: "sync_event \<Rightarrow> bool" where
  "is_pass (Pass t) = True"
| "is_pass (Message r q ty p) = False"

text \<open>The passes leave the waiting time of a query between them; messages may come at any time.\<close>

fun spaced :: "int \<Rightarrow> sync_event list \<Rightarrow> bool" where
  "spaced T [] = True"
| "spaced T (Pass t # es) = (ts_wf t \<and> T \<le> nanos t \<and> spaced (nanos t + interval_ns) es)"
| "spaced T (Message r q ty p # es) = spaced T es"

lemma message_keeps:
  assumes "no_request s"
  shows "no_request (sync_do L (Message r q ty p) s)"
    and "g_shadow_status (sync_do L (Message r q ty p) s) = g_shadow_status s"
    and "all_fit T s \<Longrightarrow> all_fit T (sync_do L (Message r q ty p) s)"
    and "sync_work (g_shaodw_modules (sync_do L (Message r q ty p) s)) \<le> sync_work (g_shaodw_modules s)"
  using cloud_data_in_sync_frame [of L r q ty p s] cloud_data_in_calmer [of s L r q ty p] assms
  by (simp_all add: no_request_def sync_frame_def calmer_def all_fit_indexes)

lemma events_chg:
  "no_request s \<Longrightarrow> g_shadow_status s = Shadow_status_chg \<Longrightarrow> g_shadow_status (fold (sync_do L) es s) = Shadow_status_chg"
proof (induction es arbitrary: s)
  case (Cons e es)
  then show ?case using pass_chg [of s L] message_keeps(1,2) [of s L] by (cases e) (auto simp del: sync_do.simps(2))
qed simp

lemma sync_events_end:
  assumes "no_request s" and "g_shadow_status s = Shadow_status_sync" and "all_fit T s" and "spaced T es"
    and "sync_work (g_shaodw_modules s) < length (filter is_pass es)"
  shows "g_shadow_status (fold (sync_do L) es s) = Shadow_status_chg"
  using assms
proof (induction T es arbitrary: s rule: spaced.induct)
  case (2 T t es)
  have t: "ts_wf t" "T \<le> nanos t" "spaced (nanos t + interval_ns) es" using "2.prems"(4) by simp_all
  show ?case
  proof (cases rule: pass_sync [OF "2.prems"(1-3) t(1,2), of L])
    case 1
    then show ?thesis using events_chg [of "pass_at L t s"] by simp
  next
    case 2
    then have "sync_work (g_shaodw_modules (pass_at L t s)) < length (filter is_pass es)"
      using "2.prems"(5) by simp
    then show ?thesis using "2.IH" [OF 2(1-3) t(3)] by simp
  qed
next
  case (3 T r q ty p es)
  note m = message_keeps [OF "3.prems"(1), where L = L and r = r and q = q and ty = ty and p = p]
  have "sync_work (g_shaodw_modules (sync_do L (Message r q ty p) s)) < length (filter is_pass es)"
    using "3.prems"(5) m(4) by simp
  then show ?case using "3.IH" [of "sync_do L (Message r q ty p) s"] m(1-3) "3.prems"(2-4) by (simp del: sync_do.simps)
qed simp

text \<open>The number of passes that is enough, from the number of indexes.\<close>

definition count_indexes :: "shadow_modules \<Rightarrow> nat" where
  "count_indexes ms = sum_list (map (\<lambda>v. sum_list (map (\<lambda>t. length (ns_index_lst t)) (nv_type_lst v))) ms)"

lemma sum_list_bound: "(\<And>x. x \<in> set xs \<Longrightarrow> f x \<le> (k :: nat) * g x) \<Longrightarrow> sum_list (map f xs) \<le> k * sum_list (map g xs)"
  by (induction xs) (auto simp: distrib_left add_mono)

lemma sync_work_bound: "sync_work ms \<le> (CONFIG_EZIOT_SHADOW_FULL_SYNC_RETRY_MAX + 1) * count_indexes ms"
proof -
  have "sync_left n \<le> (CONFIG_EZIOT_SHADOW_FULL_SYNC_RETRY_MAX + 1) * 1" for n by (simp add: sync_left_def)
  then have "set_left t \<le> (CONFIG_EZIOT_SHADOW_FULL_SYNC_RETRY_MAX + 1) * length (ns_index_lst t)" for t
    using sum_list_bound [of "ns_index_lst t" sync_left "CONFIG_EZIOT_SHADOW_FULL_SYNC_RETRY_MAX + 1" "\<lambda>_. 1"]
    by (simp add: set_left_def sum_list_triv)
  then show ?thesis unfolding sync_work_def count_indexes_def dev_left_def by (intro sum_list_bound)
qed

end
