(* ===== verification/Shadow_Report.thy ===== *)
theory Shadow_Report
  imports Shadow_Sync
begin

text \<open>
  The reports of the device shadow: the passes over the five levels as a visit over the flat list of keys, the document of a
  report, and what a pass publishes. With a started core, enough memory and room in the queue a pass publishes one message
  for each due key that holds a value, in the order of the register and with consecutive numbers.
\<close>

section \<open>Passes as walks over the keys\<close>

type_synonym flat_key = "string \<times> string \<times> int \<times> string \<times> node_key"

definition flat_domain :: "string \<Rightarrow> string \<Rightarrow> int \<Rightarrow> node_domain \<Rightarrow> flat_key list" where
  "flat_domain a b c d = map (\<lambda>n. (a, b, c, nd_domain_string d, n)) (nd_key_lst d)"

definition flat_index :: "string \<Rightarrow> string \<Rightarrow> node_index \<Rightarrow> flat_key list" where
  "flat_index a b i = concat (map (flat_domain a b (ni_index i)) (ni_domain_lst i))"

definition flat_set :: "string \<Rightarrow> node_index_set \<Rightarrow> flat_key list" where
  "flat_set a t = concat (map (flat_index a (ns_type t)) (ns_index_lst t))"

definition flat_dev :: "node_dev \<Rightarrow> flat_key list" where
  "flat_dev v = concat (map (flat_set (nv_dev_sn v)) (nv_type_lst v))"

definition keys_of :: "shadow_modules \<Rightarrow> flat_key list" where
  "keys_of ms = concat (map flat_dev ms)"

definition at_key :: "(string \<Rightarrow> string \<Rightarrow> int \<Rightarrow> string \<Rightarrow> node_key \<Rightarrow> 's \<Rightarrow> (bool \<times> node_key) \<times> 's) \<Rightarrow> flat_key \<Rightarrow> 's
    \<Rightarrow> (bool \<times> flat_key) \<times> 's" where
  "at_key f x s = (case x of (a, b, c, d, n) \<Rightarrow> (case f a b c d n s of ((stop, n1), s1) \<Rightarrow> ((stop, (a, b, c, d, n1)), s1)))"

lemma walk_append:
  "visit g (xs @ ys) s = (case visit g xs s of ((stop, xs1), s1) \<Rightarrow>
     if stop then ((True, xs1 @ ys), s1) else (case visit g ys s1 of ((stop2, ys1), s2) \<Rightarrow> ((stop2, xs1 @ ys1), s2)))"
  by (induction xs arbitrary: s) (auto split: prod.split)

lemma walk_concat:
  assumes "\<And>x s st x1 s1. f x s = ((st, x1), s1) \<Longrightarrow> visit g (flat x) s = ((st, flat x1), s1)"
    and "visit f xs s = ((st, xs1), s1)"
  shows "visit g (concat (map flat xs)) s = ((st, concat (map flat xs1)), s1)"
  using assms(2)
proof (induction xs arbitrary: s st xs1 s1)
  case (Cons x xs)
  obtain q x1 s2 where f: "f x s = ((q, x1), s2)" by (metis surj_pair)
  obtain q3 xs3 s3 where w: "visit f xs s2 = ((q3, xs3), s3)" by (metis surj_pair)
  show ?case using Cons.prems Cons.IH [OF w] assms(1) [OF f] f w by (auto simp: walk_append split: if_splits)
qed simp

lemma walk_at_key:
  assumes "visit (f a b c d) ns s = ((st, ns1), s1)"
  shows "visit (at_key f) (map (\<lambda>n. (a, b, c, d, n)) ns) s = ((st, map (\<lambda>n. (a, b, c, d, n)) ns1), s1)"
  using assms
proof (induction ns arbitrary: s st ns1 s1)
  case (Cons n ns)
  obtain q n1 s2 where f: "f a b c d n s = ((q, n1), s2)" by (metis surj_pair)
  obtain q3 ns3 s3 where w: "visit (f a b c d) ns s2 = ((q3, ns3), s3)" by (metis surj_pair)
  show ?case using Cons.prems Cons.IH [OF w] f w by (auto simp: at_key_def split: if_splits)
qed simp

lemma walk_keys_flat:
  assumes "walk_keys f ms s = ((st, ms1), s1)"
  shows "visit (at_key f) (keys_of ms) s = ((st, keys_of ms1), s1)"
proof -
  have 1: "visit (at_key f) (flat_domain a b c d) s = ((st, flat_domain a b c d1), s1)"
    if "in_domain (f a b c (nd_domain_string d)) d s = ((st, d1), s1)" for a b c d s st d1 s1
    using that by (auto simp: in_domain_def flat_domain_def split: prod.splits intro: walk_at_key)
  have 2: "visit (at_key f) (flat_index a b i) s = ((st, flat_index a b i1), s1)"
    if "in_index (\<lambda>d. in_domain (f a b (ni_index i) (nd_domain_string d)) d) i s = ((st, i1), s1)" for a b i s st i1 s1
    using that by (auto simp: in_index_def flat_index_def split: prod.splits
        intro!: walk_concat [where f = "\<lambda>d. in_domain (f a b (ni_index i) (nd_domain_string d)) d", OF 1])
  have 3: "visit (at_key f) (flat_set a t) s = ((st, flat_set a t1), s1)"
    if "in_set (\<lambda>i. in_index (\<lambda>d. in_domain (f a (ns_type t) (ni_index i) (nd_domain_string d)) d) i) t s = ((st, t1), s1)"
    for a t s st t1 s1
    using that by (auto simp: in_set_def flat_set_def split: prod.splits
        intro!: walk_concat [where f = "\<lambda>i. in_index (\<lambda>d. in_domain (f a (ns_type t) (ni_index i) (nd_domain_string d)) d) i", OF 2])
  have 4: "visit (at_key f) (flat_dev v) s = ((st, flat_dev v1), s1)"
    if "in_dev (\<lambda>t. in_set (\<lambda>i. in_index (\<lambda>d. in_domain (f (nv_dev_sn v) (ns_type t) (ni_index i) (nd_domain_string d)) d) i) t) v s
      = ((st, v1), s1)" for v s st v1 s1
    using that by (auto simp: in_dev_def flat_dev_def split: prod.splits
        intro!: walk_concat [where f = "\<lambda>t. in_set (\<lambda>i. in_index (\<lambda>d. in_domain (f (nv_dev_sn v) (ns_type t) (ni_index i)
          (nd_domain_string d)) d) i) t", OF 3])
  show ?thesis
    unfolding keys_of_def
    by (rule walk_concat [where f = "\<lambda>v. in_dev (\<lambda>t. in_set (\<lambda>i. in_index (\<lambda>d. in_domain (f (nv_dev_sn v) (ns_type t) (ni_index i)
        (nd_domain_string d)) d) i) t) v", OF 4 assms [unfolded walk_keys_def]])
qed

section \<open>The document\<close>

definition item_named :: "string \<Rightarrow> cJSON \<Rightarrow> cJSON" where
  "item_named s j = CJSON (js_type j) (js_valueint j) (js_valuedouble j) (js_valuestring j) (Some s) (js_child j)"

definition js_text :: "string \<Rightarrow> cJSON" where
  "js_text s = CJSON cJSON_String 0 0 (Some s) None []"

definition js_number :: "int \<Rightarrow> cJSON" where
  "js_number i = CJSON cJSON_Number (if i \<ge> 2147483647 then 2147483647 else if i \<le> - 2147483648 then - 2147483648 else i) (whole i) None None []"

definition js_object :: "cJSON list \<Rightarrow> cJSON" where
  "js_object cs = CJSON cJSON_Object 0 0 None None cs"

definition report_doc :: "string \<Rightarrow> string \<Rightarrow> cJSON \<Rightarrow> uint32 \<Rightarrow> cJSON" where
  "report_doc dm key j ver =
     js_object [item_named ''method'' (js_text ''report''), item_named ''spv'' (js_number 3),
       item_named ''state'' (js_object [item_named ''reported'' (js_object [item_named ''domain'' (js_text dm),
         item_named ''identifier'' (js_text key), item_named ''value'' j]), item_named ''version'' (js_number (uint ver))])]"

definition grown :: "int \<Rightarrow> mem \<Rightarrow> mem" where
  "grown k m = m\<lparr>live := live m + k\<rparr>"

lemma grown_grown [simp]: "grown k (grown l m) = grown (l + k) m"
  by (simp add: grown_def)

lemma plenty_grown [simp]: "mem_plenty (grown k m) = mem_plenty m"
  by (simp add: grown_def)

lemma malloc_grown: "mem_plenty m \<Longrightarrow> ezos_malloc m = (True, grown 1 m)"
  by (simp add: mem_plenty_def ezos_malloc_def grown_def)

lemma free_grown: "ezos_free m = grown (- 1) m" "ezos_frees n m = grown (- int n) m" "cJSON_Delete (Some j) m = grown (- int (json_blocks j)) m"
  by (simp_all add: ezos_free_def ezos_frees_def cJSON_Delete_def grown_def)

lemma add_string_grown:
  "mem_plenty m \<Longrightarrow> cJSON_AddStringToObject (Some ob) nm s m = (Some (add_item_to_array ob (item_named nm (js_text s))), grown 3 m)"
  by (simp add: cJSON_AddStringToObject_def cJSON_CreateString_def cJSON_New_Item_def malloc_grown add_item_to_object_def item_named_def js_text_def)

lemma add_number_grown:
  "mem_plenty m \<Longrightarrow> cJSON_AddNumberToObject (Some ob) nm i m = (Some (add_item_to_array ob (item_named nm (js_number i))), grown 2 m)"
  by (simp add: cJSON_AddNumberToObject_def cJSON_CreateNumber_def cJSON_New_Item_def malloc_grown add_item_to_object_def item_named_def js_number_def)

lemma add_item_grown:
  "mem_plenty m \<Longrightarrow> cJSON_AddItemToObject (Some ob) nm (Some j) m =
     (Some (add_item_to_array ob (item_named nm j)), grown (if js_string j = None then 1 else 0) m)"
  by (simp add: cJSON_AddItemToObject_def malloc_grown add_item_to_object_def item_named_def free_grown)

lemma add_to_js_object [simp]: "add_item_to_array (js_object cs) j = js_object (cs @ [j])"
  by (simp add: add_item_to_array_def js_object_def)

lemma js_string_object [simp]: "js_string (js_object cs) = None"
  by (simp add: js_object_def)

lemma report_body_grown:
  assumes "mem_plenty m"
  shows "report_body dm key (Some j) ver (Some (js_object [])) (Some (js_object [])) (Some (js_object [])) m =
    (Some (report_doc dm key j ver), grown (15 + (if js_string j = None then 1 else 0)) m)"
  using assms
  by (simp add: report_body_def add_string_grown add_number_grown add_item_grown report_doc_def)

lemma create_object_grown: "mem_plenty m \<Longrightarrow> cJSON_CreateObject m = (Some (js_object []), grown 1 m)"
  by (simp add: cJSON_CreateObject_def cJSON_New_Item_def malloc_grown js_object_def)

lemma item_named_blocks [simp]: "json_blocks (item_named s j) = json_blocks j + (if js_string j = None then 1 else 0)"
  by (cases j) (simp add: item_named_def)

lemma report_doc_blocks: "json_blocks (report_doc dm key j ver) = 18 + json_blocks j + (if js_string j = None then 1 else 0)"
  by (simp add: report_doc_def js_object_def js_text_def js_number_def)

section \<open>Sending\<close>

text \<open>The core is started and has memory, and the queue has room for \<^verbatim>\<open>k\<close> messages.\<close>

definition sends :: "nat \<Rightarrow> world \<Rightarrow> bool" where
  "sends k w \<longleftrightarrow> mem_plenty (w_mem w) \<and> my_state (kernel w) = Sdk_start \<and>
     unat (q_size (q_pubmsg_v3 w)) + k \<le> unat (q_maxsize (q_pubmsg_v3 w))"

definition queued3 :: "ezdev_sdk_kernel_pubmsg_exchange_v3 \<Rightarrow> world \<Rightarrow> world" where
  "queued3 x w = w\<lparr>das_transport_seq := das_transport_seq w + 1, w_mem := grown 3 (w_mem w),
     q_pubmsg_v3 := (q_pubmsg_v3 w)\<lparr>q_elems := q_elems (q_pubmsg_v3 w) @ [x], q_size := q_size (q_pubmsg_v3 w) + 1\<rparr>\<rparr>"

lemma send3_queues:
  assumes s: "sends (Suc k) w" and p: "pub3_msg_response p = 0" "pub3_msg_body p \<noteq> None" "pub3_msg_body_len p \<noteq> 0"
      "unat (pub3_msg_body_len p) \<le> CONFIG_EZIOT_CORE_MESSAGE_SIZE_MAX"
  shows "kernel_send3 p w =
    ((0, das_transport_seq w + 1), queued3 (pubmsg_copy_v3 (p\<lparr>pub3_msg_seq := das_transport_seq w + 1\<rparr>)) w)"
proof -
  have room: "\<not> q_maxsize (q_pubmsg_v3 w) \<le> q_size (q_pubmsg_v3 w)"
    using s by (simp add: sends_def word_le_nat_alt)
  have m: "w_malloc w = (True, w\<lparr>w_mem := grown 1 (w_mem w)\<rparr>)" if "mem_plenty (w_mem w)" for w
    using that by (simp add: w_malloc_def malloc_grown)
  have pl: "mem_plenty (w_mem w)" and st: "my_state (kernel w) = Sdk_start" using s by (simp_all add: sends_def)
  show ?thesis
    using p room pl st
    by (simp add: kernel_send3_def ez_kernel_send_v3_def m genaral_seq_def queue_or_free_def das_send_pubmsg_async_v3_def
        push_queue_pubmsg_exchange_v3_def push_queue_def malloc_grown queued3_def)
qed

lemma queued3_sends: "sends (Suc k) w \<Longrightarrow> sends k (queued3 x w)"
proof -
  assume s: "sends (Suc k) w"
  then have "unat (q_size (q_pubmsg_v3 w) + 1) = Suc (unat (q_size (q_pubmsg_v3 w)))"
    by (intro unat_suc_below [of _ "q_maxsize (q_pubmsg_v3 w)"]) (simp add: sends_def)
  with s show ?thesis by (simp add: sends_def queued3_def)
qed

definition wgrown :: "int \<Rightarrow> world \<Rightarrow> world" where
  "wgrown k w = w\<lparr>w_mem := grown k (w_mem w)\<rparr>"

definition report_text :: "libs \<Rightarrow> string \<Rightarrow> string \<Rightarrow> cJSON \<Rightarrow> uint32 \<Rightarrow> byte list" where
  "report_text L dm key j ver = cJSON_text (lib_text L) (report_doc dm key j ver)"

definition report_msg :: "libs \<Rightarrow> uint32 \<Rightarrow> string \<Rightarrow> string \<Rightarrow> int \<Rightarrow> string \<Rightarrow> string \<Rightarrow> cJSON \<Rightarrow> uint32
    \<Rightarrow> ezdev_sdk_kernel_pubmsg_exchange_v3" where
  "report_msg L seq sn ty ix dm key j ver =
     pubmsg_copy_v3 ((shadow_pubmsg sn ty (uint (of_int ix :: uint16)) ''report'' 0 QOS_T1 0 (report_text L dm key j ver))\<lparr>pub3_msg_seq := seq\<rparr>)"

lemma protocol_report_sends:
  assumes s: "sends (Suc k) w"
    and b: "report_text L dm key j ver \<noteq> []" "length (report_text L dm key j ver) \<le> CONFIG_EZIOT_CORE_MESSAGE_SIZE_MAX"
  shows "shadow_protocol_report L sn ty ix dm key (Some j) ver w =
    ((0, Some (das_transport_seq w + 1)),
     wgrown (- int (json_blocks j)) (queued3 (report_msg L (das_transport_seq w + 1) sn ty ix dm key j ver) w))"
proof -
  let ?body = "report_text L dm key j ver"
  have pl: "mem_plenty (w_mem w)" using s by (simp add: sends_def)
  let ?i = "if js_string j = None then 1 else 0 :: int"
  have c: "w_json cJSON_CreateObject (wgrown k w) = (Some (js_object []), wgrown (k + 1) w)" for k
    using pl by (simp add: w_json_def wgrown_def create_object_grown)
  have c0: "w_json cJSON_CreateObject w = (Some (js_object []), wgrown 1 w)"
    using pl by (simp add: w_json_def wgrown_def create_object_grown)
  have d: "w_json (report_body dm key (Some j) ver (Some (js_object [])) (Some (js_object [])) (Some (js_object []))) (wgrown 3 w) =
      (Some (report_doc dm key j ver), wgrown (18 + ?i) w)"
    using pl by (simp add: w_json_def wgrown_def report_body_grown)
  have p: "cJSON_PrintUnformatted L (Some (report_doc dm key j ver)) (wgrown (18 + ?i) w) = (Some ?body, wgrown (19 + ?i) w)"
    using pl by (simp add: cJSON_PrintUnformatted_def w_malloc_def wgrown_def malloc_grown report_text_def)
  have len: "unat (of_nat (length ?body) :: uint32) = length ?body"
    using b(2) by (intro unat_of_nat_small) (simp add: CONFIG_EZIOT_CORE_MESSAGE_SIZE_MAX_def)
  let ?p = "shadow_pubmsg sn ty (uint (of_int ix :: uint16)) ''report'' 0 QOS_T1 0 ?body"
  have s1: "sends (Suc k) (wgrown x w)" for x using s by (simp add: sends_def wgrown_def)
  have e: "kernel_send3 ?p (wgrown (19 + ?i) w) = ((0, das_transport_seq w + 1),
      queued3 (report_msg L (das_transport_seq w + 1) sn ty ix dm key j ver) (wgrown (19 + ?i) w))"
  proof -
    have "pub3_msg_body_len ?p \<noteq> 0"
    proof
      assume "pub3_msg_body_len ?p = 0"
      then have "(of_nat (length ?body) :: uint32) = 0" by (simp add: shadow_pubmsg_def)
      with len b(1) show False by simp
    qed
    then show ?thesis
      using send3_queues [OF s1, of ?p "19 + ?i"] len b(2)
      by (simp add: report_msg_def shadow_pubmsg_def wgrown_def)
  qed
  have "w_free (w_json_delete (Some (report_doc dm key j ver)) (queued3 x (wgrown (19 + ?i) w))) = wgrown (- int (json_blocks j)) (queued3 x w)"
    for x by (simp add: w_free_def w_json_delete_def free_grown wgrown_def queued3_def report_doc_blocks)
  then show ?thesis
    using c [of 1] c [of 2] by (simp add: shadow_protocol_report_def c0 d p e)
qed

section \<open>A key with a value\<close>

lemma duplicate_grown: "mem_plenty m \<Longrightarrow> cJSON_Duplicate j m = (Some j, grown (int (json_blocks j)) m)"
proof (induction j arbitrary: m)
  case (CJSON t i d v s cs)
  have ch: "dup_children cJSON_Duplicate xs acc m = ((True, acc @ xs), grown (int (sum_list (map json_blocks xs))) m)"
    if "mem_plenty m" "set xs \<subseteq> set cs" for xs acc m
    using that
  proof (induction xs arbitrary: acc m)
    case (Cons x xs)
    then show ?case using CJSON.IH [of x m] by (simp add: add.commute)
  qed (simp add: grown_def)
  show ?case
    using CJSON.prems ch [of _ cs "[]"]
    by (cases v; cases s) (simp_all add: strdup_opt_def malloc_grown algebra_simps)
qed

definition key_waits :: "ezos_timespec \<Rightarrow> node_key \<Rightarrow> bool" where
  "key_waits clock n \<longleftrightarrow> nk_need_report n \<and> tv_sec (nk_report_timer n) \<noteq> 0 \<and> \<not> time_isexpired clock (nk_report_timer n)"

definition key_due :: "ezos_timespec \<Rightarrow> node_key \<Rightarrow> bool" where
  "key_due clock n \<longleftrightarrow> nk_need_report n \<and> \<not> key_waits clock n"

definition sent_key :: "ezos_timespec \<Rightarrow> uint32 \<Rightarrow> node_key \<Rightarrow> node_key" where
  "sent_key clock seq n = n\<lparr>nk_msg_seq := seq,
     nk_report_timer := time_countdown clock (CONFIG_EZIOT_SHADOW_FULL_SYNC_RETRY_INTERVAL * 1000)\<rparr>"

lemma do_report_skips:
  "\<not> key_due (now (sh_world s)) n \<Longrightarrow> do_report L a b c d n s = ((of_bool (key_waits (now (sh_world s)) n), n), s)"
  by (auto simp: do_report_def key_due_def key_waits_def)

lemma do_report_sends:
  assumes s: "sends (Suc k) (sh_world s)" and d: "key_due (now (sh_world s)) n" and j: "nk_json_value n = Some j"
    and b: "report_text L dm (nk_key n) j (nk_stat_ver n) \<noteq> []"
      "length (report_text L dm (nk_key n) j (nk_stat_ver n)) \<le> CONFIG_EZIOT_CORE_MESSAGE_SIZE_MAX"
  shows "do_report L sn ty ix dm n s =
    (let w = sh_world s; q = das_transport_seq w + 1 in
     ((0, sent_key (now w) q n), s\<lparr>sh_world := queued3 (report_msg L q sn ty ix dm (nk_key n) j (nk_stat_ver n)) w\<rparr>))"
proof -
  let ?w = "sh_world s" let ?k = "int (json_blocks j)"
  have pl: "mem_plenty (w_mem ?w)" using s by (simp add: sends_def)
  have due: "\<not> (tv_sec (nk_report_timer n) \<noteq> 0 \<and> \<not> time_isexpired (now ?w) (nk_report_timer n))" "nk_need_report n"
    using d by (auto simp: key_due_def key_waits_def)
  have dup: "on_shw (w_json (cJSON_Duplicate j)) s = (Some j, s\<lparr>sh_world := wgrown ?k ?w\<rparr>)"
    using pl by (simp add: on_shw_def w_json_def duplicate_grown wgrown_def)
  have s1: "sends (Suc k) (wgrown ?k ?w)" using s by (simp add: sends_def wgrown_def)
  have seq: "das_transport_seq (wgrown ?k ?w) = das_transport_seq ?w" by (simp add: wgrown_def)
  let ?m = "report_msg L (das_transport_seq ?w + 1) sn ty ix dm (nk_key n) j (nk_stat_ver n)"
  have q: "wgrown (- ?k) (queued3 ?m (wgrown ?k ?w)) = queued3 ?m ?w" by (simp add: wgrown_def queued3_def)
  have nw: "now (queued3 ?m ?w) = now ?w" by (simp add: queued3_def)
  have r: "on_shw (shadow_protocol_report L sn ty ix dm (nk_key n) (Some j) (nk_stat_ver n)) (s\<lparr>sh_world := wgrown ?k ?w\<rparr>) =
      ((0, Some (das_transport_seq ?w + 1)), s\<lparr>sh_world := queued3 ?m ?w\<rparr>)"
    using protocol_report_sends [OF s1 b] by (simp add: on_shw_def seq q)
  show ?thesis
    using due by (simp add: do_report_def j dup report_value_def r nw sent_key_def Let_def)
qed

section \<open>A pass\<close>

definition value_fits :: "libs \<Rightarrow> flat_key \<Rightarrow> bool" where
  "value_fits L x = (case x of (a, b, c, dm, n) \<Rightarrow> (case nk_json_value n of None \<Rightarrow> False | Some j \<Rightarrow>
     report_text L dm (nk_key n) j (nk_stat_ver n) \<noteq> [] \<and>
     length (report_text L dm (nk_key n) j (nk_stat_ver n)) \<le> CONFIG_EZIOT_CORE_MESSAGE_SIZE_MAX))"

definition key_of :: "flat_key \<Rightarrow> node_key" where
  "key_of x = snd (snd (snd (snd x)))"

text \<open>The keys after a pass that starts with the sequence number \<^verbatim>\<open>seq\<close>, and the messages it publishes.\<close>

fun keys_sent :: "ezos_timespec \<Rightarrow> uint32 \<Rightarrow> flat_key list \<Rightarrow> flat_key list" where
  "keys_sent t seq [] = []"
| "keys_sent t seq ((a, b, c, d, n) # xs) =
     (if key_due t n then (a, b, c, d, sent_key t (seq + 1) n) # keys_sent t (seq + 1) xs else (a, b, c, d, n) # keys_sent t seq xs)"

fun msgs_sent :: "libs \<Rightarrow> ezos_timespec \<Rightarrow> uint32 \<Rightarrow> flat_key list \<Rightarrow> ezdev_sdk_kernel_pubmsg_exchange_v3 list" where
  "msgs_sent L t seq [] = []"
| "msgs_sent L t seq ((a, b, c, d, n) # xs) =
     (if key_due t n then report_msg L (seq + 1) a b c d (nk_key n) (the (nk_json_value n)) (nk_stat_ver n) # msgs_sent L t (seq + 1) xs
      else msgs_sent L t seq xs)"

fun queue_all :: "ezdev_sdk_kernel_pubmsg_exchange_v3 list \<Rightarrow> world \<Rightarrow> world" where
  "queue_all [] w = w"
| "queue_all (x # xs) w = queue_all xs (queued3 x w)"

lemma queue_all_elems: "q_elems (q_pubmsg_v3 (queue_all xs w)) = q_elems (q_pubmsg_v3 w) @ xs"
  by (induction xs arbitrary: w) (simp_all add: queued3_def)

lemma queued3_lost: "pubmsg_v3_blocks x = 2 \<Longrightarrow> lost_blocks (queued3 x w) = lost_blocks w"
  by (simp add: lost_blocks_def w_live_def queued_blocks_def queued3_def grown_def)

lemma report_msg_blocks: "pubmsg_v3_blocks (report_msg L q a b c d k j v) = 2"
  by (simp add: pubmsg_v3_blocks_def report_msg_def pubmsg_copy_v3_def shadow_pubmsg_def)

lemma queue_all_lost: "list_all (\<lambda>x. pubmsg_v3_blocks x = 2) xs \<Longrightarrow> lost_blocks (queue_all xs w) = lost_blocks w"
  by (induction xs arbitrary: w) (simp_all add: queued3_lost)

lemma msgs_sent_blocks: "list_all (\<lambda>x. pubmsg_v3_blocks x = 2) (msgs_sent L t seq xs)"
  by (induction L t seq xs rule: msgs_sent.induct) (simp_all add: report_msg_blocks)

lemma walk_reports:
  assumes "sends (length (filter (\<lambda>x. key_due t (key_of x)) xs)) (sh_world s)" and "now (sh_world s) = t"
    and "\<forall>x\<in>set xs. key_due t (key_of x) \<longrightarrow> value_fits L x"
  shows "visit (at_key (report_key L)) xs (k, s) =
    ((False, keys_sent t (das_transport_seq (sh_world s)) xs),
     (k + length (filter (\<lambda>x. key_waits t (key_of x)) xs),
      s\<lparr>sh_world := queue_all (msgs_sent L t (das_transport_seq (sh_world s)) xs) (sh_world s)\<rparr>))"
  using assms
proof (induction xs arbitrary: s k)
  case (Cons x xs)
  obtain a b c d n where x: "x = (a, b, c, d, n)" by (metis surj_pair)
  let ?w = "sh_world s"
  show ?case
  proof (cases "key_due t n")
    case False
    have r: "at_key (report_key L) x (k, s) = ((False, x), (k + of_bool (key_waits t n), s))"
      using do_report_skips [of s n L a b c d] False Cons.prems(2) by (simp add: at_key_def report_key_def x)
    have "visit (at_key (report_key L)) xs (k + of_bool (key_waits t n), s) =
      ((False, keys_sent t (das_transport_seq ?w) xs),
       (k + of_bool (key_waits t n) + length (filter (\<lambda>x. key_waits t (key_of x)) xs),
        s\<lparr>sh_world := queue_all (msgs_sent L t (das_transport_seq ?w) xs) ?w\<rparr>))"
      by (rule Cons.IH) (use Cons.prems False x in \<open>simp_all add: key_of_def\<close>)
    then show ?thesis using r False by (simp add: x key_of_def)
  next
    case True
    then have v: "value_fits L x" using Cons.prems(3) x by (simp add: key_of_def)
    then obtain j where j: "nk_json_value n = Some j" by (auto simp: value_fits_def x split: option.splits)
    have s: "sends (Suc (length (filter (\<lambda>x. key_due t (key_of x)) xs))) ?w"
      using Cons.prems(1) True x by (simp add: key_of_def)
    let ?q = "das_transport_seq ?w + 1"
    let ?m = "report_msg L ?q a b c d (nk_key n) j (nk_stat_ver n)"
    let ?s1 = "s\<lparr>sh_world := queued3 ?m ?w\<rparr>"
    have nw: "\<not> key_waits t n" using True by (simp add: key_due_def)
    have r: "at_key (report_key L) x (k, s) = ((False, (a, b, c, d, sent_key t ?q n)), (k, ?s1))"
      using do_report_sends [OF s, of n j L d a b c] True v j Cons.prems(2)
      by (simp add: at_key_def report_key_def x value_fits_def Let_def)
    have q1: "das_transport_seq (queued3 ?m ?w) = ?q" "now (queued3 ?m ?w) = t" using Cons.prems(2) by (simp_all add: queued3_def)
    have "visit (at_key (report_key L)) xs (k, ?s1) =
      ((False, keys_sent t (das_transport_seq (sh_world ?s1)) xs),
       (k + length (filter (\<lambda>x. key_waits t (key_of x)) xs),
        ?s1\<lparr>sh_world := queue_all (msgs_sent L t (das_transport_seq (sh_world ?s1)) xs) (sh_world ?s1)\<rparr>))"
      by (rule Cons.IH) (use Cons.prems(3) queued3_sends [OF s] q1 in simp_all)
    then show ?thesis using r True nw j by (simp add: x key_of_def q1)
  qed
qed simp

lemma proc_report_publishes:
  assumes "sends (length (filter (\<lambda>x. key_due (now (sh_world s)) (key_of x)) (keys_of (g_shaodw_modules s)))) (sh_world s)"
    and "\<forall>x\<in>set (keys_of (g_shaodw_modules s)). key_due (now (sh_world s)) (key_of x) \<longrightarrow> value_fits L x"
    and r: "shadow_proc_report L s = (rv, s1)"
  shows "keys_of (g_shaodw_modules s1) = keys_sent (now (sh_world s)) (das_transport_seq (sh_world s)) (keys_of (g_shaodw_modules s))"
    and "q_elems (q_pubmsg_v3 (sh_world s1)) = q_elems (q_pubmsg_v3 (sh_world s)) @
      msgs_sent L (now (sh_world s)) (das_transport_seq (sh_world s)) (keys_of (g_shaodw_modules s))"
    and "lost_blocks (sh_world s1) = lost_blocks (sh_world s)"
    and "rv = (if list_ex (\<lambda>x. key_waits (now (sh_world s)) (key_of x)) (keys_of (g_shaodw_modules s)) then 1 else 0)"
proof -
  let ?ms = "g_shaodw_modules s" let ?w = "sh_world s"
  obtain st ms1 c where w: "walk_keys (report_key L) ?ms (0, s) = ((st, ms1), c)" by (metis surj_pair)
  note f = walk_reports [OF assms(1) refl assms(2), of 0] walk_keys_flat [OF w]
  have st: "\<not> st" and k: "keys_of ms1 = keys_sent (now ?w) (das_transport_seq ?w) (keys_of ?ms)"
    and c: "c = (length (filter (\<lambda>x. key_waits (now ?w) (key_of x)) (keys_of ?ms)),
      s\<lparr>sh_world := queue_all (msgs_sent L (now ?w) (das_transport_seq ?w) (keys_of ?ms)) ?w\<rparr>)"
    using f by simp_all
  have s1: "s1 = s\<lparr>sh_world := queue_all (msgs_sent L (now ?w) (das_transport_seq ?w) (keys_of ?ms)) ?w, g_shaodw_modules := ms1\<rparr>"
    using r st by (simp add: shadow_proc_report_def w c)
  show "keys_of (g_shaodw_modules s1) = keys_sent (now ?w) (das_transport_seq ?w) (keys_of ?ms)"
    "q_elems (q_pubmsg_v3 (sh_world s1)) = q_elems (q_pubmsg_v3 ?w) @ msgs_sent L (now ?w) (das_transport_seq ?w) (keys_of ?ms)"
    "lost_blocks (sh_world s1) = lost_blocks ?w"
    using k by (simp_all add: s1 queue_all_elems queue_all_lost msgs_sent_blocks)
  show "rv = (if list_ex (\<lambda>x. key_waits (now ?w) (key_of x)) (keys_of ?ms) then 1 else 0)"
    using r st by (auto simp: shadow_proc_report_def w c list_ex_iff filter_empty_conv)
qed

end
