(* ===== verification/Shadow_Faults.thy ===== *)
theory Shadow_Faults
  imports Shadow_Report
begin

text \<open>
  The device shadow over several steps: the acknowledgements that follow a pass and make its keys idle again, and the
  situations in which a call of the interface is accepted and its effect does not come: a post that nobody waits for, a
  value that cannot be converted in front of the others, a string value from the cloud, a thread that cannot be created.
\<close>

section \<open>Acknowledgements\<close>

definition idle_key :: "node_key \<Rightarrow> node_key" where
  "idle_key n = n\<lparr>nk_need_report := False, nk_json_value := None, nk_msg_seq := 0, nk_report_timer := zero_timer\<rparr>"

definition on_key :: "(node_key \<Rightarrow> node_key) \<Rightarrow> flat_key \<Rightarrow> flat_key" where
  "on_key f x = (case x of (a, b, c, d, n) \<Rightarrow> (a, b, c, d, f n))"

lemma key_of_on_key [simp]: "key_of (on_key f x) = f (key_of x)"
  by (cases x) (simp add: on_key_def key_of_def)

fun ack_first :: "uint32 \<Rightarrow> flat_key list \<Rightarrow> flat_key list" where
  "ack_first q [] = []"
| "ack_first q (x # xs) = (if nk_msg_seq (key_of x) = q then on_key idle_key x # xs else x # ack_first q xs)"

lemma walk_ack: "snd (fst (visit (at_key (\<lambda>_ _ _ _. ack_key q 0)) xs m)) = ack_first q xs"
proof (induction xs arbitrary: m)
  case (Cons x xs)
  obtain a b c d n where x: "x = (a, b, c, d, n)" by (metis surj_pair)
  show ?case
  proof (cases "nk_msg_seq n = q")
    case False
    then have "at_key (\<lambda>_ _ _ _. ack_key q 0) x m = ((False, x), m)" by (simp add: at_key_def x ack_key_def)
    then show ?thesis using Cons.IH [of m] False by (auto simp: x key_of_def split: prod.splits)
  qed (simp add: x at_key_def ack_key_def key_of_def on_key_def idle_key_def)
qed simp

lemma reply2report_flat: "keys_of (g_shaodw_modules (shadow_reply2report q 0 s)) = ack_first q (keys_of (g_shaodw_modules s))"
proof -
  let ?m = "w_mem (sh_world s)"
  obtain st ms m where w: "walk_keys (\<lambda>_ _ _ _. ack_key q 0) (g_shaodw_modules s) ?m = ((st, ms), m)" by (metis surj_pair)
  show ?thesis
    using walk_keys_flat [OF w] walk_ack [of q "keys_of (g_shaodw_modules s)" ?m]
    by (simp add: shadow_reply2report_def w upd_sw_def)
qed

text \<open>The event the core sends for an acknowledged message of the shadow.\<close>

definition ack_event :: "uint32 \<Rightarrow> ez_kernel_event" where
  "ack_event q = \<lparr>event_type = SDK_KERNEL_EVENT_PUBLISH_ACK, event_context = Some (Publish_ack \<lparr>ack_last_error = 0,
     ack_msg_seq = q, ack_module_name = SHADOW_MODULE_NAME, ack_msg_type = ''report''\<rparr>)\<rparr>"

definition acknowledge :: "libs \<Rightarrow> uint32 \<Rightarrow> shadow \<Rightarrow> shadow" where
  "acknowledge L q = shadow_event_route L (Some (ack_event q))"

lemma acknowledge_flat: "keys_of (g_shaodw_modules (acknowledge L q s)) = ack_first q (keys_of (g_shaodw_modules s))"
proof -
  have "acknowledge L q s = shadow_core_event_occured SHADOW_EVENT_TYPE_RECV (shadow_reply2report q 0 (upd_sw (faulty False) s))"
    by (simp add: acknowledge_def shadow_event_route_def ack_event_def shadow_core_cloud_data_in_def payload_code_def Let_def)
  then show ?thesis by (simp add: reply2report_flat upd_sw_def)
qed

text \<open>The numbers of \<^verbatim>\<open>k\<close> messages after the number \<^verbatim>\<open>seq\<close>.\<close>

fun numbers :: "uint32 \<Rightarrow> nat \<Rightarrow> uint32 list" where
  "numbers seq 0 = []"
| "numbers seq (Suc k) = (seq + 1) # numbers (seq + 1) k"

lemma acks_skip: "nk_msg_seq (key_of x) \<notin> set qs \<Longrightarrow> fold ack_first qs (x # xs) = x # fold ack_first qs xs"
  by (induction qs arbitrary: xs) auto

definition due_count :: "ezos_timespec \<Rightarrow> flat_key list \<Rightarrow> nat" where
  "due_count t xs = length (filter (\<lambda>x. key_due t (key_of x)) xs)"

lemma due_count_Cons [simp]: "due_count t (x # xs) = (if key_due t (key_of x) then Suc (due_count t xs) else due_count t xs)"
  by (simp add: due_count_def)

lemma keys_sent_Cons:
  "keys_sent t seq (x # xs) = (if key_due t (key_of x) then on_key (sent_key t (seq + 1)) x # keys_sent t (seq + 1) xs
     else x # keys_sent t seq xs)"
  by (cases x) (simp add: key_of_def on_key_def)

lemma on_key_idle_sent: "on_key idle_key (on_key (sent_key t q) x) = on_key idle_key x"
  by (cases x) (simp add: on_key_def idle_key_def sent_key_def)

lemma sent_key_seq [simp]: "nk_msg_seq (sent_key t q n) = q" "nk_msg_seq (idle_key n) = 0"
  by (simp_all add: sent_key_def idle_key_def)

lemma acks_after_pass:
  assumes "0 \<notin> set (numbers seq (due_count t xs))"
    and "\<forall>x\<in>set xs. \<not> key_due t (key_of x) \<longrightarrow> nk_msg_seq (key_of x) \<notin> set (numbers seq (due_count t xs))"
  shows "fold ack_first (numbers seq (due_count t xs)) (keys_sent t seq xs) =
    map (\<lambda>x. if key_due t (key_of x) then on_key idle_key x else x) xs"
  using assms
proof (induction xs arbitrary: seq)
  case (Cons x xs)
  show ?case
  proof (cases "key_due t (key_of x)")
    case False
    then show ?thesis
      using Cons.IH [of seq] Cons.prems acks_skip [of x _ "keys_sent t seq xs"] by (simp add: keys_sent_Cons)
  next
    case True
    let ?y = "on_key idle_key x"
    have h: "ack_first (seq + 1) (keys_sent t seq (x # xs)) = ?y # keys_sent t (seq + 1) xs"
      using True by (simp add: keys_sent_Cons on_key_idle_sent)
    have "nk_msg_seq (key_of ?y) \<notin> set (numbers (seq + 1) (due_count t xs))" using Cons.prems(1) True by simp
    note k = acks_skip [OF this, of "keys_sent t (seq + 1) xs"]
    have "fold ack_first (numbers (seq + 1) (due_count t xs)) (keys_sent t (seq + 1) xs) =
        map (\<lambda>x. if key_due t (key_of x) then on_key idle_key x else x) xs"
      by (rule Cons.IH) (use Cons.prems True in simp_all)
    then show ?thesis using h k True by simp
  qed
qed (simp add: due_count_def)

lemma acknowledge_all_flat:
  "keys_of (g_shaodw_modules (fold (acknowledge L) qs s)) = fold ack_first qs (keys_of (g_shaodw_modules s))"
  by (induction qs arbitrary: s) (simp_all add: acknowledge_flat)

lemma report_cycle:
  assumes "sends (due_count (now (sh_world s)) (keys_of (g_shaodw_modules s))) (sh_world s)"
    and "\<forall>x\<in>set (keys_of (g_shaodw_modules s)). key_due (now (sh_world s)) (key_of x) \<longrightarrow> value_fits L x"
    and "0 \<notin> set (numbers (das_transport_seq (sh_world s)) (due_count (now (sh_world s)) (keys_of (g_shaodw_modules s))))"
    and "\<forall>x\<in>set (keys_of (g_shaodw_modules s)). \<not> key_due (now (sh_world s)) (key_of x) \<longrightarrow>
      nk_msg_seq (key_of x) \<notin> set (numbers (das_transport_seq (sh_world s)) (due_count (now (sh_world s)) (keys_of (g_shaodw_modules s))))"
    and r: "shadow_proc_report L s = (rv, s1)"
  shows "keys_of (g_shaodw_modules (fold (acknowledge L)
      (numbers (das_transport_seq (sh_world s)) (due_count (now (sh_world s)) (keys_of (g_shaodw_modules s)))) s1)) =
    map (\<lambda>x. if key_due (now (sh_world s)) (key_of x) then on_key idle_key x else x) (keys_of (g_shaodw_modules s))"
  using proc_report_publishes(1) [OF assms(1) [unfolded due_count_def] assms(2) r] acks_after_pass [OF assms(3,4)]
  by (simp add: acknowledge_all_flat)

section \<open>A post that nobody waits for\<close>

text \<open>The thread is between two turns and has nothing left to do.\<close>

definition thread_done :: "shadow \<Rightarrow> bool" where
  "thread_done s \<longleftrightarrow> sh_running s \<and> 0 < sh_threads s \<and> g_is_online s \<and> \<not> sh_waiting s \<and> sh_proc_result s = 0 \<and>
     (\<exists>c \<le> SEM_MAX. g_sem s = Sem_live c)"

lemma asleep: "sh_waiting s \<Longrightarrow> \<not> sh_signalled s \<Longrightarrow> (shadow_core_yeild L False ^^ n) s = s"
  by (induction n) (simp_all add: shadow_core_yeild_def)

lemma post_before_wait:
  assumes "thread_done s"
  shows "(shadow_core_yeild L False ^^ Suc n) (ezos_sem_post s) = s\<lparr>g_sem := Sem_live 0, sh_waiting := True, sh_signalled := False\<rparr>"
proof -
  obtain c where c: "c \<le> SEM_MAX" "g_sem s = Sem_live c" using assms by (auto simp: thread_done_def)
  let ?z = "s\<lparr>g_sem := Sem_live 0, sh_waiting := True, sh_signalled := False\<rparr>"
  have "c = 0 \<or> c = SEM_MAX" using c(1) by (auto simp: SEM_MAX_def)
  then have "shadow_core_yeild L False (ezos_sem_post s) = ?z"
    using assms c(2)
    by (elim disjE) (simp_all add: thread_done_def ezos_sem_post_def shadow_core_yeild_def ezos_sem_enter_wait_def SEM_MAX_def)
  then show ?thesis using asleep [where s = ?z and L = L and n = n] by (simp only: funpow_Suc_right comp_def) simp
qed

lemma push_thread_done:
  assumes "thread_done s" and "g_shd_is_inited s"
    and "shadow_push L sn ty ix dm k v s = (0, s1)"
  shows "\<exists>s0. thread_done s0 \<and> s1 = ezos_sem_post s0 \<and> shadow_core_propertie_changed L sn ty ix dm k v s = (0, s0\<lparr>g_need_report := g_need_report s\<rparr>)"
proof -
  obtain s2 where c: "shadow_core_propertie_changed L sn ty ix dm k v s = (0, s2)" and e: "s1 = shadow_core_event_occured SHADOW_EVENT_TYPE_REPORT s2"
    using assms(2,3) by (auto simp: shadow_push_def ez_iot_shadow_push_def split: prod.splits if_splits)
  have f: "sh_running s2 = sh_running s" "sh_threads s2 = sh_threads s" "g_is_online s2 = g_is_online s" "sh_waiting s2 = sh_waiting s"
      "sh_proc_result s2 = sh_proc_result s" "g_sem s2 = g_sem s" "g_need_report s2 = g_need_report s"
    using c by (auto simp: shadow_core_propertie_changed_def split: sum.splits prod.splits)
  let ?s0 = "if g_shadow_status s2 = Shadow_status_sync then s2\<lparr>g_need_report := True\<rparr> else s2"
  have "thread_done ?s0" using assms(1) f by (auto simp: thread_done_def)
  moreover have "s1 = ezos_sem_post ?s0"
    using assms(1) f by (auto simp: e shadow_core_event_occured_def thread_done_def Let_def)
  ultimately show ?thesis using c f by (intro exI [of _ ?s0]) auto
qed

section \<open>A value in front of the others\<close>

text \<open>The first due key asks the application, whose answer has no length.\<close>

definition blocked_by :: "ezos_timespec \<Rightarrow> flat_key list \<Rightarrow> bool" where
  "blocked_by t xs \<longleftrightarrow> (case find (\<lambda>x. key_due t (key_of x)) xs of None \<Rightarrow> False
     | Some x \<Rightarrow> nk_json_value (key_of x) = None \<and> nk_dev2cloud (key_of x) \<noteq> None)"

definition no_length :: "int \<times> ez_shadow_value \<Rightarrow> bool" where
  "no_length a \<longleftrightarrow> fst a = 0 \<and> shd_length (snd a) = 0"

lemma do_report_no_length:
  assumes "key_due (now (sh_world s)) n" and "nk_json_value n = None" and "nk_dev2cloud n = Some f"
    and "sh_dev_values s = a # as" and "no_length a" and "g_p2c_buf s = Buf_live"
  shows "\<exists>p. do_report L sn ty ix dm n s = ((- 1, n), s\<lparr>sh_calls := sh_calls s @ [Sh_dev2cloud f p], sh_dev_values := as\<rparr>)"
proof -
  obtain v where a: "a = (0, v)" "shd_length v = 0" using assms(5) by (cases a) (simp add: no_length_def)
  have due: "\<not> (tv_sec (nk_report_timer n) \<noteq> 0 \<and> \<not> time_isexpired (now (sh_world s)) (nk_report_timer n))" "nk_need_report n"
    using assms(1) by (auto simp: key_due_def key_waits_def)
  let ?p = "shadow_param sn ty ix dm (nk_key n) s"
  let ?s1 = "s\<lparr>sh_calls := sh_calls s @ [Sh_dev2cloud f ?p], sh_dev_values := as\<rparr>"
  have c: "call_dev2cloud f ?p s = ((0, v), ?s1)"
    using assms(4,6) a by (simp add: call_dev2cloud_def upd_sw_def faulty_def Let_def)
  have "on_shw (tlv2json L (Some v)) ?s1 = (None, ?s1)" using a by (simp add: tlv2json_def on_shw_def)
  then have "do_report L sn ty ix dm n s = ((- 1, n), ?s1)" using assms(2,3) due c by (simp add: do_report_def)
  then show ?thesis by blast
qed

lemma walk_blocked:
  assumes "blocked_by (now (sh_world s)) xs" and "sh_dev_values s = a # as" and "no_length a" and "g_p2c_buf s = Buf_live"
  shows "\<exists>k f p. visit (at_key (report_key L)) xs (i, s) =
    ((True, xs), (k, s\<lparr>sh_calls := sh_calls s @ [Sh_dev2cloud f p], sh_dev_values := as\<rparr>))"
  using assms
proof (induction xs arbitrary: i)
  case Nil
  then show ?case by (simp add: blocked_by_def)
next
  case (Cons x xs)
  obtain sn ty c d n where x: "x = (sn, ty, c, d, n)" by (metis surj_pair)
  show ?case
  proof (cases "key_due (now (sh_world s)) n")
    case True
    then obtain f where f: "nk_json_value n = None" "nk_dev2cloud n = Some f"
      using Cons.prems(1) by (auto simp: blocked_by_def x key_of_def)
    obtain p where r: "do_report L sn ty c d n s = ((- 1, n), s\<lparr>sh_calls := sh_calls s @ [Sh_dev2cloud f p], sh_dev_values := as\<rparr>)"
      using do_report_no_length [OF True f Cons.prems(2-4), of L sn ty c d] by blast
    show ?thesis by (intro exI [of _ i] exI [of _ f] exI [of _ p]) (simp add: x at_key_def report_key_def r)
  next
    case False
    have r: "at_key (report_key L) x (i, s) = ((False, x), (i + of_bool (key_waits (now (sh_world s)) n), s))"
      using do_report_skips [of s n L sn ty c d] False by (simp add: at_key_def report_key_def x)
    have "blocked_by (now (sh_world s)) xs" using Cons.prems(1) False by (simp add: blocked_by_def x key_of_def)
    then obtain k f p where "visit (at_key (report_key L)) xs (i + of_bool (key_waits (now (sh_world s)) n), s) =
        ((True, xs), (k, s\<lparr>sh_calls := sh_calls s @ [Sh_dev2cloud f p], sh_dev_values := as\<rparr>))"
      using Cons.IH Cons.prems(2-4) by blast
    then show ?thesis by (intro exI [of _ k] exI [of _ f] exI [of _ p]) (simp add: r)
  qed
qed

lemma report_blocked:
  assumes "blocked_by (now (sh_world s)) (keys_of (g_shaodw_modules s))" and "sh_dev_values s = a # as" and "no_length a"
    and "g_p2c_buf s = Buf_live"
  shows "\<exists>ms cs. shadow_proc_report L s = (- 1, s\<lparr>g_shaodw_modules := ms, sh_calls := cs, sh_dev_values := as\<rparr>) \<and>
    keys_of ms = keys_of (g_shaodw_modules s)"
proof -
  obtain st ms c where w: "walk_keys (report_key L) (g_shaodw_modules s) (0, s) = ((st, ms), c)" by (metis surj_pair)
  obtain k f p where "visit (at_key (report_key L)) (keys_of (g_shaodw_modules s)) (0, s) =
      ((True, keys_of (g_shaodw_modules s)), (k, s\<lparr>sh_calls := sh_calls s @ [Sh_dev2cloud f p], sh_dev_values := as\<rparr>))"
    using walk_blocked [OF assms, of L 0] by blast
  with walk_keys_flat [OF w] have "st" "keys_of ms = keys_of (g_shaodw_modules s)"
      "c = (k, s\<lparr>sh_calls := sh_calls s @ [Sh_dev2cloud f p], sh_dev_values := as\<rparr>)" by simp_all
  then show ?thesis by (intro exI [of _ ms] exI [of _ "sh_calls s @ [Sh_dev2cloud f p]"]) (simp add: shadow_proc_report_def w)
qed

text \<open>The thread runs and is in the middle of its reports.\<close>

definition reporting :: "shadow \<Rightarrow> bool" where
  "reporting s \<longleftrightarrow> sh_running s \<and> 0 < sh_threads s \<and> g_is_online s \<and> \<not> sh_waiting s \<and> sh_proc_result s \<noteq> 0 \<and>
     no_request s \<and> g_shadow_status s \<noteq> Shadow_status_sync \<and> g_p2c_buf s = Buf_live"

lemma turn_blocked:
  assumes "reporting s" and "blocked_by (now (sh_world s)) (keys_of (g_shaodw_modules s))" and "sh_dev_values s = a # as"
    and "no_length a"
  shows "\<exists>ms cs. shadow_core_yeild L e s =
      s\<lparr>g_shaodw_modules := ms, sh_calls := cs, sh_dev_values := as, sh_proc_result := - 1\<rparr> \<and>
    keys_of ms = keys_of (g_shaodw_modules s)"
proof -
  obtain ms cs where r: "shadow_proc_report L s = (- 1, s\<lparr>g_shaodw_modules := ms, sh_calls := cs, sh_dev_values := as\<rparr>)"
    and k: "keys_of ms = keys_of (g_shaodw_modules s)"
    using report_blocked [OF assms(2-4), of L] assms(1) by (auto simp: reporting_def)
  have "check_status_update s = s" using assms(1) by (simp add: check_status_idle reporting_def)
  then have "shadow_proc_do L s = (- 1, s\<lparr>g_shaodw_modules := ms, sh_calls := cs, sh_dev_values := as\<rparr>)"
    using assms(1) r by (cases "g_shadow_status s") (simp_all add: shadow_proc_do_def shadow_proc_chg_def reporting_def)
  then have "shadow_core_yeild L e s = s\<lparr>g_shaodw_modules := ms, sh_calls := cs, sh_dev_values := as, sh_proc_result := - 1\<rparr>"
    using assms(1) by (simp add: shadow_core_yeild_def shadow_pass_def reporting_def)
  with k show ?thesis by blast
qed

lemma turns_blocked:
  assumes "reporting s" and "blocked_by (now (sh_world s)) (keys_of (g_shaodw_modules s))"
    and "sh_dev_values s = as @ bs" and "list_all no_length as"
  shows "keys_of (g_shaodw_modules ((shadow_core_yeild L e ^^ length as) s)) = keys_of (g_shaodw_modules s)"
    and "sh_world ((shadow_core_yeild L e ^^ length as) s) = sh_world s"
    and "reporting ((shadow_core_yeild L e ^^ length as) s)"
proof -
  let ?f = "shadow_core_yeild L e"
  have "keys_of (g_shaodw_modules ((?f ^^ length as) s)) = keys_of (g_shaodw_modules s) \<and> sh_world ((?f ^^ length as) s) = sh_world s \<and>
      reporting ((?f ^^ length as) s)"
    using assms
  proof (induction as arbitrary: s)
    case (Cons a as)
    obtain ms cs where y: "?f s = s\<lparr>g_shaodw_modules := ms, sh_calls := cs, sh_dev_values := as @ bs, sh_proc_result := - 1\<rparr>"
      and k: "keys_of ms = keys_of (g_shaodw_modules s)"
      using turn_blocked [OF Cons.prems(1,2), of a "as @ bs" L e] Cons.prems(3,4) by auto
    have "reporting (?f s)" using Cons.prems(1) by (simp add: y reporting_def no_request_def)
    then show ?case using Cons.IH [of "?f s"] Cons.prems k y by (simp add: funpow_swap1)
  qed simp
  then show "keys_of (g_shaodw_modules ((?f ^^ length as) s)) = keys_of (g_shaodw_modules s)"
    "sh_world ((?f ^^ length as) s) = sh_world s" "reporting ((?f ^^ length as) s)" by simp_all
qed

section \<open>A string from the cloud\<close>

lemma do_set_string:
  assumes "locate_key (g_shaodw_modules s) sn ty ix dm k = Inr p" and "nk_cloud2dev (key_at (g_shaodw_modules s) p) = Some f"
    and "js_type j = cJSON_String" and "do_set L sn ty ix dm k j s = (rv, s1)"
  shows "w_fault (sh_world s1)"
    and "\<exists>v q. sh_calls s1 = sh_calls s @ [Sh_cloud2dev f v q] \<and> shd_data v = Shd_string (js_valuestring j)"
  using assms
  by (auto simp: do_set_def json2tlv_def on_shw_def call_cloud2dev_def is_string_value_def upd_sw_def faulty_def tlv_destroy_def
      w_json_delete_def Let_def split: list.splits)

text \<open>Every other kind of value reaches the callback without a fault.\<close>

lemma do_set_others:
  assumes "js_type j \<noteq> cJSON_String" and "do_set L sn ty ix dm k j s = (rv, s1)"
  shows "w_fault (sh_world s1) = w_fault (sh_world s)"
proof -
  have f: "w_fault (snd (json2tlv L j w)) = w_fault w" "\<not> is_string_value (snd (fst (json2tlv L j w)))" for w
    using assms(1)
    by (auto simp: json2tlv_def cJSON_PrintUnformatted_def w_malloc_def is_string_value_def zero_value_def
        split: cJSON_type.splits option.splits prod.splits)
  obtain r v w1 where t: "json2tlv L j (sh_world s) = ((r, v), w1)" by (metis surj_pair)
  have "w_fault w1 = w_fault (sh_world s)" "\<not> is_string_value v" using f [of "sh_world s"] t by simp_all
  then show ?thesis
    using assms(2)
    by (auto simp: do_set_def on_shw_def t call_cloud2dev_def upd_sw_def faulty_def tlv_destroy_def w_json_delete_def w_free_def Let_def
        split: list.splits sum.splits option.splits if_splits ez_shadow_data.splits)
qed

section \<open>A thread that cannot be created\<close>

lemma start_without_thread:
  assumes "g_sem s = Sem_null" and "sh_plat s = [True, True, False]" and "mem_plenty (w_mem (sh_world s))"
    and "retried (shadow_core_start f) id s = ((ok, b), s1)"
  shows "\<not> ok" and "sh_running s1" and "sh_threads s1 = sh_threads s + 1" and "g_sem s1 = Sem_destroyed"
    and "g_shd_is_inited s1 = g_shd_is_inited s" and "w_fault (sh_world s1) = w_fault (sh_world s)"
  using assms
  by (auto simp: retried_def shadow_core_start_def sh_create_def on_shw_def w_malloc_def malloc_grown Let_def grown_def split: prod.splits)

lemma event_on_destroyed:
  "sh_running s \<Longrightarrow> g_sem s = Sem_destroyed \<Longrightarrow> w_fault (sh_world (shadow_core_event_occured e s))"
  by (auto simp: shadow_core_event_occured_def ezos_sem_post_def upd_sw_def faulty_def Let_def split: shadow_event_type.split)

end
