(* ===== verification/Shadow_Value.thy ===== *)
theory Shadow_Value
  imports Shadow_Faults Hub_Laws
begin

text \<open>
  Values of the device shadow as text: with the JSON code of this repository the value of a report is read back as it was
  pushed, and a value the cloud desires reaches the callback of its key.
\<close>

section \<open>Scalar values\<close>

text \<open>The values of a fixed size, and the non-empty strings; the length is the one \<^verbatim>\<open>json2tlv\<close> gives.\<close>

definition scalar_tlv :: "ez_shadow_value \<Rightarrow> bool" where
  "scalar_tlv v \<longleftrightarrow> (case shd_data v of
      Shd_bool i \<Rightarrow> (i = 0 \<or> i = 1) \<and> shd_length v = 4
    | Shd_int i \<Rightarrow> - (2 ^ 31) \<le> i \<and> i < 2 ^ 31 \<and> shd_length v = 4
    | Shd_string t \<Rightarrow> (case t of None \<Rightarrow> False | Some s \<Rightarrow> c_text (Some s) \<and> s \<noteq> [] \<and> length s < 2 ^ 32 \<and> shd_length v = of_nat (length s))
    | _ \<Rightarrow> False)"

definition value_json :: "ez_shadow_value \<Rightarrow> cJSON" where
  "value_json v = (case shd_data v of
      Shd_bool i \<Rightarrow> CJSON (if i \<noteq> 0 then cJSON_True else cJSON_False) 0 0 None None []
    | Shd_int i \<Rightarrow> js_number i
    | Shd_string (Some s) \<Rightarrow> js_text s
    | _ \<Rightarrow> js_object [])"

lemma scalar_cases:
  assumes "scalar_tlv v"
  obtains i where "v = \<lparr>shd_length = 4, shd_data = Shd_bool i\<rparr>" "i = 0 \<or> i = 1"
  | i where "v = \<lparr>shd_length = 4, shd_data = Shd_int i\<rparr>" "- (2 ^ 31) \<le> i" "i < 2 ^ 31"
  | s where "v = \<lparr>shd_length = of_nat (length s), shd_data = Shd_string (Some s)\<rparr>" "c_text (Some s)" "s \<noteq> []" "length s < 2 ^ 32"
proof -
  obtain n d where v: "v = \<lparr>shd_length = n, shd_data = d\<rparr>" by (cases v)
  show ?thesis using assms that by (cases d) (auto simp: v scalar_tlv_def split: option.splits)
qed

lemma length_not_zero: "s \<noteq> [] \<Longrightarrow> length s < 2 ^ 32 \<Longrightarrow> (of_nat (length s) :: uint32) \<noteq> 0"
  using unat_of_nat_small [where 'a = 32, of "length s"] by auto

lemma scalar_tlv2json:
  assumes "scalar_tlv v" and "mem_plenty (w_mem w)"
  shows "tlv2json L (Some v) w = (Some (value_json v), wgrown (int (json_blocks (value_json v))) w)"
  using assms
  by (elim scalar_cases)
    (auto simp: tlv2json_def value_json_def w_json_def cJSON_CreateBool_def cJSON_CreateNumber_def create_string_def cJSON_CreateString_def
      cJSON_New_Item_def malloc_grown js_number_def js_text_def wgrown_def length_not_zero)

lemma scalar_json: "scalar_tlv v \<Longrightarrow> json_ok (value_json v) \<and> json_depth (value_json v) = 0 \<and> js_string (value_json v) = None"
  by (elim scalar_cases) (auto simp: value_json_def js_number_def js_text_def)

text \<open>What the parser gives for the value as the member of an object.\<close>

lemma scalar_json2tlv: "scalar_tlv v \<Longrightarrow> json2tlv L (set_name nm (canon (value_json v))) w = ((0, v), w)"
  by (elim scalar_cases) (auto simp: value_json_def js_number_def js_text_def json2tlv_def set_name_def is_double_def)

section \<open>Documents\<close>

definition set_doc :: "string \<Rightarrow> string \<Rightarrow> cJSON \<Rightarrow> cJSON" where
  "set_doc dm key j = js_object [item_named ''state'' (js_object [item_named ''desired'' (js_object [item_named ''domain'' (js_text dm),
     item_named ''identifier'' (js_text key), item_named ''value'' j])])]"

lemma item_named_ok [simp]: "json_ok (item_named s j) = json_ok j" "json_depth (item_named s j) = json_depth j" "js_string (item_named s j) = Some s"
    "canon (item_named s j) = canon j" "js_valuestring (item_named s j) = js_valuestring j"
  by (cases j, simp add: item_named_def)+

lemma js_parts [simp]:
  "json_ok (js_text s) = c_text (Some s)" "json_ok (js_number i) = (- (2 ^ 31) \<le> i \<and> i < 2 ^ 31)" "json_depth (js_text s) = 0" "json_depth (js_number i) = 0"
  "json_ok (js_object cs) = (\<forall>c\<in>set cs. c_text (js_string c) \<and> json_ok c)" "json_depth (js_object cs) = Suc (foldr max (map json_depth cs) 0)"
  "canon (js_text s) = js_text s" "canon (js_number i) = js_number i" "canon (js_object cs) = js_object (map (\<lambda>c. set_name (js_string c) (canon c)) cs)"
  "js_child (js_object cs) = cs" "js_valuestring (js_text s) = Some s"
  by (auto simp: js_text_def js_number_def js_object_def)

lemma set_name_item: "set_name (Some s) j = item_named s j"
  by (cases j) (simp add: set_name_def item_named_def)

lemma c_texts [simp]: "c_text (Some ''method'')" "c_text (Some ''spv'')" "c_text (Some ''state'')" "c_text (Some ''reported'')"
    "c_text (Some ''domain'')" "c_text (Some ''identifier'')" "c_text (Some ''value'')" "c_text (Some ''version'')" "c_text (Some ''desired'')"
    "c_text (Some ''report'')"
  by (simp_all add: c_text_def)

lemma item_named_child [simp]: "js_child (item_named s j) = js_child j"
  by (simp add: item_named_def)

lemma report_doc_parsed:
  assumes "json_ok j" and "json_depth j = 0" and "c_text (Some dm)" and "c_text (Some key)" and "unat ver < 2 ^ 31"
  shows "cjson_parse (cjson_print (report_doc dm key j ver)) = Some (report_doc dm key (canon j) ver)"
proof -
  have "int (unat ver) < int (2 ^ 31)" using assms(5) by (simp only: of_nat_less_iff)
  then have "uint ver < 2 ^ 31" by simp
  moreover have "- (2 ^ 31) \<le> uint ver" by (rule order_trans [OF _ uint_ge_0]) simp
  ultimately have "json_ok (report_doc dm key j ver)" "json_depth (report_doc dm key j ver) \<le> CJSON_NESTING_LIMIT"
    using assms by (simp_all add: report_doc_def CJSON_NESTING_LIMIT_def)
  from cj.print_parse [OF this] show ?thesis by (simp add: report_doc_def set_name_item)
qed

lemma set_doc_parsed:
  assumes "json_ok j" and "json_depth j = 0" and "c_text (Some dm)" and "c_text (Some key)"
  shows "cjson_parse (cjson_print (set_doc dm key j)) = Some (set_doc dm key (canon j))"
proof -
  have "json_ok (set_doc dm key j)" "json_depth (set_doc dm key j) \<le> CJSON_NESTING_LIMIT"
    using assms by (simp_all add: set_doc_def CJSON_NESTING_LIMIT_def)
  from cj.print_parse [OF this] show ?thesis by (simp add: set_doc_def set_name_item)
qed

lemma reported_value:
  "cJSON_GetObjectItem (cJSON_GetObjectItem (cJSON_GetObjectItem (Some (report_doc dm key j ver)) ''state'') ''reported'') ''value'' =
    Some (item_named ''value'' j)"
  by (simp add: report_doc_def cJSON_GetObjectItem_def case_insensitive_strcmp_def tolower_def)

lemma pushed_value_read_back:
  assumes "scalar_tlv v" and "mem_plenty (w_mem w)" and "c_text (Some dm)" and "c_text (Some key)" and "unat ver < 2 ^ 31"
  shows "\<exists>j w1 doc item. tlv2json L (Some v) w = (Some j, w1) \<and>
    cjson_parse (report_text (with_cjson L) dm key j ver) = Some doc \<and>
    cJSON_GetObjectItem (cJSON_GetObjectItem (cJSON_GetObjectItem (Some doc) ''state'') ''reported'') ''value'' = Some item \<and>
    json2tlv L item w1 = ((0, v), w1)"
proof -
  let ?j = "value_json v"
  have "cjson_parse (report_text (with_cjson L) dm key ?j ver) = Some (report_doc dm key (canon ?j) ver)"
    using report_doc_parsed [of ?j dm key ver] scalar_json [OF assms(1)] assms(3-5) by (simp add: report_text_def with_cjson_def)
  then show ?thesis
    using scalar_tlv2json [OF assms(1,2), of L] scalar_json2tlv [OF assms(1), of L "Some ''value''"] reported_value [of dm key "canon ?j" ver]
    by (simp add: set_name_item)
qed

section \<open>Values the cloud desires\<close>

lemma desired_item:
  "cJSON_GetObjectItem (cJSON_GetObjectItem (Some (set_doc dm key j)) ''state'') ''desired'' =
    Some (item_named ''desired'' (js_object [item_named ''domain'' (js_text dm), item_named ''identifier'' (js_text key), item_named ''value'' j]))"
  by (simp add: set_doc_def cJSON_GetObjectItem_def case_insensitive_strcmp_def tolower_def)

lemma set_item_parts:
  defines "item \<equiv> \<lambda>dm key j. item_named ''desired'' (js_object [item_named ''domain'' (js_text dm), item_named ''identifier'' (js_text key),
    item_named ''value'' j])"
  shows "cJSON_GetObjectItem (Some (item dm key j)) ''domain'' = Some (item_named ''domain'' (js_text dm))"
    and "cJSON_GetObjectItem (Some (item dm key j)) ''identifier'' = Some (item_named ''identifier'' (js_text key))"
    and "fst (cJSON_DetachItemFromObject (item dm key j) ''value'') = Some (item_named ''value'' j)"
  by (simp_all add: item_def cJSON_GetObjectItem_def cJSON_DetachItemFromObject_def case_insensitive_strcmp_def tolower_def)

lemma set_item_do_set:
  "set_item L sn ty ix (item_named ''desired'' (js_object [item_named ''domain'' (js_text dm), item_named ''identifier'' (js_text key),
      item_named ''value'' j])) s =
    (case do_set L sn ty ix dm key (item_named ''value'' j) s of (rv, s1) \<Rightarrow> ((rv, json_blocks (item_named ''value'' j)), s1))"
proof -
  have f: "upd_sw (faulty False) s = s" for s by (simp add: upd_sw_def faulty_def)
  let ?i = "item_named ''desired'' (js_object [item_named ''domain'' (js_text dm), item_named ''identifier'' (js_text key), item_named ''value'' j])"
  obtain r where d: "cJSON_DetachItemFromObject ?i ''value'' = (Some (item_named ''value'' j), r)"
    using set_item_parts(3) [of dm key j] by (metis prod.collapse)
  show ?thesis by (simp add: set_item_def set_item_parts d f)
qed

lemma set_doc_blocks: "json_blocks (set_doc dm key j) = 11 + json_blocks (item_named ''value'' j)"
  by (simp add: set_doc_def js_object_def js_text_def)

lemma document_freed: "w_frees k (faulty q (w_json_delete (Some i) (wgrown (int (k + json_blocks i)) w))) = faulty q w"
  by (simp add: w_frees_def faulty_def w_json_delete_def wgrown_def free_grown) (simp add: grown_def)

text \<open>The callback of the key gets the value once; its answer is the result of the call. Nothing of the document stays.\<close>

lemma desired_reaches_callback:
  assumes v: "scalar_tlv v" and m: "mem_plenty (w_mem (sh_world s))" and names: "c_text (Some dm)" "c_text (Some key)"
    and l: "locate_key (g_shaodw_modules s) sn ty ix dm key = Inr p" and f: "nk_cloud2dev (key_at (g_shaodw_modules s) p) = Some f"
    and c: "sh_dev_codes s = code # codes"
  shows "shadow_set2dev (with_cjson L) sn ty ix (Some (cjson_print (set_doc dm key (value_json v)))) s =
    (code, upd_sw (faulty (is_string_value v))
      (s\<lparr>sh_dev_codes := codes, sh_calls := sh_calls s @ [Sh_cloud2dev f v (shadow_param sn ty ix dm key s)]\<rparr>))"
proof -
  let ?j = "canon (value_json v)" and ?L = "with_cjson L"
  let ?d = "set_doc dm key ?j" and ?i = "item_named ''value'' (canon (value_json v))"
  have parsed: "cJSON_Parse (lib_text ?L) (cjson_print (set_doc dm key (value_json v))) = Some ?d"
    using set_doc_parsed [OF _ _ names, of "value_json v"] scalar_json [OF v] by (simp add: with_cjson_def)
  have live: "m\<lparr>live := live m + 1 + int (json_blocks ?d) - 1\<rparr> = grown (int (json_blocks ?d)) m" for m by (simp add: grown_def)
  have hp: "parse_payload ?L (Some (cjson_print (set_doc dm key (value_json v)))) s = (Some ?d, upd_sw (wgrown (int (json_blocks ?d))) s)"
    using m by (simp add: parse_payload_def on_shw_def hub_parse_def parsed w_malloc_def malloc_grown upd_sw_def wgrown_def grown_def)
  let ?s1 = "upd_sw (wgrown (int (json_blocks ?d))) s"
  have t: "json2tlv ?L ?i w = ((0, v), w)" for w using scalar_json2tlv [OF v, of ?L "Some ''value''" w] by (simp add: set_name_item)
  have td: "tlv_destroy v w = (zero_value, w)" for w using v by (elim scalar_cases) (simp_all add: tlv_destroy_def)
  let ?s2 = "upd_sw (faulty (is_string_value v)) (upd_sw (w_json_delete (Some ?i)) ?s1)"
  have ds: "do_set ?L sn ty ix dm key ?i ?s1 =
      (code, ?s2\<lparr>sh_dev_codes := codes, sh_calls := sh_calls s @ [Sh_cloud2dev f v (shadow_param sn ty ix dm key s)]\<rparr>)"
    using l f c by (simp add: do_set_def on_shw_def t td call_cloud2dev_def upd_sw_def shadow_param_def wgrown_def
        ez_kernel_getdevinfo_bykey_def Let_def)
  have b: "json_blocks ?d = 11 + json_blocks ?i" by (rule set_doc_blocks)
  have w: "w_frees 11 (faulty q (w_json_delete (Some ?i) (wgrown (int (json_blocks ?d)) w))) = faulty q w" for q w
    unfolding b by (rule document_freed)
  have "shadow_set2dev ?L sn ty ix (Some (cjson_print (set_doc dm key (value_json v)))) s = (code, upd_sw (w_frees 11)
      (?s2\<lparr>sh_dev_codes := codes, sh_calls := sh_calls s @ [Sh_cloud2dev f v (shadow_param sn ty ix dm key s)]\<rparr>))"
    unfolding shadow_set2dev_def hp by (simp only: prod.case option.case desired_item set_item_do_set ds) (simp only: b add_diff_cancel_right')
  also have "\<dots> = (code, upd_sw (faulty (is_string_value v))
      (s\<lparr>sh_dev_codes := codes, sh_calls := sh_calls s @ [Sh_cloud2dev f v (shadow_param sn ty ix dm key s)]\<rparr>))"
    by (simp add: upd_sw_def w del: item_named_blocks)
  finally show ?thesis .
qed

end
