(* ===== verification/Shadow_Samples.thy ===== *)
theory Shadow_Samples
  imports Samples Shadow_Value
begin

text \<open>
  Concrete inputs for the device shadow: an application with one integer property \<^verbatim>\<open>k\<close> in the domain \<^verbatim>\<open>d\<close> of a device
  \<^verbatim>\<open>D1\<close>, a started core, and the module running with that property in a given state.
\<close>

definition sample_business :: ez_shadow_business where
  "sample_business = \<lparr>sb_key = ''k'', business2dev = Some 7, business2cloud = Some 8\<rparr>"

definition sample_value :: ez_shadow_value where
  "sample_value = \<lparr>shd_length = 4, shd_data = Shd_int 5\<rparr>"

definition sample_key :: "cJSON option \<Rightarrow> node_key" where
  "sample_key j = (new_key sample_business)\<lparr>nk_stat_ver := 1, nk_json_value := j\<rparr>"

definition sample_index :: "node_key list \<Rightarrow> node_index" where
  "sample_index ks = \<lparr>ni_index = 0, ni_need_sync = True, ni_sync_timer = zero_timer, ni_retry_count = 0,
     ni_domain_lst = [\<lparr>nd_prot_ver = 3, nd_domain_string = ''d'', nd_key_lst = ks\<rparr>]\<rparr>"

definition sample_modules :: "node_key list \<Rightarrow> shadow_modules" where
  "sample_modules ks = [\<lparr>nv_dev_sn = ''D1'', nv_type_lst = [\<lparr>ns_type = ''T'', ns_index_lst = [sample_index ks]\<rparr>]\<rparr>]"

definition sample_shadow :: "shadow_modules \<Rightarrow> shadow" where
  "sample_shadow ms = \<lparr>sh_world = started_world, g_shaodw_modules = ms, sh_running = True, g_is_online = True, g_sem = Sem_live 0,
     sh_hlock = Mutex_live, g_p2c_buf = Buf_live, g_notice_pfunc = Some 6, g_shadow_status = Shadow_status_chg,
     g_need_reset = False, g_need_report = False, g_need_sync = False, g_shd_is_inited = True, sh_threads = 1, sh_proc_result = 0,
     sh_waiting = False, sh_signalled = False, sh_time = 0, sh_plat = [], sh_dev_values = [], sh_dev_codes = [], sh_calls = []\<rparr>"

lemmas sample_tree_defs = sample_modules_def sample_index_def sample_key_def new_key_def sample_business_def

lemma started_room: "sends 4 started_world" "das_transport_seq started_world + 1 \<noteq> 0"
  by (code_simp)+

lemma sample_shadow_usable: "shadow_usable (sample_shadow [])" "shadow_usable (sample_shadow (sample_modules [sample_key j]))"
  using started_world_fields
  by (simp_all add: shadow_usable_def sample_shadow_def mem_plenty_def shadow_inv_def modules_ok_def named_def all_indexes_def
      sample_tree_defs sk_defs attempts_ok_def)

lemma started_sn: "ez_kernel_getdevinfo_bykey ''dev_subserial'' started_world = ''S1''"
  by code_simp

lemma sample_sn: "shadow_sn ''D1'' (sample_shadow ms) = ''D1''"
  using started_sn by (simp add: shadow_sn_def sample_shadow_def)

lemma sample_look:
  "shadow_look (sample_shadow (sample_modules [sample_key j])) (''D1'', ''T'', 0, ''d'', ''k'') = Some (sample_key j)"
  by (simp add: shadow_look_def sample_shadow_def reg_key_def dev_key_def find_dev_def find_set_def find_index_def find_domain_def
      find_key_def sample_tree_defs strncpy_def)

lemma sample_keys: "keys_of (sample_modules ks) = map (\<lambda>n. (''D1'', ''T'', 0, ''d'', n)) ks"
  by (simp add: keys_of_def flat_dev_def flat_set_def flat_index_def flat_domain_def sample_modules_def sample_index_def)

text \<open>A pass over one due key that holds the number 5.\<close>

lemma sample_pass_keys:
  "keys_of (g_shaodw_modules (sample_shadow (sample_modules [n]))) = [(''D1'', ''T'', 0, ''d'', n)]" "sh_world (sample_shadow ms) = started_world"
  by (simp_all add: sample_shadow_def sample_keys)

lemma sample_due: "key_due t (sample_key j)" "\<not> key_waits t (sample_key j)"
  by (simp_all add: key_due_def key_waits_def sample_key_def new_key_def zero_timer_def)

lemma sample_sends: "sends 1 started_world" "sends (Suc 0) started_world" "value_fits sample_libs (a, b, c, ''d'', sample_key (Some j))"
  using started_room(1)
  by (simp_all add: sends_def value_fits_def sample_key_def report_text_def sample_libs_def no_text_def CONFIG_EZIOT_CORE_MESSAGE_SIZE_MAX_def)

end
