(* ===== verification/Ota_Core.thy ===== *)
theory Ota_Core
  imports Shadow_Report
begin

text \<open>
  The upgrade module (\<^verbatim>\<open>ez_iot_bm/ota\<close>): the messages to the platform, the request for an upgrade, the report of the module
  versions, the download of a file with its retries, and the interface. The HTTP client
  (\<^verbatim>\<open>components/webclient\<close>) is not modelled: what it answers to an attempt, as a function of the position asked for, is an input, as
  are the results of the application's callbacks, and the memory it uses for itself is not counted. The download runs in a thread of its own: \<^verbatim>\<open>ez_ota_file_download\<close> starts it, \<^verbatim>\<open>ota_file_download_thread\<close> is its body.
\<close>

section \<open>State\<close>

abbreviation (input) EZ_OTA_ERR_SUCC :: ez_err where "EZ_OTA_ERR_SUCC \<equiv> 0"
abbreviation (input) EZ_OTA_ERR_NOT_INIT :: ez_err where "EZ_OTA_ERR_NOT_INIT \<equiv> 0x20001"
abbreviation (input) EZ_OTA_ERR_PARAM_INVALID :: ez_err where "EZ_OTA_ERR_PARAM_INVALID \<equiv> 0x20002"
abbreviation (input) EZ_OTA_ERR_SEND_MSG_ERR :: ez_err where "EZ_OTA_ERR_SEND_MSG_ERR \<equiv> 0x20003"
abbreviation (input) EZ_OTA_ERR_JSON_CREATE_ERR :: ez_err where "EZ_OTA_ERR_JSON_CREATE_ERR \<equiv> 0x20004"
abbreviation (input) EZ_OTA_ERR_JSON_FORAMT_ERR :: ez_err where "EZ_OTA_ERR_JSON_FORAMT_ERR \<equiv> 0x20005"
abbreviation (input) EZ_OTA_ERR_REGISTER_ERR :: ez_err where "EZ_OTA_ERR_REGISTER_ERR \<equiv> 0x20006"
abbreviation (input) EZ_OTA_ERR_DOWNLOAD_ALREADY :: ez_err where "EZ_OTA_ERR_DOWNLOAD_ALREADY \<equiv> 0x20007"
abbreviation (input) EZ_OTA_ERR_MEM_ERROR :: ez_err where "EZ_OTA_ERR_MEM_ERROR \<equiv> 0x20008"

abbreviation (input) ota_module_name :: string where "ota_module_name \<equiv> ''ota''"
abbreviation (input) ota_version :: string where "ota_version \<equiv> ''V1.0.0''"
abbreviation (input) ota_state_ready :: int where "ota_state_ready \<equiv> 0"
abbreviation (input) ota_state_succ :: int where "ota_state_succ \<equiv> 7"
abbreviation (input) ota_state_failed :: int where "ota_state_failed \<equiv> 8"

record ez_ota_file_diff =
  df_url :: string
  df_fw_ver_dst :: string
  df_degist :: string
  df_size :: int

record ez_ota_file_info =
  fi_mod_name :: string
  fi_url :: string
  fi_fw_ver :: string
  fi_degist :: string
  fi_size :: int
  fi_pdiffs :: "ez_ota_file_diff option"

text \<open>The number of files is the length of the list.\<close>

record ez_ota_upgrade_info =
  ui_retry_max :: int
  ui_interval :: int
  ui_pota_files :: "ez_ota_file_info list"

record ez_ota_module =
  om_mod_name :: "string option"
  om_fw_ver :: "string option"

record ez_ota_modules =
  oms_num :: int
  oms_plist :: "ez_ota_module list"

record ez_ota_download_info =
  dl_url :: string
  dl_degist :: string
  dl_block_size :: int
  dl_total_size :: int
  dl_timeout_s :: int
  dl_retry_max :: int

text \<open>The argument of the download thread.\<close>

record ez_ota_info =
  oi_url :: string
  oi_check_sum :: string
  oi_total_size :: uint32
  oi_recv_size :: uint32
  oi_timeout_s :: int
  oi_retry_max :: int
  oi_file_cb :: nat
  oi_notify :: nat

text \<open>
  What the HTTP client answers to one attempt: whether there is a session, the status, the content length and the
  results of the reads with what they leave in the buffer. \<^verbatim>\<open>rd_quit\<close> and \<^verbatim>\<open>ht_quit\<close> say that the module has been stopped by the
  time the thread looks.
\<close>

record http_read =
  rd_len :: int
  rd_data :: "byte list"
  rd_quit :: bool

record http_try =
  ht_session :: bool
  ht_status :: int
  ht_length :: uint32
  ht_reads :: "http_read list"
  ht_quit :: bool

datatype ota_result = RESULT_SUC | RESULT_FAILED

datatype ota_call =
    Ota_recv nat string ez_ota_upgrade_info
  | Ota_file nat uint32 uint32 "byte list"
  | Ota_notify nat ota_result
  | Ota_null

text \<open>
  What becomes of the thread \<^verbatim>\<open>ezos_thread_create\<close> is asked for: there is none, it is still running when the creator goes on, or it has ended
  by then. The creator marks the download as running only after the call, and the thread clears the mark as its last step, so
  nothing else of the order in which the two run can be observed.
\<close>

datatype thread_start = Thread_refused | Thread_runs | Thread_ends_first

record ota =
  ota_world :: world
  g_ota_inited :: bool
  g_ota_cb :: func_ptr
  g_quit :: bool
  g_download_status :: bool
  ota_threads :: "thread_start list"
  ota_tries :: "(uint32 \<Rightarrow> http_try) list"
  ota_file_codes :: "int list"
  ota_recv_codes :: "int list"
  ota_calls :: "ota_call list"
  ota_task :: "ez_ota_info option"

definition upd_ow :: "(world \<Rightarrow> world) \<Rightarrow> ota \<Rightarrow> ota" where
  "upd_ow f s = s\<lparr>ota_world := f (ota_world s)\<rparr>"

definition on_ow :: "(world \<Rightarrow> 'r \<times> world) \<Rightarrow> ota \<Rightarrow> 'r \<times> ota" where
  "on_ow f s = (case f (ota_world s) of (r, w) \<Rightarrow> (r, s\<lparr>ota_world := w\<rparr>))"

section \<open>Messages\<close>

definition hex_text :: "nat \<Rightarrow> string" where
  "hex_text n = map (\<lambda>i. hex_digit False (n div 16 ^ i mod 16)) (rev [0..<8])"

text \<open>The formats \<^verbatim>\<open>0x%08x\<close> and \<^verbatim>\<open>0x%#08x\<close>; the second one writes the prefix again unless the number is 0.\<close>

definition hex08 :: "int \<Rightarrow> string" where
  "hex08 i = ''0x'' @ hex_text (nat (i mod 2 ^ 32))"

definition hex08_alt :: "int \<Rightarrow> string" where
  "hex08_alt i =
     (let n = nat (i mod 2 ^ 32); t = dropWhile (\<lambda>c. c = CHR ''0'') (hex_text n) in
      if n = 0 then ''0x00000000'' else ''0x0x'' @ replicate (6 - length t) (CHR ''0'') @ t)"

abbreviation (input) EZ_OTA_RSP :: uint8 where "EZ_OTA_RSP \<equiv> 1"
abbreviation (input) EZ_OTA_REQ :: uint8 where "EZ_OTA_REQ \<equiv> 0"

definition ota_pubmsg :: "string option \<Rightarrow> string \<Rightarrow> string \<Rightarrow> uint8 \<Rightarrow> uint32 \<Rightarrow> byte list \<Rightarrow> ez_kernel_pubmsg_v3" where
  "ota_pubmsg pres msg_type method response seq body =
     \<lparr>pub3_msg_response = response, pub3_msg_qos = QOS_T0, pub3_msg_seq = seq, pub3_msg_body_len = of_nat (length body),
      pub3_msg_body = Some body, pub3_resource_id = ''0'', pub3_resource_type = ''global'',
      pub3_module = strncpy ota_module_name (ezdev_sdk_module_name_len - 1),
      pub3_method = strncpy method (ezdev_sdk_method_len - 1),
      pub3_msg_type = strncpy msg_type (ezdev_sdk_msg_type_len - 1),
      pub3_sub_serial = (case pres of None \<Rightarrow> '''' | Some sn \<Rightarrow> strncpy sn (ezdev_sdk_max_serial_len - 1)), pub3_ext_msg = ''''\<rparr>"

text \<open>The callers give neither a NULL pointer nor a quality of service other than 0. The second result is the number written back.\<close>

definition ez_ota_send_msg_to_platform :: "byte list \<Rightarrow> string option \<Rightarrow> string \<Rightarrow> string \<Rightarrow> uint8 \<Rightarrow> uint32 \<Rightarrow> world
    \<Rightarrow> (ez_err \<times> uint32) \<times> world" where
  "ez_ota_send_msg_to_platform msg pres msg_type method response msg_seq w =
     (if msg = [] then ((EZ_OTA_ERR_PARAM_INVALID, msg_seq), w)
      else (case kernel_send3 (ota_pubmsg pres msg_type method response (if response = EZ_OTA_RSP then msg_seq else 0) msg) w of
        ((e, seq), w1) \<Rightarrow>
          if e \<noteq> EZ_CORE_ERR_SUCC then ((EZ_OTA_ERR_SEND_MSG_ERR, msg_seq), w1)
          else ((EZ_OTA_ERR_SUCC, if response = EZ_OTA_REQ then seq else msg_seq), w1)))"

text \<open>The document is printed, sent and freed.\<close>

definition ota_print_send :: "libs \<Rightarrow> cJSON option \<Rightarrow> string option \<Rightarrow> string \<Rightarrow> string \<Rightarrow> uint8 \<Rightarrow> uint32 \<Rightarrow> world \<Rightarrow> ez_err \<times> world" where
  "ota_print_send L doc pres msg_type method response seq w =
     (case cJSON_PrintUnformatted L doc w of
        (None, w1) \<Rightarrow> (EZ_OTA_ERR_JSON_FORAMT_ERR, w_json_delete doc w1)
      | (Some text, w1) \<Rightarrow>
          (case ez_ota_send_msg_to_platform text pres msg_type method response seq w1 of
            ((e, _), w2) \<Rightarrow> (e, w_json_delete doc (w_free w2))))"

definition progress_body :: "string option \<Rightarrow> string option \<Rightarrow> int \<Rightarrow> int \<Rightarrow> int \<Rightarrow> cJSON option \<Rightarrow> mem \<Rightarrow> cJSON option \<times> mem" where
  "progress_body pmodule perr_msg errcode status progress root m =
     (case cJSON_AddNumberToObject root ''status'' status m of (r1, m1) \<Rightarrow>
      case cJSON_AddNumberToObject r1 ''process'' progress m1 of (r2, m2) \<Rightarrow>
      case cJSON_AddStringToObject r2 ''code'' (hex08 errcode) m2 of (r3, m3) \<Rightarrow>
      case cJSON_AddStringToObject r3 ''errorMsg'' (case perr_msg of None \<Rightarrow> ''success'' | Some t \<Rightarrow> t) m3 of (r4, m4) \<Rightarrow>
      cJSON_AddStringToObject r4 ''module'' (case pmodule of None \<Rightarrow> '''' | Some t \<Rightarrow> t) m4)"

definition ez_progress_report :: "libs \<Rightarrow> string option \<Rightarrow> string option \<Rightarrow> string option \<Rightarrow> int \<Rightarrow> int \<Rightarrow> int \<Rightarrow> world
    \<Rightarrow> ez_err \<times> world" where
  "ez_progress_report L pres pmodule perr_msg errcode status progress w =
     (case w_json cJSON_CreateObject w of
        (None, w1) \<Rightarrow> (EZ_OTA_ERR_JSON_CREATE_ERR, w1)
      | (Some root, w1) \<Rightarrow>
          (case w_json (progress_body pmodule perr_msg errcode (sint (of_int status :: 8 word)) progress (Some root)) w1 of (doc, w2) \<Rightarrow>
            ota_print_send L doc pres ''report'' ''progress'' EZ_OTA_REQ 0 w2))"

section \<open>The request for an upgrade\<close>

text \<open>
  A text member printed into a field of \<^verbatim>\<open>n\<close> bytes. A member that is no text is printed through NULL, which is undefined and recorded as
  a fault; the field then holds what glibc writes.
\<close>

definition text_member :: "cJSON \<Rightarrow> string \<Rightarrow> nat \<Rightarrow> world \<Rightarrow> string \<times> world" where
  "text_member j name n w =
     (case cJSON_GetObjectItem (Some j) name of
        None \<Rightarrow> ('''', w)
      | Some item \<Rightarrow> (case js_valuestring item of None \<Rightarrow> (strncpy ''(null)'' (n - 1), faulty True w) | Some t \<Rightarrow> (strncpy t (n - 1), w)))"

definition number_member :: "cJSON \<Rightarrow> string \<Rightarrow> int" where
  "number_member j name = (case cJSON_GetObjectItem (Some j) name of None \<Rightarrow> 0 | Some item \<Rightarrow> js_valueint item)"

definition typed_number :: "cJSON \<Rightarrow> string \<Rightarrow> int" where
  "typed_number j name = (case cJSON_GetObjectItem (Some j) name of
     None \<Rightarrow> 0 | Some item \<Rightarrow> if js_type item = cJSON_Number then js_valueint item else 0)"

definition diff_of :: "cJSON \<Rightarrow> world \<Rightarrow> ez_ota_file_diff \<times> world" where
  "diff_of j w =
     (case text_member j ''url'' 270 w of (url, w1) \<Rightarrow>
      case text_member j ''degist'' 33 w1 of (degist, w2) \<Rightarrow>
      case text_member j ''fw_ver_dst'' 64 w2 of (ver, w3) \<Rightarrow>
        (\<lparr>df_url = url, df_fw_ver_dst = ver, df_degist = degist, df_size = number_member j ''size''\<rparr>, w3))"

definition zero_file :: ez_ota_file_info where
  "zero_file = \<lparr>fi_mod_name = '''', fi_url = '''', fi_fw_ver = '''', fi_degist = '''', fi_size = 0, fi_pdiffs = None\<rparr>"

text \<open>One entry of the request; the result says whether the loop goes on.\<close>

definition file_of :: "cJSON \<Rightarrow> world \<Rightarrow> (bool \<times> ez_ota_file_info) \<times> world" where
  "file_of j w =
     (case text_member j ''module'' 56 w of (md, w1) \<Rightarrow>
      case text_member j ''url'' 270 w1 of (url, w2) \<Rightarrow>
      case text_member j ''degist'' 33 w2 of (degist, w3) \<Rightarrow>
      case text_member j ''fw_ver'' 32 w3 of (ver, w4) \<Rightarrow>
        let f = \<lparr>fi_mod_name = md, fi_url = url, fi_fw_ver = ver, fi_degist = degist, fi_size = number_member j ''size'', fi_pdiffs = None\<rparr> in
        (case cJSON_GetObjectItem (Some j) ''diffs'' of
           None \<Rightarrow> ((True, f), w4)
         | Some d \<Rightarrow>
             if js_type d \<noteq> cJSON_Object then ((True, f), w4)
             else (case w_malloc w4 of (ok, w5) \<Rightarrow>
               if \<not> ok then ((False, f), w5)
               else (case diff_of d w5 of (df, w6) \<Rightarrow> ((True, f\<lparr>fi_pdiffs := Some df\<rparr>), w6)))))"

fun fill_files :: "cJSON list \<Rightarrow> world \<Rightarrow> ez_ota_file_info list \<times> world" where
  "fill_files [] w = ([], w)"
| "fill_files (c # cs) w =
     (case file_of c w of ((go, f), w1) \<Rightarrow>
       if go then (case fill_files cs w1 of (fs, w2) \<Rightarrow> (f # fs, w2)) else (f # replicate (length cs) zero_file, w1))"

definition call_recv :: "string \<Rightarrow> ez_ota_upgrade_info \<Rightarrow> ota \<Rightarrow> int \<times> ota" where
  "call_recv serial info s =
     (let s1 = s\<lparr>ota_calls := ota_calls s @ [case g_ota_cb s of None \<Rightarrow> Ota_null | Some f \<Rightarrow> Ota_recv f serial info]\<rparr> in
      case ota_recv_codes s of [] \<Rightarrow> (0, s1) | c # cs \<Rightarrow> (c, s1\<lparr>ota_recv_codes := cs\<rparr>))"

definition files_blocks :: "ez_ota_file_info list option \<Rightarrow> nat" where
  "files_blocks fs = (case fs of None \<Rightarrow> 0 | Some xs \<Rightarrow> 1 + length (filter (\<lambda>f. fi_pdiffs f \<noteq> None) xs))"

text \<open>Up to the call of the application: the result, the array of files and the document.\<close>

definition upgrade_request :: "libs \<Rightarrow> string \<Rightarrow> byte list option \<Rightarrow> ota
    \<Rightarrow> (int \<times> ez_ota_file_info list option \<times> cJSON option) \<times> ota" where
  "upgrade_request L serial buf s =
     (case buf of
        None \<Rightarrow> ((- 1, None, None), s)
      | Some text \<Rightarrow>
          (case on_ow (hub_parse L text) s of
             (None, s1) \<Rightarrow> ((- 1, None, None), s1)
           | (Some root, s1) \<Rightarrow>
               (case cJSON_GetObjectItem (Some root) ''file_info'' of
                  None \<Rightarrow> ((- 1, None, Some root), s1)
                | Some file_info \<Rightarrow>
                    if js_type file_info \<noteq> cJSON_Array then ((- 1, None, Some root), s1)
                    else (case on_ow w_malloc s1 of (ok, s2) \<Rightarrow>
                      if \<not> ok then ((- 1, None, Some root), s2)
                      else (case on_ow (fill_files (js_child file_info)) s2 of (fs, s3) \<Rightarrow>
                        case call_recv serial \<lparr>ui_retry_max = typed_number root ''maxtry'', ui_interval = typed_number root ''interval'',
                            ui_pota_files = fs\<rparr> s3 of (ret, s4) \<Rightarrow> ((ret, Some fs, Some root), s4))))))"

definition upgrade_reply :: "int \<Rightarrow> cJSON option \<Rightarrow> mem \<Rightarrow> cJSON option \<times> mem" where
  "upgrade_reply ret rsp m =
     (if ret = 0 \<and> rsp = None then (rsp, m)
      else (case cJSON_AddStringToObject rsp ''code'' (hex08_alt ret) m of (r1, m1) \<Rightarrow>
        cJSON_AddStringToObject r1 ''errorMsg'' (if ret = 0 then ''Succeeded'' else ''device receive failed!'') m1))"

definition ez_ota_upgrade_to_device :: "libs \<Rightarrow> string \<Rightarrow> uint32 \<Rightarrow> byte list option \<Rightarrow> ota \<Rightarrow> int \<times> ota" where
  "ez_ota_upgrade_to_device L serial seq buf s =
     (case upgrade_request L serial buf s of ((ret, files, root), s1) \<Rightarrow>
      case on_ow (w_json cJSON_CreateObject) s1 of (rsp, s2) \<Rightarrow>
      case on_ow (w_json (upgrade_reply ret rsp)) s2 of (doc, s3) \<Rightarrow>
        (ret, upd_ow (\<lambda>w. w_json_delete root (w_frees (files_blocks files)
           (if doc = None then w else snd (ota_print_send L doc (Some serial) ''operate_reply'' ''upgrade'' EZ_OTA_RSP seq w)))) s3))"

definition ez_ota_data_route_cb :: "libs \<Rightarrow> ez_kernel_submsg_v3 option \<Rightarrow> ota \<Rightarrow> ota" where
  "ez_ota_data_route_cb L ptr_submsg s =
     (case ptr_submsg of
        None \<Rightarrow> s
      | Some m \<Rightarrow>
          if sub3_buf m = None then s
          else if sub3_method m = ''inform'' then s
          else if sub3_method m = ''upgrade''
          then snd (ez_ota_upgrade_to_device L (strncpy (sub3_sub_serial m) (ezdev_sdk_max_serial_len - 1)) (sub3_msg_seq m) (sub3_buf m) s)
          else s)"

definition ez_ota_event_route_cb :: "ez_kernel_event option \<Rightarrow> ota \<Rightarrow> ota" where
  "ez_ota_event_route_cb ptr_event s = s"

section \<open>The report of the modules\<close>

definition cJSON_AddArrayToObject :: "cJSON \<Rightarrow> string \<Rightarrow> mem \<Rightarrow> (bool \<times> cJSON option) \<times> mem" where
  "cJSON_AddArrayToObject object name m =
     (case cJSON_CreateArray m of (array, m1) \<Rightarrow>
      case add_item_to_object (Some object) name array m1 of ((ok, ob), m2) \<Rightarrow>
        if ok then ((True, ob), m2) else ((False, ob), cJSON_Delete array m2))"

text \<open>\<^verbatim>\<open>cJSON_AddStringToObject\<close> with a text that may be NULL.\<close>

definition add_text :: "cJSON option \<Rightarrow> string \<Rightarrow> string option \<Rightarrow> mem \<Rightarrow> cJSON option \<times> mem" where
  "add_text object name t m =
     (case t of Some s \<Rightarrow> cJSON_AddStringToObject object name s m | None \<Rightarrow> (object, snd (create_string None m)))"

definition module_item :: "ez_ota_module \<Rightarrow> mem \<Rightarrow> cJSON option \<times> mem" where
  "module_item x m =
     (case cJSON_CreateObject m of
        (None, m1) \<Rightarrow> (None, m1)
      | (Some item, m1) \<Rightarrow>
          (case cJSON_AddNumberToObject (Some item) ''index'' 0 m1 of (i1, m2) \<Rightarrow>
           case add_text i1 ''module'' (om_mod_name x) m2 of (i2, m3) \<Rightarrow>
           add_text i2 ''fw_ver'' (om_fw_ver x) m3))"

text \<open>The loop over the modules, which adds to the array; an item that cannot be added is lost.\<close>

fun module_items :: "ez_ota_module list \<Rightarrow> cJSON option \<Rightarrow> mem \<Rightarrow> cJSON option \<times> mem" where
  "module_items [] arr m = (arr, m)"
| "module_items (x # xs) arr m =
     (case module_item x m of
        (None, m1) \<Rightarrow> module_items xs arr m1
      | (Some item, m1) \<Rightarrow> (case cJSON_AddItemToObject arr '''' (Some item) m1 of (arr1, m2) \<Rightarrow> module_items xs arr1 m2))"

text \<open>The array is the only member of the root while the loop runs.\<close>

definition modules_body :: "ez_ota_modules \<Rightarrow> cJSON \<Rightarrow> mem \<Rightarrow> (bool \<times> cJSON option) \<times> mem" where
  "modules_body pmodules root m =
     (case cJSON_AddArrayToObject root ''modules'' m of
        ((False, r), m1) \<Rightarrow> ((False, r), m1)
      | ((True, r), m1) \<Rightarrow>
          (case module_items (take (nat (oms_num pmodules)) (oms_plist pmodules)) (map_option (\<lambda>j. last (js_child j)) r) m1 of (arr, m2) \<Rightarrow>
           case cJSON_AddStringToObject (case (r, arr) of (Some j, Some a) \<Rightarrow> Some (with_child (butlast (js_child j) @ [a]) j) | _ \<Rightarrow> r)
                  ''ver'' ota_version m2 of (doc, m3) \<Rightarrow> ((True, doc), m3)))"

definition ezdev_ota_module_info_report :: "libs \<Rightarrow> string option \<Rightarrow> ez_ota_modules \<Rightarrow> world \<Rightarrow> ez_err \<times> world" where
  "ezdev_ota_module_info_report L pres pmodules w =
     (case w_json cJSON_CreateObject w of
        (None, w1) \<Rightarrow> (EZ_OTA_ERR_JSON_CREATE_ERR, w1)
      | (Some root, w1) \<Rightarrow>
          (case w_json (modules_body pmodules root) w1 of
             ((False, doc), w2) \<Rightarrow> (EZ_OTA_ERR_JSON_CREATE_ERR, w_json_delete doc w2)
           | ((True, doc), w2) \<Rightarrow>
               (case ota_print_send L doc pres ''report'' ''inform'' EZ_OTA_REQ 0 (faulty (int (length (oms_plist pmodules)) < oms_num pmodules) w2) of
                 (e, w3) \<Rightarrow> (if e \<noteq> EZ_OTA_ERR_SUCC \<and> e \<noteq> EZ_OTA_ERR_JSON_FORAMT_ERR then EZ_OTA_ERR_SEND_MSG_ERR else e, w3))))"

section \<open>The download\<close>

definition call_file :: "nat \<Rightarrow> uint32 \<Rightarrow> uint32 \<Rightarrow> byte list \<Rightarrow> ota \<Rightarrow> int \<times> ota" where
  "call_file f total_len offset block s =
     (let s1 = s\<lparr>ota_calls := ota_calls s @ [Ota_file f total_len offset block]\<rparr> in
      case ota_file_codes s of [] \<Rightarrow> (0, s1) | c # cs \<Rightarrow> (c, s1\<lparr>ota_file_codes := cs\<rparr>))"

text \<open>
  The loop over the reads of an attempt; a read that is not answered fails. A callback that does not return 0 ends the
  attempt with success, and so does the end of the module. The second result is the new offset.
\<close>

fun read_loop :: "nat \<Rightarrow> uint32 \<Rightarrow> uint32 \<Rightarrow> uint32 \<Rightarrow> http_read list \<Rightarrow> ota \<Rightarrow> (int \<times> uint32) \<times> ota" where
  "read_loop f total_len readlen offset [] s = ((- 1, offset), s)"
| "read_loop f total_len readlen offset (r # rs) s =
     (let need = total_len - offset; len = (if need \<le> readlen then need else readlen) in
      if rd_len r \<noteq> sint len then ((- 1, offset), s)
      else if g_quit s \<or> rd_quit r then ((0, offset), s\<lparr>g_quit := True\<rparr>)
      else (case call_file f total_len offset (take (unat len) (rd_data r)) s of (code, s1) \<Rightarrow>
        if code \<noteq> 0 then ((0, offset), s1)
        else if need - len > 0 then read_loop f total_len len (offset + len) rs s1
        else ((0, offset + len), s1)))"

text \<open>One attempt: the first one asks for the whole file, the others from the offset on.\<close>

definition file_download :: "nat \<Rightarrow> uint32 \<Rightarrow> uint32 \<Rightarrow> uint32 \<Rightarrow> bool \<Rightarrow> (uint32 \<Rightarrow> http_try) option \<Rightarrow> ota \<Rightarrow> (int \<times> uint32) \<times> ota" where
  "file_download f total_len readlen offset retry_flg answer s =
     (case on_ow w_malloc s of (ok, s1) \<Rightarrow>
       if \<not> ok then ((- 1, offset), s1)
       else
         (case (case answer of
              None \<Rightarrow> ((- 1, offset), s1)
            | Some a \<Rightarrow>
                let t = a (if retry_flg then offset else 0) in
                if \<not> ht_session t then ((- 1, offset), s1)
                else if ht_status t \<noteq> 200 \<and> (\<not> retry_flg \<or> ht_status t \<noteq> 206) then ((- 1, offset), s1)
                else if ht_length t \<noteq> total_len - offset then ((- 1, offset), s1)
                else read_loop f total_len readlen offset (ht_reads t) s1) of
          (r, s2) \<Rightarrow> (r, upd_ow w_free s2)))"

definition next_try :: "ota \<Rightarrow> (uint32 \<Rightarrow> http_try) option \<times> ota" where
  "next_try s = (case ota_tries s of [] \<Rightarrow> (None, s) | a # as \<Rightarrow> (Some a, s\<lparr>ota_tries := as\<rparr>))"

text \<open>The loop of the thread; \<^verbatim>\<open>n\<close> is the number of further attempts it may make.\<close>

fun download_loop :: "ez_ota_info \<Rightarrow> nat \<Rightarrow> bool \<Rightarrow> uint32 \<Rightarrow> ota \<Rightarrow> int \<times> ota" where
  "download_loop info n retry_flag offset s =
     (case next_try s of (answer, s0) \<Rightarrow>
      case file_download (oi_file_cb info) (oi_total_size info) (oi_recv_size info) offset retry_flag answer s0 of ((ret, offset'), s1) \<Rightarrow>
        if ret = 0 then (ret, s1)
        else (case n of
           0 \<Rightarrow> (ret, s1)
         | Suc m \<Rightarrow>
             if g_quit s1 \<or> (case answer of None \<Rightarrow> False | Some a \<Rightarrow> ht_quit (a (if retry_flag then offset else 0))) then (ret, s1\<lparr>g_quit := True\<rparr>)
             else download_loop info m True offset' s1))"

declare download_loop.simps [simp del]

definition ota_file_download_thread :: "ez_ota_info \<Rightarrow> ota \<Rightarrow> ota" where
  "ota_file_download_thread info s =
     (case download_loop info (nat (oi_retry_max info)) False 0 s of (ret, s1) \<Rightarrow>
       upd_ow w_free (s1\<lparr>ota_calls := ota_calls s1 @ [Ota_notify (oi_notify info) (if ret \<noteq> 0 then RESULT_FAILED else RESULT_SUC)],
         ota_task := None, g_download_status := False\<rparr>))"

definition next_thread :: "ota \<Rightarrow> thread_start" where
  "next_thread s = (case ota_threads s of [] \<Rightarrow> Thread_runs | a # as \<Rightarrow> a)"

definition ez_ota_file_download :: "ez_ota_download_info \<Rightarrow> nat \<Rightarrow> nat \<Rightarrow> ota \<Rightarrow> ez_err \<times> ota" where
  "ez_ota_file_download input_info file_cb notify s =
     (if g_download_status s then (EZ_OTA_ERR_DOWNLOAD_ALREADY, s)
      else (case on_ow w_malloc s of (ok, s1) \<Rightarrow>
        if \<not> ok then (EZ_OTA_ERR_MEM_ERROR, s1)
        else
          let info = \<lparr>oi_url = strncpy (dl_url input_info) 269, oi_check_sum = strncpy (dl_degist input_info) 32,
                oi_total_size = of_int (dl_total_size input_info), oi_recv_size = of_int (dl_block_size input_info),
                oi_timeout_s = dl_timeout_s input_info, oi_retry_max = dl_retry_max input_info,
                oi_file_cb = file_cb, oi_notify = notify\<rparr>;
              s2 = s1\<lparr>ota_threads := tl (ota_threads s1)\<rparr>
          in (case next_thread s1 of
            Thread_refused \<Rightarrow> (EZ_OTA_ERR_MEM_ERROR, upd_ow w_free s2)
          | Thread_runs \<Rightarrow> (EZ_OTA_ERR_SUCC, s2\<lparr>ota_task := Some info, g_download_status := True\<rparr>)
          | Thread_ends_first \<Rightarrow>
              (EZ_OTA_ERR_SUCC, (ota_file_download_thread info (s2\<lparr>ota_task := Some info\<rparr>))\<lparr>g_download_status := True\<rparr>))))"

text \<open>The end of the thread that is still running, if there is one.\<close>

definition download_end :: "ota \<Rightarrow> ota" where
  "download_end s = (case ota_task s of None \<Rightarrow> s | Some info \<Rightarrow> ota_file_download_thread info s)"

section \<open>Interface\<close>

definition ota_extension :: ez_kernel_extend_v3 where
  "ota_extension = \<lparr>ext3_module = strncpy ota_module_name (ezdev_sdk_module_name_len - 1), ext3_data_route = Some 60041,
     ext3_event_route = Some 60042\<rparr>"

definition ez_ota_extern_init :: "ota \<Rightarrow> ez_err \<times> ota" where
  "ez_ota_extern_init s =
     (case on_ow (ez_kernel_extend_load_v3 (Some ota_extension)) (s\<lparr>g_quit := False\<rparr>) of (e, s1) \<Rightarrow>
       (if e \<noteq> EZ_CORE_ERR_SUCC then EZ_OTA_ERR_REGISTER_ERR else EZ_OTA_ERR_SUCC, s1))"

definition ez_ota_extern_fini :: "ota \<Rightarrow> ota" where
  "ez_ota_extern_fini s = s\<lparr>g_quit := True\<rparr>"

text \<open>The argument is the callback of the initialisation structure, None for a missing structure.\<close>

definition ez_iot_ota_init :: "func_ptr option \<Rightarrow> ota \<Rightarrow> ez_err \<times> ota" where
  "ez_iot_ota_init pota_init s =
     (case pota_init of
        None \<Rightarrow> (EZ_OTA_ERR_PARAM_INVALID, s)
      | Some None \<Rightarrow> (EZ_OTA_ERR_PARAM_INVALID, s)
      | Some cb \<Rightarrow>
          (case ez_ota_extern_init (s\<lparr>g_ota_cb := cb\<rparr>) of (e, s1) \<Rightarrow>
            if e \<noteq> EZ_OTA_ERR_SUCC then (e, s1) else (e, s1\<lparr>g_ota_inited := True\<rparr>)))"

definition ez_iot_ota_modules_report :: "libs \<Rightarrow> string option \<Rightarrow> ez_ota_modules option \<Rightarrow> ota \<Rightarrow> ez_err \<times> ota" where
  "ez_iot_ota_modules_report L pres pmodules s =
     (if \<not> g_ota_inited s then (EZ_OTA_ERR_NOT_INIT, s)
      else case pmodules of
        None \<Rightarrow> (EZ_OTA_ERR_PARAM_INVALID, s)
      | Some ms \<Rightarrow> on_ow (ezdev_ota_module_info_report L pres ms) s)"

definition ez_iot_ota_status_ready :: "libs \<Rightarrow> string option \<Rightarrow> string option \<Rightarrow> ota \<Rightarrow> ez_err \<times> ota" where
  "ez_iot_ota_status_ready L pres pmodule s =
     (if \<not> g_ota_inited s then (EZ_OTA_ERR_NOT_INIT, s) else on_ow (ez_progress_report L pres pmodule None 0 ota_state_ready 0) s)"

definition ez_iot_ota_status_succ :: "libs \<Rightarrow> string option \<Rightarrow> string option \<Rightarrow> ota \<Rightarrow> ez_err \<times> ota" where
  "ez_iot_ota_status_succ L pres pmodule s =
     (if \<not> g_ota_inited s then (EZ_OTA_ERR_NOT_INIT, s) else on_ow (ez_progress_report L pres pmodule None 0 ota_state_succ 0) s)"

definition ez_iot_ota_status_fail :: "libs \<Rightarrow> string option \<Rightarrow> string option \<Rightarrow> string option \<Rightarrow> int \<Rightarrow> ota \<Rightarrow> ez_err \<times> ota" where
  "ez_iot_ota_status_fail L pres pmodule perr_msg code s =
     (if \<not> g_ota_inited s then (EZ_OTA_ERR_NOT_INIT, s)
      else on_ow (ez_progress_report L pres pmodule perr_msg code ota_state_failed 0) s)"

definition ez_iot_ota_progress_report :: "libs \<Rightarrow> string option \<Rightarrow> string option \<Rightarrow> int \<Rightarrow> int \<Rightarrow> ota \<Rightarrow> ez_err \<times> ota" where
  "ez_iot_ota_progress_report L pres pmodule status progress s =
     (if \<not> g_ota_inited s then (EZ_OTA_ERR_NOT_INIT, s)
      else if progress < 0 \<or> progress > 100 then (EZ_OTA_ERR_PARAM_INVALID, s)
      else on_ow (ez_progress_report L pres pmodule None 0 status progress) s)"

definition ez_iot_ota_download :: "ez_ota_download_info option \<Rightarrow> func_ptr \<Rightarrow> func_ptr \<Rightarrow> ota \<Rightarrow> ez_err \<times> ota" where
  "ez_iot_ota_download input_info file_cb notify s =
     (if \<not> g_ota_inited s then (EZ_OTA_ERR_NOT_INIT, s)
      else case (input_info, file_cb, notify) of
        (Some d, Some f, Some n) \<Rightarrow>
          if dl_url d = '''' \<or> dl_block_size d \<le> 0 \<or> dl_total_size d \<le> 0 then (EZ_OTA_ERR_PARAM_INVALID, s)
          else ez_ota_file_download d f n s
      | _ \<Rightarrow> (EZ_OTA_ERR_PARAM_INVALID, s))"

definition ez_iot_ota_deinit :: "ota \<Rightarrow> ez_err \<times> ota" where
  "ez_iot_ota_deinit s =
     (if \<not> g_ota_inited s then (EZ_OTA_ERR_NOT_INIT, s) else (EZ_OTA_ERR_SUCC, ez_ota_extern_fini (s\<lparr>g_ota_inited := False\<rparr>)))"

end
