(* ===== verification/Ota_Download.thy ===== *)
theory Ota_Download
  imports Ota_Core
begin

text \<open>
  The download of an upgrade file: whatever the network does, the blocks handed to the application follow each other without gap or
  overlap from the start of the file, also across retries, and the result is success exactly when the whole file was handed
  over, as long as the application accepts every block and the module is not stopped. An attempt the server answers completely
  finishes the download. The blocks of memory are returned.
\<close>

section \<open>What the server sends and what the application gets\<close>

text \<open>The reads of an attempt that starts at position \<^verbatim>\<open>p\<close> return the bytes of the file there.\<close>

fun served :: "byte list \<Rightarrow> nat \<Rightarrow> http_read list \<Rightarrow> bool" where
  "served F p [] = True"
| "served F p (r # rs) = ((0 \<le> rd_len r \<longrightarrow> rd_data r = take (nat (rd_len r)) (drop p F)) \<and> served F (p + nat (rd_len r)) rs)"

text \<open>The calls hand over the bytes of the file from \<^verbatim>\<open>p\<close> to \<^verbatim>\<open>q\<close>, block after block.\<close>

fun tiles :: "byte list \<Rightarrow> nat \<Rightarrow> nat \<Rightarrow> ota_call list \<Rightarrow> nat \<Rightarrow> bool" where
  "tiles F f p [] q \<longleftrightarrow> p = q"
| "tiles F f p (c # cs) q \<longleftrightarrow> (case c of
     Ota_file g tot pos b \<Rightarrow> g = f \<and> unat tot = length F \<and> unat pos = p \<and> b \<noteq> [] \<and> b = take (length b) (drop p F) \<and>
       tiles F f (p + length b) cs q
   | _ \<Rightarrow> False)"

definition block_of :: "ota_call \<Rightarrow> byte list" where
  "block_of c = (case c of Ota_file _ _ _ b \<Rightarrow> b | _ \<Rightarrow> [])"

lemma tiles_append: "tiles F f p cs q \<Longrightarrow> tiles F f q ds r \<Longrightarrow> tiles F f p (cs @ ds) r"
  by (induction cs arbitrary: p) (auto split: ota_call.splits)

lemma tiles_le: "tiles F f p cs q \<Longrightarrow> p \<le> q"
  by (induction cs arbitrary: p) (fastforce split: ota_call.splits)+

lemma tiles_bytes: "tiles F f p cs q \<Longrightarrow> concat (map block_of cs) = take (q - p) (drop p F)"
proof (induction cs arbitrary: p)
  case (Cons c cs)
  then obtain tot pos b where c: "c = Ota_file f tot pos b" "b = take (length b) (drop p F)" and t: "tiles F f (p + length b) cs q"
    by (auto split: ota_call.splits)
  obtain k where k: "q = p + length b + k" using tiles_le [OF t] le_Suc_ex by blast
  have "take (q - p) (drop p F) = take (length b) (drop p F) @ take k (drop (p + length b) F)"
    using take_add [of "length b" k "drop p F"] k by (simp add: add.commute [of p])
  then show ?case using Cons.IH [OF t] c k by (simp add: block_of_def)
qed simp

section \<open>One attempt\<close>

definition accepting :: "ota \<Rightarrow> bool" where
  "accepting s \<longleftrightarrow> list_all (\<lambda>c. c = 0) (ota_file_codes s) \<and> \<not> g_quit s"

definition small :: "uint32 \<Rightarrow> bool" where
  "small x \<longleftrightarrow> 0 < unat x \<and> unat x < 2 ^ 31"

lemma call_file_accepts:
  assumes "accepting s" and "call_file f t p b s = (code, s1)"
  shows "code = 0" "accepting s1" "ota_calls s1 = ota_calls s @ [Ota_file f t p b]" "ota_world s1 = ota_world s" "ota_tries s1 = ota_tries s"
  using assms by (auto simp: call_file_def accepting_def Let_def split: list.splits)

definition step_len :: "uint32 \<Rightarrow> uint32 \<Rightarrow> uint32 \<Rightarrow> uint32" where
  "step_len t l p = (if t - p \<le> l then t - p else l)"

lemma step_len_bounds:
  assumes "small t" and "small l" and "unat p < unat t"
  shows "0 < unat (step_len t l p)" "unat (step_len t l p) \<le> unat t - unat p" "unat (p + step_len t l p) = unat p + unat (step_len t l p)"
    "small (step_len t l p)" "t - p - step_len t l p = t - (p + step_len t l p)"
    "t - p - step_len t l p > 0 \<longleftrightarrow> unat (p + step_len t l p) < unat t"
proof -
  have d: "unat (t - p) = unat t - unat p" using assms(3) by (simp add: unat_sub word_le_nat_alt)
  have n: "unat (step_len t l p) = min (unat t - unat p) (unat l)"
    using d by (auto simp: step_len_def word_le_nat_alt)
  show 1: "0 < unat (step_len t l p)" and 2: "unat (step_len t l p) \<le> unat t - unat p" using assms n by (simp_all add: small_def)
  show "small (step_len t l p)" using assms 1 n by (simp add: small_def)
  have "unat p + unat (step_len t l p) < 2 ^ 32" using 2 assms(1,3) by (simp add: small_def)
  then show 3: "unat (p + step_len t l p) = unat p + unat (step_len t l p)" by (simp add: unat_word_ariths)
  show 5: "t - p - step_len t l p = t - (p + step_len t l p)" by simp
  have "unat (t - (p + step_len t l p)) = unat t - unat (p + step_len t l p)" using 2 3 assms(3) by (simp add: unat_sub word_le_nat_alt)
  then show "t - p - step_len t l p > 0 \<longleftrightarrow> unat (p + step_len t l p) < unat t" unfolding 5 word_less_nat_alt by simp
qed

lemma read_loop_tiles:
  assumes "accepting s" and "list_all (\<lambda>r. \<not> rd_quit r) rs" and "served F (unat p) rs" and "small t" and "small l" and "unat p < unat t"
    and "length F = unat t" and "read_loop f t l p rs s = ((ret, q), s1)"
  shows "accepting s1 \<and> ota_world s1 = ota_world s \<and> ota_tries s1 = ota_tries s \<and> unat p \<le> unat q \<and> unat q \<le> unat t \<and>
    (ret = 0 \<longleftrightarrow> q = t) \<and> (\<exists>cs. ota_calls s1 = ota_calls s @ cs \<and> tiles F f (unat p) cs (unat q))"
  using assms
proof (induction f t l p rs s arbitrary: ret q s1 rule: read_loop.induct)
  case (1 f t l p s)
  then show ?case by (auto intro!: exI [of _ "[]"])
next
  case (2 f t l p r rs s)
  let ?n = "step_len t l p"
  note b = step_len_bounds [OF 2(5-7)]
  show ?case
  proof (cases "rd_len r = sint ?n")
    case False
    then have "ret = - 1" "q = p" "s1 = s" using 2(9) by (simp_all add: Let_def step_len_def)
    then show ?thesis using 2(2,7) by (auto intro!: exI [of _ "[]"])
  next
    case True
    have len: "rd_len r = int (unat ?n)" using True b(4) sint_small [of ?n] by (simp add: small_def)
    obtain code s2 where c: "call_file f t p (take (unat ?n) (rd_data r)) s = (code, s2)" by fastforce
    note a = call_file_accepts [OF 2(2) c]
    have d: "rd_data r = take (unat ?n) (drop (unat p) F)" and sv: "served F (unat p + unat ?n) rs" using 2(4) len by simp_all
    have lb: "length (take (unat ?n) (rd_data r)) = unat ?n" using b(2) 2(8) by (simp add: d)
    have tl: "tiles F f (unat p) [Ota_file f t p (take (unat ?n) (rd_data r))] (unat p + unat ?n)"
      using lb b(1) 2(8) by (auto simp: d)
    have r: "read_loop f t l p (r # rs) s = (if t - p - ?n > 0 then read_loop f t ?n (p + ?n) rs s2 else ((0, p + ?n), s2))"
      using True c a(1) 2(2,3) by (simp add: Let_def accepting_def flip: step_len_def)
    show ?thesis
    proof (cases "t - p - ?n > 0")
      case False
      then have "ret = 0" "q = p + ?n" "s1 = s2" using 2(9) r by simp_all
      moreover have "p + ?n = t" using False b(2,3,6) 2(7) by (simp add: word_unat_eq_iff)
      ultimately show ?thesis using a tl b(3) by (auto intro!: exI [of _ "[Ota_file f t p (take (unat ?n) (rd_data r))]"])
    next
      case go: True
      have lt: "unat p + unat ?n < unat t" using go unfolding b(6) b(3) .
      have q: "read_loop f t ?n (p + ?n) rs s2 = ((ret, q), s1)" using 2(9) r go by simp
      have ih: "accepting s1 \<and> ota_world s1 = ota_world s2 \<and> ota_tries s1 = ota_tries s2 \<and> unat (p + ?n) \<le> unat q \<and> unat q \<le> unat t \<and>
          (ret = 0 \<longleftrightarrow> q = t) \<and> (\<exists>cs. ota_calls s1 = ota_calls s2 @ cs \<and> tiles F f (unat (p + ?n)) cs (unat q))"
      proof (rule 2(1) [OF refl refl, folded step_len_def])
        show "\<not> rd_len r \<noteq> sint ?n" "\<not> (g_quit s \<or> rd_quit r)" using True 2(2,3) by (simp_all add: accepting_def)
        show "(code, s2) = call_file f t p (take (unat ?n) (rd_data r)) s" using c by simp
        show "t - p - ?n > 0" by (rule go)
        show "read_loop f t ?n (p + ?n) rs s2 = ((ret, q), s1)" by (rule q)
      qed (use a sv lt b(3,4) 2(3,5,8) in simp_all)
      then obtain cs where cs: "ota_calls s1 = ota_calls s2 @ cs" "tiles F f (unat p + unat ?n) cs (unat q)" unfolding b(3) by blast
      have "ota_calls s1 = ota_calls s @ ([Ota_file f t p (take (unat ?n) (rd_data r))] @ cs)" using cs(1) a(3) by simp
      moreover note tiles_append [OF tl cs(2)]
      moreover have "unat p \<le> unat q" using ih b(3) by simp
      ultimately show ?thesis using ih a(4,5) by (metis (no_types))
    qed
  qed
qed

text \<open>
  An honest server sends the bytes from the position asked for, unless it announces another length (a server that does not know
  about ranges answers with the whole file); and the module is not stopped in the meantime.
\<close>

definition honest :: "byte list \<Rightarrow> (uint32 \<Rightarrow> http_try) \<Rightarrow> bool" where
  "honest F a \<longleftrightarrow> (\<forall>p. (ht_length (a p) = of_nat (length F) - p \<longrightarrow> served F (unat p) (ht_reads (a p))) \<and>
     list_all (\<lambda>r. \<not> rd_quit r) (ht_reads (a p)) \<and> \<not> ht_quit (a p))"

definition download_ready :: "byte list \<Rightarrow> ez_ota_info \<Rightarrow> ota \<Rightarrow> bool" where
  "download_ready F info s \<longleftrightarrow> accepting s \<and> small (oi_total_size info) \<and> small (oi_recv_size info) \<and> length F = unat (oi_total_size info) \<and>
     list_all (honest F) (ota_tries s)"

definition same_memory :: "world \<Rightarrow> world \<Rightarrow> bool" where
  "same_memory w w' \<longleftrightarrow> w_live w' = w_live w \<and> (mem_plenty (w_mem w) \<longrightarrow> mem_plenty (w_mem w'))"

lemma same_memory_malloc:
  assumes "w_malloc w = (ok, w1)"
  shows "\<not> ok \<Longrightarrow> same_memory w w1" "ok \<Longrightarrow> same_memory w (w_free w1)" "mem_plenty (w_mem w) \<Longrightarrow> ok"
  using assms w_malloc_live [OF assms]
  by (auto simp: same_memory_def w_malloc_def w_free_def mem_plenty_def ezos_malloc_def ezos_free_def w_live_def split: prod.splits list.splits)

lemma same_memory_trans [trans]: "same_memory u v \<Longrightarrow> same_memory v w \<Longrightarrow> same_memory u w"
  by (simp add: same_memory_def)

lemma file_download_tiles:
  assumes "accepting s" and "honest F a" and "small t" and "small l" and "unat p < unat t" and "length F = unat t" and "rt \<or> p = 0"
    and "file_download f t l p rt (Some a) s = ((ret, q), s1)"
  shows "accepting s1 \<and> same_memory (ota_world s) (ota_world s1) \<and>
     ota_tries s1 = ota_tries s \<and> unat p \<le> unat q \<and> unat q \<le> unat t \<and>
    (ret = 0 \<longleftrightarrow> q = t) \<and> (\<exists>cs. ota_calls s1 = ota_calls s @ cs \<and> tiles F f (unat p) cs (unat q))"
proof -
  obtain ok w1 where m: "w_malloc (ota_world s) = (ok, w1)" by fastforce
  let ?s = "s\<lparr>ota_world := w1\<rparr>" and ?t = "a (if rt then p else 0)"
  have pos: "(if rt then p else 0) = p" using assms(7) by auto
  have acc: "accepting ?s" using assms(1) by (simp add: accepting_def)
  note mem = same_memory_malloc [OF m]
  consider (fail) "ret = - 1" "q = p" "s1 = s\<lparr>ota_world := ota_world s1\<rparr>" "same_memory (ota_world s) (ota_world s1)"
    | (reads) s2 where "ok" "read_loop f t l p (ht_reads (a p)) ?s = ((ret, q), s2)" "s1 = upd_ow w_free s2" "ht_length (a p) = t - p"
    using assms(8) mem by (auto simp: file_download_def on_ow_def m pos upd_ow_def Let_def split: if_splits prod.splits)
  then show ?thesis
  proof cases
    case fail
    have "ota_calls s1 = ota_calls s" "ota_tries s1 = ota_tries s" "accepting s1 = accepting s"
      by (subst fail(3), simp add: accepting_def)+
    then show ?thesis using assms(1,5) fail by (auto intro!: exI [of _ "[]"])
  next
    case reads
    have "of_nat (length F) = t" by (simp add: assms(6))
    then have "served F (unat p) (ht_reads (a p))" "list_all (\<lambda>r. \<not> rd_quit r) (ht_reads (a p))" using assms(2) reads(4) by (simp_all add: honest_def)
    from read_loop_tiles [OF acc this(2,1) assms(3-6) reads(2)] show ?thesis
      using mem(2) reads(1,3) by (auto simp: upd_ow_def accepting_def)
  qed
qed

section \<open>The whole download\<close>

lemma no_answer_fails:
  assumes "file_download f t l p rt None s = ((ret, q), s1)"
  shows "ret = - 1" "q = p" "s1 = s\<lparr>ota_world := ota_world s1\<rparr>" "same_memory (ota_world s) (ota_world s1)"
proof -
  obtain ok w1 where m: "w_malloc (ota_world s) = (ok, w1)" by fastforce
  show "ret = - 1" "q = p" "s1 = s\<lparr>ota_world := ota_world s1\<rparr>" "same_memory (ota_world s) (ota_world s1)"
    using assms same_memory_malloc [OF m] by (auto simp: file_download_def on_ow_def m upd_ow_def split: if_splits)
qed

text \<open>The first attempt and the retries keep the same invariant.\<close>

lemma attempt_step:
  assumes "download_ready F info s" and "unat p < length F" and "rt \<or> p = 0" and "next_try s = (answer, s0)"
    and "file_download (oi_file_cb info) (oi_total_size info) (oi_recv_size info) p rt answer s0 = ((ret, q), s1)"
  shows "download_ready F info s1 \<and> same_memory (ota_world s) (ota_world s1) \<and>
     ota_tries s1 = tl (ota_tries s) \<and>
    unat p \<le> unat q \<and> unat q \<le> length F \<and> (ret = 0 \<longleftrightarrow> unat q = length F) \<and>
    (\<exists>cs. ota_calls s1 = ota_calls s @ cs \<and> tiles F (oi_file_cb info) (unat p) cs (unat q)) \<and>
    \<not> (g_quit s1 \<or> (case answer of None \<Rightarrow> False | Some a \<Rightarrow> ht_quit (a (if rt then p else 0))))"
proof (cases "ota_tries s")
  case Nil
  then have n: "answer = None" "s0 = s" using assms(4) by (simp_all add: next_try_def)
  note f = no_answer_fails [OF assms(5) [unfolded n]]
  have "ota_calls s1 = ota_calls s" "ota_tries s1 = ota_tries s" "ota_file_codes s1 = ota_file_codes s" "g_quit s1 = g_quit s"
    by (subst f(3), simp)+
  then show ?thesis using assms(1,2) f(1,2,4) n Nil by (auto simp: download_ready_def accepting_def intro!: exI [of _ "[]"])
next
  case (Cons a as)
  then have n: "answer = Some a" "s0 = s\<lparr>ota_tries := as\<rparr>" using assms(4) by (simp_all add: next_try_def)
  have r: "accepting s0" "honest F a" "small (oi_total_size info)" "small (oi_recv_size info)" "length F = unat (oi_total_size info)"
    "list_all (honest F) as"
    using assms(1) Cons by (simp_all add: download_ready_def accepting_def n)
  have p: "unat p < unat (oi_total_size info)" using assms(2) r(5) by simp
  note f = file_download_tiles [OF r(1,2,3,4) p r(5) assms(3) assms(5) [unfolded n(1)]]
  have "\<not> ht_quit (a (if rt then p else 0))" using r(2) by (simp add: honest_def)
  then show ?thesis using f r Cons by (auto simp: download_ready_def accepting_def n word_unat_eq_iff)
qed

lemma download_loop_tiles:
  assumes "download_ready F info s" and "unat p < length F" and "rt \<or> p = 0" and "download_loop info n rt p s = (ret, s1)"
  shows "(\<exists>cs q. ota_calls s1 = ota_calls s @ cs \<and> tiles F (oi_file_cb info) (unat p) cs q \<and> q \<le> length F \<and> (ret = 0 \<longleftrightarrow> q = length F)) \<and>
    same_memory (ota_world s) (ota_world s1) \<and> length (ota_tries s) \<le> length (ota_tries s1) + n + 1"
  using assms
proof (induction n arbitrary: rt p s)
  case (0 rt p s)
  obtain answer s0 where a: "next_try s = (answer, s0)" by fastforce
  obtain r q s2 where f: "file_download (oi_file_cb info) (oi_total_size info) (oi_recv_size info) p rt answer s0 = ((r, q), s2)"
    by (metis prod.collapse)
  have "ret = r" "s1 = s2" using 0(4) by (auto simp: download_loop.simps [of _ 0] a f split: if_splits)
  then show ?case using attempt_step [OF 0(1-3) a f] by auto
next
  case (Suc n rt p s)
  obtain answer s0 where a: "next_try s = (answer, s0)" by fastforce
  obtain r q s2 where f: "file_download (oi_file_cb info) (oi_total_size info) (oi_recv_size info) p rt answer s0 = ((r, q), s2)"
    by (metis prod.collapse)
  note st = attempt_step [OF Suc(2-4) a f]
  then obtain cs where cs: "ota_calls s2 = ota_calls s @ cs" "tiles F (oi_file_cb info) (unat p) cs (unat q)" by blast
  show ?case
  proof (cases "r = 0")
    case True
    then have "ret = r" "s1 = s2" using Suc(5) by (simp_all add: download_loop.simps [of _ "Suc n"] a f)
    then show ?thesis using st by auto
  next
    case False
    have l: "download_loop info n True q s2 = (ret, s1)"
      using Suc(5) False st by (simp add: download_loop.simps [of _ "Suc n"] a f)
    have "unat q < length F" using st False by linarith
    from Suc.IH [OF _ this _ l] st obtain ds q' where
      "ota_calls s1 = ota_calls s2 @ ds" "tiles F (oi_file_cb info) (unat q) ds q'" "q' \<le> length F" "ret = 0 \<longleftrightarrow> q' = length F"
      "same_memory (ota_world s2) (ota_world s1)" "length (ota_tries s2) \<le> length (ota_tries s1) + n + 1"
      by blast
    then show ?thesis using st cs tiles_append [OF cs(2)] by (auto intro!: exI [of _ "cs @ ds"] exI [of _ q'] intro: same_memory_trans)
  qed
qed

theorem download_thread_tiles:
  assumes "download_ready F info s"
  shows "\<exists>cs q r. ota_calls (ota_file_download_thread info s) = ota_calls s @ cs @ [Ota_notify (oi_notify info) r] \<and>
    tiles F (oi_file_cb info) 0 cs q \<and> (r = RESULT_SUC \<longleftrightarrow> q = length F) \<and>
    w_live (ota_world (ota_file_download_thread info s)) = w_live (ota_world s) - 1 \<and>
    length (ota_tries s) \<le> length (ota_tries (ota_file_download_thread info s)) + nat (oi_retry_max info) + 1"
proof -
  obtain ret s1 where l: "download_loop info (nat (oi_retry_max info)) False 0 s = (ret, s1)" by fastforce
  have "unat (0 :: uint32) < length F" using assms by (simp add: download_ready_def small_def)
  from download_loop_tiles [OF assms this _ l] show ?thesis
    by (force simp: ota_file_download_thread_def l upd_ow_def same_memory_def)
qed

section \<open>A complete answer\<close>

text \<open>The reads give every block the loop asks for.\<close>

fun answers_all :: "nat \<Rightarrow> nat \<Rightarrow> nat \<Rightarrow> http_read list \<Rightarrow> bool" where
  "answers_all t l p [] \<longleftrightarrow> False"
| "answers_all t l p (r # rs) \<longleftrightarrow> rd_len r = int (min (t - p) l) \<and> (t - p \<le> l \<or> answers_all t (min (t - p) l) (p + min (t - p) l) rs)"

definition complete_try :: "nat \<Rightarrow> nat \<Rightarrow> bool \<Rightarrow> (uint32 \<Rightarrow> http_try) \<Rightarrow> bool" where
  "complete_try t l first a \<longleftrightarrow> (\<forall>p. ht_session (a p) \<and> (ht_status (a p) = 200 \<or> \<not> first \<and> ht_status (a p) = 206) \<and>
     ht_length (a p) = of_nat t - p \<and> (unat p < t \<longrightarrow> answers_all t l (unat p) (ht_reads (a p))))"

lemma unat_step_len: "unat p < unat t \<Longrightarrow> unat (step_len t l p) = min (unat t - unat p) (unat l)"
  by (auto simp: step_len_def word_le_nat_alt unat_sub)

lemma read_loop_completes:
  assumes "accepting s" and "list_all (\<lambda>r. \<not> rd_quit r) rs" and "small t" and "small l" and "unat p < unat t"
    and "answers_all (unat t) (unat l) (unat p) rs"
  shows "fst (fst (read_loop f t l p rs s)) = 0"
  using assms
proof (induction f t l p rs s rule: read_loop.induct)
  case (2 f t l p r rs s)
  let ?n = "step_len t l p"
  note b = step_len_bounds [OF 2(4-6)] and n = unat_step_len [OF 2(6), of l]
  have len: "rd_len r = sint ?n" using 2(7) b(4) sint_small [of ?n] n by (simp add: small_def)
  obtain code s2 where c: "call_file f t p (take (unat ?n) (rd_data r)) s = (code, s2)" by fastforce
  note a = call_file_accepts [OF 2(2) c]
  have r: "read_loop f t l p (r # rs) s = (if t - p - ?n > 0 then read_loop f t ?n (p + ?n) rs s2 else ((0, p + ?n), s2))"
    using len c a(1) 2(2,3) by (simp add: Let_def accepting_def flip: step_len_def)
  show ?case
  proof (cases "t - p - ?n > 0")
    case True
    have lt: "unat p + unat ?n < unat t" using True unfolding b(6) b(3) .
    have "fst (fst (read_loop f t ?n (p + ?n) rs s2)) = 0"
    proof (rule 2(1) [OF refl refl, folded step_len_def])
      show "\<not> rd_len r \<noteq> sint ?n" "\<not> (g_quit s \<or> rd_quit r)" using len 2(2,3) by (simp_all add: accepting_def)
      show "(code, s2) = call_file f t p (take (unat ?n) (rd_data r)) s" using c by simp
      show "t - p - ?n > 0" by (rule True)
      show "answers_all (unat t) (unat ?n) (unat (p + ?n)) rs" using 2(7) lt b(3) n by auto
    qed (use a lt b(3,4) 2(3,4) in simp_all)
    then show ?thesis unfolding r by (simp only: True if_True)
  next
    case False
    then show ?thesis unfolding r by (simp only: False if_False fst_conv)
  qed
qed simp

lemma file_download_completes:
  assumes "accepting s" and "honest F a" and "small t" and "small l" and "unat p < unat t" and "length F = unat t" and "rt \<or> p = 0"
    and "mem_plenty (w_mem (ota_world s))" and "complete_try (unat t) (unat l) first a" and "rt \<or> first" and "first \<longrightarrow> \<not> rt"
  shows "fst (fst (file_download f t l p rt (Some a) s)) = 0"
proof -
  obtain ok w1 where m: "w_malloc (ota_world s) = (ok, w1)" by fastforce
  have ok: ok by (rule same_memory_malloc(3) [OF m assms(8)])
  have pos: "(if rt then p else 0) = p" using assms(7) by auto
  have c: "ht_session (a p)" "ht_status (a p) = 200 \<or> \<not> first \<and> ht_status (a p) = 206" "ht_length (a p) = t - p"
    "answers_all (unat t) (unat l) (unat p) (ht_reads (a p))"
    using assms(5,9) by (simp_all add: complete_try_def)
  have "list_all (\<lambda>r. \<not> rd_quit r) (ht_reads (a p))" using assms(2) by (simp add: honest_def)
  with assms(1,3-5) c(4) have "fst (fst (read_loop f t l p (ht_reads (a p)) (s\<lparr>ota_world := w1\<rparr>))) = 0"
    by (intro read_loop_completes) (simp_all add: accepting_def)
  moreover have "ht_status (a p) = 200 \<or> rt \<and> ht_status (a p) = 206" using c(2) assms(10) by auto
  ultimately show ?thesis using c(1,3) by (auto simp: file_download_def on_ow_def m ok pos Let_def split: prod.splits)
qed

text \<open>A complete answer among the attempts the loop may make, the first one or a later one.\<close>

lemma download_loop_completes:
  assumes "download_ready F info s" and "unat p < length F" and "rt \<or> p = 0" and "mem_plenty (w_mem (ota_world s))"
    and "ota_tries s = as @ a # bs" and "length as \<le> n"
    and "complete_try (length F) (unat (oi_recv_size info)) (\<not> rt \<and> as = []) a"
  shows "fst (download_loop info n rt p s) = 0"
  using assms
proof (induction n arbitrary: rt p s as)
  case (0 rt p s as)
  then have n: "next_try s = (Some a, s\<lparr>ota_tries := bs\<rparr>)" and r: "accepting (s\<lparr>ota_tries := bs\<rparr>)" "honest F a"
    "small (oi_total_size info)" "small (oi_recv_size info)" "length F = unat (oi_total_size info)"
    by (simp_all add: next_try_def download_ready_def accepting_def)
  have "fst (fst (file_download (oi_file_cb info) (oi_total_size info) (oi_recv_size info) p rt (Some a) (s\<lparr>ota_tries := bs\<rparr>))) = 0"
    by (rule file_download_completes [OF r(1-4) _ r(5) 0(3), where first = "\<not> rt"]) (use 0 r(5) in simp_all)
  then obtain q s2 where "file_download (oi_file_cb info) (oi_total_size info) (oi_recv_size info) p rt (Some a) (s\<lparr>ota_tries := bs\<rparr>) =
      ((0, q), s2)"
    by (metis prod.collapse)
  then show ?case by (simp add: download_loop.simps [of _ 0] n)
next
  case (Suc n rt p s as)
  obtain answer s0 where a: "next_try s = (answer, s0)" by fastforce
  obtain r q s2 where f: "file_download (oi_file_cb info) (oi_total_size info) (oi_recv_size info) p rt answer s0 = ((r, q), s2)"
    by (metis prod.collapse)
  note st = attempt_step [OF Suc(2-4) a f]
  show ?case
  proof (cases "r = 0")
    case True
    then show ?thesis by (simp add: download_loop.simps [of _ "Suc n"] a f)
  next
    case False
    have l: "download_loop info (Suc n) rt p s = download_loop info n True q s2"
      using False st by (simp add: download_loop.simps [of _ "Suc n"] a f)
    show ?thesis
    proof (cases as)
      case Nil
      have x: "answer = Some a" "s0 = s\<lparr>ota_tries := bs\<rparr>" using a Suc(6) Nil by (simp_all add: next_try_def)
      have d: "accepting s0" "honest F a" "small (oi_total_size info)" "small (oi_recv_size info)" "length F = unat (oi_total_size info)"
        using Suc(2,6) Nil by (simp_all add: x download_ready_def accepting_def)
      have "fst (fst (file_download (oi_file_cb info) (oi_total_size info) (oi_recv_size info) p rt (Some a) s0)) = 0"
        by (rule file_download_completes [OF d(1-4) _ d(5) Suc(4), where first = "\<not> rt"]) (use Suc(3,5,8) Nil d(5) in \<open>simp_all add: x\<close>)
      then show ?thesis using False f x(1) by simp
    next
      case (Cons b as')
      have "unat q < length F" using st False by linarith
      moreover have "mem_plenty (w_mem (ota_world s2))" using st Suc(5) by (simp add: same_memory_def)
      moreover have "complete_try (length F) (unat (oi_recv_size info)) (\<not> True \<and> as' = []) a" using Suc(8) Cons by simp
      ultimately show ?thesis unfolding l using Suc.IH [of s2 q True as'] st Suc(6,7) Cons by simp
    qed
  qed
qed

theorem download_thread_completes:
  assumes "download_ready F info s" and "mem_plenty (w_mem (ota_world s))" and "ota_tries s = as @ a # bs"
    and "int (length as) \<le> oi_retry_max info \<or> as = []" and "complete_try (length F) (unat (oi_recv_size info)) (as = []) a"
  shows "\<exists>cs. ota_calls (ota_file_download_thread info s) = ota_calls s @ cs @ [Ota_notify (oi_notify info) RESULT_SUC] \<and>
    concat (map block_of cs) = F"
proof -
  obtain ret s1 where l: "download_loop info (nat (oi_retry_max info)) False 0 s = (ret, s1)" by fastforce
  have p: "unat (0 :: uint32) < length F" using assms(1) by (simp add: download_ready_def small_def)
  have "length as \<le> nat (oi_retry_max info)" using assms(4) by auto
  from download_loop_completes [OF assms(1) p _ assms(2,3) this, of False] assms(5) l have r: "ret = 0" by simp
  obtain cs where "ota_calls s1 = ota_calls s @ cs" "tiles F (oi_file_cb info) 0 cs (length F)"
    using download_loop_tiles [OF assms(1) p _ l] r by auto
  then show ?thesis using tiles_bytes [of F "oi_file_cb info" 0 cs "length F"]
    by (auto simp: ota_file_download_thread_def l upd_ow_def r intro!: exI [of _ cs])
qed

section \<open>The interface\<close>

lemma thread_clears: "ota_task (ota_file_download_thread info s) = None" "\<not> g_download_status (ota_file_download_thread info s)"
  by (simp_all add: ota_file_download_thread_def upd_ow_def split: prod.split)

text \<open>
  A download that was started runs its thread once, from the state it was started in; when the thread ended first, the download stays
  marked as running.
\<close>

lemma ota_download_starts:
  assumes "ez_iot_ota_download (Some d) (Some f) (Some n) s = (EZ_OTA_ERR_SUCC, s1)"
  shows "\<exists>info s0. download_end s1 = (ota_file_download_thread info s0)\<lparr>g_download_status := next_thread s = Thread_ends_first\<rparr> \<and>
    oi_file_cb info = f \<and> oi_notify info = n \<and> oi_retry_max info = dl_retry_max d \<and>
    oi_total_size info = of_int (dl_total_size d) \<and> oi_recv_size info = of_int (dl_block_size d) \<and> 0 < dl_total_size d \<and> 0 < dl_block_size d \<and>
    ota_calls s0 = ota_calls s \<and> ota_tries s0 = ota_tries s \<and> accepting s0 = accepting s \<and>
    w_live (ota_world s0) = w_live (ota_world s) + 1 \<and> (mem_plenty (w_mem (ota_world s)) \<longrightarrow> mem_plenty (w_mem (ota_world s0)))"
proof -
  obtain ok w1 where m: "w_malloc (ota_world s) = (ok, w1)" by fastforce
  have pl: "mem_plenty (w_mem (ota_world s)) \<longrightarrow> mem_plenty (w_mem w1)"
    using m by (auto simp: w_malloc_def mem_plenty_def ezos_malloc_def)
  have k: "x\<lparr>g_download_status := False\<rparr> = x" if "\<not> g_download_status x" for x :: ota using that by (cases x) simp
  define info where "info = \<lparr>oi_url = strncpy (dl_url d) 269, oi_check_sum = strncpy (dl_degist d) 32,
    oi_total_size = of_int (dl_total_size d), oi_recv_size = of_int (dl_block_size d), oi_timeout_s = dl_timeout_s d,
    oi_retry_max = dl_retry_max d, oi_file_cb = f, oi_notify = n\<rparr>"
  define s2 where "s2 = s\<lparr>ota_world := w1, ota_threads := tl (ota_threads s), ota_task := Some info\<rparr>"
  have t: "next_thread (s\<lparr>ota_world := w1\<rparr>) = next_thread s" by (simp add: next_thread_def)
  have g: "ok" "0 < dl_total_size d" "0 < dl_block_size d"
    and s1: "s1 = (if next_thread s = Thread_ends_first then (ota_file_download_thread info s2)\<lparr>g_download_status := True\<rparr>
      else s2\<lparr>g_download_status := True\<rparr>)"
    using assms by (simp_all add: ez_iot_ota_download_def ez_ota_file_download_def on_ow_def m info_def [symmetric] s2_def t Let_def
        split: if_splits thread_start.splits)
  define s0 where "s0 = (if next_thread s = Thread_ends_first then s2 else s2\<lparr>g_download_status := True\<rparr>)"
  have "download_end s1 = (ota_file_download_thread info s0)\<lparr>g_download_status := next_thread s = Thread_ends_first\<rparr>"
    by (auto simp: s1 s0_def download_end_def thread_clears k s2_def)
  moreover have "w_live w1 = w_live (ota_world s) + 1" using w_malloc_live [OF m] g(1) by simp
  ultimately show ?thesis using g pl
    by (intro exI [of _ info] exI [of _ s0]) (simp add: info_def s0_def s2_def accepting_def)
qed

text \<open>A thread that ended before its creator went on leaves a mark that nothing clears: every later download is refused.\<close>

lemma early_end_blocks_downloads:
  assumes "ez_ota_file_download d f n s = (EZ_OTA_ERR_SUCC, s1)" and "next_thread s = Thread_ends_first"
  shows "download_end s1 = s1" and "ez_ota_file_download d' f' n' s1 = (EZ_OTA_ERR_DOWNLOAD_ALREADY, s1)"
proof -
  have "ota_task s1 = None \<and> g_download_status s1"
    using assms by (auto simp: ez_ota_file_download_def on_ow_def next_thread_def thread_clears Let_def
        split: if_splits list.splits prod.splits)
  then show "download_end s1 = s1" "ez_ota_file_download d' f' n' s1 = (EZ_OTA_ERR_DOWNLOAD_ALREADY, s1)"
    by (simp_all add: download_end_def ez_ota_file_download_def)
qed

lemma started_ready:
  assumes "ez_iot_ota_download (Some d) (Some f) (Some n) s = (EZ_OTA_ERR_SUCC, s1)"
    and "dl_total_size d = int (length F)" and "dl_total_size d < 2 ^ 31" and "dl_block_size d < 2 ^ 31"
    and "accepting s" and "list_all (honest F) (ota_tries s)"
  shows "\<exists>info s0. download_end s1 = (ota_file_download_thread info s0)\<lparr>g_download_status := next_thread s = Thread_ends_first\<rparr> \<and>
    download_ready F info s0 \<and> oi_file_cb info = f \<and> oi_notify info = n \<and>
    oi_retry_max info = dl_retry_max d \<and> unat (oi_recv_size info) = nat (dl_block_size d) \<and>
    ota_calls s0 = ota_calls s \<and> ota_tries s0 = ota_tries s \<and>
    w_live (ota_world s0) = w_live (ota_world s) + 1 \<and> (mem_plenty (w_mem (ota_world s)) \<longrightarrow> mem_plenty (w_mem (ota_world s0)))"
proof -
  have u: "unat (of_int i :: uint32) = nat i" if "0 < i" "i < 2 ^ 31" for i
  proof -
    have "i mod 2 ^ 32 = i" using that by simp
    then show ?thesis by (simp add: unat_eq_nat_uint uint_word_of_int)
  qed
  from ota_download_starts [OF assms(1)] obtain info s0 where
    i: "download_end s1 = (ota_file_download_thread info s0)\<lparr>g_download_status := next_thread s = Thread_ends_first\<rparr>" "oi_file_cb info = f" "oi_notify info = n" "oi_retry_max info = dl_retry_max d"
    "oi_total_size info = of_int (dl_total_size d)" "oi_recv_size info = of_int (dl_block_size d)"
    "0 < dl_total_size d" "0 < dl_block_size d" "ota_tries s0 = ota_tries s" "accepting s0 = accepting s"
    "ota_calls s0 = ota_calls s" "w_live (ota_world s0) = w_live (ota_world s) + 1"
    "mem_plenty (w_mem (ota_world s)) \<longrightarrow> mem_plenty (w_mem (ota_world s0))" by blast
  have "unat (oi_total_size info) = length F" using u [OF i(7) assms(3)] i(5) assms(2) by simp
  moreover have "length F < 2 ^ 31" "0 < length F" using assms(2,3) i(7) by simp_all
  moreover have "unat (oi_recv_size info) = nat (dl_block_size d)" using u [OF i(8) assms(4)] i(6) by simp
  moreover have "nat (dl_block_size d) < 2 ^ 31" using assms(4) by simp
  ultimately have "download_ready F info s0" using i assms(5,6) by (simp add: download_ready_def small_def)
  then show ?thesis using i u [OF i(8) assms(4)] by (intro exI [of _ info] exI [of _ s0]) simp
qed

section \<open>A refused block\<close>

text \<open>When the application refuses the first block, nothing more is read and the download counts as a success.\<close>

theorem refused_block_ends_download:
  assumes "ota_tries s = a # as" and "ota_file_codes s = c # cs" and "c \<noteq> 0" and "\<not> g_quit s" and "mem_plenty (w_mem (ota_world s))"
    and "ht_session (a 0)" and "ht_status (a 0) = 200" and "ht_length (a 0) = oi_total_size info"
    and "ht_reads (a 0) = r # rs" and "\<not> rd_quit r" and "rd_len r = sint (min (oi_total_size info) (oi_recv_size info))"
  shows "ota_calls (ota_file_download_thread info s) =
    ota_calls s @ [Ota_file (oi_file_cb info) (oi_total_size info) 0 (take (unat (min (oi_total_size info) (oi_recv_size info))) (rd_data r)),
      Ota_notify (oi_notify info) RESULT_SUC]"
proof -
  obtain ok w1 where m: "w_malloc (ota_world s) = (ok, w1)" by fastforce
  have ok by (rule same_memory_malloc(3) [OF m assms(5)])
  then show ?thesis using assms
    by (simp add: ota_file_download_thread_def download_loop.simps [of info "nat (oi_retry_max info)"] next_try_def file_download_def on_ow_def m
        call_file_def Let_def upd_ow_def min_def)
qed

end
