(* ===== verification/Ota_Request.thy ===== *)
theory Ota_Request
  imports Ota_Core
begin

text \<open>
  The messages of the upgrade module: whatever allocation fails, a request for an upgrade and a report of the progress return
  every block they took, up to the two blocks the send interface may free although it has queued them; and with memory
  each request that lists files is handed to the application once and answered once under the number of the request.
\<close>

section \<open>Memory\<close>

text \<open>The blocks lost by a send: none, or the two blocks of a message that is both queued and freed.\<close>

definition send_loss :: "world \<Rightarrow> world \<Rightarrow> int \<Rightarrow> bool" where
  "send_loss w w' d \<longleftrightarrow> d = 0 \<or> d = - 2 \<and> length (q_elems (q_pubmsg_v3 w')) = Suc (length (q_elems (q_pubmsg_v3 w)))"

lemma send3_loss:
  assumes "kernel_send3 p w = (r, w')" and "pub3_msg_body p \<noteq> None"
  shows "send_loss w w' (lost_blocks w' - lost_blocks w)"
proof (cases "my_state (kernel w) = Sdk_start \<and> pub3_msg_body_len p \<noteq> 0 \<and> unat (pub3_msg_body_len p) \<le> CONFIG_EZIOT_CORE_MESSAGE_SIZE_MAX")
  case True
  obtain rv p' w1 where e: "ez_kernel_send_v3 (Some p) w = (rv, p', w1)" by (rule prod_cases3)
  then have "w1 = w'" using assms(1) by (simp add: kernel_send3_def)
  then show ?thesis using ez_kernel_send_v3_effect [OF _ assms(2) _ _ e] True by (auto simp: send_end_def send_loss_def)
next
  case False
  then have "w' = w" using assms by (auto simp: kernel_send3_def ez_kernel_send_v3_def split: if_splits)
  then show ?thesis by (simp add: send_loss_def)
qed

lemma lost_blocks_delete: "lost_blocks (w_json_delete j w) = lost_blocks w - (case j of None \<Rightarrow> 0 | Some t \<Rightarrow> int (json_blocks t))"
  by (cases j) (simp_all add: lost_blocks_def w_live_def w_json_delete_def cJSON_Delete_def ezos_frees_def queued_blocks_def)

lemma queue_after_release [simp]: "q_pubmsg_v3 (w_json_delete j w) = q_pubmsg_v3 w" "q_pubmsg_v3 (w_frees n w) = q_pubmsg_v3 w"
    "q_pubmsg_v3 (faulty b w) = q_pubmsg_v3 w"
  by (simp_all add: w_json_delete_def w_frees_def faulty_def)

lemma lost_blocks_json:
  assumes "w_json f w = (r, w')"
  shows "lost_blocks w' = lost_blocks w + (live (snd (f (w_mem w))) - live (w_mem w))" "q_pubmsg_v3 w' = q_pubmsg_v3 w"
  using assms by (auto simp: w_json_def lost_blocks_def w_live_def queued_blocks_def split: prod.splits)

lemma print_send_loss:
  assumes "ota_print_send L doc pres ty me rsp seq w = (e, w')"
  shows "send_loss w w' (lost_blocks w' - lost_blocks w + (case doc of None \<Rightarrow> 0 | Some t \<Rightarrow> int (json_blocks t)))"
proof (cases doc)
  case None
  then show ?thesis using assms by (auto simp: ota_print_send_def cJSON_PrintUnformatted_def w_json_delete_def cJSON_Delete_def send_loss_def)
next
  case (Some t)
  obtain ok w1 where m: "w_malloc w = (ok, w1)" by fastforce
  have q: "q_pubmsg_v3 w1 = q_pubmsg_v3 w" using w_malloc_fields [OF m] by simp
  note l = lost_blocks_malloc [OF m]
  show ?thesis
  proof (cases ok)
    case False
    then show ?thesis using assms l by (auto simp: ota_print_send_def cJSON_PrintUnformatted_def m Some lost_blocks_delete send_loss_def)
  next
    case True
    obtain x w2 where s: "ez_ota_send_msg_to_platform (cJSON_text (lib_text L) t) pres ty me rsp seq w1 = (x, w2)" by fastforce
    have "send_loss w1 w2 (lost_blocks w2 - lost_blocks w1)"
      using s send3_loss [of "ota_pubmsg pres ty me rsp (if rsp = EZ_OTA_RSP then seq else 0) (cJSON_text (lib_text L) t)" w1]
      by (fastforce simp: ez_ota_send_msg_to_platform_def ota_pubmsg_def send_loss_def split: if_splits prod.splits)
    moreover have "w' = w_json_delete doc (w_free w2)"
      using assms by (auto simp: ota_print_send_def cJSON_PrintUnformatted_def m Some True s split: prod.splits)
    ultimately show ?thesis using l q True by (auto simp: send_loss_def lost_blocks_delete Some)
  qed
qed

lemma text_member_keeps:
  "lost_blocks (snd (text_member j nm n w)) = lost_blocks w" "q_pubmsg_v3 (snd (text_member j nm n w)) = q_pubmsg_v3 w"
  by (simp_all add: text_member_def split: option.split)

lemma diff_of_keeps: "lost_blocks (snd (diff_of j w)) = lost_blocks w" "q_pubmsg_v3 (snd (diff_of j w)) = q_pubmsg_v3 w"
  by (simp_all add: diff_of_def text_member_keeps split: prod.split) (metis snd_conv text_member_keeps)+

lemma file_of_blocks:
  assumes "file_of j w = ((go, f), w')"
  shows "lost_blocks w' = lost_blocks w + (if fi_pdiffs f \<noteq> None then 1 else 0) \<and> q_pubmsg_v3 w' = q_pubmsg_v3 w"
proof -
  obtain md w1 where 1: "text_member j ''module'' 56 w = (md, w1)" by fastforce
  obtain url w2 where 2: "text_member j ''url'' 270 w1 = (url, w2)" by fastforce
  obtain dg w3 where 3: "text_member j ''degist'' 33 w2 = (dg, w3)" by fastforce
  obtain ver w4 where 4: "text_member j ''fw_ver'' 32 w3 = (ver, w4)" by fastforce
  note k = text_member_keeps [of j "''module''" 56 w] text_member_keeps [of j "''url''" 270 w1]
    text_member_keeps [of j "''degist''" 33 w2] text_member_keeps [of j "''fw_ver''" 32 w3]
  have k4: "lost_blocks w4 = lost_blocks w" "q_pubmsg_v3 w4 = q_pubmsg_v3 w" using k 1 2 3 4 by simp_all
  obtain ok w5 where m: "w_malloc w4 = (ok, w5)" by fastforce
  note mf = lost_blocks_malloc [OF m] w_malloc_fields [OF m]
  show ?thesis using assms k4 mf diff_of_keeps [of _ w5]
    by (auto simp: file_of_def 1 2 3 4 m Let_def split: option.splits if_splits prod.splits) (metis snd_conv)+
qed

lemma fill_files_blocks:
  assumes "fill_files cs w = (fs, w')"
  shows "lost_blocks w' = lost_blocks w + int (length (filter (\<lambda>f. fi_pdiffs f \<noteq> None) fs)) \<and> q_pubmsg_v3 w' = q_pubmsg_v3 w"
  using assms
proof (induction cs arbitrary: w fs w')
  case (Cons c cs)
  obtain go f w1 where f: "file_of c w = ((go, f), w1)" by (metis prod.collapse)
  note b = file_of_blocks [OF f]
  show ?case
  proof (cases go)
    case True
    obtain gs w2 where g: "fill_files cs w1 = (gs, w2)" by fastforce
    show ?thesis using Cons.IH [OF g] Cons.prems b True by (auto simp: f g)
  next
    case False
    then show ?thesis using Cons.prems b by (auto simp: f zero_file_def)
  qed
qed simp

lemma hub_parse_blocks:
  assumes "hub_parse L text w = (r, w')"
  shows "lost_blocks w' = lost_blocks w + (case r of None \<Rightarrow> 0 | Some t \<Rightarrow> int (json_blocks t)) \<and> q_pubmsg_v3 w' = q_pubmsg_v3 w"
proof -
  obtain ok w1 where m: "w_malloc w = (ok, w1)" by fastforce
  have "lost_blocks (w1\<lparr>w_mem := (w_mem w1)\<lparr>live := live (w_mem w1) + k\<rparr>\<rparr>) = lost_blocks w1 + k" for k
    by (simp add: lost_blocks_def w_live_def queued_blocks_def)
  then have "lost_blocks (w1\<lparr>w_mem := (w_mem w1)\<lparr>live := live (w_mem w1) + k - 1\<rparr>\<rparr>) = lost_blocks w1 + k - 1" for k
    by (simp add: add_diff_eq [symmetric] del: add_diff_eq)
  with lost_blocks_malloc [OF m] w_malloc_fields [OF m] assms show ?thesis
    by (auto simp: hub_parse_def m split: option.splits if_splits)
qed

lemma upgrade_request_blocks:
  assumes "upgrade_request L serial buf s = ((ret, files, root), s')"
  shows "lost_blocks (ota_world s') = lost_blocks (ota_world s) + int (files_blocks files) + (case root of None \<Rightarrow> 0 | Some t \<Rightarrow> int (json_blocks t)) \<and>
    q_pubmsg_v3 (ota_world s') = q_pubmsg_v3 (ota_world s)"
proof (cases buf)
  case None
  then show ?thesis using assms by (auto simp: upgrade_request_def files_blocks_def)
next
  case (Some tx)
  obtain r w1 where h: "hub_parse L tx (ota_world s) = (r, w1)" by fastforce
  obtain ok w2 where m: "w_malloc w1 = (ok, w2)" by fastforce
  note b = hub_parse_blocks [OF h] lost_blocks_malloc [OF m] w_malloc_fields [OF m]
  have c: "ota_world (snd (call_recv a i u)) = ota_world u" for a i u by (simp add: call_recv_def Let_def split: list.split)
  show ?thesis
  proof (cases "\<exists>t fi. r = Some t \<and> cJSON_GetObjectItem (Some t) ''file_info'' = Some fi \<and> js_type fi = cJSON_Array \<and> ok")
    case False
    then show ?thesis using assms Some b
      by (auto simp: upgrade_request_def on_ow_def h m files_blocks_def split: option.splits if_splits)
  next
    case True
    then obtain t fi where r: "r = Some t" "cJSON_GetObjectItem (Some t) ''file_info'' = Some fi" "js_type fi = cJSON_Array" "ok" by blast
    obtain fs w3 where f: "fill_files (js_child fi) w2 = (fs, w3)" by fastforce
    obtain rc u where u: "call_recv serial \<lparr>ui_retry_max = typed_number t ''maxtry'', ui_interval = typed_number t ''interval'', ui_pota_files = fs\<rparr>
        (s\<lparr>ota_world := w3\<rparr>) = (rc, u)"
      by fastforce
    have "ota_world u = w3" using arg_cong [OF u, of "\<lambda>x. ota_world (snd x)"] by (simp add: c)
    moreover have "files = Some fs" "root = Some t" "s' = u"
      using assms by (simp_all add: upgrade_request_def on_ow_def Some h m r f u)
    ultimately have "files = Some fs" "root = Some t" "ota_world s' = w3" by simp_all
    then show ?thesis using b r(1,4) fill_files_blocks [OF f] by (simp add: files_blocks_def)
  qed
qed

lemma AddString_none: "cJSON_AddStringToObject None nm x m = (doc, m') \<Longrightarrow> doc = None \<and> live m' = live m"
  by (auto simp: cJSON_AddStringToObject_def cJSON_CreateString_def cJSON_New_Item_def add_item_to_object_def cJSON_Delete_def
      split: prod.splits option.splits if_splits dest!: malloc_live)

definition tree_blocks :: "cJSON option \<Rightarrow> int" where
  "tree_blocks doc = (case doc of None \<Rightarrow> 0 | Some t \<Rightarrow> int (json_blocks t))"

lemma AddString_tree: "cJSON_AddStringToObject ob nm x m = (doc, m') \<Longrightarrow> live m' - tree_blocks doc = live m - tree_blocks ob"
  by (cases ob) (auto simp: tree_blocks_def dest: AddString_none AddString_balance)

lemma upgrade_reply_balance:
  assumes "upgrade_reply ret rsp m = (doc, m')"
  shows "live m' - tree_blocks doc = live m - tree_blocks rsp"
proof (cases "ret = 0 \<and> rsp = None")
  case True
  then show ?thesis using assms by (simp add: upgrade_reply_def)
next
  case False
  obtain r1 m1 where 1: "cJSON_AddStringToObject rsp ''code'' (hex08_alt ret) m = (r1, m1)" by fastforce
  then have "cJSON_AddStringToObject r1 ''errorMsg'' (if ret = 0 then ''Succeeded'' else ''device receive failed!'') m1 = (doc, m')"
    using assms False by (auto simp: upgrade_reply_def)
  then show ?thesis using AddString_tree [OF 1] AddString_tree by fastforce
qed

theorem upgrade_returns_blocks:
  assumes "ez_ota_upgrade_to_device L serial seq buf s = (ret, s')"
  shows "send_loss (ota_world s) (ota_world s') (lost_blocks (ota_world s') - lost_blocks (ota_world s))"
proof -
  obtain rc files root s1 where r: "upgrade_request L serial buf s = ((rc, files, root), s1)" by (metis prod.collapse)
  obtain rsp w2 where o: "w_json cJSON_CreateObject (ota_world s1) = (rsp, w2)" by fastforce
  obtain doc w3 where d: "w_json (upgrade_reply rc rsp) w2 = (doc, w3)" by fastforce
  define w4 where "w4 = (if doc = None then w3 else snd (ota_print_send L doc (Some serial) ''operate_reply'' ''upgrade'' EZ_OTA_RSP seq w3))"
  have s': "ota_world s' = w_json_delete root (w_frees (files_blocks files) w4)"
    using assms by (auto simp: ez_ota_upgrade_to_device_def r on_ow_def o d upd_ow_def w4_def)
  have lo: "lost_blocks w2 = lost_blocks (ota_world s1) + (case rsp of None \<Rightarrow> 0 | Some t \<Rightarrow> int (json_blocks t))"
    using o lost_blocks_json(1) [OF o]
    by (auto simp: w_json_def cJSON_CreateObject_def cJSON_New_Item_def split: prod.splits if_splits dest!: malloc_live)
  obtain m' where m': "upgrade_reply rc rsp (w_mem w2) = (doc, m')" using d by (auto simp: w_json_def split: prod.splits)
  have ld: "lost_blocks w3 = lost_blocks (ota_world s1) + (case doc of None \<Rightarrow> 0 | Some t \<Rightarrow> int (json_blocks t))"
    using lost_blocks_json(1) [OF d] upgrade_reply_balance [OF m'] lo by (simp add: m' tree_blocks_def)
  have q3: "q_pubmsg_v3 w3 = q_pubmsg_v3 (ota_world s1)" using lost_blocks_json(2) [OF o] lost_blocks_json(2) [OF d] by simp
  have "send_loss w3 w4 (lost_blocks w4 - lost_blocks (ota_world s1))"
  proof (cases doc)
    case None
    then show ?thesis using ld by (simp add: w4_def send_loss_def)
  next
    case (Some t)
    obtain e w5 where p: "ota_print_send L doc (Some serial) ''operate_reply'' ''upgrade'' EZ_OTA_RSP seq w3 = (e, w5)" by fastforce
    have "w4 = w5" using p Some by (simp add: w4_def)
    then show ?thesis using print_send_loss [OF p] ld Some by (simp add: algebra_simps)
  qed
  then show ?thesis using upgrade_request_blocks [OF r] q3 by (auto simp: s' lost_blocks_delete send_loss_def)
qed

theorem progress_returns_blocks:
  assumes "ez_progress_report L pres md msg code st pr w = (e, w')"
  shows "send_loss w w' (lost_blocks w' - lost_blocks w)"
proof -
  obtain root w1 where o: "w_json cJSON_CreateObject w = (root, w1)" by fastforce
  have l1: "lost_blocks w1 = lost_blocks w + (case root of None \<Rightarrow> 0 | Some t \<Rightarrow> int (json_blocks t))"
    using o lost_blocks_json(1) [OF o]
    by (auto simp: w_json_def cJSON_CreateObject_def cJSON_New_Item_def split: prod.splits if_splits dest!: malloc_live)
  show ?thesis
  proof (cases root)
    case None
    then show ?thesis using assms l1 by (auto simp: ez_progress_report_def o send_loss_def)
  next
    case (Some ob)
    obtain doc w2 where d: "w_json (progress_body md msg code (sint (of_int st :: 8 word)) pr (Some ob)) w1 = (doc, w2)" by fastforce
    obtain m' where m': "progress_body md msg code (sint (of_int st :: 8 word)) pr (Some ob) (w_mem w1) = (doc, m')"
      using d by (auto simp: w_json_def split: prod.splits)
    have b: "\<exists>t. doc = Some t \<and> live m' - int (json_blocks t) = live (w_mem w1) - int (json_blocks ob)"
      using m' by (auto simp: progress_body_def split: prod.splits dest!: AddString_balance AddNumber_balance)
    then obtain t where t: "doc = Some t" "live m' - int (json_blocks t) = live (w_mem w1) - int (json_blocks ob)" by blast
    have l2: "lost_blocks w2 = lost_blocks w + int (json_blocks t)" using lost_blocks_json(1) [OF d] l1 t Some by (simp add: m')
    have "q_pubmsg_v3 w2 = q_pubmsg_v3 w" using lost_blocks_json(2) [OF d] lost_blocks_json(2) [OF o] by simp
    moreover have p: "ota_print_send L doc pres ''report'' ''progress'' EZ_OTA_REQ 0 w2 = (e, w')"
      using assms by (simp add: ez_progress_report_def o Some d)
    ultimately show ?thesis using print_send_loss [OF p] l2 t(1) by (simp add: send_loss_def algebra_simps)
  qed
qed

section \<open>A request is handed over and answered\<close>

text \<open>The files of a request, read off its document.\<close>

definition member_text :: "cJSON \<Rightarrow> string \<Rightarrow> nat \<Rightarrow> string" where
  "member_text j name n = (case cJSON_GetObjectItem (Some j) name of None \<Rightarrow> '''' | Some item \<Rightarrow>
     strncpy (case js_valuestring item of None \<Rightarrow> ''(null)'' | Some t \<Rightarrow> t) (n - 1))"

definition diff_in :: "cJSON \<Rightarrow> ez_ota_file_diff" where
  "diff_in j = \<lparr>df_url = member_text j ''url'' 270, df_fw_ver_dst = member_text j ''fw_ver_dst'' 64, df_degist = member_text j ''degist'' 33,
     df_size = number_member j ''size''\<rparr>"

definition file_in :: "cJSON \<Rightarrow> ez_ota_file_info" where
  "file_in j = \<lparr>fi_mod_name = member_text j ''module'' 56, fi_url = member_text j ''url'' 270, fi_fw_ver = member_text j ''fw_ver'' 32,
     fi_degist = member_text j ''degist'' 33, fi_size = number_member j ''size'',
     fi_pdiffs = (case cJSON_GetObjectItem (Some j) ''diffs'' of None \<Rightarrow> None
       | Some d \<Rightarrow> if js_type d = cJSON_Object then Some (diff_in d) else None)\<rparr>"

definition upgrade_in :: "cJSON \<Rightarrow> cJSON \<Rightarrow> ez_ota_upgrade_info" where
  "upgrade_in root fi = \<lparr>ui_retry_max = typed_number root ''maxtry'', ui_interval = typed_number root ''interval'',
     ui_pota_files = map file_in (js_child fi)\<rparr>"

definition reply_doc :: "int \<Rightarrow> cJSON" where
  "reply_doc ret = js_object [item_named ''code'' (js_text (hex08_alt ret)),
     item_named ''errorMsg'' (js_text (if ret = 0 then ''Succeeded'' else ''device receive failed!''))]"

definition reply_msg :: "libs \<Rightarrow> string \<Rightarrow> uint32 \<Rightarrow> int \<Rightarrow> ezdev_sdk_kernel_pubmsg_exchange_v3" where
  "reply_msg L serial seq ret = pubmsg_copy_v3 (ota_pubmsg (Some serial) ''operate_reply'' ''upgrade'' EZ_OTA_RSP seq
     (cJSON_text (lib_text L) (reply_doc ret)))"

text \<open>What sending depends on.\<close>

definition send_frame :: "world \<Rightarrow> world \<Rightarrow> bool" where
  "send_frame w w' \<longleftrightarrow> kernel w' = kernel w \<and> q_pubmsg_v3 w' = q_pubmsg_v3 w \<and> (mem_plenty (w_mem w) \<longrightarrow> mem_plenty (w_mem w'))"

lemma send_frame_trans: "send_frame u v \<Longrightarrow> send_frame v w \<Longrightarrow> send_frame u w"
  by (simp add: send_frame_def)

lemma send_frame_sends: "send_frame w w' \<Longrightarrow> sends k w \<Longrightarrow> sends k w'"
  by (simp add: send_frame_def sends_def)

lemma text_member_frame: "text_member j nm n w = (member_text j nm n, snd (text_member j nm n w))" "send_frame w (snd (text_member j nm n w))"
  by (simp_all add: text_member_def member_text_def send_frame_def faulty_def split: option.split)

lemma malloc_frame: "w_malloc w = (ok, w') \<Longrightarrow> send_frame w w'"
  by (auto simp: w_malloc_def send_frame_def ezos_malloc_def mem_plenty_def split: list.splits)

lemma diff_of_frame: "\<exists>w'. diff_of j w = (diff_in j, w') \<and> send_frame w w'"
proof -
  define w1 where "w1 = snd (text_member j ''url'' 270 w)"
  define w2 where "w2 = snd (text_member j ''degist'' 33 w1)"
  define w3 where "w3 = snd (text_member j ''fw_ver_dst'' 64 w2)"
  note t = text_member_frame(1) [of j "''url''" 270 w, folded w1_def] text_member_frame(1) [of j "''degist''" 33 w1, folded w2_def]
    text_member_frame(1) [of j "''fw_ver_dst''" 64 w2, folded w3_def]
  have "diff_of j w = (diff_in j, w3)" by (simp add: diff_of_def diff_in_def t)
  moreover have "send_frame w w1" "send_frame w1 w2" "send_frame w2 w3"
    unfolding w1_def w2_def w3_def by (rule text_member_frame(2))+
  then have "send_frame w w3" by (blast intro: send_frame_trans)
  ultimately show ?thesis by blast
qed

lemma file_of_frame:
  assumes "mem_plenty (w_mem w)"
  shows "\<exists>w'. file_of j w = ((True, file_in j), w') \<and> send_frame w w'"
proof -
  define w1 where "w1 = snd (text_member j ''module'' 56 w)"
  define w2 where "w2 = snd (text_member j ''url'' 270 w1)"
  define w3 where "w3 = snd (text_member j ''degist'' 33 w2)"
  define w4 where "w4 = snd (text_member j ''fw_ver'' 32 w3)"
  note t = text_member_frame(1) [of j "''module''" 56 w, folded w1_def] text_member_frame(1) [of j "''url''" 270 w1, folded w2_def]
    text_member_frame(1) [of j "''degist''" 33 w2, folded w3_def] text_member_frame(1) [of j "''fw_ver''" 32 w3, folded w4_def]
  have "send_frame w w1" "send_frame w1 w2" "send_frame w2 w3" "send_frame w3 w4"
    unfolding w1_def w2_def w3_def w4_def by (rule text_member_frame(2))+
  then have f: "send_frame w w4" by (blast intro: send_frame_trans)
  obtain ok w5 where m: "w_malloc w4 = (ok, w5)" by fastforce
  have ok: ok using m f assms by (auto simp: send_frame_def w_malloc_def malloc_grown)
  show ?thesis
  proof (cases "cJSON_GetObjectItem (Some j) ''diffs''")
    case None
    then show ?thesis using f by (simp add: file_of_def t file_in_def)
  next
    case (Some d)
    obtain w6 where d: "diff_of d w5 = (diff_in d, w6)" "send_frame w5 w6" using diff_of_frame by blast
    have "send_frame w w6" by (rule send_frame_trans [OF f send_frame_trans [OF malloc_frame [OF m] d(2)]])
    then show ?thesis using f by (simp add: file_of_def t m ok Some d file_in_def)
  qed
qed

lemma fill_files_frame: "mem_plenty (w_mem w) \<Longrightarrow> \<exists>w'. fill_files cs w = (map file_in cs, w') \<and> send_frame w w'"
proof (induction cs arbitrary: w)
  case Nil
  then show ?case by (simp add: send_frame_def)
next
  case (Cons c cs)
  obtain w1 where f: "file_of c w = ((True, file_in c), w1)" "send_frame w w1" using file_of_frame [OF Cons.prems] by blast
  then obtain w2 where "fill_files cs w1 = (map file_in cs, w2)" "send_frame w1 w2" using Cons by (fastforce simp: send_frame_def)
  then show ?case using f by (auto intro: send_frame_trans)
qed

lemma send3_answers:
  assumes s: "sends 1 w" and p: "pub3_msg_response p \<noteq> 0" "pub3_msg_body p \<noteq> None" "pub3_msg_body_len p \<noteq> 0"
      "unat (pub3_msg_body_len p) \<le> CONFIG_EZIOT_CORE_MESSAGE_SIZE_MAX"
  shows "\<exists>w'. kernel_send3 p w = ((0, pub3_msg_seq p), w') \<and> q_elems (q_pubmsg_v3 w') = q_elems (q_pubmsg_v3 w) @ [pubmsg_copy_v3 p]"
proof -
  have room: "\<not> q_maxsize (q_pubmsg_v3 w) \<le> q_size (q_pubmsg_v3 w)"
    using s by (simp add: sends_def word_le_nat_alt)
  have m: "w_malloc w = (True, w\<lparr>w_mem := grown 1 (w_mem w)\<rparr>)" if "mem_plenty (w_mem w)" for w
    using that by (simp add: w_malloc_def malloc_grown)
  have pl: "mem_plenty (w_mem w)" and st: "my_state (kernel w) = Sdk_start" using s by (simp_all add: sends_def)
  show ?thesis
    using p room pl st
    by (simp add: kernel_send3_def ez_kernel_send_v3_def m queue_or_free_def das_send_pubmsg_async_v3_def
        push_queue_pubmsg_exchange_v3_def push_queue_def malloc_grown)
qed

lemma json_frame: "w_json f w = (r, w') \<Longrightarrow> (mem_plenty (w_mem w) \<Longrightarrow> mem_plenty (snd (f (w_mem w)))) \<Longrightarrow> send_frame w w'"
  by (auto simp: w_json_def send_frame_def split: prod.splits)

lemma upgrade_request_handed:
  assumes "mem_plenty (w_mem (ota_world s))" and "g_ota_cb s = Some f" and "cJSON_Parse (lib_text L) tx = Some root"
    and "cJSON_GetObjectItem (Some root) ''file_info'' = Some fi" and "js_type fi = cJSON_Array"
  shows "\<exists>s'. upgrade_request L serial (Some tx) s =
      ((case ota_recv_codes s of [] \<Rightarrow> 0 | c # _ \<Rightarrow> c, Some (map file_in (js_child fi)), Some root), s') \<and>
    ota_calls s' = ota_calls s @ [Ota_recv f serial (upgrade_in root fi)] \<and> send_frame (ota_world s) (ota_world s')"
proof -
  let ?w1 = "wgrown (int (json_blocks root)) (ota_world s)"
  have h: "hub_parse L tx (ota_world s) = (Some root, ?w1)"
    using assms(1,3) by (simp add: hub_parse_def w_malloc_def malloc_grown wgrown_def grown_def)
  have f1: "send_frame (ota_world s) ?w1" by (simp add: send_frame_def wgrown_def)
  obtain ok w2 where m: "w_malloc ?w1 = (ok, w2)" by fastforce
  have ok: ok using m assms(1) by (auto simp: w_malloc_def wgrown_def malloc_grown)
  note f2 = send_frame_trans [OF f1 malloc_frame [OF m]]
  have "mem_plenty (w_mem w2)" using f2 assms(1) by (simp add: send_frame_def)
  then obtain w3 where f: "fill_files (js_child fi) w2 = (map file_in (js_child fi), w3)" "send_frame w2 w3" using fill_files_frame by blast
  note f3 = send_frame_trans [OF f2 f(2)]
  show ?thesis using assms(2-5) f3
    by (cases "ota_recv_codes s") (simp_all add: upgrade_request_def on_ow_def h m ok f call_recv_def Let_def upgrade_in_def)
qed

text \<open>The reply is built and sent under the number of the request.\<close>

lemma reply_sent:
  assumes "sends 1 w" and "cJSON_text (lib_text L) (reply_doc ret) \<noteq> []"
    and "length (cJSON_text (lib_text L) (reply_doc ret)) \<le> CONFIG_EZIOT_CORE_MESSAGE_SIZE_MAX"
  shows "\<exists>w1 w2 w3. w_json cJSON_CreateObject w = (Some (js_object []), w1) \<and>
    w_json (upgrade_reply ret (Some (js_object []))) w1 = (Some (reply_doc ret), w2) \<and>
    ota_print_send L (Some (reply_doc ret)) (Some serial) ''operate_reply'' ''upgrade'' EZ_OTA_RSP seq w2 = (EZ_OTA_ERR_SUCC, w3) \<and>
    q_elems (q_pubmsg_v3 w3) = q_elems (q_pubmsg_v3 w) @ [reply_msg L serial seq ret]"
proof -
  let ?b = "cJSON_text (lib_text L) (reply_doc ret)" and ?p = "ota_pubmsg (Some serial) ''operate_reply'' ''upgrade'' EZ_OTA_RSP seq (cJSON_text (lib_text L) (reply_doc ret))"
  have pl: "mem_plenty (w_mem w)" using assms(1) by (simp add: sends_def)
  have c: "w_json cJSON_CreateObject w = (Some (js_object []), wgrown 1 w)" using pl by (simp add: w_json_def wgrown_def create_object_grown)
  have d: "w_json (upgrade_reply ret (Some (js_object []))) (wgrown 1 w) = (Some (reply_doc ret), wgrown 7 w)"
    using pl by (simp add: w_json_def wgrown_def upgrade_reply_def add_string_grown reply_doc_def)
  have pr: "cJSON_PrintUnformatted L (Some (reply_doc ret)) (wgrown 7 w) = (Some ?b, wgrown 8 w)"
    using pl by (simp add: cJSON_PrintUnformatted_def w_malloc_def wgrown_def malloc_grown)
  have s: "sends 1 (wgrown 8 w)" using assms(1) by (simp add: sends_def wgrown_def)
  have len: "unat (of_nat (length ?b) :: uint32) = length ?b" using assms(3) by (intro unat_of_nat_small) (simp add: CONFIG_EZIOT_CORE_MESSAGE_SIZE_MAX_def)
  have "pub3_msg_body_len ?p \<noteq> 0" using assms(2) len by (metis length_0_conv ota_pubmsg_def unat_0 ez_kernel_pubmsg_v3.select_convs(4))
  with send3_answers [OF s, of ?p] len assms(3)
  obtain w2 where "kernel_send3 ?p (wgrown 8 w) = ((0, seq), w2)" "q_elems (q_pubmsg_v3 w2) = q_elems (q_pubmsg_v3 (wgrown 8 w)) @ [pubmsg_copy_v3 ?p]"
    by (auto simp: ota_pubmsg_def)
  then show ?thesis using c d pr assms(2)
    by (simp add: ota_print_send_def ez_ota_send_msg_to_platform_def reply_msg_def wgrown_def w_free_def)
qed

theorem upgrade_handed_and_answered:
  assumes "sends 1 (ota_world s)" and "g_ota_cb s = Some f" and "cJSON_Parse (lib_text L) tx = Some root"
    and "cJSON_GetObjectItem (Some root) ''file_info'' = Some fi" and "js_type fi = cJSON_Array"
    and "ret = (case ota_recv_codes s of [] \<Rightarrow> 0 | c # _ \<Rightarrow> c)"
    and "cJSON_text (lib_text L) (reply_doc ret) \<noteq> []" and "length (cJSON_text (lib_text L) (reply_doc ret)) \<le> CONFIG_EZIOT_CORE_MESSAGE_SIZE_MAX"
  shows "\<exists>s'. ez_ota_upgrade_to_device L serial seq (Some tx) s = (ret, s') \<and>
    ota_calls s' = ota_calls s @ [Ota_recv f serial (upgrade_in root fi)] \<and>
    q_elems (q_pubmsg_v3 (ota_world s')) = q_elems (q_pubmsg_v3 (ota_world s)) @ [reply_msg L serial seq ret]"
proof -
  have pl: "mem_plenty (w_mem (ota_world s))" using assms(1) by (simp add: sends_def)
  obtain s1 where r: "upgrade_request L serial (Some tx) s = ((ret, Some (map file_in (js_child fi)), Some root), s1)"
    and c: "ota_calls s1 = ota_calls s @ [Ota_recv f serial (upgrade_in root fi)]" and fr: "send_frame (ota_world s) (ota_world s1)"
    using upgrade_request_handed [OF pl assms(2-5)] unfolding assms(6) by blast
  have q: "q_pubmsg_v3 (ota_world s1) = q_pubmsg_v3 (ota_world s)" using fr by (simp add: send_frame_def)
  obtain w1 w2 w3 where w: "w_json cJSON_CreateObject (ota_world s1) = (Some (js_object []), w1)"
    "w_json (upgrade_reply ret (Some (js_object []))) w1 = (Some (reply_doc ret), w2)"
    "ota_print_send L (Some (reply_doc ret)) (Some serial) ''operate_reply'' ''upgrade'' EZ_OTA_RSP seq w2 = (EZ_OTA_ERR_SUCC, w3)"
    "q_elems (q_pubmsg_v3 w3) = q_elems (q_pubmsg_v3 (ota_world s1)) @ [reply_msg L serial seq ret]"
    using reply_sent [OF send_frame_sends [OF fr assms(1)] assms(7,8)] by blast
  show ?thesis using c q w by (simp add: ez_ota_upgrade_to_device_def r on_ow_def upd_ow_def)
qed

end
