(* ===== verification/Ota_Samples.thy ===== *)
theory Ota_Samples
  imports Shadow_Samples Ota_Download Ota_Request
begin

text \<open>
  Concrete inputs for the upgrade module: a file of five bytes, a server that breaks off after the first block, a server that
  sends the rest from any position, and a request for an upgrade.
\<close>

definition sample_file :: "byte list" where
  "sample_file = [1, 2, 3, 4, 5]"

definition read_ok :: "byte list \<Rightarrow> http_read" where
  "read_ok b = \<lparr>rd_len = int (length b), rd_data = b, rd_quit = False\<rparr>"

fun pair_reads :: "byte list \<Rightarrow> http_read list" where
  "pair_reads [] = []"
| "pair_reads [x] = [read_ok [x]]"
| "pair_reads (x # y # xs) = read_ok [x, y] # pair_reads xs"

definition full_server :: "uint32 \<Rightarrow> http_try" where
  "full_server p = \<lparr>ht_session = True, ht_status = (if p = 0 then 200 else 206), ht_length = 5 - p,
     ht_reads = pair_reads (drop (unat p) sample_file), ht_quit = False\<rparr>"

definition broken_server :: "uint32 \<Rightarrow> http_try" where
  "broken_server p = (full_server p)\<lparr>ht_reads := take 1 (ht_reads (full_server p)) @ [\<lparr>rd_len = - 1, rd_data = [], rd_quit = False\<rparr>]\<rparr>"

definition sample_download :: ez_ota_download_info where
  "sample_download = \<lparr>dl_url = ''u'', dl_degist = '''', dl_block_size = 2, dl_total_size = 5, dl_timeout_s = 3, dl_retry_max = 1\<rparr>"

definition sample_ota :: "thread_start \<Rightarrow> (uint32 \<Rightarrow> http_try) list \<Rightarrow> ota" where
  "sample_ota th ts = \<lparr>ota_world = started_world, g_ota_inited = True, g_ota_cb = Some 9, g_quit = False, g_download_status = False,
     ota_threads = [th], ota_tries = ts, ota_file_codes = [], ota_recv_codes = [], ota_calls = [], ota_task = None\<rparr>"

definition sample_request :: cJSON where
  "sample_request = js_object [item_named ''maxtry'' (js_number 3), item_named ''file_info''
     (CJSON cJSON_Array 0 0 None None [js_object [item_named ''module'' (js_text ''m''), item_named ''size'' (js_number 5)]])]"

definition sample_upgrade :: ez_kernel_submsg_v3 where
  "sample_upgrade = \<lparr>sub3_buf = Some (cjson_print sample_request), sub3_msg_seq = 17, sub3_buf_len = 0, sub3_resource_id = '''',
     sub3_resource_type = '''', sub3_module = ''ota'', sub3_method = ''upgrade'', sub3_msg_type = '''', sub3_sub_serial = ''D1'', sub3_ext_msg = ''''\<rparr>"

lemma served_pairs: "ys = drop p F \<Longrightarrow> served F p (pair_reads ys)"
proof (induction ys arbitrary: p rule: pair_reads.induct)
  case (2 x p)
  then show ?case by (simp add: read_ok_def 2 [symmetric])
next
  case (3 x y xs p)
  have "drop (p + 2) F = drop 2 (drop p F)" by (simp add: add.commute)
  also have "\<dots> = xs" by (simp add: 3(2) [symmetric])
  finally have "served F (p + 2) (pair_reads xs)" by (intro 3(1)) simp
  then show ?case by (simp add: read_ok_def 3(2) [symmetric] nat_add_distrib)
qed simp

lemma served_prefix: "served F p rs \<Longrightarrow> served F p (take k rs @ [\<lparr>rd_len = - 1, rd_data = [], rd_quit = False\<rparr>])"
proof (induction rs arbitrary: p k)
  case (Cons r rs)
  then show ?case by (cases k) auto
qed simp

lemma pairs_not_stopped: "list_all (\<lambda>r. \<not> rd_quit r) (pair_reads ys)"
  by (induction ys rule: pair_reads.induct) (simp_all add: read_ok_def)

lemma sample_servers_honest: "honest sample_file full_server" "honest sample_file broken_server"
proof -
  have t: "list_all P (take 1 xs)" if "list_all P xs" for P and xs :: "http_read list" using that by (cases xs) simp_all
  show "honest sample_file full_server" "honest sample_file broken_server"
    using served_pairs [where F = sample_file, OF refl] served_prefix pairs_not_stopped t [OF pairs_not_stopped]
    by (simp_all add: honest_def full_server_def broken_server_def)
qed

lemma answers_all_pairs: "length ys = t - p \<Longrightarrow> p < t \<Longrightarrow> answers_all t 2 p (pair_reads ys)"
proof (induction ys arbitrary: p rule: pair_reads.induct)
  case (3 x y xs)
  then have "t - p = 2 + length xs" by simp
  moreover have "length xs = t - (p + 2)" using 3(2) by simp
  ultimately show ?case using 3(1) [of "p + 2"] by (cases xs) (simp_all add: read_ok_def numeral_2_eq_2)
qed (simp_all add: read_ok_def)

lemma sample_server_complete: "complete_try (length sample_file) 2 False full_server"
proof -
  have l: "length sample_file = 5" by (simp add: sample_file_def)
  have "answers_all 5 2 (unat p) (pair_reads (drop (unat p) sample_file))" if "unat p < 5" for p :: uint32
    using that by (intro answers_all_pairs) (simp_all add: l)
  then show ?thesis unfolding complete_try_def l by (simp add: full_server_def)
qed

lemma sample_ota_accepts: "accepting (sample_ota th ts)" "mem_plenty (w_mem (ota_world (sample_ota th ts)))"
  using started_world_fields(11) by (simp_all add: accepting_def sample_ota_def mem_plenty_def)

lemma sample_download_started:
  assumes "th \<noteq> Thread_refused"
  shows "\<exists>s1. ez_iot_ota_download (Some sample_download) (Some 3) (Some 4) (sample_ota th ts) = (EZ_OTA_ERR_SUCC, s1)"
proof -
  have "next_thread (sample_ota th ts\<lparr>ota_world := w\<rparr>) = th" for w by (simp add: next_thread_def sample_ota_def)
  then show ?thesis using assms sample_ota_accepts(2) [of th ts]
    by (cases th) (simp_all add: ez_iot_ota_download_def sample_download_def ez_ota_file_download_def on_ow_def w_malloc_def malloc_grown
        Let_def, simp_all add: sample_ota_def)
qed

end
