(* ===== verification/Spec2Isabelle.thy ===== *)
theory Spec2Isabelle
  imports Samples Ota_Samples
begin

text \<open>
  \<^bold>\<open>The core of the EZIoT device SDK.\<close>

  The program is an operating layer for IoT devices. Its centre is
  \<^verbatim>\<open>src/eziot/ez_iot_core\<close>: it keeps a device connected to the cloud and carries messages
  between the cloud and the modules of the device. Modelled here are the core, the components of the SDK it and
  its modules are built on (JSON, linked lists, timers), the hub, the module of a gateway that manages
  sub-devices, the device shadow, the module that keeps the properties
  of a device in step with the cloud, and the upgrade module. The parts and their theories, from the bottom up (paths below
  \<^verbatim>\<open>src/eziot/ez_iot_core/src\<close> unless they start with \<^verbatim>\<open>components\<close> or \<^verbatim>\<open>ez_iot_bm\<close>):

  \<^item> \<open>Prelude\<close>: machine types, C buffers and strings, the allocator, shared lemmas.
  \<^item> \<open>Kernel_Errors\<close>: the internal and the public error codes and their translation
    (\<^verbatim>\<open>support/utils.c\<close>), \<open>Kernel_Time\<close>: timers and text helpers of the same file.
  \<^item> \<open>Queue_Interface\<close>: the contract of a bounded queue as a locale; \<open>Kernel_Queue\<close>: the queue
    macros of \<^verbatim>\<open>dispatcher/ezdev_sdk_kernel_queue.h\<close> on sequences; \<open>Queue_Heap\<close>: the same
    macros on the linked list in memory. Both interpret the contract, and the linked list
    refines the sequence.
  \<^item> \<open>Aes_Support\<close>: padding and framing around the AES of mbedtls (\<^verbatim>\<open>support/aes_support.c\<close>).
  \<^item> \<open>Cjson_Tree\<close>: the JSON tree (\<^verbatim>\<open>components/cJSON\<close>); \<open>Cjson_Text\<close>: its printer and parser, with numbers as
    decimal fractions; \<open>Cjson_Roundtrip\<close>:
    the parser always advances, and parsing inverts printing; \<open>Cjson_Types\<close>: parsed trees are well formed, and the
    contract of the text functions as a locale.
  \<^item> \<open>Ez_List\<close>: the doubly linked list (\<^verbatim>\<open>components/ezlist\<close>) on a store of nodes, against a locale of ordered lists;
    \<open>Ez_Timer\<close>: the software timers (\<^verbatim>\<open>components/eztimer\<close>).
  \<^item> \<open>Kernel_State\<close>: the structures of \<^verbatim>\<open>inc_private/sdk_kernel_def.h\<close> and
    \<^verbatim>\<open>inc/ez_iot_core_def.h\<close> and all globals of the core in one record, \<open>world\<close>.
  \<^item> \<open>Kernel_Event\<close>: notices to the user task (\<^verbatim>\<open>dispatcher/ezdev_sdk_kernel_event.c\<close>).
  \<^item> \<open>Registry\<close>: the contract of the two extension tables as a locale; \<open>Kernel_Extend\<close>: the
    dispatcher (\<^verbatim>\<open>dispatcher/ezdev_sdk_kernel_extend.c\<close>), which interprets it twice.
  \<^item> \<open>Risk_Control\<close> (\<^verbatim>\<open>access/ezdev_sdk_kernel_risk_control.c\<close>) and \<open>Domain_Bus\<close>
    (\<^verbatim>\<open>dispatcher/access_domain_bus.c\<close>, \<^verbatim>\<open>support/ezdev_sdk_kernel_xml_parser.c\<close>): bars set by
    the platform and the other commands of the access domain.
  \<^item> \<open>Das_Codec\<close>, \<open>Das_Topic\<close>, \<open>Das_Receive\<close>, \<open>Das_Send\<close>, \<open>Das_Session\<close>: the transport to the
    access server (\<^verbatim>\<open>access/das_transport.c\<close>): documents, topics, the receive handlers, sending
    with retries, login and the periodic yield.
  \<^item> \<open>Net_Module\<close>: the socket layer (\<^verbatim>\<open>support/net_module.c\<close>); \<open>Ecdh_Support\<close>: key exchange and random
    numbers (\<^verbatim>\<open>support/ezdev_ecdh_support.c\<close>); \<open>Lbs_Packet\<close>, \<open>Lbs_Auth\<close>, \<open>Lbs_Transport\<close>: the protocol with the
    load balancer (\<^verbatim>\<open>access/lbs_transport.c\<close>); \<open>Lbs_Effects\<close> and \<open>Lbs_Memory\<close>: what an exchange leaves
    behind in the kernel, in sockets and in memory; \<open>Lbs_Replies\<close>: packets and replies end to end.
  \<^item> \<open>Kernel_Access\<close>: the access state machine (\<^verbatim>\<open>ezdev_sdk_kernel_access.c\<close>), and
    \<open>Access_Liveness\<close>: its progress when the network answers; \<open>Lbs_Contract\<close>: what the machine relies on
    from the load balancer protocol, as a locale interpreted on \<^verbatim>\<open>lbs_transport\<close>.
  \<^item> \<open>Kernel_Api\<close>: the interface calls (\<^verbatim>\<open>interface/ez_iot_core_lowlvl.c\<close>), and \<open>Kernel_Runs\<close>: the
    kernel under arbitrary sequences of calls.
  \<^item> \<open>Iot_Core\<close>: the outermost layer with its two tasks (\<^verbatim>\<open>interface/ez_iot_core.c\<close>,
    \<^verbatim>\<open>interface/ez_iot_core_ctx.c\<close>).
  \<^item> \<open>Hub_Store\<close>, \<open>Hub_Func\<close>, \<open>Hub_Api\<close>: the hub (\<^verbatim>\<open>ez_iot_bm/hub\<close>): devices and their JSON form, the operations on the stored
    list, the interface and the callbacks. \<open>Hub_Frame\<close>: what reports and requests leave alone; \<open>Hub_Docs\<close>: the stored text
    and the devices it stands for; \<open>Hub_Refine\<close>: each operation refines one on a list of devices; \<open>Hub_Laws\<close>: histories (the locale
    \<open>device_list\<close>, interpreted on the hub), queries, the retry walk, failures.
  \<^item> \<open>Shadow_Tree\<close>, \<open>Shadow_Core\<close>: the device shadow (\<^verbatim>\<open>ez_iot_bm/shadow\<close>): the register of devices, resource types, indexes, domains
    and keys with its searches and the conversion of values; messages, passes, the thread, events and the interface.
    \<open>Shadow_Register\<close>: the levels of the register as instances of one locale, and the register as a map; \<open>Shadow_Wf\<close> and \<open>Shadow_History\<close>: its
    invariant under every history; \<open>Shadow_Map\<close>: the interface as a locale of operations on a map, interpreted on the model;
    \<open>Shadow_Sync\<close>: the synchronisation ends; \<open>Shadow_Report\<close>: what a pass publishes; \<open>Shadow_Faults\<close>: acknowledgements, and calls whose effect does not
    come; \<open>Shadow_Value\<close>: values as text.
  \<^item> \<open>Ota_Core\<close>: the upgrade module (\<^verbatim>\<open>ez_iot_bm/ota\<close>); \<open>Ota_Download\<close>: what a download hands to the application, and when it
    completes; \<open>Ota_Request\<close>: memory, and requests from the platform to the reply.
  \<^item> \<open>Samples\<close>, \<open>Shadow_Samples\<close>, \<open>Ota_Samples\<close>: concrete inputs for the witnesses.

  \<^bold>\<open>Interaction.\<close> The main task calls \<^verbatim>\<open>ez_kernel_yield\<close>, which runs the access state machine:
  redirect at the load balancer, log in at the access server, then send queued messages and
  receive. Received messages are queued. The user task calls \<^verbatim>\<open>ez_kernel_yield_user\<close>, which
  takes them from the queues and calls the registered extensions. The application queues
  outgoing messages with \<^verbatim>\<open>ez_kernel_send\<close>. The tasks share the record \<^verbatim>\<open>world\<close>; each interface
  call is one step of the relation \<open>api_step\<close>. The hub is such an extension: it sends its reports with \<^verbatim>\<open>ez_kernel_send\<close>, is called by
  the dispatcher with the platform's replies, keeps its list in the key-value store and owns one of the timers; its state record \<^verbatim>\<open>hub\<close>
  contains the world and the timers. The device shadow is another: its thread sends reports and queries with \<^verbatim>\<open>ez_kernel_send_v3\<close>, the dispatcher
  brings acknowledgements, replies and values, and the application registers its properties with callbacks; its state record \<^verbatim>\<open>shadow\<close>
  contains the world. A mutex guards its register, so its operations are atomic steps; the thread is cut at the points where it waits. The upgrade module
  is called by the dispatcher with requests, asks the application, and downloads in a thread of its own; what the server answers to an attempt, for each position it may
  be asked from, is an input, and so are the moment the module is stopped and whether the thread ends before its creator goes on.

  \<^bold>\<open>Conventions.\<close> Operations are functions on \<open>world\<close> returning the C result and the new
  state, every early return being a branch. Names are those of the C functions. Error codes are
  integers with the names of the source. Lengths and counters whose width matters are words. The
  results of \<^verbatim>\<open>malloc\<close>, of the clock, of the MQTT client and the sockets are inputs held in the
  world; a call through a function pointer is an entry of the trace \<^verbatim>\<open>calls\<close>, and what a callback
  does in turn is not modelled, except for the callbacks of the hub (\<open>hub_user_step\<close>). An operation of the hub that waits for a lock nobody
  will release has the result \<open>None\<close>. The ghost counter \<^verbatim>\<open>live\<close> counts allocated blocks;
  \<open>lost_blocks\<close> is what of it no queue reaches, so an operation leaks exactly if it raises
  \<open>lost_blocks\<close>. \<^verbatim>\<open>w_fault\<close> is set when the code accesses memory outside an object.

  The text of a number stands for a decimal fraction; the rounding of doubles is not modelled, and the printer follows the code for a C library without
  floating point output. The hub reads its list with a buffer of 8192 bytes, so what it stores is read back only while it fits (\<open>list_fits\<close>). A field
  of a topic that fills its place in the message runs on into the next one, as in memory.

  \<^bold>\<open>Loops.\<close> All loops of the kernel are structurally recursive or have a termination proof, so
  no fuel is used for them; the two socket loops end because every pass uses up an answer of the
  platform or delivers a byte. The two task functions may run forever; they are given the number of
  rounds and return \<open>None\<close> when still running after it. The loops of the JSON parser over the elements of an array or object get the length of
  the text as fuel; each pass consumes text, so this is enough (\<open>array_loop_fuel\<close>, \<open>object_loop_fuel\<close>). The retry walk of the hub is a partial
  function whose termination is characterised (C34).

  \<^bold>\<open>What is shown.\<close> C1 to C5: invariants, NULL calls, transitions, life cycle and tear-down of the kernel
  under every sequence of calls. C6 and C7: the hub refines a list of devices, for single operations and histories, while memory and store answer and the text fits. C8 to C11: the device
  shadow: its interface refines a map, its invariant holds along every history, its synchronisation ends under any messages from the cloud, and what a pass publishes. C12 to C14: the
  upgrade module: what a download delivers and when it completes, and requests from the platform to the reply. C15 and C16: JSON text.
  C17 to C21: the load balancer protocol: its effects as a whole, its resources, its packets and which replies it accepts. C22: outcomes
  of the sending interface. C23: the tasks. C24: the queues. C25 to C28: the wire format and receiving. C29 and C30: sessions. C31: linked lists. C32
  and C33: timers. C34: the hub's retry walk. C35 to C39: the device shadow over several steps: acknowledgements, values in both directions, and two
  ways in which an accepted value is not sent. C40: a refused block of a download.
  Some of them state defects of the code; further defects are stated by lemmas beside them.

  \<^bold>\<open>Not modelled.\<close> The platform ports, mbedtls, the MQTT client, the HTTP client (\<^verbatim>\<open>components/webclient\<close>, whose own memory is not counted), FlashDB, the XML parser and the logger are libraries the program calls; what
  it uses of them is a parameter. For the core the JSON text functions are parameters as well, since it prints and parses through any such
  pair; the hub is proved with those of \<open>Cjson_Text\<close>. Formatted JSON output is not used. Of the Linux port the semaphore is
  modelled, since the device shadow depends on it. The other modules above the core (binding and thing model below \<^verbatim>\<open>ez_iot_bm\<close>) are future work.
\<close>

section \<open>The kernel under its interface\<close>

text \<open>
  C1. Whatever sequence of interface calls, server messages, clock changes, network
  and allocation failures a program starting from zeroed globals goes through, with the
  load balancer protocol of the source, the retry
  counters stay within their bounds, a device counted as registered has a live MQTT
  session, the queues stay well formed, and while the kernel is initialised the two
  extension tables hold each key at most once and every registered domain has a data
  route.
\<close>

theorem kernel_run_invariant:
  assumes "boot w" and "(api_step L (lbs_transport L T))\<^sup>*\<^sup>* w w'"
  shows "lbs_redirect_times (kernel w') \<le> 60 \<and> das_retry_times (kernel w') \<le> 5 \<and>
    (cnt_state (kernel w') = Sdk_cnt_das_reged \<longrightarrow> logged_in w') \<and> queues_wf w' \<and>
    (my_state (kernel w') \<noteq> Sdk_idle0 \<longrightarrow> dom_wf w' \<and> mod_wf w' \<and> routes_set w')"
  using lbs.run_inv [OF assms] by (auto simp: api_inv_def access_inv_def Let_def)

theorem kernel_run_invariant_witness:
  "my_state (kernel started_world) = Sdk_start \<and> dom_wf started_world \<and> routes_set started_world \<and>
   queues_wf started_world"
  using kernel_run_invariant [OF boot_zero_world run_to_started] started_world_fields(1)
  by auto

text \<open>
  C2. In every state a program can reach, one step of the user task on queued server
  messages whose domain is not 0 returns success and empties both queues of received
  messages, and it makes a call through a NULL function pointer exactly when the first
  queued notice is an event and the kernel was initialised with a NULL notice callback,
  which the code then calls without a check.
\<close>

theorem user_task_null_call_iff:
  assumes "boot w" and "(api_step L (lbs_transport L T))\<^sup>*\<^sup>* w w'" and "my_state (kernel w') = Sdk_start"
    and "\<forall>x \<in> set (q_elems (q_submsg w')). sub_msg_domain_id x \<noteq> 0"
  shows "\<exists>new. ez_kernel_yield_user w' = (EZ_CORE_ERR_SUCC, snd (ez_kernel_yield_user w')) \<and>
    calls (snd (ez_kernel_yield_user w')) = calls w' @ new \<and>
    (Null_call \<in> set new \<longleftrightarrow> event_notice_cb w' = None \<and>
       (\<exists>x xs. q_elems (q_inner w') = x # xs \<and> cb_type x = Extend_cb_event)) \<and>
    q_elems (q_submsg (snd (ez_kernel_yield_user w'))) = [] \<and>
    q_elems (q_submsg_v3 (snd (ez_kernel_yield_user w'))) = []"
  using user_calls_null [OF lbs.run_inv [OF assms(1,2)] _ assms(4)] assms(3)
  by (intro exI [of _ "user_calls w'"])
    (auto simp: ez_kernel_yield_user_def extend_yield_eq mkiE2ezE_def unheard_event_def split: list.splits)

theorem user_task_null_call_iff_witness:
  "\<exists>new. calls (snd (ez_kernel_yield_user started_world)) = calls started_world @ new \<and> Null_call \<notin> set new"
  using user_task_null_call_iff [OF boot_zero_world run_to_started] started_world_fields started_notice by auto

text \<open>
  C3. One yield of the access task moves the connection state only along the edges of
  the access state machine: unredirected to redirected, redirected to registered,
  registered to broken, broken back to registered, and from anywhere back to the start.
\<close>

theorem access_yield_transitions:
  assumes "access_inv w" and "access_server_yield L (lbs_transport L T) w = (e, w')"
  shows "access_inv w' \<and> cnt_state (kernel w') \<in> successors (cnt_state (kernel w))"
  using assms by (rule lbs.yield_transitions)

theorem access_yield_transitions_witness:
  "cnt_state (kernel (snd (access_server_yield sample_libs (lbs_transport sample_libs sample_crypto) started_world))) \<in>
     {Sdk_cnt_unredirect, Sdk_cnt_redirected}"
  using access_yield_transitions [of started_world sample_libs sample_crypto] api_inv_started started_world_fields(6)
  by (simp add: api_inv_def successors_def) (metis prod.collapse)

text \<open>
  C4. The life cycle calls refine a four-state machine: for each of start, stop and fini
  and each state, the error code and the next state are those of the specification.
\<close>

theorem life_cycle_refines:
  "(fst (life_run op w), my_state (kernel (snd (life_run op w)))) = life_spec op (my_state (kernel w))"
  by (rule life_run_refines) simp

text \<open>
  C5. Finishing the kernel frees every block that is reachable from the five queues:
  afterwards exactly the blocks that had been lost before are still allocated, and the
  kernel is back in its zeroed state.
\<close>

theorem fini_frees_queues:
  assumes "ez_kernel_fini w = (EZ_CORE_ERR_SUCC, w')"
  shows "w_live w' = lost_blocks w \<and> queued_blocks w' = 0 \<and> kernel w' = zero_kernel"
  using ez_kernel_fini_balance [OF assms] by simp

theorem fini_frees_queues_witness:
  "w_live (snd (ez_kernel_fini (snd (ez_kernel_stop started_world)))) = lost_blocks (snd (ez_kernel_stop started_world))"
proof -
  have "fst (ez_kernel_fini (snd (ez_kernel_stop started_world))) = EZ_CORE_ERR_SUCC"
    using life_run_refines [of Life_stop started_world "fst (ez_kernel_stop started_world)" "snd (ez_kernel_stop started_world)"]
      life_run_refines [of Life_fini "snd (ez_kernel_stop started_world)"]
      started_world_fields(1) by (cases "ez_kernel_fini (snd (ez_kernel_stop started_world))") auto
  then have "ez_kernel_fini (snd (ez_kernel_stop started_world)) =
      (EZ_CORE_ERR_SUCC, snd (ez_kernel_fini (snd (ez_kernel_stop started_world))))" by (metis prod.collapse)
  from fini_frees_queues [OF this] show ?thesis by simp
qed

section \<open>The load balancer protocol\<close>

text \<open>
  C17. Redirection is all or nothing. An exchange with the load balancer that fails leaves
  device id, keys, access server and stored values as they were; one that succeeds sets
  them together and stores the id and the master key it has set. Neither touches anything
  else but the last server address, the authentication types and the network.
\<close>

theorem redirect_all_or_nothing:
  assumes "r \<in> {lbs_redirect_with_auth L T u, lbs_redirect_createdevid_with_auth L T u, lbs_redirect L T}"
    and "r w = (e, w')"
  shows "lbs_keeps w w' \<and> lbs_effect e (forget w) (forget w') \<and>
    (if e = mkernel_internal_succ
     then saved_values w' = saved_values w @
       [(Sdk_keyvalue_devid, dev_id (kernel w')), (Sdk_keyvalue_masterkey, master_key (kernel w'))]
     else saved_values w' = saved_values w \<and> dev_id (kernel w') = dev_id (kernel w) \<and>
       master_key (kernel w') = master_key (kernel w) \<and> session_key (kernel w') = session_key (kernel w) \<and>
       redirect_das_info (kernel w') = redirect_das_info (kernel w))"
  using redirect_effect(1) [OF assms] effect_keeps effect_keys by blast

theorem redirect_all_or_nothing_witness:
  "saved_values (snd (lbs_redirect das_libs sample_crypto redirect_world)) =
     [(Sdk_keyvalue_devid, dev_id (kernel (snd (lbs_redirect das_libs sample_crypto redirect_world)))),
      (Sdk_keyvalue_masterkey, master_key (kernel (snd (lbs_redirect das_libs sample_crypto redirect_world))))]"
proof -
  obtain e w' where r: "lbs_redirect das_libs sample_crypto redirect_world = (e, w')" by fastforce
  have "fst (lbs_redirect das_libs sample_crypto redirect_world) = mkernel_internal_succ" by code_simp
  moreover have "saved_values redirect_world = []" by (simp add: redirect_world_def zero_world_def)
  ultimately show ?thesis
    using redirect_all_or_nothing [of "lbs_redirect das_libs sample_crypto" das_libs sample_crypto True redirect_world e w'] r
    by simp
qed

text \<open>
  C18. Resources of an exchange. It loses at most one block of memory, and none when no
  allocation fails. Every socket it opens it closes, and it closes no other, unless the
  transaction could not be set up.
\<close>

theorem redirect_resources:
  assumes "r \<in> {lbs_redirect_with_auth L T u, lbs_redirect_createdevid_with_auth L T u, lbs_redirect L T}"
    and "r w = (e, w')"
  shows "w_live w \<le> w_live w' \<and> w_live w' \<le> w_live w + 1 \<and> (answers (w_mem w) = [] \<longrightarrow> w_live w' = w_live w) \<and>
    (e = mkernel_internal_mem_lack \<and> net_ops w' = net_ops w @ [Sock_close 0] \<or>
     (\<forall>fd. fd \<noteq> - 1 \<longrightarrow> sock_open (net_ops w') fd = sock_open (net_ops w) fd))"
  using redirect_loses [OF assms] redirect_effect(2) [OF assms] by (auto simp: loses_one_def plenty_def)

theorem redirect_resources_witness:
  "w_live (snd (lbs_redirect das_libs sample_crypto redirect_world)) = 0"
proof -
  have "answers (w_mem redirect_world) = []" "w_live redirect_world = 0"
    by (simp_all add: redirect_world_def zero_world_def w_live_def)
  with redirect_resources [of "lbs_redirect das_libs sample_crypto" das_libs sample_crypto True redirect_world]
  show ?thesis by (metis insertCI prod.collapse)
qed

text \<open>
  When the first block of the transaction is refused, the code closes descriptor 0,
  which it never opened: the socket field is still zero from \<^verbatim>\<open>memset\<close>.
\<close>

lemma failed_setup_closes_fd_0:
  assumes "answers (w_mem w) = False # as"
  shows "fst (lbs_redirect L T w) = mkernel_internal_mem_lack \<and>
    net_ops (snd (lbs_redirect L T w)) = net_ops w @ [Sock_close 0]"
  using setup_failure_closes_0 [OF assms] by simp

text \<open>
  C19. Packet round trip. A packet headed by \<^verbatim>\<open>header_serialize_old\<close> that arrives byte for byte is
  read back by \<^verbatim>\<open>wait_assign_response\<close> with its command, its length and its payload,
  however the network splits the payload.
\<close>

theorem lbs_packet_roundtrip:
  assumes "header_serialize_old cmd (of_nat (length bs)) p = (mkernel_internal_succ, p')"
    and "head_buf p = Some []" and "head_buf_off p = 0"
    and "plat w = chunks (map (\<lambda>b. [b]) (written (head_buf p') (head_buf_off p')) @ cs) @ rest"
    and "[] \<notin> set cs" and "concat cs = bs" and "bs \<noteq> []" and "length bs \<le> CONFIG_EZIOT_CORE_MESSAGE_SIZE_MAX"
    and "payload_buf_Len (global_in_packet a) = of_nat CONFIG_EZIOT_CORE_MESSAGE_SIZE_MAX"
  shows "\<exists>a'. wait_assign_response (a, w) =
      ((mkernel_internal_succ, cmd AND 0x0F, of_nat (length bs)), (a', w\<lparr>plat := rest\<rparr>)) \<and>
    buf_read (payload_buf (global_in_packet a')) 0 (length bs) = bs"
  using assms by (rule wait_reads_packet)

theorem lbs_packet_roundtrip_witness:
  "\<exists>a'. wait_assign_response (zero_affair\<lparr>global_in_packet := ready_packet\<rparr>,
       zero_world\<lparr>plat := chunks [[0x90], [3], [5, 6], [7]]\<rparr>) =
     ((mkernel_internal_succ, 9, 3), (a', zero_world\<lparr>plat := []\<rparr>)) \<and>
   buf_read (payload_buf (global_in_packet a')) 0 3 = [5, 6, 7]"
proof -
  let ?p = "snd (header_serialize_old 9 (of_nat (length [5, 6, 7 :: byte])) ready_packet)"
  have h: "header_serialize_old 9 (of_nat (length [5, 6, 7 :: byte])) ready_packet = (mkernel_internal_succ, ?p)"
    by (simp add: header_serialize_old_def ready_packet_def)
  have "written (head_buf ?p) (head_buf_off ?p) = [0x90, 3]" by code_simp
  then show ?thesis
    using lbs_packet_roundtrip [OF h, of "zero_world\<lparr>plat := chunks [[0x90], [3], [5, 6], [7]]\<rparr>" "[[5, 6], [7]]" "[]"
        "zero_affair\<lparr>global_in_packet := ready_packet\<rparr>"]
    by (simp add: ready_packet_def CONFIG_EZIOT_CORE_MESSAGE_SIZE_MAX_def numeral_3_eq_3)
qed

text \<open>
  C20. A reply with device id and session key is accepted only if both fields pass the
  authenticated decryption with the master key, each with its exact length, and the rest
  of the reply is the 48-byte keyed hash of the serial number.
\<close>

theorem accepted_device_id_is_signed:
  assumes "parse_authentication_create_dev_id L T n a = (mkernel_internal_succ, a')"
  shows "digital_sign T (string_bytes (a_subserial a)) (a_master_key a) = (0, in_read 48 a') \<and>
    payload_buf_off (global_in_packet a') = payload_buf_off (global_in_packet a) + 86 \<and>
    ucast (n - payload_buf_off (global_in_packet a')) = (48 :: uint16) \<and>
    (\<exists>raw. aes_gcm_128_dec_padding (lib_tls L) (a_master_key a) (in_read 32 (in_skip 21 a)) (in_read 16 (in_skip 4 a)) =
       (mkernel_internal_succ, raw, Some 32) \<and> a_dev_id a' = take 32 raw) \<and>
    (\<exists>raw. aes_gcm_128_dec_padding (lib_tls L) (a_master_key a) (in_read 16 (in_skip 70 a)) (in_read 16 (in_skip 53 a)) =
       (mkernel_internal_succ, raw, Some 16) \<and> a_session_key a' = take 16 raw)"
  using create_dev_id_succ [OF assms] by simp

theorem accepted_device_id_is_signed_witness:
  "digital_sign sample_crypto [] (zeros 16) = (0, in_read 48 (snd (parse_authentication_create_dev_id sample_libs sample_crypto 134 dev_id_reply)))"
proof -
  have "fst (parse_authentication_create_dev_id sample_libs sample_crypto 134 dev_id_reply) = mkernel_internal_succ"
    by code_simp
  moreover have "a_subserial dev_id_reply = []" "a_master_key dev_id_reply = zeros 16"
    by (simp_all add: dev_id_reply_def auth_sent_def zero_affair_def)
  ultimately show ?thesis
    using accepted_device_id_is_signed [of sample_libs sample_crypto 134 dev_id_reply]
    by (metis prod.collapse string_bytes_def list.simps(8))
qed

text \<open>
  C21. The platform's public key is decrypted into a buffer of 128 bytes whose size is never
  compared with the length of the received key, and that length is cut to eight bits: for a
  reply that passes the checks before, with \<^verbatim>\<open>k\<close> bytes of key, memory behind the buffer is
  written exactly if \<^verbatim>\<open>k mod 256\<close> exceeds 128 (129 to 255 bytes, 385 to 511 bytes, and so on).
\<close>

theorem platform_key_overflow_iff:
  assumes "head_flag (global_out_packet a) = 1" and "head_flag (global_in_packet a) = 1"
    and "first_var (global_in_packet a) = first_var (global_out_packet a)" and "result_code (in_skip 3 a) = 0"
    and "dev_cur_auth_type (kernel w) = 1" and "gcm_setkey (lib_tls L) (take 16 (share_key a)) = 0"
    and "unat n = in_off a + 20 + k" and "\<not> w_fault w"
    and "\<And>d q x. ecdh_calc_secret T d q = (0, x) \<Longrightarrow> length x \<le> 48"
  shows "w_fault (snd (snd (parse_authentication_ii L T n (a, w)))) \<longleftrightarrow> 128 < k mod 256"
  using assms by (rule parse_ii_fault)

theorem platform_key_overflow_iff_witness:
  "w_fault (snd (snd (parse_authentication_ii sample_libs sample_crypto 220 (auth_reply, auth_world))))"
  using platform_key_overflow_iff [of auth_reply auth_world sample_libs 220 200 sample_crypto]
  by (simp add: auth_reply_fields) (simp add: auth_world_def zero_world_def upd_kernel_def sample_libs_def id_tls_def
    sample_crypto_def)

text \<open>
  A reply that names authentication type 0 switches authentication off: the search for
  the offered types also covers unused zero bytes, the code takes over type 0, and from
  then on both authenticating entry points fail at once, whatever happens.
\<close>

lemma rematch_to_zero_disables_authentication:
  assumes "wait_assign_response s = ((mkernel_internal_succ, DEV_PROTOCOL_AUTHENTICATION_II, n), (a, w))"
    and "head_flag (global_out_packet a) = 1" and "head_flag (global_in_packet a) = 1"
    and "var_head_buf (global_out_packet a) = Some [1, 1, 1]" and "var_head_buf_Len (global_out_packet a) = 16"
    and "first_var (global_in_packet a) = 0"
  shows "\<exists>a' w'. wait_authentication_ii L T s = (mkernel_internal_platform_lbs_auth_type_need_rematch, (a', w')) \<and>
    dev_cur_auth_type (kernel w') = 0 \<and>
    lbs_redirect_with_auth L T u w' = (mkernel_internal_internal_err, w') \<and>
    lbs_redirect_createdevid_with_auth L T u w' = (mkernel_internal_internal_err, w')"
  unfolding rematch_to_zero [OF assms] by (simp add: no_auth_without_type_1)

section \<open>Sending through the interface\<close>

text \<open>
  C22. A message that passes the checks of \<^verbatim>\<open>ez_kernel_send\<close> ends in one of three ways: it is
  queued as a copy with the next sequence number and nothing leaks; the call returns the
  memory error, the queue is as before and every block taken is freed; or it returns the
  memory error although the copy is queued, and its blocks are freed all the same.
\<close>

theorem send_outcomes:
  assumes "send_refused (Some p) w = None" and "ez_kernel_send (Some p) w = (rv, p', w')"
  shows "send_end rv (pubmsg_blocks (sent_copy (numbered p w))) (sent_copy (numbered p w))
    (q_elems (q_pubmsg w)) (q_elems (q_pubmsg w')) (lost_blocks w' - lost_blocks w)"
  using assms by (rule ez_kernel_send_effect)

theorem send_outcomes_witness:
  "q_elems (q_pubmsg (snd (snd (ez_kernel_send (Some sample_pubmsg) started_world)))) =
     [sent_copy (numbered sample_pubmsg started_world)] \<and>
   lost_blocks (snd (snd (ez_kernel_send (Some sample_pubmsg) started_world))) = lost_blocks started_world"
proof -
  have r: "send_refused (Some sample_pubmsg) started_world = None" by code_simp
  have s: "fst (ez_kernel_send (Some sample_pubmsg) started_world) = EZ_CORE_ERR_SUCC" by code_simp
  obtain rv p' w' where e: "ez_kernel_send (Some sample_pubmsg) started_world = (rv, p', w')" by (rule prod_cases3)
  from send_outcomes [OF r e] s e started_world_fields(8) show ?thesis by (simp add: send_end_def)
qed

text \<open>
  The third outcome happens: with room in the queue, one failed allocation for the
  list element followed by a successful one, the interface reports the memory error,
  frees the message and leaves it in the queue, where the sending task will use it.
\<close>

lemma send_queues_freed_message:
  assumes "q_wf (q_pubmsg w)" and "length (q_elems (q_pubmsg w)) < unat (q_maxsize (q_pubmsg w))"
    and "answers (w_mem w) = [False]"
  shows "fst (queue_or_free das_send_pubmsg_async pubmsg_blocks x w) = EZ_CORE_ERR_MEMORY \<and>
    q_elems (q_pubmsg (snd (queue_or_free das_send_pubmsg_async pubmsg_blocks x w))) = q_elems (q_pubmsg w) @ [x] \<and>
    w_live (snd (queue_or_free das_send_pubmsg_async pubmsg_blocks x w)) = w_live w + 1 - int (pubmsg_blocks x)"
  using assms q_wf_full_iff [OF assms(1)]
  by (auto simp: queue_or_free_def das_send_pubmsg_async_def push_queue_pubmsg_exchange_def push_queue_def
      ezos_malloc_def w_live_def w_frees_def)

section \<open>The tasks\<close>

text \<open>
  C23. A device that the server has forced offline keeps its main task spinning: while the
  core runs, the task function does not return, however many rounds it makes, because the
  code of every yield is translated to the general error.
\<close>

theorem forced_offline_spins:
  assumes "\<And>i c. offline_forced c \<Longrightarrow> offline_forced (env i c)" and "offline_forced c"
  shows "main_thread_func L B env n c = None"
  using assms by (rule main_thread_forced)

theorem forced_offline_spins_witness:
  "main_thread_func sample_libs sample_lbs (\<lambda>i c. c) 7
     (zero_core\<lparr>g_running := True,
        core_world := upd_kernel (\<lambda>k. k\<lparr>access_risk := Sdk_risk_control\<rparr>) started_world\<rparr>) = None"
  by (rule forced_offline_spins) (simp_all add: offline_forced_def started_world_fields)

text \<open>
  Once the kernel is not started, both task functions return in their next round and
  leave the core as it is.
\<close>

lemma tasks_return_when_stopped:
  assumes "my_state (kernel (core_world c)) \<noteq> Sdk_start"
  shows "main_thread_func L B env (Suc n) c = Some c \<and> user_thread_func env (Suc n) c = Some c"
  unfolding main_thread_func_def user_thread_func_def using tasks_end_when_stopped [OF assms] by simp

text \<open>
  Starting the core is all or nothing: on success the kernel is started and both tasks
  exist, on any failure the kernel is not started and no task is left.
\<close>

lemma core_start_all_or_nothing:
  assumes "ez_iot_core_start m u c = (rv, c')"
  shows "if rv = EZ_CORE_ERR_SUCC
    then my_state (kernel (core_world c')) = Sdk_start \<and> g_running c' \<and> g_main_thread c' \<and> g_user_thread c'
    else my_state (kernel (core_world c')) \<noteq> Sdk_start \<and> \<not> g_running c' \<and> \<not> g_main_thread c' \<and> \<not> g_user_thread c'"
  using assms by (rule start_all_or_nothing)

text \<open>
  Calling start on a core that is running returns the general error and, on its error
  path, stops the kernel and destroys both running tasks.
\<close>

lemma core_start_twice_stops:
  assumes "my_state (kernel (core_world c)) = Sdk_start"
  shows "fst (ez_iot_core_start m u c) = EZ_CORE_ERR_GENERAL \<and>
    my_state (kernel (core_world (snd (ez_iot_core_start m u c)))) = Sdk_stop \<and>
    \<not> g_main_thread (snd (ez_iot_core_start m u c)) \<and> \<not> g_user_thread (snd (ez_iot_core_start m u c))"
  using start_twice [OF assms] by simp

section \<open>Queues\<close>

text \<open>
  C24. The pointer-level queue refines the list queue: on a well-formed linked list every
  operation returns the same code and message as the list operation on the abstraction,
  leaves the abstraction of its result, and keeps the list well formed, so no operation
  follows a dangling pointer.
\<close>

theorem linked_queue_refines:
  assumes "h_wf s"
  shows "push_queue x (h_abs s) = map_prod id h_abs (h_push x s) \<and> h_wf (snd (h_push x s)) \<and>
    push_queue_head x (h_abs s) = map_prod id h_abs (h_push_head x s) \<and> h_wf (snd (h_push_head x s)) \<and>
    pop_queue (h_abs s) = map_prod id h_abs (h_pop s) \<and> h_wf (snd (h_pop s)) \<and>
    get_queue (h_abs s) = map_prod id h_abs (h_get s) \<and> h_wf (snd (h_get s))"
  using h_push_refines [OF assms] h_push_head_refines [OF assms] h_pop_refines [OF assms] h_get_refines [OF assms]
  by simp

theorem linked_queue_refines_witness:
  "h_wf (snd (h_push (5 :: nat) (\<lparr>answers = [], live = 0\<rparr>, snd (h_init True 4))))"
  using linked_queue_refines [of "(\<lparr>answers = [], live = 0\<rparr>, snd (h_init True 4))" "5 :: nat"] h_wf_init by blast

text \<open>
  First in, first out, at pointer level: a burst that fits is stored, and popping then
  yields what was queued before and the burst, each in order, and frees every element.
\<close>

lemma linked_queue_fifo:
  assumes "h_wf s" and "length (qs_items (h_abs s)) + length xs \<le> qs_capacity (h_abs s)"
    and "answers (fst s) = []"
  shows "\<exists>s' s''. push_all h_push xs s = (replicate (length xs) mkernel_internal_succ, s') \<and>
    pop_n h_pop (length (qs_items (h_abs s)) + length xs) s' =
      (map (\<lambda>x. (mkernel_internal_succ, Some x)) (qs_items (h_abs s) @ xs), s'') \<and>
    qs_items (h_abs s'') = [] \<and> live (fst s'') = live (fst s) - int (length (qs_items (h_abs s)))"
  using hq.fifo [of s xs] assms by (simp add: comp_def)

section \<open>Extensions and their messages\<close>

text \<open>
  Domain extensions with new, distinct, non-zero ids that fit in the table are all
  registered, and a lookup of each id afterwards gives exactly that extension.
\<close>

lemma domains_loaded_are_found:
  assumes "dom_wf w" and "length (dom_entries w) + length es \<le> domains_count w"
    and "\<forall>e \<in> set es. domain_id e \<noteq> 0" and "distinct (map domain_id (dom_entries w @ es))" and "e \<in> set es"
  shows "dom_lookup (domain_id e) (snd (load_all extend_load es w)) = Some e"
  using assms by (rule dreg.load_all_lookup)

text \<open>
  One step of the user task on a started kernel delivers all queued v2 messages, then
  one notice, then all queued v3 messages, each to the extension its key selects, frees
  each message with everything it owns, and reports success.
\<close>

lemma user_step_delivers:
  assumes "my_state (kernel w) = Sdk_start"
  shows "extend_yield w = (mkernel_internal_succ,
    w\<lparr>q_submsg := (q_submsg w)\<lparr>q_elems := [], q_size := 0\<rparr>,
      q_submsg_v3 := (q_submsg_v3 w)\<lparr>q_elems := [], q_size := 0\<rparr>,
      q_inner := snd (snd (pop_queue (w_mem w, q_inner w))),
      calls := calls w @ user_calls w, w_mem := ezos_frees (user_freed w) (w_mem w)\<rparr>)"
  using assms by (rule extend_yield_eq)

text \<open>
  A server message addressed to domain 0, while the table has a free slot, is
  dispatched through the empty slot: the kernel calls a NULL data route.
\<close>

lemma domain_0_message_calls_null:
  assumes "dom_wf w" and "length (dom_entries w) < domains_count w"
    and "drop (length (dom_entries w)) (domains w) = replicate n zero_domain" and "sub_msg_domain_id x = 0"
  shows "data_calls w x = [Null_call]"
  using assms by (rule data_calls_domain_0)

text \<open>
  A user event is either queued with its context as one notice, or refused with
  every block it took freed again.
\<close>

lemma user_event_never_leaks:
  assumes "broadcast_user_event ty ctx w = (e, w')"
  shows "lost_blocks w' = lost_blocks w \<and>
    q_elems (q_inner w') = q_elems (q_inner w) @ (if e = mkernel_internal_succ
      then [\<lparr>cb_type = Extend_cb_event, cb_event = \<lparr>event_type = ty, event_context = ctx\<rparr>\<rparr>] else [])"
  using broadcast_user_event_effect [OF assms] notices_added_queued(2)
  by (auto simp: notices_added_def inner_blocks_def split: if_splits) fastforce+

text \<open>
  The start notice is not freed when it cannot be queued: each refused
  \<^verbatim>\<open>broadcast_user_start\<close> that got its block loses exactly that block.
\<close>

lemma start_notice_leaks_when_refused:
  assumes "broadcast_user_start w = (e, w')" and "e \<noteq> mkernel_internal_succ"
  shows "lost_blocks w' = lost_blocks w + of_bool (fst (w_malloc w)) \<and> q_elems (q_inner w') = q_elems (q_inner w)"
  using broadcast_user_start_effect [OF assms(1)] notices_added_queued(2) assms(2)
  by (fastforce simp: notices_added_def)

section \<open>Risk control\<close>

text \<open>
  After the server bars a registered domain, every command of it is refused by the
  sending interface with the risk-control error, and the refused call changes nothing.
\<close>

lemma barred_domain_refuses_sends:
  assumes "extend_get (pub_msg_domain_id p) w = Some i" and "pub_msg_domain_id p \<noteq> DAS_CMD_COMMON_FUN"
    and "pub_msg_domain_id p \<noteq> DAS_CMD_DOMAIN" and "my_state (kernel w) = Sdk_start"
    and "pub_msg_body p \<noteq> None" and "pub_msg_body_len p \<noteq> 0"
    and "unat (pub_msg_body_len p) \<le> CONFIG_EZIOT_CORE_MESSAGE_SIZE_MAX"
  shows "ez_kernel_send (Some p) (add_domain_risk_control (pub_msg_domain_id p) w) =
    (EZ_CORE_ERR_RISK_CRTL, Some p, add_domain_risk_control (pub_msg_domain_id p) w)"
  by (rule send_refused_eq)
    (use assms check_after_add_domain [OF assms(1-3)] in \<open>auto simp: send_refused_def Let_def\<close>)

text \<open>
  A risk configuration for a domain bars only as many of its listed commands as the
  configuration has domains: the loop over the commands is bounded by the wrong length.
\<close>

lemma risk_config_truncates_commands:
  "risk_cmds did d n w =
     fold (\<lambda>c. add_cmd_risk_control did (of_int (js_valueint c))) (take n (js_child d)) w"
  by (rule risk_cmds_take)

section \<open>The wire format\<close>

text \<open>
  C25. What the device seals for the server it can open itself: encrypting a common part
  and a body and opening the result gives back both, with their lengths, for any cipher
  that decrypts what it encrypts.
\<close>

theorem payload_roundtrip:
  assumes "cbc_ok (lib_tls L) key" and "length common < 2 ^ 16" and "length body < 2 ^ 30"
  shows "\<exists>enc buf. aes_cbc_128_enc_padding (lib_tls L) key
      (plain_payload common body @ zeros (unat (calculate_padding_len (of_nat (length (plain_payload common body)))) -
        length (plain_payload common body)))
      (length (plain_payload common body)) (unat (calculate_padding_len (of_nat (length (plain_payload common body))))) =
      (mkernel_internal_succ, enc, Some (unat (calculate_padding_len (of_nat (length (plain_payload common body)))))) \<and>
    open_payload L key enc = Some (buf, length (plain_payload common body), of_nat (length common)) \<and>
    take (length common) (drop 2 buf) = common \<and>
    take (unat (body_len (length (plain_payload common body)) (of_nat (length common))))
      (moved_body buf (length (plain_payload common body)) (of_nat (length common))) = body"
  using seal_open [OF assms] by blast

theorem payload_roundtrip_witness:
  "\<exists>enc buf. open_payload sample_libs [] enc = Some (buf, 5, 2) \<and> take (length [123, 125 :: byte]) (drop 2 buf) = [123, 125]"
proof -
  have "cbc_ok (lib_tls sample_libs) []" using cbc_ok_id by (simp add: sample_libs_def)
  from payload_roundtrip [OF this, of "[123, 125]" "[9]"] plain_payload_length [of "[123, 125]" "[9]"]
  show ?thesis by auto
qed

text \<open>
  C26. The padding check accepts a decrypted payload exactly when its last bytes are a
  valid padding: between 1 and 16 bytes, each equal to their number; the length it reports
  is that of the rest.
\<close>

theorem padding_check_exact:
  assumes "aes_setkey_dec tls key = 0" and "aes_cbc_decrypt tls key cbc_iv buf = (0, out)"
    and "length buf = length out" and "length buf mod 16 = 0" and "buf \<noteq> []"
  shows "aes_cbc_128_dec_padding tls key buf = (mkernel_internal_succ, out, Some n) \<longleftrightarrow>
    (\<exists>k. 1 \<le> k \<and> k \<le> 16 \<and> length out = n + k \<and> drop n out = replicate k (of_nat k))"
  using assms by (rule dec_padding_succ_iff)

theorem padding_check_exact_witness:
  "aes_cbc_128_dec_padding id_tls [] (replicate 14 7 @ [2, 2]) = (mkernel_internal_succ, replicate 14 7 @ [2, 2], Some 14)"
  using padding_check_exact [of id_tls "[]" "replicate 14 7 @ [2, 2]" "replicate 14 7 @ [2, 2]" 14]
  by (auto simp: id_tls_def numeral_2_eq_2 intro!: exI [of _ 2])



text \<open>
  C28. Whatever bytes arrive on a v3 topic, receiving them leaks nothing: every block taken
  is freed or owned by a queued message when the handler returns.
\<close>

theorem receive_v3_never_leaks:
  "lost_blocks (das_message_receive_v3 L topic payload w) = lost_blocks w"
  by (rule receive_v3_blocks)

text \<open>
  Handing over a v2 message accounts for its blocks, except when it is addressed to the
  common domain or is an upgrade response: such a message is neither queued nor freed.
\<close>

lemma handle_v2_leaks_exactly_unhandled:
  "lost_blocks (handle_sub_msg L msg w) =
     lost_blocks w - (if unhandled msg then 0 else int (submsg_blocks msg))"
  by (rule handle_sub_msg_blocks)

text \<open>
  The move of the message body after decryption leaves the buffer exactly when the
  announced length of the common part is one less than the decrypted length: the guard
  lets that value pass and the body length wraps around.
\<close>

lemma body_move_overruns_iff:
  assumes "unat cl < n" and "n \<le> length buf" and "length buf < 2 ^ 31"
  shows "move_fault buf n cl \<longleftrightarrow> n = Suc (unat cl)"
  using assms by (rule move_fault_iff)

section \<open>Sending to the server\<close>

text \<open>
  A v3 message whose publication fails with attempts left goes back to the head of its
  queue with one attempt less, nothing leaks, and the access task is told to reconnect.
\<close>

lemma failed_publish_is_retried:
  assumes "q_wf (q_pubmsg_v3 w)" and "q_elems (q_pubmsg_v3 w) = x # xs"
    and "das_send_pubmsg_v3 L (msg_conntext_v3 x) (popped_v3 xs w) = (mkernel_internal_call_mqtt_pub_error, w2)"
    and "max_send_count_v3 x > 1" and "fst (ezos_malloc (w_mem w2))"
  shows "fst (send_message_to_das_v3 L w) = mkernel_internal_das_need_reconnect \<and>
    q_elems (q_pubmsg_v3 (snd (send_message_to_das_v3 L w))) = x\<lparr>max_send_count_v3 := max_send_count_v3 x - 1\<rparr> # xs \<and>
    lost_blocks (snd (send_message_to_das_v3 L w)) = lost_blocks w"
  using send_v3_retry [OF assms] by simp

text \<open>
  A v3 message that is published, or has no attempts left, leaves the queue, its blocks
  are freed, and the call returns the code of the attempt.
\<close>

lemma finished_publish_is_freed:
  assumes "q_elems (q_pubmsg_v3 w) = x # xs"
    and "das_send_pubmsg_v3 L (msg_conntext_v3 x) (popped_v3 xs w) = (e1, w2)"
    and "e1 \<noteq> mkernel_internal_call_mqtt_pub_error \<or> \<not> max_send_count_v3 x > 1"
  shows "fst (send_message_to_das_v3 L w) = e1 \<and>
    lost_blocks (snd (send_message_to_das_v3 L w)) = lost_blocks w \<and>
    q_elems (q_pubmsg_v3 (snd (send_message_to_das_v3 L w))) = xs"
  using send_v3_final [OF assms] by simp

text \<open>
  A queued v2 message whose command has been barred is not sent: no network operation
  happens, it leaves the queue, the code names the bar, and its external context, if it has
  one, is lost.
\<close>

lemma barred_message_dropped:
  assumes "q_elems (q_pubmsg w) = x # xs"
    and "check_cmd_risk_control (pub_msg_domain_id (msg_conntext x)) (pub_msg_command_id (msg_conntext x)) w = r"
    and "r \<noteq> 0"
  shows "net_ops (snd (send_message_to_das_v2 L w)) = net_ops w \<and>
    q_elems (q_pubmsg (snd (send_message_to_das_v2 L w))) = xs \<and>
    fst (send_message_to_das_v2 L w) = (if r = 1 then mkernel_internal_extend_no_find
       else if r = 2 then mkernel_internal_force_domain_risk else mkernel_internal_force_cmd_risk) \<and>
    lost_blocks (snd (send_message_to_das_v2 L w)) =
      lost_blocks w + of_bool (pub_externel_ctx (msg_conntext x) \<noteq> None)"
  using send_v2_barred [OF assms] by simp

section \<open>Sessions and progress\<close>

text \<open>
  C29. Registering on a closed session either succeeds with an open socket and a connected
  MQTT client, or fails with the socket closed and the client disconnected.
\<close>

theorem registration_all_or_nothing:
  assumes "das_reg L w = (e, w')" and "\<not> isconnected (das w)"
  shows "(if e = mkernel_internal_succ then logged_in w' else logged_out w') \<and> kernel w' = kernel w"
  using das_reg_effect [OF assms] sess_frame_fields(1) by blast

theorem registration_all_or_nothing_witness:
  "logged_out (snd (das_reg sample_libs zero_world))"
proof -
  have "fst (das_reg sample_libs zero_world) = mkernel_internal_input_param_invalid" by code_simp
  then obtain w' where e: "das_reg sample_libs zero_world = (mkernel_internal_input_param_invalid, w')" by (metis prod.collapse)
  have "\<not> isconnected (das zero_world)" by (simp add: zero_world_def)
  from registration_all_or_nothing [OF e this] e show ?thesis by simp
qed

text \<open>
  C30. Progress: from the unredirected state, when the LBS answers and allocations and
  network calls succeed, two yields of the access task register the device.
\<close>

theorem registers_in_two_yields:
  assumes "cnt_state (kernel w) = Sdk_cnt_unredirect" and "lbs_redirect_times (kernel w) = 0"
    and "access_risk (kernel w) = Sdk_no_risk_control" and "lbs_ok B"
    and "cnt_state_lbs_redirect B True (restart_timer w) = (mkernel_internal_succ, w1)"
    and "friendly w1" and "libs_ok L (session_key (kernel w1))" and "\<not> c_empty (dev_id (kernel w1))"
  shows "\<exists>w2 w3. access_server_yield L B w = (mkernel_internal_succ, w2) \<and>
    access_server_yield L B w2 = (mkernel_internal_succ, w3) \<and>
    cnt_state (kernel w3) = Sdk_cnt_das_reged \<and> logged_in w3"
  using two_yields_register [OF assms] by blast

theorem registers_in_two_yields_witness:
  "\<exists>w2 w3. access_server_yield sample_libs sample_lbs named_world = (mkernel_internal_succ, w2) \<and>
    access_server_yield sample_libs sample_lbs w2 = (mkernel_internal_succ, w3) \<and>
    cnt_state (kernel w3) = Sdk_cnt_das_reged \<and> logged_in w3"
proof (rule registers_in_two_yields [OF _ _ _ lbs_ok_sample _ _ libs_ok_sample])
  show "cnt_state_lbs_redirect sample_lbs True (restart_timer named_world) = (mkernel_internal_succ, restart_timer named_world)"
    by (subst cnt_state_lbs_redirect.simps) (simp add: sample_lbs_def)
qed (simp_all add: named_world_def zero_world_def zero_kernel_def restart_timer_def upd_kernel_def friendly_def)

text \<open>
  Progress: a broken connection whose back-off time has passed is re-established by
  one yield when allocations and network calls succeed.
\<close>

lemma reconnects_in_one_yield:
  assumes "friendly w" and "libs_ok L (session_key (kernel w))" and "\<not> c_empty (dev_id (kernel w))"
    and "cnt_state (kernel w) = Sdk_cnt_das_break" and "\<not> backing_off (das_retry_times (kernel w)) 1000 w"
    and "access_risk (kernel w) = Sdk_no_risk_control"
  shows "\<exists>w'. access_server_yield L B w = (mkernel_internal_succ, w') \<and>
    cnt_state (kernel w') = Sdk_cnt_das_reged \<and> logged_in w'"
  using assms by (rule retry_progress)

text \<open>
  After a failed attempt the access task backs off: with the counter at \<^verbatim>\<open>n\<close> it does
  not try again before more than \<^verbatim>\<open>n\<close> times the unit has passed since the last attempt.
\<close>

lemma back_off_holds:
  assumes "cnt_state_timer (kernel w) = ezcore_time_countdown t0 0"
  shows "backing_off n ms w \<longleftrightarrow> n \<noteq> 0 \<and> (nanos (now w) - nanos t0) div 1000000 \<le> uint n * ms"
  using assms by (auto simp: backing_off_def restart_isexpired)

section \<open>Lists and timers\<close>

text \<open>
  C31. Nodes added to a linked list and then deleted in any order: the list holds the others, in
  the order in which they were added, and no operation follows a stale link.
\<close>

theorem linked_list_refines:
  assumes "dl_rep l xs" and "distinct (xs @ ys)" and "\<forall>y \<in> set ys. ls_nodes l y \<noteq> None"
    and "length (xs @ ys) < 2 ^ 31" and "distinct zs" and "set zs \<subseteq> set (xs @ ys)"
  shows "dl_rep (fold ezlist_delete zs (fold ezlist_add_last ys l)) (filter (\<lambda>x. x \<notin> set zs) (xs @ ys))"
  using dl.del_all [OF dl.add_all [OF assms(1-4)] assms(2,5,6)] .

theorem linked_list_refines_witness:
  "dl_rep (fold ezlist_delete [2, 1] (fold ezlist_add_last [1, 2, 3] sample_nodes)) [3]"
  using linked_list_refines [of sample_nodes "[]" "[1, 2, 3]" "[2, 1]"]
  by (simp add: sample_nodes_def dl_rep_def)

text \<open>
  Access by position returns the node at that position exactly in the first half of
  the list and at two thirds of it; for the last position it returns NULL.
\<close>

lemma list_position_right_iff:
  assumes "dl_rep l xs" and "0 < unat index" and "unat index \<le> length xs"
  shows "(ezlist_get_at l index = Some (Some (xs ! (unat index - 1)))
      \<longleftrightarrow> unat index < length xs div 2 \<or> 3 * unat index = 2 * length xs)
    \<and> (unat index = length xs \<longrightarrow> ezlist_get_at l index = Some None)"
proof
  show "ezlist_get_at l index = Some (Some (xs ! (unat index - 1)))
      \<longleftrightarrow> unat index < length xs div 2 \<or> 3 * unat index = 2 * length xs"
    using assms by (rule get_at_right_iff)
  show "unat index = length xs \<longrightarrow> ezlist_get_at l index = Some None"
    using assms(2) by (auto simp: get_at_value [OF assms])
qed

text \<open>
  C32. Repeating timers that have just been set: after \<^verbatim>\<open>k\<close> rounds of 100 ms a timer of \<^verbatim>\<open>n\<close> times
  100 ms has made \<^verbatim>\<open>(k - 1) div n\<close> callbacks. A timer shorter than one round makes one callback only.
\<close>

theorem timer_fire_counts:
  assumes "running s" and "\<forall>t \<in> set (t_list s). tm_reload t \<and> 0 \<le> tm_time_out t \<and> tm_count_down t = tm_time_out t div 100"
  shows "count_list (t_calls ((timer_tick ^^ k) s)) f = count_list (t_calls s) f
    + (\<Sum>t\<leftarrow>t_list s. if tm_fun t = Some f
         then (if tm_time_out t < 100 then of_bool (0 < k) else (k - 1) div nat (tm_time_out t div 100)) else 0)"
proof -
  have "map (\<lambda>t. if tm_fun t = Some f then fire_count k t else 0) (t_list s)
      = map (\<lambda>t. if tm_fun t = Some f
          then (if tm_time_out t < 100 then of_bool (0 < k) else (k - 1) div nat (tm_time_out t div 100)) else 0) (t_list s)"
    using assms(2) by (intro map_cong refl) (simp only: fire_count_fresh)
  with calls_after [OF assms(1), of k f] assms(2) show ?thesis by simp
qed

theorem timer_fire_counts_witness:
  "count_list (t_calls ((timer_tick ^^ 31) sample_timers)) 1 = 3 \<and> count_list (t_calls ((timer_tick ^^ 31) sample_timers)) 2 = 1"
  using timer_fire_counts [of sample_timers 31 1] timer_fire_counts [of sample_timers 31 2]
  by (simp add: sample_timers_fields running_def)

text \<open>
  C33. As long as threads can be created and only registered timers are deleted, the timers never use a missing lock
  and never divide by zero, and registered timers have a live lock.
\<close>

theorem timers_never_fault:
  assumes "timer_step\<^sup>*\<^sup>* (zero_timers\<lparr>t_mem := m, t_mutexes := ms, t_starts := st\<rparr>) s"
  shows "\<not> t_fault s \<and> (t_list s \<noteq> [] \<longrightarrow> t_invalid s \<and> t_mutex s = Mutex_live \<and> t_msec s = 100)"
proof -
  have "timers_wf (zero_timers\<lparr>t_mem := m, t_mutexes := ms, t_starts := st\<rparr>)"
    by (simp add: timers_wf_def zero_timers_def)
  from timer_run_wf [OF assms this] show ?thesis
    by (auto simp: timers_wf_def split: if_splits)
qed

theorem timers_never_fault_witness: "\<not> t_fault sample_timers \<and> t_mutex sample_timers = Mutex_live"
proof -
  have "timer_step zero_timers (snd (eztimer_create ''a'' 1000 True (Some 1) zero_timers))"
    by (rule timer_step.create) (simp add: zero_timers_def)
  moreover have "timer_step (snd (eztimer_create ''a'' 1000 True (Some 1) zero_timers)) sample_timers"
    unfolding sample_timers_def by (rule timer_step.create) code_simp
  ultimately have "timer_step\<^sup>*\<^sup>* zero_timers sample_timers"
    by (meson converse_rtranclp_into_rtranclp rtranclp.rtrancl_refl)
  moreover have "zero_timers = zero_timers\<lparr>t_mem := \<lparr>answers = [], live = 0\<rparr>, t_mutexes := [], t_starts := []\<rparr>"
    by (simp add: zero_timers_def)
  ultimately show ?thesis
    using timers_never_fault [where m = "\<lparr>answers = [], live = 0\<rparr>" and ms = "[]" and st = "[]" and s = sample_timers] by (simp add: sample_timers_fields)
qed

text \<open>
  Deleting a timer that is no longer registered while one other timer runs destroys the lock
  of the timers; the thread then uses the destroyed lock.
\<close>

lemma delete_of_fired_timer_destroys_lock:
  assumes "timers_wf s" and "t_thread s" and "t_invalid s" and "t_list s = [t]" and "tm_id t \<noteq> i"
  shows "t_list (snd (eztimer_delete i s)) = [t] \<and> t_mutex (snd (eztimer_delete i s)) = Mutex_destroyed
    \<and> t_fault (timer_tick (snd (eztimer_delete i s)))"
  using assms by (rule delete_unknown)

text \<open>
  When the thread of the timers cannot be created, the call fails; the next one divides by zero.
\<close>

lemma failed_start_divides_by_zero:
  assumes "timers_wf s" and "\<not> t_invalid s" and "t_starts s = Create_failed # rest" and "\<forall>ok \<in> set (t_mutexes s). ok"
    and "eztimer_create name time_out reload fn s = (rc, s')" and "fst (ezos_malloc (t_mem s'))"
  shows "rc = - 1 \<and> t_fault (snd (eztimer_create name' time_out' reload' fn' s'))"
  using assms by (rule failed_start)

section \<open>JSON text\<close>

text \<open>
  C15. Printing and parsing are inverse: a tree of C strings and 32-bit numbers, nested no deeper than the limit, is parsed back from
  its printed text in canonical form.
\<close>

theorem json_print_parse:
  assumes "json_ok t" and "json_depth t \<le> CJSON_NESTING_LIMIT"
  shows "cjson_parse (cjson_print t) = Some (canon t)"
  using cj.print_parse [OF assms] by simp

theorem json_print_parse_witness:
  "cjson_parse (cjson_print (list_json [(True, ez_subdev_info_t.extend sample_subdev (hub_subdev_info_internal_t.fields 0))])) =
     Some (list_json [(True, ez_subdev_info_t.extend sample_subdev (hub_subdev_info_internal_t.fields 0))])"
proof -
  let ?e = "(True, ez_subdev_info_t.extend sample_subdev (hub_subdev_info_internal_t.fields 0))"
  have e: "entry_ok ?e"
    by (simp add: entry_ok_def sample_subdev_def dev_ok_def int8_def c_string_def ez_subdev_info_t.extend_def
        hub_subdev_info_internal_t.fields_def)
  have "json_ok (list_json [?e])" "json_depth (list_json [?e]) \<le> CJSON_NESTING_LIMIT"
    using dev_json_print [OF e] by (simp_all add: list_json_def CJSON_NESTING_LIMIT_def)
  moreover have "canon (list_json [?e]) = list_json [?e]"
    using dev_json_print [OF e] by (cases "dev_json ?e") (simp add: list_json_def set_name_def)
  ultimately show ?thesis using json_print_parse [of "list_json [?e]"] by simp
qed

text \<open>
  C16. Whatever text it is given, the parser returns only well-formed trees: values in the fields of their type, names exactly on
  the members of objects, texts that are C strings, and nesting within the limit. If every number of the tree is an integer that
  fits into 32 bits (was written without a fraction), printing and parsing the tree again gives the same tree.
\<close>

theorem json_parser_typed:
  assumes "cjson_parse b = Some t"
  shows "json_wf t \<and> js_string t = None \<and> json_depth t \<le> CJSON_NESTING_LIMIT \<and>
    (small_numbers t \<longrightarrow> cjson_parse (cjson_print t) = Some t)"
  using cj.parse_wf [OF assms] cj.reparse [OF assms] by blast

theorem json_parser_typed_witness:
  "\<exists>t. cjson_parse (hublist (stored_hub [''A1'', ''A2''])) = Some t \<and> json_wf t \<and> json_depth t \<le> CJSON_NESTING_LIMIT"
proof -
  obtain es where "stores (hublist (stored_hub [''A1'', ''A2''])) es" "length es = 2"
    using stored_hub_samples(2) by (auto simp: hub_rep_def dest: map_eq_imp_length_eq)
  then have "cjson_parse (hublist (stored_hub [''A1'', ''A2''])) = Some (list_json es)" by (auto simp: stores_def split: if_splits)
  then show ?thesis using json_parser_typed by blast
qed

text \<open>
  The fraction of a negative number does not survive: printed as the code does without floating point output, -0.5 becomes
  a positive number.
\<close>

lemma negative_fraction_printed:
  "print_number (CJSON cJSON_Number 0 (Decimal (- 5) 1) None None []) = Some ''0.50000000000001''"
  by code_simp

section \<open>The hub\<close>

text \<open>
  C6. The hub implements a list of devices: on a state that represents the list \<^verbatim>\<open>ds\<close> in the store's JSON text, every operation returns
  with the code and the list the specification says, raises no fault, leaves the lock free, and reports the events of the specification.
  The conditions: the module is initialised with a callback, its lock is free, allocations and calls of the store succeed (\<^verbatim>\<open>calm\<close>, part of \<^verbatim>\<open>hub_rep\<close>), the
  arguments fit the interface's structures, and the text of the resulting list fits into the 8192 bytes the next read asks for (\<^verbatim>\<open>op_fits_list\<close>).
\<close>

theorem hub_refines_device_list:
  assumes "hub_rep h s" and "op_ok op" and "op_fits_list op s"
  shows "\<exists>h'. hub_exec (with_cjson L) T op h = Some (fst (spec_exec op s), h') \<and> hub_rep h' (snd (spec_exec op s)) \<and>
    w_fault (hub_world h') = w_fault (hub_world h) \<and> hub_events h' = hub_events h @ op_events op s"
  using hub_refines [OF json_libs_cjson assms] unfolding refines_def .

theorem hub_refines_device_list_witness:
  "\<exists>h'. hub_exec (with_cjson sample_libs) sample_crypto (Op_add sample_subdev) sample_hub = Some (EZ_HUB_ERR_SUCC, h') \<and>
    hub_rep h' ([ez_subdev_info_t.extend sample_subdev (hub_subdev_info_internal_t.fields 0)], 1)"
  using hub_refines_device_list [OF sample_hub_rep sample_subdev_ok sample_subdev_fits, of sample_libs sample_crypto]
  by (auto simp: spec_add_def COMPONENT_HUB_SUBLIST_MAX_def)

text \<open>
  C7. While allocations and calls of the store succeed and the text of every list of the history fits into the 8192 bytes it is read
  with, every history of operations on the hub returns, its codes are those of the specification, and serial numbers stay distinct
  and the list within its 64 places. (A refused call of the store can block the hub for ever, see \<^verbatim>\<open>failed_clean_blocks_hub\<close>.)
\<close>

theorem hub_history_invariant:
  assumes "hub_rep h s" and "spec_inv s" and "list_all op_ok ops" and "run_fits ops s"
  shows "\<exists>es h' s'. exec_run (hub_exec (with_cjson L) T) ops h = Some (es, h') \<and> hub_rep h' s' \<and> spec_inv s' \<and>
    (es, s') = spec_run ops s"
  by (rule hub.history_inv [OF assms])

theorem hub_history_invariant_witness:
  "\<exists>es h'. exec_run (hub_exec (with_cjson sample_libs) sample_crypto) [Op_add sample_subdev, Op_add sample_subdev, Op_del ''A1'',
      Op_ver ''A1'' ''2''] sample_hub = Some (es, h') \<and>
    es = [EZ_HUB_ERR_SUCC, EZ_HUB_ERR_SUBDEV_EXISTED, EZ_HUB_ERR_SUCC, EZ_HUB_ERR_SUBDEV_NOT_FOUND]"
proof -
  let ?ops = "[Op_add sample_subdev, Op_add sample_subdev, Op_del ''A1'', Op_ver ''A1'' ''2'']"
  have "list_all op_ok ?ops" using sample_subdev_ok by (simp add: c_string_def)
  moreover have "spec_inv ([], 0)" by (simp add: spec_inv_def)
  moreover have "run_fits ?ops ([], 0)" by code_simp
  moreover have "fst (spec_run ?ops ([], 0)) =
      [EZ_HUB_ERR_SUCC, EZ_HUB_ERR_SUBDEV_EXISTED, EZ_HUB_ERR_SUCC, EZ_HUB_ERR_SUBDEV_NOT_FOUND]"
    by code_simp
  ultimately show ?thesis
    using hub_history_invariant [OF sample_hub_rep, of ?ops sample_libs sample_crypto] by (metis fst_conv)
qed

text \<open>
  A device that was added with a version of at most 32 characters is returned unchanged by a query for its serial number.
\<close>

lemma added_device_is_found:
  assumes "hub_rep h s" and "op_ok (Op_add info)" and "op_fits_list (Op_add info) s" and "length (sd_ver info) \<le> 32"
    and "ez_iot_hub_add (with_cjson L) T (Some info) h = Some (EZ_HUB_ERR_SUCC, h1)"
  shows "\<exists>h2. ez_iot_hub_subdev_query (with_cjson L) (Some (sd_sn info)) (Some info0) h1 = Some ((EZ_HUB_ERR_SUCC, Some info), h2)"
  using json_libs_cjson assms by (rule add_then_query)

text \<open>
  C34. With a pending authentication, and while allocations and calls of the store succeed, the retry timer's walk over the devices (whose
  serial numbers are distinct) ends exactly if none of them has an empty serial number. Its effect is then that of one call of
  \<^verbatim>\<open>hub_subdev_auth_do\<close> for each device that is not authenticated, in the order of the list, and nothing else: all memory the enumeration
  took is given back. With an empty serial number the walk starts again for ever.
\<close>

theorem hub_retry_walks:
  assumes "hub_rep h (ds, n)" and "distinct (map sd_sn ds)" and "0 < n"
  shows "auth_retry_timer_cb (with_cjson L) T h =
    (if '''' \<in> sd_sn ` set ds then None
     else Some (fold (\<lambda>d g. snd (hub_subdev_auth_do (with_cjson L) T (dev_read d) g)) (filter (\<lambda>d. sd_access d \<noteq> 1) ds) h))"
  using retry_timer_requests [OF json_libs_cjson assms] unfolding request_all_def .

theorem hub_retry_walks_witness:
  "auth_retry_timer_cb (with_cjson sample_libs) sample_crypto (stored_hub [''A1'', '''']) = None \<and>
   (\<exists>h'. auth_retry_timer_cb (with_cjson sample_libs) sample_crypto (stored_hub [''A1'', ''A2'']) = Some h')"
  using hub_retry_walks [OF stored_hub_samples(1), of sample_libs sample_crypto]
    hub_retry_walks [OF stored_hub_samples(2), of sample_libs sample_crypto]
  by (auto simp: ez_subdev_info_t.extend_def)

text \<open>
  When the store refuses to clear the list, the call returns the storage error with the lock still held: every later
  operation, query or report of the hub waits for ever.
\<close>

lemma failed_clean_blocks_hub:
  assumes "unlocked h" and "g_hub_inited h" and "kv_codes h = c # cs" and "c \<noteq> 0"
  shows "\<exists>h'. ez_iot_hub_clean L h = Some (EZ_HUB_ERR_STORAGE, h') \<and> (\<forall>T op. hub_exec L T op h' = None) \<and>
    (\<forall>sn d. hub_subdev_query L sn d h' = None) \<and> hub_subdev_list_report L h' = None"
proof -
  obtain h' where h': "ez_iot_hub_clean L h = Some (EZ_HUB_ERR_STORAGE, h')" "hub_locked h'" "g_hub_inited h'"
    using clean_failure_locks [OF assms] by blast
  then show ?thesis using locked_blocks [OF h'(2,3)] by blast
qed

text \<open>
  After a stop the hub cannot be started again, since its functions stay registered with the core; a message or notice the
  core delivers to them then takes a lock that was destroyed.
\<close>

lemma hub_restart_refused:
  assumes "dom_wf (hub_world h)" and "\<not> g_hub_inited h" and "ez_iot_hub_init cbs h = (EZ_HUB_ERR_SUCC, h1)"
    and "ez_iot_hub_deinit h1 = (rv, h2)"
  shows "rv = EZ_HUB_ERR_SUCC \<and> fst (ez_iot_hub_init (Some True) h2) = EZ_HUB_ERR_INTERNAL \<and>
    dom_lookup (domain_id hub_extension) (hub_world h2) = Some hub_extension \<and>
    (\<exists>h3. hub_lock body h2 = Some (body h3) \<and> w_fault (hub_world h3))"
  using restart_refused [OF assms] by blast

section \<open>The device shadow\<close>

text \<open>
  C8. The interface of the device shadow refines a map from paths (device, resource type, index, domain, key) to entries, in a module that is
  initialised, has memory and a well-formed register. Registering succeeds and adds or renews exactly the registered keys of the path, provided
  the resource type is not empty, there are 1 to 32767 keys, and the names fit their fields (\<^verbatim>\<open>shadow_legal\<close>). Pushing a value succeeds exactly for a
  path that is there: that entry alone takes the document \<^verbatim>\<open>tlv2json\<close> makes of the value, its version is raised and it becomes due under no message
  number; any other path is refused and nothing changes. Unregistering removes exactly the entries of its device.
\<close>

theorem shadow_interface_refines_map:
  assumes "shadow_usable s"
  shows "(shadow_legal sn ty dm bs \<longrightarrow> (\<exists>s'. shadow_reg sn ty ix dm bs s = (0, s') \<and> shadow_usable s' \<and>
      (\<forall>v z x y k. shadow_look s' (v, z, x, y, k) = (let old = shadow_look s (v, z, x, y, k) in
        if (v, z, x, y) = (shadow_sn sn s, ty, ix, dm) then register_all bs k old else old)))) \<and>
    (case shadow_look s (shadow_sn sn s, ty, ix, dm, key) of
        None \<Rightarrow> \<exists>e. shadow_push L sn ty ix dm key val s = (e, s) \<and> e \<noteq> 0
      | Some n \<Rightarrow> \<exists>s'. shadow_push L sn ty ix dm key val s = (0, s') \<and> shadow_usable s' \<and>
          shadow_look s' = (shadow_look s)((shadow_sn sn s, ty, ix, dm, key) \<mapsto>
            n\<lparr>nk_stat_ver := nk_stat_ver n + 1, nk_need_report := True, nk_msg_seq := 0,
              nk_json_value := fst (tlv2json L val (w_json_delete (nk_json_value n) (sh_world s)))\<rparr>)) \<and>
    (\<exists>s'. shadow_unreg sn s = (0, s') \<and> shadow_usable s' \<and>
      (\<forall>v q. shadow_look s' (v, q) = (if v = shadow_sn sn s then None else shadow_look s (v, q))))"
proof (intro conjI impI)
  show "\<exists>s'. shadow_reg sn ty ix dm bs s = (0, s') \<and> shadow_usable s' \<and>
      (\<forall>v z x y k. shadow_look s' (v, z, x, y, k) = (let old = shadow_look s (v, z, x, y, k) in
        if (v, z, x, y) = (shadow_sn sn s, ty, ix, dm) then register_all bs k old else old))" if "shadow_legal sn ty dm bs"
    using shd.reg_look [OF assms that, of ix] by blast
  show "case shadow_look s (shadow_sn sn s, ty, ix, dm, key) of
        None \<Rightarrow> \<exists>e. shadow_push L sn ty ix dm key val s = (e, s) \<and> e \<noteq> 0
      | Some n \<Rightarrow> \<exists>s'. shadow_push L sn ty ix dm key val s = (0, s') \<and> shadow_usable s' \<and>
          shadow_look s' = (shadow_look s)((shadow_sn sn s, ty, ix, dm, key) \<mapsto>
            n\<lparr>nk_stat_ver := nk_stat_ver n + 1, nk_need_report := True, nk_msg_seq := 0,
              nk_json_value := fst (tlv2json L val (w_json_delete (nk_json_value n) (sh_world s)))\<rparr>)"
  proof (cases "shadow_look s (shadow_sn sn s, ty, ix, dm, key)")
    case None
    then show ?thesis using shd.push_miss [OF assms None] by simp
  next
    case (Some n)
    show ?thesis using shd.push_hit [OF assms Some, of L val] unfolding Some changed_key_def stored_value_def
      by (auto simp: fun_eq_iff)
  qed
  show "\<exists>s'. shadow_unreg sn s = (0, s') \<and> shadow_usable s' \<and>
      (\<forall>v q. shadow_look s' (v, q) = (if v = shadow_sn sn s then None else shadow_look s (v, q)))"
    using shd.unreg_look [OF assms, of sn] by blast
qed

theorem shadow_interface_refines_map_witness:
  "\<exists>s'. shadow_reg ''D1'' ''T'' 0 ''d'' [sample_business] (sample_shadow []) = (0, s') \<and>
    shadow_look s' (''D1'', ''T'', 0, ''d'', ''k'') = Some (new_key sample_business)"
proof -
  have l: "shadow_legal ''D1'' ''T'' ''d'' [sample_business]" by (simp add: shadow_legal_def sample_business_def)
  have n: "shadow_look (sample_shadow []) (''D1'', ''T'', 0, ''d'', ''k'') = None"
    by (simp add: shadow_look_def sample_shadow_def reg_key_def find_dev_def)
  have r: "register_all [sample_business] ''k'' None = Some (new_key sample_business)"
    by (simp add: register_all_def register_def sample_business_def)
  obtain s' where "shadow_reg ''D1'' ''T'' 0 ''d'' [sample_business] (sample_shadow []) = (0, s')"
    and "\<forall>v z x y k. shadow_look s' (v, z, x, y, k) = (let old = shadow_look (sample_shadow []) (v, z, x, y, k) in
      if (v, z, x, y) = (shadow_sn ''D1'' (sample_shadow []), ''T'', 0, ''d'') then register_all [sample_business] k old else old)"
    using shadow_interface_refines_map [OF sample_shadow_usable(1), THEN conjunct1, THEN mp, OF l, of 0] by blast
  then show ?thesis using n r by (auto simp: sample_sn)
qed

text \<open>
  A key that was registered takes a value, which makes it due for a report under no message number; after its device was removed the
  same call is refused and changes nothing.
\<close>

lemma registered_key_takes_values:
  assumes "shadow_usable s" and "shadow_legal sn ty dm bs" and "b \<in> set bs"
  shows "\<exists>s1 s2 n s3 e. shadow_reg sn ty ix dm bs s = (0, s1) \<and> shadow_push L sn ty ix dm (sb_key b) val s1 = (0, s2) \<and>
    shadow_look s2 (shadow_sn sn s, ty, ix, dm, sb_key b) = Some n \<and> nk_need_report n \<and> nk_msg_seq n = 0 \<and>
    shadow_unreg sn s1 = (0, s3) \<and> shadow_push L sn ty ix dm (sb_key b) val s3 = (e, s3) \<and> e \<noteq> 0"
proof -
  obtain s1 s2 n where r: "shadow_reg sn ty ix dm bs s = (0, s1)" "shadow_push L sn ty ix dm (sb_key b) val s1 = (0, s2)"
      "shadow_look s2 (shadow_sn sn s, ty, ix, dm, sb_key b) = Some n" "nk_need_report n" "nk_msg_seq n = 0"
    using shd.reg_push [OF assms, of ix L val] by blast
  have "shadow_usable s1" using shd.reg_look [OF assms(1,2), of ix] r(1) by auto
  from shd.unreg_push [OF this, of sn L ty ix dm "sb_key b" val] r show ?thesis by blast
qed

text \<open>
  C9. Whatever sequence of interface calls, turns of the thread, events and messages of the core and failed allocations the module
  goes through from an empty register, at every level of the register no two nodes have the same name, and no index has used more attempts at its query than
  the maximum. The condition on the calls (\<^verbatim>\<open>op_fits\<close>): a registration names a resource type that is not empty, and a serial number (47), type, domain and keys
  (31 characters each) that fit their fields; with an empty type, or a name that is cut, the same node would be added again under a name already there.
\<close>

theorem shadow_history_invariant:
  assumes "g_shaodw_modules s = []" and "list_all op_fits ps"
  shows "modules_ok (g_shaodw_modules (fold (shadow_step L) ps s)) \<and>
    all_indexes attempts_ok (g_shaodw_modules (fold (shadow_step L) ps s))"
proof -
  have "shadow_inv s" using assms(1) by (simp add: shadow_inv_def modules_ok_def named_def all_indexes_def)
  from shadow_history_inv [OF this assms(2)] show ?thesis by (simp add: shadow_inv_def)
qed

theorem shadow_history_invariant_witness:
  "modules_ok (g_shaodw_modules (fold (shadow_step sample_libs) [Shop_reg (Some \<lparr>res_dev_serial = ''D1'', res_res_type = ''T'', res_local_index = 0\<rparr>)
     (Some ''d'') (Some \<lparr>sm_num = 1, sm_business = Some [sample_business]\<rparr>), Shop_turn False, Shop_event None] (sample_shadow [])))"
  by (rule shadow_history_invariant [THEN conjunct1])
    (simp_all add: sample_shadow_def op_fits_def short_type_def props_fit_def sample_business_def)

text \<open>
  C10. The synchronisation ends. The module is synchronising, no request to reset, synchronise or report anew is pending (\<^verbatim>\<open>no_request\<close>), and every index has
  attempts within the maximum and a waiting time that is over by \<^verbatim>\<open>T\<close>. Then any sequence of passes of the thread, the first not before \<^verbatim>\<open>T\<close> and each at least the retry
  interval after the one before, and of messages from the cloud (replies, assignments and acknowledgements of any content, at any place in the sequence) brings
  the module to its last state, once there are more than four passes for each index, whatever the core answers to the queries.
\<close>

theorem shadow_sync_ends:
  assumes "no_request s" and "g_shadow_status s = Shadow_status_sync" and "all_fit T s" and "spaced T es"
    and "(CONFIG_EZIOT_SHADOW_FULL_SYNC_RETRY_MAX + 1) * count_indexes (g_shaodw_modules s) < length (filter is_pass es)"
  shows "g_shadow_status (fold (sync_do L) es s) = Shadow_status_chg"
  by (rule sync_events_end [OF assms(1-4)]) (use sync_work_bound [of "g_shaodw_modules s"] assms(5) in linarith)

theorem shadow_sync_ends_witness:
  "g_shadow_status (fold (sync_do sample_libs) (Pass \<lparr>tv_sec = 100, tv_nsec = 0\<rparr> #
      Message (Some \<lparr>res_dev_serial = ''D1'', res_res_type = ''T'', res_local_index = 0\<rparr>) 1 ''query_reply'' (Payload_buf None) #
      map (\<lambda>i. Pass \<lparr>tv_sec = 130 + 30 * int i, tv_nsec = 0\<rparr>) [0..<4])
    ((sample_shadow (sample_modules [sample_key None]))\<lparr>g_shadow_status := Shadow_status_sync\<rparr>)) = Shadow_status_chg"
  by (rule shadow_sync_ends [where T = 0])
    (simp_all add: no_request_def sample_shadow_def all_fit_def dev_fit_def set_fit_def index_fit_def attempts_ok_def due_by_def
      sample_modules_def sample_index_def zero_timer_def upt_rec numeral_nat ts_wf_def nanos_def count_indexes_def
      CONFIG_EZIOT_SHADOW_FULL_SYNC_RETRY_MAX_def CONFIG_EZIOT_SHADOW_FULL_SYNC_RETRY_INTERVAL_def)

text \<open>
  C11. With a started core, memory and room in the queue, and if every due key holds a stored value whose report is not empty and within the size limit of a
  message, a pass over the register publishes exactly one message for each due key, in the order of the register and with consecutive numbers, loses no
  memory, and says 1 exactly if keys still wait for an answer. (A due key without a stored value asks the application and may stop the pass, see
  \<^verbatim>\<open>empty_value_blocks_reports\<close>.)
\<close>

theorem shadow_pass_publishes:
  assumes "sends (due_count (now (sh_world s)) (keys_of (g_shaodw_modules s))) (sh_world s)"
    and "\<forall>x\<in>set (keys_of (g_shaodw_modules s)). key_due (now (sh_world s)) (key_of x) \<longrightarrow> value_fits L x"
    and "shadow_proc_report L s = (rv, s1)"
  shows "keys_of (g_shaodw_modules s1) = keys_sent (now (sh_world s)) (das_transport_seq (sh_world s)) (keys_of (g_shaodw_modules s)) \<and>
    q_elems (q_pubmsg_v3 (sh_world s1)) = q_elems (q_pubmsg_v3 (sh_world s)) @
      msgs_sent L (now (sh_world s)) (das_transport_seq (sh_world s)) (keys_of (g_shaodw_modules s)) \<and>
    lost_blocks (sh_world s1) = lost_blocks (sh_world s) \<and>
    rv = (if list_ex (\<lambda>x. key_waits (now (sh_world s)) (key_of x)) (keys_of (g_shaodw_modules s)) then 1 else 0)"
  using proc_report_publishes [OF assms(1) [unfolded due_count_def] assms(2,3)] by blast

theorem shadow_pass_publishes_witness:
  "\<exists>s1. shadow_proc_report sample_libs (sample_shadow (sample_modules [sample_key (Some (js_number 5))])) = (0, s1) \<and>
    length (q_elems (q_pubmsg_v3 (sh_world s1))) = 1"
proof -
  let ?s = "sample_shadow (sample_modules [sample_key (Some (js_number 5))])"
  obtain rv s1 where r: "shadow_proc_report sample_libs ?s = (rv, s1)" by (metis surj_pair)
  show ?thesis
    using shadow_pass_publishes [of ?s sample_libs rv s1] r sample_due sample_sends started_world_fields(9)
    by (simp add: sample_pass_keys due_count_def key_of_def)
qed

text \<open>
  C35. With a started core, memory and room in the queue, if every due key holds a stored value whose report is not empty and within the size limit of a message:
  when every message of a pass is acknowledged, by events that come in the order of the messages, exactly the keys that were due are
  idle: nothing to report, no value, no number, no timer. The other keys stay as they were, provided that the new numbers are not 0 and none of the other
  keys waits under one of them.
\<close>

theorem acknowledged_reports_are_idle:
  assumes "sends (due_count (now (sh_world s)) (keys_of (g_shaodw_modules s))) (sh_world s)"
    and "\<forall>x\<in>set (keys_of (g_shaodw_modules s)). key_due (now (sh_world s)) (key_of x) \<longrightarrow> value_fits L x"
    and "qs = numbers (das_transport_seq (sh_world s)) (due_count (now (sh_world s)) (keys_of (g_shaodw_modules s)))" and "0 \<notin> set qs"
    and "\<forall>x\<in>set (keys_of (g_shaodw_modules s)). \<not> key_due (now (sh_world s)) (key_of x) \<longrightarrow> nk_msg_seq (key_of x) \<notin> set qs"
    and "shadow_proc_report L s = (rv, s1)"
  shows "keys_of (g_shaodw_modules (fold (\<lambda>q. shadow_event_route L (Some (ack_event q))) qs s1)) =
    map (\<lambda>x. if key_due (now (sh_world s)) (key_of x) then on_key idle_key x else x) (keys_of (g_shaodw_modules s))"
  using report_cycle [OF assms(1,2) _ _ assms(6)] assms(3-5) by (simp add: acknowledge_def [abs_def])

theorem acknowledged_reports_are_idle_witness:
  "\<exists>rv s1. shadow_proc_report sample_libs (sample_shadow (sample_modules [sample_key (Some (js_number 5))])) = (rv, s1) \<and>
    keys_of (g_shaodw_modules (fold (\<lambda>q. shadow_event_route sample_libs (Some (ack_event q))) [das_transport_seq started_world + 1] s1)) =
      [on_key idle_key (''D1'', ''T'', 0, ''d'', sample_key (Some (js_number 5)))]"
proof -
  let ?s = "sample_shadow (sample_modules [sample_key (Some (js_number 5))])"
  obtain rv s1 where r: "shadow_proc_report sample_libs ?s = (rv, s1)" by (metis surj_pair)
  show ?thesis
    using acknowledged_reports_are_idle [OF _ _ refl _ _ r] r sample_due sample_sends started_room(2)
    by (simp add: sample_pass_keys key_of_def due_count_def)
qed

text \<open>
  C38. A value can be accepted and stay where it is: when the thread has finished its work and has not yet begun to wait, a push succeeds and makes its key due, but the
  token it posts is taken by the wait that follows, which then waits for another signal. Until the waiting time of a day is over,
  or somebody posts again, no number of turns sends anything.
\<close>

theorem wake_up_lost:
  assumes "shadow_usable s" and "thread_done s" and "shadow_look s (shadow_sn sn s, ty, ix, dm, k) = Some n"
    and "shadow_push L sn ty ix dm k val s = (rv, s1)"
  shows "rv = 0 \<and> (\<exists>n1. shadow_look s1 (shadow_sn sn s, ty, ix, dm, k) = Some n1 \<and> nk_need_report n1) \<and>
    (\<forall>m. sh_world ((shadow_core_yeild L False ^^ m) s1) = sh_world s1 \<and>
      g_shaodw_modules ((shadow_core_yeild L False ^^ m) s1) = g_shaodw_modules s1)"
proof (intro conjI allI)
  show 0: "rv = 0" and "\<exists>n1. shadow_look s1 (shadow_sn sn s, ty, ix, dm, k) = Some n1 \<and> nk_need_report n1"
    using shd.push_hit [OF assms(1,3), of L val] assms(4) by (auto simp: changed_key_def)
  fix m
  obtain s0 where s0: "thread_done s0" "s1 = ezos_sem_post s0"
    using push_thread_done [OF assms(2) _ assms(4) [unfolded 0]] assms(1) by (auto simp: shadow_usable_def)
  have "sh_world s1 = sh_world s0" "g_shaodw_modules s1 = g_shaodw_modules s0"
    using s0 by (auto simp: ezos_sem_post_def thread_done_def split: ez_sem.splits)
  then show "sh_world ((shadow_core_yeild L False ^^ m) s1) = sh_world s1"
    and "g_shaodw_modules ((shadow_core_yeild L False ^^ m) s1) = g_shaodw_modules s1"
    using post_before_wait [OF s0(1), where L = L] s0(2) by (cases m; simp)+
qed

theorem wake_up_lost_witness:
  "\<exists>s1. shadow_push sample_libs ''D1'' ''T'' 0 ''d'' ''k'' (Some sample_value) (sample_shadow (sample_modules [sample_key None])) = (0, s1) \<and>
    sh_world ((shadow_core_yeild sample_libs False ^^ 1000) s1) = sh_world s1"
proof -
  let ?s = "sample_shadow (sample_modules [sample_key None])"
  obtain rv s1 where p: "shadow_push sample_libs ''D1'' ''T'' 0 ''d'' ''k'' (Some sample_value) ?s = (rv, s1)" by (metis surj_pair)
  have "thread_done ?s" by (simp add: thread_done_def sample_shadow_def)
  from wake_up_lost [OF sample_shadow_usable(2) this _ p] show ?thesis using p sample_look by (simp add: sample_sn)
qed

text \<open>
  C39. One key can stop all reports: when the first due key has no stored value and the application answers for it with a value of length 0 (an
  empty string, say), every turn of the thread ends there. As long as the answers stay so, no key changes and nothing is sent, whatever
  the keys behind it hold.
\<close>

theorem empty_value_blocks_reports:
  assumes "reporting s" and "blocked_by (now (sh_world s)) (keys_of (g_shaodw_modules s))"
    and "sh_dev_values s = as @ bs" and "list_all no_length as"
  shows "keys_of (g_shaodw_modules ((shadow_core_yeild L e ^^ length as) s)) = keys_of (g_shaodw_modules s) \<and>
    sh_world ((shadow_core_yeild L e ^^ length as) s) = sh_world s \<and> reporting ((shadow_core_yeild L e ^^ length as) s)"
  using turns_blocked [OF assms] by blast

theorem empty_value_blocks_reports_witness:
  "sh_world ((shadow_core_yeild sample_libs False ^^ 3) ((sample_shadow (sample_modules [sample_key None, sample_key (Some (js_number 5))]))
     \<lparr>sh_proc_result := - 1, sh_dev_values := replicate 3 (0, zero_value)\<rparr>)) = started_world"
proof -
  let ?s = "(sample_shadow (sample_modules [sample_key None, sample_key (Some (js_number 5))]))
     \<lparr>sh_proc_result := - 1, sh_dev_values := replicate 3 (0, zero_value)\<rparr>"
  have "reporting ?s" by (simp add: reporting_def sample_shadow_def no_request_def)
  moreover have "blocked_by (now (sh_world ?s)) (keys_of (g_shaodw_modules ?s))"
    by (simp add: blocked_by_def sample_shadow_def sample_keys key_due_def key_waits_def key_of_def sample_key_def new_key_def zero_timer_def
        sample_business_def)
  ultimately show ?thesis
    using empty_value_blocks_reports [of ?s "replicate 3 (0, zero_value)" "[]" sample_libs False]
    by (simp add: no_length_def zero_value_def list_all_iff sample_shadow_def)
qed

text \<open>
  C36. A boolean, a 32-bit integer or a non-empty string the cloud desires for a registered key with a callback, in a document in the form this printer gives it,
  reaches the callback of that key once and unchanged, the callback's answer is the result of the call, and nothing of the document stays in memory, provided
  allocations succeed. For a string the callback is given freed memory. (Arrays, objects and numbers with a fraction are not covered.)
\<close>

theorem desired_value_reaches_callback:
  assumes "scalar_tlv v" and "mem_plenty (w_mem (sh_world s))" and "c_text (Some dm)" and "c_text (Some key)"
    and "locate_key (g_shaodw_modules s) sn ty ix dm key = Inr p" and "nk_cloud2dev (key_at (g_shaodw_modules s) p) = Some f"
    and "sh_dev_codes s = code # codes"
  shows "shadow_set2dev (with_cjson L) sn ty ix (Some (cjson_print (set_doc dm key (value_json v)))) s =
    (code, upd_sw (faulty (is_string_value v))
      (s\<lparr>sh_dev_codes := codes, sh_calls := sh_calls s @ [Sh_cloud2dev f v (shadow_param sn ty ix dm key s)]\<rparr>))"
  using assms by (rule desired_reaches_callback)

theorem desired_value_reaches_callback_witness:
  "\<exists>s1 p. shadow_set2dev (with_cjson sample_libs) ''D1'' ''T'' 0 (Some (cjson_print (set_doc ''d'' ''k'' (value_json sample_value))))
     ((sample_shadow (sample_modules [sample_key None]))\<lparr>sh_dev_codes := [9]\<rparr>) = (9, s1) \<and> sh_calls s1 = [Sh_cloud2dev 7 sample_value p]"
proof -
  let ?s = "(sample_shadow (sample_modules [sample_key None]))\<lparr>sh_dev_codes := [9]\<rparr>"
  have l: "locate_key (g_shaodw_modules ?s) ''D1'' ''T'' 0 ''d'' ''k'' = Inr ((0, 0, 0), 0, 0)" by code_simp
  have f: "nk_cloud2dev (key_at (g_shaodw_modules ?s) ((0, 0, 0), 0, 0)) = Some 7" by code_simp
  show ?thesis
    using desired_value_reaches_callback [OF _ _ _ _ l f, of sample_value 9 "[]" sample_libs] started_world_fields(11)
    by (simp add: sample_value_def scalar_tlv_def mem_plenty_def sample_shadow_def c_text_def upd_sw_def)
qed

text \<open>
  C37. A value that is pushed as a boolean, an integer or a non-empty string is read back unchanged from the text of its report.
\<close>

theorem pushed_value_roundtrip:
  assumes "scalar_tlv v" and "mem_plenty (w_mem w)" and "c_text (Some dm)" and "c_text (Some key)" and "unat ver < 2 ^ 31"
  shows "\<exists>j w1 doc item. tlv2json L (Some v) w = (Some j, w1) \<and>
    cjson_parse (report_text (with_cjson L) dm key j ver) = Some doc \<and>
    cJSON_GetObjectItem (cJSON_GetObjectItem (cJSON_GetObjectItem (Some doc) ''state'') ''reported'') ''value'' = Some item \<and>
    json2tlv L item w1 = ((0, v), w1)"
  using assms by (rule pushed_value_read_back)

theorem pushed_value_roundtrip_witness:
  "\<exists>j w1 doc item. tlv2json sample_libs (Some sample_value) started_world = (Some j, w1) \<and>
    cjson_parse (report_text (with_cjson sample_libs) ''d'' ''k'' j 1) = Some doc \<and>
    cJSON_GetObjectItem (cJSON_GetObjectItem (cJSON_GetObjectItem (Some doc) ''state'') ''reported'') ''value'' = Some item \<and>
    json2tlv sample_libs item w1 = ((0, sample_value), w1)"
  by (rule pushed_value_roundtrip)
    (use started_world_fields(11) in \<open>simp_all add: sample_value_def scalar_tlv_def mem_plenty_def c_text_def\<close>)

section \<open>The upgrade module\<close>

text \<open>
  C12. A download the interface has started hands the application the file: whatever the network does, by the end of the download the blocks follow each
  other from the start without gap or overlap, also across the retries, and success is notified exactly when the whole file was handed over. No more attempts
  are made than the application allows and the memory is as before. The mark of a running download is then cleared exactly when the thread
  did not end before its creator went on: otherwise it stays set. The server may break off and may ignore ranges, but does
  not send wrong bytes; the application accepts every block and does not stop the module; the sizes fit 31 bits.
\<close>

theorem download_delivers_file:
  assumes "ez_iot_ota_download (Some d) (Some f) (Some n) s = (EZ_OTA_ERR_SUCC, s1)"
    and "dl_total_size d = int (length F)" and "dl_total_size d < 2 ^ 31" and "dl_block_size d < 2 ^ 31"
    and "accepting s" and "list_all (honest F) (ota_tries s)"
  shows "\<exists>cs q r. ota_calls (download_end s1) = ota_calls s @ cs @ [Ota_notify n r] \<and>
    tiles F f 0 cs q \<and> concat (map block_of cs) = take q F \<and> (r = RESULT_SUC \<longleftrightarrow> q = length F) \<and>
    w_live (ota_world (download_end s1)) = w_live (ota_world s) \<and>
    (g_download_status (download_end s1) \<longleftrightarrow> next_thread s = Thread_ends_first) \<and>
    length (ota_tries s) \<le> length (ota_tries (download_end s1)) + nat (dl_retry_max d) + 1"
proof -
  obtain info s0 where
    i: "download_end s1 = (ota_file_download_thread info s0)\<lparr>g_download_status := next_thread s = Thread_ends_first\<rparr>"
      "download_ready F info s0" "oi_file_cb info = f" "oi_notify info = n" "oi_retry_max info = dl_retry_max d"
    and s: "ota_calls s0 = ota_calls s" "ota_tries s0 = ota_tries s" "w_live (ota_world s0) = w_live (ota_world s) + 1"
    using started_ready [OF assms] by blast
  from download_thread_tiles [OF i(2)] obtain cs q r where
    "ota_calls (ota_file_download_thread info s0) = ota_calls s @ cs @ [Ota_notify n r]" "tiles F f 0 cs q" "r = RESULT_SUC \<longleftrightarrow> q = length F"
    "w_live (ota_world (ota_file_download_thread info s0)) = w_live (ota_world s)"
    "length (ota_tries s) \<le> length (ota_tries (ota_file_download_thread info s0)) + nat (dl_retry_max d) + 1"
    unfolding i s by auto
  with tiles_bytes [of F f 0 cs q] show ?thesis by (intro exI [of _ cs] exI [of _ q] exI [of _ r]) (simp add: i(1))
qed

theorem download_delivers_file_witness:
  "\<exists>s1 cs q r. ez_iot_ota_download (Some sample_download) (Some 3) (Some 4) (sample_ota Thread_runs [broken_server]) = (EZ_OTA_ERR_SUCC, s1) \<and>
    ota_calls (download_end s1) = cs @ [Ota_notify 4 r] \<and> concat (map block_of cs) = take q sample_file \<and> (r = RESULT_SUC \<longleftrightarrow> q = 5) \<and>
    \<not> g_download_status (download_end s1)"
proof -
  let ?s = "sample_ota Thread_runs [broken_server]"
  obtain s1 where s: "ez_iot_ota_download (Some sample_download) (Some 3) (Some 4) ?s = (EZ_OTA_ERR_SUCC, s1)"
    using sample_download_started by blast
  have h: "list_all (honest sample_file) (ota_tries ?s)" using sample_servers_honest by (simp add: sample_ota_def)
  have c: "dl_total_size sample_download = int (length sample_file)" "dl_total_size sample_download < 2 ^ 31" "dl_block_size sample_download < 2 ^ 31"
    "ota_calls ?s = []" "length sample_file = 5" "next_thread ?s = Thread_runs"
    by (simp_all add: sample_download_def sample_file_def sample_ota_def next_thread_def)
  from download_delivers_file [OF s c(1-3) sample_ota_accepts(1) h] s show ?thesis unfolding c(4-6) by auto
qed

text \<open>
  C13. A download finishes when the network allows it: if one of the attempts the application allows is answered completely, whatever position it has
  to start from, the application gets the whole file and is notified of the success, however the attempts before it broke off.
\<close>

theorem download_completes:
  assumes "ez_iot_ota_download (Some d) (Some f) (Some n) s = (EZ_OTA_ERR_SUCC, s1)"
    and "dl_total_size d = int (length F)" and "dl_total_size d < 2 ^ 31" and "dl_block_size d < 2 ^ 31"
    and "accepting s" and "list_all (honest F) (ota_tries s)" and "mem_plenty (w_mem (ota_world s))"
    and "ota_tries s = as @ a # bs" and "int (length as) \<le> dl_retry_max d \<or> as = []"
    and "complete_try (length F) (nat (dl_block_size d)) (as = []) a"
  shows "\<exists>cs. ota_calls (download_end s1) = ota_calls s @ cs @ [Ota_notify n RESULT_SUC] \<and> concat (map block_of cs) = F"
proof -
  obtain info s0 where
    i: "download_end s1 = (ota_file_download_thread info s0)\<lparr>g_download_status := next_thread s = Thread_ends_first\<rparr>"
      "download_ready F info s0" "oi_notify info = n" "oi_retry_max info = dl_retry_max d" "unat (oi_recv_size info) = nat (dl_block_size d)"
    and s: "ota_calls s0 = ota_calls s" "ota_tries s0 = ota_tries s" "mem_plenty (w_mem (ota_world s0))"
    using started_ready [OF assms(1-6)] assms(7) by blast
  show ?thesis using download_thread_completes [OF i(2) s(3), of as a bs] assms(8-10) i s by simp
qed

theorem download_completes_witness:
  "\<exists>s1 cs. ez_iot_ota_download (Some sample_download) (Some 3) (Some 4) (sample_ota Thread_runs [broken_server, full_server]) = (EZ_OTA_ERR_SUCC, s1) \<and>
    ota_calls (download_end s1) = cs @ [Ota_notify 4 RESULT_SUC] \<and> concat (map block_of cs) = [1, 2, 3, 4, 5]"
proof -
  let ?s = "sample_ota Thread_runs [broken_server, full_server]"
  obtain s1 where s: "ez_iot_ota_download (Some sample_download) (Some 3) (Some 4) ?s = (EZ_OTA_ERR_SUCC, s1)"
    using sample_download_started by blast
  have h: "list_all (honest sample_file) (ota_tries ?s)" using sample_servers_honest by (simp add: sample_ota_def)
  have "ota_tries ?s = [broken_server] @ full_server # []" by (simp add: sample_ota_def)
  from download_completes [OF s _ _ _ sample_ota_accepts(1) h sample_ota_accepts(2) this] sample_server_complete s show ?thesis
    by (simp add: sample_download_def sample_file_def) (simp add: sample_ota_def)
qed

text \<open>
  C14. A request for an upgrade is handed to the application once, with the files of its document cut to the sizes of their fields, and answered
  once, under the number of the request and with the code the application returned.
\<close>

theorem upgrade_request_answered:
  assumes "sends 1 (ota_world s)" and "g_ota_cb s = Some f" and "sub3_method m = ''upgrade''" and "sub3_buf m = Some tx"
    and "cJSON_Parse (lib_text L) tx = Some root" and "cJSON_GetObjectItem (Some root) ''file_info'' = Some fi" and "js_type fi = cJSON_Array"
    and "ret = (case ota_recv_codes s of [] \<Rightarrow> 0 | c # _ \<Rightarrow> c)"
    and "cJSON_text (lib_text L) (reply_doc ret) \<noteq> []" and "length (cJSON_text (lib_text L) (reply_doc ret)) \<le> CONFIG_EZIOT_CORE_MESSAGE_SIZE_MAX"
    and "serial = strncpy (sub3_sub_serial m) (ezdev_sdk_max_serial_len - 1)"
  shows "ota_calls (ez_ota_data_route_cb L (Some m) s) = ota_calls s @ [Ota_recv f serial (upgrade_in root fi)] \<and>
    q_elems (q_pubmsg_v3 (ota_world (ez_ota_data_route_cb L (Some m) s))) =
      q_elems (q_pubmsg_v3 (ota_world s)) @ [reply_msg L serial (sub3_msg_seq m) ret]"
  using upgrade_handed_and_answered [OF assms(1,2,5-10), of serial "sub3_msg_seq m"] assms(3,4,11)
  by (auto simp: ez_ota_data_route_cb_def)

theorem upgrade_request_answered_witness:
  "ota_calls (ez_ota_data_route_cb (with_cjson sample_libs) (Some sample_upgrade) (sample_ota Thread_runs [])) =
    [Ota_recv 9 ''D1'' \<lparr>ui_retry_max = 3, ui_interval = 0, ui_pota_files =
      [\<lparr>fi_mod_name = ''m'', fi_url = '''', fi_fw_ver = '''', fi_degist = '''', fi_size = 5, fi_pdiffs = None\<rparr>]\<rparr>]"
proof -
  let ?fi = "CJSON cJSON_Array 0 0 None (Some ''file_info'') [js_object [item_named ''module'' (js_text ''m''), item_named ''size'' (js_number 5)]]"
  let ?L = "with_cjson sample_libs"
  have s: "sends 1 (ota_world (sample_ota Thread_runs []))" "g_ota_cb (sample_ota Thread_runs []) = Some 9"
    "0 = (case ota_recv_codes (sample_ota Thread_runs []) of [] \<Rightarrow> 0 | c # _ \<Rightarrow> c)" "ota_calls (sample_ota Thread_runs []) = []"
    using sample_sends(1) by (simp_all add: sample_ota_def)
  have m: "sub3_method sample_upgrade = ''upgrade''" "sub3_buf sample_upgrade = Some (cjson_print sample_request)"
    "''D1'' = strncpy (sub3_sub_serial sample_upgrade) (ezdev_sdk_max_serial_len - 1)"
    by (simp_all only: sample_upgrade_def ez_kernel_submsg_v3.simps) code_simp
  have "cjson_parse (cjson_print sample_request) = Some sample_request" by code_simp
  then have p: "cJSON_Parse (lib_text ?L) (cjson_print sample_request) = Some sample_request" by (simp add: with_cjson_def)
  have f: "cJSON_GetObjectItem (Some sample_request) ''file_info'' = Some ?fi" "js_type ?fi = cJSON_Array" by code_simp+
  have u: "upgrade_in sample_request ?fi = \<lparr>ui_retry_max = 3, ui_interval = 0, ui_pota_files =
      [\<lparr>fi_mod_name = ''m'', fi_url = '''', fi_fw_ver = '''', fi_degist = '''', fi_size = 5, fi_pdiffs = None\<rparr>]\<rparr>"
    by code_simp
  have "cjson_print (reply_doc 0) \<noteq> []" "length (cjson_print (reply_doc 0)) \<le> CONFIG_EZIOT_CORE_MESSAGE_SIZE_MAX" by code_simp+
  then have r: "cJSON_text (lib_text ?L) (reply_doc 0) \<noteq> []"
    "length (cJSON_text (lib_text ?L) (reply_doc 0)) \<le> CONFIG_EZIOT_CORE_MESSAGE_SIZE_MAX"
    by (simp_all add: with_cjson_def)
  from upgrade_request_answered [OF s(1,2) m(1,2) p f s(3) r m(3)] show ?thesis by (simp only: u s(4) append_Nil)
qed

text \<open>
  C40. A block the application refuses counts as a success: the loop ends there with the code 0, so that nothing more is read, no attempt follows and the application is notified
  that the download has succeeded although it has got the first block only.
\<close>

theorem refused_block_counts_as_success:
  assumes "ota_tries s = a # as" and "ota_file_codes s = c # cs" and "c \<noteq> 0" and "\<not> g_quit s" and "mem_plenty (w_mem (ota_world s))"
    and "ht_session (a 0)" and "ht_status (a 0) = 200" and "ht_length (a 0) = oi_total_size info"
    and "ht_reads (a 0) = r # rs" and "\<not> rd_quit r" and "rd_len r = sint (min (oi_total_size info) (oi_recv_size info))"
  shows "ota_calls (ota_file_download_thread info s) =
    ota_calls s @ [Ota_file (oi_file_cb info) (oi_total_size info) 0 (take (unat (min (oi_total_size info) (oi_recv_size info))) (rd_data r)),
      Ota_notify (oi_notify info) RESULT_SUC]"
  using assms by (rule refused_block_ends_download)

theorem refused_block_counts_as_success_witness:
  "ota_calls (ota_file_download_thread \<lparr>oi_url = ''u'', oi_check_sum = '''', oi_total_size = 5, oi_recv_size = 2, oi_timeout_s = 3, oi_retry_max = 1,
      oi_file_cb = 3, oi_notify = 4\<rparr> ((sample_ota Thread_runs [full_server])\<lparr>ota_file_codes := [- 1]\<rparr>)) =
    [Ota_file 3 5 0 [1, 2], Ota_notify 4 RESULT_SUC]"
proof -
  let ?s = "(sample_ota Thread_runs [full_server])\<lparr>ota_file_codes := [- 1]\<rparr>"
  have "ht_reads (full_server 0) = read_ok [1, 2] # [read_ok [3, 4], read_ok [5]]" by (simp add: full_server_def sample_file_def)
  moreover have "min 5 2 = (2 :: uint32)" by code_simp
  ultimately show ?thesis
    using refused_block_counts_as_success [of ?s full_server "[]" "- 1" "[]" "\<lparr>oi_url = ''u'', oi_check_sum = '''', oi_total_size = 5, oi_recv_size = 2,
        oi_timeout_s = 3, oi_retry_max = 1, oi_file_cb = 3, oi_notify = 4\<rparr>" "read_ok [1, 2]" "[read_ok [3, 4], read_ok [5]]"]
      sample_ota_accepts(2) [of Thread_runs "[full_server]"]
    by (simp add: full_server_def read_ok_def) (simp add: sample_ota_def)
qed

end
